(* ===== verification/Commons_Prelude.thy ===== *)
theory Commons_Prelude
  imports Main "HOL-Library.Word"
begin

text \<open>
  Shared material of the development: results of fallible Go functions and their
  sequencing, loops that return early, Go's white-space trimming on byte strings,
  decimal printing of counters, and 64-bit two's-complement wrap-around.

  A Go function that returns \<open>(T, error)\<close> is modelled by a function into
  \<open>'e + 'a\<close>: \<open>Inl e\<close> is the error return, \<open>Inr x\<close> the value. A Go
  \<open>string\<close> is its byte sequence, an Isabelle \<open>string\<close>.
\<close>

named_theorems res_simps \<open>evaluation and inversion of fallible steps\<close>

subsection \<open>Fallible steps\<close>

text \<open>
  \<open>bind_res r k\<close> is the pattern \<^verbatim>\<open>x, err := r; if err != nil { return err }; k(x)\<close>.
\<close>

definition bind_res :: "'e + 'a \<Rightarrow> ('a \<Rightarrow> 'e + 'b) \<Rightarrow> 'e + 'b" where
  "bind_res r k = (case r of Inl e \<Rightarrow> Inl e | Inr x \<Rightarrow> k x)"

lemma bind_res_simps [simp, res_simps]:
  "bind_res (Inl e) k = Inl e"
  "bind_res (Inr x) k = k x"
  by (simp_all add: bind_res_def)

lemma bind_res_eq_Inr [res_simps]:
  "bind_res r k = Inr y \<longleftrightarrow> (\<exists>x. r = Inr x \<and> k x = Inr y)"
  by (cases r) auto

lemma bind_res_eq_Inl [res_simps]:
  "bind_res r k = Inl e \<longleftrightarrow> r = Inl e \<or> (\<exists>x. r = Inr x \<and> k x = Inl e)"
  by (cases r) auto

lemma bind_res_cong [fundef_cong]:
  "r = r' \<Longrightarrow> (\<And>x. r' = Inr x \<Longrightarrow> k x = k' x) \<Longrightarrow> bind_res r k = bind_res r' k'"
  by (cases r') auto

text \<open>A guard: \<^verbatim>\<open>if bad { return err }\<close>.\<close>

definition refuse :: "bool \<Rightarrow> 'e \<Rightarrow> 'e + unit" where
  "refuse bad e = (if bad then Inl e else Inr ())"

lemma refuse_simps [simp, res_simps]:
  "refuse False e = Inr ()"
  "refuse True e = Inl e"
  by (simp_all add: refuse_def)

lemma refuse_eq_Inr [simp, res_simps]: "refuse bad e = Inr u \<longleftrightarrow> \<not> bad"
  by (simp add: refuse_def)

lemma refuse_eq_Inl [simp, res_simps]: "refuse bad e = Inl e' \<longleftrightarrow> bad \<and> e' = e"
  by (auto simp: refuse_def)

text \<open>A loop over a slice whose body may return an error: the state is what the body updates.\<close>

fun fold_res :: "('s \<Rightarrow> 'x \<Rightarrow> 'e + 's) \<Rightarrow> 's \<Rightarrow> 'x list \<Rightarrow> 'e + 's" where
  "fold_res f s [] = Inr s"
| "fold_res f s (x # xs) = bind_res (f s x) (\<lambda>s'. fold_res f s' xs)"

lemma fold_res_append:
  "fold_res f s (xs @ ys) = bind_res (fold_res f s xs) (\<lambda>s'. fold_res f s' ys)"
proof (induction xs arbitrary: s)
  case Nil
  then show ?case by simp
next
  case (Cons x xs)
  then show ?case by (cases "f s x") auto
qed

lemma fold_res_invariant:
  assumes "fold_res f s xs = Inr t" and "I s"
    and "\<And>u x v. I u \<Longrightarrow> x \<in> set xs \<Longrightarrow> f u x = Inr v \<Longrightarrow> I v"
  shows "I t"
  using assms
proof (induction xs arbitrary: s)
  case Nil
  then show ?case by simp
next
  case (Cons x xs)
  from Cons.prems(1) obtain u where u: "f s x = Inr u" "fold_res f u xs = Inr t"
    by (auto simp: bind_res_eq_Inr)
  have "I u" by (rule Cons.prems(3) [OF Cons.prems(2) _ u(1)]) simp
  then show ?case by (rule Cons.IH [OF u(2)]) (rule Cons.prems(3), simp_all)
qed

text \<open>Every element of a loop that ran to the end was accepted in some state along the way.\<close>

lemma fold_res_each:
  assumes "fold_res f s xs = Inr t" and "x \<in> set xs"
  shows "\<exists>u v. f u x = Inr v"
  using assms
  by (induction xs arbitrary: s) (auto simp: bind_res_eq_Inr)

text \<open>A loop that builds a slice element by element and may return an error on the way.\<close>

fun map_res :: "('x \<Rightarrow> 'e + 'y) \<Rightarrow> 'x list \<Rightarrow> 'e + 'y list" where
  "map_res f [] = Inr []"
| "map_res f (x # xs) = bind_res (f x) (\<lambda>y. bind_res (map_res f xs) (\<lambda>ys. Inr (y # ys)))"

lemma map_res_eq_Inr:
  "map_res f xs = Inr ys \<longleftrightarrow> list_all2 (\<lambda>x y. f x = Inr y) xs ys"
  by (induction xs arbitrary: ys) (auto simp: bind_res_eq_Inr list_all2_Cons1)

subsection \<open>White space\<close>

text \<open>
  The UTF-8 encodings of the characters for which Go's \<open>unicode.IsSpace\<close> holds.
  \<open>strings.TrimSpace\<close> removes them from both ends of a byte string.
\<close>

definition space_encodings :: "string list" where
  "space_encodings =
     [[CHR 0x09], [CHR 0x0A], [CHR 0x0B], [CHR 0x0C], [CHR 0x0D], [CHR 0x20],
      [CHR 0xC2, CHR 0x85], [CHR 0xC2, CHR 0xA0], [CHR 0xE1, CHR 0x9A, CHR 0x80],
      [CHR 0xE2, CHR 0x80, CHR 0x80], [CHR 0xE2, CHR 0x80, CHR 0x81],
      [CHR 0xE2, CHR 0x80, CHR 0x82], [CHR 0xE2, CHR 0x80, CHR 0x83],
      [CHR 0xE2, CHR 0x80, CHR 0x84], [CHR 0xE2, CHR 0x80, CHR 0x85],
      [CHR 0xE2, CHR 0x80, CHR 0x86], [CHR 0xE2, CHR 0x80, CHR 0x87],
      [CHR 0xE2, CHR 0x80, CHR 0x88], [CHR 0xE2, CHR 0x80, CHR 0x89],
      [CHR 0xE2, CHR 0x80, CHR 0x8A], [CHR 0xE2, CHR 0x80, CHR 0xA8],
      [CHR 0xE2, CHR 0x80, CHR 0xA9], [CHR 0xE2, CHR 0x80, CHR 0xAF],
      [CHR 0xE2, CHR 0x81, CHR 0x9F], [CHR 0xE3, CHR 0x80, CHR 0x80]]"

fun strip_prefix :: "'a list \<Rightarrow> 'a list \<Rightarrow> 'a list option" where
  "strip_prefix [] ys = Some ys"
| "strip_prefix (x # xs) [] = None"
| "strip_prefix (x # xs) (y # ys) = (if x = y then strip_prefix xs ys else None)"

lemma strip_prefix_eq_Some [simp]: "strip_prefix xs ys = Some zs \<longleftrightarrow> ys = xs @ zs"
  by (induction xs ys rule: strip_prefix.induct) auto

fun strip_any :: "'a list list \<Rightarrow> 'a list \<Rightarrow> 'a list option" where
  "strip_any [] ys = None"
| "strip_any (p # ps) ys =
     (case strip_prefix p ys of Some zs \<Rightarrow> Some zs | None \<Rightarrow> strip_any ps ys)"

lemma strip_any_Some: "strip_any ps ys = Some zs \<Longrightarrow> \<exists>p \<in> set ps. ys = p @ zs"
  by (induction ps) (auto split: option.splits)

lemma strip_any_None: "strip_any ps ys = None \<Longrightarrow> p \<in> set ps \<Longrightarrow> ys \<noteq> p @ zs"
  by (induction ps) (auto split: option.splits simp flip: strip_prefix_eq_Some)

function trim_left_with :: "'a list list \<Rightarrow> 'a list \<Rightarrow> 'a list" where
  "trim_left_with ps s =
     (case strip_any ps s of
        Some t \<Rightarrow> (if length t < length s then trim_left_with ps t else s)
      | None \<Rightarrow> s)"
  by pat_completeness auto
termination
  by (relation "measure (\<lambda>(ps, s). length s)") auto

declare trim_left_with.simps [simp del]

lemma trim_left_with_suffix: "\<exists>p. s = p @ trim_left_with ps s"
proof (induction ps s rule: trim_left_with.induct)
  case (1 ps s)
  show ?case
  proof (cases "\<exists>t. strip_any ps s = Some t \<and> length t < length s")
    case True
    then obtain t where t: "strip_any ps s = Some t" "length t < length s" by blast
    with 1 obtain p where p: "t = p @ trim_left_with ps t" by blast
    from strip_any_Some [OF t(1)] obtain q where "s = q @ t" by blast
    with p have "s = (q @ p) @ trim_left_with ps t" by simp
    moreover have "trim_left_with ps s = trim_left_with ps t"
      using t by (simp add: trim_left_with.simps [of ps s])
    ultimately show ?thesis by metis
  next
    case False
    then have "trim_left_with ps s = s"
      by (subst trim_left_with.simps) (auto split: option.splits)
    then show ?thesis by simp
  qed
qed

definition trim_space :: "string \<Rightarrow> string" where
  "trim_space s =
     rev (trim_left_with (map rev space_encodings) (rev (trim_left_with space_encodings s)))"

abbreviation is_blank :: "string \<Rightarrow> bool" where
  "is_blank s \<equiv> trim_space s = []"

lemma trim_left_with_id: "strip_any ps s = None \<Longrightarrow> trim_left_with ps s = s"
  by (subst trim_left_with.simps) simp

lemma trim_left_with_Nil [simp]: "trim_left_with ps [] = []"
  by (subst trim_left_with.simps) (auto split: option.splits)

lemma trim_space_Nil [simp]: "trim_space [] = []"
  by (simp add: trim_space_def)

lemma trim_space_infix: "\<exists>p q. s = p @ trim_space s @ q"
proof -
  obtain p where p: "s = p @ trim_left_with space_encodings s"
    using trim_left_with_suffix by blast
  let ?t = "trim_left_with space_encodings s"
  obtain q where "rev ?t = q @ trim_left_with (map rev space_encodings) (rev ?t)"
    using trim_left_with_suffix by blast
  then have "?t = rev (trim_left_with (map rev space_encodings) (rev ?t)) @ rev q"
    by (metis rev_append rev_rev_ident)
  with p show ?thesis unfolding trim_space_def by metis
qed

text \<open>A trimmed text has nothing left to trim.\<close>

lemma strip_any_trimmed: "[] \<notin> set ps \<Longrightarrow> strip_any ps (trim_left_with ps s) = None"
proof (induction ps s rule: trim_left_with.induct)
  case (1 ps s)
  show ?case
  proof (cases "strip_any ps s")
    case None
    then show ?thesis by (simp add: trim_left_with_id)
  next
    case (Some t)
    from strip_any_Some [OF Some] obtain p where "p \<in> set ps" "s = p @ t" by blast
    then have "length t < length s" using 1(2) by (cases p) auto
    with 1 Some show ?thesis by (simp add: trim_left_with.simps [of ps s])
  qed
qed

lemma strip_any_prefix: "strip_any ps (s @ t) = None \<Longrightarrow> strip_any ps s = None"
proof (rule ccontr)
  assume n: "strip_any ps (s @ t) = None" and "strip_any ps s \<noteq> None"
  then obtain zs where "strip_any ps s = Some zs" by blast
  from strip_any_Some [OF this] obtain p where "p \<in> set ps" "s = p @ zs" by blast
  then show False using strip_any_None [OF n, of p "zs @ t"] by simp
qed

lemma trim_space_idem [simp]: "trim_space (trim_space s) = trim_space s"
proof -
  let ?t = "trim_left_with space_encodings s"
  have ne: "[] \<notin> set space_encodings" by (simp add: space_encodings_def)
  obtain q where "rev ?t = q @ trim_left_with (map rev space_encodings) (rev ?t)"
    using trim_left_with_suffix by blast
  then have "?t = trim_space s @ rev q" unfolding trim_space_def by (metis rev_append rev_rev_ident)
  then have "strip_any space_encodings (trim_space s) = None"
    using strip_any_trimmed [OF ne, of s] strip_any_prefix by metis
  moreover have "strip_any (map rev space_encodings) (rev (trim_space s)) = None"
    unfolding trim_space_def rev_rev_ident using ne by (intro strip_any_trimmed) auto
  ultimately show ?thesis by (simp add: trim_space_def [of "trim_space s"] trim_left_with_id)
qed

subsection \<open>Decimal printing\<close>

fun itoa :: "nat \<Rightarrow> string" where
  "itoa n =
     (if n < 10 then [char_of (48 + n)] else itoa (n div 10) @ [char_of (48 + n mod 10)])"

declare itoa.simps [simp del]

lemma itoa_digit: "n < 10 \<Longrightarrow> itoa n = [char_of (48 + n)]"
  by (simp add: itoa.simps)

subsection \<open>64-bit integers\<close>

text \<open>
  Go's \<open>int\<close> and \<open>int64\<close> (on 64-bit platforms) as mathematical integers
  with the wrap-around of their arithmetic written out.
\<close>

definition max_int64 :: int where
  "max_int64 = 9223372036854775807"

definition min_int64 :: int where
  "min_int64 = - 9223372036854775808"

definition wrap64 :: "int \<Rightarrow> int" where
  "wrap64 x = (x + 2 ^ 63) mod 2 ^ 64 - 2 ^ 63"

definition in_int64 :: "int \<Rightarrow> bool" where
  "in_int64 x \<longleftrightarrow> min_int64 \<le> x \<and> x \<le> max_int64"

text \<open>\<open>time.Time.Sub\<close> saturates.\<close>

definition time_Sub :: "int \<Rightarrow> int \<Rightarrow> int" where
  "time_Sub a b = min max_int64 (max min_int64 (a - b))"

lemma wrap64_id: "in_int64 x \<Longrightarrow> wrap64 x = x"
  by (simp add: wrap64_def in_int64_def min_int64_def max_int64_def)

lemma in_int64_wrap64 [simp]: "in_int64 (wrap64 x)"
proof -
  have "0 \<le> (x + 2 ^ 63) mod 2 ^ 64" and "(x + 2 ^ 63) mod 2 ^ 64 < 2 ^ 64"
    by simp_all
  then show ?thesis
    by (simp add: wrap64_def in_int64_def min_int64_def max_int64_def)
qed

text \<open>\<open>wrap64\<close> is exactly the signed reading of a 64-bit word.\<close>

lemma wrap64_word: "wrap64 x = sint (word_of_int x :: 64 word)"
  by (simp add: wrap64_def int_word_sint)

subsection \<open>Text\<close>

definition is_digit :: "char \<Rightarrow> bool" where
  "is_digit c \<longleftrightarrow> 48 \<le> (of_char c :: nat) \<and> (of_char c :: nat) \<le> 57"

definition is_ascii :: "char \<Rightarrow> bool" where
  "is_ascii c \<longleftrightarrow> (of_char c :: nat) < 128"

definition lower_char :: "char \<Rightarrow> char" where
  "lower_char c = (if 65 \<le> (of_char c :: nat) \<and> (of_char c :: nat) \<le> 90 then char_of (of_char c + 32 :: nat) else c)"

text \<open>
  \<open>strings.ToLower\<close>: ASCII text byte by byte; on other text the mapping \<open>uni\<close>, the Unicode tables
  of the Go library.
\<close>

definition ToLower :: "(string \<Rightarrow> string) \<Rightarrow> string \<Rightarrow> string" where
  "ToLower uni s = (if list_all is_ascii s then map lower_char s else uni s)"

definition TrimRight :: "char \<Rightarrow> string \<Rightarrow> string" where
  "TrimRight c s = rev (dropWhile (\<lambda>x. x = c) (rev s))"

lemma TrimRight_idem [simp]: "TrimRight c (TrimRight c s) = TrimRight c s"
  by (simp add: TrimRight_def)

lemma TrimRight_snoc: "TrimRight c s \<noteq> t @ [c]"
proof
  assume "TrimRight c s = t @ [c]"
  then have e: "dropWhile (\<lambda>x. x = c) (rev s) = c # rev t" by (simp add: TrimRight_def rev_swap)
  then show False using hd_dropWhile [of "\<lambda>x. x = c" "rev s"] by simp
qed

definition is_letter :: "char \<Rightarrow> bool" where
  "is_letter c \<longleftrightarrow> (let n = of_char c :: nat in 65 \<le> n \<and> n \<le> 90 \<or> 97 \<le> n \<and> n \<le> 122)"

text \<open>The pattern \<^verbatim>\<open>^[A-Za-z_][A-Za-z0-9_]*$\<close>.\<close>

fun ascii_identifier :: "string \<Rightarrow> bool" where
  "ascii_identifier [] = False"
| "ascii_identifier (c # cs) =
     ((is_letter c \<or> c = CHR ''_'') \<and> list_all (\<lambda>c. is_letter c \<or> is_digit c \<or> c = CHR ''_'') cs)"

text \<open>\<open>binary.BigEndian.PutUint64\<close> of a length.\<close>

definition be64 :: "nat \<Rightarrow> string" where
  "be64 n = map (\<lambda>i. char_of (n div 256 ^ i)) [7, 6, 5, 4, 3, 2, 1, 0]"

lemma length_be64 [simp]: "length (be64 n) = 8"
  by (simp add: be64_def)

lemma base256_digits:
  assumes "m < 256 ^ k" and "n < 256 ^ k" and "\<And>i. i < k \<Longrightarrow> m div 256 ^ i mod 256 = n div 256 ^ i mod (256 :: nat)"
  shows "m = n"
  using assms
proof (induction k arbitrary: m n)
  case (Suc k)
  have "m div 256 = n div 256"
  proof (rule Suc.IH)
    show "m div 256 < 256 ^ k" "n div 256 < 256 ^ k"
      using Suc.prems(1,2) by (simp_all add: less_mult_imp_div_less mult.commute)
    show "m div 256 div 256 ^ i mod 256 = n div 256 div 256 ^ i mod 256" if "i < k" for i
      using Suc.prems(3) [of "Suc i"] that by (simp add: div_mult2_eq)
  qed
  moreover have "m mod 256 = n mod 256" using Suc.prems(3) [of 0] by simp
  ultimately show ?case by (metis div_mult_mod_eq)
qed simp

lemma be64_inject:
  assumes "be64 m = be64 n" and "m < 2 ^ 64" and "n < 2 ^ 64"
  shows "m = n"
proof (rule base256_digits [of _ 8])
  show "m div 256 ^ i mod 256 = n div 256 ^ i mod 256" if "i < 8" for i
  proof -
    have "i \<in> set [7, 6, 5, 4, 3, 2, 1, 0]" using that by auto
    then have "(char_of (m div 256 ^ i) :: char) = char_of (n div 256 ^ i)"
      using assms(1) unfolding be64_def map_eq_conv by blast
    then show ?thesis by (simp add: char_of_eq_iff take_bit_eq_mod)
  qed
qed (use assms in simp_all)

end
