(* ===== verification/Decimal_Api.thy ===== *)
theory Decimal_Api
  imports Complex_Main Commons_Prelude
begin

text \<open>
  Amounts. The repository computes with \<open>decimal.Decimal\<close> of the package
  \<open>shopspring/decimal\<close>, which is not part of it: the operations the sources call are
  the fields of the parameter \<open>D\<close> of type \<open>'d decimal_api\<close>, an argument of
  every definition that computes with amounts. The locale \<open>decimal_laws\<close> names what
  that package documents: addition, subtraction, multiplication and comparison are exact,
  division is exact up to sixteen fractional digits (\<open>DivisionPrecision\<close>).
  \<open>dec10_api\<close> is a coefficient-and-exponent implementation of the interface which
  satisfies the laws, so that the hypothesis is inhabited and witnesses can be computed.

  The second half models \<open>commons/safe/decimal.go\<close> and \<open>commons/safe/math.go\<close>.
\<close>

subsection \<open>The interface\<close>

record 'd decimal_api =
  dec_Zero :: 'd
  dec_NewFromInt :: "int \<Rightarrow> 'd"
  dec_Add :: "'d \<Rightarrow> 'd \<Rightarrow> 'd"
  dec_Sub :: "'d \<Rightarrow> 'd \<Rightarrow> 'd"
  dec_Mul :: "'d \<Rightarrow> 'd \<Rightarrow> 'd"
  dec_Div :: "'d \<Rightarrow> 'd \<Rightarrow> 'd"
  dec_DivRound :: "'d \<Rightarrow> 'd \<Rightarrow> int \<Rightarrow> 'd"
  dec_Equal :: "'d \<Rightarrow> 'd \<Rightarrow> bool"
  dec_LessThan :: "'d \<Rightarrow> 'd \<Rightarrow> bool"
  dec_GreaterThan :: "'d \<Rightarrow> 'd \<Rightarrow> bool"
  dec_IsPositive :: "'d \<Rightarrow> bool"
  dec_IsNegative :: "'d \<Rightarrow> bool"
  dec_IsZero :: "'d \<Rightarrow> bool"
  dec_Exponent :: "'d \<Rightarrow> int"
  dec_NumDigits :: "'d \<Rightarrow> int"

locale decimal_laws =
  fixes D :: "'d decimal_api" and val :: "'d \<Rightarrow> rat"
  assumes val_Zero: "val (dec_Zero D) = 0"
    and val_NewFromInt: "val (dec_NewFromInt D n) = of_int n"
    and val_Add: "val (dec_Add D a b) = val a + val b"
    and val_Sub: "val (dec_Sub D a b) = val a - val b"
    and val_Mul: "val (dec_Mul D a b) = val a * val b"
    and val_Div: "val b \<noteq> 0 \<Longrightarrow> \<bar>val (dec_Div D a b) - val a / val b\<bar> \<le> 1 / 10 ^ 16"
    and Equal_iff: "dec_Equal D a b \<longleftrightarrow> val a = val b"
    and LessThan_iff: "dec_LessThan D a b \<longleftrightarrow> val a < val b"
    and GreaterThan_iff: "dec_GreaterThan D a b \<longleftrightarrow> val b < val a"
    and IsPositive_iff: "dec_IsPositive D a \<longleftrightarrow> 0 < val a"
    and IsNegative_iff: "dec_IsNegative D a \<longleftrightarrow> val a < 0"
    and IsZero_iff: "dec_IsZero D a \<longleftrightarrow> val a = 0"
begin

lemmas dec_simps = val_Zero val_NewFromInt val_Add val_Sub val_Mul Equal_iff LessThan_iff
  GreaterThan_iff IsPositive_iff IsNegative_iff IsZero_iff

text \<open>A running total kept with \<open>Add\<close> from \<open>Zero\<close> is the sum of the values.\<close>

lemma val_foldl_Add: "val (foldl (dec_Add D) z xs) = val z + sum_list (map val xs)"
  by (induction xs arbitrary: z) (simp_all add: val_Add add.assoc)

lemma val_foldl_Add_Zero: "val (foldl (dec_Add D) (dec_Zero D) xs) = sum_list (map val xs)"
  by (simp add: val_foldl_Add val_Zero)

text \<open>A percentage of a total: off by at most the total times the rounding of the division.\<close>

lemma val_percent:
  assumes "0 < val t"
  shows "\<bar>val (dec_Mul D t (dec_Div D s (dec_NewFromInt D 100))) - val t * val s / 100\<bar>
           \<le> val t / 10 ^ 16"
proof -
  let ?q = "val (dec_Div D s (dec_NewFromInt D 100))"
  have q: "\<bar>?q - val s / 100\<bar> \<le> 1 / 10 ^ 16"
    using val_Div [of "dec_NewFromInt D 100" s] by (simp add: val_NewFromInt)
  have "\<bar>val t * ?q - val t * (val s / 100)\<bar> = val t * \<bar>?q - val s / 100\<bar>"
    using assms by (simp only: abs_mult abs_of_pos flip: right_diff_distrib)
  also have "\<dots> \<le> val t * (1 / 10 ^ 16)"
    using assms q by (intro mult_left_mono) auto
  finally show ?thesis by (simp add: val_Mul)
qed

end

subsection \<open>A coefficient-and-exponent implementation\<close>

text \<open>\<open>Dec c e\<close> is the number \<open>c * 10 ^ e\<close>, as the package represents it.\<close>

datatype dec10 = Dec (dcoef: int) (dexp: int)

definition dec10_val :: "dec10 \<Rightarrow> rat" where
  "dec10_val d = of_int (dcoef d) * 10 powi (dexp d)"

text \<open>The coefficient after lowering the exponent to \<open>e\<close>.\<close>

definition coef_at :: "int \<Rightarrow> dec10 \<Rightarrow> int" where
  "coef_at e d = dcoef d * 10 ^ nat (dexp d - e)"

definition low_exp :: "dec10 \<Rightarrow> dec10 \<Rightarrow> int" where
  "low_exp a b = min (dexp a) (dexp b)"

definition round_div :: "int \<Rightarrow> int \<Rightarrow> int" where
  "round_div n d = (2 * n + d) div (2 * d)"

definition dec10_div_round :: "dec10 \<Rightarrow> dec10 \<Rightarrow> int \<Rightarrow> dec10" where
  "dec10_div_round a b p =
     (let k = dexp a - dexp b + p in
      Dec (round_div (dcoef a * 10 ^ nat k) (dcoef b * 10 ^ nat (- k))) (- p))"

definition dec10_div :: "dec10 \<Rightarrow> dec10 \<Rightarrow> dec10" where
  "dec10_div a b = dec10_div_round a b 16"

fun digit_count :: "nat \<Rightarrow> nat" where
  "digit_count n = (if n < 10 then 1 else Suc (digit_count (n div 10)))"

declare digit_count.simps [simp del]

definition dec10_api :: "dec10 decimal_api" where
  "dec10_api =
     \<lparr> dec_Zero = Dec 0 0,
       dec_NewFromInt = (\<lambda>n. Dec n 0),
       dec_Add = (\<lambda>a b. let e = low_exp a b in Dec (coef_at e a + coef_at e b) e),
       dec_Sub = (\<lambda>a b. let e = low_exp a b in Dec (coef_at e a - coef_at e b) e),
       dec_Mul = (\<lambda>a b. Dec (dcoef a * dcoef b) (dexp a + dexp b)),
       dec_Div = dec10_div,
       dec_DivRound = dec10_div_round,
       dec_Equal = (\<lambda>a b. let e = low_exp a b in coef_at e a = coef_at e b),
       dec_LessThan = (\<lambda>a b. let e = low_exp a b in coef_at e a < coef_at e b),
       dec_GreaterThan = (\<lambda>a b. let e = low_exp a b in coef_at e b < coef_at e a),
       dec_IsPositive = (\<lambda>a. 0 < dcoef a),
       dec_IsNegative = (\<lambda>a. dcoef a < 0),
       dec_IsZero = (\<lambda>a. dcoef a = 0),
       dec_Exponent = dexp,
       dec_NumDigits = (\<lambda>a. int (digit_count (nat \<bar>dcoef a\<bar>))) \<rparr>"

lemma pow10_pos [simp]: "0 < (10 :: rat) powi e" "\<not> (10 :: rat) powi e < 0"
  by (simp_all add: not_less)

lemma coef_at_val: "e \<le> dexp d \<Longrightarrow> of_int (coef_at e d) * 10 powi e = dec10_val d"
proof -
  assume "e \<le> dexp d"
  then have "(10 :: rat) ^ nat (dexp d - e) * 10 powi e = 10 powi (dexp d)"
    by (simp add: power_int_diff flip: power_int_of_nat)
  then show ?thesis by (simp add: coef_at_def dec10_val_def mult.assoc)
qed

lemma low_exp_le: "low_exp a b \<le> dexp a" "low_exp a b \<le> dexp b"
  by (simp_all add: low_exp_def)

lemma coef_at_low_exp:
  "of_int (coef_at (low_exp a b) a) * 10 powi (low_exp a b) = dec10_val a"
  "of_int (coef_at (low_exp a b) b) * 10 powi (low_exp a b) = dec10_val b"
  by (rule coef_at_val, rule low_exp_le)+

lemma coef_at_cmp:
  "coef_at (low_exp a b) a < coef_at (low_exp a b) b \<longleftrightarrow> dec10_val a < dec10_val b"
  "coef_at (low_exp a b) b < coef_at (low_exp a b) a \<longleftrightarrow> dec10_val b < dec10_val a"
  "coef_at (low_exp a b) a = coef_at (low_exp a b) b \<longleftrightarrow> dec10_val a = dec10_val b"
  unfolding coef_at_low_exp [of a b, symmetric] by simp_all

lemma round_div_error:
  assumes "d \<noteq> 0"
  shows "\<bar>of_int (round_div n d) - of_int n / (of_int d :: rat)\<bar> \<le> 1 / 2"
proof -
  have "of_int (round_div n d) = (of_int \<lfloor>of_int (2 * n + d) / (of_int (2 * d) :: rat)\<rfloor> :: rat)"
    by (simp only: round_div_def floor_divide_of_int_eq)
  moreover have "of_int (2 * n + d) / (of_int (2 * d) :: rat) = of_int n / of_int d + 1 / 2"
    using assms by (simp add: add_divide_distrib)
  ultimately show ?thesis by linarith
qed

lemma dec10_val_div:
  assumes "dec10_val b \<noteq> 0"
  shows "\<bar>dec10_val (dec10_div a b) - dec10_val a / dec10_val b\<bar> \<le> 1 / 10 ^ 16"
proof -
  define k where "k = dexp a - dexp b + 16"
  let ?n = "dcoef a * 10 ^ nat k" and ?d = "dcoef b * 10 ^ nat (- k)"
  have d: "?d \<noteq> 0" using assms by (auto simp: dec10_val_def)
  have pow: "(10 :: rat) ^ nat k / 10 ^ nat (- k) = 10 powi k"
    by (cases "0 \<le> k") (simp_all add: power_int_def field_simps)
  have "(of_int ?n :: rat) / of_int ?d = of_int (dcoef a) / of_int (dcoef b) * (10 ^ nat k / 10 ^ nat (- k))"
    by simp
  also have "\<dots> = of_int (dcoef a) / of_int (dcoef b) * 10 powi (dexp a - dexp b) * 10 ^ 16"
    by (simp only: pow, simp add: k_def power_int_add)
  also have "\<dots> = dec10_val a / dec10_val b * 10 ^ 16"
    by (simp add: dec10_val_def power_int_diff)
  finally have q: "dec10_val a / dec10_val b = (of_int ?n / of_int ?d) / 10 ^ 16"
    by simp
  have "dec10_val (dec10_div a b) = of_int (round_div ?n ?d) / 10 ^ 16"
    by (simp add: dec10_div_def dec10_div_round_def dec10_val_def k_def Let_def power_int_minus field_simps)
  then have "dec10_val (dec10_div a b) - dec10_val a / dec10_val b
      = (of_int (round_div ?n ?d) - of_int ?n / of_int ?d) / 10 ^ 16"
    by (simp only: q diff_divide_distrib)
  then have "\<bar>dec10_val (dec10_div a b) - dec10_val a / dec10_val b\<bar>
      = \<bar>of_int (round_div ?n ?d) - of_int ?n / of_int ?d\<bar> / 10 ^ 16"
    by (simp only: abs_divide) simp
  also have "\<dots> \<le> 1 / 10 ^ 16"
    using round_div_error [OF d, of ?n] by (intro divide_right_mono) auto
  finally show ?thesis .
qed

interpretation dec10: decimal_laws dec10_api dec10_val
proof unfold_locales
  fix a b :: dec10
  show "dec10_val (dec_Add dec10_api a b) = dec10_val a + dec10_val b"
    using coef_at_low_exp [of a b]
    by (simp add: dec10_api_def Let_def dec10_val_def distrib_right)
  show "dec10_val (dec_Sub dec10_api a b) = dec10_val a - dec10_val b"
    using coef_at_low_exp [of a b]
    by (simp add: dec10_api_def Let_def dec10_val_def left_diff_distrib)
  show "dec10_val (dec_Mul dec10_api a b) = dec10_val a * dec10_val b"
    by (simp add: dec10_api_def dec10_val_def power_int_add)
  show "dec10_val b \<noteq> 0 \<Longrightarrow>
      \<bar>dec10_val (dec_Div dec10_api a b) - dec10_val a / dec10_val b\<bar> \<le> 1 / 10 ^ 16"
    by (simp only: dec10_api_def decimal_api.simps) (rule dec10_val_div)
  show "dec_Equal dec10_api a b \<longleftrightarrow> dec10_val a = dec10_val b"
    "dec_LessThan dec10_api a b \<longleftrightarrow> dec10_val a < dec10_val b"
    "dec_GreaterThan dec10_api a b \<longleftrightarrow> dec10_val b < dec10_val a"
    by (simp_all add: dec10_api_def Let_def coef_at_cmp)
  show "dec_IsPositive dec10_api a \<longleftrightarrow> 0 < dec10_val a"
    "dec_IsNegative dec10_api a \<longleftrightarrow> dec10_val a < 0"
    "dec_IsZero dec10_api a \<longleftrightarrow> dec10_val a = 0"
    by (simp_all add: dec10_api_def dec10_val_def zero_less_mult_iff mult_less_0_iff)
qed (simp_all add: dec10_api_def dec10_val_def)

subsection \<open>Package safe: bounds and division\<close>

text \<open>
  \<open>ErrDecimalOutOfBounds\<close> is one sentinel that the three messages wrap; the
  constructor says which bound was exceeded. \<open>ParseError\<close> carries the error of the
  package's own parser.
\<close>

datatype 'pe safe_error =
    ErrDecimalExponent int
  | ErrDecimalDigits int
  | ErrDecimalText nat
  | ErrParse 'pe
  | ErrDivisionByZero

definition MaxDecimalExponent :: int where
  "MaxDecimalExponent = 1000"

definition MaxDecimalDigits :: int where
  "MaxDecimalDigits = 1000"

definition MaxDecimalTextLength :: nat where
  "MaxDecimalTextLength = 1024"

definition CheckDecimal :: "'d decimal_api \<Rightarrow> 'd \<Rightarrow> 'pe safe_error + unit" where
  "CheckDecimal D d =
     (let exp = dec_Exponent D d; digits = dec_NumDigits D d in
      if exp > MaxDecimalExponent \<or> exp < - MaxDecimalExponent then Inl (ErrDecimalExponent exp)
      else if digits > MaxDecimalDigits then Inl (ErrDecimalDigits digits)
      else Inr ())"

definition ParseDecimal ::
  "'d decimal_api \<Rightarrow> (string \<Rightarrow> 'pe + 'd) \<Rightarrow> string \<Rightarrow> 'pe safe_error + 'd" where
  "ParseDecimal D NewFromString s =
     (if length s > MaxDecimalTextLength then Inl (ErrDecimalText (length s))
      else case NewFromString s of
             Inl e \<Rightarrow> Inl (ErrParse e)
           | Inr d \<Rightarrow> bind_res (CheckDecimal D d) (\<lambda>_. Inr d))"

definition safe_Divide :: "'d decimal_api \<Rightarrow> 'd \<Rightarrow> 'd \<Rightarrow> 'pe safe_error + 'd" where
  "safe_Divide D numerator denominator =
     (if dec_IsZero D denominator then Inl ErrDivisionByZero
      else Inr (dec_Div D numerator denominator))"

definition DivideRound :: "'d decimal_api \<Rightarrow> 'd \<Rightarrow> 'd \<Rightarrow> int \<Rightarrow> 'pe safe_error + 'd" where
  "DivideRound D numerator denominator places =
     (if dec_IsZero D denominator then Inl ErrDivisionByZero
      else Inr (dec_DivRound D numerator denominator places))"

definition DivideOrZero :: "'d decimal_api \<Rightarrow> 'd \<Rightarrow> 'd \<Rightarrow> 'd" where
  "DivideOrZero D numerator denominator =
     (if dec_IsZero D denominator then dec_Zero D else dec_Div D numerator denominator)"

definition DivideOrDefault :: "'d decimal_api \<Rightarrow> 'd \<Rightarrow> 'd \<Rightarrow> 'd \<Rightarrow> 'd" where
  "DivideOrDefault D numerator denominator defaultValue =
     (if dec_IsZero D denominator then defaultValue else dec_Div D numerator denominator)"

definition Percentage :: "'d decimal_api \<Rightarrow> 'd \<Rightarrow> 'd \<Rightarrow> 'pe safe_error + 'd" where
  "Percentage D numerator denominator =
     (if dec_IsZero D denominator then Inl ErrDivisionByZero
      else Inr (dec_Mul D (dec_Div D numerator denominator) (dec_NewFromInt D 100)))"

definition PercentageOrZero :: "'d decimal_api \<Rightarrow> 'd \<Rightarrow> 'd \<Rightarrow> 'd" where
  "PercentageOrZero D numerator denominator =
     (if dec_IsZero D denominator then dec_Zero D
      else dec_Mul D (dec_Div D numerator denominator) (dec_NewFromInt D 100))"

lemma CheckDecimal_ok:
  "CheckDecimal D d = Inr () \<longleftrightarrow>
     \<bar>dec_Exponent D d\<bar> \<le> MaxDecimalExponent \<and> dec_NumDigits D d \<le> MaxDecimalDigits"
  by (auto simp: CheckDecimal_def Let_def MaxDecimalExponent_def)

lemma ParseDecimal_ok:
  "ParseDecimal D NewFromString s = Inr d \<longleftrightarrow>
     length s \<le> MaxDecimalTextLength \<and> NewFromString s = Inr d \<and> CheckDecimal D d = (Inr () :: 'pe safe_error + unit)"
  for NewFromString :: "string \<Rightarrow> 'pe + 'd"
  by (auto simp: ParseDecimal_def bind_res_eq_Inr split: sum.splits)

end
