(* ===== verification/Transaction.thy ===== *)
theory Transaction
  imports Decimal_Api
begin

text \<open>
  \<open>commons/transaction\<close>: building an intent plan from allocations
  (\<open>BuildIntentPlan\<close>), checking the balances of a plan
  (\<open>ValidateBalanceEligibility\<close>), applying one posting to one balance
  (\<open>ApplyPosting\<close>) and choosing the operation of a posting
  (\<open>ResolveOperation\<close>).

  The string-typed enumerations of the source have one constructor per declared constant
  and one for any other string, so that the \<open>default\<close> branches are reachable. Of a
  \<open>DomainError\<close> the code and the field are kept; its message is text for people that no
  code reads. Amounts are values of a type \<open>'d\<close> whose operations are the parameter
  \<open>D\<close>; the zero value \<open>decimal.Decimal{}\<close> is \<open>dec_Zero D\<close>. Times are
  nanoseconds, the \<open>any\<close> values of the metadata have a type \<open>'m\<close> of their own.
\<close>

subsection \<open>Data\<close>

datatype operation =
    OperationDebit | OperationCredit | OperationOnHold | OperationRelease
  | OperationOther string

datatype transaction_status =
    StatusCreated | StatusApproved | StatusPending | StatusCanceled
  | StatusOther string

datatype account_type = AccountTypeInternal | AccountTypeExternal | AccountTypeOther string

datatype error_code =
    ErrorInsufficientFunds
  | ErrorAccountIneligibility
  | ErrorAccountStatusTransactionRestriction
  | ErrorAssetCodeNotFound
  | ErrorTransactionValueMismatch
  | ErrorTransactionAmbiguous
  | ErrorOnHoldExternalAccount
  | ErrorDataCorruption
  | ErrorInvalidInput
  | ErrorInvalidStateTransition
  | ErrorCrossScope

record domain_error =
  err_Code :: error_code
  err_Field :: string

definition NewDomainError :: "error_code \<Rightarrow> string \<Rightarrow> domain_error" where
  "NewDomainError code field = \<lparr>err_Code = code, err_Field = field\<rparr>"

record ('d, 'm) balance =
  bal_ID :: string
  bal_OrganizationID :: string
  bal_LedgerID :: string
  bal_AccountID :: string
  bal_Asset :: string
  bal_Available :: 'd
  bal_OnHold :: 'd
  bal_Version :: "64 word"
  bal_AccountType :: account_type
  bal_AllowSending :: bool
  bal_AllowReceiving :: bool
  bal_CreatedAt :: int
  bal_UpdatedAt :: int
  bal_DeletedAt :: "int option"
  bal_Metadata :: "(string \<times> 'm) list"

record ledger_target =
  lt_AccountID :: string
  lt_BalanceID :: string

record 'd allocation =
  alloc_Target :: ledger_target
  alloc_Amount :: "'d option"
  alloc_Share :: "'d option"
  alloc_Remainder :: bool
  alloc_Route :: string

record 'd transaction_intent_input =
  in_Asset :: string
  in_Total :: 'd
  in_Pending :: bool
  in_Sources :: "'d allocation list"
  in_Destinations :: "'d allocation list"

record 'd posting =
  post_Target :: ledger_target
  post_Asset :: string
  post_Amount :: 'd
  post_Operation :: operation
  post_Status :: transaction_status
  post_Route :: string

record 'd intent_plan =
  plan_Asset :: string
  plan_Total :: 'd
  plan_Pending :: bool
  plan_Sources :: "'d posting list"
  plan_Destinations :: "'d posting list"

subsection \<open>Operations of the plan\<close>

definition checkBounds :: "'d decimal_api \<Rightarrow> 'd \<Rightarrow> string \<Rightarrow> domain_error + unit" where
  "checkBounds D value field =
     (case (CheckDecimal D value :: unit safe_error + unit) of
        Inl _ \<Rightarrow> Inl (NewDomainError ErrorInvalidInput field)
      | Inr _ \<Rightarrow> Inr ())"

definition validate_target :: "ledger_target \<Rightarrow> string \<Rightarrow> domain_error + unit" where
  "validate_target t field =
     (if is_blank (lt_AccountID t)
      then Inl (NewDomainError ErrorInvalidInput (field @ ''.accountId''))
      else if is_blank (lt_BalanceID t)
      then Inl (NewDomainError ErrorInvalidInput (field @ ''.balanceId''))
      else Inr ())"

definition ResolveOperation ::
  "bool \<Rightarrow> bool \<Rightarrow> transaction_status \<Rightarrow> domain_error + operation" where
  "ResolveOperation pending isSource status =
     (if pending then
        (case status of
           StatusPending \<Rightarrow> Inr (if isSource then OperationOnHold else OperationCredit)
         | StatusCanceled \<Rightarrow> Inr (if isSource then OperationRelease else OperationDebit)
         | StatusApproved \<Rightarrow> Inr (if isSource then OperationDebit else OperationCredit)
         | _ \<Rightarrow> Inl (NewDomainError ErrorInvalidStateTransition ''status''))
      else
        (case status of
           StatusCreated \<Rightarrow> Inr (if isSource then OperationDebit else OperationCredit)
         | _ \<Rightarrow> Inl (NewDomainError ErrorInvalidStateTransition ''status'')))"

definition validateAllocationStrategy :: "'d allocation \<Rightarrow> string \<Rightarrow> domain_error + unit" where
  "validateAllocationStrategy allocation field =
     (let strategyCount =
        (if alloc_Amount allocation \<noteq> None then 1 else 0)
        + (if alloc_Share allocation \<noteq> None then 1 else 0)
        + (if alloc_Remainder allocation then 1 else (0 :: nat))
      in if strategyCount \<noteq> 1 then Inl (NewDomainError ErrorInvalidInput field) else Inr ())"

text \<open>The amount of an allocation and whether it is the remainder.\<close>

definition resolveAllocationAmount ::
  "'d decimal_api \<Rightarrow> 'd \<Rightarrow> 'd allocation \<Rightarrow> string \<Rightarrow> domain_error + ('d \<times> bool)" where
  "resolveAllocationAmount D totalAmt allocation field =
     (case alloc_Amount allocation of
        Some amount \<Rightarrow>
          bind_res (checkBounds D amount (field @ ''.amount'')) (\<lambda>_.
            if \<not> dec_IsPositive D amount
            then Inl (NewDomainError ErrorInvalidInput (field @ ''.amount''))
            else Inr (amount, False))
      | None \<Rightarrow>
          (case alloc_Share allocation of
             Some share \<Rightarrow>
               bind_res (checkBounds D share (field @ ''.share'')) (\<lambda>_.
                 if \<not> dec_IsPositive D share \<or> dec_GreaterThan D share (dec_NewFromInt D 100)
                 then Inl (NewDomainError ErrorInvalidInput (field @ ''.share''))
                 else
                   (let amount = dec_Mul D totalAmt (dec_Div D share (dec_NewFromInt D 100)) in
                    if \<not> dec_IsPositive D amount
                    then Inl (NewDomainError ErrorInvalidInput (field @ ''.share''))
                    else Inr (amount, False)))
           | None \<Rightarrow>
               if alloc_Remainder allocation then Inr (dec_Zero D, True)
               else Inl (NewDomainError ErrorInvalidInput field)))"

definition buildPostingFromAllocation ::
  "'d decimal_api \<Rightarrow> string \<Rightarrow> 'd \<Rightarrow> bool \<Rightarrow> transaction_status \<Rightarrow> bool \<Rightarrow> 'd allocation
     \<Rightarrow> string \<Rightarrow> domain_error + ('d posting \<times> 'd \<times> bool)" where
  "buildPostingFromAllocation D asset totalAmt pending status isSource allocation field =
     bind_res (validate_target (alloc_Target allocation) (field @ ''.target'')) (\<lambda>_.
     bind_res (validateAllocationStrategy allocation field) (\<lambda>_.
     bind_res (ResolveOperation pending isSource status) (\<lambda>operation.
       let posting =
         \<lparr>post_Target = alloc_Target allocation, post_Asset = asset, post_Amount = dec_Zero D,
          post_Operation = operation, post_Status = status, post_Route = alloc_Route allocation\<rparr>
       in bind_res (resolveAllocationAmount D totalAmt allocation field) (\<lambda>(amount, usesRemainder).
            if usesRemainder then Inr (posting, dec_Zero D, True)
            else Inr (posting\<lparr>post_Amount := amount\<rparr>, amount, False)))))"

definition computeRemainderAllocation ::
  "'d decimal_api \<Rightarrow> 'd \<Rightarrow> 'd \<Rightarrow> domain_error + 'd" where
  "computeRemainderAllocation D totalAmt allocated =
     (let remainder = dec_Sub D totalAmt allocated in
      if \<not> dec_IsPositive D remainder
      then Inl (NewDomainError ErrorTransactionValueMismatch ''allocations'')
      else Inr remainder)"

definition validateAllocatedTotal :: "'d decimal_api \<Rightarrow> 'd \<Rightarrow> 'd \<Rightarrow> domain_error + unit" where
  "validateAllocatedTotal D allocated totalAmt =
     (if \<not> dec_Equal D allocated totalAmt
      then Inl (NewDomainError ErrorTransactionValueMismatch ''allocations'')
      else Inr ())"

definition sumPostings :: "'d decimal_api \<Rightarrow> 'd posting list \<Rightarrow> 'd" where
  "sumPostings D postings =
     foldl (\<lambda>totalAmt posting. dec_Add D totalAmt (post_Amount posting)) (dec_Zero D) postings"

text \<open>
  The loop of \<open>buildPostings\<close>. The state is the postings built so far, the running
  total \<open>allocated\<close> and the index of the remainder allocation (\<open>None\<close> for the
  source's \<open>-1\<close>); \<open>i\<close> is the loop index.
\<close>

fun buildPostings_loop ::
  "'d decimal_api \<Rightarrow> string \<Rightarrow> 'd \<Rightarrow> bool \<Rightarrow> transaction_status \<Rightarrow> bool \<Rightarrow> string \<Rightarrow> nat
     \<Rightarrow> 'd allocation list \<Rightarrow> 'd posting list \<Rightarrow> 'd \<Rightarrow> nat option
     \<Rightarrow> domain_error + ('d posting list \<times> 'd \<times> nat option)" where
  "buildPostings_loop D asset totalAmt pending status isSource side i [] postings allocated remainderIndex =
     Inr (postings, allocated, remainderIndex)"
| "buildPostings_loop D asset totalAmt pending status isSource side i (allocation # allocations)
       postings allocated remainderIndex =
     (let field = side @ ''['' @ itoa i @ '']'' in
      bind_res (buildPostingFromAllocation D asset totalAmt pending status isSource allocation field)
        (\<lambda>(posting, amount, usesRemainder).
          if usesRemainder then
            (if remainderIndex \<noteq> None
             then Inl (NewDomainError ErrorInvalidInput (field @ ''.remainder''))
             else buildPostings_loop D asset totalAmt pending status isSource side (Suc i) allocations
                    (postings @ [posting]) allocated (Some i))
          else buildPostings_loop D asset totalAmt pending status isSource side (Suc i) allocations
                 (postings @ [posting]) (dec_Add D allocated amount) remainderIndex))"

definition buildPostings ::
  "'d decimal_api \<Rightarrow> string \<Rightarrow> 'd \<Rightarrow> bool \<Rightarrow> transaction_status \<Rightarrow> 'd allocation list \<Rightarrow> bool
     \<Rightarrow> domain_error + 'd posting list" where
  "buildPostings D asset totalAmt pending status allocations isSource =
     (let side = (if isSource then ''sources'' else ''destinations'') in
      bind_res (buildPostings_loop D asset totalAmt pending status isSource side 0 allocations
                  [] (dec_Zero D) None)
        (\<lambda>(postings, allocated, remainderIndex).
          bind_res
            (case remainderIndex of
               None \<Rightarrow> Inr (postings, allocated)
             | Some r \<Rightarrow>
                 bind_res (computeRemainderAllocation D totalAmt allocated) (\<lambda>remainder.
                   Inr (postings[r := (postings ! r)\<lparr>post_Amount := remainder\<rparr>],
                        dec_Add D allocated remainder)))
            (\<lambda>(postings, allocated).
               bind_res (validateAllocatedTotal D allocated totalAmt) (\<lambda>_. Inr postings))))"

definition BuildIntentPlan ::
  "'d decimal_api \<Rightarrow> 'd transaction_intent_input \<Rightarrow> transaction_status
     \<Rightarrow> domain_error + 'd intent_plan" where
  "BuildIntentPlan D input status =
     (if is_blank (in_Asset input) then Inl (NewDomainError ErrorInvalidInput ''asset'')
      else bind_res (checkBounds D (in_Total input) ''total'') (\<lambda>_.
        if \<not> dec_IsPositive D (in_Total input) then Inl (NewDomainError ErrorInvalidInput ''total'')
        else if in_Sources input = [] then Inl (NewDomainError ErrorInvalidInput ''sources'')
        else if in_Destinations input = []
        then Inl (NewDomainError ErrorInvalidInput ''destinations'')
        else
          bind_res (buildPostings D (in_Asset input) (in_Total input) (in_Pending input) status
                      (in_Sources input) True) (\<lambda>sources.
          bind_res (buildPostings D (in_Asset input) (in_Total input) (in_Pending input) status
                      (in_Destinations input) False) (\<lambda>destinations.
            if \<not> dec_Equal D (sumPostings D sources) (in_Total input)
               \<or> \<not> dec_Equal D (sumPostings D destinations) (in_Total input)
            then Inl (NewDomainError ErrorTransactionValueMismatch ''total'')
            else
              (let sourceIDs = map (lt_BalanceID \<circ> post_Target) sources in
               if \<exists>destination \<in> set destinations. lt_BalanceID (post_Target destination) \<in> set sourceIDs
               then Inl (NewDomainError ErrorTransactionAmbiguous ''destinations'')
               else Inr \<lparr>plan_Asset = in_Asset input, plan_Total = in_Total input,
                         plan_Pending = in_Pending input, plan_Sources = sources,
                         plan_Destinations = destinations\<rparr>)))))"

subsection \<open>Eligibility of the balances of a plan\<close>

text \<open>
  The balance catalog is a Go map from balance identifiers to balances, here an
  association list. The two reference pointers that \<open>validateScope\<close> fills on first
  use are the state \<open>(refOrgID, refLedgerID)\<close> of the two loops.
\<close>

type_synonym scope_ref = "string \<times> string"

definition validateScope ::
  "scope_ref \<Rightarrow> ('d, 'm) balance \<Rightarrow> string \<Rightarrow> domain_error + scope_ref" where
  "validateScope ref balance field =
     (if bal_OrganizationID balance \<noteq> [] \<or> bal_LedgerID balance \<noteq> [] then
        (if fst ref = [] \<and> snd ref = []
         then Inr (bal_OrganizationID balance, bal_LedgerID balance)
         else if bal_OrganizationID balance \<noteq> fst ref then Inl (NewDomainError ErrorCrossScope field)
         else if bal_LedgerID balance \<noteq> snd ref then Inl (NewDomainError ErrorCrossScope field)
         else Inr ref)
      else Inr ref)"

definition validateSourcePosting ::
  "'d decimal_api \<Rightarrow> 'd intent_plan \<Rightarrow> (string \<times> ('d, 'm) balance) list \<Rightarrow> scope_ref \<Rightarrow> 'd posting
     \<Rightarrow> domain_error + scope_ref" where
  "validateSourcePosting D plan balances ref posting =
     (case map_of balances (lt_BalanceID (post_Target posting)) of
        None \<Rightarrow> Inl (NewDomainError ErrorAccountIneligibility ''sources'')
      | Some balance \<Rightarrow>
          if bal_AccountID balance \<noteq> lt_AccountID (post_Target posting)
          then Inl (NewDomainError ErrorAccountIneligibility ''sources'')
          else bind_res (validateScope ref balance ''sources'') (\<lambda>ref'.
            if bal_Asset balance \<noteq> plan_Asset plan
            then Inl (NewDomainError ErrorAssetCodeNotFound ''sources'')
            else if \<not> bal_AllowSending balance
            then Inl (NewDomainError ErrorAccountStatusTransactionRestriction ''sources'')
            else bind_res (checkBounds D (post_Amount posting) ''sources'') (\<lambda>_.
              if bal_AllowSending balance \<and> dec_LessThan D (bal_Available balance) (post_Amount posting)
              then Inl (NewDomainError ErrorInsufficientFunds ''sources'')
              else if plan_Pending plan \<and> bal_AccountType balance = AccountTypeExternal
              then Inl (NewDomainError ErrorOnHoldExternalAccount ''sources'')
              else Inr ref')))"

definition validateExternalDestinationBalance ::
  "'d decimal_api \<Rightarrow> ('d, 'm) balance \<Rightarrow> domain_error + unit" where
  "validateExternalDestinationBalance D balance =
     (if bal_AccountType balance \<noteq> AccountTypeExternal then Inr ()
      else if dec_IsNegative D (bal_Available balance)
      then Inl (NewDomainError ErrorDataCorruption ''balance'')
      else if dec_IsPositive D (bal_Available balance)
      then Inl (NewDomainError ErrorInsufficientFunds ''destinations'')
      else Inr ())"

definition validateDestinationPosting ::
  "'d decimal_api \<Rightarrow> 'd intent_plan \<Rightarrow> (string \<times> ('d, 'm) balance) list \<Rightarrow> scope_ref \<Rightarrow> 'd posting
     \<Rightarrow> domain_error + scope_ref" where
  "validateDestinationPosting D plan balances ref posting =
     (case map_of balances (lt_BalanceID (post_Target posting)) of
        None \<Rightarrow> Inl (NewDomainError ErrorAccountIneligibility ''destinations'')
      | Some balance \<Rightarrow>
          if bal_AccountID balance \<noteq> lt_AccountID (post_Target posting)
          then Inl (NewDomainError ErrorAccountIneligibility ''destinations'')
          else bind_res (validateScope ref balance ''destinations'') (\<lambda>ref'.
            if bal_Asset balance \<noteq> plan_Asset plan
            then Inl (NewDomainError ErrorAssetCodeNotFound ''destinations'')
            else if \<not> bal_AllowReceiving balance
            then Inl (NewDomainError ErrorAccountStatusTransactionRestriction ''destinations'')
            else bind_res (validateExternalDestinationBalance D balance) (\<lambda>_. Inr ref')))"

definition ValidateBalanceEligibility ::
  "'d decimal_api \<Rightarrow> 'd intent_plan \<Rightarrow> (string \<times> ('d, 'm) balance) list \<Rightarrow> domain_error + unit" where
  "ValidateBalanceEligibility D plan balances =
     (if balances = [] then Inl (NewDomainError ErrorAccountIneligibility ''balances'')
      else
        bind_res (fold_res (validateSourcePosting D plan balances) ([], []) (plan_Sources plan))
          (\<lambda>ref. bind_res (fold_res (validateDestinationPosting D plan balances) ref
                             (plan_Destinations plan))
          (\<lambda>_. Inr ())))"

subsection \<open>Applying a posting to a balance\<close>

definition validatePostingAgainstBalance ::
  "'d decimal_api \<Rightarrow> ('d, 'm) balance \<Rightarrow> 'd posting \<Rightarrow> domain_error + unit" where
  "validatePostingAgainstBalance D balance posting =
     bind_res (validate_target (post_Target posting) ''posting.target'') (\<lambda>_.
       if bal_ID balance \<noteq> lt_BalanceID (post_Target posting)
       then Inl (NewDomainError ErrorAccountIneligibility ''posting.target.balanceId'')
       else if bal_AccountID balance \<noteq> lt_AccountID (post_Target posting)
       then Inl (NewDomainError ErrorAccountIneligibility ''posting.target.accountId'')
       else if bal_Asset balance \<noteq> post_Asset posting
       then Inl (NewDomainError ErrorAssetCodeNotFound ''posting.asset'')
       else bind_res (checkBounds D (post_Amount posting) ''posting.amount'') (\<lambda>_.
         if \<not> dec_IsPositive D (post_Amount posting)
         then Inl (NewDomainError ErrorInvalidInput ''posting.amount'')
         else Inr ()))"

definition applyOnHold ::
  "'d decimal_api \<Rightarrow> ('d, 'm) balance \<Rightarrow> 'd posting \<Rightarrow> domain_error + ('d, 'm) balance" where
  "applyOnHold D balance posting =
     (if post_Status posting \<noteq> StatusPending
      then Inl (NewDomainError ErrorInvalidStateTransition ''posting.status'')
      else Inr (balance\<lparr>bal_Available := dec_Sub D (bal_Available balance) (post_Amount posting),
                        bal_OnHold := dec_Add D (bal_OnHold balance) (post_Amount posting)\<rparr>))"

definition applyRelease ::
  "'d decimal_api \<Rightarrow> ('d, 'm) balance \<Rightarrow> 'd posting \<Rightarrow> domain_error + ('d, 'm) balance" where
  "applyRelease D balance posting =
     (if post_Status posting \<noteq> StatusCanceled
      then Inl (NewDomainError ErrorInvalidStateTransition ''posting.status'')
      else Inr (balance\<lparr>bal_OnHold := dec_Sub D (bal_OnHold balance) (post_Amount posting),
                        bal_Available := dec_Add D (bal_Available balance) (post_Amount posting)\<rparr>))"

definition applyDebit ::
  "'d decimal_api \<Rightarrow> ('d, 'm) balance \<Rightarrow> 'd posting \<Rightarrow> domain_error + ('d, 'm) balance" where
  "applyDebit D balance posting =
     (case post_Status posting of
        StatusApproved \<Rightarrow>
          Inr (balance\<lparr>bal_OnHold := dec_Sub D (bal_OnHold balance) (post_Amount posting)\<rparr>)
      | StatusCreated \<Rightarrow>
          Inr (balance\<lparr>bal_Available := dec_Sub D (bal_Available balance) (post_Amount posting)\<rparr>)
      | StatusCanceled \<Rightarrow>
          Inr (balance\<lparr>bal_Available := dec_Sub D (bal_Available balance) (post_Amount posting)\<rparr>)
      | _ \<Rightarrow> Inl (NewDomainError ErrorInvalidStateTransition ''posting.status''))"

definition applyCredit ::
  "'d decimal_api \<Rightarrow> ('d, 'm) balance \<Rightarrow> 'd posting \<Rightarrow> domain_error + ('d, 'm) balance" where
  "applyCredit D balance posting =
     (if post_Status posting \<in> {StatusCreated, StatusApproved, StatusPending}
      then Inr (balance\<lparr>bal_Available := dec_Add D (bal_Available balance) (post_Amount posting)\<rparr>)
      else Inl (NewDomainError ErrorInvalidStateTransition ''posting.status''))"

definition applyPostingOperation ::
  "'d decimal_api \<Rightarrow> ('d, 'm) balance \<Rightarrow> 'd posting \<Rightarrow> domain_error + ('d, 'm) balance" where
  "applyPostingOperation D balance posting =
     (case post_Operation posting of
        OperationOnHold \<Rightarrow> applyOnHold D balance posting
      | OperationRelease \<Rightarrow> applyRelease D balance posting
      | OperationDebit \<Rightarrow> applyDebit D balance posting
      | OperationCredit \<Rightarrow> applyCredit D balance posting
      | OperationOther _ \<Rightarrow> Inl (NewDomainError ErrorInvalidInput ''posting.operation''))"

definition validatePostingResult ::
  "'d decimal_api \<Rightarrow> ('d, 'm) balance \<Rightarrow> domain_error + unit" where
  "validatePostingResult D balance =
     (if dec_IsNegative D (bal_Available balance)
      then Inl (NewDomainError ErrorInsufficientFunds ''posting.amount'')
      else if dec_IsNegative D (bal_OnHold balance)
      then Inl (NewDomainError ErrorInsufficientFunds ''posting.amount'')
      else Inr ())"

definition ApplyPosting ::
  "'d decimal_api \<Rightarrow> ('d, 'm) balance \<Rightarrow> 'd posting \<Rightarrow> domain_error + ('d, 'm) balance" where
  "ApplyPosting D balance posting =
     bind_res (validatePostingAgainstBalance D balance posting) (\<lambda>_.
     bind_res (applyPostingOperation D balance posting) (\<lambda>updated.
     bind_res (validatePostingResult D updated) (\<lambda>_.
       Inr (updated\<lparr>bal_Version := bal_Version updated + 1\<rparr>))))"

lemmas apply_defs = applyOnHold_def applyRelease_def applyDebit_def applyCredit_def
  applyPostingOperation_def

lemma checkBounds_ok:
  "checkBounds D v field = Inr u \<longleftrightarrow> CheckDecimal D v = (Inr () :: unit safe_error + unit)"
  by (auto simp: checkBounds_def split: sum.splits)

lemma checkBounds_error:
  "checkBounds D v field = Inl e \<Longrightarrow> e = NewDomainError ErrorInvalidInput field"
  by (auto simp: checkBounds_def split: sum.splits)

lemma validate_target_ok:
  "validate_target t field = Inr u \<longleftrightarrow> \<not> is_blank (lt_AccountID t) \<and> \<not> is_blank (lt_BalanceID t)"
  by (auto simp: validate_target_def)

subsection \<open>What a posting does to a balance\<close>

text \<open>
  The specification of a posting: the multiples of the amount that it adds to the available
  and to the on-hold part of the balance, \<open>None\<close> for an operation the status does not
  allow.
\<close>

fun posting_effect :: "operation \<Rightarrow> transaction_status \<Rightarrow> (rat \<times> rat) option" where
  "posting_effect OperationOnHold StatusPending = Some (- 1, 1)"
| "posting_effect OperationRelease StatusCanceled = Some (1, - 1)"
| "posting_effect OperationDebit StatusApproved = Some (0, - 1)"
| "posting_effect OperationDebit StatusCreated = Some (- 1, 0)"
| "posting_effect OperationDebit StatusCanceled = Some (- 1, 0)"
| "posting_effect OperationCredit StatusCreated = Some (1, 0)"
| "posting_effect OperationCredit StatusApproved = Some (1, 0)"
| "posting_effect OperationCredit StatusPending = Some (1, 0)"
| "posting_effect _ _ = None"

text \<open>The posting belongs to the balance and has an amount that can be posted.\<close>

definition posting_fits :: "'d decimal_api \<Rightarrow> ('d, 'm) balance \<Rightarrow> 'd posting \<Rightarrow> bool" where
  "posting_fits D b p \<longleftrightarrow>
     \<not> is_blank (lt_AccountID (post_Target p)) \<and> \<not> is_blank (lt_BalanceID (post_Target p))
     \<and> bal_ID b = lt_BalanceID (post_Target p) \<and> bal_AccountID b = lt_AccountID (post_Target p)
     \<and> bal_Asset b = post_Asset p
     \<and> CheckDecimal D (post_Amount p) = (Inr () :: unit safe_error + unit)
     \<and> dec_IsPositive D (post_Amount p)"

lemma validatePostingAgainstBalance_ok:
  "validatePostingAgainstBalance D b p = Inr u \<longleftrightarrow> posting_fits D b p"
  by (auto simp: validatePostingAgainstBalance_def posting_fits_def res_simps validate_target_ok
      checkBounds_ok)

lemma ApplyPosting_Inr:
  "ApplyPosting D b p = Inr b' \<longleftrightarrow>
     posting_fits D b p \<and>
     (\<exists>u. applyPostingOperation D b p = Inr u \<and>
        \<not> dec_IsNegative D (bal_Available u) \<and> \<not> dec_IsNegative D (bal_OnHold u) \<and>
        b' = u\<lparr>bal_Version := bal_Version u + 1\<rparr>)"
  by (auto simp: ApplyPosting_def bind_res_eq_Inr validatePostingAgainstBalance_ok
      validatePostingResult_def)

context decimal_laws
begin

text \<open>One step of the operation switch, in values: the effect table decides.\<close>

lemma applyPostingOperation_vals:
  assumes "posting_effect (post_Operation p) (post_Status p) = Some (da, dh)"
  obtains u where "applyPostingOperation D b p = Inr u"
    and "val (bal_Available u) = val (bal_Available b) + da * val (post_Amount p)"
    and "val (bal_OnHold u) = val (bal_OnHold b) + dh * val (post_Amount p)"
    and "u = b\<lparr>bal_Available := bal_Available u, bal_OnHold := bal_OnHold u\<rparr>"
proof -
  have "\<exists>u. applyPostingOperation D b p = Inr u
      \<and> val (bal_Available u) = val (bal_Available b) + da * val (post_Amount p)
      \<and> val (bal_OnHold u) = val (bal_OnHold b) + dh * val (post_Amount p)
      \<and> u = b\<lparr>bal_Available := bal_Available u, bal_OnHold := bal_OnHold u\<rparr>"
    using assms
    by (cases "(post_Operation p, post_Status p)" rule: posting_effect.cases)
      (auto simp: apply_defs dec_simps)
  with that show thesis by blast
qed

lemma applyPostingOperation_None:
  "posting_effect (post_Operation p) (post_Status p) = None \<Longrightarrow> applyPostingOperation D b p \<noteq> Inr u"
  by (cases "post_Operation p"; cases "post_Status p") (auto simp: apply_defs)

text \<open>
  \<open>ApplyPosting\<close> accepts exactly the fitting postings whose effect leaves both parts of
  the balance non-negative.
\<close>

lemma ApplyPosting_accepts:
  "(\<exists>b'. ApplyPosting D b p = Inr b') \<longleftrightarrow>
     posting_fits D b p \<and>
     (\<exists>da dh. posting_effect (post_Operation p) (post_Status p) = Some (da, dh) \<and>
        0 \<le> val (bal_Available b) + da * val (post_Amount p) \<and>
        0 \<le> val (bal_OnHold b) + dh * val (post_Amount p))" (is "?L \<longleftrightarrow> ?R")
proof (cases "posting_effect (post_Operation p) (post_Status p)")
  case None
  then show ?thesis
    using applyPostingOperation_None by (auto simp: ApplyPosting_Inr)
next
  case (Some e)
  obtain da dh where e: "e = (da, dh)" by fastforce
  obtain u where u: "applyPostingOperation D b p = Inr u"
      "val (bal_Available u) = val (bal_Available b) + da * val (post_Amount p)"
      "val (bal_OnHold u) = val (bal_OnHold b) + dh * val (post_Amount p)"
    using Some applyPostingOperation_vals unfolding e by metis
  show ?thesis
    by (simp add: ApplyPosting_Inr u(1) Some e dec_simps not_less flip: u(2,3))
qed

text \<open>What the accepted posting did: the effect on the two parts, and nothing else but the version.\<close>

lemma ApplyPosting_result:
  assumes "ApplyPosting D b p = Inr b'"
  obtains da dh where "posting_effect (post_Operation p) (post_Status p) = Some (da, dh)"
    and "val (bal_Available b') = val (bal_Available b) + da * val (post_Amount p)"
    and "val (bal_OnHold b') = val (bal_OnHold b) + dh * val (post_Amount p)"
    and "0 \<le> val (bal_Available b')" and "0 \<le> val (bal_OnHold b')"
    and "b' = b\<lparr>bal_Available := bal_Available b', bal_OnHold := bal_OnHold b',
                bal_Version := bal_Version b + 1\<rparr>"
proof -
  from assms obtain u where u: "applyPostingOperation D b p = Inr u"
      "\<not> dec_IsNegative D (bal_Available u)" "\<not> dec_IsNegative D (bal_OnHold u)"
      "b' = u\<lparr>bal_Version := bal_Version u + 1\<rparr>"
    by (auto simp: ApplyPosting_Inr)
  from u(1) obtain da dh where e: "posting_effect (post_Operation p) (post_Status p) = Some (da, dh)"
    using applyPostingOperation_None [of p b u] by fastforce
  obtain w where w: "applyPostingOperation D b p = Inr w"
      "val (bal_Available w) = val (bal_Available b) + da * val (post_Amount p)"
      "val (bal_OnHold w) = val (bal_OnHold b) + dh * val (post_Amount p)"
      "w = b\<lparr>bal_Available := bal_Available w, bal_OnHold := bal_OnHold w\<rparr>"
    using applyPostingOperation_vals [OF e] by metis
  with u have [simp]: "w = u" by simp
  have ver: "bal_Version u = bal_Version b" by (subst w(4) [simplified]) simp
  show thesis
  proof (rule that [OF e])
    show "b' = b\<lparr>bal_Available := bal_Available b', bal_OnHold := bal_OnHold b',
                bal_Version := bal_Version b + 1\<rparr>"
      unfolding u(4) ver by (subst (1) w(4) [simplified]) simp
  qed (use u w in \<open>simp_all add: dec_simps not_less\<close>)
qed

end

subsection \<open>What a plan contains\<close>

text \<open>
  The specification of the postings of one side: one posting per allocation, in order, with
  the allocation's target and route; the amount is the explicit amount, the share of the
  total, or, for the remainder allocation, \<open>r\<close>.
\<close>

definition alloc_is_remainder :: "'d allocation \<Rightarrow> bool" where
  "alloc_is_remainder a \<longleftrightarrow> alloc_Amount a = None \<and> alloc_Share a = None"

definition alloc_value :: "'d decimal_api \<Rightarrow> 'd \<Rightarrow> 'd allocation \<Rightarrow> 'd" where
  "alloc_value D t a =
     (case alloc_Amount a of
        Some x \<Rightarrow> x
      | None \<Rightarrow> (case alloc_Share a of
                  Some s \<Rightarrow> dec_Mul D t (dec_Div D s (dec_NewFromInt D 100))
                | None \<Rightarrow> dec_Zero D))"

definition posting_of ::
  "'d decimal_api \<Rightarrow> string \<Rightarrow> 'd \<Rightarrow> operation \<Rightarrow> transaction_status \<Rightarrow> 'd \<Rightarrow> 'd allocation \<Rightarrow> 'd posting"
  where
  "posting_of D asset t op st r a =
     \<lparr>post_Target = alloc_Target a, post_Asset = asset,
      post_Amount = (if alloc_is_remainder a then r else alloc_value D t a),
      post_Operation = op, post_Status = st, post_Route = alloc_Route a\<rparr>"

text \<open>An allocation the code accepts.\<close>

definition alloc_ok :: "'d decimal_api \<Rightarrow> 'd \<Rightarrow> 'd allocation \<Rightarrow> bool" where
  "alloc_ok D t a \<longleftrightarrow>
     \<not> is_blank (lt_AccountID (alloc_Target a)) \<and> \<not> is_blank (lt_BalanceID (alloc_Target a))
     \<and> (alloc_Remainder a \<longleftrightarrow> alloc_is_remainder a)
     \<and> (alloc_Amount a = None \<or> alloc_Share a = None)
     \<and> (\<not> alloc_is_remainder a \<longrightarrow> dec_IsPositive D (alloc_value D t a))"

lemma buildPostingFromAllocation_Inr:
  assumes "buildPostingFromAllocation D asset t pend st src a field = Inr (p, amt, rem)"
  shows "\<exists>op. ResolveOperation pend src st = Inr op \<and> p = posting_of D asset t op st (dec_Zero D) a"
    and "rem \<longleftrightarrow> alloc_is_remainder a" and "amt = alloc_value D t a" and "alloc_ok D t a"
  using assms
  by (auto simp: buildPostingFromAllocation_def validateAllocationStrategy_def validate_target_ok
      resolveAllocationAmount_def posting_of_def alloc_is_remainder_def alloc_value_def alloc_ok_def
      Let_def res_simps split: if_splits option.splits)

text \<open>
  The loop: it appends the specified postings, adds up the values that are not the
  remainder, and finds the only remainder allocation, if any.
\<close>

definition rem_position :: "nat \<Rightarrow> 'd allocation list \<Rightarrow> nat option \<Rightarrow> nat option \<Rightarrow> bool" where
  "rem_position i allocs before after \<longleftrightarrow>
     (case after of
        None \<Rightarrow> before = None \<and> (\<forall>a \<in> set allocs. \<not> alloc_is_remainder a)
      | Some j \<Rightarrow>
          (before = Some j \<and> (\<forall>a \<in> set allocs. \<not> alloc_is_remainder a))
          \<or> (before = None \<and> i \<le> j \<and> j < i + length allocs
              \<and> (\<forall>k < length allocs. alloc_is_remainder (allocs ! k) \<longleftrightarrow> i + k = j)))"

lemma rem_position_Cons_no:
  "\<not> alloc_is_remainder a \<Longrightarrow> rem_position (Suc i) as before after \<Longrightarrow> rem_position i (a # as) before after"
  by (auto simp: rem_position_def nth_Cons split: option.splits nat.splits)

lemma rem_position_Cons_yes:
  "alloc_is_remainder a \<Longrightarrow> rem_position (Suc i) as (Some i) after \<Longrightarrow> rem_position i (a # as) None after"
  by (auto simp: rem_position_def nth_Cons all_set_conv_all_nth split: option.splits nat.splits)

lemma buildPostings_loop_Inr:
  assumes "buildPostings_loop D asset t pend st src side i allocs ps acc before = Inr (ps', acc', after)"
    and "ResolveOperation pend src st = Inr op"
  shows "ps' = ps @ map (posting_of D asset t op st (dec_Zero D)) allocs
    \<and> acc' = foldl (dec_Add D) acc (map (alloc_value D t) (filter (\<lambda>a. \<not> alloc_is_remainder a) allocs))
    \<and> rem_position i allocs before after \<and> (\<forall>a \<in> set allocs. alloc_ok D t a)"
  using assms(1)
proof (induction allocs arbitrary: i ps acc before)
  case Nil
  then show ?case by (auto simp: rem_position_def split: option.splits)
next
  case (Cons a as)
  let ?field = "side @ ''['' @ itoa i @ '']''"
  from Cons.prems obtain p amt rem
    where b: "buildPostingFromAllocation D asset t pend st src a ?field = Inr (p, amt, rem)"
    by (auto simp: bind_res_eq_Inr Let_def)
  note b' = buildPostingFromAllocation_Inr [OF b]
  have p: "p = posting_of D asset t op st (dec_Zero D) a" using b'(1) assms(2) by auto
  show ?case
  proof (cases "alloc_is_remainder a")
    case True
    with Cons.prems b b'(2) have none: "before = None"
      and rest: "buildPostings_loop D asset t pend st src side (Suc i) as (ps @ [p]) acc (Some i)
                   = Inr (ps', acc', after)"
      by (auto simp: Let_def split: if_splits)
    from Cons.IH [OF rest] True none p b'(4) show ?thesis
      by (auto intro: rem_position_Cons_yes)
  next
    case False
    with Cons.prems b b'(2,3)
    have rest: "buildPostings_loop D asset t pend st src side (Suc i) as (ps @ [p])
                  (dec_Add D acc (alloc_value D t a)) before = Inr (ps', acc', after)"
      by (auto simp: Let_def split: if_splits)
    from Cons.IH [OF rest] False p b'(4) show ?thesis
      by (auto intro: rem_position_Cons_no)
  qed
qed

definition fixed_values :: "'d decimal_api \<Rightarrow> 'd \<Rightarrow> 'd allocation list \<Rightarrow> 'd list" where
  "fixed_values D t allocs = map (alloc_value D t) (filter (\<lambda>a. \<not> alloc_is_remainder a) allocs)"

definition remainder_of :: "'d decimal_api \<Rightarrow> 'd \<Rightarrow> 'd allocation list \<Rightarrow> 'd" where
  "remainder_of D t allocs = dec_Sub D t (foldl (dec_Add D) (dec_Zero D) (fixed_values D t allocs))"

lemma posting_of_no_remainder:
  "\<not> alloc_is_remainder a \<Longrightarrow> posting_of D asset t op st r a = posting_of D asset t op st r' a"
  by (simp add: posting_of_def)

lemma posting_of_set_amount:
  "alloc_is_remainder a \<Longrightarrow>
     (posting_of D asset t op st r a)\<lparr>post_Amount := r'\<rparr> = posting_of D asset t op st r' a"
  by (simp add: posting_of_def)

lemma rem_position_update:
  assumes "rem_position 0 allocs None (Some j)"
  shows "(map (posting_of D asset t op st z) allocs)
           [j := (map (posting_of D asset t op st z) allocs ! j)\<lparr>post_Amount := r\<rparr>]
         = map (posting_of D asset t op st r) allocs"
proof (rule nth_equalityI)
  from assms have j: "j < length allocs"
    and only: "\<And>k. k < length allocs \<Longrightarrow> alloc_is_remainder (allocs ! k) \<longleftrightarrow> k = j"
    by (auto simp: rem_position_def)
  fix k
  assume "k < length ((map (posting_of D asset t op st z) allocs)
           [j := (map (posting_of D asset t op st z) allocs ! j)\<lparr>post_Amount := r\<rparr>])"
  then have k: "k < length allocs" by simp
  with j only [OF k] show "(map (posting_of D asset t op st z) allocs)
           [j := (map (posting_of D asset t op st z) allocs ! j)\<lparr>post_Amount := r\<rparr>] ! k
         = map (posting_of D asset t op st r) allocs ! k"
    by (cases "k = j")
      (auto simp: posting_of_set_amount intro: posting_of_no_remainder)
qed simp

lemma rem_position_once:
  assumes "rem_position 0 allocs None (Some j)"
  shows "length (filter alloc_is_remainder allocs) = 1"
proof -
  from assms have "{k. k < length allocs \<and> alloc_is_remainder (allocs ! k)} = {j}"
    by (auto simp: rem_position_def)
  then show ?thesis by (simp add: length_filter_conv_card)
qed

text \<open>
  \<open>buildPostings\<close> computes the specified postings; the remainder allocation, of which
  there is at most one, receives what the others leave of the total.
\<close>

lemma buildPostings_Inr:
  assumes "buildPostings D asset t pend st allocs src = Inr ps"
    and "ResolveOperation pend src st = Inr op"
  shows "ps = map (posting_of D asset t op st (remainder_of D t allocs)) allocs"
    and "\<forall>a \<in> set allocs. alloc_ok D t a"
    and "(\<forall>a \<in> set allocs. \<not> alloc_is_remainder a)
           \<and> dec_Equal D (foldl (dec_Add D) (dec_Zero D) (fixed_values D t allocs)) t
         \<or> length (filter alloc_is_remainder allocs) = 1
           \<and> dec_IsPositive D (remainder_of D t allocs)
           \<and> dec_Equal D (dec_Add D (foldl (dec_Add D) (dec_Zero D) (fixed_values D t allocs))
                            (remainder_of D t allocs)) t"
proof -
  let ?side = "if src then ''sources'' else ''destinations''"
  from assms(1) obtain ps0 acc after
    where loop: "buildPostings_loop D asset t pend st src ?side 0 allocs [] (dec_Zero D) None
                   = Inr (ps0, acc, after)"
    by (auto simp: buildPostings_def bind_res_eq_Inr Let_def)
  note L = buildPostings_loop_Inr [OF loop assms(2), folded fixed_values_def, simplified]
  show "\<forall>a \<in> set allocs. alloc_ok D t a" using L by simp
  let ?z = "dec_Zero D" and ?r = "remainder_of D t allocs"
  have "ps = map (posting_of D asset t op st ?r) allocs \<and>
      ((\<forall>a \<in> set allocs. \<not> alloc_is_remainder a)
           \<and> dec_Equal D (foldl (dec_Add D) ?z (fixed_values D t allocs)) t
       \<or> length (filter alloc_is_remainder allocs) = 1 \<and> dec_IsPositive D ?r
           \<and> dec_Equal D (dec_Add D (foldl (dec_Add D) ?z (fixed_values D t allocs)) ?r) t)"
  proof (cases after)
    case None
    with L have no: "\<forall>a \<in> set allocs. \<not> alloc_is_remainder a" by (simp add: rem_position_def)
    have eq: "ps = ps0 \<and> dec_Equal D acc t"
      using assms(1) loop None
      by (auto simp: buildPostings_def bind_res_eq_Inr Let_def validateAllocatedTotal_def
          split: if_splits)
    have "map (posting_of D asset t op st ?z) allocs = map (posting_of D asset t op st ?r) allocs"
      using no by (intro map_cong) (auto intro: posting_of_no_remainder)
    with eq L no show ?thesis by simp
  next
    case (Some j)
    with L have pos: "rem_position 0 allocs None (Some j)" by simp
    have one: "length (filter alloc_is_remainder allocs) = 1"
      by (rule rem_position_once [OF pos])
    have "ps = ps0[j := (ps0 ! j)\<lparr>post_Amount := ?r\<rparr>] \<and> dec_IsPositive D ?r
        \<and> dec_Equal D (dec_Add D acc ?r) t"
      using assms(1) loop Some L
      by (auto simp: buildPostings_def bind_res_eq_Inr Let_def validateAllocatedTotal_def
          computeRemainderAllocation_def remainder_of_def split: if_splits)
    with L one rem_position_update [OF pos] show ?thesis by simp
  qed
  then show "ps = map (posting_of D asset t op st ?r) allocs"
    and "(\<forall>a \<in> set allocs. \<not> alloc_is_remainder a)
           \<and> dec_Equal D (foldl (dec_Add D) ?z (fixed_values D t allocs)) t
         \<or> length (filter alloc_is_remainder allocs) = 1 \<and> dec_IsPositive D ?r
           \<and> dec_Equal D (dec_Add D (foldl (dec_Add D) ?z (fixed_values D t allocs)) ?r) t"
    by blast+
qed

lemma buildPostings_resolves:
  "buildPostings D asset t pend st (a # as) src = Inr ps \<Longrightarrow> \<exists>op. ResolveOperation pend src st = Inr op"
  by (auto simp: buildPostings_def buildPostingFromAllocation_def res_simps Let_def)

context decimal_laws
begin

lemma sum_posting_of:
  "sum_list (map (val \<circ> post_Amount \<circ> posting_of D asset t op st r) allocs)
     = sum_list (map val (fixed_values D t allocs))
       + of_nat (length (filter alloc_is_remainder allocs)) * val r"
  by (induction allocs) (auto simp: fixed_values_def posting_of_def algebra_simps)

text \<open>The amounts of one side add up to the total, and each is positive.\<close>

lemma buildPostings_sum:
  assumes "buildPostings D asset t pend st allocs src = Inr ps"
    and "ResolveOperation pend src st = Inr op"
  shows "sum_list (map (val \<circ> post_Amount) ps) = val t"
proof -
  note B = buildPostings_Inr [OF assms]
  have "sum_list (map (val \<circ> post_Amount) ps)
      = sum_list (map val (fixed_values D t allocs))
        + of_nat (length (filter alloc_is_remainder allocs)) * val (remainder_of D t allocs)"
    unfolding B(1) map_map using sum_posting_of [of asset t op st "remainder_of D t allocs" allocs]
    by (simp add: comp_assoc)
  moreover have "length (filter alloc_is_remainder allocs) = 0"
    if "\<forall>a \<in> set allocs. \<not> alloc_is_remainder a"
    using that by (simp add: filter_empty_conv)
  ultimately show ?thesis
    using B(3) by (auto simp: dec_simps val_foldl_Add_Zero)
qed

lemma buildPostings_positive:
  assumes "buildPostings D asset t pend st allocs src = Inr ps"
    and "ResolveOperation pend src st = Inr op" and "p \<in> set ps"
  shows "0 < val (post_Amount p)"
proof -
  note B = buildPostings_Inr [OF assms(1,2)]
  from assms(3) B(1) obtain a where a: "a \<in> set allocs"
      "p = posting_of D asset t op st (remainder_of D t allocs) a" by auto
  show ?thesis
  proof (cases "alloc_is_remainder a")
    case True
    with B(3) a show ?thesis by (auto simp: posting_of_def dec_simps)
  next
    case False
    with B(2) a show ?thesis by (auto simp: posting_of_def alloc_ok_def dec_simps)
  qed
qed

lemma val_sumPostings: "val (sumPostings D ps) = sum_list (map (val \<circ> post_Amount) ps)"
proof -
  have "val (foldl (\<lambda>acc p. dec_Add D acc (post_Amount p)) z ps) = val z + sum_list (map (val \<circ> post_Amount) ps)" for z
    by (induction ps arbitrary: z) (simp_all add: dec_simps add.assoc)
  then show ?thesis by (simp add: sumPostings_def dec_simps)
qed

end

lemma BuildIntentPlan_Inr:
  assumes "BuildIntentPlan D input st = Inr plan"
  obtains sop dop where
    "ResolveOperation (in_Pending input) True st = Inr sop"
    "ResolveOperation (in_Pending input) False st = Inr dop"
    "buildPostings D (in_Asset input) (in_Total input) (in_Pending input) st (in_Sources input) True
       = Inr (plan_Sources plan)"
    "buildPostings D (in_Asset input) (in_Total input) (in_Pending input) st (in_Destinations input) False
       = Inr (plan_Destinations plan)"
    "plan_Asset plan = in_Asset input" "plan_Total plan = in_Total input"
    "plan_Pending plan = in_Pending input"
    "set (map (lt_BalanceID \<circ> post_Target) (plan_Sources plan))
       \<inter> set (map (lt_BalanceID \<circ> post_Target) (plan_Destinations plan)) = {}"
    "dec_IsPositive D (in_Total input)" "\<not> is_blank (in_Asset input)"
    "in_Sources input \<noteq> []" "in_Destinations input \<noteq> []"
proof -
  from assms have ne: "in_Sources input \<noteq> []" "in_Destinations input \<noteq> []"
    by (auto simp: BuildIntentPlan_def res_simps split: if_splits)
  from assms have S: "buildPostings D (in_Asset input) (in_Total input) (in_Pending input) st
        (in_Sources input) True = Inr (plan_Sources plan)"
    and T: "buildPostings D (in_Asset input) (in_Total input) (in_Pending input) st
        (in_Destinations input) False = Inr (plan_Destinations plan)"
    and rest: "plan_Asset plan = in_Asset input" "plan_Total plan = in_Total input"
      "plan_Pending plan = in_Pending input" "dec_IsPositive D (in_Total input)"
      "\<not> is_blank (in_Asset input)"
    by (auto simp: BuildIntentPlan_def res_simps Let_def split: if_splits)
  from assms have "\<forall>d \<in> set (plan_Destinations plan). \<forall>s \<in> set (plan_Sources plan).
      lt_BalanceID (post_Target d) \<noteq> lt_BalanceID (post_Target s)"
    by (auto simp: BuildIntentPlan_def res_simps Let_def image_iff split: if_splits)
  then have disj: "set (map (lt_BalanceID \<circ> post_Target) (plan_Sources plan))
       \<inter> set (map (lt_BalanceID \<circ> post_Target) (plan_Destinations plan)) = {}"
    by (simp add: disjoint_iff image_iff) metis
  obtain sop where "ResolveOperation (in_Pending input) True st = Inr sop"
    using S ne(1) by (cases "in_Sources input") (auto dest: buildPostings_resolves)
  moreover obtain dop where "ResolveOperation (in_Pending input) False st = Inr dop"
    using T ne(2) by (cases "in_Destinations input") (auto dest: buildPostings_resolves)
  ultimately show thesis using that S T rest disj ne by blast
qed

subsection \<open>What eligibility checks\<close>

text \<open>
  The scope of a balance is its organization and ledger; a balance with neither is outside
  every scope. \<open>scope_join\<close> is what the two reference pointers go through.
\<close>

abbreviation no_scope :: scope_ref where
  "no_scope \<equiv> ([], [])"

definition scope_of :: "('d, 'm) balance \<Rightarrow> scope_ref" where
  "scope_of b = (bal_OrganizationID b, bal_LedgerID b)"

fun scope_join :: "scope_ref \<Rightarrow> scope_ref list \<Rightarrow> scope_ref option" where
  "scope_join ref [] = Some ref"
| "scope_join ref (s # ss) =
     (if s = no_scope then scope_join ref ss
      else if ref = no_scope then scope_join s ss
      else if s = ref then scope_join ref ss else None)"

lemma scope_join_append:
  "scope_join ref (xs @ ys) = Option.bind (scope_join ref xs) (\<lambda>ref'. scope_join ref' ys)"
  by (induction ref xs rule: scope_join.induct) auto

lemma scope_join_fixed:
  "ref \<noteq> no_scope \<Longrightarrow> scope_join ref ss = Some ref' \<longleftrightarrow> ref' = ref \<and> (\<forall>s \<in> set ss. s = no_scope \<or> s = ref)"
  by (induction ss) auto

lemma scope_join_exists:
  "(\<exists>ref'. scope_join no_scope ss = Some ref') \<longleftrightarrow> (\<exists>r. \<forall>s \<in> set ss. s = no_scope \<or> s = r)"
proof (induction ss)
  case Nil
  then show ?case by simp
next
  case (Cons s ss)
  show ?case
  proof (cases "s = no_scope")
    case True
    with Cons show ?thesis by simp
  next
    case False
    then show ?thesis by (auto simp: scope_join_fixed)
  qed
qed

lemma validateScope_iff:
  "validateScope ref b field = Inr ref' \<longleftrightarrow> scope_join ref [scope_of b] = Some ref'"
  by (cases ref) (auto simp: validateScope_def scope_of_def)

text \<open>
  The contract the source and the destination check share: each accepts a posting exactly when
  it is acceptable on its own and its scope joins the scope seen so far.
\<close>

locale scoped_check =
  fixes check :: "scope_ref \<Rightarrow> 'p \<Rightarrow> domain_error + scope_ref"
    and ok :: "'p \<Rightarrow> bool" and sc :: "'p \<Rightarrow> scope_ref"
  assumes check_iff: "check ref p = Inr ref' \<longleftrightarrow> ok p \<and> scope_join ref [sc p] = Some ref'"
begin

lemma fold_check:
  "fold_res check ref ps = Inr ref' \<longleftrightarrow>
     (\<forall>p \<in> set ps. ok p) \<and> scope_join ref (map sc ps) = Some ref'"
proof (induction ps arbitrary: ref)
  case Nil
  then show ?case by auto
next
  case (Cons p ps)
  have "fold_res check ref (p # ps) = Inr ref' \<longleftrightarrow>
      ok p \<and> (\<forall>p \<in> set ps. ok p) \<and>
      (\<exists>r. scope_join ref [sc p] = Some r \<and> scope_join r (map sc ps) = Some ref')"
    by (auto simp: bind_res_eq_Inr check_iff Cons.IH)
  also have "(\<exists>r. scope_join ref [sc p] = Some r \<and> scope_join r (map sc ps) = Some ref')
      \<longleftrightarrow> scope_join ref (map sc (p # ps)) = Some ref'"
    using scope_join_append [of ref "[sc p]" "map sc ps"]
    by (auto simp del: scope_join.simps(2) split: Option.bind_splits)
  finally show ?case by auto
qed

end

text \<open>What makes one posting acceptable, apart from the scope.\<close>

definition posting_balance ::
  "(string \<times> ('d, 'm) balance) list \<Rightarrow> 'd posting \<Rightarrow> ('d, 'm) balance option" where
  "posting_balance balances p = map_of balances (lt_BalanceID (post_Target p))"

definition source_ok ::
  "'d decimal_api \<Rightarrow> 'd intent_plan \<Rightarrow> (string \<times> ('d, 'm) balance) list \<Rightarrow> 'd posting \<Rightarrow> bool" where
  "source_ok D plan balances p \<longleftrightarrow>
     (\<exists>b. posting_balance balances p = Some b \<and> bal_AccountID b = lt_AccountID (post_Target p)
        \<and> bal_Asset b = plan_Asset plan \<and> bal_AllowSending b
        \<and> CheckDecimal D (post_Amount p) = (Inr () :: unit safe_error + unit)
        \<and> \<not> dec_LessThan D (bal_Available b) (post_Amount p)
        \<and> \<not> (plan_Pending plan \<and> bal_AccountType b = AccountTypeExternal))"

definition destination_ok ::
  "'d decimal_api \<Rightarrow> 'd intent_plan \<Rightarrow> (string \<times> ('d, 'm) balance) list \<Rightarrow> 'd posting \<Rightarrow> bool" where
  "destination_ok D plan balances p \<longleftrightarrow>
     (\<exists>b. posting_balance balances p = Some b \<and> bal_AccountID b = lt_AccountID (post_Target p)
        \<and> bal_Asset b = plan_Asset plan \<and> bal_AllowReceiving b
        \<and> (bal_AccountType b = AccountTypeExternal \<longrightarrow>
             \<not> dec_IsNegative D (bal_Available b) \<and> \<not> dec_IsPositive D (bal_Available b)))"

definition posting_scope ::
  "(string \<times> ('d, 'm) balance) list \<Rightarrow> 'd posting \<Rightarrow> scope_ref" where
  "posting_scope balances p =
     (case posting_balance balances p of None \<Rightarrow> no_scope | Some b \<Rightarrow> scope_of b)"

interpretation source_check:
  scoped_check "validateSourcePosting D plan balances" "source_ok D plan balances"
    "posting_scope balances"
  for D :: "'d decimal_api" and plan and balances :: "(string \<times> ('d, 'm) balance) list"
  by unfold_locales
    (auto simp: validateSourcePosting_def source_ok_def posting_scope_def posting_balance_def
      bind_res_eq_Inr validateScope_iff checkBounds_ok simp del: scope_join.simps
      split: option.splits)

interpretation destination_check:
  scoped_check "validateDestinationPosting D plan balances" "destination_ok D plan balances"
    "posting_scope balances"
  for D :: "'d decimal_api" and plan and balances :: "(string \<times> ('d, 'm) balance) list"
  by unfold_locales
    (auto simp: validateDestinationPosting_def destination_ok_def posting_scope_def
      posting_balance_def bind_res_eq_Inr validateScope_iff validateExternalDestinationBalance_def
      simp del: scope_join.simps split: option.splits if_splits)

lemma ValidateBalanceEligibility_core:
  "ValidateBalanceEligibility D plan balances = Inr () \<longleftrightarrow>
     balances \<noteq> [] \<and> (\<forall>p \<in> set (plan_Sources plan). source_ok D plan balances p)
     \<and> (\<forall>p \<in> set (plan_Destinations plan). destination_ok D plan balances p)
     \<and> (\<exists>ref'. scope_join no_scope
          (map (posting_scope balances) (plan_Sources plan @ plan_Destinations plan)) = Some ref')"
  by (auto simp: ValidateBalanceEligibility_def bind_res_eq_Inr source_check.fold_check
      destination_check.fold_check scope_join_append bind_eq_Some_conv)

subsection \<open>Properties\<close>

text \<open>A concrete input: ten units from one source, a quarter to one destination, the rest to another.\<close>

definition ex_target :: "string \<Rightarrow> ledger_target" where
  "ex_target n = \<lparr>lt_AccountID = ''acc-'' @ n, lt_BalanceID = ''bal-'' @ n\<rparr>"

definition ex_alloc :: "string \<Rightarrow> dec10 option \<Rightarrow> dec10 option \<Rightarrow> bool \<Rightarrow> dec10 allocation" where
  "ex_alloc n amt shr rem =
     \<lparr>alloc_Target = ex_target n, alloc_Amount = amt, alloc_Share = shr, alloc_Remainder = rem,
      alloc_Route = []\<rparr>"

definition ex_input :: "bool \<Rightarrow> dec10 transaction_intent_input" where
  "ex_input pending =
     \<lparr>in_Asset = ''BRL'', in_Total = Dec 10 0, in_Pending = pending,
      in_Sources = [ex_alloc ''a'' (Some (Dec 100 (- 1))) None False],
      in_Destinations = [ex_alloc ''b'' None (Some (Dec 25 0)) False, ex_alloc ''c'' None None True]\<rparr>"

definition ex_posting :: "string \<Rightarrow> dec10 \<Rightarrow> operation \<Rightarrow> transaction_status \<Rightarrow> dec10 posting" where
  "ex_posting n amt op st =
     \<lparr>post_Target = ex_target n, post_Asset = ''BRL'', post_Amount = amt, post_Operation = op,
      post_Status = st, post_Route = []\<rparr>"

definition ex_plan :: "dec10 intent_plan" where
  "ex_plan =
     \<lparr>plan_Asset = ''BRL'', plan_Total = Dec 10 0, plan_Pending = False,
      plan_Sources = [ex_posting ''a'' (Dec 100 (- 1)) OperationDebit StatusCreated],
      plan_Destinations =
        [ex_posting ''b'' (Dec 25000000000000000 (- 16)) OperationCredit StatusCreated,
         ex_posting ''c'' (Dec 75000000000000000 (- 16)) OperationCredit StatusCreated]\<rparr>"

definition ex_balance :: "string \<Rightarrow> dec10 \<Rightarrow> dec10 \<Rightarrow> (dec10, unit) balance" where
  "ex_balance n avail hold =
     \<lparr>bal_ID = ''bal-'' @ n, bal_OrganizationID = ''org'', bal_LedgerID = ''led'',
      bal_AccountID = ''acc-'' @ n, bal_Asset = ''BRL'', bal_Available = avail, bal_OnHold = hold,
      bal_Version = 7, bal_AccountType = AccountTypeInternal, bal_AllowSending = True,
      bal_AllowReceiving = True, bal_CreatedAt = 0, bal_UpdatedAt = 0, bal_DeletedAt = None,
      bal_Metadata = []\<rparr>"

definition ex_catalog :: "(string \<times> (dec10, unit) balance) list" where
  "ex_catalog =
     map (\<lambda>(n, d). (''bal-'' @ n, ex_balance n d (Dec 0 0)))
       [(''a'', Dec 30 0), (''b'', Dec 0 0), (''c'', Dec 5 0)]"

lemma ex_plan_built: "BuildIntentPlan dec10_api (ex_input False) StatusCreated = Inr ex_plan"
  by code_simp

text \<open>
  C1. A plan that \<open>BuildIntentPlan\<close> returns is balanced: the amounts of the sources and
  the amounts of the destinations each add up to the requested total, every posting moves a
  positive amount, and no balance is both a source and a destination.
\<close>

theorem BuildIntentPlan_balanced:
  assumes "decimal_laws D val" and "BuildIntentPlan D input st = Inr plan"
  shows "sum_list (map (val \<circ> post_Amount) (plan_Sources plan)) = val (in_Total input)
    \<and> sum_list (map (val \<circ> post_Amount) (plan_Destinations plan)) = val (in_Total input)
    \<and> (\<forall>p \<in> set (plan_Sources plan @ plan_Destinations plan). 0 < val (post_Amount p))
    \<and> set (map (lt_BalanceID \<circ> post_Target) (plan_Sources plan))
       \<inter> set (map (lt_BalanceID \<circ> post_Target) (plan_Destinations plan)) = {}"
  using assms(2)
  by (rule BuildIntentPlan_Inr)
    (auto dest: decimal_laws.buildPostings_sum [OF assms(1)]
        decimal_laws.buildPostings_positive [OF assms(1)])

theorem BuildIntentPlan_balanced_witness:
  "BuildIntentPlan dec10_api (ex_input False) StatusCreated = Inr ex_plan
   \<and> sum_list (map (dec10_val \<circ> post_Amount) (plan_Sources ex_plan)) = dec10_val (Dec 10 0)
   \<and> sum_list (map (dec10_val \<circ> post_Amount) (plan_Destinations ex_plan)) = dec10_val (Dec 10 0)
   \<and> 0 < dec10_val (post_Amount (plan_Destinations ex_plan ! 1))"
  using BuildIntentPlan_balanced [OF dec10.decimal_laws_axioms ex_plan_built] ex_plan_built
  by (auto simp: ex_input_def ex_plan_def)

text \<open>
  C2. The postings of a plan are the specified ones: one posting per allocation, in the order
  of the input, carrying the allocation's target and route, the operation that
  \<open>ResolveOperation\<close> gives for the side and the status, and the explicit amount, the
  share of the total, or what the other allocations of the side leave of the total.
\<close>

theorem BuildIntentPlan_refines:
  assumes "BuildIntentPlan D input st = Inr plan"
  shows "\<exists>sop dop.
      ResolveOperation (in_Pending input) True st = Inr sop
      \<and> ResolveOperation (in_Pending input) False st = Inr dop
      \<and> plan_Sources plan =
          map (posting_of D (in_Asset input) (in_Total input) sop st
                 (remainder_of D (in_Total input) (in_Sources input))) (in_Sources input)
      \<and> plan_Destinations plan =
          map (posting_of D (in_Asset input) (in_Total input) dop st
                 (remainder_of D (in_Total input) (in_Destinations input))) (in_Destinations input)"
  using assms by (rule BuildIntentPlan_Inr) (metis buildPostings_Inr(1))

theorem BuildIntentPlan_refines_witness:
  "ResolveOperation False True StatusCreated = Inr OperationDebit
   \<and> plan_Sources ex_plan = map (posting_of dec10_api ''BRL'' (Dec 10 0) OperationDebit StatusCreated
       (remainder_of dec10_api (Dec 10 0) (in_Sources (ex_input False)))) (in_Sources (ex_input False))"
proof -
  have op: "ResolveOperation False True StatusCreated = Inr OperationDebit"
    by (simp add: ResolveOperation_def)
  show ?thesis
    using BuildIntentPlan_refines [OF ex_plan_built] op by (auto simp: ex_input_def)
qed

text \<open>
  C3. \<open>ApplyPosting\<close> implements the effect table: it succeeds exactly for a posting that
  belongs to the balance, whose operation the status allows and that leaves the available and
  the on-hold amount non-negative. On success the two amounts have changed by the tabulated
  multiples of the posting's amount, the version has grown by one (modulo \<open>2 ^ 64\<close>) and
  nothing else of the balance has changed.
\<close>

theorem ApplyPosting_spec:
  assumes "decimal_laws D val"
  shows "((\<exists>b'. ApplyPosting D b p = Inr b') \<longleftrightarrow>
     posting_fits D b p \<and>
     (\<exists>da dh. posting_effect (post_Operation p) (post_Status p) = Some (da, dh) \<and>
        0 \<le> val (bal_Available b) + da * val (post_Amount p) \<and>
        0 \<le> val (bal_OnHold b) + dh * val (post_Amount p)))
   \<and> (\<forall>b'. ApplyPosting D b p = Inr b' \<longrightarrow>
     (\<exists>da dh. posting_effect (post_Operation p) (post_Status p) = Some (da, dh)
       \<and> val (bal_Available b') = val (bal_Available b) + da * val (post_Amount p)
       \<and> val (bal_OnHold b') = val (bal_OnHold b) + dh * val (post_Amount p)
       \<and> 0 \<le> val (bal_Available b') \<and> 0 \<le> val (bal_OnHold b')
       \<and> b' = b\<lparr>bal_Available := bal_Available b', bal_OnHold := bal_OnHold b',
                 bal_Version := bal_Version b + 1\<rparr>))"
proof (intro conjI allI impI)
  fix b'
  assume "ApplyPosting D b p = Inr b'"
  then show "\<exists>da dh. posting_effect (post_Operation p) (post_Status p) = Some (da, dh)
       \<and> val (bal_Available b') = val (bal_Available b) + da * val (post_Amount p)
       \<and> val (bal_OnHold b') = val (bal_OnHold b) + dh * val (post_Amount p)
       \<and> 0 \<le> val (bal_Available b') \<and> 0 \<le> val (bal_OnHold b')
       \<and> b' = b\<lparr>bal_Available := bal_Available b', bal_OnHold := bal_OnHold b',
                 bal_Version := bal_Version b + 1\<rparr>"
    by (rule decimal_laws.ApplyPosting_result [OF assms]) blast
qed (rule decimal_laws.ApplyPosting_accepts [OF assms])

theorem ApplyPosting_spec_witness:
  "(\<exists>b'. ApplyPosting dec10_api (ex_balance ''a'' (Dec 30 0) (Dec 0 0))
           (ex_posting ''a'' (Dec 100 (- 1)) OperationOnHold StatusPending) = Inr b'
      \<and> dec10_val (bal_Available b') = 20 \<and> dec10_val (bal_OnHold b') = 10)"
proof -
  let ?b = "ex_balance ''a'' (Dec 30 0) (Dec 0 0)"
    and ?p = "ex_posting ''a'' (Dec 100 (- 1)) OperationOnHold StatusPending"
  have "posting_fits dec10_api ?b ?p" by code_simp
  then obtain b' where b': "ApplyPosting dec10_api ?b ?p = Inr b'"
    using ApplyPosting_spec [OF dec10.decimal_laws_axioms, of ?b ?p]
    by (auto simp: ex_posting_def ex_balance_def dec10_val_def power_int_minus)
  with ApplyPosting_spec [OF dec10.decimal_laws_axioms, of ?b ?p] show ?thesis
    by (auto simp: ex_posting_def ex_balance_def dec10_val_def power_int_minus)
qed

text \<open>
  The two phases of a pending transaction on one balance: the posting of the pending phase,
  then the posting of the second phase, each with the operation \<open>ResolveOperation\<close> gives.
\<close>

definition phase_posting :: "'d posting \<Rightarrow> bool \<Rightarrow> transaction_status \<Rightarrow> domain_error + 'd posting" where
  "phase_posting p isSource st =
     bind_res (ResolveOperation True isSource st)
       (\<lambda>op. Inr (p\<lparr>post_Operation := op, post_Status := st\<rparr>))"

definition two_phases ::
  "'d decimal_api \<Rightarrow> bool \<Rightarrow> transaction_status \<Rightarrow> ('d, 'm) balance \<Rightarrow> 'd posting
     \<Rightarrow> domain_error + ('d, 'm) balance" where
  "two_phases D isSource st b p =
     bind_res (phase_posting p isSource StatusPending) (\<lambda>p1.
     bind_res (ApplyPosting D b p1) (\<lambda>b1.
     bind_res (phase_posting p isSource st) (\<lambda>p2. ApplyPosting D b1 p2)))"

lemma posting_fits_phase [simp]:
  "posting_fits D b (p\<lparr>post_Operation := op, post_Status := st\<rparr>) = posting_fits D b p"
  by (simp add: posting_fits_def)

context decimal_laws
begin

text \<open>Two postings of the same amount in sequence: the effects add up.\<close>

lemma ApplyPosting_twice:
  assumes "ApplyPosting D b (p\<lparr>post_Operation := op1, post_Status := st1\<rparr>) = Inr b1"
    and "posting_effect op1 st1 = Some (da1, dh1)" and "posting_effect op2 st2 = Some (da2, dh2)"
    and "0 \<le> val (bal_Available b) + (da1 + da2) * val (post_Amount p)"
    and "0 \<le> val (bal_OnHold b) + (dh1 + dh2) * val (post_Amount p)"
  shows "\<exists>b2. ApplyPosting D b1 (p\<lparr>post_Operation := op2, post_Status := st2\<rparr>) = Inr b2
    \<and> val (bal_Available b2) = val (bal_Available b) + (da1 + da2) * val (post_Amount p)
    \<and> val (bal_OnHold b2) = val (bal_OnHold b) + (dh1 + dh2) * val (post_Amount p)
    \<and> bal_Version b2 = bal_Version b + 2"
proof -
  let ?p1 = "p\<lparr>post_Operation := op1, post_Status := st1\<rparr>"
    and ?p2 = "p\<lparr>post_Operation := op2, post_Status := st2\<rparr>"
  have fits: "posting_fits D b p" using assms(1) by (auto simp: ApplyPosting_Inr)
  obtain b1: "val (bal_Available b1) = val (bal_Available b) + da1 * val (post_Amount p)"
    "val (bal_OnHold b1) = val (bal_OnHold b) + dh1 * val (post_Amount p)"
    and frame: "b1 = b\<lparr>bal_Available := bal_Available b1, bal_OnHold := bal_OnHold b1,
                     bal_Version := bal_Version b + 1\<rparr>"
    using ApplyPosting_result [OF assms(1)] assms(2) by auto
  have same: "bal_ID b1 = bal_ID b" "bal_AccountID b1 = bal_AccountID b" "bal_Asset b1 = bal_Asset b"
    "bal_Version b1 = bal_Version b + 1"
    by (subst frame, simp)+
  have "posting_fits D b1 p" using fits same by (simp add: posting_fits_def)
  then obtain b2 where b2: "ApplyPosting D b1 ?p2 = Inr b2"
    using ApplyPosting_accepts [of b1 ?p2] assms(3-5) b1 by (auto simp: distrib_right add.assoc)
  obtain "val (bal_Available b2) = val (bal_Available b1) + da2 * val (post_Amount p)"
    "val (bal_OnHold b2) = val (bal_OnHold b1) + dh2 * val (post_Amount p)"
    and frame2: "b2 = b1\<lparr>bal_Available := bal_Available b2, bal_OnHold := bal_OnHold b2,
                     bal_Version := bal_Version b1 + 1\<rparr>"
    using ApplyPosting_result [OF b2] assms(3) by auto
  moreover have "bal_Version b2 = bal_Version b + 2"
    by (subst frame2) (simp add: same)
  ultimately show ?thesis using b2 b1 by (simp add: distrib_right)
qed

lemma two_phases_effect:
  assumes "phase_posting p isSource StatusPending = Inr p1" and "ApplyPosting D b p1 = Inr b1"
    and "posting_effect (post_Operation p1) StatusPending = Some (da1, dh1)"
    and "ResolveOperation True isSource st = Inr op2" and "posting_effect op2 st = Some (da2, dh2)"
    and "0 \<le> val (bal_Available b) + (da1 + da2) * val (post_Amount p)"
    and "0 \<le> val (bal_OnHold b) + (dh1 + dh2) * val (post_Amount p)"
  shows "\<exists>b2. two_phases D isSource st b p = Inr b2
    \<and> val (bal_Available b2) = val (bal_Available b) + (da1 + da2) * val (post_Amount p)
    \<and> val (bal_OnHold b2) = val (bal_OnHold b) + (dh1 + dh2) * val (post_Amount p)
    \<and> bal_Version b2 = bal_Version b + 2"
proof -
  from assms(1) obtain op1 where p1: "p1 = p\<lparr>post_Operation := op1, post_Status := StatusPending\<rparr>"
    by (auto simp: phase_posting_def bind_res_eq_Inr)
  have "two_phases D isSource st b p
      = ApplyPosting D b1 (p\<lparr>post_Operation := op2, post_Status := st\<rparr>)"
    using assms(1,2,4) by (simp add: two_phases_def phase_posting_def)
  then show ?thesis
    using ApplyPosting_twice [OF assms(2) [unfolded p1] _ assms(5)] assms(3,6,7) p1 by simp
qed

end

text \<open>The pending phase of the concrete transaction, on each side.\<close>

lemma ex_hold_applied:
  "ApplyPosting dec10_api (ex_balance ''a'' (Dec 30 0) (Dec 0 0))
     (ex_posting ''a'' (Dec 10 0) OperationOnHold StatusPending)
   = Inr ((ex_balance ''a'' (Dec 20 0) (Dec 10 0))\<lparr>bal_Version := 8\<rparr>)"
  by code_simp

lemma ex_credit_applied:
  "ApplyPosting dec10_api (ex_balance ''b'' (Dec 0 0) (Dec 0 0))
     (ex_posting ''b'' (Dec 10 0) OperationCredit StatusPending)
   = Inr ((ex_balance ''b'' (Dec 10 0) (Dec 0 0))\<lparr>bal_Version := 8\<rparr>)"
  by code_simp

text \<open>
  C4. Canceling a pending transaction undoes it: when the pending posting was applied to a
  balance with no negative part, the posting of the cancellation is applied too and gives
  back the amounts available and on hold before, on the source and on the destination side.
\<close>

theorem pending_cancel_restores:
  assumes "decimal_laws D val"
    and "phase_posting p isSource StatusPending = Inr p1" and "ApplyPosting D b p1 = Inr b1"
    and "0 \<le> val (bal_Available b)" and "0 \<le> val (bal_OnHold b)"
  shows "\<exists>b2. two_phases D isSource StatusCanceled b p = Inr b2
    \<and> val (bal_Available b2) = val (bal_Available b) \<and> val (bal_OnHold b2) = val (bal_OnHold b)
    \<and> bal_Version b2 = bal_Version b + 2"
proof (cases isSource)
  case True
  with decimal_laws.two_phases_effect [OF assms(1-3), of "- 1" 1 StatusCanceled OperationRelease 1 "- 1"]
    assms(2,4,5) show ?thesis
    by (auto simp: phase_posting_def ResolveOperation_def)
next
  case False
  with decimal_laws.two_phases_effect [OF assms(1-3), of 1 0 StatusCanceled OperationDebit "- 1" 0]
    assms(2,4,5) show ?thesis
    by (auto simp: phase_posting_def ResolveOperation_def)
qed

theorem pending_cancel_restores_witness:
  "\<exists>b2. two_phases dec10_api True StatusCanceled (ex_balance ''a'' (Dec 30 0) (Dec 0 0))
          (ex_posting ''a'' (Dec 10 0) OperationDebit StatusCreated) = Inr b2
    \<and> dec10_val (bal_Available b2) = 30 \<and> dec10_val (bal_OnHold b2) = 0"
proof -
  let ?b = "ex_balance ''a'' (Dec 30 0) (Dec 0 0)"
  let ?p = "ex_posting ''a'' (Dec 10 0) OperationDebit StatusCreated"
  let ?p1 = "ex_posting ''a'' (Dec 10 0) OperationOnHold StatusPending"
  have p1: "phase_posting ?p True StatusPending = Inr ?p1"
    by (simp add: phase_posting_def ResolveOperation_def ex_posting_def)
  obtain b1 where b1: "ApplyPosting dec10_api ?b ?p1 = Inr b1" using ex_hold_applied by blast
  show ?thesis
    using pending_cancel_restores [OF dec10.decimal_laws_axioms p1 b1]
    by (auto simp: ex_balance_def dec10_val_def)
qed

text \<open>
  C5. Approving a pending transaction moves the amount out of the source once but into the
  destination twice: the source loses exactly the posting's amount in total, the destination
  was credited in the pending phase and is credited again on approval.
\<close>

theorem pending_approve_credits_twice:
  assumes "decimal_laws D val"
    and "phase_posting p True StatusPending = Inr p1" and "ApplyPosting D b p1 = Inr b1"
    and "phase_posting q False StatusPending = Inr q1" and "ApplyPosting D c q1 = Inr c1"
    and "0 \<le> val (bal_OnHold b)"
  shows "\<exists>b2 c2. two_phases D True StatusApproved b p = Inr b2
    \<and> two_phases D False StatusApproved c q = Inr c2
    \<and> val (bal_Available b2) + val (bal_OnHold b2)
        = val (bal_Available b) + val (bal_OnHold b) - val (post_Amount p)
    \<and> val (bal_Available c2) + val (bal_OnHold c2)
        = val (bal_Available c) + val (bal_OnHold c) + 2 * val (post_Amount q)"
proof -
  from assms(2,4) have ops: "post_Operation p1 = OperationOnHold" "post_Operation q1 = OperationCredit"
      "post_Status p1 = StatusPending" "post_Status q1 = StatusPending"
      "post_Amount p1 = post_Amount p" "post_Amount q1 = post_Amount q"
    by (auto simp: phase_posting_def ResolveOperation_def)
  from assms(5) have pos: "0 < val (post_Amount q)"
    by (simp add: ApplyPosting_Inr posting_fits_def decimal_laws.IsPositive_iff [OF assms(1)] ops)
  have src: "0 \<le> val (bal_Available b) - val (post_Amount p)"
    by (rule decimal_laws.ApplyPosting_result [OF assms(1,3)]) (simp add: ops)
  have dst: "0 \<le> val (bal_Available c) + val (post_Amount q) \<and> 0 \<le> val (bal_OnHold c)"
    by (rule decimal_laws.ApplyPosting_result [OF assms(1,5)]) (simp add: ops)
  from decimal_laws.two_phases_effect [OF assms(1-3), of "- 1" 1 StatusApproved OperationDebit 0 "- 1"]
    assms(6) src obtain b2 where "two_phases D True StatusApproved b p = Inr b2"
      "val (bal_Available b2) = val (bal_Available b) - val (post_Amount p)"
      "val (bal_OnHold b2) = val (bal_OnHold b)"
    by (auto simp: ops ResolveOperation_def)
  moreover from decimal_laws.two_phases_effect [OF assms(1,4,5), of 1 0 StatusApproved OperationCredit 1 0]
    pos dst obtain c2 where "two_phases D False StatusApproved c q = Inr c2"
      "val (bal_Available c2) = val (bal_Available c) + 2 * val (post_Amount q)"
      "val (bal_OnHold c2) = val (bal_OnHold c)"
    by (auto simp: ops ResolveOperation_def)
  ultimately show ?thesis by (intro exI [of _ b2] exI [of _ c2] conjI) linarith+
qed

theorem pending_approve_credits_twice_witness:
  "\<exists>b2 c2. two_phases dec10_api True StatusApproved (ex_balance ''a'' (Dec 30 0) (Dec 0 0))
       (ex_posting ''a'' (Dec 10 0) OperationDebit StatusCreated) = Inr b2
    \<and> two_phases dec10_api False StatusApproved (ex_balance ''b'' (Dec 0 0) (Dec 0 0))
       (ex_posting ''b'' (Dec 10 0) OperationDebit StatusCreated) = Inr c2
    \<and> dec10_val (bal_Available b2) + dec10_val (bal_OnHold b2) = 20
    \<and> dec10_val (bal_Available c2) + dec10_val (bal_OnHold c2) = 20"
proof -
  let ?b = "ex_balance ''a'' (Dec 30 0) (Dec 0 0)" and ?c = "ex_balance ''b'' (Dec 0 0) (Dec 0 0)"
  let ?p = "ex_posting ''a'' (Dec 10 0) OperationDebit StatusCreated"
    and ?q = "ex_posting ''b'' (Dec 10 0) OperationDebit StatusCreated"
  let ?p1 = "ex_posting ''a'' (Dec 10 0) OperationOnHold StatusPending"
    and ?q1 = "ex_posting ''b'' (Dec 10 0) OperationCredit StatusPending"
  have ph: "phase_posting ?p True StatusPending = Inr ?p1" "phase_posting ?q False StatusPending = Inr ?q1"
    by (simp_all add: phase_posting_def ResolveOperation_def ex_posting_def)
  obtain b1 c1 where ap: "ApplyPosting dec10_api ?b ?p1 = Inr b1" "ApplyPosting dec10_api ?c ?q1 = Inr c1"
    using ex_hold_applied ex_credit_applied by blast
  show ?thesis
    using pending_approve_credits_twice [OF dec10.decimal_laws_axioms ph(1) ap(1) ph(2) ap(2)]
    by (auto simp: ex_balance_def ex_posting_def dec10_val_def)
qed

text \<open>
  \<open>ValidateBalanceEligibility\<close> accepts a plan exactly when the catalog is not empty,
  every source and every destination posting is acceptable on its own, and all balances
  that have an organization or a ledger have the same ones. In particular the answer does
  not depend on the order of the postings.
\<close>

theorem ValidateBalanceEligibility_iff:
  "ValidateBalanceEligibility D plan balances = Inr () \<longleftrightarrow>
     balances \<noteq> []
     \<and> (\<forall>p \<in> set (plan_Sources plan). source_ok D plan balances p)
     \<and> (\<forall>p \<in> set (plan_Destinations plan). destination_ok D plan balances p)
     \<and> (\<exists>r. \<forall>p \<in> set (plan_Sources plan @ plan_Destinations plan).
           posting_scope balances p = no_scope \<or> posting_scope balances p = r)"
proof -
  let ?ps = "plan_Sources plan @ plan_Destinations plan"
  have "(\<exists>ref'. scope_join no_scope (map (posting_scope balances) ?ps) = Some ref') \<longleftrightarrow>
      (\<exists>r. \<forall>p \<in> set ?ps. posting_scope balances p = no_scope \<or> posting_scope balances p = r)"
    unfolding scope_join_exists set_map by blast
  then show ?thesis unfolding ValidateBalanceEligibility_core by (rule ssubst) (rule refl)
qed

theorem ValidateBalanceEligibility_iff_witness:
  "ValidateBalanceEligibility dec10_api ex_plan ex_catalog = Inr ()
   \<and> source_ok dec10_api ex_plan ex_catalog (ex_posting ''a'' (Dec 100 (- 1)) OperationDebit StatusCreated)
   \<and> ValidateBalanceEligibility dec10_api ex_plan (tl ex_catalog) \<noteq> Inr ()"
proof -
  have "ValidateBalanceEligibility dec10_api ex_plan ex_catalog = Inr ()" by code_simp
  moreover from this have "source_ok dec10_api ex_plan ex_catalog
      (ex_posting ''a'' (Dec 100 (- 1)) OperationDebit StatusCreated)"
    unfolding ValidateBalanceEligibility_iff by (simp add: ex_plan_def)
  moreover have "ValidateBalanceEligibility dec10_api ex_plan (tl ex_catalog) \<noteq> Inr ()"
    unfolding ValidateBalanceEligibility_iff
    by (auto simp: ex_plan_def ex_catalog_def source_ok_def posting_balance_def ex_posting_def
        ex_target_def)
  ultimately show ?thesis by blast
qed

text \<open>
  Eligibility is enough to post: in a plan built for the first phase (\<open>CREATED\<close>, or
  \<open>PENDING\<close> for a pending transaction) whose balances were found eligible in a catalog
  keyed by balance identifier, each source posting is applied to its balance of the catalog.
\<close>

theorem eligible_source_applies:
  assumes "decimal_laws D val" and "BuildIntentPlan D input st = Inr plan"
    and "ValidateBalanceEligibility D plan balances = Inr ()"
    and "\<forall>(i, b) \<in> set balances. bal_ID b = i"
    and "st = StatusCreated \<or> st = StatusPending"
    and "p \<in> set (plan_Sources plan)" and "posting_balance balances p = Some b"
    and "0 \<le> val (bal_OnHold b)"
  shows "\<exists>b'. ApplyPosting D b p = Inr b'"
proof -
  from assms(3,6) have ok: "source_ok D plan balances p"
    by (auto simp: ValidateBalanceEligibility_core)
  from assms(2) obtain sop where sop: "ResolveOperation (in_Pending input) True st = Inr sop"
      and ps: "buildPostings D (in_Asset input) (in_Total input) (in_Pending input) st
                 (in_Sources input) True = Inr (plan_Sources plan)"
      and asset: "plan_Asset plan = in_Asset input"
    by (rule BuildIntentPlan_Inr) blast
  note B = buildPostings_Inr [OF ps sop]
  from assms(6) B(1) obtain a where a: "a \<in> set (in_Sources input)"
      "p = posting_of D (in_Asset input) (in_Total input) sop st
             (remainder_of D (in_Total input) (in_Sources input)) a"
    by auto
  have pos: "0 < val (post_Amount p)"
    by (rule decimal_laws.buildPostings_positive [OF assms(1) ps sop assms(6)])
  have id: "bal_ID b = lt_BalanceID (post_Target p)"
    using assms(4,7) by (auto simp: posting_balance_def dest: map_of_SomeD)
  have target: "post_Target p = alloc_Target a" "post_Asset p = plan_Asset plan"
      "post_Operation p = sop" "post_Status p = st"
    using a(2) asset by (simp_all add: posting_of_def)
  have "posting_fits D b p"
    using ok B(2) a(1) id target assms(7) pos
    by (auto simp: posting_fits_def source_ok_def alloc_ok_def
        decimal_laws.IsPositive_iff [OF assms(1)])
  moreover have "posting_effect sop st = Some (- 1, 0) \<or> posting_effect sop st = Some (- 1, 1)"
    using sop assms(5) by (auto simp: ResolveOperation_def split: if_splits)
  moreover have "val (post_Amount p) \<le> val (bal_Available b)"
    using ok assms(7) by (auto simp: source_ok_def decimal_laws.LessThan_iff [OF assms(1)])
  ultimately show ?thesis
    using pos assms(8) target by (auto simp: decimal_laws.ApplyPosting_accepts [OF assms(1)])
qed

theorem eligible_source_applies_witness:
  "\<exists>b'. ApplyPosting dec10_api (ex_balance ''a'' (Dec 30 0) (Dec 0 0))
     (ex_posting ''a'' (Dec 100 (- 1)) OperationDebit StatusCreated) = Inr b'"
proof (rule eligible_source_applies [OF dec10.decimal_laws_axioms ex_plan_built])
  show "ValidateBalanceEligibility dec10_api ex_plan ex_catalog = Inr ()" by code_simp
  show "\<forall>(i, b) \<in> set ex_catalog. bal_ID b = i"
    by (simp add: ex_catalog_def ex_balance_def)
  show "posting_balance ex_catalog (ex_posting ''a'' (Dec 100 (- 1)) OperationDebit StatusCreated)
      = Some (ex_balance ''a'' (Dec 30 0) (Dec 0 0))"
    by (simp add: posting_balance_def ex_catalog_def ex_posting_def ex_target_def)
qed (simp_all add: ex_plan_def ex_balance_def dec10_val_def)

end
