(* ===== verification/Outbox_LastError.thy ===== *)
theory Outbox_LastError
  imports Commons_Prelude "HOL-Library.Sublist"
begin

text \<open>
  The diagnosis an outbox row carries: \<open>commons/outbox/last_error.go\<close>, and the
  \<open>CASE\<close> expression with which \<open>MarkFailed\<close> and \<open>markStuckEventsInvalid\<close>
  (\<open>commons/outbox/postgres\<close>) state the same rule in SQL. Both count characters, so
  a text is a list of runes. The refinement lemma says on which stored texts the two
  statements of the rule agree: every value the rule itself can have produced is among them.
\<close>

type_synonym rune = nat
type_synonym runes = "rune list"

subsection \<open>Text\<close>

definition lit :: "string \<Rightarrow> runes" where
  "lit s = map of_char s"

lemma length_lit [simp]: "length (lit s) = length s"
  by (simp add: lit_def)

abbreviation newline :: rune where "newline \<equiv> 10"
abbreviation carriage_return :: rune where "carriage_return \<equiv> 13"
abbreviation blank :: rune where "blank \<equiv> 32"

text \<open>\<open>unicode.IsSpace\<close>.\<close>

definition is_space :: "rune \<Rightarrow> bool" where
  "is_space r \<longleftrightarrow>
     9 \<le> r \<and> r \<le> 13 \<or> r = 32 \<or> r = 0x85 \<or> r = 0xA0 \<or> r = 0x1680 \<or>
     0x2000 \<le> r \<and> r \<le> 0x200A \<or> r = 0x2028 \<or> r = 0x2029 \<or> r = 0x202F \<or>
     r = 0x205F \<or> r = 0x3000"

definition trim_with :: "(rune \<Rightarrow> bool) \<Rightarrow> runes \<Rightarrow> runes" where
  "trim_with P s = rev (dropWhile P (rev (dropWhile P s)))"

abbreviation TrimSpace :: "runes \<Rightarrow> runes" where
  "TrimSpace \<equiv> trim_with is_space"

abbreviation btrim :: "runes \<Rightarrow> runes" where
  "btrim \<equiv> trim_with (\<lambda>r. r = blank)"

lemma trim_with_eq_Nil: "trim_with P s = [] \<longleftrightarrow> (\<forall>r \<in> set s. P r)"
proof
  assume "trim_with P s = []"
  then have "\<forall>r \<in> set (dropWhile P s). P r" by (simp add: trim_with_def)
  then have "dropWhile P s = []" by (metis hd_dropWhile hd_in_set)
  then show "\<forall>r \<in> set s. P r" by simp
next
  assume "\<forall>r \<in> set s. P r"
  then have "dropWhile P s = []" by (simp add: dropWhile_eq_Nil_conv)
  then show "trim_with P s = []" unfolding trim_with_def by (simp only: rev.simps dropWhile.simps)
qed

lemma set_trim_with: "set (trim_with P s) \<subseteq> set s"
  unfolding trim_with_def by (metis set_dropWhileD set_rev subsetI)

lemma hd_trim_with: "trim_with P s \<noteq> [] \<Longrightarrow> \<not> P (hd (trim_with P s))"
proof -
  let ?d = "dropWhile P s"
  assume ne: "trim_with P s \<noteq> []"
  have "rev ?d = takeWhile P (rev ?d) @ dropWhile P (rev ?d)" by simp
  then have "?d = rev (dropWhile P (rev ?d)) @ rev (takeWhile P (rev ?d))"
    by (metis rev_append rev_rev_ident)
  then have "hd ?d = hd (trim_with P s)"
    using ne unfolding trim_with_def by (metis hd_append2)
  moreover have "?d \<noteq> []"
    using ne unfolding trim_with_def by (metis dropWhile.simps(1) rev.simps(1))
  ultimately show ?thesis by (metis hd_dropWhile)
qed

text \<open>\<open>strings.Split(s, "\n")\<close>.\<close>

fun split_lines :: "runes \<Rightarrow> runes list" where
  "split_lines [] = [[]]"
| "split_lines (c # s) =
     (if c = newline then [] # split_lines s
      else (case split_lines s of l # ls \<Rightarrow> (c # l) # ls | [] \<Rightarrow> [[c]]))"

lemma split_lines_not_Nil [simp]: "split_lines s \<noteq> []"
  by (cases s) (auto split: list.splits)

lemma split_lines_no_newline: "newline \<notin> set s \<Longrightarrow> split_lines s = [s]"
  by (induction s) auto

lemma split_lines_append:
  "split_lines (s @ newline # t) = split_lines s @ split_lines t"
  by (induction s) (auto split: list.splits)

lemma length_split_lines: "l \<in> set (split_lines s) \<Longrightarrow> length l \<le> length s"
  by (induction s arbitrary: l) (fastforce split: list.splits if_splits)+

text \<open>
  \<open>strings.NewReplacer("\r\n", " ", "\n", " ", "\r", " ")\<close>: at every position the
  first of the three that matches.
\<close>

fun replace_newlines :: "runes \<Rightarrow> runes" where
  "replace_newlines [] = []"
| "replace_newlines (c # s) =
     (if c = carriage_return then
        blank # (case s of
                   [] \<Rightarrow> []
                 | d # t \<Rightarrow> (if d = newline then replace_newlines t else replace_newlines s))
      else if c = newline then blank # replace_newlines s
      else c # replace_newlines s)"

lemma replace_newlines_no_newline: "newline \<notin> set (replace_newlines s)"
  by (induction s rule: replace_newlines.induct) (auto split: list.splits)

subsection \<open>last\_error.go\<close>

definition MaxLastErrorLength :: nat where
  "MaxLastErrorLength = 512"

definition LastErrorTruncationMarker :: runes where
  "LastErrorTruncationMarker = newline # lit ''... (later causes truncated)''"

definition StuckInProcessingCause :: runes where
  "StuckInProcessingCause = lit ''abandoned in processing with no dispatch attempts left''"

definition LastErrorCauseBudget :: nat where
  "LastErrorCauseBudget = MaxLastErrorLength - length LastErrorTruncationMarker"

definition normalizeCause :: "runes \<Rightarrow> runes" where
  "normalizeCause cause =
     TrimSpace (if newline \<in> set cause \<or> carriage_return \<in> set cause
                then replace_newlines cause else cause)"

definition hasCause :: "runes \<Rightarrow> runes \<Rightarrow> bool" where
  "hasCause existing cause \<longleftrightarrow> cause \<in> set (split_lines existing)"

fun truncate_loop :: "nat \<Rightarrow> nat \<Rightarrow> runes \<Rightarrow> runes" where
  "truncate_loop budget count [] = []"
| "truncate_loop budget count (c # s) =
     (if count = budget then [] else c # truncate_loop budget (Suc count) s)"

definition truncateToRuneBudget :: "runes \<Rightarrow> nat \<Rightarrow> runes" where
  "truncateToRuneBudget s budget =
     (if length s \<le> budget then s else truncate_loop budget 0 s)"

definition BoundErrorCause :: "runes \<Rightarrow> runes" where
  "BoundErrorCause cause0 =
     (let cause = normalizeCause cause0 in
      if length cause \<le> LastErrorCauseBudget then cause
      else truncateToRuneBudget cause LastErrorCauseBudget @ LastErrorTruncationMarker)"

definition AppendErrorCause :: "runes \<Rightarrow> runes \<Rightarrow> runes" where
  "AppendErrorCause existing cause0 =
     (let cause = normalizeCause cause0 in
      if cause = [] then existing
      else if TrimSpace existing = [] then BoundErrorCause cause
      else if hasCause existing cause then existing
      else if sublist LastErrorTruncationMarker existing then existing
      else if length existing + 1 + length cause \<le> LastErrorCauseBudget
      then existing @ newline # cause
      else truncateToRuneBudget existing LastErrorCauseBudget @ LastErrorTruncationMarker)"

subsection \<open>The same rule as SQL states it\<close>

text \<open>
  \<open>sql_append_cause le c marker budget\<close> is the \<open>CASE\<close> of \<open>MarkFailed\<close> with
  \<open>$4 = c\<close>, \<open>$5 = marker\<close> and \<open>$6 = budget\<close>; \<open>None\<close> is SQL's \<open>NULL\<close>.
  \<open>sql_append_stuck_cause\<close> is the one of \<open>markStuckEventsInvalid\<close>, which has no
  branch for an empty cause.
\<close>

definition sql_append_stuck_cause :: "runes option \<Rightarrow> runes \<Rightarrow> runes \<Rightarrow> nat \<Rightarrow> runes" where
  "sql_append_stuck_cause le c marker budget =
     (case le of
        None \<Rightarrow> c
      | Some e \<Rightarrow>
          if btrim e = [] then c
          else if sublist (newline # c @ [newline]) (newline # e @ [newline]) then e
          else if sublist marker e then e
          else if length e + 1 + length c \<le> budget then e @ newline # c
          else take budget e @ marker)"

definition sql_append_cause :: "runes option \<Rightarrow> runes \<Rightarrow> runes \<Rightarrow> nat \<Rightarrow> runes" where
  "sql_append_cause le c marker budget =
     (case le of
        None \<Rightarrow> c
      | Some e \<Rightarrow>
          if btrim e = [] then c
          else if c = [] then e
          else if sublist (newline # c @ [newline]) (newline # e @ [newline]) then e
          else if sublist marker e then e
          else if length e + 1 + length c \<le> budget then e @ newline # c
          else take budget e @ marker)"


subsection \<open>The two statements agree\<close>

lemma length_marker [simp]: "length LastErrorTruncationMarker = 29"
  by (simp add: LastErrorTruncationMarker_def)

lemma marker_not_Nil [simp]: "LastErrorTruncationMarker \<noteq> []"
  by (simp add: LastErrorTruncationMarker_def)

lemma LastErrorCauseBudget_eq [simp]: "LastErrorCauseBudget = 483"
  by (simp add: LastErrorCauseBudget_def MaxLastErrorLength_def)

lemma truncate_loop_take: "count \<le> budget \<Longrightarrow> truncate_loop budget count s = take (budget - count) s"
proof (induction s arbitrary: count)
  case (Cons c s)
  then show ?case by (cases "count = budget") (simp_all add: take_Cons' Suc_diff_Suc)
qed simp

lemma truncateToRuneBudget_take [simp]: "truncateToRuneBudget s budget = take budget s"
  by (simp add: truncateToRuneBudget_def truncate_loop_take)

lemma normalizeCause_no_newline: "newline \<notin> set (normalizeCause cause)"
  using set_trim_with [of is_space] replace_newlines_no_newline
  unfolding normalizeCause_def by (auto split: if_splits)

lemma normalizeCause_not_blank:
  assumes "normalizeCause cause \<noteq> []" and "0 < n"
  shows "TrimSpace (take n (normalizeCause cause) @ t) \<noteq> []"
proof -
  let ?c = "normalizeCause cause"
  have "\<not> is_space (hd ?c)"
    using assms(1) unfolding normalizeCause_def by (rule hd_trim_with)
  moreover have "hd ?c \<in> set (take n ?c)"
    using assms by (cases ?c) (auto simp: take_Cons')
  ultimately show ?thesis by (auto simp: trim_with_eq_Nil)
qed

lemma is_space_replace_newlines: "is_space newline" "is_space blank"
  by (simp_all add: is_space_def)

lemma dropWhile_ends:
  "s = [] \<or> \<not> P (hd s) \<Longrightarrow> dropWhile P s = s"
  by (cases s) auto

lemma trim_with_idem [simp]: "trim_with P (trim_with P s) = trim_with P s"
proof -
  let ?t = "trim_with P s"
  have "dropWhile P ?t = ?t" by (rule dropWhile_ends) (metis hd_trim_with)
  moreover have "dropWhile P (rev ?t) = rev ?t"
    by (simp add: trim_with_def)
  ultimately show ?thesis by (simp add: trim_with_def)
qed

lemma replace_newlines_no_cr: "carriage_return \<notin> set (replace_newlines s)"
  by (induction s rule: replace_newlines.induct) (auto split: list.splits)

lemma normalizeCause_idem [simp]: "normalizeCause (normalizeCause cause) = normalizeCause cause"
proof -
  have "newline \<notin> set (normalizeCause cause)" by (rule normalizeCause_no_newline)
  moreover have "carriage_return \<notin> set (normalizeCause cause)"
    using set_trim_with [of is_space] replace_newlines_no_cr
    unfolding normalizeCause_def by (auto split: if_splits)
  ultimately have "normalizeCause (normalizeCause cause) = TrimSpace (normalizeCause cause)"
    by (simp add: normalizeCause_def)
  then show ?thesis by (simp add: normalizeCause_def)
qed

text \<open>
  A whole-line membership test and a delimiter-wrapped substring search ask the same question
  of a cause that has no newline of its own.
\<close>

lemma whole_line_search:
  assumes "newline \<notin> set c"
  shows "(prefix (c @ [newline]) (e @ [newline]) \<longleftrightarrow> hd (split_lines e) = c) \<and>
         (sublist (newline # c @ [newline]) (e @ [newline]) \<longleftrightarrow> c \<in> set (tl (split_lines e)))"
  using assms
proof (induction e arbitrary: c)
  case Nil
  have "\<not> sublist (newline # c @ [newline]) [newline]"
    using sublist_length_le [of "newline # c @ [newline]" "[newline]"] by auto
  moreover have "prefix (c @ [newline]) [newline] \<longleftrightarrow> c = []"
    by (cases c) auto
  ultimately show ?case by auto
next
  case (Cons x e)
  obtain l ls where ls: "split_lines e = l # ls" by (cases "split_lines e") auto
  have IH: "sublist (newline # c @ [newline]) (e @ [newline]) \<longleftrightarrow> c \<in> set ls"
    and IHp: "\<And>c. newline \<notin> set c \<Longrightarrow> prefix (c @ [newline]) (e @ [newline]) \<longleftrightarrow> l = c"
    using Cons.IH ls Cons.prems by auto
  show ?case
  proof (cases "x = newline")
    case True
    have "prefix (c @ [newline]) ((x # e) @ [newline]) \<longleftrightarrow> c = []"
      using True Cons.prems by (cases c) auto
    moreover have "sublist (newline # c @ [newline]) ((x # e) @ [newline]) \<longleftrightarrow>
        prefix (c @ [newline]) (e @ [newline]) \<or> sublist (newline # c @ [newline]) (e @ [newline])"
      using True by (simp add: sublist_Cons_right)
    moreover have "split_lines (x # e) = [] # l # ls" using True ls by simp
    ultimately show ?thesis using IH IHp [OF Cons.prems] by auto
  next
    case False
    have "prefix (c @ [newline]) ((x # e) @ [newline]) \<longleftrightarrow> x # l = c"
      using False IHp Cons.prems by (cases c) auto
    moreover have "sublist (newline # c @ [newline]) ((x # e) @ [newline]) \<longleftrightarrow> c \<in> set ls"
      using False IH by (simp add: sublist_Cons_right)
    ultimately show ?thesis using False ls by auto
  qed
qed

lemma hasCause_iff_sublist:
  assumes "newline \<notin> set c"
  shows "sublist (newline # c @ [newline]) (newline # e @ [newline]) \<longleftrightarrow> hasCause e c"
proof -
  have "hasCause e c \<longleftrightarrow> hd (split_lines e) = c \<or> c \<in> set (tl (split_lines e))"
    unfolding hasCause_def by (cases "split_lines e") auto
  moreover have "sublist (newline # c @ [newline]) (newline # e @ [newline]) \<longleftrightarrow>
      prefix (c @ [newline]) (e @ [newline]) \<or> sublist (newline # c @ [newline]) (e @ [newline])"
    by (simp add: sublist_Cons_right)
  ultimately show ?thesis using whole_line_search [OF assms, of e] by blast
qed

text \<open>The values the rule produces: empty, or a text that is not blank, within the column, and
  either within the budget or already marked.\<close>

definition last_error_wf :: "runes \<Rightarrow> bool" where
  "last_error_wf e \<longleftrightarrow>
     e = [] \<or>
     TrimSpace e \<noteq> [] \<and> length e \<le> MaxLastErrorLength \<and>
       (sublist LastErrorTruncationMarker e \<or> length e \<le> LastErrorCauseBudget)"

lemma btrim_TrimSpace: "btrim e = [] \<Longrightarrow> TrimSpace e = []"
  by (auto simp: trim_with_eq_Nil is_space_def)


lemma BoundErrorCause_cases:
  obtains (whole) "length (normalizeCause cause) \<le> LastErrorCauseBudget"
      "BoundErrorCause cause = normalizeCause cause"
  | (cut) "LastErrorCauseBudget < length (normalizeCause cause)"
      "BoundErrorCause cause =
         take LastErrorCauseBudget (normalizeCause cause) @ LastErrorTruncationMarker"
  by (cases "length (normalizeCause cause) \<le> LastErrorCauseBudget")
    (simp_all add: BoundErrorCause_def Let_def)

lemma BoundErrorCause_normalize [simp]: "BoundErrorCause (normalizeCause cause) = BoundErrorCause cause"
  by (simp add: BoundErrorCause_def)

lemma BoundErrorCause_Nil_iff [simp]: "BoundErrorCause cause = [] \<longleftrightarrow> normalizeCause cause = []"
  by (cases cause rule: BoundErrorCause_cases) auto

lemma BoundErrorCause_wf: "last_error_wf (BoundErrorCause cause)"
proof (cases "normalizeCause cause = []")
  case True
  then show ?thesis by (simp add: last_error_wf_def)
next
  case False
  show ?thesis
  proof (cases cause rule: BoundErrorCause_cases)
    case whole
    then show ?thesis
      using normalizeCause_not_blank [OF False, of "length (normalizeCause cause)" "[]"] False
      by (simp add: last_error_wf_def MaxLastErrorLength_def)
  next
    case cut
    then show ?thesis
      using normalizeCause_not_blank [OF False, of 483 LastErrorTruncationMarker]
      by (simp add: last_error_wf_def MaxLastErrorLength_def)
  qed
qed

lemma last_error_wf_length: "last_error_wf e \<Longrightarrow> length e \<le> MaxLastErrorLength"
  by (auto simp: last_error_wf_def)

lemma TrimSpace_append_not_Nil: "TrimSpace e \<noteq> [] \<Longrightarrow> TrimSpace (e @ t) \<noteq> []"
  by (auto simp: trim_with_eq_Nil)

lemma wf_not_marked_short:
  "last_error_wf e \<Longrightarrow> \<not> sublist LastErrorTruncationMarker e \<Longrightarrow> length e \<le> LastErrorCauseBudget"
  by (auto simp: last_error_wf_def)

text \<open>What an append does to a well-formed, non-empty value.\<close>

lemma AppendErrorCause_cases:
  assumes "last_error_wf e"
  obtains (same) "AppendErrorCause e c = e"
      "normalizeCause c = [] \<or> hasCause e (normalizeCause c) \<or> sublist LastErrorTruncationMarker e"
  | (first) "e = []" "normalizeCause c \<noteq> []" "AppendErrorCause e c = BoundErrorCause c"
  | (room) "e \<noteq> []" "normalizeCause c \<noteq> []" "length e + 1 + length (normalizeCause c) \<le> LastErrorCauseBudget"
      "AppendErrorCause e c = e @ newline # normalizeCause c"
  | (full) "e \<noteq> []" "normalizeCause c \<noteq> []"
      "LastErrorCauseBudget < length e + 1 + length (normalizeCause c)"
      "length e \<le> LastErrorCauseBudget" "AppendErrorCause e c = e @ LastErrorTruncationMarker"
proof -
  let ?c = "normalizeCause c"
  consider "?c = [] \<or> e \<noteq> [] \<and> (hasCause e ?c \<or> sublist LastErrorTruncationMarker e)"
    | "?c \<noteq> []" "e = []"
    | "?c \<noteq> []" "e \<noteq> []" "\<not> hasCause e ?c" "\<not> sublist LastErrorTruncationMarker e"
    by blast
  then show thesis
  proof cases
    case 1
    then show thesis
      using assms by (intro same) (auto simp: AppendErrorCause_def Let_def last_error_wf_def)
  next
    case 2
    then show thesis
      by (intro first) (simp_all add: AppendErrorCause_def Let_def trim_with_def)
  next
    case 3
    then have "TrimSpace e \<noteq> []" and e: "length e \<le> LastErrorCauseBudget"
      using assms by (auto simp: last_error_wf_def)
    with 3 show thesis
      by (cases "length e + 1 + length ?c \<le> LastErrorCauseBudget")
        (auto intro: room full simp: AppendErrorCause_def Let_def simp del: LastErrorCauseBudget_eq)
  qed
qed


lemma AppendErrorCause_recorded:
  assumes "last_error_wf r" and "r \<noteq> []"
    and "hasCause r (normalizeCause c) \<or> sublist LastErrorTruncationMarker r"
  shows "AppendErrorCause r c = r"
  using assms by (auto simp: AppendErrorCause_def Let_def last_error_wf_def)

lemma hasCause_append: "newline \<notin> set c \<Longrightarrow> hasCause (e @ newline # c) c"
  by (simp add: hasCause_def split_lines_append split_lines_no_newline)

lemma AppendErrorCause_wf:
  assumes "last_error_wf e"
  shows "last_error_wf (AppendErrorCause e c)"
  using assms
proof (cases rule: AppendErrorCause_cases [where c = c])
  case first
  then show ?thesis by (simp add: BoundErrorCause_wf)
next
  case room
  then show ?thesis
    using assms TrimSpace_append_not_Nil [of e]
    by (auto simp: last_error_wf_def MaxLastErrorLength_def)
next
  case full
  then show ?thesis
    using assms TrimSpace_append_not_Nil [of e]
    by (auto simp: last_error_wf_def MaxLastErrorLength_def)
qed (simp add: assms)

lemma AppendErrorCause_covers:
  assumes "last_error_wf e"
  shows "normalizeCause c = [] \<or> hasCause (AppendErrorCause e c) (normalizeCause c) \<or>
    sublist LastErrorTruncationMarker (AppendErrorCause e c)"
  using assms
proof (cases rule: AppendErrorCause_cases [where c = c])
  case first
  then show ?thesis
    by (cases c rule: BoundErrorCause_cases)
      (auto simp: hasCause_def split_lines_no_newline [OF normalizeCause_no_newline])
next
  case room
  then show ?thesis by (simp add: hasCause_append [OF normalizeCause_no_newline])
qed auto

lemma AppendErrorCause_idem:
  assumes "last_error_wf e"
  shows "AppendErrorCause (AppendErrorCause e c) c = AppendErrorCause e c"
proof (cases "normalizeCause c = []")
  case True
  then show ?thesis by (simp add: AppendErrorCause_def)
next
  case False
  have "AppendErrorCause e c \<noteq> []"
    using False assms by (cases rule: AppendErrorCause_cases [OF assms, where c = c]) (auto simp: hasCause_def)
  then show ?thesis
    using AppendErrorCause_recorded [OF AppendErrorCause_wf [OF assms]]
      AppendErrorCause_covers [OF assms, of c] False by blast
qed

text \<open>
  C8. Causes accumulate in \<open>last_error\<close>. On every value the rule can have stored, one more
  \<open>AppendErrorCause\<close> gives again such a value, at most as wide as the column; it only ever
  extends the stored text, so the first cause is never evicted; recording the same cause twice
  changes nothing; and afterwards the cause is recorded as a whole line, unless it is blank or the
  truncation marker says that causes were dropped.
\<close>

theorem AppendErrorCause_accumulates:
  assumes "last_error_wf e"
  shows "last_error_wf (AppendErrorCause e c) \<and>
    length (AppendErrorCause e c) \<le> MaxLastErrorLength \<and>
    prefix e (AppendErrorCause e c) \<and>
    AppendErrorCause (AppendErrorCause e c) c = AppendErrorCause e c \<and>
    (normalizeCause c = [] \<or> hasCause (AppendErrorCause e c) (normalizeCause c) \<or>
     sublist LastErrorTruncationMarker (AppendErrorCause e c))"
proof -
  have "prefix e (AppendErrorCause e c)"
    by (cases rule: AppendErrorCause_cases [OF assms, where c = c]) auto
  with AppendErrorCause_wf [OF assms] AppendErrorCause_idem [OF assms]
    AppendErrorCause_covers [OF assms] last_error_wf_length
  show ?thesis by blast
qed

theorem AppendErrorCause_accumulates_witness:
  "last_error_wf (lit ''handler missing'') \<and>
   prefix (lit ''handler missing'') (AppendErrorCause (lit ''handler missing'') (lit '' timeout '')) \<and>
   last_error_wf (AppendErrorCause (lit ''handler missing'') (lit '' timeout ''))"
proof -
  have wf: "last_error_wf (lit ''handler missing'')"
    by (simp add: last_error_wf_def MaxLastErrorLength_def lit_def trim_with_eq_Nil is_space_def)
  show ?thesis
    using AppendErrorCause_accumulates [OF wf, of "lit '' timeout ''"] wf by blast
qed

lemma sql_append_cause_correct:
  assumes wf: "last_error_wf e"
  shows "sql_append_cause (Some e) (BoundErrorCause c) LastErrorTruncationMarker LastErrorCauseBudget
    = AppendErrorCause e c"
proof -
  let ?c = "normalizeCause c"
  let ?b = "BoundErrorCause c"
  consider "e = []" | "e \<noteq> []" "?c = []" | "e \<noteq> []" "?c \<noteq> []" by blast
  then show ?thesis
  proof cases
    case 1
    then show ?thesis
      by (cases "?c = []") (auto simp: sql_append_cause_def AppendErrorCause_def Let_def trim_with_def)
  next
    case 2
    then show ?thesis
      using wf btrim_TrimSpace [of e]
      by (auto simp: sql_append_cause_def AppendErrorCause_def Let_def last_error_wf_def)
  next
    case 3
    then have nb: "TrimSpace e \<noteq> []" "btrim e \<noteq> []"
      using wf btrim_TrimSpace [of e] by (auto simp: last_error_wf_def)
    show ?thesis
    proof (cases "sublist LastErrorTruncationMarker e")
      case True
      then show ?thesis
        using 3 nb by (auto simp: sql_append_cause_def AppendErrorCause_def Let_def)
    next
      case False
      then have e: "length e \<le> LastErrorCauseBudget" by (rule wf_not_marked_short [OF wf])
      show ?thesis
      proof (cases c rule: BoundErrorCause_cases)
        case whole
        then show ?thesis
          using 3 nb False hasCause_iff_sublist [OF normalizeCause_no_newline]
          by (simp add: sql_append_cause_def AppendErrorCause_def Let_def)
      next
        case cut
        have "length ?b = 512" using cut by simp
        then have "\<not> sublist (newline # ?b @ [newline]) (newline # e @ [newline])"
          using e sublist_length_le [of "newline # ?b @ [newline]" "newline # e @ [newline]"] by auto
        moreover have "\<not> hasCause e ?c"
          using e cut length_split_lines [of ?c e] by (auto simp: hasCause_def)
        ultimately show ?thesis
          using 3 nb False e cut by (simp add: sql_append_cause_def AppendErrorCause_def Let_def)
      qed
    qed
  qed
qed

lemma BoundErrorCause_stuck [simp]: "BoundErrorCause StuckInProcessingCause = StuckInProcessingCause"
  by (simp add: BoundErrorCause_def normalizeCause_def StuckInProcessingCause_def lit_def
      trim_with_def is_space_def)

lemma sql_append_stuck_cause_eq:
  "c \<noteq> [] \<Longrightarrow> sql_append_stuck_cause le c m b = sql_append_cause le c m b"
  by (auto simp: sql_append_stuck_cause_def sql_append_cause_def split: option.splits)

text \<open>
  For which stored texts, whatever they are, the two rules give different results: the statement
  empties a text of blanks only when there is nothing to record; it does not take a text of tabs
  or newlines for an empty one; and it does not find, as a line of an over-long text that bears no
  marker, a cause that \<open>BoundErrorCause\<close> has cut.
\<close>

definition sql_append_diverges :: "runes \<Rightarrow> runes \<Rightarrow> bool" where
  "sql_append_diverges e c \<longleftrightarrow>
     (let n = normalizeCause c in
      n = [] \<and> e \<noteq> [] \<and> btrim e = [] \<or>
      n \<noteq> [] \<and> TrimSpace e = [] \<and> btrim e \<noteq> [] \<or>
      TrimSpace e \<noteq> [] \<and> \<not> sublist LastErrorTruncationMarker e \<and>
        LastErrorCauseBudget < length n \<and> hasCause e n)"

lemma sublist_set: "sublist x y \<Longrightarrow> set x \<subseteq> set y"
  by (auto simp: sublist_def)

lemma diverges_on_spaces:
  assumes sp: "TrimSpace e = []" "btrim e \<noteq> []" and n: "normalizeCause c \<noteq> []"
  shows "sql_append_cause (Some e) (BoundErrorCause c) LastErrorTruncationMarker LastErrorCauseBudget
    \<noteq> AppendErrorCause e c"
proof -
  let ?b = "BoundErrorCause c"
  have e: "\<forall>x\<in>set e. is_space x" "e \<noteq> []"
    using sp by (auto simp: trim_with_eq_Nil)
  have hd: "\<not> is_space (hd (normalizeCause c))"
    using n unfolding normalizeCause_def by (rule hd_trim_with)
  have b: "?b \<noteq> []" using n by simp
  have hdb: "\<not> is_space (hd ?b)"
    using hd n by (cases c rule: BoundErrorCause_cases) (auto simp: hd_append hd_take)
  then have "\<exists>x\<in>set ?b. \<not> is_space x" using b by (metis hd_in_set)
  then have "\<not> sublist (newline # ?b @ [newline]) (newline # e @ [newline])"
    using e is_space_replace_newlines(1) by (fastforce dest: sublist_set)
  moreover have "CHR ''.'' \<in> set ''... (later causes truncated)''" by simp
  then have "\<exists>x\<in>set LastErrorTruncationMarker. \<not> is_space x"
    by (simp add: LastErrorTruncationMarker_def lit_def is_space_def)
  then have "\<not> sublist LastErrorTruncationMarker e"
    using e by (auto dest: sublist_set)
  moreover have "e @ newline # ?b \<noteq> ?b" "take LastErrorCauseBudget e @ LastErrorTruncationMarker \<noteq> ?b"
    using e hdb by (auto dest: arg_cong [where f = length])
      (metis e hd_append hd_in_set hd_take LastErrorCauseBudget_eq take_eq_Nil zero_neq_numeral zero_less_numeral)
  ultimately show ?thesis
    using sp b n by (simp add: sql_append_cause_def AppendErrorCause_def Let_def del: LastErrorCauseBudget_eq)
qed

lemma sublist_Cons_ConsD:
  assumes "sublist (x # s) (y # t)"
  shows "sublist s t"
proof -
  have "sublist s (x # s)" by (rule sublist_Cons_right [THEN iffD2]) simp
  then show ?thesis
    using assms by (auto simp: sublist_Cons_right [of "x # s"] intro: sublist_order.order_trans)
qed

lemma sublist_snoc_snocD:
  assumes "sublist (s @ [x]) (t @ [y])"
  shows "sublist s t"
proof -
  have "sublist (x # rev s) (y # rev t)"
    using assms sublist_rev [of "s @ [x]" "t @ [y]"] by simp
  from sublist_Cons_ConsD [OF this] show ?thesis by simp
qed

lemma cut_cause_marks:
  assumes "b = k @ LastErrorTruncationMarker"
    and "sublist (newline # b @ [newline]) (newline # e @ [newline])"
  shows "sublist LastErrorTruncationMarker e"
proof -
  have "sublist b e"
    by (rule sublist_snoc_snocD [OF sublist_Cons_ConsD, OF assms(2)])
  moreover have "sublist LastErrorTruncationMarker b" unfolding assms(1) by simp
  ultimately show ?thesis by (blast intro: sublist_order.order_trans)
qed

lemma sql_append_on_text:
  assumes nb: "TrimSpace e \<noteq> []" and n: "normalizeCause c \<noteq> []"
  shows "sql_append_cause (Some e) (BoundErrorCause c) LastErrorTruncationMarker LastErrorCauseBudget
      = AppendErrorCause e c \<longleftrightarrow>
    sublist LastErrorTruncationMarker e \<or> length (normalizeCause c) \<le> LastErrorCauseBudget \<or>
    \<not> hasCause e (normalizeCause c)"
proof (cases "sublist LastErrorTruncationMarker e")
  case True
  then show ?thesis
    using n nb btrim_TrimSpace [of e] by (auto simp: sql_append_cause_def AppendErrorCause_def Let_def)
next
  case False
  show ?thesis
  proof (cases c rule: BoundErrorCause_cases)
    case whole
    then show ?thesis
      using n nb btrim_TrimSpace [of e] False hasCause_iff_sublist [OF normalizeCause_no_newline]
      by (auto simp: sql_append_cause_def AppendErrorCause_def Let_def)
  next
    case cut
    let ?b = "BoundErrorCause c"
    have nf: "\<not> sublist (newline # ?b @ [newline]) (newline # e @ [newline])"
      using cut_cause_marks [OF cut(2)] False by blast
    have "take LastErrorCauseBudget e @ LastErrorTruncationMarker \<noteq> e"
      using False by (metis sublist_appendI append_Nil2 sublist_append_leftI sublist_order.order_refl)
    then show ?thesis
      using n nb btrim_TrimSpace [of e] False nf cut
      by (auto simp: sql_append_cause_def AppendErrorCause_def Let_def)
  qed
qed

lemma sql_append_agrees_iff:
  "sql_append_cause (Some e) (BoundErrorCause c) LastErrorTruncationMarker LastErrorCauseBudget
     = AppendErrorCause e c \<longleftrightarrow> \<not> sql_append_diverges e c"
proof -
  consider "normalizeCause c = []" | "normalizeCause c \<noteq> []" "TrimSpace e = []" "btrim e = []"
    | "normalizeCause c \<noteq> []" "TrimSpace e = []" "btrim e \<noteq> []"
    | "normalizeCause c \<noteq> []" "TrimSpace e \<noteq> []"
    by blast
  then show ?thesis
  proof cases
    case 1
    then show ?thesis
      by (auto simp: sql_append_diverges_def sql_append_cause_def AppendErrorCause_def Let_def)
  next
    case 2
    then show ?thesis
      by (simp add: sql_append_diverges_def sql_append_cause_def AppendErrorCause_def Let_def)
  next
    case 3
    then show ?thesis
      using diverges_on_spaces [of e c] by (simp add: sql_append_diverges_def Let_def)
  next
    case 4
    then show ?thesis
      using sql_append_on_text [of e c] btrim_TrimSpace [of e]
      by (auto simp: sql_append_diverges_def Let_def)
  qed
qed

lemma rule_values_do_not_diverge: "last_error_wf e \<Longrightarrow> \<not> sql_append_diverges e c"
  using sql_append_cause_correct [of e c] sql_append_agrees_iff [of e c] by blast

lemma stuck_cause_diverges:
  "sql_append_diverges e StuckInProcessingCause \<longleftrightarrow> TrimSpace e = [] \<and> btrim e \<noteq> []"
proof -
  have "normalizeCause StuckInProcessingCause = StuckInProcessingCause"
    by (simp add: normalizeCause_def StuckInProcessingCause_def lit_def trim_with_def is_space_def)
  then show ?thesis
    by (simp add: sql_append_diverges_def Let_def StuckInProcessingCause_def lit_def)
qed

text \<open>
  C9. When the SQL rule and \<open>AppendErrorCause\<close> agree, for every stored value \<open>e\<close> and every
  cause \<open>c\<close>. The \<open>CASE\<close> expression of \<open>MarkFailed\<close>, given the cause cut to size by
  \<open>BoundErrorCause\<close>, the marker and the budget, stores what \<open>AppendErrorCause\<close> computes
  exactly when \<open>sql_append_diverges e c\<close> is false. It is false on every value the rule itself
  can have stored (the invariant of C8); it is true on just three kinds of other text: blanks with an
  empty cause, other white space only, and an over-long unmarked text one of whose lines is a cause
  too long for the budget. On a \<open>NULL\<close> column the two always agree. The expression of
  \<open>markStuckEventsInvalid\<close> agrees with \<open>AppendErrorCause\<close> on the cause it contributes,
  except on a text of white space that is not blanks only.
\<close>

theorem sql_append_refines_AppendErrorCause:
  "(sql_append_cause (Some e) (BoundErrorCause c) LastErrorTruncationMarker LastErrorCauseBudget
      = AppendErrorCause e c \<longleftrightarrow> \<not> sql_append_diverges e c) \<and>
   (last_error_wf e \<longrightarrow> \<not> sql_append_diverges e c) \<and>
   sql_append_cause None (BoundErrorCause c) LastErrorTruncationMarker LastErrorCauseBudget
      = AppendErrorCause [] c \<and>
   (sql_append_stuck_cause (Some e) StuckInProcessingCause LastErrorTruncationMarker LastErrorCauseBudget
      = AppendErrorCause e StuckInProcessingCause \<longleftrightarrow> \<not> (TrimSpace e = [] \<and> btrim e \<noteq> []))"
proof -
  have "StuckInProcessingCause \<noteq> []" by (simp add: StuckInProcessingCause_def lit_def)
  then have "sql_append_stuck_cause (Some e) StuckInProcessingCause LastErrorTruncationMarker
      LastErrorCauseBudget = AppendErrorCause e StuckInProcessingCause \<longleftrightarrow>
      \<not> (TrimSpace e = [] \<and> btrim e \<noteq> [])"
    using sql_append_agrees_iff [of e StuckInProcessingCause] stuck_cause_diverges [of e]
    by (simp add: sql_append_stuck_cause_eq del: LastErrorCauseBudget_eq)
  moreover have "sql_append_cause None (BoundErrorCause c) LastErrorTruncationMarker LastErrorCauseBudget
      = AppendErrorCause [] c"
    by (auto simp: sql_append_cause_def AppendErrorCause_def Let_def trim_with_def)
  ultimately show ?thesis using sql_append_agrees_iff rule_values_do_not_diverge by blast
qed

theorem sql_append_refines_AppendErrorCause_witness:
  "last_error_wf (lit ''request timeout'') \<and>
   sql_append_cause (Some (lit ''request timeout'')) (BoundErrorCause (lit ''timeout''))
     LastErrorTruncationMarker LastErrorCauseBudget =
   AppendErrorCause (lit ''request timeout'') (lit ''timeout'') \<and>
   sql_append_cause (Some [9]) (BoundErrorCause (lit ''timeout''))
     LastErrorTruncationMarker LastErrorCauseBudget \<noteq>
   AppendErrorCause [9] (lit ''timeout'')"
proof -
  have wf: "last_error_wf (lit ''request timeout'')"
    by (simp add: last_error_wf_def MaxLastErrorLength_def lit_def trim_with_eq_Nil is_space_def)
  have "sql_append_diverges [9] (lit ''timeout'')"
    by (simp add: sql_append_diverges_def normalizeCause_def lit_def trim_with_def is_space_def)
  then show ?thesis
    using sql_append_refines_AppendErrorCause [of "lit ''request timeout''" "lit ''timeout''"]
      sql_append_refines_AppendErrorCause [of "[9]" "lit ''timeout''"] wf by blast
qed

end
