(* ===== verification/Json_Valid.thy ===== *)
theory Json_Valid
  imports Commons_Prelude
begin

text \<open>
  \<open>json.Valid\<close> of Go's \<open>encoding/json\<close>, which the repository calls before it
  stores a payload: a push-down scanner that reads one byte at a time. The state is the step
  function the scanner would call next, the stack of open objects and arrays, and whether the
  top-level value has ended.
\<close>

datatype json_step =
    BeginValue | BeginValueOrEmpty | BeginStringOrEmpty | BeginString | EndValue | EndTop
  | InString | InStringEsc | InStringEscU nat | Neg | Num1 | Num0 | Dot | Dot0 | Exp | ExpSign | Exp0
  | InLiteral string

datatype json_open = ObjectKey | ObjectValue | ArrayValue

record json_scanner =
  js_step :: json_step
  js_stack :: "json_open list"
  js_endTop :: bool

definition byte :: "char \<Rightarrow> nat" where
  "byte c = of_char c"

definition json_space :: "char \<Rightarrow> bool" where
  "json_space c \<longleftrightarrow> byte c = 32 \<or> byte c = 9 \<or> byte c = 13 \<or> byte c = 10"

definition json_digit :: "char \<Rightarrow> bool" where
  "json_digit c \<longleftrightarrow> 48 \<le> byte c \<and> byte c \<le> 57"

definition json_hex :: "char \<Rightarrow> bool" where
  "json_hex c \<longleftrightarrow> json_digit c \<or> 97 \<le> byte c \<and> byte c \<le> 102 \<or> 65 \<le> byte c \<and> byte c \<le> 70"

definition json_depth :: nat where
  "json_depth = 10000"

definition goto :: "json_step \<Rightarrow> json_scanner \<Rightarrow> json_scanner option" where
  "goto st s = Some (s\<lparr>js_step := st\<rparr>)"

definition push_open :: "json_open \<Rightarrow> json_step \<Rightarrow> json_scanner \<Rightarrow> json_scanner option" where
  "push_open p st s =
     (if length (js_stack s) < json_depth
      then Some (s\<lparr>js_step := st, js_stack := p # js_stack s\<rparr>) else None)"

definition pop_open :: "json_open list \<Rightarrow> json_scanner \<Rightarrow> json_scanner option" where
  "pop_open rest s =
     (if rest = [] then Some (s\<lparr>js_step := EndTop, js_stack := [], js_endTop := True\<rparr>)
      else Some (s\<lparr>js_step := EndValue, js_stack := rest\<rparr>))"

definition end_value :: "char \<Rightarrow> json_scanner \<Rightarrow> json_scanner option" where
  "end_value c s =
     (case js_stack s of
        [] \<Rightarrow> if json_space c then Some (s\<lparr>js_step := EndTop, js_endTop := True\<rparr>) else None
      | p # rest \<Rightarrow>
          if json_space c then goto EndValue s
          else (case p of
              ObjectKey \<Rightarrow>
                if c = CHR '':'' then Some (s\<lparr>js_step := BeginValue, js_stack := ObjectValue # rest\<rparr>)
                else None
            | ObjectValue \<Rightarrow>
                if c = CHR '','' then Some (s\<lparr>js_step := BeginString, js_stack := ObjectKey # rest\<rparr>)
                else if c = CHR ''}'' then pop_open rest s
                else None
            | ArrayValue \<Rightarrow>
                if c = CHR '','' then goto BeginValue s
                else if c = CHR '']'' then pop_open rest s
                else None))"

definition begin_string :: "char \<Rightarrow> json_scanner \<Rightarrow> json_scanner option" where
  "begin_string c s = (if byte c = 34 then goto InString s else None)"

definition begin_value :: "char \<Rightarrow> json_scanner \<Rightarrow> json_scanner option" where
  "begin_value c s =
     (if c = CHR ''{'' then push_open ObjectKey BeginStringOrEmpty s
      else if c = CHR ''['' then push_open ArrayValue BeginValueOrEmpty s
      else if byte c = 34 then goto InString s
      else if c = CHR ''-'' then goto Neg s
      else if c = CHR ''0'' then goto Num0 s
      else if c = CHR ''t'' then goto (InLiteral ''rue'') s
      else if c = CHR ''f'' then goto (InLiteral ''alse'') s
      else if c = CHR ''n'' then goto (InLiteral ''ull'') s
      else if json_digit c then goto Num1 s
      else None)"

definition after_digits :: "char \<Rightarrow> json_scanner \<Rightarrow> json_scanner option" where
  "after_digits c s =
     (if c = CHR ''e'' \<or> c = CHR ''E'' then goto Exp s else end_value c s)"

definition after_int :: "char \<Rightarrow> json_scanner \<Rightarrow> json_scanner option" where
  "after_int c s = (if c = CHR ''.'' then goto Dot s else after_digits c s)"

definition json_scan :: "char \<Rightarrow> json_scanner \<Rightarrow> json_scanner option" where
  "json_scan c s =
     (case js_step s of
        BeginValue \<Rightarrow> if json_space c then Some s else begin_value c s
      | BeginValueOrEmpty \<Rightarrow>
          if json_space c then Some s
          else if c = CHR '']'' then end_value c s else begin_value c s
      | BeginStringOrEmpty \<Rightarrow>
          if json_space c then Some s
          else if c = CHR ''}''
          then end_value c (s\<lparr>js_stack := ObjectValue # tl (js_stack s)\<rparr>)
          else begin_string c s
      | BeginString \<Rightarrow> if json_space c then Some s else begin_string c s
      | EndValue \<Rightarrow> end_value c s
      | EndTop \<Rightarrow> if json_space c then Some s else None
      | InString \<Rightarrow>
          if byte c = 34 then goto EndValue s
          else if byte c = 92 then goto InStringEsc s
          else if byte c < 32 then None else Some s
      | InStringEsc \<Rightarrow>
          if c \<in> set ''bfnrt/'' \<or> byte c = 92 \<or> byte c = 34 then goto InString s
          else if c = CHR ''u'' then goto (InStringEscU 3) s
          else None
      | InStringEscU k \<Rightarrow>
          if json_hex c then goto (if k = 0 then InString else InStringEscU (k - 1)) s else None
      | Neg \<Rightarrow>
          if c = CHR ''0'' then goto Num0 s else if json_digit c then goto Num1 s else None
      | Num1 \<Rightarrow> if json_digit c then Some s else after_int c s
      | Num0 \<Rightarrow> after_int c s
      | Dot \<Rightarrow> if json_digit c then goto Dot0 s else None
      | Dot0 \<Rightarrow> if json_digit c then Some s else after_digits c s
      | Exp \<Rightarrow>
          if c = CHR ''+'' \<or> c = CHR ''-'' then goto ExpSign s
          else if json_digit c then goto Exp0 s else None
      | ExpSign \<Rightarrow> if json_digit c then goto Exp0 s else None
      | Exp0 \<Rightarrow> if json_digit c then Some s else end_value c s
      | InLiteral w \<Rightarrow>
          (case w of
             [] \<Rightarrow> None
           | d # ds \<Rightarrow>
               if c = d then goto (if ds = [] then EndValue else InLiteral ds) s else None))"

fun json_run :: "string \<Rightarrow> json_scanner \<Rightarrow> json_scanner option" where
  "json_run [] s = Some s"
| "json_run (c # cs) s = (case json_scan c s of None \<Rightarrow> None | Some s' \<Rightarrow> json_run cs s')"

definition json_start :: json_scanner where
  "json_start = \<lparr>js_step = BeginValue, js_stack = [], js_endTop = False\<rparr>"

definition json_Valid :: "string \<Rightarrow> bool" where
  "json_Valid data =
     (case json_run data json_start of
        None \<Rightarrow> False
      | Some s \<Rightarrow>
          js_endTop s \<or>
          (case json_scan (CHR '' '') s of None \<Rightarrow> False | Some s' \<Rightarrow> js_endTop s'))"

lemmas json_eval = json_Valid_def json_start_def json_scan_def begin_value_def begin_string_def
  end_value_def after_int_def after_digits_def push_open_def pop_open_def goto_def json_depth_def
  json_space_def json_digit_def json_hex_def byte_def

text \<open>An accepted payload is not empty, and everything after an accepted value is white space.\<close>

lemma json_Valid_not_Nil [simp]: "\<not> json_Valid []"
  by (simp add: json_eval)

lemma json_run_append:
  "json_run (xs @ ys) s = (case json_run xs s of None \<Rightarrow> None | Some s' \<Rightarrow> json_run ys s')"
  by (induction xs arbitrary: s) (auto split: option.splits)

lemma json_Valid_trailing_space:
  assumes "json_run data json_start = Some s" and "js_step s = EndTop" and "js_endTop s"
    and "\<forall>c \<in> set ws. json_space c"
  shows "json_Valid (data @ ws)"
proof -
  have "json_run ws s = Some s"
    using assms(2,4) by (induction ws) (auto simp: json_scan_def)
  then show ?thesis using assms by (simp add: json_Valid_def json_run_append)
qed

end
