(* ===== verification/Outbox_Event.thy ===== *)
theory Outbox_Event
  imports Outbox_LastError Json_Valid
begin

text \<open>
  The vocabulary of the outbox: \<open>commons/outbox/errors.go\<close>, \<open>status.go\<close>,
  \<open>event.go\<close>, \<open>handler.go\<close>, \<open>tenant.go\<close>, with the tenant-id rules of
  \<open>commons/tenant-manager/core\<close> that they use. A \<open>uuid.UUID\<close> is a 128-bit word
  whose zero is \<open>uuid.Nil\<close>; a \<open>time.Time\<close> is a number of nanoseconds since Go's zero
  time, so \<open>IsZero\<close> is equality with \<open>0\<close>.
\<close>

type_synonym uuid = "128 word"
type_synonym time = int
type_synonym duration = int

subsection \<open>Errors\<close>

text \<open>
  The sentinel errors of the package and of its PostgreSQL repository.
  \<open>AssertionFailed\<close> is the error of the assertion helper for the named field, and
  \<open>ErrDatabase\<close> any error the database itself returns.
\<close>

datatype outbox_error =
    ErrOutboxEventRequired | ErrOutboxRepositoryRequired | ErrOutboxDispatcherRequired
  | ErrOutboxDispatcherRunning | ErrOutboxEventPayloadRequired | ErrOutboxEventPayloadTooLarge
  | ErrOutboxEventPayloadNotJSON | ErrHandlerRegistryRequired | ErrEventTypeRequired
  | ErrEventHandlerRequired | ErrHandlerAlreadyRegistered | ErrHandlerNotRegistered
  | ErrTenantIDRequired | ErrOutboxStatusInvalid | ErrOutboxTransitionInvalid | ErrReplayConflict
  | ErrStuckAttemptsExhausted | ErrOutboxRetentionConfigInvalid | ErrOutboxRetentionUnsupported
  | ErrTenantIDWhitespace | ErrInvalidTenantID
  | ErrConnectionRequired | ErrStateTransitionConflict | ErrRepositoryNotInitialized
  | ErrLimitMustBePositive | ErrIDRequired | ErrAggregateIDRequired | ErrMaxAttemptsMustBePositive
  | ErrNoRows | AssertionFailed string | ErrDatabase string | HandlerError runes

subsection \<open>The life cycle\<close>

text \<open>\<open>OutboxEventStatus\<close> is a string type; the life cycle names five of its values.\<close>

definition StatusPending :: string where "StatusPending = ''PENDING''"
definition StatusProcessing :: string where "StatusProcessing = ''PROCESSING''"
definition StatusPublished :: string where "StatusPublished = ''PUBLISHED''"
definition StatusFailed :: string where "StatusFailed = ''FAILED''"
definition StatusInvalid :: string where "StatusInvalid = ''INVALID''"

lemmas status_defs = StatusPending_def StatusProcessing_def StatusPublished_def StatusFailed_def
  StatusInvalid_def

lemma status_distinct [simp]:
  "StatusPending \<noteq> StatusProcessing" "StatusProcessing \<noteq> StatusPending"
  "StatusPending \<noteq> StatusPublished" "StatusPublished \<noteq> StatusPending"
  "StatusPending \<noteq> StatusFailed" "StatusFailed \<noteq> StatusPending"
  "StatusPending \<noteq> StatusInvalid" "StatusInvalid \<noteq> StatusPending"
  "StatusProcessing \<noteq> StatusPublished" "StatusPublished \<noteq> StatusProcessing"
  "StatusProcessing \<noteq> StatusFailed" "StatusFailed \<noteq> StatusProcessing"
  "StatusProcessing \<noteq> StatusInvalid" "StatusInvalid \<noteq> StatusProcessing"
  "StatusPublished \<noteq> StatusFailed" "StatusFailed \<noteq> StatusPublished"
  "StatusPublished \<noteq> StatusInvalid" "StatusInvalid \<noteq> StatusPublished"
  "StatusFailed \<noteq> StatusInvalid" "StatusInvalid \<noteq> StatusFailed"
  by (simp_all add: status_defs)

definition IsValid :: "string \<Rightarrow> bool" where
  "IsValid status \<longleftrightarrow>
     status \<in> {StatusPending, StatusProcessing, StatusPublished, StatusFailed, StatusInvalid}"

definition ParseOutboxEventStatus :: "string \<Rightarrow> outbox_error + string" where
  "ParseOutboxEventStatus raw = (if \<not> IsValid raw then Inl ErrOutboxStatusInvalid else Inr raw)"

definition CanTransitionTo :: "string \<Rightarrow> string \<Rightarrow> bool" where
  "CanTransitionTo status next \<longleftrightarrow>
     (if status = StatusPending then next = StatusProcessing
      else if status = StatusFailed then next = StatusProcessing
      else if status = StatusProcessing
      then next = StatusProcessing \<or> next = StatusPublished \<or> next = StatusFailed \<or> next = StatusInvalid
      else False)"

definition ValidateOutboxTransition :: "string \<Rightarrow> string \<Rightarrow> outbox_error + unit" where
  "ValidateOutboxTransition fromRaw toRaw =
     bind_res (ParseOutboxEventStatus fromRaw) (\<lambda>from.
     bind_res (ParseOutboxEventStatus toRaw) (\<lambda>to.
     refuse (\<not> CanTransitionTo from to) ErrOutboxTransitionInvalid))"

lemma ValidateOutboxTransition_ok [simp]:
  "ValidateOutboxTransition StatusPending StatusProcessing = Inr ()"
  "ValidateOutboxTransition StatusFailed StatusProcessing = Inr ()"
  "ValidateOutboxTransition StatusProcessing StatusProcessing = Inr ()"
  "ValidateOutboxTransition StatusProcessing StatusPublished = Inr ()"
  "ValidateOutboxTransition StatusProcessing StatusFailed = Inr ()"
  "ValidateOutboxTransition StatusProcessing StatusInvalid = Inr ()"
  by (simp_all add: ValidateOutboxTransition_def ParseOutboxEventStatus_def IsValid_def
      CanTransitionTo_def)

lemma CanTransitionTo_simps [simp]:
  "CanTransitionTo StatusPending s \<longleftrightarrow> s = StatusProcessing"
  "CanTransitionTo StatusFailed s \<longleftrightarrow> s = StatusProcessing"
  "CanTransitionTo StatusProcessing s \<longleftrightarrow>
     s = StatusProcessing \<or> s = StatusPublished \<or> s = StatusFailed \<or> s = StatusInvalid"
  "\<not> CanTransitionTo StatusPublished s"
  "\<not> CanTransitionTo StatusInvalid s"
  by (simp_all add: CanTransitionTo_def)

subsection \<open>Events\<close>

definition DefaultMaxPayloadBytes :: nat where
  "DefaultMaxPayloadBytes = 2 ^ 20"

record outbox_event =
  ID :: uuid
  EventType :: string
  AggregateID :: uuid
  Payload :: string
  Status :: string
  Attempts :: int
  PublishedAt :: "time option"
  LastError :: runes
  CreatedAt :: time
  UpdatedAt :: time

definition NewOutboxEventWithID ::
  "time \<Rightarrow> uuid \<Rightarrow> string \<Rightarrow> uuid \<Rightarrow> string \<Rightarrow> outbox_error + outbox_event" where
  "NewOutboxEventWithID now eventID eventType0 aggregateID payload =
     bind_res (refuse (eventID = 0) (AssertionFailed ''event id'')) (\<lambda>_.
     let eventType = trim_space eventType0 in
     bind_res (refuse (eventType = []) (AssertionFailed ''event type'')) (\<lambda>_.
     bind_res (refuse (aggregateID = 0) (AssertionFailed ''aggregate id'')) (\<lambda>_.
     bind_res (refuse (payload = []) (AssertionFailed ''payload'')) (\<lambda>_.
     bind_res (refuse (DefaultMaxPayloadBytes < length payload) ErrOutboxEventPayloadTooLarge) (\<lambda>_.
     bind_res (refuse (\<not> json_Valid payload) ErrOutboxEventPayloadNotJSON) (\<lambda>_.
     Inr \<lparr>ID = eventID, EventType = eventType, AggregateID = aggregateID, Payload = payload,
          Status = StatusPending, Attempts = 0, PublishedAt = None, LastError = [],
          CreatedAt = now, UpdatedAt = now\<rparr>))))))"

text \<open>\<open>NewOutboxEvent\<close> draws the id; the fresh id is an argument here.\<close>

definition NewOutboxEvent ::
  "uuid \<Rightarrow> time \<Rightarrow> string \<Rightarrow> uuid \<Rightarrow> string \<Rightarrow> outbox_error + outbox_event" where
  "NewOutboxEvent fresh now eventType aggregateID payload =
     NewOutboxEventWithID now fresh eventType aggregateID payload"

subsection \<open>Handlers\<close>

text \<open>
  A registry maps trimmed event types to handlers; \<open>None\<close> is the nil registry. A handler acts on
  the world \<open>'w\<close> it publishes to and returns an error or nothing.
\<close>

type_synonym 'w handler = "outbox_event \<Rightarrow> 'w \<Rightarrow> (outbox_error + unit) \<times> 'w"
type_synonym 'w handler_registry = "string \<rightharpoonup> 'w handler"

definition NewHandlerRegistry :: "'w handler_registry" where
  "NewHandlerRegistry = Map.empty"

definition Register ::
  "'w handler_registry option \<Rightarrow> string \<Rightarrow> 'w handler option \<Rightarrow> outbox_error + 'w handler_registry" where
  "Register registry eventType handler =
     (case registry of
        None \<Rightarrow> Inl ErrHandlerRegistryRequired
      | Some handlers \<Rightarrow>
          let normalizedType = trim_space eventType in
          if normalizedType = [] then Inl ErrEventTypeRequired
          else (case handler of
              None \<Rightarrow> Inl ErrEventHandlerRequired
            | Some h \<Rightarrow>
                if handlers normalizedType \<noteq> None then Inl ErrHandlerAlreadyRegistered
                else Inr (handlers(normalizedType \<mapsto> h))))"

definition Handle ::
  "'w handler_registry option \<Rightarrow> outbox_event option \<Rightarrow> 'w \<Rightarrow> (outbox_error + unit) \<times> 'w" where
  "Handle registry event w =
     (case registry of
        None \<Rightarrow> (Inl ErrHandlerRegistryRequired, w)
      | Some handlers \<Rightarrow>
          (case event of
             None \<Rightarrow> (Inl ErrOutboxEventRequired, w)
           | Some e \<Rightarrow>
               let eventType = trim_space (EventType e) in
               if eventType = [] then (Inl ErrEventTypeRequired, w)
               else (case handlers eventType of
                   None \<Rightarrow> (Inl ErrHandlerNotRegistered, w)
                 | Some handler \<Rightarrow> handler e w)))"

subsection \<open>Tenants\<close>

definition MaxTenantIDLength :: nat where
  "MaxTenantIDLength = 256"

definition isTenantIDAlnum :: "char \<Rightarrow> bool" where
  "isTenantIDAlnum c \<longleftrightarrow>
     byte (CHR ''0'') \<le> byte c \<and> byte c \<le> byte (CHR ''9'') \<or>
     byte (CHR ''a'') \<le> byte c \<and> byte c \<le> byte (CHR ''z'') \<or>
     byte (CHR ''A'') \<le> byte c \<and> byte c \<le> byte (CHR ''Z'')"

definition IsValidTenantID :: "string \<Rightarrow> bool" where
  "IsValidTenantID ident \<longleftrightarrow>
     ident \<noteq> [] \<and> length ident \<le> MaxTenantIDLength \<and> isTenantIDAlnum (hd ident) \<and>
     list_all (\<lambda>c. isTenantIDAlnum c \<or> c = CHR ''-'' \<or> c = CHR ''_'') (tl ident)"

text \<open>
  The two values of a \<open>context.Context\<close> the package reads: the tenant id under the key of
  \<open>tenant-manager/core\<close> and the one under the deprecated key of the outbox.
\<close>

record tenant_context =
  core_tenantIDKey :: "string option"
  outbox_TenantIDContextKey :: "string option"

definition background :: tenant_context where
  "background = \<lparr>core_tenantIDKey = None, outbox_TenantIDContextKey = None\<rparr>"

definition GetTenantIDContext :: "tenant_context \<Rightarrow> string" where
  "GetTenantIDContext ctx = (case core_tenantIDKey ctx of Some i \<Rightarrow> i | None \<Rightarrow> [])"

definition ContextWithTenantID :: "tenant_context \<Rightarrow> string \<Rightarrow> tenant_context" where
  "ContextWithTenantID ctx tenantID =
     (let trimmed = trim_space tenantID in
      if trimmed = [] then ctx
      else ctx\<lparr>core_tenantIDKey := Some trimmed, outbox_TenantIDContextKey := Some trimmed\<rparr>)"

definition ContextWithTenantIDStrict ::
  "tenant_context \<Rightarrow> string \<Rightarrow> tenant_context \<times> outbox_error option" where
  "ContextWithTenantIDStrict ctx tenantID =
     (let trimmed = trim_space tenantID in
      if trimmed = [] then (ctx, None)
      else if \<not> IsValidTenantID trimmed then (ctx, Some ErrInvalidTenantID)
      else (ctx\<lparr>core_tenantIDKey := Some trimmed, outbox_TenantIDContextKey := Some trimmed\<rparr>,
            if trimmed \<noteq> tenantID then Some ErrTenantIDWhitespace else None))"

definition TenantIDFromContext :: "tenant_context \<Rightarrow> string option" where
  "TenantIDFromContext ctx =
     (let trimmed = trim_space (GetTenantIDContext ctx) in
      if trimmed \<noteq> [] then Some trimmed
      else (case outbox_TenantIDContextKey ctx of
          None \<Rightarrow> None
        | Some tenantID \<Rightarrow>
            let trimmed = trim_space tenantID in if trimmed = [] then None else Some trimmed))"

end
