(* ===== verification/Regex.thy ===== *)
theory Regex
  imports Outbox_LastError
begin

text \<open>
  What the repository uses of Go's \<open>regexp\<close>: leftmost-first matching of a pattern against
  a text and \<open>ReplaceAllString\<close>. A pattern is a term of \<open>re\<close>; \<open>re_match\<close> lists
  the ways to match at a position in order of preference, so that the head of the list is the
  match of the package. A position is the preceding rune, if any, and the remaining text; a match
  carries the captured groups.
\<close>

datatype re =
    Eps
  | Cls "rune \<Rightarrow> bool"
  | Seq re re
  | Alt re re
  | Star re
  | WordB
  | Cap nat re

type_synonym captures = "(nat \<times> runes) list"
type_synonym mstate = "rune option \<times> runes \<times> captures"

definition is_word :: "rune \<Rightarrow> bool" where
  "is_word r \<longleftrightarrow> 48 \<le> r \<and> r \<le> 57 \<or> 65 \<le> r \<and> r \<le> 90 \<or> 97 \<le> r \<and> r \<le> 122 \<or> r = 95"

definition word_here :: "rune option \<Rightarrow> bool" where
  "word_here p = (case p of None \<Rightarrow> False | Some r \<Rightarrow> is_word r)"

definition head_of :: "runes \<Rightarrow> rune option" where
  "head_of s = (case s of [] \<Rightarrow> None | c # _ \<Rightarrow> Some c)"

fun star_match :: "nat \<Rightarrow> (mstate \<Rightarrow> mstate list) \<Rightarrow> mstate \<Rightarrow> mstate list" where
  "star_match 0 f st = [st]"
| "star_match (Suc n) f st =
     concat (map (\<lambda>st'. if length (fst (snd st')) < length (fst (snd st))
                       then star_match n f st' else []) (f st)) @ [st]"

primrec re_match :: "re \<Rightarrow> mstate \<Rightarrow> mstate list" where
  "re_match Eps = (\<lambda>st. [st])"
| "re_match (Cls P) =
     (\<lambda>(p, s, cs). case s of [] \<Rightarrow> [] | c # s' \<Rightarrow> if P c then [(Some c, s', cs)] else [])"
| "re_match (Seq a b) = (\<lambda>st. concat (map (re_match b) (re_match a st)))"
| "re_match (Alt a b) = (\<lambda>st. re_match a st @ re_match b st)"
| "re_match (Star a) = (\<lambda>st. star_match (length (fst (snd st))) (re_match a) st)"
| "re_match WordB =
     (\<lambda>(p, s, cs). if word_here p \<noteq> word_here (head_of s) then [(p, s, cs)] else [])"
| "re_match (Cap n a) =
     (\<lambda>(p, s, cs). map (\<lambda>(p', s', cs'). (p', s', (n, take (length s - length s') s) # cs'))
        (re_match a (p, s, cs)))"

text \<open>Derived forms.\<close>

definition re_plus :: "re \<Rightarrow> re" where
  "re_plus r = Seq r (Star r)"

definition re_opt :: "re \<Rightarrow> re" where
  "re_opt r = Alt r Eps"

fun re_seq :: "re list \<Rightarrow> re" where
  "re_seq [] = Eps"
| "re_seq [r] = r"
| "re_seq (r # rs) = Seq r (re_seq rs)"

fun re_alt :: "re list \<Rightarrow> re" where
  "re_alt [] = Cls (\<lambda>_. False)"
| "re_alt [r] = r"
| "re_alt (r # rs) = Alt r (re_alt rs)"

text \<open>\<open>r{m,m+k}\<close>, greedy.\<close>

fun re_upto :: "nat \<Rightarrow> re \<Rightarrow> re" where
  "re_upto 0 r = Eps"
| "re_upto (Suc k) r = re_opt (Seq r (re_upto k r))"

fun re_times :: "nat \<Rightarrow> re \<Rightarrow> re \<Rightarrow> re" where
  "re_times 0 r tail = tail"
| "re_times (Suc m) r tail = Seq r (re_times m r tail)"

text \<open>Character classes. Under \<open>(?i)\<close> the letters \<open>k\<close> and \<open>s\<close> also match the Kelvin
  sign and the long s, to which Unicode folds them.\<close>

definition rune_in :: "string \<Rightarrow> rune \<Rightarrow> bool" where
  "rune_in cs r \<longleftrightarrow> r \<in> set (lit cs)"

definition lower_letter :: "rune \<Rightarrow> bool" where
  "lower_letter r \<longleftrightarrow> 97 \<le> r \<and> r \<le> 122"

definition upper_letter :: "rune \<Rightarrow> bool" where
  "upper_letter r \<longleftrightarrow> 65 \<le> r \<and> r \<le> 90"

definition ascii_digit :: "rune \<Rightarrow> bool" where
  "ascii_digit r \<longleftrightarrow> 48 \<le> r \<and> r \<le> 57"

definition letter_ci :: "rune \<Rightarrow> bool" where
  "letter_ci r \<longleftrightarrow> lower_letter r \<or> upper_letter r \<or> r = 0x17F \<or> r = 0x212A"

definition re_space :: "rune \<Rightarrow> bool" where
  "re_space r \<longleftrightarrow> r = 9 \<or> r = 10 \<or> r = 12 \<or> r = 13 \<or> r = 32"

definition fold_rune :: "rune \<Rightarrow> rune" where
  "fold_rune r =
     (if upper_letter r then r + 32 else if r = 0x17F then 115 else if r = 0x212A then 107 else r)"

definition re_lit :: "string \<Rightarrow> re" where
  "re_lit w = re_seq (map (\<lambda>c. Cls (\<lambda>r. r = c)) (lit w))"

definition re_lit_ci :: "string \<Rightarrow> re" where
  "re_lit_ci w = re_seq (map (\<lambda>c. Cls (\<lambda>r. fold_rune r = fold_rune c)) (lit w))"

subsection \<open>Replacing every match\<close>

text \<open>
  The patterns of the repository never match the empty text, so a match that consumed nothing is
  treated as none.
\<close>

function replace_all :: "re \<Rightarrow> (runes \<Rightarrow> captures \<Rightarrow> runes) \<Rightarrow> rune option \<Rightarrow> runes \<Rightarrow> runes" where
  "replace_all r repl p s =
     (case s of
        [] \<Rightarrow> []
      | c # t \<Rightarrow>
          (case re_match r (p, s, []) of
             (p', s', cs) # _ \<Rightarrow>
               if length s' < length s
               then repl (take (length s - length s') s) cs @ replace_all r repl p' s'
               else c # replace_all r repl (Some c) t
           | [] \<Rightarrow> c # replace_all r repl (Some c) t))"
  by pat_completeness auto
termination
  by (relation "measure (\<lambda>(r, repl, p, s). length s)") auto

declare replace_all.simps [simp del]

text \<open>Templates: \<open>Inl n\<close> is \<open>$n\<close>, \<open>Inr t\<close> is literal text.\<close>

definition expand :: "(nat + runes) list \<Rightarrow> captures \<Rightarrow> runes" where
  "expand tmpl cs =
     concat (map (\<lambda>i. case i of Inr t \<Rightarrow> t
                             | Inl n \<Rightarrow> (case map_of cs n of Some t \<Rightarrow> t | None \<Rightarrow> [])) tmpl)"

definition ReplaceAllString :: "re \<Rightarrow> (nat + runes) list \<Rightarrow> runes \<Rightarrow> runes" where
  "ReplaceAllString r tmpl s = replace_all r (\<lambda>_ cs. expand tmpl cs) None s"

definition ReplaceAllStringFunc :: "re \<Rightarrow> (runes \<Rightarrow> runes) \<Rightarrow> runes \<Rightarrow> runes" where
  "ReplaceAllStringFunc r f s = replace_all r (\<lambda>m _. f m) None s"

lemma replace_all_Nil [simp]: "replace_all r repl p [] = []"
  by (simp add: replace_all.simps)

end
