(* ===== verification/Outbox_Sanitizer.thy ===== *)
theory Outbox_Sanitizer
  imports Regex
begin

text \<open>
  \<open>commons/outbox/sanitizer.go\<close>: what an error message goes through before it is stored.
  The patterns are terms of \<open>re\<close>, written in the order of the source. The replacement text
  \<open>redactedValue\<close> is a constant of the observability library, an argument here.
\<close>

definition maxErrorLength :: nat where
  "maxErrorLength = 512"

definition errorTruncatedSuffix :: runes where
  "errorTruncatedSuffix = lit ''... (truncated)''"

definition key_pattern :: "string list list \<Rightarrow> string \<Rightarrow> re" where
  "key_pattern keys seps =
     re_alt (map (\<lambda>ws. case ws of
                         [] \<Rightarrow> Eps
                       | w # more \<Rightarrow>
                           re_seq (re_lit_ci w #
                             concat (map (\<lambda>v. [re_opt (Cls (rune_in seps)), re_lit_ci v]) more)))
            keys)"

definition not_space_nor :: "string \<Rightarrow> rune \<Rightarrow> bool" where
  "not_space_nor cs r \<longleftrightarrow> \<not> re_space r \<and> \<not> rune_in cs r"

definition spaces :: re where
  "spaces = Star (Cls re_space)"

definition jwt_part :: re where
  "jwt_part = re_plus (Cls (\<lambda>r. lower_letter r \<or> upper_letter r \<or> ascii_digit r \<or> rune_in ''_-'' r))"

definition sensitiveDataPatterns :: "runes \<Rightarrow> (re \<times> (nat + runes) list) list" where
  "sensitiveDataPatterns redactedValue =
     [(re_seq [WordB,
         Cap 1 (re_seq [Cls letter_ci,
           Star (Cls (\<lambda>r. letter_ci r \<or> ascii_digit r \<or> rune_in ''+.-'' r)),
           re_lit_ci ''://'', re_plus (Cls (not_space_nor '':/''))]),
         re_lit_ci '':'', Cap 2 (re_plus (Cls (not_space_nor ''@''))), re_lit_ci ''@''],
       [Inl 1, Inr (lit '':''), Inr redactedValue, Inr (lit ''@'')]),
      (re_seq [WordB, re_lit_ci ''bearer'', re_plus (Cls re_space),
         re_plus (Cls (\<lambda>r. letter_ci r \<or> ascii_digit r \<or> rune_in ''-._~+/'' r)),
         Star (Cls (rune_in ''='')), WordB],
       [Inr (lit ''Bearer ''), Inr redactedValue]),
      (re_seq [Cap 1 (re_seq [re_lit_ci ''authorization'', spaces, re_lit_ci '':'', spaces,
           re_lit_ci ''basic'', re_plus (Cls re_space)]),
         re_plus (Cls (\<lambda>r. letter_ci r \<or> ascii_digit r \<or> rune_in ''+/='' r))],
       [Inl 1, Inr redactedValue]),
      (re_seq [WordB, re_lit ''eyJ'', jwt_part, re_lit ''.'', jwt_part, re_lit ''.'', jwt_part, WordB],
       [Inr redactedValue]),
      (re_seq [WordB,
         Cap 1 (key_pattern [[''api'', ''key''], [''access'', ''token''], [''refresh'', ''token''],
           [''token''], [''password''], [''secret'']] ''-_ ''),
         spaces, Cls (rune_in '':=''), spaces, Cap 2 (re_plus (Cls (not_space_nor '',;'')))],
       [Inl 1, Inr (lit ''=''), Inr redactedValue]),
      (re_seq [
         Cap 1 (re_seq [Cls (rune_in ''?&''),
           key_pattern [[''password''], [''pass''], [''pwd''], [''token''], [''api'', ''key''],
             [''access'', ''token''], [''refresh'', ''token'']] ''_-'', re_lit_ci ''='']),
         Cap 2 (re_plus (Cls (not_space_nor ''&'')))],
       [Inl 1, Inr redactedValue]),
      (re_seq [WordB, Cap 1 (Alt (re_lit ''AKIA'') (re_lit ''ASIA'')),
         re_times 16 (Cls (\<lambda>r. upper_letter r \<or> ascii_digit r)) WordB],
       [Inr redactedValue]),
      (re_seq [WordB,
         Cap 1 (key_pattern [[''aws'', ''secret'', ''access'', ''key''], [''gcp'', ''credentials''],
           [''private'', ''key''], [''client'', ''secret'']] ''_-''),
         spaces, Cls (rune_in '':=''), spaces, Cap 2 (re_plus (Cls (not_space_nor '',;'')))],
       [Inl 1, Inr (lit ''=''), Inr redactedValue]),
      (re_seq [WordB, re_plus (Cls (\<lambda>r. letter_ci r \<or> ascii_digit r \<or> rune_in ''._%+-'' r)),
         re_lit_ci ''@'', re_plus (Cls (\<lambda>r. letter_ci r \<or> ascii_digit r \<or> rune_in ''.-'' r)),
         re_lit_ci ''.'', Cls letter_ci, re_plus (Cls letter_ci), WordB],
       [Inr redactedValue])]"

definition longNumericTokenPattern :: re where
  "longNumericTokenPattern =
     Seq WordB (re_times 12 (Cls ascii_digit) (Seq (re_upto 7 (Cls ascii_digit)) WordB))"

text \<open>
  The loop of \<open>passesLuhn\<close> walks the digits from the last to the first; \<open>None\<close> is the
  early return on a byte that is not a digit.
\<close>

fun passesLuhn_loop :: "int \<Rightarrow> bool \<Rightarrow> runes \<Rightarrow> int option" where
  "passesLuhn_loop s shouldDouble [] = Some s"
| "passesLuhn_loop s shouldDouble (c # rest) =
     (let digit = int c - 48 in
      if digit < 0 \<or> 9 < digit then None
      else let digit = (if shouldDouble then (if 9 < digit * 2 then digit * 2 - 9 else digit * 2)
                        else digit) in
           passesLuhn_loop (s + digit) (\<not> shouldDouble) rest)"

definition passesLuhn :: "runes \<Rightarrow> bool" where
  "passesLuhn number =
     (if length number < 12 \<or> 19 < length number then False
      else (case passesLuhn_loop 0 False (rev number) of None \<Rightarrow> False | Some s \<Rightarrow> s mod 10 = 0))"

definition redactLuhnNumberSequences :: "runes \<Rightarrow> runes \<Rightarrow> runes" where
  "redactLuhnNumberSequences redactedValue msg =
     ReplaceAllStringFunc longNumericTokenPattern
       (\<lambda>candidate. if \<not> passesLuhn candidate then candidate else redactedValue) msg"

definition redactSensitiveData :: "runes \<Rightarrow> runes \<Rightarrow> runes" where
  "redactSensitiveData redactedValue msg =
     redactLuhnNumberSequences redactedValue
       (foldl (\<lambda>redacted (pattern, replacement). ReplaceAllString pattern replacement redacted)
          msg (sensitiveDataPatterns redactedValue))"

definition truncateError :: "runes \<Rightarrow> nat \<Rightarrow> runes \<Rightarrow> runes" where
  "truncateError msg maxRunes sfx =
     (if length msg \<le> maxRunes then msg
      else if maxRunes \<le> length sfx then take maxRunes msg
      else take (maxRunes - length sfx) msg @ sfx)"

definition SanitizeErrorMessageForStorage :: "runes \<Rightarrow> runes \<Rightarrow> runes" where
  "SanitizeErrorMessageForStorage redactedValue msg =
     truncateError (redactSensitiveData redactedValue (TrimSpace msg)) maxErrorLength
       errorTruncatedSuffix"

lemma length_truncateError: "length (truncateError msg m sfx) \<le> m"
  by (auto simp: truncateError_def)

lemma length_SanitizeErrorMessageForStorage:
  "length (SanitizeErrorMessageForStorage rv msg) \<le> 512"
  using length_truncateError [of _ 512]
  by (simp add: SanitizeErrorMessageForStorage_def maxErrorLength_def)


subsection \<open>Card numbers never reach the column\<close>

lemma digit_is_word: "ascii_digit r \<Longrightarrow> is_word r"
  by (simp add: ascii_digit_def is_word_def)

lemma word_here_simps [simp]: "\<not> word_here None" "word_here (Some r) \<longleftrightarrow> is_word r"
  by (simp_all add: word_here_def)

lemma head_of_simps [simp]: "head_of [] = None" "head_of (c # s) = Some c"
  by (simp_all add: head_of_def)

lemma word_here_head_of: "word_here (head_of s) \<longleftrightarrow> s \<noteq> [] \<and> is_word (hd s)"
  by (cases s) auto

lemma re_match_times:
  "re_match (re_times m (Cls P) tl_re) (p, s, cs) =
     (if m \<le> length s \<and> list_all P (take m s)
      then re_match tl_re (if m = 0 then p else Some (s ! (m - 1)), drop m s, cs) else [])"
proof (induction m arbitrary: p s)
  case (Suc m)
  show ?case
  proof (cases s)
    case (Cons c t)
    then show ?thesis using Suc.IH [of "Some c" t] by (cases m) auto
  qed simp
qed simp

text \<open>The tail of the pattern, read after a digit: it matches in at most one way.\<close>

lemma re_match_digit_tail:
  assumes "word_here p"
  shows "re_match (Seq (re_upto k (Cls ascii_digit)) WordB) (p, s, cs) =
     (let run = takeWhile ascii_digit s; rest = dropWhile ascii_digit s in
      if length run \<le> k \<and> \<not> word_here (head_of rest)
      then [(if run = [] then p else Some (last run), rest, cs)] else [])"
  using assms
proof (induction k arbitrary: p s)
  case 0
  then show ?case
    by (cases s) (auto simp: digit_is_word Let_def)
next
  case (Suc k)
  show ?case
  proof (cases "s \<noteq> [] \<and> ascii_digit (hd s)")
    case True
    then obtain c t where s: "s = c # t" "ascii_digit c" by (cases s) auto
    have "word_here (Some c)" using s by (simp add: digit_is_word)
    from Suc.IH [OF this, of t] show ?thesis
      using s Suc.prems by (auto simp: re_opt_def digit_is_word Let_def)
  next
    case False
    then show ?thesis using Suc.prems by (cases s) (auto simp: re_opt_def Let_def)
  qed
qed

lemma takeWhile_longer:
  assumes "m \<le> length s" and "list_all P (take m s)"
  shows "takeWhile P s = take m s @ takeWhile P (drop m s) \<and> dropWhile P s = dropWhile P (drop m s)"
proof -
  have "\<forall>x \<in> set (take m s). P x" using assms(2) by (simp add: list_all_iff)
  then have "takeWhile P (take m s @ drop m s) = take m s @ takeWhile P (drop m s)"
    and "dropWhile P (take m s @ drop m s) = dropWhile P (drop m s)"
    by (metis takeWhile_append2, metis dropWhile_append2)
  then show ?thesis by simp
qed

lemma takeWhile_prefix_all: "m \<le> length (takeWhile P s) \<Longrightarrow> m \<le> length s \<and> list_all P (take m s)"
proof -
  assume m: "m \<le> length (takeWhile P s)"
  then have "take m s = take m (takeWhile P s)"
    by (metis takeWhile_eq_take take_take min.absorb1)
  moreover have "m \<le> length s" using m length_takeWhile_le le_trans by blast
  moreover have "list_all P (take m (takeWhile P s))"
    by (auto simp: list_all_iff dest: in_set_takeD set_takeWhileD)
  ultimately show ?thesis by simp
qed

text \<open>A token is a maximal run of word runes; a digit run closed by a non-word rune is one.\<close>

lemma digit_token:
  "\<not> word_here (head_of (dropWhile ascii_digit s)) \<longleftrightarrow> list_all ascii_digit (takeWhile is_word s)"
proof (induction s)
  case (Cons c s)
  then show ?case by (auto simp: digit_is_word)
qed simp

lemma digit_token_eq:
  "list_all ascii_digit (takeWhile is_word s) \<Longrightarrow>
     takeWhile ascii_digit s = takeWhile is_word s \<and> dropWhile ascii_digit s = dropWhile is_word s"
proof (induction s)
  case (Cons c s)
  then show ?case by (auto simp: digit_is_word split: if_splits)
qed simp

definition card_token :: "runes \<Rightarrow> bool" where
  "card_token w \<longleftrightarrow> list_all ascii_digit w \<and> 12 \<le> length w \<and> length w \<le> 19"

lemma re_match_longNumeric:
  assumes "\<not> word_here p"
  shows "re_match longNumericTokenPattern (p, s, []) =
     (if card_token (takeWhile is_word s)
      then [(Some (last (takeWhile is_word s)), dropWhile is_word s, [])] else [])"
proof -
  let ?w = "takeWhile is_word s" and ?d = "takeWhile ascii_digit s"
  let ?run = "takeWhile ascii_digit (drop 12 s)" and ?rest = "dropWhile ascii_digit (drop 12 s)"
  show ?thesis
  proof (cases "12 \<le> length s \<and> list_all ascii_digit (take 12 s)")
    case False
    then have "\<not> 12 \<le> length ?d" using takeWhile_prefix_all [of 12 ascii_digit s] by auto
    then have "\<not> card_token ?w" using digit_token_eq [of s] by (auto simp: card_token_def)
    then show ?thesis
      using False by (auto simp: longNumericTokenPattern_def re_match_times split: prod.splits)
  next
    case True
    then have d: "?d = take 12 s @ ?run" and r: "dropWhile ascii_digit s = ?rest"
      using takeWhile_longer by blast+
    have len: "length ?d = 12 + length ?run" using d True by simp
    have digits: "ascii_digit (s ! 11)"
      using True by (auto simp: list_all_length)
    have p1: "word_here (Some (s ! 11))" using digits by (simp add: digit_is_word)
    have hd: "word_here (head_of s)"
    proof -
      obtain c t where s: "s = c # t" using True by (cases s) auto
      have "ascii_digit c" using True unfolding s by (simp add: take_Cons')
      then show ?thesis using s by (simp add: digit_is_word)
    qed
    have card: "card_token ?w \<longleftrightarrow> length ?run \<le> 7 \<and> \<not> word_here (head_of ?rest)"
      using digit_token [of s] digit_token_eq [of s] r len by (auto simp: card_token_def)
    have last: "(if ?run = [] then Some (s ! 11) else Some (last ?run)) = Some (last ?d)"
    proof (cases "?run = []")
      case True': True
      have "last (take 12 s) = s ! 11" using True by (subst last_conv_nth) auto
      then show ?thesis using True' d by simp
    next
      case False
      then show ?thesis using d by simp
    qed
    have "re_match longNumericTokenPattern (p, s, []) =
        re_match (Seq (re_upto 7 (Cls ascii_digit)) WordB) (Some (s ! 11), drop 12 s, [])"
      using assms hd True by (simp add: longNumericTokenPattern_def re_match_times)
    also have "\<dots> = (if card_token ?w
        then [(if ?run = [] then Some (s ! 11) else Some (last ?run), ?rest, [])] else [])"
      unfolding re_match_digit_tail [OF p1] Let_def card by simp
    also have "\<dots> = (if card_token ?w then [(Some (last ?w), dropWhile is_word s, [])] else [])"
    proof (cases "card_token ?w")
      case True
      then have "?d = ?w \<and> ?rest = dropWhile is_word s"
        using digit_token_eq [of s] r by (auto simp: card_token_def)
      then show ?thesis using last True by auto
    qed simp
    finally show ?thesis .
  qed
qed


lemma re_match_longNumeric_not_boundary:
  assumes "word_here p" and "word_here (head_of s)"
  shows "re_match longNumericTokenPattern (p, s, []) = []"
  using assms by (simp add: longNumericTokenPattern_def)

lemma re_match_longNumeric_not_word:
  assumes "\<not> word_here (head_of s)"
  shows "re_match longNumericTokenPattern (p, s, []) = []"
proof -
  have "\<not> (12 \<le> length s \<and> list_all ascii_digit (take 12 s))"
    using assms by (cases s) (auto simp: take_Cons' digit_is_word)
  then show ?thesis
    by (auto simp: longNumericTokenPattern_def re_match_times split: prod.splits)
qed

text \<open>
  The check digit of ISO/IEC 7812: counting from the right, every second digit is doubled and
  replaced by the sum of the digits of the result; the total is a multiple of ten.
\<close>

definition luhn_contribution :: "nat \<Rightarrow> nat \<Rightarrow> nat" where
  "luhn_contribution i d = (if even i then d else 2 * d div 10 + 2 * d mod 10)"

fun luhn_total :: "nat \<Rightarrow> runes \<Rightarrow> nat" where
  "luhn_total i [] = 0"
| "luhn_total i (c # cs) = luhn_contribution i (c - 48) + luhn_total (Suc i) cs"

definition is_card_number :: "runes \<Rightarrow> bool" where
  "is_card_number w \<longleftrightarrow>
     list_all ascii_digit w \<and> 12 \<le> length w \<and> length w \<le> 19 \<and> 10 dvd luhn_total 0 (rev w)"

lemma doubled_digit: "d \<le> 9 \<Longrightarrow> (if 9 < 2 * d then 2 * d - 9 else 2 * d) = 2 * d div 10 + 2 * d mod (10 :: nat)"
proof -
  assume d: "d \<le> 9"
  show ?thesis
  proof (cases "d < 5")
    case False
    define e where "e = 2 * d - 10"
    have e: "2 * d = 10 + e" "e < 10" using d False by (simp_all add: e_def)
    show ?thesis unfolding e(1) using e(2) by simp
  qed simp
qed

lemma luhn_step:
  assumes "ascii_digit c"
  shows "passesLuhn_loop a (odd i) (c # cs) =
    passesLuhn_loop (a + int (luhn_contribution i (c - 48))) (odd (Suc i)) cs"
proof -
  obtain d where c: "c = 48 + d" "d \<le> 9"
    using assms by (auto simp: ascii_digit_def dest: le_Suc_ex)
  have "(if 9 < int d * 2 then int d * 2 - 9 else int d * 2) = int (if 9 < 2 * d then 2 * d - 9 else 2 * d)"
    by auto
  then have dbl: "(if 9 < int d * 2 then int d * 2 - 9 else int d * 2) = int (2 * d div 10 + 2 * d mod 10)"
    by (simp only: doubled_digit [OF c(2)])
  have "passesLuhn_loop a (odd i) (c # cs) = passesLuhn_loop
      (a + (if odd i then (if 9 < int d * 2 then int d * 2 - 9 else int d * 2) else int d))
      (odd (Suc i)) cs"
    using c by (simp del: if_split_asm add: Let_def)
  then show ?thesis
    unfolding dbl using c(1) by (cases "even i") (simp_all add: luhn_contribution_def del: of_nat_add)
qed

lemma passesLuhn_loop_total:
  "list_all ascii_digit cs \<Longrightarrow> passesLuhn_loop a (odd i) cs = Some (a + int (luhn_total i cs))"
proof (induction cs arbitrary: a i)
  case (Cons c cs)
  then show ?case by (simp only: luhn_step list.pred_inject) simp
qed simp

lemma passesLuhn_card:
  assumes "list_all ascii_digit w"
  shows "passesLuhn w \<longleftrightarrow> is_card_number w"
proof -
  have "passesLuhn_loop 0 False (rev w) = Some (int (luhn_total 0 (rev w)))"
    using passesLuhn_loop_total [of "rev w" 0 0] assms by simp
  moreover have "int (luhn_total 0 (rev w)) mod 10 = 0 \<longleftrightarrow> 10 dvd luhn_total 0 (rev w)" by presburger
  ultimately show ?thesis using assms by (auto simp: passesLuhn_def is_card_number_def)
qed

text \<open>What the redaction means: token by token.\<close>

function redact_tokens :: "runes \<Rightarrow> runes \<Rightarrow> runes" where
  "redact_tokens rv s =
     (case s of
        [] \<Rightarrow> []
      | c # t \<Rightarrow>
          if is_word c
          then (let w = takeWhile is_word s in
                if is_card_number w then rv else w)
               @ redact_tokens rv (dropWhile is_word s)
          else c # redact_tokens rv t)"
  by pat_completeness auto
termination
  by (relation "measure (\<lambda>(rv, s). length s)")
    (auto simp: le_imp_less_Suc length_dropWhile_le)

declare redact_tokens.simps [simp del]

lemma replace_all_inside_token:
  assumes "word_here p" and "list_all is_word w"
  shows "replace_all longNumericTokenPattern f p (w @ r) =
    w @ replace_all longNumericTokenPattern f (if w = [] then p else Some (last w)) r"
  using assms
proof (induction w arbitrary: p)
  case (Cons c w)
  have "replace_all longNumericTokenPattern f p ((c # w) @ r) =
      c # replace_all longNumericTokenPattern f (Some c) (w @ r)"
    using Cons.prems re_match_longNumeric_not_boundary [of p "(c # w) @ r"]
    by (subst replace_all.simps) simp
  then show ?case using Cons.IH [of "Some c"] Cons.prems by simp
qed simp



lemma replace_all_tokens:
  assumes "\<not> word_here p \<or> \<not> word_here (head_of s)"
  shows "replace_all longNumericTokenPattern
      (\<lambda>m _. if \<not> passesLuhn m then m else rv) p s = redact_tokens rv s"
  using assms
proof (induction "length s" arbitrary: p s rule: less_induct)
  case less
  let ?f = "\<lambda>m _ :: captures. if \<not> passesLuhn m then m else rv"
  let ?R = "replace_all longNumericTokenPattern ?f"
  show ?case
  proof (cases s)
    case Nil
    then show ?thesis by (simp add: redact_tokens.simps)
  next
    case (Cons c t)
    let ?w = "takeWhile is_word s" and ?r = "dropWhile is_word s"
    show ?thesis
    proof (cases "is_word c")
      case False
      then have "?R p s = c # ?R (Some c) t"
        using Cons re_match_longNumeric_not_word [of s p] by (subst replace_all.simps) simp
      moreover have "?R (Some c) t = redact_tokens rv t"
        using less.hyps [of t "Some c"] Cons False by simp
      ultimately show ?thesis using Cons False by (simp add: redact_tokens.simps)
    next
      case True
      have p: "\<not> word_here p" using less.prems Cons True by simp
      have ne: "?w \<noteq> []" using Cons True by simp
      have shorter: "length ?r < length s"
        using Cons True by (simp add: le_imp_less_Suc length_dropWhile_le)
      have end_word: "\<not> word_here (head_of ?r)"
        using hd_dropWhile [of is_word s] unfolding word_here_head_of by blast
      have rest: "?R q ?r = redact_tokens rv ?r" for q
        using less.hyps [OF shorter, of q] end_word by blast
      have split: "take (length s - length ?r) s = ?w"
        by (metis add_diff_cancel_right' length_append takeWhile_dropWhile_id takeWhile_eq_take
            append_eq_conv_conj)
      have spec: "redact_tokens rv s =
          (if is_card_number ?w then rv else ?w) @ redact_tokens rv ?r"
        using Cons True by (subst redact_tokens.simps) (simp add: Let_def)
      show ?thesis
      proof (cases "card_token ?w")
        case card: True
        have "?R p s = ?f ?w [] @ ?R (Some (last ?w)) ?r"
          using Cons re_match_longNumeric [OF p, of s] card shorter split
          by (subst replace_all.simps) (simp del: takeWhile.simps dropWhile.simps)
        then show ?thesis using rest spec card passesLuhn_card [of ?w] by (simp add: card_token_def)
      next
        case False
        then have "\<not> is_card_number ?w" by (auto simp: card_token_def is_card_number_def)
        moreover have "?R p s = c # ?R (Some c) t"
          using Cons re_match_longNumeric [OF p, of s] False
          by (subst replace_all.simps) (simp del: takeWhile.simps dropWhile.simps)
        moreover have "?R (Some c) t = takeWhile is_word t @ redact_tokens rv ?r"
        proof -
          have "list_all is_word (takeWhile is_word t)"
            unfolding list_all_iff using set_takeWhileD by fast
          then have "?R (Some c) (takeWhile is_word t @ ?r) = takeWhile is_word t @ redact_tokens rv ?r"
            using replace_all_inside_token [of "Some c" "takeWhile is_word t" ?f ?r] True
            by (simp only: word_here_simps rest)
          moreover have "takeWhile is_word t @ ?r = t" using Cons True by simp
          ultimately show ?thesis by (simp only:)
        qed
        moreover have "?w = c # takeWhile is_word t" using Cons True by simp
        ultimately show ?thesis using spec by (simp only: if_False append_Cons)
      qed
    qed
  qed
qed


text \<open>
  C10. The card-number redaction is exact: for every message, the regular-expression replacement
  with its Luhn callback replaces precisely those maximal word tokens that consist of twelve to
  nineteen digits with a valid check digit, and leaves every other character as it was; and the
  message that is stored is never wider than 512 characters.
\<close>

theorem redaction_masks_cards:
  "redactLuhnNumberSequences redactedValue msg = redact_tokens redactedValue msg \<and>
   length (SanitizeErrorMessageForStorage redactedValue msg) \<le> maxErrorLength"
  using replace_all_tokens [of None msg redactedValue] length_SanitizeErrorMessageForStorage
  by (simp add: redactLuhnNumberSequences_def ReplaceAllStringFunc_def maxErrorLength_def)

end
