(* ===== verification/Outbox_Store.thy ===== *)
theory Outbox_Store
  imports Outbox_Event Outbox_Sanitizer "HOL-Library.Product_Lexorder"
begin

text \<open>
  The PostgreSQL repository of the outbox, \<open>commons/outbox/postgres\<close>: every statement it
  sends is an operation on the rows of the table that the tenant's transaction sees, under the
  schema of \<open>migrations/\<close> (primary key, \<open>VARCHAR\<close> widths, \<open>INT\<close> attempts). An
  operation returns an error and leaves the table as it was, or a value and the new table: the
  repository wraps it in a transaction that is rolled back on every error.

  A \<open>NULL\<close> in \<open>last_error\<close> is represented by the empty text: \<open>scanOutboxEvent\<close>
  reads it as such and no statement tells the two apart. \<open>ORDER BY\<close> is a stable sort of the
  rows in table order, one of the orders SQL allows on ties.
\<close>

record pg_row =
  row_tenant :: string
  row_event :: outbox_event

type_synonym outbox_table = "pg_row list"
type_synonym 'a db_result = "outbox_error + 'a \<times> outbox_table"

text \<open>The fields of \<open>Repository\<close> the operations read; \<open>repo_initialized\<close> is the result
  of \<open>initialized()\<close>.\<close>

record repository =
  repo_initialized :: bool
  repo_tenantColumn :: string
  repo_requireTenant :: bool

text \<open>
  What the surroundings contribute to one call: the context's tenant values, the clock, the rows
  other transactions hold locks on, the outcome of beginning and committing the transaction, of
  \<open>ApplyTenant\<close> and of the table-presence guard, PostgreSQL's normal form of a JSON document
  (\<open>None\<close> if it is refused), and the redaction constant.
\<close>

record pg_call =
  call_ctx :: tenant_context
  call_now :: time
  call_locked :: "pg_row \<Rightarrow> bool"
  call_begin :: "outbox_error option"
  call_commit :: "outbox_error option"
  call_applyTenant :: "string \<Rightarrow> outbox_error option"
  call_tableMissing :: "outbox_error + bool"
  call_jsonb :: "string \<Rightarrow> string option"
  call_redacted :: runes

abbreviation row_id :: "pg_row \<Rightarrow> uuid" where
  "row_id r \<equiv> ID (row_event r)"

subsection \<open>Statements\<close>

definition fail_if :: "outbox_error option \<Rightarrow> outbox_error + unit" where
  "fail_if e = (case e of None \<Rightarrow> Inr () | Some err \<Rightarrow> Inl err)"

lemma fail_if_simps [simp]: "fail_if None = Inr ()" "fail_if (Some e) = Inl e"
  by (simp_all add: fail_if_def)

lemma fail_if_eq_Inr [simp]: "fail_if e = Inr u \<longleftrightarrow> e = None"
  by (simp add: fail_if_def split: option.splits)

definition utf8_length :: "string \<Rightarrow> nat" where
  "utf8_length s = length (filter (\<lambda>c. \<not> (128 \<le> byte c \<and> byte c < 192)) s)"

text \<open>Assignment to \<open>last_error VARCHAR(512)\<close>: an over-long value is refused, unless only
  blanks are lost.\<close>

definition varchar_fit :: "nat \<Rightarrow> runes \<Rightarrow> runes option" where
  "varchar_fit n s =
     (if length s \<le> n then Some s
      else if list_all (\<lambda>c. c = blank) (drop n s) then Some (take n s) else None)"

definition max_int32 :: int where
  "max_int32 = 2147483647"

definition sql_select ::
  "(pg_row \<Rightarrow> bool) \<Rightarrow> (pg_row \<Rightarrow> 'k :: linorder) \<Rightarrow> int \<Rightarrow> outbox_table \<Rightarrow> outbox_event list" where
  "sql_select P key limit tbl = map row_event (take (nat limit) (sort_key key (filter P tbl)))"

text \<open>
  \<open>UPDATE ... SET f WHERE P\<close>: the new table and the number of rows affected. \<open>f\<close> gives
  \<open>None\<close> for a value that does not fit its column, which fails the whole statement.
\<close>

definition sql_update ::
  "(pg_row \<Rightarrow> bool) \<Rightarrow> (outbox_event \<Rightarrow> outbox_event option) \<Rightarrow> outbox_table \<Rightarrow>
   outbox_error + outbox_table \<times> nat" where
  "sql_update P f tbl =
     (if list_ex (\<lambda>r. P r \<and> f (row_event r) = None) tbl
      then Inl (ErrDatabase ''value out of range'')
      else Inr (map (\<lambda>r. if P r then (case f (row_event r) of
                                         None \<Rightarrow> r | Some e \<Rightarrow> r\<lparr>row_event := e\<rparr>)
                         else r) tbl,
                length (filter P tbl)))"

text \<open>The primary key: \<open>(tenant_id, id)\<close> with a tenant column, \<open>id\<close> without.\<close>

definition same_key :: "repository \<Rightarrow> pg_row \<Rightarrow> pg_row \<Rightarrow> bool" where
  "same_key repo r r' \<longleftrightarrow>
     row_id r = row_id r' \<and> (repo_tenantColumn repo = [] \<or> row_tenant r = row_tenant r')"

fun sql_insert :: "repository \<Rightarrow> pg_row list \<Rightarrow> outbox_table \<Rightarrow> outbox_error + outbox_table" where
  "sql_insert repo [] tbl = Inr tbl"
| "sql_insert repo (r # rs) tbl =
     (if 255 < utf8_length (EventType (row_event r)) then Inl (ErrDatabase ''value too long'')
      else if list_ex (same_key repo r) tbl then Inl (ErrDatabase ''duplicate key'')
      else sql_insert repo rs (tbl @ [r]))"

subsection \<open>Tenant scoping and transactions\<close>

definition tenantIDFromContext :: "repository \<Rightarrow> tenant_context \<Rightarrow> outbox_error + string" where
  "tenantIDFromContext repo ctx =
     (let found = TenantIDFromContext ctx in
      if (repo_tenantColumn repo \<noteq> [] \<or> repo_requireTenant repo) \<and> (found = None \<or> found = Some [])
      then Inl ErrTenantIDRequired
      else (case found of
          None \<Rightarrow> Inr []
        | Some t \<Rightarrow>
            let tenantID = trim_space t in
            if tenantID = [] then Inl ErrTenantIDRequired
            else if \<not> IsValidTenantID tenantID then Inl ErrInvalidTenantID
            else Inr tenantID))"

definition tenantFilterClause :: "repository \<Rightarrow> string \<Rightarrow> outbox_error + (pg_row \<Rightarrow> bool)" where
  "tenantFilterClause repo tenantID =
     (if repo_tenantColumn repo = [] then Inr (\<lambda>_. True)
      else if tenantID = [] then Inl ErrTenantIDRequired
      else Inr (\<lambda>r. row_tenant r = tenantID))"

definition withTenantTxOrExisting ::
  "repository \<Rightarrow> pg_call \<Rightarrow> bool \<Rightarrow> (outbox_table \<Rightarrow> 'a db_result) \<Rightarrow> outbox_table \<Rightarrow> 'a db_result" where
  "withTenantTxOrExisting repo call existing fn tbl =
     (if existing then
        bind_res (tenantIDFromContext repo (call_ctx call)) (\<lambda>tenantID.
        bind_res (fail_if (call_applyTenant call tenantID)) (\<lambda>_.
        fn tbl))
      else
        bind_res (fail_if (call_begin call)) (\<lambda>_.
        bind_res (tenantIDFromContext repo (call_ctx call)) (\<lambda>tenantID.
        bind_res (fail_if (call_applyTenant call tenantID)) (\<lambda>_.
        bind_res (fn tbl) (\<lambda>result.
        bind_res (fail_if (call_commit call)) (\<lambda>_.
        Inr result))))))"

definition RequiresTenant :: "repository option \<Rightarrow> bool" where
  "RequiresTenant repo =
     (case repo of None \<Rightarrow> True | Some r \<Rightarrow> repo_requireTenant r \<or> repo_tenantColumn r \<noteq> [])"

text \<open>The tenant of the call and the rows its filter admits: the prologue of every statement.\<close>

definition tenant_scope :: "repository \<Rightarrow> pg_call \<Rightarrow> outbox_error + (pg_row \<Rightarrow> bool)" where
  "tenant_scope repo call =
     bind_res (tenantIDFromContext repo (call_ctx call)) (tenantFilterClause repo)"

definition ensureRowsAffected :: "nat \<Rightarrow> outbox_error + unit" where
  "ensureRowsAffected rows = refuse (rows = 0) ErrStateTransitionConflict"

definition ensureRowsAffectedExact :: "nat \<Rightarrow> nat \<Rightarrow> outbox_error + unit" where
  "ensureRowsAffectedExact rows expected = refuse (rows \<noteq> expected) ErrStateTransitionConflict"


subsection \<open>Creating events\<close>

text \<open>An event argument is a pointer: \<open>None\<close> is \<open>nil\<close>.\<close>

definition validateCreateEvent :: "outbox_event option \<Rightarrow> outbox_error + unit" where
  "validateCreateEvent event =
     (case event of
        None \<Rightarrow> Inl ErrOutboxEventRequired
      | Some e \<Rightarrow>
          if ID e = 0 then Inl ErrIDRequired
          else if trim_space (EventType e) = [] then Inl ErrEventTypeRequired
          else if AggregateID e = 0 then Inl ErrAggregateIDRequired
          else if length (Payload e) = 0 then Inl ErrOutboxEventPayloadRequired
          else if DefaultMaxPayloadBytes < length (Payload e) then Inl ErrOutboxEventPayloadTooLarge
          else if \<not> json_Valid (Payload e) then Inl ErrOutboxEventPayloadNotJSON
          else Inr ())"

text \<open>\<open>createValues\<close> has the fields of an event.\<close>

definition normalizedCreateValues :: "outbox_event option \<Rightarrow> time \<Rightarrow> outbox_error + outbox_event" where
  "normalizedCreateValues event now =
     (case event of
        None \<Rightarrow> Inl ErrOutboxEventRequired
      | Some e \<Rightarrow>
          let createdAt = (if CreatedAt e = 0 then now else CreatedAt e);
              updatedAt = (if UpdatedAt e = 0 \<or> UpdatedAt e < createdAt then createdAt else UpdatedAt e)
          in Inr \<lparr>ID = ID e, EventType = trim_space (EventType e), AggregateID = AggregateID e,
                  Payload = Payload e, Status = StatusPending, Attempts = 0, PublishedAt = None,
                  LastError = [], CreatedAt = createdAt, UpdatedAt = updatedAt\<rparr>)"

definition to_jsonb :: "pg_call \<Rightarrow> outbox_event \<Rightarrow> outbox_error + outbox_event" where
  "to_jsonb call e =
     (case call_jsonb call (Payload e) of
        None \<Rightarrow> Inl (ErrDatabase ''invalid json'')
      | Some p \<Rightarrow> Inr (e\<lparr>Payload := p\<rparr>))"

definition insert_tenant :: "repository \<Rightarrow> pg_call \<Rightarrow> outbox_error + string" where
  "insert_tenant repo call =
     (if repo_tenantColumn repo \<noteq> [] then tenantIDFromContext repo (call_ctx call) else Inr [])"

definition create ::
  "repository \<Rightarrow> pg_call \<Rightarrow> bool \<Rightarrow> outbox_event option \<Rightarrow> outbox_table \<Rightarrow> outbox_event db_result" where
  "create repo call existing event tbl =
     bind_res (refuse (\<not> repo_initialized repo) ErrRepositoryNotInitialized) (\<lambda>_.
     bind_res (validateCreateEvent event) (\<lambda>_.
     withTenantTxOrExisting repo call existing (\<lambda>tbl.
       bind_res (normalizedCreateValues event (call_now call)) (\<lambda>values.
       bind_res (insert_tenant repo call) (\<lambda>tenantID.
       bind_res (to_jsonb call values) (\<lambda>stored.
       bind_res (sql_insert repo [\<lparr>row_tenant = tenantID, row_event = stored\<rparr>] tbl) (\<lambda>tbl'.
       Inr (stored, tbl')))))) tbl))"

definition Create :: "repository \<Rightarrow> pg_call \<Rightarrow> outbox_event option \<Rightarrow> outbox_table \<Rightarrow> outbox_event db_result" where
  "Create repo call event tbl = create repo call False event tbl"

definition CreateWithTx ::
  "repository \<Rightarrow> pg_call \<Rightarrow> bool \<Rightarrow> outbox_event option \<Rightarrow> outbox_table \<Rightarrow> outbox_event db_result" where
  "CreateWithTx repo call tx event tbl = create repo call tx event tbl"

text \<open>
  \<open>INSERT ... ON CONFLICT DO UPDATE SET id = EXCLUDED.id WHERE ... RETURNING\<close>: a conflicting
  row of the same content is returned as it is stored; one of divergent content yields no row.
\<close>

definition sql_upsert :: "repository \<Rightarrow> pg_row \<Rightarrow> outbox_table \<Rightarrow> (outbox_event option) db_result" where
  "sql_upsert repo new tbl =
     (if 255 < utf8_length (EventType (row_event new)) then Inl (ErrDatabase ''value too long'')
      else (case find (same_key repo new) tbl of
          None \<Rightarrow> Inr (Some (row_event new), tbl @ [new])
        | Some ex \<Rightarrow>
            if EventType (row_event ex) = EventType (row_event new) \<and>
               AggregateID (row_event ex) = AggregateID (row_event new) \<and>
               Payload (row_event ex) = Payload (row_event new)
            then Inr (Some (row_event ex), tbl)
            else Inr (None, tbl)))"

definition CreateIdempotentWithTx ::
  "repository \<Rightarrow> pg_call \<Rightarrow> bool \<Rightarrow> outbox_event option \<Rightarrow> outbox_table \<Rightarrow> outbox_event db_result" where
  "CreateIdempotentWithTx repo call tx event tbl =
     bind_res (refuse (\<not> repo_initialized repo) ErrRepositoryNotInitialized) (\<lambda>_.
     bind_res (validateCreateEvent event) (\<lambda>_.
     withTenantTxOrExisting repo call tx (\<lambda>tbl.
       bind_res (normalizedCreateValues event (call_now call)) (\<lambda>values.
       bind_res (insert_tenant repo call) (\<lambda>tenantID.
       bind_res (to_jsonb call values) (\<lambda>stored.
       bind_res (sql_upsert repo \<lparr>row_tenant = tenantID, row_event = stored\<rparr> tbl) (\<lambda>(returned, tbl').
       (case returned of
          None \<Rightarrow> Inl ErrReplayConflict
        | Some e \<Rightarrow> Inr (e, tbl'))))))) tbl))"

text \<open>The batch: one statement for all rows, and its answer brought back into input order.\<close>

definition orderCreatedEvents ::
  "outbox_event option list \<Rightarrow> outbox_event list \<Rightarrow> outbox_error + outbox_event list" where
  "orderCreatedEvents input inserted =
     (if length inserted \<noteq> length input then Inl (ErrDatabase ''batch row count'')
      else if \<not> distinct (map ID inserted) then Inl (ErrDatabase ''duplicate event id'')
      else map_res (\<lambda>event. case event of
                       None \<Rightarrow> Inl ErrOutboxEventRequired
                     | Some e \<Rightarrow>
                         (case find (\<lambda>i. ID i = ID e) inserted of
                            None \<Rightarrow> Inl (ErrDatabase ''missing input event'')
                          | Some i \<Rightarrow> Inr i)) input)"

definition CreateManyWithTx ::
  "repository \<Rightarrow> pg_call \<Rightarrow> bool \<Rightarrow> outbox_event option list \<Rightarrow> outbox_table \<Rightarrow>
   (outbox_event list) db_result" where
  "CreateManyWithTx repo call tx events tbl =
     bind_res (refuse (\<not> repo_initialized repo) ErrRepositoryNotInitialized) (\<lambda>_.
     if events = [] then Inr ([], tbl)
     else
       bind_res (map_res validateCreateEvent events) (\<lambda>_.
       withTenantTxOrExisting repo call tx (\<lambda>tbl.
         bind_res (insert_tenant repo call) (\<lambda>tenantID.
         bind_res (map_res (\<lambda>e. normalizedCreateValues e (call_now call)) events) (\<lambda>values.
         bind_res (map_res (to_jsonb call) values) (\<lambda>stored.
         bind_res (sql_insert repo (map (\<lambda>e. \<lparr>row_tenant = tenantID, row_event = e\<rparr>) stored) tbl)
           (\<lambda>tbl'.
         bind_res (orderCreatedEvents events stored) (\<lambda>ordered.
         Inr (ordered, tbl'))))))) tbl))"

definition GetByID :: "repository \<Rightarrow> pg_call \<Rightarrow> uuid \<Rightarrow> outbox_table \<Rightarrow> outbox_event db_result" where
  "GetByID repo call ident tbl =
     bind_res (refuse (\<not> repo_initialized repo) ErrRepositoryNotInitialized) (\<lambda>_.
     bind_res (refuse (ident = 0) ErrIDRequired) (\<lambda>_.
     withTenantTxOrExisting repo call False (\<lambda>tbl.
       bind_res (tenant_scope repo call) (\<lambda>flt.
       (case find (\<lambda>r. row_id r = ident \<and> flt r) tbl of
          None \<Rightarrow> Inl ErrNoRows
        | Some r \<Rightarrow> Inr (row_event r, tbl)))) tbl))"


subsection \<open>Claiming events\<close>

definition listPendingRows :: "repository \<Rightarrow> pg_call \<Rightarrow> int \<Rightarrow> outbox_table \<Rightarrow> outbox_error + outbox_event list" where
  "listPendingRows repo call limit tbl =
     bind_res (tenant_scope repo call) (\<lambda>flt.
     Inr (sql_select (\<lambda>r. Status (row_event r) = StatusPending \<and> flt r \<and> \<not> call_locked call r)
            (\<lambda>r. CreatedAt (row_event r)) limit tbl))"

definition listPendingByTypeRows ::
  "repository \<Rightarrow> pg_call \<Rightarrow> string \<Rightarrow> int \<Rightarrow> outbox_table \<Rightarrow> outbox_error + outbox_event list" where
  "listPendingByTypeRows repo call eventType limit tbl =
     bind_res (tenant_scope repo call) (\<lambda>flt.
     Inr (sql_select (\<lambda>r. Status (row_event r) = StatusPending \<and> EventType (row_event r) = eventType \<and>
                         flt r \<and> \<not> call_locked call r)
            (\<lambda>r. CreatedAt (row_event r)) limit tbl))"

fun type_rank :: "string list \<Rightarrow> string \<Rightarrow> nat" where
  "type_rank [] t = 0"
| "type_rank (u # us) t = (if t = u then 0 else Suc (type_rank us t))"

definition listPendingByTypesRows ::
  "repository \<Rightarrow> pg_call \<Rightarrow> string list \<Rightarrow> int \<Rightarrow> outbox_table \<Rightarrow> outbox_error + outbox_event list" where
  "listPendingByTypesRows repo call eventTypes limit tbl =
     bind_res (tenant_scope repo call) (\<lambda>flt.
     Inr (sql_select (\<lambda>r. Status (row_event r) = StatusPending \<and> EventType (row_event r) \<in> set eventTypes \<and>
                         flt r \<and> \<not> call_locked call r)
            (\<lambda>r. (type_rank eventTypes (EventType (row_event r)), CreatedAt (row_event r), row_id r))
            limit tbl))"

definition listFailedForRetryRows ::
  "repository \<Rightarrow> pg_call \<Rightarrow> int \<Rightarrow> time \<Rightarrow> int \<Rightarrow> bool \<Rightarrow> outbox_table \<Rightarrow>
   outbox_error + outbox_event list" where
  "listFailedForRetryRows repo call limit failedBefore maxAttempts forUpdate tbl =
     bind_res (tenant_scope repo call) (\<lambda>flt.
     Inr (sql_select (\<lambda>r. Status (row_event r) = StatusFailed \<and> Attempts (row_event r) < maxAttempts \<and>
                         UpdatedAt (row_event r) \<le> failedBefore \<and> flt r \<and>
                         \<not> (forUpdate \<and> call_locked call r))
            (\<lambda>r. UpdatedAt (row_event r)) limit tbl))"

definition listStuckProcessingRows ::
  "repository \<Rightarrow> pg_call \<Rightarrow> int \<Rightarrow> time \<Rightarrow> outbox_table \<Rightarrow> outbox_error + outbox_event list" where
  "listStuckProcessingRows repo call limit processingBefore tbl =
     bind_res (tenant_scope repo call) (\<lambda>flt.
     Inr (sql_select (\<lambda>r. Status (row_event r) = StatusProcessing \<and>
                         UpdatedAt (row_event r) \<le> processingBefore \<and> flt r \<and> \<not> call_locked call r)
            (\<lambda>r. UpdatedAt (row_event r)) limit tbl))"

definition collectEventIDs :: "outbox_event list \<Rightarrow> uuid list" where
  "collectEventIDs events = filter (\<lambda>i. i \<noteq> 0) (map ID events)"

text \<open>\<open>UPDATE ... WHERE id = ANY(ids) AND status = from AND tenant\<close>, which must affect exactly
  the given rows.\<close>

definition update_exactly ::
  "repository \<Rightarrow> uuid list \<Rightarrow> string \<Rightarrow> string \<Rightarrow> (outbox_event \<Rightarrow> outbox_event option) \<Rightarrow>
   outbox_table \<Rightarrow> outbox_error + outbox_table" where
  "update_exactly repo ids tenantID fromStatus f tbl =
     bind_res (tenantFilterClause repo tenantID) (\<lambda>flt.
     bind_res (sql_update (\<lambda>r. row_id r \<in> set ids \<and> Status (row_event r) = fromStatus \<and> flt r) f tbl)
       (\<lambda>(tbl', rows).
     bind_res (ensureRowsAffectedExact rows (length ids)) (\<lambda>_. Inr tbl')))"

definition markEventsWithStatus ::
  "repository \<Rightarrow> time \<Rightarrow> string \<Rightarrow> uuid list \<Rightarrow> string \<Rightarrow> string \<Rightarrow> outbox_table \<Rightarrow>
   outbox_error + outbox_table" where
  "markEventsWithStatus repo now status ids tenantID fromStatus tbl =
     bind_res (ValidateOutboxTransition fromStatus status) (\<lambda>_.
     update_exactly repo ids tenantID fromStatus
       (\<lambda>e. Some (e\<lparr>Status := status, UpdatedAt := now\<rparr>)) tbl)"

definition markEventsProcessing ::
  "repository \<Rightarrow> time \<Rightarrow> uuid list \<Rightarrow> string \<Rightarrow> string \<Rightarrow> outbox_table \<Rightarrow> outbox_error + outbox_table" where
  "markEventsProcessing repo now ids tenantID fromStatus tbl =
     markEventsWithStatus repo now StatusProcessing ids tenantID fromStatus tbl"

definition applyProcessingState :: "outbox_event list \<Rightarrow> time \<Rightarrow> outbox_event list" where
  "applyProcessingState events now =
     map (\<lambda>e. e\<lparr>Status := StatusProcessing, UpdatedAt := now\<rparr>) events"

text \<open>The body the four claiming operations share: select, mark, and mirror in memory.\<close>

definition claim_events ::
  "repository \<Rightarrow> pg_call \<Rightarrow> string \<Rightarrow> (outbox_table \<Rightarrow> outbox_error + outbox_event list) \<Rightarrow>
   outbox_table \<Rightarrow> (outbox_event list) db_result" where
  "claim_events repo call fromStatus select tbl =
     bind_res (select tbl) (\<lambda>events.
     if events = [] then Inr (events, tbl)
     else
       (let ids = collectEventIDs events in
        if ids = [] then Inr (events, tbl)
        else
          bind_res (tenantIDFromContext repo (call_ctx call)) (\<lambda>tenantID.
          bind_res (markEventsProcessing repo (call_now call) ids tenantID fromStatus tbl) (\<lambda>tbl'.
          Inr (applyProcessingState events (call_now call), tbl')))))"

text \<open>The table-presence guard: a missing table reads as no rows.\<close>

definition unless_missing :: "pg_call \<Rightarrow> 'a \<Rightarrow> outbox_table \<Rightarrow> 'a db_result \<Rightarrow> 'a db_result" where
  "unless_missing call none tbl body =
     bind_res (call_tableMissing call) (\<lambda>missing. if missing then Inr (none, tbl) else body)"

definition ListPending :: "repository \<Rightarrow> pg_call \<Rightarrow> int \<Rightarrow> outbox_table \<Rightarrow> (outbox_event list) db_result" where
  "ListPending repo call limit tbl =
     bind_res (refuse (\<not> repo_initialized repo) ErrRepositoryNotInitialized) (\<lambda>_.
     bind_res (refuse (limit \<le> 0) ErrLimitMustBePositive) (\<lambda>_.
     unless_missing call [] tbl
       (withTenantTxOrExisting repo call False
          (claim_events repo call StatusPending (listPendingRows repo call limit)) tbl)))"

definition ListPendingByType ::
  "repository \<Rightarrow> pg_call \<Rightarrow> string \<Rightarrow> int \<Rightarrow> outbox_table \<Rightarrow> (outbox_event list) db_result" where
  "ListPendingByType repo call eventType0 limit tbl =
     bind_res (refuse (\<not> repo_initialized repo) ErrRepositoryNotInitialized) (\<lambda>_.
     bind_res (refuse (limit \<le> 0) ErrLimitMustBePositive) (\<lambda>_.
     let eventType = trim_space eventType0 in
     bind_res (refuse (eventType = []) ErrEventTypeRequired) (\<lambda>_.
     unless_missing call [] tbl
       (withTenantTxOrExisting repo call False
          (claim_events repo call StatusPending (listPendingByTypeRows repo call eventType limit)) tbl))))"

fun normalizeEventTypes_loop :: "string list \<Rightarrow> string list \<Rightarrow> string list" where
  "normalizeEventTypes_loop types [] = types"
| "normalizeEventTypes_loop types (t # ts) =
     (let eventType = trim_space t in
      if eventType = [] then normalizeEventTypes_loop types ts
      else if eventType \<in> set types then normalizeEventTypes_loop types ts
      else normalizeEventTypes_loop (types @ [eventType]) ts)"

definition normalizeEventTypes :: "string list \<Rightarrow> string list" where
  "normalizeEventTypes eventTypes = normalizeEventTypes_loop [] eventTypes"

definition ListPendingByTypes ::
  "repository \<Rightarrow> pg_call \<Rightarrow> string list \<Rightarrow> int \<Rightarrow> outbox_table \<Rightarrow> (outbox_event list) db_result" where
  "ListPendingByTypes repo call eventTypes limit tbl =
     bind_res (refuse (\<not> repo_initialized repo) ErrRepositoryNotInitialized) (\<lambda>_.
     bind_res (refuse (limit \<le> 0) ErrLimitMustBePositive) (\<lambda>_.
     let types = normalizeEventTypes eventTypes in
     bind_res (refuse (length types = 0) ErrEventTypeRequired) (\<lambda>_.
     unless_missing call [] tbl
       (withTenantTxOrExisting repo call False
          (claim_events repo call StatusPending (listPendingByTypesRows repo call types limit)) tbl))))"

definition ListFailedForRetry ::
  "repository \<Rightarrow> pg_call \<Rightarrow> int \<Rightarrow> time \<Rightarrow> int \<Rightarrow> outbox_table \<Rightarrow> (outbox_event list) db_result" where
  "ListFailedForRetry repo call limit failedBefore maxAttempts tbl =
     bind_res (refuse (\<not> repo_initialized repo) ErrRepositoryNotInitialized) (\<lambda>_.
     bind_res (refuse (limit \<le> 0) ErrLimitMustBePositive) (\<lambda>_.
     bind_res (refuse (maxAttempts \<le> 0) ErrMaxAttemptsMustBePositive) (\<lambda>_.
     withTenantTxOrExisting repo call False
       (\<lambda>tbl. bind_res (listFailedForRetryRows repo call limit failedBefore maxAttempts False tbl)
          (\<lambda>events. Inr (events, tbl))) tbl)))"

definition ResetForRetry ::
  "repository \<Rightarrow> pg_call \<Rightarrow> int \<Rightarrow> time \<Rightarrow> int \<Rightarrow> outbox_table \<Rightarrow> (outbox_event list) db_result" where
  "ResetForRetry repo call limit failedBefore maxAttempts tbl =
     bind_res (refuse (\<not> repo_initialized repo) ErrRepositoryNotInitialized) (\<lambda>_.
     bind_res (refuse (limit \<le> 0) ErrLimitMustBePositive) (\<lambda>_.
     bind_res (refuse (maxAttempts \<le> 0) ErrMaxAttemptsMustBePositive) (\<lambda>_.
     unless_missing call [] tbl
       (withTenantTxOrExisting repo call False
          (claim_events repo call StatusFailed
             (listFailedForRetryRows repo call limit failedBefore maxAttempts True)) tbl))))"


subsection \<open>Stuck events\<close>

definition splitStuckEvents :: "outbox_event list \<Rightarrow> int \<Rightarrow> outbox_event list \<times> outbox_event list" where
  "splitStuckEvents events maxAttempts =
     (filter (\<lambda>e. ID e \<noteq> 0 \<and> \<not> maxAttempts \<le> Attempts e + 1) events,
      filter (\<lambda>e. ID e \<noteq> 0 \<and> maxAttempts \<le> Attempts e + 1) events)"

definition one_more_attempt :: "outbox_event \<Rightarrow> outbox_event option" where
  "one_more_attempt e =
     (if max_int32 < Attempts e + 1 then None else Some (e\<lparr>Attempts := Attempts e + 1\<rparr>))"

definition set_last_error :: "runes \<Rightarrow> outbox_event \<Rightarrow> outbox_event option" where
  "set_last_error s e = map_option (\<lambda>t. e\<lparr>LastError := t\<rparr>) (varchar_fit MaxLastErrorLength s)"

definition stuck_reprocessing :: "time \<Rightarrow> outbox_event \<Rightarrow> outbox_event option" where
  "stuck_reprocessing now e =
     map_option (\<lambda>e. e\<lparr>Status := StatusProcessing, UpdatedAt := now\<rparr>) (one_more_attempt e)"

definition stuck_invalid :: "time \<Rightarrow> outbox_event \<Rightarrow> outbox_event option" where
  "stuck_invalid now e =
     (case set_last_error (sql_append_stuck_cause (Some (LastError e)) StuckInProcessingCause
             LastErrorTruncationMarker LastErrorCauseBudget) e of
        None \<Rightarrow> None
      | Some e' \<Rightarrow> map_option (\<lambda>e. e\<lparr>Status := StatusInvalid, UpdatedAt := now\<rparr>) (one_more_attempt e'))"

definition markStuckEventsReprocessing ::
  "repository \<Rightarrow> time \<Rightarrow> uuid list \<Rightarrow> string \<Rightarrow> outbox_table \<Rightarrow> outbox_error + outbox_table" where
  "markStuckEventsReprocessing repo now ids tenantID tbl =
     bind_res (ValidateOutboxTransition StatusProcessing StatusProcessing) (\<lambda>_.
     update_exactly repo ids tenantID StatusProcessing (stuck_reprocessing now) tbl)"

definition markStuckEventsInvalid ::
  "repository \<Rightarrow> time \<Rightarrow> uuid list \<Rightarrow> string \<Rightarrow> outbox_table \<Rightarrow> outbox_error + outbox_table" where
  "markStuckEventsInvalid repo now ids tenantID tbl =
     bind_res (ValidateOutboxTransition StatusProcessing StatusInvalid) (\<lambda>_.
     update_exactly repo ids tenantID StatusProcessing (stuck_invalid now) tbl)"

definition applyStuckReprocessingState :: "outbox_event list \<Rightarrow> time \<Rightarrow> outbox_event list" where
  "applyStuckReprocessingState events now =
     map (\<lambda>e. e\<lparr>Attempts := Attempts e + 1, Status := StatusProcessing, UpdatedAt := now\<rparr>) events"

definition applyStuckInvalidState :: "outbox_event list \<Rightarrow> time \<Rightarrow> outbox_event list" where
  "applyStuckInvalidState events now =
     map (\<lambda>e. e\<lparr>Attempts := Attempts e + 1, Status := StatusInvalid,
               LastError := AppendErrorCause (LastError e) StuckInProcessingCause,
               UpdatedAt := now\<rparr>) events"

text \<open>The two halves of the reclaim: each updates its rows, if it has any, and mirrors the update.\<close>

definition reclaim_retry ::
  "repository \<Rightarrow> time \<Rightarrow> string \<Rightarrow> outbox_event list \<Rightarrow> outbox_table \<Rightarrow> (outbox_event list) db_result" where
  "reclaim_retry repo now tenantID retryEvents tbl =
     (let retryIDs = collectEventIDs retryEvents in
      if retryIDs \<noteq> [] then
        bind_res (markStuckEventsReprocessing repo now retryIDs tenantID tbl) (\<lambda>tbl'.
        Inr (applyStuckReprocessingState retryEvents now, tbl'))
      else Inr (retryEvents, tbl))"

definition reclaim_exhausted ::
  "repository \<Rightarrow> time \<Rightarrow> string \<Rightarrow> outbox_event list \<Rightarrow> outbox_table \<Rightarrow> (outbox_event list) db_result" where
  "reclaim_exhausted repo now tenantID exhaustedEvents tbl =
     (let exhaustedIDs = collectEventIDs exhaustedEvents in
      if exhaustedIDs \<noteq> [] then
        bind_res (markStuckEventsInvalid repo now exhaustedIDs tenantID tbl) (\<lambda>tbl'.
        Inr (applyStuckInvalidState exhaustedEvents now, tbl'))
      else Inr (exhaustedEvents, tbl))"

definition reclaim_body ::
  "repository \<Rightarrow> pg_call \<Rightarrow> int \<Rightarrow> time \<Rightarrow> int \<Rightarrow> outbox_table \<Rightarrow>
   (outbox_event list \<times> outbox_event list) db_result" where
  "reclaim_body repo call limit processingBefore maxAttempts tbl =
     bind_res (listStuckProcessingRows repo call limit processingBefore tbl) (\<lambda>events.
     bind_res (tenantIDFromContext repo (call_ctx call)) (\<lambda>tenantID.
     let (retryEvents, exhaustedEvents) = splitStuckEvents events maxAttempts; now = call_now call in
     bind_res (reclaim_retry repo now tenantID retryEvents tbl) (\<lambda>(retry, tbl1).
     bind_res (reclaim_exhausted repo now tenantID exhaustedEvents tbl1) (\<lambda>(invalid, tbl2).
     Inr ((retry, invalid), tbl2)))))"

definition ReclaimStuckProcessing ::
  "repository \<Rightarrow> pg_call \<Rightarrow> int \<Rightarrow> time \<Rightarrow> int \<Rightarrow> outbox_table \<Rightarrow>
   (outbox_event list \<times> outbox_event list) db_result" where
  "ReclaimStuckProcessing repo call limit processingBefore maxAttempts tbl =
     bind_res (refuse (\<not> repo_initialized repo) ErrRepositoryNotInitialized) (\<lambda>_.
     bind_res (refuse (limit \<le> 0) ErrLimitMustBePositive) (\<lambda>_.
     bind_res (refuse (maxAttempts \<le> 0) ErrMaxAttemptsMustBePositive) (\<lambda>_.
     unless_missing call ([], []) tbl
       (withTenantTxOrExisting repo call False
          (reclaim_body repo call limit processingBefore maxAttempts) tbl))))"

definition ResetStuckProcessing ::
  "repository \<Rightarrow> pg_call \<Rightarrow> int \<Rightarrow> time \<Rightarrow> int \<Rightarrow> outbox_table \<Rightarrow> (outbox_event list) db_result" where
  "ResetStuckProcessing repo call limit processingBefore maxAttempts tbl =
     bind_res (ReclaimStuckProcessing repo call limit processingBefore maxAttempts tbl)
       (\<lambda>((retry, _), tbl'). Inr (retry, tbl'))"

subsection \<open>Marking one event\<close>

text \<open>\<open>UPDATE ... WHERE id = ident AND status = 'PROCESSING' AND tenant\<close>, which must affect a row.\<close>

definition update_processing ::
  "repository \<Rightarrow> pg_call \<Rightarrow> uuid \<Rightarrow> (outbox_event \<Rightarrow> outbox_event option) \<Rightarrow> outbox_table \<Rightarrow>
   unit db_result" where
  "update_processing repo call ident f tbl =
     bind_res (tenant_scope repo call) (\<lambda>flt.
     bind_res (sql_update (\<lambda>r. row_id r = ident \<and> Status (row_event r) = StatusProcessing \<and> flt r) f tbl)
       (\<lambda>(tbl', rows).
     bind_res (ensureRowsAffected rows) (\<lambda>_. Inr ((), tbl'))))"

definition MarkPublished :: "repository \<Rightarrow> pg_call \<Rightarrow> uuid \<Rightarrow> time \<Rightarrow> outbox_table \<Rightarrow> unit db_result" where
  "MarkPublished repo call ident publishedAt tbl =
     bind_res (refuse (\<not> repo_initialized repo) ErrRepositoryNotInitialized) (\<lambda>_.
     bind_res (ValidateOutboxTransition StatusProcessing StatusPublished) (\<lambda>_.
     bind_res (refuse (ident = 0) ErrIDRequired) (\<lambda>_.
     withTenantTxOrExisting repo call False
       (update_processing repo call ident
          (\<lambda>e. Some (e\<lparr>Status := StatusPublished, PublishedAt := Some publishedAt,
                       UpdatedAt := call_now call\<rparr>))) tbl)))"

definition failed_update :: "pg_call \<Rightarrow> runes \<Rightarrow> int \<Rightarrow> outbox_event \<Rightarrow> outbox_event option" where
  "failed_update call errMsg maxAttempts e =
     (case set_last_error (sql_append_cause (Some (LastError e)) errMsg
             LastErrorTruncationMarker LastErrorCauseBudget) e of
        None \<Rightarrow> None
      | Some e' \<Rightarrow>
          map_option (\<lambda>e''. e''\<lparr>Status := (if maxAttempts \<le> Attempts e + 1 then StatusInvalid else StatusFailed),
                               UpdatedAt := call_now call\<rparr>) (one_more_attempt e'))"

definition MarkFailed ::
  "repository \<Rightarrow> pg_call \<Rightarrow> uuid \<Rightarrow> runes \<Rightarrow> int \<Rightarrow> outbox_table \<Rightarrow> unit db_result" where
  "MarkFailed repo call ident errMsg0 maxAttempts tbl =
     bind_res (refuse (\<not> repo_initialized repo) ErrRepositoryNotInitialized) (\<lambda>_.
     bind_res (ValidateOutboxTransition StatusProcessing StatusFailed) (\<lambda>_.
     bind_res (ValidateOutboxTransition StatusProcessing StatusInvalid) (\<lambda>_.
     bind_res (refuse (ident = 0) ErrIDRequired) (\<lambda>_.
     bind_res (refuse (maxAttempts \<le> 0) ErrMaxAttemptsMustBePositive) (\<lambda>_.
     let errMsg = BoundErrorCause (SanitizeErrorMessageForStorage (call_redacted call) errMsg0) in
     withTenantTxOrExisting repo call False
       (update_processing repo call ident (failed_update call errMsg maxAttempts)) tbl)))))"

definition invalid_update :: "pg_call \<Rightarrow> runes \<Rightarrow> outbox_event \<Rightarrow> outbox_event option" where
  "invalid_update call errMsg e =
     map_option (\<lambda>e. e\<lparr>Status := StatusInvalid, UpdatedAt := call_now call\<rparr>) (set_last_error errMsg e)"

definition MarkInvalid :: "repository \<Rightarrow> pg_call \<Rightarrow> uuid \<Rightarrow> runes \<Rightarrow> outbox_table \<Rightarrow> unit db_result" where
  "MarkInvalid repo call ident errMsg0 tbl =
     bind_res (refuse (\<not> repo_initialized repo) ErrRepositoryNotInitialized) (\<lambda>_.
     bind_res (ValidateOutboxTransition StatusProcessing StatusInvalid) (\<lambda>_.
     bind_res (refuse (ident = 0) ErrIDRequired) (\<lambda>_.
     let errMsg = SanitizeErrorMessageForStorage (call_redacted call) errMsg0 in
     withTenantTxOrExisting repo call False
       (update_processing repo call ident (invalid_update call errMsg)) tbl)))"

subsection \<open>Retention\<close>

definition agedClause :: "string \<Rightarrow> time \<Rightarrow> string list \<Rightarrow> pg_row \<Rightarrow> bool" where
  "agedClause status before keepEventTypes r \<longleftrightarrow>
     Status (row_event r) = status \<and> UpdatedAt (row_event r) < before \<and>
     (let keep = normalizeEventTypes keepEventTypes in
      length keep > 0 \<longrightarrow> EventType (row_event r) \<notin> set keep)"

definition deleteAgedBefore ::
  "repository \<Rightarrow> pg_call \<Rightarrow> string \<Rightarrow> time \<Rightarrow> string list \<Rightarrow> int \<Rightarrow> outbox_table \<Rightarrow> nat db_result" where
  "deleteAgedBefore repo call status before keepEventTypes limit tbl =
     bind_res (refuse (\<not> repo_initialized repo) ErrRepositoryNotInitialized) (\<lambda>_.
     if limit \<le> 0 then Inr (0, tbl)
     else
       unless_missing call 0 tbl
         (withTenantTxOrExisting repo call False (\<lambda>tbl.
            bind_res (tenant_scope repo call) (\<lambda>flt.
            let selection = map ID (sql_select (\<lambda>r. agedClause status before keepEventTypes r \<and> flt r)
                               (\<lambda>r. (UpdatedAt (row_event r), row_id r)) limit tbl);
                doomed = (\<lambda>r. row_id r \<in> set selection \<and> flt r) in
            Inr (length (filter doomed tbl), filter (\<lambda>r. \<not> doomed r) tbl))) tbl))"

definition DeletePublishedBefore ::
  "repository \<Rightarrow> pg_call \<Rightarrow> time \<Rightarrow> string list \<Rightarrow> int \<Rightarrow> outbox_table \<Rightarrow> nat db_result" where
  "DeletePublishedBefore repo call before keepEventTypes limit tbl =
     deleteAgedBefore repo call StatusPublished before keepEventTypes limit tbl"

definition DeleteInvalidBefore ::
  "repository \<Rightarrow> pg_call \<Rightarrow> time \<Rightarrow> string list \<Rightarrow> int \<Rightarrow> outbox_table \<Rightarrow> nat db_result" where
  "DeleteInvalidBefore repo call before keepEventTypes limit tbl =
     deleteAgedBefore repo call StatusInvalid before keepEventTypes limit tbl"

text \<open>Tenant ids read from the table: trimmed, without repetition, blanks skipped; an id the
  tenant manager would reject fails the listing.\<close>

fun scanTenantIDs_loop :: "string list \<Rightarrow> string list \<Rightarrow> outbox_error + string list" where
  "scanTenantIDs_loop tenants [] = Inr tenants"
| "scanTenantIDs_loop tenants (t # ts) =
     (let tenant = trim_space t in
      if tenant = [] then scanTenantIDs_loop tenants ts
      else if \<not> IsValidTenantID tenant then Inl ErrInvalidTenantID
      else if tenant \<in> set tenants then scanTenantIDs_loop tenants ts
      else scanTenantIDs_loop (tenants @ [tenant]) ts)"

definition scanTenantIDs :: "string list \<Rightarrow> outbox_error + string list" where
  "scanTenantIDs rows = scanTenantIDs_loop [] rows"

definition listTenantsAgedBefore ::
  "repository \<Rightarrow> pg_call \<Rightarrow> string \<Rightarrow> time \<Rightarrow> string list \<Rightarrow> outbox_table \<Rightarrow> outbox_error + string list" where
  "listTenantsAgedBefore repo call status before keepEventTypes tbl =
     bind_res (refuse (\<not> repo_initialized repo) ErrRepositoryNotInitialized) (\<lambda>_.
     if repo_tenantColumn repo = [] then Inr []
     else
       bind_res (fail_if (call_begin call)) (\<lambda>_.
       scanTenantIDs (remdups (map row_tenant (filter (agedClause status before keepEventTypes) tbl)))))"

definition ListTenantsWithPublishedBefore ::
  "repository \<Rightarrow> pg_call \<Rightarrow> time \<Rightarrow> string list \<Rightarrow> outbox_table \<Rightarrow> outbox_error + string list" where
  "ListTenantsWithPublishedBefore repo call before keepEventTypes tbl =
     listTenantsAgedBefore repo call StatusPublished before keepEventTypes tbl"

definition ListTenantsWithInvalidBefore ::
  "repository \<Rightarrow> pg_call \<Rightarrow> time \<Rightarrow> string list \<Rightarrow> outbox_table \<Rightarrow> outbox_error + string list" where
  "ListTenantsWithInvalidBefore repo call before keepEventTypes tbl =
     listTenantsAgedBefore repo call StatusInvalid before keepEventTypes tbl"


subsection \<open>Laws of the statements\<close>

definition row_key :: "repository \<Rightarrow> pg_row \<Rightarrow> string \<times> uuid" where
  "row_key repo r = (if repo_tenantColumn repo = [] then [] else row_tenant r, row_id r)"

abbreviation keys_distinct :: "repository \<Rightarrow> outbox_table \<Rightarrow> bool" where
  "keys_distinct repo tbl \<equiv> distinct (map (row_key repo) tbl)"

lemma same_key_iff: "same_key repo r r' \<longleftrightarrow> row_key repo r = row_key repo r'"
  by (auto simp: same_key_def row_key_def)

definition on_rows :: "(pg_row \<Rightarrow> bool) \<Rightarrow> (outbox_event \<Rightarrow> outbox_event option) \<Rightarrow> pg_row \<Rightarrow> pg_row" where
  "on_rows P f r =
     (if P r then (case f (row_event r) of None \<Rightarrow> r | Some e \<Rightarrow> r\<lparr>row_event := e\<rparr>) else r)"

lemma sql_update_eq_Inr:
  "sql_update P f tbl = Inr (tbl', n) \<longleftrightarrow>
     (\<forall>r \<in> set tbl. P r \<longrightarrow> f (row_event r) \<noteq> None) \<and> tbl' = map (on_rows P f) tbl \<and>
     n = length (filter P tbl)"
  by (auto simp: sql_update_def on_rows_def list_ex_iff)

lemma on_rows_cong:
  "(\<And>r. r \<in> set tbl \<Longrightarrow> P r \<longleftrightarrow> Q r) \<Longrightarrow> map (on_rows P f) tbl = map (on_rows Q f) tbl"
  by (auto simp: on_rows_def)

lemma tenantFilterClause_inj:
  assumes "tenantFilterClause repo t = Inr flt" and "flt r" and "flt r'" and "row_id r = row_id r'"
  shows "row_key repo r = row_key repo r'"
  using assms by (auto simp: tenantFilterClause_def row_key_def split: if_splits)

lemma distinct_keysD:
  "keys_distinct repo tbl \<Longrightarrow> r \<in> set tbl \<Longrightarrow> r' \<in> set tbl \<Longrightarrow> row_key repo r = row_key repo r' \<Longrightarrow> r = r'"
  by (auto simp: distinct_map inj_on_def)

lemma length_filter_member:
  assumes "distinct xs" and "distinct ys" and "set ys \<subseteq> set xs"
  shows "length (filter (\<lambda>x. x \<in> set ys) xs) = length ys"
proof -
  have "set (filter (\<lambda>x. x \<in> set ys) xs) = set ys" using assms(3) by auto
  then show ?thesis using assms by (metis distinct_card distinct_filter)
qed

text \<open>An exact update of selected rows changes these rows and no other, and never conflicts.\<close>

lemma update_exactly_selected:
  assumes keys: "keys_distinct repo tbl" and flt: "tenantFilterClause repo t = Inr flt"
    and sel: "distinct sel" "set sel \<subseteq> set tbl"
    and ok: "\<And>r. r \<in> set sel \<Longrightarrow> Status (row_event r) = from \<and> flt r \<and> f (row_event r) \<noteq> None"
  shows "update_exactly repo (map row_id sel) t from f tbl =
    Inr (map (on_rows (\<lambda>r. r \<in> set sel) f) tbl)"
proof -
  let ?P = "\<lambda>r. row_id r \<in> set (map row_id sel) \<and> Status (row_event r) = from \<and> flt r"
  have P: "?P r \<longleftrightarrow> r \<in> set sel" if "r \<in> set tbl" for r
  proof
    assume "?P r"
    then obtain r' where r': "r' \<in> set sel" "row_id r = row_id r'" "flt r" by auto
    then have "row_key repo r = row_key repo r'" using tenantFilterClause_inj [OF flt] ok by blast
    then show "r \<in> set sel" using distinct_keysD [OF keys] that r' sel(2) by blast
  qed (use ok in auto)
  have "filter ?P tbl = filter (\<lambda>r. r \<in> set sel) tbl"
    by (rule filter_cong [OF refl P])
  then have "length (filter ?P tbl) = length (filter (\<lambda>r. r \<in> set sel) tbl)" by (simp only:)
  also have "\<dots> = length sel"
    using keys sel by (intro length_filter_member) (auto simp: distinct_map)
  finally have n: "length (filter ?P tbl) = length (map row_id sel)" by simp
  have "sql_update ?P f tbl = Inr (map (on_rows (\<lambda>r. r \<in> set sel) f) tbl, length (map row_id sel))"
    unfolding sql_update_eq_Inr using P ok n on_rows_cong [of tbl ?P "\<lambda>r. r \<in> set sel" f] by auto
  then show ?thesis
    using flt by (simp add: update_exactly_def ensureRowsAffectedExact_def)
qed

definition selected ::
  "(pg_row \<Rightarrow> bool) \<Rightarrow> (pg_row \<Rightarrow> 'k :: linorder) \<Rightarrow> int \<Rightarrow> outbox_table \<Rightarrow> outbox_table" where
  "selected P key limit tbl = take (nat limit) (sort_key key (filter P tbl))"

lemma sql_select_selected: "sql_select P key limit tbl = map row_event (selected P key limit tbl)"
  by (simp add: sql_select_def selected_def)

lemma selected_subset: "r \<in> set (selected P key limit tbl) \<Longrightarrow> r \<in> set tbl \<and> P r"
  unfolding selected_def by (auto dest: in_set_takeD)

lemma distinct_selected: "distinct tbl \<Longrightarrow> distinct (selected P key limit tbl)"
  by (simp add: selected_def)

lemma length_selected:
  "0 \<le> limit \<Longrightarrow> int (length (selected P key limit tbl)) = min limit (int (length (filter P tbl)))"
  by (auto simp: selected_def)

lemma sorted_selected: "sorted (map key (selected P key limit tbl))"
proof -
  have "sorted (take (nat limit) (map key (sort_key key (filter P tbl))))"
    by (rule sorted_wrt_take) (rule sorted_sort_key)
  then show ?thesis by (simp only: selected_def take_map)
qed

text \<open>What is left out is not older than what is taken.\<close>

lemma selected_oldest:
  assumes "r \<in> set (selected P key limit tbl)" and "r' \<in> set tbl" and "P r'"
    and "r' \<notin> set (selected P key limit tbl)"
  shows "key r \<le> key r'"
proof -
  let ?s = "sort_key key (filter P tbl)"
  have "set ?s = set (take (nat limit) ?s) \<union> set (drop (nat limit) ?s)"
    by (simp only: set_append [symmetric] append_take_drop_id)
  moreover have "r' \<in> set ?s" using assms(2,3) by simp
  ultimately have "r' \<in> set (drop (nat limit) ?s)"
    using assms(4) unfolding selected_def by blast
  moreover have "sorted (map key (take (nat limit) ?s) @ map key (drop (nat limit) ?s))"
    unfolding map_append [symmetric] append_take_drop_id by (rule sorted_sort_key)
  then have "\<forall>x \<in> set (take (nat limit) ?s). \<forall>y \<in> set (drop (nat limit) ?s). key x \<le> key y"
    unfolding sorted_append by (auto simp del: set_sort)
  ultimately show ?thesis using assms(1) unfolding selected_def by blast
qed

lemma withTenantTx_Inr:
  assumes "withTenantTxOrExisting repo call existing fn tbl = Inr res"
  shows "fn tbl = Inr res"
  using assms by (auto simp: withTenantTxOrExisting_def bind_res_eq_Inr split: if_splits)

lemma unless_missing_Inr:
  assumes "unless_missing call none tbl body = Inr (x, tbl')"
  shows "x = none \<and> tbl' = tbl \<or> body = Inr (x, tbl')"
  using assms by (auto simp: unless_missing_def bind_res_eq_Inr split: if_splits)

end
