(* ===== verification/Outbox_Lifecycle.thy ===== *)
theory Outbox_Lifecycle
  imports Outbox_Store
begin

text \<open>
  What the operations of the PostgreSQL repository do to the table over time. \<open>outbox_step\<close>
  is one successful operation, with any arguments and in any surroundings; a history of the
  table is a sequence of such steps, which is how transactions of several dispatchers and writers
  interleave, since each commits atomically. The invariant \<open>table_wf\<close> is kept by every step
  and every step moves rows only along the life cycle of \<open>status.go\<close>.
\<close>

subsection \<open>The invariant\<close>

definition event_ok :: "outbox_event \<Rightarrow> bool" where
  "event_ok e \<longleftrightarrow>
     ID e \<noteq> 0 \<and> EventType e \<noteq> [] \<and> IsValid (Status e) \<and> 0 \<le> Attempts e \<and>
     length (LastError e) \<le> MaxLastErrorLength \<and>
     (Status e = StatusInvalid \<or> last_error_wf (LastError e)) \<and>
     (PublishedAt e \<noteq> None \<longleftrightarrow> Status e = StatusPublished) \<and>
     (Status e = StatusPending \<longrightarrow> Attempts e = 0 \<and> LastError e = []) \<and>
     (Status e = StatusFailed \<longrightarrow> 0 < Attempts e)"

definition table_wf :: "repository \<Rightarrow> outbox_table \<Rightarrow> bool" where
  "table_wf repo tbl \<longleftrightarrow> keys_distinct repo tbl \<and> (\<forall>r \<in> set tbl. event_ok (row_event r))"

text \<open>One move of an event: along an edge of the life cycle, with its identity and content kept and
  at most one attempt more.\<close>

definition event_evolves :: "outbox_event \<Rightarrow> outbox_event \<Rightarrow> bool" where
  "event_evolves e e' \<longleftrightarrow>
     CanTransitionTo (Status e) (Status e') \<and>
     ID e' = ID e \<and> EventType e' = EventType e \<and> AggregateID e' = AggregateID e \<and>
     Payload e' = Payload e \<and> CreatedAt e' = CreatedAt e \<and>
     Attempts e \<le> Attempts e' \<and> Attempts e' \<le> Attempts e + 1"

definition row_evolves :: "pg_row \<Rightarrow> pg_row \<Rightarrow> bool" where
  "row_evolves r r' \<longleftrightarrow>
     row_tenant r' = row_tenant r \<and> (r' = r \<or> event_evolves (row_event r) (row_event r'))"

definition table_evolves :: "outbox_table \<Rightarrow> outbox_table \<Rightarrow> bool" where
  "table_evolves tbl tbl' \<longleftrightarrow>
     (\<exists>keep moved new.
        tbl' = moved @ new \<and>
        list_all2 row_evolves (filter keep tbl) moved \<and>
        (\<forall>r \<in> set tbl. \<not> keep r \<longrightarrow> Status (row_event r) \<in> {StatusPublished, StatusInvalid}) \<and>
        (\<forall>r \<in> set new. Status (row_event r) = StatusPending \<and> Attempts (row_event r) = 0))"

inductive outbox_step :: "repository \<Rightarrow> pg_call \<Rightarrow> outbox_table \<Rightarrow> outbox_table \<Rightarrow> bool"
  for repo call where
  create_step: "create repo call existing event tbl = Inr (e, tbl') \<Longrightarrow> outbox_step repo call tbl tbl'"
| idempotent_step:
    "CreateIdempotentWithTx repo call tx event tbl = Inr (e, tbl') \<Longrightarrow> outbox_step repo call tbl tbl'"
| batch_step: "CreateManyWithTx repo call tx events tbl = Inr (es, tbl') \<Longrightarrow> outbox_step repo call tbl tbl'"
| pending_step: "ListPending repo call limit tbl = Inr (es, tbl') \<Longrightarrow> outbox_step repo call tbl tbl'"
| pending_type_step:
    "ListPendingByType repo call t limit tbl = Inr (es, tbl') \<Longrightarrow> outbox_step repo call tbl tbl'"
| pending_types_step:
    "ListPendingByTypes repo call ts limit tbl = Inr (es, tbl') \<Longrightarrow> outbox_step repo call tbl tbl'"
| retry_step:
    "ResetForRetry repo call limit before maxAttempts tbl = Inr (es, tbl') \<Longrightarrow> outbox_step repo call tbl tbl'"
| reclaim_step:
    "ReclaimStuckProcessing repo call limit before maxAttempts tbl = Inr (ess, tbl') \<Longrightarrow>
     outbox_step repo call tbl tbl'"
| published_step: "MarkPublished repo call ident at tbl = Inr (u, tbl') \<Longrightarrow> outbox_step repo call tbl tbl'"
| failed_step:
    "MarkFailed repo call ident msg maxAttempts tbl = Inr (u, tbl') \<Longrightarrow> outbox_step repo call tbl tbl'"
| invalid_step: "MarkInvalid repo call ident msg tbl = Inr (u, tbl') \<Longrightarrow> outbox_step repo call tbl tbl'"
| purge_published_step:
    "DeletePublishedBefore repo call before keep limit tbl = Inr (n, tbl') \<Longrightarrow> outbox_step repo call tbl tbl'"
| purge_invalid_step:
    "DeleteInvalidBefore repo call before keep limit tbl = Inr (n, tbl') \<Longrightarrow> outbox_step repo call tbl tbl'"

text \<open>A step in some surroundings, and the tables that histories from the empty table reach.\<close>

abbreviation some_step :: "repository \<Rightarrow> outbox_table \<Rightarrow> outbox_table \<Rightarrow> bool" where
  "some_step repo tbl tbl' \<equiv> \<exists>call. outbox_step repo call tbl tbl'"

subsection \<open>Updates of single events\<close>

definition good_update :: "string \<Rightarrow> (outbox_event \<Rightarrow> outbox_event option) \<Rightarrow> bool" where
  "good_update from f \<longleftrightarrow>
     (\<forall>e e'. event_ok e \<longrightarrow> Status e = from \<longrightarrow> f e = Some e' \<longrightarrow> event_ok e' \<and> event_evolves e e')"

lemma IsValid_simps [simp]:
  "IsValid StatusPending" "IsValid StatusProcessing" "IsValid StatusPublished"
  "IsValid StatusFailed" "IsValid StatusInvalid"
  by (simp_all add: IsValid_def)

lemma good_update_claim:
  "good_update StatusPending (\<lambda>e. Some (e\<lparr>Status := StatusProcessing, UpdatedAt := now\<rparr>))"
  "good_update StatusFailed (\<lambda>e. Some (e\<lparr>Status := StatusProcessing, UpdatedAt := now\<rparr>))"
  by (auto simp: good_update_def event_ok_def event_evolves_def)

lemma good_update_published:
  "good_update StatusProcessing
     (\<lambda>e. Some (e\<lparr>Status := StatusPublished, PublishedAt := Some at, UpdatedAt := now\<rparr>))"
  by (auto simp: good_update_def event_ok_def event_evolves_def)

lemma one_more_attempt_Some:
  "one_more_attempt e = Some e' \<longleftrightarrow>
     Attempts e + 1 \<le> max_int32 \<and> e' = e\<lparr>Attempts := Attempts e + 1\<rparr>"
  by (auto simp: one_more_attempt_def)

lemma set_last_error_fits:
  "length s \<le> MaxLastErrorLength \<Longrightarrow> set_last_error s e = Some (e\<lparr>LastError := s\<rparr>)"
  by (simp add: set_last_error_def varchar_fit_def)

lemma good_update_stuck_reprocessing: "good_update StatusProcessing (stuck_reprocessing now)"
  by (auto simp: good_update_def stuck_reprocessing_def one_more_attempt_Some event_ok_def
      event_evolves_def)

lemma event_ok_processing_wf: "event_ok e \<Longrightarrow> Status e = StatusProcessing \<Longrightarrow> last_error_wf (LastError e)"
  by (auto simp: event_ok_def)

text \<open>On a row the invariant holds of, the SQL expression fits its column and is \<open>AppendErrorCause\<close>.\<close>

lemma sql_append_on_row:
  assumes "last_error_wf le"
  shows "set_last_error (sql_append_cause (Some le) (BoundErrorCause c)
      LastErrorTruncationMarker LastErrorCauseBudget) e = Some (e\<lparr>LastError := AppendErrorCause le c\<rparr>)"
  unfolding sql_append_cause_correct [OF assms]
  by (rule set_last_error_fits) (rule last_error_wf_length [OF AppendErrorCause_wf [OF assms]])

lemma stuck_append_on_row:
  assumes "last_error_wf le"
  shows "set_last_error (sql_append_stuck_cause (Some le) StuckInProcessingCause
      LastErrorTruncationMarker LastErrorCauseBudget) e =
    Some (e\<lparr>LastError := AppendErrorCause le StuckInProcessingCause\<rparr>)"
proof -
  have "StuckInProcessingCause \<noteq> []" by (simp add: StuckInProcessingCause_def lit_def)
  then show ?thesis
    using sql_append_on_row [OF assms, of StuckInProcessingCause e]
    by (simp only: sql_append_stuck_cause_eq BoundErrorCause_stuck simp_thms)
qed

lemma failed_update_eq:
  assumes "last_error_wf (LastError e)"
  shows "failed_update call (BoundErrorCause c) maxAttempts e =
    (if max_int32 < Attempts e + 1 then None
     else Some (e\<lparr>LastError := AppendErrorCause (LastError e) c, Attempts := Attempts e + 1,
                Status := (if maxAttempts \<le> Attempts e + 1 then StatusInvalid else StatusFailed),
                UpdatedAt := call_now call\<rparr>))"
  unfolding failed_update_def sql_append_on_row [OF assms] by (simp add: one_more_attempt_def)

lemma stuck_invalid_eq:
  assumes "last_error_wf (LastError e)"
  shows "stuck_invalid now e =
    (if max_int32 < Attempts e + 1 then None
     else Some (e\<lparr>LastError := AppendErrorCause (LastError e) StuckInProcessingCause,
                Attempts := Attempts e + 1, Status := StatusInvalid, UpdatedAt := now\<rparr>))"
  unfolding stuck_invalid_def stuck_append_on_row [OF assms] by (simp add: one_more_attempt_def)

lemma good_updateI:
  "(\<And>e e'. event_ok e \<Longrightarrow> Status e = from \<Longrightarrow> f e = Some e' \<Longrightarrow> event_ok e' \<and> event_evolves e e') \<Longrightarrow>
     good_update from f"
  by (simp add: good_update_def)

text \<open>The two moves that record a cause.\<close>

lemma record_cause_ok:
  assumes "event_ok e" and "Status e = StatusProcessing" and "s = StatusInvalid \<or> s = StatusFailed"
    and "e' = e\<lparr>LastError := AppendErrorCause (LastError e) c, Attempts := Attempts e + 1, Status := s,
      UpdatedAt := now\<rparr>"
  shows "event_ok e' \<and> event_evolves e e'"
proof -
  have "last_error_wf (AppendErrorCause (LastError e) c)"
    using assms(1,2) by (intro AppendErrorCause_wf event_ok_processing_wf)
  moreover from this have "length (AppendErrorCause (LastError e) c) \<le> MaxLastErrorLength"
    by (rule last_error_wf_length)
  ultimately show ?thesis
    using assms unfolding event_ok_def event_evolves_def by auto
qed

lemma good_update_failed: "good_update StatusProcessing (failed_update call (BoundErrorCause c) maxAttempts)"
proof (rule good_updateI)
  fix e e' assume e: "event_ok e" "Status e = StatusProcessing"
    and u: "failed_update call (BoundErrorCause c) maxAttempts e = Some e'"
  show "event_ok e' \<and> event_evolves e e'"
    by (rule record_cause_ok [OF e, where c = c and now = "call_now call"
          and s = "if maxAttempts \<le> Attempts e + 1 then StatusInvalid else StatusFailed"])
      (use u in \<open>simp_all add: failed_update_eq [OF event_ok_processing_wf [OF e]] split: if_split_asm\<close>)
qed

lemma good_update_stuck_invalid: "good_update StatusProcessing (stuck_invalid now)"
proof (rule good_updateI)
  fix e e' assume e: "event_ok e" "Status e = StatusProcessing" and u: "stuck_invalid now e = Some e'"
  show "event_ok e' \<and> event_evolves e e'"
    by (rule record_cause_ok [OF e, where c = StuckInProcessingCause and now = now and s = StatusInvalid])
      (use u in \<open>simp_all add: stuck_invalid_eq [OF event_ok_processing_wf [OF e]] split: if_split_asm\<close>)
qed

lemma good_update_invalid:
  "length msg \<le> MaxLastErrorLength \<Longrightarrow> good_update StatusProcessing (invalid_update call msg)"
  by (auto simp: good_update_def invalid_update_def set_last_error_fits event_ok_def event_evolves_def)

subsection \<open>Updates of the table\<close>

lemma on_rows_evolves:
  assumes "good_update from f" and "event_ok (row_event r)" and "P r \<Longrightarrow> Status (row_event r) = from"
  shows "row_evolves r (on_rows P f r) \<and> event_ok (row_event (on_rows P f r)) \<and>
    row_key repo (on_rows P f r) = row_key repo r"
proof (cases "P r \<and> f (row_event r) \<noteq> None")
  case True
  then obtain e where e: "f (row_event r) = Some e" by auto
  then have "event_ok e \<and> event_evolves (row_event r) e"
    using assms True unfolding good_update_def by blast
  then show ?thesis
    using True e by (simp add: on_rows_def row_evolves_def row_key_def event_evolves_def)
next
  case False
  then have "on_rows P f r = r" by (auto simp: on_rows_def)
  then show ?thesis using assms(2) by (simp add: row_evolves_def)
qed

lemma table_wf_map:
  assumes "table_wf repo tbl"
    and "\<And>r. r \<in> set tbl \<Longrightarrow>
      row_evolves r (g r) \<and> event_ok (row_event (g r)) \<and> row_key repo (g r) = row_key repo r"
  shows "table_wf repo (map g tbl) \<and> table_evolves tbl (map g tbl)"
proof -
  have "map (row_key repo) (map g tbl) = map (row_key repo) tbl" using assms(2) by simp
  moreover have "\<forall>r \<in> set (map g tbl). event_ok (row_event r)" using assms(2) by simp
  ultimately have "table_wf repo (map g tbl)" using assms(1) by (simp only: table_wf_def)
  moreover have "list_all2 row_evolves tbl (map g tbl)"
    using assms(2) by (auto simp: list_all2_map2 list.rel_refl_strong)
  then have "table_evolves tbl (map g tbl)"
    unfolding table_evolves_def
    by (intro exI [where x = "\<lambda>_. True"] exI [where x = "map g tbl"] exI [where x = "[]"]) simp
  ultimately show ?thesis ..
qed

lemma table_wf_on_rows:
  assumes "table_wf repo tbl" and "good_update from f"
    and "\<And>r. r \<in> set tbl \<Longrightarrow> P r \<Longrightarrow> Status (row_event r) = from"
  shows "table_wf repo (map (on_rows P f) tbl) \<and> table_evolves tbl (map (on_rows P f) tbl)"
  using assms on_rows_evolves [OF assms(2)]
  by (intro table_wf_map) (auto simp: table_wf_def)

lemma table_evolves_refl: "table_evolves tbl tbl"
  unfolding table_evolves_def
  by (rule exI [of _ "\<lambda>_. True"], rule exI [of _ tbl], rule exI [of _ "[]"])
    (simp add: list_all2_same row_evolves_def)

lemma update_exactly_Inr:
  assumes "update_exactly repo ids t from f tbl = Inr tbl'"
  shows "\<exists>flt. tenantFilterClause repo t = Inr flt \<and>
    tbl' = map (on_rows (\<lambda>r. row_id r \<in> set ids \<and> Status (row_event r) = from \<and> flt r) f) tbl"
  using assms by (auto simp: update_exactly_def bind_res_eq_Inr sql_update_eq_Inr)

lemma update_exactly_wf:
  assumes "table_wf repo tbl" and "good_update from f" and "update_exactly repo ids t from f tbl = Inr tbl'"
  shows "table_wf repo tbl' \<and> table_evolves tbl tbl'"
  using update_exactly_Inr [OF assms(3)] table_wf_on_rows [OF assms(1,2)] by force

lemma update_processing_wf:
  assumes "table_wf repo tbl" and "good_update StatusProcessing f"
    and "update_processing repo call ident f tbl = Inr (u, tbl')"
  shows "table_wf repo tbl' \<and> table_evolves tbl tbl'"
proof -
  obtain flt where "tbl' = map (on_rows (\<lambda>r. row_id r = ident \<and>
      Status (row_event r) = StatusProcessing \<and> flt r) f) tbl"
    using assms(3) by (auto simp: update_processing_def bind_res_eq_Inr sql_update_eq_Inr)
  then show ?thesis using table_wf_on_rows [OF assms(1,2)] by force
qed

lemma claim_events_wf:
  assumes "table_wf repo tbl" and "from = StatusPending \<or> from = StatusFailed"
    and "claim_events repo call from select tbl = Inr (es, tbl')"
  shows "table_wf repo tbl' \<and> table_evolves tbl tbl'"
proof (cases "tbl' = tbl")
  case True
  then show ?thesis using assms(1) table_evolves_refl by simp
next
  case False
  then obtain ids t where "update_exactly repo ids t from
      (\<lambda>e. Some (e\<lparr>Status := StatusProcessing, UpdatedAt := call_now call\<rparr>)) tbl = Inr tbl'"
    using assms(3)
    by (auto simp: claim_events_def bind_res_eq_Inr Let_def markEventsProcessing_def
        markEventsWithStatus_def split: if_splits)
  then show ?thesis using update_exactly_wf [OF assms(1)] good_update_claim assms(2) by blast
qed


text \<open>A reclaim changes the rows to retry and the exhausted rows, and no row is both.\<close>

lemma tenant_scopeE:
  assumes "tenant_scope repo call = Inr flt"
  obtains t where "tenantIDFromContext repo (call_ctx call) = Inr t" "tenantFilterClause repo t = Inr flt"
  using assms by (auto simp: tenant_scope_def bind_res_eq_Inr)

lemma splitStuckEvents_disjoint:
  assumes "keys_distinct repo tbl" and "tenant_scope repo call = Inr flt"
    and "set rows \<subseteq> set tbl" and "\<And>r. r \<in> set rows \<Longrightarrow> flt r"
    and "splitStuckEvents (map row_event rows) m = (retry, exhausted)"
  shows "set (collectEventIDs retry) \<inter> set (collectEventIDs exhausted) = {}"
proof -
  obtain t where t: "tenantFilterClause repo t = Inr flt" by (rule tenant_scopeE [OF assms(2)])
  have "False" if "a \<in> set rows" "b \<in> set rows" "row_id a = row_id b"
    "\<not> m \<le> Attempts (row_event a) + 1" "m \<le> Attempts (row_event b) + 1" for a b
  proof -
    have "row_key repo a = row_key repo b"
      using tenantFilterClause_inj [OF t] assms(4) that by blast
    then have "a = b" using distinct_keysD [OF assms(1)] assms(3) that by blast
    then show False using that by simp
  qed
  then show ?thesis
    using assms(5) by (auto simp: splitStuckEvents_def collectEventIDs_def) metis
qed

lemma on_rows_none: "map (on_rows (\<lambda>_. False) f) s = s"
  by (induction s) (simp_all add: on_rows_def)

lemma stuck_update_or_none:
  assumes "ids = [] \<and> tbl' = tbl \<or> update_exactly repo ids t StatusProcessing f tbl = Inr tbl'"
  shows "\<exists>P. tbl' = map (on_rows P f) tbl \<and>
    (\<forall>r. P r \<longrightarrow> row_id r \<in> set ids \<and> Status (row_event r) = StatusProcessing)"
  using assms
proof
  assume "update_exactly repo ids t StatusProcessing f tbl = Inr tbl'"
  then show ?thesis using update_exactly_Inr by blast
next
  assume "ids = [] \<and> tbl' = tbl"
  then show ?thesis by (intro exI [of _ "\<lambda>_. False"]) (simp add: on_rows_none)
qed

lemma reclaim_retry_Inr:
  assumes "reclaim_retry repo now t events tbl = Inr (events', tbl')"
  shows "\<exists>P. tbl' = map (on_rows P (stuck_reprocessing now)) tbl \<and>
    (\<forall>r. P r \<longrightarrow> row_id r \<in> set (collectEventIDs events) \<and> Status (row_event r) = StatusProcessing)"
proof (rule stuck_update_or_none)
  show "collectEventIDs events = [] \<and> tbl' = tbl \<or>
      update_exactly repo (collectEventIDs events) t StatusProcessing (stuck_reprocessing now) tbl = Inr tbl'"
    using assms by (auto simp: reclaim_retry_def Let_def bind_res_eq_Inr markStuckEventsReprocessing_def
        split: if_splits)
qed

lemma reclaim_exhausted_Inr:
  assumes "reclaim_exhausted repo now t events tbl = Inr (events', tbl')"
  shows "\<exists>P. tbl' = map (on_rows P (stuck_invalid now)) tbl \<and>
    (\<forall>r. P r \<longrightarrow> row_id r \<in> set (collectEventIDs events) \<and> Status (row_event r) = StatusProcessing)"
proof (rule stuck_update_or_none)
  show "collectEventIDs events = [] \<and> tbl' = tbl \<or>
      update_exactly repo (collectEventIDs events) t StatusProcessing (stuck_invalid now) tbl = Inr tbl'"
    using assms by (auto simp: reclaim_exhausted_def Let_def bind_res_eq_Inr markStuckEventsInvalid_def
        split: if_splits)
qed

text \<open>Two updates of different rows, one after the other, move each row at most once.\<close>

lemma two_updates_wf:
  assumes wf: "table_wf repo tbl" and good: "good_update from f" "good_update from g"
    and P: "\<And>r. P r \<Longrightarrow> row_id r \<in> A \<and> Status (row_event r) = from"
    and Q: "\<And>r. Q r \<Longrightarrow> row_id r \<in> B \<and> Status (row_event r) = from"
    and disj: "A \<inter> B = {}"
  shows "table_wf repo (map (on_rows Q g) (map (on_rows P f) tbl)) \<and>
    table_evolves tbl (map (on_rows Q g) (map (on_rows P f) tbl))"
proof -
  let ?f = "on_rows P f" and ?g = "on_rows Q g"
  have "row_evolves r (?g (?f r)) \<and> event_ok (row_event (?g (?f r))) \<and>
      row_key repo (?g (?f r)) = row_key repo r" if r: "r \<in> set tbl" for r
  proof -
    have ok: "event_ok (row_event r)" using wf r by (simp add: table_wf_def)
    have f: "row_evolves r (?f r) \<and> event_ok (row_event (?f r)) \<and> row_key repo (?f r) = row_key repo r"
      by (rule on_rows_evolves [OF good(1) ok]) (use P in blast)
    show ?thesis
    proof (cases "P r")
      case True
      have "row_id (?f r) = row_id r" using f by (simp add: row_key_def)
      then have "\<not> Q (?f r)" using P [OF True] Q [of "?f r"] disj by auto
      then have "?g (?f r) = ?f r" by (simp add: on_rows_def)
      then show ?thesis using f by simp
    next
      case False
      then have "?f r = r" by (simp add: on_rows_def)
      then show ?thesis using on_rows_evolves [OF good(2) ok, of Q repo] Q by simp
    qed
  qed
  then show ?thesis using table_wf_map [OF wf, of "?g \<circ> ?f"] by simp
qed

lemma reclaim_body_wf:
  assumes wf: "table_wf repo tbl" and "reclaim_body repo call limit before m tbl = Inr (res, tbl')"
  shows "table_wf repo tbl' \<and> table_evolves tbl tbl'"
proof -
  obtain flt where flt: "tenant_scope repo call = Inr flt"
    using assms(2) by (auto simp: reclaim_body_def listStuckProcessingRows_def bind_res_eq_Inr)
  let ?rows = "selected (\<lambda>r. Status (row_event r) = StatusProcessing \<and> UpdatedAt (row_event r) \<le> before \<and>
    flt r \<and> \<not> call_locked call r) (\<lambda>r. UpdatedAt (row_event r)) limit tbl"
  obtain retry exhausted where split: "splitStuckEvents (map row_event ?rows) m = (retry, exhausted)"
    by fastforce
  obtain t a b tbl1 where steps: "reclaim_retry repo (call_now call) t retry tbl = Inr (a, tbl1)"
      "reclaim_exhausted repo (call_now call) t exhausted tbl1 = Inr (b, tbl')"
    using assms(2) flt split
    by (auto simp: reclaim_body_def listStuckProcessingRows_def bind_res_eq_Inr sql_select_selected
        Let_def)
  have "keys_distinct repo tbl" using wf by (simp add: table_wf_def)
  then have disj: "set (collectEventIDs retry) \<inter> set (collectEventIDs exhausted) = {}"
    by (rule splitStuckEvents_disjoint [OF _ flt _ _ split]) (auto dest: selected_subset)
  obtain P where P: "tbl1 = map (on_rows P (stuck_reprocessing (call_now call))) tbl"
      "\<And>r. P r \<Longrightarrow> row_id r \<in> set (collectEventIDs retry) \<and> Status (row_event r) = StatusProcessing"
    using reclaim_retry_Inr [OF steps(1)] by blast
  obtain Q where Q: "tbl' = map (on_rows Q (stuck_invalid (call_now call))) tbl1"
      "\<And>r. Q r \<Longrightarrow> row_id r \<in> set (collectEventIDs exhausted) \<and> Status (row_event r) = StatusProcessing"
    using reclaim_exhausted_Inr [OF steps(2)] by blast
  show ?thesis
    unfolding Q(1) P(1)
    by (rule two_updates_wf [OF wf good_update_stuck_reprocessing good_update_stuck_invalid P(2) Q(2) disj])
qed


subsection \<open>Insertions and deletions\<close>

lemma sql_insert_Inr:
  assumes "sql_insert repo rows tbl = Inr tbl'"
  shows "tbl' = tbl @ rows \<and> (keys_distinct repo tbl \<longrightarrow> keys_distinct repo tbl')"
  using assms
proof (induction repo rows tbl rule: sql_insert.induct)
  case (2 repo r rs tbl)
  then have guards: "\<not> 255 < utf8_length (EventType (row_event r))" "\<not> list_ex (same_key repo r) tbl"
    and rest: "sql_insert repo rs (tbl @ [r]) = Inr tbl'"
    by (auto split: if_splits)
  have "row_key repo r \<notin> row_key repo ` set tbl" using guards(2) by (auto simp: list_ex_iff same_key_iff)
  then have "keys_distinct repo tbl \<longrightarrow> keys_distinct repo (tbl @ [r])" by simp
  moreover have "tbl' = (tbl @ [r]) @ rs \<and> (keys_distinct repo (tbl @ [r]) \<longrightarrow> keys_distinct repo tbl')"
    using "2.IH" guards rest by blast
  moreover have "(tbl @ [r]) @ rs = tbl @ (r # rs)" by simp
  ultimately show ?case by metis
qed simp

lemma table_wf_append:
  assumes "table_wf repo tbl" and "keys_distinct repo (tbl @ new)"
    and "\<And>r. r \<in> set new \<Longrightarrow> event_ok (row_event r) \<and>
      Status (row_event r) = StatusPending \<and> Attempts (row_event r) = 0"
  shows "table_wf repo (tbl @ new) \<and> table_evolves tbl (tbl @ new)"
proof -
  have "table_wf repo (tbl @ new)" using assms by (auto simp: table_wf_def)
  moreover have "table_evolves tbl (tbl @ new)"
    unfolding table_evolves_def using assms(3)
    by (intro exI [where x = "\<lambda>_. True"] exI [where x = tbl] exI [where x = new])
      (simp add: list_all2_same row_evolves_def)
  ultimately show ?thesis ..
qed

lemma table_wf_filter:
  assumes "table_wf repo tbl"
    and "\<And>r. r \<in> set tbl \<Longrightarrow> \<not> keep r \<Longrightarrow> Status (row_event r) \<in> {StatusPublished, StatusInvalid}"
  shows "table_wf repo (filter keep tbl) \<and> table_evolves tbl (filter keep tbl)"
proof -
  have "table_wf repo (filter keep tbl)" using assms(1) by (auto simp: table_wf_def distinct_map_filter)
  moreover have "table_evolves tbl (filter keep tbl)"
    unfolding table_evolves_def using assms(2)
    by (intro exI [where x = keep] exI [where x = "filter keep tbl"] exI [where x = "[]"])
      (simp add: list_all2_same row_evolves_def)
  ultimately show ?thesis ..
qed

definition fresh_event :: "outbox_event \<Rightarrow> bool" where
  "fresh_event e \<longleftrightarrow> event_ok e \<and> Status e = StatusPending \<and> Attempts e = 0"

lemma created_event_ok:
  assumes "validateCreateEvent event = Inr u" and "normalizedCreateValues event now = Inr v"
    and "to_jsonb call v = Inr st"
  shows "fresh_event st"
  using assms
  by (auto simp: validateCreateEvent_def normalizedCreateValues_def to_jsonb_def fresh_event_def
      event_ok_def last_error_wf_def Let_def split: option.splits if_splits)

lemma append_fresh:
  assumes "table_wf repo tbl" and "keys_distinct repo (tbl @ new)"
    and "\<forall>r \<in> set new. fresh_event (row_event r)"
  shows "table_wf repo (tbl @ new) \<and> table_evolves tbl (tbl @ new)"
  using assms by (intro table_wf_append) (auto simp: fresh_event_def)

lemma create_wf:
  assumes "table_wf repo tbl" and "create repo call existing event tbl = Inr (e, tbl')"
  shows "table_wf repo tbl' \<and> table_evolves tbl tbl'"
proof -
  obtain u v st t where steps: "validateCreateEvent event = Inr u"
      "normalizedCreateValues event (call_now call) = Inr v" "to_jsonb call v = Inr st"
      "sql_insert repo [\<lparr>row_tenant = t, row_event = st\<rparr>] tbl = Inr tbl'"
    using assms(2) by (auto simp: create_def bind_res_eq_Inr dest!: withTenantTx_Inr)
  have "fresh_event st" by (rule created_event_ok [OF steps(1-3)])
  moreover have "tbl' = tbl @ [\<lparr>row_tenant = t, row_event = st\<rparr>]" "keys_distinct repo tbl'"
    using sql_insert_Inr [OF steps(4)] assms(1) unfolding table_wf_def by blast+
  ultimately show ?thesis using append_fresh [OF assms(1), of "[\<lparr>row_tenant = t, row_event = st\<rparr>]"] by simp
qed

lemma sql_upsert_Inr:
  assumes "sql_upsert repo new tbl = Inr (res, tbl')" and "keys_distinct repo tbl"
  shows "tbl' = tbl \<or> tbl' = tbl @ [new] \<and> keys_distinct repo tbl'"
  using assms
  by (auto simp: sql_upsert_def find_None_iff same_key_iff split: if_splits option.splits)

lemma CreateIdempotent_wf:
  assumes "table_wf repo tbl" and "CreateIdempotentWithTx repo call tx event tbl = Inr (e, tbl')"
  shows "table_wf repo tbl' \<and> table_evolves tbl tbl'"
proof -
  obtain u v st t res where steps: "validateCreateEvent event = Inr u"
      "normalizedCreateValues event (call_now call) = Inr v" "to_jsonb call v = Inr st"
      "sql_upsert repo \<lparr>row_tenant = t, row_event = st\<rparr> tbl = Inr (res, tbl')"
    using assms(2)
    by (auto simp: CreateIdempotentWithTx_def bind_res_eq_Inr split: option.splits dest!: withTenantTx_Inr)
  have "fresh_event st" by (rule created_event_ok [OF steps(1-3)])
  moreover have "tbl' = tbl \<or>
      tbl' = tbl @ [\<lparr>row_tenant = t, row_event = st\<rparr>] \<and> keys_distinct repo tbl'"
    using steps(4) sql_upsert_Inr assms(1) unfolding table_wf_def by blast
  ultimately show ?thesis
    using append_fresh [OF assms(1), of "[\<lparr>row_tenant = t, row_event = st\<rparr>]"] assms(1) table_evolves_refl
    by auto
qed

lemma CreateMany_wf:
  assumes "table_wf repo tbl" and "CreateManyWithTx repo call tx events tbl = Inr (es, tbl')"
  shows "table_wf repo tbl' \<and> table_evolves tbl tbl'"
proof (cases "events = []")
  case True
  then show ?thesis
    using assms table_evolves_refl by (auto simp: CreateManyWithTx_def bind_res_eq_Inr)
next
  case False
  then obtain us vs sts t where steps: "map_res validateCreateEvent events = Inr us"
      "map_res (\<lambda>e. normalizedCreateValues e (call_now call)) events = Inr vs"
      "map_res (to_jsonb call) vs = Inr sts"
      "sql_insert repo (map (\<lambda>e. \<lparr>row_tenant = t, row_event = e\<rparr>) sts) tbl = Inr tbl'"
    using assms(2) by (auto simp: CreateManyWithTx_def bind_res_eq_Inr dest!: withTenantTx_Inr)
  have "fresh_event st" if st: "st \<in> set sts" for st
  proof -
    from st obtain i where i: "i < length sts" "st = sts ! i" by (auto simp: in_set_conv_nth)
    show ?thesis
      using steps(1-3) i created_event_ok [of "events ! i" "us ! i" "call_now call" "vs ! i" call st]
      unfolding map_res_eq_Inr list_all2_conv_all_nth by auto
  qed
  moreover have "tbl' = tbl @ map (\<lambda>e. \<lparr>row_tenant = t, row_event = e\<rparr>) sts" "keys_distinct repo tbl'"
    using sql_insert_Inr [OF steps(4)] assms(1) unfolding table_wf_def by blast+
  ultimately show ?thesis
    using append_fresh [OF assms(1), of "map (\<lambda>e. \<lparr>row_tenant = t, row_event = e\<rparr>) sts"] by simp
qed

lemma deleteAged_doomed:
  assumes keys: "keys_distinct repo tbl" and flt: "tenant_scope repo call = Inr flt"
    and sel: "sel = selected (\<lambda>r. agedClause status before kept r \<and> flt r) key limit tbl"
    and r: "r \<in> set tbl"
  shows "row_id r \<in> set (map row_id sel) \<and> flt r \<longleftrightarrow> r \<in> set sel"
proof
  obtain t where t: "tenantFilterClause repo t = Inr flt" by (rule tenant_scopeE [OF flt])
  assume a: "row_id r \<in> set (map row_id sel) \<and> flt r"
  then obtain r' where r': "r' \<in> set sel" "row_id r = row_id r'" by auto
  then have "r' \<in> set tbl" and "flt r'" unfolding sel by (auto dest: selected_subset)
  then have "r = r'"
    using distinct_keysD [OF keys r] tenantFilterClause_inj [OF t, of r r'] a r'(2) by blast
  then show "r \<in> set sel" using r'(1) by simp
qed (auto simp: sel dest: selected_subset)

lemma deleteAgedBefore_Inr:
  assumes keys: "keys_distinct repo tbl"
    and "deleteAgedBefore repo call status before kept limit tbl = Inr (n, tbl')"
  shows "n = 0 \<and> tbl' = tbl \<or>
    (\<exists>flt sel. tenant_scope repo call = Inr flt \<and> 0 < limit \<and>
       sel = selected (\<lambda>r. agedClause status before kept r \<and> flt r)
         (\<lambda>r. (UpdatedAt (row_event r), row_id r)) limit tbl \<and>
       n = length sel \<and> tbl' = filter (\<lambda>r. r \<notin> set sel) tbl)"
proof (cases "n = 0 \<and> tbl' = tbl")
  case False
  let ?sel = "\<lambda>flt. selected (\<lambda>r. agedClause status before kept r \<and> flt r)
    (\<lambda>r. (UpdatedAt (row_event r), row_id r)) limit tbl"
  obtain flt where flt: "tenant_scope repo call = Inr flt" "0 < limit"
    and n: "n = length (filter (\<lambda>r. row_id r \<in> set (map row_id (?sel flt)) \<and> flt r) tbl)"
    and tbl': "tbl' = filter (\<lambda>r. \<not> (row_id r \<in> set (map row_id (?sel flt)) \<and> flt r)) tbl"
    using assms(2) False
    by (auto simp: deleteAgedBefore_def bind_res_eq_Inr Let_def sql_select_selected
        split: if_splits dest!: withTenantTx_Inr unless_missing_Inr)
  note doomed = deleteAged_doomed [OF keys flt(1) refl]
  have "n = length (filter (\<lambda>r. r \<in> set (?sel flt)) tbl)"
    unfolding n by (rule arg_cong [OF filter_cong [OF refl doomed]])
  moreover have "\<dots> = length (?sel flt)"
    using keys by (intro length_filter_member distinct_selected) (auto simp: distinct_map dest: selected_subset)
  moreover have "tbl' = filter (\<lambda>r. r \<notin> set (?sel flt)) tbl"
    unfolding tbl' by (rule filter_cong [OF refl]) (simp only: doomed)
  ultimately show ?thesis using flt by blast
qed simp


lemma deleteAged_wf:
  assumes "table_wf repo tbl" and "status = StatusPublished \<or> status = StatusInvalid"
    and "deleteAgedBefore repo call status before kept limit tbl = Inr (n, tbl')"
  shows "table_wf repo tbl' \<and> table_evolves tbl tbl'"
proof -
  have keys: "keys_distinct repo tbl" using assms(1) by (simp add: table_wf_def)
  from deleteAgedBefore_Inr [OF keys assms(3)] show ?thesis
  proof (elim disjE exE conjE)
    assume "tbl' = tbl"
    then show ?thesis using assms(1) table_evolves_refl by simp
  next
    fix flt sel
    assume sel: "sel = selected (\<lambda>r. agedClause status before kept r \<and> flt r)
        (\<lambda>r. (UpdatedAt (row_event r), row_id r)) limit tbl"
      and "tbl' = filter (\<lambda>r. r \<notin> set sel) tbl"
    moreover have "Status (row_event r) = status" if "r \<in> set sel" for r
      using that unfolding sel by (auto simp: agedClause_def dest: selected_subset)
    ultimately show ?thesis
      using table_wf_filter [OF assms(1), of "\<lambda>r. r \<notin> set sel"] assms(2) by auto
  qed
qed

subsection \<open>Every step\<close>

lemma claim_op_wf:
  assumes "table_wf repo tbl" and "from = StatusPending \<or> from = StatusFailed"
    and "unless_missing call [] tbl
      (withTenantTxOrExisting repo call False (claim_events repo call from select) tbl) = Inr (es, tbl')"
  shows "table_wf repo tbl' \<and> table_evolves tbl tbl'"
  using unless_missing_Inr [OF assms(3)] claim_events_wf [OF assms(1,2)] assms(1) table_evolves_refl
  by (auto dest!: withTenantTx_Inr)

lemma length_Sanitize_fits: "length (SanitizeErrorMessageForStorage rv msg) \<le> MaxLastErrorLength"
  using length_SanitizeErrorMessageForStorage by (simp add: MaxLastErrorLength_def)

lemma mark_op_wf:
  assumes "table_wf repo tbl" and "good_update StatusProcessing f"
    and "withTenantTxOrExisting repo call False (update_processing repo call ident f) tbl = Inr (u, tbl')"
  shows "table_wf repo tbl' \<and> table_evolves tbl tbl'"
  using update_processing_wf [OF assms(1,2)] withTenantTx_Inr [OF assms(3)] by blast

lemma outbox_step_wf:
  assumes "outbox_step repo call tbl tbl'" and "table_wf repo tbl"
  shows "table_wf repo tbl' \<and> table_evolves tbl tbl'"
  using assms
proof (induction rule: outbox_step.induct)
  case create_step
  then show ?case using create_wf by blast
next
  case idempotent_step
  then show ?case using CreateIdempotent_wf by blast
next
  case batch_step
  then show ?case using CreateMany_wf by blast
next
  case (pending_step limit tbl es tbl')
  then show ?case
    using claim_op_wf [of repo tbl StatusPending call] by (auto simp: ListPending_def bind_res_eq_Inr)
next
  case (pending_type_step t limit tbl es tbl')
  then show ?case
    using claim_op_wf [of repo tbl StatusPending call]
    by (auto simp: ListPendingByType_def bind_res_eq_Inr Let_def)
next
  case (pending_types_step ts limit tbl es tbl')
  then show ?case
    using claim_op_wf [of repo tbl StatusPending call]
    by (auto simp: ListPendingByTypes_def bind_res_eq_Inr Let_def)
next
  case (retry_step limit before maxAttempts tbl es tbl')
  then show ?case
    using claim_op_wf [of repo tbl StatusFailed call] by (auto simp: ResetForRetry_def bind_res_eq_Inr)
next
  case (reclaim_step limit before maxAttempts tbl ess tbl')
  then have "unless_missing call ([], []) tbl (withTenantTxOrExisting repo call False
      (reclaim_body repo call limit before maxAttempts) tbl) = Inr (ess, tbl')"
    by (auto simp: ReclaimStuckProcessing_def bind_res_eq_Inr)
  from unless_missing_Inr [OF this] show ?case
    using reclaim_body_wf [OF reclaim_step.prems] reclaim_step.prems table_evolves_refl
      withTenantTx_Inr [of repo call False _ tbl "(ess, tbl')"] by blast
next
  case (published_step ident at tbl u tbl')
  then show ?case
    using mark_op_wf [OF _ good_update_published] by (auto simp: MarkPublished_def bind_res_eq_Inr)
next
  case (failed_step ident msg maxAttempts tbl u tbl')
  then show ?case
    using mark_op_wf [OF _ good_update_failed] by (auto simp: MarkFailed_def bind_res_eq_Inr Let_def)
next
  case (invalid_step ident msg tbl u tbl')
  then show ?case
    using mark_op_wf [OF _ good_update_invalid [OF length_Sanitize_fits]]
    by (auto simp: MarkInvalid_def bind_res_eq_Inr Let_def)
next
  case (purge_published_step before keep limit tbl n tbl')
  then show ?case
    using deleteAged_wf [of repo tbl StatusPublished] by (auto simp: DeletePublishedBefore_def)
next
  case (purge_invalid_step before keep limit tbl n tbl')
  then show ?case
    using deleteAged_wf [of repo tbl StatusInvalid] by (auto simp: DeleteInvalidBefore_def)
qed

lemma table_wf_empty: "table_wf repo []"
  by (simp add: table_wf_def)


subsection \<open>A concrete history\<close>

text \<open>A repository without tenants, surroundings in which nothing fails, and one event.\<close>

definition plain_repo :: repository where
  "plain_repo = \<lparr>repo_initialized = True, repo_tenantColumn = [], repo_requireTenant = False\<rparr>"

definition calm_call :: "time \<Rightarrow> pg_call" where
  "calm_call now =
     \<lparr>call_ctx = background, call_now = now, call_locked = (\<lambda>_. False), call_begin = None,
      call_commit = None, call_applyTenant = (\<lambda>_. None), call_tableMissing = Inr False,
      call_jsonb = Some, call_redacted = lit ''***''\<rparr>"

definition sample_event :: "uuid \<Rightarrow> outbox_event" where
  "sample_event i =
     \<lparr>ID = i, EventType = ''paid'', AggregateID = 7, Payload = ''{}'', Status = StatusPending,
      Attempts = 0, PublishedAt = None, LastError = [], CreatedAt = 100, UpdatedAt = 100\<rparr>"

definition sample_row :: "uuid \<Rightarrow> pg_row" where
  "sample_row i = \<lparr>row_tenant = [], row_event = sample_event i\<rparr>"

lemma trim_space_id:
  assumes "strip_any space_encodings s = None" and "strip_any (map rev space_encodings) (rev s) = None"
  shows "trim_space s = s"
  by (simp add: trim_space_def trim_left_with_id assms)

lemma trim_paid [simp]: "trim_space ''paid'' = ''paid''"
  by (rule trim_space_id) (simp_all add: space_encodings_def)

lemma valid_empty_object [simp]: "json_Valid ''{}''"
  by (simp add: json_eval)

lemma plain_tenant [simp]: "tenantIDFromContext plain_repo background = Inr []"
  by (simp add: tenantIDFromContext_def plain_repo_def background_def TenantIDFromContext_def
      GetTenantIDContext_def)

lemma plain_repo_simps [simp]:
  "repo_initialized plain_repo" "repo_tenantColumn plain_repo = []"
  by (simp_all add: plain_repo_def)

lemma calm_call_simps [simp]:
  "call_ctx (calm_call now) = background" "call_now (calm_call now) = now"
  "call_locked (calm_call now) r = False" "call_begin (calm_call now) = None"
  "call_commit (calm_call now) = None" "call_applyTenant (calm_call now) t = None"
  "call_tableMissing (calm_call now) = Inr False" "call_jsonb (calm_call now) p = Some p"
  "call_redacted (calm_call now) = lit ''***''"
  by (simp_all add: calm_call_def)

lemma calm_tx [simp]:
  "withTenantTxOrExisting plain_repo (calm_call now) ex fn tbl = fn tbl"
  by (cases "fn tbl") (simp_all add: withTenantTxOrExisting_def)

lemma plain_scope [simp]: "tenant_scope plain_repo (calm_call now) = Inr (\<lambda>_. True)"
  by (simp add: tenant_scope_def tenantFilterClause_def)

lemma calm_unless_missing [simp]: "unless_missing (calm_call now) none tbl body = body"
  by (simp add: unless_missing_def)

lemma create_sample:
  "create plain_repo (calm_call 100) False (Some (sample_event 1)) [] = Inr (sample_event 1, [sample_row 1])"
  by (simp add: create_def validateCreateEvent_def normalizedCreateValues_def to_jsonb_def
      insert_tenant_def sample_event_def sample_row_def DefaultMaxPayloadBytes_def utf8_length_def)

lemma ListPending_sample:
  "ListPending plain_repo (calm_call 200) 5 [sample_row 1] =
     Inr ([(sample_event 1)\<lparr>Status := StatusProcessing, UpdatedAt := 200\<rparr>],
          [\<lparr>row_tenant = [], row_event = (sample_event 1)\<lparr>Status := StatusProcessing, UpdatedAt := 200\<rparr>\<rparr>])"
  by (simp add: ListPending_def claim_events_def listPendingRows_def sql_select_def collectEventIDs_def
      markEventsProcessing_def markEventsWithStatus_def update_exactly_def tenantFilterClause_def
      sql_update_def ensureRowsAffectedExact_def applyProcessingState_def sample_event_def sample_row_def)


subsection \<open>The invariant and the life cycle\<close>

lemma reachable_wf:
  assumes "(some_step repo)\<^sup>*\<^sup>* [] tbl"
  shows "table_wf repo tbl"
  using assms by (induction rule: rtranclp_induct) (use table_wf_empty outbox_step_wf in blast)+

lemma sample_reachable: "(some_step plain_repo)\<^sup>*\<^sup>* [] [sample_row 1]"
  using create_step [OF create_sample] by blast

text \<open>
  C11. Whatever operations the writers and dispatchers of an outbox perform, in whatever order their
  transactions commit, the table keeps its invariant: keys are unique; ids and event types are
  present, statuses are of the life cycle and attempts are not negative; the accumulated error fits
  its column and is of the form the accumulation rule expects; \<open>published_at\<close> is set exactly on
  \<open>PUBLISHED\<close> rows; a \<open>PENDING\<close> row has no attempt behind it and a \<open>FAILED\<close> row has one.
\<close>

theorem outbox_table_invariant:
  assumes "(some_step repo)\<^sup>*\<^sup>* [] tbl"
  shows "table_wf repo tbl"
  using assms by (rule reachable_wf)

theorem outbox_table_invariant_witness:
  "(some_step plain_repo)\<^sup>*\<^sup>* [] [sample_row 1] \<and> table_wf plain_repo [sample_row 1]"
  using sample_reachable outbox_table_invariant [OF sample_reachable] by blast

text \<open>
  C12. The repository moves events only along the life cycle. In every step from a reachable table,
  each row that stays is untouched or makes one transition that \<open>CanTransitionTo\<close> allows, keeping
  its identity, type, payload and creation time and gaining at most one attempt; a row that
  disappears was \<open>PUBLISHED\<close> or \<open>INVALID\<close>; a row that appears is \<open>PENDING\<close> with no attempts.
  In particular a published or invalid event is never dispatched again.
\<close>

theorem outbox_step_follows_lifecycle:
  assumes "(some_step repo)\<^sup>*\<^sup>* [] tbl" and "outbox_step repo call tbl tbl'"
  shows "table_evolves tbl tbl'"
  using outbox_step_wf [OF assms(2) reachable_wf [OF assms(1)]] by blast

theorem outbox_step_follows_lifecycle_witness:
  "(some_step plain_repo)\<^sup>*\<^sup>* [] [sample_row 1] \<and>
   outbox_step plain_repo (calm_call 200) [sample_row 1]
     [\<lparr>row_tenant = [], row_event = (sample_event 1)\<lparr>Status := StatusProcessing, UpdatedAt := 200\<rparr>\<rparr>] \<and>
   table_evolves [sample_row 1]
     [\<lparr>row_tenant = [], row_event = (sample_event 1)\<lparr>Status := StatusProcessing, UpdatedAt := 200\<rparr>\<rparr>]"
  using sample_reachable pending_step [OF ListPending_sample]
    outbox_step_follows_lifecycle [OF sample_reachable pending_step [OF ListPending_sample]] by blast

end
