(* ===== verification/Outbox_Claims.thy ===== *)
theory Outbox_Claims
  imports Outbox_Lifecycle
begin

text \<open>
  What each operation of the PostgreSQL repository achieves when its surroundings do not fail:
  claims take the oldest eligible rows and nobody else's, a failure is recorded by the accumulation
  rule and never rejected by its column, reclaims hand back what they stored, retention deletes
  only what is due, replays are inert, and in column-per-tenant mode a call touches only the rows of
  its tenant.
\<close>

subsection \<open>Surroundings that do not fail\<close>

definition tx_ok :: "repository \<Rightarrow> pg_call \<Rightarrow> (pg_row \<Rightarrow> bool) \<Rightarrow> bool" where
  "tx_ok repo call flt \<longleftrightarrow>
     repo_initialized repo \<and> call_begin call = None \<and> call_commit call = None \<and>
     call_tableMissing call = Inr False \<and>
     (case tenantIDFromContext repo (call_ctx call) of
        Inl e \<Rightarrow> False
      | Inr t \<Rightarrow> call_applyTenant call t = None \<and> tenant_scope repo call = Inr flt)"

lemma tx_okE:
  assumes "tx_ok repo call flt"
  obtains t where "repo_initialized repo" "call_begin call = None" "call_commit call = None"
    "call_tableMissing call = Inr False" "tenantIDFromContext repo (call_ctx call) = Inr t"
    "call_applyTenant call t = None" "tenant_scope repo call = Inr flt"
    "tenantFilterClause repo t = Inr flt"
  using assms by (auto simp: tx_ok_def tenant_scope_def split: sum.splits)

lemma tx_ok_run:
  assumes "tx_ok repo call flt"
  shows "withTenantTxOrExisting repo call ex fn tbl = fn tbl"
  using assms by (cases "fn tbl") (auto simp: withTenantTxOrExisting_def elim!: tx_okE)

lemma tx_ok_plain: "tx_ok plain_repo (calm_call now) (\<lambda>_. True)"
  by (simp add: tx_ok_def)

subsection \<open>Failures\<close>

lemma update_processing_row:
  assumes keys: "keys_distinct repo tbl" and ok: "tx_ok repo call flt"
    and r: "r \<in> set tbl" "flt r" "Status (row_event r) = StatusProcessing"
    and f: "f (row_event r) = Some e"
  shows "update_processing repo call (row_id r) f tbl =
    Inr ((), map (\<lambda>r'. if r' = r then r\<lparr>row_event := e\<rparr> else r') tbl)"
proof -
  let ?P = "\<lambda>r'. row_id r' = row_id r \<and> Status (row_event r') = StatusProcessing \<and> flt r'"
  obtain t where t: "tenant_scope repo call = Inr flt" "tenantFilterClause repo t = Inr flt"
    using ok by (rule tx_okE)
  have P: "?P r' \<longleftrightarrow> r' = r" if "r' \<in> set tbl" for r'
    using that r tenantFilterClause_inj [OF t(2), of r' r] distinct_keysD [OF keys that r(1)] by auto
  have "filter ?P tbl \<noteq> []" using r by (auto simp: filter_empty_conv)
  moreover have "map (on_rows ?P f) tbl = map (\<lambda>r'. if r' = r then r\<lparr>row_event := e\<rparr> else r') tbl"
    using P f by (auto simp: on_rows_def)
  moreover have "\<forall>r' \<in> set tbl. ?P r' \<longrightarrow> f (row_event r') \<noteq> None" using P f by auto
  ultimately have "\<exists>n. sql_update ?P f tbl =
      Inr (map (\<lambda>r'. if r' = r then r\<lparr>row_event := e\<rparr> else r') tbl, n) \<and> n \<noteq> 0"
    by (auto simp: sql_update_eq_Inr)
  then show ?thesis using t(1) by (auto simp: update_processing_def ensureRowsAffected_def)
qed

text \<open>
  C13. A failure is always recorded. For a row in \<open>PROCESSING\<close> of a table that keeps the invariant,
  \<open>MarkFailed\<close> succeeds: the \<open>CASE\<close> expression never overflows the column, the row's
  \<open>last_error\<close> becomes what \<open>AppendErrorCause\<close> makes of it and the sanitized message, its
  attempts grow by one, its status is \<open>INVALID\<close> when the attempts are used up and \<open>FAILED\<close>
  otherwise, and no other row changes.
\<close>

theorem MarkFailed_records_cause:
  assumes "table_wf repo tbl" and "tx_ok repo call flt"
    and "r \<in> set tbl" and "flt r" and "Status (row_event r) = StatusProcessing"
    and "Attempts (row_event r) + 1 \<le> max_int32" and "0 < maxAttempts"
  shows "MarkFailed repo call (row_id r) msg maxAttempts tbl =
    Inr ((), map (\<lambda>r'. if r' = r
      then r\<lparr>row_event := (row_event r)
        \<lparr>LastError := AppendErrorCause (LastError (row_event r))
                        (SanitizeErrorMessageForStorage (call_redacted call) msg),
         Attempts := Attempts (row_event r) + 1,
         Status := (if maxAttempts \<le> Attempts (row_event r) + 1 then StatusInvalid else StatusFailed),
         UpdatedAt := call_now call\<rparr>\<rparr>
      else r') tbl)"
proof -
  have ev: "event_ok (row_event r)" and keys: "keys_distinct repo tbl"
    using assms(1,3) by (auto simp: table_wf_def)
  have "row_id r \<noteq> 0" using ev by (simp add: event_ok_def)
  moreover have "repo_initialized repo" using assms(2) by (rule tx_okE)
  moreover have "failed_update call (BoundErrorCause (SanitizeErrorMessageForStorage (call_redacted call) msg))
      maxAttempts (row_event r) = Some ((row_event r)
        \<lparr>LastError := AppendErrorCause (LastError (row_event r))
                        (SanitizeErrorMessageForStorage (call_redacted call) msg),
         Attempts := Attempts (row_event r) + 1,
         Status := (if maxAttempts \<le> Attempts (row_event r) + 1 then StatusInvalid else StatusFailed),
         UpdatedAt := call_now call\<rparr>)"
    using failed_update_eq [OF event_ok_processing_wf [OF ev assms(5)]] assms(6) by simp
  from update_processing_row [where f = "failed_update call
      (BoundErrorCause (SanitizeErrorMessageForStorage (call_redacted call) msg)) maxAttempts",
      OF keys assms(2-5) this]
  show ?thesis
    using calculation assms(7) by (simp add: MarkFailed_def tx_ok_run [OF assms(2)])
qed

definition processing_row :: "uuid \<Rightarrow> pg_row" where
  "processing_row i =
     \<lparr>row_tenant = [], row_event = (sample_event i)\<lparr>Status := StatusProcessing, UpdatedAt := 200\<rparr>\<rparr>"

lemma processing_row_wf: "table_wf plain_repo [processing_row 1]"
  by (simp add: table_wf_def processing_row_def sample_event_def event_ok_def last_error_wf_def)

theorem MarkFailed_records_cause_witness:
  "table_wf plain_repo [processing_row 1] \<and>
   Status (row_event (processing_row 1)) = StatusProcessing \<and>
   MarkFailed plain_repo (calm_call 300) 1 (lit ''timeout'') 3 [processing_row 1] =
     Inr ((), [(processing_row 1)\<lparr>row_event := (row_event (processing_row 1))
       \<lparr>LastError := AppendErrorCause [] (SanitizeErrorMessageForStorage (lit ''***'') (lit ''timeout'')),
        Attempts := 1, Status := StatusFailed, UpdatedAt := 300\<rparr>\<rparr>])"
proof -
  have row: "row_id (processing_row 1) = 1" "Status (row_event (processing_row 1)) = StatusProcessing"
    "Attempts (row_event (processing_row 1)) = 0" "LastError (row_event (processing_row 1)) = []"
    by (simp_all add: processing_row_def sample_event_def)
  show ?thesis
    using MarkFailed_records_cause [OF processing_row_wf tx_ok_plain, of "processing_row 1" 3 300 "lit ''timeout''"]
      processing_row_wf row by (simp add: max_int32_def)
qed


subsection \<open>Claims\<close>

definition claimed :: "time \<Rightarrow> outbox_event \<Rightarrow> outbox_event" where
  "claimed now e = e\<lparr>Status := StatusProcessing, UpdatedAt := now\<rparr>"

definition claim_row :: "time \<Rightarrow> pg_row \<Rightarrow> pg_row" where
  "claim_row now r = r\<lparr>row_event := claimed now (row_event r)\<rparr>"

lemma collectEventIDs_rows:
  "(\<And>r. r \<in> set rows \<Longrightarrow> row_id r \<noteq> 0) \<Longrightarrow> collectEventIDs (map row_event rows) = map row_id rows"
  unfolding collectEventIDs_def by (induction rows) auto

text \<open>
  The contract of a claiming query: it selects, in the order of a key, unlocked rows of the tenant
  that are eligible, and eligible rows have the status the claim starts from.
\<close>

locale claim_query =
  fixes origin :: string
    and query :: "repository \<Rightarrow> pg_call \<Rightarrow> int \<Rightarrow> outbox_table \<Rightarrow> outbox_error + outbox_event list"
    and elig :: "pg_row \<Rightarrow> bool"
    and key :: "pg_row \<Rightarrow> 'k :: linorder"
  assumes query_eq: "query repo call limit tbl = bind_res (tenant_scope repo call) (\<lambda>flt.
      Inr (sql_select (\<lambda>r. elig r \<and> flt r \<and> \<not> call_locked call r) key limit tbl))"
    and elig_status: "elig r \<Longrightarrow> Status (row_event r) = origin"
    and origin_status: "origin = StatusPending \<or> origin = StatusFailed"
begin

definition taken :: "pg_call \<Rightarrow> (pg_row \<Rightarrow> bool) \<Rightarrow> int \<Rightarrow> outbox_table \<Rightarrow> outbox_table" where
  "taken call flt limit tbl = selected (\<lambda>r. elig r \<and> flt r \<and> \<not> call_locked call r) key limit tbl"

lemma takenD: "r \<in> set (taken call flt limit tbl) \<Longrightarrow>
    r \<in> set tbl \<and> elig r \<and> flt r \<and> \<not> call_locked call r"
  unfolding taken_def by (drule selected_subset) simp

lemma claim_exact:
  assumes wf: "table_wf repo tbl" and ok: "tx_ok repo call flt"
  shows "claim_events repo call origin (query repo call limit) tbl =
    Inr (map (\<lambda>r. claimed (call_now call) (row_event r)) (taken call flt limit tbl),
         map (\<lambda>r. if r \<in> set (taken call flt limit tbl) then claim_row (call_now call) r else r) tbl)"
proof -
  let ?sel = "taken call flt limit tbl"
  obtain t where t: "tenantIDFromContext repo (call_ctx call) = Inr t" "tenant_scope repo call = Inr flt"
      "tenantFilterClause repo t = Inr flt"
    using ok by (rule tx_okE)
  have q: "query repo call limit tbl = Inr (map row_event ?sel)"
    by (simp add: query_eq t(2) sql_select_selected taken_def)
  have keys: "keys_distinct repo tbl" using wf by (simp add: table_wf_def)
  have ids: "collectEventIDs (map row_event ?sel) = map row_id ?sel"
    using wf takenD by (intro collectEventIDs_rows) (auto simp: table_wf_def event_ok_def)
  have "distinct tbl" using keys by (simp add: distinct_map)
  then have dist: "distinct ?sel" unfolding taken_def by (rule distinct_selected)
  have sub: "set ?sel \<subseteq> set tbl" using takenD by blast
  have st: "Status (row_event r) = origin \<and> flt r" if "r \<in> set ?sel" for r
    using takenD [OF that] elig_status by blast
  have upd: "update_exactly repo (map row_id ?sel) t origin
      (\<lambda>e. Some (e\<lparr>Status := StatusProcessing, UpdatedAt := call_now call\<rparr>)) tbl =
    Inr (map (on_rows (\<lambda>r. r \<in> set ?sel)
      (\<lambda>e. Some (e\<lparr>Status := StatusProcessing, UpdatedAt := call_now call\<rparr>))) tbl)"
    by (rule update_exactly_selected [OF keys t(3) dist sub]) (use st in simp)
  have rows: "map (on_rows (\<lambda>r. r \<in> set ?sel)
      (\<lambda>e. Some (e\<lparr>Status := StatusProcessing, UpdatedAt := call_now call\<rparr>))) tbl =
    map (\<lambda>r. if r \<in> set ?sel then claim_row (call_now call) r else r) tbl"
    by (simp add: on_rows_def claim_row_def claimed_def)
  have "ValidateOutboxTransition origin StatusProcessing = Inr ()" using origin_status by auto
  then show ?thesis
    using q t(1) ids upd rows
    by (auto simp: claim_events_def Let_def markEventsProcessing_def markEventsWithStatus_def
        applyProcessingState_def claimed_def)
qed

text \<open>The oldest eligible rows are taken, at most \<open>limit\<close> of them.\<close>

lemma claim_oldest:
  assumes "r \<in> set (taken call flt limit tbl)" and "r' \<in> set tbl" and "elig r'" and "flt r'"
    and "\<not> call_locked call r'" and "r' \<notin> set (taken call flt limit tbl)"
  shows "key r \<le> key r'"
  using selected_oldest [of r _ key limit tbl r'] assms unfolding taken_def by blast

lemma claim_length: "0 \<le> limit \<Longrightarrow> int (length (taken call flt limit tbl)) \<le> limit"
  unfolding taken_def using length_selected by (metis min.cobounded1)

end

interpretation pending_query: claim_query StatusPending listPendingRows
  "\<lambda>r. Status (row_event r) = StatusPending" "\<lambda>r. CreatedAt (row_event r)"
  by unfold_locales (simp_all add: listPendingRows_def)

interpretation type_query: claim_query StatusPending
  "\<lambda>repo call limit. listPendingByTypeRows repo call t limit"
  "\<lambda>r. Status (row_event r) = StatusPending \<and> EventType (row_event r) = t"
  "\<lambda>r. CreatedAt (row_event r)" for t
  by unfold_locales (simp_all add: listPendingByTypeRows_def)

interpretation types_query: claim_query StatusPending
  "\<lambda>repo call limit. listPendingByTypesRows repo call ts limit"
  "\<lambda>r. Status (row_event r) = StatusPending \<and> EventType (row_event r) \<in> set ts"
  "\<lambda>r. (type_rank ts (EventType (row_event r)), CreatedAt (row_event r), row_id r)" for ts
  by unfold_locales (simp_all add: listPendingByTypesRows_def)

interpretation failed_query: claim_query StatusFailed
  "\<lambda>repo call limit tbl. listFailedForRetryRows repo call limit before maxAttempts True tbl"
  "\<lambda>r. Status (row_event r) = StatusFailed \<and> Attempts (row_event r) < maxAttempts \<and>
     UpdatedAt (row_event r) \<le> before"
  "\<lambda>r. UpdatedAt (row_event r)" for before maxAttempts
  by unfold_locales (simp_all add: listFailedForRetryRows_def conj_assoc)


lemma ListPending_eq:
  assumes "table_wf repo tbl" and "tx_ok repo call flt" and "0 < limit"
  shows "ListPending repo call limit tbl =
    Inr (map (\<lambda>r. claimed (call_now call) (row_event r)) (pending_query.taken call flt limit tbl),
         map (\<lambda>r. if r \<in> set (pending_query.taken call flt limit tbl)
                  then claim_row (call_now call) r else r) tbl)"
proof -
  have "repo_initialized repo" "call_tableMissing call = Inr False"
    using assms(2) by (auto elim: tx_okE)
  then show ?thesis
    using assms(3) pending_query.claim_exact [OF assms(1,2), of limit]
    by (simp add: ListPending_def unless_missing_def tx_ok_run [OF assms(2)])
qed

text \<open>
  \<open>ListPending\<close> claims the right events and cannot fail on them. On a table that keeps the
  invariant it takes exactly as many unlocked \<open>PENDING\<close> rows of the tenant as there are, up to the
  limit, oldest first; it moves exactly these rows to \<open>PROCESSING\<close>, so the exact-row-count check
  never conflicts; and the events it hands to the dispatcher are the rows as they are now stored.
\<close>

theorem ListPending_claims_oldest:
  assumes "table_wf repo tbl" and "tx_ok repo call flt" and "0 < limit"
  shows "\<exists>sel.
    ListPending repo call limit tbl =
      Inr (map (\<lambda>r. row_event (claim_row (call_now call) r)) sel,
           map (\<lambda>r. if r \<in> set sel then claim_row (call_now call) r else r) tbl) \<and>
    distinct sel \<and>
    (\<forall>r \<in> set sel. r \<in> set tbl \<and> Status (row_event r) = StatusPending \<and> flt r \<and> \<not> call_locked call r) \<and>
    int (length sel) = min limit (int (length (filter (\<lambda>r. Status (row_event r) = StatusPending \<and> flt r \<and>
      \<not> call_locked call r) tbl))) \<and>
    sorted (map (\<lambda>r. CreatedAt (row_event r)) sel) \<and>
    (\<forall>r \<in> set sel. \<forall>r' \<in> set tbl - set sel. Status (row_event r') = StatusPending \<longrightarrow> flt r' \<longrightarrow>
      \<not> call_locked call r' \<longrightarrow> CreatedAt (row_event r) \<le> CreatedAt (row_event r'))"
proof (intro exI conjI)
  let ?sel = "pending_query.taken call flt limit tbl"
  have "distinct tbl" using assms(1) by (simp add: table_wf_def distinct_map)
  then show "distinct ?sel" unfolding pending_query.taken_def by (rule distinct_selected)
  show "ListPending repo call limit tbl =
      Inr (map (\<lambda>r. row_event (claim_row (call_now call) r)) ?sel,
           map (\<lambda>r. if r \<in> set ?sel then claim_row (call_now call) r else r) tbl)"
    using ListPending_eq [OF assms] by (simp add: claim_row_def)
  show "int (length ?sel) = min limit (int (length (filter (\<lambda>r. Status (row_event r) = StatusPending \<and> flt r \<and>
      \<not> call_locked call r) tbl)))"
    unfolding pending_query.taken_def using assms(3) by (intro length_selected) simp
  show "sorted (map (\<lambda>r. CreatedAt (row_event r)) ?sel)"
    unfolding pending_query.taken_def by (rule sorted_selected)
qed (use pending_query.takenD pending_query.claim_oldest in blast)+

theorem ListPending_claims_oldest_witness:
  "\<exists>sel. table_wf plain_repo [sample_row 1] \<and>
     ListPending plain_repo (calm_call 200) 5 [sample_row 1] =
       Inr (map (\<lambda>r. row_event (claim_row 200 r)) sel,
            map (\<lambda>r. if r \<in> set sel then claim_row 200 r else r) [sample_row 1]) \<and>
     int (length sel) = 1"
proof -
  have wf: "table_wf plain_repo [sample_row 1]" by (rule reachable_wf [OF sample_reachable])
  have "length (filter (\<lambda>r. Status (row_event r) = StatusPending \<and> True \<and> \<not> call_locked (calm_call 200) r)
      [sample_row 1]) = 1"
    by (simp add: sample_row_def sample_event_def)
  then have one: "min 5 (int (length (filter (\<lambda>r. Status (row_event r) = StatusPending \<and> True \<and>
      \<not> call_locked (calm_call 200) r) [sample_row 1]))) = 1" by simp
  have "0 < (5 :: int)" by simp
  from ListPending_claims_oldest [OF wf tx_ok_plain this, of 200] show ?thesis
    unfolding one calm_call_simps(2) using wf by blast
qed

text \<open>
  C15. Two dispatchers never claim the same pending event: after one \<open>ListPending\<close> of a tenant has
  committed, the events that another one of the same tenant returns, in any surroundings and with
  any limit, are different ones.
\<close>

theorem pending_claims_disjoint:
  assumes "table_wf repo tbl" and "tx_ok repo call flt" and "tx_ok repo call' flt"
    and "0 < limit" and "0 < limit'"
    and "ListPending repo call limit tbl = Inr (es, tbl1)"
    and "ListPending repo call' limit' tbl1 = Inr (es', tbl2)"
  shows "set (map ID es) \<inter> set (map ID es') = {}"
proof -
  let ?sel = "pending_query.taken call flt limit tbl"
  have first: "es = map (\<lambda>r. claimed (call_now call) (row_event r)) ?sel"
      "tbl1 = map (\<lambda>r. if r \<in> set ?sel then claim_row (call_now call) r else r) tbl"
    using assms(6) ListPending_eq [OF assms(1,2,4)] by auto
  have wf1: "table_wf repo tbl1" using outbox_step_wf [OF pending_step [OF assms(6)] assms(1)] by blast
  let ?sel' = "pending_query.taken call' flt limit' tbl1"
  have second: "es' = map (\<lambda>r. claimed (call_now call') (row_event r)) ?sel'"
    using assms(7) ListPending_eq [OF wf1 assms(3,5)] by auto
  obtain t where t: "tenantFilterClause repo t = Inr flt" using assms(2) by (rule tx_okE)
  have keys: "keys_distinct repo tbl" using assms(1) by (simp add: table_wf_def)
  have "row_id a \<noteq> row_id b" if a: "a \<in> set ?sel" and b: "b \<in> set ?sel'" for a b
  proof
    assume same: "row_id a = row_id b"
    have b': "b \<in> set tbl1" "Status (row_event b) = StatusPending" "flt b"
      using pending_query.takenD [OF b] by auto
    then have "b \<in> set tbl" "b \<notin> set ?sel"
      using first(2) by (auto simp: claim_row_def claimed_def split: if_splits)
    moreover have "a \<in> set tbl" "flt a" using pending_query.takenD [OF a] by auto
    ultimately have "a = b"
      using tenantFilterClause_inj [OF t _ b'(3) same] distinct_keysD [OF keys] by blast
    then show False using a \<open>b \<notin> set ?sel\<close> by simp
  qed
  then show ?thesis unfolding first(1) second by (auto simp: claimed_def)
qed

text \<open>Two pending events and a limit of one: each of the two calls claims one of them.\<close>

lemma sample_pair_wf: "table_wf plain_repo [sample_row 1, sample_row 2]"
  by (simp add: table_wf_def row_key_def sample_row_def sample_event_def event_ok_def last_error_wf_def)

lemmas claim_evaluation =
  ListPending_def claim_events_def listPendingRows_def sql_select_def collectEventIDs_def
  markEventsProcessing_def markEventsWithStatus_def update_exactly_def tenantFilterClause_def
  sql_update_def ensureRowsAffectedExact_def applyProcessingState_def

lemma first_of_pair:
  "ListPending plain_repo (calm_call 200) 1 [sample_row 1, sample_row 2] =
     Inr ([row_event (processing_row 1)], [processing_row 1, sample_row 2])"
  by (simp add: claim_evaluation processing_row_def sample_event_def sample_row_def)

lemma second_of_pair:
  "ListPending plain_repo (calm_call 250) 1 [processing_row 1, sample_row 2] =
     Inr ([(sample_event 2)\<lparr>Status := StatusProcessing, UpdatedAt := 250\<rparr>],
          [processing_row 1, (sample_row 2)\<lparr>row_event := (sample_event 2)\<lparr>Status := StatusProcessing, UpdatedAt := 250\<rparr>\<rparr>])"
  by (simp add: claim_evaluation processing_row_def sample_event_def sample_row_def)

theorem pending_claims_disjoint_witness:
  "\<exists>es es' tbl1 tbl2.
     ListPending plain_repo (calm_call 200) 1 [sample_row 1, sample_row 2] = Inr (es, tbl1) \<and>
     ListPending plain_repo (calm_call 250) 1 tbl1 = Inr (es', tbl2) \<and>
     map ID es = [1] \<and> map ID es' = [2] \<and> set (map ID es) \<inter> set (map ID es') = {}"
proof (intro exI conjI)
  show "set (map ID [row_event (processing_row 1)]) \<inter>
      set (map ID [(sample_event 2)\<lparr>Status := StatusProcessing, UpdatedAt := 250\<rparr>]) = {}"
    by (rule pending_claims_disjoint [OF sample_pair_wf tx_ok_plain tx_ok_plain _ _ first_of_pair second_of_pair]) simp_all
qed (rule first_of_pair, rule second_of_pair, simp_all add: processing_row_def sample_event_def)


subsection \<open>Reclaims\<close>

abbreviation exhausted :: "int \<Rightarrow> outbox_event \<Rightarrow> bool" where
  "exhausted maxAttempts e \<equiv> maxAttempts \<le> Attempts e + 1"

definition reclaimed :: "time \<Rightarrow> int \<Rightarrow> outbox_event \<Rightarrow> outbox_event" where
  "reclaimed now maxAttempts e =
     (if exhausted maxAttempts e
      then e\<lparr>LastError := AppendErrorCause (LastError e) StuckInProcessingCause,
             Attempts := Attempts e + 1, Status := StatusInvalid, UpdatedAt := now\<rparr>
      else e\<lparr>Attempts := Attempts e + 1, Status := StatusProcessing, UpdatedAt := now\<rparr>)"

lemma reclaim_retry_eq:
  assumes "keys_distinct repo tbl" and "tenantFilterClause repo t = Inr flt"
    and "distinct rows" and "set rows \<subseteq> set tbl"
    and "\<And>r. r \<in> set rows \<Longrightarrow> Status (row_event r) = StatusProcessing \<and> flt r \<and> row_id r \<noteq> 0 \<and>
      Attempts (row_event r) + 1 \<le> max_int32 \<and> \<not> exhausted m (row_event r)"
  shows "reclaim_retry repo now t (map row_event rows) tbl =
    Inr (map (\<lambda>r. reclaimed now m (row_event r)) rows,
         map (\<lambda>r. if r \<in> set rows then r\<lparr>row_event := reclaimed now m (row_event r)\<rparr> else r) tbl)"
proof -
  have ids: "collectEventIDs (map row_event rows) = map row_id rows"
    using assms(5) by (intro collectEventIDs_rows) blast
  have f: "stuck_reprocessing now (row_event r) = Some (reclaimed now m (row_event r))" if "r \<in> set rows" for r
    using assms(5) [OF that] by (simp add: stuck_reprocessing_def one_more_attempt_def reclaimed_def)
  have upd: "update_exactly repo (map row_id rows) t StatusProcessing (stuck_reprocessing now) tbl =
      Inr (map (on_rows (\<lambda>r. r \<in> set rows) (stuck_reprocessing now)) tbl)"
    by (rule update_exactly_selected [OF assms(1-4)]) (use assms(5) f in auto)
  have rows: "map (on_rows (\<lambda>r. r \<in> set rows) (stuck_reprocessing now)) tbl =
      map (\<lambda>r. if r \<in> set rows then r\<lparr>row_event := reclaimed now m (row_event r)\<rparr> else r) tbl"
    using f by (auto simp: on_rows_def)
  have mirror: "applyStuckReprocessingState (map row_event rows) now =
      map (\<lambda>r. reclaimed now m (row_event r)) rows"
    using assms(5) by (simp add: applyStuckReprocessingState_def reclaimed_def)
  show ?thesis
    unfolding reclaim_retry_def Let_def ids markStuckEventsReprocessing_def
    using upd rows mirror by auto
qed

lemma reclaim_exhausted_eq:
  assumes "keys_distinct repo tbl" and "tenantFilterClause repo t = Inr flt"
    and "distinct rows" and "set rows \<subseteq> set tbl"
    and "\<And>r. r \<in> set rows \<Longrightarrow> Status (row_event r) = StatusProcessing \<and> flt r \<and> row_id r \<noteq> 0 \<and>
      Attempts (row_event r) + 1 \<le> max_int32 \<and> exhausted m (row_event r) \<and>
      last_error_wf (LastError (row_event r))"
  shows "reclaim_exhausted repo now t (map row_event rows) tbl =
    Inr (map (\<lambda>r. reclaimed now m (row_event r)) rows,
         map (\<lambda>r. if r \<in> set rows then r\<lparr>row_event := reclaimed now m (row_event r)\<rparr> else r) tbl)"
proof -
  have ids: "collectEventIDs (map row_event rows) = map row_id rows"
    using assms(5) by (intro collectEventIDs_rows) blast
  have f: "stuck_invalid now (row_event r) = Some (reclaimed now m (row_event r))" if "r \<in> set rows" for r
    using assms(5) [OF that] by (simp add: stuck_invalid_eq reclaimed_def)
  have upd: "update_exactly repo (map row_id rows) t StatusProcessing (stuck_invalid now) tbl =
      Inr (map (on_rows (\<lambda>r. r \<in> set rows) (stuck_invalid now)) tbl)"
    by (rule update_exactly_selected [OF assms(1-4)]) (use assms(5) f in auto)
  have rows: "map (on_rows (\<lambda>r. r \<in> set rows) (stuck_invalid now)) tbl =
      map (\<lambda>r. if r \<in> set rows then r\<lparr>row_event := reclaimed now m (row_event r)\<rparr> else r) tbl"
    using f by (auto simp: on_rows_def)
  have mirror: "applyStuckInvalidState (map row_event rows) now =
      map (\<lambda>r. reclaimed now m (row_event r)) rows"
    using assms(5) by (simp add: applyStuckInvalidState_def reclaimed_def)
  show ?thesis
    unfolding reclaim_exhausted_def Let_def ids markStuckEventsInvalid_def
    using upd rows mirror by auto
qed


lemma reclaimed_key: "row_key repo (r\<lparr>row_event := reclaimed now m (row_event r)\<rparr>) = row_key repo r"
  by (simp add: row_key_def reclaimed_def)

text \<open>Updating disjoint sets of rows one after the other updates their union.\<close>

lemma two_row_updates:
  assumes keys: "keys_distinct repo tbl" and sub: "set B \<subseteq> set tbl" and disj: "set A \<inter> set B = {}"
    and key: "\<And>r. row_key repo (u r) = row_key repo r"
  shows "map (\<lambda>r. if r \<in> set B then u r else r) (map (\<lambda>r. if r \<in> set A then u r else r) tbl) =
    map (\<lambda>r. if r \<in> set A \<union> set B then u r else r) tbl"
proof -
  have "u r \<notin> set B" if "r \<in> set tbl" "r \<in> set A" for r
  proof
    assume "u r \<in> set B"
    then have "u r = r" using distinct_keysD [OF keys _ that(1) key] sub by blast
    then show False using that(2) \<open>u r \<in> set B\<close> disj by auto
  qed
  then show ?thesis using disj by auto
qed

lemma reclaim_body_eq:
  assumes wf: "table_wf repo tbl" and ok: "tx_ok repo call flt"
    and room: "\<And>r. r \<in> set tbl \<Longrightarrow> Attempts (row_event r) + 1 \<le> max_int32"
    and sel: "sel = selected (\<lambda>r. Status (row_event r) = StatusProcessing \<and> UpdatedAt (row_event r) \<le> before \<and>
      flt r \<and> \<not> call_locked call r) (\<lambda>r. UpdatedAt (row_event r)) limit tbl"
  shows "reclaim_body repo call limit before m tbl =
    Inr ((map (reclaimed (call_now call) m) (filter (\<lambda>e. \<not> exhausted m e) (map row_event sel)),
          map (reclaimed (call_now call) m) (filter (exhausted m) (map row_event sel))),
         map (\<lambda>r. if r \<in> set sel then r\<lparr>row_event := reclaimed (call_now call) m (row_event r)\<rparr> else r) tbl)"
proof -
  let ?now = "call_now call" and ?u = "\<lambda>r. r\<lparr>row_event := reclaimed (call_now call) m (row_event r)\<rparr>"
  let ?R = "filter (\<lambda>r. \<not> exhausted m (row_event r)) sel" and ?E = "filter (\<lambda>r. exhausted m (row_event r)) sel"
  let ?tbl1 = "map (\<lambda>r. if r \<in> set ?R then ?u r else r) tbl"
  obtain t where t: "tenantIDFromContext repo (call_ctx call) = Inr t" "tenant_scope repo call = Inr flt"
      "tenantFilterClause repo t = Inr flt"
    using ok by (rule tx_okE)
  have keys: "keys_distinct repo tbl" using wf by (simp add: table_wf_def)
  have dist: "distinct sel" unfolding sel using keys by (intro distinct_selected) (simp add: distinct_map)
  have row: "r \<in> set tbl \<and> Status (row_event r) = StatusProcessing \<and> flt r \<and> row_id r \<noteq> 0 \<and>
      Attempts (row_event r) + 1 \<le> max_int32 \<and> last_error_wf (LastError (row_event r))" if "r \<in> set sel" for r
  proof -
    have r: "r \<in> set tbl" "Status (row_event r) = StatusProcessing" "flt r"
      using that selected_subset unfolding sel by blast+
    then have "event_ok (row_event r)" using wf by (simp add: table_wf_def)
    then show ?thesis using r room event_ok_processing_wf by (auto simp: event_ok_def)
  qed
  have split: "splitStuckEvents (map row_event sel) m = (map row_event ?R, map row_event ?E)"
    using row by (auto simp: splitStuckEvents_def filter_map comp_def intro!: map_cong filter_cong)
  have first: "reclaim_retry repo ?now t (map row_event ?R) tbl =
      Inr (map (\<lambda>r. reclaimed ?now m (row_event r)) ?R, ?tbl1)"
    by (rule reclaim_retry_eq [OF keys t(3)]) (use dist row in auto)
  have keys1: "keys_distinct repo ?tbl1"
  proof -
    have "map (row_key repo) ?tbl1 = map (row_key repo) tbl" by (simp add: reclaimed_key)
    then show ?thesis using keys by (simp only:)
  qed
  have sub1: "set ?E \<subseteq> set ?tbl1" using row by auto
  have second: "reclaim_exhausted repo ?now t (map row_event ?E) ?tbl1 =
      Inr (map (\<lambda>r. reclaimed ?now m (row_event r)) ?E, map (\<lambda>r. if r \<in> set ?E then ?u r else r) ?tbl1)"
    by (rule reclaim_exhausted_eq [OF keys1 t(3) _ sub1]) (use dist row in auto)
  have both: "map (\<lambda>r. if r \<in> set ?E then ?u r else r) ?tbl1 = map (\<lambda>r. if r \<in> set sel then ?u r else r) tbl"
  proof -
    have union: "set ?R \<union> set ?E = set sel" by auto
    have "set ?E \<subseteq> set tbl" using row by auto
    moreover have "set ?R \<inter> set ?E = {}" by auto
    ultimately show ?thesis
      unfolding union [symmetric] by (rule two_row_updates [OF keys]) (rule reclaimed_key)
  qed
  have "listStuckProcessingRows repo call limit before tbl = Inr (map row_event sel)"
    by (simp add: listStuckProcessingRows_def t(2) sql_select_selected sel)
  then show ?thesis
    using t(1) split first second both
    by (simp add: reclaim_body_def Let_def filter_map comp_def)
qed


text \<open>
  A reclaim hands back exactly what it stored. On a table that keeps the invariant
  \<open>ReclaimStuckProcessing\<close> succeeds; it picks at most \<open>limit\<close> unlocked rows of the tenant that
  have been \<open>PROCESSING\<close> since before the cutoff; those with attempts left stay \<open>PROCESSING\<close>
  with one attempt more, the others become \<open>INVALID\<close> with the abandonment appended to the causes
  they already carried; no other row changes; and the two lists it returns are the stored events,
  although the in-memory copies are computed by different code than the SQL.
\<close>

theorem ReclaimStuckProcessing_mirrors:
  assumes "table_wf repo tbl" and "tx_ok repo call flt" and "0 < limit" and "0 < maxAttempts"
    and "\<And>r. r \<in> set tbl \<Longrightarrow> Attempts (row_event r) + 1 \<le> max_int32"
  shows "\<exists>sel.
    ReclaimStuckProcessing repo call limit before maxAttempts tbl =
      Inr ((map (reclaimed (call_now call) maxAttempts)
              (filter (\<lambda>e. \<not> exhausted maxAttempts e) (map row_event sel)),
            map (reclaimed (call_now call) maxAttempts)
              (filter (exhausted maxAttempts) (map row_event sel))),
           map (\<lambda>r. if r \<in> set sel
                    then r\<lparr>row_event := reclaimed (call_now call) maxAttempts (row_event r)\<rparr> else r) tbl) \<and>
    distinct sel \<and> int (length sel) \<le> limit \<and>
    (\<forall>r \<in> set sel. r \<in> set tbl \<and> Status (row_event r) = StatusProcessing \<and>
       UpdatedAt (row_event r) \<le> before \<and> flt r \<and> \<not> call_locked call r)"
proof -
  let ?sel = "selected (\<lambda>r. Status (row_event r) = StatusProcessing \<and> UpdatedAt (row_event r) \<le> before \<and>
      flt r \<and> \<not> call_locked call r) (\<lambda>r. UpdatedAt (row_event r)) limit tbl"
  have "repo_initialized repo" "call_tableMissing call = Inr False"
    using assms(2) by (auto elim: tx_okE)
  then have "ReclaimStuckProcessing repo call limit before maxAttempts tbl =
      reclaim_body repo call limit before maxAttempts tbl"
    using assms(3,4)
    by (simp add: ReclaimStuckProcessing_def unless_missing_def tx_ok_run [OF assms(2)])
  note eq = trans [OF this reclaim_body_eq [OF assms(1,2,5) refl]]
  have "distinct ?sel"
    using assms(1) by (intro distinct_selected) (simp add: table_wf_def distinct_map)
  moreover have "int (length ?sel) \<le> limit" using assms(3) by (simp add: length_selected)
  moreover have "\<forall>r \<in> set ?sel. r \<in> set tbl \<and> Status (row_event r) = StatusProcessing \<and>
       UpdatedAt (row_event r) \<le> before \<and> flt r \<and> \<not> call_locked call r"
    by (auto dest: selected_subset)
  ultimately show ?thesis using eq by blast
qed

theorem ReclaimStuckProcessing_mirrors_witness:
  "\<exists>sel. table_wf plain_repo [processing_row 1] \<and>
    ReclaimStuckProcessing plain_repo (calm_call 900) 10 500 3 [processing_row 1] =
      Inr ((map (reclaimed 900 3) (filter (\<lambda>e. \<not> exhausted 3 e) (map row_event sel)),
            map (reclaimed 900 3) (filter (exhausted 3) (map row_event sel))),
           map (\<lambda>r. if r \<in> set sel then r\<lparr>row_event := reclaimed 900 3 (row_event r)\<rparr> else r)
             [processing_row 1])"
proof -
  have "Attempts (row_event r) + 1 \<le> max_int32" if "r \<in> set [processing_row 1]" for r
    using that by (simp add: processing_row_def sample_event_def max_int32_def)
  moreover have "0 < (10 :: int)" "0 < (3 :: int)" by simp_all
  ultimately show ?thesis
    using ReclaimStuckProcessing_mirrors [OF processing_row_wf tx_ok_plain, where limit = 10
        and maxAttempts = 3 and before = 500 and now1 = 900, unfolded calm_call_simps(2)]
      processing_row_wf by blast
qed

subsection \<open>Retention\<close>

lemma agedClause_iff:
  "agedClause status before kept r \<longleftrightarrow> Status (row_event r) = status \<and> UpdatedAt (row_event r) < before \<and>
     EventType (row_event r) \<notin> set (normalizeEventTypes kept)"
  by (cases "normalizeEventTypes kept = []") (simp_all add: agedClause_def)

text \<open>
  Retention deletes only what is due. A purge that deletes something removed at most
  \<open>limit\<close> rows, and the count it reports is the number of rows gone; every row gone had the
  purged status, was last touched before the cutoff, belonged to the tenant of the call and was of
  no kept type; rows of the same kind that stay are not older than rows that went; and all other
  rows are as they were.
\<close>

theorem purge_deletes_only_due:
  assumes "table_wf repo tbl" and "deleteAgedBefore repo call status before kept limit tbl = Inr (n, tbl')"
  shows "n = 0 \<and> tbl' = tbl \<or>
    (\<exists>flt gone. tenant_scope repo call = Inr flt \<and> tbl' = filter (\<lambda>r. r \<notin> set gone) tbl \<and>
       length gone = n \<and> int n \<le> limit \<and> distinct gone \<and>
       (\<forall>r \<in> set gone. r \<in> set tbl \<and> flt r \<and> Status (row_event r) = status \<and>
          UpdatedAt (row_event r) < before \<and> EventType (row_event r) \<notin> set (normalizeEventTypes kept)) \<and>
       (\<forall>r \<in> set gone. \<forall>r' \<in> set tbl'. agedClause status before kept r' \<longrightarrow> flt r' \<longrightarrow>
          UpdatedAt (row_event r) \<le> UpdatedAt (row_event r')))"
proof -
  have keys: "keys_distinct repo tbl" using assms(1) by (simp add: table_wf_def)
  from deleteAgedBefore_Inr [OF keys assms(2)] show ?thesis
  proof (elim disjE exE conjE)
    assume "n = 0" "tbl' = tbl"
    then show ?thesis by simp
  next
    fix flt sel
    assume flt: "tenant_scope repo call = Inr flt" "0 < limit"
      and sel: "sel = selected (\<lambda>r. agedClause status before kept r \<and> flt r)
          (\<lambda>r. (UpdatedAt (row_event r), row_id r)) limit tbl"
      and n: "n = length sel" and tbl': "tbl' = filter (\<lambda>r. r \<notin> set sel) tbl"
    have aged: "r \<in> set tbl \<and> agedClause status before kept r \<and> flt r" if "r \<in> set sel" for r
      using that selected_subset unfolding sel by blast
    have "int n \<le> limit" using flt(2) unfolding n sel by (simp add: length_selected)
    moreover have "distinct sel"
      unfolding sel using keys by (intro distinct_selected) (simp add: distinct_map)
    moreover have "UpdatedAt (row_event r) \<le> UpdatedAt (row_event r')"
      if "r \<in> set sel" "r' \<in> set tbl'" "agedClause status before kept r'" "flt r'" for r r'
      using selected_oldest [of r "\<lambda>r. agedClause status before kept r \<and> flt r"
          "\<lambda>r. (UpdatedAt (row_event r), row_id r)" limit tbl r'] that
      unfolding tbl' sel by auto
    moreover have "\<forall>r \<in> set sel. r \<in> set tbl \<and> flt r \<and> Status (row_event r) = status \<and>
        UpdatedAt (row_event r) < before \<and> EventType (row_event r) \<notin> set (normalizeEventTypes kept)"
      using aged agedClause_iff by blast
    ultimately show ?thesis using flt(1) n tbl' by blast
  qed
qed


definition published_row :: "uuid \<Rightarrow> time \<Rightarrow> pg_row" where
  "published_row i at =
     \<lparr>row_tenant = [], row_event = (sample_event i)
        \<lparr>Status := StatusPublished, PublishedAt := Some at, UpdatedAt := at\<rparr>\<rparr>"

lemma purge_sample:
  "deleteAgedBefore plain_repo (calm_call 900) StatusPublished 500 [] 10
     [published_row 1 300, published_row 2 700] = Inr (1, [published_row 2 700])"
  by (simp add: deleteAgedBefore_def sql_select_def agedClause_def normalizeEventTypes_def
      published_row_def sample_event_def Let_def)

theorem purge_deletes_only_due_witness:
  "table_wf plain_repo [published_row 1 300, published_row 2 700] \<and>
   (\<exists>gone. [published_row 2 700] =
      filter (\<lambda>r. r \<notin> set gone) [published_row 1 300, published_row 2 700] \<and> length gone = 1)"
proof -
  have wf: "table_wf plain_repo [published_row 1 300, published_row 2 700]"
    by (simp add: table_wf_def published_row_def sample_event_def event_ok_def last_error_wf_def
        row_key_def)
  have ne: "(1 :: nat) \<noteq> 0" by simp
  show ?thesis
    using purge_deletes_only_due [OF wf purge_sample] wf ne by blast
qed

subsection \<open>Idempotent creation\<close>

text \<open>
  Creation by content is idempotent. When a row of the event's id is visible to the tenant,
  \<open>CreateIdempotentWithTx\<close> writes nothing: it returns the stored event, with whatever status and
  attempts it has reached, if type, aggregate and payload agree, and the replay conflict otherwise.
  When none is visible the event is appended as a new \<open>PENDING\<close> row.
\<close>

theorem CreateIdempotent_replay_is_inert:
  assumes "table_wf repo tbl" and "tx_ok repo call flt"
    and "validateCreateEvent (Some ev) = Inr ()" and "call_jsonb call (Payload ev) = Some p"
    and "utf8_length (trim_space (EventType ev)) \<le> 255"
  shows "(\<forall>r \<in> set tbl. row_id r = ID ev \<longrightarrow> flt r \<longrightarrow>
      CreateIdempotentWithTx repo call tx (Some ev) tbl =
        (if EventType (row_event r) = trim_space (EventType ev) \<and>
            AggregateID (row_event r) = AggregateID ev \<and> Payload (row_event r) = p
         then Inr (row_event r, tbl) else Inl ErrReplayConflict)) \<and>
    ((\<forall>r \<in> set tbl. row_id r = ID ev \<longrightarrow> \<not> flt r) \<longrightarrow>
      (\<exists>new. CreateIdempotentWithTx repo call tx (Some ev) tbl = Inr (row_event new, tbl @ [new]) \<and>
         row_id new = ID ev \<and> fresh_event (row_event new)))"
proof -
  obtain t where t: "repo_initialized repo" "tenantIDFromContext repo (call_ctx call) = Inr t"
      "tenantFilterClause repo t = Inr flt"
    using assms(2) by (rule tx_okE)
  obtain v where v: "normalizedCreateValues (Some ev) (call_now call) = Inr v"
      "ID v = ID ev" "EventType v = trim_space (EventType ev)" "AggregateID v = AggregateID ev"
      "Payload v = Payload ev"
    by (simp add: normalizedCreateValues_def Let_def)
  let ?t = "if repo_tenantColumn repo \<noteq> [] then t else []"
  let ?new = "\<lparr>row_tenant = ?t, row_event = v\<lparr>Payload := p\<rparr>\<rparr>"
  have st: "to_jsonb call v = Inr (v\<lparr>Payload := p\<rparr>)" using v(5) assms(4) by (simp add: to_jsonb_def)
  have run: "CreateIdempotentWithTx repo call tx (Some ev) tbl =
      bind_res (sql_upsert repo ?new tbl) (\<lambda>(returned, tbl').
        case returned of None \<Rightarrow> Inl ErrReplayConflict | Some e \<Rightarrow> Inr (e, tbl'))"
    using t(1,2) assms(3) v(1) st
    by (simp add: CreateIdempotentWithTx_def tx_ok_run [OF assms(2)] insert_tenant_def)
  have same: "same_key repo ?new r \<longleftrightarrow> row_id r = ID ev \<and> flt r" for r
    using t(3) v(2) by (auto simp: same_key_def tenantFilterClause_def split: if_splits)
  have keys: "keys_distinct repo tbl" using assms(1) by (simp add: table_wf_def)
  have found: "find (same_key repo ?new) tbl = Some r"
    if r: "r \<in> set tbl" "row_id r = ID ev" "flt r" for r
  proof (cases "find (same_key repo ?new) tbl")
    case None
    then show ?thesis using r same by (auto simp: find_None_iff)
  next
    case (Some r')
    then have r': "r' \<in> set tbl" "same_key repo ?new r'" by (auto simp: find_Some_iff)
    then have "r' = r"
      using distinct_keysD [OF keys r'(1) r(1)] tenantFilterClause_inj [OF t(3), of r' r] same r by simp
    then show ?thesis using Some by simp
  qed
  have missing: "find (same_key repo ?new) tbl = None"
    if "\<forall>r \<in> set tbl. row_id r = ID ev \<longrightarrow> \<not> flt r"
    using that same by (auto simp: find_None_iff)
  have width: "\<not> 255 < utf8_length (EventType (row_event ?new))" using assms(5) v(3) by simp
  have "fresh_event (v\<lparr>Payload := p\<rparr>)" by (rule created_event_ok [OF assms(3) v(1) st])
  then show ?thesis
    unfolding run sql_upsert_def using found missing width v
    by (auto intro!: exI [of _ ?new])
qed


theorem CreateIdempotent_replay_is_inert_witness:
  "table_wf plain_repo [processing_row 1] \<and>
   CreateIdempotentWithTx plain_repo (calm_call 900) True (Some (sample_event 1)) [processing_row 1] =
     Inr (row_event (processing_row 1), [processing_row 1])"
proof -
  have ok: "validateCreateEvent (Some (sample_event 1)) = Inr ()"
    by (simp add: validateCreateEvent_def sample_event_def DefaultMaxPayloadBytes_def)
  have p: "call_jsonb (calm_call 900) (Payload (sample_event 1)) = Some ''{}''"
    by (simp add: sample_event_def)
  have w: "utf8_length (trim_space (EventType (sample_event 1))) \<le> 255"
    by (simp add: sample_event_def utf8_length_def)
  show ?thesis
    using CreateIdempotent_replay_is_inert [OF processing_row_wf tx_ok_plain ok p w] processing_row_wf
    by (simp add: processing_row_def sample_event_def)
qed

subsection \<open>Tenant isolation\<close>

abbreviation other_rows :: "string \<Rightarrow> outbox_table \<Rightarrow> outbox_table" where
  "other_rows t tbl \<equiv> filter (\<lambda>r. row_tenant r \<noteq> t) tbl"

lemma other_rows_on_rows:
  assumes "\<And>r. P r \<Longrightarrow> row_tenant r = t"
  shows "other_rows t (map (on_rows P f) tbl) = other_rows t tbl"
proof (induction tbl)
  case (Cons r tbl)
  have "row_tenant (on_rows P f r) = row_tenant r" by (simp add: on_rows_def split: option.splits)
  moreover have "row_tenant r \<noteq> t \<Longrightarrow> on_rows P f r = r" using assms by (auto simp: on_rows_def)
  ultimately show ?case using Cons.IH by auto
qed simp

text \<open>A call for tenant \<open>t\<close> of a repository in column-per-tenant mode.\<close>

definition column_scoped :: "repository \<Rightarrow> pg_call \<Rightarrow> string \<Rightarrow> bool" where
  "column_scoped repo call t \<longleftrightarrow>
     repo_tenantColumn repo \<noteq> [] \<and> tenantIDFromContext repo (call_ctx call) = Inr t"

lemma column_filterD:
  "column_scoped repo call t \<Longrightarrow> tenantFilterClause repo t = Inr flt \<Longrightarrow> flt r \<Longrightarrow> row_tenant r = t"
  by (auto simp: column_scoped_def tenantFilterClause_def split: if_splits)

lemma column_scopeD:
  "column_scoped repo call t \<Longrightarrow> tenant_scope repo call = Inr flt \<Longrightarrow> flt r \<Longrightarrow> row_tenant r = t"
  using column_filterD by (auto simp: column_scoped_def tenant_scope_def)

lemma column_insert_tenant:
  "column_scoped repo call t \<Longrightarrow> insert_tenant repo call = Inr t' \<Longrightarrow> t' = t"
  by (simp add: column_scoped_def insert_tenant_def)

lemma update_exactly_isolated:
  assumes "column_scoped repo call t" and "update_exactly repo ids t origin f tbl = Inr tbl'"
  shows "other_rows t tbl' = other_rows t tbl"
proof -
  obtain flt where flt: "tenantFilterClause repo t = Inr flt"
      "tbl' = map (on_rows (\<lambda>r. row_id r \<in> set ids \<and> Status (row_event r) = origin \<and> flt r) f) tbl"
    using update_exactly_Inr [OF assms(2)] by blast
  show ?thesis
    unfolding flt(2) by (rule other_rows_on_rows) (use column_filterD [OF assms(1) flt(1)] in blast)
qed

lemma mark_isolated:
  assumes "column_scoped repo call t"
    and "withTenantTxOrExisting repo call False (update_processing repo call ident f) tbl = Inr (u, tbl')"
  shows "other_rows t tbl' = other_rows t tbl"
  using withTenantTx_Inr [OF assms(2)]
  by (auto simp: update_processing_def bind_res_eq_Inr sql_update_eq_Inr
      intro!: other_rows_on_rows dest: column_scopeD [OF assms(1)])

lemma claim_isolated:
  assumes "column_scoped repo call t" and "unless_missing call [] tbl
    (withTenantTxOrExisting repo call False (claim_events repo call origin select) tbl) = Inr (es, tbl')"
  shows "other_rows t tbl' = other_rows t tbl"
proof -
  have "other_rows t tbl' = other_rows t tbl" if "claim_events repo call origin select tbl = Inr (es, tbl')"
    using that assms(1)
    by (auto simp: claim_events_def bind_res_eq_Inr Let_def markEventsProcessing_def column_scoped_def
        markEventsWithStatus_def split: if_splits dest: update_exactly_isolated [OF assms(1)])
  then show ?thesis using unless_missing_Inr [OF assms(2)] withTenantTx_Inr by metis
qed

lemma reclaim_isolated:
  assumes "column_scoped repo call t" and "reclaim_body repo call limit before m tbl = Inr (res, tbl')"
  shows "other_rows t tbl' = other_rows t tbl"
proof -
  obtain events where ev: "listStuckProcessingRows repo call limit before tbl = Inr events"
    using assms(2) by (auto simp: reclaim_body_def bind_res_eq_Inr)
  obtain retry gone where sp: "splitStuckEvents events m = (retry, gone)" by fastforce
  obtain a b tbl1 where "reclaim_retry repo (call_now call) t retry tbl = Inr (a, tbl1)"
      "reclaim_exhausted repo (call_now call) t gone tbl1 = Inr (b, tbl')"
    using assms ev sp by (auto simp: reclaim_body_def bind_res_eq_Inr Let_def column_scoped_def)
  then show ?thesis
    by (auto simp: reclaim_retry_def reclaim_exhausted_def Let_def bind_res_eq_Inr
        markStuckEventsReprocessing_def markStuckEventsInvalid_def
        split: if_splits dest!: update_exactly_isolated [OF assms(1)])
qed

lemma create_isolated:
  assumes "column_scoped repo call t" and "create repo call ex event tbl = Inr (e, tbl')"
  shows "other_rows t tbl' = other_rows t tbl"
  using assms(2)
  by (auto simp: create_def bind_res_eq_Inr simp del: sql_insert.simps
      dest!: withTenantTx_Inr column_insert_tenant [OF assms(1)] sql_insert_Inr)

lemma idempotent_isolated:
  assumes "column_scoped repo call t" and "CreateIdempotentWithTx repo call tx event tbl = Inr (e, tbl')"
  shows "other_rows t tbl' = other_rows t tbl"
proof -
  obtain st res where "sql_upsert repo \<lparr>row_tenant = t, row_event = st\<rparr> tbl = Inr (res, tbl')"
    using assms(2)
    by (auto simp: CreateIdempotentWithTx_def bind_res_eq_Inr split: option.splits
        dest!: withTenantTx_Inr column_insert_tenant [OF assms(1)])
  then have "tbl' = tbl \<or> tbl' = tbl @ [\<lparr>row_tenant = t, row_event = st\<rparr>]"
    by (auto simp: sql_upsert_def split: if_splits option.splits)
  then show ?thesis by auto
qed

lemma batch_isolated:
  assumes "column_scoped repo call t" and "CreateManyWithTx repo call tx events tbl = Inr (es, tbl')"
  shows "other_rows t tbl' = other_rows t tbl"
  using assms(2)
  by (auto simp: CreateManyWithTx_def bind_res_eq_Inr filter_empty_conv split: if_splits
      dest!: withTenantTx_Inr column_insert_tenant [OF assms(1)] sql_insert_Inr)

lemma purge_isolated:
  assumes "column_scoped repo call t"
    and "deleteAgedBefore repo call status before kept limit tbl = Inr (n, tbl')"
  shows "other_rows t tbl' = other_rows t tbl"
proof (cases "tbl' = tbl")
  case False
  then obtain flt S where flt: "tenant_scope repo call = Inr flt"
      "tbl' = filter (\<lambda>r. row_id r \<in> S \<longrightarrow> \<not> flt r) tbl"
    using assms(2)
    by (auto simp: deleteAgedBefore_def bind_res_eq_Inr Let_def
        split: if_splits dest!: withTenantTx_Inr unless_missing_Inr)
  show ?thesis
    unfolding flt(2) filter_filter
    by (rule filter_cong [OF refl]) (use column_scopeD [OF assms(1) flt(1)] in blast)
qed simp

text \<open>
  C19. Tenants sharing one table are isolated: in column-per-tenant mode, no successful operation
  called for a tenant creates, changes or deletes a row of any other tenant.
\<close>

theorem tenant_rows_isolated:
  assumes "repo_tenantColumn repo \<noteq> []" and "tenantIDFromContext repo (call_ctx call) = Inr t"
    and "outbox_step repo call tbl tbl'"
  shows "other_rows t tbl' = other_rows t tbl"
proof -
  have col: "column_scoped repo call t" using assms(1,2) by (simp add: column_scoped_def)
  note marks = mark_isolated [OF col] and claims = claim_isolated [OF col] and purges = purge_isolated [OF col]
  show ?thesis
    using assms(3)
  proof cases
    case create_step
    then show ?thesis by (rule create_isolated [OF col])
  next
    case idempotent_step
    then show ?thesis by (rule idempotent_isolated [OF col])
  next
    case batch_step
    then show ?thesis by (rule batch_isolated [OF col])
  next
    case pending_step
    then show ?thesis using claims by (auto simp: ListPending_def bind_res_eq_Inr)
  next
    case pending_type_step
    then show ?thesis using claims by (auto simp: ListPendingByType_def bind_res_eq_Inr Let_def)
  next
    case pending_types_step
    then show ?thesis using claims by (auto simp: ListPendingByTypes_def bind_res_eq_Inr Let_def)
  next
    case retry_step
    then show ?thesis using claims by (auto simp: ResetForRetry_def bind_res_eq_Inr)
  next
    case (reclaim_step limit before maxAttempts ess)
    then have "unless_missing call ([], []) tbl (withTenantTxOrExisting repo call False
        (reclaim_body repo call limit before maxAttempts) tbl) = Inr (ess, tbl')"
      by (auto simp: ReclaimStuckProcessing_def bind_res_eq_Inr)
    from unless_missing_Inr [OF this] show ?thesis
      using reclaim_isolated [OF col] withTenantTx_Inr by metis
  next
    case published_step
    then show ?thesis using marks by (auto simp: MarkPublished_def bind_res_eq_Inr)
  next
    case failed_step
    then show ?thesis using marks by (auto simp: MarkFailed_def bind_res_eq_Inr Let_def)
  next
    case invalid_step
    then show ?thesis using marks by (auto simp: MarkInvalid_def bind_res_eq_Inr Let_def)
  next
    case purge_published_step
    then show ?thesis using purges by (simp add: DeletePublishedBefore_def)
  next
    case purge_invalid_step
    then show ?thesis using purges by (simp add: DeleteInvalidBefore_def)
  qed
qed

text \<open>Two tenants in one table; the purge of the first leaves the second alone.\<close>

definition column_repo :: repository where
  "column_repo = \<lparr>repo_initialized = True, repo_tenantColumn = ''tenant_id'', repo_requireTenant = True\<rparr>"

definition acme_call :: "time \<Rightarrow> pg_call" where
  "acme_call now = (calm_call now)\<lparr>call_ctx := ContextWithTenantID background ''acme''\<rparr>"

lemma trim_acme [simp]: "trim_space ''acme'' = ''acme''"
  by (rule trim_space_id) (simp_all add: space_encodings_def)

lemma acme_tenant: "tenantIDFromContext column_repo (call_ctx (acme_call now)) = Inr ''acme''"
  by (simp add: tenantIDFromContext_def acme_call_def column_repo_def ContextWithTenantID_def
      TenantIDFromContext_def GetTenantIDContext_def background_def IsValidTenantID_def
      MaxTenantIDLength_def isTenantIDAlnum_def byte_def Let_def)

definition tenant_published :: "string \<Rightarrow> uuid \<Rightarrow> pg_row" where
  "tenant_published t i = (published_row i 300)\<lparr>row_tenant := t\<rparr>"

lemma acme_purge:
  "DeletePublishedBefore column_repo (acme_call 900) 500 [] 10
     [tenant_published ''acme'' 1, tenant_published ''beta'' 1] = Inr (1, [tenant_published ''beta'' 1])"
proof -
  have scope: "tenant_scope column_repo (acme_call 900) = Inr (\<lambda>r. row_tenant r = ''acme'')"
    using acme_tenant by (simp add: tenant_scope_def tenantFilterClause_def column_repo_def)
  have run: "withTenantTxOrExisting column_repo (acme_call 900) False fn tbl = fn tbl" for fn tbl
    using acme_tenant [of 900]
    by (cases "fn tbl") (simp_all add: withTenantTxOrExisting_def acme_call_def)
  have "repo_initialized column_repo" "call_tableMissing (acme_call 900) = Inr False"
    by (simp_all add: column_repo_def acme_call_def)
  then show ?thesis
    by (simp add: DeletePublishedBefore_def deleteAgedBefore_def run scope unless_missing_def
        sql_select_def agedClause_def normalizeEventTypes_def tenant_published_def published_row_def
        sample_event_def Let_def)
qed

theorem tenant_rows_isolated_witness:
  "outbox_step column_repo (acme_call 900) [tenant_published ''acme'' 1, tenant_published ''beta'' 1]
     [tenant_published ''beta'' 1] \<and>
   other_rows ''acme'' [tenant_published ''beta'' 1] =
     other_rows ''acme'' [tenant_published ''acme'' 1, tenant_published ''beta'' 1]"
proof -
  have "repo_tenantColumn column_repo \<noteq> []" by (simp add: column_repo_def)
  from tenant_rows_isolated [OF this acme_tenant purge_published_step [OF acme_purge]] show ?thesis
    using purge_published_step [OF acme_purge] by blast
qed

end
