(* ===== verification/Outbox_Config.thy ===== *)
theory Outbox_Config
  imports Outbox_Event
begin

text \<open>
  \<open>commons/outbox/config.go\<close>: the dispatcher's settings, their defaults, their repair and their
  validation, and the options that write them. Durations are nanoseconds. Callbacks, the retry
  classifier and the meter provider are not settings of the
  model; they are part of the dispatcher's surroundings.
\<close>

abbreviation second :: duration where "second \<equiv> 1000000000"

definition defaultDispatchInterval :: duration where "defaultDispatchInterval = 2 * second"
definition defaultColdDispatchInterval :: duration where "defaultColdDispatchInterval = 60 * second"
definition defaultBatchSize :: int where "defaultBatchSize = 50"
definition defaultPublishMaxAttempts :: int where "defaultPublishMaxAttempts = 3"
definition defaultPublishBackoff :: duration where "defaultPublishBackoff = 200000000"
definition defaultListPendingFailureThreshold :: int where "defaultListPendingFailureThreshold = 3"
definition defaultRetryWindow :: duration where "defaultRetryWindow = 300 * second"
definition defaultMaxDispatchAttempts :: int where "defaultMaxDispatchAttempts = 10"
definition defaultProcessingTimeout :: duration where "defaultProcessingTimeout = 600 * second"
definition defaultPriorityBudget :: int where "defaultPriorityBudget = 10"
definition defaultMaxFailedPerBatch :: int where "defaultMaxFailedPerBatch = 25"
definition defaultMaxTenantMetricDimensions :: int where "defaultMaxTenantMetricDimensions = 1000"
definition defaultMaxTrackedFailureTenants :: int where "defaultMaxTrackedFailureTenants = 4096"
definition defaultTenantFailureCounterFallback :: string where
  "defaultTenantFailureCounterFallback = ''_default''"
definition defaultRetentionSweepInterval :: duration where "defaultRetentionSweepInterval = 3600 * second"
definition defaultRetentionBatchSize :: int where "defaultRetentionBatchSize = 500"

lemmas default_defs = defaultDispatchInterval_def defaultColdDispatchInterval_def defaultBatchSize_def
  defaultPublishMaxAttempts_def defaultPublishBackoff_def defaultListPendingFailureThreshold_def
  defaultRetryWindow_def defaultMaxDispatchAttempts_def defaultProcessingTimeout_def
  defaultPriorityBudget_def defaultMaxFailedPerBatch_def defaultMaxTenantMetricDimensions_def
  defaultMaxTrackedFailureTenants_def defaultRetentionSweepInterval_def defaultRetentionBatchSize_def

record dispatcher_config =
  DispatchInterval :: duration
  ColdDispatchInterval :: duration
  BatchSize :: int
  PublishMaxAttempts :: int
  PublishBackoff :: duration
  ListPendingFailureThreshold :: int
  RetryWindow :: duration
  MaxDispatchAttempts :: int
  ProcessingTimeout :: duration
  PriorityBudget :: int
  MaxFailedPerBatch :: int
  PriorityEventTypes :: "string list"
  IncludeTenantMetrics :: bool
  MaxTenantMetricDimensions :: int
  MaxTrackedListPendingFailureTenants :: int
  RetentionPublished :: duration
  RetentionInvalid :: duration
  RetentionSweepInterval :: duration
  RetentionBatchSize :: int
  RetentionKeepEventTypes :: "string list"

definition DefaultDispatcherConfig :: dispatcher_config where
  "DefaultDispatcherConfig =
     \<lparr>DispatchInterval = defaultDispatchInterval, ColdDispatchInterval = defaultColdDispatchInterval,
      BatchSize = defaultBatchSize, PublishMaxAttempts = defaultPublishMaxAttempts,
      PublishBackoff = defaultPublishBackoff,
      ListPendingFailureThreshold = defaultListPendingFailureThreshold,
      RetryWindow = defaultRetryWindow, MaxDispatchAttempts = defaultMaxDispatchAttempts,
      ProcessingTimeout = defaultProcessingTimeout, PriorityBudget = defaultPriorityBudget,
      MaxFailedPerBatch = defaultMaxFailedPerBatch, PriorityEventTypes = [],
      IncludeTenantMetrics = False, MaxTenantMetricDimensions = defaultMaxTenantMetricDimensions,
      MaxTrackedListPendingFailureTenants = defaultMaxTrackedFailureTenants,
      RetentionPublished = 0, RetentionInvalid = 0, RetentionSweepInterval = 0,
      RetentionBatchSize = 0, RetentionKeepEventTypes = []\<rparr>"

definition retentionEnabled :: "dispatcher_config \<Rightarrow> bool" where
  "retentionEnabled cfg \<longleftrightarrow> RetentionPublished cfg > 0 \<or> RetentionInvalid cfg > 0"

definition or_default :: "int \<Rightarrow> int \<Rightarrow> int" where
  "or_default v d = (if v \<le> 0 then d else v)"

definition normalizeRetention :: "dispatcher_config \<Rightarrow> dispatcher_config" where
  "normalizeRetention cfg =
     (if \<not> retentionEnabled cfg then cfg
      else cfg\<lparr>RetentionSweepInterval := or_default (RetentionSweepInterval cfg) defaultRetentionSweepInterval,
               RetentionBatchSize :=
                 (if RetentionBatchSize cfg = 0 then defaultRetentionBatchSize else RetentionBatchSize cfg)\<rparr>)"

definition normalize :: "dispatcher_config \<Rightarrow> dispatcher_config" where
  "normalize cfg =
     (let defaults = DefaultDispatcherConfig;
          dispatchInterval = or_default (DispatchInterval cfg) (DispatchInterval defaults);
          cold = or_default (ColdDispatchInterval cfg) (ColdDispatchInterval defaults) in
      normalizeRetention
        (cfg\<lparr>DispatchInterval := dispatchInterval,
             ColdDispatchInterval := (if cold < dispatchInterval then dispatchInterval else cold),
             BatchSize := or_default (BatchSize cfg) (BatchSize defaults),
             PublishMaxAttempts := or_default (PublishMaxAttempts cfg) (PublishMaxAttempts defaults),
             PublishBackoff := or_default (PublishBackoff cfg) (PublishBackoff defaults),
             ListPendingFailureThreshold :=
               or_default (ListPendingFailureThreshold cfg) (ListPendingFailureThreshold defaults),
             RetryWindow := or_default (RetryWindow cfg) (RetryWindow defaults),
             MaxDispatchAttempts := or_default (MaxDispatchAttempts cfg) (MaxDispatchAttempts defaults),
             ProcessingTimeout := or_default (ProcessingTimeout cfg) (ProcessingTimeout defaults),
             PriorityBudget := or_default (PriorityBudget cfg) (PriorityBudget defaults),
             MaxFailedPerBatch := or_default (MaxFailedPerBatch cfg) (MaxFailedPerBatch defaults),
             MaxTenantMetricDimensions :=
               or_default (MaxTenantMetricDimensions cfg) (MaxTenantMetricDimensions defaults),
             MaxTrackedListPendingFailureTenants :=
               or_default (MaxTrackedListPendingFailureTenants cfg)
                 (MaxTrackedListPendingFailureTenants defaults)\<rparr>))"

definition validate :: "dispatcher_config \<Rightarrow> outbox_error + unit" where
  "validate cfg =
     (if RetentionPublished cfg < 0 then Inl ErrOutboxRetentionConfigInvalid
      else if RetentionInvalid cfg < 0 then Inl ErrOutboxRetentionConfigInvalid
      else if retentionEnabled cfg \<and> RetentionBatchSize cfg < 0 then Inl ErrOutboxRetentionConfigInvalid
      else Inr ())"

subsection \<open>Options\<close>

text \<open>An option writes one setting; out-of-range values are ignored, blank types are dropped.\<close>

type_synonym dispatcher_option = "dispatcher_config \<Rightarrow> dispatcher_config"

definition WithBatchSize :: "int \<Rightarrow> dispatcher_option" where
  "WithBatchSize v cfg = (if v > 0 then cfg\<lparr>BatchSize := v\<rparr> else cfg)"

definition WithDispatchInterval :: "duration \<Rightarrow> dispatcher_option" where
  "WithDispatchInterval v cfg = (if v > 0 then cfg\<lparr>DispatchInterval := v\<rparr> else cfg)"

definition WithColdDispatchInterval :: "duration \<Rightarrow> dispatcher_option" where
  "WithColdDispatchInterval v cfg = (if v > 0 then cfg\<lparr>ColdDispatchInterval := v\<rparr> else cfg)"

definition WithPublishMaxAttempts :: "int \<Rightarrow> dispatcher_option" where
  "WithPublishMaxAttempts v cfg = (if v > 0 then cfg\<lparr>PublishMaxAttempts := v\<rparr> else cfg)"

definition WithPublishBackoff :: "duration \<Rightarrow> dispatcher_option" where
  "WithPublishBackoff v cfg = (if v > 0 then cfg\<lparr>PublishBackoff := v\<rparr> else cfg)"

definition WithRetryWindow :: "duration \<Rightarrow> dispatcher_option" where
  "WithRetryWindow v cfg = (if v > 0 then cfg\<lparr>RetryWindow := v\<rparr> else cfg)"

definition WithMaxDispatchAttempts :: "int \<Rightarrow> dispatcher_option" where
  "WithMaxDispatchAttempts v cfg = (if v > 0 then cfg\<lparr>MaxDispatchAttempts := v\<rparr> else cfg)"

definition WithProcessingTimeout :: "duration \<Rightarrow> dispatcher_option" where
  "WithProcessingTimeout v cfg = (if v > 0 then cfg\<lparr>ProcessingTimeout := v\<rparr> else cfg)"

definition WithListPendingFailureThreshold :: "int \<Rightarrow> dispatcher_option" where
  "WithListPendingFailureThreshold v cfg = (if v > 0 then cfg\<lparr>ListPendingFailureThreshold := v\<rparr> else cfg)"

definition WithPriorityBudget :: "int \<Rightarrow> dispatcher_option" where
  "WithPriorityBudget v cfg = (if v > 0 then cfg\<lparr>PriorityBudget := v\<rparr> else cfg)"

definition WithMaxFailedPerBatch :: "int \<Rightarrow> dispatcher_option" where
  "WithMaxFailedPerBatch v cfg = (if v > 0 then cfg\<lparr>MaxFailedPerBatch := v\<rparr> else cfg)"

definition WithMaxTenantMetricDimensions :: "int \<Rightarrow> dispatcher_option" where
  "WithMaxTenantMetricDimensions v cfg = (if v > 0 then cfg\<lparr>MaxTenantMetricDimensions := v\<rparr> else cfg)"

definition WithMaxTrackedListPendingFailureTenants :: "int \<Rightarrow> dispatcher_option" where
  "WithMaxTrackedListPendingFailureTenants v cfg = (if v > 0 then cfg\<lparr>MaxTrackedListPendingFailureTenants := v\<rparr> else cfg)"

definition trimmed_types :: "string list \<Rightarrow> string list" where
  "trimmed_types ts = filter (\<lambda>t. t \<noteq> []) (map trim_space ts)"

definition WithPriorityEventTypes :: "string list \<Rightarrow> dispatcher_option" where
  "WithPriorityEventTypes eventTypes cfg = cfg\<lparr>PriorityEventTypes := trimmed_types eventTypes\<rparr>"

definition WithRetentionKeepEventTypes :: "string list \<Rightarrow> dispatcher_option" where
  "WithRetentionKeepEventTypes eventTypes cfg = cfg\<lparr>RetentionKeepEventTypes := trimmed_types eventTypes\<rparr>"

definition WithTenantMetricAttributes :: "bool \<Rightarrow> dispatcher_option" where
  "WithTenantMetricAttributes v cfg = cfg\<lparr>IncludeTenantMetrics := v\<rparr>"

definition WithRetentionPublished :: "duration \<Rightarrow> dispatcher_option" where
  "WithRetentionPublished v cfg = cfg\<lparr>RetentionPublished := v\<rparr>"

definition WithRetentionInvalid :: "duration \<Rightarrow> dispatcher_option" where
  "WithRetentionInvalid v cfg = cfg\<lparr>RetentionInvalid := v\<rparr>"

definition WithRetentionSweepInterval :: "duration \<Rightarrow> dispatcher_option" where
  "WithRetentionSweepInterval v cfg = cfg\<lparr>RetentionSweepInterval := v\<rparr>"

definition WithRetentionBatchSize :: "int \<Rightarrow> dispatcher_option" where
  "WithRetentionBatchSize v cfg = cfg\<lparr>RetentionBatchSize := v\<rparr>"

text \<open>What the rest of the dispatcher relies on.\<close>

definition config_ok :: "dispatcher_config \<Rightarrow> bool" where
  "config_ok cfg \<longleftrightarrow>
     0 < DispatchInterval cfg \<and> DispatchInterval cfg \<le> ColdDispatchInterval cfg \<and>
     0 < BatchSize cfg \<and> 0 < PublishMaxAttempts cfg \<and> 0 < PublishBackoff cfg \<and>
     0 < ListPendingFailureThreshold cfg \<and> 0 < RetryWindow cfg \<and> 0 < MaxDispatchAttempts cfg \<and>
     0 < ProcessingTimeout cfg \<and> 0 < PriorityBudget cfg \<and> 0 < MaxFailedPerBatch cfg \<and>
     0 < MaxTenantMetricDimensions cfg \<and> 0 < MaxTrackedListPendingFailureTenants cfg \<and>
     0 \<le> RetentionPublished cfg \<and> 0 \<le> RetentionInvalid cfg \<and>
     (retentionEnabled cfg \<longrightarrow> 0 < RetentionSweepInterval cfg \<and> 0 < RetentionBatchSize cfg)"

lemma or_default_pos [simp]: "0 < d \<Longrightarrow> 0 < or_default v d"
  by (simp add: or_default_def)

lemma or_default_id: "0 < v \<Longrightarrow> or_default v d = v"
  by (simp add: or_default_def)

lemma normalize_simps:
  "DispatchInterval (normalize cfg) = or_default (DispatchInterval cfg) defaultDispatchInterval"
  "BatchSize (normalize cfg) = or_default (BatchSize cfg) defaultBatchSize"
  "RetentionPublished (normalize cfg) = RetentionPublished cfg"
  "RetentionInvalid (normalize cfg) = RetentionInvalid cfg"
  by (simp_all add: normalize_def Let_def normalizeRetention_def DefaultDispatcherConfig_def)

lemma normalize_ok:
  assumes "validate cfg = Inr ()"
  shows "config_ok (normalize cfg)"
proof -
  have ret: "0 \<le> RetentionPublished cfg" "0 \<le> RetentionInvalid cfg"
      "retentionEnabled cfg \<Longrightarrow> 0 \<le> RetentionBatchSize cfg"
    using assms by (auto simp: validate_def split: if_splits)
  show ?thesis
  proof (cases "retentionEnabled cfg")
    case True
    then have "retentionEnabled (normalize cfg)" by (simp add: retentionEnabled_def normalize_simps)
    then show ?thesis
      using ret True
      by (simp add: config_ok_def normalize_def Let_def normalizeRetention_def retentionEnabled_def
          DefaultDispatcherConfig_def default_defs)
  next
    case False
    then show ?thesis
      using ret
      by (simp add: config_ok_def normalize_def Let_def normalizeRetention_def retentionEnabled_def
          DefaultDispatcherConfig_def default_defs)
  qed
qed

lemma normalize_id: "config_ok cfg \<Longrightarrow> normalize cfg = cfg"
  by (cases cfg)
    (auto simp: config_ok_def normalize_def Let_def normalizeRetention_def retentionEnabled_def
      or_default_id)

end
