(* ===== verification/Backoff.thy ===== *)
theory Backoff
  imports Commons_Prelude
begin

text \<open>
  \<open>commons/backoff/backoff.go\<close>. A \<open>time.Duration\<close> is an \<open>int64\<close>; the arithmetic is that of the
  machine (\<open>wrap64\<close>), and the lemmas show that the overflow guard keeps it exact. The random
  draw of \<open>FullJitter\<close> is an argument: what \<open>rand.Int(rand.Reader, delay)\<close> yields, and on
  its failure the seed of the fallback generator or nothing.
\<close>

definition maxShift :: int where
  "maxShift = 62"

definition Exponential :: "int \<Rightarrow> int \<Rightarrow> int" where
  "Exponential base attempt0 =
     (if base \<le> 0 then 0
      else
        let attempt = (if attempt0 < 0 then 0 else if maxShift < attempt0 then maxShift else attempt0);
            multiplier = wrap64 (2 ^ nat attempt) in
        if max_int64 div multiplier < base then max_int64
        else wrap64 (base * multiplier))"

definition fallbackDivisor :: int where
  "fallbackDivisor = 2"

text \<open>\<open>gen seed n\<close> is \<open>Int64N(n)\<close> of the generator seeded with \<open>seed\<close>.\<close>

definition cryptoFallbackRand :: "(int \<Rightarrow> int \<Rightarrow> int) \<Rightarrow> int option \<Rightarrow> int \<Rightarrow> int" where
  "cryptoFallbackRand gen seed maxValue =
     (case seed of None \<Rightarrow> maxValue div fallbackDivisor | Some s \<Rightarrow> gen s maxValue)"

definition FullJitter :: "(int \<Rightarrow> int \<Rightarrow> int) \<Rightarrow> (int \<Rightarrow> int option) \<Rightarrow> int option \<Rightarrow> int \<Rightarrow> int" where
  "FullJitter gen draw seed delay =
     (if delay \<le> 0 then 0
      else (case draw delay of None \<Rightarrow> cryptoFallbackRand gen seed delay | Some n \<Rightarrow> n))"

definition ExponentialWithJitter ::
  "(int \<Rightarrow> int \<Rightarrow> int) \<Rightarrow> (int \<Rightarrow> int option) \<Rightarrow> int option \<Rightarrow> int \<Rightarrow> int \<Rightarrow> int" where
  "ExponentialWithJitter gen draw seed base attempt = FullJitter gen draw seed (Exponential base attempt)"

text \<open>What a random source promises: values below the bound it is given.\<close>

definition random_source :: "(int \<Rightarrow> int \<Rightarrow> int) \<Rightarrow> (int \<Rightarrow> int option) \<Rightarrow> bool" where
  "random_source gen draw \<longleftrightarrow>
     (\<forall>s n. 0 < n \<longrightarrow> 0 \<le> gen s n \<and> gen s n < n) \<and>
     (\<forall>n r. 0 < n \<longrightarrow> draw n = Some r \<longrightarrow> 0 \<le> r \<and> r < n)"

definition clamp_attempt :: "int \<Rightarrow> nat" where
  "clamp_attempt attempt = nat (min 62 (max 0 attempt))"

lemma pow_in_int64: "n \<le> 62 \<Longrightarrow> in_int64 (2 ^ n)"
proof -
  assume "n \<le> 62"
  then have "(2 :: int) ^ n \<le> 2 ^ 62" by (intro power_increasing) auto
  then have "(2 :: int) ^ n \<le> 4611686018427387904" by simp
  moreover have "(0 :: int) \<le> 2 ^ n" by (rule zero_le_power) simp
  ultimately show ?thesis
    unfolding in_int64_def max_int64_def min_int64_def by (intro conjI; linarith)
qed

lemma div_less_int_iff: 
  fixes m :: int
  assumes "0 < m"
  shows "q div m < b \<longleftrightarrow> q < b * m"
proof
  assume "q div m < b"
  then have "(q div m + 1) * m \<le> b * m" using assms by (intro mult_right_mono) auto
  moreover have "q < (q div m + 1) * m"
    unfolding distrib_right mult_1 using pos_mod_bound [OF assms, of q] div_mult_mod_eq [of q m] by linarith
  ultimately show "q < b * m" by simp
next
  assume "q < b * m"
  show "q div m < b"
  proof (rule ccontr)
    assume "\<not> q div m < b"
    then have "b * m \<le> (q div m) * m" using assms by (intro mult_right_mono) auto
    also have "\<dots> \<le> q"
      using pos_mod_sign [OF assms, of q] div_mult_mod_eq [of q m] by linarith
    finally show False using \<open>q < b * m\<close> by simp
  qed
qed


lemma Exponential_eq:
  assumes "in_int64 base"
  shows "Exponential base attempt = (if base \<le> 0 then 0 else min max_int64 (base * 2 ^ clamp_attempt attempt))"
proof (cases "base \<le> 0")
  case False
  let ?n = "clamp_attempt attempt"
  have n: "?n \<le> 62" by (simp add: clamp_attempt_def)
  have clamp: "nat (if attempt < 0 then 0 else if maxShift < attempt then maxShift else attempt) = ?n"
    by (simp add: clamp_attempt_def maxShift_def)
  have m: "wrap64 (2 ^ ?n) = 2 ^ ?n" by (rule wrap64_id [OF pow_in_int64 [OF n]])
  have pos: "0 < (2 :: int) ^ ?n" by simp
  have guard: "max_int64 div 2 ^ ?n < base \<longleftrightarrow> max_int64 < base * 2 ^ ?n"
    by (rule div_less_int_iff [OF pos])
  have small: "wrap64 (base * 2 ^ ?n) = base * 2 ^ ?n" if "base * 2 ^ ?n \<le> max_int64"
  proof (rule wrap64_id)
    have "0 < base * 2 ^ ?n" using False by simp
    then show "in_int64 (base * 2 ^ ?n)" using that by (simp add: in_int64_def min_int64_def)
  qed
  show ?thesis
    unfolding Exponential_def Let_def clamp m guard using False small by auto
qed (simp add: Exponential_def)

text \<open>
  The backoff never overflows and never shrinks: for every base and attempt the delay is
  \<open>base * 2 ^ attempt\<close> saturated at the largest duration, it stays within \<open>int64\<close>, it grows with
  the attempt, and with jitter it lies between zero and that delay, whichever source of randomness
  is left.
\<close>

theorem Exponential_saturates:
  assumes "in_int64 base" and "random_source gen draw"
  shows "Exponential base attempt =
      (if base \<le> 0 then 0 else min max_int64 (base * 2 ^ clamp_attempt attempt)) \<and>
    0 \<le> Exponential base attempt \<and> Exponential base attempt \<le> max_int64 \<and>
    (attempt \<le> attempt' \<longrightarrow> Exponential base attempt \<le> Exponential base attempt') \<and>
    0 \<le> ExponentialWithJitter gen draw seed base attempt \<and>
    (if Exponential base attempt \<le> 0 then ExponentialWithJitter gen draw seed base attempt = 0
     else ExponentialWithJitter gen draw seed base attempt < Exponential base attempt)"
proof -
  let ?E = "Exponential base attempt"
  have bounds: "0 \<le> ?E \<and> ?E \<le> max_int64"
    unfolding Exponential_eq [OF assms(1)] by (auto simp: max_int64_def)
  have mono: "?E \<le> Exponential base attempt'" if "attempt \<le> attempt'"
  proof -
    have "clamp_attempt attempt \<le> clamp_attempt attempt'" using that by (simp add: clamp_attempt_def)
    then have "(2 :: int) ^ clamp_attempt attempt \<le> 2 ^ clamp_attempt attempt'"
      by (intro power_increasing) auto
    then have "0 < base \<Longrightarrow> base * 2 ^ clamp_attempt attempt \<le> base * 2 ^ clamp_attempt attempt'"
      by (intro mult_left_mono) auto
    then show ?thesis unfolding Exponential_eq [OF assms(1)] by (auto simp: min_le_iff_disj)
  qed
  have fallback: "0 \<le> cryptoFallbackRand gen seed d \<and> cryptoFallbackRand gen seed d < d" if "0 < d" for d
    using that assms(2)
    by (auto simp: cryptoFallbackRand_def fallbackDivisor_def random_source_def split: option.splits)
  have "0 \<le> FullJitter gen draw seed ?E \<and> (if ?E \<le> 0 then FullJitter gen draw seed ?E = 0
      else FullJitter gen draw seed ?E < ?E)"
  proof (cases "0 < ?E")
    case True
    have "0 \<le> r \<and> r < ?E" if "draw ?E = Some r" for r
      using that assms(2) True unfolding random_source_def by blast
    then show ?thesis using fallback [OF True] True by (auto simp: FullJitter_def split: option.splits)
  qed (simp add: FullJitter_def)
  then show ?thesis
    unfolding ExponentialWithJitter_def using bounds mono Exponential_eq [OF assms(1), of attempt] by blast
qed

theorem Exponential_saturates_witness:
  "Exponential 200000000 3 = 1600000000 \<and> Exponential 200000000 3 \<le> Exponential 200000000 200 \<and>
   0 \<le> ExponentialWithJitter (\<lambda>s n. s mod n) (\<lambda>n. None) None 200000000 3"
proof -
  have base: "in_int64 200000000" by (simp add: in_int64_def min_int64_def max_int64_def)
  have src: "random_source (\<lambda>s n. s mod n) (\<lambda>n. None)" by (simp add: random_source_def)
  show ?thesis
    using Exponential_saturates [OF base src, of 3 200 None]
    by (simp add: max_int64_def clamp_attempt_def)
qed

end
