(* ===== verification/Outbox_Dispatcher.thy ===== *)
theory Outbox_Dispatcher
  imports Outbox_Config Outbox_Sanitizer Backoff "HOL-Library.AList"
begin

text \<open>
  \<open>commons/outbox/dispatcher.go\<close>. The dispatcher is modelled over a world \<open>'w\<close> that holds the
  repository's data, the brokers the handlers publish to and the clocks: \<open>repo_ops\<close> is the
  interface \<open>OutboxRepository\<close> with its optional capabilities (\<open>None\<close> when the repository lacks
  one), \<open>surroundings\<close> the clocks, cancellation, the retry classifier and the callbacks, and
  \<open>dispatcher_state\<close> the fields the dispatcher changes under its locks. Maps are association
  lists with distinct keys, so that their size is the length of the list. Logging and tracing are
  left out; of the metrics, the bookkeeping of tenant labels is kept.
\<close>

record dispatch_scope =
  scope_TenantID :: string
  scope_PoolKey :: string

text \<open>An error as the dispatcher sees it: raw, or wrapped by the publish loop.\<close>

datatype publish_failure =
    Raw outbox_error
  | AttemptFailed int int outbox_error
  | WaitInterrupted outbox_error

type_synonym 'a returned = "outbox_error + 'a"

record 'w repo_ops =
  op_ListPending :: "tenant_context \<Rightarrow> int \<Rightarrow> 'w \<Rightarrow> (outbox_event option list) returned \<times> 'w"
  op_ListPendingByType ::
    "tenant_context \<Rightarrow> string \<Rightarrow> int \<Rightarrow> 'w \<Rightarrow> (outbox_event option list) returned \<times> 'w"
  op_ListPendingByTypes ::
    "(tenant_context \<Rightarrow> string list \<Rightarrow> int \<Rightarrow> 'w \<Rightarrow> (outbox_event option list) returned \<times> 'w) option"
  op_ResetForRetry ::
    "tenant_context \<Rightarrow> int \<Rightarrow> time \<Rightarrow> int \<Rightarrow> 'w \<Rightarrow> (outbox_event option list) returned \<times> 'w"
  op_ResetStuckProcessing ::
    "tenant_context \<Rightarrow> int \<Rightarrow> time \<Rightarrow> int \<Rightarrow> 'w \<Rightarrow> (outbox_event option list) returned \<times> 'w"
  op_ReclaimStuckProcessing ::
    "(tenant_context \<Rightarrow> int \<Rightarrow> time \<Rightarrow> int \<Rightarrow> 'w \<Rightarrow>
      (outbox_event option list \<times> outbox_event list) returned \<times> 'w) option"
  op_MarkPublished :: "tenant_context \<Rightarrow> uuid \<Rightarrow> time \<Rightarrow> 'w \<Rightarrow> unit returned \<times> 'w"
  op_MarkFailed :: "tenant_context \<Rightarrow> uuid \<Rightarrow> runes \<Rightarrow> int \<Rightarrow> 'w \<Rightarrow> unit returned \<times> 'w"
  op_MarkInvalid :: "tenant_context \<Rightarrow> uuid \<Rightarrow> runes \<Rightarrow> 'w \<Rightarrow> unit returned \<times> 'w"
  op_ListTenants :: "tenant_context \<Rightarrow> 'w \<Rightarrow> (string list) returned \<times> 'w"
  op_ListTenantDispatchScopes ::
    "(tenant_context \<Rightarrow> 'w \<Rightarrow> (dispatch_scope list) returned \<times> 'w) option"
  op_ContextForTenantDispatchScope :: "tenant_context \<Rightarrow> dispatch_scope \<Rightarrow> tenant_context"
  op_RequiresTenant :: "bool option"
  op_DeletePublishedBefore ::
    "(tenant_context \<Rightarrow> time \<Rightarrow> string list \<Rightarrow> int \<Rightarrow> 'w \<Rightarrow> nat returned \<times> 'w) option"
  op_ListTenantsWithPublishedBefore ::
    "(tenant_context \<Rightarrow> time \<Rightarrow> string list \<Rightarrow> 'w \<Rightarrow> (string list) returned \<times> 'w) option"
  op_InvalidPurger ::
    "((tenant_context \<Rightarrow> time \<Rightarrow> string list \<Rightarrow> int \<Rightarrow> 'w \<Rightarrow> nat returned \<times> 'w) \<times>
      (tenant_context \<Rightarrow> time \<Rightarrow> string list \<Rightarrow> 'w \<Rightarrow> (string list) returned \<times> 'w)) option"

record 'w surroundings =
  wall_clock :: "'w \<Rightarrow> time"
  dispatcher_clock :: "'w \<Rightarrow> time"
  ctx_cancelled :: "'w \<Rightarrow> bool"
  wait_backoff :: "duration \<Rightarrow> int \<Rightarrow> 'w \<Rightarrow> unit returned \<times> 'w"
  retryClassifier :: "(publish_failure \<Rightarrow> bool) option"
  error_message :: "publish_failure \<Rightarrow> runes"
  redacted_value :: runes
  OnInvalid :: "(outbox_event \<Rightarrow> publish_failure \<Rightarrow> 'w \<Rightarrow> 'w) option"
  OnFailed :: "(outbox_event \<Rightarrow> publish_failure \<Rightarrow> 'w \<Rightarrow> 'w) option"

record 'w retention_target =
  target_window :: duration
  target_delete :: "tenant_context \<Rightarrow> time \<Rightarrow> string list \<Rightarrow> int \<Rightarrow> 'w \<Rightarrow> nat returned \<times> 'w"
  target_list :: "(tenant_context \<Rightarrow> time \<Rightarrow> string list \<Rightarrow> 'w \<Rightarrow> (string list) returned \<times> 'w) option"

record scope_activity =
  lastWorkAt :: time
  nextPollAt :: time

record 'w dispatcher =
  disp_repo :: "'w repo_ops"
  disp_handlers :: "'w handler_registry"
  disp_cfg :: dispatcher_config
  disp_retention :: "'w retention_target list"
  disp_env :: "'w surroundings"

record dispatcher_state =
  listPendingFailureCounts :: "(string \<times> int) list"
  tenantMetricKeys :: "string list"
  scopeActivity :: "(dispatch_scope \<times> scope_activity) list"
  retentionSweptAt :: "(dispatch_scope \<times> time) list"
  retentionPrunedAt :: time
  retentionListedAt :: time
  tenantTurn :: int
  running :: bool
  stopped :: bool

record dispatch_result =
  Processed :: int
  Published :: int
  Failed :: int
  StateUpdateFailed :: int

subsection \<open>Construction\<close>

definition bindRetention :: "dispatcher_config \<Rightarrow> 'w repo_ops \<Rightarrow> outbox_error + 'w retention_target list" where
  "bindRetention cfg repo =
     bind_res
       (if RetentionPublished cfg > 0 then
          (case op_DeletePublishedBefore repo of
             None \<Rightarrow> Inl ErrOutboxRetentionUnsupported
           | Some del \<Rightarrow> Inr [\<lparr>target_window = RetentionPublished cfg, target_delete = del,
                              target_list = op_ListTenantsWithPublishedBefore repo\<rparr>])
        else Inr [])
       (\<lambda>targets.
          if RetentionInvalid cfg > 0 then
            (case op_InvalidPurger repo of
               None \<Rightarrow> Inl ErrOutboxRetentionUnsupported
             | Some (del, lister) \<Rightarrow>
                 Inr (targets @ [\<lparr>target_window = RetentionInvalid cfg, target_delete = del,
                                 target_list = Some lister\<rparr>]))
          else Inr targets)"

definition ensureFailureCounterFallback :: "dispatcher_state \<Rightarrow> dispatcher_state" where
  "ensureFailureCounterFallback st =
     st\<lparr>listPendingFailureCounts :=
          AList.update defaultTenantFailureCounterFallback 0 (listPendingFailureCounts st)\<rparr>"

definition initial_state :: dispatcher_state where
  "initial_state =
     \<lparr>listPendingFailureCounts = [], tenantMetricKeys = [], scopeActivity = [], retentionSweptAt = [],
      retentionPrunedAt = 0, retentionListedAt = 0, tenantTurn = 0, running = False, stopped = False\<rparr>"

text \<open>The options have produced \<open>cfg\<close>; \<open>None\<close> is a nil repository or registry.\<close>

definition NewDispatcher ::
  "'w repo_ops option \<Rightarrow> 'w handler_registry option \<Rightarrow> dispatcher_config \<Rightarrow> 'w surroundings \<Rightarrow>
   outbox_error + 'w dispatcher \<times> dispatcher_state" where
  "NewDispatcher repo0 handlers0 cfg env =
     (case repo0 of
        None \<Rightarrow> Inl ErrOutboxRepositoryRequired
      | Some repo \<Rightarrow>
          (case handlers0 of
             None \<Rightarrow> Inl ErrHandlerRegistryRequired
           | Some handlers \<Rightarrow>
               bind_res (validate cfg) (\<lambda>_.
               bind_res (bindRetention cfg repo) (\<lambda>retention.
               Inr (\<lparr>disp_repo = repo, disp_handlers = handlers, disp_cfg = normalize cfg,
                     disp_retention = retention, disp_env = env\<rparr>,
                    ensureFailureCounterFallback initial_state)))))"

subsection \<open>Publishing one event\<close>

definition isNonRetryableError :: "'w dispatcher \<Rightarrow> publish_failure \<Rightarrow> bool" where
  "isNonRetryableError D err =
     (case retryClassifier (disp_env D) of None \<Rightarrow> False | Some c \<Rightarrow> c err)"

definition publishEvent :: "'w dispatcher \<Rightarrow> outbox_event option \<Rightarrow> 'w \<Rightarrow> unit returned \<times> 'w" where
  "publishEvent D event w =
     (case event of
        None \<Rightarrow> (Inl ErrOutboxEventRequired, w)
      | Some e \<Rightarrow>
          if length (Payload e) = 0 then (Inl ErrOutboxEventPayloadRequired, w)
          else Handle (Some (disp_handlers D)) event w)"

text \<open>The loop over the attempts: \<open>k\<close> attempts are left, \<open>attempt\<close> have been made.
  \<open>None\<close> is success.\<close>

fun publish_loop ::
  "'w dispatcher \<Rightarrow> int \<Rightarrow> duration \<Rightarrow> outbox_event \<Rightarrow> nat \<Rightarrow> int \<Rightarrow> publish_failure option \<Rightarrow> 'w \<Rightarrow>
   publish_failure option \<times> 'w" where
  "publish_loop D maxAttempts publishBackoff event 0 attempt lastErr w = (lastErr, w)"
| "publish_loop D maxAttempts publishBackoff event (Suc k) attempt lastErr w =
     (case publishEvent D (Some event) w of
        (Inr _, w1) \<Rightarrow> (None, w1)
      | (Inl err, w1) \<Rightarrow>
          let failure = AttemptFailed (attempt + 1) maxAttempts err in
          if isNonRetryableError D (Raw err) \<or> attempt = maxAttempts - 1 then (Some failure, w1)
          else (case wait_backoff (disp_env D) publishBackoff attempt w1 of
              (Inl waitErr, w2) \<Rightarrow> (Some (WaitInterrupted waitErr), w2)
            | (Inr _, w2) \<Rightarrow>
                publish_loop D maxAttempts publishBackoff event k (attempt + 1) (Some failure) w2))"

definition publishEventWithRetry ::
  "'w dispatcher \<Rightarrow> outbox_event \<Rightarrow> 'w \<Rightarrow> publish_failure option \<times> 'w" where
  "publishEventWithRetry D event w =
     (let maxAttempts = (if PublishMaxAttempts (disp_cfg D) \<le> 0 then defaultPublishMaxAttempts
                         else PublishMaxAttempts (disp_cfg D));
          publishBackoff = (if PublishBackoff (disp_cfg D) \<le> 0 then defaultPublishBackoff
                            else PublishBackoff (disp_cfg D)) in
      publish_loop D maxAttempts publishBackoff event (nat maxAttempts) 0 None w)"

definition sanitizeErrorForStorage :: "'w dispatcher \<Rightarrow> publish_failure \<Rightarrow> runes" where
  "sanitizeErrorForStorage D err =
     SanitizeErrorMessageForStorage (redacted_value (disp_env D)) (error_message (disp_env D) err)"

definition invokeOnInvalid :: "'w dispatcher \<Rightarrow> outbox_event \<Rightarrow> publish_failure \<Rightarrow> 'w \<Rightarrow> 'w" where
  "invokeOnInvalid D event err w =
     (case OnInvalid (disp_env D) of None \<Rightarrow> w | Some f \<Rightarrow> f event err w)"

definition invokeOnFailed :: "'w dispatcher \<Rightarrow> outbox_event \<Rightarrow> publish_failure \<Rightarrow> 'w \<Rightarrow> 'w" where
  "invokeOnFailed D event err w =
     (case OnFailed (disp_env D) of None \<Rightarrow> w | Some f \<Rightarrow> f event err w)"

definition handlePublishError ::
  "'w dispatcher \<Rightarrow> tenant_context \<Rightarrow> outbox_event \<Rightarrow> publish_failure \<Rightarrow> 'w \<Rightarrow> 'w" where
  "handlePublishError D ctx event err w =
     (if isNonRetryableError D err then
        (case op_MarkInvalid (disp_repo D) ctx (ID event) (sanitizeErrorForStorage D err) w of
           (Inl _, w1) \<Rightarrow> w1
         | (Inr _, w1) \<Rightarrow> invokeOnInvalid D event err w1)
      else
        (case op_MarkFailed (disp_repo D) ctx (ID event) (sanitizeErrorForStorage D err)
                (MaxDispatchAttempts (disp_cfg D)) w of
           (Inl _, w1) \<Rightarrow> w1
         | (Inr _, w1) \<Rightarrow>
             if MaxDispatchAttempts (disp_cfg D) \<le> Attempts event + 1
             then invokeOnInvalid D event err w1
             else invokeOnFailed D event err w1))"

subsection \<open>Collecting a batch\<close>

fun deduplicate_loop :: "uuid list \<Rightarrow> outbox_event option list \<Rightarrow> outbox_event option list" where
  "deduplicate_loop seen [] = []"
| "deduplicate_loop seen (None # es) = deduplicate_loop seen es"
| "deduplicate_loop seen (Some e # es) =
     (if ID e \<in> set seen then deduplicate_loop seen es
      else Some e # deduplicate_loop (ID e # seen) es)"

definition deduplicateEvents :: "outbox_event option list \<Rightarrow> outbox_event option list" where
  "deduplicateEvents events = (if length events = 0 then events else deduplicate_loop [] events)"

text \<open>A nil slice on error: the dispatcher logs the error and goes on with what it has.\<close>

definition or_empty :: "('a list) returned \<Rightarrow> 'a list" where
  "or_empty r = (case r of Inl _ \<Rightarrow> [] | Inr xs \<Rightarrow> xs)"

fun priority_loop ::
  "'w dispatcher \<Rightarrow> tenant_context \<Rightarrow> int \<Rightarrow> string list \<Rightarrow> outbox_event option list \<Rightarrow> 'w \<Rightarrow>
   outbox_event option list \<times> 'w" where
  "priority_loop D ctx budget [] result w = (result, w)"
| "priority_loop D ctx budget (t # ts) result w =
     (let remaining = budget - int (length result) in
      if remaining \<le> 0 then (result, w)
      else (case op_ListPendingByType (disp_repo D) ctx t remaining w of
          (Inl _, w1) \<Rightarrow> priority_loop D ctx budget ts result w1
        | (Inr events, w1) \<Rightarrow> priority_loop D ctx budget ts (result @ events) w1))"

definition collectPriorityEvents ::
  "'w dispatcher \<Rightarrow> tenant_context \<Rightarrow> int \<Rightarrow> 'w \<Rightarrow> outbox_event option list \<times> 'w" where
  "collectPriorityEvents D ctx budget w =
     (if budget \<le> 0 \<or> length (PriorityEventTypes (disp_cfg D)) = 0 then ([], w)
      else (case op_ListPendingByTypes (disp_repo D) of
          Some f \<Rightarrow>
            (case f ctx (PriorityEventTypes (disp_cfg D)) budget w of
               (r, w1) \<Rightarrow> (or_empty r, w1))
        | None \<Rightarrow> priority_loop D ctx budget (PriorityEventTypes (disp_cfg D)) [] w))"

definition resetStuckProcessing ::
  "'w dispatcher \<Rightarrow> tenant_context \<Rightarrow> int \<Rightarrow> time \<Rightarrow> 'w \<Rightarrow> (outbox_event option list) returned \<times> 'w" where
  "resetStuckProcessing D ctx limit processingBefore w =
     (let maxAttempts = MaxDispatchAttempts (disp_cfg D) in
      case op_ReclaimStuckProcessing (disp_repo D) of
        None \<Rightarrow> op_ResetStuckProcessing (disp_repo D) ctx limit processingBefore maxAttempts w
      | Some reclaim \<Rightarrow>
          (case reclaim ctx limit processingBefore maxAttempts w of
             (Inl err, w1) \<Rightarrow> (Inl err, w1)
           | (Inr (retry, invalid), w1) \<Rightarrow>
               (Inr retry, fold (\<lambda>e. invokeOnInvalid D e (Raw ErrStuckAttemptsExhausted)) invalid w1)))"

definition tenantKeyFromContext :: "tenant_context \<Rightarrow> string" where
  "tenantKeyFromContext ctx =
     (case TenantIDFromContext ctx of
        Some t \<Rightarrow> if t \<noteq> [] then t else defaultTenantFailureCounterFallback
      | None \<Rightarrow> defaultTenantFailureCounterFallback)"

text \<open>\<open>True\<close> when the count has reached the threshold and the error is logged.\<close>

definition handleListPendingError ::
  "'w dispatcher \<Rightarrow> string \<Rightarrow> dispatcher_state \<Rightarrow> bool \<times> dispatcher_state" where
  "handleListPendingError D tenantKey st =
     (let counts = listPendingFailureCounts st;
          maxTracked = MaxTrackedListPendingFailureTenants (disp_cfg D);
          counterTenantKey =
            (if maxTracked \<le> 1 then defaultTenantFailureCounterFallback
             else if map_of counts tenantKey = None \<and> maxTracked \<le> int (length counts)
             then defaultTenantFailureCounterFallback
             else tenantKey);
          count = (case map_of counts counterTenantKey of None \<Rightarrow> 0 | Some n \<Rightarrow> n) + 1 in
      (ListPendingFailureThreshold (disp_cfg D) \<le> count,
       st\<lparr>listPendingFailureCounts := AList.update counterTenantKey count counts\<rparr>))"

definition clearListPendingFailureCount :: "string \<Rightarrow> dispatcher_state \<Rightarrow> dispatcher_state" where
  "clearListPendingFailureCount tenantKey st =
     (let counts = listPendingFailureCounts st in
      if tenantKey = [] \<or> tenantKey = defaultTenantFailureCounterFallback
      then st\<lparr>listPendingFailureCounts := AList.update defaultTenantFailureCounterFallback 0 counts\<rparr>
      else if map_of counts tenantKey = None
      then st\<lparr>listPendingFailureCounts := AList.update defaultTenantFailureCounterFallback 0 counts\<rparr>
      else st\<lparr>listPendingFailureCounts := AList.delete tenantKey counts\<rparr>)"

definition collectEvents ::
  "'w dispatcher \<Rightarrow> tenant_context \<Rightarrow> dispatcher_state \<Rightarrow> 'w \<Rightarrow>
   outbox_event option list \<times> dispatcher_state \<times> 'w" where
  "collectEvents D ctx st w =
     (let cfg = disp_cfg D;
          failedBefore = wall_clock (disp_env D) w - RetryWindow cfg;
          processingBefore = wall_clock (disp_env D) w - ProcessingTimeout cfg;
          priorityBudget = min (PriorityBudget cfg) (BatchSize cfg);
          (priorityEvents, w1) = collectPriorityEvents D ctx priorityBudget w in
      if op_ListPendingByTypes (disp_repo D) \<noteq> None \<and> length (PriorityEventTypes cfg) > 0
      then (deduplicateEvents priorityEvents, st, w1)
      else
        (let stuckLimit = BatchSize cfg - int (length priorityEvents) in
         if stuckLimit \<le> 0 then (deduplicateEvents priorityEvents, st, w1)
         else
           (let (stuck, w2) = resetStuckProcessing D ctx stuckLimit processingBefore w1;
                stuckEvents = or_empty stuck;
                collected = int (length priorityEvents) + int (length stuckEvents);
                failedLimit = min (BatchSize cfg - collected) (MaxFailedPerBatch cfg) in
            if failedLimit \<le> 0 then (deduplicateEvents (priorityEvents @ stuckEvents), st, w2)
            else
              (let (failed, w3) = op_ResetForRetry (disp_repo D) ctx failedLimit failedBefore
                                    (MaxDispatchAttempts cfg) w2;
                   failedEvents = or_empty failed;
                   collected = collected + int (length failedEvents);
                   remaining = BatchSize cfg - collected in
               if remaining \<le> 0
               then (deduplicateEvents (priorityEvents @ stuckEvents @ failedEvents), st, w3)
               else
                 (case op_ListPending (disp_repo D) ctx remaining w3 of
                    (Inl _, w4) \<Rightarrow>
                      (deduplicateEvents (priorityEvents @ stuckEvents @ failedEvents),
                       snd (handleListPendingError D (tenantKeyFromContext ctx) st), w4)
                  | (Inr pendingEvents, w4) \<Rightarrow>
                      (deduplicateEvents (priorityEvents @ stuckEvents @ failedEvents @ pendingEvents),
                       clearListPendingFailureCount (tenantKeyFromContext ctx) st, w4))))))"


subsection \<open>One dispatch cycle\<close>

definition overflowTenantMetricLabel :: string where
  "overflowTenantMetricLabel = ''_other''"

definition boundedTenantMetricKey ::
  "'w dispatcher \<Rightarrow> string \<Rightarrow> dispatcher_state \<Rightarrow> string \<times> dispatcher_state" where
  "boundedTenantMetricKey D tenantKey0 st =
     (let tenantKey = (if tenantKey0 = [] then defaultTenantFailureCounterFallback else tenantKey0) in
      if tenantKey \<in> set (tenantMetricKeys st) then (tenantKey, st)
      else if int (length (tenantMetricKeys st)) < MaxTenantMetricDimensions (disp_cfg D)
      then (tenantKey, st\<lparr>tenantMetricKeys := tenantKey # tenantMetricKeys st\<rparr>)
      else (overflowTenantMetricLabel, st))"

text \<open>Every metric of a cycle is recorded under the same tenant key, so only the first of these
  calls changes the set of labels.\<close>

definition tenantMetricAttribute ::
  "'w dispatcher \<Rightarrow> string \<Rightarrow> dispatcher_state \<Rightarrow> string option \<times> dispatcher_state" where
  "tenantMetricAttribute D tenantKey st =
     (if \<not> IncludeTenantMetrics (disp_cfg D) then (None, st)
      else (case boundedTenantMetricKey D tenantKey st of (label, st') \<Rightarrow> (Some label, st')))"

fun dispatch_loop ::
  "'w dispatcher \<Rightarrow> tenant_context \<Rightarrow> outbox_event option list \<Rightarrow> dispatch_result \<Rightarrow> 'w \<Rightarrow>
   dispatch_result \<times> 'w" where
  "dispatch_loop D ctx [] res w = (res, w)"
| "dispatch_loop D ctx (event # events) res w =
     (if ctx_cancelled (disp_env D) w then (res, w)
      else (case event of
          None \<Rightarrow> dispatch_loop D ctx events res w
        | Some e \<Rightarrow>
            let res1 = res\<lparr>Processed := Processed res + 1\<rparr> in
            (case publishEventWithRetry D e w of
               (Some err, w1) \<Rightarrow>
                 dispatch_loop D ctx events (res1\<lparr>Failed := Failed res1 + 1\<rparr>)
                   (handlePublishError D ctx e err w1)
             | (None, w1) \<Rightarrow>
                 let res2 = res1\<lparr>Published := Published res1 + 1\<rparr> in
                 (case op_MarkPublished (disp_repo D) ctx (ID e) (wall_clock (disp_env D) w1) w1 of
                    (Inl _, w2) \<Rightarrow>
                      dispatch_loop D ctx events
                        (res2\<lparr>StateUpdateFailed := StateUpdateFailed res2 + 1\<rparr>) w2
                  | (Inr _, w2) \<Rightarrow> dispatch_loop D ctx events res2 w2))))"

definition empty_result :: dispatch_result where
  "empty_result = \<lparr>Processed = 0, Published = 0, Failed = 0, StateUpdateFailed = 0\<rparr>"

definition DispatchOnceResult ::
  "'w dispatcher \<Rightarrow> tenant_context \<Rightarrow> dispatcher_state \<Rightarrow> 'w \<Rightarrow> dispatch_result \<times> dispatcher_state \<times> 'w" where
  "DispatchOnceResult D ctx st w =
     (let (events, st1, w1) = collectEvents D ctx st w;
          (_, st2) = tenantMetricAttribute D (tenantKeyFromContext ctx) st1;
          (res, w2) = dispatch_loop D ctx events empty_result w1 in
      (res, st2, w2))"

definition DispatchOnce ::
  "'w dispatcher \<Rightarrow> tenant_context \<Rightarrow> dispatcher_state \<Rightarrow> 'w \<Rightarrow> int \<times> dispatcher_state \<times> 'w" where
  "DispatchOnce D ctx st w =
     (case DispatchOnceResult D ctx st w of (res, st', w') \<Rightarrow> (Processed res, st', w'))"

subsection \<open>Scheduling the scopes\<close>

definition shouldDispatchScope :: "dispatch_scope \<Rightarrow> time \<Rightarrow> dispatcher_state \<Rightarrow> bool" where
  "shouldDispatchScope scope now st =
     (case map_of (scopeActivity st) scope of
        None \<Rightarrow> True
      | Some activity \<Rightarrow> \<not> now < nextPollAt activity)"

definition recordScopeActivity ::
  "'w dispatcher \<Rightarrow> dispatch_scope \<Rightarrow> dispatch_result \<Rightarrow> time \<Rightarrow> dispatcher_state \<Rightarrow> dispatcher_state" where
  "recordScopeActivity D scope result now st =
     (let activity0 = (case map_of (scopeActivity st) scope of
                         None \<Rightarrow> \<lparr>lastWorkAt = 0, nextPollAt = 0\<rparr> | Some a \<Rightarrow> a);
          activity1 = (if Processed result > 0 then activity0\<lparr>lastWorkAt := now\<rparr> else activity0);
          interval = (if lastWorkAt activity1 \<noteq> 0 \<and>
                         now - lastWorkAt activity1 < ColdDispatchInterval (disp_cfg D)
                      then DispatchInterval (disp_cfg D) else ColdDispatchInterval (disp_cfg D)) in
      st\<lparr>scopeActivity :=
           AList.update scope (activity1\<lparr>nextPollAt := now + interval\<rparr>) (scopeActivity st)\<rparr>)"

definition reconcileScopeActivity :: "dispatch_scope list \<Rightarrow> dispatcher_state \<Rightarrow> dispatcher_state" where
  "reconcileScopeActivity scopes st =
     st\<lparr>scopeActivity := filter (\<lambda>(s, _). s \<in> set scopes) (scopeActivity st)\<rparr>"

definition resetScopePollSchedule :: "dispatcher_state \<Rightarrow> dispatcher_state" where
  "resetScopePollSchedule st =
     st\<lparr>scopeActivity := map (\<lambda>(s, a). (s, a\<lparr>nextPollAt := 0\<rparr>)) (scopeActivity st)\<rparr>"

fun normalizeTenantDispatchScopes_loop ::
  "dispatch_scope list \<Rightarrow> dispatch_scope list \<Rightarrow> dispatch_scope list" where
  "normalizeTenantDispatchScopes_loop result [] = result"
| "normalizeTenantDispatchScopes_loop result (s # scopes) =
     (let scope = \<lparr>scope_TenantID = trim_space (scope_TenantID s),
                   scope_PoolKey = trim_space (scope_PoolKey s)\<rparr> in
      if scope_TenantID scope = [] then normalizeTenantDispatchScopes_loop result scopes
      else if scope \<in> set result then normalizeTenantDispatchScopes_loop result scopes
      else normalizeTenantDispatchScopes_loop (result @ [scope]) scopes)"

definition normalizeTenantDispatchScopes :: "dispatch_scope list \<Rightarrow> dispatch_scope list" where
  "normalizeTenantDispatchScopes scopes = normalizeTenantDispatchScopes_loop [] scopes"

definition tenantDispatchScopeOrder ::
  "dispatch_scope list \<Rightarrow> dispatcher_state \<Rightarrow> dispatch_scope list \<times> dispatcher_state" where
  "tenantDispatchScopeOrder scopes st =
     (if length scopes \<le> 1 then (scopes, st)
      else
        (let n = int (length scopes); start = nat (tenantTurn st mod n) in
         (drop start scopes @ take start scopes, st\<lparr>tenantTurn := (tenantTurn st + 1) mod n\<rparr>)))"

definition listTenantDispatchScopes ::
  "'w dispatcher \<Rightarrow> tenant_context \<Rightarrow> 'w \<Rightarrow> (dispatch_scope list) returned \<times> 'w" where
  "listTenantDispatchScopes D ctx w =
     (case op_ListTenantDispatchScopes (disp_repo D) of
        Some f \<Rightarrow> f ctx w
      | None \<Rightarrow>
          (case op_ListTenants (disp_repo D) ctx w of
             (Inl err, w1) \<Rightarrow> (Inl err, w1)
           | (Inr tenants, w1) \<Rightarrow>
               (Inr (map (\<lambda>t. \<lparr>scope_TenantID = t, scope_PoolKey = []\<rparr>) tenants), w1)))"

subsection \<open>Retention\<close>

definition claimRetentionSweep ::
  "'w dispatcher \<Rightarrow> dispatch_scope \<Rightarrow> time \<Rightarrow> dispatcher_state \<Rightarrow> bool \<times> dispatcher_state" where
  "claimRetentionSweep D scope now st =
     (let interval = RetentionSweepInterval (disp_cfg D) in
      if (case map_of (retentionSweptAt st) scope of None \<Rightarrow> False | Some sweptAt \<Rightarrow> now - sweptAt < interval)
      then (False, st)
      else
        (let st1 = (if retentionPrunedAt st = 0 \<or> interval \<le> now - retentionPrunedAt st
                    then st\<lparr>retentionSweptAt :=
                              filter (\<lambda>(s, sweptAt). \<not> interval \<le> now - sweptAt) (retentionSweptAt st),
                            retentionPrunedAt := now\<rparr>
                    else st) in
         (True, st1\<lparr>retentionSweptAt := AList.update scope now (retentionSweptAt st1)\<rparr>)))"

fun sweep_targets ::
  "'w dispatcher \<Rightarrow> tenant_context \<Rightarrow> time \<Rightarrow> 'w retention_target list \<Rightarrow> nat \<Rightarrow> 'w \<Rightarrow> nat \<times> 'w" where
  "sweep_targets D ctx now [] total_deleted w = (total_deleted, w)"
| "sweep_targets D ctx now (target # targets) total_deleted w =
     (case target_delete target ctx (now - target_window target)
             (RetentionKeepEventTypes (disp_cfg D)) (RetentionBatchSize (disp_cfg D)) w of
        (Inl _, w1) \<Rightarrow> sweep_targets D ctx now targets total_deleted w1
      | (Inr deleted, w1) \<Rightarrow> sweep_targets D ctx now targets (total_deleted + deleted) w1)"

definition sweepRetention ::
  "'w dispatcher \<Rightarrow> tenant_context \<Rightarrow> dispatch_scope \<Rightarrow> time \<Rightarrow> dispatcher_state \<Rightarrow> 'w \<Rightarrow>
   dispatcher_state \<times> 'w" where
  "sweepRetention D ctx scope now st w =
     (if length (disp_retention D) = 0 \<or> ctx_cancelled (disp_env D) w then (st, w)
      else (case claimRetentionSweep D scope now st of
          (False, st1) \<Rightarrow> (st1, w)
        | (True, st1) \<Rightarrow> (st1, snd (sweep_targets D ctx now (disp_retention D) 0 w))))"

definition sweep_tenant ::
  "'w dispatcher \<Rightarrow> tenant_context \<Rightarrow> time \<Rightarrow> string \<Rightarrow> dispatcher_state \<times> 'w \<Rightarrow> dispatcher_state \<times> 'w" where
  "sweep_tenant D ctx now tenantID sw =
     sweepRetention D (ContextWithTenantID ctx tenantID)
       \<lparr>scope_TenantID = tenantID, scope_PoolKey = []\<rparr> now (fst sw) (snd sw)"

definition sweep_listed ::
  "'w dispatcher \<Rightarrow> tenant_context \<Rightarrow> time \<Rightarrow> 'w retention_target \<Rightarrow> dispatcher_state \<times> 'w \<Rightarrow>
   dispatcher_state \<times> 'w" where
  "sweep_listed D ctx now target sw =
     (case target_list target of
        None \<Rightarrow> sw
      | Some lister \<Rightarrow>
          (case lister ctx (now - target_window target) (RetentionKeepEventTypes (disp_cfg D)) (snd sw) of
             (Inl _, w1) \<Rightarrow> (fst sw, w1)
           | (Inr tenants, w1) \<Rightarrow> fold (sweep_tenant D ctx now) tenants (fst sw, w1)))"

definition sweepListedTenants ::
  "'w dispatcher \<Rightarrow> tenant_context \<Rightarrow> dispatcher_state \<Rightarrow> 'w \<Rightarrow> dispatcher_state \<times> 'w" where
  "sweepListedTenants D ctx st w =
     (if length (disp_retention D) = 0 \<or> ctx_cancelled (disp_env D) w then (st, w)
      else
        (let now = dispatcher_clock (disp_env D) w in
         if retentionListedAt st = 0 \<or> RetentionSweepInterval (disp_cfg D) \<le> now - retentionListedAt st
         then fold (sweep_listed D ctx now) (disp_retention D) (st\<lparr>retentionListedAt := now\<rparr>, w)
         else (st, w)))"

subsection \<open>One tick over all scopes\<close>

definition dispatchWithoutDiscoveredTenant ::
  "'w dispatcher \<Rightarrow> tenant_context \<Rightarrow> dispatcher_state \<Rightarrow> 'w \<Rightarrow> dispatcher_state \<times> 'w" where
  "dispatchWithoutDiscoveredTenant D ctx st w =
     (let tenantID = (case TenantIDFromContext ctx of Some t \<Rightarrow> t | None \<Rightarrow> []) in
      if tenantID \<noteq> [] then
        (case DispatchOnceResult D ctx st w of
           (_, st1, w1) \<Rightarrow>
             sweepRetention D ctx \<lparr>scope_TenantID = tenantID, scope_PoolKey = []\<rparr>
               (dispatcher_clock (disp_env D) w1) st1 w1)
      else if (case op_RequiresTenant (disp_repo D) of None \<Rightarrow> True | Some b \<Rightarrow> b) then (st, w)
      else
        (case DispatchOnceResult D ctx st w of
           (_, st1, w1) \<Rightarrow>
             sweepRetention D ctx \<lparr>scope_TenantID = [], scope_PoolKey = []\<rparr>
               (dispatcher_clock (disp_env D) w1) st1 w1))"

fun dispatch_scopes ::
  "'w dispatcher \<Rightarrow> tenant_context \<Rightarrow> dispatch_scope list \<Rightarrow> dispatcher_state \<Rightarrow> 'w \<Rightarrow>
   dispatcher_state \<times> 'w" where
  "dispatch_scopes D ctx [] st w = (st, w)"
| "dispatch_scopes D ctx (scope # scopes) st w =
     (if ctx_cancelled (disp_env D) w then (st, w)
      else
        (let now = dispatcher_clock (disp_env D) w in
         if \<not> shouldDispatchScope scope now st then dispatch_scopes D ctx scopes st w
         else
           (let routed = (if op_ListTenantDispatchScopes (disp_repo D) \<noteq> None
                          then op_ContextForTenantDispatchScope (disp_repo D) ctx scope else ctx);
                tenantCtx = ContextWithTenantID routed (scope_TenantID scope);
                (result, st1, w1) = DispatchOnceResult D tenantCtx st w;
                st2 = recordScopeActivity D scope result now st1;
                (st3, w3) = sweepRetention D tenantCtx scope now st2 w1 in
            dispatch_scopes D ctx scopes st3 w3)))"

definition dispatchAcrossTenants ::
  "'w dispatcher \<Rightarrow> tenant_context \<Rightarrow> dispatcher_state \<Rightarrow> 'w \<Rightarrow> dispatcher_state \<times> 'w" where
  "dispatchAcrossTenants D ctx st w =
     (if ctx_cancelled (disp_env D) w then (st, w)
      else (case listTenantDispatchScopes D ctx w of
          (Inl _, w1) \<Rightarrow> (st, w1)
        | (Inr scopes, w1) \<Rightarrow>
            let normalizedScopes = normalizeTenantDispatchScopes scopes;
                st1 = reconcileScopeActivity normalizedScopes st;
                (orderedScopes, st2) = tenantDispatchScopeOrder normalizedScopes st1;
                (st3, w3) = (if length orderedScopes = 0
                             then dispatchWithoutDiscoveredTenant D ctx st2 w1
                             else dispatch_scopes D ctx orderedScopes st2 w1) in
            sweepListedTenants D ctx st3 w3))"

subsection \<open>Running and stopping\<close>

text \<open>\<open>stopped\<close> is whether the stop channel is closed.\<close>

definition registerRun :: "dispatcher_state \<Rightarrow> bool \<times> dispatcher_state" where
  "registerRun st =
     (if running st then (False, st)
      else (True, st\<lparr>stopped := False, running := True\<rparr>))"

definition clearRun :: "dispatcher_state \<Rightarrow> dispatcher_state" where
  "clearRun st = st\<lparr>running := False\<rparr>"

definition Stop :: "dispatcher_state \<Rightarrow> dispatcher_state" where
  "Stop st = st\<lparr>stopped := True\<rparr>"

end
