(* ===== verification/Outbox_Dispatch_Laws.thy ===== *)
theory Outbox_Dispatch_Laws
  imports Outbox_Dispatcher Outbox_Claims
begin

text \<open>
  What a dispatch cycle guarantees, for any repository that keeps a contract, and that the
  PostgreSQL repository keeps it. \<open>bounded_repository\<close> is the contract on batch sizes;
  \<open>delivery\<close> the contract that only \<open>MarkPublished\<close> publishes. Both are interpreted on
  \<open>pg_ops\<close>, the repository model of \<open>Outbox_Store\<close> behind the interface.
\<close>

subsection \<open>The PostgreSQL repository behind the interface\<close>

text \<open>
  The world of one dispatcher: the table, the ids its handlers have delivered, the number of
  repository calls made so far, and everything else (brokers, clocks). \<open>env n\<close> is the surroundings
  of the \<open>n\<close>-th repository call. Handlers and callbacks act on the outside and do not write the
  table; a handler that reports success is what counts as a delivery.
\<close>

record 'o pg_world =
  w_table :: outbox_table
  w_delivered :: "uuid list"
  w_calls :: nat
  w_outside :: 'o

definition pg_op ::
  "(nat \<Rightarrow> pg_call) \<Rightarrow> (pg_call \<Rightarrow> outbox_table \<Rightarrow> 'a db_result) \<Rightarrow> tenant_context \<Rightarrow> 'o pg_world \<Rightarrow>
   'a returned \<times> 'o pg_world" where
  "pg_op env f ctx w =
     (let call = (env (w_calls w))\<lparr>call_ctx := ctx\<rparr>; w1 = w\<lparr>w_calls := Suc (w_calls w)\<rparr> in
      case f call (w_table w) of
        Inl e \<Rightarrow> (Inl e, w1)
      | Inr (x, tbl) \<Rightarrow> (Inr x, w1\<lparr>w_table := tbl\<rparr>))"

definition map_returned :: "('a \<Rightarrow> 'b) \<Rightarrow> 'a returned \<times> 'w \<Rightarrow> 'b returned \<times> 'w" where
  "map_returned f rw = (case rw of (Inl e, w) \<Rightarrow> (Inl e, w) | (Inr x, w) \<Rightarrow> (Inr (f x), w))"

abbreviation pg_events ::
  "(nat \<Rightarrow> pg_call) \<Rightarrow> (pg_call \<Rightarrow> outbox_table \<Rightarrow> (outbox_event list) db_result) \<Rightarrow> tenant_context \<Rightarrow>
   'o pg_world \<Rightarrow> (outbox_event option list) returned \<times> 'o pg_world" where
  "pg_events env f ctx w \<equiv> map_returned (map Some) (pg_op env f ctx w)"

definition pg_read ::
  "(nat \<Rightarrow> pg_call) \<Rightarrow> (pg_call \<Rightarrow> outbox_table \<Rightarrow> outbox_error + 'a) \<Rightarrow> tenant_context \<Rightarrow> 'o pg_world \<Rightarrow>
   'a returned \<times> 'o pg_world" where
  "pg_read env f = pg_op env (\<lambda>call tbl. bind_res (f call tbl) (\<lambda>x. Inr (x, tbl)))"

definition pg_ops ::
  "repository \<Rightarrow> (nat \<Rightarrow> pg_call) \<Rightarrow> (tenant_context \<Rightarrow> 'o pg_world \<Rightarrow> (string list) returned) \<Rightarrow>
   'o pg_world repo_ops" where
  "pg_ops repo env tenants =
     \<lparr>op_ListPending = (\<lambda>ctx limit. pg_events env (\<lambda>c. ListPending repo c limit) ctx),
      op_ListPendingByType = (\<lambda>ctx t limit. pg_events env (\<lambda>c. ListPendingByType repo c t limit) ctx),
      op_ListPendingByTypes =
        Some (\<lambda>ctx ts limit. pg_events env (\<lambda>c. ListPendingByTypes repo c ts limit) ctx),
      op_ResetForRetry =
        (\<lambda>ctx limit before m. pg_events env (\<lambda>c. ResetForRetry repo c limit before m) ctx),
      op_ResetStuckProcessing =
        (\<lambda>ctx limit before m. pg_events env (\<lambda>c. ResetStuckProcessing repo c limit before m) ctx),
      op_ReclaimStuckProcessing =
        Some (\<lambda>ctx limit before m w. map_returned (\<lambda>(retry, invalid). (map Some retry, invalid))
          (pg_op env (\<lambda>c. ReclaimStuckProcessing repo c limit before m) ctx w)),
      op_MarkPublished = (\<lambda>ctx i at. pg_op env (\<lambda>c. MarkPublished repo c i at) ctx),
      op_MarkFailed = (\<lambda>ctx i msg m. pg_op env (\<lambda>c. MarkFailed repo c i msg m) ctx),
      op_MarkInvalid = (\<lambda>ctx i msg. pg_op env (\<lambda>c. MarkInvalid repo c i msg) ctx),
      op_ListTenants = (\<lambda>ctx w. (tenants ctx w, w)),
      op_ListTenantDispatchScopes = None,
      op_ContextForTenantDispatchScope = (\<lambda>ctx _. ctx),
      op_RequiresTenant = Some (RequiresTenant (Some repo)),
      op_DeletePublishedBefore =
        Some (\<lambda>ctx before kept limit. pg_op env (\<lambda>c. DeletePublishedBefore repo c before kept limit) ctx),
      op_ListTenantsWithPublishedBefore =
        Some (\<lambda>ctx before kept. pg_read env (\<lambda>c. ListTenantsWithPublishedBefore repo c before kept) ctx),
      op_InvalidPurger =
        Some (\<lambda>ctx before kept limit. pg_op env (\<lambda>c. DeleteInvalidBefore repo c before kept limit) ctx,
              \<lambda>ctx before kept. pg_read env (\<lambda>c. ListTenantsWithInvalidBefore repo c before kept) ctx)\<rparr>"

definition pg_handlers :: "'o handler_registry \<Rightarrow> 'o pg_world handler_registry" where
  "pg_handlers hs t =
     map_option (\<lambda>h e w.
       (case h e (w_outside w) of
          (Inl err, out) \<Rightarrow> (Inl err, w\<lparr>w_outside := out\<rparr>)
        | (Inr _, out) \<Rightarrow> (Inr (), w\<lparr>w_outside := out, w_delivered := ID e # w_delivered w\<rparr>))) (hs t)"

definition outside :: "('o \<Rightarrow> 'o) \<Rightarrow> 'o pg_world \<Rightarrow> 'o pg_world" where
  "outside f w = w\<lparr>w_outside := f (w_outside w)\<rparr>"

definition pg_surroundings :: "'o surroundings \<Rightarrow> 'o pg_world surroundings" where
  "pg_surroundings s =
     \<lparr>wall_clock = wall_clock s \<circ> w_outside,
      dispatcher_clock = dispatcher_clock s \<circ> w_outside,
      ctx_cancelled = ctx_cancelled s \<circ> w_outside,
      wait_backoff = (\<lambda>d n w. case wait_backoff s d n (w_outside w) of
                        (r, out) \<Rightarrow> (r, w\<lparr>w_outside := out\<rparr>)),
      retryClassifier = retryClassifier s,
      error_message = error_message s,
      redacted_value = redacted_value s,
      OnInvalid = map_option (\<lambda>f e err. outside (f e err)) (OnInvalid s),
      OnFailed = map_option (\<lambda>f e err. outside (f e err)) (OnFailed s)\<rparr>"

text \<open>The dispatcher that \<open>NewDispatcher\<close> builds on this repository.\<close>

definition pg_dispatcher ::
  "repository \<Rightarrow> (nat \<Rightarrow> pg_call) \<Rightarrow> (tenant_context \<Rightarrow> 'o pg_world \<Rightarrow> (string list) returned) \<Rightarrow>
   'o handler_registry \<Rightarrow> dispatcher_config \<Rightarrow> 'o surroundings \<Rightarrow> 'o pg_world dispatcher" where
  "pg_dispatcher repo env tenants hs cfg s =
     \<lparr>disp_repo = pg_ops repo env tenants, disp_handlers = pg_handlers hs, disp_cfg = normalize cfg,
      disp_retention = (case bindRetention cfg (pg_ops repo env tenants) of Inl _ \<Rightarrow> [] | Inr ts \<Rightarrow> ts),
      disp_env = pg_surroundings s\<rparr>"

lemma pg_dispatcher_simps [simp]:
  "disp_repo (pg_dispatcher repo env tenants hs cfg s) = pg_ops repo env tenants"
  "disp_cfg (pg_dispatcher repo env tenants hs cfg s) = normalize cfg"
  "disp_handlers (pg_dispatcher repo env tenants hs cfg s) = pg_handlers hs"
  "disp_env (pg_dispatcher repo env tenants hs cfg s) = pg_surroundings s"
  by (simp_all add: pg_dispatcher_def)

lemma NewDispatcher_pg:
  assumes "NewDispatcher (Some (pg_ops repo env tenants)) (Some (pg_handlers hs)) cfg (pg_surroundings s) =
    Inr (D, st)"
  shows "D = pg_dispatcher repo env tenants hs cfg s \<and> config_ok (disp_cfg D) \<and>
    st = ensureFailureCounterFallback initial_state"
  using assms by (auto simp: NewDispatcher_def bind_res_eq_Inr pg_dispatcher_def intro: normalize_ok)

subsection \<open>Batches\<close>

lemma deduplicate_loop_members:
  "x \<in> set (deduplicate_loop seen es) \<Longrightarrow> \<exists>e. x = Some e \<and> ID e \<notin> set seen \<and> Some e \<in> set es"
proof (induction seen es rule: deduplicate_loop.induct)
  case (3 seen e es)
  then show ?case by (cases "ID e \<in> set seen") auto
qed simp_all

lemma deduplicate_loop_distinct: "distinct (map (ID \<circ> the) (deduplicate_loop seen es))"
proof (induction seen es rule: deduplicate_loop.induct)
  case (3 seen e es)
  have "ID e \<notin> (ID \<circ> the) ` set (deduplicate_loop (ID e # seen) es)"
  proof
    assume "ID e \<in> (ID \<circ> the) ` set (deduplicate_loop (ID e # seen) es)"
    then obtain x where x: "x \<in> set (deduplicate_loop (ID e # seen) es)" "ID e = ID (the x)" by auto
    from deduplicate_loop_members [OF x(1)] obtain e' where "x = Some e'" "ID e' \<notin> set (ID e # seen)"
      by blast
    with x(2) show False by simp
  qed
  then show ?case using 3 by (cases "ID e \<in> set seen") simp_all
qed simp_all

lemma deduplicate_loop_length: "length (deduplicate_loop seen es) \<le> length es"
  by (induction seen es rule: deduplicate_loop.induct) (auto simp: le_SucI)

lemma deduplicateEvents_eq: "deduplicateEvents es = deduplicate_loop [] es"
  by (simp add: deduplicateEvents_def)

text \<open>Every collected event is kept once: ids are distinct and none is lost.\<close>

lemma deduplicate_loop_ids:
  "(ID \<circ> the) ` set (deduplicate_loop seen es) = {ID e |e. Some e \<in> set es} - set seen"
proof (induction seen es rule: deduplicate_loop.induct)
  case (3 seen e es)
  then show ?case by (cases "ID e \<in> set seen") auto
qed simp_all

text \<open>The contract: a claim returns at most as many events as it was asked for.\<close>

locale bounded_repository =
  fixes D :: "'w dispatcher"
  assumes pending_bounded: "op_ListPending (disp_repo D) ctx limit w = (Inr es, w') \<Longrightarrow> 0 < limit \<Longrightarrow>
      int (length es) \<le> limit"
    and type_bounded: "op_ListPendingByType (disp_repo D) ctx t limit w = (Inr es, w') \<Longrightarrow> 0 < limit \<Longrightarrow>
      int (length es) \<le> limit"
    and types_bounded: "op_ListPendingByTypes (disp_repo D) = Some f \<Longrightarrow> f ctx ts limit w = (Inr es, w') \<Longrightarrow>
      0 < limit \<Longrightarrow> int (length es) \<le> limit"
    and retry_bounded: "op_ResetForRetry (disp_repo D) ctx limit before m w = (Inr es, w') \<Longrightarrow> 0 < limit \<Longrightarrow>
      int (length es) \<le> limit"
    and stuck_bounded: "op_ResetStuckProcessing (disp_repo D) ctx limit before m w = (Inr es, w') \<Longrightarrow>
      0 < limit \<Longrightarrow> int (length es) \<le> limit"
    and reclaim_bounded: "op_ReclaimStuckProcessing (disp_repo D) = Some g \<Longrightarrow>
      g ctx limit before m w = (Inr (es, gone), w') \<Longrightarrow> 0 < limit \<Longrightarrow> int (length es) \<le> limit"
begin

lemma priority_loop_bounded:
  assumes "priority_loop D ctx budget ts result w = (es, w')" and "int (length result) \<le> budget"
  shows "int (length es) \<le> budget"
  using assms
proof (induction ts arbitrary: result w)
  case (Cons t ts)
  let ?rem = "budget - int (length result)"
  show ?case
  proof (cases "?rem \<le> 0")
    case False
    obtain r w1 where r: "op_ListPendingByType (disp_repo D) ctx t ?rem w = (r, w1)" by fastforce
    show ?thesis
    proof (cases r)
      case (Inl e)
      then show ?thesis using Cons False r by (auto simp: Let_def)
    next
      case (Inr events)
      then have "int (length events) \<le> ?rem" using type_bounded [of ctx t ?rem w events w1] r False by simp
      then show ?thesis using Cons.IH [of "result @ events" w1] Cons.prems Inr r False by (simp add: Let_def)
    qed
  qed (use Cons.prems in \<open>simp add: Let_def\<close>)
qed simp

lemma collectPriority_bounded:
  assumes "collectPriorityEvents D ctx budget w = (es, w')" and "0 \<le> budget"
  shows "int (length es) \<le> budget"
proof (cases "budget \<le> 0 \<or> PriorityEventTypes (disp_cfg D) = []")
  case True
  then show ?thesis using assms by (auto simp: collectPriorityEvents_def)
next
  case False
  show ?thesis
  proof (cases "op_ListPendingByTypes (disp_repo D)")
    case None
    then show ?thesis using assms False priority_loop_bounded [of ctx budget _ "[]"]
      by (auto simp: collectPriorityEvents_def)
  next
    case (Some f)
    obtain r w1 where r: "f ctx (PriorityEventTypes (disp_cfg D)) budget w = (r, w1)" by fastforce
    then have "es = or_empty r" using assms False Some by (auto simp: collectPriorityEvents_def)
    then show ?thesis
      using types_bounded [OF Some, of ctx _ budget w _ w1] r False assms(2)
      by (cases r) (auto simp: or_empty_def)
  qed
qed

lemma resetStuck_bounded:
  assumes "resetStuckProcessing D ctx limit before w = (r, w')" and "0 < limit"
  shows "int (length (or_empty r)) \<le> limit"
proof (cases "op_ReclaimStuckProcessing (disp_repo D)")
  case None
  then show ?thesis
    using assms stuck_bounded [of ctx limit before _ w] by (cases r) (auto simp: resetStuckProcessing_def or_empty_def)
next
  case (Some g)
  obtain q w1 where q: "g ctx limit before (MaxDispatchAttempts (disp_cfg D)) w = (q, w1)" by fastforce
  then show ?thesis
    using assms Some reclaim_bounded [OF Some, of ctx limit before _ w]
    by (cases q) (auto simp: resetStuckProcessing_def or_empty_def)
qed

lemma retry_or_empty_bounded:
  assumes "op_ResetForRetry (disp_repo D) ctx limit before m w = (r, w')" and "0 < limit"
  shows "int (length (or_empty r)) \<le> limit"
  using retry_bounded [of ctx limit before m w] assms by (cases r) (auto simp: or_empty_def)

lemma collectEvents_bounded:
  assumes "collectEvents D ctx st w = (es, st', w')" and "0 < BatchSize (disp_cfg D)"
    and "0 < PriorityBudget (disp_cfg D)"
  shows "int (length es) \<le> BatchSize (disp_cfg D)"
proof -
  let ?cfg = "disp_cfg D" and ?B = "BatchSize (disp_cfg D)"
  have dedup: "int (length (deduplicateEvents xs)) \<le> ?B" if "int (length xs) \<le> ?B" for xs
    using that deduplicate_loop_length [of "[]" xs] by (simp add: deduplicateEvents_eq)
  obtain pe w1 where pe: "collectPriorityEvents D ctx (min (PriorityBudget ?cfg) ?B) w = (pe, w1)" by fastforce
  have pe_len: "int (length pe) \<le> ?B" using collectPriority_bounded [OF pe] assms(2,3) by simp
  let ?sl = "?B - int (length pe)"
  obtain sr w2 where sr: "resetStuckProcessing D ctx ?sl
      (wall_clock (disp_env D) w - ProcessingTimeout ?cfg) w1 = (sr, w2)" by fastforce
  let ?se = "or_empty sr"
  let ?fl = "min (?B - (int (length pe) + int (length ?se))) (MaxFailedPerBatch ?cfg)"
  obtain fr w3 where fr: "op_ResetForRetry (disp_repo D) ctx ?fl
      (wall_clock (disp_env D) w - RetryWindow ?cfg) (MaxDispatchAttempts ?cfg) w2 = (fr, w3)" by fastforce
  let ?fe = "or_empty fr"
  let ?rl = "?B - (int (length pe) + int (length ?se) + int (length ?fe))"
  obtain lr w4 where lr: "op_ListPending (disp_repo D) ctx ?rl w3 = (lr, w4)" by fastforce
  have se_len: "int (length pe) + int (length ?se) \<le> ?B" if "0 < ?sl"
    using resetStuck_bounded [OF sr that] by simp
  have fe_len: "int (length pe) + int (length ?se) + int (length ?fe) \<le> ?B" if "0 < ?fl"
    using retry_or_empty_bounded [OF fr that] that by simp
  have le_len: "int (length pe) + int (length ?se) + int (length ?fe) + int (length le) \<le> ?B"
    if "0 < ?rl" "lr = Inr le" for le
    using pending_bounded [of ctx ?rl w3 le w4] lr that by simp
  have "es = deduplicateEvents pe \<or> (0 < ?sl \<and> es = deduplicateEvents (pe @ ?se)) \<or>
      (0 < ?fl \<and> es = deduplicateEvents (pe @ ?se @ ?fe)) \<or>
      (\<exists>le. 0 < ?rl \<and> lr = Inr le \<and> es = deduplicateEvents (pe @ ?se @ ?fe @ le))"
    using assms(1) pe sr fr lr
    by (cases lr) (auto simp: collectEvents_def Let_def split: if_splits)
  then show ?thesis using dedup pe_len se_len fe_len le_len by auto
qed

end

subsection \<open>The PostgreSQL repository keeps the contract\<close>

lemma claim_events_length:
  assumes "claim_events repo call fromStatus select tbl = Inr (es, tbl')"
  shows "\<exists>evs. select tbl = Inr evs \<and> length es = length evs"
  using assms
  by (auto simp: claim_events_def bind_res_eq_Inr applyProcessingState_def Let_def split: if_splits)

lemma sql_select_length: "0 \<le> limit \<Longrightarrow> int (length (sql_select P key limit tbl)) \<le> limit"
  by (simp add: sql_select_def)

lemma claim_op_length:
  assumes "unless_missing call [] tbl (withTenantTxOrExisting repo call False
      (claim_events repo call fromStatus select) tbl) = Inr (es, tbl')"
    and "\<And>evs. select tbl = Inr evs \<Longrightarrow> int (length evs) \<le> limit" and "0 < limit"
  shows "int (length es) \<le> limit"
  using unless_missing_Inr [OF assms(1)]
proof
  assume "withTenantTxOrExisting repo call False (claim_events repo call fromStatus select) tbl = Inr (es, tbl')"
  from claim_events_length [OF withTenantTx_Inr [OF this]] assms(2) show ?thesis by auto
qed (use assms(3) in simp)

lemma select_rows_bounded:
  assumes "0 < limit"
  shows "listPendingRows repo call limit tbl = Inr evs \<Longrightarrow> int (length evs) \<le> limit"
    and "listPendingByTypeRows repo call t limit tbl = Inr evs \<Longrightarrow> int (length evs) \<le> limit"
    and "listPendingByTypesRows repo call ts limit tbl = Inr evs \<Longrightarrow> int (length evs) \<le> limit"
    and "listFailedForRetryRows repo call limit before m upd tbl = Inr evs \<Longrightarrow> int (length evs) \<le> limit"
    and "listStuckProcessingRows repo call limit before tbl = Inr evs \<Longrightarrow> int (length evs) \<le> limit"
  using assms
  by (auto simp: listPendingRows_def listPendingByTypeRows_def listPendingByTypesRows_def
      listFailedForRetryRows_def listStuckProcessingRows_def bind_res_eq_Inr sql_select_length)

lemma claim_ops_bounded:
  assumes "0 < limit"
  shows "ListPending repo call limit tbl = Inr (es, tbl') \<Longrightarrow> int (length es) \<le> limit"
    and "ListPendingByType repo call t limit tbl = Inr (es, tbl') \<Longrightarrow> int (length es) \<le> limit"
    and "ListPendingByTypes repo call ts limit tbl = Inr (es, tbl') \<Longrightarrow> int (length es) \<le> limit"
    and "ResetForRetry repo call limit before m tbl = Inr (es, tbl') \<Longrightarrow> int (length es) \<le> limit"
proof -
  show "int (length es) \<le> limit" if "ListPending repo call limit tbl = Inr (es, tbl')"
    by (rule claim_op_length [OF _ select_rows_bounded(1) [OF assms] assms])
      (use that in \<open>auto simp: ListPending_def bind_res_eq_Inr\<close>)
  show "int (length es) \<le> limit" if "ListPendingByType repo call t limit tbl = Inr (es, tbl')"
    by (rule claim_op_length [OF _ select_rows_bounded(2) [OF assms] assms])
      (use that in \<open>auto simp: ListPendingByType_def bind_res_eq_Inr Let_def\<close>)
  show "int (length es) \<le> limit" if "ListPendingByTypes repo call ts limit tbl = Inr (es, tbl')"
    by (rule claim_op_length [OF _ select_rows_bounded(3) [OF assms] assms])
      (use that in \<open>auto simp: ListPendingByTypes_def bind_res_eq_Inr Let_def\<close>)
  show "int (length es) \<le> limit" if "ResetForRetry repo call limit before m tbl = Inr (es, tbl')"
    by (rule claim_op_length [OF _ select_rows_bounded(4) [OF assms] assms])
      (use that in \<open>auto simp: ResetForRetry_def bind_res_eq_Inr\<close>)
qed

lemma reclaim_body_length:
  assumes "reclaim_body repo call limit before m tbl = Inr ((retry, gone), tbl')" and "0 < limit"
  shows "int (length retry) \<le> limit"
proof -
  obtain evs t where evs: "listStuckProcessingRows repo call limit before tbl = Inr evs"
    and t: "tenantIDFromContext repo (call_ctx call) = Inr t"
    using assms(1) by (auto simp: reclaim_body_def bind_res_eq_Inr)
  have "length retry = length (fst (splitStuckEvents evs m))"
    using assms(1) evs t
    by (auto simp: reclaim_body_def bind_res_eq_Inr Let_def reclaim_retry_def
        applyStuckReprocessingState_def split: if_splits prod.splits)
  also have "\<dots> \<le> length evs" by (simp add: splitStuckEvents_def)
  finally show ?thesis using select_rows_bounded(5) [OF assms(2) evs] by linarith
qed

lemma ReclaimStuckProcessing_bounded:
  assumes "ReclaimStuckProcessing repo call limit before m tbl = Inr ((retry, gone), tbl')" and "0 < limit"
  shows "int (length retry) \<le> limit"
proof -
  have "unless_missing call ([], []) tbl (withTenantTxOrExisting repo call False
      (reclaim_body repo call limit before m) tbl) = Inr ((retry, gone), tbl')"
    using assms(1) by (auto simp: ReclaimStuckProcessing_def bind_res_eq_Inr)
  from unless_missing_Inr [OF this] show ?thesis
    using assms(2) by (auto dest!: withTenantTx_Inr reclaim_body_length)
qed

lemma pg_op_Inr:
  "pg_op env f ctx w = (Inr x, w') \<Longrightarrow> \<exists>call tbl. f call (w_table w) = Inr (x, tbl) \<and> w_table w' = tbl"
  by (auto simp: pg_op_def Let_def split: sum.splits)

lemma map_returned_Inr: "map_returned g rw = (Inr y, w') \<longleftrightarrow> (\<exists>x. rw = (Inr x, w') \<and> y = g x)"
  by (auto simp: map_returned_def split: sum.splits prod.splits)

lemma pg_events_bounded:
  assumes "pg_events env f ctx w = (Inr es, w')"
    and "\<And>call xs tbl. f call (w_table w) = Inr (xs, tbl) \<Longrightarrow> int (length xs) \<le> limit"
  shows "int (length es) \<le> limit"
  using assms(1) by (auto simp: map_returned_Inr dest!: pg_op_Inr assms(2))

interpretation pg: bounded_repository "pg_dispatcher repo env tenants hs cfg s" for repo env tenants hs cfg s
proof
  fix ctx limit w es w'
  assume "op_ListPending (disp_repo (pg_dispatcher repo env tenants hs cfg s)) ctx limit w = (Inr es, w')" and l: "0 < limit"
  then have "pg_events env (\<lambda>c. ListPending repo c limit) ctx w = (Inr es, w')" by (simp add: pg_ops_def)
  then show "int (length es) \<le> limit" by (rule pg_events_bounded) (rule claim_ops_bounded(1) [OF l])
next
  fix ctx t limit w es w'
  assume "op_ListPendingByType (disp_repo (pg_dispatcher repo env tenants hs cfg s)) ctx t limit w = (Inr es, w')"
    and l: "0 < limit"
  then have "pg_events env (\<lambda>c. ListPendingByType repo c t limit) ctx w = (Inr es, w')" by (simp add: pg_ops_def)
  then show "int (length es) \<le> limit" by (rule pg_events_bounded) (rule claim_ops_bounded(2) [OF l])
next
  fix f ctx ts limit w es w'
  assume "op_ListPendingByTypes (disp_repo (pg_dispatcher repo env tenants hs cfg s)) = Some f"
    and "f ctx ts limit w = (Inr es, w')" and l: "0 < limit"
  then have "pg_events env (\<lambda>c. ListPendingByTypes repo c ts limit) ctx w = (Inr es, w')" by (auto simp: pg_ops_def)
  then show "int (length es) \<le> limit" by (rule pg_events_bounded) (rule claim_ops_bounded(3) [OF l])
next
  fix ctx limit before m w es w'
  assume "op_ResetForRetry (disp_repo (pg_dispatcher repo env tenants hs cfg s)) ctx limit before m w = (Inr es, w')"
    and l: "0 < limit"
  then have "pg_events env (\<lambda>c. ResetForRetry repo c limit before m) ctx w = (Inr es, w')" by (simp add: pg_ops_def)
  then show "int (length es) \<le> limit" by (rule pg_events_bounded) (rule claim_ops_bounded(4) [OF l])
next
  fix ctx limit before m w es w'
  assume "op_ResetStuckProcessing (disp_repo (pg_dispatcher repo env tenants hs cfg s)) ctx limit before m w = (Inr es, w')"
    and l: "0 < limit"
  then have "pg_events env (\<lambda>c. ResetStuckProcessing repo c limit before m) ctx w = (Inr es, w')"
    by (simp add: pg_ops_def)
  then show "int (length es) \<le> limit"
    by (rule pg_events_bounded)
      (auto simp: ResetStuckProcessing_def bind_res_eq_Inr dest: ReclaimStuckProcessing_bounded [OF _ l])
next
  fix g ctx limit before m w es gone w'
  assume "op_ReclaimStuckProcessing (disp_repo (pg_dispatcher repo env tenants hs cfg s)) = Some g"
    and "g ctx limit before m w = (Inr (es, gone), w')" and l: "0 < limit"
  then obtain xs where "pg_op env (\<lambda>c. ReclaimStuckProcessing repo c limit before m) ctx w = (Inr (xs, gone), w')"
      "es = map Some xs"
    by (auto simp: pg_ops_def map_returned_Inr)
  then show "int (length es) \<le> limit"
    by (auto dest!: pg_op_Inr ReclaimStuckProcessing_bounded [OF _ l])
qed

subsection \<open>The counters of a cycle\<close>

lemma dispatch_loop_counts:
  assumes "dispatch_loop D ctx es res w = (res', w')"
  shows "Processed res' - Processed res = (Published res' - Published res) + (Failed res' - Failed res) \<and>
    Published res \<le> Published res' \<and> Failed res \<le> Failed res' \<and>
    0 \<le> StateUpdateFailed res' - StateUpdateFailed res \<and>
    StateUpdateFailed res' - StateUpdateFailed res \<le> Published res' - Published res \<and>
    Processed res' \<le> Processed res + int (length es)"
  using assms
proof (induction es arbitrary: res w)
  case (Cons x es)
  show ?case
  proof (cases "ctx_cancelled (disp_env D) w")
    case False
    show ?thesis
    proof (cases x)
      case None
      then show ?thesis using Cons.IH [of res w] Cons.prems False by simp
    next
      case (Some e)
      obtain f w1 where f: "publishEventWithRetry D e w = (f, w1)" by fastforce
      show ?thesis
      proof (cases f)
        case (Some err)
        then show ?thesis
          using Cons.IH [of "res\<lparr>Processed := Processed res + 1, Failed := Failed res + 1\<rparr>"
              "handlePublishError D ctx e err w1"] Cons.prems False \<open>x = Some e\<close> f
          by (simp add: Let_def)
      next
        case None
        obtain r w2 where r: "op_MarkPublished (disp_repo D) ctx (ID e) (wall_clock (disp_env D) w1) w1 = (r, w2)"
          by fastforce
        show ?thesis
        proof (cases r)
          case (Inl err)
          then show ?thesis
            using Cons.IH [of "res\<lparr>Processed := Processed res + 1, Published := Published res + 1,
                StateUpdateFailed := StateUpdateFailed res + 1\<rparr>" w2] Cons.prems False \<open>x = Some e\<close> f None r
            by (simp add: Let_def)
        next
          case (Inr u)
          then show ?thesis
            using Cons.IH [of "res\<lparr>Processed := Processed res + 1, Published := Published res + 1\<rparr>" w2]
              Cons.prems False \<open>x = Some e\<close> f None r
            by (simp add: Let_def)
        qed
      qed
    qed
  qed (use Cons.prems in simp)
qed simp

context bounded_repository
begin

lemma DispatchOnce_counts:
  assumes "DispatchOnceResult D ctx st w = (res, st', w')" and "config_ok (disp_cfg D)"
  shows "Processed res = Published res + Failed res \<and> 0 \<le> Failed res \<and>
    0 \<le> StateUpdateFailed res \<and> StateUpdateFailed res \<le> Published res \<and>
    Processed res \<le> BatchSize (disp_cfg D)"
proof -
  obtain es st1 w1 where c: "collectEvents D ctx st w = (es, st1, w1)" by (metis prod_cases3)
  have "\<exists>w2. dispatch_loop D ctx es empty_result w1 = (res, w2)"
    using assms(1) c by (auto simp: DispatchOnceResult_def split: prod.splits)
  then obtain w2 where "dispatch_loop D ctx es empty_result w1 = (res, w2)" ..
  from dispatch_loop_counts [OF this] show ?thesis
    using collectEvents_bounded [OF c] assms(2) by (simp add: empty_result_def config_ok_def)
qed

end

text \<open>A dispatcher over a repository without tenants, whose only handler always succeeds.\<close>

definition calm_surroundings :: "time \<Rightarrow> unit surroundings" where
  "calm_surroundings now =
     \<lparr>wall_clock = (\<lambda>_. now), dispatcher_clock = (\<lambda>_. now), ctx_cancelled = (\<lambda>_. False),
      wait_backoff = (\<lambda>_ _ u. (Inr (), u)), retryClassifier = None, error_message = (\<lambda>_. []),
      redacted_value = lit ''***'', OnInvalid = None, OnFailed = None\<rparr>"

definition paid_handlers :: "unit handler_registry" where
  "paid_handlers = [''paid'' \<mapsto> (\<lambda>_ u. (Inr (), u))]"

definition sample_dispatcher :: "unit pg_world dispatcher" where
  "sample_dispatcher =
     pg_dispatcher plain_repo (\<lambda>_. calm_call 200) (\<lambda>_ _. Inr []) paid_handlers DefaultDispatcherConfig
       (calm_surroundings 200)"

definition sample_world :: "unit pg_world" where
  "sample_world = \<lparr>w_table = [sample_row 1], w_delivered = [], w_calls = 0, w_outside = ()\<rparr>"

lemma sample_NewDispatcher:
  "NewDispatcher (Some (pg_ops plain_repo (\<lambda>_. calm_call 200) (\<lambda>_ _. Inr []))) (Some (pg_handlers paid_handlers))
     DefaultDispatcherConfig (pg_surroundings (calm_surroundings 200)) =
   Inr (sample_dispatcher, ensureFailureCounterFallback initial_state)"
  by (simp add: NewDispatcher_def sample_dispatcher_def pg_dispatcher_def validate_def bindRetention_def
      retentionEnabled_def DefaultDispatcherConfig_def)

subsubsection \<open>One cycle of it, computed\<close>

definition stored_sample :: "string \<Rightarrow> outbox_event" where
  "stored_sample status = (sample_event 1)\<lparr>Status := status, UpdatedAt := 200\<rparr>"

definition published_sample :: pg_row where
  "published_sample =
     \<lparr>row_tenant = [], row_event = (stored_sample StatusPublished)\<lparr>PublishedAt := Some 200\<rparr>\<rparr>"

lemma stored_sample_simps [simp]:
  "ID (stored_sample s) = 1" "Status (stored_sample s) = s"
  by (simp_all add: stored_sample_def sample_event_def)

lemma normalize_default: "normalize DefaultDispatcherConfig = DefaultDispatcherConfig"
  by (simp add: normalize_def Let_def normalizeRetention_def DefaultDispatcherConfig_def or_default_def
      retentionEnabled_def default_defs)

lemma sample_cfg: "disp_cfg sample_dispatcher = DefaultDispatcherConfig"
  by (simp add: sample_dispatcher_def normalize_default)

lemma calm_background: "(calm_call n)\<lparr>call_ctx := background\<rparr> = calm_call n"
  by (simp add: calm_call_def)

lemma sample_reclaim:
  "ReclaimStuckProcessing plain_repo (calm_call 200) limit before m [sample_row 1] =
     (if limit \<le> 0 then Inl ErrLimitMustBePositive
      else if m \<le> 0 then Inl ErrMaxAttemptsMustBePositive else Inr (([], []), [sample_row 1]))"
  by (simp add: ReclaimStuckProcessing_def reclaim_body_def listStuckProcessingRows_def sql_select_def
      sample_row_def sample_event_def splitStuckEvents_def reclaim_retry_def reclaim_exhausted_def
      collectEventIDs_def)

lemma sample_retry:
  "ResetForRetry plain_repo (calm_call 200) limit before m [sample_row 1] =
     (if limit \<le> 0 then Inl ErrLimitMustBePositive
      else if m \<le> 0 then Inl ErrMaxAttemptsMustBePositive else Inr ([], [sample_row 1]))"
  by (simp add: ResetForRetry_def claim_events_def listFailedForRetryRows_def sql_select_def
      sample_row_def sample_event_def)

lemma sample_pending:
  "ListPending plain_repo (calm_call 200) 50 [sample_row 1] =
     Inr ([stored_sample StatusProcessing],
          [\<lparr>row_tenant = [], row_event = stored_sample StatusProcessing\<rparr>])"
  by (simp add: ListPending_def claim_events_def listPendingRows_def sql_select_def collectEventIDs_def
      markEventsProcessing_def markEventsWithStatus_def update_exactly_def tenantFilterClause_def
      sql_update_def ensureRowsAffectedExact_def applyProcessingState_def sample_event_def
      sample_row_def stored_sample_def)

lemma sample_mark:
  "MarkPublished plain_repo (calm_call 200) 1 200
     [\<lparr>row_tenant = [], row_event = stored_sample StatusProcessing\<rparr>] = Inr ((), [published_sample])"
  by (simp add: MarkPublished_def update_processing_def sql_update_def stored_sample_def
      published_sample_def sample_event_def ensureRowsAffected_def)

lemma sample_collect:
  "collectEvents sample_dispatcher background st sample_world =
     ([Some (stored_sample StatusProcessing)],
      clearListPendingFailureCount (tenantKeyFromContext background) st,
      sample_world\<lparr>w_table := [\<lparr>row_tenant = [], row_event = stored_sample StatusProcessing\<rparr>],
                   w_calls := 3\<rparr>)"
  by (simp add: collectEvents_def sample_dispatcher_def normalize_default sample_world_def
      collectPriorityEvents_def Let_def resetStuckProcessing_def pg_ops_def pg_op_def sample_reclaim
      sample_retry sample_pending map_returned_def or_empty_def calm_background)
    (simp add: DefaultDispatcherConfig_def default_defs sample_reclaim sample_retry sample_pending
      or_empty_def deduplicateEvents_def)

lemma sample_publish:
  "publishEventWithRetry sample_dispatcher (stored_sample StatusProcessing) w =
     (None, w\<lparr>w_delivered := 1 # w_delivered w\<rparr>)"
  by (simp add: publishEventWithRetry_def sample_cfg DefaultDispatcherConfig_def default_defs)
    (simp add: sample_dispatcher_def publishEvent_def Handle_def stored_sample_def sample_event_def
      numeral_3_eq_3 pg_handlers_def paid_handlers_def)

lemma sample_cycle:
  "DispatchOnceResult sample_dispatcher background st sample_world =
     (\<lparr>Processed = 1, Published = 1, Failed = 0, StateUpdateFailed = 0\<rparr>,
      clearListPendingFailureCount (tenantKeyFromContext background) st,
      sample_world\<lparr>w_table := [published_sample], w_delivered := [1], w_calls := 4\<rparr>)"
proof -
  have [simp]: "tenantMetricAttribute sample_dispatcher k s = (None, s)" for k s
    by (simp add: tenantMetricAttribute_def sample_cfg DefaultDispatcherConfig_def)
  show ?thesis
    unfolding DispatchOnceResult_def sample_collect
    by (simp add: sample_publish)
      (simp add: sample_dispatcher_def empty_result_def pg_surroundings_def calm_surroundings_def
        pg_ops_def pg_op_def calm_background sample_world_def sample_mark)
qed

subsection \<open>Accounting\<close>

text \<open>
  A cycle of a dispatcher built by \<open>NewDispatcher\<close> on the PostgreSQL repository accounts for
  every event it takes and takes at most a batch: the events processed are those published and
  those failed, the events whose state update failed are among the published, and their number
  does not exceed \<open>BatchSize\<close>, whatever the options were, whatever the handlers do, and however many
  of the repository's calls fail.
\<close>

theorem DispatchOnce_accounts_for_batch:
  assumes "NewDispatcher (Some (pg_ops repo env tenants)) (Some (pg_handlers hs)) cfg (pg_surroundings s) =
      Inr (D, st0)"
    and "DispatchOnceResult D ctx st w = (res, st', w')"
  shows "Processed res = Published res + Failed res \<and> 0 \<le> Failed res \<and>
    0 \<le> StateUpdateFailed res \<and> StateUpdateFailed res \<le> Published res \<and>
    Processed res \<le> BatchSize (disp_cfg D)"
  using pg.DispatchOnce_counts NewDispatcher_pg [OF assms(1)] assms(2) by blast

theorem DispatchOnce_accounts_for_batch_witness:
  "(\<lambda>res. Processed res = Published res + Failed res \<and> 0 \<le> Failed res \<and>
      0 \<le> StateUpdateFailed res \<and> StateUpdateFailed res \<le> Published res \<and>
      Processed res \<le> BatchSize (disp_cfg sample_dispatcher))
     \<lparr>Processed = 1, Published = 1, Failed = 0, StateUpdateFailed = 0\<rparr>"
  by (rule DispatchOnce_accounts_for_batch [OF sample_NewDispatcher sample_cycle])

end
