(* ===== verification/Outbox_Delivery.thy ===== *)
theory Outbox_Delivery
  imports Outbox_Dispatch_Laws
begin

text \<open>
  Delivery: an event becomes \<open>PUBLISHED\<close> only in a tick in which its handler succeeded on it. The
  locale \<open>delivery\<close> states what the dispatcher needs of the repository, the handlers and the
  callbacks for this, carries the law through every function of \<open>dispatcher.go\<close>, and is
  interpreted on the PostgreSQL repository.
\<close>

text \<open>From \<open>w\<close> to \<open>w'\<close> the log of deliveries grew by \<open>new\<close>, and only events of \<open>new\<close> became
  published.\<close>

definition delivers :: "('w \<Rightarrow> uuid set) \<Rightarrow> ('w \<Rightarrow> uuid list) \<Rightarrow> 'w \<Rightarrow> 'w \<Rightarrow> bool" where
  "delivers published delivered w w' \<longleftrightarrow>
     (\<exists>new. delivered w' = new @ delivered w \<and> published w' \<subseteq> published w \<union> set new)"

lemma delivers_refl [simp, intro]: "delivers p d w w"
  by (simp add: delivers_def)

lemma delivers_trans [trans]:
  assumes "delivers p d w w'" and "delivers p d w' w''"
  shows "delivers p d w w''"
proof -
  obtain new new' where n: "d w' = new @ d w" "p w' \<subseteq> p w \<union> set new"
      "d w'' = new' @ d w'" "p w'' \<subseteq> p w' \<union> set new'"
    using assms by (auto simp: delivers_def)
  then have "d w'' = (new' @ new) @ d w \<and> p w'' \<subseteq> p w \<union> set (new' @ new)" by auto
  then show ?thesis unfolding delivers_def by blast
qed

lemma delivers_fold:
  assumes "\<And>x v. delivers p d (g v) (g (f x v))"
  shows "delivers p d (g v) (g (fold f xs v))"
proof (induction xs arbitrary: v)
  case (Cons x xs)
  then show ?case using delivers_trans [OF assms [of v x]] by simp
qed simp

locale delivery =
  fixes D :: "'w dispatcher" and published :: "'w \<Rightarrow> uuid set" and delivered :: "'w \<Rightarrow> uuid list"
  assumes handler_delivers: "disp_handlers D t = Some h \<Longrightarrow> h e w = (Inr u, w') \<Longrightarrow>
      delivered w' = ID e # delivered w \<and> published w' \<subseteq> published w"
    and handler_fails: "disp_handlers D t = Some h \<Longrightarrow> h e w = (Inl err, w') \<Longrightarrow>
      delivers published delivered w w'"
    and mark_published: "op_MarkPublished (disp_repo D) ctx i at w = (r, w') \<Longrightarrow>
      delivered w' = delivered w \<and> published w' \<subseteq> insert i (published w)"
    and mark_failed: "delivers published delivered w (snd (op_MarkFailed (disp_repo D) ctx i msg m w))"
    and mark_invalid: "delivers published delivered w (snd (op_MarkInvalid (disp_repo D) ctx i msg w))"
    and list_pending: "delivers published delivered w (snd (op_ListPending (disp_repo D) ctx limit w))"
    and list_type: "delivers published delivered w (snd (op_ListPendingByType (disp_repo D) ctx t limit w))"
    and list_types: "op_ListPendingByTypes (disp_repo D) = Some f \<Longrightarrow>
      delivers published delivered w (snd (f ctx ts limit w))"
    and reset_retry: "delivers published delivered w (snd (op_ResetForRetry (disp_repo D) ctx limit before m w))"
    and reset_stuck:
      "delivers published delivered w (snd (op_ResetStuckProcessing (disp_repo D) ctx limit before m w))"
    and reclaim_stuck: "op_ReclaimStuckProcessing (disp_repo D) = Some g \<Longrightarrow>
      delivers published delivered w (snd (g ctx limit before m w))"
    and list_tenants: "delivers published delivered w (snd (op_ListTenants (disp_repo D) ctx w))"
    and list_scopes: "op_ListTenantDispatchScopes (disp_repo D) = Some k \<Longrightarrow>
      delivers published delivered w (snd (k ctx w))"
    and retention_delete: "target \<in> set (disp_retention D) \<Longrightarrow>
      delivers published delivered w (snd (target_delete target ctx before kept limit w))"
    and retention_list: "target \<in> set (disp_retention D) \<Longrightarrow> target_list target = Some l \<Longrightarrow>
      delivers published delivered w (snd (l ctx before kept w))"
    and waiting: "delivers published delivered w (snd (wait_backoff (disp_env D) pause n w))"
    and on_invalid: "OnInvalid (disp_env D) = Some cb \<Longrightarrow> delivers published delivered w (cb e failure w)"
    and on_failed: "OnFailed (disp_env D) = Some cb \<Longrightarrow> delivers published delivered w (cb e failure w)"
begin

abbreviation step :: "'w \<Rightarrow> 'w \<Rightarrow> bool" where
  "step \<equiv> delivers published delivered"

lemma step_result: "step w (snd (f w)) \<Longrightarrow> f w = (r, w') \<Longrightarrow> step w w'"
  by simp

lemma publishEvent_ok:
  assumes "publishEvent D (Some e) w = (Inr u, w')"
  shows "delivered w' = ID e # delivered w \<and> published w' \<subseteq> published w"
  using assms handler_delivers
  by (auto simp: publishEvent_def Handle_def Let_def split: if_splits option.splits)

lemma publishEvent_step: "publishEvent D (Some e) w = (r, w') \<Longrightarrow> step w w'"
proof (cases r)
  case (Inl err)
  moreover assume "publishEvent D (Some e) w = (r, w')"
  ultimately show ?thesis using handler_fails
    by (auto simp: publishEvent_def Handle_def Let_def split: if_splits option.splits)
next
  case (Inr u)
  moreover assume "publishEvent D (Some e) w = (r, w')"
  ultimately have "delivered w' = [ID e] @ delivered w \<and> published w' \<subseteq> published w \<union> set [ID e]"
    using publishEvent_ok by fastforce
  then show ?thesis unfolding delivers_def by blast
qed

text \<open>The retries of one event: success means that the last attempt delivered it.\<close>

lemma publish_loop_step:
  assumes "publish_loop D m b e k n err w = (res, w')"
  shows "step w w' \<and> (res = None \<longrightarrow> err = None \<and> k = 0 \<or>
    (\<exists>v. step w v \<and> delivered w' = ID e # delivered v \<and> published w' \<subseteq> published v))"
  using assms
proof (induction k arbitrary: n err w)
  case (Suc k)
  obtain r w1 where r: "publishEvent D (Some e) w = (r, w1)" by fastforce
  note s1 = publishEvent_step [OF r]
  show ?case
  proof (cases r)
    case (Inr u)
    then have "res = None" "w' = w1" using Suc.prems r by auto
    then show ?thesis using publishEvent_ok r Inr s1 delivers_refl by blast
  next
    case (Inl er)
    show ?thesis
    proof (cases "isNonRetryableError D (Raw er) \<or> n = m - 1")
      case True
      then have "res = Some (AttemptFailed (n + 1) m er)" "w' = w1"
        using Suc.prems r Inl by (auto simp: Let_def)
      then show ?thesis using s1 by simp
    next
      case False
      obtain q w2 where q: "wait_backoff (disp_env D) b n w1 = (q, w2)" by fastforce
      have s2: "step w w2" using delivers_trans [OF s1] waiting [of w1 b n] q by simp
      show ?thesis
      proof (cases q)
        case (Inl we)
        then have "res = Some (WaitInterrupted we)" "w' = w2"
          using Suc.prems r \<open>r = Inl er\<close> False q by (auto simp: Let_def)
        then show ?thesis using s2 by simp
      next
        case (Inr u)
        then have "publish_loop D m b e k (n + 1) (Some (AttemptFailed (n + 1) m er)) w2 = (res, w')"
          using Suc.prems r Inl False q by (auto simp: Let_def)
        from Suc.IH [OF this] show ?thesis using delivers_trans [OF s2] by blast
      qed
    qed
  qed
qed auto

lemma publishEventWithRetry_step:
  assumes "publishEventWithRetry D e w = (res, w')"
  shows "step w w' \<and> (res = None \<longrightarrow>
    (\<exists>v. step w v \<and> delivered w' = ID e # delivered v \<and> published w' \<subseteq> published v))"
proof -
  let ?m = "if PublishMaxAttempts (disp_cfg D) \<le> 0 then defaultPublishMaxAttempts
            else PublishMaxAttempts (disp_cfg D)"
  have k: "nat ?m \<noteq> 0" by (simp add: defaultPublishMaxAttempts_def)
  obtain b where "publish_loop D ?m b e (nat ?m) 0 None w = (res, w')"
    using assms by (auto simp: publishEventWithRetry_def Let_def)
  from publish_loop_step [OF this] k show ?thesis by simp
qed

lemma invokeOnInvalid_step: "step w (invokeOnInvalid D e err w)"
  using on_invalid by (auto simp: invokeOnInvalid_def split: option.splits)

lemma invokeOnFailed_step: "step w (invokeOnFailed D e err w)"
  using on_failed by (auto simp: invokeOnFailed_def split: option.splits)

lemma handlePublishError_step: "step w (handlePublishError D ctx e err w)"
proof -
  let ?msg = "sanitizeErrorForStorage D err"
  obtain r w1 where r: "op_MarkInvalid (disp_repo D) ctx (ID e) ?msg w = (r, w1)" by fastforce
  obtain q w2 where q: "op_MarkFailed (disp_repo D) ctx (ID e) ?msg (MaxDispatchAttempts (disp_cfg D)) w = (q, w2)"
    by fastforce
  have s1: "step w w1" using mark_invalid [of w ctx "ID e" ?msg] r by simp
  have s2: "step w w2" using mark_failed [of w ctx "ID e" ?msg "MaxDispatchAttempts (disp_cfg D)"] q by simp
  have "handlePublishError D ctx e err w \<in>
      {w1, w2, invokeOnInvalid D e err w1, invokeOnInvalid D e err w2, invokeOnFailed D e err w2}"
    using r q by (cases r; cases q) (auto simp: handlePublishError_def)
  then show ?thesis
    using s1 s2 delivers_trans [OF s1 invokeOnInvalid_step] delivers_trans [OF s2 invokeOnInvalid_step]
      delivers_trans [OF s2 invokeOnFailed_step] by auto
qed

lemma priority_loop_step: "step w (snd (priority_loop D ctx budget ts result w))"
proof (induction ts arbitrary: result w)
  case (Cons t ts)
  obtain r w1 where r: "op_ListPendingByType (disp_repo D) ctx t (budget - int (length result)) w = (r, w1)"
    by fastforce
  then have s1: "step w w1" using list_type [of w ctx t "budget - int (length result)"] by simp
  show ?case
    using delivers_trans [OF s1 Cons.IH] r by (cases r) (auto simp: Let_def)
qed simp

lemma collectPriorityEvents_step: "step w (snd (collectPriorityEvents D ctx budget w))"
  using list_types priority_loop_step
  by (auto simp: collectPriorityEvents_def split: option.splits prod.splits) (metis snd_conv)+

lemma resetStuckProcessing_step: "step w (snd (resetStuckProcessing D ctx limit before w))"
proof (cases "op_ReclaimStuckProcessing (disp_repo D)")
  case None
  then show ?thesis using reset_stuck by (simp add: resetStuckProcessing_def)
next
  case (Some g)
  obtain r w1 where r: "g ctx limit before (MaxDispatchAttempts (disp_cfg D)) w = (r, w1)" by fastforce
  then have s1: "step w w1" using reclaim_stuck [OF Some, of w ctx limit before] by (metis snd_conv)
  have "step w1 (fold (\<lambda>e. invokeOnInvalid D e (Raw ErrStuckAttemptsExhausted)) gone w1)" for gone
    using delivers_fold [where g = "\<lambda>w. w"] invokeOnInvalid_step by fast
  from delivers_trans [OF s1 this] s1 show ?thesis
    using Some r by (auto simp: resetStuckProcessing_def split: sum.splits)
qed

lemma collectEvents_step:
  assumes "collectEvents D ctx st w = (es, st', w')"
  shows "step w w'"
proof -
  let ?cfg = "disp_cfg D" and ?B = "BatchSize (disp_cfg D)"
  obtain pe w1 where pe: "collectPriorityEvents D ctx (min (PriorityBudget ?cfg) ?B) w = (pe, w1)" by fastforce
  let ?sl = "?B - int (length pe)"
  obtain sr w2 where sr: "resetStuckProcessing D ctx ?sl
      (wall_clock (disp_env D) w - ProcessingTimeout ?cfg) w1 = (sr, w2)" by fastforce
  let ?fl = "min (?B - (int (length pe) + int (length (or_empty sr)))) (MaxFailedPerBatch ?cfg)"
  obtain fr w3 where fr: "op_ResetForRetry (disp_repo D) ctx ?fl
      (wall_clock (disp_env D) w - RetryWindow ?cfg) (MaxDispatchAttempts ?cfg) w2 = (fr, w3)" by fastforce
  let ?rl = "?B - (int (length pe) + int (length (or_empty sr)) + int (length (or_empty fr)))"
  obtain lr w4 where lr: "op_ListPending (disp_repo D) ctx ?rl w3 = (lr, w4)" by fastforce
  have s1: "step w w1" using collectPriorityEvents_step pe by (metis snd_conv)
  have s2: "step w w2" using delivers_trans [OF s1] resetStuckProcessing_step sr by (metis snd_conv)
  have s3: "step w w3" using delivers_trans [OF s2] reset_retry fr by (metis snd_conv)
  have s4: "step w w4" using delivers_trans [OF s3] list_pending lr by (metis snd_conv)
  have "w' \<in> {w1, w2, w3, w4}"
    using assms pe sr fr lr by (cases lr) (auto simp: collectEvents_def Let_def split: if_splits)
  then show ?thesis using s1 s2 s3 s4 by auto
qed

lemma dispatch_loop_step: "step w (snd (dispatch_loop D ctx es res w))"
proof (induction es arbitrary: res w)
  case (Cons x es)
  show ?case
  proof (cases x)
    case (Some e)
    obtain f w1 where f: "publishEventWithRetry D e w = (f, w1)" by fastforce
    note p = publishEventWithRetry_step [OF f]
    show ?thesis
    proof (cases f)
      case (Some err)
      have "step w (handlePublishError D ctx e err w1)"
        by (rule delivers_trans [OF conjunct1 [OF p] handlePublishError_step])
      then show ?thesis using delivers_trans [OF _ Cons.IH] f Some \<open>x = Some e\<close> by (simp add: Let_def)
    next
      case None
      obtain r w2 where r: "op_MarkPublished (disp_repo D) ctx (ID e) (wall_clock (disp_env D) w1) w1 = (r, w2)"
        by fastforce
      obtain v where v: "step w v" "delivered w1 = ID e # delivered v" "published w1 \<subseteq> published v"
        using p None by blast
      then have "delivered w2 = [ID e] @ delivered v \<and> published w2 \<subseteq> published v \<union> set [ID e]"
        using mark_published [OF r] by auto
      then have "step w w2" using delivers_trans [OF v(1)] unfolding delivers_def by blast
      then show ?thesis
        using delivers_trans [OF _ Cons.IH] f None r \<open>x = Some e\<close> by (cases r) (simp_all add: Let_def)
    qed
  qed (use Cons.IH in simp)
qed simp

lemma DispatchOnceResult_step:
  assumes "DispatchOnceResult D ctx st w = (res, st', w')"
  shows "step w w'"
proof -
  obtain es st1 w1 where c: "collectEvents D ctx st w = (es, st1, w1)" by (metis prod_cases3)
  have "w' = snd (dispatch_loop D ctx es empty_result w1)"
    using assms c by (auto simp: DispatchOnceResult_def split: prod.splits)
  then show ?thesis using delivers_trans [OF collectEvents_step [OF c] dispatch_loop_step] by simp
qed

lemma sweep_targets_step:
  "set ts \<subseteq> set (disp_retention D) \<Longrightarrow> step w (snd (sweep_targets D ctx now ts n w))"
proof (induction ts arbitrary: n w)
  case (Cons t ts)
  obtain r w1 where r: "target_delete t ctx (now - target_window t) (RetentionKeepEventTypes (disp_cfg D))
      (RetentionBatchSize (disp_cfg D)) w = (r, w1)" by fastforce
  then have s1: "step w w1" using retention_delete Cons.prems by (metis list.set_intros(1) snd_conv subsetD)
  have "step w1 (snd (sweep_targets D ctx now ts n' w1))" for n' using Cons by simp
  from delivers_trans [OF s1 this] show ?case using r by (cases r) simp_all
qed simp

lemma sweepRetention_step: "step w (snd (sweepRetention D ctx scope now st w))"
  using sweep_targets_step [of "disp_retention D"]
  by (auto simp: sweepRetention_def split: prod.splits bool.splits)

lemma sweep_listed_step:
  assumes "target \<in> set (disp_retention D)"
  shows "step (snd sw) (snd (sweep_listed D ctx now target sw))"
proof (cases "target_list target")
  case None
  then show ?thesis by (simp add: sweep_listed_def)
next
  case (Some l)
  obtain r w1 where r: "l ctx (now - target_window target) (RetentionKeepEventTypes (disp_cfg D)) (snd sw) = (r, w1)"
    by fastforce
  have s1: "step (snd sw) w1" using retention_list [OF assms Some] r by (metis snd_conv)
  have "step (snd v) (snd (fold (sweep_tenant D ctx now) xs v))" for xs v
    by (rule delivers_fold) (simp add: sweep_tenant_def sweepRetention_step)
  from delivers_trans [OF s1, of "snd (fold (sweep_tenant D ctx now) _ (fst sw, w1))"] this [of "(fst sw, w1)"] s1
  show ?thesis using Some r by (cases r) (auto simp: sweep_listed_def)
qed

lemma fold_sweep_listed_step:
  "set ts \<subseteq> set (disp_retention D) \<Longrightarrow> step (snd sw) (snd (fold (sweep_listed D ctx now) ts sw))"
proof (induction ts arbitrary: sw)
  case (Cons t ts)
  then have "step (snd sw) (snd (sweep_listed D ctx now t sw))" using sweep_listed_step by simp
  from delivers_trans [OF this] Cons show ?case by simp
qed simp

lemma sweepListedTenants_step: "step w (snd (sweepListedTenants D ctx st w))"
  using fold_sweep_listed_step [of "disp_retention D" "(_, w)"] by (simp add: sweepListedTenants_def Let_def)

lemma dispatchWithoutDiscoveredTenant_step: "step w (snd (dispatchWithoutDiscoveredTenant D ctx st w))"
proof -
  obtain res st1 w1 where c: "DispatchOnceResult D ctx st w = (res, st1, w1)" by (metis prod_cases3)
  from delivers_trans [OF DispatchOnceResult_step [OF c] sweepRetention_step] show ?thesis
    using c by (auto simp: dispatchWithoutDiscoveredTenant_def Let_def)
qed

lemma dispatch_scopes_step: "step w (snd (dispatch_scopes D ctx scopes st w))"
proof (induction scopes arbitrary: st w)
  case (Cons scope scopes)
  let ?now = "dispatcher_clock (disp_env D) w"
  let ?ctx = "ContextWithTenantID (if op_ListTenantDispatchScopes (disp_repo D) \<noteq> None
      then op_ContextForTenantDispatchScope (disp_repo D) ctx scope else ctx) (scope_TenantID scope)"
  obtain res st1 w1 where c: "DispatchOnceResult D ?ctx st w = (res, st1, w1)" by (metis prod_cases3)
  obtain st3 w3 where r: "sweepRetention D ?ctx scope ?now (recordScopeActivity D scope res ?now st1) w1 = (st3, w3)"
    by fastforce
  have "step w w3"
    using delivers_trans [OF DispatchOnceResult_step [OF c]] sweepRetention_step r by (metis snd_conv)
  from delivers_trans [OF this Cons.IH] Cons.IH [of w st] show ?case using c r by (simp add: Let_def)
qed simp

lemma dispatchAcrossTenants_step:
  assumes "dispatchAcrossTenants D ctx st w = (st', w')"
  shows "step w w'"
proof (cases "ctx_cancelled (disp_env D) w")
  case False
  obtain r w1 where r: "listTenantDispatchScopes D ctx w = (r, w1)" by fastforce
  have s1: "step w w1"
    using r list_scopes [of _ w ctx] list_tenants [of w ctx]
    by (auto simp: listTenantDispatchScopes_def split: option.splits sum.splits prod.splits)
  show ?thesis
  proof (cases r)
    case (Inl e)
    then show ?thesis using s1 assms False r by (simp add: dispatchAcrossTenants_def)
  next
    case (Inr scopes)
    let ?ns = "normalizeTenantDispatchScopes scopes"
    obtain os st2 where o: "tenantDispatchScopeOrder ?ns (reconcileScopeActivity ?ns st) = (os, st2)" by fastforce
    obtain st3 w3 where d: "(if length os = 0 then dispatchWithoutDiscoveredTenant D ctx st2 w1
        else dispatch_scopes D ctx os st2 w1) = (st3, w3)" by fastforce
    have "step w1 w3"
      using d dispatchWithoutDiscoveredTenant_step dispatch_scopes_step by (metis snd_conv)
    moreover have "w' = snd (sweepListedTenants D ctx st3 w3)"
      using assms False r Inr o d by (simp add: dispatchAcrossTenants_def Let_def split: prod.splits if_splits)
    ultimately show ?thesis using delivers_trans [OF delivers_trans [OF s1] sweepListedTenants_step] by simp
  qed
qed (use assms in \<open>simp add: dispatchAcrossTenants_def\<close>)

end

subsection \<open>The PostgreSQL repository keeps the contract\<close>

definition published_ids :: "outbox_table \<Rightarrow> uuid set" where
  "published_ids tbl = row_id ` {r \<in> set tbl. Status (row_event r) = StatusPublished}"

text \<open>Updates that publish nothing.\<close>

definition unpublishing :: "(outbox_event \<Rightarrow> outbox_event option) \<Rightarrow> bool" where
  "unpublishing f \<longleftrightarrow> (\<forall>e e'. f e = Some e' \<longrightarrow> Status e' \<noteq> StatusPublished)"

lemma unpublishing_updates:
  "unpublishing (\<lambda>e. Some (e\<lparr>Status := StatusProcessing, UpdatedAt := now\<rparr>))"
  "unpublishing (stuck_reprocessing now)" "unpublishing (stuck_invalid now)"
  "unpublishing (failed_update call msg m)" "unpublishing (invalid_update call msg)"
  by (auto simp: unpublishing_def stuck_reprocessing_def stuck_invalid_def failed_update_def
      invalid_update_def StatusPublished_def StatusProcessing_def StatusInvalid_def StatusFailed_def
      split: option.splits if_splits)

lemma published_on_rows:
  assumes "unpublishing f"
  shows "published_ids (map (on_rows P f) tbl) \<subseteq> published_ids tbl"
proof -
  have "on_rows P f r = r \<or> Status (row_event (on_rows P f r)) \<noteq> StatusPublished" for r
    using assms by (auto simp: on_rows_def unpublishing_def split: option.splits)
  then show ?thesis by (force simp: published_ids_def)
qed

lemma update_exactly_published:
  assumes "update_exactly repo ids t origin f tbl = Inr tbl'" and "unpublishing f"
  shows "published_ids tbl' \<subseteq> published_ids tbl"
  using update_exactly_Inr [OF assms(1)] published_on_rows [OF assms(2)] by blast

lemma claim_published:
  assumes "unless_missing call [] tbl
    (withTenantTxOrExisting repo call False (claim_events repo call origin select) tbl) = Inr (es, tbl')"
  shows "published_ids tbl' \<subseteq> published_ids tbl"
proof -
  have "published_ids tbl' \<subseteq> published_ids tbl" if "claim_events repo call origin select tbl = Inr (es, tbl')"
    using that
    by (auto simp: claim_events_def bind_res_eq_Inr Let_def markEventsProcessing_def markEventsWithStatus_def
        split: if_splits dest: update_exactly_published [OF _ unpublishing_updates(1), THEN subsetD])
  then show ?thesis using unless_missing_Inr [OF assms] withTenantTx_Inr by blast
qed

lemma reclaim_published:
  assumes "ReclaimStuckProcessing repo call limit before m tbl = Inr (res, tbl')"
  shows "published_ids tbl' \<subseteq> published_ids tbl"
proof (cases "tbl' = tbl")
  case False
  then have body: "reclaim_body repo call limit before m tbl = Inr (res, tbl')"
    using assms by (auto simp: ReclaimStuckProcessing_def bind_res_eq_Inr
        dest!: unless_missing_Inr withTenantTx_Inr)
  obtain events where ev: "listStuckProcessingRows repo call limit before tbl = Inr events"
    using body by (auto simp: reclaim_body_def bind_res_eq_Inr)
  obtain a c where sp: "splitStuckEvents events m = (a, c)" by fastforce
  obtain b d t tbl1 where r: "reclaim_retry repo (call_now call) t a tbl = Inr (b, tbl1)"
      and e: "reclaim_exhausted repo (call_now call) t c tbl1 = Inr (d, tbl')"
    using body ev sp by (auto simp: reclaim_body_def bind_res_eq_Inr Let_def)
  obtain P Q where "tbl1 = map (on_rows P (stuck_reprocessing (call_now call))) tbl"
      "tbl' = map (on_rows Q (stuck_invalid (call_now call))) tbl1"
    using reclaim_retry_Inr [OF r] reclaim_exhausted_Inr [OF e] by blast
  then show ?thesis
    using published_on_rows [OF unpublishing_updates(2)] published_on_rows [OF unpublishing_updates(3)]
    by (metis subset_trans)
qed simp

lemma update_processing_Inr:
  assumes "withTenantTxOrExisting repo call False (update_processing repo call ident f) tbl = Inr (u, tbl')"
  shows "\<exists>flt. tbl' = map (on_rows (\<lambda>r. row_id r = ident \<and>
    Status (row_event r) = StatusProcessing \<and> flt r) f) tbl"
  using withTenantTx_Inr [OF assms] by (auto simp: update_processing_def bind_res_eq_Inr sql_update_eq_Inr)

lemma delete_published:
  assumes "deleteAgedBefore repo call status before kept limit tbl = Inr (n, tbl')"
  shows "published_ids tbl' \<subseteq> published_ids tbl"
  using assms
  by (auto simp: deleteAgedBefore_def bind_res_eq_Inr Let_def published_ids_def
      split: if_splits dest!: withTenantTx_Inr unless_missing_Inr)

lemma marks_published:
  shows "MarkFailed repo call i msg m tbl = Inr (u, tbl') \<Longrightarrow> published_ids tbl' \<subseteq> published_ids tbl"
    and "MarkInvalid repo call i msg tbl = Inr (u, tbl') \<Longrightarrow> published_ids tbl' \<subseteq> published_ids tbl"
    and "MarkPublished repo call i at tbl = Inr (u, tbl') \<Longrightarrow>
      published_ids tbl' \<subseteq> insert i (published_ids tbl)"
proof -
  show "published_ids tbl' \<subseteq> published_ids tbl" if "MarkFailed repo call i msg m tbl = Inr (u, tbl')"
    using that published_on_rows [OF unpublishing_updates(4)]
    by (fastforce simp: MarkFailed_def bind_res_eq_Inr Let_def dest!: update_processing_Inr)
  show "published_ids tbl' \<subseteq> published_ids tbl" if "MarkInvalid repo call i msg tbl = Inr (u, tbl')"
    using that published_on_rows [OF unpublishing_updates(5)]
    by (fastforce simp: MarkInvalid_def bind_res_eq_Inr Let_def dest!: update_processing_Inr)
  show "published_ids tbl' \<subseteq> insert i (published_ids tbl)" if "MarkPublished repo call i at tbl = Inr (u, tbl')"
    using that
    by (auto simp: MarkPublished_def bind_res_eq_Inr published_ids_def on_rows_def split: if_splits
        dest!: update_processing_Inr)
qed

lemma claims_published:
  shows "ListPending repo call limit tbl = Inr (es, tbl') \<Longrightarrow> published_ids tbl' \<subseteq> published_ids tbl"
    and "ListPendingByType repo call t limit tbl = Inr (es, tbl') \<Longrightarrow> published_ids tbl' \<subseteq> published_ids tbl"
    and "ListPendingByTypes repo call ts limit tbl = Inr (es, tbl') \<Longrightarrow> published_ids tbl' \<subseteq> published_ids tbl"
    and "ResetForRetry repo call limit before m tbl = Inr (es, tbl') \<Longrightarrow> published_ids tbl' \<subseteq> published_ids tbl"
    and "ResetStuckProcessing repo call limit before m tbl = Inr (es, tbl') \<Longrightarrow>
      published_ids tbl' \<subseteq> published_ids tbl"
proof -
  note claim = claim_published [where tbl = tbl and tbl' = tbl' and es = es and call = call and repo = repo]
  note defs = ListPending_def ListPendingByType_def ListPendingByTypes_def ResetForRetry_def
      ResetStuckProcessing_def bind_res_eq_Inr Let_def
  show "published_ids tbl' \<subseteq> published_ids tbl" if "ListPending repo call limit tbl = Inr (es, tbl')"
    using that by (intro claim) (auto simp: defs)
  show "published_ids tbl' \<subseteq> published_ids tbl" if "ListPendingByType repo call t limit tbl = Inr (es, tbl')"
    using that by (intro claim) (auto simp: defs)
  show "published_ids tbl' \<subseteq> published_ids tbl" if "ListPendingByTypes repo call ts limit tbl = Inr (es, tbl')"
    using that by (intro claim) (auto simp: defs)
  show "published_ids tbl' \<subseteq> published_ids tbl" if "ResetForRetry repo call limit before m tbl = Inr (es, tbl')"
    using that by (intro claim) (auto simp: defs)
  show "published_ids tbl' \<subseteq> published_ids tbl"
    if "ResetStuckProcessing repo call limit before m tbl = Inr (es, tbl')"
  proof -
    from that obtain res where "ReclaimStuckProcessing repo call limit before m tbl = Inr (res, tbl')"
      by (auto simp: defs)
    then show ?thesis by (rule reclaim_published)
  qed
qed

abbreviation pg_published :: "'o pg_world \<Rightarrow> uuid set" where
  "pg_published w \<equiv> published_ids (w_table w)"

lemma pg_op_delivers:
  assumes "\<And>call x tbl'. f call (w_table w) = Inr (x, tbl') \<Longrightarrow> published_ids tbl' \<subseteq> pg_published w"
  shows "delivers pg_published w_delivered w (snd (pg_op env f ctx w))"
  using assms by (auto simp: pg_op_def delivers_def Let_def split: sum.splits)

lemma snd_map_returned [simp]: "snd (map_returned g rw) = snd rw"
  by (simp add: map_returned_def split: prod.splits sum.splits)

lemma pg_read_delivers: "delivers pg_published w_delivered w (snd (pg_read env f ctx w))"
  unfolding pg_read_def by (rule pg_op_delivers) (auto simp: bind_res_eq_Inr)

lemma pg_delete_delivers:
  "delivers pg_published w_delivered w (snd (pg_op env (\<lambda>c. DeletePublishedBefore repo c before kept limit) ctx w))"
  "delivers pg_published w_delivered w (snd (pg_op env (\<lambda>c. DeleteInvalidBefore repo c before kept limit) ctx w))"
  by (rule pg_op_delivers, simp add: DeletePublishedBefore_def DeleteInvalidBefore_def, erule delete_published)+

lemma pg_retention_targets:
  assumes "target \<in> set (disp_retention (pg_dispatcher repo env tenants hs cfg s))"
  shows "delivers pg_published w_delivered w (snd (target_delete target ctx before kept limit w)) \<and>
    (\<forall>l. target_list target = Some l \<longrightarrow> delivers pg_published w_delivered w (snd (l ctx before kept w)))"
proof -
  obtain ts where "bindRetention cfg (pg_ops repo env tenants) = Inr ts" "target \<in> set ts"
    using assms by (cases "bindRetention cfg (pg_ops repo env tenants)") (auto simp: pg_dispatcher_def)
  then show ?thesis
    by (auto simp: bindRetention_def bind_res_eq_Inr pg_ops_def pg_delete_delivers pg_read_delivers
        split: if_splits)
qed

lemma pg_outside_delivers [simp]:
  "delivers pg_published w_delivered w (outside f w)"
  "delivers pg_published w_delivered w (w\<lparr>w_outside := out\<rparr>)"
  by (simp_all add: delivers_def outside_def)

lemmas pg_interface_defs = pg_dispatcher_simps pg_ops_def pg_surroundings_def pg_handlers_def

interpretation pg_delivery: delivery "pg_dispatcher repo env tenants hs cfg s" pg_published w_delivered
  for repo env tenants hs cfg s
proof (unfold_locales, goal_cases)
  case (1 t h e w u w')
  then show ?case by (auto simp: pg_interface_defs split: sum.splits prod.splits)
next
  case (2 t h e w err w')
  then show ?case by (auto simp: pg_interface_defs split: sum.splits prod.splits)
next
  case (3 ctx i at w r w')
  then show ?case
    by (auto simp: pg_interface_defs pg_op_def Let_def split: sum.splits dest!: marks_published(3))
next
  case (4 w ctx i msg m)
  show ?case by (simp add: pg_interface_defs) (rule pg_op_delivers, erule marks_published(1))
next
  case (5 w ctx i msg)
  show ?case by (simp add: pg_interface_defs) (rule pg_op_delivers, erule marks_published(2))
next
  case (6 w ctx limit)
  show ?case by (simp add: pg_interface_defs) (rule pg_op_delivers, erule claims_published(1))
next
  case (7 w ctx t limit)
  show ?case by (simp add: pg_interface_defs) (rule pg_op_delivers, erule claims_published(2))
next
  case (8 f w ctx ts limit)
  then show ?case by (auto simp: pg_interface_defs intro!: pg_op_delivers dest!: claims_published(3))
next
  case (9 w ctx limit before m)
  show ?case by (simp add: pg_interface_defs) (rule pg_op_delivers, erule claims_published(4))
next
  case (10 w ctx limit before m)
  show ?case by (simp add: pg_interface_defs) (rule pg_op_delivers, erule claims_published(5))
next
  case (11 g w ctx limit before m)
  then show ?case by (auto simp: pg_interface_defs intro!: pg_op_delivers dest!: reclaim_published)
next
  case (12 w ctx)
  show ?case by (simp add: pg_interface_defs)
next
  case (13 k w ctx)
  then show ?case by (simp add: pg_interface_defs)
next
  case (14 target w ctx before kept limit)
  then show ?case using pg_retention_targets by blast
next
  case (15 target l w ctx before kept)
  then show ?case using pg_retention_targets by blast
next
  case (16 w pause n)
  show ?case by (simp add: pg_interface_defs split: prod.splits)
next
  case (17 cb w e failure)
  then show ?case by (auto simp: pg_interface_defs)
next
  case (18 cb w e failure)
  then show ?case by (auto simp: pg_interface_defs)
qed

text \<open>
  C22. No event is lost to the broker: an event becomes \<open>PUBLISHED\<close> only in a tick in which its
  handler reported success. Over one tick of \<open>dispatchAcrossTenants\<close>, with any tenants, any
  cancellation, any failures of the repository and any interleaved retention sweep, the log of
  deliveries grows by \<open>new\<close> and every row that is published afterwards was published before or its
  event is in \<open>new\<close>.
\<close>

theorem published_only_after_delivery:
  assumes "NewDispatcher (Some (pg_ops repo env tenants)) (Some (pg_handlers hs)) cfg (pg_surroundings s) =
      Inr (D, st0)"
    and "dispatchAcrossTenants D ctx st w = (st', w')"
  shows "\<exists>new. w_delivered w' = new @ w_delivered w \<and>
    (\<forall>r. r \<in> set (w_table w') \<longrightarrow> Status (row_event r) = StatusPublished \<longrightarrow>
      row_id r \<in> set new \<or> (\<exists>r0. r0 \<in> set (w_table w) \<and> row_id r0 = row_id r \<and> Status (row_event r0) = StatusPublished))"
proof -
  have "D = pg_dispatcher repo env tenants hs cfg s" using NewDispatcher_pg [OF assms(1)] by blast
  then have "delivers pg_published w_delivered w w'" using pg_delivery.dispatchAcrossTenants_step assms(2) by blast
  then show ?thesis by (force simp: delivers_def published_ids_def)
qed

lemma sample_retention: "disp_retention sample_dispatcher = []"
  by (simp add: sample_dispatcher_def pg_dispatcher_def bindRetention_def DefaultDispatcherConfig_def)

lemma sample_tick:
  "dispatchAcrossTenants sample_dispatcher background st sample_world =
     (clearListPendingFailureCount (tenantKeyFromContext background) (reconcileScopeActivity [] st),
      sample_world\<lparr>w_table := [published_sample], w_delivered := [1], w_calls := 4\<rparr>)"
proof -
  have list: "listTenantDispatchScopes sample_dispatcher background w = (Inr [], w)" for w
    by (simp add: listTenantDispatchScopes_def sample_dispatcher_def pg_ops_def)
  have run: "ctx_cancelled (disp_env sample_dispatcher) w = False" for w
    by (simp add: sample_dispatcher_def pg_surroundings_def calm_surroundings_def)
  have free: "op_RequiresTenant (disp_repo sample_dispatcher) = Some False"
    by (simp add: sample_dispatcher_def pg_ops_def RequiresTenant_def plain_repo_def)
  have none: "TenantIDFromContext background = None"
    by (simp add: TenantIDFromContext_def GetTenantIDContext_def background_def)
  show ?thesis
    by (simp add: dispatchAcrossTenants_def list run normalizeTenantDispatchScopes_def free none
        tenantDispatchScopeOrder_def dispatchWithoutDiscoveredTenant_def sample_cycle sweepRetention_def
        sweepListedTenants_def sample_retention)
qed

theorem published_only_after_delivery_witness:
  "\<exists>new. [1] = new @ w_delivered sample_world \<and>
    (\<forall>r. r \<in> {published_sample} \<longrightarrow> Status (row_event r) = StatusPublished \<longrightarrow>
      row_id r \<in> set new \<or> (\<exists>r0. r0 \<in> set (w_table sample_world) \<and> row_id r0 = row_id r \<and>
        Status (row_event r0) = StatusPublished))"
  using published_only_after_delivery [OF sample_NewDispatcher sample_tick] by simp

end
