(* ===== verification/Outbox_Scheduling.thy ===== *)
theory Outbox_Scheduling
  imports Outbox_Dispatch_Laws "HOL-Library.Multiset"
begin

text \<open>
  The dispatcher's own state: the rotation of tenants, the retention schedule and the bounded
  tables of failure counters and metric labels, over any repository.
\<close>

subsection \<open>Rotation\<close>

text \<open>The orders of \<open>k\<close> successive ticks that find the same scopes.\<close>

fun tick_orders :: "dispatch_scope list \<Rightarrow> nat \<Rightarrow> dispatcher_state \<Rightarrow> dispatch_scope list list" where
  "tick_orders scopes 0 st = []"
| "tick_orders scopes (Suc k) st =
     (case tenantDispatchScopeOrder scopes st of (ordered, st') \<Rightarrow> ordered # tick_orders scopes k st')"

lemma order_mset:
  "mset (fst (tenantDispatchScopeOrder scopes st)) = mset scopes"
proof -
  have "mset (drop i scopes @ take i scopes) = mset scopes" for i
    by (metis append_take_drop_id mset_append union_commute)
  then show ?thesis by (simp only: tenantDispatchScopeOrder_def Let_def fst_conv split: if_splits) simp
qed

lemma tick_orders_mset: "list_all (\<lambda>ordered. mset ordered = mset scopes) (tick_orders scopes k st)"
proof (induction k arbitrary: st)
  case (Suc k)
  obtain ordered st' where "tenantDispatchScopeOrder scopes st = (ordered, st')" by fastforce
  then show ?case using Suc order_mset [of scopes st] by simp
qed simp

lemma order_hd:
  assumes "1 < length scopes"
  shows "hd (fst (tenantDispatchScopeOrder scopes st)) = scopes ! nat (tenantTurn st mod int (length scopes)) \<and>
    tenantTurn (snd (tenantDispatchScopeOrder scopes st)) = (tenantTurn st + 1) mod int (length scopes)"
proof -
  let ?n = "int (length scopes)"
  have "nat (tenantTurn st mod ?n) < length scopes"
    using assms pos_mod_bound [of ?n "tenantTurn st"] pos_mod_sign [of ?n "tenantTurn st"] by linarith
  then show ?thesis
    using assms by (simp add: tenantDispatchScopeOrder_def Let_def hd_append hd_drop_conv_nth)
qed

lemma tick_orders_hd:
  assumes "1 < length scopes"
  shows "map hd (tick_orders scopes k st) =
    map (\<lambda>i. scopes ! nat ((tenantTurn st + int i) mod int (length scopes))) [0..<k]"
proof (induction k arbitrary: st)
  case (Suc k)
  obtain ordered st' where o: "tenantDispatchScopeOrder scopes st = (ordered, st')" by fastforce
  let ?f = "\<lambda>i. scopes ! nat ((tenantTurn st + int i) mod int (length scopes))"
  have "map hd (tick_orders scopes (Suc k) st) =
      ?f 0 # map (\<lambda>i. scopes ! nat ((tenantTurn st' + int i) mod int (length scopes))) [0..<k]"
    using Suc.IH [of st'] order_hd [OF assms, of st] o by simp
  also have "map (\<lambda>i. scopes ! nat ((tenantTurn st' + int i) mod int (length scopes))) [0..<k] =
      map (\<lambda>i. ?f (Suc i)) [0..<k]"
    using order_hd [OF assms, of st] o by (simp add: mod_simps ac_simps)
  also have "?f 0 # map (\<lambda>i. ?f (Suc i)) [0..<k] = map ?f [0..<Suc k]"
    by (simp only: map_Suc_upt [symmetric] upt_conv_Cons [of 0 "Suc k"] list.map map_map comp_def zero_less_Suc)
  finally show ?case .
qed simp

text \<open>The residues of \<open>n\<close> successive turns are the positions, each once.\<close>

lemma turns_mset:
  assumes "0 < n"
  shows "image_mset (\<lambda>i. nat ((t + int i) mod int n)) (mset [0..<n]) = mset [0..<n]"
proof -
  let ?f = "\<lambda>i. nat ((t + int i) mod int n)"
  have inj: "inj_on ?f {0..<n}"
  proof (rule inj_onI)
    fix i j assume ij: "i \<in> {0..<n}" "j \<in> {0..<n}" and eq: "?f i = ?f j"
    have "(t + int i) mod int n = (t + int j) mod int n"
      using eq assms by (simp add: nat_eq_iff)
    then have "int i mod int n = int j mod int n"
      by (metis add_diff_cancel_left' mod_diff_left_eq mod_diff_cong)
    then show "i = j" using ij by simp
  qed
  have sub: "?f ` {0..<n} \<subseteq> {0..<n}"
    using assms pos_mod_bound [of "int n"] by (auto simp: nat_less_iff)
  have "?f ` {0..<n} = {0..<n}" using endo_inj_surj [OF finite_atLeastLessThan sub inj] .
  then have "image_mset ?f (mset_set {0..<n}) = mset_set {0..<n}"
    using image_mset_mset_set [OF inj] by simp
  then show ?thesis by (metis mset_upt)
qed

text \<open>
  Tenants take turns: over as many ticks as there are scopes, starting from any turn, every
  tick dispatches all the scopes and each scope comes first exactly once, so no tenant is always
  served last.
\<close>

theorem scopes_rotate_fairly:
  "list_all (\<lambda>ordered. mset ordered = mset scopes) (tick_orders scopes (length scopes) st) \<and>
   mset (map hd (tick_orders scopes (length scopes) st)) = mset scopes"
proof (cases "1 < length scopes")
  case True
  let ?n = "length scopes"
  have "mset (map hd (tick_orders scopes ?n st)) =
      image_mset ((!) scopes) (image_mset (\<lambda>i. nat ((tenantTurn st + int i) mod int ?n)) (mset [0..<?n]))"
    unfolding tick_orders_hd [OF True] by (simp add: multiset.map_comp comp_def)
  also have "\<dots> = mset (map ((!) scopes) [0..<?n])" using turns_mset [of ?n "tenantTurn st"] True
    by (simp only: mset_map [symmetric])
  finally show ?thesis using tick_orders_mset by (simp add: map_nth)
next
  case False
  then show ?thesis by (cases scopes) (simp_all add: tenantDispatchScopeOrder_def)
qed

subsection \<open>Association lists\<close>

lemma set_alist_update:
  assumes "distinct (map fst xs)"
  shows "(k, v) \<in> set (AList.update a b xs) \<longleftrightarrow> k = a \<and> v = b \<or> k \<noteq> a \<and> (k, v) \<in> set xs"
proof -
  have "(k, v) \<in> set (AList.update a b xs) \<longleftrightarrow> map_of (AList.update a b xs) k = Some v"
    by (rule map_of_eq_Some_iff [OF distinct_update [OF assms], symmetric])
  then show ?thesis using map_of_eq_Some_iff [OF assms] by (auto simp: update_conv')
qed

lemma length_alist_update:
  "length (AList.update a b xs) = (if map_of xs a = None then Suc (length xs) else length xs)"
  by (induction xs) auto

subsection \<open>The retention schedule\<close>

text \<open>A run of claims, oldest first, with the answers; \<open>granted\<close> are the claims answered yes.\<close>

fun claim_run ::
  "'w dispatcher \<Rightarrow> (dispatch_scope \<times> time) list \<Rightarrow> dispatcher_state \<Rightarrow>
   (dispatch_scope \<times> time) list \<times> dispatcher_state" where
  "claim_run D [] st = ([], st)"
| "claim_run D ((scope, now) # claims) st =
     (case claimRetentionSweep D scope now st of
        (ok, st1) \<Rightarrow>
          (case claim_run D claims st1 of
             (granted, st2) \<Rightarrow> ((if ok then [(scope, now)] else []) @ granted, st2)))"

text \<open>
  The sweep memory after grants \<open>G\<close>, at time \<open>now\<close>: each entry is the latest grant of its scope,
  every grant younger than the interval is remembered, and what the last prune left is younger than
  an interval before it.
\<close>

definition sweep_memory ::
  "duration \<Rightarrow> (dispatch_scope \<times> time) set \<Rightarrow> time \<Rightarrow> dispatcher_state \<Rightarrow> bool" where
  "sweep_memory interval G now st \<longleftrightarrow>
     distinct (map fst (retentionSweptAt st)) \<and>
     (\<forall>s t. (s, t) \<in> set (retentionSweptAt st) \<longrightarrow>
        (s, t) \<in> G \<and> t \<le> now \<and> retentionPrunedAt st - t < interval \<and> (\<forall>t'. (s, t') \<in> G \<longrightarrow> t' \<le> t)) \<and>
     (\<forall>s t. (s, t) \<in> G \<longrightarrow> now - t < interval \<longrightarrow> (\<exists>t'. (s, t') \<in> set (retentionSweptAt st))) \<and>
     (\<forall>s t. (s, t) \<in> G \<longrightarrow> t \<le> now) \<and>
     retentionPrunedAt st \<le> now \<and> (retentionPrunedAt st = 0 \<longrightarrow> retentionSweptAt st = [])"

lemma sweep_memory_later:
  "sweep_memory interval G now st \<Longrightarrow> now \<le> now' \<Longrightarrow> sweep_memory interval G now' st"
  unfolding sweep_memory_def by fastforce

lemma sweep_memory_remembers:
  "sweep_memory interval G now st \<Longrightarrow> (s, t) \<in> G \<Longrightarrow> now - t < interval \<Longrightarrow>
   \<exists>t'. (s, t') \<in> set (retentionSweptAt st) \<and> t \<le> t'"
  unfolding sweep_memory_def by blast

definition granted_before :: "duration \<Rightarrow> (dispatch_scope \<times> time) set \<Rightarrow> dispatch_scope \<Rightarrow> time \<Rightarrow> bool" where
  "granted_before interval G scope now \<longleftrightarrow> (\<exists>t. (scope, t) \<in> G \<and> now - t < interval)"

lemma claimRetentionSweep_due:
  assumes "sweep_memory (RetentionSweepInterval (disp_cfg D)) G now st"
  shows "fst (claimRetentionSweep D scope now st) \<longleftrightarrow>
    \<not> granted_before (RetentionSweepInterval (disp_cfg D)) G scope now"
proof -
  let ?i = "RetentionSweepInterval (disp_cfg D)"
  have "fst (claimRetentionSweep D scope now st) \<longleftrightarrow>
      \<not> (\<exists>t. map_of (retentionSweptAt st) scope = Some t \<and> now - t < ?i)"
    by (auto simp: claimRetentionSweep_def Let_def split: option.splits)
  also have "\<dots> \<longleftrightarrow> \<not> granted_before ?i G scope now"
  proof -
    have "\<exists>t. map_of (retentionSweptAt st) scope = Some t \<and> now - t < ?i" if g: "granted_before ?i G scope now"
    proof -
      obtain t where t: "(scope, t) \<in> G" "now - t < ?i" using g by (auto simp: granted_before_def)
      then obtain t' where t': "(scope, t') \<in> set (retentionSweptAt st)" "t \<le> t'"
        using sweep_memory_remembers [OF assms] by blast
      moreover have "now - t' < ?i" using t(2) t'(2) by linarith
      ultimately show ?thesis using assms by (auto simp: sweep_memory_def)
    qed
    moreover have "granted_before ?i G scope now" if "map_of (retentionSweptAt st) scope = Some t" "now - t < ?i" for t
      using that assms by (auto simp: sweep_memory_def granted_before_def dest: map_of_SomeD)
    ultimately show ?thesis by blast
  qed
  finally show ?thesis .
qed

lemma claimRetentionSweep_granted:
  assumes mem: "sweep_memory (RetentionSweepInterval (disp_cfg D)) G now st" and "0 < now"
    and pos: "0 < RetentionSweepInterval (disp_cfg D)"
    and ok: "claimRetentionSweep D scope now st = (True, st')"
  shows "sweep_memory (RetentionSweepInterval (disp_cfg D)) (insert (scope, now) G) now st' \<and>
    (\<forall>s t. (s, t) \<in> set (retentionSweptAt st') \<longrightarrow> now - t < 2 * RetentionSweepInterval (disp_cfg D))"
proof -
  let ?i = "RetentionSweepInterval (disp_cfg D)"
  define st1 where "st1 = (if retentionPrunedAt st = 0 \<or> ?i \<le> now - retentionPrunedAt st
      then st\<lparr>retentionSweptAt := filter (\<lambda>(s, t). \<not> ?i \<le> now - t) (retentionSweptAt st),
              retentionPrunedAt := now\<rparr> else st)"
  have st': "st' = st1\<lparr>retentionSweptAt := AList.update scope now (retentionSweptAt st1)\<rparr>"
    using ok by (auto simp: claimRetentionSweep_def Let_def st1_def split: if_splits)
  have d: "distinct (map fst (retentionSweptAt st))" using mem by (simp add: sweep_memory_def)
  have mem1: "sweep_memory ?i G now st1 \<and> retentionPrunedAt st1 \<noteq> 0"
  proof (cases "retentionPrunedAt st = 0 \<or> ?i \<le> now - retentionPrunedAt st")
    case True
    have "distinct (map fst (retentionSweptAt st1))"
      using True distinct_map_filter [OF d] by (simp add: st1_def)
    moreover have "(\<exists>t'. (s, t') \<in> set (retentionSweptAt st1))" if g: "(s, t) \<in> G" "now - t < ?i" for s t
    proof -
      obtain t' where "(s, t') \<in> set (retentionSweptAt st)" "t \<le> t'"
        using sweep_memory_remembers [OF mem g] by blast
      then show ?thesis using g True by (auto simp: st1_def)
    qed
    ultimately show ?thesis using mem True \<open>0 < now\<close> by (auto simp: sweep_memory_def st1_def)
  qed (use mem in \<open>auto simp: st1_def\<close>)
  have upd: "(s, t) \<in> set (retentionSweptAt st') \<longleftrightarrow>
      s = scope \<and> t = now \<or> s \<noteq> scope \<and> (s, t) \<in> set (retentionSweptAt st1)" for s t
    using mem1 unfolding st' sweep_memory_def by (simp add: set_alist_update)
  have mem': "sweep_memory ?i (insert (scope, now) G) now st'"
  proof -
    have "distinct (map fst (retentionSweptAt st'))"
      using mem1 by (auto simp: st' sweep_memory_def distinct_update)
    moreover have p: "retentionPrunedAt st' = retentionPrunedAt st1" by (simp add: st')
    moreover have "retentionPrunedAt st1 \<le> now" and past: "\<And>s t. (s, t) \<in> G \<Longrightarrow> t \<le> now"
      and old: "\<And>s t. (s, t) \<in> set (retentionSweptAt st1) \<Longrightarrow> (s, t) \<in> G \<and> t \<le> now \<and>
        retentionPrunedAt st1 - t < ?i \<and> (\<forall>t'. (s, t') \<in> G \<longrightarrow> t' \<le> t)"
      using mem1 by (auto simp: sweep_memory_def)
    moreover have "\<exists>t'. (s, t') \<in> set (retentionSweptAt st')"
      if g: "(s, t) \<in> insert (scope, now) G" "now - t < ?i" for s t
      using sweep_memory_remembers [of ?i G now st1 s t] mem1 g by (cases "s = scope") (auto simp: upd)
    ultimately show ?thesis
      using mem1 pos unfolding sweep_memory_def by (auto simp: upd)
  qed
  moreover have "now - t < 2 * ?i" if "(s, t) \<in> set (retentionSweptAt st')" for s t
  proof -
    have "retentionPrunedAt st' - t < ?i" using mem' that by (auto simp: sweep_memory_def)
    moreover have "now - retentionPrunedAt st' < ?i" using pos by (auto simp: st' st1_def)
    ultimately show ?thesis by linarith
  qed
  ultimately show ?thesis by blast
qed

lemma claim_run_memory:
  assumes "sweep_memory (RetentionSweepInterval (disp_cfg D)) G now st"
    and "0 < RetentionSweepInterval (disp_cfg D)" and "0 < now"
    and "sorted (now # map snd claims)" and "claim_run D claims st = (granted, st')"
  shows "\<exists>now'. now \<le> now' \<and> (claims \<noteq> [] \<longrightarrow> now' = snd (last claims)) \<and> (claims = [] \<longrightarrow> now' = now) \<and>
    sweep_memory (RetentionSweepInterval (disp_cfg D)) (G \<union> set granted) now' st'"
  using assms
proof (induction claims arbitrary: G now st granted)
  case (Cons c claims)
  obtain scope t where c: "c = (scope, t)" by fastforce
  obtain ok st1 where k: "claimRetentionSweep D scope t st = (ok, st1)" by fastforce
  obtain gs where g: "claim_run D claims st1 = (gs, st')" "granted = (if ok then [(scope, t)] else []) @ gs"
    using Cons.prems(5) c k by (auto split: prod.splits)
  have t: "now \<le> t" "0 < t" "sorted (t # map snd claims)" using Cons.prems c by auto
  let ?G = "G \<union> set (if ok then [(scope, t)] else [])"
  have mem: "sweep_memory (RetentionSweepInterval (disp_cfg D)) ?G t st1"
  proof (cases ok)
    case True
    then show ?thesis
      using claimRetentionSweep_granted [OF sweep_memory_later [OF Cons.prems(1) t(1)] t(2) Cons.prems(2)] k by simp
  next
    case False
    then have "st1 = st" using k by (auto simp: claimRetentionSweep_def Let_def split: if_splits)
    then show ?thesis using False sweep_memory_later [OF Cons.prems(1) t(1)] by simp
  qed
  from Cons.IH [OF mem Cons.prems(2) t(2,3) g(1)] show ?case using t(1) c g(2) by (auto simp: Un_assoc)
qed auto

text \<open>
  C24. Retention sweeps a scope at most once per interval, and grants a claim that is due. After any run
  of claims at positive, non-decreasing times, a claim at a time \<open>now\<close> not before them is granted
  exactly when no claim of the same scope was granted within the last \<open>RetentionSweepInterval\<close>. The
  claims are forgotten by age, when a claim is granted and a prune is due: right after a granted claim
  only entries younger than two intervals are left. A refused claim prunes nothing, so between two
  grants an entry may grow older than that.
\<close>

theorem retention_swept_once_per_interval:
  assumes "0 < RetentionSweepInterval (disp_cfg D)" and "list_all (\<lambda>(_, t). 0 < t) claims"
    and "sorted (map snd claims @ [now])" and "0 < now"
    and "claim_run D claims (ensureFailureCounterFallback initial_state) = (granted, st)"
    and "claimRetentionSweep D scope now st = (ok, st')"
  shows "(ok \<longleftrightarrow> \<not> (\<exists>t. (scope, t) \<in> set granted \<and> now - t < RetentionSweepInterval (disp_cfg D))) \<and>
    (ok \<longrightarrow> list_all (\<lambda>(_, t). now - t < 2 * RetentionSweepInterval (disp_cfg D)) (retentionSweptAt st'))"
proof -
  let ?i = "RetentionSweepInterval (disp_cfg D)"
  define t0 where "t0 = (case claims of [] \<Rightarrow> now | (_, t) # _ \<Rightarrow> t)"
  have t0: "0 < t0" "sorted (t0 # map snd claims)" "t0 \<le> now"
    using assms(2-4) by (force simp: t0_def sorted_append split: list.splits)+
  have init: "sweep_memory ?i {} t0 (ensureFailureCounterFallback initial_state)"
    using t0(1) by (simp add: sweep_memory_def ensureFailureCounterFallback_def initial_state_def)
  obtain now' where n: "claims \<noteq> [] \<longrightarrow> now' = snd (last claims)" "claims = [] \<longrightarrow> now' = t0"
      "sweep_memory ?i (set granted) now' st"
    using claim_run_memory [OF init assms(1) t0(1,2) assms(5)] by auto
  have "now' \<le> now" using n(1,2) assms(3) t0(3) by (cases claims rule: rev_cases) (auto simp: sorted_append)
  note mem = sweep_memory_later [OF n(3) this]
  show ?thesis
    using claimRetentionSweep_due [OF mem, of scope] claimRetentionSweep_granted [OF mem assms(4,1), of scope st'] assms(6)
    by (auto simp: granted_before_def list_all_iff)
qed

definition sweeping_dispatcher :: "unit pg_world dispatcher" where
  "sweeping_dispatcher =
     sample_dispatcher\<lparr>disp_cfg := DefaultDispatcherConfig\<lparr>RetentionSweepInterval := 60\<rparr>\<rparr>"

abbreviation sample_scope :: dispatch_scope where
  "sample_scope \<equiv> \<lparr>scope_TenantID = ''acme'', scope_PoolKey = []\<rparr>"

theorem retention_swept_once_per_interval_witness:
  "claim_run sweeping_dispatcher [(sample_scope, 100)] (ensureFailureCounterFallback initial_state) =
     ([(sample_scope, 100)], (ensureFailureCounterFallback initial_state)
        \<lparr>retentionSweptAt := [(sample_scope, 100)], retentionPrunedAt := 100\<rparr>) \<and>
   (False \<longleftrightarrow> \<not> (\<exists>t. (sample_scope, t) \<in> set [(sample_scope, 100)] \<and> 130 - t < (60::int)))"
proof -
  have i: "RetentionSweepInterval (disp_cfg sweeping_dispatcher) = 60"
    by (simp add: sweeping_dispatcher_def)
  have run: "claim_run sweeping_dispatcher [(sample_scope, 100)] (ensureFailureCounterFallback initial_state) =
     ([(sample_scope, 100)], (ensureFailureCounterFallback initial_state)
        \<lparr>retentionSweptAt := [(sample_scope, 100)], retentionPrunedAt := 100\<rparr>)"
    by (simp add: claimRetentionSweep_def i ensureFailureCounterFallback_def initial_state_def)
  have refused: "claimRetentionSweep sweeping_dispatcher sample_scope 130
      ((ensureFailureCounterFallback initial_state)
         \<lparr>retentionSweptAt := [(sample_scope, 100)], retentionPrunedAt := 100\<rparr>) =
    (False, (ensureFailureCounterFallback initial_state)
         \<lparr>retentionSweptAt := [(sample_scope, 100)], retentionPrunedAt := 100\<rparr>)"
    by (simp add: claimRetentionSweep_def i)
  show ?thesis
    using retention_swept_once_per_interval [OF _ _ _ _ run refused] run unfolding i by simp
qed

subsection \<open>Bounded tables\<close>

definition bounded_state :: "dispatcher_config \<Rightarrow> dispatcher_state \<Rightarrow> bool" where
  "bounded_state cfg st \<longleftrightarrow>
     distinct (map fst (listPendingFailureCounts st)) \<and>
     defaultTenantFailureCounterFallback \<in> fst ` set (listPendingFailureCounts st) \<and>
     int (length (listPendingFailureCounts st)) \<le> max 1 (MaxTrackedListPendingFailureTenants cfg) \<and>
     distinct (tenantMetricKeys st) \<and>
     int (length (tenantMetricKeys st)) \<le> MaxTenantMetricDimensions cfg"

definition same_tables :: "dispatcher_state \<Rightarrow> dispatcher_state \<Rightarrow> bool" where
  "same_tables st st' \<longleftrightarrow>
     listPendingFailureCounts st' = listPendingFailureCounts st \<and> tenantMetricKeys st' = tenantMetricKeys st"

lemma bounded_same: "bounded_state cfg st \<Longrightarrow> same_tables st st' \<Longrightarrow> bounded_state cfg st'"
  by (simp add: bounded_state_def same_tables_def)

lemma keys_update: "fst ` set (AList.update a b xs) = insert a (fst ` set xs)"
  by (induction xs) auto

lemma keys_delete: "fst ` set (AList.delete a xs) = fst ` set xs - {a}"
  by (induction xs) auto

lemma handleListPendingError_bounded:
  assumes "bounded_state (disp_cfg D) st"
  shows "bounded_state (disp_cfg D) (snd (handleListPendingError D key st))"
proof -
  let ?xs = "listPendingFailureCounts st" and ?m = "MaxTrackedListPendingFailureTenants (disp_cfg D)"
  define k where "k = (if ?m \<le> 1 then defaultTenantFailureCounterFallback
      else if map_of ?xs key = None \<and> ?m \<le> int (length ?xs) then defaultTenantFailureCounterFallback else key)"
  obtain n where st': "snd (handleListPendingError D key st) = st\<lparr>listPendingFailureCounts := AList.update k n ?xs\<rparr>"
    by (auto simp: handleListPendingError_def Let_def k_def)
  have "map_of ?xs k = None \<Longrightarrow> 1 < ?m \<and> int (length ?xs) < ?m"
    using assms by (auto simp: k_def bounded_state_def map_of_eq_None_iff split: if_splits)
  then show ?thesis
    using assms unfolding st' by (auto simp: bounded_state_def distinct_update length_alist_update keys_update)
qed

lemma clearListPendingFailureCount_bounded:
  assumes "bounded_state cfg st"
  shows "bounded_state cfg (clearListPendingFailureCount key st)"
proof -
  let ?xs = "listPendingFailureCounts st"
  have "map_of ?xs defaultTenantFailureCounterFallback \<noteq> None"
    using assms by (auto simp: bounded_state_def map_of_eq_None_iff)
  moreover have "length (AList.delete key ?xs) \<le> length ?xs" by (rule length_delete_le)
  ultimately show ?thesis
    using assms
    by (auto simp: bounded_state_def clearListPendingFailureCount_def Let_def distinct_update
        length_alist_update keys_update keys_delete distinct_delete)
qed

lemma tenantMetricAttribute_bounded:
  assumes "bounded_state (disp_cfg D) st"
  shows "bounded_state (disp_cfg D) (snd (tenantMetricAttribute D key st))"
  using assms
  by (auto simp: bounded_state_def tenantMetricAttribute_def boundedTenantMetricKey_def Let_def
      split: if_splits)

lemma collectEvents_state:
  assumes "collectEvents D ctx st w = (es, st', w')"
  shows "st' \<in> {st, snd (handleListPendingError D (tenantKeyFromContext ctx) st),
    clearListPendingFailureCount (tenantKeyFromContext ctx) st}"
  using assms by (auto simp: collectEvents_def Let_def split: if_splits prod.splits sum.splits)

lemma DispatchOnceResult_bounded:
  assumes "bounded_state (disp_cfg D) st" and "DispatchOnceResult D ctx st w = (res, st', w')"
  shows "bounded_state (disp_cfg D) st'"
proof -
  obtain es st1 w1 where c: "collectEvents D ctx st w = (es, st1, w1)" by (metis prod_cases3)
  have "bounded_state (disp_cfg D) st1"
    using collectEvents_state [OF c] assms(1) handleListPendingError_bounded
      clearListPendingFailureCount_bounded by blast
  moreover have "st' = snd (tenantMetricAttribute D (tenantKeyFromContext ctx) st1)"
    using assms(2) c by (auto simp: DispatchOnceResult_def split: prod.splits)
  ultimately show ?thesis using tenantMetricAttribute_bounded by simp
qed

lemma same_tables_updates:
  "same_tables st (recordScopeActivity D scope res now st)"
  "same_tables st (reconcileScopeActivity scopes st)"
  "same_tables st (resetScopePollSchedule st)"
  "same_tables st (snd (tenantDispatchScopeOrder scopes st))"
  "same_tables st (snd (claimRetentionSweep D scope now st))"
  "same_tables st (fst (sweepRetention D ctx scope now st w))"
  "same_tables st (snd (registerRun st))" "same_tables st (clearRun st)" "same_tables st (Stop st)"
  by (auto simp: same_tables_def recordScopeActivity_def reconcileScopeActivity_def
      resetScopePollSchedule_def tenantDispatchScopeOrder_def claimRetentionSweep_def sweepRetention_def
      registerRun_def clearRun_def Stop_def Let_def split: prod.splits bool.splits option.splits if_splits)

lemma fold_same:
  assumes "\<And>x v. same_tables (fst v) (fst (f x v))"
  shows "same_tables (fst v) (fst (fold f xs v))"
  using assms by (induction xs arbitrary: v) (auto simp: same_tables_def)

lemma sweepListedTenants_same: "same_tables st (fst (sweepListedTenants D ctx st w))"
proof -
  have tenants: "same_tables (fst v) (fst (fold (sweep_tenant D ctx now) xs v))" for now xs v
    by (rule fold_same) (simp add: sweep_tenant_def same_tables_updates)
  have "same_tables (fst v) (fst (sweep_listed D ctx now target v))" for now target v
    using tenants [of "(fst v, _)"]
    by (auto simp: sweep_listed_def same_tables_def split: option.splits prod.splits sum.splits)
  then have "same_tables (fst v) (fst (fold (sweep_listed D ctx now) ts v))" for now ts v by (rule fold_same)
  from this [of "(st\<lparr>retentionListedAt := dispatcher_clock (disp_env D) w\<rparr>, w)"] show ?thesis
    by (simp add: sweepListedTenants_def Let_def same_tables_def)
qed

lemma dispatchWithoutDiscoveredTenant_bounded:
  assumes "bounded_state (disp_cfg D) st"
  shows "bounded_state (disp_cfg D) (fst (dispatchWithoutDiscoveredTenant D ctx st w))"
proof -
  obtain res st1 w1 where c: "DispatchOnceResult D ctx st w = (res, st1, w1)" by (metis prod_cases3)
  from bounded_same [OF DispatchOnceResult_bounded [OF assms c] same_tables_updates(6) [where D = D]] show ?thesis
    using c assms by (simp add: dispatchWithoutDiscoveredTenant_def Let_def)
qed

lemma dispatch_scopes_bounded:
  "bounded_state (disp_cfg D) st \<Longrightarrow> bounded_state (disp_cfg D) (fst (dispatch_scopes D ctx scopes st w))"
proof (induction scopes arbitrary: st w)
  case (Cons scope scopes)
  let ?now = "dispatcher_clock (disp_env D) w"
  let ?ctx = "ContextWithTenantID (if op_ListTenantDispatchScopes (disp_repo D) \<noteq> None
      then op_ContextForTenantDispatchScope (disp_repo D) ctx scope else ctx) (scope_TenantID scope)"
  obtain res st1 w1 where c: "DispatchOnceResult D ?ctx st w = (res, st1, w1)" by (metis prod_cases3)
  obtain st3 w3 where r: "sweepRetention D ?ctx scope ?now (recordScopeActivity D scope res ?now st1) w1 = (st3, w3)"
    by fastforce
  have "bounded_state (disp_cfg D) st3"
    using bounded_same [OF bounded_same [OF DispatchOnceResult_bounded [OF Cons.prems c] same_tables_updates(1)]
        same_tables_updates(6)] r by (metis fst_conv)
  from Cons.IH [OF this] Cons.IH [OF Cons.prems] Cons.prems show ?case using c r by (simp add: Let_def)
qed simp

lemma dispatchAcrossTenants_bounded:
  assumes "bounded_state (disp_cfg D) st"
  shows "bounded_state (disp_cfg D) (fst (dispatchAcrossTenants D ctx st w))"
proof -
  obtain r w1 where r: "listTenantDispatchScopes D ctx w = (r, w1)" by fastforce
  show ?thesis
  proof (cases r)
    case (Inl e)
    then show ?thesis using assms r by (simp add: dispatchAcrossTenants_def)
  next
    case (Inr scopes)
    let ?ns = "normalizeTenantDispatchScopes scopes"
    obtain os st2 where o: "tenantDispatchScopeOrder ?ns (reconcileScopeActivity ?ns st) = (os, st2)" by fastforce
    have "bounded_state (disp_cfg D) st2"
      using bounded_same [OF bounded_same [OF assms same_tables_updates(2)] same_tables_updates(4)] o
      by (metis snd_conv)
    then have "bounded_state (disp_cfg D) (fst (if length os = 0 then dispatchWithoutDiscoveredTenant D ctx st2 w1
        else dispatch_scopes D ctx os st2 w1))"
      by (simp add: dispatchWithoutDiscoveredTenant_bounded dispatch_scopes_bounded)
    from bounded_same [OF this sweepListedTenants_same [where D = D]] show ?thesis
      using assms r Inr o by (auto simp: dispatchAcrossTenants_def Let_def split_beta)
  qed
qed

text \<open>What happens to a dispatcher: ticks of its loop, starts and stops.\<close>

inductive dispatcher_history :: "'w dispatcher \<Rightarrow> dispatcher_state \<Rightarrow> bool" for D where
  built: "dispatcher_history D (ensureFailureCounterFallback initial_state)"
| tick: "dispatcher_history D st \<Longrightarrow> dispatcher_history D (fst (dispatchAcrossTenants D ctx st w))"
| started: "dispatcher_history D st \<Longrightarrow> registerRun st = (True, st') \<Longrightarrow>
    dispatcher_history D (resetScopePollSchedule st')"
| cleared: "dispatcher_history D st \<Longrightarrow> dispatcher_history D (clearRun st)"
| halted: "dispatcher_history D st \<Longrightarrow> dispatcher_history D (Stop st)"

lemma history_bounded:
  assumes "dispatcher_history D st" and "0 < MaxTenantMetricDimensions (disp_cfg D)"
  shows "bounded_state (disp_cfg D) st"
  using assms(1)
proof induction
  case built
  show ?case
    using assms(2) by (simp add: bounded_state_def ensureFailureCounterFallback_def initial_state_def)
next
  case (tick st ctx w)
  then show ?case by (intro dispatchAcrossTenants_bounded)
next
  case (started st st')
  then show ?case using bounded_same same_tables_updates(3,7) by (metis snd_conv)
qed (auto intro: bounded_same same_tables_updates)

text \<open>
  The tables a dispatcher keeps per tenant stay bounded for its whole life, however many
  tenants it meets and whatever the repository does: at most
  \<open>MaxTrackedListPendingFailureTenants\<close> failure counters, the fallback among them, and at most
  \<open>MaxTenantMetricDimensions\<close> metric labels besides the overflow label.
\<close>

theorem dispatcher_tables_bounded:
  assumes "NewDispatcher repo handlers cfg env = Inr (D, st0)" and "dispatcher_history D st"
  shows "bounded_state (disp_cfg D) st \<and>
    int (length (listPendingFailureCounts st)) \<le> MaxTrackedListPendingFailureTenants (disp_cfg D)"
proof -
  have "config_ok (disp_cfg D)"
    using assms(1) by (auto simp: NewDispatcher_def bind_res_eq_Inr split: option.splits intro: normalize_ok)
  then show ?thesis using history_bounded [OF assms(2)] by (auto simp: config_ok_def bounded_state_def)
qed

theorem dispatcher_tables_bounded_witness:
  "bounded_state (disp_cfg sample_dispatcher)
     (fst (dispatchAcrossTenants sample_dispatcher background (ensureFailureCounterFallback initial_state)
        sample_world)) \<and>
   int (length (listPendingFailureCounts
     (fst (dispatchAcrossTenants sample_dispatcher background (ensureFailureCounterFallback initial_state)
        sample_world)))) \<le> MaxTrackedListPendingFailureTenants (disp_cfg sample_dispatcher)"
  by (rule dispatcher_tables_bounded [OF sample_NewDispatcher tick [OF built]])

end
