(* ===== verification/Calendar.thy ===== *)
theory Calendar
  imports Commons_Prelude
begin

text \<open>
  The part of Go's \<open>time\<close> package that schedules rely on: the proleptic Gregorian calendar in
  UTC. Days are counted from Monday, 1 January of year 1, Go's zero time. The functions compute;
  \<open>civil_day\<close> says that they are right: every day lies in its year and in its month, and
  \<open>date_day\<close> is their inverse with the normalisation of \<open>time.Date\<close> for the month.
\<close>

definition leap :: "int \<Rightarrow> bool" where
  "leap y \<longleftrightarrow> y mod 4 = 0 \<and> (y mod 100 \<noteq> 0 \<or> y mod 400 = 0)"

definition year_start :: "int \<Rightarrow> int" where
  "year_start y = 365 * (y - 1) + (y - 1) div 4 - (y - 1) div 100 + (y - 1) div 400"

definition days_before_month :: "int \<Rightarrow> int \<Rightarrow> int" where
  "days_before_month y m =
     [0, 31, 59, 90, 120, 151, 181, 212, 243, 273, 304, 334, 365] ! nat (m - 1) +
     (if leap y \<and> 2 < m then 1 else 0)"

definition month_start :: "int \<Rightarrow> int \<Rightarrow> int" where
  "month_start y m = year_start y + days_before_month y m"

definition year_of :: "int \<Rightarrow> int" where
  "year_of d =
     (let y = 400 * d div 146097 + 1 in
      if d < year_start y then y - 1 else if year_start (y + 1) \<le> d then y + 1 else y)"

definition month_of :: "int \<Rightarrow> int" where
  "month_of d =
     (let y = year_of d in
      1 + int (length (takeWhile (\<lambda>m. month_start y m \<le> d) [2, 3, 4, 5, 6, 7, 8, 9, 10, 11, 12])))"

definition day_of :: "int \<Rightarrow> int" where
  "day_of d = d - month_start (year_of d) (month_of d) + 1"

definition weekday_of :: "int \<Rightarrow> int" where
  "weekday_of d = (d + 1) mod 7"

definition date_day :: "int \<Rightarrow> int \<Rightarrow> int \<Rightarrow> int" where
  "date_day y m d = month_start (y + (m - 1) div 12) ((m - 1) mod 12 + 1) + (d - 1)"

subsection \<open>Years\<close>

lemma div_less_iff:
  assumes "0 < (k :: int)"
  shows "t div k < u \<longleftrightarrow> t < u * k"
proof -
  have "u \<le> t div k \<longleftrightarrow> u * k \<le> t"
  proof
    assume "u \<le> t div k"
    then have "u * k \<le> (t div k) * k" using assms by simp
    also have "\<dots> \<le> t" using assms div_mult_mod_eq [of t k] pos_mod_sign [of k t] by linarith
    finally show "u * k \<le> t" .
  next
    assume "u * k \<le> t"
    from zdiv_mono1 [OF this assms] show "u \<le> t div k" using assms by simp
  qed
  then show ?thesis by linarith
qed

lemma div_step:
  assumes "0 < (k :: int)"
  shows "(n + 1) div k = n div k + (if (n + 1) mod k = 0 then 1 else 0)"
proof -
  have n: "k * (n div k) + n mod k = n" by simp
  have r: "0 \<le> n mod k" "n mod k < k" using assms by simp_all
  show ?thesis
  proof (cases "n mod k = k - 1")
    case True
    have "n + 1 = k * (n div k + 1) + 0" using True n by (simp only: distrib_left)
    from int_div_pos_eq [OF this order_refl assms] int_mod_pos_eq [OF this order_refl assms]
    show ?thesis by simp
  next
    case False
    then have b: "0 \<le> n mod k + 1" "n mod k + 1 < k" using r by linarith+
    have "n + 1 = k * (n div k) + (n mod k + 1)" using n by linarith
    from int_div_pos_eq [OF this b] int_mod_pos_eq [OF this b] show ?thesis using r by simp
  qed
qed

lemma year_length: "year_start (y + 1) = year_start y + (if leap y then 366 else 365)"
proof -
  define p q r where pqr: "p \<longleftrightarrow> y mod 4 = 0" "q \<longleftrightarrow> y mod 100 = 0" "r \<longleftrightarrow> y mod 400 = 0"
  define a b c where abc: "a = (y - 1) div 4" "b = (y - 1) div 100" "c = (y - 1) div 400"
  have step: "y div k = (y - 1) div k + (if y mod k = 0 then 1 else 0)" if "0 < k" for k
    using div_step [OF that, of "y - 1"] by (simp only: diff_add_cancel)
  have divs: "y div 4 = a + (if p then 1 else 0)" "y div 100 = b + (if q then 1 else 0)"
    "y div 400 = c + (if r then 1 else 0)"
    unfolding abc pqr by (rule step, simp)+
  have "q \<Longrightarrow> p" unfolding pqr using dvd_trans [of 4 100 y] by (simp add: mod_eq_0_iff_dvd)
  moreover have "r \<Longrightarrow> q" unfolding pqr using dvd_trans [of 100 400 y] by (simp add: mod_eq_0_iff_dvd)
  moreover have "year_start (y + 1) = 365 * y + y div 4 - y div 100 + y div 400"
    by (simp add: year_start_def)
  moreover have "year_start y = 365 * y - 365 + a - b + c"
    unfolding year_start_def abc by (simp only: right_diff_distrib)
  moreover have "leap y \<longleftrightarrow> p \<and> (\<not> q \<or> r)" unfolding leap_def pqr by blast
  ultimately show ?thesis unfolding divs by (cases p; cases q; cases r) simp_all
qed

lemma year_start_estimate:
  "146097 * y - 146796 \<le> 400 * year_start y \<and> 400 * year_start y \<le> 146097 * y - 145701"
proof -
  define n where "n = y - 1"
  define a b c where abc: "a = n div 4" "b = n div 100" "c = n div 400"
  define r s t where rst: "r = n mod 4" "s = n mod 100" "t = n mod 400"
  have e: "4 * a + r = n" "100 * b + s = n" "400 * c + t = n" by (simp_all add: abc rst)
  have b: "0 \<le> r" "r \<le> 3" "0 \<le> s" "s \<le> 99" "0 \<le> t" "t \<le> 399"
    using pos_mod_bound [of 4 n] pos_mod_bound [of 100 n] pos_mod_bound [of 400 n] by (simp_all add: rst)
  have "400 * (365 * n + a - b + c) = 146097 * n - 100 * r + 4 * s - t" using e by simp
  moreover have "year_start y = 365 * n + a - b + c" by (simp add: year_start_def n_def abc)
  moreover have "146097 * n = 146097 * y - 146097" by (simp add: n_def)
  ultimately have "400 * year_start y = 146097 * y - 146097 - 100 * r + 4 * s - t" by simp
  then show ?thesis using b by (intro conjI) linarith+
qed

lemma year_of_bounds: "year_start (year_of d) \<le> d \<and> d < year_start (year_of d + 1)"
proof -
  define y where "y = 400 * d div 146097 + 1"
  define r where "r = 400 * d mod 146097"
  have "146097 * (y - 1) + r = 400 * d" and r: "0 \<le> r" "r < 146097" by (simp_all add: y_def r_def)
  then have q: "146097 * y - 146097 + r = 400 * d" by simp
  have "146097 * (y - 1) = 146097 * y - 146097" "146097 * (y + 2) = 146097 * y + 292194" by simp_all
  then have "year_start (y - 1) \<le> d" "d < year_start (y + 2)"
    using q r year_start_estimate [of "y - 1"] year_start_estimate [of "y + 2"] by linarith+
  then show ?thesis unfolding year_of_def Let_def y_def [symmetric] by (simp add: ac_simps)
qed

lemma year_start_mono: "y \<le> y' \<Longrightarrow> year_start y \<le> year_start y'"
proof (induction "nat (y' - y)" arbitrary: y')
  case (Suc k)
  then have "year_start y \<le> year_start (y' - 1)" by simp
  then show ?case using year_length [of "y' - 1"] by simp
qed simp

lemma year_of_unique: "year_start y \<le> d \<Longrightarrow> d < year_start (y + 1) \<Longrightarrow> year_of d = y"
  using year_of_bounds [of d] year_start_mono [of "y + 1" "year_of d"] year_start_mono [of "year_of d + 1" y]
  by linarith

subsection \<open>Months\<close>

lemma month_start_table:
  "month_start y 1 = year_start y" "month_start y 13 = year_start (y + 1)"
  "month_start y 2 = year_start y + 31"
  "month_start y 3 = year_start y + 59 + (if leap y then 1 else 0)"
  "month_start y 4 = year_start y + 90 + (if leap y then 1 else 0)"
  "month_start y 5 = year_start y + 120 + (if leap y then 1 else 0)"
  "month_start y 6 = year_start y + 151 + (if leap y then 1 else 0)"
  "month_start y 7 = year_start y + 181 + (if leap y then 1 else 0)"
  "month_start y 8 = year_start y + 212 + (if leap y then 1 else 0)"
  "month_start y 9 = year_start y + 243 + (if leap y then 1 else 0)"
  "month_start y 10 = year_start y + 273 + (if leap y then 1 else 0)"
  "month_start y 11 = year_start y + 304 + (if leap y then 1 else 0)"
  "month_start y 12 = year_start y + 334 + (if leap y then 1 else 0)"
  by (simp_all add: month_start_def days_before_month_def year_length)

lemma month_of_bounds:
  "1 \<le> month_of d \<and> month_of d \<le> 12 \<and> month_start (year_of d) (month_of d) \<le> d \<and>
   d < month_start (year_of d) (month_of d + 1)"
  using year_of_bounds [of d] by (simp add: month_of_def Let_def month_start_table)

lemma months_enum: "1 \<le> (m :: int) \<Longrightarrow> m \<le> 12 \<Longrightarrow>
    m = 1 \<or> m = 2 \<or> m = 3 \<or> m = 4 \<or> m = 5 \<or> m = 6 \<or> m = 7 \<or> m = 8 \<or> m = 9 \<or> m = 10 \<or> m = 11 \<or> m = 12"
  by presburger

lemma month_of_unique:
  assumes "1 \<le> m" "m \<le> 12" "month_start y m \<le> d" "d < month_start y (m + 1)"
  shows "year_of d = y \<and> month_of d = m"
proof -
  have y: "year_of d = y"
    by (rule year_of_unique) (use months_enum [OF assms(1,2)] assms(3,4) in \<open>elim disjE; simp add: month_start_table year_length split: if_splits\<close>)+
  then show ?thesis
    using months_enum [OF assms(1,2)] assms(3,4) by (elim disjE) (simp_all add: month_of_def month_start_table split: if_splits)
qed

lemma month_length:
  assumes "1 \<le> m" "m \<le> 12"
  shows "month_start y m + 28 \<le> month_start y (m + 1) \<and> month_start y (m + 1) \<le> month_start y m + 31"
  using months_enum [OF assms] by (elim disjE) (simp_all add: month_start_table year_length)

text \<open>Year 1 is a common year: no month is ever shorter than there.\<close>

lemma month_length_common:
  assumes "1 \<le> m" "m \<le> 12"
  shows "month_start 1 (m + 1) - month_start 1 m \<le> month_start y (m + 1) - month_start y m"
proof -
  have "\<not> leap 1" by (simp add: leap_def)
  then show ?thesis
    using months_enum [OF assms] year_length [of 1]
    by (elim disjE) (simp_all add: month_start_table year_length)
qed

text \<open>\<open>time.Date\<close> on the first of the next month, and on the days of a month.\<close>

lemma date_day_next_month:
  "date_day (year_of d) (month_of d + 1) 1 = month_start (year_of d) (month_of d + 1)"
proof (cases "month_of d = 12")
  case True
  then show ?thesis by (simp add: date_day_def month_start_table)
next
  case False
  then have "0 \<le> month_of d" "month_of d < 12" using month_of_bounds [of d] by auto
  then show ?thesis by (simp add: date_day_def)
qed

lemma civil_day:
  assumes "1 \<le> m" "m \<le> 12" "1 \<le> d" "d \<le> month_start y (m + 1) - month_start y m"
  shows "year_of (date_day y m d) = y \<and> month_of (date_day y m d) = m \<and> day_of (date_day y m d) = d"
proof -
  have e: "date_day y m d = month_start y m + (d - 1)" using assms by (simp add: date_day_def)
  have "year_of (date_day y m d) = y \<and> month_of (date_day y m d) = m"
    by (rule month_of_unique) (use assms month_length [of m y] in \<open>simp_all add: e\<close>)
  then show ?thesis by (simp add: day_of_def e)
qed

text \<open>\<open>Year\<close>, \<open>Month\<close> and \<open>Day\<close> followed by \<open>Date\<close> give the day back.\<close>

lemma date_day_inverse: "date_day (year_of d) (month_of d) (day_of d) = d"
  using month_of_bounds [of d] by (simp add: date_day_def day_of_def)

end
