(* ===== verification/Go_Text.thy ===== *)
theory Go_Text
  imports Commons_Prelude
begin

text \<open>
  Printing of numbers and bytes as Go's \<open>strconv\<close> and \<open>encoding/hex\<close> do it, and that what is printed
  determines what was printed; and the splitting functions of \<open>strings\<close>.
\<close>

subsection \<open>Decimal numbers\<close>

lemma is_digit_char_of:
  assumes "n < 10"
  shows "is_digit (char_of (48 + n)) \<and> of_char (char_of (48 + n) :: char) = 48 + (of_nat n :: int)"
proof -
  have b: "(of_char (char_of (48 + n) :: char) :: nat) = 48 + n" using assms by simp
  then have "(of_char (char_of (48 + n) :: char) :: int) = of_nat (48 + n)" by (metis of_nat_of_char)
  then show ?thesis using b assms by (simp add: is_digit_def)
qed

lemma itoa_digits: "list_all is_digit (itoa n)"
proof (induction n rule: itoa.induct)
  case (1 n)
  then show ?case by (subst itoa.simps) (simp add: is_digit_char_of)
qed

lemma itoa_nonempty: "itoa n \<noteq> []"
  by (subst itoa.simps) simp

lemma itoa_chars: "c \<in> set (itoa n) \<Longrightarrow> is_digit c"
  using itoa_digits [of n] by (auto simp: list_all_iff)

lemma itoa_inject: "itoa m = itoa n \<longleftrightarrow> m = n"
proof (induction m arbitrary: n rule: itoa.induct)
  case (1 m)
  have last: "last (itoa k) = char_of (48 + k mod 10)" for k
    by (cases "k < 10"; subst itoa.simps) simp_all
  have init: "butlast (itoa k) = (if k < 10 then [] else itoa (k div 10))" for k
    by (cases "k < 10"; subst itoa.simps) simp_all
  show ?case
  proof
    assume e: "itoa m = itoa n"
    have "m mod 10 < 10" "n mod 10 < 10" by simp_all
    then have d: "m mod 10 = n mod 10"
      using e last [of m] last [of n] is_digit_char_of [of "m mod 10"] is_digit_char_of [of "n mod 10"] by simp
    have i: "(if m < 10 then [] else itoa (m div 10)) = (if n < 10 then [] else itoa (n div 10))"
      using e init by metis
    have "m div 10 = n div 10"
    proof (cases "m < 10 \<or> n < 10")
      case True
      then show ?thesis using i itoa_nonempty [of "m div 10"] itoa_nonempty [of "n div 10"] by (auto split: if_splits)
    next
      case False
      then show ?thesis using i 1 [of "n div 10"] by simp
    qed
    with d show "m = n" by (metis div_mult_mod_eq)
  qed simp
qed

text \<open>\<open>strconv.Atoi\<close>, and \<open>strconv.ParseInt\<close> in base ten; \<open>None\<close> is a syntax or a range error.\<close>

definition digits_value :: "string \<Rightarrow> int" where
  "digits_value ds = foldl (\<lambda>v c. 10 * v + (of_char c - 48)) 0 ds"

definition Atoi :: "string \<Rightarrow> int option" where
  "Atoi s =
     (let negative = (s \<noteq> [] \<and> hd s = CHR ''-'');
          digits = (if s \<noteq> [] \<and> (hd s = CHR ''-'' \<or> hd s = CHR ''+'') then tl s else s);
          v = (if negative then - digits_value digits else digits_value digits) in
      if digits = [] \<or> \<not> list_all is_digit digits \<or> \<not> in_int64 v then None else Some v)"

lemma digits_value_snoc: "digits_value (ds @ [c]) = 10 * digits_value ds + (of_char c - 48)"
  by (simp add: digits_value_def)

lemma digits_value_itoa: "digits_value (itoa n) = int n"
proof (induction n rule: itoa.induct)
  case (1 n)
  show ?case
  proof (cases "n < 10")
    case True
    then show ?thesis using is_digit_char_of [OF True] by (simp add: itoa_digit digits_value_def)
  next
    case False
    have "itoa n = itoa (n div 10) @ [char_of (48 + n mod 10)]" using False by (subst itoa.simps) simp
    moreover have "10 * int (n div 10) + int (n mod 10) = int n"
      by (metis mult_div_mod_eq of_nat_add of_nat_mult of_nat_numeral)
    ultimately show ?thesis using 1 False is_digit_char_of [of "n mod 10"] by (simp add: digits_value_snoc)
  qed
qed

lemma digit_not:
  "is_digit c \<Longrightarrow> c \<noteq> CHR ''-'' \<and> c \<noteq> CHR ''+'' \<and> c \<noteq> CHR ''/'' \<and> c \<noteq> CHR '','' \<and> c \<noteq> CHR ''*''"
  by (auto simp: is_digit_def)

lemma Atoi_itoa:
  assumes "int n \<le> max_int64"
  shows "Atoi (itoa n) = Some (int n)"
proof -
  have "hd (itoa n) \<noteq> CHR ''-'' \<and> hd (itoa n) \<noteq> CHR ''+''"
    using itoa_digits [of n] itoa_nonempty [of n] digit_not by (cases "itoa n") auto
  then show ?thesis
    using assms itoa_digits [of n] itoa_nonempty [of n]
    by (simp add: Atoi_def digits_value_itoa in_int64_def min_int64_def)
qed

definition FormatInt :: "int \<Rightarrow> string" where
  "FormatInt i = (if i < 0 then CHR ''-'' # itoa (nat (- i)) else itoa (nat i))"

lemma FormatInt_chars: "c \<in> set (FormatInt i) \<Longrightarrow> c = CHR ''-'' \<or> is_digit c"
  by (auto simp: FormatInt_def dest: itoa_chars split: if_splits)

lemma FormatInt_inject: "FormatInt i = FormatInt j \<longleftrightarrow> i = j"
proof -
  have "itoa n \<noteq> CHR ''-'' # s" for n s using itoa_chars [of "CHR ''-''" n] by (auto simp: is_digit_def)
  then show ?thesis by (auto simp: FormatInt_def itoa_inject nat_eq_iff dest: sym)
qed

subsection \<open>Hexadecimal\<close>

definition hex_digit :: "nat \<Rightarrow> char" where
  "hex_digit n = ''0123456789abcdef'' ! n"

definition hex_EncodeToString :: "string \<Rightarrow> string" where
  "hex_EncodeToString s = concat (map (\<lambda>c. [hex_digit (of_char c div 16), hex_digit (of_char c mod 16)]) s)"

lemma hex_digit_inject: "m < 16 \<Longrightarrow> n < 16 \<Longrightarrow> hex_digit m = hex_digit n \<longleftrightarrow> m = n"
  unfolding hex_digit_def by (subst nth_eq_iff_index_eq) auto

lemma hex_EncodeToString_simps [simp]:
  "hex_EncodeToString [] = []"
  "hex_EncodeToString (c # s) = hex_digit (of_char c div 16) # hex_digit (of_char c mod 16) # hex_EncodeToString s"
  by (simp_all add: hex_EncodeToString_def)

lemma length_hex [simp]: "length (hex_EncodeToString s) = 2 * length s"
  by (induction s) simp_all

lemma hex_inject: "hex_EncodeToString s = hex_EncodeToString t \<longleftrightarrow> s = t"
proof (induction s arbitrary: t)
  case Nil
  then show ?case by (cases t) simp_all
next
  case (Cons c s)
  show ?case
  proof (cases t)
    case (Cons d u)
    have "(of_char c :: nat) < 256" "(of_char d :: nat) < 256" using of_char_mod_256 [of c] of_char_mod_256 [of d] by (metis mod_less_divisor zero_less_numeral)+
    then have b: "(of_char c :: nat) div 16 < 16" "(of_char d :: nat) div 16 < 16" by linarith+
    have "(of_char c :: nat) div 16 = of_char d div 16 \<and> (of_char c :: nat) mod 16 = of_char d mod 16 \<longleftrightarrow> c = d"
      by (metis div_mult_mod_eq of_char_eq_iff)
    then show ?thesis using b by (auto simp: Cons Cons.IH hex_digit_inject)
  qed simp
qed

subsection \<open>Splitting\<close>

text \<open>\<open>strings.SplitN(s, c, 2)\<close> for a one-byte separator, and \<open>strings.Split\<close>.\<close>

fun split_first :: "char \<Rightarrow> string \<Rightarrow> string \<times> string option" where
  "split_first c [] = ([], None)"
| "split_first c (x # xs) =
     (if x = c then ([], Some xs)
      else (case split_first c xs of (before, rest) \<Rightarrow> (x # before, rest)))"

fun split_all :: "char \<Rightarrow> string \<Rightarrow> string list" where
  "split_all c [] = [[]]"
| "split_all c (x # xs) =
     (if x = c then [] # split_all c xs
      else (case split_all c xs of [] \<Rightarrow> [[x]] | p # ps \<Rightarrow> (x # p) # ps))"

text \<open>Equality under simple case folding, which beyond ASCII is the parameter.\<close>

definition EqualFold :: "(string \<Rightarrow> string \<Rightarrow> bool) \<Rightarrow> string \<Rightarrow> string \<Rightarrow> bool" where
  "EqualFold uni s t =
     (if list_all is_ascii s \<and> list_all is_ascii t then map lower_char s = map lower_char t else uni s t)"

text \<open>\<open>strings.Fields\<close>: \<open>cur\<close> is the field being read.\<close>

function fields_loop :: "string \<Rightarrow> string \<Rightarrow> string list" where
  "fields_loop cur s =
     (if s = [] then (if cur = [] then [] else [cur])
      else (case strip_any space_encodings s of
          Some t \<Rightarrow> (if length t < length s
                    then (if cur = [] then fields_loop [] t else cur # fields_loop [] t)
                    else [])
        | None \<Rightarrow> fields_loop (cur @ [hd s]) (tl s)))"
  by pat_completeness auto
termination
  by (relation "measure (\<lambda>(cur, s). length s)") (auto simp: neq_Nil_conv)

declare fields_loop.simps [simp del]

definition Fields :: "string \<Rightarrow> string list" where
  "Fields s = fields_loop [] s"

lemma split_all_not_Nil [simp]: "split_all c s \<noteq> []"
  by (cases s) (auto split: list.splits)

lemma split_all_no_separator: "c \<notin> set s \<Longrightarrow> split_all c s = [s]"
  by (induction s) auto

lemma split_all_append: "split_all c (s @ c # t) = split_all c s @ split_all c t"
  by (induction s) (auto split: list.splits)

text \<open>Joining the parts again gives the text, and no part has the separator.\<close>

fun join_with :: "char \<Rightarrow> string list \<Rightarrow> string" where
  "join_with c [] = []"
| "join_with c [p] = p"
| "join_with c (p # ps) = p @ c # join_with c ps"

lemma join_with_Cons [simp]: "join_with c ((x # p) # ps) = x # join_with c (p # ps)"
  by (cases ps) simp_all

lemma join_split_all: "join_with c (split_all c s) = s"
proof (induction s)
  case (Cons x s)
  then show ?case by (cases "split_all c s") auto
qed simp

end
