(* ===== verification/Cron.thy ===== *)
theory Cron
  imports Calendar Go_Text
begin

text \<open>
  \<open>commons/cron/cron.go\<close>: the parser of five-field cron expressions and the search for the next
  execution time. An instant is a number of nanoseconds since Go's zero time; a candidate of the
  search is a whole minute, represented by its number.
\<close>

datatype cron_error = ErrInvalidExpression | ErrNoMatch | ErrNilSchedule

definition maxMinute :: int where "maxMinute = 59"
definition maxHour :: int where "maxHour = 23"
definition minDayOfMonth :: int where "minDayOfMonth = 1"
definition maxDayOfMonth :: int where "maxDayOfMonth = 31"
definition minMonth :: int where "minMonth = 1"
definition maxMonth :: int where "maxMonth = 12"
definition maxDayOfWeek :: int where "maxDayOfWeek = 7"
definition cronFieldCount :: nat where "cronFieldCount = 5"

lemmas cron_limits = maxMinute_def maxHour_def minDayOfMonth_def maxDayOfMonth_def minMonth_def
  maxMonth_def maxDayOfWeek_def

record schedule =
  minutes :: "int list"
  hours :: "int list"
  doms :: "int list"
  months :: "int list"
  dows :: "int list"
  domIsWild :: bool
  dowIsWild :: bool

subsection \<open>Parsing\<close>

definition parseStep :: "string \<Rightarrow> cron_error + int" where
  "parseStep raw =
     (case Atoi raw of
        None \<Rightarrow> Inl ErrInvalidExpression
      | Some s \<Rightarrow> if s \<le> 0 then Inl ErrInvalidExpression else Inr s)"

definition parseRange :: "string \<Rightarrow> int \<Rightarrow> int \<Rightarrow> cron_error + int \<times> int" where
  "parseRange rangePart minVal maxVal =
     (case split_first (CHR ''-'') rangePart of
        (lo_text, hi_text) \<Rightarrow>
          (case Atoi lo_text of
             None \<Rightarrow> Inl ErrInvalidExpression
           | Some lo \<Rightarrow>
               (case Atoi (case hi_text of None \<Rightarrow> [] | Some t \<Rightarrow> t) of
                  None \<Rightarrow> Inl ErrInvalidExpression
                | Some hi \<Rightarrow>
                    if lo < minVal \<or> hi > maxVal \<or> lo > hi then Inl ErrInvalidExpression
                    else Inr (lo, hi))))"

text \<open>
  The loop \<open>for v := rangeStart; v <= rangeEnd; v += step\<close> with the wrap-around of Go's \<open>int\<close>.
  Its guard holds of every call of \<open>parsePart\<close>: numbers come from \<open>Atoi\<close>, steps are positive and
  range ends are limits of a field, at most 59.
\<close>

abbreviation step_guard :: "int \<Rightarrow> int \<Rightarrow> int \<Rightarrow> bool" where
  "step_guard v rangeEnd step \<equiv>
     in_int64 v \<and> in_int64 step \<and> 0 < step \<and> - 1 \<le> rangeEnd \<and> rangeEnd \<le> 59"

function step_loop :: "int \<Rightarrow> int \<Rightarrow> int \<Rightarrow> int list" where
  "step_loop v rangeEnd step =
     (if step_guard v rangeEnd step \<and> v \<le> rangeEnd
      then v # step_loop (wrap64 (v + step)) rangeEnd step else [])"
  by pat_completeness auto

text \<open>
  Without overflow the counter approaches the end of the range. With it, the counter wraps to the
  far negative and the next addition brings it back below where it was.
\<close>

definition step_measure :: "int \<times> int \<times> int \<Rightarrow> nat" where
  "step_measure = (\<lambda>(v, rangeEnd, step).
     if step \<le> max_int64 - rangeEnd then nat (rangeEnd + 1 - v)
     else if v < - 4611686018427387904 then nat (2 * (v + step) + 36893488147419103233)
     else if v \<le> rangeEnd then nat (2 * v + 36893488147419103232) else 0)"

lemma wrap64_add:
  assumes "in_int64 v" and "in_int64 step" and "0 < step"
  shows "wrap64 (v + step) = (if v + step \<le> max_int64 then v + step else v + step - 18446744073709551616)"
proof (cases "v + step \<le> max_int64")
  case True
  then show ?thesis using assms by (simp add: wrap64_id in_int64_def min_int64_def)
next
  case False
  have "wrap64 (v + step) = wrap64 (v + step - 18446744073709551616)"
  proof -
    have "v + step - 18446744073709551616 + 2 ^ 63 = (v + step + 2 ^ 63) - 2 ^ 64" by simp
    then show ?thesis unfolding wrap64_def by (simp only: minus_mod_self2)
  qed
  also have "\<dots> = v + step - 18446744073709551616"
    using False assms by (intro wrap64_id) (auto simp: in_int64_def min_int64_def max_int64_def)
  finally show ?thesis using False by simp
qed

lemma step_measure_decreases:
  assumes "step_guard v rangeEnd step" and "v \<le> rangeEnd"
  shows "step_measure (wrap64 (v + step), rangeEnd, step) < step_measure (v, rangeEnd, step)"
  using assms
  by (auto simp: step_measure_def wrap64_add in_int64_def min_int64_def max_int64_def nat_less_eq_zless split: if_splits)

termination step_loop
  by (relation "measure step_measure") (auto intro: step_measure_decreases)

declare step_loop.simps [simp del]

definition step_values :: "int \<Rightarrow> int \<Rightarrow> int option \<Rightarrow> int list" where
  "step_values rangeStart rangeEnd step =
     step_loop rangeStart rangeEnd (case step of None \<Rightarrow> 1 | Some s \<Rightarrow> s)"

text \<open>The switch on the range of a part; \<open>step\<close> is \<open>None\<close> when the part has none.\<close>

definition part_values :: "string \<Rightarrow> int \<Rightarrow> int \<Rightarrow> int option \<Rightarrow> cron_error + int list" where
  "part_values rangePart minVal maxVal step =
     (if rangePart = ''*'' then Inr (step_values minVal maxVal step)
      else if CHR ''-'' \<in> set rangePart then
        bind_res (parseRange rangePart minVal maxVal) (\<lambda>(lo, hi). Inr (step_values lo hi step))
      else
        (case Atoi rangePart of
           None \<Rightarrow> Inl ErrInvalidExpression
         | Some val \<Rightarrow>
             if val < minVal \<or> val > maxVal then Inl ErrInvalidExpression
             else if step \<noteq> None then Inr (step_values val maxVal step)
             else Inr [val]))"

definition parsePart :: "string \<Rightarrow> int \<Rightarrow> int \<Rightarrow> cron_error + int list" where
  "parsePart part minVal maxVal =
     (case split_first (CHR ''/'') part of
        (rangePart, stepText) \<Rightarrow>
          bind_res (case stepText of
                      None \<Rightarrow> Inr None
                    | Some raw \<Rightarrow> bind_res (parseStep raw) (\<lambda>s. Inr (Some s)))
            (part_values rangePart minVal maxVal))"

fun dedup_loop :: "int list \<Rightarrow> int list \<Rightarrow> int list" where
  "dedup_loop result [] = result"
| "dedup_loop result (v # vs) =
     (if v \<in> set result then dedup_loop result vs else dedup_loop (result @ [v]) vs)"

definition deduplicate :: "int list \<Rightarrow> int list" where
  "deduplicate vals = sort (dedup_loop [] vals)"

definition parseField :: "string \<Rightarrow> int \<Rightarrow> int \<Rightarrow> cron_error + int list" where
  "parseField field minVal maxVal =
     bind_res (map_res (\<lambda>part. parsePart part minVal maxVal) (split_all (CHR '','') field)) (\<lambda>parts.
     Inr (deduplicate (concat parts)))"

definition isWildcard :: "string \<Rightarrow> bool" where
  "isWildcard field \<longleftrightarrow> field = ''*''"

definition normalizeDOW :: "int list \<Rightarrow> int list" where
  "normalizeDOW ws = deduplicate (map (\<lambda>v. if v = 7 then 0 else v) ws)"

definition Parse :: "string \<Rightarrow> cron_error + schedule" where
  "Parse expr0 =
     (let expr = trim_space expr0 in
      if expr = [] then Inl ErrInvalidExpression
      else
        (let fields = Fields expr in
         if length fields \<noteq> cronFieldCount then Inl ErrInvalidExpression
         else
           bind_res (parseField (fields ! 0) 0 maxMinute) (\<lambda>mins.
           bind_res (parseField (fields ! 1) 0 maxHour) (\<lambda>hrs.
           bind_res (parseField (fields ! 2) minDayOfMonth maxDayOfMonth) (\<lambda>ds.
           bind_res (parseField (fields ! 3) minMonth maxMonth) (\<lambda>ms.
           bind_res (parseField (fields ! 4) 0 maxDayOfWeek) (\<lambda>ws.
           Inr \<lparr>minutes = mins, hours = hrs, doms = ds, months = ms, dows = normalizeDOW ws,
                domIsWild = isWildcard (fields ! 2), dowIsWild = isWildcard (fields ! 4)\<rparr>)))))))"

subsection \<open>Searching\<close>

text \<open>The calendar day, the hour and the minute of the \<open>t\<close>-th minute.\<close>

abbreviation day_number :: "int \<Rightarrow> int" where "day_number t \<equiv> t div 1440"
abbreviation hour_of :: "int \<Rightarrow> int" where "hour_of t \<equiv> t div 60 mod 24"
abbreviation minute_of :: "int \<Rightarrow> int" where "minute_of t \<equiv> t mod 60"

definition matchDay :: "schedule \<Rightarrow> int \<Rightarrow> bool" where
  "matchDay sched t =
     (let domMatch = day_of (day_number t) \<in> set (doms sched);
          dowMatch = weekday_of (day_number t) \<in> set (dows sched) in
      if domIsWild sched \<and> dowIsWild sched then True
      else if domIsWild sched then dowMatch
      else if dowIsWild sched then domMatch
      else domMatch \<or> dowMatch)"

fun next_loop :: "schedule \<Rightarrow> nat \<Rightarrow> int \<Rightarrow> cron_error + int" where
  "next_loop sched 0 candidate = Inl ErrNoMatch"
| "next_loop sched (Suc k) candidate =
     (let day = day_number candidate in
      if month_of day \<notin> set (months sched)
      then next_loop sched k (date_day (year_of day) (month_of day + 1) 1 * 1440)
      else if \<not> matchDay sched candidate then next_loop sched k ((day + 1) * 1440)
      else if hour_of candidate \<notin> set (hours sched) then next_loop sched k ((candidate div 60 + 1) * 60)
      else if minute_of candidate \<notin> set (minutes sched) then next_loop sched k (candidate + 1)
      else Inr candidate)"

definition maxIterations :: nat where
  "maxIterations = 1461 * 24 * 60"

text \<open>The receiver is a pointer, \<open>from\<close> an instant; the result is a whole minute.\<close>

definition Next :: "schedule option \<Rightarrow> int \<Rightarrow> cron_error + int" where
  "Next sched from_time =
     (case sched of
        None \<Rightarrow> Inl ErrNilSchedule
      | Some s \<Rightarrow> next_loop s maxIterations ((from_time + 60000000000) div 60000000000))"

subsection \<open>The search finds the first match\<close>

text \<open>What a schedule means: the minutes at which it fires.\<close>

definition fires :: "schedule \<Rightarrow> int \<Rightarrow> bool" where
  "fires sched t \<longleftrightarrow>
     month_of (day_number t) \<in> set (months sched) \<and> matchDay sched t \<and>
     hour_of t \<in> set (hours sched) \<and> minute_of t \<in> set (minutes sched)"

text \<open>A candidate that does not fire is skipped together with minutes that do not fire either.\<close>

definition skips :: "schedule \<Rightarrow> int \<Rightarrow> int \<Rightarrow> bool" where
  "skips sched c c' \<longleftrightarrow> c < c' \<and> (\<forall>u. c \<le> u \<and> u < c' \<longrightarrow> \<not> fires sched u)"

lemma same_day: "c \<le> u \<Longrightarrow> u < (day_number c + 1) * 1440 \<Longrightarrow> day_number u = day_number c"
proof -
  assume "c \<le> u" and "u < (day_number c + 1) * 1440"
  then have "day_number c \<le> day_number u" "day_number u < day_number c + 1"
    by (simp_all add: zdiv_mono1 div_less_iff_less_mult)
  then show ?thesis by simp
qed

lemma day_bounds: "day_number t * 1440 \<le> t" "t < (day_number t + 1) * 1440"
  using div_mult_mod_eq [of t 1440] pos_mod_sign [of 1440 t] by (linarith, simp flip: div_less_iff_less_mult)

lemma skip_month:
  assumes "month_of (day_number c) \<notin> set (months sched)"
  shows "skips sched c (date_day (year_of (day_number c)) (month_of (day_number c) + 1) 1 * 1440)"
proof -
  let ?d = "day_number c"
  let ?y = "year_of ?d" and ?m = "month_of ?d"
  note b = month_of_bounds [of ?d]
  have n: "date_day ?y (?m + 1) 1 = month_start ?y (?m + 1)" by (rule date_day_next_month)
  have "c < month_start ?y (?m + 1) * 1440"
    using b day_bounds(2) [of c] by (simp add: mult_le_cancel_right add1_zle_eq [symmetric] order_less_le_trans)
  moreover have "\<not> fires sched u" if u: "c \<le> u" "u < month_start ?y (?m + 1) * 1440" for u
  proof -
    have "?d \<le> day_number u" using u(1) by (simp add: zdiv_mono1)
    moreover have "day_number u < month_start ?y (?m + 1)" using u(2) by (simp add: div_less_iff_less_mult)
    ultimately have "month_of (day_number u) = ?m" using month_of_unique [of ?m ?y "day_number u"] b by simp
    then show ?thesis using assms by (simp add: fires_def)
  qed
  ultimately show ?thesis by (simp add: skips_def n)
qed

lemma skip_day:
  assumes "\<not> matchDay sched c"
  shows "skips sched c ((day_number c + 1) * 1440)"
proof -
  have "\<not> fires sched u" if "c \<le> u" "u < (day_number c + 1) * 1440" for u
    using assms same_day [OF that] by (simp add: fires_def matchDay_def)
  then show ?thesis using day_bounds(2) by (simp add: skips_def)
qed

lemma skip_hour:
  assumes "hour_of c \<notin> set (hours sched)"
  shows "skips sched c ((c div 60 + 1) * 60)"
proof -
  have "\<not> fires sched u" if "c \<le> u" "u < (c div 60 + 1) * 60" for u
  proof -
    have "c div 60 \<le> u div 60" "u div 60 < c div 60 + 1"
      using that by (simp_all add: zdiv_mono1 div_less_iff_less_mult)
    then have "u div 60 = c div 60" by simp
    then show ?thesis unfolding fires_def using assms by metis
  qed
  moreover have "c < (c div 60 + 1) * 60"
    by (simp flip: div_less_iff_less_mult)
  ultimately show ?thesis unfolding skips_def by blast
qed

lemma skip_minute: "minute_of c \<notin> set (minutes sched) \<Longrightarrow> skips sched c (c + 1)"
  by (auto simp: skips_def fires_def dest: order_antisym)

lemma next_loop_step:
  "fires sched c \<and> next_loop sched (Suc k) c = Inr c \<or>
   (\<exists>c'. skips sched c c' \<and> next_loop sched (Suc k) c = next_loop sched k c')"
proof (cases "fires sched c")
  case True
  then show ?thesis by (auto simp: fires_def Let_def)
next
  case False
  then show ?thesis
    using skip_month [of c sched] skip_day [of sched c] skip_hour [of c sched] skip_minute [of c sched]
    by (auto simp: fires_def Let_def)
qed

definition first_fire :: "schedule \<Rightarrow> int \<Rightarrow> int \<Rightarrow> bool" where
  "first_fire sched c t \<longleftrightarrow> fires sched t \<and> c \<le> t \<and> (\<forall>u. c \<le> u \<and> u < t \<longrightarrow> \<not> fires sched u)"

lemma next_loop_correct:
  "case next_loop sched k c of
     Inr t \<Rightarrow> first_fire sched c t
   | Inl e \<Rightarrow> e = ErrNoMatch \<and> (\<forall>u. c \<le> u \<and> u < c + int k \<longrightarrow> \<not> fires sched u)"
proof (induction k arbitrary: c)
  case (Suc k)
  consider "fires sched c" "next_loop sched (Suc k) c = Inr c"
    | c' where "skips sched c c'" "next_loop sched (Suc k) c = next_loop sched k c'"
    using next_loop_step by blast
  then show ?case
  proof cases
    case 2
    have ext: "\<not> fires sched u" if "c \<le> u" "c' \<le> u \<Longrightarrow> \<not> fires sched u" for u
      using 2(1) that by (cases "u < c'") (auto simp: skips_def)
    show ?thesis
    proof (cases "next_loop sched k c'")
      case (Inl e)
      then have e: "e = ErrNoMatch" "\<forall>u. c' \<le> u \<and> u < c' + int k \<longrightarrow> \<not> fires sched u"
        using Suc.IH [of c'] by simp_all
      have "c + 1 \<le> c'" using 2(1) by (simp add: skips_def)
      then have "\<not> fires sched u" if "c \<le> u" "u < c + int (Suc k)" for u
        using ext [OF that(1)] e(2) that(2) by force
      then show ?thesis using 2(2) Inl e(1) by (simp del: next_loop.simps)
    next
      case (Inr t)
      then show ?thesis
        using Suc.IH [of c'] 2 ext by (auto simp: skips_def first_fire_def simp del: next_loop.simps)
    qed
  qed (auto simp: first_fire_def simp del: next_loop.simps)
qed auto

lemma candidate_start: "(t + 60000000000) div 60000000000 = t div 60000000000 + (1 :: int)"
  by simp

text \<open>
  C26. \<open>Next\<close> returns the first minute strictly after the given instant at which the schedule
  fires: it fires then, in UTC, and at no whole minute in between. It gives up only with
  \<open>ErrNoMatch\<close>, and only if the schedule does not fire within the 2103840 minutes (four years) that
  follow. The jumps over months, days and hours never jump over a match.
\<close>

theorem Next_is_first_match:
  "case Next (Some sched) t0 of
     Inr t \<Rightarrow> t0 < t * 60000000000 \<and> fires sched t \<and>
       (\<forall>u. t0 < u * 60000000000 \<and> u < t \<longrightarrow> \<not> fires sched u)
   | Inl e \<Rightarrow> e = ErrNoMatch \<and>
       (\<forall>u. t0 < u * 60000000000 \<and> u * 60000000000 \<le> t0 + 2103840 * 60000000000 \<longrightarrow> \<not> fires sched u)"
proof -
  let ?c = "t0 div 60000000000 + 1"
  have after: "t0 < u * 60000000000 \<longleftrightarrow> ?c \<le> u" for u
    using div_less_iff [of 60000000000 t0 u] by (simp only: add1_zle_eq)
  have within: "u < ?c + 2103840" if "u * 60000000000 \<le> t0 + 2103840 * 60000000000" for u
  proof -
    have "u * 60000000000 div 60000000000 \<le> (t0 + 2103840 * 60000000000) div 60000000000"
      using that by (intro zdiv_mono1) auto
    then show ?thesis by simp
  qed
  have "Next (Some sched) t0 = next_loop sched maxIterations ?c"
    by (simp only: Next_def option.case candidate_start)
  then show ?thesis
    using next_loop_correct [where sched = sched and k = maxIterations and c = ?c] within
    by (auto simp: after first_fire_def maxIterations_def split: sum.splits)
qed

definition leap_day_schedule :: schedule where
  "leap_day_schedule =
     \<lparr>minutes = [0], hours = [0], doms = [29], months = [2], dows = [0, 1, 2, 3, 4, 5, 6],
      domIsWild = False, dowIsWild = True\<rparr>"

lemmas next_loop_numeral = next_loop.simps(2) [of _ "pred_numeral w" for w, folded numeral_eq_Suc]

text \<open>From 28 February 2024, 23:58, the next leap day starts two minutes later.\<close>

lemma leap_day_sample: "Next (Some leap_day_schedule) 63844761480000000000 = Inr 1064079360"
proof -
  have y': "year_of 738943 = 2024" by (simp add: year_of_def year_start_def)
  have m': "month_of 738943 = 2"
    by (simp add: month_of_def y' month_start_def year_start_def days_before_month_def leap_def)
  have d': "day_of 738943 = 28"
    by (simp add: day_of_def y' m' month_start_def year_start_def days_before_month_def)
  have y: "year_of 738944 = 2024" by (simp add: year_of_def year_start_def)
  have m: "month_of 738944 = 2"
    by (simp add: month_of_def y month_start_def year_start_def days_before_month_def leap_def)
  have d: "day_of 738944 = 29"
    by (simp add: day_of_def y m month_start_def year_start_def days_before_month_def)
  have "next_loop leap_day_schedule (numeral w) 1064079360 = Inr 1064079360" for w
    unfolding next_loop_numeral Let_def by (simp add: m d leap_day_schedule_def matchDay_def)
  moreover have "next_loop leap_day_schedule (numeral w) 1064079359 =
      next_loop leap_day_schedule (pred_numeral w) 1064079360" for w
    by (subst next_loop_numeral) (simp add: m' d' leap_day_schedule_def matchDay_def)
  ultimately show ?thesis by (simp add: Next_def maxIterations_def)
qed

theorem Next_is_first_match_witness:
  "fires leap_day_schedule 1064079360 \<and> \<not> fires leap_day_schedule 1064079359"
proof -
  have "fires leap_day_schedule 1064079360" and none:
    "\<forall>u. 63844761480000000000 < u * 60000000000 \<and> u < 1064079360 \<longrightarrow> \<not> fires leap_day_schedule u"
    using Next_is_first_match [of 63844761480000000000 leap_day_schedule] unfolding leap_day_sample by simp_all
  moreover have "\<not> fires leap_day_schedule 1064079359" by (rule none [rule_format]) simp
  ultimately show ?thesis by simp
qed

subsection \<open>What the parser accepts\<close>

lemma set_deduplicate [simp]: "set (deduplicate vs) = set vs"
proof -
  have "set (dedup_loop result vs) = set result \<union> set vs" for result
    by (induction result vs rule: dedup_loop.induct) auto
  then show ?thesis by (simp add: deduplicate_def)
qed

lemma deduplicate_sorted: "sorted (deduplicate vs) \<and> distinct (deduplicate vs)"
proof -
  have "distinct result \<Longrightarrow> distinct (dedup_loop result vs)" for result
    by (induction result vs rule: dedup_loop.induct) auto
  then show ?thesis by (simp add: deduplicate_def)
qed

text \<open>Steps that cannot overflow count through the range.\<close>

lemma step_loop_set:
  assumes "0 < step" and "step \<le> max_int64 - 59" and "- 1 \<le> rangeEnd" and "rangeEnd \<le> 59"
    and "0 \<le> v" and "v \<le> max_int64"
  shows "set (step_loop v rangeEnd step) = {u. v \<le> u \<and> u \<le> rangeEnd \<and> step dvd u - v}"
  using assms(5,6)
proof (induction "nat (rangeEnd + 1 - v)" arbitrary: v rule: less_induct)
  case less
  show ?case
  proof (cases "v \<le> rangeEnd")
    case True
    have ok: "step_guard v rangeEnd step"
      using assms less.prems by (simp add: in_int64_def min_int64_def max_int64_def)
    have next_v: "wrap64 (v + step) = v + step"
      using wrap64_add [of v step] ok True assms by simp
    have IH: "set (step_loop (v + step) rangeEnd step) =
        {u. v + step \<le> u \<and> u \<le> rangeEnd \<and> step dvd u - (v + step)}"
      using True assms less.prems by (intro less.hyps) auto
    have "u = v \<or> v + step \<le> u" if "v \<le> u" "step dvd u - v" for u
      using that zdvd_imp_le [of step "u - v"] by fastforce
    moreover have "step dvd u - (v + step) \<longleftrightarrow> step dvd u - v" for u
    proof -
      have "u - v = (u - (v + step)) + step" by simp
      then show ?thesis using dvd_add_left_iff [of step step "u - (v + step)"] by (simp only: dvd_refl)
    qed
    then have "{u. v + step \<le> u \<and> u \<le> rangeEnd \<and> step dvd u - (v + step)} =
        {u. v + step \<le> u \<and> u \<le> rangeEnd \<and> step dvd u - v}" by (simp only:)
    ultimately have "insert v {u. v + step \<le> u \<and> u \<le> rangeEnd \<and> step dvd u - (v + step)} =
        {u. v \<le> u \<and> u \<le> rangeEnd \<and> step dvd u - v}"
      using True assms(1) by fastforce
    moreover have "step_loop v rangeEnd step = v # step_loop (v + step) rangeEnd step"
      using ok True next_v by (subst step_loop.simps) (simp only: simp_thms if_True)
    ultimately show ?thesis by (simp only: list.set IH)
  qed (subst step_loop.simps, auto)
qed

lemma parseStep_pos: "parseStep raw = Inr s \<Longrightarrow> 0 < s \<and> in_int64 s"
  by (auto simp: parseStep_def Atoi_def Let_def split: option.splits if_splits)

lemma step_values_start:
  assumes "0 \<le> lo" and "lo \<le> hi" and "hi \<le> 59" and "\<And>s. step = Some s \<Longrightarrow> 0 < s \<and> in_int64 s"
  shows "lo \<in> set (step_values lo hi step)"
proof -
  have "step_guard lo hi (case step of None \<Rightarrow> 1 | Some s \<Rightarrow> s)"
    using assms by (auto simp: in_int64_def min_int64_def max_int64_def split: option.splits)
  then show ?thesis using assms(2) unfolding step_values_def by (subst step_loop.simps) simp
qed

lemma parsePart_inhabited:
  assumes "parsePart part minVal maxVal = Inr vs" and "0 \<le> minVal" and "minVal \<le> maxVal" and "maxVal \<le> 59"
  shows "\<exists>v. v \<in> set vs \<and> minVal \<le> v \<and> v \<le> maxVal"
proof -
  obtain rp st where sp: "split_first (CHR ''/'') part = (rp, st)" by fastforce
  obtain step where step: "\<And>s. step = Some s \<Longrightarrow> 0 < s \<and> in_int64 s"
    and vs: "part_values rp minVal maxVal step = Inr vs"
  proof (cases st)
    case None
    then show ?thesis using that [of None] assms(1) sp by (simp add: parsePart_def)
  next
    case (Some raw)
    then obtain s where "parseStep raw = Inr s" "part_values rp minVal maxVal (Some s) = Inr vs"
      using assms(1) sp by (auto simp: parsePart_def bind_res_eq_Inr)
    then show ?thesis using that [of "Some s"] parseStep_pos by simp
  qed
  show ?thesis
  proof (cases "rp = ''*''")
    case True
    then have "vs = step_values minVal maxVal step" using vs by (simp add: part_values_def)
    then show ?thesis using step_values_start [OF assms(2-4) step] assms(3) by auto
  next
    case star: False
    show ?thesis
    proof (cases "CHR ''-'' \<in> set rp")
      case True
      then obtain lo hi where r: "parseRange rp minVal maxVal = Inr (lo, hi)" "vs = step_values lo hi step"
        using vs star by (auto simp: part_values_def bind_res_eq_Inr)
      then have "minVal \<le> lo" "lo \<le> hi" "hi \<le> maxVal"
        by (auto simp: parseRange_def split: prod.splits option.splits if_splits)
      then show ?thesis using step_values_start [of lo hi step] step r(2) assms by force
    next
      case False
      then obtain val where val: "Atoi rp = Some val" "minVal \<le> val" "val \<le> maxVal"
        using vs star by (auto simp: part_values_def not_less split: option.splits if_splits)
      then have "vs = step_values val maxVal step \<or> vs = [val]"
        using vs star False by (auto simp: part_values_def split: if_splits)
      then show ?thesis using step_values_start [of val maxVal step] step assms(2,4) val by force
    qed
  qed
qed

lemma split_all_nonempty: "split_all c s \<noteq> []"
  by (induction c s rule: split_all.induct) (auto split: list.splits)

lemma parseField_inhabited:
  assumes "parseField field minVal maxVal = Inr vs" and "0 \<le> minVal" and "minVal \<le> maxVal" and "maxVal \<le> 59"
  shows "\<exists>v. v \<in> set vs \<and> minVal \<le> v \<and> v \<le> maxVal"
proof -
  obtain parts where parts: "list_all2 (\<lambda>p vs. parsePart p minVal maxVal = Inr vs) (split_all (CHR '','') field) parts"
      "vs = deduplicate (concat parts)"
    using assms(1) by (auto simp: parseField_def bind_res_eq_Inr map_res_eq_Inr)
  obtain p ps where "split_all (CHR '','') field = p # ps" using split_all_nonempty neq_Nil_conv by metis
  then obtain v vss where "parsePart p minVal maxVal = Inr v" "parts = v # vss"
    using parts(1) by (auto simp: list_all2_Cons1)
  then show ?thesis using parsePart_inhabited [OF _ assms(2-4)] parts(2) by force
qed

subsection \<open>A parsed schedule fires\<close>

text \<open>The minute \<open>mi\<close> of hour \<open>h\<close> of a day.\<close>

lemma minute_parts:
  assumes "0 \<le> h" "h \<le> 23" "0 \<le> mi" "mi \<le> 59"
  shows "day_number (d * 1440 + (h * 60 + mi)) = d" "hour_of (d * 1440 + (h * 60 + mi)) = h"
    "minute_of (d * 1440 + (h * 60 + mi)) = mi"
proof -
  have "0 \<le> h * 60 + mi" "h * 60 + mi < 1440" using assms by linarith+
  then show "day_number (d * 1440 + (h * 60 + mi)) = d" by simp
  have e: "d * 1440 + (h * 60 + mi) = (d * 24 + h) * 60 + mi" by simp
  have "((d * 24 + h) * 60 + mi) div 60 = d * 24 + h" using assms(3,4) by simp
  then show "hour_of (d * 1440 + (h * 60 + mi)) = h" unfolding e using assms(1,2) by simp
  show "minute_of (d * 1440 + (h * 60 + mi)) = mi" unfolding e using assms(3,4) mod_mult_self3 [of "d * 24 + h" 60 mi] by (simp only: mod_pos_pos_trivial)
qed

text \<open>A day of the wanted weekday among the first seven of a month.\<close>

lemma weekday_in_month:
  assumes "1 \<le> m" "m \<le> 12" "0 \<le> w" "w \<le> 6"
  shows "\<exists>d. 1 \<le> d \<and> d \<le> 7 \<and> weekday_of (date_day y m d) = w"
proof -
  let ?k = "(w - date_day y m 1 - 1) mod 7"
  have "date_day y m (?k + 1) = date_day y m 1 + ?k" by (simp add: date_day_def)
  then have "weekday_of (date_day y m (?k + 1)) = (date_day y m 1 + ?k + 1) mod 7" by (simp add: weekday_of_def)
  also have "\<dots> = (date_day y m 1 + 1 + ?k) mod 7" by (simp only: ac_simps)
  also have "\<dots> = (date_day y m 1 + 1 + (w - date_day y m 1 - 1)) mod 7" by (simp only: mod_add_right_eq)
  also have "\<dots> = w" using assms(3,4) by simp
  finally have "weekday_of (date_day y m (?k + 1)) = w" .
  moreover have "0 \<le> ?k" "?k < 7" by simp_all
  ultimately show ?thesis by (intro exI [of _ "?k + 1"]) simp
qed

lemma Parse_inhabited:
  assumes "Parse expr = Inr s"
  shows "\<exists>mi h m w. mi \<in> set (minutes s) \<and> 0 \<le> mi \<and> mi \<le> 59 \<and> h \<in> set (hours s) \<and> 0 \<le> h \<and> h \<le> 23 \<and>
    m \<in> set (months s) \<and> 1 \<le> m \<and> m \<le> 12 \<and> w \<in> set (dows s) \<and> 0 \<le> w \<and> w \<le> 6"
proof -
  obtain fs mins hrs ds ms ws where p: "parseField (fs ! 0) 0 maxMinute = Inr mins"
      "parseField (fs ! 1) 0 maxHour = Inr hrs" "parseField (fs ! 3) minMonth maxMonth = Inr ms"
      "parseField (fs ! 4) 0 maxDayOfWeek = Inr ws"
    and s: "s = \<lparr>minutes = mins, hours = hrs, doms = ds, months = ms, dows = normalizeDOW ws,
        domIsWild = isWildcard (fs ! 2), dowIsWild = isWildcard (fs ! 4)\<rparr>"
    using assms by (auto simp: Parse_def Let_def bind_res_eq_Inr split: if_splits)
  note inh = parseField_inhabited [OF p(1)] parseField_inhabited [OF p(2)] parseField_inhabited [OF p(3)]
  obtain w where w: "w \<in> set ws" "0 \<le> w" "w \<le> 7"
    using parseField_inhabited [OF p(4)] by (auto simp: cron_limits)
  then have "(if w = 7 then 0 else w) \<in> set (normalizeDOW ws) \<and> 0 \<le> (if w = 7 then 0 else w) \<and>
      (if w = 7 then 0 else w) \<le> 6"
    by (auto simp: normalizeDOW_def)
  then show ?thesis using inh by (simp add: s cron_limits) blast
qed

lemma fires_next_year:
  assumes "m \<in> set (months s)" "1 \<le> m" "m \<le> 12" "1 \<le> d" "d \<le> month_start 1 (m + 1) - month_start 1 m"
    and "h \<in> set (hours s)" "0 \<le> h" "h \<le> 23" "mi \<in> set (minutes s)" "0 \<le> mi" "mi \<le> 59"
    and day: "matchDay s (date_day (year_of (day_number c) + 1) m d * 1440)"
  shows "\<exists>t. fires s t \<and> c \<le> t \<and> t < c + 2103840"
proof -
  let ?y = "year_of (day_number c) + 1"
  let ?D = "date_day ?y m d"
  let ?t = "?D * 1440 + (h * 60 + mi)"
  note parts = minute_parts [OF assms(7,8,10,11), of ?D]
  have len: "d \<le> month_start ?y (m + 1) - month_start ?y m"
    using assms(5) month_length_common [OF assms(2,3), of ?y] by linarith
  have civil: "year_of ?D = ?y" "month_of ?D = m" using civil_day [OF assms(2-4) len] by auto
  have "matchDay s ?t" using day unfolding matchDay_def parts by simp
  then have fire: "fires s ?t" using assms(1,6,9) by (simp only: fires_def parts civil)
  have y1: "year_start ?y \<le> ?D" "?D < year_start (?y + 1)" using year_of_bounds [of ?D] civil by auto
  have y2: "day_number c < year_start ?y" "year_start (?y + 1) \<le> day_number c + 732"
    using year_of_bounds [of "day_number c"] year_length [of "year_of (day_number c)"] year_length [of ?y]
    by (auto split: if_splits)
  have "day_number c + 1 \<le> ?D" "?D + 1 \<le> day_number c + 732" using y1 y2 by linarith+
  then have "(day_number c + 1) * 1440 \<le> ?D * 1440" "(?D + 1) * 1440 \<le> (day_number c + 732) * 1440"
    by simp_all
  then have "c < ?D * 1440" "?D * 1440 + 1440 \<le> c + 1054080"
    using day_bounds [of c] by (linarith, simp only: distrib_right)
  then have "c \<le> ?t" "?t < c + 2103840" using assms(7,8,10,11) by linarith+
  with fire show ?thesis by blast
qed

text \<open>
  C27. \<open>Next\<close> never gives up on a schedule that \<open>Parse\<close> accepts, from any instant, except where the
  day of the month is restricted, the weekday is not, and none of the accepted days occurs in a
  common year in any of the accepted months (29 to 31 February, 31 April and the like).
\<close>

theorem parsed_schedule_fires:
  assumes "Parse expr = Inr s"
    and "\<not> domIsWild s \<and> dowIsWild s \<Longrightarrow>
      \<exists>m d. m \<in> set (months s) \<and> 1 \<le> m \<and> m \<le> 12 \<and> d \<in> set (doms s) \<and> 1 \<le> d \<and>
        d \<le> month_start 1 (m + 1) - month_start 1 m"
  shows "\<exists>t. Next (Some s) t0 = Inr t \<and> fires s t"
proof -
  let ?c = "t0 div 60000000000 + 1"
  let ?y = "year_of (day_number ?c) + 1"
  obtain mi h m w where v: "mi \<in> set (minutes s)" "0 \<le> mi" "mi \<le> 59" "h \<in> set (hours s)" "0 \<le> h" "h \<le> 23"
      "m \<in> set (months s)" "1 \<le> m" "m \<le> 12" "w \<in> set (dows s)" "0 \<le> w" "w \<le> 6"
    using Parse_inhabited [OF assms(1)] by blast
  have "\<exists>m d. m \<in> set (months s) \<and> 1 \<le> m \<and> m \<le> 12 \<and> 1 \<le> d \<and>
      d \<le> month_start 1 (m + 1) - month_start 1 m \<and> matchDay s (date_day ?y m d * 1440)"
  proof (cases "\<not> domIsWild s \<and> dowIsWild s")
    case True
    then obtain m d where md: "m \<in> set (months s)" "1 \<le> m" "m \<le> 12" "d \<in> set (doms s)" "1 \<le> d"
        "d \<le> month_start 1 (m + 1) - month_start 1 m"
      using assms(2) by blast
    have "day_of (date_day ?y m d) = d"
      using civil_day [OF md(2,3,5)] md(6) month_length_common [OF md(2,3), of ?y] by simp
    then show ?thesis using md True by (intro exI [of _ m] exI [of _ d]) (simp add: matchDay_def)
  next
    case False
    obtain d where d: "1 \<le> d" "d \<le> 7" "weekday_of (date_day ?y m d) = w"
      using weekday_in_month [OF v(8,9,11,12)] by blast
    moreover have "d \<le> month_start 1 (m + 1) - month_start 1 m"
      using d(2) month_length [OF v(8,9), of 1] by linarith
    ultimately show ?thesis
      using v False by (intro exI [of _ m] exI [of _ d]) (auto simp: matchDay_def)
  qed
  then obtain m' d where md: "m' \<in> set (months s)" "1 \<le> m'" "m' \<le> 12" "1 \<le> d"
      "d \<le> month_start 1 (m' + 1) - month_start 1 m'" "matchDay s (date_day ?y m' d * 1440)" by blast
  obtain t where t: "fires s t" "?c \<le> t" "t < ?c + 2103840"
    using fires_next_year [OF md(1-5) v(4-6,1-3) md(6)] by blast
  have "Next (Some s) t0 = next_loop s maxIterations ?c" by (simp only: Next_def option.case candidate_start)
  then show ?thesis
    using next_loop_correct [where sched = s and k = maxIterations and c = ?c] t
    by (auto simp: first_fire_def maxIterations_def split: sum.splits)
qed

subsection \<open>Printing and parsing a field\<close>

lemma split_first_absent: "c \<notin> set s \<Longrightarrow> split_first c s = (s, None)"
  by (induction s) auto

lemma split_first_at: "c \<notin> set s \<Longrightarrow> split_first c (s @ c # t) = (s, Some t)"
  by (induction s) auto

lemma split_all_absent: "c \<notin> set s \<Longrightarrow> split_all c s = [s]"
  by (induction s) auto

lemma split_all_at: "c \<notin> set s \<Longrightarrow> split_all c (s @ c # t) = s # split_all c t"
  by (induction s) (auto split: list.splits)

text \<open>The syntax of a field: comma-separated ranges with optional steps.\<close>

datatype cron_range = AnyValue | One nat | Between nat nat

type_synonym cron_part = "cron_range \<times> nat option"

fun show_range :: "cron_range \<Rightarrow> string" where
  "show_range AnyValue = ''*''"
| "show_range (One a) = itoa a"
| "show_range (Between a b) = itoa a @ CHR ''-'' # itoa b"

fun show_part :: "cron_part \<Rightarrow> string" where
  "show_part (r, None) = show_range r"
| "show_part (r, Some k) = show_range r @ CHR ''/'' # itoa k"

fun show_field :: "cron_part list \<Rightarrow> string" where
  "show_field [] = []"
| "show_field [p] = show_part p"
| "show_field (p # q # ps) = show_part p @ CHR '','' # show_field (q # ps)"

fun range_ok :: "int \<Rightarrow> int \<Rightarrow> cron_range \<Rightarrow> bool" where
  "range_ok lo hi AnyValue = True"
| "range_ok lo hi (One a) \<longleftrightarrow> lo \<le> int a \<and> int a \<le> hi"
| "range_ok lo hi (Between a b) \<longleftrightarrow> lo \<le> int a \<and> a \<le> b \<and> int b \<le> hi"

definition part_ok :: "int \<Rightarrow> int \<Rightarrow> cron_part \<Rightarrow> bool" where
  "part_ok lo hi p \<longleftrightarrow> range_ok lo hi (fst p) \<and>
     (case snd p of None \<Rightarrow> True | Some k \<Rightarrow> 0 < k \<and> int k \<le> max_int64 - 59)"

text \<open>Its meaning: every \<open>k\<close>-th value of the range, from its start; a single value with a step starts
  a range that ends with the field.\<close>

abbreviation every :: "nat option \<Rightarrow> int" where
  "every k \<equiv> int (case k of None \<Rightarrow> 1 | Some k \<Rightarrow> k)"

fun part_set :: "int \<Rightarrow> int \<Rightarrow> cron_part \<Rightarrow> int set" where
  "part_set lo hi (AnyValue, k) = {v. lo \<le> v \<and> v \<le> hi \<and> every k dvd v - lo}"
| "part_set lo hi (One a, None) = {int a}"
| "part_set lo hi (One a, Some k) = {v. int a \<le> v \<and> v \<le> hi \<and> int k dvd v - int a}"
| "part_set lo hi (Between a b, k) = {v. int a \<le> v \<and> v \<le> int b \<and> every k dvd v - int a}"

lemma show_range_chars: "c \<in> set (show_range r) \<Longrightarrow> c \<noteq> CHR ''/'' \<and> c \<noteq> CHR '',''"
  by (cases r) (auto dest!: itoa_chars digit_not)

lemma show_part_chars: "CHR '','' \<notin> set (show_part p)"
proof
  assume "CHR '','' \<in> set (show_part p)"
  then show False
    by (cases p; cases "snd p") (auto dest!: itoa_chars show_range_chars digit_not)
qed

lemma split_show_field: "ps \<noteq> [] \<Longrightarrow> split_all (CHR '','') (show_field ps) = map show_part ps"
  by (induction ps rule: show_field.induct) (simp_all add: split_all_absent split_all_at show_part_chars)

lemma step_values_set:
  assumes "0 \<le> lo" "lo \<le> max_int64" "- 1 \<le> hi" "hi \<le> 59"
    and "case k of None \<Rightarrow> True | Some k \<Rightarrow> 0 < k \<and> int k \<le> max_int64 - 59"
  shows "set (step_values lo hi (map_option int k)) = {v. lo \<le> v \<and> v \<le> hi \<and> every k dvd v - lo}"
proof -
  have "set (step_loop lo hi (every k)) = {v. lo \<le> v \<and> v \<le> hi \<and> every k dvd v - lo}"
    using assms by (intro step_loop_set) (auto simp: max_int64_def split: option.splits)
  moreover have "step_values lo hi (map_option int k) = step_loop lo hi (every k)"
    by (simp add: step_values_def split: option.splits)
  ultimately show ?thesis by simp
qed

lemma part_values_show:
  assumes "part_ok lo hi (r, k)" and "0 \<le> lo" "lo \<le> hi" "hi \<le> 59"
  shows "\<exists>vs. part_values (show_range r) lo hi (map_option int k) = Inr vs \<and> set vs = part_set lo hi (r, k)"
proof (cases r)
  case AnyValue
  then show ?thesis
    using assms step_values_set [of lo hi k] by (simp add: part_values_def part_ok_def max_int64_def)
next
  case (One a)
  have "CHR ''-'' \<notin> set (itoa a)" "itoa a \<noteq> ''*''"
    using itoa_chars [of "CHR ''-''" a] itoa_chars [of "CHR ''*''" a] digit_not by (blast, force)
  then show ?thesis
    using assms One step_values_set [of "int a" hi k] Atoi_itoa [of a]
    by (cases k) (auto simp: part_values_def part_ok_def max_int64_def)
next
  case (Between a b)
  have "CHR ''-'' \<notin> set (itoa a)" using itoa_chars [of "CHR ''-''" a] digit_not by blast
  then have "parseRange (show_range r) lo hi = Inr (int a, int b)"
    using assms Between Atoi_itoa [of a] Atoi_itoa [of b]
    by (simp add: parseRange_def split_first_at part_ok_def max_int64_def)
  moreover have "show_range r \<noteq> ''*''" "CHR ''-'' \<in> set (show_range r)"
    using itoa_nonempty [of a] by (auto simp: Between append_eq_Cons_conv)
  ultimately show ?thesis
    using assms Between step_values_set [of "int a" "int b" k] by (simp add: part_values_def part_ok_def max_int64_def)
qed

lemma parsePart_show:
  assumes "part_ok lo hi p" and "0 \<le> lo" "lo \<le> hi" "hi \<le> 59"
  shows "\<exists>vs. parsePart (show_part p) lo hi = Inr vs \<and> set vs = part_set lo hi p"
proof -
  obtain r k where p: "p = (r, k)" by fastforce
  have slash: "CHR ''/'' \<notin> set (show_range r)" using show_range_chars by blast
  have "parsePart (show_part p) lo hi = part_values (show_range r) lo hi (map_option int k)"
  proof (cases k)
    case None
    then show ?thesis by (simp add: p parsePart_def split_first_absent [OF slash])
  next
    case (Some n)
    then have "parseStep (itoa n) = Inr (int n)"
      using assms(1) p Atoi_itoa [of n] by (simp add: parseStep_def part_ok_def max_int64_def)
    then show ?thesis using Some by (simp add: p parsePart_def split_first_at [OF slash])
  qed
  then show ?thesis using part_values_show assms p by simp
qed

text \<open>
  Parsing undoes printing: a field written as a list of stars, values and ranges, each with an
  optional step, is parsed to the sorted list, without repetitions, of exactly the values it means.
  Steps must stay below the largest \<open>int\<close> by the width of a field, so that the counting loop does
  not wrap around.
\<close>

theorem parseField_show_field:
  assumes "ps \<noteq> []" and "list_all (part_ok lo hi) ps" and "0 \<le> lo" "lo \<le> hi" "hi \<le> 59"
  shows "parseField (show_field ps) lo hi = Inr (sorted_list_of_set (\<Union> (part_set lo hi ` set ps)))"
proof -
  have "\<exists>vss. map_res (\<lambda>part. parsePart part lo hi) (map show_part ps) = Inr vss \<and>
      set (concat vss) = \<Union> (part_set lo hi ` set ps)"
    using assms(2)
  proof (induction ps)
    case (Cons p ps)
    then show ?case using parsePart_show [of lo hi p] assms(3-5) by fastforce
  qed simp
  then obtain vss where vss: "map_res (\<lambda>part. parsePart part lo hi) (map show_part ps) = Inr vss"
      "set (concat vss) = \<Union> (part_set lo hi ` set ps)" by blast
  have "deduplicate (concat vss) = sorted_list_of_set (set (deduplicate (concat vss)))"
    using sorted_list_of_set.idem_if_sorted_distinct deduplicate_sorted by metis
  then show ?thesis
    using vss by (simp add: parseField_def split_show_field [OF assms(1)])
qed

text \<open>A sample: minutes \<open>0-10/5,30\<close>.\<close>

theorem parseField_show_field_witness:
  "show_field [(Between 0 10, Some 5), (One 30, None)] = ''0-10/5,30'' \<and>
   parseField ''0-10/5,30'' 0 59 = Inr (sorted_list_of_set ({v. 0 \<le> v \<and> v \<le> 10 \<and> 5 dvd v} \<union> {30}))"
proof -
  have printed: "show_field [(Between 0 10, Some 5), (One 30, None)] = ''0-10/5,30''"
    by (simp add: itoa.simps char_of_def bit_0)
  show ?thesis
    using parseField_show_field [of "[(Between 0 10, Some 5), (One 30, None)]" 0 59] printed
    by (simp add: part_ok_def max_int64_def)
qed

subsection \<open>Evaluating the parser\<close>

definition new_year_schedule :: schedule where
  "new_year_schedule =
     \<lparr>minutes = [0], hours = [0], doms = [1], months = [1], dows = [0, 1, 2, 3, 4, 5, 6],
      domIsWild = False, dowIsWild = True\<rparr>"

lemma step_loop_one:
  "step_loop v e 1 =
     (if in_int64 v \<and> - 1 \<le> e \<and> e \<le> 59 \<and> v \<le> e then v # step_loop (wrap64 (v + 1)) e 1 else [])"
  by (subst step_loop.simps) (auto simp: in_int64_def min_int64_def max_int64_def)

lemma wrap64_small: "0 \<le> v \<Longrightarrow> v < 100 \<Longrightarrow> wrap64 v = v"
  by (simp add: wrap64_id in_int64_def min_int64_def max_int64_def)

lemma new_year_parsed: "Parse ''0 0 1 1 *'' = Inr new_year_schedule"
proof -
  have trim: "trim_space ''0 0 1 1 *'' = ''0 0 1 1 *''"
    by (simp add: trim_space_def trim_left_with.simps space_encodings_def)
  have fields: "Fields ''0 0 1 1 *'' = [''0'', ''0'', ''1'', ''1'', ''*'']"
    by (simp add: Fields_def fields_loop.simps space_encodings_def)
  have zero: "parseField ''0'' 0 m = (if m < 0 then Inl ErrInvalidExpression else Inr [0])"
    and one: "parseField ''1'' 1 m = (if m < 1 then Inl ErrInvalidExpression else Inr [1])" for m
    by (simp_all add: parseField_def parsePart_def part_values_def Atoi_def is_digit_def digits_value_def
        deduplicate_def in_int64_def min_int64_def max_int64_def)
  have star: "parseField ''*'' 0 7 = Inr [0, 1, 2, 3, 4, 5, 6, 7]"
    by (simp add: parseField_def parsePart_def part_values_def step_values_def step_loop_one wrap64_small
        in_int64_def min_int64_def max_int64_def deduplicate_def)
  show ?thesis
    by (simp add: Parse_def trim fields cronFieldCount_def cron_limits zero one star normalizeDOW_def
        deduplicate_def isWildcard_def new_year_schedule_def)
qed

theorem parsed_schedule_fires_witness:
  "Parse ''0 0 1 1 *'' = Inr new_year_schedule \<and>
   (\<exists>t. Next (Some new_year_schedule) 0 = Inr t \<and> fires new_year_schedule t)"
proof -
  have "month_start 1 2 - month_start 1 1 = 31" by (simp add: month_start_table)
  then have "\<exists>m d. m \<in> set (months new_year_schedule) \<and> 1 \<le> m \<and> m \<le> 12 \<and> d \<in> set (doms new_year_schedule) \<and>
      1 \<le> d \<and> d \<le> month_start 1 (m + 1) - month_start 1 m"
    by (simp add: new_year_schedule_def)
  then show ?thesis using parsed_schedule_fires [OF new_year_parsed] new_year_parsed by blast
qed

text \<open>
  The wrap-around is real: the step \<open>9223372036854775807\<close> takes the counter from 59 past the largest
  \<open>int\<close> and back to 57, so that the minute field \<open>59/9223372036854775807\<close>, which means minute 59
  only, also fires at minute 57.
\<close>

theorem huge_step_wraps_around:
  "\<exists>vs. parsePart ''59/9223372036854775807'' 0 59 = Inr vs \<and> 59 \<in> set vs \<and> 57 \<in> set vs"
proof -
  let ?k = "9223372036854775807 :: int"
  have "parseStep ''9223372036854775807'' = Inr ?k"
    by (simp add: parseStep_def Atoi_def is_digit_def digits_value_def in_int64_def min_int64_def max_int64_def)
  moreover have "Atoi ''59'' = Some 59"
    by (simp add: Atoi_def is_digit_def digits_value_def in_int64_def min_int64_def max_int64_def)
  ultimately have "parsePart ''59/9223372036854775807'' 0 59 = Inr (step_values 59 59 (Some ?k))"
    by (simp add: parsePart_def part_values_def)
  moreover have "step_loop 59 59 ?k = 59 # - 9223372036854775750 # step_loop 57 59 ?k"
    by (subst step_loop.simps, simp add: wrap64_def in_int64_def min_int64_def max_int64_def)
      (subst step_loop.simps, simp add: wrap64_def in_int64_def min_int64_def max_int64_def)
  moreover have "57 \<in> set (step_loop 57 59 ?k)"
    by (subst step_loop.simps) (simp add: in_int64_def min_int64_def max_int64_def)
  ultimately show ?thesis by (simp add: step_values_def)
qed

end
