(* ===== verification/Ssrf.thy ===== *)
theory Ssrf
  imports Commons_Prelude "HOL-Library.Sublist"
begin

unbundle bit_operations_syntax

text \<open>
  \<open>commons/security/ssrf\<close>: the address and hostname blocklists and the two validations of outgoing
  URLs. Addresses are words; the predicates and prefixes of \<open>net/netip\<close> are bit tests on them, as
  that package computes them. Parsing and printing URLs, parsing address literals, the resolver and
  the lower-casing of non-ASCII text are arguments: no result below depends on how they behave.
\<close>

datatype ssrf_error = ErrBlocked | ErrInvalidURL | ErrDNSFailed

text \<open>\<open>netip.Addr\<close>: the zero value, an IPv4 address, or an IPv6 address with its zone.\<close>

datatype addr = NoAddr | V4 "32 word" | V6 "128 word" string

datatype prefix = P4 "32 word" nat | P6 "128 word" nat

subsection \<open>Addresses\<close>

fun Contains :: "prefix \<Rightarrow> addr \<Rightarrow> bool" where
  "Contains (P4 p bits) (V4 a) = (drop_bit (32 - bits) a = drop_bit (32 - bits) p)"
| "Contains (P6 p bits) (V6 a zone) = (zone = [] \<and> drop_bit (128 - bits) a = drop_bit (128 - bits) p)"
| "Contains _ _ = False"

text \<open>\<open>a.b.c.d\<close>, and the eight 16-bit groups of an IPv6 address.\<close>

definition quad :: "int \<Rightarrow> int \<Rightarrow> int \<Rightarrow> int \<Rightarrow> 32 word" where
  "quad a b c d = word_of_int (((a * 256 + b) * 256 + c) * 256 + d)"

definition groups :: "int list \<Rightarrow> 128 word" where
  "groups gs = word_of_int (foldl (\<lambda>v g. v * 65536 + g) 0 gs)"

definition byte4 :: "nat \<Rightarrow> 32 word \<Rightarrow> 32 word" where
  "byte4 i a = drop_bit (24 - 8 * i) a AND 255"

definition group6 :: "nat \<Rightarrow> 128 word \<Rightarrow> 128 word" where
  "group6 i a = drop_bit (112 - 16 * i) a AND 65535"

fun IsLoopback :: "addr \<Rightarrow> bool" where
  "IsLoopback NoAddr = False"
| "IsLoopback (V4 a) = (byte4 0 a = 127)"
| "IsLoopback (V6 a zone) = (a = 1)"

fun IsPrivate :: "addr \<Rightarrow> bool" where
  "IsPrivate NoAddr = False"
| "IsPrivate (V4 a) =
     (byte4 0 a = 10 \<or> byte4 0 a = 172 \<and> byte4 1 a AND 240 = 16 \<or> byte4 0 a = 192 \<and> byte4 1 a = 168)"
| "IsPrivate (V6 a zone) = (group6 0 a AND 65024 = 64512)"

fun IsLinkLocalUnicast :: "addr \<Rightarrow> bool" where
  "IsLinkLocalUnicast NoAddr = False"
| "IsLinkLocalUnicast (V4 a) = (byte4 0 a = 169 \<and> byte4 1 a = 254)"
| "IsLinkLocalUnicast (V6 a zone) = (group6 0 a AND 65472 = 65152)"

fun IsLinkLocalMulticast :: "addr \<Rightarrow> bool" where
  "IsLinkLocalMulticast NoAddr = False"
| "IsLinkLocalMulticast (V4 a) = (byte4 0 a = 224 \<and> byte4 1 a = 0 \<and> byte4 2 a = 0)"
| "IsLinkLocalMulticast (V6 a zone) = (group6 0 a AND 65295 = 65282)"

fun IsMulticast :: "addr \<Rightarrow> bool" where
  "IsMulticast NoAddr = False"
| "IsMulticast (V4 a) = (byte4 0 a AND 240 = 224)"
| "IsMulticast (V6 a zone) = (drop_bit 8 (group6 0 a) = 255)"

fun IsUnspecified :: "addr \<Rightarrow> bool" where
  "IsUnspecified NoAddr = False"
| "IsUnspecified (V4 a) = (a = 0)"
| "IsUnspecified (V6 a zone) = (a = 0 \<and> zone = [])"

text \<open>An address \<open>::ffff:a.b.c.d\<close> becomes \<open>a.b.c.d\<close>.\<close>

fun Unmap :: "addr \<Rightarrow> addr" where
  "Unmap (V6 a zone) = (if drop_bit 32 a = 65535 then V4 (ucast a) else V6 a zone)"
| "Unmap a = a"

fun without_zone :: "addr \<Rightarrow> addr" where
  "without_zone (V6 a zone) = V6 a []"
| "without_zone a = a"

definition blockedPrefixes :: "prefix list" where
  "blockedPrefixes =
     [P4 (quad 0 0 0 0) 8, P4 (quad 100 64 0 0) 10, P4 (quad 192 0 0 0) 24, P4 (quad 192 0 2 0) 24,
      P4 (quad 198 18 0 0) 15, P4 (quad 198 51 100 0) 24, P4 (quad 203 0 113 0) 24,
      P4 (quad 240 0 0 0) 4,
      P6 (groups [0x2001, 0xdb8, 0, 0, 0, 0, 0, 0]) 32, P6 (groups [0x100, 0, 0, 0, 0, 0, 0, 0]) 64,
      P6 (groups [0x2001, 0, 0, 0, 0, 0, 0, 0]) 32, P6 (groups [0x64, 0xff9b, 1, 0, 0, 0, 0, 0]) 48]"

definition nat64WellKnown :: prefix where
  "nat64WellKnown = P6 (groups [0x64, 0xff9b, 0, 0, 0, 0, 0, 0]) 96"

definition sixToFour :: prefix where
  "sixToFour = P6 (groups [0x2002, 0, 0, 0, 0, 0, 0, 0]) 16"

definition BlockedPrefixes :: "prefix list" where
  "BlockedPrefixes = blockedPrefixes"

text \<open>Bytes 12 to 15, and bytes 2 to 5, of the sixteen.\<close>

definition embeddedIPv4 :: "addr \<Rightarrow> addr option" where
  "embeddedIPv4 a =
     (case a of
        V6 v zone \<Rightarrow>
          if Contains nat64WellKnown a then Some (V4 (ucast v))
          else if Contains sixToFour a then Some (V4 (ucast (drop_bit 80 v)))
          else None
      | _ \<Rightarrow> None)"

function IsBlockedAddr :: "addr \<Rightarrow> bool" where
  "IsBlockedAddr a0 =
     (if a0 = NoAddr then True
      else
        (let a = without_zone (Unmap a0) in
         case embeddedIPv4 a of
           Some v4 \<Rightarrow> IsBlockedAddr v4
         | None \<Rightarrow>
             IsLoopback a \<or> IsPrivate a \<or> IsLinkLocalUnicast a \<or> IsLinkLocalMulticast a \<or>
             IsMulticast a \<or> IsUnspecified a \<or> list_ex (\<lambda>p. Contains p a) blockedPrefixes))"
  by pat_completeness auto
termination
  by (relation "measure (\<lambda>a. case a of V6 _ _ \<Rightarrow> 1 | _ \<Rightarrow> 0)")
    (auto simp: embeddedIPv4_def split: addr.splits if_splits elim!: Unmap.elims without_zone.elims)

declare IsBlockedAddr.simps [simp del]

text \<open>A \<open>net.IP\<close>: nil, or a byte slice, of which \<open>AddrFromSlice\<close> accepts lengths 4 and 16.\<close>

definition IsBlockedIP :: "nat list option \<Rightarrow> bool" where
  "IsBlockedIP ip =
     (case ip of
        None \<Rightarrow> True
      | Some bs \<Rightarrow>
          if length bs = 4 then IsBlockedAddr (V4 (word_of_nat (foldl (\<lambda>v b. v * 256 + b) 0 bs)))
          else if length bs = 16 then IsBlockedAddr (V6 (word_of_nat (foldl (\<lambda>v b. v * 256 + b) 0 bs)) [])
          else True)"

subsection \<open>Bit tests are ranges\<close>

lemma take_bit_uint: "take_bit LENGTH('a :: len) (uint (a :: 'a word)) = uint a"
  by (simp add: take_bit_eq_mod)

lemma uint_drop_bit: "uint (drop_bit k (a :: 'a :: len word)) = uint a div 2 ^ k"
  by (simp only: unsigned_drop_bit_eq take_bit_uint drop_bit_eq_div [where 'a = int])

lemma div_range:
  assumes "0 < (k :: int)"
  shows "a div k = b \<longleftrightarrow> b * k \<le> a \<and> a \<le> b * k + (k - 1)"
proof
  assume "a div k = b"
  then show "b * k \<le> a \<and> a \<le> b * k + (k - 1)"
    using div_mult_mod_eq [of a k] pos_mod_sign [OF assms, of a] pos_mod_bound [OF assms, of a] by auto
next
  assume "b * k \<le> a \<and> a \<le> b * k + (k - 1)"
  then have "a = k * b + (a - b * k)" "0 \<le> a - b * k" "a - b * k < k" by (simp_all add: mult.commute)
  then show "a div k = b" by (rule int_div_pos_eq)
qed

lemma prefix_range:
  fixes a p :: "'a :: len word"
  assumes "uint p = b * 2 ^ k"
  shows "drop_bit k a = drop_bit k p \<longleftrightarrow> uint p \<le> uint a \<and> uint a \<le> uint p + (2 ^ k - 1)"
proof -
  have "drop_bit k a = drop_bit k p \<longleftrightarrow> uint a div 2 ^ k = uint p div 2 ^ k"
    by (simp only: word_uint_eq_iff uint_drop_bit)
  also have "uint p div 2 ^ k = b" unfolding assms by simp
  finally show ?thesis using div_range [of "2 ^ k" "uint a" b] assms by simp
qed

lemma uint_and_mask:
  fixes x :: "'a :: len word"
  shows "uint (x AND push_bit k (mask j)) = take_bit LENGTH('a) (uint x div 2 ^ k mod 2 ^ j * 2 ^ k)"
proof -
  have "x AND push_bit k (mask j) = push_bit k (take_bit j (drop_bit k x))"
    by (rule bit_eqI) (auto simp: bit_simps)
  then show ?thesis
    by (simp only: unsigned_push_bit_eq unsigned_take_bit_eq unsigned_drop_bit_eq take_bit_uint
      push_bit_eq_mult [where 'a = int] take_bit_eq_mod [where 'a = int and n = j] drop_bit_eq_div [where 'a = int])
qed

lemma uint_and_low:
  fixes x :: "'a :: len word"
  shows "uint (x AND mask j) = uint x mod 2 ^ j"
  by (simp only: flip: take_bit_eq_mask) (simp only: unsigned_take_bit_eq take_bit_eq_mod [where 'a = int])

lemma byte4_uint: "uint (byte4 i a) = uint a div 2 ^ (24 - 8 * i) mod 256"
proof -
  have "byte4 i a = drop_bit (24 - 8 * i) a AND mask 8"
    by (simp add: byte4_def mask_eq_exp_minus_1)
  then show ?thesis by (simp only: uint_and_low uint_drop_bit) simp
qed

lemma group6_uint: "uint (group6 i a) = uint a div 2 ^ (112 - 16 * i) mod 65536"
proof -
  have "group6 i a = drop_bit (112 - 16 * i) a AND mask 16"
    by (simp add: group6_def mask_eq_exp_minus_1)
  then show ?thesis by (simp only: uint_and_low uint_drop_bit) simp
qed

lemma uint32: "0 \<le> uint (a :: 32 word)" "uint (a :: 32 word) < 4294967296"
  using uint_lt2p [of a] by simp_all

lemma uint128: "0 \<le> uint (a :: 128 word)" "uint (a :: 128 word) < 340282366920938463463374607431768211456"
  using uint_lt2p [of a] by simp_all



text \<open>A test of the leading bits of an address selects one block of addresses.\<close>

lemma byte0_uint: "uint (byte4 0 a) = uint a div 16777216"
proof -
  have "uint a div 16777216 < 256" "0 \<le> uint a div 16777216" using uint32 [of a] by (simp_all add: pos_imp_zdiv_nonneg_iff)
  then show ?thesis by (simp only: byte4_uint) simp
qed

lemma group0_uint: "uint (group6 0 a) = uint a div 2 ^ 112"
proof -
  have "uint a div 2 ^ 112 < 65536" "0 \<le> uint a div 2 ^ 112" using uint128 [of a] by (simp_all add: pos_imp_zdiv_nonneg_iff)
  then show ?thesis by (simp only: group6_uint) simp
qed

lemma div_div_mod:
  assumes "0 < (k :: int)" "0 < m" "0 \<le> y" "y < m"
  shows "a div (k * m) = x \<and> a div k mod m = y \<longleftrightarrow> a div k = x * m + y"
proof -
  have "a div (k * m) = a div k div m" using assms by (simp add: zdiv_zmult2_eq)
  then show ?thesis using assms by auto
qed

lemma mask_mid:
  fixes x :: "32 word"
  assumes "uint x < 256"
  shows "uint (x AND 240) = uint x div 16 * 16"
proof -
  have b: "0 \<le> uint x div 16" "uint x div 16 < 16" using assms by (simp_all add: pos_imp_zdiv_nonneg_iff)
  have "x AND 240 = x AND push_bit 4 (mask 4)" by (simp add: mask_eq_exp_minus_1)
  then have "uint (x AND 240) = take_bit 32 (uint x div 2 ^ 4 mod 2 ^ 4 * 2 ^ 4)"
    using uint_and_mask [of x 4 4] by simp
  also have "\<dots> = uint x div 16 * 16" using b by (simp add: take_bit_eq_mod)
  finally show ?thesis .
qed

lemma word32_eq: "(x :: 32 word) = word_of_int c \<longleftrightarrow> uint x = c" if "0 \<le> c" "c < 4294967296"
  using that by (simp only: word_uint_eq_iff uint_word_of_int) simp

lemma V4_IsLoopback: "IsLoopback (V4 a) \<longleftrightarrow> 2130706432 \<le> uint a \<and> uint a \<le> 2147483647"
  using div_range [of 16777216 "uint a" 127] word32_eq [of 127 "byte4 0 a"] by (simp only: IsLoopback.simps byte0_uint) simp

lemma V4_IsUnspecified: "IsUnspecified (V4 a) \<longleftrightarrow> uint a = 0"
  by (simp add: word_uint_eq_iff)


lemma byte1_uint: "uint (byte4 1 a) = uint a div 65536 mod 256"
  by (simp only: byte4_uint) simp

lemma byte2_uint: "uint (byte4 2 a) = uint a div 256 mod 256"
  by (simp only: byte4_uint) simp

lemma bytes01:
  assumes "0 \<le> y" "y < 256"
  shows "uint (byte4 0 a) = x \<and> uint (byte4 1 a) = y \<longleftrightarrow>
    (x * 256 + y) * 65536 \<le> uint a \<and> uint a \<le> (x * 256 + y) * 65536 + 65535"
  using div_div_mod [of 65536 256 y "uint a" x] div_range [of 65536 "uint a" "x * 256 + y"] assms
  by (simp only: byte0_uint byte1_uint) simp

lemma V4_IsLinkLocalUnicast:
  "IsLinkLocalUnicast (V4 a) \<longleftrightarrow> 2851995648 \<le> uint a \<and> uint a \<le> 2852061183"
  using bytes01 [of 254 a 169] word32_eq [of 169 "byte4 0 a"] word32_eq [of 254 "byte4 1 a"] by simp

lemma nibble01:
  assumes "0 \<le> y" "y < 16"
  shows "uint (byte4 0 a) = x \<and> uint (byte4 1 a AND 240) = y * 16 \<longleftrightarrow>
    (x * 16 + y) * 1048576 \<le> uint a \<and> uint a \<le> (x * 16 + y) * 1048576 + 1048575"
proof -
  have "uint (byte4 1 a AND 240) = uint a div 65536 mod 256 div 16 * 16"
    using mask_mid [of "byte4 1 a"] byte1_uint [of a] by simp
  also have "uint a div 65536 mod 256 div 16 = uint a div 1048576 mod 16"
    using div_exp_mod_exp_eq [of "uint a div 65536" 4 4] by (simp flip: zdiv_zmult2_eq)
  finally have "uint (byte4 1 a AND 240) = y * 16 \<longleftrightarrow> uint a div 1048576 mod 16 = y" by simp
  then show ?thesis
    using div_div_mod [of 1048576 16 y "uint a" x] div_range [of 1048576 "uint a" "x * 16 + y"] assms byte0_uint [of a]
    by simp
qed

lemma V4_IsPrivate:
  "IsPrivate (V4 a) \<longleftrightarrow> 167772160 \<le> uint a \<and> uint a \<le> 184549375 \<or>
     2886729728 \<le> uint a \<and> uint a \<le> 2887778303 \<or> 3232235520 \<le> uint a \<and> uint a \<le> 3232301055"
proof -
  have "byte4 0 a = 10 \<longleftrightarrow> 167772160 \<le> uint a \<and> uint a \<le> 184549375"
    using div_range [of 16777216 "uint a" 10] word32_eq [of 10 "byte4 0 a"] byte0_uint [of a] by simp
  moreover have "byte4 0 a = 172 \<and> byte4 1 a AND 240 = 16 \<longleftrightarrow> 2886729728 \<le> uint a \<and> uint a \<le> 2887778303"
    using nibble01 [of 1 a 172] word32_eq [of 172 "byte4 0 a"] word32_eq [of 16 "byte4 1 a AND 240"] by simp
  moreover have "byte4 0 a = 192 \<and> byte4 1 a = 168 \<longleftrightarrow> 3232235520 \<le> uint a \<and> uint a \<le> 3232301055"
    using bytes01 [of 168 a 192] word32_eq [of 192 "byte4 0 a"] word32_eq [of 168 "byte4 1 a"] by simp
  ultimately show ?thesis by (simp only: IsPrivate.simps)
qed

lemma V4_IsMulticast: "IsMulticast (V4 a) \<longleftrightarrow> 3758096384 \<le> uint a \<and> uint a \<le> 4026531839"
proof -
  have "uint (byte4 0 a) < 256" using uint32 [of a] byte0_uint [of a] by simp
  then have "uint (byte4 0 a AND 240) = uint a div 16777216 div 16 * 16" using mask_mid [of "byte4 0 a"] byte0_uint [of a] by simp
  also have "\<dots> = uint a div 268435456 * 16" by (simp only: zdiv_zmult2_eq [symmetric]) simp
  finally have "byte4 0 a AND 240 = 224 \<longleftrightarrow> uint a div 268435456 = 14"
    using word32_eq [of 224 "byte4 0 a AND 240"] by simp
  then show ?thesis using div_range [of 268435456 "uint a" 14] by simp
qed

lemma V4_IsLinkLocalMulticast: "IsLinkLocalMulticast (V4 a) \<Longrightarrow> IsMulticast (V4 a)"
  by auto

text \<open>The special-purpose IPv4 blocks, as ranges of addresses.\<close>

definition ip4 :: "int \<Rightarrow> int \<Rightarrow> int \<Rightarrow> int \<Rightarrow> int" where
  "ip4 a b c d = ((a * 256 + b) * 256 + c) * 256 + d"

definition special_v4 :: "(int \<times> int) list" where
  "special_v4 =
     [(ip4 0 0 0 0, ip4 0 255 255 255), (ip4 10 0 0 0, ip4 10 255 255 255),
      (ip4 100 64 0 0, ip4 100 127 255 255), (ip4 127 0 0 0, ip4 127 255 255 255),
      (ip4 169 254 0 0, ip4 169 254 255 255), (ip4 172 16 0 0, ip4 172 31 255 255),
      (ip4 192 0 0 0, ip4 192 0 0 255), (ip4 192 0 2 0, ip4 192 0 2 255),
      (ip4 192 168 0 0, ip4 192 168 255 255), (ip4 198 18 0 0, ip4 198 19 255 255),
      (ip4 198 51 100 0, ip4 198 51 100 255), (ip4 203 0 113 0, ip4 203 0 113 255),
      (ip4 224 0 0 0, ip4 239 255 255 255), (ip4 240 0 0 0, ip4 255 255 255 255)]"

definition in_ranges :: "(int \<times> int) list \<Rightarrow> int \<Rightarrow> bool" where
  "in_ranges rs n = list_ex (\<lambda>(lo, hi). lo \<le> n \<and> n \<le> hi) rs"

lemma uint_quad: "uint (quad a b c d) = ip4 a b c d" if "0 \<le> ip4 a b c d" "ip4 a b c d < 4294967296"
  using that by (simp only: quad_def ip4_def uint_word_of_int) simp

lemma Contains_P4:
  assumes "ip4 x y z w = b * 2 ^ (32 - bits)" "0 \<le> ip4 x y z w" "ip4 x y z w < 4294967296"
  shows "Contains (P4 (quad x y z w) bits) (V4 a) \<longleftrightarrow>
    ip4 x y z w \<le> uint a \<and> uint a \<le> ip4 x y z w + (2 ^ (32 - bits) - 1)"
  using prefix_range [of "quad x y z w" b "32 - bits" a] uint_quad [OF assms(2,3)] assms(1)
  by (simp only: Contains.simps)

lemma V4_blockedPrefixes:
  "list_ex (\<lambda>p. Contains p (V4 a)) blockedPrefixes \<longleftrightarrow>
     in_ranges [(ip4 0 0 0 0, ip4 0 255 255 255), (ip4 100 64 0 0, ip4 100 127 255 255),
      (ip4 192 0 0 0, ip4 192 0 0 255), (ip4 192 0 2 0, ip4 192 0 2 255),
      (ip4 198 18 0 0, ip4 198 19 255 255), (ip4 198 51 100 0, ip4 198 51 100 255),
      (ip4 203 0 113 0, ip4 203 0 113 255), (ip4 240 0 0 0, ip4 255 255 255 255)] (uint a)"
proof -
  note c = Contains_P4 [where a = a]
  show ?thesis
    unfolding blockedPrefixes_def in_ranges_def
    using c [of 0 0 0 0 0 8] c [of 100 64 0 0 401 10] c [of 192 0 0 0 "12582912" 24] c [of 192 0 2 0 12582914 24]
      c [of 198 18 0 0 25353 15] c [of 198 51 100 0 12989284 24] c [of 203 0 113 0 13303921 24] c [of 240 0 0 0 15 4]
    by (simp add: ip4_def del: Contains.simps(1))
qed

text \<open>The special-purpose IPv6 blocks that carry no IPv4 address.\<close>

definition ip6 :: "int list \<Rightarrow> int" where
  "ip6 gs = foldl (\<lambda>v g. v * 65536 + g) 0 gs"

definition special_v6 :: "(int \<times> int) list" where
  "special_v6 =
     [(0, 0), (1, 1), (ip6 [0x100, 0, 0, 0, 0, 0, 0, 0], ip6 [0x100, 0, 0, 0, 0xffff, 0xffff, 0xffff, 0xffff]),
      (ip6 [0x64, 0xff9b, 1, 0, 0, 0, 0, 0], ip6 [0x64, 0xff9b, 1, 0xffff, 0xffff, 0xffff, 0xffff, 0xffff]),
      (ip6 [0x2001, 0, 0, 0, 0, 0, 0, 0], ip6 [0x2001, 0, 0xffff, 0xffff, 0xffff, 0xffff, 0xffff, 0xffff]),
      (ip6 [0x2001, 0xdb8, 0, 0, 0, 0, 0, 0], ip6 [0x2001, 0xdb8, 0xffff, 0xffff, 0xffff, 0xffff, 0xffff, 0xffff]),
      (ip6 [0xfc00, 0, 0, 0, 0, 0, 0, 0], ip6 [0xfdff, 0xffff, 0xffff, 0xffff, 0xffff, 0xffff, 0xffff, 0xffff]),
      (ip6 [0xfe80, 0, 0, 0, 0, 0, 0, 0], ip6 [0xfebf, 0xffff, 0xffff, 0xffff, 0xffff, 0xffff, 0xffff, 0xffff]),
      (ip6 [0xff00, 0, 0, 0, 0, 0, 0, 0], ip6 [0xffff, 0xffff, 0xffff, 0xffff, 0xffff, 0xffff, 0xffff, 0xffff])]"

text \<open>The IPv4 address inside an IPv4-mapped, NAT64 or 6to4 address.\<close>

definition carried_v4 :: "int \<Rightarrow> int option" where
  "carried_v4 n =
     (if n div 2 ^ 32 = 0xffff \<or> n div 2 ^ 32 = ip6 [0x64, 0xff9b, 0, 0, 0, 0] then Some (n mod 2 ^ 32)
      else if n div 2 ^ 112 = 0x2002 then Some (n div 2 ^ 80 mod 2 ^ 32)
      else None)"

lemma word128_eq: "(x :: 128 word) = word_of_int c \<longleftrightarrow> uint x = c"
  if "0 \<le> c" "c < 340282366920938463463374607431768211456"
  using that by (simp only: word_uint_eq_iff uint_word_of_int) simp

lemma uint_groups: "uint (groups gs) = ip6 gs" if "0 \<le> ip6 gs" "ip6 gs < 340282366920938463463374607431768211456"
  using that by (simp only: groups_def ip6_def uint_word_of_int) simp

lemma Contains_P6:
  assumes "ip6 gs = b * 2 ^ (128 - bits)" "0 \<le> ip6 gs" "ip6 gs < 340282366920938463463374607431768211456"
  shows "Contains (P6 (groups gs) bits) (V6 a []) \<longleftrightarrow>
    ip6 gs \<le> uint a \<and> uint a \<le> ip6 gs + (2 ^ (128 - bits) - 1)"
  using prefix_range [of "groups gs" b "128 - bits" a] uint_groups [OF assms(2,3)] assms(1)
  by (simp only: Contains.simps simp_thms)

lemma uint_ucast128: "uint (ucast (v :: 128 word) :: 32 word) = uint v mod 2 ^ 32"
  by (simp only: unsigned_ucast_eq take_bit_eq_mod [where 'a = int]) simp

lemma group0_mask:
  assumes "uint a div 2 ^ (112 + k) < 2 ^ j" "(2 :: int) ^ j * 2 ^ k = 65536"
  shows "uint (group6 0 a AND push_bit k (mask j)) = uint a div 2 ^ (112 + k) * 2 ^ k"
proof -
  define q :: int where "q = uint a div 2 ^ (112 + k)"
  have b: "0 \<le> q" "q < 2 ^ j" using assms by (simp_all add: q_def pos_imp_zdiv_nonneg_iff)
  then have "q * 2 ^ k < 2 ^ j * 2 ^ k" by (intro mult_strict_right_mono) simp_all
  then have c: "0 \<le> q * 2 ^ k" "q * 2 ^ k < 65536" using assms b by simp_all
  have "uint (group6 0 a AND push_bit k (mask j)) = take_bit 128 (uint a div 2 ^ 112 div 2 ^ k mod 2 ^ j * 2 ^ k)"
    using uint_and_mask [of "group6 0 a" k j] group0_uint [of a] by simp
  also have "uint a div 2 ^ 112 div 2 ^ k = q" unfolding q_def power_add by (rule zdiv_zmult2_eq [symmetric]) simp
  also have "q mod 2 ^ j = q" using b by simp
  also have "take_bit 128 (q * 2 ^ k) = q * 2 ^ k" using c by (simp add: take_bit_eq_mod)
  finally show ?thesis unfolding q_def .
qed

lemma V6_IsPrivate:
  "IsPrivate (V6 a z) \<longleftrightarrow> uint a div 2 ^ 121 = 126"
proof -
  have "uint a div 2 ^ (112 + 9) < 2 ^ 7" using uint128 [of a] by simp
  from group0_mask [OF this] have "uint (group6 0 a AND 65024) = uint a div 2 ^ 121 * 512"
    by (simp add: mask_eq_exp_minus_1)
  then show ?thesis using word128_eq [of 64512 "group6 0 a AND 65024"] by simp
qed

lemma V6_IsLinkLocalUnicast:
  "IsLinkLocalUnicast (V6 a z) \<longleftrightarrow> uint a div 2 ^ 118 = 1018"
proof -
  have "uint a div 2 ^ (112 + 6) < 2 ^ 10" using uint128 [of a] by simp
  from group0_mask [OF this] have "uint (group6 0 a AND 65472) = uint a div 2 ^ 118 * 64"
    by (simp add: mask_eq_exp_minus_1)
  then show ?thesis using word128_eq [of 65152 "group6 0 a AND 65472"] by simp
qed

lemma V6_IsMulticast: "IsMulticast (V6 a z) \<longleftrightarrow> uint a div 2 ^ 120 = 255"
proof -
  have "uint (drop_bit 8 (group6 0 a)) = uint a div 2 ^ 112 div 2 ^ 8" by (simp only: uint_drop_bit group0_uint)
  also have "\<dots> = uint a div 2 ^ 120" using zdiv_zmult2_eq [of "2 ^ 8" "uint a" "2 ^ 112"] by simp
  finally show ?thesis using word128_eq [of 255 "drop_bit 8 (group6 0 a)"] by simp
qed

lemma V6_IsLinkLocalMulticast: "IsLinkLocalMulticast (V6 a z) \<Longrightarrow> IsMulticast (V6 a z)"
proof -
  assume "IsLinkLocalMulticast (V6 a z)"
  then have "(group6 0 a AND 65295) AND 65280 = (65282 :: 128 word) AND 65280" by simp
  then have g: "group6 0 a AND 65280 = 65280" by (simp add: and.assoc)
  have "uint a div 2 ^ (112 + 8) < 2 ^ 8" using uint128 [of a] by simp
  from group0_mask [OF this] have "uint (group6 0 a AND 65280) = uint a div 2 ^ 120 * 256"
    by (simp add: mask_eq_exp_minus_1)
  then have "uint a div 2 ^ 120 = 255" unfolding g by simp
  then show ?thesis by (simp only: V6_IsMulticast)
qed

lemma V6_IsLoopback: "IsLoopback (V6 a z) \<longleftrightarrow> uint a = 1"
  using word128_eq [of 1 a] by simp

lemma V6_IsUnspecified: "IsUnspecified (V6 a []) \<longleftrightarrow> uint a = 0"
  using word128_eq [of 0 a] by simp

lemma V6_blockedPrefixes:
  "list_ex (\<lambda>p. Contains p (V6 a [])) blockedPrefixes \<longleftrightarrow>
     in_ranges [(ip6 [0x2001, 0xdb8, 0, 0, 0, 0, 0, 0], ip6 [0x2001, 0xdb8, 0xffff, 0xffff, 0xffff, 0xffff, 0xffff, 0xffff]),
      (ip6 [0x100, 0, 0, 0, 0, 0, 0, 0], ip6 [0x100, 0, 0, 0, 0xffff, 0xffff, 0xffff, 0xffff]),
      (ip6 [0x2001, 0, 0, 0, 0, 0, 0, 0], ip6 [0x2001, 0, 0xffff, 0xffff, 0xffff, 0xffff, 0xffff, 0xffff]),
      (ip6 [0x64, 0xff9b, 1, 0, 0, 0, 0, 0], ip6 [0x64, 0xff9b, 1, 0xffff, 0xffff, 0xffff, 0xffff, 0xffff])] (uint a)"
proof -
  note c = Contains_P6 [where a = a]
  show ?thesis
    unfolding blockedPrefixes_def in_ranges_def
    using c [of "[0x2001, 0xdb8, 0, 0, 0, 0, 0, 0]" "0x20010db8" 32]
      c [of "[0x100, 0, 0, 0, 0, 0, 0, 0]" "0x100000000000000" 64]
      c [of "[0x2001, 0, 0, 0, 0, 0, 0, 0]" "0x20010000" 32]
      c [of "[0x64, 0xff9b, 1, 0, 0, 0, 0, 0]" "0x64ff9b0001" 48]
    by (simp add: ip6_def del: Contains.simps(2))
qed

lemma V6_nat64: "Contains nat64WellKnown (V6 a []) \<longleftrightarrow> uint a div 2 ^ 32 = ip6 [0x64, 0xff9b, 0, 0, 0, 0]"
  using Contains_P6 [of "[0x64, 0xff9b, 0, 0, 0, 0, 0, 0]" "ip6 [0x64, 0xff9b, 0, 0, 0, 0]" 96 a]
    div_range [of "2 ^ 32" "uint a" "ip6 [0x64, 0xff9b, 0, 0, 0, 0]"]
  unfolding nat64WellKnown_def by (simp add: ip6_def del: Contains.simps(2))

lemma V6_sixToFour: "Contains sixToFour (V6 a []) \<longleftrightarrow> uint a div 2 ^ 112 = 0x2002"
  using Contains_P6 [of "[0x2002, 0, 0, 0, 0, 0, 0, 0]" "0x2002" 16 a]
    div_range [of "2 ^ 112" "uint a" "0x2002"]
  unfolding sixToFour_def by (simp add: ip6_def del: Contains.simps(2))

lemma V6_mapped: "drop_bit 32 a = (65535 :: 128 word) \<longleftrightarrow> uint a div 2 ^ 32 = 0xffff"
  using word128_eq [of 65535 "drop_bit 32 a"] uint_drop_bit [of 32 a] by simp

lemmas addr_predicates = IsLoopback.simps IsPrivate.simps IsLinkLocalUnicast.simps
  IsLinkLocalMulticast.simps IsMulticast.simps IsUnspecified.simps Contains.simps

definition within :: "int \<Rightarrow> int \<Rightarrow> int \<Rightarrow> bool" where
  "within n lo hi \<longleftrightarrow> lo \<le> n \<and> n \<le> hi"

lemma in_ranges_simps:
  "in_ranges [] n = False" "in_ranges ((lo, hi) # rs) n = (within n lo hi \<or> in_ranges rs n)"
  by (simp_all add: in_ranges_def within_def)

lemma V4_cases:
  "IsBlockedAddr (V4 a) \<longleftrightarrow>
     IsLoopback (V4 a) \<or> IsPrivate (V4 a) \<or> IsLinkLocalUnicast (V4 a) \<or> IsLinkLocalMulticast (V4 a) \<or>
     IsMulticast (V4 a) \<or> IsUnspecified (V4 a) \<or> list_ex (\<lambda>p. Contains p (V4 a)) blockedPrefixes"
  by (subst IsBlockedAddr.simps) (simp add: embeddedIPv4_def Let_def del: addr_predicates)

lemma V4_blocked: "IsBlockedAddr (V4 a) \<longleftrightarrow> in_ranges special_v4 (uint a)"
proof -
  have zero: "n = 0 \<Longrightarrow> within n 0 16777215" for n by (simp add: within_def)
  have s: "in_ranges special_v4 n \<longleftrightarrow>
      (2130706432 \<le> n \<and> n \<le> 2147483647) \<or>
      (167772160 \<le> n \<and> n \<le> 184549375 \<or> 2886729728 \<le> n \<and> n \<le> 2887778303 \<or> 3232235520 \<le> n \<and> n \<le> 3232301055) \<or>
      (2851995648 \<le> n \<and> n \<le> 2852061183) \<or> (3758096384 \<le> n \<and> n \<le> 4026531839) \<or> n = 0 \<or>
      in_ranges [(ip4 0 0 0 0, ip4 0 255 255 255), (ip4 100 64 0 0, ip4 100 127 255 255),
        (ip4 192 0 0 0, ip4 192 0 0 255), (ip4 192 0 2 0, ip4 192 0 2 255),
        (ip4 198 18 0 0, ip4 198 19 255 255), (ip4 198 51 100 0, ip4 198 51 100 255),
        (ip4 203 0 113 0, ip4 203 0 113 255), (ip4 240 0 0 0, ip4 255 255 255 255)] n" for n
    using zero unfolding special_v4_def in_ranges_simps ip4_def within_def [symmetric] by simp blast
  have "IsBlockedAddr (V4 a) \<longleftrightarrow>
      IsLoopback (V4 a) \<or> IsPrivate (V4 a) \<or> IsLinkLocalUnicast (V4 a) \<or> IsMulticast (V4 a) \<or>
      IsUnspecified (V4 a) \<or> list_ex (\<lambda>p. Contains p (V4 a)) blockedPrefixes"
    using V4_IsLinkLocalMulticast [of a] V4_cases [of a] by blast
  then show ?thesis
    by (simp only: V4_IsLoopback V4_IsPrivate V4_IsLinkLocalUnicast V4_IsMulticast V4_IsUnspecified V4_blockedPrefixes s)
qed

lemma V6_uncarried:
  assumes "carried_v4 (uint a) = None"
  shows "IsBlockedAddr (V6 a z) \<longleftrightarrow> in_ranges special_v6 (uint a)"
proof -
  define n where "n = uint a"
  have r: "0 \<le> n" "n < 2 ^ 128" using uint128 [of a] by (simp_all add: n_def)
  have e: "embeddedIPv4 (V6 a []) = None" "drop_bit 32 a \<noteq> 65535"
    using assms by (auto simp: carried_v4_def embeddedIPv4_def V6_nat64 V6_sixToFour V6_mapped simp del: Contains.simps split: if_splits)
  have one: "n = 1 \<longleftrightarrow> within n 1 1" and zero: "n = 0 \<longleftrightarrow> within n 0 0" by (auto simp: within_def)
  have s: "in_ranges special_v6 n \<longleftrightarrow>
      n = 1 \<or> n div 2 ^ 121 = 126 \<or> n div 2 ^ 118 = 1018 \<or> n div 2 ^ 120 = 255 \<or> n = 0 \<or>
      in_ranges [(ip6 [0x2001, 0xdb8, 0, 0, 0, 0, 0, 0], ip6 [0x2001, 0xdb8, 0xffff, 0xffff, 0xffff, 0xffff, 0xffff, 0xffff]),
      (ip6 [0x100, 0, 0, 0, 0, 0, 0, 0], ip6 [0x100, 0, 0, 0, 0xffff, 0xffff, 0xffff, 0xffff]),
      (ip6 [0x2001, 0, 0, 0, 0, 0, 0, 0], ip6 [0x2001, 0, 0xffff, 0xffff, 0xffff, 0xffff, 0xffff, 0xffff]),
      (ip6 [0x64, 0xff9b, 1, 0, 0, 0, 0, 0], ip6 [0x64, 0xff9b, 1, 0xffff, 0xffff, 0xffff, 0xffff, 0xffff])] n"
    using div_range [of "2 ^ 121" n 126] div_range [of "2 ^ 118" n 1018] div_range [of "2 ^ 120" n 255] 
    unfolding special_v6_def in_ranges_simps ip6_def within_def [symmetric] one zero by simp blast
  have "IsBlockedAddr (V6 a z) \<longleftrightarrow>
      IsLoopback (V6 a []) \<or> IsPrivate (V6 a []) \<or> IsLinkLocalUnicast (V6 a []) \<or> IsMulticast (V6 a []) \<or>
      IsUnspecified (V6 a []) \<or> list_ex (\<lambda>p. Contains p (V6 a [])) blockedPrefixes"
    using V6_IsLinkLocalMulticast [of a] e
    by (subst IsBlockedAddr.simps) (auto simp: Let_def simp del: addr_predicates)
  then show ?thesis
    by (simp only: V6_IsLoopback V6_IsPrivate V6_IsLinkLocalUnicast V6_IsMulticast V6_IsUnspecified V6_blockedPrefixes s [unfolded n_def])
qed

lemma V6_carried:
  assumes "carried_v4 (uint a) = Some q"
  shows "IsBlockedAddr (V6 a z) \<longleftrightarrow> in_ranges special_v4 q"
proof (cases "drop_bit 32 a = 65535")
  case True
  then have "uint (ucast a :: 32 word) = q" using assms uint_ucast128 [of a]
    by (simp add: carried_v4_def V6_mapped)
  moreover have "IsBlockedAddr (V6 a z) = IsBlockedAddr (V4 (ucast a))"
    using True by (subst IsBlockedAddr.simps) (simp add: V4_cases embeddedIPv4_def Let_def del: addr_predicates)
  ultimately show ?thesis by (simp add: V4_blocked)
next
  case False
  have e: "embeddedIPv4 (V6 a []) =
      (if uint a div 2 ^ 32 = ip6 [0x64, 0xff9b, 0, 0, 0, 0] then Some (V4 (ucast a))
       else if uint a div 2 ^ 112 = 0x2002 then Some (V4 (ucast (drop_bit 80 a))) else None)"
    by (simp only: embeddedIPv4_def addr.case V6_nat64 V6_sixToFour)
  have c: "carried_v4 (uint a) =
      (if uint a div 2 ^ 32 = ip6 [0x64, 0xff9b, 0, 0, 0, 0] then Some (uint (ucast a :: 32 word))
       else if uint a div 2 ^ 112 = 0x2002 then Some (uint (ucast (drop_bit 80 a) :: 32 word)) else None)"
    using False by (simp only: carried_v4_def V6_mapped uint_ucast128 uint_drop_bit simp_thms if_False)
  have "\<exists>w. embeddedIPv4 (V6 a []) = Some (V4 w) \<and> uint w = q"
    using assms unfolding e c by (simp only: option.inject split: if_splits) blast+
  then obtain w where "embeddedIPv4 (V6 a []) = Some (V4 w)" "uint w = q" by blast
  moreover from this False have "IsBlockedAddr (V6 a z) = IsBlockedAddr (V4 w)"
    by (subst IsBlockedAddr.simps) (simp add: Let_def del: addr_predicates)
  ultimately show ?thesis by (simp add: V4_blocked)
qed

lemma NoAddr_blocked: "IsBlockedAddr NoAddr"
  by (simp add: IsBlockedAddr.simps)

text \<open>
  C29. The blocklist is exact: an IPv4 address is blocked if and only if it lies in one of the
  fourteen special-purpose blocks; an IPv6 address (whatever its zone) that carries an IPv4 address,
  mapped, NAT64 or 6to4, is judged by that address, and any other one is blocked if and only if it
  is unspecified, loopback, unique-local, link-local, multicast or in a documentation, discard,
  Teredo or local NAT64 block. The zero address is blocked.\<close>
theorem blocked_addresses_exact:
  "IsBlockedAddr x \<longleftrightarrow>
     (case x of
        NoAddr \<Rightarrow> True
      | V4 a \<Rightarrow> in_ranges special_v4 (uint a)
      | V6 a zone \<Rightarrow>
          (case carried_v4 (uint a) of
             Some q \<Rightarrow> in_ranges special_v4 q
           | None \<Rightarrow> in_ranges special_v6 (uint a)))"
  by (simp add: NoAddr_blocked V4_blocked V6_uncarried V6_carried split: addr.split option.split)

end
