(* ===== verification/Ssrf_Validate.thy ===== *)
theory Ssrf_Validate
  imports Ssrf
begin

text \<open>
  \<open>commons/security/ssrf\<close>: hostnames, options and the two validations of an outgoing URL
  (hostname.go, options.go, validate.go), with what they use of \<open>net\<close>, \<open>net/netip\<close> and \<open>net/url\<close>:
  the parsers of address literals, and the host and port of a URL. Splitting a raw URL into its
  parts, printing it, and resolving a name are arguments.
\<close>

subsection \<open>Address literals\<close>

text \<open>
  \<open>netip.ParseAddr\<close>. The four octets of a dotted quad: a field is refused when it is empty, has a
  leading zero or exceeds 255.
\<close>

fun octets :: "nat \<Rightarrow> nat \<Rightarrow> string \<Rightarrow> nat list option" where
  "octets val digLen [] = (if digLen = 0 then None else Some [val])"
| "octets val digLen (c # s) =
     (if is_digit c then
        (let v = val * 10 + (of_char c - 48) in
         if digLen = 1 \<and> val = 0 \<or> 255 < v then None else octets v (Suc digLen) s)
      else if c = CHR ''.'' \<and> digLen \<noteq> 0 then map_option (\<lambda>vs. val # vs) (octets 0 0 s)
      else None)"

definition parseIPv4Fields :: "string \<Rightarrow> nat list option" where
  "parseIPv4Fields s = Option.bind (octets 0 0 s) (\<lambda>vs. if length vs = 4 then Some vs else None)"

definition be_value :: "nat list \<Rightarrow> nat" where
  "be_value bs = foldl (\<lambda>v b. v * 256 + b) 0 bs"

definition parseIPv4 :: "string \<Rightarrow> addr option" where
  "parseIPv4 s = map_option (\<lambda>bs. V4 (word_of_nat (be_value bs))) (parseIPv4Fields s)"

definition hex_value :: "char \<Rightarrow> nat option" where
  "hex_value c =
     (let n = of_char c in
      if is_digit c then Some (n - 48)
      else if 97 \<le> n \<and> n \<le> 102 then Some (n - 87)
      else if 65 \<le> n \<and> n \<le> 70 then Some (n - 55)
      else None)"

definition hex_run :: "string \<Rightarrow> nat list" where
  "hex_run s = map (\<lambda>c. the (hex_value c)) (takeWhile (\<lambda>c. hex_value c \<noteq> None) s)"

text \<open>
  The loop over the groups: \<open>ip\<close> the bytes so far, \<open>ellipsis\<close> where \<open>::\<close> was seen, \<open>s\<close> what is
  left of the text. The result is the bytes and the ellipsis, once the whole text is used.
\<close>

function parse_groups :: "nat list \<Rightarrow> nat option \<Rightarrow> string \<Rightarrow> (nat list \<times> nat option) option" where
  "parse_groups ip ellipsis s =
     (if length ip \<ge> 16 then (if s = [] then Some (ip, ellipsis) else None)
      else
        (let ds = hex_run s; rest = drop (length ds) s; acc = foldl (\<lambda>v d. v * 16 + d) 0 ds in
         if ds = [] \<or> 4 < length ds then None
         else if rest \<noteq> [] \<and> hd rest = CHR ''.'' then
           (if ellipsis = None \<and> length ip \<noteq> 12 \<or> 16 < length ip + 4 then None
            else map_option (\<lambda>bs. (ip @ bs, ellipsis)) (parseIPv4Fields s))
         else
           (let ip' = ip @ [acc div 256, acc mod 256] in
            if rest = [] then Some (ip', ellipsis)
            else if hd rest \<noteq> CHR '':'' \<or> length rest = 1 then None
            else if hd (tl rest) = CHR '':'' then
              (if ellipsis \<noteq> None then None
               else if tl (tl rest) = [] then Some (ip', Some (length ip'))
               else parse_groups ip' (Some (length ip')) (tl (tl rest)))
            else parse_groups ip' ellipsis (tl rest))))"
  by pat_completeness auto
termination
  by (relation "measure (\<lambda>(ip, _, _). 16 - length ip)") auto

declare parse_groups.simps [simp del]

definition expand_ellipsis :: "nat list \<Rightarrow> nat option \<Rightarrow> nat list option" where
  "expand_ellipsis ip ellipsis =
     (case ellipsis of
        None \<Rightarrow> if length ip < 16 then None else Some ip
      | Some e \<Rightarrow>
          if length ip < 16 then Some (take e ip @ replicate (16 - length ip) 0 @ drop e ip) else None)"

definition parseIPv6 :: "string \<Rightarrow> addr option" where
  "parseIPv6 text0 =
     (let s = takeWhile (\<lambda>c. c \<noteq> CHR ''%'') text0;
          marked = CHR ''%'' \<in> set text0;
          zone = drop (Suc (length s)) text0 in
      if marked \<and> zone = [] then None
      else if s = ''::'' then Some (V6 0 zone)
      else
        map_option (\<lambda>ip. V6 (word_of_nat (be_value ip)) zone)
          (Option.bind
            (if take 2 s = ''::'' then parse_groups [] (Some 0) (drop 2 s) else parse_groups [] None s)
            (\<lambda>(ip, ellipsis). expand_ellipsis ip ellipsis)))"

definition ParseAddr :: "string \<Rightarrow> addr option" where
  "ParseAddr s =
     (case filter (\<lambda>c. c = CHR ''.'' \<or> c = CHR '':'' \<or> c = CHR ''%'') s of
        [] \<Rightarrow> None
      | c # _ \<Rightarrow> if c = CHR ''.'' then parseIPv4 s else if c = CHR '':'' then parseIPv6 s else None)"

subsection \<open>Hostnames\<close>

definition blockedHostnames :: "string list" where
  "blockedHostnames =
     [''localhost'', ''metadata.google.internal'', ''metadata.gcp.internal'', ''169.254.169.254'',
      ''metadata.azure.internal'']"

definition blockedSuffixes :: "string list" where
  "blockedSuffixes = [''.local'', ''.internal'', ''.cluster.local'']"

definition normalizeHostname :: "(string \<Rightarrow> string) \<Rightarrow> string \<Rightarrow> string" where
  "normalizeHostname uni hostname = TrimRight CHR ''.'' (ToLower uni hostname)"

definition IsBlockedHostname :: "(string \<Rightarrow> string) \<Rightarrow> string \<Rightarrow> bool" where
  "IsBlockedHostname uni hostname =
     (if hostname = [] then True
      else
        (let lower = normalizeHostname uni hostname in
         if lower = [] then True
         else if lower \<in> set blockedHostnames then True
         else list_ex (\<lambda>sfx. suffix sfx lower) blockedSuffixes))"

subsection \<open>Options\<close>

type_synonym lookup_func = "string \<Rightarrow> unit + string list"

record ssrf_config =
  httpsOnly :: bool
  allowPrivate :: bool
  lookupFunc :: "lookup_func option"
  allowedHostnames :: "string list"

type_synonym ssrf_option = "(ssrf_config \<Rightarrow> ssrf_config) option"

definition buildConfig :: "ssrf_option list \<Rightarrow> ssrf_config" where
  "buildConfig opts =
     foldl (\<lambda>cfg opt. case opt of Some f \<Rightarrow> f cfg | None \<Rightarrow> cfg)
       \<lparr>httpsOnly = False, allowPrivate = False, lookupFunc = None, allowedHostnames = []\<rparr> opts"

definition WithHTTPSOnly :: ssrf_option where
  "WithHTTPSOnly = Some (\<lambda>c. c\<lparr>httpsOnly := True\<rparr>)"

definition WithAllowPrivateNetwork :: ssrf_option where
  "WithAllowPrivateNetwork = Some (\<lambda>c. c\<lparr>allowPrivate := True\<rparr>)"

definition WithLookupFunc :: "lookup_func option \<Rightarrow> ssrf_option" where
  "WithLookupFunc fn = Some (\<lambda>c. if fn \<noteq> None then c\<lparr>lookupFunc := fn\<rparr> else c)"

definition WithAllowHostname :: "(string \<Rightarrow> string) \<Rightarrow> string \<Rightarrow> ssrf_option" where
  "WithAllowHostname uni hostname =
     Some (\<lambda>c. c\<lparr>allowedHostnames := List.insert (ToLower uni hostname) (allowedHostnames c)\<rparr>)"

definition isBlockedHostnameWithConfig :: "(string \<Rightarrow> string) \<Rightarrow> string \<Rightarrow> ssrf_config \<Rightarrow> bool" where
  "isBlockedHostnameWithConfig uni hostname cfg =
     (if hostname = [] then True
      else
        (let lower = normalizeHostname uni hostname in
         if lower = [] then True
         else if lower \<in> set (allowedHostnames cfg) then False
         else if lower \<in> set blockedHostnames then True
         else list_ex (\<lambda>sfx. suffix sfx lower) blockedSuffixes))"

subsection \<open>Validation\<close>

datatype go_context = NilContext | ActiveContext | EndedContext

text \<open>\<open>url.URL\<close>: the two parts the package reads, and everything else.\<close>

record 'x url =
  Scheme :: string
  Host :: string
  other_parts :: 'x

definition validOptionalPort :: "string \<Rightarrow> bool" where
  "validOptionalPort port = (port = [] \<or> hd port = CHR '':'' \<and> list_all is_digit (tl port))"

text \<open>\<open>LastIndexByte\<close>, and the host and port around the last colon.\<close>

definition before_last_colon :: "string \<Rightarrow> string" where
  "before_last_colon s = rev (tl (dropWhile (\<lambda>c. c \<noteq> CHR '':'') (rev s)))"

definition splitHostPort :: "string \<Rightarrow> string \<times> string" where
  "splitHostPort hostPort =
     (let h = before_last_colon hostPort;
          (host, port) =
            (if CHR '':'' \<in> set hostPort \<and> validOptionalPort (drop (length h) hostPort)
             then (h, drop (Suc (length h)) hostPort) else (hostPort, []))
      in (if prefix ''['' host \<and> suffix '']'' host then butlast (tl host) else host, port))"

definition Hostname :: "'x url \<Rightarrow> string" where
  "Hostname u = fst (splitHostPort (Host u))"

definition Port :: "'x url \<Rightarrow> string" where
  "Port u = snd (splitHostPort (Host u))"

definition JoinHostPort :: "string \<Rightarrow> string \<Rightarrow> string" where
  "JoinHostPort host port =
     (if CHR '':'' \<in> set host then ''['' @ host @ '']:'' @ port else host @ '':'' @ port)"

record ResolveResult =
  PinnedURL :: string
  Authority :: string
  SNIHostname :: string

text \<open>What the package calls and does not contain.\<close>

record 'x net =
  unicode_lower :: "string \<Rightarrow> string"
  url_Parse :: "string \<Rightarrow> 'x url option"
  url_String :: "'x url \<Rightarrow> string"
  LookupHost :: lookup_func

definition validateContext :: "go_context \<Rightarrow> ssrf_error + unit" where
  "validateContext ctx = refuse (ctx \<noteq> ActiveContext) ErrInvalidURL"

definition validateScheme :: "'x net \<Rightarrow> string \<Rightarrow> ssrf_config \<Rightarrow> ssrf_error + unit" where
  "validateScheme net scheme cfg =
     (let s = ToLower (unicode_lower net) scheme in
      if httpsOnly cfg then refuse (s \<noteq> ''https'') ErrBlocked
      else refuse (s \<noteq> ''http'' \<and> s \<noteq> ''https'') ErrBlocked)"

definition lookupHost :: "'x net \<Rightarrow> string \<Rightarrow> ssrf_config \<Rightarrow> unit + string list" where
  "lookupHost net hostname cfg =
     (case lookupFunc cfg of Some f \<Rightarrow> f hostname | None \<Rightarrow> LookupHost net hostname)"

definition ValidateURL :: "'x net \<Rightarrow> go_context \<Rightarrow> string \<Rightarrow> ssrf_option list \<Rightarrow> ssrf_error + unit" where
  "ValidateURL net ctx rawURL opts =
     bind_res (validateContext ctx) (\<lambda>_.
       (let cfg = buildConfig opts in
        case url_Parse net rawURL of
          None \<Rightarrow> Inl ErrInvalidURL
        | Some u \<Rightarrow>
            bind_res (validateScheme net (Scheme u) cfg) (\<lambda>_.
            bind_res (refuse (Hostname u = []) ErrInvalidURL) (\<lambda>_.
            bind_res (refuse (isBlockedHostnameWithConfig (unicode_lower net) (Hostname u) cfg) ErrBlocked) (\<lambda>_.
              if \<not> allowPrivate cfg then
                (case ParseAddr (Hostname u) of
                   Some a \<Rightarrow> refuse (IsBlockedAddr a) ErrBlocked
                 | None \<Rightarrow> Inr ())
              else Inr ())))))"

text \<open>One round of the loop over the resolved addresses; the state is \<open>firstSafeIP\<close>.\<close>

definition check_ip :: "ssrf_config \<Rightarrow> string \<Rightarrow> string \<Rightarrow> ssrf_error + string" where
  "check_ip cfg firstSafeIP ipStr =
     (case ParseAddr ipStr of
        None \<Rightarrow> Inr firstSafeIP
      | Some a \<Rightarrow>
          if \<not> allowPrivate cfg \<and> IsBlockedAddr a then Inl ErrBlocked
          else Inr (if firstSafeIP = [] then ipStr else firstSafeIP))"

definition pinned_host :: "string \<Rightarrow> string \<Rightarrow> string" where
  "pinned_host ip port =
     (if port \<noteq> [] then JoinHostPort ip port
      else if CHR '':'' \<in> set ip then ''['' @ ip @ '']''
      else ip)"

definition ResolveAndValidate ::
  "'x net \<Rightarrow> go_context \<Rightarrow> string \<Rightarrow> ssrf_option list \<Rightarrow> ssrf_error + ResolveResult" where
  "ResolveAndValidate net ctx rawURL opts =
     bind_res (validateContext ctx) (\<lambda>_.
       (let cfg = buildConfig opts in
        case url_Parse net rawURL of
          None \<Rightarrow> Inl ErrInvalidURL
        | Some u \<Rightarrow>
            bind_res (validateScheme net (Scheme u) cfg) (\<lambda>_.
            bind_res (refuse (Hostname u = []) ErrInvalidURL) (\<lambda>_.
            bind_res (refuse (isBlockedHostnameWithConfig (unicode_lower net) (Hostname u) cfg) ErrBlocked) (\<lambda>_.
              case lookupHost net (Hostname u) cfg of
                Inl _ \<Rightarrow> Inl ErrDNSFailed
              | Inr ips \<Rightarrow>
                  bind_res (refuse (ips = []) ErrDNSFailed) (\<lambda>_.
                  bind_res (fold_res (check_ip cfg) [] ips) (\<lambda>firstSafeIP.
                  bind_res (refuse (firstSafeIP = []) ErrInvalidURL) (\<lambda>_.
                    Inr \<lparr>PinnedURL = url_String net (u\<lparr>Host := pinned_host firstSafeIP (Port u)\<rparr>),
                         Authority = Host u, SNIHostname = Hostname u\<rparr>))))))))"

subsection \<open>The pinned URL\<close>

lemma before_last_colon_split:
  assumes "CHR '':'' \<notin> set p"
  shows "before_last_colon (h @ CHR '':'' # p) = h"
proof -
  have "dropWhile (\<lambda>c. c \<noteq> CHR '':'') (rev p @ CHR '':'' # rev h) = CHR '':'' # rev h"
    using assms by (subst dropWhile_append2) auto
  then show ?thesis by (simp add: before_last_colon_def)
qed

lemma digits_no_colon: "list_all is_digit p \<Longrightarrow> CHR '':'' \<notin> set p"
  by (auto simp: list_all_iff is_digit_def)

text \<open>A host with a numeric port, and a bracketed address without one.\<close>

lemma splitHostPort_port:
  assumes "list_all is_digit p"
  shows "splitHostPort (h @ CHR '':'' # p) =
    (if prefix ''['' h \<and> suffix '']'' h then butlast (tl h) else h, p)"
  using assms digits_no_colon [OF assms]
  by (simp add: splitHostPort_def before_last_colon_split validOptionalPort_def)

lemma bracketed: "prefix ''['' (CHR ''['' # ip @ '']'')" "suffix '']'' (CHR ''['' # ip @ '']'')"
  by (simp, rule suffixI [of _ "CHR ''['' # ip"], simp)

lemma splitHostPort_bracket:
  assumes "CHR '':'' \<in> set ip"
  shows "splitHostPort (''['' @ ip @ '']'') = (ip, [])"
proof -
  obtain h p where ip: "ip = h @ CHR '':'' # p" "CHR '':'' \<notin> set p"
    using split_list_last [OF assms] by blast
  have "before_last_colon (CHR ''['' # h @ CHR '':'' # (p @ '']'')) = CHR ''['' # h"
    using before_last_colon_split [of "p @ '']''" "CHR ''['' # h"] ip(2) by simp
  then show ?thesis
    using ip bracketed [of ip] by (simp add: splitHostPort_def validOptionalPort_def is_digit_def butlast_append)
qed

lemma splitHostPort_plain:
  assumes "CHR '':'' \<notin> set ip" "\<not> prefix ''['' ip"
  shows "splitHostPort ip = (ip, [])"
  using assms by (simp add: splitHostPort_def)

lemma splitHostPort_pinned:
  assumes "list_all is_digit port" "CHR '':'' \<in> set ip \<or> \<not> prefix ''['' ip"
  shows "splitHostPort (pinned_host ip port) = (ip, port)"
proof (cases "port = []")
  case True
  then show ?thesis
    using assms(2) splitHostPort_bracket [of ip] splitHostPort_plain [of ip] by (auto simp: pinned_host_def)
next
  case False
  have "splitHostPort (CHR ''['' # (ip @ CHR '']'' # CHR '':'' # port)) = (ip, port)"
    using splitHostPort_port [OF assms(1), of "CHR ''['' # ip @ '']''"] bracketed [of ip] by simp
  then show ?thesis
    using False assms splitHostPort_port [OF assms(1), of ip] by (auto simp: pinned_host_def JoinHostPort_def)
qed

lemma Port_digits: "list_all is_digit (Port u)"
proof -
  have "list_all is_digit (drop (Suc n) s)" if "validOptionalPort (drop n s)" for n and s :: string
  proof -
    have "drop (Suc n) s = tl (drop n s)" by (simp add: drop_Suc tl_drop)
    then show ?thesis using that by (auto simp: validOptionalPort_def)
  qed
  then show ?thesis by (auto simp: Port_def splitHostPort_def Let_def)
qed

text \<open>No address literal begins with a bracket.\<close>

lemma ParseAddr_no_bracket: "ParseAddr (CHR ''['' # s) = None"
proof -
  have "parseIPv4 (CHR ''['' # s) = None"
    by (simp add: parseIPv4_def parseIPv4Fields_def is_digit_def)
  moreover have "hex_run (CHR ''['' # t) = []" for t
    by (simp add: hex_run_def hex_value_def is_digit_def)
  then have "parse_groups [] None (CHR ''['' # t) = None" for t
    by (simp add: parse_groups.simps)
  then have "parseIPv6 (CHR ''['' # s) = None"
    by (simp add: parseIPv6_def Let_def)
  ultimately show ?thesis by (simp add: ParseAddr_def split: list.split)
qed

lemma parsed_not_bracket: "ParseAddr ip = Some a \<Longrightarrow> \<not> prefix ''['' ip"
  by (cases ip) (auto simp: ParseAddr_no_bracket)

lemma pinned_Hostname:
  assumes "ParseAddr ip = Some a"
  shows "Hostname (u\<lparr>Host := pinned_host ip (Port u)\<rparr>) = ip"
    "Port (u\<lparr>Host := pinned_host ip (Port u)\<rparr>) = Port u"
  using splitHostPort_pinned [OF Port_digits [of u]] parsed_not_bracket [OF assms]
  by (simp_all add: Hostname_def Port_def)

lemma ParseAddr_Nil [simp]: "ParseAddr [] = None"
  by (simp add: ParseAddr_def)

subsection \<open>The loop over the resolved addresses\<close>

lemma check_ips_eq_Inr:
  "fold_res (check_ip cfg) ip0 ips = Inr ip \<longleftrightarrow>
     (\<forall>s \<in> set ips. \<forall>a. ParseAddr s = Some a \<longrightarrow> allowPrivate cfg \<or> \<not> IsBlockedAddr a) \<and>
     ip = (if ip0 \<noteq> [] then ip0 else
       case filter (\<lambda>s. ParseAddr s \<noteq> None) ips of s # _ \<Rightarrow> s | [] \<Rightarrow> [])"
proof (induction ips arbitrary: ip0)
  case Nil
  then show ?case by auto
next
  case (Cons s ips)
  show ?case
  proof (cases "ParseAddr s")
    case None
    then have "check_ip cfg ip0 s = Inr ip0" by (simp add: check_ip_def)
    then show ?thesis using None by (simp add: Cons.IH)
  next
    case (Some a)
    then have "s \<noteq> []" by auto
    moreover have "check_ip cfg ip0 s =
        (if \<not> allowPrivate cfg \<and> IsBlockedAddr a then Inl ErrBlocked else Inr (if ip0 = [] then s else ip0))"
      using Some by (simp add: check_ip_def)
    ultimately show ?thesis using Some by (auto simp: Cons.IH)
  qed
qed

lemma first_parsed:
  "(case filter (\<lambda>s. ParseAddr s \<noteq> None) ips of s # _ \<Rightarrow> s | [] \<Rightarrow> []) = ip \<Longrightarrow> ip \<noteq> [] \<Longrightarrow>
     ip \<in> set ips \<and> (\<exists>a. ParseAddr ip = Some a)"
  by (auto split: list.splits dest: filter_eq_ConsD)

definition sample_net :: "string net" where
  "sample_net =
     \<lparr>unicode_lower = (\<lambda>s. s),
      url_Parse = (\<lambda>raw. if raw = ''HTTPS://hooks.example.com:8443/in''
        then Some \<lparr>Scheme = ''https'', Host = ''hooks.example.com:8443'', other_parts = ''/in''\<rparr> else None),
      url_String = (\<lambda>u. Scheme u @ ''://'' @ Host u @ other_parts u),
      LookupHost = (\<lambda>host. if host = ''hooks.example.com'' then Inr [''bad'', ''93.184.216.34''] else Inl ())\<rparr>"

lemma ResolveAndValidate_eq_Inr:
  "ResolveAndValidate net ctx rawURL opts = Inr r \<longleftrightarrow>
     ctx = ActiveContext \<and>
     (\<exists>u ips ip. url_Parse net rawURL = Some u \<and> validateScheme net (Scheme u) (buildConfig opts) = Inr () \<and>
        Hostname u \<noteq> [] \<and> \<not> isBlockedHostnameWithConfig (unicode_lower net) (Hostname u) (buildConfig opts) \<and>
        lookupHost net (Hostname u) (buildConfig opts) = Inr ips \<and> ips \<noteq> [] \<and>
        fold_res (check_ip (buildConfig opts)) [] ips = Inr ip \<and> ip \<noteq> [] \<and>
        r = \<lparr>PinnedURL = url_String net (u\<lparr>Host := pinned_host ip (Port u)\<rparr>), Authority = Host u, SNIHostname = Hostname u\<rparr>)"
  by (auto simp: ResolveAndValidate_def validateContext_def bind_res_eq_Inr Let_def split: option.split sum.splits)

lemma parsed_samples:
  "ParseAddr ''bad'' = None"
  "ParseAddr ''93.184.216.34'' = Some (V4 0x5DB8D822)"
  by (simp_all add: ParseAddr_def parseIPv4_def parseIPv4Fields_def is_digit_def be_value_def)

lemma public_sample: "\<not> IsBlockedAddr (V4 0x5DB8D822)"
  by (simp add: V4_blocked in_ranges_def special_v4_def ip4_def)

lemma sample_resolved:
  "ResolveAndValidate sample_net ActiveContext ''HTTPS://hooks.example.com:8443/in'' [WithHTTPSOnly] =
     Inr \<lparr>PinnedURL = ''https://93.184.216.34:8443/in'', Authority = ''hooks.example.com:8443'',
          SNIHostname = ''hooks.example.com''\<rparr>"
proof -
  have "splitHostPort ''hooks.example.com:8443'' = (''hooks.example.com'', ''8443'')"
    using splitHostPort_port [of "''8443''" "''hooks.example.com''"] by (simp add: is_digit_def)
  moreover have "fold_res (check_ip cfg) [] [''bad'', ''93.184.216.34''] = Inr ''93.184.216.34''" for cfg
    using public_sample by (simp add: check_ip_def parsed_samples)
  moreover have "\<not> isBlockedHostnameWithConfig (\<lambda>s. s) ''hooks.example.com'' (buildConfig [WithHTTPSOnly])"
    by (simp add: isBlockedHostnameWithConfig_def normalizeHostname_def ToLower_def is_ascii_def lower_char_def
      TrimRight_def blockedHostnames_def blockedSuffixes_def buildConfig_def WithHTTPSOnly_def suffix_def)
  ultimately show ?thesis
    by (simp add: ResolveAndValidate_eq_Inr sample_net_def Hostname_def Port_def validateScheme_def ToLower_def
      is_ascii_def lower_char_def lookupHost_def buildConfig_def WithHTTPSOnly_def pinned_host_def JoinHostPort_def)
qed

text \<open>
  C30. A URL that \<open>ResolveAndValidate\<close> accepts is pinned to a public address: its scheme is allowed,
  its name is not blocked, every address the name resolved to is outside the blocklist (so that no
  later choice among them can reach an internal host), and the returned URL is the one given with the
  host replaced by one of these addresses, literally, with the same port and everything else kept,
  while \<open>Authority\<close> and \<open>SNIHostname\<close> still name the original host.\<close>
theorem ResolveAndValidate_pins_public_address:
  assumes "ResolveAndValidate net ctx rawURL opts = Inr r" and "\<not> allowPrivate (buildConfig opts)"
  shows "\<exists>u ips ip a v.
      url_Parse net rawURL = Some u \<and>
      ToLower (unicode_lower net) (Scheme u) \<in> (if httpsOnly (buildConfig opts) then {''https''} else {''http'', ''https''}) \<and>
      \<not> isBlockedHostnameWithConfig (unicode_lower net) (Hostname u) (buildConfig opts) \<and>
      lookupHost net (Hostname u) (buildConfig opts) = Inr ips \<and>
      (\<forall>s \<in> set ips. \<forall>b. ParseAddr s = Some b \<longrightarrow> \<not> IsBlockedAddr b) \<and>
      ip \<in> set ips \<and> ParseAddr ip = Some a \<and>
      PinnedURL r = url_String net v \<and> Hostname v = ip \<and> Port v = Port u \<and>
      Scheme v = Scheme u \<and> other_parts v = other_parts u \<and>
      Authority r = Host u \<and> SNIHostname r = Hostname u"
proof -
  obtain u ips ip where u: "url_Parse net rawURL = Some u" "validateScheme net (Scheme u) (buildConfig opts) = Inr ()"
      "\<not> isBlockedHostnameWithConfig (unicode_lower net) (Hostname u) (buildConfig opts)"
      "lookupHost net (Hostname u) (buildConfig opts) = Inr ips"
    and ip: "fold_res (check_ip (buildConfig opts)) [] ips = Inr ip" "ip \<noteq> []"
    and r: "r = \<lparr>PinnedURL = url_String net (u\<lparr>Host := pinned_host ip (Port u)\<rparr>), Authority = Host u, SNIHostname = Hostname u\<rparr>"
    using assms(1) unfolding ResolveAndValidate_eq_Inr by blast
  have safe: "\<forall>s \<in> set ips. \<forall>b. ParseAddr s = Some b \<longrightarrow> \<not> IsBlockedAddr b"
    and f: "(case filter (\<lambda>s. ParseAddr s \<noteq> None) ips of s # _ \<Rightarrow> s | [] \<Rightarrow> []) = ip"
    using ip(1) assms(2) unfolding check_ips_eq_Inr by auto
  obtain a where a: "ip \<in> set ips" "ParseAddr ip = Some a" using first_parsed [OF f ip(2)] by blast
  have "ToLower (unicode_lower net) (Scheme u) \<in> (if httpsOnly (buildConfig opts) then {''https''} else {''http'', ''https''})"
    using u(2) by (auto simp: validateScheme_def Let_def split: if_splits)
  then show ?thesis
    using u safe a r pinned_Hostname [OF a(2), of u]
    by (intro exI [of _ u] exI [of _ ips] exI [of _ ip] exI [of _ a]
      exI [of _ "u\<lparr>Host := pinned_host ip (Port u)\<rparr>"]) simp
qed

theorem ResolveAndValidate_pins_public_address_witness:
  "\<exists>ips ip a. LookupHost sample_net ''hooks.example.com'' = Inr ips \<and>
     ip \<in> set ips \<and> ParseAddr ip = Some a \<and> \<not> IsBlockedAddr a"
proof -
  have "\<not> allowPrivate (buildConfig [WithHTTPSOnly])" by code_simp
  from ResolveAndValidate_pins_public_address [OF sample_resolved this]
  obtain u ips ip a where "url_Parse sample_net ''HTTPS://hooks.example.com:8443/in'' = Some u"
      "lookupHost sample_net (Hostname u) (buildConfig [WithHTTPSOnly]) = Inr ips"
      "\<forall>s \<in> set ips. \<forall>b. ParseAddr s = Some b \<longrightarrow> \<not> IsBlockedAddr b" "ip \<in> set ips" "ParseAddr ip = Some a"
      "''hooks.example.com'' = Hostname u"
    by auto
  then show ?thesis
    by (auto simp: lookupHost_def buildConfig_def WithHTTPSOnly_def)
qed

text \<open>An exemption for a name with a trailing dot exempts nothing: the names compared have none.\<close>

theorem trailing_dot_exemption_ineffective:
  assumes "list_all is_ascii h"
  shows "isBlockedHostnameWithConfig uni g (the (WithAllowHostname uni (h @ ''.'')) cfg) =
    isBlockedHostnameWithConfig uni g cfg"
proof -
  have "ToLower uni (h @ ''.'') = map lower_char h @ ''.''"
    using assms by (simp add: ToLower_def is_ascii_def lower_char_def)
  then have "normalizeHostname uni g \<noteq> ToLower uni (h @ ''.'')"
    using TrimRight_snoc [of "CHR ''.''" _ "map lower_char h"] by (simp add: normalizeHostname_def)
  then show ?thesis by (simp add: isBlockedHostnameWithConfig_def WithAllowHostname_def Let_def)
qed

end
