(* ===== verification/Dlq.thy ===== *)
theory Dlq
  imports Backoff Outbox_Event
begin

text \<open>
  \<open>commons/dlq\<close>: the dead letter queue over Redis lists (keys.go, handler.go) and its consumer
  (consumer.go). Redis, JSON, the clock, the random source, the metrics and the retry function are
  fields of the environment \<open>dlq_env\<close>; they read and change a world of any type. The tenant of a
  context is that of \<open>tenant-manager/core\<close>. Logging and tracing are left out.
\<close>

datatype dlq_error =
    ErrNilHandler | ErrNilRetryFunc | ErrMessageExhausted
  | ErrEmptySource | ErrDisallowedCharacter | ErrNilMessage | ErrTenantMismatch
  | ErrMarshal | ErrUnmarshal | ErrEmptyKey | ErrRedisClient | ErrRedis | ErrRedisNil

record FailedMessage =
  fm_Source :: string
  fm_OriginalData :: string
  fm_ErrorMessage :: string
  fm_RetryCount :: int
  fm_MaxRetries :: int
  fm_CreatedAt :: "int option"
  fm_NextRetryAt :: "int option"
  fm_TenantID :: string

datatype pop_result = Popped string | PopNil | PopFailed

datatype retry_result = RetryOk | RetryFailed string | RetryPanicked string

record 'w dlq_env =
  time_Now :: "'w \<Rightarrow> int"
  rand_gen :: "int \<Rightarrow> int \<Rightarrow> int"
  rand_draw :: "'w \<Rightarrow> int \<Rightarrow> int option"
  rand_seed :: "'w \<Rightarrow> int option"
  json_Marshal :: "FailedMessage \<Rightarrow> string option"
  json_Unmarshal :: "string \<Rightarrow> FailedMessage option"
  GetClient :: "'w \<Rightarrow> bool \<times> 'w"
  RPush :: "string \<Rightarrow> string \<Rightarrow> 'w \<Rightarrow> bool \<times> 'w"
  LPop :: "string \<Rightarrow> 'w \<Rightarrow> pop_result \<times> 'w"
  LLen :: "string \<Rightarrow> 'w \<Rightarrow> int option \<times> 'w"
  Scan :: "nat \<Rightarrow> string \<Rightarrow> 'w \<Rightarrow> (string list \<times> nat) option \<times> 'w"
  ctx_Done :: "'w \<Rightarrow> bool"
  RecordRetried :: "string \<Rightarrow> 'w \<Rightarrow> 'w"
  RecordExhausted :: "string \<Rightarrow> 'w \<Rightarrow> 'w"
  RecordLost :: "string \<Rightarrow> 'w \<Rightarrow> 'w"

text \<open>A handler, the nil handler being \<open>None\<close> where a method is called on it.\<close>

record dlq_handler =
  h_keyPrefix :: string
  h_maxRetries :: int

definition New :: "bool \<Rightarrow> string \<Rightarrow> int \<Rightarrow> dlq_handler option" where
  "New conn_nil prefix0 maxRetries =
     (if conn_nil then None
      else Some \<lparr>h_keyPrefix = (if prefix0 = [] then ''dlq:'' else prefix0),
                 h_maxRetries = (if maxRetries \<le> 0 then 3 else maxRetries)\<rparr>)"

definition core_ContextWithTenantID :: "tenant_context \<Rightarrow> string \<Rightarrow> tenant_context" where
  "core_ContextWithTenantID ctx tenantID = ctx\<lparr>core_tenantIDKey := Some tenantID\<rparr>"

subsection \<open>Keys\<close>

definition validateKeySegment :: "string \<Rightarrow> dlq_error + unit" where
  "validateKeySegment val =
     refuse (list_ex (\<lambda>c. c \<in> set (CHR 0x5C # '':*?[]'')) val) ErrDisallowedCharacter"

definition tenantScopedKeyForTenant :: "dlq_handler \<Rightarrow> string \<Rightarrow> string \<Rightarrow> string" where
  "tenantScopedKeyForTenant h tenantID source =
     (if tenantID \<noteq> [] then
        (case validateKeySegment tenantID of
           Inl _ \<Rightarrow> []
         | Inr _ \<Rightarrow> h_keyPrefix h @ tenantID @ '':'' @ source)
      else h_keyPrefix h @ source)"

definition tenantScopedKey :: "dlq_handler \<Rightarrow> tenant_context \<Rightarrow> string \<Rightarrow> string" where
  "tenantScopedKey h ctx source = tenantScopedKeyForTenant h (GetTenantIDContext ctx) source"

definition ExtractTenantFromKey :: "dlq_handler option \<Rightarrow> string \<Rightarrow> string \<Rightarrow> string" where
  "ExtractTenantFromKey handler key source =
     (case handler of
        None \<Rightarrow> []
      | Some h \<Rightarrow>
          (let pre = h_keyPrefix h; suf = '':'' @ source in
           if length key \<le> length pre + length suf then []
           else if take (length pre) key \<noteq> pre then []
           else if drop (length key - length suf) key \<noteq> suf then []
           else drop (length pre) (take (length key - length suf) key)))"

subsection \<open>Handler\<close>

definition minBackoff :: int where
  "minBackoff = 5000000000"

definition backoffDuration :: "'w dlq_env \<Rightarrow> int \<Rightarrow> 'w \<Rightarrow> int" where
  "backoffDuration E retryCount w =
     max (ExponentialWithJitter (rand_gen E) (rand_draw E w) (rand_seed E w) 30000000000 retryCount) minBackoff"

definition validateSource :: "string \<Rightarrow> dlq_error + unit" where
  "validateSource source = (if source = [] then Inl ErrEmptySource else validateKeySegment source)"

definition validateEnqueueMessage :: "FailedMessage option \<Rightarrow> dlq_error + unit" where
  "validateEnqueueMessage msg =
     (case msg of None \<Rightarrow> Inl ErrNilMessage | Some m \<Rightarrow> validateSource (fm_Source m))"

definition stampInitialEnqueue :: "'w dlq_env \<Rightarrow> dlq_handler \<Rightarrow> FailedMessage \<Rightarrow> 'w \<Rightarrow> FailedMessage" where
  "stampInitialEnqueue E h m0 w =
     (let initialEnqueue = (fm_CreatedAt m0 = None);
          created = (case fm_CreatedAt m0 of Some t \<Rightarrow> t | None \<Rightarrow> time_Now E w);
          m1 = m0\<lparr>fm_CreatedAt := Some created\<rparr>;
          m2 = (if fm_MaxRetries m1 \<le> 0 then m1\<lparr>fm_MaxRetries := h_maxRetries h\<rparr> else m1) in
      if initialEnqueue \<and> fm_RetryCount m2 < fm_MaxRetries m2
      then m2\<lparr>fm_NextRetryAt := Some (created + backoffDuration E (fm_RetryCount m2) w)\<rparr>
      else m2)"

text \<open>The effective tenant, and the message with it.\<close>

definition resolveAndValidateTenant ::
  "tenant_context \<Rightarrow> FailedMessage \<Rightarrow> dlq_error + string \<times> FailedMessage" where
  "resolveAndValidateTenant ctx m0 =
     (let ctxTenant = GetTenantIDContext ctx;
          effectiveTenant = (if fm_TenantID m0 = [] then ctxTenant else fm_TenantID m0);
          m = m0\<lparr>fm_TenantID := effectiveTenant\<rparr> in
      if effectiveTenant \<noteq> [] \<and> ctxTenant \<noteq> [] \<and> effectiveTenant \<noteq> ctxTenant then Inl ErrTenantMismatch
      else if effectiveTenant \<noteq> [] then
        bind_res (validateKeySegment effectiveTenant) (\<lambda>_. Inr (effectiveTenant, m))
      else Inr (effectiveTenant, m))"

text \<open>\<open>RPUSH\<close> on a client that may have to be connected first.\<close>

definition push :: "'w dlq_env \<Rightarrow> string \<Rightarrow> string \<Rightarrow> 'w \<Rightarrow> (dlq_error + unit) \<times> 'w" where
  "push E key d w =
     (let (connected, w1) = GetClient E w in
      if \<not> connected then (Inl ErrRedisClient, w1)
      else (let (pushed, w2) = RPush E key d w1 in (refuse (\<not> pushed) ErrRedis, w2)))"

definition Enqueue ::
  "'w dlq_env \<Rightarrow> dlq_handler option \<Rightarrow> tenant_context \<Rightarrow> FailedMessage option \<Rightarrow> 'w \<Rightarrow> (dlq_error + unit) \<times> 'w" where
  "Enqueue E handler ctx msg w =
     (case handler of
        None \<Rightarrow> (Inl ErrNilHandler, w)
      | Some h \<Rightarrow>
          (case (validateEnqueueMessage msg, msg) of
             (Inl e, _) \<Rightarrow> (Inl e, w)
           | (Inr _, None) \<Rightarrow> (Inl ErrNilMessage, w)
           | (Inr _, Some m0) \<Rightarrow>
               (case resolveAndValidateTenant ctx (stampInitialEnqueue E h m0 w) of
                  Inl e \<Rightarrow> (Inl e, w)
                | Inr (effectiveTenant, m) \<Rightarrow>
                    (case json_Marshal E m of
                       None \<Rightarrow> (Inl ErrMarshal, w)
                     | Some d \<Rightarrow>
                         (let key = tenantScopedKeyForTenant h effectiveTenant (fm_Source m) in
                          if key = [] then (Inl ErrEmptyKey, w) else push E key d w)))))"

definition Dequeue ::
  "'w dlq_env \<Rightarrow> dlq_handler option \<Rightarrow> tenant_context \<Rightarrow> string \<Rightarrow> 'w \<Rightarrow> (dlq_error + FailedMessage) \<times> 'w" where
  "Dequeue E handler ctx source w =
     (case handler of
        None \<Rightarrow> (Inl ErrNilHandler, w)
      | Some h \<Rightarrow>
          (case validateSource source of
             Inl e \<Rightarrow> (Inl e, w)
           | Inr _ \<Rightarrow>
               (let key = tenantScopedKey h ctx source in
                if key = [] then (Inl ErrEmptyKey, w)
                else
                  (let (connected, w1) = GetClient E w in
                   if \<not> connected then (Inl ErrRedisClient, w1)
                   else
                     (case LPop E key w1 of
                        (PopFailed, w2) \<Rightarrow> (Inl ErrRedis, w2)
                      | (PopNil, w2) \<Rightarrow> (Inl ErrRedisNil, w2)
                      | (Popped d, w2) \<Rightarrow>
                          (case json_Unmarshal E d of
                             None \<Rightarrow> (Inl ErrUnmarshal, w2)
                           | Some m \<Rightarrow> (Inr (m\<lparr>fm_Source := source\<rparr>), w2)))))))"

definition QueueLength ::
  "'w dlq_env \<Rightarrow> dlq_handler option \<Rightarrow> tenant_context \<Rightarrow> string \<Rightarrow> 'w \<Rightarrow> (dlq_error + int) \<times> 'w" where
  "QueueLength E handler ctx source w =
     (case handler of
        None \<Rightarrow> (Inl ErrNilHandler, w)
      | Some h \<Rightarrow>
          (case validateSource source of
             Inl e \<Rightarrow> (Inl e, w)
           | Inr _ \<Rightarrow>
               (let key = tenantScopedKey h ctx source in
                if key = [] then (Inl ErrEmptyKey, w)
                else
                  (let (connected, w1) = GetClient E w in
                   if \<not> connected then (Inl ErrRedisClient, w1)
                   else
                     (case LLen E key w1 of
                        (None, w2) \<Rightarrow> (Inl ErrRedis, w2)
                      | (Some n, w2) \<Rightarrow> (Inr n, w2))))))"

text \<open>
  The \<open>SCAN\<close> loop ends when Redis returns the cursor 0; if it never does, the loop does not end and
  the result is \<open>None\<close>.
\<close>

partial_function (option) scan_loop ::
  "'w dlq_env \<Rightarrow> string \<Rightarrow> string \<Rightarrow> nat \<Rightarrow> string list \<Rightarrow> 'w \<Rightarrow> ((dlq_error + string list) \<times> 'w) option" where
  "scan_loop E pattern globalKey cursor keys w =
     (case Scan E cursor pattern w of
        (None, w1) \<Rightarrow> Some (Inl ErrRedis, w1)
      | (Some (batch, cursor'), w1) \<Rightarrow>
          (let keys' = keys @ filter (\<lambda>key. key \<noteq> globalKey) batch in
           if cursor' = 0 then Some (Inr keys', w1)
           else scan_loop E pattern globalKey cursor' keys' w1))"

definition ScanQueues ::
  "'w dlq_env \<Rightarrow> dlq_handler option \<Rightarrow> string \<Rightarrow> 'w \<Rightarrow> ((dlq_error + string list) \<times> 'w) option" where
  "ScanQueues E handler source w =
     (case handler of
        None \<Rightarrow> Some (Inl ErrNilHandler, w)
      | Some h \<Rightarrow>
          (case validateSource source of
             Inl e \<Rightarrow> Some (Inl e, w)
           | Inr _ \<Rightarrow>
               (let (connected, w1) = GetClient E w in
                if \<not> connected then Some (Inl ErrRedisClient, w1)
                else scan_loop E (h_keyPrefix h @ ''*:'' @ source) (h_keyPrefix h @ source) 0 [] w1)))"

text \<open>The context under which a message goes back: that of its own tenant.\<close>

definition restore_tenant :: "tenant_context \<Rightarrow> FailedMessage \<Rightarrow> tenant_context" where
  "restore_tenant ctx m =
     (if fm_TenantID m \<noteq> [] \<and> GetTenantIDContext ctx \<noteq> fm_TenantID m
      then core_ContextWithTenantID ctx (fm_TenantID m) else ctx)"

fun prune_loop ::
  "'w dlq_env \<Rightarrow> dlq_handler \<Rightarrow> tenant_context \<Rightarrow> string \<Rightarrow> nat \<Rightarrow> int \<Rightarrow> 'w \<Rightarrow> int \<times> dlq_error option \<times> 'w" where
  "prune_loop E h ctx source 0 pruned w = (pruned, None, w)"
| "prune_loop E h ctx source (Suc k) pruned w =
     (case Dequeue E (Some h) ctx source w of
        (Inl e, w1) \<Rightarrow> if e = ErrRedisNil then (pruned, None, w1) else (pruned, Some e, w1)
      | (Inr m, w1) \<Rightarrow>
          if fm_MaxRetries m \<le> fm_RetryCount m then prune_loop E h ctx source k (pruned + 1) w1
          else
            (case Enqueue E (Some h) (restore_tenant ctx m) (Some m) w1 of
               (Inl e, w2) \<Rightarrow> (pruned, Some e, w2)
             | (Inr _, w2) \<Rightarrow> prune_loop E h ctx source k pruned w2))"

definition PruneExhaustedMessages ::
  "'w dlq_env \<Rightarrow> dlq_handler option \<Rightarrow> tenant_context \<Rightarrow> string \<Rightarrow> int \<Rightarrow> 'w \<Rightarrow> int \<times> dlq_error option \<times> 'w" where
  "PruneExhaustedMessages E handler ctx source limit w =
     (case handler of
        None \<Rightarrow> (0, Some ErrNilHandler, w)
      | Some h \<Rightarrow>
          (case validateSource source of
             Inl e \<Rightarrow> (0, Some e, w)
           | Inr _ \<Rightarrow> if limit \<le> 0 then (0, None, w) else prune_loop E h ctx source (nat limit) 0 w))"


subsection \<open>Consumer\<close>

text \<open>\<open>RetryFunc\<close> receives a pointer: it returns the message as it leaves it.\<close>

record 'w dlq_consumer =
  c_handler :: dlq_handler
  c_retryFunc :: "tenant_context \<Rightarrow> FailedMessage \<Rightarrow> 'w \<Rightarrow> retry_result \<times> FailedMessage \<times> 'w"
  c_PollInterval :: int
  c_BatchSize :: int
  c_Sources :: "string list"

type_synonym 'w consumer_option = "('w dlq_consumer \<Rightarrow> 'w dlq_consumer) option"

definition WithPollInterval :: "int \<Rightarrow> 'w consumer_option" where
  "WithPollInterval d = Some (\<lambda>c. if 0 < d then c\<lparr>c_PollInterval := d\<rparr> else c)"

definition WithBatchSize :: "int \<Rightarrow> 'w consumer_option" where
  "WithBatchSize n = Some (\<lambda>c. if 0 < n then c\<lparr>c_BatchSize := n\<rparr> else c)"

definition WithSources :: "string list \<Rightarrow> 'w consumer_option" where
  "WithSources sources = Some (\<lambda>c. if sources \<noteq> [] then c\<lparr>c_Sources := sources\<rparr> else c)"

definition NewConsumer ::
  "dlq_handler option \<Rightarrow> (tenant_context \<Rightarrow> FailedMessage \<Rightarrow> 'w \<Rightarrow> retry_result \<times> FailedMessage \<times> 'w) option \<Rightarrow>
   'w consumer_option list \<Rightarrow> dlq_error + 'w dlq_consumer" where
  "NewConsumer handler retryFn opts =
     (case handler of
        None \<Rightarrow> Inl ErrNilHandler
      | Some h \<Rightarrow>
          (case retryFn of
             None \<Rightarrow> Inl ErrNilRetryFunc
           | Some f \<Rightarrow>
               Inr (foldl (\<lambda>c opt. case opt of Some g \<Rightarrow> g c | None \<Rightarrow> c)
                 \<lparr>c_handler = h, c_retryFunc = f, c_PollInterval = 30000000000, c_BatchSize = 10,
                  c_Sources = []\<rparr> opts)))"

definition sanitizeMetricSource :: "'w dlq_consumer \<Rightarrow> string \<Rightarrow> string" where
  "sanitizeMetricSource C source = (if source \<in> set (c_Sources C) then source else ''unknown'')"

definition safeRetryFunc ::
  "'w dlq_consumer \<Rightarrow> tenant_context \<Rightarrow> FailedMessage \<Rightarrow> 'w \<Rightarrow> string option \<times> FailedMessage \<times> 'w" where
  "safeRetryFunc C ctx m w =
     (case c_retryFunc C ctx m w of
        (RetryOk, m', w') \<Rightarrow> (None, m', w')
      | (RetryFailed e, m', w') \<Rightarrow> (Some e, m', w')
      | (RetryPanicked r, m', w') \<Rightarrow> (Some (''dlq consumer: retryFunc panicked: '' @ r), m', w'))"

definition processMessage ::
  "'w dlq_env \<Rightarrow> 'w dlq_consumer \<Rightarrow> tenant_context \<Rightarrow> FailedMessage \<Rightarrow> 'w \<Rightarrow> bool \<times> 'w" where
  "processMessage E C ctx0 m w =
     (let ctx = restore_tenant ctx0 m;
          now = time_Now E w in
      if (case fm_NextRetryAt m of Some t \<Rightarrow> now < t | None \<Rightarrow> False) then
        (case Enqueue E (Some (c_handler C)) ctx (Some m) w of
           (Inl _, w1) \<Rightarrow> (True, RecordLost E (sanitizeMetricSource C (fm_Source m)) w1)
         | (Inr _, w1) \<Rightarrow> (False, w1))
      else if fm_MaxRetries m \<le> fm_RetryCount m then
        (True, RecordExhausted E (sanitizeMetricSource C (fm_Source m)) w)
      else
        (case safeRetryFunc C ctx m w of
           (Some retryErr, m1, w1) \<Rightarrow>
             (let m2 = m1\<lparr>fm_RetryCount := wrap64 (fm_RetryCount m1 + 1)\<rparr>;
                  m3 = m2\<lparr>fm_ErrorMessage := retryErr,
                          fm_NextRetryAt := Some (time_Now E w1 + backoffDuration E (fm_RetryCount m2) w1)\<rparr> in
              (case Enqueue E (Some (c_handler C)) ctx (Some m3) w1 of
                 (Inl _, w2) \<Rightarrow> (True, RecordLost E (sanitizeMetricSource C (fm_Source m3)) w2)
               | (Inr _, w2) \<Rightarrow> (True, w2)))
         | (None, m1, w1) \<Rightarrow> (True, RecordRetried E (sanitizeMetricSource C (fm_Source m1)) w1)))"

text \<open>The rotations of \<open>drainSource\<close>: whether to return, to count a message, or to go on.\<close>

datatype rotation = Rot_return | Rot_processed | Rot_done

fun rotate_queue ::
  "'w dlq_env \<Rightarrow> 'w dlq_consumer \<Rightarrow> tenant_context \<Rightarrow> string \<Rightarrow> nat \<Rightarrow> 'w \<Rightarrow> rotation \<times> 'w" where
  "rotate_queue E C ctx source 0 w = (Rot_done, w)"
| "rotate_queue E C ctx source (Suc k) w =
     (if ctx_Done E w then (Rot_return, w)
      else
        (case Dequeue E (Some (c_handler C)) ctx source w of
           (Inl _, w1) \<Rightarrow> (Rot_return, w1)
         | (Inr m, w1) \<Rightarrow>
             (let (worked, w2) = processMessage E C ctx m w1 in
              if worked then (Rot_processed, w2) else rotate_queue E C ctx source k w2)))"

fun drainSource ::
  "'w dlq_env \<Rightarrow> 'w dlq_consumer \<Rightarrow> tenant_context \<Rightarrow> string \<Rightarrow> nat \<Rightarrow> int \<Rightarrow> 'w \<Rightarrow> int \<times> 'w" where
  "drainSource E C ctx source 0 processed w = (processed, w)"
| "drainSource E C ctx source (Suc k) processed w =
     (if ctx_Done E w then (processed, w)
      else
        (case QueueLength E (Some (c_handler C)) ctx source w of
           (Inl _, w1) \<Rightarrow> (processed, w1)
         | (Inr qLen, w1) \<Rightarrow>
             if qLen = 0 then (processed, w1)
             else
               (case rotate_queue E C ctx source (nat (min qLen (c_BatchSize C))) w1 of
                  (Rot_return, w2) \<Rightarrow> (processed, w2)
                | (Rot_processed, w2) \<Rightarrow> drainSource E C ctx source k (processed + 1) w2
                | (Rot_done, w2) \<Rightarrow> drainSource E C ctx source k processed w2)))"

text \<open>
  One pass over the queues of a source: the drains so far, whether one of them did something,
  whether the context has ended.
\<close>

fun drain_round ::
  "'w dlq_env \<Rightarrow> 'w dlq_consumer \<Rightarrow> string \<Rightarrow> tenant_context list \<Rightarrow> int \<Rightarrow> bool \<Rightarrow> 'w \<Rightarrow> int \<times> bool \<times> bool \<times> 'w" where
  "drain_round E C source [] processed progressed w = (processed, progressed, False, w)"
| "drain_round E C source (keyCtx # rest) processed progressed w =
     (if c_BatchSize C \<le> processed then (processed, progressed, False, w)
      else if ctx_Done E w then (processed, progressed, True, w)
      else
        (let (n, w1) = drainSource E C keyCtx source 1 0 w in
         drain_round E C source rest (processed + 1) (progressed \<or> 0 < n) w1))"

lemma drain_round_processed:
  "drain_round E C source ctxs p g w = (p', g', s', w') \<Longrightarrow> p \<le> p' \<and> (g' \<longrightarrow> g \<or> p < p')"
proof (induction ctxs arbitrary: p g w)
  case (Cons k ks)
  then show ?case by (fastforce split: if_splits prod.splits)
qed simp

function drain_rounds ::
  "'w dlq_env \<Rightarrow> 'w dlq_consumer \<Rightarrow> string \<Rightarrow> tenant_context list \<Rightarrow> int \<Rightarrow> 'w \<Rightarrow> 'w" where
  "drain_rounds E C source ctxs processed w =
     (if processed < c_BatchSize C then
        (case drain_round E C source ctxs processed False w of
           (processed', progressed, stopped, w1) \<Rightarrow>
             if stopped \<or> \<not> progressed then w1 else drain_rounds E C source ctxs processed' w1)
      else w)"
  by pat_completeness auto
termination
  by (relation "measure (\<lambda>(E, C, source, ctxs, processed, w). nat (c_BatchSize C - processed))")
    (auto dest!: drain_round_processed [OF sym])

declare drain_rounds.simps [simp del]

definition processSource ::
  "'w dlq_env \<Rightarrow> 'w dlq_consumer \<Rightarrow> tenant_context \<Rightarrow> string \<Rightarrow> 'w \<Rightarrow> 'w option" where
  "processSource E C ctx source w =
     (case ScanQueues E (Some (c_handler C)) source w of
        None \<Rightarrow> None
      | Some (Inl _, w1) \<Rightarrow> Some w1
      | Some (Inr tenantKeys, w1) \<Rightarrow>
          (let tenants = filter (\<lambda>t. t \<noteq> []) (map (\<lambda>key. ExtractTenantFromKey (Some (c_handler C)) key source) tenantKeys);
               keyContexts = map (core_ContextWithTenantID ctx) tenants in
           Some (drain_rounds E C source (if keyContexts = [] then [ctx] else keyContexts) 0 w1)))"

primrec processOnce ::
  "'w dlq_env \<Rightarrow> 'w dlq_consumer \<Rightarrow> tenant_context \<Rightarrow> string list \<Rightarrow> 'w \<Rightarrow> 'w option" where
  "processOnce E C ctx [] w = Some w"
| "processOnce E C ctx (source # sources) w =
     Option.bind (processSource E C ctx source w) (processOnce E C ctx sources)"

definition ProcessOnce :: "'w dlq_env \<Rightarrow> 'w dlq_consumer option \<Rightarrow> tenant_context \<Rightarrow> 'w \<Rightarrow> 'w option" where
  "ProcessOnce E consumer ctx w =
     (case consumer of None \<Rightarrow> Some w | Some C \<Rightarrow> processOnce E C ctx (c_Sources C) w)"

end
