(* ===== verification/Dlq_Laws.thy ===== *)
theory Dlq_Laws
  imports Dlq
begin

text \<open>
  What the dead letter queue guarantees: keys keep tenants and sources apart, the consumer calls the
  retry function at most as often as the retry budgets of the queued messages allow, and every
  message it takes from a queue is put back or recorded, apart from what a lost reply hides.
\<close>

subsection \<open>Keys\<close>

abbreviation segment_ok :: "string \<Rightarrow> bool" where
  "segment_ok s \<equiv> validateKeySegment s = Inr ()"

lemma segment_no_colon: "segment_ok s \<Longrightarrow> CHR '':'' \<notin> set s"
  by (auto simp: validateKeySegment_def list_ex_iff)

lemma split_at_colon:
  assumes "CHR '':'' \<notin> set t" "CHR '':'' \<notin> set t'"
  shows "t @ CHR '':'' # s = t' @ CHR '':'' # s' \<longleftrightarrow> t = t' \<and> s = s'"
proof
  assume e: "t @ CHR '':'' # s = t' @ CHR '':'' # s'"
  have "takeWhile (\<lambda>c. c \<noteq> CHR '':'') (u @ CHR '':'' # v) = u" if "CHR '':'' \<notin> set u" for u v
    using that by (subst takeWhile_append2) auto
  from this [OF assms(1), of s] this [OF assms(2), of s'] e have "t = t'" by simp
  with e show "t = t' \<and> s = s'" by simp
qed simp

lemma split_last_colon:
  assumes "x @ CHR '':'' # s = y @ CHR '':'' # s'" "CHR '':'' \<notin> set s" "CHR '':'' \<notin> set s'"
  shows "s = s'"
proof -
  have "rev s @ CHR '':'' # rev x = rev s' @ CHR '':'' # rev y" using arg_cong [OF assms(1), of rev] by simp
  then show ?thesis using split_at_colon [of "rev s" "rev s'"] assms(2,3) by simp
qed

lemma colon_not_in_segments:
  assumes "CHR '':'' \<notin> set s"
  shows "s \<noteq> t @ CHR '':'' # u" "t @ CHR '':'' # u \<noteq> s"
  using assms by auto

lemma key_of_segments:
  assumes "segment_ok t"
  shows "tenantScopedKeyForTenant h t s = h_keyPrefix h @ (if t = [] then s else t @ CHR '':'' # s)"
  using assms by (simp add: tenantScopedKeyForTenant_def)

lemma key_inject:
  assumes "segment_ok t" "segment_ok t'" "segment_ok s" "segment_ok s'"
  shows "tenantScopedKeyForTenant h t s = tenantScopedKeyForTenant h t' s' \<longleftrightarrow> t = t' \<and> s = s'"
  using assms [THEN segment_no_colon] assms colon_not_in_segments [of s] colon_not_in_segments [of s']
    split_at_colon [of t t' s s']
  by (auto simp: key_of_segments split: if_splits)

lemma suffix_of_colon:
  assumes "CHR '':'' \<notin> set s'" "length s < length s'"
  shows "drop (length s' - Suc (length s)) s' \<noteq> CHR '':'' # s"
  using assms by (metis in_set_dropD list.set_intros(1))

lemma extract_key:
  assumes "segment_ok t" "segment_ok s" "segment_ok s'"
  shows "ExtractTenantFromKey (Some h) (tenantScopedKeyForTenant h t s') s = (if s = s' then t else [])"
proof (cases "t = []")
  case True
  have "drop (length s' - Suc (length s)) s' \<noteq> CHR '':'' # s" if "Suc (length s) < length s'"
    using suffix_of_colon [OF segment_no_colon [OF assms(3)]] that by simp
  then show ?thesis using True assms
    by (auto simp: ExtractTenantFromKey_def key_of_segments Let_def)
next
  case False
  let ?k = "h_keyPrefix h @ t @ CHR '':'' # s'"
  have same: "drop (length ?k - Suc (length s)) ?k = CHR '':'' # s \<longleftrightarrow> s = s'"
  proof
    assume d: "drop (length ?k - Suc (length s)) ?k = CHR '':'' # s"
    have "take (length ?k - Suc (length s)) ?k @ CHR '':'' # s = (h_keyPrefix h @ t) @ CHR '':'' # s'"
      using append_take_drop_id [of "length ?k - Suc (length s)" ?k] unfolding d by simp
    then show "s = s'" by (rule split_last_colon) (use assms segment_no_colon in auto)
  qed simp
  have key: "tenantScopedKeyForTenant h t s' = ?k" using False assms by (simp add: key_of_segments)
  show ?thesis
    using False same unfolding key by (auto simp: ExtractTenantFromKey_def Let_def)
qed

text \<open>
  The queues of different tenants and sources never share a Redis key, the global queue of a
  source included, and the tenant can be read back from the key: for the queue of another source
  nothing is found.\<close>

theorem dlq_keys_keep_queues_apart:
  assumes "segment_ok t" "segment_ok t'" "segment_ok s" "segment_ok s'"
  shows "(tenantScopedKeyForTenant h t s = tenantScopedKeyForTenant h t' s' \<longleftrightarrow> t = t' \<and> s = s') \<and>
    ExtractTenantFromKey (Some h) (tenantScopedKeyForTenant h t s') s = (if s = s' then t else [])"
  using key_inject [OF assms] extract_key [OF assms(1,3,4)] by simp

theorem dlq_keys_keep_queues_apart_witness:
  "ExtractTenantFromKey (Some \<lparr>h_keyPrefix = ''dlq:'', h_maxRetries = 3\<rparr>) ''dlq:tenant-a:outbound'' ''outbound'' = ''tenant-a''"
proof -
  have "segment_ok ''tenant-a''" "segment_ok ''b''" "segment_ok ''outbound''"
    by (simp_all add: validateKeySegment_def)
  from dlq_keys_keep_queues_apart [OF this(1,2,3,3), of "\<lparr>h_keyPrefix = ''dlq:'', h_maxRetries = 3\<rparr>"]
  show ?thesis by (simp add: key_of_segments [OF \<open>segment_ok ''tenant-a''\<close>])
qed

subsection \<open>What holds along every poll\<close>

text \<open>A relation between worlds that every step of the consumer respects.\<close>

definition consumer_steps :: "'w dlq_env \<Rightarrow> 'w dlq_consumer \<Rightarrow> ('w \<Rightarrow> 'w \<Rightarrow> bool) \<Rightarrow> bool" where
  "consumer_steps E C R \<longleftrightarrow>
     (\<forall>w. R w w) \<and> (\<forall>u v w. R u v \<longrightarrow> R v w \<longrightarrow> R u w) \<and>
     (\<forall>ctx source w e w1. Dequeue E (Some (c_handler C)) ctx source w = (Inl e, w1) \<longrightarrow> R w w1) \<and>
     (\<forall>ctx source w m w1. Dequeue E (Some (c_handler C)) ctx source w = (Inr m, w1) \<longrightarrow>
        R w (snd (processMessage E C ctx m w1))) \<and>
     (\<forall>ctx source w. R w (snd (QueueLength E (Some (c_handler C)) ctx source w))) \<and>
     (\<forall>source w r w1. ScanQueues E (Some (c_handler C)) source w = Some (r, w1) \<longrightarrow> R w w1)"

lemmas steps_unfold = consumer_steps_def [THEN iffD1]
lemmas steps_refl = steps_unfold [THEN conjunct1, rule_format]
lemmas steps_trans = steps_unfold [THEN conjunct2, THEN conjunct1, rule_format]
lemmas steps_refused = steps_unfold [THEN conjunct2, THEN conjunct2, THEN conjunct1, rule_format]
lemmas steps_message = steps_unfold [THEN conjunct2, THEN conjunct2, THEN conjunct2, THEN conjunct1, rule_format]
lemmas steps_length =
  steps_unfold [THEN conjunct2, THEN conjunct2, THEN conjunct2, THEN conjunct2, THEN conjunct1, rule_format]
lemmas steps_scan =
  steps_unfold [THEN conjunct2, THEN conjunct2, THEN conjunct2, THEN conjunct2, THEN conjunct2, rule_format]

lemma rotate_queue_steps:
  assumes "consumer_steps E C R"
  shows "R w (snd (rotate_queue E C ctx source k w))"
proof (induction k arbitrary: w)
  case 0
  then show ?case by (simp add: steps_refl [OF assms])
next
  case (Suc k)
  obtain r w1 where d: "Dequeue E (Some (c_handler C)) ctx source w = (r, w1)" by (cases "Dequeue E (Some (c_handler C)) ctx source w")
  show ?case
  proof (cases r)
    case (Inl e)
    then show ?thesis using steps_refused [OF assms] steps_refl [OF assms] d by simp
  next
    case (Inr m)
    have step: "R w (snd (processMessage E C ctx m w1))" using steps_message [OF assms] d Inr by simp
    moreover have "R w (snd (rotate_queue E C ctx source k (snd (processMessage E C ctx m w1))))"
      by (rule steps_trans [OF assms step Suc.IH])
    moreover have "R w w" by (rule steps_refl [OF assms])
    ultimately show ?thesis using d Inr by (simp add: case_prod_beta)
  qed
qed

lemma drainSource_steps:
  assumes "consumer_steps E C R"
  shows "R w (snd (drainSource E C ctx source k p w))"
proof (induction k arbitrary: w p)
  case 0
  then show ?case by (simp add: steps_refl [OF assms])
next
  case (Suc k)
  note refl = steps_refl [OF assms] and trans = steps_trans [OF assms]
  obtain r w1 where q: "QueueLength E (Some (c_handler C)) ctx source w = (r, w1)"
    by (cases "QueueLength E (Some (c_handler C)) ctx source w")
  have 1: "R w w1" using steps_length [OF assms, of w ctx source] q by simp
  show ?case
  proof (cases r)
    case (Inl e)
    then show ?thesis using q 1 refl by simp
  next
    case (Inr n)
    obtain o2 w2 where ro: "rotate_queue E C ctx source (nat (min n (c_BatchSize C))) w1 = (o2, w2)"
      by (cases "rotate_queue E C ctx source (nat (min n (c_BatchSize C))) w1")
    have 2: "R w w2" using trans [OF 1] rotate_queue_steps [OF assms, of w1 ctx source "nat (min n (c_BatchSize C))"] ro by simp
    then have "R w (snd (drainSource E C ctx source k p' w2))" for p' by (rule trans [OF _ Suc.IH])
    then show ?thesis using q Inr ro 1 2 refl by (simp split: rotation.split)
  qed
qed

lemma drain_round_steps:
  assumes "consumer_steps E C R" "drain_round E C source ctxs p g w = (p', g', s', w')"
  shows "R w w'"
  using assms(2)
proof (induction ctxs arbitrary: p g w)
  case Nil
  then show ?case by (simp add: steps_refl [OF assms(1)])
next
  case (Cons k ks)
  note refl = steps_refl [OF assms(1)] and trans = steps_trans [OF assms(1)]
  define w1 where "w1 = snd (drainSource E C k source 1 0 w)"
  have "R w w1" unfolding w1_def by (rule drainSource_steps [OF assms(1)])
  then have "drain_round E C source ks p1 g1 w1 = (p', g', s', w') \<Longrightarrow> R w w'" for p1 g1
    by (rule trans) (rule Cons.IH)
  then show ?case
    using Cons.prems refl by (auto simp: w1_def case_prod_beta split: if_splits)
qed

lemma drain_rounds_steps:
  assumes "consumer_steps E C R"
  shows "R w (drain_rounds E C source ctxs p w)"
  using assms
proof (induction E C source ctxs p w rule: drain_rounds.induct)
  case (1 E C source ctxs p w)
  note refl = steps_refl [OF 1(2)] and trans = steps_trans [OF 1(2)]
  obtain p1 g1 s1 w1 where d: "drain_round E C source ctxs p False w = (p1, g1, s1, w1)"
    by (cases "drain_round E C source ctxs p False w")
  have step: "R w w1" by (rule drain_round_steps [OF 1(2) d])
  show ?case
  proof (cases "p < c_BatchSize C \<and> \<not> (s1 \<or> \<not> g1)")
    case True
    then have "R w1 (drain_rounds E C source ctxs p1 w1)" using 1 d by auto
    then show ?thesis using True d trans [OF step] by (subst drain_rounds.simps) simp
  next
    case False
    then show ?thesis using d step refl by (subst drain_rounds.simps) auto
  qed
qed

lemma processSource_steps:
  assumes "consumer_steps E C R" "processSource E C ctx source w = Some w'"
  shows "R w w'"
proof -
  obtain r w1 where s: "ScanQueues E (Some (c_handler C)) source w = Some (r, w1)"
    using assms(2) by (auto simp: processSource_def split: option.splits)
  have 1: "R w w1" by (rule steps_scan [OF assms(1) s])
  note trans = steps_trans [OF assms(1)]
  show ?thesis
    using assms(2) s 1 trans [OF 1 drain_rounds_steps [OF assms(1)]] by (auto simp: processSource_def Let_def split: sum.splits)
qed

lemma processOnce_steps:
  assumes "consumer_steps E C R" "processOnce E C ctx sources w = Some w'"
  shows "R w w'"
  using assms(2)
proof (induction sources arbitrary: w)
  case Nil
  then show ?case by (simp add: steps_refl [OF assms(1)])
next
  case (Cons s ss)
  then obtain w1 where "processSource E C ctx s w = Some w1" "R w1 w'" by (auto simp: bind_eq_Some_conv)
  then show ?case using steps_trans [OF assms(1) processSource_steps [OF assms(1)]] by simp
qed

text \<open>Any number of polls.\<close>

primrec polls :: "'w dlq_env \<Rightarrow> 'w dlq_consumer \<Rightarrow> tenant_context \<Rightarrow> nat \<Rightarrow> 'w \<Rightarrow> 'w option" where
  "polls E C ctx 0 w = Some w"
| "polls E C ctx (Suc n) w = Option.bind (ProcessOnce E (Some C) ctx w) (polls E C ctx n)"

lemma polls_steps:
  assumes "consumer_steps E C R" "polls E C ctx n w = Some w'"
  shows "R w w'"
  using assms(2)
proof (induction n arbitrary: w)
  case 0
  then show ?case by (simp add: steps_refl [OF assms(1)])
next
  case (Suc n)
  then obtain w1 where "ProcessOnce E (Some C) ctx w = Some w1" "R w1 w'" by (auto simp: bind_eq_Some_conv)
  then show ?case using steps_trans [OF assms(1) processOnce_steps [OF assms(1)]] by (simp add: ProcessOnce_def)
qed

subsection \<open>What the environment is relied on for\<close>

text \<open>
  Redis lists: \<open>entries w\<close> is everything queued, as pairs of key and value in the order of arrival.
  A command that fails may or may not have been carried out.
\<close>

fun pop_entry :: "'k \<Rightarrow> ('k \<times> 'v) list \<Rightarrow> ('v \<times> ('k \<times> 'v) list) option" where
  "pop_entry k [] = None"
| "pop_entry k ((k', d) # es) =
     (if k' = k then Some (d, es) else map_option (\<lambda>(d', es'). (d', (k', d) # es')) (pop_entry k es))"

definition redis_lists :: "'w dlq_env \<Rightarrow> ('w \<Rightarrow> (string \<times> string) list) \<Rightarrow> bool" where
  "redis_lists E entries \<longleftrightarrow>
     (\<forall>w. entries (snd (GetClient E w)) = entries w) \<and>
     (\<forall>k d w ok w'. RPush E k d w = (ok, w') \<longrightarrow>
        entries w' = entries w @ [(k, d)] \<or> \<not> ok \<and> entries w' = entries w) \<and>
     (\<forall>k w w'. LPop E k w = (PopNil, w') \<longrightarrow> entries w' = entries w) \<and>
     (\<forall>k w d w'. LPop E k w = (Popped d, w') \<longrightarrow> pop_entry k (entries w) = Some (d, entries w')) \<and>
     (\<forall>k w w'. LPop E k w = (PopFailed, w') \<longrightarrow>
        entries w' = entries w \<or> (\<exists>d. pop_entry k (entries w) = Some (d, entries w'))) \<and>
     (\<forall>k w. entries (snd (LLen E k w)) = entries w) \<and>
     (\<forall>c p w. entries (snd (Scan E c p w)) = entries w) \<and>
     (\<forall>s w. entries (RecordRetried E s w) = entries w \<and> entries (RecordExhausted E s w) = entries w \<and>
        entries (RecordLost E s w) = entries w)"

text \<open>JSON: what was encoded decodes, its counters come back, and counters are machine integers.\<close>

definition json_counters :: "'w dlq_env \<Rightarrow> bool" where
  "json_counters E \<longleftrightarrow>
     (\<forall>m d. json_Marshal E m = Some d \<longrightarrow>
        (\<exists>m'. json_Unmarshal E d = Some m' \<and> fm_RetryCount m' = fm_RetryCount m \<and> fm_MaxRetries m' = fm_MaxRetries m)) \<and>
     (\<forall>m d. json_Unmarshal E d = Some m \<longrightarrow> in_int64 (fm_RetryCount m) \<and> in_int64 (fm_MaxRetries m))"

text \<open>An observation that the commands leave alone.\<close>

definition commands_keep :: "'w dlq_env \<Rightarrow> ('w \<Rightarrow> 'a) \<Rightarrow> bool" where
  "commands_keep E f \<longleftrightarrow>
     (\<forall>w. f (snd (GetClient E w)) = f w) \<and> (\<forall>k d w. f (snd (RPush E k d w)) = f w) \<and>
     (\<forall>k w. f (snd (LPop E k w)) = f w) \<and> (\<forall>k w. f (snd (LLen E k w)) = f w) \<and>
     (\<forall>c p w. f (snd (Scan E c p w)) = f w)"

text \<open>The number of calls of the retry function, which leaves the queues and the counters alone.\<close>

definition calls_counted ::
  "'w dlq_env \<Rightarrow> 'w dlq_consumer \<Rightarrow> ('w \<Rightarrow> (string \<times> string) list) \<Rightarrow> ('w \<Rightarrow> nat) \<Rightarrow> bool" where
  "calls_counted E C entries calls \<longleftrightarrow>
     (\<forall>ctx m w r m' w'. c_retryFunc C ctx m w = (r, m', w') \<longrightarrow>
        calls w' = Suc (calls w) \<and> entries w' = entries w \<and>
        fm_RetryCount m' = fm_RetryCount m \<and> fm_MaxRetries m' = fm_MaxRetries m) \<and>
     commands_keep E calls \<and>
     (\<forall>s w. calls (RecordRetried E s w) = calls w \<and> calls (RecordExhausted E s w) = calls w \<and>
        calls (RecordLost E s w) = calls w)"

text \<open>A \<open>SCAN\<close> iteration comes to an end: some measure of it goes down.\<close>

definition scans_end :: "'w dlq_env \<Rightarrow> (nat \<Rightarrow> 'w \<Rightarrow> nat) \<Rightarrow> bool" where
  "scans_end E left \<longleftrightarrow>
     (\<forall>c p w b c' w'. Scan E c p w = (Some (b, c'), w') \<longrightarrow> c' \<noteq> 0 \<longrightarrow> left c' w' < left c w)"

lemma scan_loop_returns:
  assumes "scans_end E left"
  shows "\<exists>r w'. scan_loop E p g c keys w = Some (r, w')"
proof (induction "left c w" arbitrary: c keys w rule: less_induct)
  case less
  obtain s w1 where s: "Scan E c p w = (s, w1)" by (cases "Scan E c p w")
  show ?case
  proof (cases s)
    case None
    then show ?thesis using s by (subst scan_loop.simps) simp
  next
    case (Some bc)
    then obtain b c' where bc: "s = Some (b, c')" by (cases bc) simp
    show ?thesis
    proof (cases "c' = 0")
      case True
      then show ?thesis using s bc by (subst scan_loop.simps) simp
    next
      case False
      then have "left c' w1 < left c w" using assms s bc by (auto simp: scans_end_def)
      from less [OF this] show ?thesis using s bc False by (subst scan_loop.simps) simp
    qed
  qed
qed

lemma polls_return:
  assumes "scans_end E left"
  shows "\<exists>w'. polls E C ctx n w = Some w'"
proof -
  have scan: "\<exists>r w1. ScanQueues E (Some h) source w = Some (r, w1)" for h source w
    using scan_loop_returns [OF assms]
    by (auto simp: ScanQueues_def case_prod_beta split: sum.split)
  have "\<exists>w'. processSource E C ctx source w = Some w'" for source w
    using scan [of "c_handler C" source w] by (auto simp: processSource_def Let_def split: sum.split)
  then have "\<exists>w'. processOnce E C ctx sources w = Some w'" for sources w
    by (induction sources arbitrary: w) (auto simp: bind_eq_Some_conv, blast)
  then show ?thesis
    by (induction n arbitrary: w) (auto simp: ProcessOnce_def bind_eq_Some_conv, blast)
qed

subsection \<open>What an operation does to the queues\<close>

definition stamped_max :: "dlq_handler \<Rightarrow> FailedMessage \<Rightarrow> int" where
  "stamped_max h m = (if fm_MaxRetries m \<le> 0 then h_maxRetries h else fm_MaxRetries m)"

lemma stamp_counters:
  "fm_RetryCount (stampInitialEnqueue E h m w) = fm_RetryCount m"
  "fm_MaxRetries (stampInitialEnqueue E h m w) = stamped_max h m"
  by (simp_all add: stampInitialEnqueue_def Let_def stamped_max_def)

lemma resolve_counters:
  assumes "resolveAndValidateTenant ctx m = Inr (t, m')"
  shows "fm_RetryCount m' = fm_RetryCount m" "fm_MaxRetries m' = fm_MaxRetries m"
  using assms by (auto simp: resolveAndValidateTenant_def Let_def bind_res_eq_Inr split: if_splits)

text \<open>A value that was enqueued for a message: its counters are those of the message, stamped.\<close>

definition encodes :: "'w dlq_env \<Rightarrow> dlq_handler \<Rightarrow> FailedMessage \<Rightarrow> string \<Rightarrow> bool" where
  "encodes E h m d \<longleftrightarrow>
     (\<exists>m'. json_Marshal E m' = Some d \<and> fm_RetryCount m' = fm_RetryCount m \<and> fm_MaxRetries m' = stamped_max h m)"

lemma is_InlI: "Inl e = r \<Longrightarrow> \<exists>e. r = Inl e"
  by auto

lemma push_entries:
  assumes "redis_lists E entries" "push E k d w = (r, w')"
  shows "entries w' = entries w @ [(k, d)] \<or> (\<exists>e. r = Inl e) \<and> entries w' = entries w"
proof -
  obtain c w1 where g: "GetClient E w = (c, w1)" by (cases "GetClient E w")
  have w1: "entries w1 = entries w" using assms(1) g unfolding redis_lists_def by (metis snd_conv)
  show ?thesis
  proof (cases c)
    case True
    obtain ok w2 where p: "RPush E k d w1 = (ok, w2)" by (cases "RPush E k d w1")
    then have "entries w2 = entries w1 @ [(k, d)] \<or> \<not> ok \<and> entries w2 = entries w1"
      using assms(1) unfolding redis_lists_def by metis
    then show ?thesis using assms(2) g True p w1 by (auto simp: push_def refuse_def split: if_splits)
  next
    case False
    then show ?thesis using assms(2) g w1 by (auto simp: push_def)
  qed
qed

lemma Enqueue_entries:
  assumes "redis_lists E entries" "Enqueue E (Some h) ctx (Some m) w = (r, w')"
  shows "(\<exists>k d. entries w' = entries w @ [(k, d)] \<and> encodes E h m d) \<or> (\<exists>e. r = Inl e) \<and> entries w' = entries w"
proof (cases "resolveAndValidateTenant ctx (stampInitialEnqueue E h m w)")
  case (Inl e)
  then show ?thesis using assms(2) by (cases "validateEnqueueMessage (Some m)") (auto simp: Enqueue_def intro: is_InlI)
next
  case (Inr tm)
  then obtain t m1 where t: "resolveAndValidateTenant ctx (stampInitialEnqueue E h m w) = Inr (t, m1)" by (cases tm) simp
  show ?thesis
  proof (cases "json_Marshal E m1")
    case None
    then show ?thesis using assms(2) t by (cases "validateEnqueueMessage (Some m)") (auto simp: Enqueue_def intro: is_InlI)
  next
    case (Some d)
    then have "encodes E h m d"
      using resolve_counters [OF t] by (auto simp: encodes_def stamp_counters)
    moreover have "r = Inl e \<and> w' = w \<or> push E (tenantScopedKeyForTenant h t (fm_Source m1)) d w = (r, w')"
      if "validateEnqueueMessage (Some m) = Inr ()" and "e = ErrEmptyKey" for e
      using assms(2) t Some that by (auto simp: Enqueue_def Let_def split: if_splits)
    moreover have "(\<exists>e. r = Inl e) \<and> w' = w" if "validateEnqueueMessage (Some m) = Inl e" for e
      using assms(2) that by (auto simp: Enqueue_def intro: is_InlI)
    ultimately show ?thesis
      using push_entries [OF assms(1)] by (cases "validateEnqueueMessage (Some m)") (auto, blast+)
  qed
qed


lemma Dequeue_entries:
  assumes "redis_lists E entries" "Dequeue E (Some h) ctx source w = (r, w')"
  shows "case r of
      Inl _ \<Rightarrow> entries w' = entries w \<or> (\<exists>k d. pop_entry k (entries w) = Some (d, entries w'))
    | Inr m \<Rightarrow> \<exists>k d m0. pop_entry k (entries w) = Some (d, entries w') \<and>
        json_Unmarshal E d = Some m0 \<and> m = m0\<lparr>fm_Source := source\<rparr>"
proof -
  obtain c w1 where g: "GetClient E w = (c, w1)" by (cases "GetClient E w")
  have w1: "entries w1 = entries w" using assms(1) g unfolding redis_lists_def by (metis snd_conv)
  obtain p w2 where p: "LPop E (tenantScopedKey h ctx source) w1 = (p, w2)"
    by (cases "LPop E (tenantScopedKey h ctx source) w1")
  have pop: "case p of PopNil \<Rightarrow> entries w2 = entries w1
    | Popped d \<Rightarrow> pop_entry (tenantScopedKey h ctx source) (entries w1) = Some (d, entries w2)
    | PopFailed \<Rightarrow> entries w2 = entries w1 \<or> (\<exists>d. pop_entry (tenantScopedKey h ctx source) (entries w1) = Some (d, entries w2))"
    using assms(1) p unfolding redis_lists_def by (cases p) auto
  show ?thesis
  proof (cases "validateSource source")
    case (Inl e)
    then show ?thesis using assms(2) by (auto simp: Dequeue_def)
  next
    case (Inr u)
    then have "(r, w') = (if tenantScopedKey h ctx source = [] then (Inl ErrEmptyKey, w)
        else if \<not> c then (Inl ErrRedisClient, w1)
        else (case p of PopFailed \<Rightarrow> (Inl ErrRedis, w2) | PopNil \<Rightarrow> (Inl ErrRedisNil, w2)
          | Popped d \<Rightarrow> (case json_Unmarshal E d of None \<Rightarrow> (Inl ErrUnmarshal, w2)
              | Some m \<Rightarrow> (Inr (m\<lparr>fm_Source := source\<rparr>), w2))))"
      unfolding assms(2) [symmetric] using g p by (simp add: Dequeue_def Let_def)
    then show ?thesis using pop w1 by (auto split: if_splits pop_result.splits option.splits)
  qed
qed

lemma QueueLength_entries:
  "redis_lists E entries \<Longrightarrow> entries (snd (QueueLength E (Some h) ctx source w)) = entries w"
  unfolding redis_lists_def
  by (auto simp: QueueLength_def Let_def split: sum.split prod.split option.split) (metis snd_conv)+


lemma commands_keepD:
  assumes "commands_keep E f"
  shows "GetClient E w = (c, w') \<Longrightarrow> f w' = f w" "RPush E k d w = (ok, w') \<Longrightarrow> f w' = f w"
    "LPop E k w = (p, w') \<Longrightarrow> f w' = f w" "LLen E k w = (n, w') \<Longrightarrow> f w' = f w"
    "Scan E cur pat w = (s, w') \<Longrightarrow> f w' = f w"
  using assms unfolding commands_keep_def by (metis snd_conv)+

lemma Enqueue_keeps:
  assumes "commands_keep E f"
  shows "f (snd (Enqueue E handler ctx msg w)) = f w"
  using commands_keepD [OF assms]
  by (auto simp: Enqueue_def push_def Let_def split: option.split sum.split prod.split)

lemma Dequeue_keeps:
  assumes "commands_keep E f"
  shows "f (snd (Dequeue E handler ctx source w)) = f w"
  using commands_keepD [OF assms]
  by (auto simp: Dequeue_def Let_def split: option.split sum.split prod.split pop_result.split)

lemma QueueLength_keeps:
  assumes "commands_keep E f"
  shows "f (snd (QueueLength E handler ctx source w)) = f w"
  using commands_keepD [OF assms]
  by (auto simp: QueueLength_def Let_def split: option.split sum.split prod.split)

lemma scan_loop_keeps:
  assumes keep: "\<And>c p w. f (snd (Scan E c p w)) = f w" and ret: "scan_loop E pat g c keys w = Some r"
  shows "f (snd r) = f w"
proof -
  have "E0 = E \<longrightarrow> f (snd r) = f w" if "scan_loop E0 pat g c keys w = Some r" for E0
  proof (rule scan_loop.raw_induct [where P = "\<lambda>E0 pat g c keys w r. E0 = E \<longrightarrow> f (snd r) = f w", OF _ that], intro impI)
    fix loop E0 pat g c keys w r
    assume IH: "\<And>E0 pat g c keys w r. loop E0 pat g c keys w = Some r \<Longrightarrow> E0 = E \<longrightarrow> f (snd r) = f w"
      and step: "(case Scan E0 c pat w of (None, w1) \<Rightarrow> Some (Inl ErrRedis, w1)
        | (Some (batch, cursor'), w1) \<Rightarrow>
          (let keys' = keys @ filter (\<lambda>key. key \<noteq> g) batch in
           if cursor' = 0 then Some (Inr keys', w1) else loop E0 pat g cursor' keys' w1)) = Some r"
      and "E0 = E"
    then show "f (snd r) = f w"
      using keep [of c pat w] by (auto simp: Let_def split: prod.splits option.splits if_splits)
  qed
  with ret show ?thesis by blast
qed

lemma ScanQueues_keeps:
  assumes "\<And>c p w. f (snd (Scan E c p w)) = f w" "\<And>w. f (snd (GetClient E w)) = f w"
    "ScanQueues E handler source w = Some (r, w')"
  shows "f w' = f w"
proof -
  have c: "GetClient E w = (b, w1) \<Longrightarrow> f w1 = f w" for b w1 using assms(2) [of w] by simp
  show ?thesis
    using assms(3) c scan_loop_keeps [where f = f and E = E, OF assms(1)]
    by (fastforce simp: ScanQueues_def split: option.splits sum.splits prod.splits if_splits)
qed

subsection \<open>The retry budget\<close>

definition msg_budget :: "dlq_handler \<Rightarrow> FailedMessage \<Rightarrow> nat" where
  "msg_budget h m = nat (stamped_max h m - fm_RetryCount m)"

definition entry_budget :: "'w dlq_env \<Rightarrow> dlq_handler \<Rightarrow> string \<times> string \<Rightarrow> nat" where
  "entry_budget E h e = (case json_Unmarshal E (snd e) of None \<Rightarrow> 0 | Some m \<Rightarrow> msg_budget h m)"

definition retry_budget :: "'w dlq_env \<Rightarrow> dlq_handler \<Rightarrow> (string \<times> string) list \<Rightarrow> nat" where
  "retry_budget E h es = sum_list (map (entry_budget E h) es)"

lemma pop_entry_budget:
  "pop_entry k es = Some (d, es') \<Longrightarrow> retry_budget E h es = retry_budget E h es' + entry_budget E h (k, d)"
  by (induction es arbitrary: es') (auto simp: retry_budget_def split: if_splits)

lemma encodes_budget:
  assumes "json_counters E" "encodes E h m d" "0 < h_maxRetries h"
  shows "entry_budget E h (k, d) = msg_budget h m"
proof -
  obtain m' where "json_Marshal E m' = Some d" "fm_RetryCount m' = fm_RetryCount m" "fm_MaxRetries m' = stamped_max h m"
    using assms(2) by (auto simp: encodes_def)
  moreover from this(1) assms(1) obtain m'' where "json_Unmarshal E d = Some m''"
    "fm_RetryCount m'' = fm_RetryCount m'" "fm_MaxRetries m'' = fm_MaxRetries m'"
    unfolding json_counters_def by blast
  ultimately show ?thesis using assms(3) by (simp add: entry_budget_def msg_budget_def stamped_max_def)
qed

lemma Enqueue_budget:
  assumes "redis_lists E entries" "json_counters E" "0 < h_maxRetries h"
    "Enqueue E (Some h) ctx (Some m) w = (r, w')"
  shows "retry_budget E h (entries w') \<le> retry_budget E h (entries w) + msg_budget h m"
  using Enqueue_entries [OF assms(1,4)] encodes_budget [OF assms(2) _ assms(3), of m]
  by (auto simp: retry_budget_def)

lemma Dequeue_budget:
  assumes "redis_lists E entries" "Dequeue E (Some h) ctx source w = (r, w')"
  shows "case r of
      Inl _ \<Rightarrow> retry_budget E h (entries w') \<le> retry_budget E h (entries w)
    | Inr m \<Rightarrow> retry_budget E h (entries w') + msg_budget h m = retry_budget E h (entries w)"
  using Dequeue_entries [OF assms]
  by (auto split: sum.splits dest!: pop_entry_budget [where E = E and h = h]
    simp: entry_budget_def msg_budget_def stamped_max_def)

lemma retry_spends:
  assumes "in_int64 (fm_RetryCount m)" "in_int64 (fm_MaxRetries m)" "fm_RetryCount m < fm_MaxRetries m"
    "0 < h_maxRetries h"
    "fm_RetryCount m1 = wrap64 (fm_RetryCount m + 1)" "fm_MaxRetries m1 = fm_MaxRetries m"
  shows "Suc (msg_budget h m1) = msg_budget h m"
proof -
  have "wrap64 (fm_RetryCount m + 1) = fm_RetryCount m + 1"
    using assms(1-3) by (intro wrap64_id) (auto simp: in_int64_def)
  then show ?thesis using assms by (simp add: msg_budget_def stamped_max_def) linarith
qed

lemma processMessage_budget:
  assumes "redis_lists E entries" "json_counters E" "calls_counted E C entries calls" "0 < h_maxRetries (c_handler C)"
    and ints: "in_int64 (fm_RetryCount m)" "in_int64 (fm_MaxRetries m)"
  shows "calls (snd (processMessage E C ctx m w)) + retry_budget E (c_handler C) (entries (snd (processMessage E C ctx m w)))
    \<le> calls w + retry_budget E (c_handler C) (entries w) + msg_budget (c_handler C) m"
proof -
  let ?h = "c_handler C" and ?ctx = "restore_tenant ctx m"
  have keep: "commands_keep E calls"
    and rec: "calls (RecordRetried E s v) = calls v" "calls (RecordExhausted E s v) = calls v" "calls (RecordLost E s v) = calls v"
    for s v using assms(3) by (simp_all add: calls_counted_def)
  have rece: "entries (RecordRetried E s v) = entries v" "entries (RecordExhausted E s v) = entries v"
      "entries (RecordLost E s v) = entries v" for s v using assms(1) by (simp_all add: redis_lists_def)
  have enq: "calls v' = calls v \<and> retry_budget E ?h (entries v') \<le> retry_budget E ?h (entries v) + msg_budget ?h n"
    if "Enqueue E (Some ?h) c (Some n) v = (r, v')" for c n v r v'
    using that Enqueue_budget [OF assms(1,2,4) that] Enqueue_keeps [OF keep, of "Some ?h" c "Some n" v] by simp
  consider (later) "\<exists>t. fm_NextRetryAt m = Some t \<and> time_Now E w < t"
    | (exhausted) "\<not> (\<exists>t. fm_NextRetryAt m = Some t \<and> time_Now E w < t)" "fm_MaxRetries m \<le> fm_RetryCount m"
    | (ready) "\<not> (\<exists>t. fm_NextRetryAt m = Some t \<and> time_Now E w < t)" "fm_RetryCount m < fm_MaxRetries m"
    by (metis not_less)
  then show ?thesis
  proof cases
    case later
    obtain r w1 where e: "Enqueue E (Some ?h) ?ctx (Some m) w = (r, w1)" by (cases "Enqueue E (Some ?h) ?ctx (Some m) w")
    show ?thesis using later e enq [OF e] by (cases r) (auto simp: processMessage_def Let_def rec rece)
  next
    case exhausted
    then have "processMessage E C ctx m w = (True, RecordExhausted E (sanitizeMetricSource C (fm_Source m)) w)"
      by (auto simp: processMessage_def Let_def split: option.split)
    then show ?thesis by (simp add: rec rece)
  next
    case ready
    obtain r m1 w1 where f: "c_retryFunc C ?ctx m w = (r, m1, w1)" by (cases "c_retryFunc C ?ctx m w")
    then have f': "calls w1 = Suc (calls w)" "entries w1 = entries w"
        "fm_RetryCount m1 = fm_RetryCount m" "fm_MaxRetries m1 = fm_MaxRetries m"
      using assms(3) unfolding calls_counted_def by blast+
    obtain err where s: "safeRetryFunc C ?ctx m w = (err, m1, w1)"
      using f by (cases r) (simp_all add: safeRetryFunc_def)
    show ?thesis
    proof (cases err)
      case None
      have "processMessage E C ctx m w = (True, RecordRetried E (sanitizeMetricSource C (fm_Source m1)) w1)"
        using ready s None by (auto simp: processMessage_def Let_def split: option.split)
      moreover have "0 < msg_budget ?h m" using ready assms(4) by (simp add: msg_budget_def stamped_max_def)
      ultimately show ?thesis using f' by (simp add: rec rece)
    next
      case (Some e)
      define m3 where "m3 = m1\<lparr>fm_RetryCount := wrap64 (fm_RetryCount m1 + 1), fm_ErrorMessage := e,
        fm_NextRetryAt := Some (time_Now E w1 + backoffDuration E (wrap64 (fm_RetryCount m1 + 1)) w1)\<rparr>"
      obtain r3 w3 where e3: "Enqueue E (Some ?h) ?ctx (Some m3) w1 = (r3, w3)" by (cases "Enqueue E (Some ?h) ?ctx (Some m3) w1")
      have "snd (processMessage E C ctx m w) = w3 \<or>
          snd (processMessage E C ctx m w) = RecordLost E (sanitizeMetricSource C (fm_Source m3)) w3"
        using ready s Some e3 unfolding m3_def
        by (cases r3) (auto simp: processMessage_def Let_def split: option.split)
      then have "calls (snd (processMessage E C ctx m w)) = calls w3" "entries (snd (processMessage E C ctx m w)) = entries w3"
        by (auto simp: rec rece)
      moreover have "Suc (msg_budget ?h m3) = msg_budget ?h m"
        by (rule retry_spends [OF ints ready(2) assms(4)]) (simp_all add: m3_def f')
      ultimately show ?thesis using enq [OF e3] f' by simp
    qed
  qed
qed

lemma budget_steps:
  assumes "redis_lists E entries" "json_counters E" "calls_counted E C entries calls" "0 < h_maxRetries (c_handler C)"
  shows "consumer_steps E C (\<lambda>w w'. calls w' + retry_budget E (c_handler C) (entries w')
    \<le> calls w + retry_budget E (c_handler C) (entries w))"
proof -
  let ?h = "c_handler C"
  have keep: "commands_keep E calls" using assms(3) by (simp add: calls_counted_def)
  have deq: "calls w' = calls w" if "Dequeue E (Some ?h) ctx source w = (r, w')" for ctx source w r w'
    using Dequeue_keeps [OF keep, of "Some ?h" ctx source w] that by simp
  have msg: "calls (snd (processMessage E C ctx m w1)) + retry_budget E ?h (entries (snd (processMessage E C ctx m w1)))
      \<le> calls w + retry_budget E ?h (entries w)"
    if d: "Dequeue E (Some ?h) ctx source w = (Inr m, w1)" for ctx source w m w1
  proof -
    have "in_int64 (fm_RetryCount m)" "in_int64 (fm_MaxRetries m)"
      using Dequeue_entries [OF assms(1) d] assms(2) by (auto simp: json_counters_def)
    from processMessage_budget [OF assms this, of ctx w1] show ?thesis
      using Dequeue_budget [OF assms(1) d] deq [OF d] by simp
  qed
  have scan: "calls w' = calls w \<and> entries w' = entries w" if "ScanQueues E (Some ?h) source w = Some (r, w')" for source w r w'
    using ScanQueues_keeps [of calls E "Some ?h" source w r w'] ScanQueues_keeps [of entries E "Some ?h" source w r w']
      keep assms(1) that by (simp add: commands_keep_def redis_lists_def)
  show ?thesis
    unfolding consumer_steps_def
    using msg deq Dequeue_budget [OF assms(1), where h = ?h] scan
      QueueLength_keeps [OF keep] QueueLength_entries [OF assms(1)]
    by (auto dest: order_trans) (fastforce)+
qed

text \<open>
  C32. Any number of polls ends, and together they call the retry function at most as often as the
  retry budgets of the messages queued at the start allow: every call uses up one retry of one
  message, whether it succeeds, fails or panics, and no re-enqueueing, early or late, gives a retry
  back. Commands of Redis may fail at any point.\<close>

theorem retries_within_budget:
  assumes "redis_lists E entries" "json_counters E" "calls_counted E C entries calls" "scans_end E left"
    and "0 < h_maxRetries (c_handler C)"
  shows "\<exists>w'. polls E C ctx n w = Some w' \<and>
    calls w' + retry_budget E (c_handler C) (entries w') \<le> calls w + retry_budget E (c_handler C) (entries w)"
proof -
  obtain w' where "polls E C ctx n w = Some w'" using polls_return [OF assms(4)] by blast
  with polls_steps [OF budget_steps [OF assms(1-3,5)] this] show ?thesis by blast
qed

subsection \<open>Every message is put back or recorded\<close>

definition outcomes_recorded ::
  "'w dlq_env \<Rightarrow> 'w dlq_consumer \<Rightarrow> ('w \<Rightarrow> (string \<times> string) list) \<Rightarrow> ('w \<Rightarrow> nat) \<Rightarrow> bool" where
  "outcomes_recorded E C entries recorded \<longleftrightarrow>
     commands_keep E recorded \<and>
     (\<forall>ctx m w r m' w'. c_retryFunc C ctx m w = (r, m', w') \<longrightarrow> recorded w' = recorded w \<and> entries w' = entries w) \<and>
     (\<forall>s w. recorded (RecordRetried E s w) = Suc (recorded w) \<and> recorded (RecordExhausted E s w) = Suc (recorded w) \<and>
        recorded (RecordLost E s w) = Suc (recorded w))"

text \<open>
  What leaves no record of the consumer's own, counted beside it: \<open>dropped\<close> are the values that a pop took from a queue
  although its reply was lost, and those that do not decode; \<open>unseen\<close> are the pushes that were carried
  out although they were reported as failed.
\<close>

definition outcomes_accounted ::
  "'w dlq_env \<Rightarrow> 'w dlq_consumer \<Rightarrow> ('w \<Rightarrow> (string \<times> string) list) \<Rightarrow> ('w \<Rightarrow> nat) \<Rightarrow> ('w \<Rightarrow> nat) \<Rightarrow> ('w \<Rightarrow> nat) \<Rightarrow> bool" where
  "outcomes_accounted E C entries recorded dropped unseen \<longleftrightarrow>
     outcomes_recorded E C entries recorded \<and>
     (\<forall>f\<in>{dropped, unseen}.
        (\<forall>w. f (snd (GetClient E w)) = f w) \<and> (\<forall>k w. f (snd (LLen E k w)) = f w) \<and> (\<forall>c p w. f (snd (Scan E c p w)) = f w) \<and>
        (\<forall>s w. f (RecordRetried E s w) = f w \<and> f (RecordExhausted E s w) = f w \<and> f (RecordLost E s w) = f w) \<and>
        (\<forall>ctx m w r m' w'. c_retryFunc C ctx m w = (r, m', w') \<longrightarrow> f w' = f w)) \<and>
     (\<forall>k d w ok w'. RPush E k d w = (ok, w') \<longrightarrow>
        dropped w' = dropped w \<and> unseen w' = unseen w + (if ok then 0 else length (entries w') - length (entries w))) \<and>
     (\<forall>k w r w'. LPop E k w = (r, w') \<longrightarrow>
        unseen w' = unseen w \<and>
        dropped w' = dropped w +
          (case r of PopNil \<Rightarrow> 0 | Popped d \<Rightarrow> if json_Unmarshal E d = None then 1 else 0 | PopFailed \<Rightarrow> length (entries w) - length (entries w')))"

definition tally ::
  "('w \<Rightarrow> (string \<times> string) list) \<Rightarrow> ('w \<Rightarrow> nat) \<Rightarrow> ('w \<Rightarrow> nat) \<Rightarrow> ('w \<Rightarrow> nat) \<Rightarrow> 'w \<Rightarrow> int" where
  "tally entries recorded dropped unseen w =
     int (length (entries w)) + int (recorded w) + int (dropped w) - int (unseen w)"

lemma pop_entry_length: "pop_entry k es = Some (d, es') \<Longrightarrow> length es = Suc (length es')"
  by (induction es arbitrary: es') (auto split: if_splits)

lemma quiet_balance:
  assumes "redis_lists E entries" and "outcomes_accounted E C entries recorded dropped unseen"
  shows "tally entries recorded dropped unseen (snd (GetClient E w)) = tally entries recorded dropped unseen w"
    and "tally entries recorded dropped unseen (snd (LLen E k w)) = tally entries recorded dropped unseen w"
    and "tally entries recorded dropped unseen (snd (Scan E c p w)) = tally entries recorded dropped unseen w"
    and "tally entries recorded dropped unseen (RecordRetried E s w) = tally entries recorded dropped unseen w + 1"
    and "tally entries recorded dropped unseen (RecordExhausted E s w) = tally entries recorded dropped unseen w + 1"
    and "tally entries recorded dropped unseen (RecordLost E s w) = tally entries recorded dropped unseen w + 1"
    and "c_retryFunc C ctx m w = (r, m', w') \<Longrightarrow>
      tally entries recorded dropped unseen w' = tally entries recorded dropped unseen w"
  using assms by (simp_all add: tally_def redis_lists_def outcomes_accounted_def outcomes_recorded_def commands_keep_def)

lemma push_balance:
  assumes "redis_lists E entries" and "outcomes_accounted E C entries recorded dropped unseen" and "push E k d w = (r, w')"
  shows "tally entries recorded dropped unseen w' =
    tally entries recorded dropped unseen w + (case r of Inl _ \<Rightarrow> 0 | Inr _ \<Rightarrow> 1)"
proof -
  obtain c w1 where g: "GetClient E w = (c, w1)" by force
  have b1: "tally entries recorded dropped unseen w1 = tally entries recorded dropped unseen w"
    using quiet_balance(1) [OF assms(1,2), of w] g by simp
  show ?thesis
  proof (cases c)
    case True
    obtain ok w2 where p: "RPush E k d w1 = (ok, w2)" by force
    have e: "entries w2 = entries w1 @ [(k, d)] \<or> \<not> ok \<and> entries w2 = entries w1"
      using assms(1) p unfolding redis_lists_def by metis
    have o: "dropped w2 = dropped w1" "unseen w2 = unseen w1 + (if ok then 0 else length (entries w2) - length (entries w1))"
      "recorded w2 = recorded w1"
      using assms(2) p unfolding outcomes_accounted_def outcomes_recorded_def commands_keep_def by (blast, blast, metis snd_conv)
    have r: "r = refuse (\<not> ok) ErrRedis" "w' = w2" using assms(3) g True p by (simp_all add: push_def)
    show ?thesis using e o r b1 by (cases ok) (auto simp: tally_def refuse_def)
  next
    case False
    then show ?thesis using assms(3) g b1 by (auto simp: push_def)
  qed
qed

lemma Enqueue_balance:
  assumes "redis_lists E entries" and "outcomes_accounted E C entries recorded dropped unseen"
    and "Enqueue E (Some h) ctx (Some m) w = (r, w')"
  shows "tally entries recorded dropped unseen w' =
    tally entries recorded dropped unseen w + (case r of Inl _ \<Rightarrow> 0 | Inr _ \<Rightarrow> 1)"
proof -
  have "(\<exists>e. r = Inl e) \<and> w' = w \<or> (\<exists>k d. push E k d w = (r, w'))"
    using assms(3) by (auto simp: Enqueue_def Let_def intro: is_InlI split: option.splits sum.splits prod.splits if_splits)
  then show ?thesis using push_balance [OF assms(1,2)] by auto
qed

lemma Dequeue_balance:
  assumes "redis_lists E entries" and "outcomes_accounted E C entries recorded dropped unseen"
    and "Dequeue E (Some h) ctx source w = (r, w')"
  shows "tally entries recorded dropped unseen w' =
    tally entries recorded dropped unseen w - (case r of Inl _ \<Rightarrow> 0 | Inr _ \<Rightarrow> 1)"
proof (cases "\<exists>e. validateSource source = Inl e \<or> tenantScopedKey h ctx source = []")
  case True
  then show ?thesis using assms(3) by (auto simp: Dequeue_def split: sum.splits if_splits)
next
  case False
  then obtain u where v: "validateSource source = Inr u" "tenantScopedKey h ctx source \<noteq> []" by (cases "validateSource source") auto
  obtain c w1 where g: "GetClient E w = (c, w1)" by force
  have b1: "tally entries recorded dropped unseen w1 = tally entries recorded dropped unseen w"
    using quiet_balance(1) [OF assms(1,2), of w] g by simp
  show ?thesis
  proof (cases c)
    case True
    obtain q w2 where p: "LPop E (tenantScopedKey h ctx source) w1 = (q, w2)" by force
    have o: "unseen w2 = unseen w1" "recorded w2 = recorded w1"
      "dropped w2 = dropped w1 +
        (case q of PopNil \<Rightarrow> 0 | Popped d \<Rightarrow> if json_Unmarshal E d = None then 1 else 0 | PopFailed \<Rightarrow> length (entries w1) - length (entries w2))"
      using assms(2) p unfolding outcomes_accounted_def outcomes_recorded_def commands_keep_def by (blast, metis snd_conv, blast)
    show ?thesis
    proof (cases q)
      case (Popped d)
      then have "length (entries w1) = Suc (length (entries w2))"
        using assms(1) p pop_entry_length unfolding redis_lists_def by metis
      then show ?thesis
        using assms(3) v g True p Popped o b1 by (auto simp: Dequeue_def Let_def tally_def split: option.splits)
    next
      case PopNil
      then have "entries w2 = entries w1" using assms(1) p unfolding redis_lists_def by metis
      then show ?thesis using assms(3) v g True p PopNil o b1 by (auto simp: Dequeue_def Let_def tally_def)
    next
      case PopFailed
      then have "length (entries w2) \<le> length (entries w1)"
        using assms(1) p pop_entry_length unfolding redis_lists_def by (metis le_Suc_eq order_refl)
      then show ?thesis using assms(3) v g True p PopFailed o b1 by (auto simp: Dequeue_def Let_def tally_def)
    qed
  next
    case False
    then show ?thesis using assms(3) v g b1 by (auto simp: Dequeue_def Let_def)
  qed
qed

lemma processMessage_balance:
  assumes "redis_lists E entries" and "outcomes_accounted E C entries recorded dropped unseen"
  shows "tally entries recorded dropped unseen (snd (processMessage E C ctx m w)) = tally entries recorded dropped unseen w + 1"
proof -
  let ?b = "tally entries recorded dropped unseen"
  note q = quiet_balance [OF assms]
  have enq: "?b v' = ?b v + (case r of Inl _ \<Rightarrow> 0 | Inr _ \<Rightarrow> 1)" if "Enqueue E (Some (c_handler C)) c (Some n) v = (r, v')" for c n v r v'
    by (rule Enqueue_balance [OF assms that])
  have ret: "?b w1 = ?b w" if "safeRetryFunc C c m w = (err, m1, w1)" for c err m1 w1
    using that q(7) by (auto simp: safeRetryFunc_def split: retry_result.splits prod.splits)
  show ?thesis
    using enq ret by (auto simp: processMessage_def Let_def q(4-6) split: option.split prod.split sum.split)
qed

lemma scan_balance:
  assumes "redis_lists E entries" and "outcomes_accounted E C entries recorded dropped unseen"
    and "ScanQueues E (Some h) source w = Some (r, w')"
  shows "tally entries recorded dropped unseen w' = tally entries recorded dropped unseen w"
  using ScanQueues_keeps [of "tally entries recorded dropped unseen" E "Some h" source w r w']
    quiet_balance(1,3) [OF assms(1,2)] assms(3) by simp

lemma QueueLength_balance:
  assumes "redis_lists E entries" and "outcomes_accounted E C entries recorded dropped unseen"
  shows "tally entries recorded dropped unseen (snd (QueueLength E (Some h) ctx source w)) = tally entries recorded dropped unseen w"
proof -
  obtain c w1 where g: "GetClient E w = (c, w1)" by force
  obtain n w2 where l: "LLen E (tenantScopedKey h ctx source) w1 = (n, w2)" by force
  have "tally entries recorded dropped unseen w1 = tally entries recorded dropped unseen w"
    "tally entries recorded dropped unseen w2 = tally entries recorded dropped unseen w1"
    using quiet_balance(1) [OF assms, of w] quiet_balance(2) [OF assms, of "tenantScopedKey h ctx source" w1] g l by simp_all
  then show ?thesis using g l by (auto simp: QueueLength_def Let_def split: sum.split option.split)
qed

lemma accounting_steps:
  assumes "redis_lists E entries" and "outcomes_accounted E C entries recorded dropped unseen"
  shows "consumer_steps E C (\<lambda>w w'. tally entries recorded dropped unseen w' = tally entries recorded dropped unseen w)"
  unfolding consumer_steps_def
  using processMessage_balance [OF assms] scan_balance [OF assms] QueueLength_balance [OF assms] Dequeue_balance [OF assms]
  by fastforce

text \<open>
  C33. No message vanishes unaccounted for: along any number of polls, whatever Redis commands fail,
  with or without having been carried out, and whatever the queued values are, the polls end, and every value that
  leaves the queues is recorded exactly once, as retried, exhausted or lost, unless the pop that took it
  lost its reply or the value does not decode. (Those leave no record: \<open>dropped\<close> counts them. A push that was reported
  as failed but carried out leaves its message both recorded as lost and queued: \<open>unseen\<close> counts
  those.) The retry function is one that leaves the queues and the counts alone.\<close>

theorem no_message_vanishes:
  assumes "redis_lists E entries" and "outcomes_accounted E C entries recorded dropped unseen" and "scans_end E left"
  shows "\<exists>w'. polls E C ctx n w = Some w' \<and>
    int (length (entries w')) + int (recorded w') + int (dropped w') - int (unseen w') =
    int (length (entries w)) + int (recorded w) + int (dropped w) - int (unseen w)"
proof -
  obtain w' where "polls E C ctx n w = Some w'" using polls_return [OF assms(3)] by blast
  with polls_steps [OF accounting_steps [OF assms(1,2)] this] show ?thesis unfolding tally_def by blast
qed

subsection \<open>An environment in memory\<close>

record memory =
  mem_entries :: "(string \<times> string) list"
  mem_calls :: nat
  mem_recorded :: nat
  mem_dropped :: nat
  mem_unseen :: nat
  mem_cut :: nat

text \<open>The replies to the next \<open>mem_cut\<close> pushes are lost.\<close>

definition coded :: "FailedMessage \<Rightarrow> string option" where
  "coded m =
     (if 0 \<le> fm_RetryCount m \<and> fm_RetryCount m < 256 \<and> 0 \<le> fm_MaxRetries m \<and> fm_MaxRetries m < 256
      then Some [char_of (nat (fm_RetryCount m)), char_of (nat (fm_MaxRetries m))] else None)"

fun decoded :: "string \<Rightarrow> FailedMessage option" where
  "decoded [r, m] =
     Some \<lparr>fm_Source = [], fm_OriginalData = [], fm_ErrorMessage = [], fm_RetryCount = int (of_char r),
           fm_MaxRetries = int (of_char m), fm_CreatedAt = Some 1, fm_NextRetryAt = None, fm_TenantID = []\<rparr>"
| "decoded _ = None"

definition mem_env :: "memory dlq_env" where
  "mem_env =
     \<lparr>time_Now = (\<lambda>w. 100), rand_gen = (\<lambda>s n. 0), rand_draw = (\<lambda>w n. Some 0), rand_seed = (\<lambda>w. None),
      json_Marshal = coded, json_Unmarshal = decoded,
      GetClient = (\<lambda>w. (True, w)),
      RPush = (\<lambda>k d w.
         if mem_cut w = 0 then (True, w\<lparr>mem_entries := mem_entries w @ [(k, d)]\<rparr>)
         else (False, w\<lparr>mem_entries := mem_entries w @ [(k, d)], mem_cut := mem_cut w - 1, mem_unseen := Suc (mem_unseen w)\<rparr>)),
      LPop = (\<lambda>k w. case pop_entry k (mem_entries w) of
         None \<Rightarrow> (PopNil, w)
       | Some (d, es) \<Rightarrow> (Popped d, w\<lparr>mem_entries := es, mem_dropped := (if decoded d = None then Suc (mem_dropped w) else mem_dropped w)\<rparr>)),
      LLen = (\<lambda>k w. (Some (int (length (filter (\<lambda>e. fst e = k) (mem_entries w)))), w)),
      Scan = (\<lambda>c p w. (Some ([], 0), w)),
      ctx_Done = (\<lambda>w. False),
      RecordRetried = (\<lambda>s w. w\<lparr>mem_recorded := Suc (mem_recorded w)\<rparr>),
      RecordExhausted = (\<lambda>s w. w\<lparr>mem_recorded := Suc (mem_recorded w)\<rparr>),
      RecordLost = (\<lambda>s w. w\<lparr>mem_recorded := Suc (mem_recorded w)\<rparr>)\<rparr>"

definition failing_consumer :: "memory dlq_consumer" where
  "failing_consumer =
     \<lparr>c_handler = \<lparr>h_keyPrefix = ''dlq:'', h_maxRetries = 3\<rparr>,
      c_retryFunc = (\<lambda>ctx m w. (RetryFailed ''unreachable'', m, w\<lparr>mem_calls := Suc (mem_calls w)\<rparr>)),
      c_PollInterval = 30000000000, c_BatchSize = 10, c_Sources = [''outbound'']\<rparr>"

lemma decoded_Some: "decoded d = Some m \<Longrightarrow> \<exists>r x. d = [r, x]"
  by (induction d rule: decoded.induct) auto

lemma mem_env_laws:
  "redis_lists mem_env mem_entries" "json_counters mem_env"
  "calls_counted mem_env failing_consumer mem_entries mem_calls"
  "outcomes_accounted mem_env failing_consumer mem_entries mem_recorded mem_dropped mem_unseen"
  "scans_end mem_env (\<lambda>c w. 0)"
proof -
  show "redis_lists mem_env mem_entries" "scans_end mem_env (\<lambda>c w. 0)"
    by (auto simp: redis_lists_def scans_end_def mem_env_def split: option.splits prod.splits if_splits)
  show "calls_counted mem_env failing_consumer mem_entries mem_calls"
    by (auto simp: calls_counted_def commands_keep_def mem_env_def failing_consumer_def split: option.split)
  have "outcomes_recorded mem_env failing_consumer mem_entries mem_recorded"
    by (auto simp: outcomes_recorded_def commands_keep_def mem_env_def failing_consumer_def split: option.split)
  then show "outcomes_accounted mem_env failing_consumer mem_entries mem_recorded mem_dropped mem_unseen"
    by (auto simp: outcomes_accounted_def mem_env_def failing_consumer_def split: option.splits if_splits)
  have small: "n < 256 \<Longrightarrow> in_int64 (int n)" for n
    by (simp add: in_int64_def min_int64_def max_int64_def)
  have byte: "in_int64 (int (of_char c))" for c by (rule small) (rule nat_of_char_less_256)
  have code: "int (of_char (char_of (nat x) :: char)) = x" if "0 \<le> x" "x < 256" for x
    using that by simp
  show "json_counters mem_env"
    unfolding json_counters_def
  proof (intro conjI allI impI)
    fix m d
    assume "json_Marshal mem_env m = Some d"
    then show "\<exists>m'. json_Unmarshal mem_env d = Some m' \<and> fm_RetryCount m' = fm_RetryCount m \<and> fm_MaxRetries m' = fm_MaxRetries m"
      by (auto simp: mem_env_def coded_def code simp del: of_char_of split: if_splits)
  next
    fix m d
    assume d: "json_Unmarshal mem_env d = Some m"
    then obtain r x where "d = [r, x]" using decoded_Some [of d m] by (auto simp: mem_env_def)
    then show "in_int64 (fm_RetryCount m)" "in_int64 (fm_MaxRetries m)" using d byte by (auto simp: mem_env_def)
  qed
qed

definition sample_memory :: memory where
  "sample_memory =
     \<lparr>mem_entries = [(''dlq:outbound'', [CHR 0x01, CHR 0x03])], mem_calls = 0, mem_recorded = 0,
      mem_dropped = 0, mem_unseen = 0, mem_cut = 0\<rparr>"

theorem retries_within_budget_witness:
  "\<exists>w'. polls mem_env failing_consumer background 7 sample_memory = Some w' \<and> mem_calls w' \<le> 2"
proof -
  have "0 < h_maxRetries (c_handler failing_consumer)" by (simp add: failing_consumer_def)
  moreover have "retry_budget mem_env (c_handler failing_consumer) (mem_entries sample_memory) = 2" "mem_calls sample_memory = 0"
    by (simp_all add: failing_consumer_def retry_budget_def entry_budget_def msg_budget_def stamped_max_def mem_env_def sample_memory_def)
  ultimately show ?thesis
    using retries_within_budget [OF mem_env_laws(1,2,3,5), of background 7 sample_memory] by auto
qed

text \<open>A queue with a message and a value that does not decode, and a push whose reply is lost.\<close>

definition faulty_memory :: memory where
  "faulty_memory =
     sample_memory\<lparr>mem_entries := [(''dlq:outbound'', [CHR 0x01, CHR 0x03]), (''dlq:outbound'', ''x'')], mem_cut := 1\<rparr>"

theorem no_message_vanishes_witness:
  "\<exists>w'. polls mem_env failing_consumer background 7 faulty_memory = Some w' \<and>
    int (length (mem_entries w')) + int (mem_recorded w') + int (mem_dropped w') - int (mem_unseen w') = 2"
  using no_message_vanishes [OF mem_env_laws(1,4,5), of background 7 faulty_memory]
  by (simp add: faulty_memory_def sample_memory_def)

end
