(* ===== verification/Redis_Db.thy ===== *)
theory Redis_Db
  imports Commons_Prelude
begin

text \<open>
  The part of Redis the scripts of this repository rely on, shared by the idempotency store and the
  pacer: keys with a time to live, the commands \<open>GET\<close>, \<open>SET\<close> with \<open>PX\<close> and \<open>NX\<close>, \<open>DEL\<close> and
  \<open>PEXPIRE\<close>, and what may become of a call.
\<close>

text \<open>
  What became of a call on its way: it was made, or no connection was available, or it was carried
  out and the answer was lost.
\<close>

datatype link = Up | Down | Reply_lost

text \<open>Keys with their values and the millisecond at which they expire.\<close>

record redis_db =
  db_now :: int
  db_keys :: "string \<Rightarrow> (string \<times> int) option"

definition redis_GET :: "string \<Rightarrow> redis_db \<Rightarrow> string option" where
  "redis_GET k db = (case db_keys db k of Some (v, expires) \<Rightarrow> if db_now db \<le> expires then Some v else None | None \<Rightarrow> None)"

definition redis_SET :: "string \<Rightarrow> string \<Rightarrow> int \<Rightarrow> redis_db \<Rightarrow> redis_db" where
  "redis_SET k v px db = db\<lparr>db_keys := (db_keys db)(k \<mapsto> (v, db_now db + px))\<rparr>"

definition redis_SET_NX :: "string \<Rightarrow> string \<Rightarrow> int \<Rightarrow> redis_db \<Rightarrow> bool \<times> redis_db" where
  "redis_SET_NX k v px db = (if redis_GET k db = None then (True, redis_SET k v px db) else (False, db))"

definition redis_DEL :: "string \<Rightarrow> redis_db \<Rightarrow> redis_db" where
  "redis_DEL k db = db\<lparr>db_keys := (db_keys db)(k := None)\<rparr>"

definition redis_PEXPIRE :: "string \<Rightarrow> int \<Rightarrow> redis_db \<Rightarrow> redis_db" where
  "redis_PEXPIRE k px db =
     (case redis_GET k db of
        Some v \<Rightarrow> db\<lparr>db_keys := (db_keys db)(k \<mapsto> (v, db_now db + px))\<rparr>
      | None \<Rightarrow> db)"

text \<open>An expired key is removed when it is accessed.\<close>

definition redis_touch :: "string \<Rightarrow> redis_db \<Rightarrow> redis_db" where
  "redis_touch k db = (if redis_GET k db = None then redis_DEL k db else db)"

end
