(* ===== verification/Idempotency_Store.thy ===== *)
theory Idempotency_Store
  imports Redis_Db
begin

text \<open>
  \<open>commons/net/http/idempotency\<close>: the store. The contract of store.go is the locale
  \<open>idempotency_store\<close>; the Redis adapter of redis_store.go and heartbeat.go, whose three-line Lua
  scripts are translated command by command, is an interpretation of it.
\<close>

subsection \<open>The contract\<close>

datatype acquire_result = Acquired | Held string | Acquire_error

datatype apply_result = Applied | Not_applied | Apply_error

text \<open>
  \<open>live s k\<close> is the value stored under a key and not expired. A call that returns an error may have
  been carried out. Time only ever removes values.
\<close>

locale idempotency_store =
  fixes live :: "'s \<Rightarrow> string \<Rightarrow> string option"
    and acquire :: "link \<Rightarrow> string \<Rightarrow> string \<Rightarrow> int \<Rightarrow> 's \<Rightarrow> acquire_result \<times> 's"
    and complete :: "link \<Rightarrow> string \<Rightarrow> string \<Rightarrow> string \<Rightarrow> int \<Rightarrow> 's \<Rightarrow> apply_result \<times> 's"
    and release :: "link \<Rightarrow> string \<Rightarrow> string \<Rightarrow> 's \<Rightarrow> apply_result \<times> 's"
    and extend :: "link \<Rightarrow> string \<Rightarrow> string \<Rightarrow> int \<Rightarrow> 's \<Rightarrow> apply_result \<times> 's"
    and elapse :: "nat \<Rightarrow> 's \<Rightarrow> 's"
  assumes acquired: "acquire l k v ttl s = (Acquired, s') \<Longrightarrow> live s k = None \<and> live s' = (live s)(k \<mapsto> v)"
    and held: "acquire l k v ttl s = (Held c, s') \<Longrightarrow> live s k = Some c \<and> live s' = live s"
    and acquire_failed: "acquire l k v ttl s = (Acquire_error, s') \<Longrightarrow>
      live s' = live s \<or> live s k = None \<and> live s' = (live s)(k \<mapsto> v)"
    and completed: "complete l k e v ttl s = (Applied, s') \<Longrightarrow> live s k = Some e \<and> live s' = (live s)(k \<mapsto> v)"
    and not_completed: "complete l k e v ttl s = (Not_applied, s') \<Longrightarrow> live s k \<noteq> Some e \<and> live s' = live s"
    and complete_failed: "complete l k e v ttl s = (Apply_error, s') \<Longrightarrow>
      live s' = live s \<or> live s k = Some e \<and> live s' = (live s)(k \<mapsto> v)"
    and released: "release l k e s = (Applied, s') \<Longrightarrow> live s k = Some e \<and> live s' = (live s)(k := None)"
    and not_released: "release l k e s = (Not_applied, s') \<Longrightarrow> live s k \<noteq> Some e \<and> live s' = live s"
    and release_failed: "release l k e s = (Apply_error, s') \<Longrightarrow>
      live s' = live s \<or> live s k = Some e \<and> live s' = (live s)(k := None)"
    and extended: "live (snd (extend l k e ttl s)) = live s"
    and elapsed: "live (elapse n s) k = live s k \<or> live (elapse n s) k = None"
begin

text \<open>Completing never frees a key, whatever becomes of the call.\<close>

lemma complete_effect:
  assumes "complete l k e v ttl s = (r, s')"
  shows "live s' = live s \<or> live s k = Some e \<and> live s' = (live s)(k \<mapsto> v)"
  using assms completed [of l k e v ttl s s'] not_completed [of l k e v ttl s s'] complete_failed [of l k e v ttl s s']
  by (cases r) simp_all

lemma complete_keeps_held:
  assumes "complete l k e v ttl s = (r, s')"
  shows "live s' k' = None \<longleftrightarrow> live s k' = None"
  using complete_effect [OF assms] by (cases "k' = k") auto

text \<open>Releasing touches only the key, and only while it holds what is expected.\<close>

lemma release_effect:
  assumes "release l k e s = (r, s')"
  shows "live s' = live s \<or> live s k = Some e \<and> live s' = (live s)(k := None)"
  using assms released [of l k e s s'] not_released [of l k e s s'] release_failed [of l k e s s']
  by (cases r) simp_all

lemma acquire_effect:
  assumes "acquire l k v ttl s = (r, s')"
  shows "live s' = live s \<or> live s k = None \<and> live s' = (live s)(k \<mapsto> v)"
  using assms acquired [of l k v ttl s s'] held [of l k v ttl s _ s'] acquire_failed [of l k v ttl s s']
  by (cases r) simp_all

end

subsection \<open>The Redis adapter\<close>

text \<open>The code and the value an acquisition returns.\<close>

definition redisAcquireScript :: "string \<Rightarrow> string \<Rightarrow> int \<Rightarrow> redis_db \<Rightarrow> (int \<times> string) \<times> redis_db" where
  "redisAcquireScript k v px db =
     (case redis_GET k db of
        Some current \<Rightarrow> ((0, current), db)
      | None \<Rightarrow>
          (let (created, db') = redis_SET_NX k v px db in
           if created then ((1, []), db')
           else (case redis_GET k db' of Some current \<Rightarrow> ((0, current), db') | None \<Rightarrow> ((-1, []), db'))))"

definition redisCompleteScript :: "string \<Rightarrow> string \<Rightarrow> string \<Rightarrow> int \<Rightarrow> redis_db \<Rightarrow> int \<times> redis_db" where
  "redisCompleteScript k expected v px db =
     (if redis_GET k db \<noteq> Some expected then (0, db) else (1, redis_SET k v px db))"

definition redisReleaseScript :: "string \<Rightarrow> string \<Rightarrow> redis_db \<Rightarrow> int \<times> redis_db" where
  "redisReleaseScript k expected db =
     (if redis_GET k db \<noteq> Some expected then (0, db) else (1, redis_DEL k db))"

definition redisExtendScript :: "string \<Rightarrow> string \<Rightarrow> int \<Rightarrow> redis_db \<Rightarrow> int \<times> redis_db" where
  "redisExtendScript k expected px db =
     (if redis_GET k db \<noteq> Some expected then (0, db) else (1, redis_PEXPIRE k px db))"

definition redisTTLMilliseconds :: "int \<Rightarrow> int option" where
  "redisTTLMilliseconds ttl =
     (if ttl \<le> 0 then None else if ttl div 1000000 = 0 then Some 1 else Some (ttl div 1000000))"

definition parseRedisAcquireResult :: "int \<times> string \<Rightarrow> acquire_result" where
  "parseRedisAcquireResult r =
     (if fst r = 1 then Acquired else if fst r = 0 then Held (snd r) else Acquire_error)"

definition Acquire :: "link \<Rightarrow> string \<Rightarrow> string \<Rightarrow> int \<Rightarrow> redis_db \<Rightarrow> acquire_result \<times> redis_db" where
  "Acquire l key candidate ttl db =
     (case redisTTLMilliseconds ttl of
        None \<Rightarrow> (Acquire_error, db)
      | Some px \<Rightarrow>
          (case l of
             Down \<Rightarrow> (Acquire_error, db)
           | Reply_lost \<Rightarrow> (Acquire_error, snd (redisAcquireScript key candidate px db))
           | Up \<Rightarrow> (let (r, db') = redisAcquireScript key candidate px db in (parseRedisAcquireResult r, db'))))"

definition applied :: "link \<Rightarrow> int \<times> redis_db \<Rightarrow> redis_db \<Rightarrow> apply_result \<times> redis_db" where
  "applied l r db =
     (case l of
        Down \<Rightarrow> (Apply_error, db)
      | Reply_lost \<Rightarrow> (Apply_error, snd r)
      | Up \<Rightarrow> (if fst r = 1 then Applied else Not_applied, snd r))"

definition Complete :: "link \<Rightarrow> string \<Rightarrow> string \<Rightarrow> string \<Rightarrow> int \<Rightarrow> redis_db \<Rightarrow> apply_result \<times> redis_db" where
  "Complete l key expected completed ttl db =
     (case redisTTLMilliseconds ttl of
        None \<Rightarrow> (Apply_error, db)
      | Some px \<Rightarrow> applied l (redisCompleteScript key expected completed px db) db)"

definition Release :: "link \<Rightarrow> string \<Rightarrow> string \<Rightarrow> redis_db \<Rightarrow> apply_result \<times> redis_db" where
  "Release l key expected db = applied l (redisReleaseScript key expected db) db"

definition Extend :: "link \<Rightarrow> string \<Rightarrow> string \<Rightarrow> int \<Rightarrow> redis_db \<Rightarrow> apply_result \<times> redis_db" where
  "Extend l key expected ttl db =
     (case redisTTLMilliseconds ttl of
        None \<Rightarrow> (Apply_error, db)
      | Some px \<Rightarrow> applied l (redisExtendScript key expected px db) db)"

definition redis_live :: "redis_db \<Rightarrow> string \<Rightarrow> string option" where
  "redis_live db k = redis_GET k db"

definition redis_elapse :: "nat \<Rightarrow> redis_db \<Rightarrow> redis_db" where
  "redis_elapse n db = db\<lparr>db_now := db_now db + int n\<rparr>"

subsection \<open>The adapter keeps the contract\<close>

lemma ttl_positive: "redisTTLMilliseconds ttl = Some px \<Longrightarrow> 0 < px"
proof -
  assume a: "redisTTLMilliseconds ttl = Some px"
  then have "0 \<le> ttl div 1000000" by (auto simp: redisTTLMilliseconds_def pos_imp_zdiv_nonneg_iff split: if_splits)
  then show ?thesis using a by (auto simp: redisTTLMilliseconds_def split: if_splits)
qed

lemma live_SET: "0 < px \<Longrightarrow> redis_live (redis_SET k v px db) = (redis_live db)(k \<mapsto> v)"
  by (rule ext) (simp add: redis_live_def redis_GET_def redis_SET_def split: option.split)

lemma live_DEL: "redis_live (redis_DEL k db) = (redis_live db)(k := None)"
  by (rule ext) (simp add: redis_live_def redis_GET_def redis_DEL_def split: option.split)

lemma live_PEXPIRE: "0 < px \<Longrightarrow> redis_live (redis_PEXPIRE k px db) = redis_live db"
  by (rule ext) (auto simp: redis_live_def redis_GET_def redis_PEXPIRE_def split: option.split)

lemma acquire_script:
  assumes "0 < px"
  shows "redisAcquireScript k v px db =
    (case redis_live db k of Some c \<Rightarrow> ((0, c), db) | None \<Rightarrow> ((1, []), redis_SET k v px db))"
  by (simp add: redisAcquireScript_def redis_SET_NX_def redis_live_def split: option.split)

interpretation redis: idempotency_store redis_live Acquire Complete Release Extend redis_elapse
proof
  fix l k v ttl and s s' :: redis_db
  note scripts = acquire_script [OF ttl_positive] live_SET [OF ttl_positive] parseRedisAcquireResult_def
  show "Acquire l k v ttl s = (Acquired, s') \<Longrightarrow> redis_live s k = None \<and> redis_live s' = (redis_live s)(k \<mapsto> v)"
    by (auto simp: Acquire_def scripts split: option.splits link.splits)
  show "Acquire l k v ttl s = (Held c, s') \<Longrightarrow> redis_live s k = Some c \<and> redis_live s' = redis_live s" for c
    by (auto simp: Acquire_def scripts split: option.splits link.splits)
  show "Acquire l k v ttl s = (Acquire_error, s') \<Longrightarrow>
      redis_live s' = redis_live s \<or> redis_live s k = None \<and> redis_live s' = (redis_live s)(k \<mapsto> v)"
    by (auto simp: Acquire_def scripts split: option.splits link.splits)
next
  fix l k e v ttl and s s' :: redis_db
  note scripts = Complete_def applied_def redisCompleteScript_def live_SET [OF ttl_positive]
  show "Complete l k e v ttl s = (Applied, s') \<Longrightarrow> redis_live s k = Some e \<and> redis_live s' = (redis_live s)(k \<mapsto> v)"
    "Complete l k e v ttl s = (Not_applied, s') \<Longrightarrow> redis_live s k \<noteq> Some e \<and> redis_live s' = redis_live s"
    "Complete l k e v ttl s = (Apply_error, s') \<Longrightarrow>
      redis_live s' = redis_live s \<or> redis_live s k = Some e \<and> redis_live s' = (redis_live s)(k \<mapsto> v)"
    by (auto simp: scripts redis_live_def split: option.splits link.splits if_splits)
next
  fix l k e and s s' :: redis_db
  show "Release l k e s = (Applied, s') \<Longrightarrow> redis_live s k = Some e \<and> redis_live s' = (redis_live s)(k := None)"
    "Release l k e s = (Not_applied, s') \<Longrightarrow> redis_live s k \<noteq> Some e \<and> redis_live s' = redis_live s"
    "Release l k e s = (Apply_error, s') \<Longrightarrow>
      redis_live s' = redis_live s \<or> redis_live s k = Some e \<and> redis_live s' = (redis_live s)(k := None)"
    by (auto simp: Release_def applied_def redisReleaseScript_def live_DEL redis_live_def split: link.splits if_splits)
next
  fix l k e ttl and s :: redis_db
  show "redis_live (snd (Extend l k e ttl s)) = redis_live s"
    by (auto simp: Extend_def applied_def redisExtendScript_def live_PEXPIRE [OF ttl_positive] split: option.split link.split)
next
  fix n k and s :: redis_db
  show "redis_live (redis_elapse n s) k = redis_live s k \<or> redis_live (redis_elapse n s) k = None"
    by (auto simp: redis_live_def redis_GET_def redis_elapse_def split: option.split)
qed

end
