(* ===== verification/Idempotency.thy ===== *)
theory Idempotency
  imports Idempotency_Store
begin

text \<open>
  \<open>commons/net/http/idempotency/idempotency.go\<close>: the middleware. A request and a response are what
  the middleware reads and writes of a Fiber context: a response has its header fields as a function
  from names to values and its cookies as a function from cookie names to their raw values. Hashing,
  JSON, the response codec and the application's providers and handlers are arguments. A handler
  returns an error, or none, and the response it leaves. Logging, deadlines and the handling of the
  connection of an unread upload are left out.
\<close>

subsection \<open>Data\<close>

record request =
  rq_Method :: string
  rq_Path :: string
  rq_Key :: string
  rq_Tenant :: string
  rq_Body :: "string option"

record response =
  rs_Status :: int
  rs_ContentType :: string
  rs_Body :: string
  rs_BodyStream :: bool
  rs_Headers :: "string \<Rightarrow> string list"
  rs_Cookies :: "string \<Rightarrow> string option"

datatype handler_error = Fiber_error int | Other_error string

type_synonym answer = "handler_error option \<times> response"
type_synonym fiber_handler = "response \<Rightarrow> answer"

record cachedResponse =
  cr_StatusCode :: int
  cr_ContentType :: string
  cr_Body :: string
  cr_Headers :: "string \<Rightarrow> string list option"
  cr_Cookies :: "string \<Rightarrow> string option"

record storeRecord =
  sr_State :: string
  sr_Fingerprint :: string
  sr_Owner :: string
  sr_Response :: string
  sr_Outcome :: string

definition fingerprintScopeDomain :: string where
  "fingerprintScopeDomain = ''lib-commons:idempotency:fingerprint-scope:v1'' @ [CHR 0x00]"

definition keyStateProcessing :: string where "keyStateProcessing = ''processing''"
definition keyStateComplete :: string where "keyStateComplete = ''complete''"
definition outcomeUnrecorded :: string where "outcomeUnrecorded = ''unrecorded''"
definition outcomeNotReplayable :: string where "outcomeNotReplayable = ''not-replayable''"
definition retryAfterSeconds :: string where "retryAfterSeconds = ''1''"
definition legacyStateSeparator :: char where "legacyStateSeparator = CHR '':''"

definition ClientErrorPolicyCache :: int where "ClientErrorPolicyCache = 0"
definition ClientErrorPolicyRelease :: int where "ClientErrorPolicyRelease = 1"
definition ServerErrorPolicyRelease :: int where "ServerErrorPolicyRelease = 0"
definition ServerErrorPolicyFence :: int where "ServerErrorPolicyFence = 1"

definition RefusalCodeStateUnrecognised :: string where
  "RefusalCodeStateUnrecognised = ''IDEMPOTENCY_STATE_UNRECOGNISED''"
definition RefusalCodeRecordUnreadable :: string where
  "RefusalCodeRecordUnreadable = ''IDEMPOTENCY_RECORD_UNREADABLE''"
definition RefusalCodeOutcomeUnrecorded :: string where
  "RefusalCodeOutcomeUnrecorded = ''IDEMPOTENCY_OUTCOME_UNRECORDED''"
definition RefusalCodeReplayUnavailable :: string where
  "RefusalCodeReplayUnavailable = ''IDEMPOTENCY_REPLAY_UNAVAILABLE''"

definition IdempotencyReplayed :: string where "IdempotencyReplayed = ''X-Idempotency-Replayed''"
definition IdempotencyFenced :: string where "IdempotencyFenced = ''X-Idempotency-Fenced''"

definition heartbeatMinTick :: int where "heartbeatMinTick = 50000000"
definition MinHeartbeatLease :: int where "MinHeartbeatLease = 3 * heartbeatMinTick"

text \<open>
  The middleware: its configuration, the codec included. \<open>store_nil\<close> and \<open>extends\<close> say whether there
  is a store and whether it can extend a lease.
\<close>

record middleware =
  store_nil :: bool
  store_extends :: bool
  keyProvider :: "(request \<Rightarrow> string + string) option"
  keyPrefix :: string
  keyTTL :: int
  processingTTL :: int
  maxKeyLength :: int
  maxBodyCache :: int
  ttlProvider :: "(request \<Rightarrow> string + int) option"
  processingTTLProvider :: "(request \<Rightarrow> string + int) option"
  fingerprintScopeProvider :: "(request \<Rightarrow> string) option"
  fingerprintProvider :: "(request \<Rightarrow> string + string) option"
  tenantProvider :: "(request \<Rightarrow> string + string) option"
  codec_Encode :: "string \<Rightarrow> string option"
  codec_Decode :: "string \<Rightarrow> string option"
  clientErrorPolicy :: int
  serverErrorPolicy :: int
  clientErrorPolicyFunc :: "(request \<Rightarrow> response \<Rightarrow> int \<Rightarrow> int) option"
  serverErrorPolicyFunc :: "(request \<Rightarrow> response \<Rightarrow> int \<Rightarrow> handler_error option \<Rightarrow> int) option"
  onRejected :: "fiber_handler option"
  onConflict :: "fiber_handler option"
  onKeyReuse :: "fiber_handler option"
  onReplayUnavailable :: "fiber_handler option"
  requireKey :: bool
  requireTenant :: bool
  onKeyRequired :: "fiber_handler option"
  onTenantRequired :: "fiber_handler option"
  failClosed :: bool
  onUnavailable :: "fiber_handler option"
  onPostHandlerUnavailable :: "fiber_handler option"
  onUnfenced :: "fiber_handler option"
  onTerminalRefusal :: "(string \<Rightarrow> fiber_handler) option"
  heartbeatInterval :: int
  extender :: bool
  configErr :: bool

text \<open>Hashing and JSON.\<close>

record lib =
  sha256_hex :: "string \<Rightarrow> string"
  json_record :: "storeRecord \<Rightarrow> string option"
  unjson_record :: "string \<Rightarrow> storeRecord option"
  json_response :: "cachedResponse \<Rightarrow> string option"
  unjson_response :: "string \<Rightarrow> cachedResponse option"
  json_error :: "int \<Rightarrow> string \<Rightarrow> string \<Rightarrow> string"

subsection \<open>Construction\<close>

definition identity_codec :: "string \<Rightarrow> string option" where
  "identity_codec s = Some s"

type_synonym idempotency_option = "(middleware \<Rightarrow> middleware) option"

definition newMiddleware :: "idempotency_option list \<Rightarrow> middleware" where
  "newMiddleware opts =
     foldl (\<lambda>m opt. case opt of Some f \<Rightarrow> f m | None \<Rightarrow> m)
       \<lparr>store_nil = True, store_extends = False, keyProvider = None, keyPrefix = ''idempotency:'',
        keyTTL = 7 * 24 * 3600 * 1000000000, processingTTL = 0, maxKeyLength = 256, maxBodyCache = 2 ^ 20,
        ttlProvider = None, processingTTLProvider = None, fingerprintScopeProvider = None,
        fingerprintProvider = None, tenantProvider = None,
        codec_Encode = identity_codec, codec_Decode = identity_codec,
        clientErrorPolicy = ClientErrorPolicyCache, serverErrorPolicy = ServerErrorPolicyRelease,
        clientErrorPolicyFunc = None, serverErrorPolicyFunc = None,
        onRejected = None, onConflict = None, onKeyReuse = None, onReplayUnavailable = None,
        requireKey = False, requireTenant = False, onKeyRequired = None, onTenantRequired = None,
        failClosed = False, onUnavailable = None, onPostHandlerUnavailable = None, onUnfenced = None,
        onTerminalRefusal = None, heartbeatInterval = 0, extender = False, configErr = False\<rparr> opts"

definition bindHeartbeat :: "middleware \<Rightarrow> middleware" where
  "bindHeartbeat m =
     (if heartbeatInterval m \<le> 0 then m
      else if \<not> store_extends m then m\<lparr>configErr := True\<rparr>
      else if 0 < processingTTL m \<and> processingTTL m < MinHeartbeatLease then m\<lparr>configErr := True\<rparr>
      else if 0 < processingTTL m \<and> processingTTL m \<le> heartbeatInterval m then m\<lparr>configErr := True\<rparr>
      else m\<lparr>extender := True\<rparr>)"

definition New :: "bool \<Rightarrow> idempotency_option list \<Rightarrow> middleware option" where
  "New conn_nil opts =
     (if conn_nil then None
      else Some (bindHeartbeat ((newMiddleware opts)\<lparr>store_nil := False, store_extends := True\<rparr>)))"

definition NewWithStore :: "bool \<Rightarrow> bool \<Rightarrow> idempotency_option list \<Rightarrow> middleware" where
  "NewWithStore nil_store extends opts =
     bindHeartbeat ((newMiddleware opts)\<lparr>store_nil := nil_store, store_extends := extends \<and> \<not> nil_store, failClosed := True\<rparr>)"

definition WithProcessingHeartbeat :: "int \<Rightarrow> idempotency_option" where
  "WithProcessingHeartbeat interval =
     Some (\<lambda>m. if 0 < interval then m\<lparr>heartbeatInterval := max interval heartbeatMinTick\<rparr> else m)"

definition WithKeyTTL :: "int \<Rightarrow> idempotency_option" where
  "WithKeyTTL ttl = Some (\<lambda>m. if 0 < ttl then m\<lparr>keyTTL := ttl\<rparr> else m)"

definition WithProcessingTTL :: "int \<Rightarrow> idempotency_option" where
  "WithProcessingTTL d = Some (\<lambda>m. if 0 < d then m\<lparr>processingTTL := d\<rparr> else m)"

definition WithKeyPrefix :: "string \<Rightarrow> idempotency_option" where
  "WithKeyPrefix p = Some (\<lambda>m. if p \<noteq> [] then m\<lparr>keyPrefix := p\<rparr> else m)"

definition WithMaxKeyLength :: "int \<Rightarrow> idempotency_option" where
  "WithMaxKeyLength n = Some (\<lambda>m. if 0 < n then m\<lparr>maxKeyLength := n\<rparr> else m)"

definition WithMaxBodyCache :: "int \<Rightarrow> idempotency_option" where
  "WithMaxBodyCache n = Some (\<lambda>m. if 0 < n then m\<lparr>maxBodyCache := n\<rparr> else m)"

definition WithClientErrorPolicy :: "int \<Rightarrow> idempotency_option" where
  "WithClientErrorPolicy policy =
     Some (\<lambda>m. if policy = ClientErrorPolicyCache \<or> policy = ClientErrorPolicyRelease
               then m\<lparr>clientErrorPolicy := policy\<rparr> else m)"

definition WithServerErrorPolicy :: "int \<Rightarrow> idempotency_option" where
  "WithServerErrorPolicy policy =
     Some (\<lambda>m. if policy = ServerErrorPolicyRelease \<or> policy = ServerErrorPolicyFence
               then m\<lparr>serverErrorPolicy := policy\<rparr> else m)"

definition WithFailClosed :: "bool \<Rightarrow> idempotency_option" where
  "WithFailClosed v = Some (\<lambda>m. m\<lparr>failClosed := v\<rparr>)"

definition WithRequireKey :: idempotency_option where
  "WithRequireKey = Some (\<lambda>m. m\<lparr>requireKey := True\<rparr>)"

definition WithRequireTenant :: idempotency_option where
  "WithRequireTenant = Some (\<lambda>m. m\<lparr>requireTenant := True\<rparr>)"

definition WithKeyProvider :: "(request \<Rightarrow> string + string) option \<Rightarrow> idempotency_option" where
  "WithKeyProvider f = Some (\<lambda>m. if f \<noteq> None then m\<lparr>keyProvider := f\<rparr> else m)"

definition WithTTLProvider :: "(request \<Rightarrow> string + int) option \<Rightarrow> idempotency_option" where
  "WithTTLProvider f = Some (\<lambda>m. if f \<noteq> None then m\<lparr>ttlProvider := f\<rparr> else m)"

definition WithProcessingTTLProvider :: "(request \<Rightarrow> string + int) option \<Rightarrow> idempotency_option" where
  "WithProcessingTTLProvider f = Some (\<lambda>m. if f \<noteq> None then m\<lparr>processingTTLProvider := f\<rparr> else m)"

definition WithFingerprintScopeProvider :: "(request \<Rightarrow> string) option \<Rightarrow> idempotency_option" where
  "WithFingerprintScopeProvider f = Some (\<lambda>m. if f \<noteq> None then m\<lparr>fingerprintScopeProvider := f\<rparr> else m)"

definition WithFingerprintProvider :: "(request \<Rightarrow> string + string) option \<Rightarrow> idempotency_option" where
  "WithFingerprintProvider f = Some (\<lambda>m. if f \<noteq> None then m\<lparr>fingerprintProvider := f\<rparr> else m)"

definition WithTenantProvider :: "(request \<Rightarrow> string + string) option \<Rightarrow> idempotency_option" where
  "WithTenantProvider f = Some (\<lambda>m. if f \<noteq> None then m\<lparr>tenantProvider := f\<rparr> else m)"

definition WithClientErrorPolicyFunc :: "(request \<Rightarrow> response \<Rightarrow> int \<Rightarrow> int) option \<Rightarrow> idempotency_option" where
  "WithClientErrorPolicyFunc f = Some (\<lambda>m. if f \<noteq> None then m\<lparr>clientErrorPolicyFunc := f\<rparr> else m)"

definition WithServerErrorPolicyFunc :: "(request \<Rightarrow> response \<Rightarrow> int \<Rightarrow> handler_error option \<Rightarrow> int) option \<Rightarrow> idempotency_option" where
  "WithServerErrorPolicyFunc f = Some (\<lambda>m. if f \<noteq> None then m\<lparr>serverErrorPolicyFunc := f\<rparr> else m)"

definition WithRejectedHandler :: "(fiber_handler) option \<Rightarrow> idempotency_option" where
  "WithRejectedHandler f = Some (\<lambda>m. m\<lparr>onRejected := f\<rparr>)"

definition WithConflictHandler :: "(fiber_handler) option \<Rightarrow> idempotency_option" where
  "WithConflictHandler f = Some (\<lambda>m. m\<lparr>onConflict := f\<rparr>)"

definition WithKeyReuseHandler :: "(fiber_handler) option \<Rightarrow> idempotency_option" where
  "WithKeyReuseHandler f = Some (\<lambda>m. m\<lparr>onKeyReuse := f\<rparr>)"

definition WithReplayUnavailableHandler :: "(fiber_handler) option \<Rightarrow> idempotency_option" where
  "WithReplayUnavailableHandler f = Some (\<lambda>m. m\<lparr>onReplayUnavailable := f\<rparr>)"

definition WithKeyRequiredHandler :: "(fiber_handler) option \<Rightarrow> idempotency_option" where
  "WithKeyRequiredHandler f = Some (\<lambda>m. m\<lparr>onKeyRequired := f\<rparr>)"

definition WithTenantRequiredHandler :: "(fiber_handler) option \<Rightarrow> idempotency_option" where
  "WithTenantRequiredHandler f = Some (\<lambda>m. m\<lparr>onTenantRequired := f\<rparr>)"

definition WithUnavailableHandler :: "(fiber_handler) option \<Rightarrow> idempotency_option" where
  "WithUnavailableHandler f = Some (\<lambda>m. m\<lparr>onUnavailable := f\<rparr>)"

definition WithPostHandlerUnavailableHandler :: "(fiber_handler) option \<Rightarrow> idempotency_option" where
  "WithPostHandlerUnavailableHandler f = Some (\<lambda>m. m\<lparr>onPostHandlerUnavailable := f\<rparr>)"

definition WithUnfencedHandler :: "(fiber_handler) option \<Rightarrow> idempotency_option" where
  "WithUnfencedHandler f = Some (\<lambda>m. m\<lparr>onUnfenced := f\<rparr>)"

definition WithTerminalRefusalHandler :: "(string \<Rightarrow> fiber_handler) option \<Rightarrow> idempotency_option" where
  "WithTerminalRefusalHandler f = Some (\<lambda>m. m\<lparr>onTerminalRefusal := f\<rparr>)"

text \<open>A codec is its two directions; a missing one leaves the identity in place.\<close>

definition WithResponseCodec :: "((string \<Rightarrow> string option) \<times> (string \<Rightarrow> string option)) option \<Rightarrow> idempotency_option" where
  "WithResponseCodec codec =
     Some (\<lambda>m. case codec of
        Some (enc, dec) \<Rightarrow> m\<lparr>codec_Encode := enc, codec_Decode := dec\<rparr>
      | None \<Rightarrow> m)"


subsection \<open>Fingerprints and keys\<close>

definition requestFingerprintInput :: "string \<Rightarrow> string \<Rightarrow> string \<Rightarrow> string" where
  "requestFingerprintInput method path body = method @ [CHR 0x0A] @ path @ [CHR 0x0A] @ body"

definition requestFingerprint :: "lib \<Rightarrow> string \<Rightarrow> string \<Rightarrow> string \<Rightarrow> string" where
  "requestFingerprint L method path body = sha256_hex L (requestFingerprintInput method path body)"

definition requestFingerprintWithScope :: "lib \<Rightarrow> string \<Rightarrow> string \<Rightarrow> string \<Rightarrow> string \<Rightarrow> string" where
  "requestFingerprintWithScope L scope method path body =
     sha256_hex L (fingerprintScopeDomain @ be64 (length scope) @ scope @ requestFingerprintInput method path body)"

definition storeKey :: "middleware \<Rightarrow> string \<Rightarrow> string \<Rightarrow> string" where
  "storeKey m tenantID idempotencyKey = keyPrefix m @ tenantID @ '':'' @ idempotencyKey"

definition resolveKey :: "middleware \<Rightarrow> request \<Rightarrow> string + string" where
  "resolveKey m rq = (case keyProvider m of Some f \<Rightarrow> f rq | None \<Rightarrow> Inr (rq_Key rq))"

text \<open>A malformed tenant is an error; a failing provider is no tenant.\<close>

definition resolveTenant :: "middleware \<Rightarrow> request \<Rightarrow> string + string" where
  "resolveTenant m rq =
     (case (case tenantProvider m of None \<Rightarrow> Inr (rq_Tenant rq) | Some f \<Rightarrow> f rq) of
        Inl _ \<Rightarrow> Inr []
      | Inr tenantID \<Rightarrow> if CHR '':'' \<in> set tenantID then Inl ''ErrTenantMalformed'' else Inr tenantID)"

text \<open>The body, or an error when its stream cannot be read to the declared end.\<close>

definition bufferedIdentity :: "request \<Rightarrow> string + string" where
  "bufferedIdentity rq = (case rq_Body rq of None \<Rightarrow> Inl ''errRequestBodyUnreadable'' | Some b \<Rightarrow> Inr b)"

definition resolveFingerprint :: "lib \<Rightarrow> middleware \<Rightarrow> request \<Rightarrow> string + string" where
  "resolveFingerprint L m rq =
     bind_res (case fingerprintProvider m of Some f \<Rightarrow> f rq | None \<Rightarrow> bufferedIdentity rq) (\<lambda>identity.
       case fingerprintScopeProvider m of
         Some scope \<Rightarrow> Inr (requestFingerprintWithScope L (scope rq) (rq_Method rq) (rq_Path rq) identity)
       | None \<Rightarrow> Inr (requestFingerprint L (rq_Method rq) (rq_Path rq) identity))"

definition resolveTTL :: "middleware \<Rightarrow> request \<Rightarrow> string + int" where
  "resolveTTL m rq =
     bind_res (case ttlProvider m of Some f \<Rightarrow> f rq | None \<Rightarrow> Inr (keyTTL m)) (\<lambda>ttl.
       if ttl \<le> 0 then Inl ''errInvalidTTL'' else Inr ttl)"

definition resolveProcessingTTL :: "middleware \<Rightarrow> request \<Rightarrow> int" where
  "resolveProcessingTTL m rq =
     (case processingTTLProvider m of
        None \<Rightarrow> processingTTL m
      | Some f \<Rightarrow>
          (case f rq of
             Inl _ \<Rightarrow> processingTTL m
           | Inr lease \<Rightarrow> if lease \<le> 0 then processingTTL m else lease))"

definition resolveClientErrorPolicy :: "middleware \<Rightarrow> request \<Rightarrow> response \<Rightarrow> int \<Rightarrow> int" where
  "resolveClientErrorPolicy m rq rsp status =
     (case clientErrorPolicyFunc m of Some f \<Rightarrow> f rq rsp status | None \<Rightarrow> clientErrorPolicy m)"

definition effectiveStatus :: "response \<Rightarrow> int \<Rightarrow> handler_error option \<Rightarrow> int" where
  "effectiveStatus rsp status err =
     (if err = None \<or> status \<noteq> 200 \<or> rs_BodyStream rsp \<or> 0 < length (rs_Body rsp) then status
      else (case err of Some (Fiber_error code) \<Rightarrow> code | _ \<Rightarrow> status))"

definition resolveServerErrorPolicy :: "middleware \<Rightarrow> request \<Rightarrow> response \<Rightarrow> int \<Rightarrow> handler_error option \<Rightarrow> int" where
  "resolveServerErrorPolicy m rq rsp status err =
     (case serverErrorPolicyFunc m of
        Some f \<Rightarrow> f rq rsp (effectiveStatus rsp status err) err
      | None \<Rightarrow> serverErrorPolicy m)"

subsection \<open>Refusals\<close>

definition em_dash :: string where
  "em_dash = [CHR 0xE2, CHR 0x80, CHR 0x94]"

definition reconcile :: string where
  "reconcile = ''do not retry with a new key '' @ em_dash @ '' reconcile the original request first''"

definition RespondError :: "lib \<Rightarrow> int \<Rightarrow> string \<Rightarrow> string \<Rightarrow> response \<Rightarrow> answer" where
  "RespondError L status title message rsp =
     (None, rsp\<lparr>rs_Status := status, rs_ContentType := ''application/json; charset=utf-8'',
                rs_Body := json_error L status title message, rs_BodyStream := False\<rparr>)"

definition set_header :: "string \<Rightarrow> string \<Rightarrow> response \<Rightarrow> response" where
  "set_header name val rsp = rsp\<lparr>rs_Headers := (rs_Headers rsp)(name := [val])\<rparr>"

definition respondUnavailable :: "lib \<Rightarrow> middleware \<Rightarrow> fiber_handler" where
  "respondUnavailable L m rsp =
     (case onUnavailable m of
        Some f \<Rightarrow> f rsp
      | None \<Rightarrow> RespondError L 503 ''IDEMPOTENCY_UNAVAILABLE''
          ''idempotency store unavailable; request rejected to preserve at-most-once semantics'' rsp)"

definition respondKeyRequired :: "lib \<Rightarrow> middleware \<Rightarrow> fiber_handler" where
  "respondKeyRequired L m rsp =
     (case onKeyRequired m of
        Some f \<Rightarrow> f rsp
      | None \<Rightarrow> RespondError L 400 ''IDEMPOTENCY_KEY_REQUIRED'' ''X-Idempotency header is required for this request'' rsp)"

definition respondTenantRequired :: "lib \<Rightarrow> middleware \<Rightarrow> fiber_handler" where
  "respondTenantRequired L m rsp =
     (case onTenantRequired m of
        Some f \<Rightarrow> f rsp
      | None \<Rightarrow> RespondError L 400 ''IDEMPOTENCY_TENANT_REQUIRED'' ''tenant context is required for this request'' rsp)"

definition respondPostHandlerStoreError :: "lib \<Rightarrow> middleware \<Rightarrow> fiber_handler" where
  "respondPostHandlerStoreError L m rsp =
     (case onPostHandlerUnavailable m of
        Some f \<Rightarrow> f rsp
      | None \<Rightarrow>
          (case onUnavailable m of
             Some f \<Rightarrow> f rsp
           | None \<Rightarrow> RespondError L 503 ''IDEMPOTENCY_UNAVAILABLE''
               (''request processing finished but its replay response could not be persisted; '' @ reconcile) rsp))"

text \<open>The three terminal refusals share their routing.\<close>

definition terminal_refusal :: "lib \<Rightarrow> middleware \<Rightarrow> string \<Rightarrow> string \<Rightarrow> fiber_handler" where
  "terminal_refusal L m code message rsp =
     (case onTerminalRefusal m of
        Some f \<Rightarrow> f code rsp
      | None \<Rightarrow>
          (case onPostHandlerUnavailable m of
             Some f \<Rightarrow> f rsp
           | None \<Rightarrow> RespondError L 422 code message rsp))"

definition respondUnrecognisedState :: "lib \<Rightarrow> middleware \<Rightarrow> fiber_handler" where
  "respondUnrecognisedState L m =
     terminal_refusal L m RefusalCodeStateUnrecognised
       (''this idempotency key holds a record written by a newer version and cannot be interpreted here; '' @ reconcile)"

definition respondUnreadableRecord :: "lib \<Rightarrow> middleware \<Rightarrow> fiber_handler" where
  "respondUnreadableRecord L m =
     terminal_refusal L m RefusalCodeRecordUnreadable
       (''this idempotency key holds a record that cannot be decoded; '' @ reconcile)"

definition respondOutcomeUnknown :: "lib \<Rightarrow> middleware \<Rightarrow> fiber_handler" where
  "respondOutcomeUnknown L m =
     terminal_refusal L m RefusalCodeOutcomeUnrecorded
       (''an earlier request with this idempotency key ran without recording its outcome; '' @ reconcile)"

definition respondUnfenced :: "lib \<Rightarrow> middleware \<Rightarrow> fiber_handler" where
  "respondUnfenced L m rsp =
     (case onUnfenced m of
        Some f \<Rightarrow> f rsp
      | None \<Rightarrow> RespondError L 503 ''IDEMPOTENCY_UNFENCED''
          (''request processing finished but neither its replay response nor a fence could be persisted; '' @
           ''this idempotency key is NOT protected and a resend may execute the operation again '' @ em_dash @
           '' reconcile the original request before sending anything under this key'') rsp)"

definition respondReplayUnavailable :: "lib \<Rightarrow> middleware \<Rightarrow> fiber_handler" where
  "respondReplayUnavailable L m rsp =
     (case onReplayUnavailable m of
        Some f \<Rightarrow> f rsp
      | None \<Rightarrow> RespondError L 409 RefusalCodeReplayUnavailable
          (''the request with this idempotency key already ran and its response was delivered, but that response '' @
           ''was too large to store for replay; resending under this key will not execute the operation again '' @
           ''and will not reproduce that response'') rsp)"

definition respondConflict :: "lib \<Rightarrow> middleware \<Rightarrow> fiber_handler" where
  "respondConflict L m rsp0 =
     (let rsp = set_header ''Retry-After'' retryAfterSeconds (set_header IdempotencyReplayed ''true'' rsp0) in
      case onConflict m of
        Some f \<Rightarrow> f rsp
      | None \<Rightarrow> RespondError L 409 ''IDEMPOTENCY_CONFLICT''
          ''a request with this idempotency key is currently being processed'' rsp)"

definition respondKeyReuse :: "lib \<Rightarrow> middleware \<Rightarrow> fiber_handler" where
  "respondKeyReuse L m rsp =
     (case onKeyReuse m of
        Some f \<Rightarrow> f rsp
      | None \<Rightarrow> RespondError L 422 ''IDEMPOTENCY_KEY_REUSE''
          (''this idempotency key was already used for a different request; '' @ reconcile) rsp)"

subsection \<open>Capture and replay\<close>

definition isUncapturedHeader :: "string \<Rightarrow> bool" where
  "isUncapturedHeader name \<longleftrightarrow>
     name \<in> {''Content-Type'', ''Content-Length'', ''Transfer-Encoding'', IdempotencyReplayed}"

text \<open>Header fields that differ from what they were before the handler; \<open>Some []\<close> for one that is gone.\<close>

definition captureHeaderDelta :: "response \<Rightarrow> response \<Rightarrow> string \<Rightarrow> string list option" where
  "captureHeaderDelta before rsp name =
     (if isUncapturedHeader name \<or> name = ''Set-Cookie'' then None
      else if rs_Headers rsp name \<noteq> rs_Headers before name then Some (rs_Headers rsp name)
      else None)"

definition capture_cookies :: "response \<Rightarrow> response \<Rightarrow> string \<Rightarrow> string option" where
  "capture_cookies before rsp name =
     (if rs_Cookies rsp name \<noteq> rs_Cookies before name then rs_Cookies rsp name else None)"

definition maxEncodedResponseBytes :: "middleware \<Rightarrow> int" where
  "maxEncodedResponseBytes m =
     (if max_int64 div 2 < maxBodyCache m then max_int64 else wrap64 (maxBodyCache m * 2))"

datatype capture_error = ErrResponseTooLarge | ErrCapture

definition captureResponse :: "lib \<Rightarrow> middleware \<Rightarrow> response \<Rightarrow> response \<Rightarrow> capture_error + string" where
  "captureResponse L m before rsp =
     (if maxBodyCache m < int (length (rs_Body rsp)) then Inl ErrResponseTooLarge
      else
        (case json_response L
           \<lparr>cr_StatusCode = rs_Status rsp, cr_ContentType = rs_ContentType rsp, cr_Body = rs_Body rsp,
            cr_Headers = captureHeaderDelta before rsp, cr_Cookies = capture_cookies before rsp\<rparr> of
           None \<Rightarrow> Inl ErrCapture
         | Some plaintext \<Rightarrow>
             (case codec_Encode m plaintext of
                None \<Rightarrow> Inl ErrCapture
              | Some encoded \<Rightarrow>
                  if encoded = [] then Inl ErrCapture
                  else if maxEncodedResponseBytes m < int (length encoded) then Inl ErrResponseTooLarge
                  else Inr encoded)))"

definition replay_response :: "cachedResponse \<Rightarrow> response \<Rightarrow> response" where
  "replay_response cr rsp0 =
     (let rsp = set_header IdempotencyReplayed ''true'' rsp0 in
      rsp\<lparr>rs_Headers := (\<lambda>name. case cr_Headers cr name of Some values \<Rightarrow> values | None \<Rightarrow> rs_Headers rsp name),
          rs_Cookies := (\<lambda>name. case cr_Cookies cr name of Some v \<Rightarrow> Some v | None \<Rightarrow> rs_Cookies rsp name),
          rs_ContentType := cr_ContentType cr, rs_Status := cr_StatusCode cr, rs_Body := cr_Body cr,
          rs_BodyStream := False\<rparr>)"

definition replay :: "lib \<Rightarrow> middleware \<Rightarrow> string \<Rightarrow> fiber_handler" where
  "replay L m encoded rsp =
     (if encoded = [] \<or> maxEncodedResponseBytes m < int (length encoded) then respondPostHandlerStoreError L m rsp
      else
        (case codec_Decode m encoded of
           None \<Rightarrow> respondPostHandlerStoreError L m rsp
         | Some plaintext \<Rightarrow>
             if plaintext = [] \<or> maxEncodedResponseBytes m < int (length plaintext) then respondPostHandlerStoreError L m rsp
             else
               (case unjson_response L plaintext of
                  None \<Rightarrow> respondPostHandlerStoreError L m rsp
                | Some cr \<Rightarrow>
                    if cr_StatusCode cr < 100 \<or> 599 < cr_StatusCode cr \<or> maxBodyCache m < int (length (cr_Body cr))
                    then respondPostHandlerStoreError L m rsp
                    else (None, replay_response cr rsp))))"

definition decodeLegacyRecord :: "string \<Rightarrow> storeRecord option" where
  "decodeLegacyRecord stored =
     (let state = takeWhile (\<lambda>c. c \<noteq> legacyStateSeparator) stored;
          found = legacyStateSeparator \<in> set stored in
      if \<not> found \<or> (state \<noteq> keyStateProcessing \<and> state \<noteq> keyStateComplete) then None
      else Some \<lparr>sr_State = state, sr_Fingerprint = drop (Suc (length state)) stored, sr_Owner = [],
                 sr_Response = [], sr_Outcome = []\<rparr>)"

definition respondLegacy :: "lib \<Rightarrow> middleware \<Rightarrow> storeRecord \<Rightarrow> string \<Rightarrow> fiber_handler" where
  "respondLegacy L m legacy fingerprint rsp =
     (if sr_Fingerprint legacy \<noteq> fingerprint then respondKeyReuse L m rsp
      else if sr_State legacy = keyStateProcessing then respondConflict L m rsp
      else RespondError L 200 ''IDEMPOTENT'' ''request already processed'' (set_header IdempotencyReplayed ''true'' rsp))"


subsection \<open>A request\<close>

text \<open>
  A request goes through the decisions below; between them it calls the store and the protected
  chain. First, what happens before the store is asked: the request runs unprotected, is answered,
  or has a key, a fingerprint, a retention and a lease.
\<close>

datatype prepared =
    P_run
  | P_answer "handler_error option \<times> response"
  | P_store string string int int

definition mutating :: "string \<Rightarrow> bool" where
  "mutating method \<longleftrightarrow> method \<in> {''POST'', ''PUT'', ''PATCH'', ''DELETE''}"

definition onStoreError :: "lib \<Rightarrow> middleware \<Rightarrow> response \<Rightarrow> prepared" where
  "onStoreError L m rsp = (if \<not> failClosed m then P_run else P_answer (respondUnavailable L m rsp))"

definition handle_prepare :: "lib \<Rightarrow> middleware \<Rightarrow> request \<Rightarrow> response \<Rightarrow> prepared" where
  "handle_prepare L m rq rsp =
     (if \<not> mutating (rq_Method rq) then P_run
      else
        (case resolveKey m rq of
           Inl _ \<Rightarrow> P_answer (respondUnavailable L m rsp)
         | Inr idempotencyKey \<Rightarrow>
             if idempotencyKey = [] then (if requireKey m then P_answer (respondKeyRequired L m rsp) else P_run)
             else if maxKeyLength m < int (length idempotencyKey) then
               P_answer (case onRejected m of
                   Some f \<Rightarrow> f rsp
                 | None \<Rightarrow> RespondError L 400 ''VALIDATION_ERROR''
                     (''X-Idempotency must not exceed '' @ itoa (nat (maxKeyLength m)) @ '' bytes'') rsp)
             else
               (case resolveTenant m rq of
                  Inl _ \<Rightarrow> P_answer (RespondError L 400 ''IDEMPOTENCY_TENANT_MALFORMED''
                      (''tenant must not contain '' @ [CHR 0x27] @ '':'' @ [CHR 0x27]) rsp)
                | Inr tenantID \<Rightarrow>
                    if tenantID = [] then (if requireTenant m then P_answer (respondTenantRequired L m rsp) else P_run)
                    else if configErr m then P_answer (respondUnavailable L m rsp)
                    else if store_nil m then onStoreError L m rsp
                    else
                      (case resolveFingerprint L m rq of
                         Inl _ \<Rightarrow> P_answer (respondUnavailable L m rsp)
                       | Inr fingerprint \<Rightarrow>
                           (case resolveTTL m rq of
                              Inl _ \<Rightarrow> P_answer (respondUnavailable L m rsp)
                            | Inr ttl \<Rightarrow>
                                P_store (storeKey m tenantID idempotencyKey) fingerprint ttl
                                  (resolveProcessingTTL m rq))))))"

definition processing_record :: "string \<Rightarrow> string \<Rightarrow> storeRecord" where
  "processing_record fingerprint owner =
     \<lparr>sr_State = keyStateProcessing, sr_Fingerprint = fingerprint, sr_Owner = owner, sr_Response = [], sr_Outcome = []\<rparr>"

definition effective_lease :: "int \<Rightarrow> int \<Rightarrow> int" where
  "effective_lease ttl lease = (if lease \<le> 0 then ttl else lease)"

text \<open>How a record that is already there answers the request.\<close>

definition answer_held :: "lib \<Rightarrow> middleware \<Rightarrow> string \<Rightarrow> string \<Rightarrow> fiber_handler" where
  "answer_held L m fingerprint stored rsp =
     (case unjson_record L stored of
        None \<Rightarrow>
          (case decodeLegacyRecord stored of
             None \<Rightarrow> respondUnreadableRecord L m rsp
           | Some legacy \<Rightarrow> respondLegacy L m legacy fingerprint rsp)
      | Some current \<Rightarrow>
          if sr_Fingerprint current \<noteq> fingerprint then respondKeyReuse L m rsp
          else if sr_Outcome current = outcomeUnrecorded then respondOutcomeUnknown L m rsp
          else if sr_Outcome current = outcomeNotReplayable then respondReplayUnavailable L m rsp
          else if sr_State current = keyStateProcessing then respondConflict L m rsp
          else if sr_State current = keyStateComplete then replay L m (sr_Response current) rsp
          else respondUnrecognisedState L m rsp)"

text \<open>What to do once the chain has run: release, fence, complete with a value, or fail.\<close>

datatype settlement = S_release | S_fence | S_complete string | S_fail

definition settle :: "lib \<Rightarrow> middleware \<Rightarrow> request \<Rightarrow> response \<Rightarrow> handler_error option \<Rightarrow> response \<Rightarrow> storeRecord \<Rightarrow> settlement" where
  "settle L m rq before handlerErr rsp rec =
     (if handlerErr \<noteq> None \<or> 500 \<le> rs_Status rsp then
        (if resolveServerErrorPolicy m rq rsp (rs_Status rsp) handlerErr = ServerErrorPolicyFence then S_fence
         else S_release)
      else if 400 \<le> rs_Status rsp \<and> resolveClientErrorPolicy m rq rsp (rs_Status rsp) = ClientErrorPolicyRelease then S_release
      else
        (case captureResponse L m before rsp of
           Inl ErrCapture \<Rightarrow> S_fail
         | Inl ErrResponseTooLarge \<Rightarrow>
             (case json_record L (rec\<lparr>sr_State := keyStateComplete, sr_Response := [], sr_Outcome := outcomeNotReplayable\<rparr>) of
                None \<Rightarrow> S_fail | Some v \<Rightarrow> S_complete v)
         | Inr encoded \<Rightarrow>
             (case json_record L (rec\<lparr>sr_State := keyStateComplete, sr_Response := encoded\<rparr>) of
                None \<Rightarrow> S_fail | Some v \<Rightarrow> S_complete v)))"

definition fence_record :: "storeRecord \<Rightarrow> storeRecord" where
  "fence_record rec = rec\<lparr>sr_State := keyStateComplete, sr_Outcome := outcomeUnrecorded, sr_Response := []\<rparr>"

definition mark_header :: "bool \<Rightarrow> response \<Rightarrow> response" where
  "mark_header fenced rsp = set_header IdempotencyFenced (if fenced then ''true'' else ''false'') rsp"

text \<open>
  The store and the protected chain as the request meets them. The chain may take time and other
  requests may use the store meanwhile: it takes the state of the world and returns another.
\<close>

record 's surroundings =
  do_Acquire :: "string \<Rightarrow> string \<Rightarrow> int \<Rightarrow> 's \<Rightarrow> acquire_result \<times> 's"
  do_Complete :: "string \<Rightarrow> string \<Rightarrow> string \<Rightarrow> int \<Rightarrow> 's \<Rightarrow> apply_result \<times> 's"
  do_Release :: "string \<Rightarrow> string \<Rightarrow> 's \<Rightarrow> apply_result \<times> 's"
  do_Next :: "request \<Rightarrow> response \<Rightarrow> 's \<Rightarrow> answer \<times> 's"
  new_owner :: "'s \<Rightarrow> string"

definition markOutcomeUnknown ::
  "lib \<Rightarrow> 's surroundings \<Rightarrow> string \<Rightarrow> string \<Rightarrow> storeRecord \<Rightarrow> int \<Rightarrow> 's \<Rightarrow> bool \<times> 's" where
  "markOutcomeUnknown L X key processing rec ttl s =
     (case json_record L (fence_record rec) of
        None \<Rightarrow> (False, s)
      | Some unknown \<Rightarrow>
          (case do_Complete X key processing unknown ttl s of
             (Applied, s') \<Rightarrow> (True, s')
           | (_, s') \<Rightarrow> (False, s')))"

definition failPostHandler ::
  "lib \<Rightarrow> middleware \<Rightarrow> 's surroundings \<Rightarrow> string \<Rightarrow> string \<Rightarrow> storeRecord \<Rightarrow> int \<Rightarrow> response \<Rightarrow> 's \<Rightarrow> answer \<times> 's" where
  "failPostHandler L m X key processing rec ttl rsp s =
     (let (fenced, s') = markOutcomeUnknown L X key processing rec ttl s;
          rsp' = mark_header fenced rsp in
      (if \<not> fenced then respondUnfenced L m rsp' else respondPostHandlerStoreError L m rsp', s'))"

definition handleStoreAcquired ::
  "lib \<Rightarrow> middleware \<Rightarrow> 's surroundings \<Rightarrow> request \<Rightarrow> response \<Rightarrow> string \<Rightarrow> string \<Rightarrow> storeRecord \<Rightarrow> int \<Rightarrow> 's \<Rightarrow> answer \<times> 's" where
  "handleStoreAcquired L m X rq before key processing rec ttl s0 =
     (case do_Next X rq before s0 of
        ((handlerErr, rsp), s) \<Rightarrow>
          (case settle L m rq before handlerErr rsp rec of
             S_release \<Rightarrow> ((handlerErr, rsp), snd (do_Release X key processing s))
           | S_fence \<Rightarrow>
               (case markOutcomeUnknown L X key processing rec ttl s of
                  (fenced, s') \<Rightarrow> ((handlerErr, mark_header fenced rsp), s'))
           | S_fail \<Rightarrow> failPostHandler L m X key processing rec ttl rsp s
           | S_complete v \<Rightarrow>
               (case do_Complete X key processing v ttl s of
                  (Applied, s') \<Rightarrow> ((handlerErr, rsp), s')
                | (_, s') \<Rightarrow> failPostHandler L m X key processing rec ttl rsp s')))"

definition handle :: "lib \<Rightarrow> middleware \<Rightarrow> 's surroundings \<Rightarrow> request \<Rightarrow> response \<Rightarrow> 's \<Rightarrow> answer \<times> 's" where
  "handle L m X rq rsp s =
     (case handle_prepare L m rq rsp of
        P_run \<Rightarrow> do_Next X rq rsp s
      | P_answer a \<Rightarrow> (a, s)
      | P_store key fingerprint ttl lease0 \<Rightarrow>
          (let rec = processing_record fingerprint (new_owner X s);
               lease = effective_lease ttl lease0;
               store_error = (\<lambda>s. case onStoreError L m rsp of P_answer a \<Rightarrow> (a, s) | _ \<Rightarrow> do_Next X rq rsp s) in
           case json_record L rec of
             None \<Rightarrow> store_error s
           | Some processing \<Rightarrow>
               if extender m \<and> lease < MinHeartbeatLease then (respondUnavailable L m rsp, s)
               else
                 (case do_Acquire X key processing lease s of
                    (Acquire_error, s') \<Rightarrow> store_error s'
                  | (Acquired, s') \<Rightarrow> handleStoreAcquired L m X rq rsp key processing rec ttl s'
                  | (Held stored, s') \<Rightarrow> (answer_held L m fingerprint stored rsp, s'))))"

definition Check :: "lib \<Rightarrow> middleware option \<Rightarrow> 's surroundings \<Rightarrow> request \<Rightarrow> response \<Rightarrow> 's \<Rightarrow> answer \<times> 's" where
  "Check L middleware X rq rsp s = (case middleware of None \<Rightarrow> do_Next X rq rsp s | Some m \<Rightarrow> handle L m X rq rsp s)"

datatype fence_error =
    ErrFenceStoreMissing | ErrInvalidTTL | ErrFenceKeyProvider | ErrFenceKeyMissing | ErrFenceKeyTooLong
  | ErrTenantMalformed | ErrFenceTenantMissing | ErrFenceFingerprint | ErrFenceMarshal | ErrFenceStore | ErrFenceKeyHeld

definition FenceOutcomeUnknown ::
  "lib \<Rightarrow> middleware option \<Rightarrow> 's surroundings \<Rightarrow> request \<Rightarrow> int \<Rightarrow> 's \<Rightarrow> (fence_error + unit) \<times> 's" where
  "FenceOutcomeUnknown L middleware X rq ttl s =
     (case middleware of
        None \<Rightarrow> (Inl ErrFenceStoreMissing, s)
      | Some m \<Rightarrow>
          if store_nil m then (Inl ErrFenceStoreMissing, s)
          else if ttl \<le> 0 then (Inl ErrInvalidTTL, s)
          else
            (case resolveKey m rq of
               Inl _ \<Rightarrow> (Inl ErrFenceKeyProvider, s)
             | Inr idempotencyKey \<Rightarrow>
                 if idempotencyKey = [] then (Inl ErrFenceKeyMissing, s)
                 else if maxKeyLength m < int (length idempotencyKey) then (Inl ErrFenceKeyTooLong, s)
                 else
                   (case resolveTenant m rq of
                      Inl _ \<Rightarrow> (Inl ErrTenantMalformed, s)
                    | Inr tenantID \<Rightarrow>
                        if tenantID = [] then (Inl ErrFenceTenantMissing, s)
                        else
                          (case resolveFingerprint L m rq of
                             Inl _ \<Rightarrow> (Inl ErrFenceFingerprint, s)
                           | Inr fingerprint \<Rightarrow>
                               (case json_record L (fence_record (processing_record fingerprint (new_owner X s))) of
                                  None \<Rightarrow> (Inl ErrFenceMarshal, s)
                                | Some fence \<Rightarrow>
                                    (case do_Acquire X (storeKey m tenantID idempotencyKey) fence ttl s of
                                       (Acquire_error, s') \<Rightarrow> (Inl ErrFenceStore, s')
                                     | (Acquired, s') \<Rightarrow> (Inr (), s')
                                     | (Held stored, s') \<Rightarrow>
                                         (case unjson_record L stored of
                                            Some current \<Rightarrow>
                                              if sr_Outcome current \<noteq> outcomeUnrecorded \<or> sr_Fingerprint current \<noteq> fingerprint
                                              then (Inl ErrFenceKeyHeld, s') else (Inr (), s')
                                          | None \<Rightarrow> (Inl ErrFenceKeyHeld, s'))))))))"

end
