(* ===== verification/Base64.thy ===== *)
theory Base64
  imports Commons_Prelude
begin

text \<open>
  Go's \<open>encoding/base64\<close>, as the cursors of \<open>commons/net/http\<close> use it: the padded standard
  alphabet and the unpadded URL alphabet. The decoder skips carriage returns and line feeds and
  accepts non-zero trailing bits, as Go's does outside strict mode. The result is \<open>None\<close> where Go
  returns a \<open>CorruptInputError\<close>, whose offset no caller reads.
\<close>

record encoding =
  alphabet :: string
  padded :: bool

definition StdEncoding :: encoding where
  "StdEncoding = \<lparr>alphabet = ''ABCDEFGHIJKLMNOPQRSTUVWXYZabcdefghijklmnopqrstuvwxyz0123456789+/'', padded = True\<rparr>"

definition RawURLEncoding :: encoding where
  "RawURLEncoding = \<lparr>alphabet = ''ABCDEFGHIJKLMNOPQRSTUVWXYZabcdefghijklmnopqrstuvwxyz0123456789-_'', padded = False\<rparr>"

text \<open>Three bytes become four six-bit values; a group of one or two bytes is padded with zero bits.\<close>

fun sextets :: "nat list \<Rightarrow> nat list" where
  "sextets [] = []"
| "sextets [a] = [a div 4, (a mod 4) * 16]"
| "sextets [a, b] = [a div 4, (a mod 4) * 16 + b div 16, (b mod 16) * 4]"
| "sextets (a # b # c # r) =
     a div 4 # ((a mod 4) * 16 + b div 16) # ((b mod 16) * 4 + c div 64) # (c mod 64) # sextets r"

fun octets :: "nat list \<Rightarrow> nat list option" where
  "octets [] = Some []"
| "octets [s] = None"
| "octets [s, t] = Some [s * 4 + t div 16]"
| "octets [s, t, u] = Some [s * 4 + t div 16, (t mod 16) * 16 + u div 4]"
| "octets (s # t # u # v # r) =
     map_option (\<lambda>bs. (s * 4 + t div 16) # ((t mod 16) * 16 + u div 4) # ((u mod 4) * 64 + v) # bs) (octets r)"

fun position :: "'a \<Rightarrow> 'a list \<Rightarrow> nat option" where
  "position x [] = None"
| "position x (y # ys) = (if x = y then Some 0 else map_option Suc (position x ys))"

fun positions :: "'a list \<Rightarrow> 'a list \<Rightarrow> nat list option" where
  "positions ys [] = Some []"
| "positions ys (x # xs) =
     (case position x ys of None \<Rightarrow> None | Some i \<Rightarrow> map_option ((#) i) (positions ys xs))"

definition EncodeToString :: "encoding \<Rightarrow> string \<Rightarrow> string" where
  "EncodeToString e src =
     map (\<lambda>i. alphabet e ! i) (sextets (map of_char src)) @
     (if padded e then replicate ((3 - length src mod 3) mod 3) CHR ''='' else [])"

definition DecodeString :: "encoding \<Rightarrow> string \<Rightarrow> string option" where
  "DecodeString e s =
     (let s = filter (\<lambda>c. c \<noteq> CHR 0x0A \<and> c \<noteq> CHR 0x0D) s;
          digits = takeWhile (\<lambda>c. c \<noteq> CHR ''='') s;
          rest = dropWhile (\<lambda>c. c \<noteq> CHR ''='') s
      in if rest = (if padded e then replicate ((4 - length digits mod 4) mod 4) CHR ''='' else [])
         then Option.bind (positions (alphabet e) digits) (map_option (map char_of) \<circ> octets)
         else None)"

definition proper :: "encoding \<Rightarrow> bool" where
  "proper e \<longleftrightarrow> length (alphabet e) = 64 \<and> distinct (alphabet e) \<and>
     CHR 0x0A \<notin> set (alphabet e) \<and> CHR 0x0D \<notin> set (alphabet e) \<and> CHR ''='' \<notin> set (alphabet e)"

lemma proper_encodings [simp]: "proper StdEncoding" "proper RawURLEncoding"
  by (simp_all add: proper_def StdEncoding_def RawURLEncoding_def)

subsection \<open>Decoding what was encoded\<close>

lemma sextets_bound: "\<forall>b \<in> set bs. b < 256 \<Longrightarrow> i \<in> set (sextets bs) \<Longrightarrow> i < 64"
  by (induction bs rule: sextets.induct) auto

lemma regroup_octet:
  fixes a b c :: nat
  assumes "b < 256" "c < 256"
  shows "(a div 4) * 4 + ((a mod 4) * 16 + b div 16) div 16 = a"
    and "(((a mod 4) * 16 + b div 16) mod 16) * 16 + ((b mod 16) * 4 + c div 64) div 4 = b"
    and "(((b mod 16) * 4 + c div 64) mod 4) * 64 + c mod 64 = c"
proof -
  have lt: "b div 16 < 16" "c div 64 < 4" using assms by auto
  show "(a div 4) * 4 + ((a mod 4) * 16 + b div 16) div 16 = a"
    using lt by simp
  have "((a mod 4) * 16 + b div 16) mod 16 = b div 16" "((b mod 16) * 4 + c div 64) div 4 = b mod 16"
    "((b mod 16) * 4 + c div 64) mod 4 = c div 64"
    using lt by simp_all
  then show "(((a mod 4) * 16 + b div 16) mod 16) * 16 + ((b mod 16) * 4 + c div 64) div 4 = b"
    "(((b mod 16) * 4 + c div 64) mod 4) * 64 + c mod 64 = c"
    by simp_all
qed

lemma octets_sextets: "\<forall>b \<in> set bs. b < 256 \<Longrightarrow> octets (sextets bs) = Some bs"
proof (induction bs rule: sextets.induct)
  case (4 a b c r)
  have "(a div 4) * 4 + ((a mod 4) * 16 + b div 16) div 16 = a"
    "(((a mod 4) * 16 + b div 16) mod 16) * 16 + ((b mod 16) * 4 + c div 64) div 4 = b"
    "(((b mod 16) * 4 + c div 64) mod 4) * 64 + c mod 64 = c"
    using "4.prems" by (auto intro: regroup_octet)
  then show ?case using 4 by simp
next
  case (2 a)
  then show ?case by simp
next
  case (3 a b)
  then show ?case using regroup_octet [of b 0] by simp
qed simp

lemma length_sextets: "length (sextets bs) = (4 * length bs + 2) div 3"
  by (induction bs rule: sextets.induct) auto

lemma position_nth: "distinct ys \<Longrightarrow> i < length ys \<Longrightarrow> position (ys ! i) ys = Some i"
  by (induction ys arbitrary: i) (auto simp: nth_Cons split: nat.split)

lemma positions_map_nth:
  "distinct ys \<Longrightarrow> (\<And>i. i \<in> set is \<Longrightarrow> i < length ys) \<Longrightarrow> positions ys (map (\<lambda>i. ys ! i) is) = Some is"
  by (induction "is") (simp_all add: position_nth)

lemma octet_of_char: "\<forall>b \<in> set (map of_char (s :: string)). (b :: nat) < 256"
  by (auto simp: of_char_def) 

lemma thirds:
  fixes n :: nat
  obtains (0) q where "n = 3 * q" "(4 * n + 2) div 3 = 4 * q" "(n + 2) div 3 = q"
  | (1) q where "n = 3 * q + 1" "(4 * n + 2) div 3 = 4 * q + 2" "(n + 2) div 3 = q + 1"
  | (2) q where "n = 3 * q + 2" "(4 * n + 2) div 3 = 4 * q + 3" "(n + 2) div 3 = q + 1"
proof -
  have "n = 3 * (n div 3) + n mod 3" by simp
  moreover have "n mod 3 = 0 \<or> n mod 3 = 1 \<or> n mod 3 = 2" by auto
  ultimately consider "n = 3 * (n div 3)" | "n = 3 * (n div 3) + 1" | "n = 3 * (n div 3) + 2" by fastforce
  then show thesis
    by cases (rule that, assumption, presburger, presburger)+
qed

lemma pad_count: "(4 - (4 * n + 2) div 3 mod 4) mod 4 = (3 - n mod 3) mod (3 :: nat)"
proof (cases n rule: thirds)
  case (1 q)
  have "(4 * q + 2) mod 4 = 2" "(3 * q + 1) mod 3 = 1" by presburger+
  with 1 show ?thesis by simp
next
  case (2 q)
  have "(4 * q + 3) mod 4 = 3" "(3 * q + 2) mod 3 = 2" by presburger+
  with 2 show ?thesis by simp
qed simp_all

lemma takeWhile_replicate_end [simp]:
  "(\<And>x. x \<in> set xs \<Longrightarrow> x \<noteq> a) \<Longrightarrow> takeWhile (\<lambda>c. c \<noteq> a) (xs @ replicate n a) = xs"
  "(\<And>x. x \<in> set xs \<Longrightarrow> x \<noteq> a) \<Longrightarrow> dropWhile (\<lambda>c. c \<noteq> a) (xs @ replicate n a) = replicate n a"
  by (induction xs; cases n; simp)+

theorem DecodeString_EncodeToString:
  assumes "proper e"
  shows "DecodeString e (EncodeToString e s) = Some s"
proof -
  let ?is = "sextets (map of_char s)" and ?a = "alphabet e"
  let ?ds = "map (\<lambda>i. ?a ! i) ?is" and ?n = "if padded e then (3 - length s mod 3) mod 3 else 0"
  have bound: "i < length ?a" if "i \<in> set ?is" for i
    using sextets_bound [OF octet_of_char that] assms by (simp add: proper_def)
  have in_a: "c \<in> set ?a" if "c \<in> set ?ds" for c
    using that bound by auto
  have enc: "EncodeToString e s = ?ds @ replicate ?n CHR ''=''"
    by (simp add: EncodeToString_def)
  have no_break: "c \<noteq> CHR 0x0A" "c \<noteq> CHR 0x0D" if "c \<in> set ?ds" for c
    using in_a [OF that] assms by (auto simp: proper_def)
  have filt: "filter (\<lambda>c. c \<noteq> CHR 0x0A \<and> c \<noteq> CHR 0x0D) (?ds @ replicate ?n CHR ''='') =
      ?ds @ replicate ?n CHR ''=''"
    using no_break by (auto intro!: filter_True)
  have no_eq: "c \<noteq> CHR ''=''" if "c \<in> set ?ds" for c
    using in_a [OF that] assms by (auto simp: proper_def)
  have split: "takeWhile (\<lambda>c. c \<noteq> CHR ''='') (?ds @ replicate ?n CHR ''='') = ?ds"
    "dropWhile (\<lambda>c. c \<noteq> CHR ''='') (?ds @ replicate ?n CHR ''='') = replicate ?n CHR ''=''"
    by (rule takeWhile_replicate_end, erule no_eq)+
  have pos: "positions ?a ?ds = Some ?is"
    using assms bound by (intro positions_map_nth) (simp_all add: proper_def)
  have len: "length ?ds = (4 * length s + 2) div 3"
    by (simp add: length_sextets)
  show ?thesis
    unfolding DecodeString_def Let_def enc filt split pos len pad_count
    by (simp add: octets_sextets [OF octet_of_char] o_def)
qed

lemma length_EncodeToString:
  "length (EncodeToString e s) =
     (if padded e then 4 * ((length s + 2) div 3) else (4 * length s + 2) div 3)"
proof -
  define n where "n = length s"
  have "(4 * n + 2) div 3 + (3 - n mod 3) mod 3 = 4 * ((n + 2) div 3)"
  proof (cases n rule: thirds)
    case (2 q)
    have "(3 * q + 2) mod 3 = 2" by presburger
    with 2 show ?thesis by simp
  qed simp_all
  then show ?thesis by (simp add: EncodeToString_def length_sextets n_def)
qed

lemma EncodeToString_alphabet: "proper e \<Longrightarrow> c \<in> set (EncodeToString e s) \<Longrightarrow> c \<in> set (alphabet e) \<or> c = CHR ''=''"
  using sextets_bound [OF octet_of_char] by (fastforce simp: EncodeToString_def proper_def split: if_splits)

lemma EncodeToString_inject [simp]: "proper e \<Longrightarrow> EncodeToString e s = EncodeToString e t \<longleftrightarrow> s = t"
  by (metis DecodeString_EncodeToString option.inject)

end
