(* ===== verification/Signed_Cursor.thy ===== *)
theory Signed_Cursor
  imports Base64 Go_Text
begin

text \<open>
  \<open>commons/net/http/signedcursor\<close>: page tokens that are signed and bound to who reads and to what is
  read. HMAC-SHA256 is the parameter \<open>hmac\<close> (key, message), the JSON decoder the parameter
  \<open>unmarshal\<close>; the wire layout, the base64 encodings, the signed byte sequences and the order of the
  checks are those of signedcursor.go. A Go byte slice is \<open>None\<close> when it is nil.
\<close>

subsection \<open>Constants and errors\<close>

definition KeySize :: nat where "KeySize = 32"

definition cursor_version :: int where "cursor_version = 1"

definition MaxPayloadLen :: nat where "MaxPayloadLen = 2048"

definition MaxTokenLen :: nat where "MaxTokenLen = 4096"

definition fingerprintBytes :: nat where "fingerprintBytes = 16"

definition bodyDomain :: string where "bodyDomain = ''lc-signedcursor-body-v1''"

definition identityDomain :: string where "identityDomain = ''lc-signedcursor-identity-v1''"

definition contextDomain :: string where "contextDomain = ''lc-signedcursor-context-v1''"

datatype cursor_error =
    ErrInvalidKey | ErrEmptyIdentity | ErrPayloadTooLarge
  | ErrMalformed | ErrSignature | ErrVersion int | ErrIdentityMismatch | ErrContextMismatch

text \<open>\<open>errors.Is(err, ErrInvalidCursor)\<close>: the faults of the caller.\<close>

fun is_ErrInvalidCursor :: "cursor_error \<Rightarrow> bool" where
  "is_ErrInvalidCursor ErrInvalidKey = False"
| "is_ErrInvalidCursor ErrEmptyIdentity = False"
| "is_ErrInvalidCursor ErrPayloadTooLarge = False"
| "is_ErrInvalidCursor e = True"

type_synonym go_bytes = "string option"

definition bytes_of :: "go_bytes \<Rightarrow> string" where
  "bytes_of b = (case b of None \<Rightarrow> [] | Some s \<Rightarrow> s)"

record binding =
  Identity :: "string list"
  Context :: "string list"

record envelope =
  env_version :: int
  env_payload :: go_bytes
  env_identity :: string
  env_context :: string

record codec =
  key :: string

subsection \<open>Operations\<close>

definition NewCodec :: "string \<Rightarrow> cursor_error + codec" where
  "NewCodec k = (if length k \<noteq> KeySize then Inl ErrInvalidKey else Inr \<lparr>key = k\<rparr>)"

definition usable :: "codec option \<Rightarrow> cursor_error + unit" where
  "usable c = refuse (case c of None \<Rightarrow> True | Some c \<Rightarrow> length (key c) \<noteq> KeySize) ErrInvalidKey"

fun hasIdentity :: "string list \<Rightarrow> bool" where
  "hasIdentity [] = False"
| "hasIdentity (term # terms) = (if term \<noteq> [] then True else hasIdentity terms)"

fun mac_parts :: "string list \<Rightarrow> string" where
  "mac_parts [] = []"
| "mac_parts (part # parts) = be64 (length part) @ part @ mac_parts parts"

definition mac :: "(string \<Rightarrow> string \<Rightarrow> string) \<Rightarrow> codec \<Rightarrow> string \<Rightarrow> string list \<Rightarrow> string" where
  "mac hmac c domain parts = hmac (key c) (domain @ mac_parts parts)"

definition fingerprint :: "(string \<Rightarrow> string \<Rightarrow> string) \<Rightarrow> codec \<Rightarrow> string \<Rightarrow> string list \<Rightarrow> string" where
  "fingerprint hmac c domain terms =
     EncodeToString RawURLEncoding (take fingerprintBytes (mac hmac c domain terms))"

text \<open>
  \<open>json.Marshal\<close> of an envelope: the fields in order, a byte slice in standard base64, a nil one as
  \<open>null\<close>. The two fingerprints are base64url, so nothing in them is escaped.
\<close>

definition quoted :: "string \<Rightarrow> string" where
  "quoted s = CHR 0x22 # s @ [CHR 0x22]"

definition marshal_envelope :: "envelope \<Rightarrow> string" where
  "marshal_envelope env =
     ''{'' @ quoted ''v'' @ '':'' @ FormatInt (env_version env) @ '','' @
     quoted ''p'' @ '':'' @ (case env_payload env of None \<Rightarrow> ''null'' | Some p \<Rightarrow> quoted (EncodeToString StdEncoding p)) @ '','' @
     quoted ''i'' @ '':'' @ quoted (env_identity env) @ '','' @
     quoted ''c'' @ '':'' @ quoted (env_context env) @ ''}''"

definition envelope_for :: "(string \<Rightarrow> string \<Rightarrow> string) \<Rightarrow> codec \<Rightarrow> go_bytes \<Rightarrow> binding \<Rightarrow> envelope" where
  "envelope_for hmac c payload b =
     \<lparr>env_version = cursor_version, env_payload = payload,
      env_identity = fingerprint hmac c identityDomain (Identity b),
      env_context = fingerprint hmac c contextDomain (Context b)\<rparr>"

definition sign_body :: "(string \<Rightarrow> string \<Rightarrow> string) \<Rightarrow> codec \<Rightarrow> string \<Rightarrow> string" where
  "sign_body hmac c body = EncodeToString RawURLEncoding (body @ mac hmac c bodyDomain [body])"

definition Encode ::
  "(string \<Rightarrow> string \<Rightarrow> string) \<Rightarrow> codec option \<Rightarrow> go_bytes \<Rightarrow> binding \<Rightarrow> cursor_error + string" where
  "Encode hmac c payload b =
     bind_res (usable c) (\<lambda>_.
     bind_res (refuse (\<not> hasIdentity (Identity b)) ErrEmptyIdentity) (\<lambda>_.
     bind_res (refuse (length (bytes_of payload) > MaxPayloadLen) ErrPayloadTooLarge) (\<lambda>_.
     Inr (sign_body hmac (the c) (marshal_envelope (envelope_for hmac (the c) payload b))))))"

definition check_envelope ::
  "(string \<Rightarrow> string \<Rightarrow> string) \<Rightarrow> codec \<Rightarrow> binding \<Rightarrow> envelope \<Rightarrow> cursor_error + go_bytes" where
  "check_envelope hmac c b env =
     bind_res (refuse (env_version env \<noteq> cursor_version) (ErrVersion (env_version env))) (\<lambda>_.
     bind_res (refuse (env_identity env \<noteq> fingerprint hmac c identityDomain (Identity b)) ErrIdentityMismatch) (\<lambda>_.
     bind_res (refuse (env_context env \<noteq> fingerprint hmac c contextDomain (Context b)) ErrContextMismatch) (\<lambda>_.
     Inr (env_payload env))))"

definition Decode ::
  "(string \<Rightarrow> string \<Rightarrow> string) \<Rightarrow> (string \<Rightarrow> envelope option) \<Rightarrow> codec option \<Rightarrow> string \<Rightarrow> binding \<Rightarrow>
   cursor_error + go_bytes" where
  "Decode hmac unmarshal c token b =
     bind_res (usable c) (\<lambda>_.
     bind_res (refuse (\<not> hasIdentity (Identity b)) ErrEmptyIdentity) (\<lambda>_.
     bind_res (refuse (length token > MaxTokenLen) ErrMalformed) (\<lambda>_.
     (case DecodeString RawURLEncoding token of
        None \<Rightarrow> Inl ErrMalformed
      | Some raw \<Rightarrow>
          if length raw \<le> 32 then Inl ErrMalformed
          else (let body = take (length raw - 32) raw; tag = drop (length raw - 32) raw in
            if tag \<noteq> mac hmac (the c) bodyDomain [body] then Inl ErrSignature
            else (case unmarshal body of
                    None \<Rightarrow> Inl ErrMalformed
                  | Some env \<Rightarrow> check_envelope hmac (the c) b env))))))"

subsection \<open>What is signed determines what was bound\<close>

lemma mac_parts_inject:
  assumes "mac_parts ps = mac_parts qs"
    and "\<And>p. p \<in> set ps \<Longrightarrow> length p < 2 ^ 64" and "\<And>q. q \<in> set qs \<Longrightarrow> length q < 2 ^ 64"
  shows "ps = qs"
  using assms
proof (induction ps arbitrary: qs)
  case Nil
  then show ?case by (cases qs) (auto simp: be64_def)
next
  case (Cons p ps)
  then obtain q qs' where qs: "qs = q # qs'" by (cases qs) (auto simp: be64_def)
  have "be64 (length p) @ p @ mac_parts ps = be64 (length q) @ q @ mac_parts qs'"
    using Cons.prems(1) by (simp add: qs)
  then have be: "be64 (length p) = be64 (length q)" and r: "p @ mac_parts ps = q @ mac_parts qs'"
    by (simp_all add: append_eq_append_conv)
  have "length p = length q"
    using be Cons.prems(2,3) by (intro be64_inject) (auto simp: qs)
  then have "p = q" "mac_parts ps = mac_parts qs'" using r by auto
  then show ?case using Cons.IH [of qs'] Cons.prems(2,3) by (simp add: qs)
qed


text \<open>The three uses of the key never sign the same bytes.\<close>

lemma domains_disjoint [simp]:
  "bodyDomain @ x \<noteq> identityDomain @ y" "identityDomain @ y \<noteq> bodyDomain @ x"
  "bodyDomain @ x \<noteq> contextDomain @ y" "contextDomain @ y \<noteq> bodyDomain @ x"
  "identityDomain @ x \<noteq> contextDomain @ y" "contextDomain @ y \<noteq> identityDomain @ x"
  by (simp_all add: bodyDomain_def identityDomain_def contextDomain_def)

subsection \<open>The layout on the wire\<close>

lemma length_marshal_envelope:
  assumes "length (env_identity env) = 22" and "length (env_context env) = 22" and "env_version env = cursor_version"
    and "length (bytes_of (env_payload env)) \<le> MaxPayloadLen"
  shows "marshal_envelope env \<noteq> []" and "length (marshal_envelope env) \<le> 2806"
proof -
  let ?p = "case env_payload env of None \<Rightarrow> ''null'' | Some p \<Rightarrow> quoted (EncodeToString StdEncoding p)"
  have v: "length (FormatInt (env_version env)) = 1"
    using assms(3) by (simp add: FormatInt_def cursor_version_def itoa_digit)
  have "(n + 2) div 3 \<le> 683" if "n \<le> 2048" for n :: nat
    using that div_le_mono [of "n + 2" 2050 3] by simp
  then have "length ?p \<le> 2734"
    using assms(4)
    by (fastforce simp: bytes_of_def quoted_def MaxPayloadLen_def length_EncodeToString StdEncoding_def split: option.split)
  then show "marshal_envelope env \<noteq> []" and "length (marshal_envelope env) \<le> 2806"
    using v assms(1,2) by (simp_all add: marshal_envelope_def quoted_def)
qed

definition hmac_size :: "(string \<Rightarrow> string \<Rightarrow> string) \<Rightarrow> bool" where
  "hmac_size hmac \<longleftrightarrow> (\<forall>k m. length (hmac k m) = 32)"

lemma length_mac: "hmac_size hmac \<Longrightarrow> length (mac hmac c d ps) = 32"
  by (simp add: hmac_size_def mac_def)

lemma length_fingerprint: "hmac_size hmac \<Longrightarrow> length (fingerprint hmac c d ts) = 22"
  by (simp add: fingerprint_def length_EncodeToString length_mac fingerprintBytes_def RawURLEncoding_def)

text \<open>
  The decoder reads back what \<open>marshal_envelope\<close> wrote, fingerprints being free of quotes and
  escapes: what \<open>json.Unmarshal\<close> documents of \<open>json.Marshal\<close>.
\<close>

definition url_safe :: "string \<Rightarrow> bool" where
  "url_safe s \<longleftrightarrow> set s \<subseteq> set (alphabet RawURLEncoding)"

definition json_reads_back :: "(string \<Rightarrow> envelope option) \<Rightarrow> bool" where
  "json_reads_back unmarshal \<longleftrightarrow>
     (\<forall>env. env_version env = cursor_version \<and> url_safe (env_identity env) \<and> url_safe (env_context env) \<longrightarrow> unmarshal (marshal_envelope env) = Some env)"

lemma url_safe_fingerprint: "url_safe (fingerprint hmac c d ts)"
  unfolding url_safe_def
proof
  fix x assume "x \<in> set (fingerprint hmac c d ts)"
  then have "x \<in> set (map ((!) (alphabet RawURLEncoding)) (sextets (map of_char (take fingerprintBytes (mac hmac c d ts)))))"
    by (simp add: fingerprint_def EncodeToString_def RawURLEncoding_def)
  then show "x \<in> set (alphabet RawURLEncoding)"
    using sextets_bound [OF octet_of_char] proper_encodings(2) by (auto simp: proper_def)
qed

text \<open>A token that was signed, and what a decoder makes of it.\<close>

lemma Decode_signed:
  fixes c :: codec and b :: binding and p :: go_bytes
  assumes "hmac_size hmac" and "json_reads_back unmarshal" and "length (key c') = KeySize"
    and "length (bytes_of p) \<le> MaxPayloadLen" and "hasIdentity (Identity b')"
  defines "body \<equiv> marshal_envelope (envelope_for hmac c p b)"
  shows "length (sign_body hmac c body) \<le> MaxTokenLen"
    and "Decode hmac unmarshal (Some c') (sign_body hmac c body) b' =
      (if mac hmac c bodyDomain [body] \<noteq> mac hmac c' bodyDomain [body] then Inl ErrSignature
       else check_envelope hmac c' b' (envelope_for hmac c p b))"
proof -
  let ?raw = "body @ mac hmac c bodyDomain [body]"
  have body: "body \<noteq> []" "length body \<le> 2806"
    unfolding body_def using assms(1,4)
    by (intro length_marshal_envelope; simp add: envelope_for_def length_fingerprint)+
  have tag: "length (mac hmac c bodyDomain [body]) = 32" using assms(1) by (rule length_mac)
  have "(4 * length ?raw + 2) div 3 \<le> 4096"
    using div_le_mono [of "4 * length ?raw + 2" 11354 3] body tag by simp
  then show len: "length (sign_body hmac c body) \<le> MaxTokenLen"
    by (simp add: sign_body_def length_EncodeToString RawURLEncoding_def MaxTokenLen_def)
  have dec: "DecodeString RawURLEncoding (sign_body hmac c body) = Some ?raw"
    unfolding sign_body_def by (rule DecodeString_EncodeToString) simp
  have "unmarshal body = Some (envelope_for hmac c p b)"
    using assms(2) by (simp add: json_reads_back_def body_def envelope_for_def url_safe_fingerprint)
  then show "Decode hmac unmarshal (Some c') (sign_body hmac c body) b' =
      (if mac hmac c bodyDomain [body] \<noteq> mac hmac c' bodyDomain [body] then Inl ErrSignature
       else check_envelope hmac c' b' (envelope_for hmac c p b))"
    unfolding Decode_def dec using len tag body assms(3,5) by (simp add: usable_def)
qed

text \<open>A tag that does not verify ends the call before a byte of the body is parsed.\<close>

lemma Decode_unauthenticated:
  assumes "DecodeString RawURLEncoding token = Some (body @ tag)" and "length tag = 32"
    and "tag \<noteq> mac hmac c bodyDomain [body]"
  shows "Decode hmac unmarshal (Some c) token b = Decode hmac unmarshal' (Some c) token b"
    and "\<exists>e. Decode hmac unmarshal (Some c) token b = Inl e"
  using assms by (auto simp: Decode_def bind_res_def usable_def refuse_def)

text \<open>
  C36. Whatever ordering tuple of at most 2048 bytes a page is minted for, under any usable codec and
  any binding with an identity, minting succeeds, the token is within the length the decoder admits,
  and the same binding reads back exactly that tuple, a nil one as nil.\<close>

theorem cursor_round_trip:
  assumes "hmac_size hmac" and "json_reads_back unmarshal" and "length (key c) = KeySize"
    and "length (bytes_of payload) \<le> MaxPayloadLen" and "hasIdentity (Identity b)"
  shows "\<exists>token. Encode hmac (Some c) payload b = Inr token \<and> length token \<le> MaxTokenLen \<and>
    Decode hmac unmarshal (Some c) token b = Inr payload"
  using assms Decode_signed [OF assms(1,2,3,4,5), of c b]
  by (simp add: Encode_def usable_def check_envelope_def envelope_for_def)


subsection \<open>A decoder and a keyed function for the witnesses\<close>

definition read_until_quote :: "string \<Rightarrow> string \<times> string" where
  "read_until_quote s = (takeWhile (\<lambda>c. c \<noteq> CHR 0x22) s, drop 1 (dropWhile (\<lambda>c. c \<noteq> CHR 0x22) s))"

definition read_minted :: "string \<Rightarrow> envelope option" where
  "read_minted s =
     Option.bind (strip_prefix (''{'' @ quoted ''v'' @ '':1,'' @ quoted ''p'' @ '':'') s) (\<lambda>s.
     let (payload, s) =
       (case s of [] \<Rightarrow> (None, s)
        | c # cs \<Rightarrow> if c = CHR 0x22 then (let (p, r) = read_until_quote cs in (DecodeString StdEncoding p, r)) else (None, drop 4 s)) in
     Option.bind (strip_prefix ('','' @ quoted ''i'' @ '':'' @ [CHR 0x22]) s) (\<lambda>s.
     let (i, s) = read_until_quote s in
     Option.bind (strip_prefix ('','' @ quoted ''c'' @ '':'' @ [CHR 0x22]) s) (\<lambda>s.
     let (c, s) = read_until_quote s in
     Some \<lparr>env_version = 1, env_payload = payload, env_identity = i, env_context = c\<rparr>)))"

lemma read_until_quote: "CHR 0x22 \<notin> set s \<Longrightarrow> read_until_quote (s @ CHR 0x22 # r) = (s, r)"
  by (induction s) (auto simp: read_until_quote_def)

lemma no_quote:
  "url_safe s \<Longrightarrow> CHR 0x22 \<notin> set s" "CHR 0x22 \<notin> set (EncodeToString StdEncoding t)"
  using EncodeToString_alphabet [OF proper_encodings(1), of "CHR 0x22" t]
  by (auto simp: url_safe_def RawURLEncoding_def StdEncoding_def)

lemma read_minted_reads_back: "json_reads_back read_minted"
  unfolding json_reads_back_def
proof (intro allI impI)
  fix env :: envelope
  assume a: "env_version env = cursor_version \<and> url_safe (env_identity env) \<and> url_safe (env_context env)"
  have v: "FormatInt 1 = ''1''" by code_simp
  have w: "env_version env = 1" using a by (simp add: cursor_version_def)
  show "read_minted (marshal_envelope env) = Some env"
    using a w
    by (cases "env_payload env")
      (auto simp: read_minted_def marshal_envelope_def v quoted_def read_until_quote no_quote DecodeString_EncodeToString)
qed

definition toy_hmac :: "string \<Rightarrow> string \<Rightarrow> string" where
  "toy_hmac k m = take 32 (take 1 (drop 16 m) @ rev m @ k @ replicate 32 CHR 0x00)"

lemma toy_hmac_size: "hmac_size toy_hmac"
proof -
  have "length (take 32 (xs @ replicate 32 x)) = 32" for xs :: string and x by simp
  from this [of "take 1 (drop 16 m) @ rev m @ k" "CHR 0x00" for m k] show ?thesis
    unfolding hmac_size_def toy_hmac_def by (simp only: append_assoc) blast
qed

theorem cursor_round_trip_witness:
  "\<exists>token. Encode toy_hmac (Some \<lparr>key = replicate 32 CHR ''k''\<rparr>) (Some ''tuple'') \<lparr>Identity = [''tenant-a''], Context = []\<rparr> = Inr token \<and>
    length token \<le> MaxTokenLen \<and>
    Decode toy_hmac read_minted (Some \<lparr>key = replicate 32 CHR ''k''\<rparr>) token \<lparr>Identity = [''tenant-a''], Context = []\<rparr> = Inr (Some ''tuple'')"
  by (rule cursor_round_trip [OF toy_hmac_size read_minted_reads_back])
    (simp_all add: KeySize_def bytes_of_def MaxPayloadLen_def)


subsection \<open>A token presented elsewhere\<close>

text \<open>
  The key and message pairs on which the decision about a token rests: its body under either key, and
  the terms of the two bindings.
\<close>

definition hashed :: "codec \<Rightarrow> codec \<Rightarrow> string \<Rightarrow> binding \<Rightarrow> binding \<Rightarrow> (string \<times> string) list" where
  "hashed c c' body b b' =
     [(key c, bodyDomain @ mac_parts [body]), (key c', bodyDomain @ mac_parts [body]),
      (key c, identityDomain @ mac_parts (Identity b)), (key c, identityDomain @ mac_parts (Identity b')),
      (key c, contextDomain @ mac_parts (Context b)), (key c, contextDomain @ mac_parts (Context b'))]"

definition no_collision :: "(string \<Rightarrow> string \<Rightarrow> string) \<Rightarrow> (string \<times> string) list \<Rightarrow> bool" where
  "no_collision hmac ms \<longleftrightarrow>
     list_all (\<lambda>(k, m). list_all (\<lambda>(k', m'). take fingerprintBytes (hmac k m) = take fingerprintBytes (hmac k' m') \<longrightarrow>
       k = k' \<and> m = m') ms) ms"

definition terms_fit :: "binding \<Rightarrow> bool" where
  "terms_fit b \<longleftrightarrow> list_all (\<lambda>t. length t < 2 ^ 64) (Identity b @ Context b)"

lemma no_collisionD:
  "no_collision hmac ms \<Longrightarrow> (k, m) \<in> set ms \<Longrightarrow> (k', m') \<in> set ms \<Longrightarrow>
   take fingerprintBytes (hmac k m) = take fingerprintBytes (hmac k' m') \<Longrightarrow> k = k' \<and> m = m'"
  unfolding no_collision_def list_all_iff by fastforce

lemma fingerprint_eq:
  assumes "no_collision hmac ms" and "(key c, d @ mac_parts ts) \<in> set ms" and "(key c, d @ mac_parts us) \<in> set ms"
    and "\<And>t. t \<in> set ts \<Longrightarrow> length t < 2 ^ 64" and "\<And>u. u \<in> set us \<Longrightarrow> length u < 2 ^ 64"
  shows "fingerprint hmac c d ts = fingerprint hmac c d us \<longleftrightarrow> ts = us"
  using no_collisionD [OF assms(1-3)] mac_parts_inject [of ts us, OF _ assms(4,5)]
  by (auto simp: fingerprint_def mac_def)

text \<open>
  C37. What becomes of a token minted by one codec for one binding when it is presented to any codec
  under any binding, unless SHA-256 collides on the messages at hand: without an identity the call is
  refused as a server fault; under another key the signature does not verify; under the same key
  another identity, compared term by term, is refused as such whatever the context; then another
  context; and otherwise the payload is returned. So terms cannot be regrouped or moved between
  identity and context to pass for another binding.\<close>

theorem cursor_presented_elsewhere:
  assumes "hmac_size hmac" and "json_reads_back unmarshal"
    and "length (key c') = KeySize" and "terms_fit b" and "terms_fit b'"
    and "Encode hmac (Some c) payload b = Inr token"
    and "no_collision hmac (hashed c c' (marshal_envelope (envelope_for hmac c payload b)) b b')"
  shows "Decode hmac unmarshal (Some c') token b' =
    (if \<not> hasIdentity (Identity b') then Inl ErrEmptyIdentity
     else if key c' \<noteq> key c then Inl ErrSignature
     else if Identity b' \<noteq> Identity b then Inl ErrIdentityMismatch
     else if Context b' \<noteq> Context b then Inl ErrContextMismatch
     else Inr payload)"
proof (cases "hasIdentity (Identity b')")
  case False
  then show ?thesis using assms(3) by (simp add: Decode_def usable_def)
next
  case True
  let ?body = "marshal_envelope (envelope_for hmac c payload b)"
  have token: "token = sign_body hmac c ?body" and small: "length (bytes_of payload) \<le> MaxPayloadLen"
    using assms(6) by (auto simp: Encode_def res_simps not_less)
  have sig: "mac hmac c bodyDomain [?body] = mac hmac c' bodyDomain [?body] \<longleftrightarrow> key c' = key c"
    using no_collisionD [OF assms(7), of "key c" "bodyDomain @ mac_parts [?body]" "key c'" "bodyDomain @ mac_parts [?body]"]
    by (auto simp: mac_def hashed_def)
  have fits: "length t < 2 ^ 64" if "t \<in> set (Identity b) \<union> set (Context b) \<union> set (Identity b') \<union> set (Context b')" for t
    using assms(4,5) that by (auto simp: terms_fit_def list_all_iff)
  have ids: "fingerprint hmac c identityDomain (Identity b) = fingerprint hmac c identityDomain (Identity b') \<longleftrightarrow> Identity b' = Identity b"
    by (subst fingerprint_eq [OF assms(7)]) (use fits in \<open>auto simp: hashed_def\<close>)
  have ctx: "fingerprint hmac c contextDomain (Context b) = fingerprint hmac c contextDomain (Context b') \<longleftrightarrow> Context b' = Context b"
    by (subst fingerprint_eq [OF assms(7)]) (use fits in \<open>auto simp: hashed_def\<close>)
  have same: "fingerprint hmac c' = fingerprint hmac c" if "key c' = key c"
    using that by (intro ext) (simp add: fingerprint_def mac_def)
  show ?thesis
    unfolding token Decode_signed(2) [OF assms(1,2,3) small True] using True sig ids ctx same
    by (simp add: check_envelope_def envelope_for_def refuse_def)
qed

lemma be64_one_two:
  "be64 (Suc 0) = [CHR 0x00, CHR 0x00, CHR 0x00, CHR 0x00, CHR 0x00, CHR 0x00, CHR 0x00, CHR 0x01]"
  "be64 2 = [CHR 0x00, CHR 0x00, CHR 0x00, CHR 0x00, CHR 0x00, CHR 0x00, CHR 0x00, CHR 0x02]"
proof -
  have "char_of (0 :: nat) = CHR 0x00" "char_of (Suc 0) = CHR 0x01" "char_of (2 :: nat) = CHR 0x02" by code_simp+
  then show "be64 (Suc 0) = [CHR 0x00, CHR 0x00, CHR 0x00, CHR 0x00, CHR 0x00, CHR 0x00, CHR 0x00, CHR 0x01]"
    "be64 2 = [CHR 0x00, CHR 0x00, CHR 0x00, CHR 0x00, CHR 0x00, CHR 0x00, CHR 0x00, CHR 0x02]"
    by (simp_all add: be64_def)
qed

lemma toy_prefix:
  "take fingerprintBytes (toy_hmac k (bodyDomain @ x)) = CHR ''b'' # take 15 (rev x @ rev bodyDomain @ k @ replicate 32 CHR 0x00)"
  "take fingerprintBytes (toy_hmac k (identityDomain @ x)) = CHR ''i'' # take 15 (rev x @ rev identityDomain @ k @ replicate 32 CHR 0x00)"
  "take fingerprintBytes (toy_hmac k (contextDomain @ x)) = CHR ''c'' # take 15 (rev x @ rev contextDomain @ k @ replicate 32 CHR 0x00)"
proof -
  have start: "take fingerprintBytes (toy_hmac k (d @ x)) = a # take 15 (rev x @ rev d @ k @ replicate 32 CHR 0x00)"
    if "drop 16 d = a # ds" for a d ds
    using that by (simp add: toy_hmac_def fingerprintBytes_def del: take_append)
  have "drop 16 bodyDomain = CHR ''b'' # ''ody-v1''" "drop 16 identityDomain = CHR ''i'' # ''dentity-v1''"
    "drop 16 contextDomain = CHR ''c'' # ''ontext-v1''"
    by (simp_all add: bodyDomain_def identityDomain_def contextDomain_def)
  then show
    "take fingerprintBytes (toy_hmac k (bodyDomain @ x)) = CHR ''b'' # take 15 (rev x @ rev bodyDomain @ k @ replicate 32 CHR 0x00)"
    "take fingerprintBytes (toy_hmac k (identityDomain @ x)) = CHR ''i'' # take 15 (rev x @ rev identityDomain @ k @ replicate 32 CHR 0x00)"
    "take fingerprintBytes (toy_hmac k (contextDomain @ x)) = CHR ''c'' # take 15 (rev x @ rev contextDomain @ k @ replicate 32 CHR 0x00)"
    by - (rule start, assumption)+
qed

theorem cursor_presented_elsewhere_witness:
  "Decode toy_hmac read_minted (Some \<lparr>key = replicate 32 CHR ''k''\<rparr>)
     (projr (Encode toy_hmac (Some \<lparr>key = replicate 32 CHR ''k''\<rparr>) (Some ''tuple'') \<lparr>Identity = [''ab'', ''c''], Context = [''w'']\<rparr>))
     \<lparr>Identity = [''a'', ''bc''], Context = [''w'']\<rparr> = Inl ErrIdentityMismatch"
proof -
  let ?c = "\<lparr>key = replicate 32 CHR ''k''\<rparr>" and ?b = "\<lparr>Identity = [''ab'', ''c''], Context = [''w'']\<rparr>"
    and ?b' = "\<lparr>Identity = [''a'', ''bc''], Context = [''w'']\<rparr>"
  have "no_collision toy_hmac (hashed ?c ?c (marshal_envelope (envelope_for toy_hmac ?c (Some ''tuple'') ?b)) ?b ?b')"
    by (simp add: no_collision_def hashed_def toy_prefix be64_one_two)
  moreover have "Encode toy_hmac (Some ?c) (Some ''tuple'') ?b = Inr (projr (Encode toy_hmac (Some ?c) (Some ''tuple'') ?b))"
    by (simp add: Encode_def usable_def KeySize_def bytes_of_def MaxPayloadLen_def)
  ultimately show ?thesis
    using cursor_presented_elsewhere [OF toy_hmac_size read_minted_reads_back, of ?c ?b ?b' ?c "Some ''tuple''"]
    by (simp add: KeySize_def terms_fit_def)
qed

end
