(* ===== verification/Pagination.thy ===== *)
theory Pagination
  imports Base64 Cron "HOL-Library.List_Lexorder" "HOL-Library.Char_ord" "HOL-Library.Product_Lexorder"
begin

text \<open>
  \<open>commons/net/http\<close>: cursor.go, pagination.go, pagination_sort.go, pagination_timestamp.go and the
  query-parameter checks of validation.go. Query parameters are what \<open>fiber.Ctx.Query\<close> returns; the
  JSON codec of a cursor is a parameter, and so are the Unicode tables on text that is not ASCII. Ids
  are ordered as byte strings, which for UUIDs in canonical form is the order of the column.
\<close>

subsection \<open>Query parameters\<close>

definition DefaultLimit :: int where "DefaultLimit = 20"

definition DefaultOffset :: int where "DefaultOffset = 0"

definition MaxLimit :: int where "MaxLimit = 200"

definition SortDirASC :: string where "SortDirASC = ''ASC''"

definition SortDirDESC :: string where "SortDirDESC = ''DESC''"

definition MaxQueryParamLengthShort :: int where "MaxQueryParamLengthShort = 50"

definition MaxQueryParamLengthLong :: int where "MaxQueryParamLengthLong = 255"

datatype page_error =
    ErrLimitMustBePositive | ErrInvalidCursorFormat | ErrInvalidCursorDirection | ErrContextNotFound
  | Invalid_limit_value | Invalid_offset_value | Marshal_failed | ErrQueryParamTooLong string int

definition upper_char :: "char \<Rightarrow> char" where
  "upper_char c = (if 97 \<le> (of_char c :: nat) \<and> (of_char c :: nat) \<le> 122 then char_of (of_char c - 32 :: nat) else c)"

definition ToUpper :: "(string \<Rightarrow> string) \<Rightarrow> string \<Rightarrow> string" where
  "ToUpper uni s = (if list_all is_ascii s then map upper_char s else uni s)"

definition ValidateSortDirection :: "(string \<Rightarrow> string) \<Rightarrow> string \<Rightarrow> string" where
  "ValidateSortDirection uni dir =
     (let upper = ToUpper uni (trim_space dir) in if upper = SortDirDESC then SortDirDESC else SortDirASC)"

definition ValidateLimit :: "int \<Rightarrow> int \<Rightarrow> int \<Rightarrow> int" where
  "ValidateLimit limit defaultLimit maxLimit =
     (if limit \<le> 0 then defaultLimit else if limit > maxLimit then maxLimit else limit)"

definition ValidateLimitStrict :: "int \<Rightarrow> int \<Rightarrow> page_error + int" where
  "ValidateLimitStrict limit maxLimit =
     (if limit \<le> 0 then Inl ErrLimitMustBePositive else if limit > maxLimit then Inr maxLimit else Inr limit)"

definition ValidateQueryParamLength :: "string \<Rightarrow> string \<Rightarrow> int \<Rightarrow> page_error + unit" where
  "ValidateQueryParamLength v name maxLen = refuse (int (length v) > maxLen) (ErrQueryParamTooLong name maxLen)"

text \<open>A numeric query parameter with its default; \<open>None\<close> of the request is a nil context.\<close>

definition query_int :: "(string \<Rightarrow> string) \<Rightarrow> string \<Rightarrow> int \<Rightarrow> page_error \<Rightarrow> page_error + int" where
  "query_int query name dflt err =
     (if query name = [] then Inr dflt
      else (case Atoi (query name) of None \<Rightarrow> Inl err | Some v \<Rightarrow> Inr v))"

definition ParsePagination :: "(string \<Rightarrow> string) option \<Rightarrow> page_error + int \<times> int" where
  "ParsePagination ctx =
     (case ctx of None \<Rightarrow> Inl ErrContextNotFound
      | Some query \<Rightarrow>
          bind_res (query_int query ''limit'' DefaultLimit Invalid_limit_value) (\<lambda>limit.
          bind_res (query_int query ''offset'' DefaultOffset Invalid_offset_value) (\<lambda>offset.
          let limit = (if limit \<le> 0 then DefaultLimit else limit);
              limit = (if limit > MaxLimit then MaxLimit else limit);
              offset = (if offset < 0 then DefaultOffset else offset)
          in Inr (limit, offset))))"

definition cursor_limit :: "(string \<Rightarrow> string) \<Rightarrow> page_error + int" where
  "cursor_limit query =
     (if query ''limit'' = [] then Inr DefaultLimit
      else (case Atoi (query ''limit'') of
              None \<Rightarrow> Inl Invalid_limit_value
            | Some v \<Rightarrow> Inr (ValidateLimit v DefaultLimit MaxLimit)))"

definition ParseOpaqueCursorPagination :: "(string \<Rightarrow> string) option \<Rightarrow> page_error + string \<times> int" where
  "ParseOpaqueCursorPagination ctx =
     (case ctx of None \<Rightarrow> Inl ErrContextNotFound
      | Some query \<Rightarrow> bind_res (cursor_limit query) (\<lambda>limit.
          let cursorParam = query ''cursor'' in
          if cursorParam = [] then Inr ([], limit) else Inr (cursorParam, limit)))"

subsection \<open>Cursors\<close>

definition CursorDirectionNext :: string where "CursorDirectionNext = ''next''"

definition CursorDirectionPrev :: string where "CursorDirectionPrev = ''prev''"

record Cursor =
  ID :: string
  Direction :: string

record CursorPagination =
  Next :: string
  Prev :: string

text \<open>The two functions of \<open>encoding/json\<close> on a cursor type; \<open>None\<close> is an error.\<close>

type_synonym 'c json = "('c \<Rightarrow> string option) \<times> (string \<Rightarrow> 'c option)"

definition EncodeCursor :: "Cursor json \<Rightarrow> Cursor \<Rightarrow> page_error + string" where
  "EncodeCursor json cursor =
     bind_res (refuse (ID cursor = []) ErrInvalidCursorFormat) (\<lambda>_.
     bind_res (refuse (Direction cursor \<noteq> CursorDirectionNext \<and> Direction cursor \<noteq> CursorDirectionPrev) ErrInvalidCursorDirection) (\<lambda>_.
     (case fst json cursor of
        None \<Rightarrow> Inl Marshal_failed
      | Some cursorBytes \<Rightarrow> Inr (EncodeToString StdEncoding cursorBytes))))"

definition DecodeCursor :: "Cursor json \<Rightarrow> string \<Rightarrow> page_error + Cursor" where
  "DecodeCursor json cursor =
     (case DecodeString StdEncoding cursor of
        None \<Rightarrow> Inl ErrInvalidCursorFormat
      | Some decodedCursor \<Rightarrow>
          (case snd json decodedCursor of
             None \<Rightarrow> Inl ErrInvalidCursorFormat
           | Some cur \<Rightarrow>
               bind_res (refuse (ID cur = []) ErrInvalidCursorFormat) (\<lambda>_.
               bind_res (refuse (Direction cur \<noteq> CursorDirectionNext \<and> Direction cur \<noteq> CursorDirectionPrev) ErrInvalidCursorDirection) (\<lambda>_.
               Inr cur))))"

definition CursorDirectionRules :: "(string \<Rightarrow> string) \<Rightarrow> string \<Rightarrow> string \<Rightarrow> page_error + string \<times> string" where
  "CursorDirectionRules uni requestedSortDirection cursorDirection =
     (let order = ValidateSortDirection uni requestedSortDirection in
      if cursorDirection = CursorDirectionNext then
        (if order = SortDirASC then Inr (''>'', SortDirASC) else Inr (''<'', SortDirDESC))
      else if cursorDirection = CursorDirectionPrev then
        (if order = SortDirASC then Inr (''<'', SortDirDESC) else Inr (''>'', SortDirASC))
      else Inl ErrInvalidCursorDirection)"

text \<open>\<open>commons.Reverse\<close> swaps from both ends in place.\<close>

function reverse_loop :: "'a list \<Rightarrow> int \<Rightarrow> int \<Rightarrow> 'a list" where
  "reverse_loop s i j =
     (if i < j then reverse_loop (s[nat i := s ! nat j, nat j := s ! nat i]) (i + 1) (j - 1) else s)"
  by auto
termination
  by (relation "measure (\<lambda>(s, i, j). nat (j - i))") auto

declare reverse_loop.simps [simp del]

definition Reverse :: "'a list \<Rightarrow> 'a list" where
  "Reverse s = reverse_loop s 0 (int (length s) - 1)"

definition PaginateRecords :: "bool \<Rightarrow> bool \<Rightarrow> string \<Rightarrow> 'a list \<Rightarrow> int \<Rightarrow> 'a list" where
  "PaginateRecords unused hasPagination cursorDirection items limit =
     (let limit = (if \<not> hasPagination then int (length items) else limit);
          limit = (if limit < 0 then 0 else limit);
          limit = (if limit > int (length items) then int (length items) else limit);
          paginated = take (nat limit) items
      in if cursorDirection = CursorDirectionPrev then Reverse paginated else paginated)"

definition CalculateCursor ::
  "Cursor json \<Rightarrow> bool \<Rightarrow> bool \<Rightarrow> string \<Rightarrow> string \<Rightarrow> string \<Rightarrow> page_error + CursorPagination" where
  "CalculateCursor json isFirstPage hasPagination cursorDirection firstItemID lastItemID =
     bind_res (refuse (cursorDirection \<noteq> CursorDirectionNext \<and> cursorDirection \<noteq> CursorDirectionPrev) ErrInvalidCursorDirection) (\<lambda>_.
     let isPrev = (cursorDirection = CursorDirectionPrev) in
     bind_res
       (if isPrev \<or> hasPagination
        then EncodeCursor json \<lparr>ID = lastItemID, Direction = CursorDirectionNext\<rparr> else Inr []) (\<lambda>next.
     bind_res
       (if \<not> isFirstPage \<and> (\<not> isPrev \<or> hasPagination)
        then EncodeCursor json \<lparr>ID = firstItemID, Direction = CursorDirectionPrev\<rparr> else Inr []) (\<lambda>prev.
     Inr \<lparr>Next = next, Prev = prev\<rparr>)))"

subsection \<open>Sort cursors\<close>

record SortCursor =
  SortColumn :: string
  SortValue :: string
  SortID :: string
  PointsNext :: bool

text \<open>The pattern \<^verbatim>\<open>^[A-Za-z_][A-Za-z0-9_]*$\<close>.\<close>

definition sortColumnPattern :: "string \<Rightarrow> bool" where
  "sortColumnPattern s = ascii_identifier s"

definition EncodeSortCursor :: "SortCursor json \<Rightarrow> string \<Rightarrow> string \<Rightarrow> string \<Rightarrow> bool \<Rightarrow> page_error + string" where
  "EncodeSortCursor json sortColumn sortValue i pointsNext =
     bind_res (refuse (i = []) ErrInvalidCursorFormat) (\<lambda>_.
     bind_res (refuse (sortColumn = []) ErrInvalidCursorFormat) (\<lambda>_.
     (case fst json \<lparr>SortColumn = sortColumn, SortValue = sortValue, SortID = i, PointsNext = pointsNext\<rparr> of
        None \<Rightarrow> Inl Marshal_failed
      | Some data \<Rightarrow> Inr (EncodeToString StdEncoding data))))"

definition DecodeSortCursor :: "SortCursor json \<Rightarrow> string \<Rightarrow> page_error + SortCursor" where
  "DecodeSortCursor json cursor =
     (case DecodeString StdEncoding cursor of
        None \<Rightarrow> Inl ErrInvalidCursorFormat
      | Some decoded \<Rightarrow>
          (case snd json decoded of
             None \<Rightarrow> Inl ErrInvalidCursorFormat
           | Some sc \<Rightarrow>
               bind_res (refuse (SortID sc = []) ErrInvalidCursorFormat) (\<lambda>_.
               bind_res (refuse (SortColumn sc = [] \<or> \<not> sortColumnPattern (SortColumn sc)) ErrInvalidCursorFormat) (\<lambda>_.
               Inr sc))))"

definition SortCursorDirection :: "(string \<Rightarrow> string \<Rightarrow> bool) \<Rightarrow> string \<Rightarrow> bool \<Rightarrow> string \<times> string" where
  "SortCursorDirection unifold requestedDir pointsNext =
     (let isAsc = EqualFold unifold requestedDir SortDirASC in
      if pointsNext then (if isAsc then (SortDirASC, ''>'') else (SortDirDESC, ''<''))
      else (if isAsc then (SortDirDESC, ''<'') else (SortDirASC, ''>'')))"

definition CalculateSortCursorPagination ::
  "SortCursor json \<Rightarrow> bool \<Rightarrow> bool \<Rightarrow> bool \<Rightarrow> string \<Rightarrow> string \<Rightarrow> string \<Rightarrow> string \<Rightarrow> string \<Rightarrow> page_error + string \<times> string" where
  "CalculateSortCursorPagination json isFirstPage hasPagination pointsNext sortColumn firstSortValue firstID lastSortValue lastID =
     bind_res
       (if \<not> pointsNext \<or> hasPagination then EncodeSortCursor json sortColumn lastSortValue lastID True else Inr []) (\<lambda>next.
     bind_res
       (if \<not> isFirstPage \<and> (pointsNext \<or> hasPagination)
        then EncodeSortCursor json sortColumn firstSortValue firstID False else Inr []) (\<lambda>prev.
     Inr (next, prev)))"

fun ValidateSortColumn :: "(string \<Rightarrow> string \<Rightarrow> bool) \<Rightarrow> string \<Rightarrow> string list \<Rightarrow> string \<Rightarrow> string" where
  "ValidateSortColumn unifold column [] defaultColumn = defaultColumn"
| "ValidateSortColumn unifold column (a # allowed) defaultColumn =
     (if EqualFold unifold column a then a else ValidateSortColumn unifold column allowed defaultColumn)"

lemma ValidateSortColumn_allowed:
  "ValidateSortColumn unifold column allowed defaultColumn \<in> insert defaultColumn (set allowed)"
  by (induction allowed) auto

subsection \<open>Timestamp and UUID cursors\<close>

text \<open>An instant counts nanoseconds since the Unix epoch: \<open>UTC()\<close> changes only the zone.\<close>

record TimestampCursor =
  Timestamp :: int
  TimestampID :: "128 word"

definition EncodeTimestampCursor :: "TimestampCursor json \<Rightarrow> int \<Rightarrow> 128 word \<Rightarrow> page_error + string" where
  "EncodeTimestampCursor json timestamp i =
     bind_res (refuse (i = 0) ErrInvalidCursorFormat) (\<lambda>_.
     (case fst json \<lparr>Timestamp = timestamp, TimestampID = i\<rparr> of
        None \<Rightarrow> Inl Marshal_failed
      | Some data \<Rightarrow> Inr (EncodeToString StdEncoding data)))"

definition DecodeTimestampCursor :: "TimestampCursor json \<Rightarrow> string \<Rightarrow> page_error + TimestampCursor" where
  "DecodeTimestampCursor json cursor =
     (case DecodeString StdEncoding cursor of
        None \<Rightarrow> Inl ErrInvalidCursorFormat
      | Some decoded \<Rightarrow>
          (case snd json decoded of
             None \<Rightarrow> Inl ErrInvalidCursorFormat
           | Some tc \<Rightarrow> if TimestampID tc = 0 then Inl ErrInvalidCursorFormat else Inr tc))"

definition ParseTimestampCursorPagination ::
  "TimestampCursor json \<Rightarrow> (string \<Rightarrow> string) option \<Rightarrow> page_error + TimestampCursor option \<times> int" where
  "ParseTimestampCursorPagination json ctx =
     (case ctx of None \<Rightarrow> Inl ErrContextNotFound
      | Some query \<Rightarrow> bind_res (cursor_limit query) (\<lambda>limit.
          let cursorParam = query ''cursor'' in
          if cursorParam = [] then Inr (None, limit)
          else bind_res (DecodeTimestampCursor json cursorParam) (\<lambda>tc. Inr (Some tc, limit))))"

definition EncodeUUIDCursor :: "('u \<Rightarrow> string) \<Rightarrow> 'u \<Rightarrow> string" where
  "EncodeUUIDCursor uuid_String i = EncodeToString StdEncoding (uuid_String i)"

definition DecodeUUIDCursor :: "(string \<Rightarrow> 'u option) \<Rightarrow> string \<Rightarrow> page_error + 'u" where
  "DecodeUUIDCursor uuid_Parse cursor =
     (case DecodeString StdEncoding cursor of
        None \<Rightarrow> Inl ErrInvalidCursorFormat
      | Some decoded \<Rightarrow> (case uuid_Parse decoded of None \<Rightarrow> Inl ErrInvalidCursorFormat | Some i \<Rightarrow> Inr i))"

subsection \<open>What the parsers promise\<close>

lemma ParsePagination_range:
  assumes "ParsePagination ctx = Inr (limit, offset)"
  shows "1 \<le> limit" and "limit \<le> MaxLimit" and "0 \<le> offset"
  using assms
  by (auto simp: ParsePagination_def res_simps Let_def DefaultLimit_def DefaultOffset_def MaxLimit_def split: option.splits if_splits)

lemma cursor_limit_range:
  assumes "cursor_limit query = Inr limit"
  shows "1 \<le> limit" and "limit \<le> MaxLimit"
  using assms by (auto simp: cursor_limit_def ValidateLimit_def DefaultLimit_def MaxLimit_def split: option.splits if_splits)

text \<open>What JSON reads back, every cursor decoder reads back.\<close>

definition json_inverse :: "'c json \<Rightarrow> 'c \<Rightarrow> bool" where
  "json_inverse json c \<longleftrightarrow> (case fst json c of None \<Rightarrow> False | Some bs \<Rightarrow> snd json bs = Some c)"

lemma json_inverseE:
  assumes "json_inverse json c"
  obtains bs where "fst json c = Some bs" and "snd json bs = Some c"
  using assms by (auto simp: json_inverse_def split: option.splits)

lemma cursor_codec:
  assumes "json_inverse json c" and "ID c \<noteq> []" and "Direction c = CursorDirectionNext \<or> Direction c = CursorDirectionPrev"
  obtains token where "EncodeCursor json c = Inr token" and "DecodeCursor json token = Inr c" and "fst json c \<noteq> Some [] \<Longrightarrow> token \<noteq> []"
proof -
  from assms(1) obtain bs where bs: "fst json c = Some bs" "snd json bs = Some c" by (rule json_inverseE)
  have "DecodeString StdEncoding (EncodeToString StdEncoding bs) = Some bs"
    by (simp add: DecodeString_EncodeToString)
  then show thesis
    using bs assms(2,3) EncodeToString_inject [OF proper_encodings(1), of bs "[]"]
    by (intro that [of "EncodeToString StdEncoding bs"])
      (auto simp: EncodeCursor_def DecodeCursor_def EncodeToString_def StdEncoding_def)
qed

lemma sort_cursor_codec:
  assumes "json_inverse json \<lparr>SortColumn = col, SortValue = v, SortID = i, PointsNext = nxt\<rparr>" and "i \<noteq> []" and "sortColumnPattern col"
  obtains token where "EncodeSortCursor json col v i nxt = Inr token"
    and "DecodeSortCursor json token = Inr \<lparr>SortColumn = col, SortValue = v, SortID = i, PointsNext = nxt\<rparr>"
proof -
  have "col \<noteq> []" using assms(3) by (auto simp: sortColumnPattern_def)
  with assms show thesis
    by (elim json_inverseE, intro that [of "EncodeToString StdEncoding (the (fst json \<lparr>SortColumn = col, SortValue = v, SortID = i, PointsNext = nxt\<rparr>))"])
      (simp_all add: EncodeSortCursor_def DecodeSortCursor_def DecodeString_EncodeToString)
qed

lemma timestamp_cursor_codec:
  assumes "json_inverse json \<lparr>Timestamp = t, TimestampID = i\<rparr>" and "i \<noteq> 0"
  shows "bind_res (EncodeTimestampCursor json t i) (DecodeTimestampCursor json) = Inr \<lparr>Timestamp = t, TimestampID = i\<rparr>"
  using assms
  by (auto elim!: json_inverseE simp: EncodeTimestampCursor_def DecodeTimestampCursor_def DecodeString_EncodeToString)

lemma uuid_cursor_codec:
  "uuid_Parse (uuid_String i) = Some i \<Longrightarrow> DecodeUUIDCursor uuid_Parse (EncodeUUIDCursor uuid_String i) = Inr i"
  by (simp add: EncodeUUIDCursor_def DecodeUUIDCursor_def DecodeString_EncodeToString)

text \<open>A sort column that may reach a query holds no character that could end an identifier.\<close>

lemma DecodeSortCursor_column:
  "DecodeSortCursor json token = Inr sc \<Longrightarrow> sortColumnPattern (SortColumn sc) \<and> SortID sc \<noteq> []"
  by (auto simp: DecodeSortCursor_def res_simps split: option.splits)

subsection \<open>Reversal in place\<close>

lemma reverse_loop_segment:
  "reverse_loop (a @ m @ b) (int (length a)) (int (length a) + int (length m) - 1) = a @ rev m @ b"
proof (induction m arbitrary: a b rule: length_induct)
  case (1 m)
  show ?case
  proof (cases "length m < 2")
    case True
    then have "rev m = m" by (cases m) auto
    then show ?thesis using True by (subst reverse_loop.simps) simp
  next
    case False
    then obtain x y n where m: "m = x # n @ [y]"
      by (metis append_butlast_last_id length_Cons list.size(3) neq_Nil_conv less_2_cases_iff not_less_eq One_nat_def)
    have "(a @ m @ b)[length a := y, nat (int (length a) + int (length m) - 1) := x] = (a @ [y]) @ n @ ([x] @ b)"
      by (simp add: m nat_add_distrib list_update_append nat_diff_distrib)
    then have "reverse_loop (a @ m @ b) (int (length a)) (int (length a) + int (length m) - 1) =
        reverse_loop ((a @ [y]) @ n @ ([x] @ b)) (int (length (a @ [y]))) (int (length (a @ [y])) + int (length n) - 1)"
      by (subst reverse_loop.simps) (simp add: m nth_append nat_add_distrib add.commute)
    then show ?thesis using 1 [rule_format, of n "a @ [y]" "[x] @ b"] by (simp add: m)
  qed
qed

lemma Reverse_rev [simp]: "Reverse s = rev s"
  using reverse_loop_segment [of "[]" s "[]"] by (simp add: Reverse_def)

subsection \<open>Walking through a listing\<close>

text \<open>
  One request for a page, as the test that documents the callers makes it (\<open>listPage\<close> of
  cursor_test.go): the rows past the cursor in the order it is told, one more than the page holds;
  the page is the first one when no cursor was supplied. The ids are stored in ascending order.
\<close>

definition listPage ::
  "(string \<Rightarrow> string) \<Rightarrow> Cursor json \<Rightarrow> string list \<Rightarrow> string \<Rightarrow> nat \<Rightarrow> string \<Rightarrow> page_error + string list \<times> CursorPagination" where
  "listPage uni json ids sortOrder limit cursor =
     bind_res (if cursor \<noteq> [] then DecodeCursor json cursor else Inr \<lparr>ID = [], Direction = CursorDirectionNext\<rparr>) (\<lambda>cur.
     bind_res (CursorDirectionRules uni sortOrder (Direction cur)) (\<lambda>(operator, order).
     let fetched = filter (\<lambda>i. cursor = [] \<or> operator = ''>'' \<and> i > ID cur \<or> operator = ''<'' \<and> i < ID cur) ids;
         fetched = (if order = SortDirDESC then rev fetched else fetched);
         fetched = take (limit + 1) fetched;
         hasPagination = (length fetched > limit);
         isFirstPage = (cursor = []);
         page = PaginateRecords isFirstPage hasPagination (Direction cur) fetched (int limit)
     in if page = [] then Inr (page, \<lparr>Next = [], Prev = []\<rparr>)
        else
          bind_res (CalculateCursor json isFirstPage hasPagination (Direction cur) (hd page) (last page)) (\<lambda>pagination.
          Inr (page, pagination))))"

definition ascending :: "(string \<Rightarrow> string) \<Rightarrow> string \<Rightarrow> bool" where
  "ascending uni dir \<longleftrightarrow> ValidateSortDirection uni dir = SortDirASC"

text \<open>The listing in the order that was asked for.\<close>

definition listing :: "(string \<Rightarrow> string) \<Rightarrow> string list \<Rightarrow> string \<Rightarrow> string list" where
  "listing uni ids dir = (if ascending uni dir then ids else rev ids)"

lemma CursorDirectionRules_eq:
  "CursorDirectionRules uni dir CursorDirectionNext =
     Inr (if ascending uni dir then ''>'' else ''<'', if ascending uni dir then SortDirASC else SortDirDESC)"
  "CursorDirectionRules uni dir CursorDirectionPrev =
     Inr (if ascending uni dir then ''<'' else ''>'', if ascending uni dir then SortDirDESC else SortDirASC)"
  by (simp_all add: CursorDirectionRules_def ascending_def CursorDirectionNext_def CursorDirectionPrev_def)

lemma PaginateRecords_next:
  "PaginateRecords u (length (take (n + 1) ys) > n) CursorDirectionNext (take (n + 1) ys) (int n) = take n ys"
  by (auto simp: PaginateRecords_def CursorDirectionNext_def CursorDirectionPrev_def Let_def min_def)

lemma PaginateRecords_prev:
  "PaginateRecords u (length (take (n + 1) (rev xs)) > n) CursorDirectionPrev (take (n + 1) (rev xs)) (int n) =
   drop (length xs - n) xs"
  by (auto simp: PaginateRecords_def CursorDirectionPrev_def Let_def min_def rev_take)

text \<open>The rows of a strictly ascending list on either side of one of them.\<close>

lemma ascending_sides:
  assumes "sorted_wrt (<) (xs @ x # ys)"
  shows "filter (\<lambda>i. i > x) (xs @ x # ys) = ys" and "filter (\<lambda>i. i < x) (xs @ x # ys) = (xs :: string list)"
  using assms by (auto simp: sorted_wrt_append filter_empty_conv intro!: filter_True dest: order.strict_trans)

lemma rows_past:
  assumes "sorted_wrt (<) ids" and "listing uni ids dir = xs @ x # ys"
  shows "ascending uni dir \<Longrightarrow> filter (\<lambda>i. i > x) ids = ys" and "ascending uni dir \<Longrightarrow> filter (\<lambda>i. i < x) ids = xs"
    and "\<not> ascending uni dir \<Longrightarrow> filter (\<lambda>i. i < x) ids = rev ys" and "\<not> ascending uni dir \<Longrightarrow> filter (\<lambda>i. i > x) ids = rev xs"
proof -
  have "ids = rev ys @ x # rev xs" if "\<not> ascending uni dir"
    using arg_cong [OF assms(2), of rev] that by (simp add: listing_def)
  moreover have "ids = xs @ x # ys" if "ascending uni dir" using assms(2) that by (simp add: listing_def)
  ultimately show "ascending uni dir \<Longrightarrow> filter (\<lambda>i. i > x) ids = ys" "ascending uni dir \<Longrightarrow> filter (\<lambda>i. i < x) ids = xs"
    "\<not> ascending uni dir \<Longrightarrow> filter (\<lambda>i. i < x) ids = rev ys" "\<not> ascending uni dir \<Longrightarrow> filter (\<lambda>i. i > x) ids = rev xs"
    using ascending_sides assms(1) by metis+
qed

text \<open>The tokens of a page that stands between two parts of the listing.\<close>

definition tokens_ok :: "Cursor json \<Rightarrow> string list \<Rightarrow> string list \<Rightarrow> string list \<Rightarrow> CursorPagination \<Rightarrow> bool" where
  "tokens_ok json before page after tokens \<longleftrightarrow>
     (if after = [] then Next tokens = []
      else Next tokens \<noteq> [] \<and> DecodeCursor json (Next tokens) = Inr \<lparr>ID = last page, Direction = CursorDirectionNext\<rparr>) \<and>
     (if before = [] then Prev tokens = []
      else Prev tokens \<noteq> [] \<and> DecodeCursor json (Prev tokens) = Inr \<lparr>ID = hd page, Direction = CursorDirectionPrev\<rparr>)"

text \<open>JSON gives the cursors of some ids back, as non-empty texts.\<close>

definition cursors_coded :: "Cursor json \<Rightarrow> string list \<Rightarrow> bool" where
  "cursors_coded json ids \<longleftrightarrow>
     list_all (\<lambda>i. list_all (\<lambda>d. json_inverse json \<lparr>ID = i, Direction = d\<rparr> \<and> fst json \<lparr>ID = i, Direction = d\<rparr> \<noteq> Some [])
       [CursorDirectionNext, CursorDirectionPrev]) ids"

lemma CalculateCursor_tokens:
  assumes ids: "[] \<notin> set page" "cursors_coded json page" "page \<noteq> []"
    and arrival: "arrival = CursorDirectionNext \<and> (left_over \<longleftrightarrow> after \<noteq> []) \<and> (isFirst \<longleftrightarrow> before = []) \<or>
      arrival = CursorDirectionPrev \<and> after \<noteq> [] \<and> (left_over \<longleftrightarrow> before \<noteq> []) \<and> \<not> isFirst"
  obtains tokens where "CalculateCursor json isFirst left_over arrival (hd page) (last page) = Inr tokens"
    and "tokens_ok json before page after tokens"
proof -
  have codec: "\<exists>t. EncodeCursor json \<lparr>ID = i, Direction = d\<rparr> = Inr t \<and> DecodeCursor json t = Inr \<lparr>ID = i, Direction = d\<rparr> \<and> t \<noteq> []"
    if "i \<in> set page" "d = CursorDirectionNext \<or> d = CursorDirectionPrev" for i d
    using that ids cursor_codec [of json "\<lparr>ID = i, Direction = d\<rparr>"] by (force simp: cursors_coded_def list_all_iff)
  obtain t where t: "EncodeCursor json \<lparr>ID = last page, Direction = CursorDirectionNext\<rparr> = Inr t"
    "DecodeCursor json t = Inr \<lparr>ID = last page, Direction = CursorDirectionNext\<rparr>" "t \<noteq> []"
    using codec [of "last page"] ids(3) by auto
  obtain u where u: "EncodeCursor json \<lparr>ID = hd page, Direction = CursorDirectionPrev\<rparr> = Inr u"
    "DecodeCursor json u = Inr \<lparr>ID = hd page, Direction = CursorDirectionPrev\<rparr>" "u \<noteq> []"
    using codec [of "hd page"] ids(3) by auto
  have "CalculateCursor json isFirst left_over arrival (hd page) (last page) =
      Inr \<lparr>Next = if after = [] then [] else t, Prev = if before = [] then [] else u\<rparr>"
    using arrival t(1) u(1) by (auto simp: CalculateCursor_def CursorDirectionNext_def CursorDirectionPrev_def)
  moreover have "tokens_ok json before page after \<lparr>Next = if after = [] then [] else t, Prev = if before = [] then [] else u\<rparr>"
    using t u by (simp add: tokens_ok_def)
  ultimately show thesis by (rule that)
qed

text \<open>A request is served a page of the listing with its tokens.\<close>

definition served_page ::
  "(string \<Rightarrow> string) \<Rightarrow> Cursor json \<Rightarrow> string list \<Rightarrow> string \<Rightarrow> string list \<Rightarrow> string list \<Rightarrow> string list \<Rightarrow> CursorPagination \<Rightarrow> bool" where
  "served_page uni json ids dir before page after tokens \<longleftrightarrow>
     listing uni ids dir = before @ page @ after \<and> page \<noteq> [] \<and> tokens_ok json before page after tokens"

lemma page_coded:
  assumes "[] \<notin> set ids" "cursors_coded json ids" "listing uni ids dir = before @ page @ after"
  shows "[] \<notin> set page" "cursors_coded json page"
proof -
  have "set (listing uni ids dir) = set ids" by (simp add: listing_def)
  then have "set page \<subseteq> set ids" using assms(3) by auto
  then show "[] \<notin> set page" "cursors_coded json page" using assms(1,2) by (auto simp: cursors_coded_def list_all_iff)
qed

lemma served_first:
  assumes ids: "[] \<notin> set ids" "cursors_coded json ids" "ids \<noteq> []" and limit: "0 < limit"
  shows "\<exists>tokens. listPage uni json ids dir limit [] = Inr (take limit (listing uni ids dir), tokens) \<and>
    served_page uni json ids dir [] (take limit (listing uni ids dir)) (drop limit (listing uni ids dir)) tokens"
proof -
  let ?rows = "listing uni ids dir"
  have ne: "take limit ?rows \<noteq> []" using ids(3) limit by (simp add: listing_def)
  have split: "?rows = [] @ take limit ?rows @ drop limit ?rows" by simp
  have lo: "length (take (limit + 1) ?rows) > limit \<longleftrightarrow> drop limit ?rows \<noteq> []" by (simp add: min_def not_le)
  obtain tokens where t: "CalculateCursor json True (length (take (limit + 1) ?rows) > limit) CursorDirectionNext (hd (take limit ?rows)) (last (take limit ?rows)) = Inr tokens"
    "tokens_ok json [] (take limit ?rows) (drop limit ?rows) tokens"
    using CalculateCursor_tokens [OF page_coded [OF ids(1,2) split] ne, where before = "[]" and after = "drop limit ?rows" and isFirst = True] lo by blast
  have rows: "(if (if ascending uni dir then SortDirASC else SortDirDESC) = SortDirDESC then rev ids else ids) = ?rows"
    by (simp add: listing_def SortDirASC_def SortDirDESC_def)
  show ?thesis
    using t ne rows PaginateRecords_next [of True limit ?rows]
    by (intro exI [of _ tokens]) (simp add: listPage_def CursorDirectionRules_eq served_page_def Let_def)
qed

lemma served_next:
  assumes ids: "sorted_wrt (<) ids" "[] \<notin> set ids" "cursors_coded json ids" and limit: "0 < limit"
    and page: "served_page uni json ids dir before page after tokens" "after \<noteq> []"
  shows "\<exists>tokens'. listPage uni json ids dir limit (Next tokens) = Inr (take limit after, tokens') \<and>
    served_page uni json ids dir (before @ page) (take limit after) (drop limit after) tokens'"
proof -
  have t: "Next tokens \<noteq> []" "DecodeCursor json (Next tokens) = Inr \<lparr>ID = last page, Direction = CursorDirectionNext\<rparr>"
    and rows: "listing uni ids dir = before @ page @ after" "page \<noteq> []"
    using page by (auto simp: served_page_def tokens_ok_def)
  have "before @ page @ after = (before @ butlast page) @ last page # after"
    using append_butlast_last_id [OF rows(2)] by (metis append_Cons append_Nil append_assoc)
  note past = rows_past [OF ids(1) rows(1) [unfolded this]]
  have ne: "take limit after \<noteq> []" using page(2) limit by simp
  have split: "listing uni ids dir = (before @ page) @ take limit after @ drop limit after" using rows(1) by simp
  have lo: "length (take (limit + 1) after) > limit \<longleftrightarrow> drop limit after \<noteq> []" by (simp add: min_def not_le)
  obtain tk where tk: "CalculateCursor json False (length (take (limit + 1) after) > limit) CursorDirectionNext (hd (take limit after)) (last (take limit after)) = Inr tk"
    "tokens_ok json (before @ page) (take limit after) (drop limit after) tk"
    using CalculateCursor_tokens [OF page_coded [OF ids(2,3) split] ne, where before = "before @ page" and after = "drop limit after" and isFirst = False]
      lo rows(2) by blast
  show ?thesis
    using t tk ne split past PaginateRecords_next [of False limit after]
    by (intro exI [of _ tk], cases "ascending uni dir")
      (simp_all add: listPage_def CursorDirectionRules_eq served_page_def Let_def SortDirASC_def SortDirDESC_def)
qed

lemma served_prev:
  assumes ids: "sorted_wrt (<) ids" "[] \<notin> set ids" "cursors_coded json ids" and limit: "0 < limit"
    and page: "served_page uni json ids dir before page after tokens" "before \<noteq> []"
  shows "\<exists>tokens'. listPage uni json ids dir limit (Prev tokens) = Inr (drop (length before - limit) before, tokens') \<and>
    served_page uni json ids dir (take (length before - limit) before) (drop (length before - limit) before) (page @ after) tokens'"
proof -
  let ?n = "length before - limit"
  have t: "Prev tokens \<noteq> []" "DecodeCursor json (Prev tokens) = Inr \<lparr>ID = hd page, Direction = CursorDirectionPrev\<rparr>"
    and rows: "listing uni ids dir = before @ page @ after" "page \<noteq> []"
    using page by (auto simp: served_page_def tokens_ok_def)
  have "before @ page @ after = before @ hd page # (tl page @ after)" using rows(2) by (cases page) simp_all
  note past = rows_past [OF ids(1) rows(1) [unfolded this]]
  have ne: "drop ?n before \<noteq> []" using page(2) limit by (cases before) auto
  have split: "listing uni ids dir = take ?n before @ drop ?n before @ page @ after"
    using rows(1) by (simp flip: append_assoc)
  have lo: "length (take (limit + 1) (rev before)) > limit \<longleftrightarrow> take ?n before \<noteq> []" using page(2) by (auto simp: min_def)
  obtain tk where tk: "CalculateCursor json False (length (take (limit + 1) (rev before)) > limit) CursorDirectionPrev (hd (drop ?n before)) (last (drop ?n before)) = Inr tk"
    "tokens_ok json (take ?n before) (drop ?n before) (page @ after) tk"
    using CalculateCursor_tokens [OF page_coded [OF ids(2,3) split] ne, where before = "take ?n before" and after = "page @ after" and isFirst = False]
      lo rows(2) by blast
  show ?thesis
    using t tk ne split past PaginateRecords_prev [of False limit before]
    by (intro exI [of _ tk], cases "ascending uni dir")
      (simp_all add: listPage_def CursorDirectionRules_eq served_page_def Let_def SortDirASC_def SortDirDESC_def)
qed

text \<open>
  The pages a client can reach: without a cursor, then by following a token of the latest page, each
  request with a limit of its own.
\<close>

inductive reached ::
  "(string \<Rightarrow> string) \<Rightarrow> Cursor json \<Rightarrow> string list \<Rightarrow> string \<Rightarrow> string list \<Rightarrow> CursorPagination \<Rightarrow> bool"
  for uni json ids dir where
  start: "0 < limit \<Longrightarrow> listPage uni json ids dir limit [] = Inr (page, tokens) \<Longrightarrow> reached uni json ids dir page tokens"
| forward: "reached uni json ids dir page tokens \<Longrightarrow> Next tokens \<noteq> [] \<Longrightarrow> 0 < limit \<Longrightarrow>
    listPage uni json ids dir limit (Next tokens) = Inr (page', tokens') \<Longrightarrow> reached uni json ids dir page' tokens'"
| backward: "reached uni json ids dir page tokens \<Longrightarrow> Prev tokens \<noteq> [] \<Longrightarrow> 0 < limit \<Longrightarrow>
    listPage uni json ids dir limit (Prev tokens) = Inr (page', tokens') \<Longrightarrow> reached uni json ids dir page' tokens'"

lemma reached_served:
  assumes ids: "sorted_wrt (<) ids" "[] \<notin> set ids" "cursors_coded json ids" "ids \<noteq> []"
    and "reached uni json ids dir page tokens"
  shows "\<exists>before after. served_page uni json ids dir before page after tokens"
  using assms(5)
proof induction
  case (start limit page tokens)
  then show ?case using served_first [OF ids(2-4) start(1), of uni dir] by auto
next
  case (forward page tokens limit page' tokens')
  then obtain before after where p: "served_page uni json ids dir before page after tokens" by blast
  then have "after \<noteq> []" using forward(2) by (auto simp: served_page_def tokens_ok_def)
  then show ?case using served_next [OF ids(1-3) forward(3) p] forward(4) by auto
next
  case (backward page tokens limit page' tokens')
  then obtain before after where p: "served_page uni json ids dir before page after tokens" by blast
  then have "before \<noteq> []" using backward(2) by (auto simp: served_page_def tokens_ok_def)
  then show ?case using served_prev [OF ids(1-3) backward(3) p] backward(4) by auto
qed

text \<open>
  C38. A client that starts without a cursor and follows tokens forwards and backwards, in any order and
  with any page sizes, through a listing in either direction, is always on a page that is a segment of the
  listing: there is a next token exactly when rows follow the page and a previous one exactly when rows
  precede it, also after walking back to the first page; following the next token gives the rows right
  after the page, and following the previous one the rows right before it, in the order of the listing
  and as many as the page holds. The caller is \<open>listPage\<close>, which takes a page for the first one when no
  cursor was supplied.\<close>

theorem page_navigation:
  assumes "sorted_wrt (<) ids" and "[] \<notin> set ids" and "cursors_coded json ids" and "ids \<noteq> []"
    and "reached uni json ids dir page tokens" and "0 < limit"
  shows "\<exists>before after. listing uni ids dir = before @ page @ after \<and> page \<noteq> [] \<and>
    (Next tokens = [] \<longleftrightarrow> after = []) \<and> (Prev tokens = [] \<longleftrightarrow> before = []) \<and>
    (after \<noteq> [] \<longrightarrow> (\<exists>tokens'. listPage uni json ids dir limit (Next tokens) = Inr (take limit after, tokens'))) \<and>
    (before \<noteq> [] \<longrightarrow> (\<exists>tokens'. listPage uni json ids dir limit (Prev tokens) = Inr (drop (length before - limit) before, tokens')))"
proof -
  obtain before after where p: "served_page uni json ids dir before page after tokens"
    using reached_served [OF assms(1-5)] by blast
  then have "listing uni ids dir = before @ page @ after" "page \<noteq> []" "Next tokens = [] \<longleftrightarrow> after = []" "Prev tokens = [] \<longleftrightarrow> before = []"
    by (auto simp: served_page_def tokens_ok_def split: if_splits)
  then show ?thesis
    using served_next [OF assms(1-3,6) p] served_prev [OF assms(1-3,6) p] by (intro exI [of _ before] exI [of _ after]) blast
qed

definition plain_json :: "Cursor json" where
  "plain_json =
     (\<lambda>c. Some (hd (Direction c) # ID c),
      \<lambda>bs. case bs of [] \<Rightarrow> None
        | d # i \<Rightarrow> Some \<lparr>ID = i, Direction = (if d = CHR ''n'' then CursorDirectionNext else CursorDirectionPrev)\<rparr>)"

text \<open>Forwards from the first page of a descending listing and back to it: no previous token there.\<close>

definition walked_back :: "page_error + string list \<times> CursorPagination" where
  "walked_back =
     bind_res (listPage id plain_json [''a'', ''b'', ''c''] ''desc'' 2 []) (\<lambda>(_, t1).
     bind_res (listPage id plain_json [''a'', ''b'', ''c''] ''desc'' 2 (Next t1)) (\<lambda>(_, t2).
     listPage id plain_json [''a'', ''b'', ''c''] ''desc'' 2 (Prev t2)))"

theorem page_navigation_witness:
  "\<exists>tokens. reached id plain_json [''a'', ''b'', ''c''] ''desc'' [''c'', ''b''] tokens \<and> walked_back = Inr ([''c'', ''b''], tokens) \<and>
     Prev tokens = [] \<and> (\<exists>tokens'. listPage id plain_json [''a'', ''b'', ''c''] ''desc'' 5 (Next tokens) = Inr ([''a''], tokens'))"
proof -
  let ?ids = "[''a'', ''b'', ''c'']"
  have walk: "case listPage id plain_json ?ids ''desc'' 2 [] of Inl _ \<Rightarrow> False
      | Inr (_, t1) \<Rightarrow> Next t1 \<noteq> [] \<and> (case listPage id plain_json ?ids ''desc'' 2 (Next t1) of Inl _ \<Rightarrow> False
          | Inr (_, t2) \<Rightarrow> Prev t2 \<noteq> [] \<and> (case listPage id plain_json ?ids ''desc'' 2 (Prev t2) of Inl _ \<Rightarrow> False
              | Inr (p3, t3) \<Rightarrow> p3 = [''c'', ''b'']))"
    by code_simp
  have ex: "\<exists>a b. x = Inr (a, b) \<and> P a b" if "case x of Inl _ \<Rightarrow> False | Inr (a, b) \<Rightarrow> P a b"
    for x :: "page_error + string list \<times> CursorPagination" and P
    using that by (cases x) auto
  obtain p1 t1 where 1: "listPage id plain_json ?ids ''desc'' 2 [] = Inr (p1, t1)" "Next t1 \<noteq> []"
    and rest: "case listPage id plain_json ?ids ''desc'' 2 (Next t1) of Inl _ \<Rightarrow> False
      | Inr (_, t2) \<Rightarrow> Prev t2 \<noteq> [] \<and> (case listPage id plain_json ?ids ''desc'' 2 (Prev t2) of Inl _ \<Rightarrow> False
          | Inr (p3, t3) \<Rightarrow> p3 = [''c'', ''b''])"
    using ex [OF walk] by blast
  obtain p2 t2 where 2: "listPage id plain_json ?ids ''desc'' 2 (Next t1) = Inr (p2, t2)" "Prev t2 \<noteq> []"
    and last: "case listPage id plain_json ?ids ''desc'' 2 (Prev t2) of Inl _ \<Rightarrow> False | Inr (p3, t3) \<Rightarrow> p3 = [''c'', ''b'']"
    using ex [OF rest] by blast
  obtain t3 where 3: "listPage id plain_json ?ids ''desc'' 2 (Prev t2) = Inr ([''c'', ''b''], t3)"
    using ex [OF last] by blast
  have r: "reached id plain_json ?ids ''desc'' [''c'', ''b''] t3"
    using reached.backward [OF reached.forward [OF reached.start [OF _ 1(1)] 1(2) _ 2(1)] 2(2) _ 3] by simp
  have "sorted_wrt (<) ?ids" by (simp add: less_list_code)
  moreover have "cursors_coded plain_json ?ids"
    by (simp add: cursors_coded_def json_inverse_def plain_json_def CursorDirectionNext_def CursorDirectionPrev_def)
  ultimately obtain before after where b: "listing id ?ids ''desc'' = before @ [''c'', ''b''] @ after" "Prev t3 = [] \<longleftrightarrow> before = []"
    "after \<noteq> [] \<longrightarrow> (\<exists>tokens'. listPage id plain_json ?ids ''desc'' 5 (Next t3) = Inr (take 5 after, tokens'))"
    using page_navigation [OF _ _ _ _ r, of 5] by auto
  have "\<not> ascending id ''desc''" by code_simp
  then have "[''c'', ''b'', ''a''] = before @ [''c'', ''b''] @ after" using b(1) by (simp add: listing_def)
  then have "before = []" "after = [''a'']" by (auto simp: Cons_eq_append_conv)
  moreover have "walked_back = Inr ([''c'', ''b''], t3)" using 1 2 3 by (simp add: walked_back_def)
  ultimately show ?thesis using b r by (intro exI [of _ t3]) auto
qed

end
