(* ===== verification/Tenant_Keys.thy ===== *)
theory Tenant_Keys
  imports Outbox_Event Go_Text "HOL-Library.Sublist"
begin

text \<open>
  The canonical form of a tenant identifier (\<open>tenant-manager/core/canonical.go\<close>) and
  \<open>tenant-manager/valkey\<close>: keys that carry the tenant they belong to. A nil context is \<open>None\<close>.
\<close>

text \<open>\<open>commons.ParseUUID\<close> over \<open>uuid.Parse\<close>, which gives the sixteen bytes.\<close>

definition ParseUUID :: "(string \<Rightarrow> string option) \<Rightarrow> string \<Rightarrow> string option" where
  "ParseUUID uuid_Parse s =
     (if length s = 38 \<and> (s ! 0 \<noteq> CHR 0x7B \<or> s ! 37 \<noteq> CHR 0x7D) then None else uuid_Parse s)"

definition CanonicalTenantID :: "(string \<Rightarrow> string option) \<Rightarrow> string \<Rightarrow> string option" where
  "CanonicalTenantID uuid_Parse i =
     (if \<not> IsValidTenantID i then None
      else (case ParseUUID uuid_Parse i of Some parsed \<Rightarrow> Some (hex_EncodeToString parsed) | None \<Rightarrow> Some i))"

definition TenantKeyPrefix :: string where
  "TenantKeyPrefix = ''tenant''"

datatype tenant_key_error = Delimiter_in_tenant

definition GetKey :: "string \<Rightarrow> string \<Rightarrow> tenant_key_error + string" where
  "GetKey tenantID k =
     (if tenantID = [] then Inr k
      else if CHR '':'' \<in> set tenantID then Inl Delimiter_in_tenant
      else Inr (TenantKeyPrefix @ '':'' @ tenantID @ '':'' @ k))"

definition GetKeyContext :: "tenant_context option \<Rightarrow> string \<Rightarrow> tenant_key_error + string" where
  "GetKeyContext ctx k = (case ctx of None \<Rightarrow> GetKey [] k | Some c \<Rightarrow> GetKey (GetTenantIDContext c) k)"

definition GetPattern :: "string \<Rightarrow> string \<Rightarrow> tenant_key_error + string" where
  "GetPattern tenantID p =
     (if tenantID = [] then Inr p
      else if CHR '':'' \<in> set tenantID then Inl Delimiter_in_tenant
      else Inr (TenantKeyPrefix @ '':'' @ tenantID @ '':'' @ p))"

definition GetPatternFromContext :: "tenant_context option \<Rightarrow> string \<Rightarrow> tenant_key_error + string" where
  "GetPatternFromContext ctx p = (case ctx of None \<Rightarrow> GetPattern [] p | Some c \<Rightarrow> GetPattern (GetTenantIDContext c) p)"

definition StripTenantPrefix :: "string \<Rightarrow> string \<Rightarrow> tenant_key_error + string" where
  "StripTenantPrefix tenantID prefixedKey =
     (if tenantID = [] then Inr prefixedKey
      else if CHR '':'' \<in> set tenantID then Inl Delimiter_in_tenant
      else (let p = TenantKeyPrefix @ '':'' @ tenantID @ '':'' in
        Inr (if prefix p prefixedKey then drop (length p) prefixedKey else prefixedKey)))"

lemma GetKey_Nil [simp]: "GetKey [] k = Inr k"
  by (simp add: GetKey_def)

text \<open>Two parts around the first delimiter.\<close>

lemma split_at_delimiter:
  assumes "a @ CHR '':'' # b = a' @ CHR '':'' # b'" and "CHR '':'' \<notin> set a" and "CHR '':'' \<notin> set a'"
  shows "a = a' \<and> b = b'"
proof -
  have "takeWhile (\<lambda>c. c \<noteq> CHR '':'') (x @ CHR '':'' # y) = x" if "CHR '':'' \<notin> set x" for x y
    using that by (subst takeWhile_append2) auto
  then have "a = a'" using assms by metis
  then show ?thesis using assms(1) by simp
qed

text \<open>What was prefixed is what is stripped, and keys of different tenants differ.\<close>

lemma StripTenantPrefix_GetKey: "GetKey t k = Inr p \<Longrightarrow> StripTenantPrefix t p = Inr k"
  by (auto simp: GetKey_def StripTenantPrefix_def Let_def split: if_splits)

lemma GetKey_inject:
  assumes "GetKey t k = Inr p" and "GetKey t' k' = Inr p" and "t \<noteq> []" and "t' \<noteq> []"
  shows "t = t' \<and> k = k'"
proof -
  have "CHR '':'' \<notin> set t" "CHR '':'' \<notin> set t'" "t @ CHR '':'' # k = t' @ CHR '':'' # k'"
    using assms by (auto simp: GetKey_def dest: sym split: if_splits)
  then show ?thesis by (intro split_at_delimiter)
qed

lemma GetKey_not_plain:
  assumes "GetKey t k = Inr p" and "t \<noteq> []"
  shows "prefix (TenantKeyPrefix @ '':'') p"
  using assms by (auto simp: GetKey_def split: if_splits)

lemma GetKey_separates:
  assumes "GetKey t k = Inr p" and "GetKey t' k' = Inr p"
    and "\<not> prefix (TenantKeyPrefix @ '':'') k" and "\<not> prefix (TenantKeyPrefix @ '':'') k'"
  shows "t = t' \<and> k = k'"
proof (cases "t = [] \<or> t' = []")
  case True
  then have "t = []" "t' = []"
    using assms GetKey_not_plain [of t k p] GetKey_not_plain [of t' k' p] by (cases "t = []"; cases "t' = []"; simp)+
  then show ?thesis using assms(1,2) by simp
next
  case False
  then show ?thesis using GetKey_inject [OF assms(1,2)] by blast
qed

end
