(* ===== verification/Pacing.thy ===== *)
theory Pacing
  imports Complex_Main Redis_Db Tenant_Keys Cron
begin

text \<open>
  \<open>commons/net/http/pacing\<close>: outbound calls paced against budgets that every process sharing a Redis
  shares. The Lua script is translated command by command; a Lua number is an integer here, which is
  exact up to \<open>2 ^ 53\<close>, and \<open>tonumber\<close> on a stored string is a parameter. Rates are Go floating-point
  numbers: \<open>f64\<close> is the rounding of an exact quotient to a \<open>float64\<close>.
\<close>

subsection \<open>Constants and errors\<close>

datatype rate = NaN | Infinite bool | Rate rat

definition DefaultMaxRate :: rate where "DefaultMaxRate = Rate 1000"

definition DefaultPollInterval :: int where "DefaultPollInterval = 250 * 1000000"

definition namespaceTenant :: string where "namespaceTenant = ''tenant''"

definition namespaceInstitution :: string where "namespaceInstitution = ''inst''"

definition keyRoot :: string where "keyRoot = ''pacing:''"

definition clockSuffix :: string where "clockSuffix = ''clock''"

definition minRate :: "(rat \<Rightarrow> rat) \<Rightarrow> rat" where "minRate f64 = f64 (1 / 86400)"

definition minRetrySleep :: int where "minRetrySleep = 1000000"

definition stateTTLMillis :: int where "stateTTLMillis = 24 * 60 * 60 * 1000"

definition clockToleranceMicros :: int where "clockToleranceMicros = 5000"

definition digestBytes :: nat where "digestBytes = 8"

definition markerClockBackwards :: string where "markerClockBackwards = ''PACING_CLOCK_BACKWARDS''"

datatype ctx_err = Canceled | DeadlineExceeded

datatype pacer_error =
    ErrPacerUnavailable | ErrInvalidPrefix | ErrInvalidIdentity | ErrNoBuckets | ErrDuplicateBucket
  | ErrInvalidRate | ErrInvalidPollInterval | ErrRateUnavailable | ErrBackendUnavailable
  | ErrClockWentBackwards | ErrWaitAborted ctx_err

subsection \<open>The script\<close>

datatype script_reply = Reply int int | Script_error string

definition read_number :: "(string \<Rightarrow> int option) \<Rightarrow> string \<Rightarrow> redis_db \<Rightarrow> (unit + int option) \<times> redis_db" where
  "read_number tonumber k db =
     (let db = redis_touch k db in
      case redis_GET k db of
        None \<Rightarrow> (Inr None, db)
      | Some raw \<Rightarrow> ((case tonumber raw of None \<Rightarrow> Inl () | Some n \<Rightarrow> Inr (Some n)), db))"

fun scan_buckets ::
  "(string \<Rightarrow> int option) \<Rightarrow> int \<Rightarrow> string list \<Rightarrow> int list \<Rightarrow> int \<Rightarrow> redis_db \<Rightarrow> (string + int) \<times> redis_db" where
  "scan_buckets tonumber now [] is allow_at db = (Inr allow_at, db)"
| "scan_buckets tonumber now (k # ks) [] allow_at db = (Inl ''PACING_MALFORMED interval'', db)"
| "scan_buckets tonumber now (k # ks) (i # is) allow_at db =
     (if i < 1 then (Inl ''PACING_MALFORMED interval'', db)
      else (case read_number tonumber k db of
              (Inl _, db) \<Rightarrow> (Inl ''PACING_MALFORMED bucket state'', db)
            | (Inr old, db) \<Rightarrow>
                scan_buckets tonumber now ks is
                  (max allow_at (case old of None \<Rightarrow> now | Some l \<Rightarrow> l + i)) db))"

definition charge :: "nat \<Rightarrow> int \<Rightarrow> string list \<Rightarrow> redis_db \<Rightarrow> redis_db" where
  "charge now state_ttl ks db = foldl (\<lambda>db k. redis_SET k (itoa now) state_ttl db) db ks"

definition pacingScript ::
  "(string \<Rightarrow> int option) \<Rightarrow> nat \<Rightarrow> int \<Rightarrow> int \<Rightarrow> string list \<Rightarrow> int list \<Rightarrow> redis_db \<Rightarrow> script_reply \<times> redis_db" where
  "pacingScript tonumber now tolerance state_ttl keys intervals db =
     (let db = db\<lparr>db_now := int now div 1000\<rparr> in
      case keys of [] \<Rightarrow> (Script_error ''PACING_MALFORMED evaluation arguments'', db)
      | clock # buckets \<Rightarrow>
          if tolerance < 0 \<or> state_ttl < 1 \<or> buckets = []
          then (Script_error ''PACING_MALFORMED evaluation arguments'', db)
          else (case read_number tonumber clock db of
                  (Inl _, db) \<Rightarrow> (Script_error ''PACING_MALFORMED clock watermark'', db)
                | (Inr mark, db) \<Rightarrow>
                    if (case mark of None \<Rightarrow> False | Some m \<Rightarrow> int now < m - tolerance)
                    then (Script_error markerClockBackwards, db)
                    else
                      (let high_water = (case mark of None \<Rightarrow> int now | Some m \<Rightarrow> max (int now) m);
                           db = redis_SET clock (itoa (nat high_water)) state_ttl db in
                       case scan_buckets tonumber (int now) buckets intervals (int now) db of
                         (Inl e, db) \<Rightarrow> (Script_error e, db)
                       | (Inr allow_at, db) \<Rightarrow>
                           if allow_at > int now then (Reply 0 (allow_at - int now), db)
                           else (Reply 1 0, charge now state_ttl buckets db))))"

subsection \<open>Buckets\<close>

text \<open>A rate provider answers each time it is read: an error or a rate. \<open>None\<close> is a nil provider.\<close>

type_synonym provider = "nat \<Rightarrow> rate option"

record bucket =
  namespace :: string
  digest :: string
  provider :: "provider option"

definition digestIdentity :: "(string \<Rightarrow> string) \<Rightarrow> string \<Rightarrow> string" where
  "digestIdentity sha256 identity = hex_EncodeToString (take digestBytes (sha256 identity))"

definition newBucket :: "(string \<Rightarrow> string) \<Rightarrow> string \<Rightarrow> string \<Rightarrow> provider option \<Rightarrow> pacer_error + bucket" where
  "newBucket sha256 ns identity r =
     (if r = None then Inl ErrInvalidRate
      else Inr \<lparr>namespace = ns, digest = digestIdentity sha256 identity, provider = r\<rparr>)"

definition TenantBucket ::
  "(string \<Rightarrow> string option) \<Rightarrow> (string \<Rightarrow> string) \<Rightarrow> string \<Rightarrow> provider option \<Rightarrow> pacer_error + bucket" where
  "TenantBucket uuid_Parse sha256 tenantID r =
     (case CanonicalTenantID uuid_Parse tenantID of
        None \<Rightarrow> Inl ErrInvalidIdentity
      | Some canonical \<Rightarrow> newBucket sha256 namespaceTenant canonical r)"

definition InstitutionBucket :: "(string \<Rightarrow> string) \<Rightarrow> string \<Rightarrow> provider option \<Rightarrow> pacer_error + bucket" where
  "InstitutionBucket sha256 institutionID r =
     (if \<not> IsValidTenantID institutionID then Inl ErrInvalidIdentity
      else newBucket sha256 namespaceInstitution institutionID r)"

subsection \<open>The pacer\<close>

record pacer =
  connected :: bool
  prefix :: string
  maxRate :: rate
  pollInterval :: int

definition WithMaxRate :: "rate \<Rightarrow> pacer \<Rightarrow> pacer" where
  "WithMaxRate r p = p\<lparr>maxRate := r\<rparr>"

definition WithPollInterval :: "int \<Rightarrow> pacer \<Rightarrow> pacer" where
  "WithPollInterval d p = p\<lparr>pollInterval := d\<rparr>"

definition NewPacer :: "(rat \<Rightarrow> rat) \<Rightarrow> bool \<Rightarrow> string \<Rightarrow> (pacer \<Rightarrow> pacer) option list \<Rightarrow> pacer_error + pacer" where
  "NewPacer f64 conn pre opts =
     bind_res (refuse (\<not> conn) ErrPacerUnavailable) (\<lambda>_.
     bind_res (refuse (\<not> IsValidTenantID pre) ErrInvalidPrefix) (\<lambda>_.
     let pacer = \<lparr>connected = True, prefix = pre, maxRate = DefaultMaxRate, pollInterval = DefaultPollInterval\<rparr>;
         pacer = foldl (\<lambda>p opt. case opt of None \<Rightarrow> p | Some f \<Rightarrow> f p) pacer opts in
     bind_res (refuse (case maxRate pacer of Rate r \<Rightarrow> r \<le> 0 \<or> r < minRate f64 | _ \<Rightarrow> True) ErrInvalidRate) (\<lambda>_.
     bind_res (refuse (pollInterval pacer < minRetrySleep) ErrInvalidPollInterval) (\<lambda>_.
     Inr pacer))))"

definition keyspace :: "pacer \<Rightarrow> string" where
  "keyspace p = keyRoot @ ''{'' @ prefix p @ ''}:''"

definition bucket_key :: "pacer \<Rightarrow> bucket \<Rightarrow> string" where
  "bucket_key p b = keyspace p @ namespace b @ '':'' @ digest b"

definition add_bucket_key :: "pacer \<Rightarrow> string list \<Rightarrow> bucket \<Rightarrow> pacer_error + string list" where
  "add_bucket_key p keys b =
     (if namespace b = [] \<or> digest b = [] \<or> provider b = None then Inl ErrInvalidIdentity
      else if bucket_key p b \<in> set (tl keys) then Inl ErrDuplicateBucket
      else Inr (keys @ [bucket_key p b]))"

definition keysFor :: "pacer \<Rightarrow> bucket list \<Rightarrow> pacer_error + string list" where
  "keysFor p buckets =
     (if buckets = [] then Inl ErrNoBuckets
      else fold_res (add_bucket_key p) [keyspace p @ clockSuffix] buckets)"

definition validateRate :: "(rat \<Rightarrow> rat) \<Rightarrow> pacer \<Rightarrow> rate \<Rightarrow> pacer_error + rat" where
  "validateRate f64 p rt =
     (case rt of
        Rate r \<Rightarrow>
          if r < 0 then Inl ErrInvalidRate
          else if r = 0 then Inr 0
          else if (case maxRate p of Rate m \<Rightarrow> r > m | Infinite pos \<Rightarrow> \<not> pos | NaN \<Rightarrow> False) then Inl ErrInvalidRate
          else if r < minRate f64 then Inl ErrInvalidRate
          else Inr r
      | _ \<Rightarrow> Inl ErrInvalidRate)"

definition intervalMicros :: "(rat \<Rightarrow> rat) \<Rightarrow> rat \<Rightarrow> int" where
  "intervalMicros f64 r = \<lceil>f64 (1000000 / r)\<rceil>"

definition add_interval :: "(rat \<Rightarrow> rat) \<Rightarrow> pacer \<Rightarrow> nat \<Rightarrow> int list \<times> bool \<Rightarrow> bucket \<Rightarrow> pacer_error + int list \<times> bool" where
  "add_interval f64 p moment acc b =
     (case the (provider b) moment of
        None \<Rightarrow> Inl ErrRateUnavailable
      | Some rt \<Rightarrow> bind_res (validateRate f64 p rt) (\<lambda>r.
          if r = 0 then Inr (fst acc @ [0], True) else Inr (fst acc @ [intervalMicros f64 r], snd acc)))"

definition intervalsFor :: "(rat \<Rightarrow> rat) \<Rightarrow> pacer \<Rightarrow> nat \<Rightarrow> bucket list \<Rightarrow> pacer_error + int list \<times> bool" where
  "intervalsFor f64 p moment buckets = fold_res (add_interval f64 p moment) ([], False) buckets"

text \<open>An error that is not a context's own: a script error keeps its text.\<close>

definition classifyBackendError :: "ctx_err option \<Rightarrow> string \<Rightarrow> pacer_error" where
  "classifyBackendError ctx err =
     (case ctx of Some e \<Rightarrow> ErrWaitAborted e
      | None \<Rightarrow> if list_ex (\<lambda>i. take (length markerClockBackwards) (drop i err) = markerClockBackwards) [0..<length err]
                then ErrClockWentBackwards else ErrBackendUnavailable)"

definition parseEvaluation :: "int \<Rightarrow> int \<Rightarrow> pacer_error + bool \<times> int" where
  "parseEvaluation granted waitMicros =
     (if granted = 1 then Inr (True, 0)
      else if granted \<noteq> 0 \<or> waitMicros \<le> 0 then Inl ErrBackendUnavailable
      else Inr (False, wrap64 (waitMicros * 1000)))"

definition evaluate ::
  "(string \<Rightarrow> int option) \<Rightarrow> link \<Rightarrow> ctx_err option \<Rightarrow> nat \<Rightarrow> string list \<Rightarrow> int list \<Rightarrow> redis_db \<Rightarrow>
   (pacer_error + bool \<times> int) \<times> redis_db" where
  "evaluate tonumber l ctx now keys intervals db =
     (case l of
        Down \<Rightarrow> (Inl (classifyBackendError ctx ''connection''), db)
      | Reply_lost \<Rightarrow>
          (Inl (classifyBackendError ctx ''connection''),
           snd (pacingScript tonumber now clockToleranceMicros stateTTLMillis keys intervals db))
      | Up \<Rightarrow>
          (case pacingScript tonumber now clockToleranceMicros stateTTLMillis keys intervals db of
             (Script_error e, db) \<Rightarrow> (Inl (classifyBackendError ctx e), db)
           | (Reply granted wait, db) \<Rightarrow> (parseEvaluation granted wait, db)))"

definition clampRetry :: "int \<Rightarrow> int \<Rightarrow> int" where
  "clampRetry retryAfter poll = max (min retryAfter poll) minRetrySleep"

text \<open>
  One turn of the loop of \<open>Acquire\<close> meets: the context at its start, the moment the providers are
  read, what became of the call to Redis, its clock, what other processes did to it before, the
  context when an error is classified, and the context while sleeping. The loop also yields the
  nanoseconds of every sleep it began.
\<close>

record turn =
  at_start :: "ctx_err option"
  moment :: nat
  others :: "redis_db \<Rightarrow> redis_db"
  reach :: link
  clock_now :: nat
  at_error :: "ctx_err option"
  at_sleep :: "ctx_err option"

datatype acquired = Permit | Refused pacer_error | Still_waiting

definition pause :: "int \<Rightarrow> ctx_err option \<Rightarrow> acquired \<times> int list \<times> redis_db \<Rightarrow> redis_db \<Rightarrow> acquired \<times> int list \<times> redis_db" where
  "pause d ctx resumed db =
     (case ctx of
        Some e \<Rightarrow> (Refused (ErrWaitAborted e), [d], db)
      | None \<Rightarrow> (case resumed of (r, ds, db) \<Rightarrow> (r, d # ds, db)))"

fun acquire_loop ::
  "(string \<Rightarrow> int option) \<Rightarrow> (rat \<Rightarrow> rat) \<Rightarrow> pacer \<Rightarrow> bucket list \<Rightarrow> string list \<Rightarrow> turn list \<Rightarrow> redis_db \<Rightarrow>
   acquired \<times> int list \<times> redis_db" where
  "acquire_loop tonumber f64 p buckets keys [] db = (Still_waiting, [], db)"
| "acquire_loop tonumber f64 p buckets keys (t # ts) db =
     (case at_start t of
        Some e \<Rightarrow> (Refused (ErrWaitAborted e), [], db)
      | None \<Rightarrow>
          (case intervalsFor f64 p (moment t) buckets of
             Inl e \<Rightarrow> (Refused e, [], db)
           | Inr (intervals, paused) \<Rightarrow>
               if paused then
                 pause (pollInterval p) (at_sleep t) (acquire_loop tonumber f64 p buckets keys ts db) db
               else
                 (case evaluate tonumber (reach t) (at_error t) (clock_now t) keys intervals (others t db) of
                    (Inl e, db) \<Rightarrow> (Refused e, [], db)
                  | (Inr (granted, retryAfter), db) \<Rightarrow>
                      if granted then (Permit, [], db)
                      else pause (clampRetry retryAfter (pollInterval p)) (at_sleep t)
                             (acquire_loop tonumber f64 p buckets keys ts db) db)))"

definition Acquire ::
  "(string \<Rightarrow> int option) \<Rightarrow> (rat \<Rightarrow> rat) \<Rightarrow> pacer option \<Rightarrow> bucket list \<Rightarrow> turn list \<Rightarrow> redis_db \<Rightarrow>
   acquired \<times> int list \<times> redis_db" where
  "Acquire tonumber f64 p buckets ts db =
     (case p of None \<Rightarrow> (Refused ErrPacerUnavailable, [], db)
      | Some p \<Rightarrow>
          if \<not> connected p then (Refused ErrPacerUnavailable, [], db)
          else (case keysFor p buckets of
                  Inl e \<Rightarrow> (Refused e, [], db)
                | Inr keys \<Rightarrow> acquire_loop tonumber f64 p buckets keys ts db))"

subsection \<open>The transport\<close>

text \<open>
  A request carries what the bucket function and the next transport read of it, and its body: \<open>None\<close>
  when it has none, else whether closing it fails. \<open>Not_sent\<close> is the refusal, with the error of the
  close joined to it when that failed; \<open>body_closed\<close> says whether the body was closed here.
\<close>

record 'q http_request =
  content :: 'q
  body_close_fails :: "bool option"

datatype trip_cause = Request_nil | Buckets_failed | Not_paced pacer_error

datatype 'a trip = Sent 'a | Not_sent (trip_cause: trip_cause) (close_error: bool) (body_closed: bool) | Held

record 'q round_tripper =
  rt_pacer :: "pacer option"
  rt_buckets :: "('q \<Rightarrow> bucket list option) option"

definition refuse_request :: "'q http_request \<Rightarrow> trip_cause \<Rightarrow> 'a trip" where
  "refuse_request req cause =
     (case body_close_fails req of None \<Rightarrow> Not_sent cause False False | Some fails \<Rightarrow> Not_sent cause fails True)"

definition NewRoundTripper ::
  "pacer option \<Rightarrow> ('q \<Rightarrow> bucket list option) option \<Rightarrow> pacer_error + 'q round_tripper" where
  "NewRoundTripper p f =
     bind_res (refuse (case p of None \<Rightarrow> True | Some p \<Rightarrow> \<not> connected p) ErrPacerUnavailable) (\<lambda>_.
     bind_res (refuse (f = None) ErrNoBuckets) (\<lambda>_.
     Inr \<lparr>rt_pacer = p, rt_buckets = f\<rparr>))"

definition RoundTrip ::
  "(string \<Rightarrow> int option) \<Rightarrow> (rat \<Rightarrow> rat) \<Rightarrow> ('q \<Rightarrow> 'a) \<Rightarrow> 'q round_tripper option \<Rightarrow> 'q http_request option \<Rightarrow>
   turn list \<Rightarrow> redis_db \<Rightarrow> 'a trip \<times> redis_db" where
  "RoundTrip tonumber f64 next rt rq ts db =
     (case rq of None \<Rightarrow> (Not_sent Request_nil False False, db)
      | Some req \<Rightarrow>
          (case rt of None \<Rightarrow> (refuse_request req (Not_paced ErrPacerUnavailable), db)
           | Some rt \<Rightarrow>
               (case (rt_pacer rt, rt_buckets rt) of
                  (Some p, Some f) \<Rightarrow>
                    (case f (content req) of
                       None \<Rightarrow> (refuse_request req Buckets_failed, db)
                     | Some buckets \<Rightarrow>
                         (case Acquire tonumber f64 (Some p) buckets ts db of
                            (Permit, _, db) \<Rightarrow> (Sent (next (content req)), db)
                          | (Refused e, _, db) \<Rightarrow> (refuse_request req (Not_paced e), db)
                          | (Still_waiting, _, db) \<Rightarrow> (Held, db)))
                | _ \<Rightarrow> (refuse_request req (Not_paced ErrPacerUnavailable), db))))"

end
