(* ===== verification/Pacing_Laws.thy ===== *)
theory Pacing_Laws
  imports Pacing
begin

text \<open>
  What the pacer guarantees: one evaluation charges every bucket or none, and however processes
  interleave, however their rates change and however the clock of Redis moves, the permits of a
  bucket are spaced by the interval in force when the later one was issued.
\<close>

subsection \<open>What one evaluation does\<close>

definition expired_key :: "redis_db \<Rightarrow> string \<Rightarrow> bool" where
  "expired_key db k = (case db_keys db k of None \<Rightarrow> False | Some (v, e) \<Rightarrow> e < db_now db)"

lemma expired_key_cong: "db_keys db k = db_keys db' k \<Longrightarrow> db_now db = db_now db' \<Longrightarrow> expired_key db k = expired_key db' k"
  by (simp add: expired_key_def split: option.split)

text \<open>Nothing changed but that expired keys among \<open>K\<close> may have been removed.\<close>

definition purged :: "string set \<Rightarrow> redis_db \<Rightarrow> redis_db \<Rightarrow> bool" where
  "purged K db db' \<longleftrightarrow> db_now db' = db_now db \<and>
     (\<forall>k. db_keys db' k = db_keys db k \<or> k \<in> K \<and> expired_key db k \<and> db_keys db' k = None)"

lemma purged_refl [simp]: "purged K db db"
  by (simp add: purged_def)

lemma purged_trans: "purged K db db' \<Longrightarrow> purged L db' db'' \<Longrightarrow> purged (K \<union> L) db db''"
proof -
  assume p: "purged K db db'" and q: "purged L db' db''"
  have "db_keys db'' k = db_keys db k \<or> k \<in> K \<union> L \<and> expired_key db k \<and> db_keys db'' k = None" for k
  proof -
    have "db_keys db' k = db_keys db k \<or> k \<in> K \<and> expired_key db k \<and> db_keys db' k = None"
      and "db_keys db'' k = db_keys db' k \<or> k \<in> L \<and> expired_key db' k \<and> db_keys db'' k = None"
      and "db_now db' = db_now db"
      using p q unfolding purged_def by blast+
    then show ?thesis by (cases "db_keys db k") (auto simp: expired_key_def)
  qed
  then show ?thesis using p q by (simp add: purged_def)
qed

lemma purged_at: "purged K db db' \<Longrightarrow> db_keys db' k = db_keys db k \<or> k \<in> K \<and> expired_key db k \<and> db_keys db' k = None"
  by (simp add: purged_def)

lemma purged_live: "purged K db db' \<Longrightarrow> db_keys db k = Some (v, e) \<Longrightarrow> db_now db \<le> e \<Longrightarrow> db_keys db' k = Some (v, e)"
  unfolding purged_def expired_key_def by (metis (no_types, lifting) case_prod_conv linorder_not_less option.simps(5))

lemma purged_touch: "purged {k} db (redis_touch k db)"
  by (auto simp: purged_def redis_touch_def redis_GET_def redis_DEL_def expired_key_def split: option.splits if_splits)

lemma read_number_effect:
  assumes "read_number tonumber k db = (r, db')"
  shows "purged {k} db db'"
    and "db_keys db k = Some (v, e) \<Longrightarrow> db_now db \<le> e \<Longrightarrow> r = (case tonumber v of None \<Rightarrow> Inl () | Some n \<Rightarrow> Inr (Some n))"
    and "r \<noteq> Inr None \<Longrightarrow> db' = db"
proof -
  have db': "db' = redis_touch k db"
    using assms by (auto simp: read_number_def Let_def split: option.splits)
  then show "purged {k} db db'" by (simp add: purged_touch)
  show "r = (case tonumber v of None \<Rightarrow> Inl () | Some n \<Rightarrow> Inr (Some n))"
    if "db_keys db k = Some (v, e)" "db_now db \<le> e"
    using assms that by (auto simp: read_number_def redis_touch_def redis_GET_def Let_def)
  show "db' = db" if "r \<noteq> Inr None"
    using assms that by (auto simp: read_number_def redis_touch_def redis_GET_def redis_DEL_def Let_def split: option.splits if_splits)
qed

lemma purged_mono: "purged K db db' \<Longrightarrow> K \<subseteq> L \<Longrightarrow> purged L db db'"
  unfolding purged_def by blast

definition admits :: "(string \<Rightarrow> int option) \<Rightarrow> int \<Rightarrow> redis_db \<Rightarrow> string \<Rightarrow> int \<Rightarrow> bool" where
  "admits tonumber a db k i \<longleftrightarrow> 1 \<le> i \<and>
     (\<forall>v e. db_keys db k = Some (v, e) \<and> db_now db \<le> e \<longrightarrow> (\<exists>l. tonumber v = Some l \<and> l + i \<le> a))"

lemma admits_mono: "admits tonumber a db k i \<Longrightarrow> a \<le> b \<Longrightarrow> admits tonumber b db k i"
  unfolding admits_def by (meson order_trans)

lemma admits_before: "purged K db db' \<Longrightarrow> admits tonumber a db' k i \<Longrightarrow> admits tonumber a db k i"
  unfolding admits_def by (metis purged_live purged_def)

lemma scan_buckets_effect:
  assumes "scan_buckets tonumber now ks is a db = (r, db')"
  shows "purged (set ks) db db' \<and>
    (\<forall>a'. r = Inr a' \<longrightarrow> a \<le> a' \<and> length ks \<le> length is \<and> (\<forall>(k, i) \<in> set (zip ks is). admits tonumber a' db k i))"
  using assms
proof (induction ks arbitrary: "is" a db)
  case (Cons k ks)
  show ?case
  proof (cases "is")
    case (Cons i js)
    obtain x db1 where rd: "read_number tonumber k db = (x, db1)" by (metis surj_pair)
    note eff = read_number_effect [OF rd]
    show ?thesis
    proof (cases "1 \<le> i \<and> (\<exists>old. x = Inr old)")
      case True
      then obtain old where old: "x = Inr old" by blast
      let ?a = "max a (case old of None \<Rightarrow> now | Some l \<Rightarrow> l + i)"
      have rest: "scan_buckets tonumber now ks js ?a db1 = (r, db')"
        using Cons.prems True rd old by (simp add: local.Cons)
      note IH = Cons.IH [OF rest]
      have "purged (set (k # ks)) db db'"
        using purged_trans [OF eff(1), of "set ks" db'] IH by simp
      moreover have "a \<le> a'" "length (k # ks) \<le> length is" "\<forall>(k, i) \<in> set (zip (k # ks) is). admits tonumber a' db k i"
        if "r = Inr a'" for a'
      proof -
        have ih: "?a \<le> a'" "length ks \<le> length js" "\<forall>(k, i) \<in> set (zip ks js). admits tonumber a' db1 k i"
          using IH that by auto
        then show "a \<le> a'" "length (k # ks) \<le> length is" by (simp_all add: local.Cons)
        have "admits tonumber a' db k i"
          using True ih(1) eff(2) old by (fastforce simp: admits_def split: option.splits)
        then show "\<forall>(k, i) \<in> set (zip (k # ks) is). admits tonumber a' db k i"
          using ih(3) admits_before [OF eff(1)] by (fastforce simp: local.Cons)
      qed
      ultimately show ?thesis by blast
    next
      case False
      then show ?thesis
        using Cons.prems rd purged_mono [OF eff(1), of "set (k # ks)"] by (cases x) (auto simp: local.Cons split: if_splits)
    qed
  qed (use Cons.prems in auto)
qed auto

lemma charge_keys: "db_keys (charge now ttl ks db) k = (if k \<in> set ks then Some (itoa now, db_now db + ttl) else db_keys db k)"
proof -
  have "db_keys (foldl (\<lambda>db k. redis_SET k (itoa now) ttl db) db ks) k =
      (if k \<in> set ks then Some (itoa now, db_now db + ttl) else db_keys db k)" for db
    by (induction ks arbitrary: db) (auto simp: redis_SET_def)
  then show ?thesis by (simp add: charge_def)
qed

text \<open>
  An evaluation is refused on sight and changes nothing; or it records the clock, within the
  tolerance and not below the mark it found, and then charges every bucket or none.
\<close>

lemma pacingScript_effect:
  fixes now :: nat and db :: redis_db
  assumes "pacingScript tonumber now tol ttl (clock # bs) is db = (r, db')" and "clock \<notin> set bs"
  defines "db0 \<equiv> db\<lparr>db_now := int now div 1000\<rparr>"
  obtains (unchanged) "db_keys db' = db_keys db" and "r \<noteq> Reply 1 0"
  | (recorded) hw where "int now \<le> hw" and "hw \<le> max (int now) (int now + tol)"
      and "db_keys db' clock = Some (itoa (nat hw), int now div 1000 + ttl)"
      and "\<And>v e m. db_keys db clock = Some (v, e) \<Longrightarrow> int now div 1000 \<le> e \<Longrightarrow> tonumber v = Some m \<Longrightarrow> m \<le> hw"
      and "if r = Reply 1 0
        then length bs \<le> length is \<and> (\<forall>(k, i) \<in> set (zip bs is). admits tonumber (int now) db0 k i) \<and>
          (\<forall>k. k \<noteq> clock \<longrightarrow> db_keys db' k =
             (if k \<in> set bs then Some (itoa now, int now div 1000 + ttl) else db_keys db k))
        else (\<forall>k. k \<noteq> clock \<longrightarrow> db_keys db' k = db_keys db k \<or> expired_key db0 k \<and> db_keys db' k = None)"
proof -
  obtain x db1 where rd: "read_number tonumber clock db0 = (x, db1)" by (metis surj_pair)
  note eff = read_number_effect [OF rd]
  note run = assms(1) [unfolded pacingScript_def Let_def list.case, folded db0_def, unfolded rd prod.case]
  show thesis
  proof (cases "tol < 0 \<or> ttl < 1 \<or> bs = [] \<or> x = Inl ()")
    case True
    then have "db_keys db' = db_keys db \<and> r \<noteq> Reply 1 0"
      using run eff(3) by (auto simp: db0_def split: if_splits)
    then show thesis using unchanged by blast
  next
    case False
    then obtain mark where mark: "x = Inr mark" by (cases x) auto
    let ?hw = "case mark of None \<Rightarrow> int now | Some m \<Rightarrow> max (int now) m"
    let ?db2 = "redis_SET clock (itoa (nat ?hw)) ttl db1"
    show thesis
    proof (cases "case mark of None \<Rightarrow> False | Some m \<Rightarrow> int now < m - tol")
      case True
      then have "db1 = db0" using eff(3) mark by (auto split: option.splits)
      then have "db_keys db' = db_keys db \<and> r \<noteq> Reply 1 0"
        using run False True mark by (auto simp: db0_def)
      then show thesis using unchanged by blast
    next
      case passed: False
      obtain y db3 where scan: "scan_buckets tonumber (int now) bs is (int now) ?db2 = (y, db3)" by (metis surj_pair)
      have script: "(r, db') = (case y of Inl e \<Rightarrow> (Script_error e, db3) | Inr a \<Rightarrow>
          if a > int now then (Reply 0 (a - int now), db3) else (Reply 1 0, charge now ttl bs db3))"
        using run False passed mark scan by (auto split: sum.splits)
      note seff = scan_buckets_effect [OF scan]
      have now1: "db_now db1 = int now div 1000" using eff(1) by (simp add: purged_def db0_def)
      have keys2: "db_keys ?db2 k = db_keys db k" "db_now ?db2 = db_now db0" if "k \<noteq> clock" for k
        using purged_at [OF eff(1), of k] that now1 by (auto simp: redis_SET_def db0_def)
      have other: "db_keys db3 k = db_keys db k \<or> k \<in> set bs \<and> expired_key db0 k \<and> db_keys db3 k = None" if "k \<noteq> clock" for k
        using purged_at [OF seff [THEN conjunct1], of k] keys2 [OF that] expired_key_cong [of ?db2 k db0] by (auto simp: db0_def)
      have same: "admits tonumber a ?db2 k i \<longleftrightarrow> admits tonumber a db0 k i" if "k \<noteq> clock" for a k i
        using keys2 [OF that] by (simp add: admits_def db0_def)
      have now3: "db_now db3 = int now div 1000"
        using eff(1) seff by (simp add: purged_def redis_SET_def db0_def)
      have clock3: "db_keys db3 clock = Some (itoa (nat ?hw), int now div 1000 + ttl)"
        using purged_at [OF seff [THEN conjunct1], of clock] assms(2) eff(1)
        by (auto simp: redis_SET_def purged_def db0_def)
      have keep: "m \<le> ?hw" if "db_keys db clock = Some (v, e)" "int now div 1000 \<le> e" "tonumber v = Some m" for v e m
        using eff(2) [of v e] that mark by (auto simp: db0_def)
      show thesis
      proof (rule recorded [of ?hw])
        show "int now \<le> ?hw" "?hw \<le> max (int now) (int now + tol)"
          using passed by (auto split: option.splits)
        show "db_keys db' clock = Some (itoa (nat ?hw), int now div 1000 + ttl)"
          using script clock3 assms(2) by (auto simp: charge_keys split: sum.splits if_splits)
        show "m \<le> ?hw" if "db_keys db clock = Some (v, e)" "int now div 1000 \<le> e" "tonumber v = Some m" for v e m
          using that by (rule keep)
      next
        show "if r = Reply 1 0
        then length bs \<le> length is \<and> (\<forall>(k, i) \<in> set (zip bs is). admits tonumber (int now) db0 k i) \<and>
          (\<forall>k. k \<noteq> clock \<longrightarrow> db_keys db' k =
             (if k \<in> set bs then Some (itoa now, int now div 1000 + ttl) else db_keys db k))
        else (\<forall>k. k \<noteq> clock \<longrightarrow> db_keys db' k = db_keys db k \<or> expired_key db0 k \<and> db_keys db' k = None)"
        proof (cases "r = Reply 1 0")
          case True
          then obtain a where a: "y = Inr a" "a \<le> int now" "db' = charge now ttl bs db3"
            using script by (auto split: sum.splits if_splits)
          have "length bs \<le> length is" "\<forall>(k, i) \<in> set (zip bs is). admits tonumber a ?db2 k i"
            using seff a(1) by auto
          moreover from this(2) have "admits tonumber (int now) db0 k i" if "(k, i) \<in> set (zip bs is)" for k i
            using that same [of k] admits_mono [OF _ a(2)] assms(2) by (metis (no_types, lifting) case_prodD in_set_zipE)
          ultimately show ?thesis using True a(3) now3 other by (auto simp: charge_keys)
        next
          case False
          then have "db' = db3" using script by (auto split: sum.splits if_splits)
          then show ?thesis using False other by auto
        qed
      qed
    qed
  qed
qed

subsection \<open>Everything that can happen to the keys of one pacer\<close>

text \<open>
  The keys of one application prefix: the evaluations of all processes, whatever buckets, intervals
  and clock readings they have, and the removal of expired keys by Redis itself. Every permit is kept
  with its bucket, its time and the interval in force. The clock may move as it likes, but is taken
  not to fall by more than the tolerance behind a reading at which Redis removed keys on its own.
\<close>

record paced =
  pw_db :: redis_db
  pw_swept :: int
  pw_grants :: "(string \<times> nat \<times> int) list"

inductive paced_step :: "(string \<Rightarrow> int option) \<Rightarrow> string \<Rightarrow> paced \<Rightarrow> paced \<Rightarrow> bool" for tonumber clock where
  evaluation: "pacingScript tonumber now clockToleranceMicros stateTTLMillis (clock # bs) is (pw_db w) = (r, db') \<Longrightarrow>
    distinct (clock # bs) \<Longrightarrow> pw_swept w \<le> int now + clockToleranceMicros \<Longrightarrow> int now + clockToleranceMicros \<le> 2 ^ 53 \<Longrightarrow>
    paced_step tonumber clock w
      (w\<lparr>pw_db := db',
         pw_grants := (if r = Reply 1 0 then map (\<lambda>(k, i). (k, now, i)) (zip bs is) else []) @ pw_grants w\<rparr>)"
| sweep: "purged K ((pw_db w)\<lparr>db_now := int now div 1000\<rparr>) db' \<Longrightarrow>
    paced_step tonumber clock w (w\<lparr>pw_db := db', pw_swept := max (pw_swept w) (int now)\<rparr>)"

inductive paced_reachable :: "(string \<Rightarrow> int option) \<Rightarrow> string \<Rightarrow> paced \<Rightarrow> bool" for tonumber clock where
  start: "pw_grants w = [] \<Longrightarrow> paced_reachable tonumber clock w"
| step: "paced_reachable tonumber clock w \<Longrightarrow> paced_step tonumber clock w w' \<Longrightarrow> paced_reachable tonumber clock w'"

text \<open>What \<open>string.format\<close> writes, \<open>tonumber\<close> reads: exact for doubles up to \<open>2 ^ 53\<close>.\<close>

definition lua_reads :: "(string \<Rightarrow> int option) \<Rightarrow> bool" where
  "lua_reads tonumber \<longleftrightarrow> (\<forall>n :: nat. n \<le> 2 ^ 53 \<longrightarrow> tonumber (itoa n) = Some (int n))"

subsection \<open>Spacing\<close>

text \<open>
  A reading after which no evaluation can be admitted at an earlier time, but for the tolerance: one
  at which Redis swept, or one that the clock mark has recorded.
\<close>

definition guarded :: "(string \<Rightarrow> int option) \<Rightarrow> string \<Rightarrow> paced \<Rightarrow> int \<Rightarrow> bool" where
  "guarded tonumber clock w f \<longleftrightarrow> f \<le> pw_swept w \<or>
     (\<exists>v e m. db_keys (pw_db w) clock = Some (v, e) \<and> tonumber v = Some m \<and> f \<le> m \<and> m div 1000 \<le> e)"

text \<open>
  What is left of a permit: the bucket still holds this time or a later one, for a day; or its key
  has expired, at a guarded reading.
\<close>

definition remembered :: "(string \<Rightarrow> int option) \<Rightarrow> string \<Rightarrow> paced \<Rightarrow> string \<Rightarrow> nat \<Rightarrow> bool" where
  "remembered tonumber clock w k t \<longleftrightarrow>
     (\<exists>v l. db_keys (pw_db w) k = Some (v, l div 1000 + stateTTLMillis) \<and> tonumber v = Some l \<and> int t \<le> l) \<or>
     db_keys (pw_db w) k = None \<and> (\<exists>f. guarded tonumber clock w f \<and> int t + stateTTLMillis * 1000 < f)"

definition spacing :: "string \<times> nat \<times> int \<Rightarrow> string \<times> nat \<times> int \<Rightarrow> bool" where
  "spacing new old \<longleftrightarrow> (case (new, old) of ((k, t, i), (k', t', i')) \<Rightarrow>
     k = k' \<longrightarrow> int t' + min i (stateTTLMillis * 1000 - clockToleranceMicros) \<le> int t)"

lemma later_millisecond: "l div 1000 + d < now div 1000 \<Longrightarrow> l + d * 1000 < (now :: int)"
  by linarith

text \<open>A guarded reading stays guarded.\<close>

lemma guarded_step:
  assumes "paced_step tonumber clock w w'" and "guarded tonumber clock w f" and "lua_reads tonumber"
  shows "guarded tonumber clock w' f"
  using assms(1)
proof cases
  case (evaluation now bs "is" r db')
  from evaluation(2) have clock: "clock \<notin> set bs" using evaluation(3) by simp
  show ?thesis
  proof (cases rule: pacingScript_effect [OF evaluation(2) clock])
    case unchanged: 1
    then show ?thesis using assms(2) evaluation(1) by (auto simp: guarded_def)
  next
    case recorded: (2 hw)
    have hw: "tonumber (itoa (nat hw)) = Some hw" "hw div 1000 \<le> int now div 1000 + stateTTLMillis"
      using recorded(1,2) evaluation(5) assms(3) by (auto simp: lua_reads_def clockToleranceMicros_def stateTTLMillis_def)
    have "f \<le> pw_swept w \<or> f \<le> hw"
    proof (cases "f \<le> pw_swept w")
      case False
      then obtain v e m where m: "db_keys (pw_db w) clock = Some (v, e)" "tonumber v = Some m" "f \<le> m" "m div 1000 \<le> e"
        using assms(2) by (auto simp: guarded_def)
      show ?thesis
      proof (cases "int now div 1000 \<le> e")
        case True
        then show ?thesis using recorded(4) [OF m(1) _ m(2)] m(3) by simp
      next
        case False
        then have "m div 1000 + 0 < int now div 1000" using m(4) by simp
        then have "m < int now" using later_millisecond [of m 0 "int now"] by simp
        then show ?thesis using m(3) recorded(1) by simp
      qed
    qed simp
    then show ?thesis using hw recorded(3) evaluation(1) by (auto simp: guarded_def)
  qed
next
  case (sweep K now db')
  have at: "db_keys db' clock = db_keys (pw_db w) clock \<or>
      expired_key ((pw_db w)\<lparr>db_now := int now div 1000\<rparr>) clock \<and> db_keys db' clock = None"
    using purged_at [OF sweep(2), of clock] by auto
  show ?thesis
  proof (cases "f \<le> pw_swept w")
    case False
    then obtain v e m where m: "db_keys (pw_db w) clock = Some (v, e)" "tonumber v = Some m" "f \<le> m" "m div 1000 \<le> e"
      using assms(2) by (auto simp: guarded_def)
    have "f \<le> int now" if "e < int now div 1000"
      using later_millisecond [of m 0 "int now"] m(3,4) that by simp
    then show ?thesis using at m sweep(1) by (auto simp: guarded_def expired_key_def)
  qed (use sweep(1) in \<open>auto simp: guarded_def\<close>)
qed

text \<open>A permit is only given when every remembered one is far enough back.\<close>

lemma permit_spacing:
  assumes "remembered tonumber clock w k t" and "admits tonumber (int now) ((pw_db w)\<lparr>db_now := int now div 1000\<rparr>) k i"
    and "\<And>f. guarded tonumber clock w f \<Longrightarrow> f \<le> int now + clockToleranceMicros"
  shows "int t + min i (stateTTLMillis * 1000 - clockToleranceMicros) \<le> int now"
  using assms(1) unfolding remembered_def
proof (elim disjE exE conjE)
  fix v l assume l: "db_keys (pw_db w) k = Some (v, l div 1000 + stateTTLMillis)" "tonumber v = Some l" "int t \<le> l"
  show ?thesis
  proof (cases "int now div 1000 \<le> l div 1000 + stateTTLMillis")
    case True
    then have "l + i \<le> int now" using assms(2) l(1,2) by (simp add: admits_def)
    then show ?thesis using l(3) by linarith
  next
    case False
    then have "l + stateTTLMillis * 1000 < int now" using later_millisecond [of l stateTTLMillis "int now"] by linarith
    then show ?thesis using l(3) by (simp add: clockToleranceMicros_def min_def)
  qed
next
  fix f assume "guarded tonumber clock w f" "int t + stateTTLMillis * 1000 < f"
  then show ?thesis using assms(3) [of f] by linarith
qed

text \<open>An evaluation that got past the clock check is not behind a guarded reading.\<close>

lemma guarded_now:
  assumes "guarded tonumber clock w f" and "pw_swept w \<le> int now + clockToleranceMicros"
    and "\<And>v e m. db_keys (pw_db w) clock = Some (v, e) \<Longrightarrow> int now div 1000 \<le> e \<Longrightarrow> tonumber v = Some m \<Longrightarrow> m \<le> hw"
    and "hw \<le> max (int now) (int now + clockToleranceMicros)"
  shows "f \<le> int now + clockToleranceMicros"
proof (cases "f \<le> pw_swept w")
  case False
  then obtain v e m where m: "db_keys (pw_db w) clock = Some (v, e)" "tonumber v = Some m" "f \<le> m" "m div 1000 \<le> e"
    using assms(1) by (auto simp: guarded_def)
  show ?thesis
  proof (cases "int now div 1000 \<le> e")
    case True
    then show ?thesis using assms(3) [OF m(1) True m(2)] assms(4) m(3) by (simp add: clockToleranceMicros_def)
  next
    case False
    then have "m < int now" using later_millisecond [of m 0 "int now"] m(4) by simp
    then show ?thesis using m(3) by (simp add: clockToleranceMicros_def)
  qed
qed (use assms(2) in simp)

lemma zip_partner:
  "length xs \<le> length ys \<Longrightarrow> x \<in> set xs \<Longrightarrow> \<exists>y. (x, y) \<in> set (zip xs ys)"
  by (metis in_set_conv_nth in_set_zip fst_conv order_less_le_trans snd_conv)

text \<open>Nor is a permit forgotten: a bucket's key changes only to a later permit or by expiring.\<close>

lemma remembered_step:
  assumes "paced_step tonumber clock w w'" and "remembered tonumber clock w k t" and "lua_reads tonumber" and "k \<noteq> clock"
  shows "remembered tonumber clock w' k t"
proof -
  note keep = guarded_step [OF assms(1) _ assms(3)]
  have same: ?thesis if "db_keys (pw_db w') k = db_keys (pw_db w) k"
    using assms(2) keep that unfolding remembered_def by metis
  have gone: ?thesis if "db_keys (pw_db w') k = None" "expired_key ((pw_db w)\<lparr>db_now := int now div 1000\<rparr>) k"
    "guarded tonumber clock w' (int now)" for now
  proof -
    from that(2) assms(2) obtain v l where l: "db_keys (pw_db w) k = Some (v, l div 1000 + stateTTLMillis)" "int t \<le> l"
      "l div 1000 + stateTTLMillis < int now div 1000"
      by (auto simp: remembered_def expired_key_def)
    have "int t + stateTTLMillis * 1000 < int now" using later_millisecond [OF l(3)] l(2) by linarith
    then show ?thesis using that(1,3) by (auto simp: remembered_def)
  qed
  from assms(1) show ?thesis
  proof cases
    case (evaluation now bs "is" r db')
    have clock: "clock \<notin> set bs" using evaluation(3) by simp
    show ?thesis
    proof (cases rule: pacingScript_effect [OF evaluation(2) clock])
      case 1
      then show ?thesis using same evaluation(1) by simp
    next
      case recorded: (2 hw)
      have g: "guarded tonumber clock w' (int now)"
        using recorded(1-3) evaluation(1,5) assms(3)
        by (auto simp: guarded_def lua_reads_def clockToleranceMicros_def stateTTLMillis_def)
      show ?thesis
      proof (cases "r = Reply 1 0 \<and> k \<in> set bs")
        case True
        then have len: "length bs \<le> length is" and adm: "\<forall>(k, i) \<in> set (zip bs is).
            admits tonumber (int now) ((pw_db w)\<lparr>db_now := int now div 1000\<rparr>) k i"
          and new: "db_keys db' k = Some (itoa now, int now div 1000 + stateTTLMillis)"
          using recorded(5) assms(4) by auto
        obtain i where i: "(k, i) \<in> set (zip bs is)"
          using True len by (metis zip_partner)
        have a: "admits tonumber (int now) ((pw_db w)\<lparr>db_now := int now div 1000\<rparr>) k i" using adm i by blast
        have "int t + min i (stateTTLMillis * 1000 - clockToleranceMicros) \<le> int now"
          by (rule permit_spacing [OF assms(2) a guarded_now [OF _ evaluation(4) recorded(4,2)]])
        moreover have "1 \<le> i" using a by (simp add: admits_def)
        ultimately have "int t \<le> int now" by (simp add: stateTTLMillis_def clockToleranceMicros_def min_def split: if_splits)
        then show ?thesis
          using new evaluation(1,5) assms(3) by (auto simp: remembered_def lua_reads_def clockToleranceMicros_def)
      next
        case False
        then have "db_keys db' k = db_keys (pw_db w) k \<or>
            expired_key ((pw_db w)\<lparr>db_now := int now div 1000\<rparr>) k \<and> db_keys db' k = None"
          using recorded(5) assms(4) by (auto split: if_splits)
        then show ?thesis using same gone [OF _ _ g] evaluation(1) by auto
      qed
    qed
  next
    case (sweep K now db')
    have "guarded tonumber clock w' (int now)" by (simp add: sweep(1) guarded_def)
    then show ?thesis using purged_at [OF sweep(2), of k] same gone [of now] sweep(1) by auto
  qed
qed

lemma pacingScript_granted:
  assumes "pacingScript tonumber now tol ttl (clock # bs) is db = (Reply 1 0, db')" and "clock \<notin> set bs"
  obtains hw where "hw \<le> max (int now) (int now + tol)"
    and "\<And>v e m. db_keys db clock = Some (v, e) \<Longrightarrow> int now div 1000 \<le> e \<Longrightarrow> tonumber v = Some m \<Longrightarrow> m \<le> hw"
    and "\<forall>(k, i) \<in> set (zip bs is). admits tonumber (int now) (db\<lparr>db_now := int now div 1000\<rparr>) k i"
    and "\<And>k. k \<in> set bs \<Longrightarrow> db_keys db' k = Some (itoa now, int now div 1000 + ttl)"
proof (cases rule: pacingScript_effect [OF assms])
  case (2 hw)
  have "\<forall>(k, i) \<in> set (zip bs is). admits tonumber (int now) (db\<lparr>db_now := int now div 1000\<rparr>) k i"
    and "\<And>k. k \<in> set bs \<Longrightarrow> db_keys db' k = Some (itoa now, int now div 1000 + ttl)"
    using 2(5) assms(2) by auto
  with 2(2,4) show thesis by (rule that) assumption+
qed simp

definition paced_inv :: "(string \<Rightarrow> int option) \<Rightarrow> string \<Rightarrow> paced \<Rightarrow> bool" where
  "paced_inv tonumber clock w \<longleftrightarrow> sorted_wrt spacing (pw_grants w) \<and>
     (\<forall>(k, t, i) \<in> set (pw_grants w). k \<noteq> clock \<and> remembered tonumber clock w k t)"

lemma sorted_wrt_distinct_keys: "distinct bs \<Longrightarrow> sorted_wrt spacing (map (\<lambda>(k, i). (k, now, i)) (zip bs is))"
proof (induction bs "is" rule: list_induct2')
  case (4 b bs i "is")
  then show ?case by (auto simp: spacing_def dest: set_zip_leftD)
qed auto

lemma paced_inv_step:
  assumes "paced_step tonumber clock w w'" and "paced_inv tonumber clock w" and "lua_reads tonumber"
  shows "paced_inv tonumber clock w'"
proof -
  have old: "k \<noteq> clock \<and> remembered tonumber clock w' k t" if "(k, t, i) \<in> set (pw_grants w)" for k t i
    using that assms(2) remembered_step [OF assms(1) _ assms(3)] by (fastforce simp: paced_inv_def)
  from assms(1) show ?thesis
  proof cases
    case (evaluation now bs "is" r db')
    have clock: "clock \<notin> set bs" using evaluation(3) by simp
    show ?thesis
    proof (cases "r = Reply 1 0")
      case False
      then show ?thesis using old assms(2) evaluation(1) by (auto simp: paced_inv_def)
    next
      case True
      let ?new = "map (\<lambda>(k, i). (k, now, i)) (zip bs is)"
      obtain hw where
        hw: "hw \<le> max (int now) (int now + clockToleranceMicros)"
          "\<And>v e m. db_keys (pw_db w) clock = Some (v, e) \<Longrightarrow> int now div 1000 \<le> e \<Longrightarrow> tonumber v = Some m \<Longrightarrow> m \<le> hw"
        and adm: "\<forall>(k, i) \<in> set (zip bs is). admits tonumber (int now) ((pw_db w)\<lparr>db_now := int now div 1000\<rparr>) k i"
        and keys: "\<And>k. k \<in> set bs \<Longrightarrow> db_keys db' k = Some (itoa now, int now div 1000 + stateTTLMillis)"
        by (rule pacingScript_granted [OF evaluation(2) [unfolded True] clock]) blast
      have "spacing (k, now, i) (k', t, i')" if "(k, i) \<in> set (zip bs is)" "(k', t, i') \<in> set (pw_grants w)" for k i k' t i'
      proof -
        have "admits tonumber (int now) ((pw_db w)\<lparr>db_now := int now div 1000\<rparr>) k i" using adm that(1) by blast
        moreover have "remembered tonumber clock w k' t" using that(2) assms(2) by (fastforce simp: paced_inv_def)
        ultimately show ?thesis
          using permit_spacing [of tonumber clock w k t now i] guarded_now [OF _ evaluation(4) hw(2,1)]
          by (auto simp: spacing_def)
      qed
      moreover have "remembered tonumber clock w' k now" if "(k, i) \<in> set (zip bs is)" for k i
        using keys [OF set_zip_leftD [OF that]] assms(3) evaluation(1,5)
        by (auto simp: remembered_def lua_reads_def clockToleranceMicros_def)
      ultimately show ?thesis
        using old assms(2) evaluation(1,3) True clock sorted_wrt_distinct_keys [of bs now "is"]
        by (auto simp: paced_inv_def sorted_wrt_append dest: set_zip_leftD)
    qed
  next
    case (sweep K now db')
    then show ?thesis using old assms(2) by (auto simp: paced_inv_def)
  qed
qed

lemma paced_inv_reachable: "paced_reachable tonumber clock w \<Longrightarrow> lua_reads tonumber \<Longrightarrow> paced_inv tonumber clock w"
proof (induction rule: paced_reachable.induct)
  case (start w)
  then show ?case by (simp add: paced_inv_def)
next
  case (step w w')
  then show ?case using paced_inv_step by blast
qed

text \<open>
  C39. However processes interleave, whichever buckets and rates each brings and however the clock of
  Redis jumps between evaluations, as long as it does not fall more than five milliseconds behind a
  reading at which Redis removed keys on its own, two permits for one bucket are never closer in Redis time than the
  interval in force when the later one was issued; only for an interval longer than a day less five
  milliseconds is that bound the one that is kept. A clock that moved back, a key that expired, or a
  rate that was lowered cannot hand out a permit early.\<close>

theorem permits_are_spaced:
  assumes "paced_reachable tonumber clock w" and "lua_reads tonumber"
    and "pw_grants w = newer @ (bucket, t, i) # between @ (bucket, t', i') # older"
  shows "int t' + min i (86400 * 1000000 - 5000) \<le> int t"
  using paced_inv_reachable [OF assms(1,2)] assms(3)
  by (simp add: paced_inv_def sorted_wrt_append spacing_def stateTTLMillis_def clockToleranceMicros_def)

lemma lua_reads_Atoi: "lua_reads Atoi"
  by (auto simp: lua_reads_def max_int64_def intro!: Atoi_itoa)

theorem permits_are_spaced_witness:
  "\<exists>w. paced_reachable Atoi ''c'' w \<and> pw_grants w = [(''b'', 5, 2), (''b'', 0, 2)] \<and>
    int 0 + min 2 (86400 * 1000000 - 5000) \<le> int 5"
proof -
  let ?db = "\<lparr>db_now = 0, db_keys = (\<lambda>_. None)\<rparr>"
  let ?run = "\<lambda>now. pacingScript Atoi now clockToleranceMicros stateTTLMillis [''c'', ''b''] [2]"
  let ?db1 = "snd (?run 0 ?db)" and ?db2 = "snd (?run 5 (snd (?run 0 ?db)))"
  note eval = pacingScript_def read_number_def redis_touch_def redis_GET_def redis_SET_def redis_DEL_def charge_def
    clockToleranceMicros_def stateTTLMillis_def itoa_digit
  have digits: "Atoi (itoa 0) = Some 0" using lua_reads_Atoi by (simp add: lua_reads_def)
  have run: "?run 0 ?db = (Reply 1 0, ?db1)" "?run 5 ?db1 = (Reply 1 0, ?db2)"
    using digits by (simp_all add: eval)
  let ?w0 = "\<lparr>pw_db = ?db, pw_swept = 0, pw_grants = []\<rparr>"
  let ?w1 = "\<lparr>pw_db = ?db1, pw_swept = 0, pw_grants = [(''b'', 0, 2)]\<rparr>"
  let ?w2 = "\<lparr>pw_db = ?db2, pw_swept = 0, pw_grants = [(''b'', 5, 2), (''b'', 0, 2)]\<rparr>"
  have "?run 0 (pw_db ?w0) = (Reply 1 0, ?db1)" "?run 5 (pw_db ?w1) = (Reply 1 0, ?db2)" using run by simp_all
  note steps = this [THEN paced_step.evaluation]
  have "paced_step Atoi ''c'' ?w0 ?w1" using steps(1) by (simp add: clockToleranceMicros_def)
  moreover have "paced_step Atoi ''c'' ?w1 ?w2" using steps(2) by (simp add: clockToleranceMicros_def)
  ultimately have "paced_reachable Atoi ''c'' ?w2"
    by (meson paced.select_convs(3) paced_reachable.intros)
  then show ?thesis
    using permits_are_spaced [OF _ lua_reads_Atoi, of "''c''" ?w2 "[]" "''b''" 5 2 "[]" 0 2 "[]"] by auto
qed

subsection \<open>Acquiring\<close>

text \<open>The keys of one call: the clock first, then one key per bucket, all distinct.\<close>

lemma clock_is_no_bucket: "bucket_key p b \<noteq> keyspace p @ clockSuffix"
proof
  assume "bucket_key p b = keyspace p @ clockSuffix"
  then have "namespace b @ '':'' @ digest b = ''clock''" by (simp add: bucket_key_def clockSuffix_def)
  then have "CHR '':'' \<in> set ''clock''" by (metis append_Cons in_set_conv_decomp)
  then show False by simp
qed

lemma keysFor_keys:
  assumes "keysFor p buckets = Inr keys"
  shows "keys = (keyspace p @ clockSuffix) # map (bucket_key p) buckets" and "distinct keys" and "buckets \<noteq> []"
proof -
  have ne: "buckets \<noteq> []" and run: "fold_res (add_bucket_key p) [keyspace p @ clockSuffix] buckets = Inr keys"
    using assms by (auto simp: keysFor_def split: if_splits)
  have "keys = c # ks @ map (bucket_key p) bs \<and> distinct (ks @ map (bucket_key p) bs)"
    if "fold_res (add_bucket_key p) (c # ks) bs = Inr keys" "distinct ks" for c ks bs
    using that
  proof (induction bs arbitrary: ks)
    case (Cons b bs)
    then obtain ks' where "add_bucket_key p (c # ks) b = Inr ks'" "fold_res (add_bucket_key p) ks' bs = Inr keys"
      by (auto simp: bind_res_eq_Inr)
    then have "fold_res (add_bucket_key p) (c # (ks @ [bucket_key p b])) bs = Inr keys" "bucket_key p b \<notin> set ks"
      by (auto simp: add_bucket_key_def split: if_splits)
    then show ?case using Cons.IH [of "ks @ [bucket_key p b]"] Cons.prems(2) by simp
  qed simp
  from this [OF run [folded append_Nil]] show "keys = (keyspace p @ clockSuffix) # map (bucket_key p) buckets"
    and "distinct keys"
    using clock_is_no_bucket by (auto simp: image_iff dest: sym)
  show "buckets \<noteq> []" by (fact ne)
qed

text \<open>A permit is returned only for an evaluation that charged every bucket.\<close>

lemma evaluate_granted:
  assumes "evaluate tonumber l ctx now keys intervals db = (Inr (True, d), db')"
  shows "l = Up \<and> (\<exists>wait. pacingScript tonumber now clockToleranceMicros stateTTLMillis keys intervals db = (Reply 1 wait, db'))"
  using assms
  by (auto simp: evaluate_def parseEvaluation_def split: link.splits prod.splits script_reply.splits if_splits)

lemma pacingScript_reply: "pacingScript tonumber now tol ttl keys is db = (Reply 1 wait, db') \<Longrightarrow> wait = 0"
  by (auto simp: pacingScript_def Let_def split: list.splits if_splits prod.splits sum.splits)

theorem Acquire_permit:
  assumes "Acquire tonumber f64 p buckets ts db = (Permit, ds, db')"
  shows "\<exists>t \<in> set ts. \<exists>q is db0. p = Some q \<and> intervalsFor f64 q (moment t) buckets = Inr (is, False) \<and>
    pacingScript tonumber (clock_now t) clockToleranceMicros stateTTLMillis
      ((keyspace q @ clockSuffix) # map (bucket_key q) buckets) is db0 = (Reply 1 0, db')"
proof -
  obtain q keys where q: "p = Some q" "keysFor q buckets = Inr keys"
    "acquire_loop tonumber f64 q buckets keys ts db = (Permit, ds, db')"
    using assms by (auto simp: Acquire_def split: option.splits if_splits sum.splits)
  have "\<exists>t \<in> set ts. \<exists>is db0. intervalsFor f64 q (moment t) buckets = Inr (is, False) \<and>
    pacingScript tonumber (clock_now t) clockToleranceMicros stateTTLMillis keys is db0 = (Reply 1 0, db')"
    using q(3)
  proof (induction ts arbitrary: db ds)
    case (Cons t ts)
    then show ?case
      by (auto simp: pause_def dest!: evaluate_granted dest: pacingScript_reply
          split: option.splits sum.splits prod.splits if_splits)
  qed simp
  then show ?thesis using q(1) keysFor_keys(1) [OF q(2)] by auto
qed

text \<open>Every sleep is at least a millisecond and at most the poll interval.\<close>

lemma acquire_sleeps:
  assumes "acquire_loop tonumber f64 p buckets keys ts db = (r, ds, db')" and "minRetrySleep \<le> pollInterval p" and "d \<in> set ds"
  shows "minRetrySleep \<le> d" and "d \<le> pollInterval p"
proof -
  have "minRetrySleep \<le> d \<and> d \<le> pollInterval p"
    using assms(1,3)
  proof (induction ts arbitrary: db ds)
    case (Cons t ts)
    then show ?case
      using assms(2)
      by (auto simp: pause_def clampRetry_def split: option.splits sum.splits prod.splits if_splits)
  qed simp
  then show "minRetrySleep \<le> d" and "d \<le> pollInterval p" by auto
qed

lemma NewPacer_poll: "NewPacer f64 conn pre opts = Inr p \<Longrightarrow> minRetrySleep \<le> pollInterval p"
  by (auto simp: NewPacer_def res_simps Let_def not_less)

text \<open>A request reaches the next transport only with a permit; otherwise its body is closed.\<close>

lemma RoundTrip_sent:
  assumes "RoundTrip tonumber f64 next rt rq ts db = (Sent a, db')"
  shows "\<exists>rt' req p f buckets ds. rt = Some rt' \<and> rq = Some req \<and> rt_pacer rt' = Some p \<and> rt_buckets rt' = Some f \<and>
    f (content req) = Some buckets \<and> Acquire tonumber f64 (Some p) buckets ts db = (Permit, ds, db') \<and> a = next (content req)"
  using assms
  by (auto simp: RoundTrip_def refuse_request_def split: option.splits acquired.splits prod.splits)

lemma RoundTrip_closes:
  assumes "RoundTrip tonumber f64 next rt (Some req) ts db = (Not_sent c e shut, db')"
  shows "shut \<longleftrightarrow> body_close_fails req \<noteq> None"
  using assms
  by (auto simp: RoundTrip_def refuse_request_def split: option.splits acquired.splits prod.splits)

end
