(* ===== verification/Mongo_Driver.thy ===== *)
theory Mongo_Driver
  imports Outbox_Event "HOL-Library.List_Lexorder" "HOL-Library.Char_ord" "HOL-Library.Product_Lexorder"
begin

text \<open>
  What the MongoDB repository of the outbox uses of the driver: documents as maps from field names to
  values, filters, single-document updates, and programs that call the driver step by step, so that
  the calls of several clients interleave. A call may fail before it reaches the server, or after it
  was carried out.
\<close>

subsection \<open>Documents, filters and updates\<close>

text \<open>
  \<open>BText\<close> is a string read as code points, \<open>BString\<close> one read as bytes; \<open>BDate\<close> counts milliseconds,
  to which the driver rounds a time down. \<open>BBool\<close> stands for the values of every other type.
\<close>

datatype bson = BString string | BText runes | BInt int | BDate int | BNull | BBool bool

type_synonym raw = "string \<rightharpoonup> bson"

type_synonym coll = "raw list"

definition date_of :: "time \<Rightarrow> bson" where
  "date_of t = BDate (t div 1000000)"

definition time_of :: "int \<Rightarrow> time" where
  "time_of ms = ms * 1000000"

datatype cond =
    Is bson | Is_not bson | Among "string list" | Not_among "string list"
  | Int_less int | Date_upto time | Date_before time

type_synonym flt = "(string \<times> cond) list"

text \<open>A missing field satisfies only the negated conditions.\<close>

fun cond_holds :: "cond \<Rightarrow> bson option \<Rightarrow> bool" where
  "cond_holds (Is v) x = (x = Some v)"
| "cond_holds (Is_not v) x = (x \<noteq> Some v)"
| "cond_holds (Among ss) x = (case x of Some (BString s) \<Rightarrow> s \<in> set ss | _ \<Rightarrow> False)"
| "cond_holds (Not_among ss) x = (case x of Some (BString s) \<Rightarrow> s \<notin> set ss | _ \<Rightarrow> True)"
| "cond_holds (Int_less n) x = (case x of Some (BInt i) \<Rightarrow> i < n | _ \<Rightarrow> False)"
| "cond_holds (Date_upto t) x = (case x of Some (BDate d) \<Rightarrow> d \<le> t div 1000000 | _ \<Rightarrow> False)"
| "cond_holds (Date_before t) x = (case x of Some (BDate d) \<Rightarrow> d < t div 1000000 | _ \<Rightarrow> False)"

definition matches :: "flt \<Rightarrow> raw \<Rightarrow> bool" where
  "matches f d \<longleftrightarrow> list_all (\<lambda>(k, c). cond_holds c (d k)) f"

lemma matches_simps [simp]:
  "matches [] d" "matches ((k, c) # f) d \<longleftrightarrow> cond_holds c (d k) \<and> matches f d"
  "matches (f @ g) d \<longleftrightarrow> matches f d \<and> matches g d"
  by (auto simp: matches_def)

text \<open>\<open>mergeFilters\<close>: a later map overrides the fields of an earlier one.\<close>

definition mergeFilters :: "flt \<Rightarrow> flt list \<Rightarrow> flt" where
  "mergeFilters base extras =
     foldl (\<lambda>merged extra. filter (\<lambda>(k, c). k \<notin> fst ` set extra) merged @ extra) base extras"

text \<open>\<open>$set\<close> and \<open>$unset\<close>.\<close>

record change =
  to_set :: "(string \<times> bson) list"
  to_unset :: "string list"

definition apply_change :: "change \<Rightarrow> raw \<Rightarrow> raw" where
  "apply_change u d = (d ++ map_of (rev (to_set u))) |` (- set (to_unset u))"

text \<open>\<open>UpdateOne\<close> on the first match. Every update sent changes a status or a count, so a document
  that matches is also modified.\<close>

fun update_one :: "flt \<Rightarrow> change \<Rightarrow> coll \<Rightarrow> nat \<times> coll" where
  "update_one f u [] = (0, [])"
| "update_one f u (d # ds) =
     (if matches f d then (1, apply_change u d # ds)
      else (case update_one f u ds of (n, ds') \<Rightarrow> (n, d # ds')))"

record query =
  q_filter :: flt
  q_sort :: "string option"
  q_limit :: "nat option"
  q_fields :: "string list option"

text \<open>A sort is by a date and then by the id.\<close>

definition sort_value :: "string \<Rightarrow> raw \<Rightarrow> int \<times> string" where
  "sort_value k d =
     (case d k of Some (BDate t) \<Rightarrow> t | _ \<Rightarrow> 0, case d ''id'' of Some (BString s) \<Rightarrow> s | _ \<Rightarrow> [])"

definition run_query :: "query \<Rightarrow> coll \<Rightarrow> raw list" where
  "run_query q c =
     (let found = filter (matches (q_filter q)) c;
          sorted = (case q_sort q of None \<Rightarrow> found | Some k \<Rightarrow> sort_key (sort_value k) found);
          limited = (case q_limit q of None \<Rightarrow> sorted | Some n \<Rightarrow> take n sorted)
      in case q_fields q of None \<Rightarrow> limited | Some fs \<Rightarrow> map (\<lambda>d. d |` set fs) limited)"

subsection \<open>Programs\<close>

datatype driver_error = Driver_error string | Duplicate_key

datatype 'a prog =
    Done 'a
  | Now "time \<Rightarrow> 'a prog"
  | NewString "string \<Rightarrow> 'a prog"
  | Resolve "driver_error option \<Rightarrow> 'a prog"
  | InsertOne "string list" raw "driver_error option \<Rightarrow> 'a prog"
  | Find query "driver_error + raw list \<Rightarrow> 'a prog"
  | UpdateOne flt change "driver_error + nat \<Rightarrow> 'a prog"
  | DeleteMany flt "driver_error + nat \<Rightarrow> 'a prog"

primrec bindP :: "'a prog \<Rightarrow> ('a \<Rightarrow> 'b prog) \<Rightarrow> 'b prog" where
  "bindP (Done x) k = k x"
| "bindP (Now f) k = Now (\<lambda>t. bindP (f t) k)"
| "bindP (NewString f) k = NewString (\<lambda>t. bindP (f t) k)"
| "bindP (Resolve f) k = Resolve (\<lambda>t. bindP (f t) k)"
| "bindP (InsertOne u d f) k = InsertOne u d (\<lambda>t. bindP (f t) k)"
| "bindP (Find q f) k = Find q (\<lambda>t. bindP (f t) k)"
| "bindP (UpdateOne q u f) k = UpdateOne q u (\<lambda>t. bindP (f t) k)"
| "bindP (DeleteMany q f) k = DeleteMany q (\<lambda>t. bindP (f t) k)"

definition tryP :: "('e + 'a) prog \<Rightarrow> ('a \<Rightarrow> ('e + 'b) prog) \<Rightarrow> ('e + 'b) prog" where
  "tryP m k = bindP m (\<lambda>r. case r of Inl e \<Rightarrow> Done (Inl e) | Inr x \<Rightarrow> k x)"

definition liftP :: "'e + 'a \<Rightarrow> ('a \<Rightarrow> ('e + 'b) prog) \<Rightarrow> ('e + 'b) prog" where
  "liftP r k = (case r of Inl e \<Rightarrow> Done (Inl e) | Inr x \<Rightarrow> k x)"

text \<open>An unordered bulk of updates: all of them are tried; the count, or some error.\<close>

fun bulkWrite :: "(flt \<times> change) list \<Rightarrow> nat \<Rightarrow> driver_error option \<Rightarrow> (driver_error + nat \<Rightarrow> 'a prog) \<Rightarrow> 'a prog" where
  "bulkWrite [] n err k = k (case err of None \<Rightarrow> Inr n | Some e \<Rightarrow> Inl e)"
| "bulkWrite ((f, u) # ms) n err k =
     UpdateOne f u (\<lambda>r. case r of Inl e \<Rightarrow> bulkWrite ms n (Some e) k | Inr m \<Rightarrow> bulkWrite ms (n + m) err k)"

subsection \<open>One driver call, and the calls of several clients\<close>

text \<open>
  \<open>sane t\<close>: the clock shows a time a millisecond or more after Go's zero time. A new claim token
  occurs nowhere yet.
\<close>

definition sane :: "time \<Rightarrow> bool" where
  "sane t \<longleftrightarrow> 1000000 \<le> t"

definition same_unique :: "string list \<Rightarrow> raw \<Rightarrow> raw \<Rightarrow> bool" where
  "same_unique ks d d' \<longleftrightarrow> list_all (\<lambda>k. d k = d' k) ks"

inductive call :: "coll \<Rightarrow> 'a prog \<Rightarrow> coll \<Rightarrow> 'a prog \<Rightarrow> bool" where
  now: "sane t \<Longrightarrow> call c (Now k) c (k t)"
| fresh: "s \<noteq> [] \<Longrightarrow> list_all (\<lambda>d. d ''claim_token'' \<noteq> Some (BString s)) c \<Longrightarrow> call c (NewString k) c (k s)"
| resolve: "call c (Resolve k) c (k e)"
| insert: "\<not> list_ex (same_unique u d) c \<Longrightarrow> call c (InsertOne u d k) (c @ [d]) (k None)"
| insert_duplicate: "list_ex (same_unique u d) c \<Longrightarrow> call c (InsertOne u d k) c (k (Some Duplicate_key))"
| insert_failed: "call c (InsertOne u d k) c (k (Some e))"
| insert_lost: "\<not> list_ex (same_unique u d) c \<Longrightarrow> call c (InsertOne u d k) (c @ [d]) (k (Some e))"
| find: "call c (Find q k) c (k (Inr (run_query q c)))"
| find_failed: "call c (Find q k) c (k (Inl e))"
| update: "update_one f u c = (n, c') \<Longrightarrow> call c (UpdateOne f u k) c' (k (Inr n))"
| update_failed: "call c (UpdateOne f u k) c (k (Inl e))"
| update_lost: "update_one f u c = (n, c') \<Longrightarrow> call c (UpdateOne f u k) c' (k (Inl e))"
| delete: "call c (DeleteMany f k) (filter (\<lambda>d. \<not> matches f d) c) (k (Inr (length (filter (matches f) c))))"
| delete_failed: "call c (DeleteMany f k) c (k (Inl e))"
| delete_lost: "call c (DeleteMany f k) (filter (\<lambda>d. \<not> matches f d) c) (k (Inl e))"

text \<open>A system of clients: any of them makes its next call.\<close>

inductive system_step :: "coll \<times> 'a prog list \<Rightarrow> coll \<times> 'a prog list \<Rightarrow> bool" where
  "i < length ps \<Longrightarrow> call c (ps ! i) c' p' \<Longrightarrow> system_step (c, ps) (c', ps[i := p'])"

text \<open>Clients may join at any time with a program of the given kind.\<close>

inductive runs :: "('a prog \<Rightarrow> bool) \<Rightarrow> coll \<times> 'a prog list \<Rightarrow> bool" for ops where
  empty: "runs ops ([], [])"
| join: "runs ops (c, ps) \<Longrightarrow> ops p \<Longrightarrow> runs ops (c, ps @ [p])"
| step: "runs ops s \<Longrightarrow> system_step s s' \<Longrightarrow> runs ops s'"

subsection \<open>Programs that keep documents well-formed\<close>

text \<open>
  \<open>typed ok Q p\<close>: as long as every document satisfies \<open>ok\<close>, whoever wrote it, the program writes
  only such documents and ends in \<open>Q\<close>. What a program reads satisfies \<open>ok\<close>, matches its query and is
  cut to the fields it asked for.
\<close>

definition read_of :: "(raw \<Rightarrow> bool) \<Rightarrow> query \<Rightarrow> raw \<Rightarrow> bool" where
  "read_of ok q d \<longleftrightarrow> (\<exists>e. ok e \<and> matches (q_filter q) e \<and>
     d = (case q_fields q of None \<Rightarrow> e | Some fs \<Rightarrow> e |` set fs))"

primrec typed :: "(raw \<Rightarrow> bool) \<Rightarrow> ('a \<Rightarrow> bool) \<Rightarrow> 'a prog \<Rightarrow> bool" where
  "typed ok Q (Done x) = Q x"
| "typed ok Q (Now k) = (\<forall>t. sane t \<longrightarrow> typed ok Q (k t))"
| "typed ok Q (NewString k) = (\<forall>s. s \<noteq> [] \<longrightarrow> typed ok Q (k s))"
| "typed ok Q (Resolve k) = (\<forall>e. typed ok Q (k e))"
| "typed ok Q (InsertOne u d k) = (ok d \<and> (\<forall>e. typed ok Q (k e)))"
| "typed ok Q (Find q k) = ((\<forall>e. typed ok Q (k (Inl e))) \<and>
     (\<forall>ds. list_all (read_of ok q) ds \<longrightarrow> typed ok Q (k (Inr ds))))"
| "typed ok Q (UpdateOne f u k) = ((\<forall>d. ok d \<and> matches f d \<longrightarrow> ok (apply_change u d)) \<and> (\<forall>r. typed ok Q (k r)))"
| "typed ok Q (DeleteMany f k) = (\<forall>r. typed ok Q (k r))"

lemma typed_bindP: "typed ok (\<lambda>x. typed ok Q (k x)) p \<Longrightarrow> typed ok Q (bindP p k)"
  by (induction p) auto

lemma typed_mono: "typed ok Q p \<Longrightarrow> (\<And>x. Q x \<Longrightarrow> R x) \<Longrightarrow> typed ok R p"
  by (induction p) auto

lemma typed_tryP:
  "typed ok (\<lambda>r. case r of Inl e \<Rightarrow> Q (Inl e) | Inr x \<Rightarrow> typed ok Q (k x)) p \<Longrightarrow> typed ok Q (tryP p k)"
  unfolding tryP_def by (rule typed_bindP, erule typed_mono) (auto split: sum.splits)

lemma typed_liftP:
  "(\<And>e. r = Inl e \<Longrightarrow> Q (Inl e)) \<Longrightarrow> (\<And>x. r = Inr x \<Longrightarrow> typed ok Q (k x)) \<Longrightarrow> typed ok Q (liftP r k)"
  by (simp add: liftP_def split: sum.split)

lemma typed_bulkWrite:
  assumes "\<And>f u d. (f, u) \<in> set ms \<Longrightarrow> ok d \<Longrightarrow> matches f d \<Longrightarrow> ok (apply_change u d)" and "\<And>r. typed ok Q (k r)"
  shows "typed ok Q (bulkWrite ms n err k)"
  using assms
proof (induction ms arbitrary: n err)
  case (Cons m ms)
  obtain f u where m: "m = (f, u)" by (cases m)
  have "typed ok Q (bulkWrite ms n' err' k)" for n' err'
    by (rule Cons.IH) (use Cons.prems in auto)
  then show ?case using Cons.prems(1) [of f u] by (auto simp: m split: sum.split)
qed simp

lemma update_one_ok:
  assumes "update_one f u c = (n, c')" and "list_all ok c" and "\<And>d. ok d \<Longrightarrow> matches f d \<Longrightarrow> ok (apply_change u d)"
  shows "list_all ok c'"
  using assms(1,2)
proof (induction c arbitrary: n c')
  case (Cons d c)
  then show ?case using assms(3) by (auto split: if_splits prod.splits)
qed simp

lemma run_query_reads: "list_all ok c \<Longrightarrow> list_all (read_of ok q) (run_query q c)"
  by (auto simp: list_all_iff run_query_def read_of_def Let_def dest!: in_set_takeD split: option.splits) blast+

text \<open>One call of a well-behaved program, in a collection of well-formed documents.\<close>

lemma call_typed:
  assumes "call c p c' p'" and "list_all ok c" and "typed ok Q p"
  shows "list_all ok c'" and "typed ok Q p'"
proof -
  have "list_all ok c' \<and> typed ok Q p'"
    using assms
  proof (induction rule: call.induct)
    case (find c q k)
    then show ?case using run_query_reads by simp
  next
    case (update f u c n c' k)
    then show ?case using update_one_ok [of f u c n c' ok] by simp
  next
    case (update_lost f u c n c' k e)
    then show ?case using update_one_ok [of f u c n c' ok] by simp
  qed (auto simp: list_all_iff)
  then show "list_all ok c'" and "typed ok Q p'" by simp_all
qed

lemma runs_typed:
  assumes "runs ops (c, ps)" and "\<And>p. ops p \<Longrightarrow> typed ok Q p"
  shows "list_all ok c \<and> list_all (typed ok Q) ps"
  using assms(1)
proof (induction "(c, ps)" arbitrary: c ps rule: runs.induct)
  case (join c ps p)
  then show ?case using assms(2) by simp
next
  case (step s)
  from step(3) obtain c0 ps0 i p' where s: "s = (c0, ps0)" "i < length ps0" "call c0 (ps0 ! i) c p'" "ps = ps0[i := p']"
    by (auto elim: system_step.cases)
  have "list_all ok c0" "list_all (typed ok Q) ps0" using step(2) s(1) by simp_all
  moreover from this(2) have "typed ok Q (ps0 ! i)" using s(2) by (simp add: list_all_length)
  ultimately show ?case
    using call_typed [OF s(3), of ok Q] s(4) set_update_subset_insert [of ps0 i p'] by (auto simp: list_all_iff)
qed simp

end
