(* ===== verification/Outbox_Mongo.thy ===== *)
theory Outbox_Mongo
  imports Mongo_Driver Outbox_Sanitizer
begin

text \<open>
  \<open>commons/outbox/mongo\<close>: the MongoDB repository of the outbox, operation by operation, as programs
  over the driver. Resolving the database of a call is the driver action \<open>Resolve\<close>; tracing and
  logging are left out. The conversion of UUIDs to text and back is the pair \<open>ux\<close>; a decode into the
  Go struct, which the default tenant field uses, is the parameter \<open>decode_struct\<close>.
\<close>

subsection \<open>Names and errors\<close>

definition defaultCollectionName :: string where "defaultCollectionName = ''outbox_events''"
definition defaultTenantField :: string where "defaultTenantField = ''tenant_id''"
definition defaultScopeTenantID :: string where "defaultScopeTenantID = []"
definition maxListScanMultiplier :: nat where "maxListScanMultiplier = 8"
definition mongoFieldStatus :: string where "mongoFieldStatus = ''status''"
definition mongoFieldAttempts :: string where "mongoFieldAttempts = ''attempts''"
definition mongoFieldCreatedAt :: string where "mongoFieldCreatedAt = ''created_at''"
definition mongoFieldUpdatedAt :: string where "mongoFieldUpdatedAt = ''updated_at''"
definition mongoFieldClaimToken :: string where "mongoFieldClaimToken = ''claim_token''"
definition mongoFieldLastError :: string where "mongoFieldLastError = ''last_error''"

lemmas field_names = mongoFieldStatus_def mongoFieldAttempts_def mongoFieldCreatedAt_def
  mongoFieldUpdatedAt_def mongoFieldClaimToken_def mongoFieldLastError_def

datatype mongo_error =
    Outbox outbox_error | ErrTransactionUnsupported | ErrInvalidIdentifier | ErrCollectionRequired
  | ErrNoDocuments | Decode_error string | Driver driver_error

text \<open>The errors a document that cannot be read gives.\<close>

fun is_decode_error :: "mongo_error \<Rightarrow> bool" where
  "is_decode_error (Decode_error f) = True"
| "is_decode_error (Outbox e) = (e = ErrOutboxStatusInvalid)"
| "is_decode_error e = False"

type_synonym uuid_text = "(uuid \<Rightarrow> string) \<times> (string \<Rightarrow> uuid option)"

subsection \<open>The repository\<close>

record mongo_repo =
  collectionName :: string
  tenantField :: string
  requireTenant :: bool
  tenantModule :: string
  hasResolver :: bool

definition WithCollectionName :: "string \<Rightarrow> mongo_repo \<Rightarrow> mongo_repo" where
  "WithCollectionName name repo = repo\<lparr>collectionName := name\<rparr>"

definition WithTenantField :: "string \<Rightarrow> mongo_repo \<Rightarrow> mongo_repo" where
  "WithTenantField field repo = repo\<lparr>tenantField := field\<rparr>"

definition WithAllowEmptyTenant :: "mongo_repo \<Rightarrow> mongo_repo" where
  "WithAllowEmptyTenant repo = repo\<lparr>requireTenant := False\<rparr>"

definition WithRequireTenant :: "mongo_repo \<Rightarrow> mongo_repo" where
  "WithRequireTenant repo = repo\<lparr>requireTenant := True\<rparr>"

definition WithModule :: "string \<Rightarrow> mongo_repo \<Rightarrow> mongo_repo" where
  "WithModule module repo = repo\<lparr>tenantModule := module\<rparr>"

definition WithTenantDatabaseResolver :: "bool \<Rightarrow> mongo_repo \<Rightarrow> mongo_repo" where
  "WithTenantDatabaseResolver present repo = (if \<not> present then repo else repo\<lparr>hasResolver := True\<rparr>)"

definition NewRepositoryWithContext ::
  "bool \<Rightarrow> (mongo_repo \<Rightarrow> mongo_repo) option list \<Rightarrow> driver_error option \<Rightarrow> mongo_error + mongo_repo" where
  "NewRepositoryWithContext client opts indexes =
     bind_res (refuse (\<not> client) (Outbox ErrConnectionRequired)) (\<lambda>_.
     let repo = \<lparr>collectionName = defaultCollectionName, tenantField = defaultTenantField,
                 requireTenant = True, tenantModule = [], hasResolver = False\<rparr>;
         repo = foldl (\<lambda>r opt. case opt of None \<Rightarrow> r | Some f \<Rightarrow> f r) repo opts;
         repo = repo\<lparr>collectionName := trim_space (collectionName repo), tenantField := trim_space (tenantField repo),
                     tenantModule := trim_space (tenantModule repo)\<rparr> in
     bind_res (refuse (collectionName repo = []) ErrCollectionRequired) (\<lambda>_.
     bind_res (refuse (\<not> ascii_identifier (collectionName repo)) ErrInvalidIdentifier) (\<lambda>_.
     bind_res (refuse (tenantField repo \<noteq> [] \<and> \<not> ascii_identifier (tenantField repo)) ErrInvalidIdentifier) (\<lambda>_.
     let repo = (if tenantField repo = [] then repo\<lparr>requireTenant := False\<rparr> else repo) in
     (case indexes of Some e \<Rightarrow> Inl (Driver e) | None \<Rightarrow> Inr repo)))))"

definition RequiresTenant :: "mongo_repo option \<Rightarrow> bool" where
  "RequiresTenant repo = (case repo of None \<Rightarrow> True | Some r \<Rightarrow> requireTenant r)"

definition tenantIDFromContext :: "mongo_repo \<Rightarrow> tenant_context \<Rightarrow> mongo_error + string" where
  "tenantIDFromContext repo ctx =
     (let found = TenantIDFromContext ctx in
      if requireTenant repo \<and> (found = None \<or> found = Some []) then Inl (Outbox ErrTenantIDRequired)
      else (case found of
          None \<Rightarrow> Inr defaultScopeTenantID
        | Some t \<Rightarrow>
            let tenantID = trim_space t in
            if tenantID = [] then Inl (Outbox ErrTenantIDRequired)
            else if \<not> IsValidTenantID tenantID then Inl (Outbox ErrInvalidTenantID)
            else Inr tenantID))"

definition tenantMatchFilter :: "mongo_repo \<Rightarrow> string \<Rightarrow> flt" where
  "tenantMatchFilter repo tenantID = (if tenantField repo = [] then [] else [(tenantField repo, Is (BString tenantID))])"

definition idTenantFilter :: "uuid_text \<Rightarrow> mongo_repo \<Rightarrow> uuid \<Rightarrow> string \<Rightarrow> flt" where
  "idTenantFilter ux repo i tenantID = mergeFilters [(''id'', Is (BString (fst ux i)))] [tenantMatchFilter repo tenantID]"

definition unique_fields :: "mongo_repo \<Rightarrow> string list" where
  "unique_fields repo = (if tenantField repo = [] then [''id''] else [tenantField repo, ''id''])"

subsection \<open>Documents\<close>

record document =
  doc_ID :: string
  doc_EventType :: string
  doc_AggregateID :: string
  doc_Payload :: string
  doc_Status :: string
  doc_Attempts :: int
  doc_PublishedAt :: "time option"
  doc_LastError :: runes
  doc_CreatedAt :: time
  doc_UpdatedAt :: time
  doc_TenantID :: string

definition toBSON :: "string \<Rightarrow> document \<Rightarrow> raw" where
  "toBSON tf doc =
     (let m = [''id'' \<mapsto> BString (doc_ID doc), ''event_type'' \<mapsto> BString (doc_EventType doc),
               ''aggregate_id'' \<mapsto> BString (doc_AggregateID doc), ''payload'' \<mapsto> BString (doc_Payload doc),
               mongoFieldStatus \<mapsto> BString (doc_Status doc), mongoFieldAttempts \<mapsto> BInt (doc_Attempts doc),
               mongoFieldCreatedAt \<mapsto> date_of (doc_CreatedAt doc), mongoFieldUpdatedAt \<mapsto> date_of (doc_UpdatedAt doc)];
          m = (case doc_PublishedAt doc of None \<Rightarrow> m | Some t \<Rightarrow> m(''published_at'' \<mapsto> date_of t));
          m = (if doc_LastError doc \<noteq> [] then m(mongoFieldLastError \<mapsto> BText (doc_LastError doc)) else m)
      in if tf \<noteq> [] then m(tf \<mapsto> BString (doc_TenantID doc)) else m)"

definition stringField :: "raw \<Rightarrow> string \<Rightarrow> mongo_error + string" where
  "stringField d k = (case d k of Some (BString s) \<Rightarrow> Inr s | _ \<Rightarrow> Inl (Decode_error k))"

definition optionalStringField :: "raw \<Rightarrow> string \<Rightarrow> mongo_error + string" where
  "optionalStringField d k =
     (case d k of None \<Rightarrow> Inr [] | Some BNull \<Rightarrow> Inr [] | Some (BString s) \<Rightarrow> Inr s | _ \<Rightarrow> Inl (Decode_error k))"

definition optionalTextField :: "raw \<Rightarrow> string \<Rightarrow> mongo_error + runes" where
  "optionalTextField d k =
     (case d k of None \<Rightarrow> Inr [] | Some BNull \<Rightarrow> Inr [] | Some (BText s) \<Rightarrow> Inr s | _ \<Rightarrow> Inl (Decode_error k))"

definition intField :: "raw \<Rightarrow> string \<Rightarrow> mongo_error + int" where
  "intField d k = (case d k of Some (BInt i) \<Rightarrow> Inr i | _ \<Rightarrow> Inl (Decode_error k))"

definition timeField :: "raw \<Rightarrow> string \<Rightarrow> mongo_error + time" where
  "timeField d k = (case d k of Some (BDate t) \<Rightarrow> Inr (time_of t) | _ \<Rightarrow> Inl (Decode_error k))"

definition optionalTimeField :: "raw \<Rightarrow> string \<Rightarrow> mongo_error + time option" where
  "optionalTimeField d k =
     (case d k of None \<Rightarrow> Inr None | Some BNull \<Rightarrow> Inr None | Some (BDate t) \<Rightarrow> Inr (Some (time_of t))
      | _ \<Rightarrow> Inl (Decode_error k))"

definition lift_status :: "outbox_error + string \<Rightarrow> mongo_error + string" where
  "lift_status r = (case r of Inl e \<Rightarrow> Inl (Outbox e) | Inr s \<Rightarrow> Inr s)"

definition validateDecodedDocument :: "document \<Rightarrow> mongo_error + document" where
  "validateDecodedDocument doc0 =
     (let doc = doc0\<lparr>doc_Status := trim_space (doc_Status doc0)\<rparr> in
      bind_res (lift_status (ParseOutboxEventStatus (doc_Status doc))) (\<lambda>_.
      bind_res (refuse (doc_Attempts doc < 0) (Decode_error mongoFieldAttempts)) (\<lambda>_.
      Inr (doc\<lparr>doc_LastError := TrimSpace (doc_LastError doc), doc_TenantID := trim_space (doc_TenantID doc)\<rparr>))))"

definition validateClaimDocument :: "document \<Rightarrow> mongo_error + document" where
  "validateClaimDocument doc0 =
     (let doc = doc0\<lparr>doc_ID := trim_space (doc_ID doc0)\<rparr> in
      bind_res (refuse (doc_ID doc = []) (Decode_error ''id'')) (\<lambda>_.
      let doc = doc\<lparr>doc_Status := trim_space (doc_Status doc)\<rparr> in
      bind_res (lift_status (ParseOutboxEventStatus (doc_Status doc))) (\<lambda>_.
      bind_res (refuse (doc_Attempts doc < 0) (Decode_error mongoFieldAttempts)) (\<lambda>_.
      bind_res (refuse (doc_UpdatedAt doc = 0) (Decode_error mongoFieldUpdatedAt)) (\<lambda>_.
      Inr (doc\<lparr>doc_LastError := TrimSpace (doc_LastError doc), doc_TenantID := trim_space (doc_TenantID doc)\<rparr>))))))"

definition tenant_of :: "raw \<Rightarrow> string \<Rightarrow> mongo_error + string" where
  "tenant_of d tf = (if tf \<noteq> [] then optionalStringField d tf else Inr defaultScopeTenantID)"

definition documentFromBSON :: "raw \<Rightarrow> string \<Rightarrow> mongo_error + document" where
  "documentFromBSON d tf =
     bind_res (stringField d ''id'') (\<lambda>i.
     bind_res (stringField d ''event_type'') (\<lambda>eventType.
     bind_res (stringField d ''aggregate_id'') (\<lambda>aggregateID.
     bind_res (stringField d ''payload'') (\<lambda>payload.
     bind_res (stringField d mongoFieldStatus) (\<lambda>status.
     bind_res (intField d mongoFieldAttempts) (\<lambda>attempts.
     bind_res (timeField d mongoFieldCreatedAt) (\<lambda>createdAt.
     bind_res (timeField d mongoFieldUpdatedAt) (\<lambda>updatedAt.
     bind_res (optionalTextField d mongoFieldLastError) (\<lambda>lastError.
     bind_res (optionalTimeField d ''published_at'') (\<lambda>publishedAt.
     bind_res (tenant_of d tf) (\<lambda>tenantID.
     validateDecodedDocument
       \<lparr>doc_ID = i, doc_EventType = eventType, doc_AggregateID = aggregateID, doc_Payload = payload, doc_Status = status,
        doc_Attempts = attempts, doc_PublishedAt = publishedAt, doc_LastError = TrimSpace lastError,
        doc_CreatedAt = createdAt, doc_UpdatedAt = updatedAt, doc_TenantID = trim_space tenantID\<rparr>)))))))))))"

definition claimDocumentFromBSON :: "raw \<Rightarrow> string \<Rightarrow> mongo_error + document" where
  "claimDocumentFromBSON d tf =
     bind_res (stringField d ''id'') (\<lambda>i.
     bind_res (stringField d mongoFieldStatus) (\<lambda>status.
     bind_res (intField d mongoFieldAttempts) (\<lambda>attempts.
     bind_res (timeField d mongoFieldUpdatedAt) (\<lambda>updatedAt.
     bind_res (optionalTextField d mongoFieldLastError) (\<lambda>lastError.
     bind_res (tenant_of d tf) (\<lambda>tenantID.
     validateClaimDocument
       \<lparr>doc_ID = i, doc_EventType = [], doc_AggregateID = [], doc_Payload = [], doc_Status = status,
        doc_Attempts = attempts, doc_PublishedAt = None, doc_LastError = TrimSpace lastError,
        doc_CreatedAt = 0, doc_UpdatedAt = updatedAt, doc_TenantID = trim_space tenantID\<rparr>))))))"

text \<open>The decoder of the Go struct; \<open>None\<close> is a type mismatch.\<close>

type_synonym struct_decoder = "raw \<Rightarrow> document option"

definition decode_one :: "struct_decoder \<Rightarrow> mongo_repo \<Rightarrow> raw \<Rightarrow> mongo_error + document" where
  "decode_one decode_struct repo d =
     (if tenantField repo = defaultTenantField
      then (case decode_struct d of None \<Rightarrow> Inl (Decode_error []) | Some doc \<Rightarrow> validateDecodedDocument doc)
      else documentFromBSON d (tenantField repo))"

definition decode_claim :: "struct_decoder \<Rightarrow> mongo_repo \<Rightarrow> raw \<Rightarrow> mongo_error + document" where
  "decode_claim decode_struct repo d =
     (if tenantField repo = defaultTenantField
      then (case decode_struct d of None \<Rightarrow> Inl (Decode_error []) | Some doc \<Rightarrow> validateClaimDocument doc)
      else claimDocumentFromBSON d (tenantField repo))"

definition decodeCursor :: "struct_decoder \<Rightarrow> mongo_repo \<Rightarrow> raw list \<Rightarrow> mongo_error + document list" where
  "decodeCursor decode_struct repo ds = map_res (decode_one decode_struct repo) ds"

definition decodeClaimCursor :: "struct_decoder \<Rightarrow> mongo_repo \<Rightarrow> raw list \<Rightarrow> mongo_error + document list" where
  "decodeClaimCursor decode_struct repo ds = map_res (decode_claim decode_struct repo) ds"

definition toOutboxEvent :: "uuid_text \<Rightarrow> document \<Rightarrow> mongo_error + outbox_event" where
  "toOutboxEvent ux doc =
     (case snd ux (doc_ID doc) of None \<Rightarrow> Inl (Decode_error ''id'')
      | Some i \<Rightarrow>
          (case snd ux (doc_AggregateID doc) of None \<Rightarrow> Inl (Decode_error ''aggregate_id'')
           | Some aggregateID \<Rightarrow>
               Inr \<lparr>ID = i, EventType = doc_EventType doc, AggregateID = aggregateID, Payload = doc_Payload doc,
                    Status = doc_Status doc, Attempts = doc_Attempts doc, PublishedAt = doc_PublishedAt doc,
                    LastError = doc_LastError doc, CreatedAt = doc_CreatedAt doc, UpdatedAt = doc_UpdatedAt doc\<rparr>))"

definition docsToEvents :: "uuid_text \<Rightarrow> document list \<Rightarrow> mongo_error + outbox_event list" where
  "docsToEvents ux docs = map_res (toOutboxEvent ux) docs"

definition validateCreateEvent :: "outbox_event option \<Rightarrow> mongo_error + outbox_event" where
  "validateCreateEvent event =
     (case event of
        None \<Rightarrow> Inl (Outbox ErrOutboxEventRequired)
      | Some e \<Rightarrow>
          if ID e = 0 then Inl (Outbox ErrIDRequired)
          else if trim_space (EventType e) = [] then Inl (Outbox ErrEventTypeRequired)
          else if AggregateID e = 0 then Inl (Outbox ErrAggregateIDRequired)
          else if length (Payload e) = 0 then Inl (Outbox ErrOutboxEventPayloadRequired)
          else if DefaultMaxPayloadBytes < length (Payload e) then Inl (Outbox ErrOutboxEventPayloadTooLarge)
          else if \<not> json_Valid (Payload e) then Inl (Outbox ErrOutboxEventPayloadNotJSON)
          else Inr e)"

text \<open>\<open>createValues\<close> has the fields of an event.\<close>

definition normalizedCreateValues :: "outbox_event \<Rightarrow> time \<Rightarrow> outbox_event" where
  "normalizedCreateValues e now =
     (let createdAt = (if CreatedAt e = 0 then now else CreatedAt e);
          updatedAt = (if UpdatedAt e = 0 \<or> UpdatedAt e < createdAt then createdAt else UpdatedAt e)
      in \<lparr>ID = ID e, EventType = trim_space (EventType e), AggregateID = AggregateID e, Payload = Payload e,
          Status = StatusPending, Attempts = 0, PublishedAt = None, LastError = [],
          CreatedAt = createdAt, UpdatedAt = updatedAt\<rparr>)"

definition documentFromCreateValues :: "uuid_text \<Rightarrow> outbox_event \<Rightarrow> string \<Rightarrow> document" where
  "documentFromCreateValues ux v tenantID =
     \<lparr>doc_ID = fst ux (ID v), doc_EventType = EventType v, doc_AggregateID = fst ux (AggregateID v),
      doc_Payload = Payload v, doc_Status = Status v, doc_Attempts = Attempts v, doc_PublishedAt = PublishedAt v,
      doc_LastError = LastError v, doc_CreatedAt = CreatedAt v, doc_UpdatedAt = UpdatedAt v, doc_TenantID = tenantID\<rparr>"

subsection \<open>Calls\<close>

text \<open>\<open>repo.collection(ctx)\<close>, and the result of a driver call.\<close>

definition with_collection :: "(mongo_error + 'a) prog \<Rightarrow> (mongo_error + 'a) prog" where
  "with_collection k = Resolve (\<lambda>e. case e of Some e \<Rightarrow> Done (Inl (Driver e)) | None \<Rightarrow> k)"

definition driven :: "driver_error + 'b \<Rightarrow> ('b \<Rightarrow> (mongo_error + 'a) prog) \<Rightarrow> (mongo_error + 'a) prog" where
  "driven r k = (case r of Inl e \<Rightarrow> Done (Inl (Driver e)) | Inr x \<Rightarrow> k x)"

definition initialized :: "mongo_repo option \<Rightarrow> (mongo_repo \<Rightarrow> (mongo_error + 'a) prog) \<Rightarrow> (mongo_error + 'a) prog" where
  "initialized repo k =
     (case repo of None \<Rightarrow> Done (Inl (Outbox ErrRepositoryNotInitialized)) | Some r \<Rightarrow> k r)"

definition guardP :: "bool \<Rightarrow> mongo_error \<Rightarrow> (mongo_error + 'a) prog \<Rightarrow> (mongo_error + 'a) prog" where
  "guardP bad e k = (if bad then Done (Inl e) else k)"

definition Create :: "uuid_text \<Rightarrow> mongo_repo option \<Rightarrow> tenant_context \<Rightarrow> outbox_event option \<Rightarrow> (mongo_error + outbox_event) prog" where
  "Create ux repo ctx event =
     initialized repo (\<lambda>repo.
     liftP (validateCreateEvent event) (\<lambda>e.
     liftP (tenantIDFromContext repo ctx) (\<lambda>tenantID.
     Now (\<lambda>now.
     let doc = documentFromCreateValues ux (normalizedCreateValues e now) tenantID in
     with_collection
       (InsertOne (unique_fields repo) (toBSON (tenantField repo) doc)
          (\<lambda>r. case r of Some e \<Rightarrow> Done (Inl (Driver e)) | None \<Rightarrow> Done (toOutboxEvent ux doc)))))))"

definition CreateWithTx ::
  "uuid_text \<Rightarrow> mongo_repo option \<Rightarrow> tenant_context \<Rightarrow> bool \<Rightarrow> outbox_event option \<Rightarrow> (mongo_error + outbox_event) prog" where
  "CreateWithTx ux repo ctx tx event = guardP tx ErrTransactionUnsupported (Create ux repo ctx event)"

definition decodeSingle ::
  "struct_decoder \<Rightarrow> mongo_repo \<Rightarrow> flt \<Rightarrow> (document \<Rightarrow> (mongo_error + 'a) prog) \<Rightarrow> (mongo_error \<Rightarrow> mongo_error) \<Rightarrow> (mongo_error + 'a) prog" where
  "decodeSingle dec repo f k on_error =
     Find \<lparr>q_filter = f, q_sort = None, q_limit = Some 1, q_fields = None\<rparr> (\<lambda>r.
       case r of
         Inl e \<Rightarrow> Done (Inl (on_error (Driver e)))
       | Inr [] \<Rightarrow> Done (Inl (on_error ErrNoDocuments))
       | Inr (d # _) \<Rightarrow> (case decode_one dec repo d of Inl e \<Rightarrow> Done (Inl (on_error e)) | Inr doc \<Rightarrow> k doc))"

definition GetByID :: "uuid_text \<Rightarrow> struct_decoder \<Rightarrow> mongo_repo option \<Rightarrow> tenant_context \<Rightarrow> uuid \<Rightarrow> (mongo_error + outbox_event) prog" where
  "GetByID ux dec repo ctx i =
     initialized repo (\<lambda>repo.
     guardP (i = 0) (Outbox ErrIDRequired)
     (liftP (tenantIDFromContext repo ctx) (\<lambda>tenantID.
      with_collection
        (decodeSingle dec repo (idTenantFilter ux repo i tenantID) (\<lambda>doc. Done (toOutboxEvent ux doc)) (\<lambda>e. e)))))"

definition transition_ok :: "string \<Rightarrow> string \<Rightarrow> (mongo_error + 'a) prog \<Rightarrow> (mongo_error + 'a) prog" where
  "transition_ok from to k =
     (case ValidateOutboxTransition from to of Inl e \<Rightarrow> Done (Inl (Outbox e)) | Inr _ \<Rightarrow> k)"

definition modified_or_conflict :: "nat \<Rightarrow> (mongo_error + unit) prog" where
  "modified_or_conflict n = (if n = 0 then Done (Inl (Outbox ErrStateTransitionConflict)) else Done (Inr ()))"

definition MarkPublished :: "uuid_text \<Rightarrow> mongo_repo option \<Rightarrow> tenant_context \<Rightarrow> uuid \<Rightarrow> time \<Rightarrow> (mongo_error + unit) prog" where
  "MarkPublished ux repo ctx i publishedAt =
     initialized repo (\<lambda>repo.
     transition_ok StatusProcessing StatusPublished
     (guardP (i = 0) (Outbox ErrIDRequired)
     (liftP (tenantIDFromContext repo ctx) (\<lambda>tenantID.
      with_collection (Now (\<lambda>now.
        UpdateOne (mergeFilters (idTenantFilter ux repo i tenantID) [[(mongoFieldStatus, Is (BString StatusProcessing))]])
          \<lparr>to_set = [(mongoFieldStatus, BString StatusPublished), (''published_at'', date_of publishedAt),
                     (mongoFieldUpdatedAt, date_of now)],
           to_unset = [mongoFieldClaimToken]\<rparr>
          (\<lambda>r. driven r modified_or_conflict)))))))"

definition MarkFailed ::
  "runes \<Rightarrow> uuid_text \<Rightarrow> struct_decoder \<Rightarrow> mongo_repo option \<Rightarrow> tenant_context \<Rightarrow> uuid \<Rightarrow> runes \<Rightarrow> int \<Rightarrow> (mongo_error + unit) prog" where
  "MarkFailed redacted ux dec repo ctx i errMsg0 maxAttempts =
     initialized repo (\<lambda>repo.
     transition_ok StatusProcessing StatusFailed
     (transition_ok StatusProcessing StatusInvalid
     (guardP (i = 0) (Outbox ErrIDRequired)
     (guardP (maxAttempts \<le> 0) (Outbox ErrMaxAttemptsMustBePositive)
     (let errMsg = SanitizeErrorMessageForStorage redacted errMsg0 in
      liftP (tenantIDFromContext repo ctx) (\<lambda>tenantID.
      with_collection
        (decodeSingle dec repo
           (mergeFilters (idTenantFilter ux repo i tenantID) [[(mongoFieldStatus, Is (BString StatusProcessing))]])
           (\<lambda>doc.
             let nextAttempts = wrap64 (doc_Attempts doc + 1);
                 nextStatus = (if nextAttempts \<ge> maxAttempts then StatusInvalid else StatusFailed);
                 nextLastError = AppendErrorCause (doc_LastError doc) errMsg
             in with_collection (Now (\<lambda>now.
               UpdateOne
                 (mergeFilters (idTenantFilter ux repo i (doc_TenantID doc))
                    [[(mongoFieldStatus, Is (BString StatusProcessing)), (mongoFieldAttempts, Is (BInt (doc_Attempts doc)))]])
                 \<lparr>to_set = [(mongoFieldStatus, BString nextStatus), (mongoFieldAttempts, BInt nextAttempts),
                            (mongoFieldLastError, BText nextLastError), (mongoFieldUpdatedAt, date_of now)],
                  to_unset = [mongoFieldClaimToken]\<rparr>
                 (\<lambda>r. driven r modified_or_conflict))))
           (\<lambda>e. if e = ErrNoDocuments then Outbox ErrStateTransitionConflict else e))))))))"

definition MarkInvalid :: "runes \<Rightarrow> uuid_text \<Rightarrow> mongo_repo option \<Rightarrow> tenant_context \<Rightarrow> uuid \<Rightarrow> runes \<Rightarrow> (mongo_error + unit) prog" where
  "MarkInvalid redacted ux repo ctx i errMsg =
     initialized repo (\<lambda>repo.
     transition_ok StatusProcessing StatusInvalid
     (guardP (i = 0) (Outbox ErrIDRequired)
     (liftP (tenantIDFromContext repo ctx) (\<lambda>tenantID.
      with_collection (Now (\<lambda>now.
        UpdateOne (mergeFilters (idTenantFilter ux repo i tenantID) [[(mongoFieldStatus, Is (BString StatusProcessing))]])
          \<lparr>to_set = [(mongoFieldStatus, BString StatusInvalid),
                     (mongoFieldLastError, BText (SanitizeErrorMessageForStorage redacted errMsg)),
                     (mongoFieldUpdatedAt, date_of now)],
           to_unset = [mongoFieldClaimToken]\<rparr>
          (\<lambda>r. driven r modified_or_conflict)))))))"

subsection \<open>Claiming\<close>

type_synonym candidate_change = "time \<Rightarrow> document \<Rightarrow> (string \<times> bson) list"

definition claim_fields :: "mongo_repo \<Rightarrow> string list" where
  "claim_fields repo =
     [''id'', mongoFieldStatus, mongoFieldAttempts, mongoFieldUpdatedAt, mongoFieldLastError] @
     (if tenantField repo \<noteq> [] then [tenantField repo] else [])"

definition findClaimCandidates ::
  "struct_decoder \<Rightarrow> mongo_repo \<Rightarrow> tenant_context \<Rightarrow> flt \<Rightarrow> string \<Rightarrow> nat \<Rightarrow> (mongo_error + document list) prog" where
  "findClaimCandidates dec repo ctx f sortField limit =
     liftP (tenantIDFromContext repo ctx) (\<lambda>tenantID.
     with_collection
       (Find \<lparr>q_filter = mergeFilters f [tenantMatchFilter repo tenantID], q_sort = Some sortField,
              q_limit = Some limit, q_fields = Some (claim_fields repo)\<rparr>
          (\<lambda>r. driven r (\<lambda>ds. Done (decodeClaimCursor dec repo ds)))))"

definition findCandidates ::
  "struct_decoder \<Rightarrow> mongo_repo \<Rightarrow> tenant_context \<Rightarrow> flt \<Rightarrow> string \<Rightarrow> nat \<Rightarrow> (mongo_error + document list) prog" where
  "findCandidates dec repo ctx f sortField limit =
     liftP (tenantIDFromContext repo ctx) (\<lambda>tenantID.
     with_collection
       (Find \<lparr>q_filter = mergeFilters f [tenantMatchFilter repo tenantID], q_sort = Some sortField,
              q_limit = Some limit, q_fields = None\<rparr>
          (\<lambda>r. driven r (\<lambda>ds. Done (decodeCursor dec repo ds)))))"

text \<open>One write per candidate, guarded by the state it was seen in.\<close>

definition claim_filter :: "mongo_repo \<Rightarrow> string \<Rightarrow> document \<Rightarrow> flt" where
  "claim_filter repo fromStatus candidate =
     mergeFilters [(''id'', Is (BString (doc_ID candidate)))]
       [tenantMatchFilter repo (doc_TenantID candidate),
        [(mongoFieldStatus, Is (BString fromStatus)), (mongoFieldAttempts, Is (BInt (doc_Attempts candidate))),
         (mongoFieldUpdatedAt, Is (date_of (doc_UpdatedAt candidate)))]]"

fun claim_models ::
  "mongo_repo \<Rightarrow> string \<Rightarrow> string \<Rightarrow> candidate_change \<Rightarrow> document list \<Rightarrow> (flt \<times> change) list \<Rightarrow> ((flt \<times> change) list \<Rightarrow> 'a prog) \<Rightarrow> 'a prog" where
  "claim_models repo fromStatus token set_for [] ms k = k ms"
| "claim_models repo fromStatus token set_for (c # cs) ms k =
     Now (\<lambda>now. claim_models repo fromStatus token set_for cs
       (ms @ [(claim_filter repo fromStatus c,
               \<lparr>to_set = set_for now c @ [(mongoFieldClaimToken, BString token)], to_unset = []\<rparr>)]) k)"

definition claimDocuments ::
  "struct_decoder \<Rightarrow> mongo_repo \<Rightarrow> document list \<Rightarrow> string \<Rightarrow> string \<Rightarrow> candidate_change \<Rightarrow>
   (mongo_error + document list \<times> nat \<times> string) prog" where
  "claimDocuments dec repo candidates fromStatus sortField set_for =
     (if candidates = [] then Done (Inr ([], 0, []))
      else with_collection (NewString (\<lambda>token.
        claim_models repo fromStatus token set_for candidates [] (\<lambda>ms.
        bulkWrite ms 0 None (\<lambda>r. driven r (\<lambda>modified.
          if modified = 0 then Done (Inr ([], 0, token))
          else
            Find \<lparr>q_filter = mergeFilters
                     [(mongoFieldClaimToken, Is (BString token)), (''id'', Among (map doc_ID candidates))]
                     [tenantMatchFilter repo (doc_TenantID (hd candidates))],
                  q_sort = Some sortField, q_limit = None, q_fields = None\<rparr>
              (\<lambda>r. driven r (\<lambda>ds. liftP (decodeCursor dec repo ds) (\<lambda>claimed.
                 Done (Inr (claimed, length candidates, token)))))))))))"

fun rollback_models ::
  "mongo_repo \<Rightarrow> string \<Rightarrow> string \<Rightarrow> string \<Rightarrow> string list \<Rightarrow> document list \<Rightarrow> (flt \<times> change) list \<Rightarrow> ((flt \<times> change) list \<Rightarrow> 'a prog) \<Rightarrow> 'a prog" where
  "rollback_models repo token returnStatus fromStatus claimedIDs [] ms k = k ms"
| "rollback_models repo token returnStatus fromStatus claimedIDs (c # cs) ms k =
     (if doc_ID c \<in> set claimedIDs then rollback_models repo token returnStatus fromStatus claimedIDs cs ms k
      else Now (\<lambda>now. rollback_models repo token returnStatus fromStatus claimedIDs cs
        (ms @ [(mergeFilters
                  [(''id'', Is (BString (doc_ID c))), (mongoFieldStatus, Is (BString returnStatus)),
                   (mongoFieldClaimToken, Is (BString token))]
                  [tenantMatchFilter repo (doc_TenantID c)],
                \<lparr>to_set = [(mongoFieldStatus, BString fromStatus), (mongoFieldUpdatedAt, date_of now)],
                 to_unset = [mongoFieldClaimToken]\<rparr>)]) k))"

definition rollbackMissingClaims ::
  "mongo_repo \<Rightarrow> document list \<Rightarrow> document list \<Rightarrow> string \<Rightarrow> string \<Rightarrow> string \<Rightarrow> (mongo_error + unit) prog" where
  "rollbackMissingClaims repo candidates claimed token returnStatus fromStatus =
     (if token = [] then Done (Inr ())
      else rollback_models repo token returnStatus fromStatus (map doc_ID claimed) candidates [] (\<lambda>ms.
        if ms = [] then Done (Inr ())
        else with_collection (bulkWrite ms 0 None (\<lambda>r. driven r (\<lambda>_. Done (Inr ()))))))"

fun claim_loop ::
  "nat \<Rightarrow> struct_decoder \<Rightarrow> mongo_repo \<Rightarrow> tenant_context \<Rightarrow> flt \<Rightarrow> string \<Rightarrow> nat \<Rightarrow> string \<Rightarrow> string \<Rightarrow> candidate_change \<Rightarrow>
   document list \<Rightarrow> (mongo_error + document list) prog" where
  "claim_loop 0 dec repo ctx f sortField limit fromStatus returnStatus set_for claimed = Done (Inr claimed)"
| "claim_loop (Suc n) dec repo ctx f sortField limit fromStatus returnStatus set_for claimed =
     (if \<not> length claimed < limit then Done (Inr claimed)
      else (let remaining = limit - length claimed in
        tryP (findClaimCandidates dec repo ctx f sortField remaining) (\<lambda>candidates.
        if candidates = [] then Done (Inr claimed)
        else
          tryP (claimDocuments dec repo candidates fromStatus sortField set_for) (\<lambda>(batch, modified, token).
          if modified \<noteq> length batch then
            tryP (rollbackMissingClaims repo candidates batch token returnStatus fromStatus) (\<lambda>_.
              claim_loop n dec repo ctx f sortField limit fromStatus returnStatus set_for (claimed @ batch))
          else if fromStatus = returnStatus then Done (Inr (claimed @ batch))
          else if batch = [] \<and> length candidates < remaining then Done (Inr (claimed @ batch))
          else claim_loop n dec repo ctx f sortField limit fromStatus returnStatus set_for (claimed @ batch)))))"

definition claimMatching ::
  "struct_decoder \<Rightarrow> mongo_repo \<Rightarrow> tenant_context \<Rightarrow> flt \<Rightarrow> string \<Rightarrow> nat \<Rightarrow> string \<Rightarrow> string \<Rightarrow> candidate_change \<Rightarrow>
   (mongo_error + document list) prog" where
  "claimMatching dec repo ctx f sortField limit fromStatus returnStatus set_for =
     claim_loop maxListScanMultiplier dec repo ctx f sortField limit fromStatus returnStatus set_for []"

definition set_processing :: candidate_change where
  "set_processing now c = [(mongoFieldStatus, BString StatusProcessing), (mongoFieldUpdatedAt, date_of now)]"

definition claimPending ::
  "uuid_text \<Rightarrow> struct_decoder \<Rightarrow> mongo_repo option \<Rightarrow> tenant_context \<Rightarrow> int \<Rightarrow> string \<Rightarrow> (mongo_error + outbox_event list) prog" where
  "claimPending ux dec repo ctx limit eventType =
     initialized repo (\<lambda>repo.
     guardP (limit \<le> 0) (Outbox ErrLimitMustBePositive)
     (tryP
       (claimMatching dec repo ctx
          ((mongoFieldStatus, Is (BString StatusPending)) #
           (if eventType \<noteq> [] then [(''event_type'', Is (BString eventType))] else []))
          mongoFieldCreatedAt (nat limit) StatusPending StatusProcessing set_processing)
       (\<lambda>claimed. Done (docsToEvents ux claimed))))"

definition ListPending :: "uuid_text \<Rightarrow> struct_decoder \<Rightarrow> mongo_repo option \<Rightarrow> tenant_context \<Rightarrow> int \<Rightarrow> (mongo_error + outbox_event list) prog" where
  "ListPending ux dec repo ctx limit = claimPending ux dec repo ctx limit []"

definition ListPendingByType ::
  "uuid_text \<Rightarrow> struct_decoder \<Rightarrow> mongo_repo option \<Rightarrow> tenant_context \<Rightarrow> string \<Rightarrow> int \<Rightarrow> (mongo_error + outbox_event list) prog" where
  "ListPendingByType ux dec repo ctx eventType0 limit =
     initialized repo (\<lambda>_.
     guardP (limit \<le> 0) (Outbox ErrLimitMustBePositive)
     (let eventType = trim_space eventType0 in
      guardP (eventType = []) (Outbox ErrEventTypeRequired) (claimPending ux dec repo ctx limit eventType)))"

definition failed_filter :: "time \<Rightarrow> int \<Rightarrow> flt" where
  "failed_filter failedBefore maxAttempts =
     [(mongoFieldStatus, Is (BString StatusFailed)), (mongoFieldAttempts, Int_less maxAttempts),
      (mongoFieldUpdatedAt, Date_upto failedBefore)]"

definition ListFailedForRetry ::
  "uuid_text \<Rightarrow> struct_decoder \<Rightarrow> mongo_repo option \<Rightarrow> tenant_context \<Rightarrow> int \<Rightarrow> time \<Rightarrow> int \<Rightarrow> (mongo_error + outbox_event list) prog" where
  "ListFailedForRetry ux dec repo ctx limit failedBefore maxAttempts =
     initialized repo (\<lambda>repo.
     guardP (limit \<le> 0) (Outbox ErrLimitMustBePositive)
     (guardP (maxAttempts \<le> 0) (Outbox ErrMaxAttemptsMustBePositive)
     (tryP (findCandidates dec repo ctx (failed_filter failedBefore maxAttempts) mongoFieldUpdatedAt (nat limit))
       (\<lambda>docs. Done (docsToEvents ux docs)))))"

definition ResetForRetry ::
  "uuid_text \<Rightarrow> struct_decoder \<Rightarrow> mongo_repo option \<Rightarrow> tenant_context \<Rightarrow> int \<Rightarrow> time \<Rightarrow> int \<Rightarrow> (mongo_error + outbox_event list) prog" where
  "ResetForRetry ux dec repo ctx limit failedBefore maxAttempts =
     initialized repo (\<lambda>repo.
     guardP (limit \<le> 0) (Outbox ErrLimitMustBePositive)
     (guardP (maxAttempts \<le> 0) (Outbox ErrMaxAttemptsMustBePositive)
     (tryP
       (claimMatching dec repo ctx (failed_filter failedBefore maxAttempts) mongoFieldUpdatedAt (nat limit)
          StatusFailed StatusProcessing set_processing)
       (\<lambda>claimed. Done (docsToEvents ux claimed)))))"

definition set_reclaimed :: "int \<Rightarrow> candidate_change" where
  "set_reclaimed maxAttempts now c =
     (let nextAttempts = wrap64 (doc_Attempts c + 1) in
      [(mongoFieldStatus, BString (if nextAttempts \<ge> maxAttempts then StatusInvalid else StatusProcessing)),
       (mongoFieldAttempts, BInt nextAttempts),
       (mongoFieldLastError, BText (if nextAttempts \<ge> maxAttempts
          then AppendErrorCause (doc_LastError c) StuckInProcessingCause else doc_LastError c)),
       (mongoFieldUpdatedAt, date_of now)])"

definition ReclaimStuckProcessing ::
  "uuid_text \<Rightarrow> struct_decoder \<Rightarrow> mongo_repo option \<Rightarrow> tenant_context \<Rightarrow> int \<Rightarrow> time \<Rightarrow> int \<Rightarrow>
   (mongo_error + outbox_event list \<times> outbox_event list) prog" where
  "ReclaimStuckProcessing ux dec repo ctx limit processingBefore maxAttempts =
     initialized repo (\<lambda>repo.
     guardP (limit \<le> 0) (Outbox ErrLimitMustBePositive)
     (guardP (maxAttempts \<le> 0) (Outbox ErrMaxAttemptsMustBePositive)
     (tryP
       (claimMatching dec repo ctx
          [(mongoFieldStatus, Is (BString StatusProcessing)), (mongoFieldUpdatedAt, Date_upto processingBefore)]
          mongoFieldUpdatedAt (nat limit) StatusProcessing StatusProcessing (set_reclaimed maxAttempts))
       (\<lambda>claimed. liftP (docsToEvents ux claimed) (\<lambda>events.
          Done (Inr (filter (\<lambda>e. Status e \<noteq> StatusInvalid) events, filter (\<lambda>e. Status e = StatusInvalid) events)))))))"

definition ResetStuckProcessing ::
  "uuid_text \<Rightarrow> struct_decoder \<Rightarrow> mongo_repo option \<Rightarrow> tenant_context \<Rightarrow> int \<Rightarrow> time \<Rightarrow> int \<Rightarrow> (mongo_error + outbox_event list) prog" where
  "ResetStuckProcessing ux dec repo ctx limit processingBefore maxAttempts =
     tryP (ReclaimStuckProcessing ux dec repo ctx limit processingBefore maxAttempts) (\<lambda>(retry, _). Done (Inr retry))"

subsection \<open>Tenants and retention\<close>

fun normalize_loop :: "string list \<Rightarrow> string list \<Rightarrow> mongo_error + string list" where
  "normalize_loop tenants [] = Inr tenants"
| "normalize_loop tenants (candidate # rest) =
     (let tenantID = trim_space candidate in
      if tenantID = [] then normalize_loop tenants rest
      else if \<not> IsValidTenantID tenantID then Inl (Outbox ErrInvalidTenantID)
      else if tenantID \<in> set tenants then normalize_loop tenants rest
      else normalize_loop (tenants @ [tenantID]) rest)"

definition normalizeTenantIDs :: "string list \<Rightarrow> mongo_error + string list" where
  "normalizeTenantIDs tenants = bind_res (normalize_loop [] tenants) (\<lambda>ts. Inr (sort ts))"

definition string_values :: "string \<Rightarrow> raw list \<Rightarrow> string list" where
  "string_values k ds = remdups (concat (map (\<lambda>d. case d k of Some (BString s) \<Rightarrow> [s] | _ \<Rightarrow> []) ds))"

definition distinctTenants :: "string \<Rightarrow> flt \<Rightarrow> (mongo_error + string list) prog" where
  "distinctTenants tf f =
     Find \<lparr>q_filter = mergeFilters f [[(tf, Is_not (BString defaultScopeTenantID))]], q_sort = None, q_limit = None,
           q_fields = Some [tf]\<rparr>
       (\<lambda>r. driven r (\<lambda>ds. Done (normalizeTenantIDs (string_values tf ds))))"

text \<open>What the tenant database resolver lists is an argument.\<close>

definition ListTenants :: "(driver_error + string list) \<Rightarrow> mongo_repo option \<Rightarrow> (mongo_error + string list) prog" where
  "ListTenants resolver repo =
     initialized repo (\<lambda>repo.
     if tenantField repo = [] then Done (Inr [])
     else if hasResolver repo then driven resolver (\<lambda>tenants. Done (normalizeTenantIDs tenants))
     else with_collection (distinctTenants (tenantField repo)
       [(mongoFieldStatus, Among [StatusPending, StatusFailed, StatusProcessing])]))"

definition publishedBeforeFilter :: "time \<Rightarrow> string list \<Rightarrow> flt" where
  "publishedBeforeFilter before keepEventTypes =
     (let keep = filter (\<lambda>t. t \<noteq> []) (map trim_space keepEventTypes) in
      [(mongoFieldStatus, Is (BString StatusPublished)), (mongoFieldUpdatedAt, Date_before before)] @
      (if keep \<noteq> [] then [(''event_type'', Not_among keep)] else []))"

definition deletePublishedBefore ::
  "mongo_repo \<Rightarrow> tenant_context \<Rightarrow> time \<Rightarrow> string list \<Rightarrow> nat \<Rightarrow> (mongo_error + nat) prog" where
  "deletePublishedBefore repo ctx before keepEventTypes limit =
     liftP (tenantIDFromContext repo ctx) (\<lambda>tenantID.
     with_collection
       (let f = mergeFilters (publishedBeforeFilter before keepEventTypes) [tenantMatchFilter repo tenantID] in
        Find \<lparr>q_filter = f, q_sort = Some mongoFieldUpdatedAt, q_limit = Some limit, q_fields = Some [''id'']\<rparr>
          (\<lambda>r. driven r (\<lambda>ds.
             let ids = concat (map (\<lambda>d. case d ''id'' of Some (BString s) \<Rightarrow> [s] | _ \<Rightarrow> []) ds) in
             if ds = [] then Done (Inr 0)
             else DeleteMany (mergeFilters f [[(''id'', Among ids)]]) (\<lambda>r. driven r (\<lambda>n. Done (Inr n)))))))"

definition DeletePublishedBefore ::
  "mongo_repo option \<Rightarrow> tenant_context \<Rightarrow> time \<Rightarrow> string list \<Rightarrow> int \<Rightarrow> (mongo_error + nat) prog" where
  "DeletePublishedBefore repo ctx before keepEventTypes limit =
     initialized repo (\<lambda>repo.
     if limit \<le> 0 then Done (Inr 0) else deletePublishedBefore repo ctx before keepEventTypes (nat limit))"

definition ListTenantsWithPublishedBefore ::
  "mongo_repo option \<Rightarrow> time \<Rightarrow> string list \<Rightarrow> (mongo_error + string list) prog" where
  "ListTenantsWithPublishedBefore repo before keepEventTypes =
     initialized repo (\<lambda>repo.
     if tenantField repo = [] \<or> hasResolver repo then Done (Inr [])
     else with_collection (distinctTenants (tenantField repo) (publishedBeforeFilter before keepEventTypes)))"

end
