(* ===== verification/Outbox_Mongo_Laws.thy ===== *)
theory Outbox_Mongo_Laws
  imports Outbox_Mongo
begin

text \<open>
  Documents of the MongoDB outbox keep their form: whatever operations clients run, interleaved call
  by call and with calls that fail or lose their answer, every stored document is a well-formed event
  in the life cycle, and no operation ever fails because it cannot read one.
\<close>

subsection \<open>Well-formed documents\<close>

definition reserved :: "string list" where
  "reserved = [''id'', ''event_type'', ''aggregate_id'', ''payload'', ''status'', ''attempts'', ''published_at'',
     ''last_error'', ''created_at'', ''updated_at'', ''claim_token'']"

definition uuid_text_ok :: "uuid_text \<Rightarrow> bool" where
  "uuid_text_ok ux \<longleftrightarrow> (\<forall>u. snd ux (fst ux u) = Some u \<and> trim_space (fst ux u) = fst ux u \<and> fst ux u \<noteq> [])"

text \<open>What decoding into the Go struct gives: a missing or null field is the zero value.\<close>

definition str :: "bson option \<Rightarrow> string" where
  "str x = (case x of Some (BString s) \<Rightarrow> s | _ \<Rightarrow> [])"

definition rns :: "bson option \<Rightarrow> runes" where
  "rns x = (case x of Some (BText s) \<Rightarrow> s | _ \<Rightarrow> [])"

definition num :: "bson option \<Rightarrow> int" where
  "num x = (case x of Some (BInt i) \<Rightarrow> i | _ \<Rightarrow> 0)"

definition dat :: "bson option \<Rightarrow> time" where
  "dat x = (case x of Some (BDate t) \<Rightarrow> time_of t | _ \<Rightarrow> 0)"

definition struct_fields :: "raw \<Rightarrow> document" where
  "struct_fields d =
     \<lparr>doc_ID = str (d ''id''), doc_EventType = str (d ''event_type''), doc_AggregateID = str (d ''aggregate_id''),
      doc_Payload = str (d ''payload''), doc_Status = str (d ''status''), doc_Attempts = num (d ''attempts''),
      doc_PublishedAt = (case d ''published_at'' of Some (BDate t) \<Rightarrow> Some (time_of t) | _ \<Rightarrow> None),
      doc_LastError = rns (d ''last_error''), doc_CreatedAt = dat (d ''created_at''),
      doc_UpdatedAt = dat (d ''updated_at''), doc_TenantID = str (d ''tenant_id'')\<rparr>"

definition kind_ok :: "string \<Rightarrow> bson option \<Rightarrow> bool" where
  "kind_ok k x =
     (case x of None \<Rightarrow> True
      | Some (BInt i) \<Rightarrow> k = ''attempts''
      | Some (BText s) \<Rightarrow> k = ''last_error''
      | Some (BDate t) \<Rightarrow> k \<in> {''published_at'', ''created_at'', ''updated_at''}
      | Some (BString s) \<Rightarrow> k \<in> {''id'', ''event_type'', ''aggregate_id'', ''payload'', ''status'', ''tenant_id''}
      | _ \<Rightarrow> False)"

definition struct_readable :: "raw \<Rightarrow> bool" where
  "struct_readable d \<longleftrightarrow> list_all (\<lambda>k. kind_ok k (d k))
     [''id'', ''event_type'', ''aggregate_id'', ''payload'', ''status'', ''attempts'', ''published_at'', ''last_error'',
      ''created_at'', ''updated_at'', ''tenant_id'']"

lemma struct_readable_restrict: "struct_readable d \<Longrightarrow> struct_readable (d |` S)"
  by (auto simp: struct_readable_def list_all_iff restrict_map_def kind_ok_def)

definition reads_struct :: "struct_decoder \<Rightarrow> bool" where
  "reads_struct dec \<longleftrightarrow> (\<forall>d. struct_readable d \<longrightarrow> dec d = Some (struct_fields d))"

definition open_status :: "string \<Rightarrow> bool" where
  "open_status s \<longleftrightarrow> s = StatusPending \<or> s = StatusProcessing \<or> s = StatusFailed"

text \<open>
  A well-formed document: its content is that of a valid event, its status one of the life cycle, its
  attempts count can still grow while it is open, it carries a publication time exactly when it is
  published, and its fields have the types the decoders expect.
\<close>

definition content_ok :: "uuid_text \<Rightarrow> string \<Rightarrow> raw \<Rightarrow> bool" where
  "content_ok ux tf d \<longleftrightarrow>
     (\<exists>i. i \<noteq> 0 \<and> d ''id'' = Some (BString (fst ux i))) \<and>
     (\<exists>a. a \<noteq> 0 \<and> d ''aggregate_id'' = Some (BString (fst ux a))) \<and>
     (\<exists>t. t \<noteq> [] \<and> trim_space t = t \<and> d ''event_type'' = Some (BString t)) \<and>
     (\<exists>p. p \<noteq> [] \<and> length p \<le> DefaultMaxPayloadBytes \<and> json_Valid p \<and> d ''payload'' = Some (BString p)) \<and>
     (\<exists>c. d ''created_at'' = Some (BDate c)) \<and>
     (tf \<noteq> [] \<longrightarrow> (\<exists>t. d tf = Some (BString t)))"

definition state_ok :: "raw \<Rightarrow> bool" where
  "state_ok d \<longleftrightarrow>
     (\<exists>s n. d ''status'' = Some (BString s) \<and> d ''attempts'' = Some (BInt n) \<and> IsValid s \<and> 0 \<le> n \<and> n \<le> max_int64 \<and>
        (open_status s \<longrightarrow> n < max_int64) \<and>
        (if s = StatusPublished then \<exists>t. d ''published_at'' = Some (BDate t) else d ''published_at'' = None)) \<and>
     (\<exists>u. u \<noteq> 0 \<and> d ''updated_at'' = Some (BDate u)) \<and>
     (d ''last_error'' = None \<or> (\<exists>e. d ''last_error'' = Some (BText e)))"

definition doc_ok :: "uuid_text \<Rightarrow> string \<Rightarrow> raw \<Rightarrow> bool" where
  "doc_ok ux tf d \<longleftrightarrow> content_ok ux tf d \<and> state_ok d"

text \<open>A tenant field that is not one of the document's own fields.\<close>

definition field_ok :: "string \<Rightarrow> bool" where
  "field_ok tf \<longleftrightarrow> tf \<notin> set reserved"

text \<open>
  The constructor does not exclude them: with the tenant field \<open>status\<close>, which is a legal identifier,
  the tenant is stored over the status of every document.
\<close>

lemma tenant_field_collision:
  "\<exists>repo. NewRepositoryWithContext True [Some (WithTenantField ''status'')] None = Inr repo \<and>
     toBSON (tenantField repo) doc ''status'' = Some (BString (doc_TenantID doc))"
proof -
  have "trim_space ''status'' = ''status''" "trim_space defaultCollectionName = defaultCollectionName"
    "ascii_identifier ''status''" "ascii_identifier defaultCollectionName" "defaultCollectionName \<noteq> []"
    by code_simp+
  then show ?thesis by (simp add: NewRepositoryWithContext_def WithTenantField_def toBSON_def Let_def)
qed

subsection \<open>Reading\<close>

lemma trim_status: "IsValid s \<Longrightarrow> trim_space s = s"
proof -
  have "trim_space ''PENDING'' = ''PENDING''" "trim_space ''PROCESSING'' = ''PROCESSING''"
    "trim_space ''PUBLISHED'' = ''PUBLISHED''" "trim_space ''FAILED'' = ''FAILED''" "trim_space ''INVALID'' = ''INVALID''"
    by code_simp+
  then show "IsValid s \<Longrightarrow> trim_space s = s" by (auto simp: IsValid_def status_defs)
qed

lemma validateDecodedDocument_ok:
  "IsValid (doc_Status doc) \<Longrightarrow> 0 \<le> doc_Attempts doc \<Longrightarrow>
   \<exists>doc'. validateDecodedDocument doc = Inr doc' \<and> doc_ID doc' = doc_ID doc \<and> doc_AggregateID doc' = doc_AggregateID doc"
  by (simp add: validateDecodedDocument_def lift_status_def ParseOutboxEventStatus_def trim_status)

lemma validateClaimDocument_ok:
  "IsValid (doc_Status doc) \<Longrightarrow> 0 \<le> doc_Attempts doc \<Longrightarrow> doc_UpdatedAt doc \<noteq> 0 \<Longrightarrow> trim_space (doc_ID doc) = doc_ID doc \<Longrightarrow>
   doc_ID doc \<noteq> [] \<Longrightarrow> \<exists>doc'. validateClaimDocument doc = Inr doc'"
  by (simp add: validateClaimDocument_def lift_status_def ParseOutboxEventStatus_def trim_status Let_def)

text \<open>A document whose ids can be read back.\<close>

definition doc_readable :: "uuid_text \<Rightarrow> document \<Rightarrow> bool" where
  "doc_readable ux doc \<longleftrightarrow> snd ux (doc_ID doc) \<noteq> None \<and> snd ux (doc_AggregateID doc) \<noteq> None"

lemma doc_ok_struct: "doc_ok ux ''tenant_id'' d \<Longrightarrow> struct_readable d"
  unfolding doc_ok_def content_ok_def state_ok_def
  by (elim conjE exE) (auto simp: struct_readable_def kind_ok_def split: if_splits)

lemma decode_one_ok:
  assumes "doc_ok ux (tenantField repo) d" and "uuid_text_ok ux" and "reads_struct dec"
  shows "\<exists>doc. decode_one dec repo d = Inr doc \<and> doc_readable ux doc"
proof (cases "tenantField repo = defaultTenantField")
  case True
  then have "dec d = Some (struct_fields d)"
    using assms(1,3) doc_ok_struct by (auto simp: reads_struct_def defaultTenantField_def)
  moreover have "IsValid (doc_Status (struct_fields d))" "0 \<le> doc_Attempts (struct_fields d)" "doc_readable ux (struct_fields d)"
    using assms(1,2) by (auto simp: struct_fields_def doc_ok_def content_ok_def state_ok_def str_def num_def doc_readable_def uuid_text_ok_def)
  ultimately show ?thesis
    using True validateDecodedDocument_ok [of "struct_fields d"] by (auto simp: decode_one_def doc_readable_def)
next
  case False
  obtain i a et p cr st n u where f: "d ''id'' = Some (BString (fst ux i))" "d ''aggregate_id'' = Some (BString (fst ux a))"
    "d ''event_type'' = Some (BString et)" "d ''payload'' = Some (BString p)" "d ''created_at'' = Some (BDate cr)"
    "d ''status'' = Some (BString st)" "d ''attempts'' = Some (BInt n)" "IsValid st" "0 \<le> n" "d ''updated_at'' = Some (BDate u)"
    using assms(1) unfolding doc_ok_def content_ok_def state_ok_def by (elim conjE exE) (rule that)
  obtain e where e: "optionalTextField d ''last_error'' = Inr e"
    using assms(1) by (auto simp: doc_ok_def state_ok_def optionalTextField_def)
  obtain pub where pub: "optionalTimeField d ''published_at'' = Inr pub"
    using assms(1) by (auto simp: doc_ok_def state_ok_def optionalTimeField_def split: if_splits)
  obtain t where t: "tenant_of d (tenantField repo) = Inr t"
    using assms(1) by (cases "tenantField repo = []") (auto simp: doc_ok_def content_ok_def tenant_of_def optionalStringField_def)
  let ?doc = "\<lparr>doc_ID = fst ux i, doc_EventType = et, doc_AggregateID = fst ux a, doc_Payload = p, doc_Status = st,
        doc_Attempts = n, doc_PublishedAt = pub, doc_LastError = TrimSpace e, doc_CreatedAt = time_of cr,
        doc_UpdatedAt = time_of u, doc_TenantID = trim_space t\<rparr>"
  have "decode_one dec repo d = validateDecodedDocument ?doc"
    using False f e pub t by (simp add: decode_one_def documentFromBSON_def stringField_def intField_def timeField_def field_names)
  then show ?thesis
    using validateDecodedDocument_ok [of ?doc] f(8,9) assms(2) by (auto simp: doc_readable_def uuid_text_ok_def)
qed

lemma claim_view:
  "d |` set (claim_fields repo) = (\<lambda>k. if k \<in> {''id'', ''status'', ''attempts'', ''updated_at'', ''last_error''} \<or>
     k = tenantField repo \<and> k \<noteq> [] then d k else None)"
  by (auto simp: claim_fields_def restrict_map_def field_names fun_eq_iff)

lemma decode_claim_ok:
  assumes "doc_ok ux (tenantField repo) d" and "uuid_text_ok ux" and "reads_struct dec"
  shows "\<exists>doc. decode_claim dec repo (d |` set (claim_fields repo)) = Inr doc"
proof -
  obtain i s n u where f: "d ''id'' = Some (BString (fst ux i))" "d ''status'' = Some (BString s)" "d ''attempts'' = Some (BInt n)"
    "IsValid s" "0 \<le> n" "u \<noteq> 0" "d ''updated_at'' = Some (BDate u)"
    using assms(1) by (auto simp: doc_ok_def content_ok_def state_ok_def)
  have i: "trim_space (fst ux i) = fst ux i" "fst ux i \<noteq> []" using assms(2) by (auto simp: uuid_text_ok_def)
  let ?d = "d |` set (claim_fields repo)"
  show ?thesis
  proof (cases "tenantField repo = defaultTenantField")
    case True
    then have "dec ?d = Some (struct_fields ?d)"
      using assms(1,3) doc_ok_struct struct_readable_restrict by (auto simp: reads_struct_def defaultTenantField_def)
    moreover have "\<exists>doc. validateClaimDocument (struct_fields ?d) = Inr doc"
      using f i by (intro validateClaimDocument_ok)
        (simp_all add: struct_fields_def claim_view str_def num_def dat_def time_of_def)
    ultimately show ?thesis using True by (auto simp: decode_claim_def)
  next
    case False
    have "d ''last_error'' = None \<or> (\<exists>e. d ''last_error'' = Some (BText e))"
      and "tenantField repo \<noteq> [] \<longrightarrow> (\<exists>t. d (tenantField repo) = Some (BString t))"
      using assms(1) by (auto simp: doc_ok_def content_ok_def state_ok_def)
    then show ?thesis
      using False f i validateClaimDocument_ok
      by (auto simp: decode_claim_def claimDocumentFromBSON_def claim_view stringField_def intField_def timeField_def
          optionalTextField_def optionalStringField_def tenant_of_def field_names time_of_def)
  qed
qed

subsection \<open>Writing\<close>

lemma apply_change_at:
  "apply_change u d k =
     (if k \<in> set (to_unset u) then None
      else (case map_of (rev (to_set u)) k of Some v \<Rightarrow> Some v | None \<Rightarrow> d k))"
  by (simp add: apply_change_def restrict_map_def map_add_def)

definition state_fields :: "string list" where
  "state_fields = [''status'', ''attempts'', ''published_at'', ''last_error'', ''updated_at'', ''claim_token'']"

lemma change_ok:
  assumes "doc_ok ux tf d" and "field_ok tf" and "set (map fst (to_set u) @ to_unset u) \<subseteq> set state_fields"
    and "state_ok (apply_change u d)"
  shows "doc_ok ux tf (apply_change u d)"
proof -
  have keep: "apply_change u d k = d k" if "k \<notin> set state_fields" for k
  proof -
    have "k \<notin> fst ` set (to_set u)" "k \<notin> set (to_unset u)" using assms(3) that by auto
    then show ?thesis by (auto simp: apply_change_at split: option.split dest!: map_of_SomeD intro: rev_image_eqI)
  qed
  have "tf \<notin> set state_fields" using assms(2) by (auto simp: field_ok_def reserved_def state_fields_def)
  then have "content_ok ux tf (apply_change u d) = content_ok ux tf d"
    using keep by (simp add: content_ok_def state_fields_def)
  then show ?thesis using assms(1,4) by (simp add: doc_ok_def)
qed

lemma date_of_sane: "sane t \<Longrightarrow> \<exists>u. u \<noteq> 0 \<and> date_of t = BDate u"
proof -
  assume "sane t"
  then have "1 \<le> t div 1000000" using zdiv_mono1 [of 1000000 t 1000000] by (simp add: sane_def)
  then have "t div 1000000 \<noteq> 0" by simp
  then show "\<exists>u. u \<noteq> 0 \<and> date_of t = BDate u" by (simp add: date_of_def)
qed

lemma IsValid_statuses [simp]:
  "IsValid StatusPending" "IsValid StatusProcessing" "IsValid StatusPublished" "IsValid StatusFailed" "IsValid StatusInvalid"
  by (simp_all add: IsValid_def)

lemma open_statuses [simp]:
  "open_status StatusPending" "open_status StatusProcessing" "open_status StatusFailed"
  "\<not> open_status StatusPublished" "\<not> open_status StatusInvalid"
  by (simp_all add: open_status_def)

text \<open>What an update may do to an open document, as the value of each state field afterwards.\<close>

lemma state_okI:
  assumes "d' ''status'' = Some (BString s)" and "d' ''attempts'' = Some (BInt n)" and "IsValid s" and "0 \<le> n" and "n \<le> max_int64"
    and "open_status s \<Longrightarrow> n < max_int64"
    and "if s = StatusPublished then \<exists>t. d' ''published_at'' = Some (BDate t) else d' ''published_at'' = None"
    and "sane now" and "d' ''updated_at'' = Some (date_of now)"
    and "d' ''last_error'' = None \<or> (\<exists>e. d' ''last_error'' = Some (BText e))"
  shows "state_ok d'"
  using assms date_of_sane [OF assms(8)] by (auto simp: state_ok_def)

lemma open_docE:
  assumes "doc_ok ux tf d" and "d ''status'' = Some (BString s)" and "open_status s"
  obtains n where "d ''attempts'' = Some (BInt n)" and "0 \<le> n" and "n < max_int64" and "d ''published_at'' = None"
    and "d ''last_error'' = None \<or> (\<exists>e. d ''last_error'' = Some (BText e))"
  using assms by (auto simp: doc_ok_def state_ok_def split: if_splits)

lemma next_attempt: "0 \<le> n \<Longrightarrow> n < max_int64 \<Longrightarrow> wrap64 (n + 1) = n + 1"
  by (rule wrap64_id) (simp add: in_int64_def min_int64_def max_int64_def)

lemma set_processing_ok:
  assumes "doc_ok ux tf d" and "field_ok tf" and "d ''status'' = Some (BString s)" and "open_status s" and "sane now"
  shows "doc_ok ux tf (apply_change \<lparr>to_set = set_processing now c @ [(mongoFieldClaimToken, BString token)], to_unset = []\<rparr> d)"
proof (rule change_ok [OF assms(1,2)])
  obtain n where n: "d ''attempts'' = Some (BInt n)" "0 \<le> n" "n < max_int64" "d ''published_at'' = None"
    "d ''last_error'' = None \<or> (\<exists>e. d ''last_error'' = Some (BText e))"
    using open_docE [OF assms(1,3,4)] by blast
  then show "state_ok (apply_change \<lparr>to_set = set_processing now c @ [(mongoFieldClaimToken, BString token)], to_unset = []\<rparr> d)"
    by (intro state_okI [of _ StatusProcessing n now])
      (simp_all add: apply_change_at set_processing_def field_names assms(5))
qed (auto simp: set_processing_def field_names state_fields_def)

lemma set_reclaimed_ok:
  assumes "doc_ok ux tf d" and "field_ok tf" and "d ''status'' = Some (BString StatusProcessing)"
    and "d ''attempts'' = Some (BInt (doc_Attempts c))" and "maxAttempts \<le> max_int64" and "sane now"
  shows "doc_ok ux tf (apply_change \<lparr>to_set = set_reclaimed maxAttempts now c @ [(mongoFieldClaimToken, BString token)], to_unset = []\<rparr> d)"
proof (rule change_ok [OF assms(1,2)])
  let ?n = "doc_Attempts c"
  have n: "0 \<le> ?n" "?n < max_int64" "d ''published_at'' = None"
    using open_docE [OF assms(1,3) open_statuses(2)] assms(4) by (metis bson.inject(3) option.inject)+
  show "state_ok (apply_change \<lparr>to_set = set_reclaimed maxAttempts now c @ [(mongoFieldClaimToken, BString token)], to_unset = []\<rparr> d)"
    using n assms(5,6) next_attempt [OF n(1,2)]
    by (intro state_okI [of _ "if ?n + 1 \<ge> maxAttempts then StatusInvalid else StatusProcessing" "?n + 1" now])
      (simp_all add: apply_change_at set_reclaimed_def Let_def field_names split: if_splits)
qed (auto simp: set_reclaimed_def Let_def field_names state_fields_def)

lemma rollback_ok:
  assumes "doc_ok ux tf d" and "field_ok tf" and "d ''status'' = Some (BString StatusProcessing)" and "open_status from" and "sane now"
  shows "doc_ok ux tf (apply_change \<lparr>to_set = [(mongoFieldStatus, BString from), (mongoFieldUpdatedAt, date_of now)],
    to_unset = [mongoFieldClaimToken]\<rparr> d)"
proof (rule change_ok [OF assms(1,2)])
  obtain n where n: "d ''attempts'' = Some (BInt n)" "0 \<le> n" "n < max_int64" "d ''published_at'' = None"
    "d ''last_error'' = None \<or> (\<exists>e. d ''last_error'' = Some (BText e))"
    using open_docE [OF assms(1,3) open_statuses(2)] by blast
  then show "state_ok (apply_change \<lparr>to_set = [(mongoFieldStatus, BString from), (mongoFieldUpdatedAt, date_of now)],
      to_unset = [mongoFieldClaimToken]\<rparr> d)"
    using assms(4,5)
    by (intro state_okI [of _ "from" n now]) (auto simp: apply_change_at field_names open_status_def)
qed (auto simp: field_names state_fields_def)

lemma mark_published_ok:
  assumes "doc_ok ux tf d" and "field_ok tf" and "d ''status'' = Some (BString StatusProcessing)" and "sane now"
  shows "doc_ok ux tf (apply_change
    \<lparr>to_set = [(mongoFieldStatus, BString StatusPublished), (''published_at'', date_of publishedAt), (mongoFieldUpdatedAt, date_of now)],
     to_unset = [mongoFieldClaimToken]\<rparr> d)"
proof (rule change_ok [OF assms(1,2)])
  obtain n where n: "d ''attempts'' = Some (BInt n)" "0 \<le> n" "n < max_int64" "d ''published_at'' = None"
    "d ''last_error'' = None \<or> (\<exists>e. d ''last_error'' = Some (BText e))"
    using open_docE [OF assms(1,3) open_statuses(2)] by blast
  then show "state_ok (apply_change
    \<lparr>to_set = [(mongoFieldStatus, BString StatusPublished), (''published_at'', date_of publishedAt), (mongoFieldUpdatedAt, date_of now)],
     to_unset = [mongoFieldClaimToken]\<rparr> d)"
    using assms(4)
    by (intro state_okI [of _ StatusPublished n now]) (simp_all add: apply_change_at field_names date_of_def)
qed (auto simp: field_names state_fields_def)

lemma mark_failed_ok:
  assumes "doc_ok ux tf d" and "field_ok tf" and "d ''status'' = Some (BString StatusProcessing)"
    and "d ''attempts'' = Some (BInt n)" and "maxAttempts \<le> max_int64" and "sane now"
  shows "doc_ok ux tf (apply_change
    \<lparr>to_set = [(mongoFieldStatus, BString (if wrap64 (n + 1) \<ge> maxAttempts then StatusInvalid else StatusFailed)),
       (mongoFieldAttempts, BInt (wrap64 (n + 1))), (mongoFieldLastError, BText e), (mongoFieldUpdatedAt, date_of now)],
     to_unset = [mongoFieldClaimToken]\<rparr> d)"
proof (rule change_ok [OF assms(1,2)])
  have n: "0 \<le> n" "n < max_int64" "d ''published_at'' = None"
    using open_docE [OF assms(1,3) open_statuses(2)] assms(4) by (metis bson.inject(3) option.inject)+
  then show "state_ok (apply_change
    \<lparr>to_set = [(mongoFieldStatus, BString (if wrap64 (n + 1) \<ge> maxAttempts then StatusInvalid else StatusFailed)),
       (mongoFieldAttempts, BInt (wrap64 (n + 1))), (mongoFieldLastError, BText e), (mongoFieldUpdatedAt, date_of now)],
     to_unset = [mongoFieldClaimToken]\<rparr> d)"
    using assms(5,6) next_attempt [OF n(1,2)]
    by (intro state_okI [of _ "if n + 1 \<ge> maxAttempts then StatusInvalid else StatusFailed" "n + 1" now])
      (simp_all add: apply_change_at field_names split: if_splits)
qed (auto simp: field_names state_fields_def)

lemma mark_invalid_ok:
  assumes "doc_ok ux tf d" and "field_ok tf" and "d ''status'' = Some (BString StatusProcessing)" and "sane now"
  shows "doc_ok ux tf (apply_change
    \<lparr>to_set = [(mongoFieldStatus, BString StatusInvalid), (mongoFieldLastError, BText e), (mongoFieldUpdatedAt, date_of now)],
     to_unset = [mongoFieldClaimToken]\<rparr> d)"
proof (rule change_ok [OF assms(1,2)])
  obtain n where n: "d ''attempts'' = Some (BInt n)" "0 \<le> n" "n < max_int64" "d ''published_at'' = None"
    "d ''last_error'' = None \<or> (\<exists>e. d ''last_error'' = Some (BText e))"
    using open_docE [OF assms(1,3) open_statuses(2)] by blast
  then show "state_ok (apply_change
    \<lparr>to_set = [(mongoFieldStatus, BString StatusInvalid), (mongoFieldLastError, BText e), (mongoFieldUpdatedAt, date_of now)],
     to_unset = [mongoFieldClaimToken]\<rparr> d)"
    using assms(4)
    by (intro state_okI [of _ StatusInvalid n now]) (simp_all add: apply_change_at field_names)
qed (auto simp: field_names state_fields_def)

text \<open>A caller's creation time is unset or a millisecond or more after Go's zero time.\<close>

definition sane_event :: "outbox_event option \<Rightarrow> bool" where
  "sane_event event = (case event of None \<Rightarrow> True | Some e \<Rightarrow> CreatedAt e = 0 \<or> sane (CreatedAt e))"

lemma created_ok:
  assumes "validateCreateEvent (Some e) = Inr e" and "sane_event (Some e)" and "sane now" and "field_ok tf"
  shows "doc_ok ux tf (toBSON tf (documentFromCreateValues ux (normalizedCreateValues e now) tenantID))"
proof -
  have v: "ID e \<noteq> 0" "trim_space (EventType e) \<noteq> []" "AggregateID e \<noteq> 0" "Payload e \<noteq> []"
    "length (Payload e) \<le> DefaultMaxPayloadBytes" "json_Valid (Payload e)"
    using assms(1) by (auto simp: validateCreateEvent_def split: if_splits)
  let ?u = "UpdatedAt (normalizedCreateValues e now)"
  have u: "sane ?u" using assms(2,3) by (auto simp: sane_event_def normalizedCreateValues_def Let_def sane_def)
  have tf: "tf \<noteq> k" if "k \<in> set reserved" for k using assms(4) that by (auto simp: field_ok_def)
  let ?d = "toBSON tf (documentFromCreateValues ux (normalizedCreateValues e now) tenantID)"
  have "state_ok ?d"
    using tf [of "''status''"] tf [of "''attempts''"] tf [of "''published_at''"] tf [of "''updated_at''"] tf [of "''last_error''"] u
    by (intro state_okI [of _ StatusPending 0 ?u])
      (auto simp: toBSON_def documentFromCreateValues_def normalizedCreateValues_def Let_def field_names reserved_def max_int64_def)
  moreover have "content_ok ux tf ?d"
    using v tf [of "''id''"] tf [of "''aggregate_id''"] tf [of "''event_type''"] tf [of "''payload''"] tf [of "''created_at''"]
    by (auto simp: content_ok_def toBSON_def documentFromCreateValues_def normalizedCreateValues_def Let_def field_names reserved_def
        trim_space_idem date_of_def)
  ultimately show ?thesis by (simp add: doc_ok_def)
qed

subsection \<open>Programs\<close>

text \<open>An outcome that is no decoding error, and on success satisfies \<open>P\<close>.\<close>

definition fine :: "('a \<Rightarrow> bool) \<Rightarrow> mongo_error + 'a \<Rightarrow> bool" where
  "fine P r = (case r of Inl e \<Rightarrow> \<not> is_decode_error e | Inr x \<Rightarrow> P x)"

lemma fine_simps [simp]: "fine P (Inl e) \<longleftrightarrow> \<not> is_decode_error e" "fine P (Inr x) \<longleftrightarrow> P x"
  by (simp_all add: fine_def)

lemma typed_with_collection: "typed ok (fine P) k \<Longrightarrow> typed ok (fine P) (with_collection k)"
  by (simp add: with_collection_def split: option.split)

lemma typed_driven: "(\<And>x. r = Inr x \<Longrightarrow> typed ok (fine P) (k x)) \<Longrightarrow> typed ok (fine P) (driven r k)"
  by (simp add: driven_def split: sum.split)

lemma typed_initialized: "(\<And>r. repo = Some r \<Longrightarrow> typed ok (fine P) (k r)) \<Longrightarrow> typed ok (fine P) (initialized repo k)"
  by (simp add: initialized_def split: option.split)

lemma typed_guardP: "\<not> is_decode_error e \<Longrightarrow> typed ok (fine P) k \<Longrightarrow> typed ok (fine P) (guardP bad e k)"
  by (simp add: guardP_def)

lemma typed_tenant:
  "(\<And>t. typed ok (fine P) (k t)) \<Longrightarrow> typed ok (fine P) (liftP (tenantIDFromContext repo ctx) k)"
  by (rule typed_liftP) (auto simp: tenantIDFromContext_def Let_def split: option.splits if_splits)

lemma typed_try: "typed ok (fine R) p \<Longrightarrow> (\<And>x. R x \<Longrightarrow> typed ok (fine P) (k x)) \<Longrightarrow> typed ok (fine P) (tryP p k)"
  by (rule typed_tryP, erule typed_mono) (auto simp: fine_def split: sum.splits)

lemma typed_modified: "typed ok (fine P) (modified_or_conflict n)" if "P ()"
  using that by (simp add: modified_or_conflict_def)

lemmas typed_intros = typed_with_collection typed_driven typed_initialized typed_guardP typed_tenant

text \<open>The last filter merged always binds, an earlier one where its fields are not overridden.\<close>

lemma matches_status:
  "matches (mergeFilters b [[(mongoFieldStatus, Is v)]]) d \<Longrightarrow> d ''status'' = Some v"
  "matches (mergeFilters b [[(mongoFieldStatus, Is v), (mongoFieldAttempts, Is w)]]) d \<Longrightarrow> d ''status'' = Some v \<and> d ''attempts'' = Some w"
  by (simp_all add: mergeFilters_def field_names)

lemma matches_claim:
  "matches (claim_filter repo from c) d \<Longrightarrow> d ''status'' = Some (BString from) \<and> d ''attempts'' = Some (BInt (doc_Attempts c))"
  by (simp add: claim_filter_def mergeFilters_def field_names)

lemma matches_rollback:
  assumes "matches (mergeFilters [(''id'', i), (mongoFieldStatus, Is v), (mongoFieldClaimToken, t)] [tenantMatchFilter repo tenant]) d"
    and "field_ok (tenantField repo)"
  shows "d ''status'' = Some v"
  using assms by (auto simp: mergeFilters_def tenantMatchFilter_def field_names field_ok_def reserved_def split: if_splits)

definition keeps :: "(raw \<Rightarrow> bool) \<Rightarrow> (flt \<times> change) list \<Rightarrow> bool" where
  "keeps ok ms \<longleftrightarrow> (\<forall>(f, u) \<in> set ms. \<forall>d. ok d \<and> matches f d \<longrightarrow> ok (apply_change u d))"

lemma typed_claim_models:
  assumes "keeps ok ms" and "\<And>ms. keeps ok ms \<Longrightarrow> typed ok Q (k ms)"
    and "\<And>now c d. sane now \<Longrightarrow> ok d \<Longrightarrow> d ''status'' = Some (BString from) \<Longrightarrow> d ''attempts'' = Some (BInt (doc_Attempts c)) \<Longrightarrow>
      ok (apply_change \<lparr>to_set = set_for now c @ [(mongoFieldClaimToken, BString token)], to_unset = []\<rparr> d)"
  shows "typed ok Q (claim_models repo from token set_for cs ms k)"
  using assms(1)
proof (induction cs arbitrary: ms)
  case (Cons c cs)
  have "keeps ok (ms @ [(claim_filter repo from c, \<lparr>to_set = set_for now c @ [(mongoFieldClaimToken, BString token)], to_unset = []\<rparr>)])"
    if "sane now" for now
    using Cons.prems assms(3) [OF that] matches_claim by (fastforce simp: keeps_def)
  then show ?case using Cons.IH by simp
qed (simp add: assms(2))

lemma typed_rollback_models:
  assumes "keeps ok ms" and "\<And>ms. keeps ok ms \<Longrightarrow> typed ok Q (k ms)" and "field_ok (tenantField repo)"
    and "\<And>now d. sane now \<Longrightarrow> ok d \<Longrightarrow> d ''status'' = Some (BString ret) \<Longrightarrow>
      ok (apply_change \<lparr>to_set = [(mongoFieldStatus, BString from), (mongoFieldUpdatedAt, date_of now)], to_unset = [mongoFieldClaimToken]\<rparr> d)"
  shows "typed ok Q (rollback_models repo token ret from ids cs ms k)"
  using assms(1)
proof (induction cs arbitrary: ms)
  case (Cons c cs)
  have "keeps ok (ms @ [(mergeFilters [(''id'', Is (BString (doc_ID c))), (mongoFieldStatus, Is (BString ret)),
      (mongoFieldClaimToken, Is (BString token))] [tenantMatchFilter repo (doc_TenantID c)],
      \<lparr>to_set = [(mongoFieldStatus, BString from), (mongoFieldUpdatedAt, date_of now)], to_unset = [mongoFieldClaimToken]\<rparr>)])"
    if "sane now" for now
    using Cons.prems assms(4) [OF that] matches_rollback [OF _ assms(3)] by (fastforce simp: keeps_def)
  then show ?case using Cons.IH Cons.prems by simp
qed (simp add: assms(2))

lemma typed_bulk: "keeps ok ms \<Longrightarrow> (\<And>r. typed ok Q (k r)) \<Longrightarrow> typed ok Q (bulkWrite ms n err k)"
  by (rule typed_bulkWrite) (auto simp: keeps_def)

lemma keeps_Nil [simp]: "keeps ok []"
  by (simp add: keeps_def)

text \<open>Reading a batch back, and turning it into events.\<close>

lemma decodeCursor_ok:
  assumes "uuid_text_ok ux" and "reads_struct dec" and "list_all (doc_ok ux (tenantField repo)) ds"
  shows "\<exists>docs. decodeCursor dec repo ds = Inr docs \<and> list_all (doc_readable ux) docs"
  using assms(3)
proof (induction ds)
  case (Cons d ds)
  then show ?case using decode_one_ok [OF _ assms(1,2), of repo d] by (auto simp: decodeCursor_def)
qed (simp add: decodeCursor_def)

lemma decodeClaimCursor_ok:
  assumes "uuid_text_ok ux" and "reads_struct dec"
    and "list_all (\<lambda>d. \<exists>e. doc_ok ux (tenantField repo) e \<and> d = e |` set (claim_fields repo)) ds"
  shows "\<exists>docs. decodeClaimCursor dec repo ds = Inr docs"
  using assms(3)
proof (induction ds)
  case (Cons d ds)
  then show ?case using decode_claim_ok [OF _ assms(1,2), of repo] by (fastforce simp: decodeClaimCursor_def)
qed (simp add: decodeClaimCursor_def)

lemma toOutboxEvent_ok: "doc_readable ux doc \<Longrightarrow> \<exists>e. toOutboxEvent ux doc = Inr e"
  by (auto simp: doc_readable_def toOutboxEvent_def)

lemma docsToEvents_ok: "list_all (doc_readable ux) docs \<Longrightarrow> \<exists>es. docsToEvents ux docs = Inr es"
  unfolding docsToEvents_def by (induction docs) (auto dest!: toOutboxEvent_ok)

lemma reads_all: "list_all (read_of ok q) ds \<Longrightarrow> q_fields q = None \<Longrightarrow> list_all ok ds"
  by (auto simp: list_all_iff read_of_def)

lemma typed_find_driven:
  "(\<And>ds. list_all (read_of ok q) ds \<Longrightarrow> typed ok (fine P) (k ds)) \<Longrightarrow> typed ok (fine P) (Find q (\<lambda>r. driven r k))"
  by (simp add: driven_def)

lemma typed_findClaimCandidates:
  assumes "uuid_text_ok ux" and "reads_struct dec"
  shows "typed (doc_ok ux (tenantField repo)) (fine (\<lambda>_. True)) (findClaimCandidates dec repo ctx f sortField limit)"
proof -
  have "\<exists>docs. decodeClaimCursor dec repo ds = Inr docs"
    if "list_all (read_of (doc_ok ux (tenantField repo)) q) ds" "q_fields q = Some (claim_fields repo)" for q ds
    using that by (intro decodeClaimCursor_ok [OF assms]) (auto simp: list_all_iff read_of_def)
  then show ?thesis
    unfolding findClaimCandidates_def
    by (intro typed_tenant typed_with_collection typed_find_driven) (metis fine_simps(2) query.select_convs(4) typed.simps(1))
qed

lemma typed_findCandidates:
  assumes "uuid_text_ok ux" and "reads_struct dec"
  shows "typed (doc_ok ux (tenantField repo)) (fine (list_all (doc_readable ux))) (findCandidates dec repo ctx f sortField limit)"
proof -
  have "\<exists>docs. decodeCursor dec repo ds = Inr docs \<and> list_all (doc_readable ux) docs"
    if "list_all (read_of (doc_ok ux (tenantField repo)) q) ds" "q_fields q = None" for q ds
    by (rule decodeCursor_ok [OF assms reads_all [OF that]])
  then show ?thesis
    unfolding findCandidates_def
    by (intro typed_tenant typed_with_collection typed_find_driven) (metis fine_simps(2) query.select_convs(4) typed.simps(1))
qed

definition change_keeps :: "(raw \<Rightarrow> bool) \<Rightarrow> string \<Rightarrow> candidate_change \<Rightarrow> bool" where
  "change_keeps ok from set_for \<longleftrightarrow>
     (\<forall>now c d token. sane now \<longrightarrow> ok d \<longrightarrow> d ''status'' = Some (BString from) \<longrightarrow>
        d ''attempts'' = Some (BInt (doc_Attempts c)) \<longrightarrow>
        ok (apply_change \<lparr>to_set = set_for now c @ [(mongoFieldClaimToken, BString token)], to_unset = []\<rparr> d))"

lemma typed_claimDocuments:
  assumes "uuid_text_ok ux" and "reads_struct dec" and "change_keeps (doc_ok ux (tenantField repo)) from set_for"
  shows "typed (doc_ok ux (tenantField repo)) (fine (\<lambda>(batch, n, token). list_all (doc_readable ux) batch))
    (claimDocuments dec repo candidates from sortField set_for)"
proof -
  have dec: "\<exists>docs. decodeCursor dec repo ds = Inr docs \<and> list_all (doc_readable ux) docs"
    if "list_all (read_of (doc_ok ux (tenantField repo)) q) ds" "q_fields q = None" for q ds
    by (rule decodeCursor_ok [OF assms(1,2) reads_all [OF that]])
  have read: "typed (doc_ok ux (tenantField repo)) (fine (\<lambda>(batch, n, token). list_all (doc_readable ux) batch))
      (Find q (\<lambda>r. driven r (\<lambda>ds. liftP (decodeCursor dec repo ds) (\<lambda>claimed. Done (Inr (claimed, n, t))))))"
    if "q_fields q = None" for q n t
    using dec [OF _ that] by (intro typed_find_driven typed_liftP) fastforce+
  let ?Q = "fine (\<lambda>(batch, n, token). list_all (doc_readable ux) batch)" and ?ok = "doc_ok ux (tenantField repo)"
  let ?after = "\<lambda>token modified. if modified = 0 then Done (Inr ([], 0, token))
      else Find \<lparr>q_filter = mergeFilters
                 [(mongoFieldClaimToken, Is (BString token)), (''id'', Among (map doc_ID candidates))]
                 [tenantMatchFilter repo (doc_TenantID (hd candidates))],
              q_sort = Some sortField, q_limit = None, q_fields = None\<rparr>
          (\<lambda>r. driven r (\<lambda>ds. liftP (decodeCursor dec repo ds) (\<lambda>claimed.
             Done (Inr (claimed, length candidates, token)))))"
  have after: "typed ?ok ?Q (?after token modified)" for token and modified :: nat
    by (cases "modified = 0") (simp, simp only: if_False, rule read, simp)
  have "typed ?ok ?Q (claim_models repo from token set_for candidates [] (\<lambda>ms. bulkWrite ms 0 None (\<lambda>r. driven r (?after token))))" for token
  proof (rule typed_claim_models [OF keeps_Nil])
    show "typed ?ok ?Q (bulkWrite ms 0 None (\<lambda>r. driven r (?after token)))" if "keeps ?ok ms" for ms
      by (rule typed_bulk [OF that], rule typed_driven, rule after)
  qed (use assms(3) in \<open>simp add: change_keeps_def\<close>)
  then show ?thesis unfolding claimDocuments_def
    by (cases "candidates = []") (simp, simp only: if_False, rule typed_with_collection, simp)
qed

lemma typed_rollbackMissingClaims:
  assumes "field_ok (tenantField repo)" and "open_status from"
  shows "typed (doc_ok ux (tenantField repo)) (fine (\<lambda>_. True))
    (rollbackMissingClaims repo candidates claimed token StatusProcessing from)"
proof -
  let ?k = "\<lambda>ms. if ms = [] then Done (Inr ())
    else with_collection (bulkWrite ms 0 None (\<lambda>r. driven r (\<lambda>_. Done (Inr ()))))"
  have "typed (doc_ok ux (tenantField repo)) (fine (\<lambda>_. True)) (?k ms)" if "keeps (doc_ok ux (tenantField repo)) ms" for ms
    using that by (auto intro!: typed_with_collection typed_bulk typed_driven)
  then have "typed (doc_ok ux (tenantField repo)) (fine (\<lambda>_. True))
      (rollback_models repo token StatusProcessing from (map doc_ID claimed) candidates [] ?k)"
    by (rule typed_rollback_models [OF keeps_Nil _ assms(1)]) (auto intro: rollback_ok [OF _ assms(1) _ assms(2)])
  then show ?thesis by (simp add: rollbackMissingClaims_def)
qed

lemma typed_claim_loop:
  assumes "uuid_text_ok ux" and "reads_struct dec" and "field_ok (tenantField repo)" and "open_status from"
    and "change_keeps (doc_ok ux (tenantField repo)) from set_for" and "list_all (doc_readable ux) claimed"
  shows "typed (doc_ok ux (tenantField repo)) (fine (list_all (doc_readable ux)))
    (claim_loop n dec repo ctx f sortField limit from StatusProcessing set_for claimed)"
  using assms(6)
proof (induction n arbitrary: claimed)
  case (Suc n)
  let ?again = "claim_loop n dec repo ctx f sortField limit from StatusProcessing set_for"
  let ?ok = "doc_ok ux (tenantField repo)" and ?Q = "fine (list_all (doc_readable ux))"
  have step: "typed ?ok ?Q
      (if modified \<noteq> length batch then
         tryP (rollbackMissingClaims repo candidates batch token StatusProcessing from) (\<lambda>_. ?again (claimed @ batch))
       else if from = StatusProcessing then Done (Inr (claimed @ batch))
       else if batch = [] \<and> length candidates < remaining then Done (Inr (claimed @ batch))
       else ?again (claimed @ batch))"
    if "list_all (doc_readable ux) batch" for batch modified token candidates remaining
  proof -
    have again: "typed ?ok ?Q (?again (claimed @ batch))" by (rule Suc.IH) (simp add: that Suc.prems)
    have "typed ?ok ?Q (tryP (rollbackMissingClaims repo candidates batch token StatusProcessing from) (\<lambda>_. ?again (claimed @ batch)))"
      by (rule typed_try [OF typed_rollbackMissingClaims [OF assms(3,4)]]) (rule again)
    with again that Suc.prems show ?thesis by simp
  qed
  show ?case
    unfolding claim_loop.simps Let_def
    by (auto intro!: typed_try [OF typed_findClaimCandidates [OF assms(1,2)]]
        typed_try [OF typed_claimDocuments [OF assms(1,2,5)]] step simp: Suc.prems split: prod.split simp del: not_less)
qed simp

lemma typed_events:
  "typed ok (fine (list_all (doc_readable ux))) p \<Longrightarrow> typed ok (fine (\<lambda>_. True)) (tryP p (\<lambda>docs. Done (docsToEvents ux docs)))"
  by (erule typed_try) (auto dest!: docsToEvents_ok)

lemma change_keeps_processing: "field_ok tf \<Longrightarrow> open_status from \<Longrightarrow> change_keeps (doc_ok ux tf) from set_processing"
  using set_processing_ok by (auto simp: change_keeps_def)

lemma change_keeps_reclaimed:
  "field_ok tf \<Longrightarrow> maxAttempts \<le> max_int64 \<Longrightarrow> change_keeps (doc_ok ux tf) StatusProcessing (set_reclaimed maxAttempts)"
  using set_reclaimed_ok by (auto simp: change_keeps_def)

lemma transition_ok_simps [simp]:
  "transition_ok StatusProcessing StatusPublished k = k" "transition_ok StatusProcessing StatusFailed k = k"
  "transition_ok StatusProcessing StatusInvalid k = k"
  by (simp_all add: transition_ok_def)

text \<open>
  The operations a client may run, with the outcome reduced to its error. All clients share the
  configuration; a limit on attempts is a Go int.
\<close>

definition outcome :: "'e + 'a \<Rightarrow> 'e option" where
  "outcome r = (case r of Inl e \<Rightarrow> Some e | Inr _ \<Rightarrow> None)"

inductive mongo_op :: "runes \<Rightarrow> uuid_text \<Rightarrow> struct_decoder \<Rightarrow> mongo_repo \<Rightarrow> mongo_error option prog \<Rightarrow> bool"
  for redacted ux dec repo where
  "sane_event event \<Longrightarrow> mongo_op redacted ux dec repo (map_prog outcome (Create ux (Some repo) ctx event))"
| "sane_event event \<Longrightarrow> mongo_op redacted ux dec repo (map_prog outcome (CreateWithTx ux (Some repo) ctx tx event))"
| "mongo_op redacted ux dec repo (map_prog outcome (GetByID ux dec (Some repo) ctx i))"
| "mongo_op redacted ux dec repo (map_prog outcome (MarkPublished ux (Some repo) ctx i publishedAt))"
| "maxAttempts \<le> max_int64 \<Longrightarrow> mongo_op redacted ux dec repo (map_prog outcome (MarkFailed redacted ux dec (Some repo) ctx i msg maxAttempts))"
| "mongo_op redacted ux dec repo (map_prog outcome (MarkInvalid redacted ux (Some repo) ctx i msg))"
| "mongo_op redacted ux dec repo (map_prog outcome (ListPending ux dec (Some repo) ctx limit))"
| "mongo_op redacted ux dec repo (map_prog outcome (ListPendingByType ux dec (Some repo) ctx eventType limit))"
| "mongo_op redacted ux dec repo (map_prog outcome (ListFailedForRetry ux dec (Some repo) ctx limit t maxAttempts))"
| "mongo_op redacted ux dec repo (map_prog outcome (ResetForRetry ux dec (Some repo) ctx limit t maxAttempts))"
| "maxAttempts \<le> max_int64 \<Longrightarrow> mongo_op redacted ux dec repo (map_prog outcome (ReclaimStuckProcessing ux dec (Some repo) ctx limit t maxAttempts))"
| "maxAttempts \<le> max_int64 \<Longrightarrow> mongo_op redacted ux dec repo (map_prog outcome (ResetStuckProcessing ux dec (Some repo) ctx limit t maxAttempts))"
| "mongo_op redacted ux dec repo (map_prog outcome (ListTenants resolver (Some repo)))"
| "mongo_op redacted ux dec repo (map_prog outcome (DeletePublishedBefore (Some repo) ctx t keep limit))"
| "mongo_op redacted ux dec repo (map_prog outcome (ListTenantsWithPublishedBefore (Some repo) t keep))"

definition no_decode_error :: "mongo_error option \<Rightarrow> bool" where
  "no_decode_error r = (case r of None \<Rightarrow> True | Some e \<Rightarrow> \<not> is_decode_error e)"

lemma typed_map_prog: "typed ok Q (map_prog f p) = typed ok (\<lambda>x. Q (f x)) p"
  by (induction p) auto

lemma typed_outcome: "typed ok (fine (\<lambda>_. True)) p \<Longrightarrow> typed ok no_decode_error (map_prog outcome p)"
  unfolding typed_map_prog
  by (erule typed_mono) (auto simp: fine_def no_decode_error_def outcome_def split: sum.splits)

subsection \<open>Every operation\<close>

lemma initialized_Some: "initialized (Some r) k = k r"
  by (simp add: initialized_def)

lemma typed_result [simp]: "typed ok (fine (\<lambda>_. True)) (driven r modified_or_conflict)"
  by (simp add: driven_def modified_or_conflict_def split: sum.split)

lemma typed_Create:
  assumes "uuid_text_ok ux" and "field_ok (tenantField repo)" and "sane_event event"
  shows "typed (doc_ok ux (tenantField repo)) (fine (\<lambda>_. True)) (Create ux (Some repo) ctx event)"
proof -
  let ?doc = "\<lambda>e now tenantID. documentFromCreateValues ux (normalizedCreateValues e now) tenantID"
  have event: "event = Some e \<and> validateCreateEvent (Some e) = Inr e" if "validateCreateEvent event = Inr e" for e
    using that by (auto simp: validateCreateEvent_def split: option.splits if_splits)
  have "\<exists>ev. toOutboxEvent ux (?doc e now tenantID) = Inr ev" for e now tenantID
    using assms(1) by (simp add: toOutboxEvent_def documentFromCreateValues_def uuid_text_ok_def)
  then have reread: "fine (\<lambda>_. True) (toOutboxEvent ux (?doc e now tenantID))" for e now tenantID
    by (metis fine_simps(2))
  have "typed (doc_ok ux (tenantField repo)) (fine (\<lambda>_. True))
      (with_collection (InsertOne (unique_fields repo) (toBSON (tenantField repo) (?doc e now tenantID))
        (\<lambda>r. case r of Some e \<Rightarrow> Done (Inl (Driver e)) | None \<Rightarrow> Done (toOutboxEvent ux (?doc e now tenantID)))))"
    if "validateCreateEvent event = Inr e" "sane now" for e now tenantID
    using event [OF that(1)] assms(2,3) that(2) reread created_ok [of e now "tenantField repo" ux tenantID]
    by (intro typed_with_collection) (auto split: option.split)
  then show ?thesis
    unfolding Create_def initialized_Some
    by (intro typed_liftP typed_tenant)
      (auto simp: validateCreateEvent_def Let_def split: option.splits if_splits)
qed

lemma typed_decodeSingle:
  assumes "uuid_text_ok ux" and "reads_struct dec"
    and "\<And>doc. doc_readable ux doc \<Longrightarrow> typed (doc_ok ux (tenantField repo)) (fine P) (k doc)"
    and "\<And>e. \<not> is_decode_error e \<Longrightarrow> \<not> is_decode_error (on_error e)"
  shows "typed (doc_ok ux (tenantField repo)) (fine P) (decodeSingle dec repo f k on_error)"
proof -
  have "typed (doc_ok ux (tenantField repo)) (fine P)
      (case decode_one dec repo d of Inl e \<Rightarrow> Done (Inl (on_error e)) | Inr doc \<Rightarrow> k doc)"
    if "doc_ok ux (tenantField repo) d" for d
    using decode_one_ok [OF that assms(1,2)] assms(3) by auto
  then show ?thesis
    using assms(4) by (auto simp: decodeSingle_def read_of_def split: sum.split list.split)
qed

lemma typed_GetByID:
  assumes "uuid_text_ok ux" and "reads_struct dec"
  shows "typed (doc_ok ux (tenantField repo)) (fine (\<lambda>_. True)) (GetByID ux dec (Some repo) ctx i)"
  unfolding GetByID_def initialized_Some
  by (intro typed_guardP typed_tenant typed_with_collection)
    (auto intro!: typed_decodeSingle [OF assms] dest!: toOutboxEvent_ok)

lemma typed_update:
  assumes "\<And>d. ok d \<Longrightarrow> matches f d \<Longrightarrow> ok (apply_change u d)"
  shows "typed ok (fine (\<lambda>_. True)) (UpdateOne f u (\<lambda>r. driven r modified_or_conflict))"
  using assms by simp

lemma typed_now: "(\<And>t. sane t \<Longrightarrow> typed ok Q (k t)) \<Longrightarrow> typed ok Q (Now k)"
  by simp

lemma typed_MarkPublished:
  assumes "field_ok (tenantField repo)"
  shows "typed (doc_ok ux (tenantField repo)) (fine (\<lambda>_. True)) (MarkPublished ux (Some repo) ctx i publishedAt)"
  unfolding MarkPublished_def initialized_Some transition_ok_simps
  by (intro typed_guardP typed_tenant typed_with_collection)
    (auto intro!: typed_update mark_published_ok assms dest: matches_status)

lemma typed_MarkInvalid:
  assumes "field_ok (tenantField repo)"
  shows "typed (doc_ok ux (tenantField repo)) (fine (\<lambda>_. True)) (MarkInvalid redacted ux (Some repo) ctx i msg)"
  unfolding MarkInvalid_def initialized_Some transition_ok_simps
  by (intro typed_guardP typed_tenant typed_with_collection)
    (auto intro!: typed_update mark_invalid_ok assms dest: matches_status)

lemma typed_MarkFailed:
  assumes "uuid_text_ok ux" and "reads_struct dec" and "field_ok (tenantField repo)" and "maxAttempts \<le> max_int64"
  shows "typed (doc_ok ux (tenantField repo)) (fine (\<lambda>_. True)) (MarkFailed redacted ux dec (Some repo) ctx i msg maxAttempts)"
  unfolding MarkFailed_def initialized_Some transition_ok_simps Let_def
  by (intro typed_guardP typed_tenant typed_with_collection typed_decodeSingle [OF assms(1,2)] typed_now typed_update
      mark_failed_ok [OF _ assms(3) _ _ assms(4)])
    (auto dest: matches_status(2))

lemma typed_claimMatching:
  assumes "uuid_text_ok ux" and "reads_struct dec" and "field_ok (tenantField repo)" and "open_status from"
    and "change_keeps (doc_ok ux (tenantField repo)) from set_for"
  shows "typed (doc_ok ux (tenantField repo)) (fine (list_all (doc_readable ux)))
    (claimMatching dec repo ctx f sortField limit from StatusProcessing set_for)"
  unfolding claimMatching_def initialized_Some by (rule typed_claim_loop [OF assms]) simp

lemma typed_claimPending:
  assumes "uuid_text_ok ux" and "reads_struct dec" and "field_ok (tenantField repo)"
  shows "typed (doc_ok ux (tenantField repo)) (fine (\<lambda>_. True)) (claimPending ux dec (Some repo) ctx limit eventType)"
  unfolding claimPending_def initialized_Some
  by (intro typed_guardP typed_events)
    (auto intro!: typed_claimMatching assms change_keeps_processing)

lemma typed_ListPendingByType:
  assumes "uuid_text_ok ux" and "reads_struct dec" and "field_ok (tenantField repo)"
  shows "typed (doc_ok ux (tenantField repo)) (fine (\<lambda>_. True)) (ListPendingByType ux dec (Some repo) ctx eventType limit)"
  unfolding ListPendingByType_def initialized_Some Let_def
  by (intro typed_guardP typed_claimPending assms) simp_all

lemma typed_ListFailedForRetry:
  assumes "uuid_text_ok ux" and "reads_struct dec"
  shows "typed (doc_ok ux (tenantField repo)) (fine (\<lambda>_. True)) (ListFailedForRetry ux dec (Some repo) ctx limit t maxAttempts)"
  unfolding ListFailedForRetry_def initialized_Some
  by (intro typed_guardP typed_events) (auto intro!: typed_findCandidates assms)

lemma typed_ResetForRetry:
  assumes "uuid_text_ok ux" and "reads_struct dec" and "field_ok (tenantField repo)"
  shows "typed (doc_ok ux (tenantField repo)) (fine (\<lambda>_. True)) (ResetForRetry ux dec (Some repo) ctx limit t maxAttempts)"
  unfolding ResetForRetry_def initialized_Some
  by (intro typed_guardP typed_events)
    (auto intro!: typed_claimMatching assms change_keeps_processing)

lemma typed_ReclaimStuckProcessing:
  assumes "uuid_text_ok ux" and "reads_struct dec" and "field_ok (tenantField repo)" and "maxAttempts \<le> max_int64"
  shows "typed (doc_ok ux (tenantField repo)) (fine (\<lambda>_. True)) (ReclaimStuckProcessing ux dec (Some repo) ctx limit t maxAttempts)"
  unfolding ReclaimStuckProcessing_def initialized_Some
  by (intro typed_guardP
      typed_try [OF typed_claimMatching [OF assms(1-3) open_statuses(2) change_keeps_reclaimed [OF assms(3,4)]]] typed_liftP)
    (auto dest!: docsToEvents_ok)

lemma typed_ResetStuckProcessing:
  assumes "uuid_text_ok ux" and "reads_struct dec" and "field_ok (tenantField repo)" and "maxAttempts \<le> max_int64"
  shows "typed (doc_ok ux (tenantField repo)) (fine (\<lambda>_. True)) (ResetStuckProcessing ux dec (Some repo) ctx limit t maxAttempts)"
  unfolding ResetStuckProcessing_def
  by (rule typed_try [OF typed_ReclaimStuckProcessing [OF assms]]) (auto split: prod.split)

lemma normalizeTenantIDs_error: "normalizeTenantIDs ts = Inl e \<Longrightarrow> \<not> is_decode_error e"
proof -
  have "normalize_loop acc ts = Inl e \<Longrightarrow> \<not> is_decode_error e" for acc
    by (induction ts arbitrary: acc) (auto simp: Let_def split: if_splits)
  then show "normalizeTenantIDs ts = Inl e \<Longrightarrow> \<not> is_decode_error e" by (auto simp: normalizeTenantIDs_def bind_res_eq_Inl)
qed

lemma fine_tenants: "fine (\<lambda>_. True) (normalizeTenantIDs ts)"
  using normalizeTenantIDs_error by (cases "normalizeTenantIDs ts") auto

lemma typed_ListTenants: "typed ok (fine (\<lambda>_. True)) (ListTenants resolver (Some repo))"
  by (auto simp: ListTenants_def initialized_Some distinctTenants_def fine_tenants intro!: typed_driven typed_with_collection)

lemma typed_ListTenantsWithPublishedBefore: "typed ok (fine (\<lambda>_. True)) (ListTenantsWithPublishedBefore (Some repo) t keep)"
  by (auto simp: ListTenantsWithPublishedBefore_def initialized_Some distinctTenants_def fine_tenants
      intro!: typed_driven typed_with_collection)

lemma typed_DeletePublishedBefore: "typed ok (fine (\<lambda>_. True)) (DeletePublishedBefore (Some repo) ctx t keep limit)"
  by (auto simp: DeletePublishedBefore_def initialized_Some deletePublishedBefore_def Let_def
      intro!: typed_driven typed_with_collection typed_tenant)

lemma typed_mongo_op:
  assumes "mongo_op redacted ux dec repo p" and "uuid_text_ok ux" and "reads_struct dec" and "field_ok (tenantField repo)"
  shows "typed (doc_ok ux (tenantField repo)) no_decode_error p"
  using assms(1)
  by cases (auto simp: CreateWithTx_def ListPending_def intro!: typed_outcome typed_Create typed_guardP typed_GetByID
      typed_MarkPublished typed_MarkFailed typed_MarkInvalid typed_claimPending typed_ListPendingByType
      typed_ListFailedForRetry typed_ResetForRetry typed_ReclaimStuckProcessing typed_ResetStuckProcessing
      typed_ListTenants typed_DeletePublishedBefore typed_ListTenantsWithPublishedBefore assms(2-4))

text \<open>
  C40. When the tenant field is none of the document's own fields: however many clients run the
  operations of the repository on one collection, interleaved call by call, with calls that fail and calls whose answer is lost: every document in the collection is a
  well-formed event of the life cycle, with a publication time exactly when it is published and an
  attempts count that never overflows; and no operation that ended did so because it could not decode
  a document.\<close>

theorem mongo_documents_stay_well_formed:
  assumes "uuid_text_ok ux" and "reads_struct dec" and "field_ok (tenantField repo)"
    and "runs (mongo_op redacted ux dec repo) (c, ps)"
  shows "list_all (doc_ok ux (tenantField repo)) c \<and>
    list_all (\<lambda>p. case p of Done r \<Rightarrow> no_decode_error r | _ \<Rightarrow> True) ps"
proof -
  have "list_all (doc_ok ux (tenantField repo)) c" "list_all (typed (doc_ok ux (tenantField repo)) no_decode_error) ps"
    using runs_typed [OF assms(4)] typed_mongo_op [OF _ assms(1-3)] by blast+
  then show ?thesis by (fastforce simp: list_all_iff split: prog.split)
qed

subsection \<open>A run\<close>

definition toy_ux :: uuid_text where
  "toy_ux = (\<lambda>u. ''x'' @ replicate (unat u) CHR ''y'' @ ''x'', \<lambda>s. Some (of_nat (length s - 2)))"

lemma trim_x: "trim_space (CHR ''x'' # s @ [CHR ''x'']) = CHR ''x'' # s @ [CHR ''x'']"
  by (simp add: trim_space_def trim_left_with_id space_encodings_def)

lemma toy_ux_ok: "uuid_text_ok toy_ux"
  by (simp add: uuid_text_ok_def toy_ux_def trim_x)

definition toy_event :: outbox_event where
  "toy_event = \<lparr>ID = 1, EventType = ''xx'', AggregateID = 2, Payload = ''1'', Status = [], Attempts = 0, PublishedAt = None,
     LastError = [], CreatedAt = 0, UpdatedAt = 0\<rparr>"

definition toy_repo :: mongo_repo where
  "toy_repo = \<lparr>collectionName = defaultCollectionName, tenantField = [], requireTenant = False, tenantModule = [], hasResolver = False\<rparr>"

lemma toy_create:
  "\<exists>k. map_prog outcome (Create toy_ux (Some toy_repo) background (Some toy_event)) = Now k \<and>
    (\<forall>now. \<exists>k'. k now = Resolve k' \<and> (\<exists>d k''. k' None = InsertOne [''id''] d k'' \<and> k'' None = Done None))"
proof -
  have "json_Valid ''1''" by code_simp
  moreover have "trim_space ''xx'' = ''xx''" using trim_x [of "[]"] by simp
  ultimately have v: "validateCreateEvent (Some toy_event) = Inr toy_event"
    by (simp add: validateCreateEvent_def toy_event_def DefaultMaxPayloadBytes_def)
  have t: "tenantIDFromContext toy_repo background = Inr []"
    by (simp add: tenantIDFromContext_def toy_repo_def TenantIDFromContext_def GetTenantIDContext_def background_def
        defaultScopeTenantID_def)
  have u: "unique_fields toy_repo = [''id'']" by (simp add: unique_fields_def toy_repo_def)
  show ?thesis
    by (simp add: Create_def initialized_Some v t u liftP_def with_collection_def Let_def
        toOutboxEvent_def documentFromCreateValues_def toy_ux_def outcome_def)
qed

theorem mongo_documents_stay_well_formed_witness:
  "\<exists>c. runs (mongo_op [] toy_ux (\<lambda>d. Some (struct_fields d)) toy_repo) (c, [Done None]) \<and> length c = 1 \<and>
    list_all (doc_ok toy_ux (tenantField toy_repo)) c"
proof -
  let ?ops = "mongo_op [] toy_ux (\<lambda>d. Some (struct_fields d)) toy_repo"
  let ?p = "map_prog outcome (Create toy_ux (Some toy_repo) background (Some toy_event))"
  obtain k k' d k'' where p: "?p = Now k" "k 1000000 = Resolve k'" "k' None = InsertOne [''id''] d k''" "k'' None = Done None"
    using toy_create by blast
  have "sane_event (Some toy_event)" by (simp add: sane_event_def toy_event_def)
  then have "?ops ?p" by (rule mongo_op.intros(1))
  then have "runs ?ops ([], [] @ [?p])" by (rule runs.join [OF runs.empty])
  then have r0: "runs ?ops ([], [Now k])" using p(1) by simp
  have "call [] (Now k) [] (Resolve k')" using call.now [of 1000000 "[]" k] p(2) by (simp add: sane_def)
  then have r1: "runs ?ops ([], [Resolve k'])" using runs.step [OF r0 system_step.intros [of 0]] by simp
  have "call [] (Resolve k') [] (InsertOne [''id''] d k'')" using call.resolve [of "[]" k' None] p(3) by simp
  then have r2: "runs ?ops ([], [InsertOne [''id''] d k''])" using runs.step [OF r1 system_step.intros [of 0]] by simp
  have "call [] (InsertOne [''id''] d k'') [d] (Done None)" using call.insert [of "[''id'']" d "[]" k''] p(4) by simp
  then have r3: "runs ?ops ([d], [Done None])" using runs.step [OF r2 system_step.intros [of 0]] by simp
  have "reads_struct (\<lambda>d. Some (struct_fields d))" "field_ok (tenantField toy_repo)"
    by (simp_all add: reads_struct_def field_ok_def reserved_def toy_repo_def)
  then show ?thesis
    using r3 mongo_documents_stay_well_formed [OF toy_ux_ok _ _ r3] by auto
qed

end
