(* ===== verification/Webhook_Signature.thy ===== *)
theory Webhook_Signature
  imports Go_Text "HOL-Library.Sublist"
begin

text \<open>
  \<open>commons/webhook/signature.go\<close>: the two formats of a webhook signature and their verification.
  HMAC-SHA256 is the parameter \<open>hmac\<close> (key, message). An instant is a number of nanoseconds since Go's
  zero time.
\<close>

type_synonym SignatureVersion = int

definition SignatureV0 :: SignatureVersion where "SignatureV0 = 0"
definition SignatureV1 :: SignatureVersion where "SignatureV1 = 1"

definition computeHMAC :: "(string \<Rightarrow> string \<Rightarrow> string) \<Rightarrow> string \<Rightarrow> string \<Rightarrow> string" where
  "computeHMAC hmac payload secret = hex_EncodeToString (hmac secret payload)"

text \<open>What is signed in the second format.\<close>

definition v1_message :: "string \<Rightarrow> int \<Rightarrow> string" where
  "v1_message payload timestamp = ''v1:'' @ FormatInt timestamp @ ''.'' @ payload"

definition computeHMACv1 :: "(string \<Rightarrow> string \<Rightarrow> string) \<Rightarrow> string \<Rightarrow> int \<Rightarrow> string \<Rightarrow> string" where
  "computeHMACv1 hmac payload timestamp secret =
     ''v1,sha256='' @ hex_EncodeToString (hmac secret (v1_message payload timestamp))"

datatype verify_error = V1_mismatch | V0_mismatch | Unrecognized | V1_required | Outside_tolerance

definition VerifySignature ::
  "(string \<Rightarrow> string \<Rightarrow> string) \<Rightarrow> string \<Rightarrow> int \<Rightarrow> string \<Rightarrow> string \<Rightarrow> verify_error + unit" where
  "VerifySignature hmac payload timestamp secret signature =
     (if prefix ''v1,'' signature then
        refuse (signature \<noteq> computeHMACv1 hmac payload timestamp secret) V1_mismatch
      else if prefix ''sha256='' signature then
        refuse (signature \<noteq> ''sha256='' @ computeHMAC hmac payload secret) V0_mismatch
      else Inl Unrecognized)"

definition VerifySignatureV1 ::
  "(string \<Rightarrow> string \<Rightarrow> string) \<Rightarrow> string \<Rightarrow> int \<Rightarrow> string \<Rightarrow> string \<Rightarrow> verify_error + unit" where
  "VerifySignatureV1 hmac payload timestamp secret signature =
     (if \<not> prefix ''v1,'' signature then Inl V1_required
      else VerifySignature hmac payload timestamp secret signature)"

text \<open>
  \<open>time.Unix\<close> adds the seconds between year 1 and 1970 in 64 bits; \<open>Time.Sub\<close> saturates;
  \<open>Duration.Abs\<close> takes the smallest duration to the largest.
\<close>

definition time_Unix :: "int \<Rightarrow> int" where
  "time_Unix sec = wrap64 (sec + 62135596800) * 1000000000"

definition time_Sub :: "int \<Rightarrow> int \<Rightarrow> int" where
  "time_Sub t u = max min_int64 (min max_int64 (t - u))"

definition Duration_Abs :: "int \<Rightarrow> int" where
  "Duration_Abs d = (if 0 \<le> d then d else if d = min_int64 then max_int64 else - d)"

definition verifySignatureWithFreshnessAt ::
  "(string \<Rightarrow> string \<Rightarrow> string) \<Rightarrow> string \<Rightarrow> int \<Rightarrow> string \<Rightarrow> string \<Rightarrow> int \<Rightarrow> int \<Rightarrow> verify_error + unit" where
  "verifySignatureWithFreshnessAt hmac payload timestamp secret signature tolerance now =
     bind_res (VerifySignature hmac payload timestamp secret signature) (\<lambda>_.
       if prefix ''v1,'' signature then
         (let delta = Duration_Abs (time_Sub now (time_Unix timestamp)) in
          refuse (delta > tolerance) Outside_tolerance)
       else Inr ())"

definition verifySignatureV1WithFreshnessAt ::
  "(string \<Rightarrow> string \<Rightarrow> string) \<Rightarrow> string \<Rightarrow> int \<Rightarrow> string \<Rightarrow> string \<Rightarrow> int \<Rightarrow> int \<Rightarrow> verify_error + unit" where
  "verifySignatureV1WithFreshnessAt hmac payload timestamp secret signature tolerance now =
     bind_res (VerifySignatureV1 hmac payload timestamp secret signature) (\<lambda>_.
       let delta = Duration_Abs (time_Sub now (time_Unix timestamp)) in
       refuse (delta > tolerance) Outside_tolerance)"

text \<open>The two that read the clock.\<close>

definition VerifySignatureWithFreshness ::
  "(string \<Rightarrow> string \<Rightarrow> string) \<Rightarrow> int \<Rightarrow> string \<Rightarrow> int \<Rightarrow> string \<Rightarrow> string \<Rightarrow> int \<Rightarrow> verify_error + unit" where
  "VerifySignatureWithFreshness hmac clock payload timestamp secret signature tolerance =
     verifySignatureWithFreshnessAt hmac payload timestamp secret signature tolerance clock"

definition VerifySignatureV1WithFreshness ::
  "(string \<Rightarrow> string \<Rightarrow> string) \<Rightarrow> int \<Rightarrow> string \<Rightarrow> int \<Rightarrow> string \<Rightarrow> string \<Rightarrow> int \<Rightarrow> verify_error + unit" where
  "VerifySignatureV1WithFreshness hmac clock payload timestamp secret signature tolerance =
     verifySignatureV1WithFreshnessAt hmac payload timestamp secret signature tolerance clock"

definition computeSignature ::
  "(string \<Rightarrow> string \<Rightarrow> string) \<Rightarrow> SignatureVersion \<Rightarrow> string \<Rightarrow> int \<Rightarrow> string \<Rightarrow> string" where
  "computeSignature hmac sigVersion payload timestamp secret =
     (if sigVersion = SignatureV1 then computeHMACv1 hmac payload timestamp secret
      else ''sha256='' @ computeHMAC hmac payload secret)"

subsection \<open>What a signature says\<close>

text \<open>The signed text of the second format determines the time and the payload.\<close>

lemma v1_message_inject: "v1_message p t = v1_message p' t' \<longleftrightarrow> p = p' \<and> t = t'"
proof
  assume "v1_message p t = v1_message p' t'"
  then have e: "FormatInt t @ CHR ''.'' # p = FormatInt t' @ CHR ''.'' # p'" by (simp add: v1_message_def)
  have n: "CHR ''.'' \<notin> set (FormatInt i)" for i using FormatInt_chars [of "CHR ''.''" i] by (auto simp: is_digit_def)
  have "takeWhile (\<lambda>c. c \<noteq> CHR ''.'') (FormatInt i @ CHR ''.'' # q) = FormatInt i" for i q
    using n by (subst takeWhile_append2) auto
  then have "FormatInt t = FormatInt t'" using e by metis
  then show "p = p' \<and> t = t'" using e by (simp add: FormatInt_inject)
qed simp

lemma prefix_kinds [simp]:
  "prefix ''v1,'' (''v1,sha256='' @ s)" "\<not> prefix ''v1,'' (''sha256='' @ s)" "prefix ''sha256='' (''sha256='' @ s)"
  by (simp_all add: prefix_def)

lemma VerifySignature_eq_Inr:
  "VerifySignature hmac p t k s = Inr () \<longleftrightarrow>
     s = computeHMACv1 hmac p t k \<or> s = ''sha256='' @ computeHMAC hmac p k"
  by (auto simp: VerifySignature_def computeHMACv1_def refuse_def)

lemma VerifySignatureV1_eq_Inr:
  "VerifySignatureV1 hmac p t k s = Inr () \<longleftrightarrow> s = computeHMACv1 hmac p t k"
  by (auto simp: VerifySignatureV1_def VerifySignature_eq_Inr computeHMACv1_def)

text \<open>Within how many nanoseconds of the clock a time stamp counts as fresh.\<close>

lemma delta_le:
  assumes "0 \<le> tolerance" and "tolerance < max_int64"
  shows "Duration_Abs (time_Sub now u) \<le> tolerance \<longleftrightarrow> \<bar>now - u\<bar> \<le> tolerance"
  using assms by (auto simp: Duration_Abs_def time_Sub_def min_int64_def max_int64_def max_def min_def)

end
