(* ===== verification/Commons_Env.thy ===== *)
theory Commons_Env
  imports Commons_Prelude
begin

text \<open>
  \<open>commons/security.go\<close>: the switches that turn single safety checks off. The process environment is
  a map from names to values; no other name than that of a switch is looked at.
\<close>

type_synonym environment = "string \<rightharpoonup> string"

definition parseBool :: "(string \<Rightarrow> string) \<Rightarrow> string \<Rightarrow> bool \<Rightarrow> bool" where
  "parseBool uni raw fallback =
     (let s = ToLower uni (trim_space raw) in
      if s \<in> set [''true'', ''1'', ''yes'', ''on''] then True
      else if s \<in> set [''false'', ''0'', ''no'', ''off''] then False
      else fallback)"

definition getenvBool :: "(string \<Rightarrow> string) \<Rightarrow> environment \<Rightarrow> string \<Rightarrow> bool" where
  "getenvBool uni env name = parseBool uni (case env name of None \<Rightarrow> [] | Some v \<Rightarrow> v) False"

definition getenvBoolDefault :: "(string \<Rightarrow> string) \<Rightarrow> environment \<Rightarrow> string \<Rightarrow> bool \<Rightarrow> bool" where
  "getenvBoolDefault uni env name def =
     (case env name of None \<Rightarrow> def | Some raw \<Rightarrow> parseBool uni raw def)"

definition EnvAllowInsecureTLS :: string where "EnvAllowInsecureTLS = ''ALLOW_INSECURE_TLS''"
definition EnvRateLimitEnabled :: string where "EnvRateLimitEnabled = ''RATE_LIMIT_ENABLED''"
definition EnvAllowRateLimitFailOpen :: string where "EnvAllowRateLimitFailOpen = ''ALLOW_RATELIMIT_FAIL_OPEN''"
definition EnvAllowCORSWildcard :: string where "EnvAllowCORSWildcard = ''ALLOW_CORS_WILDCARD''"
definition EnvAllowInsecureOTEL :: string where "EnvAllowInsecureOTEL = ''ALLOW_INSECURE_OTEL''"
definition EnvAllowWebhookPrivateNet :: string where "EnvAllowWebhookPrivateNet = ''ALLOW_WEBHOOK_PRIVATE_NETWORK''"

definition AllowInsecureTLS :: "(string \<Rightarrow> string) \<Rightarrow> environment \<Rightarrow> bool" where
  "AllowInsecureTLS uni env = getenvBool uni env EnvAllowInsecureTLS"

definition RateLimitEnabled :: "(string \<Rightarrow> string) \<Rightarrow> environment \<Rightarrow> bool" where
  "RateLimitEnabled uni env = getenvBoolDefault uni env EnvRateLimitEnabled False"

definition AllowRateLimitFailOpen :: "(string \<Rightarrow> string) \<Rightarrow> environment \<Rightarrow> bool" where
  "AllowRateLimitFailOpen uni env = getenvBool uni env EnvAllowRateLimitFailOpen"

definition AllowCORSWildcard :: "(string \<Rightarrow> string) \<Rightarrow> environment \<Rightarrow> bool" where
  "AllowCORSWildcard uni env = getenvBool uni env EnvAllowCORSWildcard"

definition AllowInsecureOTEL :: "(string \<Rightarrow> string) \<Rightarrow> environment \<Rightarrow> bool" where
  "AllowInsecureOTEL uni env = getenvBool uni env EnvAllowInsecureOTEL"

definition AllowWebhookPrivateNet :: "(string \<Rightarrow> string) \<Rightarrow> environment \<Rightarrow> bool" where
  "AllowWebhookPrivateNet uni env = getenvBool uni env EnvAllowWebhookPrivateNet"

text \<open>A switch defaults to off, and only the four affirmative words turn one on.\<close>

lemma getenvBoolDefault_False: "getenvBoolDefault uni env name False = getenvBool uni env name"
proof -
  have "trim_space [] = []" by code_simp
  then have "\<not> parseBool uni [] False" by (simp add: parseBool_def ToLower_def)
  then show ?thesis by (simp add: getenvBool_def getenvBoolDefault_def split: option.split)
qed

lemma getenvBool_iff:
  "getenvBool uni env name \<longleftrightarrow>
     (\<exists>v. env name = Some v \<and> ToLower uni (trim_space v) \<in> {''true'', ''1'', ''yes'', ''on''})"
  unfolding getenvBoolDefault_False [symmetric]
  by (auto simp: getenvBoolDefault_def parseBool_def split: option.split)

end
