(* ===== verification/Webhook.thy ===== *)
theory Webhook
  imports Webhook_Signature Ssrf_Validate Backoff Commons_Env
begin

text \<open>
  \<open>commons/webhook\<close>: the deliverer (deliverer.go, ssrf.go, types.go, errors.go). Deliveries share
  nothing but the semaphore, so a delivery is a function of what its own surroundings answer, and the
  fan-out is a transition system that starts and ends deliveries. Logging, tracing and draining the
  response are left out.
\<close>

subsection \<open>Data\<close>

record endpoint =
  ep_ID :: string
  ep_URL :: string
  ep_Secret :: string
  ep_Active :: bool

record event =
  ev_Type :: string
  ev_Payload :: string
  ev_Timestamp :: int

text \<open>Errors, with what they wrap.\<close>

datatype webhook_error =
    ErrNilDeliverer | Nil_event | List_endpoints string
  | Mapped_invalid ssrf_error | Mapped_blocked ssrf_error | ErrSSRFBlocked webhook_error
  | No_decryptor | Decrypt_failed string | Backoff_cancelled | Build_request | Http_request string
  | Redirect_status int | Status_not_retryable int | ErrDeliveryFailed int "webhook_error option"

record delivery_result =
  dr_EndpointID :: string
  dr_StatusCode :: int
  dr_Success :: bool
  dr_Error :: "webhook_error option"
  dr_Attempts :: int

subsection \<open>HTTP clients\<close>

datatype redirects = UseLastResponse | Client_policy string

record tls =
  MinVersion :: nat
  ServerName :: string

datatype transport = No_transport | Standard "tls option" | Other_transport string

record http_client =
  Transport :: transport
  CheckRedirect :: redirects

definition VersionTLS12 :: nat where "VersionTLS12 = 771"

definition defaultHTTPClient :: http_client where
  "defaultHTTPClient = \<lparr>Transport = Standard None, CheckRedirect = UseLastResponse\<rparr>"

text \<open>\<open>dt\<close> is \<open>http.DefaultTransport\<close>.\<close>

definition httpsClientForPinnedIP :: "transport \<Rightarrow> http_client \<Rightarrow> string \<Rightarrow> http_client" where
  "httpsClientForPinnedIP dt client originalHost =
     (let baseTransport = (if Transport client = No_transport then dt else Transport client) in
      case baseTransport of
        Standard config \<Rightarrow>
          (let pinned = (case config of
                 None \<Rightarrow> \<lparr>MinVersion = VersionTLS12, ServerName = []\<rparr>
               | Some c \<Rightarrow> if MinVersion c < VersionTLS12 then c\<lparr>MinVersion := VersionTLS12\<rparr> else c)
           in client\<lparr>Transport := Standard (Some (pinned\<lparr>ServerName := originalHost\<rparr>))\<rparr>)
      | _ \<Rightarrow> client)"

subsection \<open>The deliverer and its options\<close>

definition defaultMaxConcurrency :: int where "defaultMaxConcurrency = 20"
definition defaultMaxRetries :: int where "defaultMaxRetries = 3"
definition defaultBaseDelay :: int where "defaultBaseDelay = 1000000000"

record deliverer =
  client :: http_client
  decryptor :: "(string \<Rightarrow> string + string) option"
  maxConc :: int
  maxRetries :: int
  sigVersion :: SignatureVersion
  allowPrivateNetwork :: bool
  metrics :: bool

type_synonym webhook_option = "deliverer \<Rightarrow> deliverer"

definition WithMetrics :: "bool \<Rightarrow> webhook_option" where
  "WithMetrics present d = (if present then d\<lparr>metrics := True\<rparr> else d)"

definition WithMaxConcurrency :: "int \<Rightarrow> webhook_option" where
  "WithMaxConcurrency n d = (if n > 0 then d\<lparr>maxConc := n\<rparr> else d)"

definition WithMaxRetries :: "int \<Rightarrow> webhook_option" where
  "WithMaxRetries n d = (if n > 0 then d\<lparr>maxRetries := n\<rparr> else d)"

definition WithHTTPClient :: "http_client option \<Rightarrow> webhook_option" where
  "WithHTTPClient c d =
     (case c of None \<Rightarrow> d | Some c \<Rightarrow> d\<lparr>client := c\<lparr>CheckRedirect := UseLastResponse\<rparr>\<rparr>)"

definition WithSecretDecryptor :: "(string \<Rightarrow> string + string) option \<Rightarrow> webhook_option" where
  "WithSecretDecryptor fn d = (if fn \<noteq> None then d\<lparr>decryptor := fn\<rparr> else d)"

definition WithSignatureVersion :: "SignatureVersion \<Rightarrow> webhook_option" where
  "WithSignatureVersion v d = d\<lparr>sigVersion := v\<rparr>"

definition WithAllowPrivateNetwork :: "(string \<Rightarrow> string) \<Rightarrow> environment \<Rightarrow> webhook_option" where
  "WithAllowPrivateNetwork uni env d =
     (if \<not> AllowWebhookPrivateNet uni env then d else d\<lparr>allowPrivateNetwork := True\<rparr>)"

definition NewDeliverer :: "bool \<Rightarrow> webhook_option option list \<Rightarrow> deliverer option" where
  "NewDeliverer lister opts =
     (if \<not> lister then None
      else Some (foldl (\<lambda>d opt. case opt of None \<Rightarrow> d | Some f \<Rightarrow> f d)
        \<lparr>client = defaultHTTPClient, decryptor = None, maxConc = defaultMaxConcurrency,
         maxRetries = defaultMaxRetries, sigVersion = SignatureV0, allowPrivateNetwork = False, metrics = False\<rparr>
        opts))"

subsection \<open>Where an event may be sent\<close>

definition mapSSRFError :: "ssrf_error \<Rightarrow> webhook_error" where
  "mapSSRFError err =
     (case err of ErrInvalidURL \<Rightarrow> Mapped_invalid err | ErrBlocked \<Rightarrow> Mapped_blocked err | ErrDNSFailed \<Rightarrow> Mapped_blocked err)"

definition resolveAndValidateIP ::
  "'x net \<Rightarrow> go_context \<Rightarrow> string \<Rightarrow> ssrf_option list \<Rightarrow> webhook_error + string \<times> string \<times> string" where
  "resolveAndValidateIP net ctx rawURL opts =
     (case ResolveAndValidate net ctx rawURL opts of
        Inl e \<Rightarrow> Inl (mapSSRFError e)
      | Inr r \<Rightarrow> Inr (PinnedURL r, Authority r, SNIHostname r))"

text \<open>\<open>net.ParseIP\<close> takes no zone, and reads a mapped address as the IPv4 address it carries.\<close>

definition ParseIP :: "string \<Rightarrow> addr option" where
  "ParseIP s =
     (case ParseAddr s of Some (V6 a zone) \<Rightarrow> if zone \<noteq> [] then None else Some (Unmap (V6 a zone)) | r \<Rightarrow> r)"

definition isPrivateNetworkIPLiteral :: "'x net \<Rightarrow> string \<Rightarrow> bool" where
  "isPrivateNetworkIPLiteral net rawURL =
     (case url_Parse net rawURL of
        None \<Rightarrow> False
      | Some parsed \<Rightarrow>
          (case ParseIP (Hostname parsed) of None \<Rightarrow> False | Some ip \<Rightarrow> IsLoopback ip \<or> IsPrivate ip))"

definition resolveAndValidateWebhookTarget ::
  "'x net \<Rightarrow> go_context \<Rightarrow> string \<Rightarrow> bool \<Rightarrow> ssrf_option list \<Rightarrow> webhook_error + string \<times> string \<times> string" where
  "resolveAndValidateWebhookTarget net ctx rawURL allow opts =
     (if \<not> allow \<or> \<not> isPrivateNetworkIPLiteral net rawURL then resolveAndValidateIP net ctx rawURL opts
      else resolveAndValidateIP net ctx rawURL (opts @ [Ssrf_Validate.WithAllowPrivateNetwork]))"

subsection \<open>One delivery\<close>

record request =
  rq_URL :: string
  rq_Host :: string
  rq_Body :: string
  rq_Header :: "string \<rightharpoonup> string"

text \<open>
  The surroundings of one delivery: the network, the headers of the trace, whether the context is
  found ended before an attempt, the answer to the request of an attempt, and the sources of jitter.
\<close>

record 'x surroundings =
  s_net :: "'x net"
  s_hmac :: "string \<Rightarrow> string \<Rightarrow> string"
  s_default_transport :: transport
  s_trace :: "(string \<times> string) list"
  s_ended :: "nat \<Rightarrow> bool"
  s_Do :: "nat \<Rightarrow> http_client \<Rightarrow> request \<Rightarrow> string + int"
  s_gen :: "int \<Rightarrow> int \<Rightarrow> int"
  s_draw :: "nat \<Rightarrow> int \<Rightarrow> int option"
  s_seed :: "nat \<Rightarrow> int option"

datatype action = Wait int | Send http_client request | RecordDelivery string bool int int

definition resolveSecret :: "deliverer \<Rightarrow> string \<Rightarrow> webhook_error + string" where
  "resolveSecret d raw =
     (if raw = [] then Inr []
      else if \<not> prefix ''enc:'' raw then Inr raw
      else (case decryptor d of
          None \<Rightarrow> Inl No_decryptor
        | Some f \<Rightarrow> (case f (drop 4 raw) of Inl e \<Rightarrow> Inl (Decrypt_failed e) | Inr plaintext \<Rightarrow> Inr plaintext)))"

text \<open>\<open>http.NewRequest\<close> drops a colon that no port follows.\<close>

definition removeEmptyPort :: "string \<Rightarrow> string" where
  "removeEmptyPort host = (if suffix '':'' host then butlast host else host)"

definition build_request ::
  "'x surroundings \<Rightarrow> deliverer \<Rightarrow> string \<Rightarrow> 'x url \<Rightarrow> string \<Rightarrow> event \<Rightarrow> string \<Rightarrow> request" where
  "build_request E d pinnedURL u originalAuthority ev secret =
     (let h = [''Content-Type'' \<mapsto> ''application/json'', ''X-Webhook-Event'' \<mapsto> ev_Type ev,
               ''X-Webhook-Timestamp'' \<mapsto> FormatInt (ev_Timestamp ev)];
          h = (if secret \<noteq> []
               then h(''X-Webhook-Signature'' \<mapsto> computeSignature (s_hmac E) (sigVersion d) (ev_Payload ev) (ev_Timestamp ev) secret)
               else h);
          h = foldl (\<lambda>h (k, v). h(k \<mapsto> v)) h (s_trace E)
      in \<lparr>rq_URL = pinnedURL,
          rq_Host = (if originalAuthority \<noteq> [] then originalAuthority else removeEmptyPort (Host u)),
          rq_Body = ev_Payload ev, rq_Header = h\<rparr>)"

definition doHTTP ::
  "'x surroundings \<Rightarrow> deliverer \<Rightarrow> nat \<Rightarrow> string \<Rightarrow> string \<Rightarrow> string \<Rightarrow> event \<Rightarrow> string \<Rightarrow> (webhook_error + int) \<times> action list" where
  "doHTTP E d attempt pinnedURL originalAuthority sniHostname ev secret =
     (case url_Parse (s_net E) pinnedURL of
        None \<Rightarrow> (Inl Build_request, [])
      | Some u \<Rightarrow>
          (let req = build_request E d pinnedURL u originalAuthority ev secret;
               cl = (if sniHostname \<noteq> [] \<and> prefix ''https://'' pinnedURL
                     then httpsClientForPinnedIP (s_default_transport E) (client d) sniHostname else client d)
           in (case s_Do E attempt cl req of Inl e \<Rightarrow> Inl (Http_request e) | Inr status \<Rightarrow> Inr status, [Send cl req])))"

definition recordMetrics :: "deliverer \<Rightarrow> string \<Rightarrow> bool \<Rightarrow> int \<Rightarrow> int \<Rightarrow> action list" where
  "recordMetrics d endpointID success statusCode attempts =
     (if metrics d then [RecordDelivery endpointID success statusCode attempts] else [])"

text \<open>What follows the loop.\<close>

definition exhausted :: "deliverer \<Rightarrow> delivery_result \<Rightarrow> delivery_result \<times> action list" where
  "exhausted d result =
     (result\<lparr>dr_Error := Some (ErrDeliveryFailed (wrap64 (maxRetries d + 1)) (dr_Error result))\<rparr>,
      recordMetrics d (dr_EndpointID result) False (dr_StatusCode result) (dr_Attempts result))"

text \<open>\<open>backoff.WaitContext\<close>: the wait, and whether the context was found ended.\<close>

definition pause_before :: "'x surroundings \<Rightarrow> nat \<Rightarrow> bool \<times> action list" where
  "pause_before E attempt =
     (if attempt = 0 then (False, [])
      else (s_ended E attempt,
        [Wait (ExponentialWithJitter (s_gen E) (s_draw E attempt) (s_seed E attempt) defaultBaseDelay (int attempt - 1))]))"

fun retry_loop ::
  "'x surroundings \<Rightarrow> deliverer \<Rightarrow> (nat \<Rightarrow> (webhook_error + int) \<times> action list) \<Rightarrow> nat \<Rightarrow> nat \<Rightarrow>
   delivery_result \<Rightarrow> delivery_result \<times> action list" where
  "retry_loop E d send attempt 0 result = exhausted d result"
| "retry_loop E d send attempt (Suc n) result0 =
     (let result = result0\<lparr>dr_Attempts := int attempt + 1\<rparr>;
          (ended, waits) = pause_before E attempt in
      if ended then (result\<lparr>dr_Error := Some Backoff_cancelled\<rparr>, waits)
      else (case send attempt of
          (Inl err, sent) \<Rightarrow>
            (let (r, later) = retry_loop E d send (Suc attempt) n (result\<lparr>dr_StatusCode := 0, dr_Error := Some err\<rparr>)
             in (r, waits @ sent @ later))
        | (Inr statusCode, sent) \<Rightarrow>
            (let result = result\<lparr>dr_StatusCode := statusCode\<rparr>;
                 recorded = (\<lambda>success. recordMetrics d (dr_EndpointID result) success statusCode (dr_Attempts result)) in
             if 200 \<le> statusCode \<and> statusCode < 300 then
               (result\<lparr>dr_Success := True\<rparr>, waits @ sent @ recorded True)
             else if 300 \<le> statusCode \<and> statusCode < 400 then
               (result\<lparr>dr_Error := Some (Redirect_status statusCode)\<rparr>, waits @ sent @ recorded False)
             else if 400 \<le> statusCode \<and> statusCode < 500 \<and> statusCode \<noteq> 429 then
               (result\<lparr>dr_Error := Some (Status_not_retryable statusCode)\<rparr>, waits @ sent @ recorded False)
             else
               (let (r, later) = retry_loop E d send (Suc attempt) n result in (r, waits @ sent @ later)))))"

definition only_endpoint :: "string \<Rightarrow> delivery_result" where
  "only_endpoint i = \<lparr>dr_EndpointID = i, dr_StatusCode = 0, dr_Success = False, dr_Error = None, dr_Attempts = 0\<rparr>"

definition deliverToEndpoint ::
  "'x surroundings \<Rightarrow> deliverer \<Rightarrow> endpoint \<Rightarrow> event \<Rightarrow> delivery_result \<times> action list" where
  "deliverToEndpoint E d ep ev =
     (let result = only_endpoint (ep_ID ep);
          ctx = (if s_ended E 0 then EndedContext else ActiveContext) in
      case resolveAndValidateWebhookTarget (s_net E) ctx (ep_URL ep) (allowPrivateNetwork d) [] of
        Inl ssrfErr \<Rightarrow> (result\<lparr>dr_Error := Some (ErrSSRFBlocked ssrfErr)\<rparr>, [])
      | Inr (pinnedURL, originalAuthority, sniHostname) \<Rightarrow>
          (case resolveSecret d (ep_Secret ep) of
             Inl secretErr \<Rightarrow> (result\<lparr>dr_Error := Some secretErr\<rparr>, [])
           | Inr secret \<Rightarrow>
               retry_loop E d (\<lambda>attempt. doHTTP E d attempt pinnedURL originalAuthority sniHostname ev secret)
                 0 (nat (wrap64 (maxRetries d + 1))) result))"

subsection \<open>All endpoints\<close>

definition filterActive :: "endpoint list \<Rightarrow> endpoint list" where
  "filterActive endpoints = filter ep_Active endpoints"

text \<open>
  The fan-out: the next endpoint is started when the semaphore has room; its slot then names the
  endpoint. A delivery that ends writes its result, one that panics is recovered and leaves the slot.
\<close>

record fan =
  fan_next :: nat
  fan_running :: "nat list"
  fan_results :: "delivery_result list"

definition fan_start :: "endpoint list \<Rightarrow> fan" where
  "fan_start eps = \<lparr>fan_next = 0, fan_running = [], fan_results = replicate (length eps) (only_endpoint [])\<rparr>"

inductive fan_step :: "int \<Rightarrow> endpoint list \<Rightarrow> (nat \<Rightarrow> delivery_result) \<Rightarrow> fan \<Rightarrow> fan \<Rightarrow> bool"
  for cap eps deliver where
  launch: "fan_next s < length eps \<Longrightarrow> int (length (fan_running s)) < cap \<Longrightarrow>
    fan_step cap eps deliver s
      (s\<lparr>fan_next := Suc (fan_next s), fan_running := fan_next s # fan_running s,
         fan_results := (fan_results s)[fan_next s := only_endpoint (ep_ID (eps ! fan_next s))]\<rparr>)"
| finish: "i \<in> set (fan_running s) \<Longrightarrow>
    fan_step cap eps deliver s
      (s\<lparr>fan_running := remove1 i (fan_running s), fan_results := (fan_results s)[i := deliver i]\<rparr>)"
| panicked: "i \<in> set (fan_running s) \<Longrightarrow>
    fan_step cap eps deliver s (s\<lparr>fan_running := remove1 i (fan_running s)\<rparr>)"

text \<open>\<open>wg.Wait()\<close> has returned.\<close>

definition fan_done :: "endpoint list \<Rightarrow> fan \<Rightarrow> bool" where
  "fan_done eps s \<longleftrightarrow> fan_next s = length eps \<and> fan_running s = []"

text \<open>
  The entry points, with what the lister answers and with the fan-out as a function of the active
  endpoints. \<open>Deliver\<close> gives the endpoints it fans out over.
\<close>

definition Deliver :: "deliverer option \<Rightarrow> event option \<Rightarrow> string + endpoint list \<Rightarrow> webhook_error + endpoint list" where
  "Deliver d ev listed =
     (if d = None then Inl ErrNilDeliverer
      else if ev = None then Inl Nil_event
      else (case listed of Inl e \<Rightarrow> Inl (List_endpoints e) | Inr endpoints \<Rightarrow> Inr (filterActive endpoints)))"

definition DeliverWithResults ::
  "(endpoint list \<Rightarrow> delivery_result list) \<Rightarrow> deliverer option \<Rightarrow> event option \<Rightarrow> string + endpoint list \<Rightarrow> delivery_result list" where
  "DeliverWithResults fanOutWithResults d ev listed =
     (if d = None \<or> ev = None then []
      else (case listed of
          Inl e \<Rightarrow> [(only_endpoint [])\<lparr>dr_Error := Some (List_endpoints e)\<rparr>]
        | Inr endpoints \<Rightarrow>
            (let active = filterActive endpoints in
             if active = [] then [] else fanOutWithResults active)))"

end
