(* ===== verification/Webhook_Laws.thy ===== *)
theory Webhook_Laws
  imports Webhook
begin

text \<open>
  What the webhook deliverer guarantees: where its requests go and what they carry, how many there
  are and what the result says of them, that a fan-out ends with the results of all endpoints, and
  what a verified signature stands for.
\<close>

subsection \<open>Deliverers\<close>

text \<open>The options the package offers, in a process with environment \<open>env\<close>.\<close>

inductive offered :: "(string \<Rightarrow> string) \<Rightarrow> environment \<Rightarrow> webhook_option \<Rightarrow> bool" for uni env where
  "offered uni env (WithMetrics p)"
| "offered uni env (WithMaxConcurrency n)"
| "offered uni env (WithMaxRetries n)"
| "offered uni env (WithHTTPClient c)"
| "offered uni env (WithSecretDecryptor f)"
| "offered uni env (WithSignatureVersion v)"
| "offered uni env (Webhook.WithAllowPrivateNetwork uni env)"

definition built_with :: "(string \<Rightarrow> string) \<Rightarrow> environment \<Rightarrow> deliverer \<Rightarrow> bool" where
  "built_with uni env d \<longleftrightarrow>
     (\<exists>opts. NewDeliverer True opts = Some d \<and> (\<forall>f. Some f \<in> set opts \<longrightarrow> offered uni env f))"

definition deliverer_ok :: "(string \<Rightarrow> string) \<Rightarrow> environment \<Rightarrow> deliverer \<Rightarrow> bool" where
  "deliverer_ok uni env d \<longleftrightarrow>
     CheckRedirect (client d) = UseLastResponse \<and> 0 < maxConc d \<and> 0 < maxRetries d \<and>
     (allowPrivateNetwork d \<longrightarrow> AllowWebhookPrivateNet uni env)"

lemma offered_ok: "offered uni env f \<Longrightarrow> deliverer_ok uni env d \<Longrightarrow> deliverer_ok uni env (f d)"
  by (erule offered.cases)
    (auto simp: deliverer_ok_def WithMetrics_def WithMaxConcurrency_def WithMaxRetries_def WithHTTPClient_def
      WithSecretDecryptor_def WithSignatureVersion_def Webhook.WithAllowPrivateNetwork_def split: option.split)

lemma built_ok:
  assumes "built_with uni env d"
  shows "deliverer_ok uni env d"
proof -
  let ?start = "\<lparr>client = defaultHTTPClient, decryptor = None, maxConc = defaultMaxConcurrency,
         maxRetries = defaultMaxRetries, sigVersion = SignatureV0, allowPrivateNetwork = False, metrics = False\<rparr>"
  have "deliverer_ok uni env (foldl (\<lambda>d opt. case opt of None \<Rightarrow> d | Some f \<Rightarrow> f d) d0 opts)"
    if "deliverer_ok uni env d0" and "\<forall>f. Some f \<in> set opts \<longrightarrow> offered uni env f" for d0 opts
    using that
  proof (induction opts arbitrary: d0)
    case (Cons opt opts)
    have "deliverer_ok uni env (case opt of None \<Rightarrow> d0 | Some f \<Rightarrow> f d0)"
      using Cons.prems offered_ok by (cases opt) auto
    then show ?case using Cons.IH Cons.prems(2) by simp
  qed simp
  moreover have "deliverer_ok uni env ?start"
    by (simp add: deliverer_ok_def defaultHTTPClient_def defaultMaxConcurrency_def defaultMaxRetries_def)
  ultimately show ?thesis using assms by (auto simp: built_with_def NewDeliverer_def)
qed

subsection \<open>The requests of a delivery\<close>

lemma httpsClient_redirects [simp]: "CheckRedirect (httpsClientForPinnedIP dt c h) = CheckRedirect c"
  by (simp add: httpsClientForPinnedIP_def Let_def split: transport.split)

lemma httpsClient_server:
  assumes "Transport c = Standard t"
  shows "\<exists>t. Transport (httpsClientForPinnedIP dt c h) = Standard (Some t) \<and> ServerName t = h \<and> VersionTLS12 \<le> MinVersion t"
  using assms by (auto simp: httpsClientForPinnedIP_def Let_def split: option.split)

text \<open>The only requests among the actions of the loop are those of its attempts.\<close>

lemma pause_no_Send: "Send cl rq \<notin> set (snd (pause_before E k))"
  by (simp add: pause_before_def)

lemma record_no_Send: "Send cl rq \<notin> set (recordMetrics d i s c k)"
  by (simp add: recordMetrics_def)

lemma retry_loop_sends:
  assumes "Send cl rq \<in> set (snd (retry_loop E d send k n r))"
  shows "\<exists>j. Send cl rq \<in> set (snd (send j))"
  using assms
proof (induction n arbitrary: k r)
  case 0
  then show ?case by (simp add: exhausted_def record_no_Send)
next
  case (Suc n)
  obtain out sent where s: "send k = (out, sent)" by (cases "send k")
  obtain ended waits where p: "pause_before E k = (ended, waits)" by (cases "pause_before E k")
  have w: "Send cl rq \<notin> set waits" using pause_no_Send [of cl rq E k] p by simp
  have ih: "\<exists>j. Send cl rq \<in> set (snd (send j))"
    if "retry_loop E d send (Suc k) n r' = (x, acts)" and "Send cl rq \<in> set acts" for r' x acts
    using Suc.IH [of "Suc k" r'] that by simp
  show ?case
    using Suc.prems s p w
    by (cases out) (auto simp: Let_def record_no_Send split: if_splits prod.splits intro: exI [of _ k] ih)
qed

definition trace_only :: "(string \<times> string) list \<Rightarrow> bool" where
  "trace_only hs \<longleftrightarrow> fst ` set hs \<subseteq> {''Traceparent'', ''Tracestate''}"

lemma trace_keeps:
  "trace_only hs \<Longrightarrow> k \<notin> {''Traceparent'', ''Tracestate''} \<Longrightarrow> foldl (\<lambda>h (k, v). h(k \<mapsto> v)) h hs k = h k"
  by (induction hs arbitrary: h) (auto simp: trace_only_def)

lemma computeSignature_verifies: "VerifySignature hmac p t k (computeSignature hmac v p t k) = Inr ()"
  by (simp add: VerifySignature_eq_Inr computeSignature_def)

lemma Host_nonempty: "Hostname u \<noteq> [] \<Longrightarrow> Host u \<noteq> []"
  by (auto simp: Hostname_def splitHostPort_def Let_def)

lemma buildConfig_simps [simp]:
  "buildConfig [] = \<lparr>httpsOnly = False, allowPrivate = False, lookupFunc = None, allowedHostnames = []\<rparr>"
  "buildConfig [Ssrf_Validate.WithAllowPrivateNetwork] = \<lparr>httpsOnly = False, allowPrivate = True, lookupFunc = None, allowedHostnames = []\<rparr>"
  by (simp_all add: buildConfig_def Ssrf_Validate.WithAllowPrivateNetwork_def)

text \<open>
  \<open>pinned_to net raw host ip url\<close>: the name in the URL given resolved to addresses of which \<open>ip\<close> is
  one, and \<open>url\<close> is that URL with its host replaced by \<open>ip\<close>, the port and the rest kept.
\<close>

definition pinned_to :: "'x net \<Rightarrow> 'x url \<Rightarrow> string list \<Rightarrow> string \<Rightarrow> string \<Rightarrow> bool" where
  "pinned_to net u ips ip url \<longleftrightarrow>
     LookupHost net (Hostname u) = Inr ips \<and> ip \<in> set ips \<and>
     (\<exists>v. url = url_String net v \<and> Hostname v = ip \<and> Port v = Port u \<and> Scheme v = Scheme u \<and> other_parts v = other_parts u)"

lemma target_pinned:
  assumes "resolveAndValidateWebhookTarget net ctx raw allow [] = Inr (url, auth, sni)"
  shows "\<exists>u ips ip a. url_Parse net raw = Some u \<and> pinned_to net u ips ip url \<and> ParseAddr ip = Some a \<and>
    auth = Host u \<and> sni = Hostname u \<and> Hostname u \<noteq> [] \<and>
    \<not> isBlockedHostnameWithConfig (unicode_lower net) (Hostname u) (buildConfig []) \<and>
    (allow \<and> isPrivateNetworkIPLiteral net raw \<or> (\<forall>s \<in> set ips. \<forall>b. ParseAddr s = Some b \<longrightarrow> \<not> IsBlockedAddr b))"
proof -
  obtain opts r where o: "opts = [] \<or> opts = [Ssrf_Validate.WithAllowPrivateNetwork] \<and> allow \<and> isPrivateNetworkIPLiteral net raw"
    and r: "ResolveAndValidate net ctx raw opts = Inr r" "url = PinnedURL r" "auth = Authority r" "sni = SNIHostname r"
    using assms
    by (auto simp: resolveAndValidateWebhookTarget_def resolveAndValidateIP_def split: if_splits sum.splits)
  obtain u ips ip where u: "url_Parse net raw = Some u" "Hostname u \<noteq> []"
      "\<not> isBlockedHostnameWithConfig (unicode_lower net) (Hostname u) (buildConfig opts)"
      "lookupHost net (Hostname u) (buildConfig opts) = Inr ips"
      "fold_res (check_ip (buildConfig opts)) [] ips = Inr ip" "ip \<noteq> []"
      "r = \<lparr>PinnedURL = url_String net (u\<lparr>Host := pinned_host ip (Port u)\<rparr>), Authority = Host u, SNIHostname = Hostname u\<rparr>"
    using r(1) unfolding ResolveAndValidate_eq_Inr by blast
  have f: "(case filter (\<lambda>s. ParseAddr s \<noteq> None) ips of s # _ \<Rightarrow> s | [] \<Rightarrow> []) = ip"
    and safe: "allowPrivate (buildConfig opts) \<or> (\<forall>s \<in> set ips. \<forall>b. ParseAddr s = Some b \<longrightarrow> \<not> IsBlockedAddr b)"
    using u(5) unfolding check_ips_eq_Inr by auto
  obtain a where a: "ip \<in> set ips" "ParseAddr ip = Some a" using first_parsed [OF f u(6)] by blast
  have "pinned_to net u ips ip url"
    using o u(4,7) r(2) a pinned_Hostname [OF a(2), of u]
    unfolding pinned_to_def
    by (auto simp: lookupHost_def intro!: exI [of _ "u\<lparr>Host := pinned_host ip (Port u)\<rparr>"])
  moreover have "\<not> isBlockedHostnameWithConfig (unicode_lower net) (Hostname u) (buildConfig [])"
  proof -
    have "allowedHostnames (buildConfig opts) = allowedHostnames (buildConfig [])" using o by auto
    then have "isBlockedHostnameWithConfig (unicode_lower net) (Hostname u) (buildConfig opts) =
        isBlockedHostnameWithConfig (unicode_lower net) (Hostname u) (buildConfig [])"
      unfolding isBlockedHostnameWithConfig_def by simp
    then show ?thesis using u(3) by simp
  qed
  ultimately show ?thesis
    using u a o safe r by (intro exI [of _ u] exI [of _ ips] exI [of _ ip] exI [of _ a]) auto
qed

text \<open>
  C16. Whatever options a deliverer is built with, every request it ever sends goes to the address
  its endpoint's URL was pinned to, under a name that is not blocked and with every address of that
  name public, or else to an address literal of a private network where the environment permits
  that; it follows no redirect, keeps the original authority as its host and over TLS the original
  name for the certificate, carries the payload, and if the endpoint has a secret a signature that
  the receiver's verification accepts.\<close>

theorem webhook_requests_guarded:
  assumes "built_with uni env d" and "trace_only (s_trace E)"
    and "Send cl rq \<in> set (snd (deliverToEndpoint E d ep ev))"
  shows "\<exists>u ips ip a secret.
    url_Parse (s_net E) (ep_URL ep) = Some u \<and> pinned_to (s_net E) u ips ip (rq_URL rq) \<and> ParseAddr ip = Some a \<and>
    \<not> isBlockedHostnameWithConfig (unicode_lower (s_net E)) (Hostname u) (buildConfig []) \<and>
    (AllowWebhookPrivateNet uni env \<and> isPrivateNetworkIPLiteral (s_net E) (ep_URL ep) \<or>
      (\<forall>s \<in> set ips. \<forall>b. ParseAddr s = Some b \<longrightarrow> \<not> IsBlockedAddr b)) \<and>
    CheckRedirect cl = UseLastResponse \<and> rq_Host rq = Host u \<and> rq_Body rq = ev_Payload ev \<and>
    (prefix ''https://'' (rq_URL rq) \<longrightarrow> (\<forall>t. Transport (client d) = Standard t \<longrightarrow>
      (\<exists>t'. Transport cl = Standard (Some t') \<and> ServerName t' = Hostname u \<and> VersionTLS12 \<le> MinVersion t'))) \<and>
    resolveSecret d (ep_Secret ep) = Inr secret \<and>
    (secret \<noteq> [] \<longrightarrow> (\<exists>sig. rq_Header rq ''X-Webhook-Signature'' = Some sig \<and>
      VerifySignature (s_hmac E) (rq_Body rq) (ev_Timestamp ev) secret sig = Inr ()))"
proof -
  have ok: "deliverer_ok uni env d" by (rule built_ok [OF assms(1)])
  obtain url auth sni secret j ctx where
      t: "resolveAndValidateWebhookTarget (s_net E) ctx (ep_URL ep) (allowPrivateNetwork d) [] = Inr (url, auth, sni)"
    and s: "resolveSecret d (ep_Secret ep) = Inr secret"
    and j: "Send cl rq \<in> set (snd (doHTTP E d j url auth sni ev secret))"
    using assms(3) by (auto simp: deliverToEndpoint_def Let_def split: sum.splits prod.splits dest!: retry_loop_sends)
  obtain u ips ip a where u: "url_Parse (s_net E) (ep_URL ep) = Some u" "pinned_to (s_net E) u ips ip url"
      "ParseAddr ip = Some a" "auth = Host u" "sni = Hostname u" "Hostname u \<noteq> []"
      "\<not> isBlockedHostnameWithConfig (unicode_lower (s_net E)) (Hostname u) (buildConfig [])"
      "allowPrivateNetwork d \<and> isPrivateNetworkIPLiteral (s_net E) (ep_URL ep) \<or>
        (\<forall>s \<in> set ips. \<forall>b. ParseAddr s = Some b \<longrightarrow> \<not> IsBlockedAddr b)"
    using target_pinned [OF t] by blast
  obtain w where w: "rq = build_request E d url w auth ev secret"
    and cl: "cl = (if sni \<noteq> [] \<and> prefix ''https://'' url
      then httpsClientForPinnedIP (s_default_transport E) (client d) sni else client d)"
    using j by (auto simp: doHTTP_def Let_def split: option.splits)
  have sig: "rq_Header rq ''X-Webhook-Signature'' =
      Some (computeSignature (s_hmac E) (sigVersion d) (ev_Payload ev) (ev_Timestamp ev) secret)" if "secret \<noteq> []"
    using that trace_keeps [OF assms(2)] by (simp add: w build_request_def Let_def)
  have "rq_URL rq = url" "rq_Host rq = Host u" "rq_Body rq = ev_Payload ev"
    using Host_nonempty [OF u(6)] by (simp_all add: w build_request_def Let_def u(4))
  moreover have "CheckRedirect cl = UseLastResponse" using ok by (auto simp: cl deliverer_ok_def)
  moreover have "AllowWebhookPrivateNet uni env \<or> \<not> allowPrivateNetwork d" using ok by (auto simp: deliverer_ok_def)
  moreover have "\<exists>t'. Transport cl = Standard (Some t') \<and> ServerName t' = Hostname u \<and> VersionTLS12 \<le> MinVersion t'"
    if "prefix ''https://'' url" and "Transport (client d) = Standard t" for t
    using httpsClient_server [OF that(2)] that(1) u(5,6) by (simp add: cl)
  ultimately show ?thesis
    using u s sig computeSignature_verifies
    by (intro exI [of _ u] exI [of _ ips] exI [of _ ip] exI [of _ a] exI [of _ secret]) auto
qed

subsection \<open>The result of a delivery\<close>

text \<open>An answer that ends the loop, and what an attempt that does not leaves in the result.\<close>

fun settles :: "webhook_error + int \<Rightarrow> bool" where
  "settles (Inl e) = False"
| "settles (Inr s) = (200 \<le> s \<and> s < 500 \<and> s \<noteq> 429)"

fun code_of :: "webhook_error + int \<Rightarrow> int" where
  "code_of (Inl e) = 0"
| "code_of (Inr s) = s"

definition absorb :: "delivery_result \<Rightarrow> webhook_error + int \<Rightarrow> delivery_result" where
  "absorb r out = r\<lparr>dr_Attempts := dr_Attempts r + 1, dr_StatusCode := code_of out,
     dr_Error := (case out of Inl e \<Rightarrow> Some e | Inr _ \<Rightarrow> dr_Error r)\<rparr>"

definition settled :: "delivery_result \<Rightarrow> int \<Rightarrow> delivery_result" where
  "settled r s = r\<lparr>dr_Attempts := dr_Attempts r + 1, dr_StatusCode := s,
     dr_Success := dr_Success r \<or> s < 300,
     dr_Error := (if s < 300 then dr_Error r else if s < 400 then Some (Redirect_status s) else Some (Status_not_retryable s))\<rparr>"

definition wait_before :: "'x surroundings \<Rightarrow> nat \<Rightarrow> action" where
  "wait_before E j = Wait (ExponentialWithJitter (s_gen E) (s_draw E j) (s_seed E j) defaultBaseDelay (int j - 1))"

definition waits_before :: "'x surroundings \<Rightarrow> nat \<Rightarrow> action list" where
  "waits_before E k = (if k = 0 then [] else [wait_before E k])"

lemma pause_before_running: "\<not> s_ended E k \<Longrightarrow> pause_before E k = (False, waits_before E k)"
  by (simp add: pause_before_def waits_before_def wait_before_def)

text \<open>One round of the loop, by what the attempt gave.\<close>

lemma retry_loop_settled:
  assumes "\<not> s_ended E k" and "dr_Attempts r = int k" and "send k = (out, sent)" and "settles out"
  shows "\<exists>ok. retry_loop E d send k (Suc n) r =
    (settled r (code_of out), waits_before E k @ sent @ recordMetrics d (dr_EndpointID r) ok (code_of out) (int k + 1))"
  using assms by (cases out) (auto simp: pause_before_running settled_def)

lemma retry_loop_unsettled:
  assumes "\<not> s_ended E k" and "dr_Attempts r = int k" and "send k = (out, sent)" and "\<not> settles out"
  shows "retry_loop E d send k (Suc n) r =
    (fst (retry_loop E d send (Suc k) n (absorb r out)),
     waits_before E k @ sent @ snd (retry_loop E d send (Suc k) n (absorb r out)))"
proof (cases out)
  case (Inl e)
  then show ?thesis using assms by (simp add: pause_before_running absorb_def split_beta Let_def)
next
  case (Inr c)
  have "r\<lparr>dr_Attempts := int k + 1, dr_StatusCode := c\<rparr> = absorb r out" using assms(2) Inr by (simp add: absorb_def)
  then show ?thesis using assms Inr by (auto simp: pause_before_running split_beta Let_def)
qed

lemma attempts_absorb: "dr_Attempts r = int k \<Longrightarrow> dr_Attempts (absorb r out) = int (Suc k)"
  by (simp add: absorb_def)

lemma retry_loop_result:
  assumes "\<And>j. \<not> s_ended E j" and "dr_Attempts r = int k"
  shows "fst (retry_loop E d send k n r) =
    (let outs = map (\<lambda>j. fst (send j)) [k..<k + n]; before = takeWhile (\<lambda>out. \<not> settles out) outs in
     if length before < n then settled (foldl absorb r before) (code_of (outs ! length before))
     else fst (exhausted d (foldl absorb r outs)))"
  using assms(2)
proof (induction n arbitrary: k r)
  case (Suc n)
  obtain out sent where s: "send k = (out, sent)" by (cases "send k")
  have u: "[k..<k + Suc n] = k # [Suc k..<Suc k + n]" by (simp add: upt_conv_Cons)
  show ?case
  proof (cases "settles out")
    case True
    then show ?thesis
      using retry_loop_settled [where d = d and n = n and send = send and k = k, OF assms(1) Suc.prems s True] unfolding u by (auto simp: s)
  next
    case False
    show ?thesis
      unfolding u retry_loop_unsettled [where d = d and n = n and send = send and k = k, OF assms(1) Suc.prems s False]
      using False by (simp add: s Suc.IH [OF attempts_absorb [OF Suc.prems]] Let_def)
  qed
qed simp

lemma foldl_absorb [simp]:
  "dr_Attempts (foldl absorb r outs) = dr_Attempts r + int (length outs)"
  "dr_Success (foldl absorb r outs) = dr_Success r"
  "dr_EndpointID (foldl absorb r outs) = dr_EndpointID r"
  "outs \<noteq> [] \<Longrightarrow> dr_StatusCode (foldl absorb r outs) = code_of (last outs)"
  by (induction outs arbitrary: r) (auto simp: absorb_def)

fun is_send :: "action \<Rightarrow> bool" where
  "is_send (Send cl rq) = True"
| "is_send a = False"

fun is_wait :: "action \<Rightarrow> bool" where
  "is_wait (Wait t) = True"
| "is_wait a = False"

lemma recordMetrics_kinds [simp]:
  "filter is_send (recordMetrics d i s c k) = []" "filter is_wait (recordMetrics d i s c k) = []"
  by (simp_all add: recordMetrics_def)

lemma attempts_grow:
  assumes "\<And>j. \<not> s_ended E j" and "dr_Attempts r = int k"
  shows "int k \<le> dr_Attempts (fst (retry_loop E d send k n r))"
  using retry_loop_result [OF assms, of d send n] assms(2) by (simp add: settled_def exhausted_def Let_def)

lemma retry_loop_actions:
  assumes "\<And>j. \<not> s_ended E j" and "\<And>j. \<exists>cl rq. snd (send j) = [Send cl rq]" and "dr_Attempts r = int k"
  shows "int (length (filter is_send (snd (retry_loop E d send k n r)))) = dr_Attempts (fst (retry_loop E d send k n r)) - int k \<and>
    filter is_wait (snd (retry_loop E d send k n r)) =
      concat (map (waits_before E) [k..<nat (dr_Attempts (fst (retry_loop E d send k n r)))])"
  using assms(3)
proof (induction n arbitrary: k r)
  case 0
  then show ?case by (simp add: exhausted_def)
next
  case (Suc n)
  obtain out cl rq where s: "send k = (out, [Send cl rq])" using assms(2) [of k] by (cases "send k") auto
  have w: "filter is_send (waits_before E k) = []" "filter is_wait (waits_before E k) = waits_before E k"
    by (simp_all add: waits_before_def wait_before_def)
  show ?case
  proof (cases "settles out")
    case True
    have one: "[k..<nat (int k + 1)] = [k]" by (simp add: nat_add_distrib)
    show ?thesis
      using retry_loop_settled [where d = d and n = n and send = send and k = k, OF assms(1) Suc.prems s True] Suc.prems
      by (auto simp: w settled_def one)
  next
    case False
    let ?rest = "retry_loop E d send (Suc k) n (absorb r out)"
    have a: "dr_Attempts (absorb r out) = int (Suc k)" by (rule attempts_absorb [OF Suc.prems])
    have "int (Suc k) \<le> dr_Attempts (fst ?rest)" by (rule attempts_grow [OF assms(1) a])
    then have "[k..<nat (dr_Attempts (fst ?rest))] = k # [Suc k..<nat (dr_Attempts (fst ?rest))]"
      by (intro upt_conv_Cons) linarith
    then show ?thesis
      unfolding retry_loop_unsettled [where d = d and n = n and send = send and k = k, OF assms(1) Suc.prems s False]
      using Suc.IH [OF a] by (simp add: w)
  qed
qed

text \<open>
  C18. What a result says of a delivery whose target was accepted: between one and
  \<open>maxRetries + 1\<close> attempts were made, one request each, with the jittered exponential pause before
  each but the first; the status is that of the last attempt, zero if it got no answer; only the last
  may have been answered conclusively, with success, a redirect or a client error other than 429, and
  if it was not then all attempts are used up; success is exactly a status from 200 to 299, and a
  delivery that failed has an error.\<close>

theorem webhook_result_accounts_for_attempts:
  assumes "built_with uni env d" and "maxRetries d < max_int64" and "\<And>j. \<not> s_ended E j"
    and "resolveAndValidateWebhookTarget (s_net E) ActiveContext (ep_URL ep) (allowPrivateNetwork d) [] = Inr (url, auth, sni)"
    and "resolveSecret d (ep_Secret ep) = Inr secret" and "url_Parse (s_net E) url = Some u"
    and "deliverToEndpoint E d ep ev = (r, acts)"
  shows "\<exists>n. dr_Attempts r = int n \<and> 1 \<le> n \<and> int n \<le> maxRetries d + 1 \<and>
    length (filter is_send acts) = n \<and> filter is_wait acts = map (wait_before E) [1..<n] \<and>
    (let out = (\<lambda>j. fst (doHTTP E d j url auth sni ev secret)) in
      (\<forall>j. Suc j < n \<longrightarrow> \<not> settles (out j)) \<and> dr_StatusCode r = code_of (out (n - 1)) \<and>
      (settles (out (n - 1)) \<or>
        int n = maxRetries d + 1 \<and> (\<exists>e. dr_Error r = Some (ErrDeliveryFailed (int n) e)))) \<and>
    (dr_Success r \<longleftrightarrow> 200 \<le> dr_StatusCode r \<and> dr_StatusCode r < 300) \<and>
    (\<not> dr_Success r \<longrightarrow> dr_Error r \<noteq> None) \<and> dr_EndpointID r = ep_ID ep"
proof -
  let ?send = "\<lambda>j. doHTTP E d j url auth sni ev secret"
  let ?N = "nat (maxRetries d + 1)"
  let ?outs = "map (\<lambda>j. fst (?send j)) [0..<?N]"
  let ?before = "takeWhile (\<lambda>out. \<not> settles out) ?outs"
  let ?r0 = "only_endpoint (ep_ID ep)"
  have pos: "0 < maxRetries d" using built_ok [OF assms(1)] by (simp add: deliverer_ok_def)
  have N: "wrap64 (maxRetries d + 1) = maxRetries d + 1" "int ?N = maxRetries d + 1" "0 < ?N"
    using assms(2) pos by (auto intro: wrap64_id simp: in_int64_def min_int64_def)
  have run: "retry_loop E d ?send 0 ?N ?r0 = (r, acts)"
    using assms(3-5,7) N(1) by (simp add: deliverToEndpoint_def)
  have a0: "dr_Attempts ?r0 = int 0" by (simp add: only_endpoint_def)
  have one: "\<exists>cl rq. snd (?send j) = [Send cl rq]" for j by (simp add: doHTTP_def assms(6) Let_def)
  have res: "r = (if length ?before < ?N then settled (foldl absorb ?r0 ?before) (code_of (?outs ! length ?before))
      else fst (exhausted d (foldl absorb ?r0 ?outs)))"
    using retry_loop_result [OF assms(3) a0, of d ?send ?N] run by (simp add: Let_def)
  have acts: "int (length (filter is_send acts)) = dr_Attempts r"
      "filter is_wait acts = concat (map (waits_before E) [0..<nat (dr_Attempts r)])"
    using retry_loop_actions [where d = d and n = ?N and send = ?send, OF assms(3) one a0] run by simp_all
  have waits: "concat (map (waits_before E) [0..<n]) = map (wait_before E) [1..<n]" for n
    by (induction n) (auto simp: waits_before_def)
  have counted: "length (filter is_send acts) = n" "filter is_wait acts = map (wait_before E) [1..<n]"
    if "dr_Attempts r = int n" for n
    using acts waits [of n] that by simp_all
  have len: "length ?before \<le> ?N" using length_takeWhile_le [of "\<lambda>out. \<not> settles out" ?outs] by simp
  have early: "\<not> settles (fst (?send j))" if "j < length ?before" for j
    using that len nth_mem [OF that] takeWhile_nth [OF that] set_takeWhileD by fastforce
  show ?thesis
  proof (cases "length ?before < ?N")
    case True
    let ?n = "Suc (length ?before)"
    have s: "settles (fst (?send (length ?before)))"
      using nth_length_takeWhile [of "\<lambda>out. \<not> settles out" ?outs] True by simp
    then have c: "200 \<le> code_of (fst (?send (length ?before)))" by (cases "fst (?send (length ?before))") auto
    have r: "r = settled (foldl absorb ?r0 ?before) (code_of (fst (?send (length ?before))))" using res True by simp
    then have att: "dr_Attempts r = int ?n" by (simp add: settled_def only_endpoint_def)
    have "int ?n \<le> maxRetries d + 1" using True N(2) by linarith
    moreover have "\<forall>j. Suc j < ?n \<longrightarrow> \<not> settles (fst (?send j))" using early by simp
    moreover have "dr_StatusCode r = code_of (fst (?send (length ?before)))" by (simp add: r settled_def)
    moreover have "dr_Success r \<longleftrightarrow> dr_StatusCode r < 300" "\<not> dr_Success r \<longrightarrow> dr_Error r \<noteq> None" "dr_EndpointID r = ep_ID ep"
      by (simp_all add: r settled_def only_endpoint_def)
    ultimately show ?thesis
      using att counted [OF att] s c by (intro exI [of _ ?n]) (simp add: Let_def del: upt_Suc)
  next
    case False
    then have all: "length ?before = ?N" using len by simp
    have ne: "?outs \<noteq> []" using N(3) by simp
    have r: "r = fst (exhausted d (foldl absorb ?r0 ?outs))" using res False by simp
    then have att: "dr_Attempts r = int ?N" by (simp add: exhausted_def only_endpoint_def)
    have last: "last ?outs = fst (?send (?N - 1))" using ne N(3) by (simp add: last_conv_nth)
    have "\<not> settles (fst (?send (?N - 1)))" using early [of "?N - 1"] all N(3) by simp
    then have bad: "\<not> (200 \<le> code_of (fst (?send (?N - 1))) \<and> code_of (fst (?send (?N - 1))) < 300)"
      by (cases "fst (?send (?N - 1))") auto
    have "\<forall>j. Suc j < ?N \<longrightarrow> \<not> settles (fst (?send j))" using early all by simp
    moreover have "dr_StatusCode r = code_of (fst (?send (?N - 1)))" using last ne by (simp add: r exhausted_def)
    moreover have "\<exists>e. dr_Error r = Some (ErrDeliveryFailed (int ?N) e)" using N by (simp add: r exhausted_def)
    moreover have "\<not> dr_Success r" "dr_EndpointID r = ep_ID ep" by (simp_all add: r exhausted_def only_endpoint_def)
    ultimately show ?thesis
      using att counted [OF att] N bad by (intro exI [of _ ?N]) (auto simp: Let_def)
  qed
qed

subsection \<open>Two corners\<close>

text \<open>A success that follows a transport error still carries that error.\<close>

lemma success_reports_earlier_error:
  assumes "\<And>j. \<not> s_ended E j" and "send 0 = (Inl e, sent)" and "fst (send 1) = Inr 200"
  shows "dr_Success (fst (retry_loop E d send 0 (Suc (Suc n)) (only_endpoint i)))"
    and "dr_Error (fst (retry_loop E d send 0 (Suc (Suc n)) (only_endpoint i))) = Some e"
proof -
  have a: "dr_Attempts (only_endpoint i) = int 0" by (simp add: only_endpoint_def)
  have u: "[0..<0 + Suc (Suc n)] = 0 # 1 # [2..<Suc (Suc n)]" by (simp add: upt_conv_Cons numeral_2_eq_2)
  have "fst (retry_loop E d send 0 (Suc (Suc n)) (only_endpoint i)) = settled (absorb (only_endpoint i) (Inl e)) 200"
    unfolding retry_loop_result [OF assms(1) a] u using assms(2,3) by simp
  then show "dr_Success (fst (retry_loop E d send 0 (Suc (Suc n)) (only_endpoint i)))"
    and "dr_Error (fst (retry_loop E d send 0 (Suc (Suc n)) (only_endpoint i))) = Some e"
    by (simp_all add: settled_def absorb_def)
qed

text \<open>With the largest number of retries \<open>maxRetries + 1\<close> is negative, and nothing is sent at all.\<close>

lemma most_retries_send_nothing:
  assumes "maxRetries d = max_int64"
  shows "filter is_send (snd (deliverToEndpoint E d ep ev)) = []" and "\<not> dr_Success (fst (deliverToEndpoint E d ep ev))"
proof -
  have "nat (wrap64 (maxRetries d + 1)) = 0" by (simp add: assms wrap64_def max_int64_def)
  then show "filter is_send (snd (deliverToEndpoint E d ep ev)) = []" and "\<not> dr_Success (fst (deliverToEndpoint E d ep ev))"
    by (simp_all add: deliverToEndpoint_def Let_def exhausted_def only_endpoint_def split: sum.split prod.split)
qed

subsection \<open>The fan-out\<close>

definition fan_ok :: "int \<Rightarrow> endpoint list \<Rightarrow> (nat \<Rightarrow> delivery_result) \<Rightarrow> fan \<Rightarrow> bool" where
  "fan_ok cap eps deliver s \<longleftrightarrow>
     fan_next s \<le> length eps \<and> length (fan_results s) = length eps \<and> int (length (fan_running s)) \<le> cap \<and>
     set (fan_running s) \<subseteq> {..<fan_next s} \<and>
     (\<forall>i < fan_next s. fan_results s ! i \<in> {deliver i, only_endpoint (ep_ID (eps ! i))})"

lemma fan_start_ok: "0 < cap \<Longrightarrow> fan_ok cap eps deliver (fan_start eps)"
  by (simp add: fan_ok_def fan_start_def)

lemma fan_step_ok:
  assumes "fan_step cap eps deliver s s'" and "fan_ok cap eps deliver s"
  shows "fan_ok cap eps deliver s'"
  using assms
proof (induction rule: fan_step.induct)
  case (launch s)
  then show ?case by (auto simp: fan_ok_def nth_list_update less_Suc_eq)
next
  case (finish i s)
  then have len: "length (remove1 i (fan_running s)) \<le> length (fan_running s)" by (simp add: length_remove1)
  have upd: "(fan_results s)[i := deliver i] ! j = (if j = i then deliver i else fan_results s ! j)" if "j < fan_next s" for j
    using finish that by (auto simp: fan_ok_def nth_list_update)
  show ?case using finish len set_remove1_subset [of i "fan_running s"] by (auto simp: fan_ok_def upd)
next
  case (panicked i s)
  then have "length (remove1 i (fan_running s)) \<le> length (fan_running s)" by (simp add: length_remove1)
  then show ?case using panicked set_remove1_subset [of i "fan_running s"] by (auto simp: fan_ok_def)
qed

definition fan_left :: "endpoint list \<Rightarrow> fan \<Rightarrow> nat" where
  "fan_left eps s = 2 * (length eps - fan_next s) + length (fan_running s)"

lemma fan_step_left: "fan_step cap eps deliver s s' \<Longrightarrow> fan_left eps s = Suc (fan_left eps s')"
  by (induction rule: fan_step.induct)
    (auto simp: fan_left_def length_remove1 Suc_diff_Suc intro!: Suc_pred [symmetric] length_pos_if_in_set)

lemma fan_steps:
  assumes "(fan_step cap eps deliver ^^ m) (fan_start eps) s" and "0 < cap"
  shows "fan_ok cap eps deliver s" and "fan_left eps s + m = 2 * length eps"
proof -
  have "fan_ok cap eps deliver s \<and> fan_left eps s + m = 2 * length eps"
    using assms(1)
  proof (induction m arbitrary: s)
    case 0
    then show ?case using fan_start_ok [OF assms(2)] by (auto simp: fan_left_def fan_start_def)
  next
    case (Suc m)
    then obtain t where "(fan_step cap eps deliver ^^ m) (fan_start eps) t" "fan_step cap eps deliver t s" by auto
    then show ?case using Suc.IH [of t] fan_step_ok fan_step_left by fastforce
  qed
  then show "fan_ok cap eps deliver s" and "fan_left eps s + m = 2 * length eps" by simp_all
qed

lemma fan_not_stuck:
  assumes "0 < cap" and "\<not> fan_done eps s" and "fan_ok cap eps deliver s"
  shows "\<exists>s'. fan_step cap eps deliver s s'"
proof (cases "fan_running s")
  case Nil
  then show ?thesis using assms fan_step.launch [of s eps cap deliver] by (auto simp: fan_done_def fan_ok_def)
next
  case (Cons i rest)
  then show ?thesis using fan_step.finish [of i s cap eps deliver] by auto
qed

text \<open>
  A fan-out always ends, after exactly one start and one end for each endpoint: as long as it is
  not done some step is possible, and no run has more than two steps for each endpoint. On the way no
  more deliveries run at once than the configured number, and in the end there is one result for each
  endpoint, in their order: what its delivery returned or, if that panicked, a bare record of the
  endpoint.\<close>

theorem fan_out_completes:
  assumes "built_with uni env d" and "(fan_step (maxConc d) eps deliver ^^ m) (fan_start eps) s"
  shows "m \<le> 2 * length eps \<and> int (length (fan_running s)) \<le> maxConc d \<and>
    (fan_done eps s \<longleftrightarrow> m = 2 * length eps) \<and>
    ((\<exists>s'. fan_step (maxConc d) eps deliver s s') \<longleftrightarrow> \<not> fan_done eps s) \<and>
    (fan_done eps s \<longrightarrow> length (fan_results s) = length eps \<and>
      (\<forall>i < length eps. fan_results s ! i \<in> {deliver i, only_endpoint (ep_ID (eps ! i))}))"
proof -
  have cap: "0 < maxConc d" using built_ok [OF assms(1)] by (simp add: deliverer_ok_def)
  note ok = fan_steps [OF assms(2) cap]
  have fin: "fan_done eps s \<longleftrightarrow> fan_left eps s = 0"
    using ok(1) by (auto simp: fan_done_def fan_left_def fan_ok_def)
  then have "\<not> (\<exists>s'. fan_step (maxConc d) eps deliver s s')" if "fan_done eps s" using that fan_step_left by fastforce
  moreover have "\<exists>s'. fan_step (maxConc d) eps deliver s s'" if "\<not> fan_done eps s"
    by (rule fan_not_stuck [OF cap that ok(1)])
  ultimately show ?thesis using fin ok by (auto simp: fan_ok_def fan_done_def)
qed

subsection \<open>Signatures\<close>

text \<open>
  C28. What a receiver concludes from a signature, unless HMAC-SHA256 collides on the messages at
  hand: one made for a payload, a time and a secret in the second format is accepted for exactly that
  payload, time and secret, and by the check of freshness exactly while the clock is within the
  tolerance of that time, before or after; an old one is refused as such and anything else as a
  mismatch. A signature in the first format never passes where the second is required.\<close>

theorem webhook_signature_verdicts:
  assumes "hmac secret (v1_message payload timestamp) = hmac secret' (v1_message payload' timestamp') \<Longrightarrow>
      secret = secret' \<and> v1_message payload timestamp = v1_message payload' timestamp'"
    and "0 \<le> tolerance" and "tolerance < max_int64"
  shows "verifySignatureV1WithFreshnessAt hmac payload' timestamp' secret'
      (computeSignature hmac SignatureV1 payload timestamp secret) tolerance now =
    (if (payload', timestamp', secret') \<noteq> (payload, timestamp, secret) then Inl V1_mismatch
     else if \<bar>now - time_Unix timestamp\<bar> \<le> tolerance then Inr () else Inl Outside_tolerance) \<and>
   verifySignatureWithFreshnessAt hmac payload' timestamp' secret'
      (computeSignature hmac SignatureV1 payload timestamp secret) tolerance now =
    verifySignatureV1WithFreshnessAt hmac payload' timestamp' secret'
      (computeSignature hmac SignatureV1 payload timestamp secret) tolerance now \<and>
   VerifySignature hmac payload timestamp secret (computeSignature hmac version payload timestamp secret) = Inr () \<and>
   VerifySignatureV1 hmac payload' timestamp' secret' (computeSignature hmac SignatureV0 payload timestamp secret) = Inl V1_required"
proof -
  let ?sig = "computeHMACv1 hmac payload timestamp secret"
  have v1: "computeSignature hmac SignatureV1 payload timestamp secret = ?sig" by (simp add: computeSignature_def)
  have p: "prefix ''v1,'' ?sig" by (simp add: computeHMACv1_def)
  have same: "?sig = computeHMACv1 hmac payload' timestamp' secret' \<longleftrightarrow> (payload', timestamp', secret') = (payload, timestamp, secret)"
    using assms(1) by (auto simp: computeHMACv1_def hex_inject v1_message_inject)
  have ver: "VerifySignature hmac payload' timestamp' secret' ?sig =
      (if (payload', timestamp', secret') = (payload, timestamp, secret) then Inr () else Inl V1_mismatch)"
    unfolding VerifySignature_def using p same by (simp add: refuse_def)
  have fresh: "refuse (Duration_Abs (time_Sub now (time_Unix t)) > tolerance) Outside_tolerance =
      (if \<bar>now - time_Unix t\<bar> \<le> tolerance then Inr () else Inl Outside_tolerance)" for t
    using delta_le [OF assms(2,3), of now "time_Unix t"] by (auto simp: refuse_def)
  have "verifySignatureV1WithFreshnessAt hmac payload' timestamp' secret' ?sig tolerance now =
      (if (payload', timestamp', secret') \<noteq> (payload, timestamp, secret) then Inl V1_mismatch
       else if \<bar>now - time_Unix timestamp\<bar> \<le> tolerance then Inr () else Inl Outside_tolerance)"
    by (simp add: verifySignatureV1WithFreshnessAt_def VerifySignatureV1_def p ver fresh bind_res_def)
  moreover have "verifySignatureWithFreshnessAt hmac payload' timestamp' secret' ?sig tolerance now =
      verifySignatureV1WithFreshnessAt hmac payload' timestamp' secret' ?sig tolerance now"
    by (simp add: verifySignatureV1WithFreshnessAt_def verifySignatureWithFreshnessAt_def VerifySignatureV1_def p)
  moreover have "VerifySignatureV1 hmac payload' timestamp' secret' (computeSignature hmac SignatureV0 payload timestamp secret) = Inl V1_required"
    by (simp add: VerifySignatureV1_def computeSignature_def SignatureV0_def SignatureV1_def)
  ultimately show ?thesis unfolding v1 using computeSignature_verifies by simp
qed

subsection \<open>A delivery\<close>

definition hook_net :: "string net" where
  "hook_net = sample_net\<lparr>url_Parse := (\<lambda>raw.
     if raw = ''https://93.184.216.34:8443/in''
     then Some \<lparr>Scheme = ''https'', Host = ''93.184.216.34:8443'', other_parts = ''/in''\<rparr> else url_Parse sample_net raw)\<rparr>"

definition hook_world :: "string surroundings" where
  "hook_world = \<lparr>s_net = hook_net, s_hmac = (\<lambda>k m. k @ m), s_default_transport = Standard None, s_trace = [],
     s_ended = (\<lambda>_. False), s_Do = (\<lambda>n _ _. if n = 0 then Inl ''timeout'' else Inr 204),
     s_gen = (\<lambda>_ _. 0), s_draw = (\<lambda>_ _. Some 0), s_seed = (\<lambda>_. None)\<rparr>"

definition hook_endpoint :: endpoint where
  "hook_endpoint = \<lparr>ep_ID = ''e1'', ep_URL = ''HTTPS://hooks.example.com:8443/in'', ep_Secret = ''s3'', ep_Active = True\<rparr>"

definition hook_event :: event where
  "hook_event = \<lparr>ev_Type = ''paid'', ev_Payload = ''{}'', ev_Timestamp = 1700000000\<rparr>"

definition plain :: deliverer where
  "plain = \<lparr>client = defaultHTTPClient, decryptor = None, maxConc = defaultMaxConcurrency,
     maxRetries = defaultMaxRetries, sigVersion = SignatureV0, allowPrivateNetwork = False, metrics = False\<rparr>"

lemma plain_built: "built_with (\<lambda>s. s) Map.empty plain"
  by (auto simp: built_with_def NewDeliverer_def plain_def intro!: exI [of _ "[]"])

lemma hook_target:
  "resolveAndValidateWebhookTarget hook_net ActiveContext (ep_URL hook_endpoint) False [] =
     Inr (''https://93.184.216.34:8443/in'', ''hooks.example.com:8443'', ''hooks.example.com'')"
proof -
  have "splitHostPort ''hooks.example.com:8443'' = (''hooks.example.com'', ''8443'')"
    using splitHostPort_port [of "''8443''" "''hooks.example.com''"] by (simp add: is_digit_def)
  moreover have "fold_res (check_ip cfg) [] [''bad'', ''93.184.216.34''] = Inr ''93.184.216.34''" for cfg
    using public_sample by (simp add: check_ip_def parsed_samples)
  moreover have "\<not> isBlockedHostnameWithConfig (\<lambda>s. s) ''hooks.example.com'' (buildConfig [])"
    by (simp add: isBlockedHostnameWithConfig_def normalizeHostname_def ToLower_def is_ascii_def lower_char_def
      TrimRight_def blockedHostnames_def blockedSuffixes_def suffix_def)
  ultimately have "ResolveAndValidate hook_net ActiveContext (ep_URL hook_endpoint) [] =
     Inr \<lparr>PinnedURL = ''https://93.184.216.34:8443/in'', Authority = ''hooks.example.com:8443'', SNIHostname = ''hooks.example.com''\<rparr>"
    by (simp add: ResolveAndValidate_eq_Inr hook_net_def hook_endpoint_def sample_net_def Hostname_def Port_def
      validateScheme_def ToLower_def is_ascii_def lower_char_def lookupHost_def pinned_host_def JoinHostPort_def)
  then show ?thesis by (simp add: resolveAndValidateWebhookTarget_def resolveAndValidateIP_def)
qed

lemma hook_parsed:
  "url_Parse hook_net ''https://93.184.216.34:8443/in'' =
     Some \<lparr>Scheme = ''https'', Host = ''93.184.216.34:8443'', other_parts = ''/in''\<rparr>"
  by (simp add: hook_net_def)

lemma hook_secret: "resolveSecret plain (ep_Secret hook_endpoint) = Inr ''s3''"
  by (simp add: resolveSecret_def hook_endpoint_def)

lemma hook_running: "\<not> s_ended hook_world j"
  by (simp add: hook_world_def)

lemma hook_delivery:
  "deliverToEndpoint hook_world plain hook_endpoint hook_event =
     retry_loop hook_world plain (\<lambda>j. doHTTP hook_world plain j ''https://93.184.216.34:8443/in'' ''hooks.example.com:8443''
       ''hooks.example.com'' hook_event ''s3'') 0 4 (only_endpoint ''e1'')"
proof -
  have "s_net hook_world = hook_net" "\<not> allowPrivateNetwork plain" by (simp_all add: hook_world_def plain_def)
  moreover have "nat (wrap64 (maxRetries plain + 1)) = 4" by (simp add: plain_def defaultMaxRetries_def wrap64_def)
  ultimately show ?thesis
    by (simp add: deliverToEndpoint_def hook_running hook_target hook_secret) (simp add: hook_endpoint_def)
qed

theorem webhook_requests_guarded_witness:
  "\<exists>cl rq sig. Send cl rq \<in> set (snd (deliverToEndpoint hook_world plain hook_endpoint hook_event)) \<and>
     CheckRedirect cl = UseLastResponse \<and> rq_Header rq ''X-Webhook-Signature'' = Some sig \<and>
     VerifySignature (\<lambda>k m. k @ m) (rq_Body rq) 1700000000 ''s3'' sig = Inr ()"
proof -
  let ?send = "\<lambda>j. doHTTP hook_world plain j ''https://93.184.216.34:8443/in'' ''hooks.example.com:8443''
       ''hooks.example.com'' hook_event ''s3''"
  obtain out cl rq where o: "?send 0 = (out, [Send cl rq])" "\<not> settles out"
    by (simp add: doHTTP_def hook_world_def hook_parsed Let_def)
  have a: "dr_Attempts (only_endpoint ''e1'') = int 0" by (simp add: only_endpoint_def)
  have s: "Send cl rq \<in> set (snd (deliverToEndpoint hook_world plain hook_endpoint hook_event))"
    using retry_loop_unsettled [where d = plain and n = 3 and send = ?send and k = 0, OF hook_running a o]
    unfolding hook_delivery by (simp add: eval_nat_numeral(3) [symmetric] del: retry_loop.simps)
  have "trace_only (s_trace hook_world)" by (simp add: hook_world_def trace_only_def)
  from webhook_requests_guarded [OF plain_built this s] hook_secret s show ?thesis
    by (auto simp: hook_world_def hook_event_def)
qed

theorem webhook_result_accounts_for_attempts_witness:
  "dr_Success (fst (deliverToEndpoint hook_world plain hook_endpoint hook_event)) \<and>
   dr_StatusCode (fst (deliverToEndpoint hook_world plain hook_endpoint hook_event)) = 204 \<and>
   length (filter is_send (snd (deliverToEndpoint hook_world plain hook_endpoint hook_event))) = 2"
proof -
  let ?out = "\<lambda>j. fst (doHTTP hook_world plain j ''https://93.184.216.34:8443/in'' ''hooks.example.com:8443''
       ''hooks.example.com'' hook_event ''s3'')"
  have out: "?out 0 = Inl (Http_request ''timeout'')" "0 < j \<Longrightarrow> ?out j = Inr 204" for j
    by (simp_all add: doHTTP_def hook_world_def hook_parsed Let_def)
  have net: "s_net hook_world = hook_net" by (simp add: hook_world_def)
  have target: "resolveAndValidateWebhookTarget (s_net hook_world) ActiveContext (ep_URL hook_endpoint) (allowPrivateNetwork plain) [] =
      Inr (''https://93.184.216.34:8443/in'', ''hooks.example.com:8443'', ''hooks.example.com'')"
    using hook_target by (simp add: net plain_def)
  have "maxRetries plain < max_int64" by (simp add: plain_def defaultMaxRetries_def max_int64_def)
  from webhook_result_accounts_for_attempts
    [OF plain_built this hook_running target hook_secret hook_parsed [folded net] surjective_pairing,
      where ev = hook_event]
  obtain n where n: "1 \<le> n" "int n \<le> maxRetries plain + 1"
      "length (filter is_send (snd (deliverToEndpoint hook_world plain hook_endpoint hook_event))) = n"
      "\<forall>j. Suc j < n \<longrightarrow> \<not> settles (?out j)"
      "dr_StatusCode (fst (deliverToEndpoint hook_world plain hook_endpoint hook_event)) = code_of (?out (n - 1))"
      "settles (?out (n - 1)) \<or> int n = maxRetries plain + 1"
      "dr_Success (fst (deliverToEndpoint hook_world plain hook_endpoint hook_event)) \<longleftrightarrow>
        200 \<le> code_of (?out (n - 1)) \<and> code_of (?out (n - 1)) < 300"
    by (auto simp: Let_def)
  have "n \<noteq> 1" using n(6) out(1) by (auto simp: plain_def defaultMaxRetries_def)
  moreover have "settles (?out 1)" using out(2) [of 1] by simp
  then have "\<not> 2 < n" using n(4) [rule_format, of 1] by auto
  ultimately have "n = 2" using n(1) by simp
  then show ?thesis using n out(2) [of 1] by simp
qed

theorem fan_out_completes_witness:
  "\<exists>s. (fan_step (maxConc plain) [hook_endpoint] (\<lambda>_. only_endpoint ''r'') ^^ 2) (fan_start [hook_endpoint]) s \<and>
     fan_done [hook_endpoint] s \<and> length (fan_results s) = 1"
proof -
  let ?step = "fan_step (maxConc plain) [hook_endpoint] (\<lambda>_. only_endpoint ''r'')"
  let ?s1 = "\<lparr>fan_next = 1, fan_running = [0], fan_results = [only_endpoint ''e1'']\<rparr>"
  let ?s2 = "\<lparr>fan_next = 1, fan_running = [], fan_results = [only_endpoint ''r'']\<rparr>"
  have "?step (fan_start [hook_endpoint]) ?s1"
    using fan_step.launch [of "fan_start [hook_endpoint]" "[hook_endpoint]" "maxConc plain" "\<lambda>_. only_endpoint ''r''"]
    by (simp add: fan_start_def plain_def defaultMaxConcurrency_def hook_endpoint_def)
  moreover have "?step ?s1 ?s2"
    using fan_step.finish [of 0 ?s1 "maxConc plain" "[hook_endpoint]" "\<lambda>_. only_endpoint ''r''"] by simp
  ultimately have two: "(?step ^^ 2) (fan_start [hook_endpoint]) ?s2" by (auto simp: numeral_2_eq_2)
  then show ?thesis using fan_out_completes [OF plain_built two] two by auto
qed

theorem webhook_signature_verdicts_witness:
  "verifySignatureV1WithFreshnessAt (\<lambda>k m. k @ m) ''{}'' 1700000000 ''s3''
     (computeSignature (\<lambda>k m. k @ m) SignatureV1 ''{}'' 1700000000 ''s3'') 300000000000 (time_Unix 1700000200) = Inr () \<and>
   verifySignatureV1WithFreshnessAt (\<lambda>k m. k @ m) ''[]'' 1700000000 ''s3''
     (computeSignature (\<lambda>k m. k @ m) SignatureV1 ''{}'' 1700000000 ''s3'') 300000000000 (time_Unix 1700000200) = Inl V1_mismatch"
proof -
  have "(0 :: int) \<le> 300000000000" "(300000000000 :: int) < max_int64" by (simp_all add: max_int64_def)
  moreover have "\<bar>time_Unix 1700000200 - time_Unix 1700000000\<bar> \<le> 300000000000" by (simp add: time_Unix_def wrap64_def)
  ultimately show ?thesis
    using webhook_signature_verdicts [of "\<lambda>k m. k @ m" "''s3''" "''{}''" 1700000000 "''s3''" "''{}''" 1700000000]
      webhook_signature_verdicts [of "\<lambda>k m. k @ m" "''s3''" "''{}''" 1700000000 "''s3''" "''[]''" 1700000000]
    by (simp add: v1_message_inject)
qed

end
