(* ===== verification/Ratelimit.thy ===== *)
theory Ratelimit
  imports Tenant_Keys Commons_Env Go_Text
begin

text \<open>
  \<open>commons/net/http/ratelimit\<close>: the fixed-window limiter (middleware.go, middleware_options.go,
  redis_storage.go). Of a request the limiter reads the tenant in its context, its address, headers
  and method; the rest of the chain (\<open>c.Next\<close>), the responders a caller may install and the callback
  on a refusal are opaque. Telemetry is left out.
\<close>

subsection \<open>Counters in Redis\<close>

text \<open>A key has a value and, unless it is persistent, a millisecond of expiry.\<close>

record counters =
  c_now :: int
  c_keys :: "string \<Rightarrow> (string \<times> int option) option"

definition c_live :: "counters \<Rightarrow> string \<Rightarrow> (string \<times> int option) option" where
  "c_live db k =
     (case c_keys db k of
        Some (v, Some e) \<Rightarrow> if c_now db \<le> e then Some (v, Some e) else None
      | r \<Rightarrow> r)"

text \<open>The integers Redis counts with: the canonical decimal form, within 64 bits.\<close>

definition string2ll :: "string \<Rightarrow> int option" where
  "string2ll s = (case Atoi s of Some i \<Rightarrow> if FormatInt i = s then Some i else None | None \<Rightarrow> None)"

text \<open>\<open>INCR\<close> keeps the expiry of a key, \<open>PEXPIRE\<close> sets it, \<open>PTTL\<close> gives what is left.\<close>

definition c_INCR :: "string \<Rightarrow> counters \<Rightarrow> int option \<times> counters" where
  "c_INCR k db =
     (case c_live db k of
        None \<Rightarrow> (Some 1, db\<lparr>c_keys := (c_keys db)(k \<mapsto> (''1'', None))\<rparr>)
      | Some (v, e) \<Rightarrow>
          (case string2ll v of
             None \<Rightarrow> (None, db)
           | Some n \<Rightarrow>
               if n = max_int64 then (None, db)
               else (Some (n + 1), db\<lparr>c_keys := (c_keys db)(k \<mapsto> (FormatInt (n + 1), e))\<rparr>)))"

definition c_PEXPIRE :: "string \<Rightarrow> int \<Rightarrow> counters \<Rightarrow> counters" where
  "c_PEXPIRE k px db =
     (case c_live db k of None \<Rightarrow> db | Some (v, _) \<Rightarrow> db\<lparr>c_keys := (c_keys db)(k \<mapsto> (v, Some (c_now db + px)))\<rparr>)"

definition c_PTTL :: "string \<Rightarrow> counters \<Rightarrow> int" where
  "c_PTTL k db = (case c_live db k of None \<Rightarrow> - 2 | Some (_, None) \<Rightarrow> - 1 | Some (_, Some e) \<Rightarrow> e - c_now db)"

definition luaIncrExpire :: "string \<Rightarrow> int \<Rightarrow> counters \<Rightarrow> (int \<times> int) option \<times> counters" where
  "luaIncrExpire k window_ms db =
     (case c_INCR k db of
        (None, db) \<Rightarrow> (None, db)
      | (Some count, db) \<Rightarrow>
          if count = 1 then (Some (count, window_ms), c_PEXPIRE k window_ms db)
          else
            (let pttl = c_PTTL k db in
             if pttl < 0 then (Some (count, window_ms), c_PEXPIRE k window_ms db)
             else (Some (count, pttl), db)))"

subsection \<open>The storage\<close>

definition keyPrefix :: string where "keyPrefix = ''ratelimit:''"
definition scanBatchSize :: nat where "scanBatchSize = 100"

datatype storage_error =
    ErrInvalidWindow | ErrStorageUnavailable | ErrInvalidTenantContext
  | Get_client | Redis_get | Redis_set | Redis_delete | Redis_eval | Redis_scan

datatype link = Connected | No_client | Not_answered bool

text \<open>
  \<open>Not_answered done\<close>: the call failed, before or after it was carried out. The storage is present or
  nil; \<open>ctx\<close> is the tenant context.
\<close>

definition normalizeRateLimitKey :: "string \<Rightarrow> string" where
  "normalizeRateLimitKey k = (if prefix keyPrefix k then k else keyPrefix @ k)"

definition redisFullKey :: "tenant_context \<Rightarrow> string \<Rightarrow> storage_error + string" where
  "redisFullKey ctx k =
     (let tenantID = GetTenantIDContext ctx in
      if tenantID \<noteq> [] \<and> \<not> IsValidTenantID tenantID then Inl ErrInvalidTenantContext
      else (case GetKeyContext (Some ctx) k of Inl _ \<Rightarrow> Inl ErrInvalidTenantContext | Inr p \<Rightarrow> Inr p))"

definition redisKey :: "tenant_context \<Rightarrow> string \<Rightarrow> storage_error + string" where
  "redisKey ctx k =
     (let baseKey = normalizeRateLimitKey k;
          tenantID = GetTenantIDContext ctx in
      if tenantID \<noteq> [] \<and> \<not> IsValidTenantID tenantID then Inl ErrInvalidTenantContext
      else (case GetKeyContext (Some ctx) baseKey of Inl _ \<Rightarrow> Inl ErrInvalidTenantContext | Inr p \<Rightarrow> Inr p))"

definition Milliseconds :: "int \<Rightarrow> int" where
  "Milliseconds d = (if 0 \<le> d then d div 1000000 else - (- d div 1000000))"

definition increment ::
  "link \<Rightarrow> bool \<Rightarrow> tenant_context \<Rightarrow> string \<Rightarrow> int \<Rightarrow> (tenant_context \<Rightarrow> string \<Rightarrow> storage_error + string) \<Rightarrow>
   counters \<Rightarrow> (storage_error + int \<times> int) \<times> counters" where
  "increment l storage ctx k window keyFunc db =
     (if \<not> storage then (Inl ErrStorageUnavailable, db)
      else if window \<le> 0 \<or> Milliseconds window \<le> 0 then (Inl ErrInvalidWindow, db)
      else
        (let windowMs = Milliseconds window in
         if l = No_client then (Inl Get_client, db)
         else (case keyFunc ctx k of
             Inl e \<Rightarrow> (Inl e, db)
           | Inr rk \<Rightarrow>
               (case l of
                  Not_answered carried_out \<Rightarrow>
                    (Inl Redis_eval, if carried_out then snd (luaIncrExpire rk windowMs db) else db)
                | _ \<Rightarrow>
                    (case luaIncrExpire rk windowMs db of
                       (None, db) \<Rightarrow> (Inl Redis_eval, db)
                     | (Some (count, ttlMs), db) \<Rightarrow>
                         (let ttlMs = (if ttlMs < 0 then windowMs else ttlMs) in
                          (Inr (count, wrap64 (ttlMs * 1000000)), db)))))))"

definition Increment ::
  "link \<Rightarrow> bool \<Rightarrow> tenant_context \<Rightarrow> string \<Rightarrow> int \<Rightarrow> counters \<Rightarrow> (storage_error + int \<times> int) \<times> counters" where
  "Increment l storage ctx k window db = increment l storage ctx k window redisKey db"

definition incrementFullKey ::
  "link \<Rightarrow> bool \<Rightarrow> tenant_context \<Rightarrow> string \<Rightarrow> int \<Rightarrow> counters \<Rightarrow> (storage_error + int \<times> int) \<times> counters" where
  "incrementFullKey l storage ctx k window db = increment l storage ctx k window redisFullKey db"

text \<open>
  The operations of \<open>fiber.Storage\<close>, which run without a tenant (\<open>context.Background()\<close>). \<open>SET\<close> with
  an expiry of zero makes a persistent key.
\<close>

definition Get :: "link \<Rightarrow> bool \<Rightarrow> string \<Rightarrow> counters \<Rightarrow> storage_error + string option" where
  "Get l storage k db =
     (if \<not> storage then Inl ErrStorageUnavailable
      else if l = No_client then Inl Get_client
      else (case redisKey background k of
          Inl e \<Rightarrow> Inl e
        | Inr rk \<Rightarrow> if l \<noteq> Connected then Inl Redis_get else Inr (map_option fst (c_live db rk))))"

definition SetValue :: "link \<Rightarrow> bool \<Rightarrow> string \<Rightarrow> string \<Rightarrow> int \<Rightarrow> counters \<Rightarrow> (storage_error + unit) \<times> counters" where
  "SetValue l storage k val expiry db =
     (if \<not> storage then (Inl ErrStorageUnavailable, db)
      else if k = [] \<or> val = [] then (Inr (), db)
      else if l = No_client then (Inl Get_client, db)
      else (case redisKey background k of
          Inl e \<Rightarrow> (Inl e, db)
        | Inr rk \<Rightarrow>
            (let db' = db\<lparr>c_keys := (c_keys db)(rk \<mapsto> (val, if expiry = 0 then None else Some (c_now db + Milliseconds expiry)))\<rparr> in
             case l of
               Not_answered carried_out \<Rightarrow> (Inl Redis_set, if carried_out then db' else db)
             | _ \<Rightarrow> (Inr (), db'))))"

definition Delete :: "link \<Rightarrow> bool \<Rightarrow> string \<Rightarrow> counters \<Rightarrow> (storage_error + unit) \<times> counters" where
  "Delete l storage k db =
     (if \<not> storage then (Inl ErrStorageUnavailable, db)
      else if l = No_client then (Inl Get_client, db)
      else (case redisKey background k of
          Inl e \<Rightarrow> (Inl e, db)
        | Inr rk \<Rightarrow>
            (let db' = db\<lparr>c_keys := (c_keys db)(rk := None)\<rparr> in
             case l of
               Not_answered carried_out \<Rightarrow> (Inl Redis_delete, if carried_out then db' else db)
             | _ \<Rightarrow> (Inr (), db'))))"

text \<open>\<open>strings.SplitN(key, ":", n)\<close>.\<close>

fun split_n :: "nat \<Rightarrow> string \<Rightarrow> string list" where
  "split_n 0 s = []"
| "split_n (Suc 0) s = [s]"
| "split_n (Suc (Suc n)) s =
     (let a = takeWhile (\<lambda>c. c \<noteq> CHR '':'') s in
      if a = s then [s] else a # split_n (Suc n) (drop (Suc (length a)) s))"

definition isStorageOwnedRateLimitKey :: "string \<Rightarrow> bool" where
  "isStorageOwnedRateLimitKey k =
     (if prefix keyPrefix k then True
      else (case split_n 4 k of
          [a, b, c, d] \<Rightarrow> a = ''tenant'' \<and> b \<noteq> [] \<and> c = ''ratelimit'' \<and> d \<noteq> []
        | _ \<Rightarrow> False))"

text \<open>
  \<open>scan cursor pattern\<close> is the answer to \<open>SCAN\<close>, and what becomes of the \<open>DEL\<close> of that batch. The loop
  may not end.
\<close>

type_synonym scanner = "nat \<Rightarrow> string \<Rightarrow> counters \<Rightarrow> (string list \<times> nat) option \<times> link"

definition c_DEL :: "string list \<Rightarrow> counters \<Rightarrow> counters" where
  "c_DEL ks db = db\<lparr>c_keys := (\<lambda>k. if k \<in> set ks then None else c_keys db k)\<rparr>"

partial_function (option) resetPattern ::
  "scanner \<Rightarrow> string \<Rightarrow> (string \<Rightarrow> bool) \<Rightarrow> nat \<Rightarrow> counters \<Rightarrow> ((storage_error + unit) \<times> counters) option" where
  "resetPattern scan pattern shouldDelete cursor db =
     (case scan cursor pattern db of
        (None, _) \<Rightarrow> Some (Inl Redis_scan, db)
      | (Some (keys, nextCursor), l) \<Rightarrow>
          (let ownedKeys = filter shouldDelete keys in
           if ownedKeys = [] then
             (if nextCursor = 0 then Some (Inr (), db) else resetPattern scan pattern shouldDelete nextCursor db)
           else if l \<noteq> Connected then
             Some (Inl Redis_delete, if l = Not_answered True then c_DEL ownedKeys db else db)
           else if nextCursor = 0 then Some (Inr (), c_DEL ownedKeys db)
           else resetPattern scan pattern shouldDelete nextCursor (c_DEL ownedKeys db)))"

definition Reset :: "link \<Rightarrow> scanner \<Rightarrow> bool \<Rightarrow> counters \<Rightarrow> ((storage_error + unit) \<times> counters) option" where
  "Reset l scan storage db =
     (if \<not> storage then Some (Inl ErrStorageUnavailable, db)
      else if l = No_client then Some (Inl Get_client, db)
      else (case resetPattern scan (keyPrefix @ ''*'') isStorageOwnedRateLimitKey 0 db of
          None \<Rightarrow> None
        | Some (Inl e, db) \<Rightarrow> Some (Inl e, db)
        | Some (Inr _, db) \<Rightarrow> resetPattern scan (''tenant:*:'' @ keyPrefix @ ''*'') isStorageOwnedRateLimitKey 0 db))"

subsection \<open>Tiers\<close>

record tier =
  t_Name :: string
  t_Max :: int
  t_Window :: int

definition GetenvIntOrDefault :: "environment \<Rightarrow> string \<Rightarrow> int \<Rightarrow> int" where
  "GetenvIntOrDefault env k defaultValue =
     (case Atoi (case env k of None \<Rightarrow> [] | Some v \<Rightarrow> v) of None \<Rightarrow> defaultValue | Some v \<Rightarrow> v)"

definition Second :: int where "Second = 1000000000"

definition DefaultTier :: "environment \<Rightarrow> tier" where
  "DefaultTier env = \<lparr>t_Name = ''default'', t_Max = GetenvIntOrDefault env ''RATE_LIMIT_MAX'' 500,
     t_Window = wrap64 (GetenvIntOrDefault env ''RATE_LIMIT_WINDOW_SEC'' 60 * Second)\<rparr>"

definition AggressiveTier :: "environment \<Rightarrow> tier" where
  "AggressiveTier env = \<lparr>t_Name = ''aggressive'', t_Max = GetenvIntOrDefault env ''AGGRESSIVE_RATE_LIMIT_MAX'' 100,
     t_Window = wrap64 (GetenvIntOrDefault env ''AGGRESSIVE_RATE_LIMIT_WINDOW_SEC'' 60 * Second)\<rparr>"

definition RelaxedTier :: "environment \<Rightarrow> tier" where
  "RelaxedTier env = \<lparr>t_Name = ''relaxed'', t_Max = GetenvIntOrDefault env ''RELAXED_RATE_LIMIT_MAX'' 1000,
     t_Window = wrap64 (GetenvIntOrDefault env ''RELAXED_RATE_LIMIT_WINDOW_SEC'' 60 * Second)\<rparr>"

definition invalidWindowMessage :: string where
  "invalidWindowMessage = ''rate limiter tier window must be at least one millisecond; contact the service operator''"
definition invalidMaxMessage :: string where
  "invalidMaxMessage = ''rate limiter tier max is not positive; contact the service operator''"

definition tierRefusalMessage :: "tier \<Rightarrow> string" where
  "tierRefusalMessage t =
     (if t_Window t \<le> 0 \<or> Milliseconds (t_Window t) = 0 then invalidWindowMessage
      else if t_Max t \<le> 0 then invalidMaxMessage
      else [])"

subsection \<open>Requests and identities\<close>

record rl_request =
  rr_ctx :: tenant_context
  rr_IP :: string
  rr_Header :: "string \<Rightarrow> string"
  rr_Method :: string

text \<open>\<open>url.QueryEscape\<close>.\<close>

definition hex_upper :: "nat \<Rightarrow> char" where
  "hex_upper n = ''0123456789ABCDEF'' ! n"

definition kept_in_query :: "char \<Rightarrow> bool" where
  "kept_in_query c \<longleftrightarrow> is_letter c \<or> is_digit c \<or> c \<in> set ''-_.~''"

definition escape_char :: "char \<Rightarrow> string" where
  "escape_char c =
     (if c = CHR '' '' then ''+''
      else if kept_in_query c then [c]
      else [CHR ''%'', hex_upper (of_char c div 16), hex_upper (of_char c mod 16)])"

definition QueryEscape :: "string \<Rightarrow> string" where
  "QueryEscape s = concat (map escape_char s)"

type_synonym identity_func = "rl_request \<Rightarrow> string"

definition IdentityFromIP :: identity_func where
  "IdentityFromIP c = rr_IP c"

definition IdentityFromHeader :: "string \<Rightarrow> identity_func" where
  "IdentityFromHeader header c =
     (if rr_Header c header \<noteq> [] then ''hdr:'' @ QueryEscape (rr_Header c header)
      else ''ip:'' @ QueryEscape (rr_IP c))"

definition IdentityFromIPAndHeader :: "string \<Rightarrow> identity_func" where
  "IdentityFromIPAndHeader header c =
     (let encodedIP = QueryEscape (rr_IP c) in
      if rr_Header c header \<noteq> [] then ''ip:'' @ encodedIP @ ''#hdr:'' @ QueryEscape (rr_Header c header)
      else ''ip:'' @ encodedIP)"

definition MethodTierSelector :: "tier \<Rightarrow> tier \<Rightarrow> rl_request \<Rightarrow> tier" where
  "MethodTierSelector write read c =
     (if rr_Method c \<in> set [''POST'', ''PUT'', ''PATCH'', ''DELETE''] then write else read)"

subsection \<open>The limiter\<close>

text \<open>The responders a caller may install give some \<open>'r\<close>.\<close>

record 'r limiter =
  rl_keyPrefix :: string
  rl_identityFunc :: identity_func
  rl_failOpen :: bool
  rl_exceededHandler :: "(rl_request \<Rightarrow> tier \<Rightarrow> int \<Rightarrow> 'r) option"
  rl_refusalHandler :: "(rl_request \<Rightarrow> int \<Rightarrow> 'r) option"
  rl_redisTimeout :: int
  rl_enabled :: "bool option"
  rl_logged :: "string list"
  rl_saturated :: bool

definition WithEnabled :: "bool \<Rightarrow> 'r limiter \<Rightarrow> 'r limiter" where
  "WithEnabled enabled rl = rl\<lparr>rl_enabled := Some enabled\<rparr>"

definition WithKeyPrefix :: "string \<Rightarrow> 'r limiter \<Rightarrow> 'r limiter" where
  "WithKeyPrefix p rl = rl\<lparr>rl_keyPrefix := p\<rparr>"

definition WithIdentityFunc :: "identity_func option \<Rightarrow> 'r limiter \<Rightarrow> 'r limiter" where
  "WithIdentityFunc fn rl = (case fn of None \<Rightarrow> rl | Some f \<Rightarrow> rl\<lparr>rl_identityFunc := f\<rparr>)"

definition WithFailOpen :: "bool \<Rightarrow> 'r limiter \<Rightarrow> 'r limiter" where
  "WithFailOpen failOpen rl = rl\<lparr>rl_failOpen := failOpen\<rparr>"

definition WithExceededHandler :: "(rl_request \<Rightarrow> tier \<Rightarrow> int \<Rightarrow> 'r) option \<Rightarrow> 'r limiter \<Rightarrow> 'r limiter" where
  "WithExceededHandler fn rl = (if fn \<noteq> None then rl\<lparr>rl_exceededHandler := fn\<rparr> else rl)"

definition WithRefusalHandler :: "(rl_request \<Rightarrow> int \<Rightarrow> 'r) option \<Rightarrow> 'r limiter \<Rightarrow> 'r limiter" where
  "WithRefusalHandler fn rl = (if fn \<noteq> None then rl\<lparr>rl_refusalHandler := fn\<rparr> else rl)"

definition WithRedisTimeout :: "int \<Rightarrow> 'r limiter \<Rightarrow> 'r limiter" where
  "WithRedisTimeout d rl = (if d > 0 then rl\<lparr>rl_redisTimeout := d\<rparr> else rl)"

definition fallbackRedisTimeoutMS :: int where "fallbackRedisTimeoutMS = 500"

definition New ::
  "(string \<Rightarrow> string) \<Rightarrow> environment \<Rightarrow> bool \<Rightarrow> ('r limiter \<Rightarrow> 'r limiter) option list \<Rightarrow> 'r limiter option" where
  "New uni env conn opts =
     (let timeoutMS = GetenvIntOrDefault env ''RATE_LIMIT_REDIS_TIMEOUT_MS'' fallbackRedisTimeoutMS;
          timeoutMS = (if timeoutMS \<le> 0 then fallbackRedisTimeoutMS else timeoutMS);
          rl = \<lparr>rl_keyPrefix = [], rl_identityFunc = IdentityFromIP, rl_failOpen = True, rl_exceededHandler = None,
                rl_refusalHandler = None, rl_redisTimeout = wrap64 (timeoutMS * 1000000), rl_enabled = None,
                rl_logged = [], rl_saturated = False\<rparr>;
          rl = foldl (\<lambda>rl opt. case opt of None \<Rightarrow> rl | Some f \<Rightarrow> f rl) rl opts;
          rl = (if rl_failOpen rl \<and> \<not> AllowRateLimitFailOpen uni env then rl\<lparr>rl_failOpen := False\<rparr> else rl);
          enabled = (case rl_enabled rl of Some e \<Rightarrow> e | None \<Rightarrow> RateLimitEnabled uni env)
      in if \<not> enabled \<or> \<not> conn then None else Some rl)"

text \<open>What the limiter does with a request: hand it on or answer it, with the headers set.\<close>

datatype 'r verdict =
    Next "(string \<times> string) list"
  | Respond int string string "(string \<times> string) list"
  | Custom 'r "(string \<times> string) list"

definition refuse_with :: "'r limiter \<Rightarrow> rl_request \<Rightarrow> int \<Rightarrow> string \<Rightarrow> string \<Rightarrow> 'r verdict" where
  "refuse_with rl c status title message =
     (case rl_refusalHandler rl of Some f \<Rightarrow> Custom (f c status) [] | None \<Rightarrow> Respond status title message [])"

definition maxLoggedMisconfiguredTiers :: nat where "maxLoggedMisconfiguredTiers = 1024"

definition misconfiguredTierLogDecision :: "'r limiter \<Rightarrow> string \<Rightarrow> bool \<times> bool \<times> 'r limiter" where
  "misconfiguredTierLogDecision rl k =
     (if k \<in> set (rl_logged rl) then (False, False, rl)
      else if maxLoggedMisconfiguredTiers \<le> length (rl_logged rl) then
        (if rl_saturated rl then (False, False, rl) else (False, True, rl\<lparr>rl_saturated := True\<rparr>))
      else (True, False, rl\<lparr>rl_logged := k # rl_logged rl\<rparr>))"

definition misconfiguredTierHandler :: "'r limiter \<Rightarrow> tier \<Rightarrow> (rl_request \<Rightarrow> 'r verdict) option \<times> 'r limiter" where
  "misconfiguredTierHandler rl t =
     (let message = tierRefusalMessage t in
      if message = [] then (None, rl)
      else (case misconfiguredTierLogDecision rl (t_Name t @ ''|'' @ message) of
          (_, _, rl') \<Rightarrow>
            (Some (\<lambda>c. refuse_with rl c 500 ''misconfigured_rate_limiter'' message), rl')))"

definition buildKey :: "'r limiter \<Rightarrow> tier \<Rightarrow> string \<Rightarrow> string" where
  "buildKey rl t identity =
     (if rl_keyPrefix rl \<noteq> [] then rl_keyPrefix rl @ '':'' @ keyPrefix @ t_Name t @ '':'' @ identity
      else t_Name t @ '':'' @ identity)"

definition incrementCounter ::
  "link \<Rightarrow> 'r limiter \<Rightarrow> tenant_context \<Rightarrow> string \<Rightarrow> tier \<Rightarrow> counters \<Rightarrow> (storage_error + int \<times> int) \<times> counters" where
  "incrementCounter l rl ctx k t db =
     (if rl_keyPrefix rl \<noteq> [] then incrementFullKey l True ctx k (t_Window t) db
      else Increment l True ctx k (t_Window t) db)"

definition handleRedisError :: "'r limiter \<Rightarrow> rl_request \<Rightarrow> storage_error \<Rightarrow> 'r verdict" where
  "handleRedisError rl c err =
     (if err = ErrInvalidTenantContext then
        refuse_with rl c 400 ''invalid_tenant_context'' ''tenant context is invalid''
      else if rl_failOpen rl then Next []
      else refuse_with rl c 503 ''service_unavailable'' ''rate limiter temporarily unavailable'')"

text \<open>\<open>clock\<close> is the local time in nanoseconds since the epoch.\<close>

definition resetAt :: "int \<Rightarrow> int \<Rightarrow> int" where
  "resetAt clock ttl = (clock + ttl) div Second"

definition retry_after :: "int \<Rightarrow> int" where
  "retry_after ttl =
     (let retryAfterSec = ttl div Second + (if ttl mod Second > 0 then 1 else 0) in
      if retryAfterSec < 1 then 1 else retryAfterSec)"

definition handleLimitExceeded :: "int \<Rightarrow> 'r limiter \<Rightarrow> rl_request \<Rightarrow> tier \<Rightarrow> int \<Rightarrow> 'r verdict" where
  "handleLimitExceeded clock rl c t ttl =
     (let headers = [(''Retry-After'', FormatInt (retry_after ttl)), (''X-RateLimit-Limit'', FormatInt (t_Max t)),
        (''X-RateLimit-Remaining'', ''0''), (''X-RateLimit-Reset'', FormatInt (resetAt clock ttl))] in
      case rl_exceededHandler rl of
        Some f \<Rightarrow> Custom (f c t ttl) headers
      | None \<Rightarrow> Respond 429 ''rate_limit_exceeded'' ''rate limit exceeded'' headers)"

definition check :: "int \<Rightarrow> link \<Rightarrow> 'r limiter \<Rightarrow> rl_request \<Rightarrow> tier \<Rightarrow> counters \<Rightarrow> 'r verdict \<times> counters" where
  "check clock l rl c t db =
     (let identity = rl_identityFunc rl c;
          k = buildKey rl t identity in
      case incrementCounter l rl (rr_ctx c) k t db of
        (Inl err, db) \<Rightarrow> (handleRedisError rl c err, db)
      | (Inr (count, ttl), db) \<Rightarrow>
          if \<not> count \<le> t_Max t then (handleLimitExceeded clock rl c t ttl, db)
          else
            (let remaining = max (t_Max t - count) 0 in
             (Next [(''X-RateLimit-Limit'', FormatInt (t_Max t)), (''X-RateLimit-Remaining'', FormatInt remaining),
                    (''X-RateLimit-Reset'', FormatInt (resetAt clock ttl))], db)))"

text \<open>
  The two ways to install the limiter: the tier is fixed, and checked once, or chosen and checked for
  each request. A nil limiter hands every request on.
\<close>

definition WithRateLimit ::
  "'r limiter option \<Rightarrow> tier \<Rightarrow> (int \<Rightarrow> link \<Rightarrow> rl_request \<Rightarrow> counters \<Rightarrow> 'r verdict \<times> counters) \<times> 'r limiter option" where
  "WithRateLimit rl t =
     (case rl of
        None \<Rightarrow> (\<lambda>clock l c db. (Next [], db), None)
      | Some r \<Rightarrow>
          (case misconfiguredTierHandler r t of
             (Some handler, r') \<Rightarrow> (\<lambda>clock l c db. (handler c, db), Some r')
           | (None, r') \<Rightarrow> (\<lambda>clock l c db. check clock l r' c t db, Some r')))"

definition WithDynamicRateLimit ::
  "'r limiter option \<Rightarrow> (rl_request \<Rightarrow> tier) option \<Rightarrow> int \<Rightarrow> link \<Rightarrow> rl_request \<Rightarrow> counters \<Rightarrow>
   'r verdict \<times> counters \<times> 'r limiter option" where
  "WithDynamicRateLimit rl fn clock l c db =
     (case (rl, fn) of
        (Some r, Some f) \<Rightarrow>
          (let t = f c in
           case misconfiguredTierHandler r t of
             (Some handler, r') \<Rightarrow> (handler c, db, Some r')
           | (None, r') \<Rightarrow> (case check clock l r' c t db of (v, db) \<Rightarrow> (v, db, Some r')))
      | _ \<Rightarrow> (Next [], db, rl))"

definition WithDefaultRateLimit ::
  "(string \<Rightarrow> string) \<Rightarrow> environment \<Rightarrow> bool \<Rightarrow> ('r limiter \<Rightarrow> 'r limiter) option list \<Rightarrow>
   int \<Rightarrow> link \<Rightarrow> rl_request \<Rightarrow> counters \<Rightarrow> 'r verdict \<times> counters" where
  "WithDefaultRateLimit uni env conn opts = fst (WithRateLimit (New uni env conn opts) (DefaultTier env))"

end
