(* ===== verification/Ratelimit_Laws.thy ===== *)
theory Ratelimit_Laws
  imports Ratelimit
begin

text \<open>
  What the rate limiter guarantees: the bound on the requests it lets through, whichever processes
  share the counters, and that counters of different tenants, tiers and clients are different keys.
\<close>

subsection \<open>Numbers in Redis\<close>

lemma Atoi_FormatInt:
  assumes "in_int64 i"
  shows "Atoi (FormatInt i) = Some i"
proof (cases "i < 0")
  case True
  have "FormatInt i = CHR ''-'' # itoa (nat (- i))" using True by (simp add: FormatInt_def)
  then show ?thesis
    using True assms itoa_digits [of "nat (- i)"] itoa_nonempty [of "nat (- i)"]
    by (simp add: Atoi_def digits_value_itoa)
next
  case False
  then show ?thesis using Atoi_itoa [of "nat i"] assms by (simp add: FormatInt_def in_int64_def)
qed

lemma string2ll_FormatInt: "in_int64 i \<Longrightarrow> string2ll (FormatInt i) = Some i"
  by (simp add: string2ll_def Atoi_FormatInt)

subsection \<open>The script on a counter\<close>

lemma one_digit: "FormatInt 1 = ''1''"
  by code_simp

text \<open>A counter that is absent or expired starts a window; a live one goes on in its window.\<close>

lemma script_starts:
  assumes "c_live db k = None"
  shows "luaIncrExpire k w db = (Some (1, w), db\<lparr>c_keys := (c_keys db)(k \<mapsto> (''1'', Some (c_now db + w)))\<rparr>)"
  using assms by (simp add: luaIncrExpire_def c_INCR_def c_PEXPIRE_def c_live_def)

lemma script_goes_on:
  assumes "c_live db k = Some (FormatInt n, Some e)" and "1 \<le> n" and "n < max_int64"
  shows "luaIncrExpire k w db =
    (Some (n + 1, e - c_now db), db\<lparr>c_keys := (c_keys db)(k \<mapsto> (FormatInt (n + 1), Some e))\<rparr>)"
proof -
  have e: "c_now db \<le> e" using assms(1) by (auto simp: c_live_def split: option.splits if_splits)
  have "string2ll (FormatInt n) = Some n"
    using assms(2,3) by (intro string2ll_FormatInt) (simp add: in_int64_def min_int64_def)
  then show ?thesis using assms e by (simp add: luaIncrExpire_def c_INCR_def c_PTTL_def c_live_def)
qed

lemma script_at_limit:
  assumes "c_live db k = Some (FormatInt max_int64, Some e)"
  shows "luaIncrExpire k w db = (None, db)"
proof -
  have "string2ll (FormatInt max_int64) = Some max_int64"
    by (intro string2ll_FormatInt) (simp add: in_int64_def min_int64_def max_int64_def)
  then show ?thesis using assms by (simp add: luaIncrExpire_def c_INCR_def)
qed

subsection \<open>Runs\<close>

text \<open>
  Any number of processes serve requests against the same Redis, whose clock does not move back and
  which removes expired keys when it likes; nobody resets or deletes a counter. Each key has one setting, the
  maximum and the window in milliseconds of its tier. A request that was counted and passed, which the
  headers it carries on tell, is noted with its time, the end of the window it was counted in and its
  key; one that a limiter passes because it fails open was not counted and carries none.
\<close>

definition counter_key :: "'r limiter \<Rightarrow> rl_request \<Rightarrow> tier \<Rightarrow> storage_error + string" where
  "counter_key rl c t =
     (if rl_keyPrefix rl \<noteq> [] then redisFullKey (rr_ctx c) (buildKey rl t (rl_identityFunc rl c))
      else redisKey (rr_ctx c) (buildKey rl t (rl_identityFunc rl c)))"

record world =
  w_db :: counters
  w_passed :: "(int \<times> int \<times> string) list"

definition window_end :: "counters \<Rightarrow> string \<Rightarrow> int" where
  "window_end db k = (case c_keys db k of Some (v, Some e) \<Rightarrow> e | _ \<Rightarrow> 0)"

definition note_pass :: "'r verdict \<Rightarrow> counters \<Rightarrow> storage_error + string \<Rightarrow> world \<Rightarrow> world" where
  "note_pass v db' k w =
     \<lparr>w_db = db',
      w_passed = (case (v, k) of
          (Next (h # hs), Inr k) \<Rightarrow> (c_now (w_db w), window_end db' k, k) # w_passed w
        | _ \<Rightarrow> w_passed w)\<rparr>"

inductive served ::
  "(string \<Rightarrow> string) \<Rightarrow> environment \<Rightarrow> (string \<Rightarrow> int \<times> int) \<Rightarrow> counters \<Rightarrow> world \<Rightarrow> bool"
  for uni env settings db0 where
  start: "served uni env settings db0 \<lparr>w_db = db0, w_passed = []\<rparr>"
| elapse: "served uni env settings db0 w \<Longrightarrow> 0 \<le> d \<Longrightarrow>
    served uni env settings db0 (w\<lparr>w_db := (w_db w)\<lparr>c_now := c_now (w_db w) + d\<rparr>\<rparr>)"
| sweep: "served uni env settings db0 w \<Longrightarrow> c_live (w_db w) k = None \<Longrightarrow>
    served uni env settings db0 (w\<lparr>w_db := (w_db w)\<lparr>c_keys := (c_keys (w_db w))(k := None)\<rparr>\<rparr>)"
| request: "served uni env settings db0 w \<Longrightarrow>
    New uni env True opts = Some (rl :: unit limiter) \<Longrightarrow> tierRefusalMessage t = [] \<Longrightarrow>
    (\<And>k. counter_key rl c t = Inr k \<Longrightarrow> settings k = (t_Max t, Milliseconds (t_Window t))) \<Longrightarrow>
    check clock l rl c t (w_db w) = (v, db') \<Longrightarrow>
    served uni env settings db0 (note_pass v db' (counter_key rl c t) w)"

definition passes_until :: "world \<Rightarrow> string \<Rightarrow> int \<Rightarrow> (int \<times> int \<times> string) list" where
  "passes_until w K e = filter (\<lambda>(at, until, k). k = K \<and> until = e) (w_passed w)"

text \<open>What holds of a key and the requests passed under it.\<close>

definition passes_ok :: "int \<Rightarrow> int \<Rightarrow> string \<Rightarrow> world \<Rightarrow> bool" where
  "passes_ok M W K w \<longleftrightarrow>
     (\<forall>at e. (at, e, K) \<in> set (w_passed w) \<longrightarrow> e - W \<le> at \<and> at \<le> e) \<and>
     (\<forall>e. int (length (passes_until w K e)) \<le> M) \<and>
     (\<forall>at e at' e'. (at, e, K) \<in> set (w_passed w) \<longrightarrow> (at', e', K) \<in> set (w_passed w) \<longrightarrow> e < e' \<longrightarrow> e + W < e')"

definition counter_ok :: "int \<Rightarrow> string \<Rightarrow> world \<Rightarrow> bool" where
  "counter_ok W K w \<longleftrightarrow>
     (case c_keys (w_db w) K of
        None \<Rightarrow> \<forall>at e. (at, e, K) \<in> set (w_passed w) \<longrightarrow> e < c_now (w_db w)
      | Some (v, None) \<Rightarrow> False
      | Some (v, Some e) \<Rightarrow>
          e \<le> c_now (w_db w) + W \<and>
          (\<exists>n. v = FormatInt n \<and> 1 \<le> n \<and> n \<le> max_int64 \<and> int (length (passes_until w K e)) \<le> n) \<and>
          (\<forall>at e'. (at, e', K) \<in> set (w_passed w) \<longrightarrow> e' = e \<or> e' + W < e))"

definition world_ok :: "int \<Rightarrow> int \<Rightarrow> string \<Rightarrow> world \<Rightarrow> bool" where
  "world_ok M W K w \<longleftrightarrow> passes_ok M W K w \<and> counter_ok W K w"

fun is_next :: "'r verdict \<Rightarrow> bool" where
  "is_next (Next hs) = (hs \<noteq> [])"
| "is_next v = False"

lemma New_fails_closed: "New uni env conn opts = Some rl \<Longrightarrow> \<not> AllowRateLimitFailOpen uni env \<Longrightarrow> \<not> rl_failOpen rl"
  by (auto simp: New_def Let_def split: if_splits)

text \<open>A request is passed uncounted only where failing open is permitted, and only when the counter could not be incremented.\<close>

lemma uncounted_pass:
  assumes "New uni env conn opts = Some rl" and "check clock l rl c t db = (Next [], db')"
  shows "AllowRateLimitFailOpen uni env \<and>
    (\<exists>err. fst (incrementCounter l rl (rr_ctx c) (buildKey rl t (rl_identityFunc rl c)) t db) = Inl err \<and> err \<noteq> ErrInvalidTenantContext)"
proof -
  obtain r db1 where r: "incrementCounter l rl (rr_ctx c) (buildKey rl t (rl_identityFunc rl c)) t db = (r, db1)" by force
  show ?thesis
  proof (cases r)
    case (Inl err)
    then have "handleRedisError rl c err = Next []" using assms(2) r by (simp add: check_def Let_def)
    then have "rl_failOpen rl" "err \<noteq> ErrInvalidTenantContext"
      by (auto simp: handleRedisError_def refuse_with_def split: if_splits option.splits)
    then show ?thesis using New_fails_closed [OF assms(1)] r Inl by auto
  next
    case (Inr a)
    then show ?thesis
      using assms(2) r by (cases a) (auto simp: check_def handleLimitExceeded_def Let_def split: if_splits option.splits)
  qed
qed

lemma refused_not_next [simp]:
  "\<not> is_next (refuse_with rl c s title m)" "\<not> is_next (handleLimitExceeded clock rl c t ttl)"
  "\<not> is_next (handleRedisError rl c e)"
  by (simp_all add: refuse_with_def handleLimitExceeded_def handleRedisError_def Let_def split: option.split)

lemma enforceable: "tierRefusalMessage t = [] \<longleftrightarrow> 0 < t_Window t \<and> 0 < Milliseconds (t_Window t) \<and> 0 < t_Max t"
  by (auto simp: tierRefusalMessage_def invalidWindowMessage_def invalidMaxMessage_def Milliseconds_def)

text \<open>A check leaves the counters alone and refuses, or runs the script on the key, and then passes
  the request only if the count it gave is within the maximum.\<close>

lemma check_effect:
  assumes "check clock l rl c t db = (v, db')" and "tierRefusalMessage t = []"
  obtains (refused) "db' = db" and "\<not> is_next v"
  | (counted) k r where "counter_key rl c t = Inr k" and "luaIncrExpire k (Milliseconds (t_Window t)) db = (r, db')"
      and "is_next v \<Longrightarrow> \<exists>count ttl. r = Some (count, ttl) \<and> count \<le> t_Max t"
proof -
  let ?W = "Milliseconds (t_Window t)"
  let ?key = "buildKey rl t (rl_identityFunc rl c)"
  obtain kf where kf: "counter_key rl c t = kf (rr_ctx c) ?key"
      "incrementCounter l rl (rr_ctx c) ?key t db = increment l True (rr_ctx c) ?key (t_Window t) kf db"
    by (cases "rl_keyPrefix rl = []")
      (simp_all add: counter_key_def incrementCounter_def Increment_def incrementFullKey_def)
  have w: "\<not> (t_Window t \<le> 0 \<or> ?W \<le> 0)" using assms(2) by (simp add: enforceable)
  show thesis
  proof (cases "l = No_client \<or> (\<exists>e. kf (rr_ctx c) ?key = Inl e)")
    case True
    then have "\<exists>e. increment l True (rr_ctx c) ?key (t_Window t) kf db = (Inl e, db)"
      using w by (cases "l = No_client") (auto simp: increment_def Let_def)
    then obtain e where "increment l True (rr_ctx c) ?key (t_Window t) kf db = (Inl e, db)" by blast
    then have "v = handleRedisError rl c e" "db' = db" using assms(1) kf(2) by (simp_all add: check_def)
    then show thesis using refused by simp
  next
    case False
    then obtain k where k: "kf (rr_ctx c) ?key = Inr k" "l \<noteq> No_client" by (cases "kf (rr_ctx c) ?key") auto
    obtain r db1 where s: "luaIncrExpire k ?W db = (r, db1)" by fastforce
    show thesis
    proof (cases l)
      case (Not_answered b)
      then have "increment l True (rr_ctx c) ?key (t_Window t) kf db = (Inl Redis_eval, if b then db1 else db)"
        using w k s by (simp add: increment_def)
      then have "v = handleRedisError rl c Redis_eval" "db' = (if b then db1 else db)"
        using assms(1) kf(2) by (simp_all add: check_def)
      then show thesis using refused counted [of k r] k s kf(1) by (cases b) simp_all
    next
      case Connected
      show thesis
      proof (cases r)
        case None
        then have "increment l True (rr_ctx c) ?key (t_Window t) kf db = (Inl Redis_eval, db1)"
          using w k s Connected by (simp add: increment_def)
        then have "v = handleRedisError rl c Redis_eval" "db' = db1" using assms(1) kf(2) by (simp_all add: check_def)
        then show thesis using counted [of k r] k s kf(1) by simp
      next
        case (Some a)
        obtain count ttl where a: "a = (count, ttl)" by (cases a)
        obtain ttl' where "increment l True (rr_ctx c) ?key (t_Window t) kf db = (Inr (count, ttl'), db1)"
          using w k s Connected Some a by (simp add: increment_def Let_def)
        then have "db' = db1" "is_next v \<Longrightarrow> count \<le> t_Max t"
          using assms(1) kf(2) by (auto simp: check_def Let_def split: if_splits)
        then show thesis using counted [of k r] k s kf(1) Some a by simp
      qed
    qed (use k in simp)
  qed
qed

subsection \<open>The bound\<close>

lemma passes_until_none: "(\<And>at. (at, e, K) \<notin> set (w_passed w)) \<Longrightarrow> passes_until w K e = []"
  by (auto simp: passes_until_def filter_empty_conv)

text \<open>The counter of a key is at \<open>n\<close> in the window that ends at \<open>e\<close>, and the request may have passed.\<close>

lemma extend_ok:
  assumes ok: "passes_ok M W K w" and e: "c_now (w_db w) \<le> e" "e \<le> c_now (w_db w) + W"
    and others: "\<And>at e'. (at, e', K) \<in> set (w_passed w) \<Longrightarrow> e' = e \<or> e' + W < e"
    and n: "int (length (passes_until w K e)) < n" "1 \<le> n" "n \<le> max_int64" and M: "p \<Longrightarrow> n \<le> M"
    and db': "c_keys db' K = Some (FormatInt n, Some e)" "c_now db' = c_now (w_db w)"
  shows "world_ok M W K \<lparr>w_db = db',
    w_passed = (if p then (c_now (w_db w), window_end db' K, K) # w_passed w else w_passed w)\<rparr>"
proof -
  let ?w = "\<lparr>w_db = db', w_passed = (if p then (c_now (w_db w), window_end db' K, K) # w_passed w else w_passed w)\<rparr>"
  have we: "window_end db' K = e" by (simp add: window_end_def db')
  have count: "length (passes_until ?w K e') = (if p \<and> e' = e then 1 else 0) + length (passes_until w K e')" for e'
    by (simp add: passes_until_def we)
  have member: "(at, e', K) \<in> set (w_passed ?w) \<longleftrightarrow> p \<and> at = c_now (w_db w) \<and> e' = e \<or> (at, e', K) \<in> set (w_passed w)" for at e'
    by (auto simp: we)
  have "int (length (passes_until ?w K e')) \<le> M" for e'
  proof (cases "p \<and> e' = e")
    case True
    then show ?thesis using n(1) M count [of e'] by simp
  next
    case False
    then show ?thesis using ok count [of e'] by (auto simp: passes_ok_def)
  qed
  moreover have "e1 + W < e2" if "(at, e1, K) \<in> set (w_passed ?w)" "(at', e2, K) \<in> set (w_passed ?w)" "e1 < e2" for at e1 at' e2
  proof (cases "(at, e1, K) \<in> set (w_passed w) \<and> (at', e2, K) \<in> set (w_passed w)")
    case True
    then show ?thesis using ok that(3) unfolding passes_ok_def by blast
  next
    case False
    moreover have "\<not> (e1 = e \<and> e2 = e)" using that(3) by simp
    ultimately have "e1 = e \<and> (at', e2, K) \<in> set (w_passed w) \<or> e2 = e \<and> (at, e1, K) \<in> set (w_passed w)"
      using that(1,2) unfolding member by blast
    then show ?thesis using others [of at' e2] others [of at e1] that(3) e by auto
  qed
  moreover have "e' - W \<le> at \<and> at \<le> e'" if "(at, e', K) \<in> set (w_passed ?w)" for at e'
    using that e ok unfolding member passes_ok_def by auto
  ultimately have "passes_ok M W K ?w" unfolding passes_ok_def by blast
  moreover have "int (length (passes_until ?w K e)) \<le> n" using count [of e] n(1) by simp
  then have "counter_ok W K ?w" unfolding counter_ok_def using e(2) n(2,3) others member by (auto simp: db')
  ultimately show ?thesis by (simp add: world_ok_def)
qed

text \<open>What a run of the script on the key does to a world, whether or not the request is passed.\<close>

lemma counted_ok:
  assumes ok: "world_ok M W K w" and W: "0 < W"
    and run: "luaIncrExpire K W (w_db w) = (r, db')"
    and pass: "p \<Longrightarrow> \<exists>count ttl. r = Some (count, ttl) \<and> count \<le> M"
  shows "world_ok M W K \<lparr>w_db = db',
    w_passed = (if p then (c_now (w_db w), window_end db' K, K) # w_passed w else w_passed w)\<rparr>"
proof (cases "c_live (w_db w) K")
  case None
  let ?now = "c_now (w_db w)"
  have d: "r = Some (1, W)" "db' = (w_db w)\<lparr>c_keys := (c_keys (w_db w))(K \<mapsto> (''1'', Some (?now + W)))\<rparr>"
    using script_starts [OF None] run by simp_all
  have past: "e < ?now" if "(at, e, K) \<in> set (w_passed w)" for at e
    using ok None that W by (fastforce simp: world_ok_def counter_ok_def c_live_def split: option.splits if_splits)
  have fresh: "passes_until w K (?now + W) = []" using past W by (intro passes_until_none) force
  show ?thesis
  proof (rule extend_ok [where n = 1])
    show "passes_ok M W K w" using ok by (simp add: world_ok_def)
    show "e' = ?now + W \<or> e' + W < ?now + W" if "(at, e', K) \<in> set (w_passed w)" for at e' using past [OF that] by simp
  qed (use d fresh W pass in \<open>auto simp: one_digit max_int64_def\<close>)
next
  case (Some ve)
  obtain v e where ve: "c_keys (w_db w) K = Some (v, Some e)" "c_now (w_db w) \<le> e" "e \<le> c_now (w_db w) + W"
    using ok Some by (auto simp: world_ok_def counter_ok_def c_live_def split: option.splits if_splits)
  obtain n where n: "v = FormatInt n" "1 \<le> n" "n \<le> max_int64" "int (length (passes_until w K e)) \<le> n"
    using ok ve(1) by (auto simp: world_ok_def counter_ok_def)
  have others: "e' = e \<or> e' + W < e" if "(at, e', K) \<in> set (w_passed w)" for at e'
    using ok ve(1) that by (auto simp: world_ok_def counter_ok_def)
  have live: "c_live (w_db w) K = Some (FormatInt n, Some e)" using ve n by (simp add: c_live_def)
  show ?thesis
  proof (cases "n = max_int64")
    case True
    then have "r = None" "db' = w_db w" using script_at_limit [of "w_db w" K e W] live run by simp_all
    then have "\<not> p" "db' = w_db w" using pass by auto
    then show ?thesis using ok by (cases w) simp
  next
    case False
    then have "r = Some (n + 1, e - c_now (w_db w))"
        "db' = (w_db w)\<lparr>c_keys := (c_keys (w_db w))(K \<mapsto> (FormatInt (n + 1), Some e))\<rparr>"
      using script_goes_on [OF live n(2)] n(3) run by simp_all
    then show ?thesis
      using ok n False pass ve others by (intro extend_ok [where n = "n + 1" and e = e]) (auto simp: world_ok_def)
  qed
qed

lemma script_other_key:
  assumes "luaIncrExpire k W db = (r, db')" and "k \<noteq> K"
  shows "c_keys db' K = c_keys db K" and "c_now db' = c_now db"
  using assms
  by (auto simp: luaIncrExpire_def c_INCR_def c_PEXPIRE_def Let_def split: option.splits prod.splits if_splits)

lemma script_now: "luaIncrExpire k W db = (r, db') \<Longrightarrow> c_now db' = c_now db"
  by (auto simp: luaIncrExpire_def c_INCR_def c_PEXPIRE_def Let_def split: option.splits prod.splits if_splits)

lemma world_ok_cong:
  assumes "c_keys (w_db w') K = c_keys (w_db w) K" and "c_now (w_db w') = c_now (w_db w)"
    and "\<And>at e. (at, e, K) \<in> set (w_passed w') \<longleftrightarrow> (at, e, K) \<in> set (w_passed w)"
    and "\<And>e. passes_until w' K e = passes_until w K e"
  shows "world_ok M W K w' = world_ok M W K w"
  unfolding world_ok_def passes_ok_def counter_ok_def assms ..

lemma unrelated_ok:
  assumes "world_ok M W K w" and "c_keys db' K = c_keys (w_db w) K" and "c_now db' = c_now (w_db w)" and "k \<noteq> K"
  shows "world_ok M W K \<lparr>w_db = db', w_passed = (if p then (at, e, k) # w_passed w else w_passed w)\<rparr>"
proof -
  have "world_ok M W K \<lparr>w_db = db', w_passed = (if p then (at, e, k) # w_passed w else w_passed w)\<rparr> = world_ok M W K w"
    by (rule world_ok_cong) (use assms(2-4) in \<open>auto simp: passes_until_def\<close>)
  then show ?thesis using assms(1) by simp
qed

text \<open>Every step keeps the bound of every key.\<close>

lemma note_pass_eq:
  "counter_key rl c t = Inr k \<Longrightarrow> note_pass v db' (counter_key rl c t) w =
     \<lparr>w_db = db', w_passed = (if is_next v then (c_now (w_db w), window_end db' k, k) # w_passed w else w_passed w)\<rparr>"
  "\<not> is_next v \<Longrightarrow> note_pass v db' x w = \<lparr>w_db = db', w_passed = w_passed w\<rparr>"
proof -
  show "note_pass v db' (counter_key rl c t) w =
      \<lparr>w_db = db', w_passed = (if is_next v then (c_now (w_db w), window_end db' k, k) # w_passed w else w_passed w)\<rparr>"
    if "counter_key rl c t = Inr k"
    using that by (cases v) (auto simp: note_pass_def split: list.split)
  show "note_pass v db' x w = \<lparr>w_db = db', w_passed = w_passed w\<rparr>" if "\<not> is_next v"
    using that by (cases v) (auto simp: note_pass_def)
qed

lemma later_ok:
  assumes "world_ok M W K w" and "0 \<le> d"
  shows "world_ok M W K (w\<lparr>w_db := (w_db w)\<lparr>c_now := c_now (w_db w) + d\<rparr>\<rparr>)"
proof -
  let ?w = "w\<lparr>w_db := (w_db w)\<lparr>c_now := c_now (w_db w) + d\<rparr>\<rparr>"
  have same: "passes_until ?w K e = passes_until w K e" for e by (simp add: passes_until_def)
  then have "passes_ok M W K ?w" using assms(1) by (simp add: world_ok_def passes_ok_def)
  moreover have "counter_ok W K ?w"
  proof (cases "c_keys (w_db w) K")
    case None
    then show ?thesis using assms by (force simp: world_ok_def counter_ok_def)
  next
    case (Some ve)
    then obtain v e where "c_keys (w_db w) K = Some (v, Some e)"
      using assms(1) by (cases ve; cases "snd ve") (auto simp: world_ok_def counter_ok_def)
    then show ?thesis using assms by (simp add: world_ok_def counter_ok_def same)
  qed
  ultimately show ?thesis by (simp add: world_ok_def)
qed

lemma swept_ok:
  assumes ok: "world_ok M W K w" and "0 < W" and "c_live (w_db w) k = None"
  shows "world_ok M W K (w\<lparr>w_db := (w_db w)\<lparr>c_keys := (c_keys (w_db w))(k := None)\<rparr>\<rparr>)"
proof (cases "k = K")
  case False
  then show ?thesis using ok by (subst world_ok_cong [of _ _ w]) (auto simp: passes_until_def)
next
  case True
  have "e < c_now (w_db w)" if "(at, e, K) \<in> set (w_passed w)" for at e
    using assms that True by (fastforce simp: world_ok_def counter_ok_def c_live_def split: option.splits if_splits)
  then show ?thesis using ok True by (auto simp: world_ok_def passes_ok_def counter_ok_def passes_until_def)
qed

lemma served_ok:
  assumes "served uni env settings db0 w"
    and "c_keys db0 K = None" and "settings K = (M, W)" and "0 < M" and "0 < W"
  shows "world_ok M W K w"
  using assms(1)
proof induction
  case start
  show ?case using assms(2,4) by (simp add: world_ok_def passes_ok_def counter_ok_def passes_until_def)
next
  case (elapse w d)
  then show ?case by (intro later_ok)
next
  case (sweep w k)
  then show ?case using assms(5) by (intro swept_ok)
next
  case (request w opts rl t c clock l v db')
  from request(5,3) show ?case
  proof (cases rule: check_effect)
    case refused
    then show ?thesis using request(6) by (cases w) (simp add: note_pass_eq)
  next
    case (counted k r)
    have set: "settings k = (t_Max t, Milliseconds (t_Window t))" using request(4) counted(1) by simp
    show ?thesis
    proof (cases "k = K")
      case True
      then have "t_Max t = M" "Milliseconds (t_Window t) = W" using set assms(3) by simp_all
      then show ?thesis
        unfolding note_pass_eq(1) [OF counted(1)] True
        using counted(2,3) True request(6) assms(5) by (intro counted_ok [where r = r]) auto
    next
      case False
      then show ?thesis
        unfolding note_pass_eq(1) [OF counted(1)]
        using script_other_key [OF counted(2) False] request(6) by (intro unrelated_ok) auto
    qed
  qed
qed

text \<open>Within one span of a window's length at most two windows are met.\<close>

lemma filter_two:
  "(\<And>x. x \<in> set xs \<Longrightarrow> P x \<Longrightarrow> Q x \<or> R x) \<Longrightarrow> length (filter P xs) \<le> length (filter Q xs) + length (filter R xs)"
  by (induction xs) (auto intro: le_SucI)

lemma two_windows:
  assumes "passes_ok M W K w" and "0 \<le> M"
  shows "int (length (filter (\<lambda>(at, e, k). k = K \<and> t \<le> at \<and> at < t + W) (w_passed w))) \<le> 2 * M"
proof -
  define es where "es = {e. \<exists>at. (at, e, K) \<in> set (w_passed w) \<and> t \<le> at \<and> at < t + W}"
  have "es \<subseteq> (fst \<circ> snd) ` set (w_passed w)" by (force simp: es_def)
  then have fin: "finite es" by (rule finite_subset) simp
  have near: "t \<le> e \<and> e < t + 2 * W" if "e \<in> es" for e
    using that assms(1) by (force simp: passes_ok_def es_def)
  have apart: "e + W < e'" if "e \<in> es" "e' \<in> es" "e < e'" for e e'
    using that assms(1) unfolding passes_ok_def es_def by blast
  have two: "e = Min es \<or> e = Max es" if "e \<in> es" for e
  proof (rule ccontr)
    have ne: "es \<noteq> {}" using that by blast
    assume "\<not> ?thesis"
    then have "Min es < e" "e < Max es" using fin that by (simp_all add: order.not_eq_order_implies_strict)
    then have "Min es + W < e" "e + W < Max es" using apart that Min_in [OF fin ne] Max_in [OF fin ne] by simp_all
    moreover have "t \<le> Min es" "Max es < t + 2 * W" using near Min_in [OF fin ne] Max_in [OF fin ne] by simp_all
    ultimately show False by linarith
  qed
  have "length (filter (\<lambda>(at, e, k). k = K \<and> t \<le> at \<and> at < t + W) (w_passed w)) \<le>
      length (passes_until w K (Min es)) + length (passes_until w K (Max es))"
    unfolding passes_until_def by (rule filter_two) (use two in \<open>fastforce simp: es_def\<close>)
  moreover have "int (length (passes_until w K e)) \<le> M" for e using assms(1) by (simp add: passes_ok_def)
  note this [of "Min es"] this [of "Max es"]
  ultimately show ?thesis by linarith
qed

text \<open>
  C21. However many processes share the counters, whatever becomes of their calls to Redis and whenever
  it removes expired keys: under a key that is absent at the start, that has one maximum and one window
  and that nobody resets or deletes, at most the maximum of counted requests pass in each window, and at
  most twice that in any span of time as long as a window, wherever it begins. A request passes
  uncounted only if the environment permits failing open (so, without that permission, every request that passes
  is counted) and its counter could not be incremented.\<close>

theorem rate_limit_holds:
  assumes "served uni env settings db0 w"
    and "c_keys db0 K = None" and "settings K = (M, W)" and "0 < M" and "0 < W"
  shows "int (length (filter (\<lambda>(at, until, k). k = K \<and> until = e) (w_passed w))) \<le> M \<and>
    int (length (filter (\<lambda>(at, until, k). k = K \<and> t \<le> at \<and> at < t + W) (w_passed w))) \<le> 2 * M \<and>
    (\<forall>conn opts rl clock l c tr db db'. New uni env conn opts = Some (rl :: unit limiter) \<longrightarrow> check clock l rl c tr db = (Next [], db') \<longrightarrow>
       AllowRateLimitFailOpen uni env \<and>
       (\<exists>err. fst (incrementCounter l rl (rr_ctx c) (buildKey rl tr (rl_identityFunc rl c)) tr db) = Inl err \<and> err \<noteq> ErrInvalidTenantContext))"
proof -
  have ok: "passes_ok M W K w" using served_ok [OF assms] by (simp add: world_ok_def)
  then have "int (length (passes_until w K e)) \<le> M" by (simp add: passes_ok_def)
  moreover have "int (length (filter (\<lambda>(at, until, k). k = K \<and> t \<le> at \<and> at < t + W) (w_passed w))) \<le> 2 * M"
    using two_windows [OF ok] assms(4) by simp
  ultimately show ?thesis using uncounted_pass by (fastforce simp: passes_until_def)
qed

subsection \<open>Keys\<close>

text \<open>
  Without a custom prefix the counters of different tenants, tiers and identities are different keys,
  as long as no tier has a delimiter in its name or is called after the namespace.
\<close>

lemma normalized:
  assumes "CHR '':'' \<notin> set n" and "n \<noteq> ''ratelimit''"
  shows "normalizeRateLimitKey (n @ '':'' @ i) = ''ratelimit:'' @ n @ '':'' @ i"
proof -
  have "\<not> prefix keyPrefix (n @ '':'' @ i)"
  proof
    assume "prefix keyPrefix (n @ '':'' @ i)"
    then obtain r where "n @ CHR '':'' # i = ''ratelimit'' @ CHR '':'' # r" by (auto simp: keyPrefix_def prefix_def)
    then show False using split_at_delimiter [of n i "''ratelimit''" r] assms by simp
  qed
  then show ?thesis by (simp add: normalizeRateLimitKey_def keyPrefix_def)
qed

lemma counters_kept_apart:
  assumes "rl_keyPrefix rl = []" and "counter_key rl c t = Inr k" and "counter_key rl c' t' = Inr k"
    and "CHR '':'' \<notin> set (t_Name t)" and "t_Name t \<noteq> ''ratelimit''"
    and "CHR '':'' \<notin> set (t_Name t')" and "t_Name t' \<noteq> ''ratelimit''"
  shows "GetTenantIDContext (rr_ctx c) = GetTenantIDContext (rr_ctx c') \<and> t_Name t = t_Name t' \<and>
    rl_identityFunc rl c = rl_identityFunc rl c'"
proof -
  let ?b = "\<lambda>c t. ''ratelimit:'' @ t_Name t @ '':'' @ rl_identityFunc rl c"
  let ?T = "\<lambda>c. GetTenantIDContext (rr_ctx c)"
  have k: "GetKey (?T c) (?b c t) = Inr k" "GetKey (?T c') (?b c' t') = Inr k"
    using assms normalized
    by (auto simp: counter_key_def redisKey_def buildKey_def GetKeyContext_def Let_def split: if_splits sum.splits)
  have plain: "\<not> prefix (TenantKeyPrefix @ '':'') (?b c t)" for c t by (simp add: TenantKeyPrefix_def)
  have "?T c = ?T c' \<and> ?b c t = ?b c' t'" by (rule GetKey_separates [OF k plain plain])
  then show ?thesis using split_at_delimiter [of "t_Name t" "rl_identityFunc rl c" "t_Name t'" "rl_identityFunc rl c'"] assms(4,6) by auto
qed

text \<open>A tier called \<open>ratelimit\<close> counts under the key of another tier.\<close>

lemma tier_ratelimit_collides:
  "redisKey background (buildKey (rl\<lparr>rl_keyPrefix := []\<rparr>) (t\<lparr>t_Name := ''ratelimit''\<rparr>) ''default:10.0.0.1'') =
   redisKey background (buildKey (rl\<lparr>rl_keyPrefix := []\<rparr>) (t\<lparr>t_Name := ''default''\<rparr>) ''10.0.0.1'')"
  by (simp add: buildKey_def redisKey_def normalizeRateLimitKey_def keyPrefix_def)

text \<open>What a client is told to wait covers what is left of the window.\<close>

lemma retry_after_covers:
  assumes "0 \<le> ttl"
  shows "ttl \<le> retry_after ttl * Second \<and> 1 \<le> retry_after ttl"
proof -
  define q m where "q = ttl div Second" and "m = ttl mod Second"
  have "ttl = q * Second + m" "m < Second" "0 \<le> m" by (simp_all add: q_def m_def Second_def)
  moreover have "retry_after ttl = max 1 (q + (if m > 0 then 1 else 0))" by (simp add: retry_after_def Let_def q_def m_def)
  ultimately show ?thesis by (auto simp: Second_def max_def)
qed

text \<open>A reset deletes nothing outside the keys of the storage.\<close>

lemma resetPattern_keeps:
  assumes ret: "resetPattern scan pat should cursor db = Some r" and out: "\<not> should k"
  shows "c_keys (snd r) k = c_keys db k"
proof -
  have "sh = should \<longrightarrow> c_keys (snd r) k = c_keys db k" if "resetPattern scan pat sh cursor db = Some r" for sh
  proof (rule resetPattern.raw_induct [where P = "\<lambda>scan pat sh cursor db r. sh = should \<longrightarrow> c_keys (snd r) k = c_keys db k",
        OF _ that], intro impI)
    fix loop :: "scanner \<Rightarrow> string \<Rightarrow> (string \<Rightarrow> bool) \<Rightarrow> nat \<Rightarrow> counters \<Rightarrow> ((storage_error + unit) \<times> counters) option"
      and scan pat sh cursor db r
    assume IH: "\<And>scan pat sh cursor db r. loop scan pat sh cursor db = Some r \<Longrightarrow> sh = should \<longrightarrow> c_keys (snd r) k = c_keys db k"
      and step: "(case scan cursor pat db of
        (None, _) \<Rightarrow> Some (Inl Redis_scan, db)
      | (Some (keys, nextCursor), l) \<Rightarrow>
          (let ownedKeys = filter sh keys in
           if ownedKeys = [] then
             (if nextCursor = 0 then Some (Inr (), db) else loop scan pat sh nextCursor db)
           else if l \<noteq> Connected then
             Some (Inl Redis_delete, if l = Not_answered True then c_DEL ownedKeys db else db)
           else if nextCursor = 0 then Some (Inr (), c_DEL ownedKeys db)
           else loop scan pat sh nextCursor (c_DEL ownedKeys db))) = Some r"
      and sh: "sh = should"
    have keep: "c_keys (c_DEL (filter sh keys) db) k = c_keys db k" for keys db using out by (simp add: c_DEL_def sh)
    show "c_keys (snd r) k = c_keys db k"
      using step by (auto simp: Let_def keep sh dest!: IH split: prod.splits option.splits if_splits) (simp_all add: keep [unfolded sh])
  qed
  with ret show ?thesis by blast
qed

lemma Reset_keeps_foreign_keys:
  assumes "Reset l scan storage db = Some r" and "\<not> isStorageOwnedRateLimitKey k"
  shows "c_keys (snd r) k = c_keys db k"
proof (cases "\<not> storage \<or> l = No_client")
  case True
  then show ?thesis using assms(1) by (auto simp: Reset_def split: if_splits)
next
  case False
  note keeps = resetPattern_keeps [where should = isStorageOwnedRateLimitKey and k = k]
  obtain x db1 where one: "resetPattern scan (keyPrefix @ ''*'') isStorageOwnedRateLimitKey 0 db = Some (x, db1)"
    using assms(1) False by (auto simp: Reset_def split: option.splits)
  have "c_keys db1 k = c_keys db k" using keeps [OF one assms(2)] by simp
  then show ?thesis
    using assms(1) False one keeps [OF _ assms(2), of scan "''tenant:*:'' @ keyPrefix @ ''*''" 0 db1 r]
    by (cases x) (auto simp: Reset_def)
qed

subsection \<open>A run\<close>

definition steady :: tier where
  "steady = \<lparr>t_Name = ''default'', t_Max = 1, t_Window = 60000000000\<rparr>"

definition client_request :: rl_request where
  "client_request = \<lparr>rr_ctx = background, rr_IP = ''10.0.0.1'', rr_Header = (\<lambda>_. []), rr_Method = ''GET''\<rparr>"

definition enabled_only :: environment where
  "enabled_only = [EnvRateLimitEnabled \<mapsto> ''true'']"

theorem rate_limit_holds_witness:
  "\<exists>w. served (\<lambda>s. s) enabled_only (\<lambda>_. (1, 60000)) \<lparr>c_now = 0, c_keys = Map.empty\<rparr> w \<and>
     w_passed w = [(0, 60000, ''ratelimit:default:10.0.0.1'')] \<and>
     length (filter (\<lambda>(at, until, k). k = ''ratelimit:default:10.0.0.1'' \<and> until = 60000) (w_passed w)) \<le> 1 \<and>
     length (filter (\<lambda>(at, until, k). k = ''ratelimit:default:10.0.0.1'' \<and> 0 \<le> at \<and> at < 60000) (w_passed w)) \<le> 2"
proof -
  let ?db = "\<lparr>c_now = 0, c_keys = Map.empty\<rparr>"
  let ?k = "''ratelimit:default:10.0.0.1''"
  let ?run = "served (\<lambda>s. s) enabled_only (\<lambda>_. (1, 60000)) ?db"
  have "trim_space ''true'' = ''true''" by code_simp
  then have on: "RateLimitEnabled (\<lambda>s. s) enabled_only"
    by (simp add: RateLimitEnabled_def getenvBoolDefault_False getenvBool_iff enabled_only_def ToLower_def is_ascii_def lower_char_def)
  have "(New (\<lambda>s. s) enabled_only True [] :: unit limiter option) \<noteq> None" using on by (simp add: New_def Let_def)
  then obtain rl :: "unit limiter" where new: "New (\<lambda>s. s) enabled_only True [] = Some rl" by blast
  then have rl: "New (\<lambda>s. s) enabled_only True [] = Some rl" "rl_keyPrefix rl = []" "rl_identityFunc rl = IdentityFromIP"
    by (auto simp: New_def Let_def split: if_splits)
  have key: "redisKey (rr_ctx client_request) (buildKey rl steady (rl_identityFunc rl client_request)) = Inr ?k"
    using rl(2,3) by (simp add: redisKey_def background_def GetTenantIDContext_def Let_def GetKeyContext_def GetKey_def normalizeRateLimitKey_def keyPrefix_def buildKey_def
      steady_def IdentityFromIP_def client_request_def)
  then have ck: "counter_key rl client_request steady = Inr ?k" using rl(2) by (simp add: counter_key_def)
  have ms: "Milliseconds (t_Window steady) = 60000" by (simp add: Milliseconds_def steady_def)
  let ?db' = "\<lparr>c_now = 0, c_keys = [?k \<mapsto> (''1'', Some 60000)]\<rparr>"
  have "luaIncrExpire ?k 60000 ?db = (Some (1, 60000), ?db')" using script_starts [of ?db ?k 60000] by (simp add: c_live_def)
  then have "incrementCounter Connected rl (rr_ctx client_request) (buildKey rl steady (rl_identityFunc rl client_request)) steady ?db =
      (Inr (1, 60000000000), ?db')"
    using rl(2) key by (simp add: incrementCounter_def Increment_def increment_def ms wrap64_def) (simp add: steady_def)
  then obtain h hs where v: "check 0 Connected rl client_request steady ?db = (Next (h # hs), ?db')"
    by (simp add: check_def Let_def steady_def)
  have "?run (note_pass (Next (h # hs) :: unit verdict) ?db' (counter_key rl client_request steady) \<lparr>w_db = ?db, w_passed = []\<rparr>)"
    by (rule served.request [OF served.start rl(1)]) (use v ms in \<open>simp_all add: enforceable, simp_all add: steady_def\<close>)
  then have s: "?run \<lparr>w_db = ?db', w_passed = [(0, 60000, ?k)]\<rparr>" by (simp add: note_pass_def ck window_end_def)
  have bounds: "length (filter (\<lambda>(at, until, k). k = ?k \<and> until = 60000) (w_passed \<lparr>w_db = ?db', w_passed = [(0, 60000, ?k)]\<rparr>)) \<le> 1"
    "length (filter (\<lambda>(at, until, k). k = ?k \<and> 0 \<le> at \<and> at < 60000) (w_passed \<lparr>w_db = ?db', w_passed = [(0, 60000, ?k)]\<rparr>)) \<le> 2"
    using rate_limit_holds [OF s, of ?k 1 60000 60000 0] by simp_all
  show ?thesis
    by (intro exI [of _ "\<lparr>w_db = ?db', w_passed = [(0, 60000, ?k)]\<rparr>"] conjI s bounds) simp
qed

end
