(* ===== verification/Tenant_Gate.thy ===== *)
theory Tenant_Gate
  imports Commons_Prelude
begin

text \<open>
  \<open>commons/tenant-manager/internal/healthcheck/gate.go\<close> and \<open>internal/eviction/lru.go\<close>: which cached
  connection of a tenant is checked before it is used, and which one makes room for another. The gate's
  methods hold its mutex, so each is one step; \<open>Begin\<close> and \<open>End\<close> of one check are two, with those of
  other callers in between. A channel is a number; the gate keeps those it made and those it closed.
\<close>

subsection \<open>The gate\<close>

datatype Action = Skip | Run | Wait

record check =
  chk_done :: nat
  chk_invalid :: bool

record gate =
  interval :: int
  last_check :: "string \<rightharpoonup> int"
  inflight :: "string \<rightharpoonup> check"
  made :: nat
  closed_chans :: "nat set"

definition NewGate :: "int \<Rightarrow> gate" where
  "NewGate i = \<lparr>interval = max i 0, last_check = Map.empty, inflight = Map.empty, made = 0, closed_chans = {}\<rparr>"

text \<open>\<open>None\<close> is a nil gate.\<close>

definition Begin :: "gate option \<Rightarrow> string \<Rightarrow> int \<Rightarrow> (Action \<times> nat option) \<times> gate option" where
  "Begin gp k now =
     (case gp of
        None \<Rightarrow> ((Run, None), None)
      | Some g \<Rightarrow>
          if interval g \<le> 0 then ((Run, None), gp)
          else (case inflight g k of
              Some c \<Rightarrow> ((Wait, Some (chk_done c)), gp)
            | None \<Rightarrow>
                if (case last_check g k of Some l \<Rightarrow> time_Sub now l \<le> interval g | None \<Rightarrow> False)
                then ((Skip, None), gp)
                else ((Run, None),
                  Some (g\<lparr>inflight := (inflight g)(k \<mapsto> \<lparr>chk_done = made g, chk_invalid = False\<rparr>), made := Suc (made g)\<rparr>))))"

definition End :: "gate option \<Rightarrow> string \<Rightarrow> bool \<Rightarrow> int \<Rightarrow> gate option" where
  "End gp k healthy now =
     (case gp of
        None \<Rightarrow> None
      | Some g \<Rightarrow>
          if interval g \<le> 0 then gp
          else (case inflight g k of
              None \<Rightarrow> gp
            | Some c \<Rightarrow>
                Some (g\<lparr>inflight := (inflight g)(k := None),
                        last_check := (last_check g)(k := if healthy \<and> \<not> chk_invalid c then Some now else None),
                        closed_chans := insert (chk_done c) (closed_chans g)\<rparr>)))"

definition Forget :: "gate option \<Rightarrow> string \<Rightarrow> gate option" where
  "Forget gp k =
     map_option (\<lambda>g. g\<lparr>last_check := (last_check g)(k := None),
       inflight := (inflight g)(k := map_option (\<lambda>c. c\<lparr>chk_invalid := True\<rparr>) (inflight g k))\<rparr>) gp"

definition ForgetAll :: "gate option \<Rightarrow> gate option" where
  "ForgetAll gp =
     map_option (\<lambda>g. g\<lparr>last_check := Map.empty,
       inflight := (\<lambda>k. map_option (\<lambda>c. c\<lparr>chk_invalid := True\<rparr>) (inflight g k))\<rparr>) gp"

text \<open>The error of a context that has ended, and the chain of errors the check failed with.\<close>

definition CallerAbandoned :: "'e option \<Rightarrow> 'e list \<Rightarrow> bool" where
  "CallerAbandoned ctxErr checkErr = (case ctxErr of None \<Rightarrow> False | Some e \<Rightarrow> e \<in> set checkErr)"

text \<open>\<open>Await\<close> on a channel: what it may return, nothing or the error of the context.\<close>

inductive Await :: "nat set \<Rightarrow> 'e option \<Rightarrow> nat option \<Rightarrow> 'e option \<Rightarrow> bool" for chans :: "nat set" and ctxErr where
  no_channel: "Await chans ctxErr None None"
| verdict: "c \<in> chans \<Longrightarrow> Await chans ctxErr (Some c) None"
| ended: "ctxErr = Some e \<Longrightarrow> Await chans ctxErr (Some c) (Some e)"

subsection \<open>Callers\<close>

text \<open>
  What the callers of one gate are doing. A check is about the connection cached when it began: \<open>epoch\<close>
  counts the evictions of a tenant, each reported by \<open>Forget\<close>, and a caller remembers the epoch its
  check began in. \<open>passed\<close> is the time at which the connection now cached passed its latest check, read off
  the steps of the callers alone.
\<close>

datatype caller = Idle | Checking string nat | Waiting string nat | Serving string

record gate_system =
  gs_gate :: gate
  gs_caller :: "nat \<Rightarrow> caller"
  gs_now :: int
  gs_epoch :: "string \<Rightarrow> nat"
  gs_passed :: "string \<rightharpoonup> int"

definition gate_start :: "int \<Rightarrow> int \<Rightarrow> gate_system" where
  "gate_start i now = \<lparr>gs_gate = NewGate i, gs_caller = (\<lambda>_. Idle), gs_now = now, gs_epoch = (\<lambda>_. 0), gs_passed = Map.empty\<rparr>"

inductive gate_step :: "gate_system \<Rightarrow> gate_system \<Rightarrow> bool" where
  began_run:
    "gs_caller s p = Idle \<Longrightarrow> Begin (Some (gs_gate s)) k (gs_now s) = ((Run, w), Some g) \<Longrightarrow>
     gate_step s (s\<lparr>gs_gate := g, gs_caller := (gs_caller s)(p := Checking k (gs_epoch s k))\<rparr>)"
| began_wait:
    "gs_caller s p = Idle \<Longrightarrow> Begin (Some (gs_gate s)) k (gs_now s) = ((Wait, Some c), Some g) \<Longrightarrow>
     gate_step s (s\<lparr>gs_gate := g, gs_caller := (gs_caller s)(p := Waiting k c)\<rparr>)"
| began_skip:
    "gs_caller s p = Idle \<Longrightarrow> Begin (Some (gs_gate s)) k (gs_now s) = ((Skip, w), Some g) \<Longrightarrow>
     gate_step s (s\<lparr>gs_gate := g, gs_caller := (gs_caller s)(p := Serving k)\<rparr>)"
| ended_check:
    "gs_caller s p = Checking k e \<Longrightarrow> End (Some (gs_gate s)) k healthy (gs_now s) = Some g \<Longrightarrow>
     gate_step s (s\<lparr>gs_gate := g, gs_caller := (gs_caller s)(p := Idle),
       gs_passed := (gs_passed s)(k := if healthy \<and> e = gs_epoch s k then Some (gs_now s) else None)\<rparr>)"
| awoke:
    "gs_caller s p = Waiting k c \<Longrightarrow> Await (closed_chans (gs_gate s)) (ctxErr :: string option) (Some c) r \<Longrightarrow>
     gate_step s (s\<lparr>gs_caller := (gs_caller s)(p := Idle)\<rparr>)"
| left: "gs_caller s p = Serving k \<Longrightarrow> gate_step s (s\<lparr>gs_caller := (gs_caller s)(p := Idle)\<rparr>)"
| evicted:
    "Forget (Some (gs_gate s)) k = Some g \<Longrightarrow>
     gate_step s (s\<lparr>gs_gate := g, gs_epoch := (gs_epoch s)(k := Suc (gs_epoch s k)), gs_passed := (gs_passed s)(k := None)\<rparr>)"
| evicted_all:
    "ForgetAll (Some (gs_gate s)) = Some g \<Longrightarrow>
     gate_step s (s\<lparr>gs_gate := g, gs_epoch := (\<lambda>k. Suc (gs_epoch s k)), gs_passed := Map.empty\<rparr>)"
| passed_time: "d \<ge> 0 \<Longrightarrow> gate_step s (s\<lparr>gs_now := gs_now s + d\<rparr>)"

inductive gate_reachable :: "int \<Rightarrow> gate_system \<Rightarrow> bool" for i :: int where
  start: "gate_reachable i (gate_start i now)"
| step: "gate_reachable i s \<Longrightarrow> gate_step s t \<Longrightarrow> gate_reachable i t"

text \<open>Who is checking the connection of a tenant, and since which epoch.\<close>

definition checkers :: "(nat \<Rightarrow> caller) \<Rightarrow> string \<Rightarrow> (nat \<times> nat) set" where
  "checkers f k = {(p, e). f p = Checking k e}"

definition recently_passed :: "gate_system \<Rightarrow> string \<Rightarrow> bool" where
  "recently_passed s k \<longleftrightarrow> (\<exists>t. gs_passed s k = Some t \<and> time_Sub (gs_now s) t \<le> interval (gs_gate s))"

subsection \<open>The invariant\<close>

text \<open>A check in flight has exactly one owner, and is invalid exactly when its epoch is over.\<close>

definition owned :: "gate_system \<Rightarrow> string \<Rightarrow> bool" where
  "owned s k \<longleftrightarrow>
     (case inflight (gs_gate s) k of
        None \<Rightarrow> checkers (gs_caller s) k = {}
      | Some c \<Rightarrow> \<exists>p e. checkers (gs_caller s) k = {(p, e)} \<and> e \<le> gs_epoch s k \<and> (chk_invalid c \<longleftrightarrow> e \<noteq> gs_epoch s k))"

text \<open>The channels of checks in flight are open, and no two tenants share one.\<close>

definition channels_apart :: "gate \<Rightarrow> bool" where
  "channels_apart g \<longleftrightarrow>
     (\<forall>k c. inflight g k = Some c \<longrightarrow> chk_done c < made g \<and> chk_done c \<notin> closed_chans g) \<and>
     (\<forall>k c k' c'. inflight g k = Some c \<longrightarrow> inflight g k' = Some c' \<longrightarrow> chk_done c = chk_done c' \<longrightarrow> k = k') \<and>
     (\<forall>c \<in> closed_chans g. c < made g)"

text \<open>A waiting caller waits for a check in flight, or its channel is closed.\<close>

definition waiters_waked :: "gate_system \<Rightarrow> bool" where
  "waiters_waked s \<longleftrightarrow>
     (\<forall>p k c. gs_caller s p = Waiting k c \<longrightarrow>
        c \<in> closed_chans (gs_gate s) \<or> (\<exists>x. inflight (gs_gate s) k = Some x \<and> chk_done x = c))"

definition gate_inv :: "gate_system \<Rightarrow> bool" where
  "gate_inv s \<longleftrightarrow> 0 < interval (gs_gate s) \<and> last_check (gs_gate s) = gs_passed s \<and> (\<forall>k. owned s k) \<and>
     channels_apart (gs_gate s) \<and> waiters_waked s"

text \<open>What a call of \<open>Begin\<close> on a working gate can do, in terms of its fields.\<close>

lemma Begin_cases:
  assumes "0 < interval g" and "Begin (Some g) k now = ((a, w), r)"
  obtains (waits) c where "inflight g k = Some c" "a = Wait" "w = Some (chk_done c)" "r = Some g"
  | (skips) l where "inflight g k = None" "last_check g k = Some l" "time_Sub now l \<le> interval g" "a = Skip" "w = None" "r = Some g"
  | (runs) "inflight g k = None" "\<And>l. last_check g k = Some l \<Longrightarrow> interval g < time_Sub now l" "a = Run" "w = None"
      "r = Some (g\<lparr>inflight := (inflight g)(k \<mapsto> \<lparr>chk_done = made g, chk_invalid = False\<rparr>), made := Suc (made g)\<rparr>)"
proof (cases "inflight g k")
  case (Some c)
  with assms show ?thesis by (intro waits) (auto simp: Begin_def)
next
  case None
  show ?thesis
  proof (cases "\<exists>l. last_check g k = Some l \<and> time_Sub now l \<le> interval g")
    case True
    then obtain l where "last_check g k = Some l" "time_Sub now l \<le> interval g" by blast
    with None assms show ?thesis by (intro skips) (auto simp: Begin_def)
  next
    case False
    with None assms show ?thesis by (intro runs) (auto simp: Begin_def not_le split: option.splits)
  qed
qed

lemma channels_apart_kept:
  assumes "channels_apart g"
  shows "channels_apart (g\<lparr>inflight := (inflight g)(k \<mapsto> \<lparr>chk_done = made g, chk_invalid = False\<rparr>), made := Suc (made g)\<rparr>)"
    and "inflight g k = Some c \<Longrightarrow>
      channels_apart (g\<lparr>inflight := (inflight g)(k := None), last_check := l, closed_chans := insert (chk_done c) (closed_chans g)\<rparr>)"
    and "channels_apart (g\<lparr>last_check := l, inflight := (inflight g)(k := map_option (\<lambda>c. c\<lparr>chk_invalid := True\<rparr>) (inflight g k))\<rparr>)"
    and "channels_apart (g\<lparr>last_check := l, inflight := \<lambda>k. map_option (\<lambda>c. c\<lparr>chk_invalid := True\<rparr>) (inflight g k)\<rparr>)"
  using assms unfolding channels_apart_def by (auto split: if_splits simp: less_Suc_eq) (metis less_irrefl)+

lemma checkers_caller:
  "checkers (f(p := Checking k e)) k' = checkers f k' - {p} \<times> UNIV \<union> (if k' = k then {(p, e)} else {})"
  "checkers (f(p := Idle)) k' = checkers f k' - {p} \<times> UNIV"
  "checkers (f(p := Waiting k c)) k' = checkers f k' - {p} \<times> UNIV"
  "checkers (f(p := Serving k)) k' = checkers f k' - {p} \<times> UNIV"
  by (auto simp: checkers_def split: if_splits)

lemma not_checker:
  assumes "f p = Idle \<or> (\<exists>k c. f p = Waiting k c) \<or> (\<exists>k. f p = Serving k)"
  shows "checkers f k - {p} \<times> UNIV = checkers f k"
  using assms by (auto simp: checkers_def)

lemma gate_inv_step:
  assumes "gate_step s t" and "gate_inv s"
  shows "gate_inv t"
  using assms
proof (cases rule: gate_step.cases)
  case (began_run p k w g)
  have pos: "0 < interval (gs_gate s)" using assms(2) by (simp add: gate_inv_def)
  from pos began_run(3) show ?thesis
  proof (cases rule: Begin_cases)
    case runs
    have o: "owned s k'" for k' using assms(2) by (simp add: gate_inv_def)
    have "checkers (gs_caller s) k = {}" using o [of k] runs by (simp add: owned_def)
    then have "owned t k'" for k'
      using o [of k'] runs began_run
      by (cases "k' = k"; cases "inflight (gs_gate s) k'") (simp_all add: owned_def checkers_caller not_checker cong: option.case_cong)
    moreover have "waiters_waked t"
      using assms(2) runs(1,5) began_run(1,2) unfolding gate_inv_def waiters_waked_def
      by (fastforce split: if_splits)
    ultimately show ?thesis
      using assms(2) runs began_run by (simp add: gate_inv_def channels_apart_kept)
  qed simp_all
next
  case (began_wait p k c g)
  have pos: "0 < interval (gs_gate s)" using assms(2) by (simp add: gate_inv_def)
  from pos began_wait(3) show ?thesis
  proof (cases rule: Begin_cases)
    case (waits x)
    then show ?thesis using assms(2) began_wait
      by (auto simp: gate_inv_def owned_def waiters_waked_def checkers_caller not_checker cong: option.case_cong)
  qed simp_all
next
  case (began_skip p k w g)
  have pos: "0 < interval (gs_gate s)" using assms(2) by (simp add: gate_inv_def)
  from pos began_skip(3) show ?thesis
  proof (cases rule: Begin_cases)
    case (skips l)
    then show ?thesis using assms(2) began_skip
      by (auto simp: gate_inv_def owned_def waiters_waked_def checkers_caller not_checker cong: option.case_cong)
  qed simp_all
next
  case (ended_check p k e healthy g)
  have o: "owned s k'" for k' using assms(2) by (simp add: gate_inv_def)
  have "(p, e) \<in> checkers (gs_caller s) k" using ended_check(2) by (simp add: checkers_def)
  with o [of k] obtain c where c: "inflight (gs_gate s) k = Some c" "checkers (gs_caller s) k = {(p, e)}"
    "chk_invalid c \<longleftrightarrow> e \<noteq> gs_epoch s k" by (auto simp: owned_def split: option.splits)
  have g: "g = gs_gate s\<lparr>inflight := (inflight (gs_gate s))(k := None),
                        last_check := (last_check (gs_gate s))(k := if healthy \<and> \<not> chk_invalid c then Some (gs_now s) else None),
                        closed_chans := insert (chk_done c) (closed_chans (gs_gate s))\<rparr>"
    using ended_check(3) c assms(2) by (simp add: End_def gate_inv_def)
  have "checkers (gs_caller s) k' - {p} \<times> UNIV = (if k' = k then {} else checkers (gs_caller s) k')" for k'
    using ended_check(2) c(2) by (auto simp: checkers_def)
  then have "owned t k'" for k' using o [of k'] c ended_check g
    by (cases "k' = k"; cases "inflight (gs_gate s) k'") (simp_all add: owned_def checkers_caller)
  moreover have "waiters_waked t"
    using assms(2) c(1) ended_check(1,2) g unfolding gate_inv_def waiters_waked_def
    by (fastforce split: if_splits)
  ultimately show ?thesis
    using assms(2) c ended_check g by (simp add: gate_inv_def channels_apart_kept)
next
  case (awoke p k c ctxErr r)
  then show ?thesis using assms(2)
    by (auto simp: gate_inv_def owned_def waiters_waked_def checkers_caller not_checker cong: option.case_cong)
next
  case (left p k)
  then show ?thesis using assms(2)
    by (auto simp: gate_inv_def owned_def waiters_waked_def checkers_caller not_checker cong: option.case_cong)
next
  case (evicted k g)
  then have g: "g = gs_gate s\<lparr>last_check := (last_check (gs_gate s))(k := None),
       inflight := (inflight (gs_gate s))(k := map_option (\<lambda>c. c\<lparr>chk_invalid := True\<rparr>) (inflight (gs_gate s) k))\<rparr>"
    by (simp add: Forget_def)
  have o: "owned s k'" for k' using assms(2) by (simp add: gate_inv_def)
  have "owned t k'" for k' using o [of k'] evicted g
    by (cases "k' = k"; cases "inflight (gs_gate s) k'") (auto simp: owned_def)
  moreover have "waiters_waked t" using assms(2) evicted(1) g unfolding gate_inv_def waiters_waked_def
    by (fastforce split: if_splits)
  ultimately show ?thesis using assms(2) evicted g by (simp add: gate_inv_def channels_apart_kept)
next
  case (evicted_all g)
  then have g: "g = gs_gate s\<lparr>last_check := Map.empty,
       inflight := (\<lambda>k. map_option (\<lambda>c. c\<lparr>chk_invalid := True\<rparr>) (inflight (gs_gate s) k))\<rparr>"
    by (simp add: ForgetAll_def)
  have o: "owned s k'" for k' using assms(2) by (simp add: gate_inv_def)
  have "owned t k'" for k' using o [of k'] evicted_all g
    by (cases "inflight (gs_gate s) k'") (auto simp: owned_def)
  moreover have "waiters_waked t" using assms(2) evicted_all(1) g unfolding gate_inv_def waiters_waked_def
    by fastforce
  ultimately show ?thesis using assms(2) evicted_all g by (simp add: gate_inv_def channels_apart_kept)
next
  case (passed_time d)
  then show ?thesis using assms(2) by (simp add: gate_inv_def owned_def waiters_waked_def cong: option.case_cong)
qed

lemma gate_inv_reachable:
  assumes "gate_reachable i s" and "0 < i"
  shows "gate_inv s"
  using assms
proof (induction rule: gate_reachable.induct)
  case (start now)
  then show ?case
    by (simp add: gate_inv_def gate_start_def NewGate_def owned_def checkers_def channels_apart_def waiters_waked_def)
next
  case (step s t)
  then show ?case by (blast intro: gate_inv_step)
qed

lemma owned_checker:
  assumes "owned s k" and "gs_caller s p = Checking k e"
  obtains c where "inflight (gs_gate s) k = Some c" and "checkers (gs_caller s) k = {(p, e)}"
    and "chk_invalid c \<longleftrightarrow> e \<noteq> gs_epoch s k"
proof -
  have "(p, e) \<in> checkers (gs_caller s) k" using assms(2) by (simp add: checkers_def)
  with assms(1) that show ?thesis by (auto simp: owned_def split: option.splits)
qed

lemma gate_decision:
  assumes "gate_inv s"
  shows "fst (fst (Begin (Some (gs_gate s)) k (gs_now s))) =
      (if checkers (gs_caller s) k \<noteq> {} then Wait else if recently_passed s k then Skip else Run)"
proof -
  have i: "0 < interval (gs_gate s)" "last_check (gs_gate s) = gs_passed s" "owned s k"
    using assms by (simp_all add: gate_inv_def)
  obtain a w r where b: "Begin (Some (gs_gate s)) k (gs_now s) = ((a, w), r)" by (metis surj_pair)
  from i(1) b show ?thesis
  proof (cases rule: Begin_cases)
    case (waits c)
    then show ?thesis using i b by (auto simp: owned_def)
  next
    case (skips l)
    then show ?thesis using i b by (auto simp: owned_def recently_passed_def)
  next
    case runs
    then show ?thesis using i b by (fastforce simp: owned_def recently_passed_def)
  qed
qed

lemma waiter_woken:
  assumes "gate_inv s" and "gs_caller s p = Waiting k c" and "c \<notin> closed_chans (gs_gate s)"
  shows "\<exists>q e. gs_caller s q = Checking k e \<and>
      c \<in> closed_chans (the (End (Some (gs_gate s)) k healthy (gs_now s)))"
proof -
  from assms obtain x where x: "inflight (gs_gate s) k = Some x" "chk_done x = c"
    unfolding gate_inv_def waiters_waked_def by blast
  have "owned s k" "0 < interval (gs_gate s)" using assms(1) by (simp_all add: gate_inv_def)
  with x(1) obtain q e where "(q, e) \<in> checkers (gs_caller s) k" by (auto simp: owned_def)
  with x \<open>0 < interval (gs_gate s)\<close> show ?thesis by (auto simp: checkers_def End_def)
qed

lemma one_checker:
  assumes "gate_inv s" and "gs_caller s p = Checking k e" and "gs_caller s q = Checking k e'"
  shows "p = q"
proof -
  have "owned s k" using assms(1) by (simp add: gate_inv_def)
  then have "checkers (gs_caller s) k = {(p, e)}" using assms(2) by (blast elim: owned_checker)
  then show ?thesis using assms(3) by (auto simp: checkers_def)
qed

text \<open>A gate that is nil or switched off has every caller run its own check.\<close>

lemma disabled_gate_runs:
  "Begin None k now = ((Run, None), None)"
  "i \<le> 0 \<Longrightarrow> Begin (Some (NewGate i)) k now = ((Run, None), Some (NewGate i))"
  "i \<le> 0 \<Longrightarrow> End (Some (NewGate i)) k healthy now = Some (NewGate i)"
  by (simp_all add: Begin_def End_def NewGate_def)

text \<open>
  C23. In every interleaving of the callers of a gate, at most one of them checks the connection of a
  tenant; \<open>Begin\<close> tells the others to wait, tells a caller to use the connection unchecked exactly when
  nobody checks it and the connection now cached itself passed its latest check within the interval, and
  otherwise has the caller run the check; and no caller waits on a channel without somebody checking
  whose \<open>End\<close> closes it, whatever the verdict.
\<close>

theorem gate_serves_checked_connections:
  assumes "gate_reachable i s" and "0 < i"
  shows "fst (fst (Begin (Some (gs_gate s)) k (gs_now s))) =
      (if checkers (gs_caller s) k \<noteq> {} then Wait else if recently_passed s k then Skip else Run) \<and>
    (\<forall>p q e e'. gs_caller s p = Checking k e \<longrightarrow> gs_caller s q = Checking k e' \<longrightarrow> p = q) \<and>
    (\<forall>p c healthy. gs_caller s p = Waiting k c \<longrightarrow> c \<notin> closed_chans (gs_gate s) \<longrightarrow>
      (\<exists>q e. gs_caller s q = Checking k e \<and> c \<in> closed_chans (the (End (Some (gs_gate s)) k healthy (gs_now s)))))"
proof -
  have inv: "gate_inv s" using assms by (rule gate_inv_reachable)
  show ?thesis
    by (intro conjI allI impI)
      (rule gate_decision [OF inv], erule (1) one_checker [OF inv], erule (1) waiter_woken [OF inv])
qed

text \<open>A caller that checks, and one that waits for its verdict.\<close>

definition gate_example :: "gate_system" where
  "gate_example =
     \<lparr>gs_gate = \<lparr>interval = 10, last_check = Map.empty, inflight = [''acme'' \<mapsto> \<lparr>chk_done = 0, chk_invalid = False\<rparr>],
        made = 1, closed_chans = {}\<rparr>,
      gs_caller = (\<lambda>_. Idle)(0 := Checking ''acme'' 0, 1 := Waiting ''acme'' 0), gs_now = 5,
      gs_epoch = (\<lambda>_. 0), gs_passed = Map.empty\<rparr>"

lemma gate_example_reachable: "gate_reachable 10 gate_example"
proof -
  define s where "s = gate_start 10 5"
  define t where "t = s\<lparr>gs_gate := (gs_gate s)\<lparr>inflight := [''acme'' \<mapsto> \<lparr>chk_done = 0, chk_invalid = False\<rparr>], made := 1\<rparr>,
      gs_caller := (gs_caller s)(0 := Checking ''acme'' (gs_epoch s ''acme''))\<rparr>"
  have "gate_step s t"
    unfolding t_def by (rule began_run [where w = None])
      (simp_all add: s_def gate_start_def NewGate_def Begin_def)
  moreover have "gate_step t (t\<lparr>gs_gate := gs_gate t, gs_caller := (gs_caller t)(1 := Waiting ''acme'' 0)\<rparr>)"
    by (rule began_wait) (simp_all add: t_def s_def gate_start_def NewGate_def Begin_def)
  moreover have "t\<lparr>gs_gate := gs_gate t, gs_caller := (gs_caller t)(1 := Waiting ''acme'' 0)\<rparr> = gate_example"
    by (simp add: t_def s_def gate_start_def NewGate_def gate_example_def)
  moreover have "gate_reachable 10 s" unfolding s_def by (rule gate_reachable.start)
  ultimately show ?thesis by (metis gate_reachable.step)
qed

theorem gate_serves_checked_connections_witness:
  "gate_reachable 10 gate_example \<and> gs_caller gate_example 1 = Waiting ''acme'' 0 \<and>
   fst (fst (Begin (Some (gs_gate gate_example)) ''acme'' 5)) = Wait \<and>
   0 \<in> closed_chans (the (End (Some (gs_gate gate_example)) ''acme'' False 5))"
proof -
  have "(0, 0) \<in> checkers (gs_caller gate_example) ''acme''" by (simp add: checkers_def gate_example_def)
  then have "checkers (gs_caller gate_example) ''acme'' \<noteq> {}" by blast
  then have "fst (fst (Begin (Some (gs_gate gate_example)) ''acme'' (gs_now gate_example))) = Wait"
    using gate_serves_checked_connections [OF gate_example_reachable, of "''acme''"] by simp
  moreover have "0 \<in> closed_chans (the (End (Some (gs_gate gate_example)) ''acme'' False (gs_now gate_example)))"
    by (simp add: gate_example_def End_def)
  ultimately show ?thesis using gate_example_reachable by (simp add: gate_example_def)
qed

subsection \<open>Which connection makes room\<close>

definition DefaultIdleTimeout :: int where "DefaultIdleTimeout = 300000000000"

text \<open>The map of last uses is ranged over in some order. A zero \<open>time.Time\<close> stands before the first choice.\<close>

fun find_oldest :: "int \<Rightarrow> int \<Rightarrow> string \<times> int \<Rightarrow> (string \<times> int) list \<Rightarrow> string \<times> int" where
  "find_oldest now idleTimeout (oldestID, oldestTime) [] = (oldestID, oldestTime)"
| "find_oldest now idleTimeout (oldestID, oldestTime) ((i, t) # rest) =
     (if time_Sub now t < idleTimeout then find_oldest now idleTimeout (oldestID, oldestTime) rest
      else if oldestID = [] \<or> t < oldestTime then find_oldest now idleTimeout (i, t) rest
      else find_oldest now idleTimeout (oldestID, oldestTime) rest)"

definition FindLRUEvictionCandidate :: "int \<Rightarrow> int \<Rightarrow> (string \<times> int) list \<Rightarrow> int \<Rightarrow> int \<Rightarrow> string \<times> bool" where
  "FindLRUEvictionCandidate connectionCount maxConnections lastAccessed idleTimeout now =
     (if maxConnections \<le> 0 \<or> connectionCount < maxConnections then ([], False)
      else
        (let idleTimeout = (if idleTimeout \<le> 0 then DefaultIdleTimeout else idleTimeout);
             (oldestID, _) = find_oldest now idleTimeout ([], 0) lastAccessed
         in if oldestID = [] then ([], False) else (oldestID, True)))"

text \<open>The entries that have been idle for the timeout, and what the scan finds among them.\<close>

definition idle_entries :: "int \<Rightarrow> int \<Rightarrow> (string \<times> int) list \<Rightarrow> (string \<times> int) list" where
  "idle_entries now timeout xs = filter (\<lambda>(_, t). timeout \<le> time_Sub now t) xs"

lemma find_oldest_idle:
  "find_oldest now timeout b xs = find_oldest now timeout b (idle_entries now timeout xs)"
  by (induction now timeout b xs rule: find_oldest.induct) (auto simp: idle_entries_def)

lemma find_oldest_min:
  assumes "i \<noteq> []" and "\<And>j u. (j, u) \<in> set xs \<Longrightarrow> j \<noteq> [] \<and> timeout \<le> time_Sub now u"
  shows "find_oldest now timeout (i, t) xs \<in> insert (i, t) (set xs) \<and>
    (\<forall>u \<in> insert t (snd ` set xs). snd (find_oldest now timeout (i, t) xs) \<le> u)"
  using assms
proof (induction xs arbitrary: i t)
  case Nil
  then show ?case by simp
next
  case (Cons x xs)
  obtain j u where x: "x = (j, u)" by (cases x)
  have j: "j \<noteq> []" "\<not> time_Sub now u < timeout" using Cons.prems(2) [of j u] x by auto
  have rest: "(k, v) \<in> set xs \<Longrightarrow> k \<noteq> [] \<and> timeout \<le> time_Sub now v" for k v
    using Cons.prems(2) [of k v] by simp
  show ?case
  proof (cases "u < t")
    case True
    then show ?thesis using Cons.IH [OF j(1) rest, of u] Cons.prems(1) x j by fastforce
  next
    case False
    then show ?thesis using Cons.IH [OF Cons.prems(1) rest, of t] Cons.prems(1) x j by fastforce
  qed
qed

text \<open>
  With tenants that have names, a full pool gives up the least recently used of the connections that
  have been idle for the timeout, whatever the order of the scan, and nothing when all are in use.
\<close>

theorem eviction_takes_least_recent:
  assumes "\<And>i t. (i, t) \<in> set xs \<Longrightarrow> i \<noteq> []" and "0 < maxConnections" and "maxConnections \<le> n" and "0 < timeout"
  shows "(case FindLRUEvictionCandidate n maxConnections xs timeout now of
      (i, False) \<Rightarrow> idle_entries now timeout xs = []
    | (i, True) \<Rightarrow> \<exists>t. (i, t) \<in> set (idle_entries now timeout xs) \<and> (\<forall>(j, u) \<in> set (idle_entries now timeout xs). t \<le> u))"
proof (cases "idle_entries now timeout xs")
  case Nil
  then show ?thesis using assms find_oldest_idle [of now timeout "([], 0)" xs]
    by (simp add: FindLRUEvictionCandidate_def)
next
  case (Cons x rest)
  obtain j u where x: "x = (j, u)" by (cases x)
  have idle: "(k, v) \<in> set (idle_entries now timeout xs) \<Longrightarrow> k \<noteq> [] \<and> timeout \<le> time_Sub now v" for k v
    using assms(1) by (auto simp: idle_entries_def)
  have ju: "j \<noteq> []" "\<not> time_Sub now u < timeout" using idle [of j u] Cons x by auto
  obtain i t where f: "find_oldest now timeout (j, u) rest = (i, t)" by fastforce
  have m: "(i, t) \<in> set (idle_entries now timeout xs)" "\<forall>(j, u) \<in> set (idle_entries now timeout xs). t \<le> u"
    using find_oldest_min [of j rest timeout now u] idle ju Cons x f by (auto; force)+
  then have "FindLRUEvictionCandidate n maxConnections xs timeout now = (i, True)"
    using assms find_oldest_idle [of now timeout "([], 0)" xs] Cons x ju f idle [of i t]
    by (simp add: FindLRUEvictionCandidate_def)
  then show ?thesis using m by auto
qed

text \<open>
  The empty name also marks that nothing was found yet: an entry under it is never evicted, and its
  time does not count once another entry follows.
\<close>

lemma nameless_entry_kept:
  "FindLRUEvictionCandidate n maxConnections [([], t)] timeout now = ([], False)"
  by (simp add: FindLRUEvictionCandidate_def)

end
