(* ===== verification/Tenant_Config.thy ===== *)
theory Tenant_Config
  imports Commons_Prelude "HOL-Library.List_Lexorder" "HOL-Library.Char_ord"
begin

text \<open>
  \<open>commons/tenant-manager/core\<close>: the configuration of a tenant (types.go) and the errors of its
  resolution (errors.go). A Go map is a finite partial function, a nil map the empty one; a pointer is
  an option. The times of creation and update are left out: nothing reads them.
\<close>

subsection \<open>Configuration\<close>

record PostgreSQLConfig =
  pg_Host :: string
  pg_Port :: int
  pg_Database :: string
  pg_Username :: string
  pg_Password :: string
  pg_Schema :: string
  pg_SSLMode :: string
  pg_SSLRootCert :: string
  pg_SSLCert :: string
  pg_SSLKey :: string

record MongoDBConfig =
  mg_Host :: string
  mg_Port :: int
  mg_Database :: string
  mg_Username :: string
  mg_Password :: string
  mg_URI :: string
  mg_AuthSource :: string
  mg_DirectConnection :: bool
  mg_MaxPoolSize :: int
  mg_TLS :: bool
  mg_TLSCAFile :: string
  mg_TLSCertFile :: string
  mg_TLSKeyFile :: string
  mg_TLSSkipVerify :: bool

record RabbitMQConfig =
  rb_Host :: string
  rb_Port :: int
  rb_VHost :: string
  rb_Username :: string
  rb_Password :: string
  rb_TLS :: "bool option"
  rb_TLSCAFile :: string

record MessagingConfig =
  ms_RabbitMQ :: "RabbitMQConfig option"

record KafkaConfig =
  kf_Brokers :: "string list"
  kf_Username :: string
  kf_Password :: string
  kf_Mechanism :: string
  kf_TLS :: "bool option"

record StreamingConfig =
  st_Kafka :: "KafkaConfig option"

record ConnectionSettings =
  MaxOpenConns :: int
  MaxIdleConns :: int
  StatementTimeout :: string

record DatabaseConfig =
  db_PostgreSQL :: "PostgreSQLConfig option"
  db_PostgreSQLReplica :: "PostgreSQLConfig option"
  db_MongoDB :: "MongoDBConfig option"
  db_ConnectionSettings :: "ConnectionSettings option"

record TenantConfig =
  cfg_ID :: string
  cfg_TenantSlug :: string
  cfg_TenantName :: string
  cfg_Service :: string
  cfg_Status :: string
  cfg_IsolationMode :: string
  cfg_Databases :: "string \<rightharpoonup> DatabaseConfig"
  cfg_Messaging :: "MessagingConfig option"
  cfg_RabbitMQ :: "string \<rightharpoonup> RabbitMQConfig"
  cfg_Streaming :: "string \<rightharpoonup> StreamingConfig"
  cfg_ConnectionSettings :: "ConnectionSettings option"

text \<open>The zero values of the records that the code builds field by field.\<close>

definition zero_RabbitMQ :: RabbitMQConfig where
  "zero_RabbitMQ = \<lparr>rb_Host = [], rb_Port = 0, rb_VHost = [], rb_Username = [], rb_Password = [], rb_TLS = None, rb_TLSCAFile = []\<rparr>"

definition zero_PostgreSQL :: PostgreSQLConfig where
  "zero_PostgreSQL = \<lparr>pg_Host = [], pg_Port = 0, pg_Database = [], pg_Username = [], pg_Password = [], pg_Schema = [],
     pg_SSLMode = [], pg_SSLRootCert = [], pg_SSLCert = [], pg_SSLKey = []\<rparr>"

definition zero_MongoDB :: MongoDBConfig where
  "zero_MongoDB = \<lparr>mg_Host = [], mg_Port = 0, mg_Database = [], mg_Username = [], mg_Password = [], mg_URI = [],
     mg_AuthSource = [], mg_DirectConnection = False, mg_MaxPoolSize = 0, mg_TLS = False, mg_TLSCAFile = [],
     mg_TLSCertFile = [], mg_TLSKeyFile = [], mg_TLSSkipVerify = False\<rparr>"

definition zero_Database :: DatabaseConfig where
  "zero_Database = \<lparr>db_PostgreSQL = None, db_PostgreSQLReplica = None, db_MongoDB = None, db_ConnectionSettings = None\<rparr>"

definition zero_Tenant :: TenantConfig where
  "zero_Tenant = \<lparr>cfg_ID = [], cfg_TenantSlug = [], cfg_TenantName = [], cfg_Service = [], cfg_Status = [],
     cfg_IsolationMode = [], cfg_Databases = Map.empty, cfg_Messaging = None, cfg_RabbitMQ = Map.empty,
     cfg_Streaming = Map.empty, cfg_ConnectionSettings = None\<rparr>"

subsection \<open>Selection\<close>

definition sortedKeys :: "(string \<rightharpoonup> 'v) \<Rightarrow> string list" where
  "sortedKeys m = sorted_list_of_set (dom m)"

text \<open>The loop over sorted keys that returns the first entry in which something is set.\<close>

fun first_set :: "('v \<Rightarrow> 'c option) \<Rightarrow> (string \<rightharpoonup> 'v) \<Rightarrow> string list \<Rightarrow> 'c option" where
  "first_set sel m [] = None"
| "first_set sel m (key # keys) =
     (case Option.bind (m key) sel of Some c \<Rightarrow> Some c | None \<Rightarrow> first_set sel m keys)"

definition GetPostgreSQLConfig :: "TenantConfig option \<Rightarrow> string \<Rightarrow> string \<Rightarrow> PostgreSQLConfig option" where
  "GetPostgreSQLConfig tc service module =
     (case tc of
        None \<Rightarrow> None
      | Some c \<Rightarrow>
          if module \<noteq> [] then Option.bind (cfg_Databases c module) db_PostgreSQL
          else first_set db_PostgreSQL (cfg_Databases c) (sortedKeys (cfg_Databases c)))"

definition GetPostgreSQLReplicaConfig :: "TenantConfig option \<Rightarrow> string \<Rightarrow> string \<Rightarrow> PostgreSQLConfig option" where
  "GetPostgreSQLReplicaConfig tc service module =
     (case tc of
        None \<Rightarrow> None
      | Some c \<Rightarrow>
          if module \<noteq> [] then Option.bind (cfg_Databases c module) db_PostgreSQLReplica
          else first_set db_PostgreSQLReplica (cfg_Databases c) (sortedKeys (cfg_Databases c)))"

definition GetMongoDBConfig :: "TenantConfig option \<Rightarrow> string \<Rightarrow> string \<Rightarrow> MongoDBConfig option" where
  "GetMongoDBConfig tc service module =
     (case tc of
        None \<Rightarrow> None
      | Some c \<Rightarrow>
          if module \<noteq> [] then Option.bind (cfg_Databases c module) db_MongoDB
          else first_set db_MongoDB (cfg_Databases c) (sortedKeys (cfg_Databases c)))"

definition IsSchemaMode :: "TenantConfig option \<Rightarrow> bool" where
  "IsSchemaMode tc = (case tc of None \<Rightarrow> False | Some c \<Rightarrow> cfg_IsolationMode c = ''schema'')"

definition IsIsolatedMode :: "TenantConfig option \<Rightarrow> bool" where
  "IsIsolatedMode tc =
     (case tc of None \<Rightarrow> False
      | Some c \<Rightarrow> cfg_IsolationMode c = [] \<or> cfg_IsolationMode c = ''isolated'' \<or> cfg_IsolationMode c = ''database'')"

definition GetRabbitMQConfig :: "TenantConfig option \<Rightarrow> RabbitMQConfig option" where
  "GetRabbitMQConfig tc = (case tc of None \<Rightarrow> None | Some c \<Rightarrow> Option.bind (cfg_Messaging c) ms_RabbitMQ)"

definition GetModuleRabbitMQConfig :: "TenantConfig option \<Rightarrow> string \<Rightarrow> RabbitMQConfig option" where
  "GetModuleRabbitMQConfig tc module =
     (case tc of
        None \<Rightarrow> None
      | Some c \<Rightarrow>
          if module \<noteq> [] then cfg_RabbitMQ c module
          else (case sortedKeys (cfg_RabbitMQ c) of [] \<Rightarrow> None | key # _ \<Rightarrow> cfg_RabbitMQ c key))"

definition GetKafkaConfig :: "TenantConfig option \<Rightarrow> string \<Rightarrow> KafkaConfig option" where
  "GetKafkaConfig tc module =
     (case tc of
        None \<Rightarrow> None
      | Some c \<Rightarrow>
          if module \<noteq> [] then Option.bind (cfg_Streaming c module) st_Kafka
          else first_set st_Kafka (cfg_Streaming c) (sortedKeys (cfg_Streaming c)))"

definition HasRabbitMQ :: "TenantConfig option \<Rightarrow> bool" where
  "HasRabbitMQ tc \<longleftrightarrow> GetRabbitMQConfig tc \<noteq> None"

text \<open>
  Without a module every getter takes the least module that has what is asked for, so the answer does
  not depend on the order in which a map is ranged over.
\<close>

lemma first_set_least:
  assumes "finite (dom m)"
  shows "first_set sel m (sortedKeys m) =
    (if \<exists>k v. m k = Some v \<and> sel v \<noteq> None
     then sel (the (m (Min {k. \<exists>v. m k = Some v \<and> sel v \<noteq> None}))) else None)"
proof -
  have scan: "first_set sel m ks =
      (if \<exists>k \<in> set ks. Option.bind (m k) sel \<noteq> None
       then Option.bind (m (Min {k \<in> set ks. Option.bind (m k) sel \<noteq> None})) sel else None)"
    if "sorted ks" for ks
    using that
  proof (induction ks)
    case Nil
    then show ?case by simp
  next
    case (Cons k ks)
    show ?case
    proof (cases "Option.bind (m k) sel")
      case None
      then have "{j \<in> set (k # ks). Option.bind (m j) sel \<noteq> None} = {j \<in> set ks. Option.bind (m j) sel \<noteq> None}"
        by auto
      then show ?thesis using Cons None by simp
    next
      case (Some c)
      have "Min {j \<in> set (k # ks). Option.bind (m j) sel \<noteq> None} = k"
        by (rule Min_eqI) (use Cons.prems Some in auto)
      then show ?thesis using Some by auto
    qed
  qed
  have keys: "sorted (sortedKeys m)" "set (sortedKeys m) = dom m"
    using assms by (simp_all add: sortedKeys_def)
  have "{k \<in> set (sortedKeys m). Option.bind (m k) sel \<noteq> None} = {k. \<exists>v. m k = Some v \<and> sel v \<noteq> None}"
    using keys(2) by (auto simp: Option.bind_eq_Some_conv domI)
  moreover have "(\<exists>k \<in> set (sortedKeys m). Option.bind (m k) sel \<noteq> None) \<longleftrightarrow> (\<exists>k v. m k = Some v \<and> sel v \<noteq> None)"
    using keys(2) by (auto simp: Option.bind_eq_Some_conv)
  moreover have "Option.bind (m (Min A)) sel = sel (the (m (Min A)))" if "A = {k. \<exists>v. m k = Some v \<and> sel v \<noteq> None}" "A \<noteq> {}" for A
  proof -
    have "finite A" using that(1) by (intro finite_subset [OF _ assms]) auto
    then have "Min A \<in> A" using that(2) by (rule Min_in)
    then show ?thesis using that(1) by auto
  qed
  ultimately show ?thesis using scan [OF keys(1)] by auto
qed

subsection \<open>Errors\<close>

text \<open>
  What resolving a tenant fails with, and what a wrapping error wraps. \<open>Service_error\<close> and
  \<open>Other_error\<close> are messages with no sentinel of their own.
\<close>

datatype tenant_error =
    ErrTenantNotFound | ErrTenantConflict | ErrAssociationConflict | ErrServiceNotConfigured
  | ErrTenantServiceAccessDenied | ErrManagerClosed | ErrTenantNotProvisioned
  | ErrCircuitBreakerOpen | ErrAuthorizationTokenRequired | ErrInvalidAuthorizationToken | ErrInvalidTenantClaims
  | ErrMissingTenantIDClaim | ErrConnectionFailed | ErrNilCache | ErrInsecureHTTP | ErrServiceAPIKeyRequired
  | ErrInvalidTenantIDFormat
  | TenantSuspendedError string string string
  | Service_error int | Other_error string
  | Wrapped "tenant_error list"

text \<open>\<open>errors.Is\<close> and \<open>errors.As\<close> walk what an error wraps, depth first.\<close>

fun error_chain :: "tenant_error \<Rightarrow> tenant_error list" where
  "error_chain (Wrapped es) = Wrapped es # concat (map error_chain es)"
| "error_chain e = [e]"

definition errors_Is :: "tenant_error \<Rightarrow> tenant_error \<Rightarrow> bool" where
  "errors_Is e target \<longleftrightarrow> target \<in> set (error_chain e)"

fun suspended :: "tenant_error \<Rightarrow> bool" where
  "suspended (TenantSuspendedError _ _ _) = True"
| "suspended _ = False"

definition as_suspended :: "tenant_error \<Rightarrow> tenant_error option" where
  "as_suspended e = List.find suspended (error_chain e)"

definition IsCircuitBreakerOpenError :: "tenant_error \<Rightarrow> bool" where
  "IsCircuitBreakerOpenError e = errors_Is e ErrCircuitBreakerOpen"

definition IsTenantSuspendedError :: "tenant_error \<Rightarrow> bool" where
  "IsTenantSuspendedError e \<longleftrightarrow> as_suspended e \<noteq> None"

definition IsTenantPurgedError :: "tenant_error \<Rightarrow> bool" where
  "IsTenantPurgedError e = (case as_suspended e of Some (TenantSuspendedError _ status _) \<Rightarrow> status = ''purged'' | _ \<Rightarrow> False)"

text \<open>\<open>TenantSuspendedError.Error\<close>: the message of the server, or one made up.\<close>

fun suspended_message :: "tenant_error \<Rightarrow> string" where
  "suspended_message (TenantSuspendedError tenant status message) =
     (if message \<noteq> [] then message else ''tenant service is '' @ status @ '' for tenant '' @ tenant)"
| "suspended_message _ = ''tenant service is unavailable''"

lemma purged_is_suspended: "IsTenantPurgedError e \<Longrightarrow> IsTenantSuspendedError e"
  by (auto simp: IsTenantPurgedError_def IsTenantSuspendedError_def split: option.splits)

lemma find_append: "List.find P (xs @ ys) = (case List.find P xs of Some x \<Rightarrow> Some x | None \<Rightarrow> List.find P ys)"
  by (induction xs) auto

lemma as_suspended_wrapped [simp]:
  "as_suspended (Wrapped [a, TenantSuspendedError t s m]) =
     (case as_suspended a of Some x \<Rightarrow> Some x | None \<Rightarrow> Some (TenantSuspendedError t s m))"
  by (simp add: as_suspended_def find_append split: option.splits)

end
