(* ===== verification/Tenant_Cache.thy ===== *)
theory Tenant_Cache
  imports Tenant_Config
begin

text \<open>
  The two caches of tenant configurations: \<open>tenant-manager/cache/memory.go\<close>, which holds the responses
  of the Tenant Manager as text (the second tier), and \<open>tenant-manager/tenantcache/tenant_cache.go\<close>,
  which holds configurations (the first). Both keep what they promise as one interface, the locale
  \<open>expiring_cache\<close>. Every operation but \<open>Get\<close> is one critical section; the two of \<open>Get\<close> are
  \<open>mem_Get\<close>/\<open>tc_Get\<close> up to the eviction and \<open>mem_evict\<close>/\<open>tc_evict\<close>. An argument \<open>now\<close> is
  \<open>time.Now()\<close>.
\<close>

subsection \<open>What a cache with expiry promises\<close>

text \<open>
  \<open>held c k t\<close> is what the cache would answer for \<open>k\<close> at time \<open>t\<close>; \<open>lasts ttl s t\<close> says that an entry
  stored at \<open>s\<close> for \<open>ttl\<close> still counts at \<open>t\<close>.
\<close>

datatype ('k, 'v) cache_op = Put 'k 'v int | Remove 'k | Lookup 'k | Sweep

text \<open>An operation at a time of its own.\<close>

fun run_op :: "('c \<Rightarrow> 'k \<Rightarrow> int \<Rightarrow> 'v option \<times> 'c) \<Rightarrow> ('c \<Rightarrow> 'k \<Rightarrow> 'v \<Rightarrow> int \<Rightarrow> int \<Rightarrow> 'c) \<Rightarrow> ('c \<Rightarrow> 'k \<Rightarrow> 'c) \<Rightarrow>
    ('c \<Rightarrow> int \<Rightarrow> 'c) \<Rightarrow> 'c \<Rightarrow> ('k, 'v) cache_op \<times> int \<Rightarrow> 'c" where
  "run_op get put del sweep c (Put k v ttl, s) = put c k v ttl s"
| "run_op get put del sweep c (Remove k, s) = del c k"
| "run_op get put del sweep c (Lookup k, s) = snd (get c k s)"
| "run_op get put del sweep c (Sweep, s) = sweep c s"

text \<open>
  What the answer to a lookup ought to be, from the operations alone, the latest first: the latest
  write of the key decides.
\<close>

fun latest_write :: "(int \<Rightarrow> int \<Rightarrow> int \<Rightarrow> bool) \<Rightarrow> (('k, 'v) cache_op \<times> int) list \<Rightarrow> 'k \<Rightarrow> int \<Rightarrow> 'v option" where
  "latest_write lasts [] k t = None"
| "latest_write lasts ((Put j v ttl, s) # ops) k t =
     (if k = j then if lasts ttl s t then Some v else None else latest_write lasts ops k t)"
| "latest_write lasts ((Remove j, s) # ops) k t = (if k = j then None else latest_write lasts ops k t)"
| "latest_write lasts (_ # ops) k t = latest_write lasts ops k t"

locale expiring_cache =
  fixes held :: "'c \<Rightarrow> 'k \<Rightarrow> int \<Rightarrow> 'v option"
    and lasts :: "int \<Rightarrow> int \<Rightarrow> int \<Rightarrow> bool"
    and new :: 'c
    and get :: "'c \<Rightarrow> 'k \<Rightarrow> int \<Rightarrow> 'v option \<times> 'c"
    and put :: "'c \<Rightarrow> 'k \<Rightarrow> 'v \<Rightarrow> int \<Rightarrow> int \<Rightarrow> 'c"
    and del :: "'c \<Rightarrow> 'k \<Rightarrow> 'c"
    and sweep :: "'c \<Rightarrow> int \<Rightarrow> 'c"
  assumes held_new: "held new k t = None"
    and held_put: "held (put c k v ttl s) j t = (if j = k then if lasts ttl s t then Some v else None else held c j t)"
    and held_del: "held (del c k) j t = (if j = k then None else held c j t)"
    and get_held: "fst (get c k s) = held c k s"
    and held_get: "s \<le> t \<Longrightarrow> held (snd (get c k s)) j t = held c j t"
    and held_sweep: "s \<le> t \<Longrightarrow> held (sweep c s) j t = held c j t"
    and lasts_from: "0 \<le> ttl \<Longrightarrow> lasts ttl s s"
begin

lemma held_latest_write:
  assumes "\<And>op s. (op, s) \<in> set ops \<Longrightarrow> s \<le> t"
  shows "held (foldl (run_op get put del sweep) new ops) k t = latest_write lasts (rev ops) k t"
  using assms
proof (induction ops rule: rev_induct)
  case Nil
  then show ?case by (simp add: held_new)
next
  case (snoc x ops)
  obtain op s where x: "x = (op, s)" by (cases x)
  have s: "s \<le> t" using snoc.prems [of op s] x by simp
  have older: "(a, u) \<in> set ops \<Longrightarrow> u \<le> t" for a u using snoc.prems [of a u] by simp
  have IH: "held (foldl (run_op get put del sweep) new ops) k t = latest_write lasts (rev ops) k t" by (rule snoc.IH [OF older])
  show ?case using IH s x by (cases op) (simp_all add: held_put held_del held_get held_sweep)
qed

text \<open>A lookup after any history answers the latest write that still counts.\<close>

lemma get_latest_write:
  assumes "\<And>op s. (op, s) \<in> set ops \<Longrightarrow> s \<le> t"
  shows "fst (get (foldl (run_op get put del sweep) new ops) k t) = latest_write lasts (rev ops) k t"
  using held_latest_write [OF assms] by (simp add: get_held)

lemma get_put: "0 \<le> ttl \<Longrightarrow> fst (get (put c k v ttl s) k s) = Some v"
  by (simp add: get_held held_put lasts_from)

lemma get_del: "fst (get (del c k) k t) = None"
  by (simp add: get_held held_del)

end

text \<open>
  A cache whose entries can also be given a new time to live without a new value. What decides the answer
  then is the latest write of the key, with the time to live of the latest renewal that found it alive; a
  renewal that comes too late finds nothing, and nothing is left of the entry.
\<close>

datatype ('k, 'v) touch_op = Plain "('k, 'v) cache_op" | Renew 'k int

fun run_touch_op :: "('c \<Rightarrow> 'k \<Rightarrow> int \<Rightarrow> 'v option \<times> 'c) \<Rightarrow> ('c \<Rightarrow> 'k \<Rightarrow> 'v \<Rightarrow> int \<Rightarrow> int \<Rightarrow> 'c) \<Rightarrow> ('c \<Rightarrow> 'k \<Rightarrow> 'c) \<Rightarrow>
    ('c \<Rightarrow> int \<Rightarrow> 'c) \<Rightarrow> ('c \<Rightarrow> 'k \<Rightarrow> int \<Rightarrow> int \<Rightarrow> bool \<times> 'c) \<Rightarrow> 'c \<Rightarrow> ('k, 'v) touch_op \<times> int \<Rightarrow> 'c" where
  "run_touch_op get put del sweep touch c (Plain op, s) = run_op get put del sweep c (op, s)"
| "run_touch_op get put del sweep touch c (Renew k ttl, s) = snd (touch c k ttl s)"

text \<open>The value with its time to live and the moment from which that counts, by the operations, the latest first.\<close>

fun live_entry :: "(int \<Rightarrow> int \<Rightarrow> int \<Rightarrow> bool) \<Rightarrow> (('k, 'v) touch_op \<times> int) list \<Rightarrow> 'k \<Rightarrow> ('v \<times> int \<times> int) option" where
  "live_entry lasts [] k = None"
| "live_entry lasts ((Plain (Put j v ttl), s) # ops) k = (if k = j then Some (v, ttl, s) else live_entry lasts ops k)"
| "live_entry lasts ((Plain (Remove j), s) # ops) k = (if k = j then None else live_entry lasts ops k)"
| "live_entry lasts ((Renew j ttl, s) # ops) k =
     (if k = j
      then (case live_entry lasts ops k of
              Some (v, ttl', s') \<Rightarrow> if lasts ttl' s' s then Some (v, ttl, s) else None
            | None \<Rightarrow> None)
      else live_entry lasts ops k)"
| "live_entry lasts (_ # ops) k = live_entry lasts ops k"

definition latest_alive :: "(int \<Rightarrow> int \<Rightarrow> int \<Rightarrow> bool) \<Rightarrow> (('k, 'v) touch_op \<times> int) list \<Rightarrow> 'k \<Rightarrow> int \<Rightarrow> 'v option" where
  "latest_alive lasts ops k t =
     (case live_entry lasts ops k of Some (v, ttl, s) \<Rightarrow> if lasts ttl s t then Some v else None | None \<Rightarrow> None)"

locale touching_cache = expiring_cache held lasts new get put del sweep
  for held :: "'c \<Rightarrow> 'k \<Rightarrow> int \<Rightarrow> 'v option" and lasts new get put del sweep +
  fixes touch :: "'c \<Rightarrow> 'k \<Rightarrow> int \<Rightarrow> int \<Rightarrow> bool \<times> 'c"
  assumes touch_held: "fst (touch c k ttl s) \<longleftrightarrow> held c k s \<noteq> None"
    and held_touch: "s \<le> t \<Longrightarrow> held (snd (touch c k ttl s)) j t =
      (if j = k \<and> held c k s \<noteq> None then if lasts ttl s t then held c k s else None else held c j t)"
    and lasts_until: "lasts ttl u t \<Longrightarrow> s \<le> t \<Longrightarrow> lasts ttl u s"
begin

text \<open>A touch brings no entry back to life.\<close>

lemma touch_never_resurrects:
  assumes "held c k s = None" and "s \<le> t"
  shows "held (snd (touch c k ttl s)) k t = held c k t"
  using assms by (simp add: held_touch)

lemma held_latest_alive:
  assumes "sorted (map snd ops)" and "\<And>op s. (op, s) \<in> set ops \<Longrightarrow> s \<le> t"
  shows "held (foldl (run_touch_op get put del sweep touch) new ops) k t = latest_alive lasts (rev ops) k t"
  using assms
proof (induction ops arbitrary: k t rule: rev_induct)
  case Nil
  then show ?case by (simp add: held_new latest_alive_def)
next
  case (snoc x ops)
  obtain op s where x: "x = (op, s)" by (cases x)
  have s: "s \<le> t" using snoc.prems(2) [of op s] x by simp
  have older: "u \<le> s" if "(a, u) \<in> set ops" for a u using snoc.prems(1) x that by (force simp: sorted_append)
  let ?c = "foldl (run_touch_op get put del sweep touch) new ops"
  have IH: "held ?c j u = latest_alive lasts (rev ops) j u" if "s \<le> u" for j u
    using snoc.prems(1) older that by (intro snoc.IH) (force simp: sorted_append)+
  show ?case
  proof (cases op)
    case (Plain p)
    with IH [OF s] s x show ?thesis
      by (cases p) (simp_all add: held_put held_del held_get held_sweep latest_alive_def)
  next
    case (Renew j ttl)
    with IH [OF s, of k] IH [OF order_refl, of k] s x lasts_until [OF _ s] show ?thesis
      by (auto simp: held_touch latest_alive_def split: option.splits if_splits)
  qed
qed

lemma get_latest_alive:
  assumes "sorted (map snd ops)" and "\<And>op s. (op, s) \<in> set ops \<Longrightarrow> s \<le> t"
  shows "fst (get (foldl (run_touch_op get put del sweep touch) new ops) k t) = latest_alive lasts (rev ops) k t"
  using held_latest_alive [OF assms] by (simp add: get_held)

end

subsection \<open>The cache of responses\<close>

record cacheEntry =
  ce_value :: string
  ce_expiresAt :: "int option"

record InMemoryCache =
  mem_entries :: "string \<rightharpoonup> cacheEntry"
  mem_done :: bool

definition isExpired :: "cacheEntry \<Rightarrow> int \<Rightarrow> bool" where
  "isExpired e now = (case ce_expiresAt e of None \<Rightarrow> False | Some x \<Rightarrow> x < now)"

definition NewInMemoryCache :: InMemoryCache where
  "NewInMemoryCache = \<lparr>mem_entries = Map.empty, mem_done = False\<rparr>"

text \<open>The second critical section of \<open>Get\<close>: the entry is looked at again.\<close>

definition mem_evict :: "InMemoryCache \<Rightarrow> string \<Rightarrow> int \<Rightarrow> InMemoryCache" where
  "mem_evict c key now =
     (case mem_entries c key of
        Some current \<Rightarrow> if isExpired current now then c\<lparr>mem_entries := (mem_entries c)(key := None)\<rparr> else c
      | None \<Rightarrow> c)"

text \<open>\<open>None\<close> is \<open>ErrCacheMiss\<close>.\<close>

definition mem_Get :: "InMemoryCache \<Rightarrow> string \<Rightarrow> int \<Rightarrow> string option \<times> InMemoryCache" where
  "mem_Get c key now =
     (case mem_entries c key of
        None \<Rightarrow> (None, c)
      | Some entry \<Rightarrow> if isExpired entry now then (None, mem_evict c key now) else (Some (ce_value entry), c))"

definition mem_Set :: "InMemoryCache \<Rightarrow> string \<Rightarrow> string \<Rightarrow> int \<Rightarrow> int \<Rightarrow> InMemoryCache" where
  "mem_Set c key v ttl now =
     c\<lparr>mem_entries := (mem_entries c)(key \<mapsto> \<lparr>ce_value = v, ce_expiresAt = if 0 < ttl then Some (now + ttl) else None\<rparr>)\<rparr>"

definition mem_Del :: "InMemoryCache \<Rightarrow> string \<Rightarrow> InMemoryCache" where
  "mem_Del c key = c\<lparr>mem_entries := (mem_entries c)(key := None)\<rparr>"

definition mem_Close :: "InMemoryCache \<Rightarrow> InMemoryCache" where
  "mem_Close c = c\<lparr>mem_done := True\<rparr>"

definition evictExpired :: "InMemoryCache \<Rightarrow> int \<Rightarrow> InMemoryCache" where
  "evictExpired c now =
     c\<lparr>mem_entries := (\<lambda>k. case mem_entries c k of Some e \<Rightarrow> if isExpired e now then None else Some e | None \<Rightarrow> None)\<rparr>"

definition mem_held :: "InMemoryCache \<Rightarrow> string \<Rightarrow> int \<Rightarrow> string option" where
  "mem_held c k t = (case mem_entries c k of Some e \<Rightarrow> if isExpired e t then None else Some (ce_value e) | None \<Rightarrow> None)"

definition mem_lasts :: "int \<Rightarrow> int \<Rightarrow> int \<Rightarrow> bool" where
  "mem_lasts ttl s t \<longleftrightarrow> ttl \<le> 0 \<or> t \<le> s + ttl"

lemma isExpired_mono: "isExpired e s \<Longrightarrow> s \<le> t \<Longrightarrow> isExpired e t"
  by (auto simp: isExpired_def split: option.splits)

interpretation mem: expiring_cache mem_held mem_lasts NewInMemoryCache mem_Get mem_Set mem_Del evictExpired
proof
  show "s \<le> t \<Longrightarrow> mem_held (snd (mem_Get c k s)) j t = mem_held c j t" for s t c k j
    by (auto simp: mem_held_def mem_Get_def mem_evict_def dest: isExpired_mono split: option.splits)
  show "s \<le> t \<Longrightarrow> mem_held (evictExpired c s) j t = mem_held c j t" for s t c j
    by (auto simp: mem_held_def evictExpired_def dest: isExpired_mono split: option.splits)
qed (auto simp: mem_held_def mem_lasts_def NewInMemoryCache_def mem_Get_def mem_Set_def mem_Del_def isExpired_def split: option.splits)

subsection \<open>The cache of configurations\<close>

definition DefaultTenantCacheTTL :: int where "DefaultTenantCacheTTL = 43200000000000"

record TenantCacheEntry =
  te_TenantID :: string
  te_Config :: TenantConfig
  te_ExpiresAt :: int

type_synonym TenantCache = "string \<rightharpoonup> TenantCacheEntry"

definition IsExpired :: "TenantCacheEntry \<Rightarrow> int \<Rightarrow> bool" where
  "IsExpired e now \<longleftrightarrow> te_ExpiresAt e < now"

definition NewTenantCache :: TenantCache where "NewTenantCache = Map.empty"

definition tc_evict :: "TenantCache \<Rightarrow> string \<Rightarrow> int \<Rightarrow> TenantCache" where
  "tc_evict c tenantID now =
     (case c tenantID of Some current \<Rightarrow> if IsExpired current now then c(tenantID := None) else c | None \<Rightarrow> c)"

definition tc_Get :: "TenantCache \<Rightarrow> string \<Rightarrow> int \<Rightarrow> TenantCacheEntry option \<times> TenantCache" where
  "tc_Get c tenantID now =
     (case c tenantID of
        None \<Rightarrow> (None, c)
      | Some entry \<Rightarrow> if IsExpired entry now then (None, tc_evict c tenantID now) else (Some entry, c))"

definition tc_Set :: "TenantCache \<Rightarrow> string \<Rightarrow> TenantConfig \<Rightarrow> int \<Rightarrow> int \<Rightarrow> TenantCache" where
  "tc_Set c tenantID config ttl now =
     c(tenantID \<mapsto> \<lparr>te_TenantID = tenantID, te_Config = config, te_ExpiresAt = now + ttl\<rparr>)"

definition tc_Delete :: "TenantCache \<Rightarrow> string \<Rightarrow> TenantCache" where
  "tc_Delete c tenantID = c(tenantID := None)"

definition tc_IsExpired :: "TenantCache \<Rightarrow> string \<Rightarrow> int \<Rightarrow> bool \<times> bool" where
  "tc_IsExpired c tenantID now = (case c tenantID of None \<Rightarrow> (False, False) | Some e \<Rightarrow> (IsExpired e now, True))"

definition tc_Touch :: "TenantCache \<Rightarrow> string \<Rightarrow> int \<Rightarrow> int \<Rightarrow> bool \<times> TenantCache" where
  "tc_Touch c tenantID ttl now =
     (case c tenantID of
        None \<Rightarrow> (False, c)
      | Some entry \<Rightarrow>
          if IsExpired entry now then (False, c(tenantID := None))
          else (True, c(tenantID \<mapsto> entry\<lparr>te_ExpiresAt := now + ttl\<rparr>)))"

definition tc_Len :: "TenantCache \<Rightarrow> nat" where
  "tc_Len c = card (dom c)"

text \<open>The identifiers come in the order in which the map is ranged over.\<close>

definition tc_TenantIDs :: "TenantCache \<Rightarrow> int \<Rightarrow> string set \<times> TenantCache" where
  "tc_TenantIDs c now =
     (let kept = (\<lambda>k. case c k of Some e \<Rightarrow> if IsExpired e now then None else Some e | None \<Rightarrow> None) in (dom kept, kept))"

definition tc_held :: "TenantCache \<Rightarrow> string \<Rightarrow> int \<Rightarrow> TenantConfig option" where
  "tc_held c k t = (case c k of Some e \<Rightarrow> if IsExpired e t then None else Some (te_Config e) | None \<Rightarrow> None)"

definition tc_lasts :: "int \<Rightarrow> int \<Rightarrow> int \<Rightarrow> bool" where
  "tc_lasts ttl s t \<longleftrightarrow> t \<le> s + ttl"

definition tc_config :: "TenantCache \<Rightarrow> string \<Rightarrow> int \<Rightarrow> TenantConfig option \<times> TenantCache" where
  "tc_config c k t = map_prod (map_option te_Config) id (tc_Get c k t)"

lemma IsExpired_mono: "IsExpired e s \<Longrightarrow> s \<le> t \<Longrightarrow> IsExpired e t"
  by (simp add: IsExpired_def)

interpretation tc: touching_cache tc_held tc_lasts NewTenantCache tc_config tc_Set tc_Delete "\<lambda>c t. snd (tc_TenantIDs c t)" tc_Touch
proof
  show "s \<le> t \<Longrightarrow> tc_held (snd (tc_config c k s)) j t = tc_held c j t" for s t c k j
    by (auto simp: tc_held_def tc_config_def tc_Get_def tc_evict_def dest: IsExpired_mono split: option.splits)
  show "s \<le> t \<Longrightarrow> tc_held (snd (tc_TenantIDs c s)) j t = tc_held c j t" for s t c j
    by (auto simp: tc_held_def tc_TenantIDs_def Let_def dest: IsExpired_mono split: option.splits)
  show "s \<le> t \<Longrightarrow> tc_held (snd (tc_Touch c k ttl s)) j t =
      (if j = k \<and> tc_held c k s \<noteq> None then if tc_lasts ttl s t then tc_held c k s else None else tc_held c j t)" for s t c k j ttl
    by (auto simp: tc_held_def tc_Touch_def tc_lasts_def IsExpired_def split: option.splits)
qed (auto simp: tc_held_def tc_lasts_def NewTenantCache_def tc_config_def tc_Get_def tc_Set_def tc_Delete_def tc_Touch_def
  IsExpired_def split: option.splits)

text \<open>
  Between the two critical sections of a \<open>Get\<close> that found an expired entry anybody may write: what the
  second one drops is expired then, so a fresher entry survives it.
\<close>

lemma eviction_spares_fresh_entries:
  "c' k = Some e \<Longrightarrow> \<not> IsExpired e now \<Longrightarrow> tc_evict c' k now = c'"
  "mem_entries m' k = Some x \<Longrightarrow> \<not> isExpired x now \<Longrightarrow> mem_evict m' k now = m'"
  by (simp_all add: tc_evict_def mem_evict_def)

lemma TenantIDs_live: "fst (tc_TenantIDs c now) = {k. tc_held c k now \<noteq> None}"
  by (auto simp: tc_TenantIDs_def tc_held_def Let_def dom_def split: option.splits if_splits)

text \<open>
  C6. A lookup in the cache of responses answers, after every sequence of writes, removals, lookups and
  sweeps, the latest write of its key that was not removed and whose time to live is not over, and nothing
  otherwise. In the cache of configurations, where an entry can also be renewed by \<open>Touch\<close>, it answers the latest
  write that was not removed, as long as the time to live of the latest write or renewal lasts, provided that no
  renewal came after the entry had run out; the operations are in the order of their times. Expired entries that
  are dropped on the way make no difference.
\<close>

theorem caches_answer_latest_write:
  assumes "list_all (\<lambda>(op, s). s \<le> t) ops" and "list_all (\<lambda>(op, s). s \<le> t) ops'" and "sorted (map snd ops')"
  shows "fst (mem_Get (foldl (run_op mem_Get mem_Set mem_Del evictExpired) NewInMemoryCache ops) k t) = latest_write mem_lasts (rev ops) k t \<and>
    fst (tc_config (foldl (run_touch_op tc_config tc_Set tc_Delete (\<lambda>c s. snd (tc_TenantIDs c s)) tc_Touch) NewTenantCache ops') k' t) =
      latest_alive tc_lasts (rev ops') k' t"
proof
  show "fst (mem_Get (foldl (run_op mem_Get mem_Set mem_Del evictExpired) NewInMemoryCache ops) k t) = latest_write mem_lasts (rev ops) k t"
    using assms(1) by (intro mem.get_latest_write) (auto simp: list_all_iff)
  show "fst (tc_config (foldl (run_touch_op tc_config tc_Set tc_Delete (\<lambda>c s. snd (tc_TenantIDs c s)) tc_Touch) NewTenantCache ops') k' t) =
      latest_alive tc_lasts (rev ops') k' t"
    using assms(2,3) by (intro tc.get_latest_alive) (auto simp: list_all_iff)
qed

theorem caches_answer_latest_write_witness:
  "fst (mem_Get (foldl (run_op mem_Get mem_Set mem_Del evictExpired) NewInMemoryCache
      [(Put ''k'' ''old'' 0, 1), (Put ''k'' ''new'' 10, 2), (Lookup ''j'', 3), (Sweep, 4)]) ''k'' 12) = Some ''new'' \<and>
   fst (tc_config (foldl (run_touch_op tc_config tc_Set tc_Delete (\<lambda>c s. snd (tc_TenantIDs c s)) tc_Touch) NewTenantCache
      [(Plain (Put ''acme'' zero_Tenant 5), 1), (Renew ''acme'' 100, 3), (Plain Sweep, 9)]) ''acme'' 12) = Some zero_Tenant"
proof -
  have a: "list_all (\<lambda>(op, s). s \<le> 12) [(Put ''k'' ''old'' 0, 1), (Put ''k'' ''new'' 10, 2), (Lookup ''j'', 3 :: int), (Sweep, 4)]"
    "list_all (\<lambda>(op, s). s \<le> 12) [(Plain (Put ''acme'' zero_Tenant 5), 1 :: int), (Renew ''acme'' 100, 3), (Plain Sweep, 9)]"
    "sorted (map snd [(Plain (Put ''acme'' zero_Tenant 5), 1 :: int), (Renew ''acme'' 100, 3), (Plain Sweep, 9)])" by simp_all
  show ?thesis
    using caches_answer_latest_write [OF a, of "''k''" "''acme''"] by (simp add: mem_lasts_def tc_lasts_def latest_alive_def)
qed

end
