(* ===== verification/Tenant_Client.thy ===== *)
theory Tenant_Client
  imports Tenant_Cache Go_Text
begin

text \<open>
  \<open>commons/tenant-manager/client\<close>: the client of the Tenant Manager (client.go, create_tenant.go,
  associate_service.go, suspend_service.go, reactivate_tenant.go, metadata.go, principals.go). A call
  consults the cache of responses, then the circuit breaker, sends at most one request and records how it
  ended. The HTTP client, the JSON codecs and the clock are the surroundings of a call; the text of
  errors, logging and tracing are left out.
\<close>

subsection \<open>Escaping\<close>

text \<open>\<open>url.PathEscape\<close> and \<open>url.QueryEscape\<close>, byte by byte.\<close>

definition unreserved :: "char \<Rightarrow> bool" where
  "unreserved c \<longleftrightarrow> (CHR ''a'' \<le> c \<and> c \<le> CHR ''z'') \<or> (CHR ''A'' \<le> c \<and> c \<le> CHR ''Z'') \<or>
     (CHR ''0'' \<le> c \<and> c \<le> CHR ''9'') \<or> c \<in> set ''-_.~''"

definition upper_hex :: "nat \<Rightarrow> char" where
  "upper_hex n = ''0123456789ABCDEF'' ! n"

definition percent :: "char \<Rightarrow> string" where
  "percent c = [CHR 0x25, upper_hex (of_char c div 16), upper_hex (of_char c mod 16)]"

definition PathEscape :: "string \<Rightarrow> string" where
  "PathEscape s = concat (map (\<lambda>c. if unreserved c \<or> c \<in> set ''$&+:=@'' then [c] else percent c) s)"

definition QueryEscape :: "string \<Rightarrow> string" where
  "QueryEscape s = concat (map (\<lambda>c. if c = CHR '' '' then ''+'' else if unreserved c then [c] else percent c) s)"

subsection \<open>The client and its surroundings\<close>

definition maxResponseBodySize :: nat where "maxResponseBodySize = 10 * 1024 * 1024"
definition defaultCacheTTL :: int where "defaultCacheTTL = 3600000000000"
definition cacheKeyPrefix :: string where "cacheKeyPrefix = ''tenant-connections''"

datatype cbState = cbClosed | cbOpen | cbHalfOpen

text \<open>The cache of a client is an interface: none, one that wraps a nil pointer, or a cache.\<close>

datatype config_cache = No_cache | Typed_nil | Cache InMemoryCache

record Client =
  baseURL :: string
  serviceAPIKey :: string
  bearerTokenProvider :: bool
  cl_cache :: config_cache
  cacheTTL :: int
  allowInsecureHTTP :: bool
  cbFailures :: int
  cbLastFailure :: int
  cb_state :: cbState
  cbThreshold :: int
  cbTimeout :: int

record tm_request =
  rq_Method :: string
  rq_URL :: string
  rq_Body :: "string option"
  rq_Header :: "string \<rightharpoonup> string"

text \<open>What becomes of a request: no response, a response whose body cannot be read, a status and a body.\<close>

datatype http_outcome = Do_failed | Read_failed | Responded int string

text \<open>
  The surroundings of one call: the time when it starts and when the response is in, whether a URL is
  one a request can be made for, the transport, the token provider, and the JSON codecs. A refusal is
  read as its status and message.
\<close>

record tm_env =
  e_now :: int
  e_later :: int
  e_url_ok :: "string \<Rightarrow> bool"
  e_Do :: "tm_request \<Rightarrow> http_outcome"
  e_token :: "tenant_error + string"
  e_dec_config :: "string \<Rightarrow> TenantConfig option"
  e_enc_config :: "TenantConfig \<Rightarrow> string option"
  e_dec_refusal :: "string \<Rightarrow> (string \<times> string) option"

subsection \<open>Options and construction\<close>

type_synonym ClientOption = "Client \<Rightarrow> Client"

definition WithCircuitBreaker :: "int \<Rightarrow> int \<Rightarrow> ClientOption" where
  "WithCircuitBreaker threshold timeout c = c\<lparr>cbThreshold := threshold, cbTimeout := timeout\<rparr>"

definition WithCache :: "config_cache \<Rightarrow> ClientOption" where
  "WithCache cc c = (if cc \<noteq> No_cache then c\<lparr>cl_cache := cc\<rparr> else c)"

definition WithCacheTTL :: "int \<Rightarrow> ClientOption" where
  "WithCacheTTL ttl c = c\<lparr>cacheTTL := ttl\<rparr>"

definition WithAllowInsecureHTTP :: ClientOption where
  "WithAllowInsecureHTTP c = c\<lparr>allowInsecureHTTP := True\<rparr>"

definition WithServiceAPIKey :: "string \<Rightarrow> ClientOption" where
  "WithServiceAPIKey key c = c\<lparr>serviceAPIKey := key\<rparr>"

definition WithBearerTokenProvider :: "bool \<Rightarrow> ClientOption" where
  "WithBearerTokenProvider p c = c\<lparr>bearerTokenProvider := p\<rparr>"

definition withCacheValidated :: "Client \<Rightarrow> tenant_error option" where
  "withCacheValidated c = (if cl_cache c = Typed_nil then Some (Wrapped [ErrNilCache]) else None)"

text \<open>\<open>parse\<close> is \<open>url.Parse\<close>, of whose result the scheme and the host are read.\<close>

definition NewClient :: "(string \<Rightarrow> (string \<times> string) option) \<Rightarrow> string \<Rightarrow> ClientOption list \<Rightarrow> tenant_error + Client" where
  "NewClient parse base opts =
     (case parse base of
        None \<Rightarrow> Inl (Other_error base)
      | Some (scheme, host) \<Rightarrow>
          if scheme = [] \<or> host = [] then Inl (Other_error base)
          else
            (let c = foldl (\<lambda>c opt. opt c)
               \<lparr>baseURL = base, serviceAPIKey = [], bearerTokenProvider = False, cl_cache = No_cache, cacheTTL = defaultCacheTTL,
                allowInsecureHTTP = False, cbFailures = 0, cbLastFailure = 0, cb_state = cbClosed, cbThreshold = 0, cbTimeout = 0\<rparr>
               opts
             in if scheme = ''http'' \<and> \<not> allowInsecureHTTP c then Inl (Wrapped [ErrInsecureHTTP])
                else if serviceAPIKey c = [] then Inl (Wrapped [ErrServiceAPIKeyRequired])
                else (case withCacheValidated c of
                    Some e \<Rightarrow> Inl e
                  | None \<Rightarrow> Inr (if cl_cache c = No_cache then c\<lparr>cl_cache := Cache NewInMemoryCache\<rparr> else c))))"

subsection \<open>The circuit breaker\<close>

definition checkCircuitBreaker :: "Client \<Rightarrow> int \<Rightarrow> tenant_error option \<times> Client" where
  "checkCircuitBreaker c now =
     (if cbThreshold c \<le> 0 then (None, c)
      else (case cb_state c of
          cbOpen \<Rightarrow>
            if cbTimeout c < time_Sub now (cbLastFailure c) then (None, c\<lparr>cb_state := cbHalfOpen\<rparr>)
            else (Some ErrCircuitBreakerOpen, c)
        | _ \<Rightarrow> (None, c)))"

definition recordSuccess :: "Client \<Rightarrow> Client" where
  "recordSuccess c = (if cbThreshold c \<le> 0 then c else c\<lparr>cbFailures := 0, cb_state := cbClosed\<rparr>)"

definition recordFailure :: "Client \<Rightarrow> int \<Rightarrow> Client" where
  "recordFailure c now =
     (if cbThreshold c \<le> 0 then c
      else
        (let c = c\<lparr>cbFailures := cbFailures c + 1, cbLastFailure := now\<rparr> in
         if cbThreshold c \<le> cbFailures c then c\<lparr>cb_state := cbOpen\<rparr> else c))"

definition isServerError :: "int \<Rightarrow> bool" where
  "isServerError status \<longleftrightarrow> 500 \<le> status"

subsection \<open>Requests\<close>

text \<open>
  The part every call shares once the breaker let it pass: a request is made, sent, and its response
  read up to the limit. Failures of the network are recorded.
\<close>

definition exchange :: "tm_env \<Rightarrow> Client \<Rightarrow> tm_request \<Rightarrow> (tenant_error + int \<times> string) \<times> Client \<times> tm_request list" where
  "exchange E c rq =
     (if \<not> e_url_ok E (rq_URL rq) then (Inl (Other_error ''create request''), c, [])
      else (case e_Do E rq of
          Do_failed \<Rightarrow> (Inl (Other_error ''execute request''), recordFailure c (e_later E), [rq])
        | Read_failed \<Rightarrow> (Inl (Other_error ''read response body''), recordFailure c (e_later E), [rq])
        | Responded status body \<Rightarrow> (Inr (status, take maxResponseBodySize body), c, [rq])))"

definition api_key :: "Client \<Rightarrow> (string \<rightharpoonup> string) \<Rightarrow> (string \<rightharpoonup> string)" where
  "api_key c h = (if serviceAPIKey c \<noteq> [] then h(''X-API-Key'' \<mapsto> serviceAPIKey c) else h)"

definition json_headers :: "string \<rightharpoonup> string" where
  "json_headers = [''Content-Type'' \<mapsto> ''application/json'', ''Accept'' \<mapsto> ''application/json'']"

definition accept_header :: "string \<rightharpoonup> string" where
  "accept_header = [''Accept'' \<mapsto> ''application/json'']"

subsection \<open>Configuration of a tenant\<close>

definition cache_key :: "string \<Rightarrow> string \<Rightarrow> string" where
  "cache_key tenantID service = cacheKeyPrefix @ '':'' @ tenantID @ '':'' @ service"

definition getCachedTenantConfig :: "tm_env \<Rightarrow> Client \<Rightarrow> string \<Rightarrow> TenantConfig option \<times> Client" where
  "getCachedTenantConfig E c key =
     (case cl_cache c of
        Cache m \<Rightarrow>
          (case mem_Get m key (e_now E) of
             (None, m) \<Rightarrow> (None, c\<lparr>cl_cache := Cache m\<rparr>)
           | (Some cached, m) \<Rightarrow>
               (case e_dec_config E cached of
                  Some config \<Rightarrow> (Some config, c\<lparr>cl_cache := Cache m\<rparr>)
                | None \<Rightarrow> (None, c\<lparr>cl_cache := Cache (mem_Del m key)\<rparr>)))
      | _ \<Rightarrow> (None, c))"

definition cacheTenantConfig :: "tm_env \<Rightarrow> Client \<Rightarrow> string \<Rightarrow> TenantConfig \<Rightarrow> Client" where
  "cacheTenantConfig E c key config =
     (case (cl_cache c, e_enc_config E config) of
        (Cache m, Some json) \<Rightarrow> c\<lparr>cl_cache := Cache (mem_Set m key json (cacheTTL c) (e_later E))\<rparr>
      | _ \<Rightarrow> c)"

definition handleGetTenantConfigStatus ::
  "tm_env \<Rightarrow> Client \<Rightarrow> string \<Rightarrow> int \<Rightarrow> string \<Rightarrow> tenant_error option \<times> Client" where
  "handleGetTenantConfigStatus E c tenantID status body =
     (if status = 200 then (None, c)
      else if status = 404 then (Some ErrTenantNotFound, recordSuccess c)
      else if status = 403 then
        (case e_dec_refusal E body of
           Some (st, message) \<Rightarrow>
             if st \<noteq> [] then (Some (Wrapped [ErrTenantServiceAccessDenied, TenantSuspendedError tenantID st message]), recordSuccess c)
             else (Some (Wrapped [ErrTenantServiceAccessDenied]), recordSuccess c)
         | None \<Rightarrow> (Some (Wrapped [ErrTenantServiceAccessDenied]), recordSuccess c))
      else (Some (Service_error status), if isServerError status then recordFailure c (e_later E) else c))"

definition config_request :: "Client \<Rightarrow> string \<Rightarrow> string \<Rightarrow> tm_request" where
  "config_request c tenantID service =
     \<lparr>rq_Method = ''GET'',
      rq_URL = baseURL c @ ''/v1/tenants/'' @ PathEscape tenantID @ ''/associations/'' @ PathEscape service @ ''/connections'',
      rq_Body = None, rq_Header = api_key c json_headers\<rparr>"

definition GetTenantConfig ::
  "tm_env \<Rightarrow> Client \<Rightarrow> string \<Rightarrow> string \<Rightarrow> bool \<Rightarrow> (tenant_error + TenantConfig) \<times> Client \<times> tm_request list" where
  "GetTenantConfig E c tenantID service skipCache =
     (let key = cache_key tenantID service in
      case (if skipCache then (None, c) else getCachedTenantConfig E c key) of
        (Some config, c) \<Rightarrow> (Inr config, c, [])
      | (None, c) \<Rightarrow>
          (case checkCircuitBreaker c (e_now E) of
             (Some e, c) \<Rightarrow> (Inl e, c, [])
           | (None, c) \<Rightarrow>
               (case exchange E c (config_request c tenantID service) of
                  (Inl e, c, sent) \<Rightarrow> (Inl e, c, sent)
                | (Inr (status, body), c, sent) \<Rightarrow>
                    (case handleGetTenantConfigStatus E c tenantID status body of
                       (Some e, c) \<Rightarrow> (Inl e, c, sent)
                     | (None, c) \<Rightarrow>
                         (case e_dec_config E body of
                            None \<Rightarrow> (Inl (Other_error ''parse response''), c, sent)
                          | Some config \<Rightarrow> (Inr config, cacheTenantConfig E (recordSuccess c) key config, sent))))))"

definition InvalidateConfig :: "Client \<Rightarrow> string \<Rightarrow> string \<Rightarrow> Client" where
  "InvalidateConfig c tenantID service =
     (case cl_cache c of Cache m \<Rightarrow> c\<lparr>cl_cache := Cache (mem_Del m (cache_key tenantID service))\<rparr> | _ \<Rightarrow> c)"

definition Close :: "Client \<Rightarrow> Client" where
  "Close c = (case cl_cache c of Cache m \<Rightarrow> c\<lparr>cl_cache := Cache (mem_Close m)\<rparr> | _ \<Rightarrow> c)"

subsection \<open>The other calls\<close>

text \<open>A call that reads: statuses other than 200 are errors, a server error a failure.\<close>

definition GetActiveTenantsByService ::
  "tm_env \<Rightarrow> (string \<Rightarrow> 'a option) \<Rightarrow> Client \<Rightarrow> string \<Rightarrow> (tenant_error + 'a) \<times> Client \<times> tm_request list" where
  "GetActiveTenantsByService E dec c service =
     (case checkCircuitBreaker c (e_now E) of
        (Some e, c) \<Rightarrow> (Inl e, c, [])
      | (None, c) \<Rightarrow>
          (case exchange E c \<lparr>rq_Method = ''GET'', rq_URL = baseURL c @ ''/v1/tenants/active?service='' @ QueryEscape service,
               rq_Body = None, rq_Header = api_key c json_headers\<rparr> of
             (Inl e, c, sent) \<Rightarrow> (Inl e, c, sent)
           | (Inr (status, body), c, sent) \<Rightarrow>
               if status \<noteq> 200 then (Inl (Service_error status), if isServerError status then recordFailure c (e_later E) else recordSuccess c, sent)
               else (case dec body of
                   None \<Rightarrow> (Inl (Other_error ''parse response''), c, sent)
                 | Some tenants \<Rightarrow> (Inr tenants, recordSuccess c, sent))))"

definition GetTenantMetadata ::
  "tm_env \<Rightarrow> (string \<Rightarrow> 'a option) \<Rightarrow> Client \<Rightarrow> string \<Rightarrow> (tenant_error + 'a) \<times> Client \<times> tm_request list" where
  "GetTenantMetadata E dec c tenantID =
     (case checkCircuitBreaker c (e_now E) of
        (Some e, c) \<Rightarrow> (Inl e, c, [])
      | (None, c) \<Rightarrow>
          (case exchange E c \<lparr>rq_Method = ''GET'', rq_URL = baseURL c @ ''/v1/tenants/'' @ PathEscape tenantID,
               rq_Body = None, rq_Header = api_key c json_headers\<rparr> of
             (Inl e, c, sent) \<Rightarrow> (Inl e, c, sent)
           | (Inr (status, body), c, sent) \<Rightarrow>
               if status \<noteq> 200 then (Inl (Service_error status), if isServerError status then recordFailure c (e_later E) else recordSuccess c, sent)
               else (case dec body of
                   None \<Rightarrow> (Inl (Other_error ''parse response''), c, sent)
                 | Some parsed \<Rightarrow> (Inr parsed, recordSuccess c, sent))))"

definition GetTenantPrincipals ::
  "tm_env \<Rightarrow> (string \<Rightarrow> 'a option) \<Rightarrow> Client \<Rightarrow> string \<Rightarrow> string \<Rightarrow> (tenant_error + 'a) \<times> Client \<times> tm_request list" where
  "GetTenantPrincipals E dec c tenantID service =
     (case checkCircuitBreaker c (e_now E) of
        (Some e, c) \<Rightarrow> (Inl e, c, [])
      | (None, c) \<Rightarrow>
          (case exchange E c
              \<lparr>rq_Method = ''GET'',
               rq_URL = baseURL c @ ''/v1/tenants/'' @ PathEscape tenantID @ ''/associations/'' @ PathEscape service @ ''/principals'',
               rq_Body = None, rq_Header = api_key c accept_header\<rparr> of
             (Inl e, c, sent) \<Rightarrow> (Inl e, c, sent)
           | (Inr (status, body), c, sent) \<Rightarrow>
               (case handleGetTenantConfigStatus E c tenantID status body of
                  (Some e, c) \<Rightarrow> (Inl e, c, sent)
                | (None, c) \<Rightarrow>
                    (case dec body of
                       None \<Rightarrow> (Inl (Other_error ''parse response''), c, sent)
                     | Some parsed \<Rightarrow> (Inr parsed, recordSuccess c, sent)))))"

text \<open>A call that writes carries the token of its provider, which may fail before anything is sent.\<close>

definition authorized :: "tm_env \<Rightarrow> Client \<Rightarrow> tm_request \<Rightarrow> tenant_error + tm_request" where
  "authorized E c rq =
     (if \<not> bearerTokenProvider c then Inr rq
      else (case e_token E of
          Inl e \<Rightarrow> Inl (Wrapped [e])
        | Inr token \<Rightarrow> Inr (rq\<lparr>rq_Header := (rq_Header rq)(''Authorization'' \<mapsto> ''Bearer '' @ token)\<rparr>)))"

definition handleCreateTenantStatus :: "tm_env \<Rightarrow> Client \<Rightarrow> int \<Rightarrow> tenant_error \<times> Client" where
  "handleCreateTenantStatus E c status =
     (if status = 409 then (Wrapped [ErrTenantConflict], recordSuccess c)
      else if isServerError status then (Service_error status, recordFailure c (e_later E))
      else if 400 \<le> status \<and> status < 500 then (Service_error status, recordSuccess c)
      else (Service_error status, c))"

definition handleAssociateServiceStatus :: "tm_env \<Rightarrow> Client \<Rightarrow> int \<Rightarrow> tenant_error \<times> Client" where
  "handleAssociateServiceStatus E c status =
     (if status = 409 then (Wrapped [ErrAssociationConflict], recordSuccess c)
      else if isServerError status then (Service_error status, recordFailure c (e_later E))
      else if 400 \<le> status \<and> status < 500 then (Service_error status, recordSuccess c)
      else (Service_error status, c))"

definition handleStateTransitionStatus :: "tm_env \<Rightarrow> Client \<Rightarrow> int \<Rightarrow> tenant_error option \<times> Client" where
  "handleStateTransitionStatus E c status =
     (if 200 \<le> status \<and> status < 300 then (None, recordSuccess c)
      else if status = 409 then (None, recordSuccess c)
      else if isServerError status then (Some (Service_error status), recordFailure c (e_later E))
      else if 400 \<le> status \<and> status < 500 then (Some (Service_error status), recordSuccess c)
      else (Some (Service_error status), c))"

text \<open>\<open>payload\<close> is the request in JSON, or nothing when it cannot be encoded.\<close>

definition CreateTenant ::
  "tm_env \<Rightarrow> (string \<Rightarrow> 'a option) \<Rightarrow> Client \<Rightarrow> string option \<Rightarrow> (tenant_error + 'a) \<times> Client \<times> tm_request list" where
  "CreateTenant E dec c payload =
     (case checkCircuitBreaker c (e_now E) of
        (Some e, c) \<Rightarrow> (Inl e, c, [])
      | (None, c) \<Rightarrow>
          if payload = None then (Inl (Other_error ''marshal request''), c, [])
          else if \<not> e_url_ok E (baseURL c @ ''/v1/tenants'') then (Inl (Other_error ''create request''), c, [])
          else (case authorized E c \<lparr>rq_Method = ''POST'', rq_URL = baseURL c @ ''/v1/tenants'', rq_Body = payload,
                    rq_Header = api_key c json_headers\<rparr> of
             Inl e \<Rightarrow> (Inl e, c, [])
           | Inr rq \<Rightarrow>
               (case exchange E c rq of
                  (Inl e, c, sent) \<Rightarrow> (Inl e, c, sent)
                | (Inr (status, body), c, sent) \<Rightarrow>
                    if status \<noteq> 200 \<and> status \<noteq> 201
                    then (case handleCreateTenantStatus E c status of (e, c) \<Rightarrow> (Inl e, c, sent))
                    else (case dec body of
                        None \<Rightarrow> (Inl (Other_error ''parse response''), c, sent)
                      | Some out \<Rightarrow> (Inr out, recordSuccess c, sent)))))"

definition AssociateService ::
  "tm_env \<Rightarrow> (string \<Rightarrow> 'a option) \<Rightarrow> Client \<Rightarrow> string \<Rightarrow> string \<Rightarrow> string option \<Rightarrow> (tenant_error + 'a) \<times> Client \<times> tm_request list" where
  "AssociateService E dec c tenantID serviceName payload =
     (case checkCircuitBreaker c (e_now E) of
        (Some e, c) \<Rightarrow> (Inl e, c, [])
      | (None, c) \<Rightarrow>
          if payload = None then (Inl (Other_error ''marshal request''), c, [])
          else
            (let url = baseURL c @ ''/v1/tenants/'' @ PathEscape tenantID @ ''/associations/'' @ PathEscape serviceName in
             if \<not> e_url_ok E url then (Inl (Other_error ''create request''), c, [])
             else (case authorized E c \<lparr>rq_Method = ''POST'', rq_URL = url, rq_Body = payload, rq_Header = api_key c json_headers\<rparr> of
               Inl e \<Rightarrow> (Inl e, c, [])
             | Inr rq \<Rightarrow>
                 (case exchange E c rq of
                    (Inl e, c, sent) \<Rightarrow> (Inl e, c, sent)
                  | (Inr (status, body), c, sent) \<Rightarrow>
                      if status \<noteq> 200 \<and> status \<noteq> 201
                      then (case handleAssociateServiceStatus E c status of (e, c) \<Rightarrow> (Inl e, c, sent))
                      else (case dec body of
                          None \<Rightarrow> (Inl (Other_error ''parse response''), c, sent)
                        | Some out \<Rightarrow> (Inr out, recordSuccess c, sent))))))"

definition doStateTransition :: "tm_env \<Rightarrow> Client \<Rightarrow> string \<Rightarrow> tenant_error option \<times> Client \<times> tm_request list" where
  "doStateTransition E c url =
     (case checkCircuitBreaker c (e_now E) of
        (Some e, c) \<Rightarrow> (Some e, c, [])
      | (None, c) \<Rightarrow>
          if \<not> e_url_ok E url then (Some (Other_error ''create request''), c, [])
          else (case authorized E c \<lparr>rq_Method = ''PUT'', rq_URL = url, rq_Body = None, rq_Header = api_key c accept_header\<rparr> of
             Inl e \<Rightarrow> (Some e, c, [])
           | Inr rq \<Rightarrow>
               (case exchange E c rq of
                  (Inl e, c, sent) \<Rightarrow> (Some e, c, sent)
                | (Inr (status, body), c, sent) \<Rightarrow>
                    (case handleStateTransitionStatus E c status of (r, c) \<Rightarrow> (r, c, sent)))))"

definition SuspendService :: "tm_env \<Rightarrow> Client \<Rightarrow> string \<Rightarrow> string \<Rightarrow> tenant_error option \<times> Client \<times> tm_request list" where
  "SuspendService E c tenantID serviceName =
     doStateTransition E c (baseURL c @ ''/v1/tenants/'' @ PathEscape tenantID @ ''/associations/'' @ PathEscape serviceName @ ''/suspend'')"

definition ReactivateTenant :: "tm_env \<Rightarrow> Client \<Rightarrow> string \<Rightarrow> tenant_error option \<times> Client \<times> tm_request list" where
  "ReactivateTenant E c tenantID =
     doStateTransition E c (baseURL c @ ''/v1/tenants/'' @ PathEscape tenantID @ ''/reactivate'')"

end
