(* ===== verification/Tenant_Events.thy ===== *)
theory Tenant_Events
  imports Tenant_Client Tenant_Keys
begin

text \<open>
  \<open>commons/tenant-manager/tenantcache/loader.go\<close> and \<open>commons/tenant-manager/event\<close>: loading the
  configuration of a tenant on demand, and reacting to the events of its life cycle. A \<open>node\<close> is what the
  loader and the dispatcher of one process share: the first cache, the client with the second one, and the
  calls made to connection managers and callbacks so far. \<open>LoadTenant\<close> and \<open>HandleEvent\<close> are each run
  as a whole here; the theory \<open>Tenant_Loads\<close> cuts them into steps that interleave. Managers are numbered;
  closing one is an effect, whose own failure is only logged, as is that of invalidating the second cache, which with
  the in-memory cache does not happen.
\<close>

subsection \<open>Nodes and loaders\<close>

datatype effect =
    Close_rabbitmq string | Close_postgres nat string | Close_mongo nat string
  | Apply_settings nat string TenantConfig
  | Tenant_added string | Tenant_removed string | Tenant_loaded string | Slept int

record node =
  nd_cache :: TenantCache
  nd_client :: "Client option"
  nd_effects :: "effect list"

record TenantLoader =
  ld_service :: string
  ld_cacheTTL :: int
  ld_onLoaded :: bool

definition effects :: "effect list \<Rightarrow> node \<Rightarrow> node" where
  "effects es n = n\<lparr>nd_effects := nd_effects n @ es\<rparr>"

definition NewTenantLoader :: "string \<Rightarrow> int \<Rightarrow> TenantLoader" where
  "NewTenantLoader service ttl =
     \<lparr>ld_service = service, ld_cacheTTL = if ttl \<le> 0 then DefaultTenantCacheTTL else ttl, ld_onLoaded = False\<rparr>"

definition SetOnTenantLoaded :: "bool \<Rightarrow> TenantLoader \<Rightarrow> TenantLoader" where
  "SetOnTenantLoaded fn l = l\<lparr>ld_onLoaded := fn\<rparr>"

definition InvalidateClientCache :: "TenantLoader option \<Rightarrow> string \<Rightarrow> string \<Rightarrow> node \<Rightarrow> node" where
  "InvalidateClientCache l tenantID service n =
     (case l of None \<Rightarrow> n | Some _ \<Rightarrow> n\<lparr>nd_client := map_option (\<lambda>c. InvalidateConfig c tenantID service) (nd_client n)\<rparr>)"

text \<open>What a load does with a configuration it fetched.\<close>

definition store_loaded :: "TenantLoader \<Rightarrow> tm_env \<Rightarrow> string \<Rightarrow> TenantConfig \<Rightarrow> node \<Rightarrow> node" where
  "store_loaded l E tenantID config n =
     effects (if ld_onLoaded l then [Tenant_loaded tenantID] else [])
       (n\<lparr>nd_cache := tc_Set (nd_cache n) tenantID config (ld_cacheTTL l) (e_later E)\<rparr>)"

text \<open>Without a client, which the constructor asks for, a load dereferences nil.\<close>

definition LoadTenant :: "TenantLoader \<Rightarrow> tm_env \<Rightarrow> string \<Rightarrow> node \<Rightarrow> (tenant_error + TenantConfig) \<times> node \<times> tm_request list" where
  "LoadTenant l E tenantID n =
     (case tc_Get (nd_cache n) tenantID (e_now E) of
        (Some entry, cache) \<Rightarrow> (Inr (te_Config entry), n\<lparr>nd_cache := cache\<rparr>, [])
      | (None, cache) \<Rightarrow>
          (case nd_client n of
             None \<Rightarrow> (Inl (Other_error ''nil pointer dereference''), n\<lparr>nd_cache := cache\<rparr>, [])
           | Some c \<Rightarrow>
               (case GetTenantConfig E c tenantID (ld_service l) False of
                  (Inl e, c, sent) \<Rightarrow>
                    (Inl (if IsTenantSuspendedError e \<or> IsTenantPurgedError e \<or> errors_Is e ErrTenantNotFound then e else Wrapped [e]),
                     n\<lparr>nd_cache := cache, nd_client := Some c\<rparr>, sent)
                | (Inr config, c, sent) \<Rightarrow>
                    (Inr config, store_loaded l E tenantID config (n\<lparr>nd_cache := cache, nd_client := Some c\<rparr>), sent))))"

subsection \<open>Events\<close>

definition EventTenantCreated :: string where "EventTenantCreated = ''tenant.created''"
definition EventTenantActivated :: string where "EventTenantActivated = ''tenant.activated''"
definition EventTenantSuspended :: string where "EventTenantSuspended = ''tenant.suspended''"
definition EventTenantDeleted :: string where "EventTenantDeleted = ''tenant.deleted''"
definition EventTenantUpdated :: string where "EventTenantUpdated = ''tenant.updated''"
definition EventTenantServiceAssociated :: string where "EventTenantServiceAssociated = ''tenant.service.associated''"
definition EventTenantServiceDisassociated :: string where "EventTenantServiceDisassociated = ''tenant.service.disassociated''"
definition EventTenantServiceSuspended :: string where "EventTenantServiceSuspended = ''tenant.service.suspended''"
definition EventTenantServicePurged :: string where "EventTenantServicePurged = ''tenant.service.purged''"
definition EventTenantServiceReactivated :: string where "EventTenantServiceReactivated = ''tenant.service.reactivated''"
definition EventTenantCredentialsRotated :: string where "EventTenantCredentialsRotated = ''tenant.credentials.rotated''"
definition EventTenantConnectionsUpdated :: string where "EventTenantConnectionsUpdated = ''tenant.connections.updated''"
definition EventTenantCacheInvalidate :: string where "EventTenantCacheInvalidate = ''tenant.cache.invalidate''"
definition ChannelPrefix :: string where "ChannelPrefix = ''tenant-events''"

lemmas event_names = EventTenantCreated_def EventTenantActivated_def EventTenantSuspended_def EventTenantDeleted_def
  EventTenantUpdated_def EventTenantServiceAssociated_def EventTenantServiceDisassociated_def EventTenantServiceSuspended_def
  EventTenantServicePurged_def EventTenantServiceReactivated_def EventTenantCredentialsRotated_def
  EventTenantConnectionsUpdated_def EventTenantCacheInvalidate_def

record TenantLifecycleEvent =
  ev_EventID :: string
  ev_EventType :: string
  ev_TenantID :: string
  ev_TenantSlug :: string
  ev_Payload :: string

type_synonym secret_paths = "string \<rightharpoonup> (string \<rightharpoonup> string)"

record ServiceAssociatedPayload =
  as_ServiceName :: string
  as_IsolationMode :: string
  as_Modules :: "string list"
  as_SecretPaths :: secret_paths
  as_RabbitMQSecretPath :: "string option"
  as_ConnectionSettings :: "ConnectionSettings option"

record ServiceReactivatedPayload =
  re_ServiceName :: string
  re_SecretPaths :: secret_paths
  re_ConnectionSettings :: "ConnectionSettings option"

record ConnectionsUpdatedPayload =
  cu_Module :: string
  cu_Settings :: ConnectionSettings

text \<open>JSON decoding of an event and of its payloads.\<close>

record event_codecs =
  dec_event :: "string \<Rightarrow> TenantLifecycleEvent option"
  dec_service_name :: "string \<Rightarrow> string option"
  dec_associated :: "string \<Rightarrow> ServiceAssociatedPayload option"
  dec_reactivated :: "string \<Rightarrow> ServiceReactivatedPayload option"
  dec_connections :: "string \<Rightarrow> ConnectionsUpdatedPayload option"

definition ChannelForTenant :: "string \<Rightarrow> string" where
  "ChannelForTenant tenantID = ChannelPrefix @ '':'' @ tenantID"

datatype event_error = Empty_data | Not_json | No_event_type | No_tenant | Invalid_tenant | Service_payload | Payload

definition ParseEvent :: "event_codecs \<Rightarrow> (string \<Rightarrow> string option) \<Rightarrow> string \<Rightarrow> event_error + TenantLifecycleEvent" where
  "ParseEvent J uuid_Parse data =
     (if data = [] then Inl Empty_data
      else (case dec_event J data of
          None \<Rightarrow> Inl Not_json
        | Some evt \<Rightarrow>
            if ev_EventType evt = [] then Inl No_event_type
            else if ev_TenantID evt = [] then Inl No_tenant
            else (case CanonicalTenantID uuid_Parse (ev_TenantID evt) of
                None \<Rightarrow> Inl Invalid_tenant
              | Some canonical \<Rightarrow> Inr (evt\<lparr>ev_TenantID := canonical\<rparr>))))"

subsection \<open>The dispatcher\<close>

definition maxJitterMillis :: nat where "maxJitterMillis = 5000"
definition dispatcherCacheTTL :: int where "dispatcherCacheTTL = 43200000000000"

record pg_manager =
  pm_id :: nat
  pm_Module :: string

record EventDispatcher =
  d_loader :: "TenantLoader option"
  d_service :: string
  d_cacheTTL :: int
  d_postgres :: "pg_manager option"
  d_mongo :: "nat option"
  d_rabbitmq :: bool
  d_postgresManagers :: "pg_manager list"
  d_mongoManagers :: "nat list"
  d_onTenantAdded :: bool
  d_onTenantRemoved :: bool
  d_ownsTenant :: "(string \<Rightarrow> bool) option"

text \<open>Nil managers are skipped, and a manager is registered once.\<close>

fun addPostgresManagers :: "pg_manager option list \<Rightarrow> EventDispatcher \<Rightarrow> EventDispatcher" where
  "addPostgresManagers [] d = d"
| "addPostgresManagers (None # ms) d = addPostgresManagers ms d"
| "addPostgresManagers (Some m # ms) d =
     (let d = (if d_postgres d = None then d\<lparr>d_postgres := Some m\<rparr> else d) in
      addPostgresManagers ms
        (if m \<in> set (d_postgresManagers d) then d else d\<lparr>d_postgresManagers := d_postgresManagers d @ [m]\<rparr>))"

fun addMongoManagers :: "nat option list \<Rightarrow> EventDispatcher \<Rightarrow> EventDispatcher" where
  "addMongoManagers [] d = d"
| "addMongoManagers (None # ms) d = addMongoManagers ms d"
| "addMongoManagers (Some m # ms) d =
     (let d = (if d_mongo d = None then d\<lparr>d_mongo := Some m\<rparr> else d) in
      addMongoManagers ms (if m \<in> set (d_mongoManagers d) then d else d\<lparr>d_mongoManagers := d_mongoManagers d @ [m]\<rparr>))"

type_synonym DispatcherOption = "EventDispatcher \<Rightarrow> EventDispatcher"

definition WithPostgres :: "pg_manager option \<Rightarrow> DispatcherOption" where
  "WithPostgres p d = addPostgresManagers [p] (d\<lparr>d_postgres := p, d_postgresManagers := []\<rparr>)"

definition WithPostgresManagers :: "pg_manager option list \<Rightarrow> DispatcherOption" where
  "WithPostgresManagers ms d = addPostgresManagers ms d"

definition WithMongo :: "nat option \<Rightarrow> DispatcherOption" where
  "WithMongo m d = addMongoManagers [m] (d\<lparr>d_mongo := m, d_mongoManagers := []\<rparr>)"

definition WithMongoManagers :: "nat option list \<Rightarrow> DispatcherOption" where
  "WithMongoManagers ms d = addMongoManagers ms d"

definition WithRabbitMQ :: "bool \<Rightarrow> DispatcherOption" where
  "WithRabbitMQ r d = d\<lparr>d_rabbitmq := r\<rparr>"

definition WithDispatcherCacheTTL :: "int \<Rightarrow> DispatcherOption" where
  "WithDispatcherCacheTTL ttl d = d\<lparr>d_cacheTTL := ttl\<rparr>"

definition WithTenantOwnershipChecker :: "(string \<Rightarrow> bool) option \<Rightarrow> DispatcherOption" where
  "WithTenantOwnershipChecker fn d = d\<lparr>d_ownsTenant := fn\<rparr>"

definition WithOnTenantAdded :: "bool \<Rightarrow> DispatcherOption" where
  "WithOnTenantAdded fn d = d\<lparr>d_onTenantAdded := fn\<rparr>"

definition WithOnTenantRemoved :: "bool \<Rightarrow> DispatcherOption" where
  "WithOnTenantRemoved fn d = d\<lparr>d_onTenantRemoved := fn\<rparr>"

definition NewEventDispatcher :: "TenantCache option \<Rightarrow> TenantLoader option \<Rightarrow> string \<Rightarrow> DispatcherOption list \<Rightarrow> EventDispatcher \<times> TenantCache" where
  "NewEventDispatcher cache loader service opts =
     (foldl (\<lambda>d opt. opt d)
        \<lparr>d_loader = loader, d_service = service, d_cacheTTL = dispatcherCacheTTL, d_postgres = None, d_mongo = None, d_rabbitmq = False,
         d_postgresManagers = [], d_mongoManagers = [], d_onTenantAdded = False, d_onTenantRemoved = False, d_ownsTenant = None\<rparr> opts,
      case cache of None \<Rightarrow> NewTenantCache | Some c \<Rightarrow> c)"

text \<open>
  The surroundings of one event: when it is handled, the four random bytes of its jitter as a number, the
  surroundings of a reload, and the codecs.
\<close>

record event_env =
  v_now :: int
  v_random :: nat
  v_reload :: tm_env
  v_codecs :: event_codecs

definition matchesService :: "event_codecs \<Rightarrow> EventDispatcher \<Rightarrow> TenantLifecycleEvent \<Rightarrow> bool option" where
  "matchesService J d evt =
     (if ev_Payload evt = [] then Some False else map_option (\<lambda>name. name = d_service d) (dec_service_name J (ev_Payload evt)))"

definition isServiceScopedEvent :: "string \<Rightarrow> bool" where
  "isServiceScopedEvent t \<longleftrightarrow> prefix ''tenant.service.'' t \<or> t = EventTenantCredentialsRotated \<or>
     t = EventTenantConnectionsUpdated \<or> t = EventTenantCacheInvalidate"

definition isTenantLevelEvent :: "string \<Rightarrow> bool" where
  "isTenantLevelEvent t \<longleftrightarrow> t = EventTenantCreated \<or> t = EventTenantActivated \<or> t = EventTenantSuspended \<or>
     t = EventTenantDeleted \<or> t = EventTenantUpdated"

definition removeTenant :: "EventDispatcher \<Rightarrow> string \<Rightarrow> node \<Rightarrow> node" where
  "removeTenant d tenantID n =
     (let n = n\<lparr>nd_cache := tc_Delete (nd_cache n) tenantID\<rparr>;
          n = InvalidateClientCache (d_loader d) tenantID (d_service d) n
      in effects
           ((if d_rabbitmq d then [Close_rabbitmq tenantID] else []) @
            map (\<lambda>m. Close_postgres (pm_id m) tenantID) (d_postgresManagers d) @
            map (\<lambda>m. Close_mongo m tenantID) (d_mongoManagers d) @
            (if d_onTenantRemoved d then [Tenant_removed tenantID] else [])) n)"

definition isOwnedLocally :: "EventDispatcher \<Rightarrow> int \<Rightarrow> string \<Rightarrow> node \<Rightarrow> bool \<times> node" where
  "isOwnedLocally d now tenantID n =
     (if (case d_ownsTenant d of Some owns \<Rightarrow> owns tenantID | None \<Rightarrow> False) then (True, n)
      else (case tc_Get (nd_cache n) tenantID now of (r, cache) \<Rightarrow> (r \<noteq> None, n\<lparr>nd_cache := cache\<rparr>)))"

definition resolveCacheTTL :: "EventDispatcher \<Rightarrow> int" where
  "resolveCacheTTL d = (if 0 < d_cacheTTL d then d_cacheTTL d else dispatcherCacheTTL)"

definition buildDatabasesFromSecretPaths :: "secret_paths \<Rightarrow> (string \<rightharpoonup> DatabaseConfig)" where
  "buildDatabasesFromSecretPaths secretPaths =
     (\<lambda>module. map_option (\<lambda>paths.
        zero_Database\<lparr>
          db_PostgreSQL := map_option (\<lambda>rw. zero_PostgreSQL\<lparr>pg_Host := rw\<rparr>) (paths ''postgresql_rw''),
          db_PostgreSQLReplica := map_option (\<lambda>ro. zero_PostgreSQL\<lparr>pg_Host := ro\<rparr>) (paths ''postgresql_ro''),
          db_MongoDB := map_option (\<lambda>_. zero_MongoDB) (paths ''mongodb'')\<rparr>) (secretPaths module))"

definition buildConfigFromConnectionsPayload :: "string \<Rightarrow> ConnectionsUpdatedPayload \<Rightarrow> TenantConfig" where
  "buildConfigFromConnectionsPayload tenantID p = zero_Tenant\<lparr>cfg_ID := tenantID, cfg_ConnectionSettings := Some (cu_Settings p)\<rparr>"

definition applyJitter :: "event_env \<Rightarrow> node \<Rightarrow> node" where
  "applyJitter V n = effects [Slept (int (v_random V mod maxJitterMillis) * 1000000)] n"

subsection \<open>Handlers\<close>

definition handleTenantActivated :: "event_env \<Rightarrow> EventDispatcher \<Rightarrow> TenantLifecycleEvent \<Rightarrow> node \<Rightarrow> node" where
  "handleTenantActivated V d evt n =
     n\<lparr>nd_cache := snd (tc_Touch (nd_cache n) (ev_TenantID evt) (resolveCacheTTL d) (v_now V))\<rparr>"

definition handleTenantUpdated :: "event_env \<Rightarrow> EventDispatcher \<Rightarrow> TenantLifecycleEvent \<Rightarrow> node \<Rightarrow> node" where
  "handleTenantUpdated V d evt n =
     n\<lparr>nd_cache := snd (tc_Touch (nd_cache n) (ev_TenantID evt) (resolveCacheTTL d) (v_now V))\<rparr>"

definition tell_added :: "EventDispatcher \<Rightarrow> string \<Rightarrow> node \<Rightarrow> node" where
  "tell_added d tenantID n = effects (if d_onTenantAdded d then [Tenant_added tenantID] else []) n"

definition associated_config :: "TenantLifecycleEvent \<Rightarrow> ServiceAssociatedPayload \<Rightarrow> TenantConfig" where
  "associated_config evt p =
     (let config = zero_Tenant\<lparr>cfg_ID := ev_TenantID evt, cfg_TenantSlug := ev_TenantSlug evt, cfg_Service := as_ServiceName p,
            cfg_IsolationMode := as_IsolationMode p, cfg_ConnectionSettings := as_ConnectionSettings p,
            cfg_Databases := buildDatabasesFromSecretPaths (as_SecretPaths p)\<rparr>
      in case as_RabbitMQSecretPath p of
           None \<Rightarrow> config
         | Some path \<Rightarrow>
             if path = [] then config
             else
               (let rabbit = zero_RabbitMQ\<lparr>rb_Host := path\<rparr>
                in config\<lparr>cfg_Messaging := Some \<lparr>ms_RabbitMQ = Some rabbit\<rparr>,
                     cfg_RabbitMQ := (\<lambda>module. if module \<in> set (as_Modules p) then Some rabbit else None)\<rparr>))"

definition handleServiceAssociated :: "event_env \<Rightarrow> EventDispatcher \<Rightarrow> TenantLifecycleEvent \<Rightarrow> node \<Rightarrow> event_error option \<times> node" where
  "handleServiceAssociated V d evt n =
     (case dec_associated (v_codecs V) (ev_Payload evt) of
        None \<Rightarrow> (Some Payload, n)
      | Some p \<Rightarrow>
          (None, tell_added d (ev_TenantID evt)
             (n\<lparr>nd_cache := tc_Set (nd_cache n) (ev_TenantID evt) (associated_config evt p) (resolveCacheTTL d) (v_now V)\<rparr>)))"

definition reactivated_config :: "TenantLifecycleEvent \<Rightarrow> ServiceReactivatedPayload \<Rightarrow> TenantConfig" where
  "reactivated_config evt p =
     zero_Tenant\<lparr>cfg_ID := ev_TenantID evt, cfg_TenantSlug := ev_TenantSlug evt, cfg_Service := re_ServiceName p,
       cfg_ConnectionSettings := re_ConnectionSettings p, cfg_Databases := buildDatabasesFromSecretPaths (re_SecretPaths p)\<rparr>"

definition handleServiceReactivated :: "event_env \<Rightarrow> EventDispatcher \<Rightarrow> TenantLifecycleEvent \<Rightarrow> node \<Rightarrow> event_error option \<times> node" where
  "handleServiceReactivated V d evt n =
     (case dec_reactivated (v_codecs V) (ev_Payload evt) of
        None \<Rightarrow> (Some Payload, n)
      | Some p \<Rightarrow>
          (let n = applyJitter V n in
           (None, tell_added d (ev_TenantID evt)
              (n\<lparr>nd_cache := tc_Set (nd_cache n) (ev_TenantID evt) (reactivated_config evt p) (resolveCacheTTL d) (e_now (v_reload V))\<rparr>))))"

text \<open>A reload that fails is left to the next request.\<close>

definition reloadAndNotify :: "event_env \<Rightarrow> EventDispatcher \<Rightarrow> TenantLoader \<Rightarrow> string \<Rightarrow> node \<Rightarrow> node" where
  "reloadAndNotify V d l tenantID n =
     (case LoadTenant l (v_reload V) tenantID n of
        (Inl e, n, _) \<Rightarrow> n
      | (Inr _, n, _) \<Rightarrow> tell_added d tenantID n)"

definition handleCredentialsRotated :: "event_env \<Rightarrow> EventDispatcher \<Rightarrow> TenantLifecycleEvent \<Rightarrow> node \<Rightarrow> node" where
  "handleCredentialsRotated V d evt n =
     (let n = applyJitter V (removeTenant d (ev_TenantID evt) n) in
      case d_loader d of None \<Rightarrow> n | Some l \<Rightarrow> reloadAndNotify V d l (ev_TenantID evt) n)"

definition handleCacheInvalidate :: "event_env \<Rightarrow> EventDispatcher \<Rightarrow> TenantLifecycleEvent \<Rightarrow> node \<Rightarrow> node" where
  "handleCacheInvalidate V d evt n =
     (case isOwnedLocally d (v_now V) (ev_TenantID evt) n of
        (owned, n) \<Rightarrow>
          (let n = removeTenant d (ev_TenantID evt) n in
           if \<not> owned then n
           else (case d_loader d of None \<Rightarrow> n | Some l \<Rightarrow> reloadAndNotify V d l (ev_TenantID evt) (applyJitter V n))))"

definition handleConnectionsUpdated :: "event_env \<Rightarrow> EventDispatcher \<Rightarrow> TenantLifecycleEvent \<Rightarrow> node \<Rightarrow> event_error option \<times> node" where
  "handleConnectionsUpdated V d evt n =
     (case dec_connections (v_codecs V) (ev_Payload evt) of
        None \<Rightarrow> (Some Payload, n)
      | Some p \<Rightarrow>
          (None, effects
             (map (\<lambda>m. Apply_settings (pm_id m) (ev_TenantID evt) (buildConfigFromConnectionsPayload (ev_TenantID evt) p))
                (filter (\<lambda>m. pm_Module m = cu_Module p) (d_postgresManagers d))) n))"

definition dispatchEvent :: "event_env \<Rightarrow> EventDispatcher \<Rightarrow> TenantLifecycleEvent \<Rightarrow> node \<Rightarrow> event_error option \<times> node" where
  "dispatchEvent V d evt n =
     (let t = ev_EventType evt in
      if t = EventTenantCreated then (None, n)
      else if t = EventTenantActivated then (None, handleTenantActivated V d evt n)
      else if t = EventTenantSuspended then (None, removeTenant d (ev_TenantID evt) n)
      else if t = EventTenantDeleted then (None, removeTenant d (ev_TenantID evt) n)
      else if t = EventTenantUpdated then (None, handleTenantUpdated V d evt n)
      else if t = EventTenantServiceAssociated then handleServiceAssociated V d evt n
      else if t = EventTenantServiceDisassociated then (None, removeTenant d (ev_TenantID evt) n)
      else if t = EventTenantServiceSuspended then (None, removeTenant d (ev_TenantID evt) n)
      else if t = EventTenantServicePurged then (None, removeTenant d (ev_TenantID evt) n)
      else if t = EventTenantServiceReactivated then handleServiceReactivated V d evt n
      else if t = EventTenantCredentialsRotated then (None, handleCredentialsRotated V d evt n)
      else if t = EventTenantConnectionsUpdated then handleConnectionsUpdated V d evt n
      else if t = EventTenantCacheInvalidate then (None, handleCacheInvalidate V d evt n)
      else (None, n))"

definition HandleEvent :: "event_env \<Rightarrow> EventDispatcher \<Rightarrow> TenantLifecycleEvent \<Rightarrow> node \<Rightarrow> event_error option \<times> node" where
  "HandleEvent V d evt n =
     (case (if isServiceScopedEvent (ev_EventType evt) then matchesService (v_codecs V) d evt else Some True) of
        None \<Rightarrow> (Some Service_payload, n)
      | Some False \<Rightarrow> (None, n)
      | Some True \<Rightarrow>
          (case (if isTenantLevelEvent (ev_EventType evt) \<and> ev_EventType evt \<noteq> EventTenantCreated
                 then isOwnedLocally d (v_now V) (ev_TenantID evt) n else (True, n)) of
             (False, n) \<Rightarrow> (None, n)
           | (True, n) \<Rightarrow> dispatchEvent V d evt n))"

end
