(* ===== verification/Tenant_Client_Laws.thy ===== *)
theory Tenant_Client_Laws
  imports Tenant_Client Tenant_Keys
begin

text \<open>
  Laws of the Tenant Manager client: the circuit breaker against the history of its calls, what a call
  sends and records, and the key space of the second cache.
\<close>

subsection \<open>The breaker and its history\<close>

text \<open>
  What concurrent calls do to the breaker, in the order in which they take its mutex: look at it at a
  time, record a success, record a failure at a time.
\<close>

datatype breaker_event = Checked int | Succeeded | Failed int

fun on_event :: "Client \<Rightarrow> breaker_event \<Rightarrow> Client" where
  "on_event c (Checked t) = snd (checkCircuitBreaker c t)"
| "on_event c Succeeded = recordSuccess c"
| "on_event c (Failed t) = recordFailure c t"

text \<open>The history alone, the latest event first: how many failures in a row, the time of the latest, and whether a call passed after the timeout since.\<close>

fun failures :: "breaker_event list \<Rightarrow> nat" where
  "failures [] = 0"
| "failures (Succeeded # es) = 0"
| "failures (Failed t # es) = Suc (failures es)"
| "failures (Checked t # es) = failures es"

fun last_failure :: "breaker_event list \<Rightarrow> int option" where
  "last_failure [] = None"
| "last_failure (Failed t # es) = Some t"
| "last_failure (_ # es) = last_failure es"

fun probed :: "int \<Rightarrow> breaker_event list \<Rightarrow> bool" where
  "probed timeout (Checked u # es) \<longleftrightarrow>
     (case last_failure es of Some t \<Rightarrow> timeout < time_Sub u t | None \<Rightarrow> False) \<or> probed timeout es"
| "probed timeout _ \<longleftrightarrow> False"

text \<open>A fresh breaker.\<close>

definition rested :: "Client \<Rightarrow> bool" where
  "rested c \<longleftrightarrow> cb_state c = cbClosed \<and> cbFailures c = 0"

lemma on_event_keeps [simp]:
  "cbThreshold (on_event c e) = cbThreshold c" "cbTimeout (on_event c e) = cbTimeout c"
  by (cases e; auto simp: checkCircuitBreaker_def recordSuccess_def recordFailure_def Let_def split: cbState.splits)+

lemma events_keep [simp]:
  "cbThreshold (foldl on_event c es) = cbThreshold c" "cbTimeout (foldl on_event c es) = cbTimeout c"
  by (induction es rule: rev_induct) simp_all

lemma breaker_history:
  assumes "rested c" and "0 < cbThreshold c"
  shows "cbFailures (foldl on_event c es) = int (failures (rev es)) \<and>
    (0 < failures (rev es) \<longrightarrow> last_failure (rev es) = Some (cbLastFailure (foldl on_event c es))) \<and>
    cb_state (foldl on_event c es) =
      (if int (failures (rev es)) < cbThreshold c then cbClosed
       else if probed (cbTimeout c) (rev es) then cbHalfOpen else cbOpen)"
  using assms
proof (induction es rule: rev_induct)
  case Nil
  then show ?case by (simp add: rested_def)
next
  case (snoc e es)
  let ?c = "foldl on_event c es"
  have IH: "cbFailures ?c = int (failures (rev es))"
    "0 < failures (rev es) \<Longrightarrow> last_failure (rev es) = Some (cbLastFailure ?c)"
    "cb_state ?c = (if int (failures (rev es)) < cbThreshold c then cbClosed
       else if probed (cbTimeout c) (rev es) then cbHalfOpen else cbOpen)"
    using snoc by auto
  have pos: "int (failures (rev es)) < cbThreshold c \<or> 0 < failures (rev es)" using snoc.prems(2) by auto
  show ?case
  proof (cases e)
    case (Checked t)
    then show ?thesis using IH pos snoc.prems(2) by (auto simp: checkCircuitBreaker_def)
  next
    case Succeeded
    then show ?thesis using IH snoc.prems(2) by (simp add: recordSuccess_def)
  next
    case (Failed t)
    then show ?thesis using IH snoc.prems(2) by (auto simp: recordFailure_def Let_def)
  qed
qed

text \<open>When a call is turned away, from the history.\<close>

definition turned_away :: "Client \<Rightarrow> breaker_event list \<Rightarrow> int \<Rightarrow> bool" where
  "turned_away c es now \<longleftrightarrow>
     cbThreshold c \<le> int (failures (rev es)) \<and> \<not> probed (cbTimeout c) (rev es) \<and>
     time_Sub now (the (last_failure (rev es))) \<le> cbTimeout c"

lemma check_from_history:
  assumes "rested c" and "0 < cbThreshold c"
  shows "fst (checkCircuitBreaker (foldl on_event c es) now) = (if turned_away c es now then Some ErrCircuitBreakerOpen else None)"
  using breaker_history [OF assms, of es] assms(2)
  by (auto simp: checkCircuitBreaker_def turned_away_def split: cbState.splits if_splits)

lemma check_refused:
  assumes "fst (checkCircuitBreaker c now) = Some e"
  shows "checkCircuitBreaker c now = (Some e, c)"
  using assms by (auto simp: checkCircuitBreaker_def split: cbState.splits if_splits)

text \<open>Every call asks the breaker before it sends anything.\<close>

lemma refused_calls_send_nothing:
  assumes "fst (checkCircuitBreaker c (e_now E)) = Some e"
  shows "GetTenantConfig E c tenant service True = (Inl e, c, [])"
    and "GetActiveTenantsByService E dec c service = (Inl e, c, [])"
    and "GetTenantMetadata E dec c tenant = (Inl e, c, [])"
    and "GetTenantPrincipals E dec c tenant service = (Inl e, c, [])"
    and "CreateTenant E dec c payload = (Inl e, c, [])"
    and "AssociateService E dec c tenant service payload = (Inl e, c, [])"
    and "SuspendService E c tenant service = (Some e, c, [])"
    and "ReactivateTenant E c tenant = (Some e, c, [])"
  using check_refused [OF assms]
  by (simp_all add: GetTenantConfig_def GetActiveTenantsByService_def GetTenantMetadata_def GetTenantPrincipals_def
      CreateTenant_def AssociateService_def SuspendService_def ReactivateTenant_def doStateTransition_def)

text \<open>
  The documentation of the half-open state allows a single test request; the code lets every call
  through until one of them records how it ended.
\<close>

lemma half_open_admits_every_call:
  "cb_state c = cbHalfOpen \<Longrightarrow> checkCircuitBreaker c now = (None, c)"
  by (simp add: checkCircuitBreaker_def)

text \<open>What a call that was let through records: a failure of the network or the server, an answer, or nothing.\<close>

definition config_events :: "tm_env \<Rightarrow> tm_request \<Rightarrow> breaker_event list" where
  "config_events E rq =
     (if \<not> e_url_ok E (rq_URL rq) then []
      else (case e_Do E rq of
          Do_failed \<Rightarrow> [Failed (e_later E)]
        | Read_failed \<Rightarrow> [Failed (e_later E)]
        | Responded status body \<Rightarrow>
            if status = 200 then if e_dec_config E (take maxResponseBodySize body) = None then [] else [Succeeded]
            else if status = 403 \<or> status = 404 then [Succeeded]
            else if 500 \<le> status then [Failed (e_later E)] else []))"

text \<open>A call changes nothing of the breaker but through those events.\<close>

definition same_breaker :: "Client \<Rightarrow> Client \<Rightarrow> bool" where
  "same_breaker c c' \<longleftrightarrow> cb_state c = cb_state c' \<and> cbFailures c = cbFailures c' \<and> cbLastFailure c = cbLastFailure c' \<and>
     cbThreshold c = cbThreshold c' \<and> cbTimeout c = cbTimeout c'"

lemma same_breaker_cache [simp]:
  "same_breaker c (c\<lparr>cl_cache := m\<rparr>)" "same_breaker (c\<lparr>cl_cache := m\<rparr>) c'  \<longleftrightarrow> same_breaker c c'"
  "same_breaker c c"
  by (simp_all add: same_breaker_def)

lemma same_breaker_caching:
  "same_breaker (cacheTenantConfig E c key config) c' \<longleftrightarrow> same_breaker c c'"
  by (simp add: cacheTenantConfig_def split: config_cache.splits option.splits)

lemma uncached_call_events:
  assumes "fst (checkCircuitBreaker c (e_now E)) = None"
  shows "same_breaker (fst (snd (GetTenantConfig E c tenant service True)))
    (foldl on_event c (Checked (e_now E) # config_events E (config_request c tenant service)))"
proof -
  obtain c1 where c1: "checkCircuitBreaker c (e_now E) = (None, c1)" using assms by (metis prod.collapse)
  have "config_request c1 tenant service = config_request c tenant service"
    using c1 by (auto simp: checkCircuitBreaker_def config_request_def api_key_def split: if_splits cbState.splits)
  then show ?thesis
    using c1 by (simp add: GetTenantConfig_def exchange_def config_events_def handleGetTenantConfigStatus_def isServerError_def
        same_breaker_caching split: http_outcome.splits option.splits)
qed

text \<open>
  The default call looks into the second cache before it asks the breaker: the configuration that is
  held there and still alive, and what the lookup may do to the cache.
\<close>

definition cached_config :: "tm_env \<Rightarrow> Client \<Rightarrow> string \<Rightarrow> TenantConfig option" where
  "cached_config E c key =
     (case cl_cache c of
        Cache m \<Rightarrow> (case mem_held m key (e_now E) of Some json \<Rightarrow> e_dec_config E json | None \<Rightarrow> None)
      | _ \<Rightarrow> None)"

definition drops_dead_entry :: "tm_env \<Rightarrow> Client \<Rightarrow> string \<Rightarrow> Client \<Rightarrow> bool" where
  "drops_dead_entry E c key c' \<longleftrightarrow>
     c' = c \<or>
     (case cl_cache c of
        Cache m \<Rightarrow> cached_config E c key = None \<and> c' = c\<lparr>cl_cache := Cache (mem_Del m key)\<rparr>
      | _ \<Rightarrow> False)"

lemma cache_update_id: "cl_cache c = m \<Longrightarrow> c\<lparr>cl_cache := m\<rparr> = c"
  by simp

lemma cached_lookup:
  "fst (getCachedTenantConfig E c key) = cached_config E c key"
  "drops_dead_entry E c key (snd (getCachedTenantConfig E c key))"
proof -
  show "fst (getCachedTenantConfig E c key) = cached_config E c key"
    by (auto simp: getCachedTenantConfig_def cached_config_def mem_Get_def mem_held_def split: config_cache.splits option.splits)
  show "drops_dead_entry E c key (snd (getCachedTenantConfig E c key))"
    by (auto simp: getCachedTenantConfig_def cached_config_def drops_dead_entry_def mem_Get_def mem_held_def mem_evict_def
        mem_Del_def cache_update_id split: config_cache.splits option.splits)
qed

lemma drops_dead_entry_breaker:
  assumes "drops_dead_entry E c key c'"
  shows "checkCircuitBreaker c' now = (fst (checkCircuitBreaker c now), (snd (checkCircuitBreaker c now))\<lparr>cl_cache := cl_cache c'\<rparr>)"
  using assms by (auto simp: drops_dead_entry_def checkCircuitBreaker_def cache_update_id split: config_cache.splits cbState.splits)

lemma refused_default_call:
  assumes "fst (checkCircuitBreaker c (e_now E)) = Some e"
  obtains c' where "GetTenantConfig E c tenant service False =
      (case cached_config E c (cache_key tenant service) of Some config \<Rightarrow> Inr config | None \<Rightarrow> Inl e, c', [])"
    and "drops_dead_entry E c (cache_key tenant service) c'"
proof -
  let ?k = "cache_key tenant service"
  obtain c' where c': "getCachedTenantConfig E c ?k = (cached_config E c ?k, c')" "drops_dead_entry E c ?k c'"
    using cached_lookup [of E c ?k] by (metis prod.collapse)
  have "checkCircuitBreaker c' (e_now E) = (Some e, c')"
    using drops_dead_entry_breaker [OF c'(2), of "e_now E"] check_refused [OF assms] assms c'(2)
    by (auto simp: drops_dead_entry_def split: config_cache.splits)
  then show thesis
    using c' by (intro that [of c']) (simp_all add: GetTenantConfig_def split: option.splits)
qed

text \<open>
  C14. In every interleaving of the calls of a client with a circuit breaker, a call is turned away exactly
  when the calls recorded the threshold of failures in a row, none has been let through after the
  timeout since (from then on, whatever the comments say of a single test request, every call is let
  through until one records how it ended), and the timeout since the latest failure is not over. Every
  kind of call that is turned away returns the error of the open breaker, sends no request and leaves
  the client as it was; so does \<open>GetTenantConfig\<close> when it skips the cache. When it does not, it
  sends nothing either, returns the configuration the cache still holds alive, or else the error, and
  all it may change is to drop the entry of that tenant and service when it is expired or malformed.
\<close>

theorem open_breaker_sends_nothing:
  fixes c :: Client and es :: "breaker_event list"
  assumes "rested c" and "0 < cbThreshold c"
  defines "s \<equiv> foldl on_event c es"
  shows "fst (checkCircuitBreaker s (e_now E)) = (if turned_away c es (e_now E) then Some ErrCircuitBreakerOpen else None) \<and>
    (turned_away c es (e_now E) \<longrightarrow>
      GetTenantConfig E s tenant service True = (Inl ErrCircuitBreakerOpen, s, []) \<and>
      (\<exists>s'. GetTenantConfig E s tenant service False =
          (case cached_config E s (cache_key tenant service) of Some config \<Rightarrow> Inr config | None \<Rightarrow> Inl ErrCircuitBreakerOpen, s', []) \<and>
        drops_dead_entry E s (cache_key tenant service) s') \<and>
      GetActiveTenantsByService E dec s service = (Inl ErrCircuitBreakerOpen, s, []) \<and>
      GetTenantMetadata E dec s tenant = (Inl ErrCircuitBreakerOpen, s, []) \<and>
      GetTenantPrincipals E dec s tenant service = (Inl ErrCircuitBreakerOpen, s, []) \<and>
      CreateTenant E dec s payload = (Inl ErrCircuitBreakerOpen, s, []) \<and>
      AssociateService E dec s tenant service payload = (Inl ErrCircuitBreakerOpen, s, []) \<and>
      SuspendService E s tenant service = (Some ErrCircuitBreakerOpen, s, []) \<and>
      ReactivateTenant E s tenant = (Some ErrCircuitBreakerOpen, s, []))"
proof -
  have check: "fst (checkCircuitBreaker s (e_now E)) = (if turned_away c es (e_now E) then Some ErrCircuitBreakerOpen else None)"
    unfolding s_def by (rule check_from_history [OF assms(1,2)])
  moreover have "\<exists>s'. GetTenantConfig E s tenant service False =
      (case cached_config E s (cache_key tenant service) of Some config \<Rightarrow> Inr config | None \<Rightarrow> Inl ErrCircuitBreakerOpen, s', []) \<and>
      drops_dead_entry E s (cache_key tenant service) s'" if "turned_away c es (e_now E)"
    using check that by (metis (no_types, lifting) refused_default_call)
  ultimately show ?thesis by (intro conjI impI check refused_calls_send_nothing) simp_all
qed

text \<open>Two failures in a row with a threshold of two, and a call within the timeout.\<close>

definition example_client :: Client where
  "example_client =
     \<lparr>baseURL = ''https://tm'', serviceAPIKey = ''k'', bearerTokenProvider = False, cl_cache = Cache NewInMemoryCache,
      cacheTTL = 60, allowInsecureHTTP = False, cbFailures = 0, cbLastFailure = 0, cb_state = cbClosed, cbThreshold = 2, cbTimeout = 30\<rparr>"

definition example_env :: "int \<Rightarrow> tm_env" where
  "example_env now =
     \<lparr>e_now = now, e_later = now + 1, e_url_ok = (\<lambda>_. True), e_Do = (\<lambda>_. Responded 200 ''{}''), e_token = Inr [],
      e_dec_config = (\<lambda>_. Some zero_Tenant), e_enc_config = (\<lambda>_. Some ''{}''), e_dec_refusal = (\<lambda>_. None)\<rparr>"

theorem open_breaker_sends_nothing_witness:
  "fst (checkCircuitBreaker (foldl on_event example_client [Checked 1, Failed 5, Succeeded, Failed 7, Failed 10]) 40) = Some ErrCircuitBreakerOpen \<and>
   snd (snd (GetTenantConfig (example_env 40) (foldl on_event example_client [Checked 1, Failed 5, Succeeded, Failed 7, Failed 10]) ''acme'' ''ledger'' True)) = [] \<and>
   fst (checkCircuitBreaker (foldl on_event example_client [Checked 1, Failed 5, Succeeded, Failed 7, Failed 10]) 41) = None"
proof -
  let ?es = "[Checked 1, Failed 5, Succeeded, Failed 7, Failed 10]"
  have r: "rested example_client" "0 < cbThreshold example_client" by (simp_all add: rested_def example_client_def)
  have "turned_away example_client ?es 40" "\<not> turned_away example_client ?es 41"
    by (simp_all add: turned_away_def example_client_def time_Sub_def max_int64_def min_int64_def)
  then have "fst (checkCircuitBreaker (foldl on_event example_client ?es) (e_now (example_env 40))) = Some ErrCircuitBreakerOpen"
    "snd (snd (GetTenantConfig (example_env 40) (foldl on_event example_client ?es) ''acme'' ''ledger'' True)) = []"
    "fst (checkCircuitBreaker (foldl on_event example_client ?es) (e_now (example_env 41))) = None"
    using open_breaker_sends_nothing [OF r, where es = ?es and E = "example_env 40" and tenant = "''acme''" and service = "''ledger''"
        and dec = "\<lambda>_. Some ()" and payload = None]
      open_breaker_sends_nothing [OF r, where es = ?es and E = "example_env 41" and tenant = "''acme''" and service = "''ledger''"
        and dec = "\<lambda>_. Some ()" and payload = None]
    by (simp_all only: example_env_def tm_env.simps if_True if_False simp_thms snd_conv)
  then show ?thesis by (simp only: example_env_def tm_env.simps simp_thms)
qed

subsection \<open>Keys and paths\<close>

lemma cache_key_apart:
  assumes "CHR '':'' \<notin> set t" and "CHR '':'' \<notin> set t'"
  shows "cache_key t s = cache_key t' s' \<longleftrightarrow> t = t' \<and> s = s'"
  using assms split_at_delimiter [of t s t' s'] by (auto simp: cache_key_def)

text \<open>An escaped name adds no segment to a path and starts no query, but the names of directories pass as they are.\<close>

lemma upper_hex_safe: "n < 16 \<Longrightarrow> upper_hex n \<noteq> CHR ''/'' \<and> upper_hex n \<noteq> CHR ''?'' \<and> upper_hex n \<noteq> CHR ''#''"
proof -
  assume "n < 16"
  then have "upper_hex n \<in> set ''0123456789ABCDEF''" unfolding upper_hex_def by (intro nth_mem) simp
  then show ?thesis by auto
qed

lemma PathEscape_one_segment: "CHR ''/'' \<notin> set (PathEscape s) \<and> CHR ''?'' \<notin> set (PathEscape s) \<and> CHR ''#'' \<notin> set (PathEscape s)"
proof -
  have u: "\<not> unreserved (CHR ''/'')" "\<not> unreserved (CHR ''?'')" "\<not> unreserved (CHR ''#'')"
    by (simp_all add: unreserved_def less_eq_char_def)
  have "upper_hex (of_char c div 16) \<notin> {CHR ''/'', CHR ''?'', CHR ''#''} \<and> upper_hex (of_char c mod 16) \<notin> {CHR ''/'', CHR ''?'', CHR ''#''}" for c :: char
  proof -
    have "(of_char c :: nat) < 16 * 16" using nat_of_char_less_256 [of c] by simp
    then have "(of_char c :: nat) div 16 < 16" by (rule less_mult_imp_div_less)
    then show ?thesis using upper_hex_safe [of "of_char c div 16"] upper_hex_safe [of "of_char c mod 16"] by simp
  qed
  then show ?thesis using u by (fastforce simp: PathEscape_def percent_def split: if_splits)
qed

lemma PathEscape_keeps_parent: "PathEscape ''..'' = ''..''"
  by (simp add: PathEscape_def unreserved_def)

end
