(* ===== verification/Tenant_Events_Laws.thy ===== *)
theory Tenant_Events_Laws
  imports Tenant_Events Tenant_Client_Laws
begin

text \<open>
  Laws of tenant events run as a whole: an event that withdraws a tenant leaves nothing of it in either
  cache, and loading from empty caches takes an answer of the Tenant Manager.
\<close>

subsection \<open>Loading from cold caches\<close>

definition cold :: "TenantLoader \<Rightarrow> string \<Rightarrow> node \<Rightarrow> bool" where
  "cold l t n \<longleftrightarrow> nd_cache n t = None \<and>
     (\<forall>c m. nd_client n = Some c \<longrightarrow> cl_cache c = Cache m \<longrightarrow> mem_entries m (cache_key t (ld_service l)) = None)"

text \<open>The Tenant Manager itself answered with a configuration.\<close>

definition answered :: "tm_env \<Rightarrow> tm_request \<Rightarrow> TenantConfig \<Rightarrow> bool" where
  "answered E rq config \<longleftrightarrow> (\<exists>body. e_Do E rq = Responded 200 body \<and> e_dec_config E (take maxResponseBodySize body) = Some config)"

lemma check_keeps:
  assumes "checkCircuitBreaker c now = (r, c')"
  shows "cl_cache c' = cl_cache c" "config_request c' t s = config_request c t s"
  using assms by (auto simp: checkCircuitBreaker_def config_request_def api_key_def split: if_splits cbState.splits)

lemma record_keeps [simp]:
  "cl_cache (recordSuccess c) = cl_cache c" "cl_cache (recordFailure c now) = cl_cache c"
  by (simp_all add: recordSuccess_def recordFailure_def Let_def)

lemma status_keeps:
  assumes "handleGetTenantConfigStatus E c t status body = (r, c')"
  shows "cl_cache c' = cl_cache c" and "r = None \<Longrightarrow> status = 200"
  using assms by (auto simp: handleGetTenantConfigStatus_def split: if_splits option.splits)

lemma uncached_lookup:
  assumes "\<And>m. cl_cache c = Cache m \<Longrightarrow> mem_entries m key = None"
  shows "getCachedTenantConfig E c key = (None, c)"
  using assms by (cases "cl_cache c") (auto simp: getCachedTenantConfig_def mem_Get_def)

text \<open>A client without the entry asks the service, and keeps nothing of an answer that is an error.\<close>

lemma uncached_config:
  assumes "\<And>m. cl_cache c = Cache m \<Longrightarrow> mem_entries m (cache_key t s) = None"
    and "GetTenantConfig E c t s False = (r, c', sent)"
  shows "r = Inr config \<Longrightarrow> answered E (config_request c t s) config \<and> sent = [config_request c t s]"
    and "r = Inl e \<Longrightarrow> cl_cache c' = cl_cache c"
  using assms(2)
  by (auto simp: GetTenantConfig_def uncached_lookup [OF assms(1)] exchange_def answered_def Let_def
      split: option.splits prod.splits sum.splits if_splits http_outcome.splits)
    (metis check_keeps status_keeps record_keeps)+

lemma cold_load:
  assumes "cold l t n" and "LoadTenant l E t n = (r, n', sent)"
  shows "r = Inr config \<Longrightarrow> \<exists>c. nd_client n = Some c \<and> answered E (config_request c t (ld_service l)) config \<and>
      sent = [config_request c t (ld_service l)]"
    and "r = Inl e \<Longrightarrow> cold l t n'"
proof -
  have g: "tc_Get (nd_cache n) t (e_now E) = (None, nd_cache n)" using assms(1) by (simp add: cold_def tc_Get_def)
  have key: "cl_cache c = Cache m \<Longrightarrow> mem_entries m (cache_key t (ld_service l)) = None" if "nd_client n = Some c" for c m
    using assms(1) that by (simp add: cold_def)
  show "\<exists>c. nd_client n = Some c \<and> answered E (config_request c t (ld_service l)) config \<and> sent = [config_request c t (ld_service l)]"
    if "r = Inr config"
  proof (cases "nd_client n")
    case None
    then show ?thesis using assms(2) g that by (simp add: LoadTenant_def)
  next
    case (Some c)
    obtain q c' s where q: "GetTenantConfig E c t (ld_service l) False = (q, c', s)" by (metis prod_cases3)
    with assms(2) g Some that have "q = Inr config" "s = sent" by (auto simp: LoadTenant_def split: sum.splits)
    with uncached_config(1) [OF key [OF Some] q] Some show ?thesis by blast
  qed
  show "cold l t n'" if "r = Inl e"
  proof (cases "nd_client n")
    case None
    then show ?thesis using assms g that by (auto simp: LoadTenant_def cold_def)
  next
    case (Some c)
    obtain q c' s where q: "GetTenantConfig E c t (ld_service l) False = (q, c', s)" by (metis prod_cases3)
    with assms(2) g Some that obtain e' where e': "q = Inl e'" "n' = n\<lparr>nd_cache := nd_cache n, nd_client := Some c'\<rparr>"
      by (auto simp: LoadTenant_def split: sum.splits)
    from uncached_config(2) [OF key [OF Some] q e'(1)] show ?thesis using assms(1) Some e'(2) by (simp add: cold_def)
  qed
qed

subsection \<open>Withdrawal\<close>

definition withdraws :: "string \<Rightarrow> bool" where
  "withdraws t \<longleftrightarrow> t \<in> {EventTenantSuspended, EventTenantDeleted, EventTenantServiceDisassociated,
     EventTenantServiceSuspended, EventTenantServicePurged}"

text \<open>An event is for this node: it names its service, or a tenant the node owns.\<close>

definition addressed :: "event_env \<Rightarrow> EventDispatcher \<Rightarrow> TenantLifecycleEvent \<Rightarrow> node \<Rightarrow> bool" where
  "addressed V d evt n \<longleftrightarrow>
     (if isServiceScopedEvent (ev_EventType evt) then matchesService (v_codecs V) d evt = Some True
      else fst (isOwnedLocally d (v_now V) (ev_TenantID evt) n))"

definition closings :: "EventDispatcher \<Rightarrow> string \<Rightarrow> effect list" where
  "closings d t =
     (if d_rabbitmq d then [Close_rabbitmq t] else []) @ map (\<lambda>m. Close_postgres (pm_id m) t) (d_postgresManagers d) @
     map (\<lambda>m. Close_mongo m t) (d_mongoManagers d) @ (if d_onTenantRemoved d then [Tenant_removed t] else [])"

lemma ownership_keeps:
  assumes "isOwnedLocally d now t n = (r, n')"
  shows "nd_client n' = nd_client n" "nd_effects n' = nd_effects n" "(nd_cache n')(t := None) = (nd_cache n)(t := None)"
  using assms by (auto simp: isOwnedLocally_def tc_Get_def tc_evict_def split: if_splits option.splits)

lemma removeTenant_parts:
  "nd_cache (removeTenant d t n) = (nd_cache n)(t := None)"
  "nd_effects (removeTenant d t n) = nd_effects n @ closings d t"
  "nd_client (removeTenant d t n) =
     (if d_loader d = None then nd_client n else map_option (\<lambda>c. InvalidateConfig c t (d_service d)) (nd_client n))"
  by (simp_all add: removeTenant_def effects_def closings_def InvalidateClientCache_def tc_Delete_def Let_def split: option.splits)

lemma invalidated:
  "cl_cache (InvalidateConfig c t s) = Cache m \<Longrightarrow> mem_entries m (cache_key t s) = None"
  by (cases "cl_cache c") (auto simp: InvalidateConfig_def mem_Del_def)

lemma removeTenant_cold:
  assumes "d_loader d = Some l" and "ld_service l = d_service d"
  shows "cold l t (removeTenant d t n)"
  using assms by (auto simp: cold_def removeTenant_parts dest: invalidated)

lemma withdrawal_removes:
  assumes "withdraws (ev_EventType evt)" and "addressed V d evt n"
  obtains m where "HandleEvent V d evt n = (None, removeTenant d (ev_TenantID evt) m)"
    and "m = n \<or> m = snd (isOwnedLocally d (v_now V) (ev_TenantID evt) n)"
    and "nd_effects m = nd_effects n" and "(nd_cache m)(ev_TenantID evt := None) = (nd_cache n)(ev_TenantID evt := None)"
proof -
  have scoped: "isServiceScopedEvent (ev_EventType evt) \<longleftrightarrow> \<not> isTenantLevelEvent (ev_EventType evt)"
    "ev_EventType evt \<noteq> EventTenantCreated"
    using assms(1) by (auto simp: withdraws_def isServiceScopedEvent_def isTenantLevelEvent_def event_names)
  have d: "dispatchEvent V d evt m = (None, removeTenant d (ev_TenantID evt) m)" for m
    using assms(1) by (auto simp: withdraws_def dispatchEvent_def event_names Let_def)
  show ?thesis
  proof (cases "isServiceScopedEvent (ev_EventType evt)")
    case True
    then show ?thesis using assms(2) scoped d by (intro that [of n]) (simp_all add: HandleEvent_def addressed_def)
  next
    case False
    obtain r m where m: "isOwnedLocally d (v_now V) (ev_TenantID evt) n = (r, m)" by (cases "isOwnedLocally d (v_now V) (ev_TenantID evt) n")
    then have "r" using assms(2) False by (simp add: addressed_def)
    then have "HandleEvent V d evt n = (None, removeTenant d (ev_TenantID evt) m)"
      using False scoped d m by (simp add: HandleEvent_def)
    then show ?thesis using ownership_keeps [OF m] m by (intro that [of m]) simp_all
  qed
qed

text \<open>A suspended tenant whose configuration both caches held, on a node with one manager.\<close>

definition example_loader :: TenantLoader where
  "example_loader = NewTenantLoader ''ledger'' 60"

definition example_dispatcher :: EventDispatcher where
  "example_dispatcher =
     fst (NewEventDispatcher None (Some example_loader) ''ledger'' [WithPostgres (Some \<lparr>pm_id = 7, pm_Module = ''tx''\<rparr>), WithOnTenantRemoved True])"

definition example_node :: node where
  "example_node =
     \<lparr>nd_cache = tc_Set NewTenantCache ''acme'' zero_Tenant 60 0,
      nd_client = Some (example_client\<lparr>cl_cache := Cache (mem_Set NewInMemoryCache (cache_key ''acme'' ''ledger'') ''{}'' 60 0)\<rparr>),
      nd_effects = []\<rparr>"

definition example_event :: TenantLifecycleEvent where
  "example_event =
     \<lparr>ev_EventID = ''1'', ev_EventType = ''tenant.suspended'', ev_TenantID = ''acme'', ev_TenantSlug = ''acme'', ev_Payload = []\<rparr>"

definition example_event_env :: event_env where
  "example_event_env =
     \<lparr>v_now = 5, v_random = 0, v_reload = example_env 5,
      v_codecs = \<lparr>dec_event = (\<lambda>_. None), dec_service_name = (\<lambda>_. None), dec_associated = (\<lambda>_. None),
        dec_reactivated = (\<lambda>_. None), dec_connections = (\<lambda>_. None)\<rparr>\<rparr>"

subsection \<open>Renewal\<close>

text \<open>After new credentials or an invalidation, what the first cache holds was fetched by the reload.\<close>

theorem renewed_tenant_is_refetched:
  assumes "ev_EventType evt \<in> {EventTenantCredentialsRotated, EventTenantCacheInvalidate}"
    and "matchesService (v_codecs V) d evt = Some True" and "d_loader d = Some l" and "ld_service l = d_service d"
    and "HandleEvent V d evt n = (r, n')" and "nd_cache n' (ev_TenantID evt) = Some entry"
  shows "\<exists>c. answered (v_reload V) (config_request c (ev_TenantID evt) (ld_service l)) (te_Config entry)"
proof -
  let ?t = "ev_TenantID evt"
  have reload: "\<exists>c. answered (v_reload V) (config_request c ?t (ld_service l)) (te_Config entry)"
    if m: "cold l ?t m" and n': "n' = reloadAndNotify V d l ?t m" for m
  proof -
    obtain q m' s where q: "LoadTenant l (v_reload V) ?t m = (q, m', s)" by (metis prod_cases3)
    show ?thesis
    proof (cases q)
      case (Inl e)
      then have "nd_cache n' ?t = None" using cold_load(2) [OF m q] n' q by (simp add: reloadAndNotify_def cold_def)
      then show ?thesis using assms(6) by simp
    next
      case (Inr config)
      obtain c where c: "nd_client m = Some c" "answered (v_reload V) (config_request c ?t (ld_service l)) config"
        using cold_load(1) [OF m q Inr] by blast
      have "nd_cache m ?t = None" using m by (simp add: cold_def)
      then have "nd_cache m' ?t = Some \<lparr>te_TenantID = ?t, te_Config = config, te_ExpiresAt = e_later (v_reload V) + ld_cacheTTL l\<rparr>"
        using q Inr c(1) by (auto simp: LoadTenant_def tc_Get_def store_loaded_def effects_def tc_Set_def split: prod.splits sum.splits)
      then have "config = te_Config entry" using assms(6) n' q Inr by (auto simp: reloadAndNotify_def tell_added_def effects_def)
      then show ?thesis using c(2) by blast
    qed
  qed
  have cold: "cold l ?t (applyJitter V (removeTenant d ?t m))" for m
    using removeTenant_cold [OF assms(3,4)] by (simp add: applyJitter_def effects_def cold_def)
  show ?thesis
  proof (cases "ev_EventType evt = EventTenantCredentialsRotated")
    case True
    then have "n' = reloadAndNotify V d l ?t (applyJitter V (removeTenant d ?t n))"
      using assms(2,3,5) by (simp add: HandleEvent_def isServiceScopedEvent_def isTenantLevelEvent_def dispatchEvent_def
          handleCredentialsRotated_def event_names Let_def)
    then show ?thesis by (rule reload [OF cold])
  next
    case False
    obtain o' m where m: "isOwnedLocally d (v_now V) ?t n = (o', m)" by (cases "isOwnedLocally d (v_now V) ?t n")
    have "n' = (if \<not> o' then removeTenant d ?t m else reloadAndNotify V d l ?t (applyJitter V (removeTenant d ?t m)))"
      using False assms(1,2,3,5) m by (auto simp: HandleEvent_def isServiceScopedEvent_def isTenantLevelEvent_def dispatchEvent_def
          handleCacheInvalidate_def event_names Let_def)
    moreover have "o'" using calculation assms(6) by (auto simp: removeTenant_parts split: if_splits)
    ultimately show ?thesis using reload [OF cold] by simp
  qed
qed

text \<open>
  A removal does not wait for a load of the same tenant: a load that had its answer before the event
  stores it after, and the withdrawn tenant is served from the first cache for its whole time to live.
\<close>

lemma load_in_flight_survives_removal:
  assumes "u \<le> e_later E + ld_cacheTTL l"
  shows "tc_held (nd_cache (store_loaded l E t config (removeTenant d t n))) t u = Some config"
  using assms by (simp add: store_loaded_def effects_def tc_Set_def tc_held_def IsExpired_def)

end
