(* ===== verification/Tenant_Loads.thy ===== *)
theory Tenant_Loads
  imports Tenant_Events_Laws
begin

text \<open>
  Loads, direct calls of the client and tenant events, step by step and interleaved. A call of
  \<open>GetTenantConfig\<close> is cut where it waits or gives up a lock: up to its request (\<open>enter\<close>), the answer
  (\<open>receive\<close>), the write to the second cache; \<open>LoadTenant\<close> adds the lookup in the first cache before
  and the write to it after, under the mutex of its tenant. An event is the accesses its handler makes;
  a removal is two of them, first one cache and then the other. The in-memory cache of the client never
  fails to delete, so \<open>InvalidateConfig\<close> has no error here.
\<close>

subsection \<open>A call of the client in pieces\<close>

definition enter :: "tm_env \<Rightarrow> string \<Rightarrow> bool \<Rightarrow> Client \<Rightarrow> (tenant_error + TenantConfig) option \<times> Client" where
  "enter E key skipCache c =
     (case (if skipCache then (None, c) else getCachedTenantConfig E c key) of
        (Some config, c) \<Rightarrow> (Some (Inr config), c)
      | (None, c) \<Rightarrow>
          (case checkCircuitBreaker c (e_now E) of
             (Some e, c) \<Rightarrow> (Some (Inl e), c)
           | (None, c) \<Rightarrow> (None, c)))"

definition receive :: "tm_env \<Rightarrow> string \<Rightarrow> string \<Rightarrow> Client \<Rightarrow> (tenant_error + TenantConfig) \<times> Client \<times> tm_request list" where
  "receive E tenantID service c =
     (case exchange E c (config_request c tenantID service) of
        (Inl e, c, sent) \<Rightarrow> (Inl e, c, sent)
      | (Inr (status, body), c, sent) \<Rightarrow>
          (case handleGetTenantConfigStatus E c tenantID status body of
             (Some e, c) \<Rightarrow> (Inl e, c, sent)
           | (None, c) \<Rightarrow>
               (case e_dec_config E body of
                  None \<Rightarrow> (Inl (Other_error ''parse response''), c, sent)
                | Some config \<Rightarrow> (Inr config, recordSuccess c, sent))))"

lemma GetTenantConfig_pieces:
  "GetTenantConfig E c t s skip =
     (case enter E (cache_key t s) skip c of
        (Some r, c) \<Rightarrow> (r, c, [])
      | (None, c) \<Rightarrow>
          (case receive E t s c of
             (Inl e, c, sent) \<Rightarrow> (Inl e, c, sent)
           | (Inr config, c, sent) \<Rightarrow> (Inr config, cacheTenantConfig E c (cache_key t s) config, sent)))"
proof -
  obtain r c1 where lookup: "(if skip then (None, c) else getCachedTenantConfig E c (cache_key t s)) = (r, c1)" by force
  show ?thesis
  proof (cases r)
    case (Some config)
    then show ?thesis using lookup by (simp add: GetTenantConfig_def enter_def)
  next
    case None
    obtain b c2 where check: "checkCircuitBreaker c1 (e_now E) = (b, c2)" by force
    show ?thesis
    proof (cases b)
      case (Some e)
      then show ?thesis using lookup None check by (simp add: GetTenantConfig_def enter_def)
    next
      case passed: None
      have "enter E (cache_key t s) skip c = (None, c2)" using lookup None check passed by (simp add: enter_def)
      moreover obtain x c3 sent where "exchange E c2 (config_request c2 t s) = (x, c3, sent)" by (metis prod_cases3)
      ultimately show ?thesis
        using lookup None check passed
        by (cases x) (simp_all add: GetTenantConfig_def receive_def split: prod.split option.split)
    qed
  qed
qed

subsection \<open>Steps\<close>

datatype stage = Waiting | Parsed TenantConfig | Fetched TenantConfig

record call =
  call_tenant :: string
  call_load :: bool
  call_stage :: stage

record loads =
  lo_node :: node
  lo_calls :: "nat \<Rightarrow> call option"
  lo_locked :: "string \<Rightarrow> bool"

datatype load_action =
    Start nat string tm_env | Call nat string bool tm_env
  | Answer nat tm_env | Keep nat tm_env | Store nat tm_env
  | Look string int | First string | Second string | Renew string int int | Tell string TenantConfig int int

text \<open>What a step shows: the second cache answered, the Tenant Manager answered, an event carried a configuration, a call returned one.\<close>

datatype load_label = Hit string TenantConfig | Answered string TenantConfig | Told string TenantConfig | Returned string TenantConfig

definition over :: "nat \<Rightarrow> call \<Rightarrow> loads \<Rightarrow> loads" where
  "over i k s = s\<lparr>lo_calls := (lo_calls s)(i := None),
     lo_locked := (if call_load k then (lo_locked s)(call_tenant k := False) else lo_locked s)\<rparr>"

definition start_load :: "TenantLoader \<Rightarrow> nat \<Rightarrow> string \<Rightarrow> tm_env \<Rightarrow> loads \<Rightarrow> (loads \<times> load_label list) option" where
  "start_load l i t E s =
     (let n = lo_node s in
      if lo_calls s i \<noteq> None \<or> lo_locked s t then None
      else (case tc_Get (nd_cache n) t (e_now E) of
          (Some entry, cache) \<Rightarrow> Some (s\<lparr>lo_node := n\<lparr>nd_cache := cache\<rparr>\<rparr>, [Returned t (te_Config entry)])
        | (None, cache) \<Rightarrow>
            (case nd_client n of
               None \<Rightarrow> None
             | Some c \<Rightarrow>
                 (case enter E (cache_key t (ld_service l)) False c of
                    (r, c) \<Rightarrow>
                      (let s = s\<lparr>lo_node := n\<lparr>nd_cache := cache, nd_client := Some c\<rparr>\<rparr>;
                           busy = (\<lambda>st. s\<lparr>lo_calls := (lo_calls s)(i \<mapsto> \<lparr>call_tenant = t, call_load = True, call_stage = st\<rparr>),
                                       lo_locked := (lo_locked s)(t := True)\<rparr>)
                       in case r of
                            Some (Inl e) \<Rightarrow> Some (s, [])
                          | Some (Inr config) \<Rightarrow> Some (busy (Fetched config), [Hit t config])
                          | None \<Rightarrow> Some (busy Waiting, []))))))"

definition start_call :: "TenantLoader \<Rightarrow> nat \<Rightarrow> string \<Rightarrow> bool \<Rightarrow> tm_env \<Rightarrow> loads \<Rightarrow> (loads \<times> load_label list) option" where
  "start_call l i t skip E s =
     (let n = lo_node s in
      if lo_calls s i \<noteq> None then None
      else (case nd_client n of
          None \<Rightarrow> None
        | Some c \<Rightarrow>
            (case enter E (cache_key t (ld_service l)) skip c of
               (r, c) \<Rightarrow>
                 (let s = s\<lparr>lo_node := n\<lparr>nd_client := Some c\<rparr>\<rparr>
                  in case r of
                       Some (Inl e) \<Rightarrow> Some (s, [])
                     | Some (Inr config) \<Rightarrow> Some (s, [Hit t config, Returned t config])
                     | None \<Rightarrow> Some (s\<lparr>lo_calls := (lo_calls s)(i \<mapsto> \<lparr>call_tenant = t, call_load = False, call_stage = Waiting\<rparr>)\<rparr>, [])))))"

definition get_answer :: "TenantLoader \<Rightarrow> nat \<Rightarrow> tm_env \<Rightarrow> loads \<Rightarrow> (loads \<times> load_label list) option" where
  "get_answer l i E s =
     (case (lo_calls s i, nd_client (lo_node s)) of
        (Some k, Some c) \<Rightarrow>
          (case call_stage k of
             Waiting \<Rightarrow>
               (case receive E (call_tenant k) (ld_service l) c of
                  (r, c, sent) \<Rightarrow>
                    (let s = s\<lparr>lo_node := (lo_node s)\<lparr>nd_client := Some c\<rparr>\<rparr>
                     in case r of
                          Inl e \<Rightarrow> Some (over i k s, [])
                        | Inr config \<Rightarrow> Some (s\<lparr>lo_calls := (lo_calls s)(i \<mapsto> k\<lparr>call_stage := Parsed config\<rparr>)\<rparr>, [Answered (call_tenant k) config])))
           | _ \<Rightarrow> None)
      | _ \<Rightarrow> None)"

definition keep_answer :: "TenantLoader \<Rightarrow> nat \<Rightarrow> tm_env \<Rightarrow> loads \<Rightarrow> (loads \<times> load_label list) option" where
  "keep_answer l i E s =
     (case (lo_calls s i, nd_client (lo_node s)) of
        (Some k, Some c) \<Rightarrow>
          (case call_stage k of
             Parsed config \<Rightarrow>
               (let s = s\<lparr>lo_node := (lo_node s)\<lparr>nd_client := Some (cacheTenantConfig E c (cache_key (call_tenant k) (ld_service l)) config)\<rparr>\<rparr>
                in if call_load k then Some (s\<lparr>lo_calls := (lo_calls s)(i \<mapsto> k\<lparr>call_stage := Fetched config\<rparr>)\<rparr>, [])
                   else Some (over i k s, [Returned (call_tenant k) config]))
           | _ \<Rightarrow> None)
      | _ \<Rightarrow> None)"

definition store_answer :: "TenantLoader \<Rightarrow> nat \<Rightarrow> tm_env \<Rightarrow> loads \<Rightarrow> (loads \<times> load_label list) option" where
  "store_answer l i E s =
     (case lo_calls s i of
        Some k \<Rightarrow>
          (case call_stage k of
             Fetched config \<Rightarrow>
               Some (over i k (s\<lparr>lo_node := store_loaded l E (call_tenant k) config (lo_node s)\<rparr>), [Returned (call_tenant k) config])
           | _ \<Rightarrow> None)
      | None \<Rightarrow> None)"

text \<open>The two halves of \<open>removeTenant\<close>.\<close>

definition drop_first :: "string \<Rightarrow> node \<Rightarrow> node" where
  "drop_first t n = n\<lparr>nd_cache := tc_Delete (nd_cache n) t\<rparr>"

definition drop_second :: "EventDispatcher \<Rightarrow> string \<Rightarrow> node \<Rightarrow> node" where
  "drop_second d t n = effects (closings d t) (InvalidateClientCache (d_loader d) t (d_service d) n)"

lemma removeTenant_halves: "removeTenant d t n = drop_second d t (drop_first t n)"
  by (simp add: removeTenant_def drop_second_def drop_first_def closings_def Let_def)

fun perform :: "TenantLoader \<Rightarrow> EventDispatcher \<Rightarrow> load_action \<Rightarrow> loads \<Rightarrow> (loads \<times> load_label list) option" where
  "perform l d (Start i t E) s = start_load l i t E s"
| "perform l d (Call i t skip E) s = start_call l i t skip E s"
| "perform l d (Answer i E) s = get_answer l i E s"
| "perform l d (Keep i E) s = keep_answer l i E s"
| "perform l d (Store i E) s = store_answer l i E s"
| "perform l d (Look t now) s = Some (s\<lparr>lo_node := snd (isOwnedLocally d now t (lo_node s))\<rparr>, [])"
| "perform l d (First t) s = Some (s\<lparr>lo_node := drop_first t (lo_node s)\<rparr>, [])"
| "perform l d (Second t) s = Some (s\<lparr>lo_node := drop_second d t (lo_node s)\<rparr>, [])"
| "perform l d (Renew t ttl now) s =
     Some (s\<lparr>lo_node := (lo_node s)\<lparr>nd_cache := snd (tc_Touch (nd_cache (lo_node s)) t ttl now)\<rparr>\<rparr>, [])"
| "perform l d (Tell t config ttl now) s =
     Some (s\<lparr>lo_node := (lo_node s)\<lparr>nd_cache := tc_Set (nd_cache (lo_node s)) t config ttl now\<rparr>\<rparr>, [Told t config])"

fun run :: "TenantLoader \<Rightarrow> EventDispatcher \<Rightarrow> load_action list \<Rightarrow> loads \<Rightarrow> (loads \<times> load_label list) option" where
  "run l d [] s = Some (s, [])"
| "run l d (a # as) s =
     (case perform l d a s of
        None \<Rightarrow> None
      | Some (s, w) \<Rightarrow> (case run l d as s of None \<Rightarrow> None | Some (s, w') \<Rightarrow> Some (s, w @ w')))"

text \<open>A load that nothing interrupts is \<open>LoadTenant\<close>.\<close>

definition uninterrupted :: "TenantLoader \<Rightarrow> nat \<Rightarrow> string \<Rightarrow> tm_env \<Rightarrow> loads \<Rightarrow> loads" where
  "uninterrupted l i t E s =
     (let next = (\<lambda>f s. case f s of None \<Rightarrow> s | Some (s, _) \<Rightarrow> s)
      in next (store_answer l i E) (next (keep_answer l i E) (next (get_answer l i E) (next (start_load l i t E) s))))"

lemma uninterrupted_load:
  assumes "lo_calls s i = None" and "\<not> lo_locked s t" and "nd_client (lo_node s) = Some c"
  shows "lo_node (uninterrupted l i t E s) = fst (snd (LoadTenant l E t (lo_node s)))"
  using assms
  by (simp add: uninterrupted_def LoadTenant_def GetTenantConfig_pieces start_load_def get_answer_def keep_answer_def
      store_answer_def over_def Let_def split: prod.split option.split sum.split)

subsection \<open>Where a configuration comes from\<close>

text \<open>
  The configurations in a set, and what reading them back from the second cache, where they stand
  encoded, gives.
\<close>

definition via :: "(TenantConfig \<Rightarrow> string option) \<Rightarrow> (string \<Rightarrow> TenantConfig option) \<Rightarrow> TenantConfig set \<Rightarrow> TenantConfig set" where
  "via enc dec K = K \<union> {config'. \<exists>config\<in>K. \<exists>json. enc config = Some json \<and> dec json = Some config'}"

lemma via_mono: "K \<subseteq> K' \<Longrightarrow> via enc dec K \<subseteq> via enc dec K'"
  by (auto simp: via_def)

lemma viaI: "config \<in> K \<Longrightarrow> config \<in> via enc dec K"
  by (simp add: via_def)

text \<open>The calls of a tenant that hold a configuration already.\<close>

definition carried :: "string \<Rightarrow> loads \<Rightarrow> TenantConfig set" where
  "carried t s = {config. \<exists>i k. lo_calls s i = Some k \<and> call_tenant k = t \<and> call_stage k \<in> {Parsed config, Fetched config}}"

text \<open>Sources of the tenant's configuration in a trace; the second cache counts while it may hold an older one.\<close>

definition sources :: "bool \<Rightarrow> string \<Rightarrow> load_label list \<Rightarrow> TenantConfig set" where
  "sources second t w =
     {config. Answered t config \<in> set w \<or> Told t config \<in> set w \<or> \<not> second \<and> Hit t config \<in> set w}"

lemma sources_append [simp]: "sources b t (w @ w') = sources b t w \<union> sources b t w'"
  by (auto simp: sources_def)

lemma sources_Nil [simp]: "sources b t [] = {}"
  by (simp add: sources_def)

fun same_codec :: "(TenantConfig \<Rightarrow> string option) \<Rightarrow> (string \<Rightarrow> TenantConfig option) \<Rightarrow> load_action \<Rightarrow> bool" where
  "same_codec enc dec (Start i t E) \<longleftrightarrow> e_enc_config E = enc \<and> e_dec_config E = dec"
| "same_codec enc dec (Call i t skip E) \<longleftrightarrow> e_enc_config E = enc \<and> e_dec_config E = dec"
| "same_codec enc dec (Answer i E) \<longleftrightarrow> e_enc_config E = enc \<and> e_dec_config E = dec"
| "same_codec enc dec (Keep i E) \<longleftrightarrow> e_enc_config E = enc \<and> e_dec_config E = dec"
| "same_codec enc dec (Store i E) \<longleftrightarrow> e_enc_config E = enc \<and> e_dec_config E = dec"
| "same_codec enc dec _ \<longleftrightarrow> True"

text \<open>What the first cache, the second cache and the calls may hold of a tenant.\<close>

definition first_holds :: "string \<Rightarrow> TenantConfig set \<Rightarrow> node \<Rightarrow> bool" where
  "first_holds t V n \<longleftrightarrow> (case nd_cache n t of None \<Rightarrow> True | Some e \<Rightarrow> te_Config e \<in> V)"

definition client_holds :: "(string \<Rightarrow> TenantConfig option) \<Rightarrow> string \<Rightarrow> TenantConfig set \<Rightarrow> Client \<Rightarrow> bool" where
  "client_holds dec key V c \<longleftrightarrow>
     (\<forall>m e config. cl_cache c = Cache m \<longrightarrow> mem_entries m key = Some e \<longrightarrow> dec (ce_value e) = Some config \<longrightarrow> config \<in> V)"

definition second_holds :: "(string \<Rightarrow> TenantConfig option) \<Rightarrow> string \<Rightarrow> TenantConfig set \<Rightarrow> node \<Rightarrow> bool" where
  "second_holds dec key V n \<longleftrightarrow> (\<forall>c. nd_client n = Some c \<longrightarrow> client_holds dec key V c)"

definition calls_hold :: "string \<Rightarrow> TenantConfig set \<Rightarrow> TenantConfig set \<Rightarrow> (nat \<Rightarrow> call option) \<Rightarrow> bool" where
  "calls_hold t K V calls \<longleftrightarrow>
     (\<forall>i k. calls i = Some k \<longrightarrow> call_tenant k = t \<longrightarrow>
        (case call_stage k of Waiting \<Rightarrow> True | Parsed config \<Rightarrow> config \<in> K | Fetched config \<Rightarrow> config \<in> V))"

definition clean :: "(TenantConfig \<Rightarrow> string option) \<Rightarrow> (string \<Rightarrow> TenantConfig option) \<Rightarrow> TenantLoader \<Rightarrow> string \<Rightarrow> bool \<Rightarrow>
    TenantConfig set \<Rightarrow> loads \<Rightarrow> bool" where
  "clean enc dec l t second K s \<longleftrightarrow>
     first_holds t (via enc dec K) (lo_node s) \<and> calls_hold t K (via enc dec K) (lo_calls s) \<and>
     (second \<longrightarrow> second_holds dec (cache_key t (ld_service l)) (via enc dec K) (lo_node s))"

lemma clean_mono:
  assumes "clean enc dec l t second K s" and "K \<subseteq> K'"
  shows "clean enc dec l t second K' s"
  using assms via_mono [OF assms(2), of enc dec]
  unfolding clean_def first_holds_def second_holds_def client_holds_def calls_hold_def
  by (intro conjI) (fastforce split: option.splits stage.splits)+

lemma cache_key_tenant: "cache_key t s = cache_key u s \<longleftrightarrow> t = u"
  by (simp add: cache_key_def)

text \<open>The pieces of a call and the second cache.\<close>

lemma holds_cache: "cl_cache c' = cl_cache c \<Longrightarrow> client_holds dec key V c' = client_holds dec key V c"
  by (simp add: client_holds_def)

lemma enter_holds:
  assumes "enter E key' skip c = (r, c')" and "client_holds dec key V c"
  shows "client_holds dec key V c'"
proof -
  have get: "client_holds dec key V (snd (getCachedTenantConfig E c key'))"
    using cached_lookup(2) [of E c key'] assms(2)
    by (auto simp: drops_dead_entry_def client_holds_def mem_Del_def split: config_cache.splits if_splits)
  obtain p c1 where lookup: "(if skip then (None, c) else getCachedTenantConfig E c key') = (p, c1)" by force
  have c1: "client_holds dec key V c1" using lookup get assms(2) by (auto split: if_splits)
  show ?thesis
  proof (cases p)
    case (Some config)
    then show ?thesis using assms(1) lookup c1 by (simp add: enter_def)
  next
    case None
    obtain b c2 where check: "checkCircuitBreaker c1 (e_now E) = (b, c2)" by force
    have "c2 = c'" using assms(1) lookup None check by (cases b) (simp_all add: enter_def)
    then show ?thesis using c1 holds_cache [OF check_keeps(1) [OF check]] by simp
  qed
qed

lemma enter_hit:
  assumes "enter E key skip c = (Some (Inr config), c')" and "e_dec_config E = dec" and "client_holds dec key V c"
  shows "config \<in> V"
proof -
  have "fst (getCachedTenantConfig E c key) = Some config"
    using assms(1) by (cases skip) (auto simp: enter_def split: prod.splits option.splits)
  then show ?thesis
    using assms(2,3) unfolding cached_lookup(1)
    by (auto simp: cached_config_def mem_held_def client_holds_def split: config_cache.splits option.splits if_splits)
qed

lemma receive_keeps: "receive E t s c = (r, c', sent) \<Longrightarrow> cl_cache c' = cl_cache c"
  by (auto simp: receive_def exchange_def split: prod.splits sum.splits option.splits if_splits http_outcome.splits
      dest!: status_keeps(1))

lemma keep_holds:
  assumes "client_holds (e_dec_config E) key V c" and "key' = key \<Longrightarrow> config \<in> K" and "V = via (e_enc_config E) (e_dec_config E) K"
  shows "client_holds (e_dec_config E) key V (cacheTenantConfig E c key' config)"
  using assms by (auto simp: cacheTenantConfig_def client_holds_def mem_Set_def via_def split: config_cache.splits option.splits if_splits)

subsection \<open>Every step keeps it\<close>

lemma get_holds:
  assumes "tc_Get (nd_cache n) u now = (r, cache)" and "first_holds t V n"
  shows "first_holds t V (n\<lparr>nd_cache := cache\<rparr>)" and "u = t \<Longrightarrow> r = Some e \<Longrightarrow> te_Config e \<in> V"
  using assms by (auto simp: first_holds_def tc_Get_def tc_evict_def split: option.splits if_splits)

lemma calls_hold_drop: "calls_hold t K V calls \<Longrightarrow> calls_hold t K V (calls(i := None))"
  by (simp add: calls_hold_def)

lemma calls_hold_put:
  "calls_hold t K V calls \<Longrightarrow>
   (call_tenant k = t \<Longrightarrow> case call_stage k of Waiting \<Rightarrow> True | Parsed config \<Rightarrow> config \<in> K | Fetched config \<Rightarrow> config \<in> V) \<Longrightarrow>
   calls_hold t K V (calls(i \<mapsto> k))"
  by (auto simp: calls_hold_def)

lemma calls_hold_waiting:
  "calls_hold t K V calls \<Longrightarrow> calls_hold t K V (calls(i \<mapsto> \<lparr>call_tenant = u, call_load = b, call_stage = Waiting\<rparr>))"
  by (rule calls_hold_put) simp_all

lemma first_holds_client [simp]:
  "first_holds t V (n\<lparr>nd_client := c\<rparr>) \<longleftrightarrow> first_holds t V n"
  by (simp add: first_holds_def)

lemma second_holds_cache [simp]:
  "second_holds dec key V (n\<lparr>nd_cache := m\<rparr>) \<longleftrightarrow> second_holds dec key V n"
  "second_holds dec key V (n\<lparr>nd_client := Some c\<rparr>) \<longleftrightarrow> client_holds dec key V c"
  by (simp_all add: second_holds_def)

lemma over_simps [simp]: "lo_node (over i k s) = lo_node s" "lo_calls (over i k s) = (lo_calls s)(i := None)"
  by (simp_all add: over_def)

definition step_clean where
  "step_clean enc dec l t second K s s' w \<longleftrightarrow>
     clean enc dec l t second (K \<union> sources second t w) s' \<and>
     (\<forall>config. Returned t config \<in> set w \<longrightarrow> config \<in> via enc dec (K \<union> sources second t w))"

lemma start_load_clean:
  assumes "start_load l i u E s = Some (s', w)" and "clean enc dec l t second K s"
    and "e_enc_config E = enc" and "e_dec_config E = dec"
  shows "step_clean enc dec l t second K s s' w"
proof -
  let ?n = "lo_node s" and ?key = "cache_key u (ld_service l)"
  obtain r cache where g: "tc_Get (nd_cache ?n) u (e_now E) = (r, cache)" by force
  have free: "lo_calls s i = None" "\<not> lo_locked s u" using assms(1) by (auto simp: start_load_def Let_def split: if_splits)
  have c0: "first_holds t (via enc dec K) (?n\<lparr>nd_cache := cache\<rparr>)" "u = t \<Longrightarrow> r = Some e \<Longrightarrow> te_Config e \<in> via enc dec K"
    "calls_hold t K (via enc dec K) (lo_calls s)"
    "second \<Longrightarrow> second_holds dec (cache_key t (ld_service l)) (via enc dec K) ?n" for e
    using assms(2) get_holds [OF g] by (auto simp: clean_def)
  show ?thesis
  proof (cases r)
    case (Some e)
    then have "s' = s\<lparr>lo_node := ?n\<lparr>nd_cache := cache\<rparr>\<rparr>" "w = [Returned u (te_Config e)]"
      using assms(1) g free by (auto simp: start_load_def)
    then show ?thesis using c0 Some by (auto simp: step_clean_def clean_def sources_def)
  next
    case None
    then obtain c where c: "nd_client ?n = Some c" 
      using assms(1) g free by (cases "nd_client ?n") (auto simp: start_load_def Let_def)
    obtain q c' where q: "enter E ?key False c = (q, c')" by force
    have h: "client_holds dec (cache_key t (ld_service l)) (via enc dec K) c'" if second
      using c0(4) [OF that] c enter_holds [OF q] by (simp add: second_holds_def)
    have base: "clean enc dec l t second K (s\<lparr>lo_node := ?n\<lparr>nd_cache := cache, nd_client := Some c'\<rparr>\<rparr>)"
      using c0(1,3) h by (simp add: clean_def)
    consider e where "q = Some (Inl e)" | config where "q = Some (Inr config)" | "q = None" by (metis option.exhaust sum.exhaust)
    then show ?thesis
    proof cases
      case 1
      then show ?thesis using assms(1) g free None c q base by (auto simp: start_load_def step_clean_def)
    next
      case 2
      then have s': "s' = s\<lparr>lo_node := ?n\<lparr>nd_cache := cache, nd_client := Some c'\<rparr>,
          lo_calls := (lo_calls s)(i \<mapsto> \<lparr>call_tenant = u, call_load = True, call_stage = Fetched config\<rparr>), lo_locked := (lo_locked s)(u := True)\<rparr>"
        "w = [Hit u config]"
        using assms(1) g free None c q by (auto simp: start_load_def)
      have "config \<in> via enc dec (K \<union> sources second t w)" if "u = t"
      proof (cases second)
        case True
        then have "config \<in> via enc dec K"
          using enter_hit [OF q [unfolded 2] assms(4)] c0(4) c that by (auto simp: second_holds_def)
        then show ?thesis using via_mono [of K "K \<union> sources second t w"] by blast
      next
        case False
        then show ?thesis using s'(2) that by (simp add: sources_def via_def)
      qed
      then show ?thesis
        using clean_mono [OF base, of "K \<union> sources second t w"] s'
        by (auto simp: step_clean_def clean_def intro: calls_hold_put)
    next
      case 3
      then show ?thesis
        using assms(1) g free None c q base by (auto simp: start_load_def step_clean_def clean_def intro: calls_hold_waiting)
    qed
  qed
qed

lemma start_call_clean:
  assumes "start_call l i u skip E s = Some (s', w)" and "clean enc dec l t second K s"
    and "e_enc_config E = enc" and "e_dec_config E = dec"
  shows "step_clean enc dec l t second K s s' w"
proof -
  let ?n = "lo_node s" and ?key = "cache_key u (ld_service l)"
  have free: "lo_calls s i = None" using assms(1) by (auto simp: start_call_def Let_def split: if_splits)
  then obtain c where c: "nd_client ?n = Some c"
    using assms(1) by (cases "nd_client ?n") (auto simp: start_call_def Let_def)
  obtain q c' where q: "enter E ?key skip c = (q, c')" by force
  have h0: "client_holds dec (cache_key t (ld_service l)) (via enc dec K) c" if second
    using assms(2) that c by (simp add: clean_def second_holds_def)
  have base: "clean enc dec l t second K (s\<lparr>lo_node := ?n\<lparr>nd_client := Some c'\<rparr>\<rparr>)"
    using assms(2) enter_holds [OF q h0] by (auto simp: clean_def)
  consider e where "q = Some (Inl e)" | config where "q = Some (Inr config)" | "q = None" by (metis option.exhaust sum.exhaust)
  then show ?thesis
  proof cases
    case 1
    then show ?thesis using assms(1) free c q base by (auto simp: start_call_def step_clean_def)
  next
    case 2
    then have s': "s' = s\<lparr>lo_node := ?n\<lparr>nd_client := Some c'\<rparr>\<rparr>" "w = [Hit u config, Returned u config]"
      using assms(1) free c q by (auto simp: start_call_def)
    have "config \<in> via enc dec (K \<union> sources second t w)" if "u = t"
    proof (cases second)
      case True
      then have "config \<in> via enc dec K" using enter_hit [OF q [unfolded 2] assms(4)] h0 that by auto
      then show ?thesis using via_mono [of K "K \<union> sources second t w"] by blast
    next
      case False
      then show ?thesis using s'(2) that by (simp add: sources_def via_def)
    qed
    then show ?thesis
      using clean_mono [OF base, of "K \<union> sources second t w"] s' by (auto simp: step_clean_def)
  next
    case 3
    then show ?thesis
      using assms(1) free c q base by (auto simp: start_call_def step_clean_def clean_def intro: calls_hold_waiting)
  qed
qed

lemma get_answer_clean:
  assumes "get_answer l i E s = Some (s', w)" and "clean enc dec l t second K s"
  shows "step_clean enc dec l t second K s s' w"
proof -
  let ?n = "lo_node s"
  obtain k c where k: "lo_calls s i = Some k" "nd_client ?n = Some c" "call_stage k = Waiting"
    using assms(1) by (auto simp: get_answer_def split: option.splits stage.splits)
  obtain r c' sent where r: "receive E (call_tenant k) (ld_service l) c = (r, c', sent)" by (metis prod_cases3)
  have base: "clean enc dec l t second K (s\<lparr>lo_node := ?n\<lparr>nd_client := Some c'\<rparr>\<rparr>)"
    using assms(2) holds_cache [OF receive_keeps [OF r]] k(2) by (auto simp: clean_def second_holds_def)
  show ?thesis
  proof (cases r)
    case (Inl e)
    then show ?thesis
      using assms(1) k r base by (auto simp: get_answer_def step_clean_def clean_def intro: calls_hold_drop)
  next
    case (Inr config)
    then have s': "s' = s\<lparr>lo_node := ?n\<lparr>nd_client := Some c'\<rparr>, lo_calls := (lo_calls s)(i \<mapsto> k\<lparr>call_stage := Parsed config\<rparr>)\<rparr>"
      "w = [Answered (call_tenant k) config]"
      using assms(1) k r by (auto simp: get_answer_def)
    show ?thesis
      using clean_mono [OF base, of "K \<union> sources second t w"] s'
      by (auto simp: step_clean_def clean_def sources_def intro: calls_hold_put)
  qed
qed

lemma held_call:
  assumes "clean enc dec l t second K s" and "lo_calls s i = Some k" and "call_tenant k = t"
  shows "call_stage k = Parsed config \<Longrightarrow> config \<in> K" and "call_stage k = Fetched config \<Longrightarrow> config \<in> via enc dec K"
proof -
  have "case call_stage k of Waiting \<Rightarrow> True | Parsed config \<Rightarrow> config \<in> K | Fetched config \<Rightarrow> config \<in> via enc dec K"
    using assms unfolding clean_def calls_hold_def by blast
  then show "call_stage k = Parsed config \<Longrightarrow> config \<in> K" and "call_stage k = Fetched config \<Longrightarrow> config \<in> via enc dec K" by simp_all
qed

lemma keep_answer_clean:
  assumes "keep_answer l i E s = Some (s', w)" and "clean enc dec l t second K s"
    and "e_enc_config E = enc" and "e_dec_config E = dec"
  shows "step_clean enc dec l t second K s s' w"
proof -
  let ?n = "lo_node s"
  obtain k c config where k: "lo_calls s i = Some k" "nd_client ?n = Some c" "call_stage k = Parsed config"
    using assms(1) by (auto simp: keep_answer_def split: option.splits stage.splits)
  let ?c = "cacheTenantConfig E c (cache_key (call_tenant k) (ld_service l)) config"
  have K: "config \<in> K" if "call_tenant k = t" using held_call(1) [OF assms(2) k(1) that k(3)] .
  have "client_holds dec (cache_key t (ld_service l)) (via enc dec K) ?c" if second
  proof -
    have "client_holds dec (cache_key t (ld_service l)) (via enc dec K) c"
      using assms(2) that k(2) by (simp add: clean_def second_holds_def)
    then show ?thesis
      unfolding assms(4) [symmetric]
    proof (rule keep_holds)
      show "config \<in> K" if "cache_key (call_tenant k) (ld_service l) = cache_key t (ld_service l)"
        using that K by (simp only: cache_key_tenant)
    qed (simp only: assms(3))
  qed
  then have base: "clean enc dec l t second K (s\<lparr>lo_node := ?n\<lparr>nd_client := Some ?c\<rparr>\<rparr>)"
    using assms(2) by (auto simp: clean_def)
  have V: "config \<in> via enc dec K" if "call_tenant k = t" using K [OF that] by (rule viaI)
  show ?thesis
  proof (cases "call_load k")
    case True
    then have "s' = s\<lparr>lo_node := ?n\<lparr>nd_client := Some ?c\<rparr>, lo_calls := (lo_calls s)(i \<mapsto> k\<lparr>call_stage := Fetched config\<rparr>)\<rparr>" "w = []"
      using assms(1) k by (auto simp: keep_answer_def)
    then show ?thesis using base V by (auto simp: step_clean_def clean_def intro: calls_hold_put)
  next
    case False
    then have "s' = over i k (s\<lparr>lo_node := ?n\<lparr>nd_client := Some ?c\<rparr>\<rparr>)" "w = [Returned (call_tenant k) config]"
      using assms(1) k by (auto simp: keep_answer_def)
    then show ?thesis using base V by (auto simp: step_clean_def clean_def sources_def intro: calls_hold_drop)
  qed
qed

lemma store_answer_clean:
  assumes "store_answer l i E s = Some (s', w)" and "clean enc dec l t second K s"
  shows "step_clean enc dec l t second K s s' w"
proof -
  obtain k config where k: "lo_calls s i = Some k" "call_stage k = Fetched config"
    "s' = over i k (s\<lparr>lo_node := store_loaded l E (call_tenant k) config (lo_node s)\<rparr>)" "w = [Returned (call_tenant k) config]"
    using assms(1) by (auto simp: store_answer_def split: option.splits stage.splits)
  have V: "config \<in> via enc dec K" if "call_tenant k = t" using held_call(2) [OF assms(2) k(1) that k(2)] .
  then have "first_holds t (via enc dec K) (store_loaded l E (call_tenant k) config (lo_node s))"
    using assms(2) by (auto simp: clean_def first_holds_def store_loaded_def effects_def tc_Set_def)
  moreover have "nd_client (store_loaded l E (call_tenant k) config (lo_node s)) = nd_client (lo_node s)"
    by (simp add: store_loaded_def effects_def)
  ultimately show ?thesis
    using assms(2) k V by (auto simp: step_clean_def clean_def second_holds_def sources_def intro: calls_hold_drop)
qed

lemma event_clean:
  assumes "clean enc dec l t second K s" and "first_holds t (via enc dec K') n" and "K \<subseteq> K'"
    and "\<And>c'. nd_client n = Some c' \<Longrightarrow> \<exists>c. nd_client (lo_node s) = Some c \<and> (c' = c \<or> (\<exists>u v. c' = InvalidateConfig c u v))"
  shows "clean enc dec l t second K' (s\<lparr>lo_node := n\<rparr>)"
proof -
  have "client_holds dec key V (InvalidateConfig c u v)" if "client_holds dec key V c" for key V c u v
    using that by (auto simp: client_holds_def InvalidateConfig_def mem_Del_def split: config_cache.splits if_splits)
  then have "second_holds dec (cache_key t (ld_service l)) (via enc dec K') n" if second
    using clean_mono [OF assms(1,3)] assms(4) that unfolding clean_def second_holds_def by metis
  then show ?thesis using clean_mono [OF assms(1,3)] assms(2) by (simp add: clean_def)
qed

lemma drop_second_client:
  assumes "nd_client (drop_second d u n) = Some c'"
  shows "\<exists>c. nd_client n = Some c \<and> (c' = c \<or> (\<exists>u v. c' = InvalidateConfig c u v))"
  using assms by (auto simp: drop_second_def effects_def InvalidateClientCache_def split: option.splits)

lemma look_keeps:
  "nd_client (snd (isOwnedLocally d now u n)) = nd_client n"
  "first_holds t V n \<Longrightarrow> first_holds t V (snd (isOwnedLocally d now u n))"
  by (auto simp: isOwnedLocally_def first_holds_def tc_Get_def tc_evict_def split: option.splits)

lemma perform_clean:
  assumes "perform l d a s = Some (s', w)" and "same_codec enc dec a" and "clean enc dec l t second K s"
  shows "step_clean enc dec l t second K s s' w"
proof -
  have f: "first_holds t (via enc dec K) (lo_node s)" using assms(3) by (simp add: clean_def)
  have quiet: "step_clean enc dec l t second K s s' w"
    if "s' = s\<lparr>lo_node := n\<rparr>" "w = []" "first_holds t (via enc dec K) n"
      "\<And>c'. nd_client n = Some c' \<Longrightarrow> \<exists>c. nd_client (lo_node s) = Some c \<and> (c' = c \<or> (\<exists>u v. c' = InvalidateConfig c u v))" for n
    using event_clean [OF assms(3) that(3) order_refl that(4)] that(1,2) by (simp add: step_clean_def)
  show ?thesis
  proof (cases a)
    case (Start i u E)
    then show ?thesis using assms start_load_clean by simp
  next
    case (Call i u skip E)
    then show ?thesis using assms start_call_clean by simp
  next
    case (Answer i E)
    then show ?thesis using assms get_answer_clean by simp
  next
    case (Keep i E)
    then show ?thesis using assms keep_answer_clean by simp
  next
    case (Store i E)
    then show ?thesis using assms store_answer_clean by simp
  next
    case (Look u now)
    then show ?thesis using assms(1) look_keeps f by (intro quiet [of "snd (isOwnedLocally d now u (lo_node s))"]) auto
  next
    case (First u)
    then show ?thesis using assms(1) f
      by (intro quiet [of "drop_first u (lo_node s)"]) (auto simp: drop_first_def tc_Delete_def first_holds_def)
  next
    case (Second u)
    then show ?thesis using assms(1) f drop_second_client
      by (intro quiet [of "drop_second d u (lo_node s)"])
        (auto simp: drop_second_def effects_def InvalidateClientCache_def first_holds_def split: option.splits)
  next
    case (Renew u ttl now)
    then show ?thesis using assms(1) f
      by (intro quiet [of "(lo_node s)\<lparr>nd_cache := snd (tc_Touch (nd_cache (lo_node s)) u ttl now)\<rparr>"])
        (auto simp: tc_Touch_def first_holds_def split: option.splits)
  next
    case (Tell u config ttl now)
    then have s': "s' = s\<lparr>lo_node := (lo_node s)\<lparr>nd_cache := tc_Set (nd_cache (lo_node s)) u config ttl now\<rparr>\<rparr>" "w = [Told u config]"
      using assms(1) by auto
    have "first_holds t (via enc dec (K \<union> sources second t w)) ((lo_node s)\<lparr>nd_cache := tc_Set (nd_cache (lo_node s)) u config ttl now\<rparr>)"
      using f via_mono [of K "K \<union> sources second t w" enc dec] s'(2)
      by (auto simp: first_holds_def tc_Set_def sources_def via_def split: option.splits)
    from event_clean [OF assms(3) this] s' show ?thesis by (simp add: step_clean_def)
  qed
qed

lemma run_clean:
  assumes "run l d as s = Some (s', w)" and "list_all (same_codec enc dec) as" and "clean enc dec l t second K s"
  shows "step_clean enc dec l t second K s s' w"
  using assms
proof (induction as arbitrary: s w K)
  case Nil
  then show ?case by (simp add: step_clean_def)
next
  case (Cons a as)
  obtain s1 w1 w2 where s1: "perform l d a s = Some (s1, w1)" "run l d as s1 = Some (s', w2)" "w = w1 @ w2"
    using Cons.prems(1) by (auto split: option.splits prod.splits)
  have one: "step_clean enc dec l t second K s s1 w1" using perform_clean [OF s1(1)] Cons.prems(2,3) by simp
  then have "step_clean enc dec l t second (K \<union> sources second t w1) s1 s' w2"
    using Cons.IH [OF s1(2)] Cons.prems(2) by (simp add: step_clean_def)
  with one show ?case
    using via_mono [of "K \<union> sources second t w1" "K \<union> sources second t w" enc dec] s1(3)
    by (auto simp: step_clean_def Un_assoc)
qed

subsection \<open>Withdrawal\<close>

lemma carried_clean:
  "clean enc dec l t False (carried t s) (s\<lparr>lo_node := drop_first t (lo_node s)\<rparr>)"
proof -
  have "calls_hold t (carried t s) (via enc dec (carried t s)) (lo_calls s)"
    unfolding calls_hold_def by (auto simp: carried_def intro: viaI split: stage.split)
  then show ?thesis by (simp add: clean_def first_holds_def drop_first_def tc_Delete_def)
qed

lemma second_removal_clean:
  assumes "clean enc dec l t False K s" and "d_loader d = Some l" and "ld_service l = d_service d"
  shows "clean enc dec l t True K (s\<lparr>lo_node := drop_second d t (lo_node s)\<rparr>)"
proof -
  have "first_holds t (via enc dec K) (drop_second d t (lo_node s))"
    using assms(1) by (simp add: clean_def first_holds_def drop_second_def effects_def InvalidateClientCache_def split: option.splits)
  moreover have "second_holds dec (cache_key t (ld_service l)) (via enc dec K) (drop_second d t (lo_node s))"
    using assms(2,3) by (auto simp: second_holds_def client_holds_def drop_second_def effects_def InvalidateClientCache_def dest: invalidated)
  ultimately show ?thesis using assms(1) by (simp add: clean_def)
qed

lemma returned_after_removal:
  assumes "d_loader d = Some l" and "ld_service l = d_service d"
    and "list_all (same_codec enc dec) as" and "list_all (same_codec enc dec) as'"
    and "run l d (First t # as) s = Some (s1, w)" and "run l d (Second t # as') s1 = Some (s2, w')" and "Returned t config \<in> set w'"
  shows "config \<in> via enc dec (carried t s \<union> sources False t w \<union> sources True t w')"
proof -
  have r1: "run l d as (s\<lparr>lo_node := drop_first t (lo_node s)\<rparr>) = Some (s1, w)"
    and r2: "run l d as' (s1\<lparr>lo_node := drop_second d t (lo_node s1)\<rparr>) = Some (s2, w')"
    using assms(5,6) by (auto split: option.splits prod.splits)
  have "clean enc dec l t False (carried t s \<union> sources False t w) s1"
    using run_clean [OF r1 assms(3) carried_clean] by (simp add: step_clean_def)
  from run_clean [OF r2 assms(4) second_removal_clean [OF this assms(1,2)]] assms(7)
  show ?thesis by (simp add: step_clean_def)
qed

text \<open>
  C17. An event that suspends, deletes, disassociates or purges a tenant, handled by a node it is
  addressed to (one that owns the tenant, or whose service it names) and whose dispatcher has the loader
  of its service, makes the two removals, closes the connections of every registered manager and
  reports the removal; run alone it leaves nothing of the tenant in either cache, while other tenants keep
  theirs. And however loads, direct calls of the client for that service and other events interleave with the two
  removals and go on after them: once the second is made, a load or call returns a configuration of
  the tenant only if, since the first, the Tenant Manager answered a request with it or an event
  carried it, or a call in flight at the first held it already, or a lookup in the second cache
  between the two found it; or if it is one of these as read back from the second cache.
\<close>

theorem withdrawn_tenant_needs_fresh_answer:
  assumes "withdraws (ev_EventType evt)" and "addressed V d evt n"
    and "d_loader d = Some l" and "ld_service l = d_service d"
  defines "t \<equiv> ev_TenantID evt"
  shows "(\<exists>n'. HandleEvent V d evt n = (None, n') \<and>
      n' \<in> {drop_second d t (drop_first t n), drop_second d t (drop_first t (snd (isOwnedLocally d (v_now V) t n)))} \<and>
      cold l t n' \<and> nd_cache n' = (nd_cache n)(t := None) \<and> nd_effects n' = nd_effects n @ closings d t) \<and>
    (\<forall>enc dec as as' s s1 s2 w w' config.
      list_all (same_codec enc dec) as \<longrightarrow> list_all (same_codec enc dec) as' \<longrightarrow>
      run l d (First t # as) s = Some (s1, w) \<longrightarrow> run l d (Second t # as') s1 = Some (s2, w') \<longrightarrow> Returned t config \<in> set w' \<longrightarrow>
      config \<in> via enc dec (carried t s \<union> sources False t w \<union> sources True t w'))"
proof
  from assms(1,2) obtain m where m: "HandleEvent V d evt n = (None, removeTenant d (ev_TenantID evt) m)"
    "m = n \<or> m = snd (isOwnedLocally d (v_now V) (ev_TenantID evt) n)"
    "nd_effects m = nd_effects n" "(nd_cache m)(ev_TenantID evt := None) = (nd_cache n)(ev_TenantID evt := None)"
    by (rule withdrawal_removes)
  show "\<exists>n'. HandleEvent V d evt n = (None, n') \<and>
      n' \<in> {drop_second d t (drop_first t n), drop_second d t (drop_first t (snd (isOwnedLocally d (v_now V) t n)))} \<and>
      cold l t n' \<and> nd_cache n' = (nd_cache n)(t := None) \<and> nd_effects n' = nd_effects n @ closings d t"
  proof (intro exI [of _ "removeTenant d t m"] conjI)
    show "removeTenant d t m \<in> {drop_second d t (drop_first t n), drop_second d t (drop_first t (snd (isOwnedLocally d (v_now V) t n)))}"
      using m(2) unfolding removeTenant_halves t_def by blast
  qed (use m removeTenant_cold [OF assms(3,4)] in \<open>simp_all add: t_def removeTenant_parts\<close>)
next
  show "\<forall>enc dec as as' s s1 s2 w w' config.
      list_all (same_codec enc dec) as \<longrightarrow> list_all (same_codec enc dec) as' \<longrightarrow>
      run l d (First t # as) s = Some (s1, w) \<longrightarrow> run l d (Second t # as') s1 = Some (s2, w') \<longrightarrow> Returned t config \<in> set w' \<longrightarrow>
      config \<in> via enc dec (carried t s \<union> sources False t w \<union> sources True t w')"
    using returned_after_removal [OF assms(3,4)] by blast
qed

text \<open>
  The suspended tenant of the example, while a direct call of the client waits for its answer: the load after
  the removals returns what the Tenant Manager answered it.
\<close>

definition example_loads :: loads where
  "example_loads =
     \<lparr>lo_node = example_node, lo_calls = [3 \<mapsto> \<lparr>call_tenant = ''acme'', call_load = False, call_stage = Waiting\<rparr>], lo_locked = (\<lambda>_. False)\<rparr>"

lemma example_run:
  "run example_loader example_dispatcher [First ''acme''] example_loads =
     Some (example_loads\<lparr>lo_node := drop_first ''acme'' example_node\<rparr>, [])"
  "\<exists>s. run example_loader example_dispatcher
       [Second ''acme'', Start 4 ''acme'' (example_env 6), Answer 4 (example_env 7), Keep 4 (example_env 8), Store 4 (example_env 9)]
       (example_loads\<lparr>lo_node := drop_first ''acme'' example_node\<rparr>) =
     Some (s, [Answered ''acme'' zero_Tenant, Returned ''acme'' zero_Tenant])"
proof -
  show "run example_loader example_dispatcher [First ''acme''] example_loads =
      Some (example_loads\<lparr>lo_node := drop_first ''acme'' example_node\<rparr>, [])"
    by (simp add: example_loads_def)
  show "\<exists>s. run example_loader example_dispatcher
       [Second ''acme'', Start 4 ''acme'' (example_env 6), Answer 4 (example_env 7), Keep 4 (example_env 8), Store 4 (example_env 9)]
       (example_loads\<lparr>lo_node := drop_first ''acme'' example_node\<rparr>) =
     Some (s, [Answered ''acme'' zero_Tenant, Returned ''acme'' zero_Tenant])"
    by (simp add: example_loads_def drop_first_def drop_second_def example_node_def example_dispatcher_def NewEventDispatcher_def
        WithPostgres_def WithOnTenantRemoved_def example_loader_def NewTenantLoader_def InvalidateClientCache_def effects_def
        InvalidateConfig_def example_client_def mem_Del_def mem_Set_def tc_Delete_def start_load_def tc_Get_def enter_def
        getCachedTenantConfig_def mem_Get_def checkCircuitBreaker_def get_answer_def receive_def exchange_def example_env_def
        handleGetTenantConfigStatus_def keep_answer_def store_answer_def)
qed

theorem withdrawn_tenant_needs_fresh_answer_witness:
  "tc_held (nd_cache example_node) ''acme'' 5 = Some zero_Tenant \<and>
   cold example_loader ''acme'' (snd (HandleEvent example_event_env example_dispatcher example_event example_node)) \<and>
   nd_effects (snd (HandleEvent example_event_env example_dispatcher example_event example_node)) = [Close_postgres 7 ''acme'', Tenant_removed ''acme''] \<and>
   (\<exists>s1 s2 w w'. run example_loader example_dispatcher [First ''acme''] example_loads = Some (s1, w) \<and>
      run example_loader example_dispatcher
        [Second ''acme'', Start 4 ''acme'' (example_env 6), Answer 4 (example_env 7), Keep 4 (example_env 8), Store 4 (example_env 9)] s1 = Some (s2, w') \<and>
      Returned ''acme'' zero_Tenant \<in> set w' \<and>
      zero_Tenant \<in> via (\<lambda>_. Some ''{}'') (\<lambda>_. Some zero_Tenant)
        (carried ''acme'' example_loads \<union> sources False ''acme'' w \<union> sources True ''acme'' w'))"
proof -
  have a: "withdraws (ev_EventType example_event)"
    by (simp add: withdraws_def example_event_def event_names)
  have b: "addressed example_event_env example_dispatcher example_event example_node"
    by (simp add: addressed_def isServiceScopedEvent_def event_names example_event_def example_event_env_def example_node_def
        example_dispatcher_def NewEventDispatcher_def WithPostgres_def WithOnTenantRemoved_def isOwnedLocally_def tc_Get_def tc_Set_def IsExpired_def)
  have c: "d_loader example_dispatcher = Some example_loader" "ld_service example_loader = d_service example_dispatcher"
    "closings example_dispatcher ''acme'' = [Close_postgres 7 ''acme'', Tenant_removed ''acme'']"
    by (simp_all add: example_dispatcher_def NewEventDispatcher_def WithPostgres_def WithOnTenantRemoved_def example_loader_def
        NewTenantLoader_def closings_def)
  have "tc_held (nd_cache example_node) ''acme'' 5 = Some zero_Tenant"
    by (simp add: example_node_def tc_held_def tc_Set_def IsExpired_def)
  moreover have "ev_TenantID example_event = ''acme''" "nd_effects example_node = []"
    by (simp_all add: example_event_def example_node_def)
  moreover note law = withdrawn_tenant_needs_fresh_answer [OF a b c(1,2)]
  have "cold example_loader ''acme'' (snd (HandleEvent example_event_env example_dispatcher example_event example_node)) \<and>
      nd_effects (snd (HandleEvent example_event_env example_dispatcher example_event example_node)) = [Close_postgres 7 ''acme'', Tenant_removed ''acme'']"
    using conjunct1 [OF law] c(3) calculation by auto
  moreover obtain s2 where s2: "run example_loader example_dispatcher
      [Second ''acme'', Start 4 ''acme'' (example_env 6), Answer 4 (example_env 7), Keep 4 (example_env 8), Store 4 (example_env 9)]
      (example_loads\<lparr>lo_node := drop_first ''acme'' example_node\<rparr>) = Some (s2, [Answered ''acme'' zero_Tenant, Returned ''acme'' zero_Tenant])"
    using example_run(2) by blast
  have "same_codec (\<lambda>_. Some ''{}'') (\<lambda>_. Some zero_Tenant) (Start 4 ''acme'' (example_env 6))"
    "list_all (same_codec (\<lambda>_. Some ''{}'') (\<lambda>_. Some zero_Tenant)) []"
    "list_all (same_codec (\<lambda>_. Some ''{}'') (\<lambda>_. Some zero_Tenant))
      [Start 4 ''acme'' (example_env 6), Answer 4 (example_env 7), Keep 4 (example_env 8), Store 4 (example_env 9)]"
    by (simp_all add: example_env_def)
  then have "zero_Tenant \<in> via (\<lambda>_. Some ''{}'') (\<lambda>_. Some zero_Tenant)
      (carried ''acme'' example_loads \<union> sources False ''acme'' [] \<union> sources True ''acme'' [Answered ''acme'' zero_Tenant, Returned ''acme'' zero_Tenant])"
    using conjunct2 [OF law] example_run(1) s2 calculation(2) by (metis list.set_intros)
  ultimately show ?thesis using example_run(1) s2 by (metis list.set_intros)
qed


text \<open>
  The first cache is emptied before the second: a load between the two removals finds the old
  configuration in the second cache and puts it back into the first, which nothing empties again.
\<close>

lemma removal_window_refills:
  "\<exists>s. run example_loader example_dispatcher
       [First ''acme'', Start 4 ''acme'' (example_env 6), Second ''acme'', Store 4 (example_env 9)] example_loads =
       Some (s, [Hit ''acme'' zero_Tenant, Returned ''acme'' zero_Tenant]) \<and>
     tc_held (nd_cache (lo_node s)) ''acme'' 60 = Some zero_Tenant"
  by (simp add: example_loads_def drop_first_def drop_second_def example_node_def example_dispatcher_def NewEventDispatcher_def
      WithPostgres_def WithOnTenantRemoved_def example_loader_def NewTenantLoader_def InvalidateClientCache_def effects_def
      InvalidateConfig_def example_client_def mem_Del_def mem_Set_def tc_Delete_def start_load_def tc_Get_def enter_def
      getCachedTenantConfig_def mem_Get_def isExpired_def example_env_def store_answer_def store_loaded_def tc_Set_def
      tc_held_def IsExpired_def over_def)

end
