(* ===== verification/Jwt.thy ===== *)
theory Jwt
  imports Base64 Go_Text
begin

text \<open>
  \<open>commons/jwt/jwt.go\<close>: HMAC-signed tokens. HMAC, the JSON codecs and the conversion of a JSON number to
  a time are the surroundings \<open>jwt_env\<close>; the header, which the code encodes itself, the base64 layers, the
  compact form and the comparison of times, with the wrap-around of \<open>time.Unix\<close>, are written out. A secret
  is never nil here: an empty one is refused like a nil one.
\<close>

subsection \<open>Tokens\<close>

definition AlgHS256 :: string where "AlgHS256 = ''HS256''"
definition AlgHS384 :: string where "AlgHS384 = ''HS384''"
definition AlgHS512 :: string where "AlgHS512 = ''HS512''"
definition jwtPartCount :: nat where "jwtPartCount = 3"
definition maxTokenLength :: nat where "maxTokenLength = 8192"

datatype hash = SHA256 | SHA384 | SHA512

text \<open>
  The values of a claim that are told apart: a floating-point number as the integer \<open>int64\<close> makes of it,
  a number kept as text, the integer types of Go, text, and all others.
\<close>

datatype claim = Float64 int | Json_Number string | Go_int int | Int32 int | Int64 int | Text string | Other_value

type_synonym MapClaims = "string \<rightharpoonup> claim"

record Token =
  Claims :: MapClaims
  SignatureValid :: bool
  Header :: MapClaims

datatype jwt_error =
    ErrInvalidToken | ErrUnsupportedAlgorithm | ErrSignatureInvalid | ErrTokenExpired | ErrTokenNotYetValid
  | ErrTokenIssuedInFuture | ErrEmptySecret | ErrNilToken | ErrInvalidTimeClaim | Marshal_claims

text \<open>
  \<open>json.Unmarshal\<close> of a header, the decoder of claims, which keeps numbers as text and reads the first value
  of its input, \<open>json.Marshal\<close> of claims, and \<open>Float64\<close> of a number followed by \<open>int64\<close>.
\<close>

record jwt_env =
  j_hmac :: "hash \<Rightarrow> string \<Rightarrow> string \<Rightarrow> string"
  j_header :: "string \<Rightarrow> MapClaims option"
  j_claims :: "string \<Rightarrow> MapClaims option"
  j_marshal :: "MapClaims \<Rightarrow> string option"
  j_number :: "string \<Rightarrow> int option"

definition isAllowed :: "string \<Rightarrow> string list \<Rightarrow> bool" where
  "isAllowed alg allowed \<longleftrightarrow> alg \<in> set allowed"

definition hashForAlgorithm :: "string \<Rightarrow> jwt_error + hash" where
  "hashForAlgorithm alg =
     (if alg = AlgHS256 then Inr SHA256 else if alg = AlgHS384 then Inr SHA384 else if alg = AlgHS512 then Inr SHA512
      else Inl ErrUnsupportedAlgorithm)"

definition computeHMAC :: "jwt_env \<Rightarrow> string \<Rightarrow> string \<Rightarrow> hash \<Rightarrow> string" where
  "computeHMAC E data secret h = j_hmac E h secret data"

subsection \<open>Signing\<close>

text \<open>\<open>json.Marshal\<close> of the header writes the keys in order; the algorithms need no escaping.\<close>

definition header_json :: "string \<Rightarrow> string" where
  "header_json algorithm =
     [CHR 0x7B, CHR 0x22] @ ''alg'' @ [CHR 0x22, CHR '':'', CHR 0x22] @ algorithm @ [CHR 0x22, CHR '','', CHR 0x22] @ ''typ'' @
     [CHR 0x22, CHR '':'', CHR 0x22] @ ''JWT'' @ [CHR 0x22, CHR 0x7D]"

definition signing_input :: "string \<Rightarrow> string \<Rightarrow> string" where
  "signing_input algorithm claimsJSON =
     EncodeToString RawURLEncoding (header_json algorithm) @ ''.'' @ EncodeToString RawURLEncoding claimsJSON"

definition Sign :: "jwt_env \<Rightarrow> MapClaims \<Rightarrow> string \<Rightarrow> string \<Rightarrow> jwt_error + string" where
  "Sign E claims algorithm secret =
     (if secret = [] then Inl ErrEmptySecret
      else bind_res (hashForAlgorithm algorithm) (\<lambda>h.
        case j_marshal E claims of
          None \<Rightarrow> Inl Marshal_claims
        | Some claimsJSON \<Rightarrow>
            (let signingInput = signing_input algorithm claimsJSON;
                 sig = computeHMAC E signingInput secret h
             in Inr (signingInput @ ''.'' @ EncodeToString RawURLEncoding sig))))"

subsection \<open>Parsing\<close>

definition parseHeader :: "jwt_env \<Rightarrow> string \<Rightarrow> string list \<Rightarrow> jwt_error + MapClaims \<times> string" where
  "parseHeader E headerPart allowedAlgorithms =
     (case DecodeString RawURLEncoding headerPart of
        None \<Rightarrow> Inl ErrInvalidToken
      | Some headerBytes \<Rightarrow>
          (case j_header E headerBytes of
             None \<Rightarrow> Inl ErrInvalidToken
           | Some header \<Rightarrow>
               (case header ''alg'' of
                  Some (Text alg) \<Rightarrow>
                    if alg = [] then Inl ErrInvalidToken
                    else if \<not> isAllowed alg allowedAlgorithms then Inl ErrUnsupportedAlgorithm
                    else Inr (header, alg)
                | _ \<Rightarrow> Inl ErrInvalidToken)))"

definition verifySignature :: "jwt_env \<Rightarrow> string list \<Rightarrow> string \<Rightarrow> string \<Rightarrow> jwt_error + unit" where
  "verifySignature E parts alg secret =
     bind_res (hashForAlgorithm alg) (\<lambda>h.
       let expectedSig = computeHMAC E (parts ! 0 @ ''.'' @ parts ! 1) secret h in
       case DecodeString RawURLEncoding (parts ! 2) of
         None \<Rightarrow> Inl ErrInvalidToken
       | Some actualSig \<Rightarrow> refuse (expectedSig \<noteq> actualSig) ErrSignatureInvalid)"

definition parseClaims :: "jwt_env \<Rightarrow> string \<Rightarrow> jwt_error + MapClaims" where
  "parseClaims E payloadPart =
     (case DecodeString RawURLEncoding payloadPart of
        None \<Rightarrow> Inl ErrInvalidToken
      | Some payloadBytes \<Rightarrow> (case j_claims E payloadBytes of None \<Rightarrow> Inl ErrInvalidToken | Some claims \<Rightarrow> Inr claims))"

definition Parse :: "jwt_env \<Rightarrow> string \<Rightarrow> string \<Rightarrow> string list \<Rightarrow> jwt_error + Token" where
  "Parse E tokenString secret allowedAlgorithms =
     (if secret = [] then Inl ErrEmptySecret
      else if maxTokenLength < length tokenString then Inl ErrInvalidToken
      else if tokenString = [] then Inl ErrInvalidToken
      else
        (let parts = split_all (CHR ''.'') tokenString in
         if length parts \<noteq> jwtPartCount then Inl ErrInvalidToken
         else bind_res (parseHeader E (parts ! 0) allowedAlgorithms) (\<lambda>(header, alg).
           bind_res (verifySignature E parts alg secret) (\<lambda>_.
             bind_res (parseClaims E (parts ! 1)) (\<lambda>claims.
               Inr \<lparr>Claims = claims, SignatureValid = True, Header = header\<rparr>)))))"

subsection \<open>Times\<close>

text \<open>
  A \<open>time.Time\<close> is a count of seconds since the year one and of nanoseconds. \<open>time.Unix\<close> adds the seconds
  between that and 1970 in 64 bits.
\<close>

definition unixToInternal :: int where "unixToInternal = 62135596800"

type_synonym go_time = "int \<times> int"

definition time_Unix :: "int \<Rightarrow> go_time" where
  "time_Unix sec = (wrap64 (sec + unixToInternal), 0)"

definition Before :: "go_time \<Rightarrow> go_time \<Rightarrow> bool" where
  "Before t u \<longleftrightarrow> fst t < fst u \<or> fst t = fst u \<and> snd t < snd u"

definition extractTime :: "jwt_env \<Rightarrow> MapClaims \<Rightarrow> string \<Rightarrow> jwt_error + go_time option" where
  "extractTime E claims k =
     (case claims k of
        None \<Rightarrow> Inr None
      | Some (Float64 v) \<Rightarrow> Inr (Some (time_Unix v))
      | Some (Json_Number s) \<Rightarrow> (case j_number E s of None \<Rightarrow> Inl ErrInvalidTimeClaim | Some f \<Rightarrow> Inr (Some (time_Unix f)))
      | Some (Go_int v) \<Rightarrow> Inr (Some (time_Unix v))
      | Some (Int32 v) \<Rightarrow> Inr (Some (time_Unix v))
      | Some (Int64 v) \<Rightarrow> Inr (Some (time_Unix v))
      | Some _ \<Rightarrow> Inl ErrInvalidTimeClaim)"

definition ValidateTimeClaimsAt :: "jwt_env \<Rightarrow> MapClaims \<Rightarrow> go_time \<Rightarrow> jwt_error + unit" where
  "ValidateTimeClaimsAt E claims now =
     bind_res (extractTime E claims ''exp'') (\<lambda>exp.
       bind_res (refuse (case exp of Some t \<Rightarrow> \<not> Before now t | None \<Rightarrow> False) ErrTokenExpired) (\<lambda>_.
         bind_res (extractTime E claims ''nbf'') (\<lambda>nbf.
           bind_res (refuse (case nbf of Some t \<Rightarrow> Before now t | None \<Rightarrow> False) ErrTokenNotYetValid) (\<lambda>_.
             bind_res (extractTime E claims ''iat'') (\<lambda>iat.
               refuse (case iat of Some t \<Rightarrow> Before now t | None \<Rightarrow> False) ErrTokenIssuedInFuture)))))"

definition Token_ValidateTimeClaimsAt :: "jwt_env \<Rightarrow> Token option \<Rightarrow> go_time \<Rightarrow> jwt_error + unit" where
  "Token_ValidateTimeClaimsAt E t now = (case t of None \<Rightarrow> Inl ErrNilToken | Some t \<Rightarrow> ValidateTimeClaimsAt E (Claims t) now)"

definition ParseAndValidate :: "jwt_env \<Rightarrow> string \<Rightarrow> string \<Rightarrow> string list \<Rightarrow> go_time \<Rightarrow> jwt_error + Token" where
  "ParseAndValidate E tokenString secret allowedAlgorithms now =
     bind_res (Parse E tokenString secret allowedAlgorithms) (\<lambda>token.
       bind_res (Token_ValidateTimeClaimsAt E (Some token) now) (\<lambda>_. Inr token))"

subsection \<open>What is accepted\<close>

text \<open>The parts of a token: three texts without dots, joined by dots.\<close>

lemma split_three:
  "split_all (CHR ''.'') s = [h, p, g] \<longleftrightarrow>
     s = h @ ''.'' @ p @ ''.'' @ g \<and> CHR ''.'' \<notin> set h \<and> CHR ''.'' \<notin> set p \<and> CHR ''.'' \<notin> set g"
proof
  assume a: "split_all (CHR ''.'') s = [h, p, g]"
  then have "s = h @ ''.'' @ p @ ''.'' @ g" using join_split_all [of "CHR ''.''" s] by simp
  moreover have "\<forall>q \<in> set (split_all c t). c \<notin> set q" for c t
    by (induction t) (auto split: list.splits)
  ultimately show "s = h @ ''.'' @ p @ ''.'' @ g \<and> CHR ''.'' \<notin> set h \<and> CHR ''.'' \<notin> set p \<and> CHR ''.'' \<notin> set g"
    using a by (metis list.set_intros)
next
  assume "s = h @ ''.'' @ p @ ''.'' @ g \<and> CHR ''.'' \<notin> set h \<and> CHR ''.'' \<notin> set p \<and> CHR ''.'' \<notin> set g"
  then show "split_all (CHR ''.'') s = [h, p, g]" by (simp add: split_all_append split_all_no_separator)
qed

lemma length_three: "length xs = 3 \<longleftrightarrow> (\<exists>a b c. xs = [a, b, c])"
  by (auto simp: numeral_3_eq_3 length_Suc_conv)

lemma Parse_signedI:
  assumes "secret \<noteq> []" "length tok \<le> maxTokenLength"
    and "tok = h @ ''.'' @ p @ ''.'' @ g" "CHR ''.'' \<notin> set h" "CHR ''.'' \<notin> set p" "CHR ''.'' \<notin> set g"
    and "DecodeString RawURLEncoding h = Some hs" "j_header E hs = Some header" "header ''alg'' = Some (Text alg)"
    and "alg \<in> set allowed" "hashForAlgorithm alg = Inr hash"
    and "DecodeString RawURLEncoding g = Some (j_hmac E hash secret (h @ ''.'' @ p))"
    and "DecodeString RawURLEncoding p = Some ps" "j_claims E ps = Some claims"
  shows "Parse E tok secret allowed = Inr \<lparr>Claims = claims, SignatureValid = True, Header = header\<rparr>"
proof -
  have parts: "split_all (CHR ''.'') tok = [h, p, g]" using assms(3-6) split_three by blast
  have "alg \<noteq> []" using assms(11) by (auto simp: hashForAlgorithm_def AlgHS256_def AlgHS384_def AlgHS512_def)
  moreover have "tok \<noteq> []" using assms(3) by simp
  ultimately show ?thesis using assms parts
    by (simp add: Parse_def jwtPartCount_def parseHeader_def verifySignature_def parseClaims_def isAllowed_def computeHMAC_def refuse_def)
qed

text \<open>
  A token is accepted exactly when its header names an allowed algorithm that the package implements and
  its third part decodes to the HMAC of the first two under the secret.
\<close>

theorem Parse_accepts_signed:
  "Parse E tok secret allowed = Inr T \<longleftrightarrow>
     secret \<noteq> [] \<and> length tok \<le> maxTokenLength \<and>
     (\<exists>h p g hs alg hash ps.
        tok = h @ ''.'' @ p @ ''.'' @ g \<and> CHR ''.'' \<notin> set h \<and> CHR ''.'' \<notin> set p \<and> CHR ''.'' \<notin> set g \<and>
        DecodeString RawURLEncoding h = Some hs \<and> j_header E hs = Some (Header T) \<and> Header T ''alg'' = Some (Text alg) \<and>
        alg \<in> set allowed \<and> hashForAlgorithm alg = Inr hash \<and>
        DecodeString RawURLEncoding g = Some (j_hmac E hash secret (h @ ''.'' @ p)) \<and>
        DecodeString RawURLEncoding p = Some ps \<and> j_claims E ps = Some (Claims T) \<and> SignatureValid T)"
  (is "?l \<longleftrightarrow> ?r")
proof
  assume l: ?l
  then have g: "secret \<noteq> []" "length tok \<le> maxTokenLength" "length (split_all (CHR ''.'') tok) = 3"
    by (auto simp: Parse_def jwtPartCount_def Let_def split: if_splits)
  then obtain h p g where parts: "split_all (CHR ''.'') tok = [h, p, g]" by (auto simp: length_three)
  show ?r
    using l g parts split_three [of tok h p g]
    by (fastforce simp: Parse_def jwtPartCount_def Let_def parseHeader_def verifySignature_def parseClaims_def isAllowed_def
        computeHMAC_def bind_res_eq_Inr split: if_splits option.splits claim.splits)
next
  assume ?r
  then obtain h p g hs alg hash ps where r: "secret \<noteq> []" "length tok \<le> maxTokenLength"
    "tok = h @ ''.'' @ p @ ''.'' @ g" "CHR ''.'' \<notin> set h" "CHR ''.'' \<notin> set p" "CHR ''.'' \<notin> set g"
    "DecodeString RawURLEncoding h = Some hs" "j_header E hs = Some (Header T)" "Header T ''alg'' = Some (Text alg)"
    "alg \<in> set allowed" "hashForAlgorithm alg = Inr hash"
    "DecodeString RawURLEncoding g = Some (j_hmac E hash secret (h @ ''.'' @ p))"
    "DecodeString RawURLEncoding p = Some ps" "j_claims E ps = Some (Claims T)" "SignatureValid T" by blast
  from Parse_signedI [OF r(1-14)] show ?l using r(15) by (cases T) simp
qed

subsection \<open>Round trip\<close>

text \<open>What \<open>json.Unmarshal\<close> documents of what \<open>json.Marshal\<close> writes: the header reads back, and claims as \<open>f\<close> says.\<close>

definition header_of :: "string \<Rightarrow> MapClaims" where
  "header_of alg = [''alg'' \<mapsto> Text alg, ''typ'' \<mapsto> Text ''JWT'']"

definition json_reads_back :: "jwt_env \<Rightarrow> (MapClaims \<Rightarrow> MapClaims) \<Rightarrow> bool" where
  "json_reads_back E f \<longleftrightarrow>
     (\<forall>alg hash. hashForAlgorithm alg = Inr hash \<longrightarrow> j_header E (header_json alg) = Some (header_of alg)) \<and>
     (\<forall>claims js. j_marshal E claims = Some js \<longrightarrow> j_claims E js = Some (f claims))"

lemma no_dot: "CHR ''.'' \<notin> set (EncodeToString RawURLEncoding s)"
proof
  assume "CHR ''.'' \<in> set (EncodeToString RawURLEncoding s)"
  with proper_encodings(2) have "CHR ''.'' \<in> set (alphabet RawURLEncoding) \<or> CHR ''.'' = CHR ''=''" by (rule EncodeToString_alphabet)
  then show False by (simp add: RawURLEncoding_def)
qed

lemma Sign_shape:
  assumes "Sign E claims alg secret = Inr tok"
  obtains js hash where "secret \<noteq> []" "hashForAlgorithm alg = Inr hash" "j_marshal E claims = Some js"
    "tok = EncodeToString RawURLEncoding (header_json alg) @ ''.'' @ EncodeToString RawURLEncoding js @ ''.'' @
       EncodeToString RawURLEncoding (j_hmac E hash secret (signing_input alg js))"
  using assms by (auto simp: Sign_def bind_res_eq_Inr computeHMAC_def Let_def signing_input_def split: if_splits option.splits)

text \<open>
  C31. A token that \<open>Sign\<close> returned, when it is no longer than the parser admits and its algorithm is allowed,
  is parsed under the same secret into its header and the claims its payload decodes to, marked as
  verified; and under whatever secret and algorithms a token with its payload is accepted, the third part
  is the HMAC under that secret by one of the three algorithms.
\<close>

theorem jwt_round_trip:
  assumes "json_reads_back E f" and "Sign E claims alg secret = Inr tok"
    and "length tok \<le> maxTokenLength" and "alg \<in> set allowed"
  shows "Parse E tok secret allowed = Inr \<lparr>Claims = f claims, SignatureValid = True, Header = header_of alg\<rparr> \<and>
    (\<forall>secret' allowed' T. Parse E tok secret' allowed' = Inr T \<longrightarrow>
       (\<exists>hash js. hashForAlgorithm alg = Inr hash \<and> j_marshal E claims = Some js \<and> alg \<in> set allowed' \<and>
          j_hmac E hash secret' (signing_input alg js) = j_hmac E hash secret (signing_input alg js)))"
proof -
  from assms(2) obtain js hash where s: "secret \<noteq> []" "hashForAlgorithm alg = Inr hash" "j_marshal E claims = Some js"
    "tok = EncodeToString RawURLEncoding (header_json alg) @ ''.'' @ EncodeToString RawURLEncoding js @ ''.'' @
       EncodeToString RawURLEncoding (j_hmac E hash secret (signing_input alg js))" by (rule Sign_shape)
  let ?h = "EncodeToString RawURLEncoding (header_json alg)" and ?p = "EncodeToString RawURLEncoding js"
    and ?g = "EncodeToString RawURLEncoding (j_hmac E hash secret (signing_input alg js))"
  have input: "?h @ ''.'' @ ?p = signing_input alg js" by (simp add: signing_input_def)
  have hdr: "j_header E (header_json alg) = Some (header_of alg)" and cl: "j_claims E js = Some (f claims)"
    using assms(1) s(2,3) unfolding json_reads_back_def by blast+
  have dec: "DecodeString RawURLEncoding (EncodeToString RawURLEncoding x) = Some x" for x
    by (simp add: DecodeString_EncodeToString)
  have "Parse E tok secret allowed = Inr \<lparr>Claims = f claims, SignatureValid = True, Header = header_of alg\<rparr>"
    by (rule Parse_signedI [OF s(1) assms(3) s(4) no_dot no_dot no_dot dec hdr _ assms(4) s(2) _ dec cl])
      (simp_all only: input dec, simp add: header_of_def)
  moreover have "\<exists>hash js. hashForAlgorithm alg = Inr hash \<and> j_marshal E claims = Some js \<and> alg \<in> set allowed' \<and>
      j_hmac E hash secret' (signing_input alg js) = j_hmac E hash secret (signing_input alg js)"
    if acc: "Parse E tok secret' allowed' = Inr T" for secret' allowed' T
  proof -
    from acc obtain h p g hs alg' hash' where r: "tok = h @ ''.'' @ p @ ''.'' @ g" "CHR ''.'' \<notin> set h" "CHR ''.'' \<notin> set p" "CHR ''.'' \<notin> set g"
      "DecodeString RawURLEncoding h = Some hs" "j_header E hs = Some (Header T)" "Header T ''alg'' = Some (Text alg')"
      "alg' \<in> set allowed'" "hashForAlgorithm alg' = Inr hash'"
      "DecodeString RawURLEncoding g = Some (j_hmac E hash' secret' (h @ ''.'' @ p))"
      unfolding Parse_accepts_signed by blast
    have "split_all (CHR ''.'') tok = [h, p, g]" "split_all (CHR ''.'') tok = [?h, ?p, ?g]"
      using r(1-4) s(4) no_dot split_three by blast+
    then have parts: "h = ?h" "p = ?p" "g = ?g" by simp_all
    have "hs = header_json alg" using r(5) parts(1) dec by simp
    then have "Header T = header_of alg" using r(6) hdr by simp
    then have "alg' = alg" using r(7) by (simp add: header_of_def)
    then have "hash' = hash" "alg \<in> set allowed'" using r(8,9) s(2) by simp_all
    then show ?thesis using r(10) parts input dec s(2,3) by auto
  qed
  ultimately show ?thesis by blast
qed

text \<open>A toy MAC and codecs that know one set of claims.\<close>

definition example_jwt :: jwt_env where
  "example_jwt =
     \<lparr>j_hmac = (\<lambda>h k m. k @ take 4 m),
      j_header = (\<lambda>s. if s = header_json AlgHS256 then Some (header_of AlgHS256)
                       else if s = header_json AlgHS384 then Some (header_of AlgHS384)
                       else if s = header_json AlgHS512 then Some (header_of AlgHS512) else None),
      j_claims = (\<lambda>s. if s = ''{}'' then Some Map.empty else None),
      j_marshal = (\<lambda>c. if c = Map.empty then Some ''{}'' else None), j_number = (\<lambda>_. None)\<rparr>"

lemma example_jwt_reads_back: "json_reads_back example_jwt (\<lambda>c. c)"
  by (auto simp: json_reads_back_def example_jwt_def hashForAlgorithm_def header_json_def AlgHS256_def AlgHS384_def AlgHS512_def split: if_splits)

theorem jwt_round_trip_witness:
  "Parse example_jwt
     (EncodeToString RawURLEncoding (header_json AlgHS256) @ ''.'' @ EncodeToString RawURLEncoding ''{}'' @ ''.'' @
      EncodeToString RawURLEncoding (''key'' @ take 4 (signing_input AlgHS256 ''{}''))) ''key'' [AlgHS256] =
   Inr \<lparr>Claims = Map.empty, SignatureValid = True, Header = header_of AlgHS256\<rparr>"
proof -
  let ?tok = "EncodeToString RawURLEncoding (header_json AlgHS256) @ ''.'' @ EncodeToString RawURLEncoding ''{}'' @ ''.'' @
      EncodeToString RawURLEncoding (''key'' @ take 4 (signing_input AlgHS256 ''{}''))"
  have "Sign example_jwt Map.empty AlgHS256 ''key'' = Inr ?tok"
    by (simp add: Sign_def hashForAlgorithm_def example_jwt_def computeHMAC_def signing_input_def Let_def)
  moreover have "length ?tok \<le> maxTokenLength"
    by (simp add: length_EncodeToString RawURLEncoding_def header_json_def AlgHS256_def signing_input_def maxTokenLength_def)
  ultimately show ?thesis using jwt_round_trip [OF example_jwt_reads_back] by simp
qed

subsection \<open>Time claims\<close>

text \<open>Seconds of a claim that \<open>time.Unix\<close> represents.\<close>

definition plain :: "int \<Rightarrow> bool" where
  "plain sec \<longleftrightarrow> in_int64 sec \<and> in_int64 (sec + unixToInternal)"

text \<open>The seconds of a time claim, if it is there.\<close>

definition claim_seconds :: "jwt_env \<Rightarrow> MapClaims \<Rightarrow> string \<Rightarrow> (jwt_error + int option)" where
  "claim_seconds E claims k =
     (case claims k of
        None \<Rightarrow> Inr None
      | Some (Json_Number s) \<Rightarrow> (case j_number E s of None \<Rightarrow> Inl ErrInvalidTimeClaim | Some f \<Rightarrow> Inr (Some f))
      | Some (Float64 v) \<Rightarrow> Inr (Some v) | Some (Go_int v) \<Rightarrow> Inr (Some v) | Some (Int32 v) \<Rightarrow> Inr (Some v) | Some (Int64 v) \<Rightarrow> Inr (Some v)
      | Some _ \<Rightarrow> Inl ErrInvalidTimeClaim)"

lemma extractTime_seconds:
  "extractTime E claims k = (case claim_seconds E claims k of Inl e \<Rightarrow> Inl e | Inr s \<Rightarrow> Inr (map_option time_Unix s))"
  by (simp add: extractTime_def claim_seconds_def split: option.splits claim.splits)

lemma Before_Unix:
  assumes "plain sec" and "0 \<le> ns" and "ns < 1000000000"
  shows "Before (unixToInternal + now, ns) (time_Unix sec) \<longleftrightarrow> now * 1000000000 + ns < sec * 1000000000"
  using assms by (auto simp: Before_def time_Unix_def plain_def wrap64_id)

text \<open>
  With times that 64 bits hold, a token is accepted exactly before it expires, from its not-before time
  on, and not before it was issued; a claim of another type is an error.
\<close>

theorem time_claims_window:
  assumes "0 \<le> ns" and "ns < 1000000000"
    and "\<And>k s. k \<in> {''exp'', ''nbf'', ''iat''} \<Longrightarrow> claim_seconds E claims k = Inr (Some s) \<Longrightarrow> plain s"
  shows "ValidateTimeClaimsAt E claims (unixToInternal + now, ns) = Inr () \<longleftrightarrow>
    (\<exists>x b i. claim_seconds E claims ''exp'' = Inr x \<and> claim_seconds E claims ''nbf'' = Inr b \<and> claim_seconds E claims ''iat'' = Inr i \<and>
       (case x of Some s \<Rightarrow> now * 1000000000 + ns < s * 1000000000 | None \<Rightarrow> True) \<and>
       (case b of Some s \<Rightarrow> s * 1000000000 \<le> now * 1000000000 + ns | None \<Rightarrow> True) \<and>
       (case i of Some s \<Rightarrow> s * 1000000000 \<le> now * 1000000000 + ns | None \<Rightarrow> True))"
proof -
  have b: "Before (unixToInternal + now, ns) (time_Unix s) \<longleftrightarrow> now * 1000000000 + ns < s * 1000000000"
    if "k \<in> {''exp'', ''nbf'', ''iat''}" "claim_seconds E claims k = Inr (Some s)" for k s
    using assms(1,2) assms(3) [OF that] by (rule Before_Unix [rotated 1])
  show ?thesis
    using b [of "''exp''"] b [of "''nbf''"] b [of "''iat''"]
    by (auto simp: ValidateTimeClaimsAt_def extractTime_seconds bind_res_eq_Inr not_less split: sum.splits option.splits)
qed

text \<open>The seconds wrap around: a not-before time at the end of 64 bits lies in the past.\<close>

lemma latest_nbf_accepted:
  "0 \<le> sec \<Longrightarrow> ValidateTimeClaimsAt E [''nbf'' \<mapsto> Int64 max_int64] (sec, ns) = Inr ()"
  by (simp add: ValidateTimeClaimsAt_def extractTime_def time_Unix_def Before_def wrap64_def max_int64_def unixToInternal_def)

end
