(* ===== verification/Go_Float.thy ===== *)
theory Go_Float
  imports Complex_Main
begin

text \<open>
  What the code uses of Go's \<open>float64\<close>: comparisons of a value with a constant, and the quotient of two
  counts.
\<close>

text \<open>A \<open>float64\<close> that is a number has its exact value.\<close>

datatype ratio = Not_a_number | Minus_infinity | Plus_infinity | Ratio rat

text \<open>Comparisons with something that is not a number are false.\<close>

definition ratio_less :: "ratio \<Rightarrow> rat \<Rightarrow> bool" where
  "ratio_less r x = (case r of Not_a_number \<Rightarrow> False | Minus_infinity \<Rightarrow> True | Plus_infinity \<Rightarrow> False | Ratio v \<Rightarrow> v < x)"

definition ratio_greater :: "ratio \<Rightarrow> rat \<Rightarrow> bool" where
  "ratio_greater r x = (case r of Not_a_number \<Rightarrow> False | Minus_infinity \<Rightarrow> False | Plus_infinity \<Rightarrow> True | Ratio v \<Rightarrow> x < v)"

definition ratio_at_most :: "ratio \<Rightarrow> rat \<Rightarrow> bool" where
  "ratio_at_most r x = (case r of Not_a_number \<Rightarrow> False | Minus_infinity \<Rightarrow> True | Plus_infinity \<Rightarrow> False | Ratio v \<Rightarrow> v \<le> x)"

text \<open>
  Division of \<open>float64\<close> values that are counts below \<open>2 ^ 32\<close>: the exact quotient, rounded to a multiple of
  the power of two that gives it 53 significant bits, ties to even.
\<close>

definition round_half_even :: "rat \<Rightarrow> int" where
  "round_half_even x =
     (let f = \<lfloor>x\<rfloor>; d = x - of_int f in if d < 1 / 2 \<or> d = 1 / 2 \<and> even f then f else f + 1)"

definition float64_quotient :: "nat \<Rightarrow> nat \<Rightarrow> rat" where
  "float64_quotient a b =
     (case find (\<lambda>e. 2 ^ 52 \<le> (of_nat a / of_nat b :: rat) * 2 ^ e) [0..<96] of
        None \<Rightarrow> 0
      | Some e \<Rightarrow> of_int (round_half_even (of_nat a / of_nat b * 2 ^ e)) / 2 ^ e)"

lemma quotient_same [simp]: "0 < n \<Longrightarrow> float64_quotient n n = 1"
proof -
  have "(2 :: rat) ^ j < 2 ^ 52" if "j < 52" for j using that by (intro power_strict_increasing) auto
  then have "find (\<lambda>e. (2 :: rat) ^ 52 \<le> 2 ^ e) [0..<96] = Some 52"
    by (subst find_Some_iff, intro exI [of _ 52]) (auto simp flip: not_less)
  then show "0 < n \<Longrightarrow> float64_quotient n n = 1" by (simp add: float64_quotient_def round_half_even_def)
qed

end
