(* ===== verification/Circuit_Breaker.thy ===== *)
theory Circuit_Breaker
  imports Go_Float Tenant_Keys
begin

text \<open>
  \<open>commons/circuitbreaker\<close>: the manager that keeps one breaker for each service and tenant
  (manager.go, manager_tenant.go, manager_identity.go, manager_listeners.go, types.go, config.go), the
  manager that bypasses them (passthrough.go) and the health checker (healthchecker.go). The breaker
  itself is the package gobreaker, the parameter \<open>gobreaker\<close>; a breaker is a position in \<open>mg_heap\<close>, since callers keep
  handles to it. The manager's maps are guarded by its mutex. Logging is left out, metrics are the
  effects \<open>Executed\<close> and \<open>Transition\<close>.
\<close>

subsection \<open>Configuration\<close>

datatype State = StateClosed | StateOpen | StateHalfOpen | StateUnknown

text \<open>The ratios 0.4 and 0.6 are not numbers of type \<open>float64\<close>; the nearest ones stand for them.\<close>

record Config =
  MaxRequests :: nat
  Interval :: int
  Timeout :: int
  ConsecutiveFailures :: nat
  FailureRatio :: ratio
  MinRequests :: nat

record Counts =
  Requests :: nat
  TotalSuccesses :: nat
  TotalFailures :: nat
  cn_ConsecutiveSuccesses :: nat
  cn_ConsecutiveFailures :: nat

definition zero_Counts :: Counts where
  "zero_Counts = \<lparr>Requests = 0, TotalSuccesses = 0, TotalFailures = 0, cn_ConsecutiveSuccesses = 0, cn_ConsecutiveFailures = 0\<rparr>"

definition DefaultConfig :: Config where
  "DefaultConfig = \<lparr>MaxRequests = 3, Interval = 120000000000, Timeout = 30000000000, ConsecutiveFailures = 15, FailureRatio = Ratio (1 / 2), MinRequests = 10\<rparr>"

definition AggressiveConfig :: Config where
  "AggressiveConfig = \<lparr>MaxRequests = 2, Interval = 60000000000, Timeout = 10000000000, ConsecutiveFailures = 5, FailureRatio = Ratio (3602879701896397 / 9007199254740992), MinRequests = 5\<rparr>"

definition ConservativeConfig :: Config where
  "ConservativeConfig = \<lparr>MaxRequests = 5, Interval = 300000000000, Timeout = 60000000000, ConsecutiveFailures = 25, FailureRatio = Ratio (5404319552844595 / 9007199254740992), MinRequests = 20\<rparr>"

definition HTTPServiceConfig :: Config where
  "HTTPServiceConfig = \<lparr>MaxRequests = 3, Interval = 120000000000, Timeout = 10000000000, ConsecutiveFailures = 5, FailureRatio = Ratio (1 / 2), MinRequests = 10\<rparr>"

definition DatabaseConfig :: Config where
  "DatabaseConfig = \<lparr>MaxRequests = 5, Interval = 180000000000, Timeout = 45000000000, ConsecutiveFailures = 20, FailureRatio = Ratio (5404319552844595 / 9007199254740992), MinRequests = 15\<rparr>"

datatype breaker_error =
    ErrInvalidConfig | ErrNilCallback | ErrConfigMismatch | ErrInvalidServiceName | ErrInvalidTenantID
  | ErrNilCircuitBreaker | Not_registered

definition Validate :: "Config \<Rightarrow> breaker_error + unit" where
  "Validate c =
     (if ConsecutiveFailures c = 0 \<and> MinRequests c = 0 then Inl ErrInvalidConfig
      else if ratio_less (FailureRatio c) 0 \<or> ratio_greater (FailureRatio c) 1 then Inl ErrInvalidConfig
      else if 0 < MinRequests c \<and> ratio_at_most (FailureRatio c) 0 then Inl ErrInvalidConfig
      else if Interval c < 0 then Inl ErrInvalidConfig
      else if Timeout c < 0 then Inl ErrInvalidConfig
      else Inr ())"

text \<open>Go compares two configurations by \<open>!=\<close> on their fields: one that is not a number differs from itself.\<close>

definition config_differs :: "Config \<Rightarrow> Config \<Rightarrow> bool" where
  "config_differs stored config \<longleftrightarrow> stored \<noteq> config \<or> FailureRatio config = Not_a_number"

definition DivideFloat64OrZero :: "nat \<Rightarrow> nat \<Rightarrow> rat" where
  "DivideFloat64OrZero numerator denominator = (if denominator = 0 then 0 else float64_quotient numerator denominator)"

definition readyToTrip :: "Config \<Rightarrow> Counts \<Rightarrow> bool" where
  "readyToTrip config counts =
     (if 0 < ConsecutiveFailures config \<and> ConsecutiveFailures config \<le> cn_ConsecutiveFailures counts then True
      else if 0 < MinRequests config \<and> MinRequests config \<le> Requests counts
      then ratio_at_most (FailureRatio config) (DivideFloat64OrZero (TotalFailures counts) (Requests counts))
      else False)"

subsection \<open>Identity\<close>

definition noTenantHashLabel :: string where "noTenantHashLabel = []"

text \<open>A control character is one byte, and no byte of a longer character is one.\<close>

definition validateServiceName :: "string \<Rightarrow> breaker_error + unit" where
  "validateServiceName serviceName =
     (if serviceName = [] then Inl ErrInvalidServiceName
      else if list_ex (\<lambda>c. (of_char c :: nat) < 0x20 \<or> (of_char c :: nat) = 0x7F) serviceName then Inl ErrInvalidServiceName
      else Inr ())"

definition validateTenantID :: "string \<Rightarrow> breaker_error + unit" where
  "validateTenantID tenantID = (if \<not> IsValidTenantID tenantID then Inl ErrInvalidTenantID else Inr ())"

type_synonym breakerMapKey = "string \<times> string"

definition validateBreakerIdentity :: "string \<Rightarrow> string \<Rightarrow> bool \<Rightarrow> breaker_error + breakerMapKey" where
  "validateBreakerIdentity tenantID serviceName tenantAware =
     bind_res (validateServiceName serviceName) (\<lambda>_.
       bind_res (if tenantAware then validateTenantID tenantID else Inr ()) (\<lambda>_. Inr (tenantID, serviceName)))"

definition tenantHashLabel :: "(string \<Rightarrow> string) \<Rightarrow> string \<Rightarrow> string" where
  "tenantHashLabel sha256 tenantID = (if tenantID = [] then noTenantHashLabel else hex_EncodeToString (take 8 (sha256 tenantID)))"

subsection \<open>The breaker package\<close>

datatype gb_state = Gb_closed | Gb_half_open | Gb_open | Gb_other

text \<open>
  What a callback returns: a value and perhaps an error, of which is told apart whether it is or wraps
  the two sentinels of the package.
\<close>

datatype 'a answer = Answer "'a option" | Failed "'a option" | Rejected_open | Rejected_too_many

text \<open>
  The settings hold, for the callback for state changes, the tenant and the service it closes over.
  The package: a new breaker with its settings, and running a callback, given what it would answer: what
  the package answers, the breaker afterwards and the transitions it reported on the way. \<open>Rejected_open\<close> and
  \<open>Rejected_too_many\<close> stand for errors that are the sentinels, from the package or from the callback.
\<close>

record settings =
  set_identity :: breakerMapKey
  set_Name :: string
  set_MaxRequests :: nat
  set_Interval :: int
  set_Timeout :: int
  set_trips :: "Counts \<Rightarrow> bool"

record ('b, 'a) gobreaker =
  gb_New :: "settings \<Rightarrow> 'b"
  gb_Execute :: "'b \<Rightarrow> int \<Rightarrow> 'a answer \<Rightarrow> 'a answer \<times> 'b \<times> (gb_state \<times> gb_state) list"
  gb_State :: "'b \<Rightarrow> int \<Rightarrow> gb_state \<times> 'b \<times> (gb_state \<times> gb_state) list"
  gb_Counts :: "'b \<Rightarrow> Counts"

definition convertGobreakerState :: "gb_state \<Rightarrow> State" where
  "convertGobreakerState s =
     (case s of Gb_closed \<Rightarrow> StateClosed | Gb_open \<Rightarrow> StateOpen | Gb_half_open \<Rightarrow> StateHalfOpen | Gb_other \<Rightarrow> StateUnknown)"

subsection \<open>The manager\<close>

record breakerSlot =
  sl_tenantID :: string
  sl_serviceName :: string
  sl_breaker :: nat
  sl_config :: Config

datatype notice =
    Transition string string State State | Executed string string string
  | Tell_tenant nat string string State State | Tell nat string State State

record 'b manager =
  mg_slots :: "breakerMapKey \<rightharpoonup> breakerSlot"
  mg_heap :: "(settings \<times> 'b) list"
  mg_listeners :: "nat list"
  mg_tenantListeners :: "nat list"
  mg_metrics :: bool

definition NewManager :: "bool \<Rightarrow> 'b manager" where
  "NewManager metrics = \<lparr>mg_slots = Map.empty, mg_heap = [], mg_listeners = [], mg_tenantListeners = [], mg_metrics = metrics\<rparr>"

definition buildSettings :: "(string \<Rightarrow> string) \<Rightarrow> string \<Rightarrow> string \<Rightarrow> Config \<Rightarrow> settings" where
  "buildSettings sha256 tenantID serviceName config =
     (let name = ''service-'' @ serviceName;
          name = (if tenantID \<noteq> [] then ''tenant-'' @ tenantHashLabel sha256 tenantID @ ''/'' @ name else name)
      in \<lparr>set_identity = (tenantID, serviceName), set_Name = name, set_MaxRequests = MaxRequests config, set_Interval = Interval config, set_Timeout = Timeout config,
          set_trips = readyToTrip config\<rparr>)"

text \<open>
  A new breaker goes to a fresh position, with the settings it was made with. Every slot that is
  replaced keeps its other fields.
\<close>

definition install :: "('b, 'a) gobreaker \<Rightarrow> settings \<Rightarrow> breakerMapKey \<Rightarrow> breakerSlot \<Rightarrow> 'b manager \<Rightarrow> 'b manager" where
  "install G st key slot m =
     m\<lparr>mg_heap := mg_heap m @ [(st, gb_New G st)], mg_slots := (mg_slots m)(key \<mapsto> slot\<lparr>sl_breaker := length (mg_heap m)\<rparr>)\<rparr>"

definition getOrCreate ::
  "('b, 'a) gobreaker \<Rightarrow> (string \<Rightarrow> string) \<Rightarrow> string \<Rightarrow> string \<Rightarrow> Config \<Rightarrow> bool \<Rightarrow> 'b manager \<Rightarrow> (breaker_error + nat) \<times> 'b manager" where
  "getOrCreate G sha256 tenantID serviceName config tenantAware m =
     (case validateBreakerIdentity tenantID serviceName tenantAware of
        Inl e \<Rightarrow> (Inl e, m)
      | Inr key \<Rightarrow>
          (case mg_slots m key of
             Some slot \<Rightarrow> (if config_differs (sl_config slot) config then Inl ErrConfigMismatch else Inr (sl_breaker slot), m)
           | None \<Rightarrow>
               (case Validate config of
                  Inl e \<Rightarrow> (Inl e, m)
                | Inr _ \<Rightarrow>
                    (Inr (length (mg_heap m)),
                     install G (buildSettings sha256 tenantID serviceName config) key
                       \<lparr>sl_tenantID = tenantID, sl_serviceName = serviceName, sl_breaker = 0, sl_config = config\<rparr> m))))"

definition GetOrCreate :: "('b, 'a) gobreaker \<Rightarrow> (string \<Rightarrow> string) \<Rightarrow> string \<Rightarrow> Config \<Rightarrow> 'b manager \<Rightarrow> (breaker_error + nat) \<times> 'b manager" where
  "GetOrCreate G sha256 serviceName config m = getOrCreate G sha256 [] serviceName config False m"

definition GetOrCreateForTenant ::
  "('b, 'a) gobreaker \<Rightarrow> (string \<Rightarrow> string) \<Rightarrow> string \<Rightarrow> string \<Rightarrow> Config \<Rightarrow> 'b manager \<Rightarrow> (breaker_error + nat) \<times> 'b manager" where
  "GetOrCreateForTenant G sha256 tenantID serviceName config m = getOrCreate G sha256 tenantID serviceName config True m"

text \<open>
  Listeners of a transition: the tenant-aware ones always, the others when there is no tenant. A
  notification is dropped when 64 are running; \<open>starts\<close> says which find a free place.
\<close>

definition handleStateChange :: "'b manager \<Rightarrow> (notice \<Rightarrow> bool) \<Rightarrow> string \<Rightarrow> string \<Rightarrow> gb_state \<times> gb_state \<Rightarrow> notice list" where
  "handleStateChange m starts tenantID serviceName change =
     (let from = convertGobreakerState (fst change); to = convertGobreakerState (snd change) in
      (if mg_metrics m then [Transition tenantID serviceName from to] else []) @
      filter starts
        (map (\<lambda>l. Tell_tenant l tenantID serviceName from to) (mg_tenantListeners m) @
         (if tenantID = [] then map (\<lambda>l. Tell l serviceName from to) (mg_listeners m) else [])))"

text \<open>What a call into the package leaves: the breaker in its place and its transitions handled.\<close>

definition put_back :: "(notice \<Rightarrow> bool) \<Rightarrow> nat \<Rightarrow> 'b \<Rightarrow> (gb_state \<times> gb_state) list \<Rightarrow> 'b manager \<Rightarrow> 'b manager \<times> notice list" where
  "put_back starts h b changes m =
     (let st = fst (mg_heap m ! h); (tenantID, serviceName) = set_identity st in
      (m\<lparr>mg_heap := (mg_heap m)[h := (st, b)]\<rparr>, concat (map (handleStateChange m starts tenantID serviceName) changes)))"

datatype 'a exec_result = Refused breaker_error | Unavailable | Recovering | Returned "'a answer"

definition executed :: "'b manager \<Rightarrow> breakerSlot \<Rightarrow> string \<Rightarrow> notice list" where
  "executed m slot result = (if mg_metrics m then [Executed (sl_tenantID slot) (sl_serviceName slot) result] else [])"

text \<open>\<open>None\<close> is a nil callback.\<close>

definition execute ::
  "('b, 'a) gobreaker \<Rightarrow> int \<Rightarrow> (notice \<Rightarrow> bool) \<Rightarrow> string \<Rightarrow> string \<Rightarrow> 'a answer option \<Rightarrow> bool \<Rightarrow> 'b manager \<Rightarrow> 'a exec_result \<times> 'b manager \<times> notice list" where
  "execute G now starts tenantID serviceName fn tenantAware m =
     (case fn of
        None \<Rightarrow> (Refused ErrNilCallback, m, [])
      | Some fn \<Rightarrow>
          (case validateBreakerIdentity tenantID serviceName tenantAware of
             Inl e \<Rightarrow> (Refused e, m, [])
           | Inr key \<Rightarrow>
               (case mg_slots m key of
                  None \<Rightarrow> (Refused Not_registered, m, [])
                | Some slot \<Rightarrow>
                    (case gb_Execute G (snd (mg_heap m ! sl_breaker slot)) now fn of
                       (r, b, changes) \<Rightarrow>
                         (case put_back starts (sl_breaker slot) b changes m of
                            (m', told) \<Rightarrow>
                              (case r of
                                 Rejected_open \<Rightarrow> (Unavailable, m', told @ executed m slot ''rejected_open'')
                               | Rejected_too_many \<Rightarrow> (Recovering, m', told @ executed m slot ''rejected_half_open'')
                               | Failed v \<Rightarrow> (Returned (Failed v), m', told @ executed m slot ''error'')
                               | Answer v \<Rightarrow> (Returned (Answer v), m', told @ executed m slot ''success'')))))))"

definition getState ::
  "('b, 'a) gobreaker \<Rightarrow> int \<Rightarrow> (notice \<Rightarrow> bool) \<Rightarrow> string \<Rightarrow> string \<Rightarrow> bool \<Rightarrow> 'b manager \<Rightarrow> State \<times> 'b manager \<times> notice list" where
  "getState G now starts tenantID serviceName tenantAware m =
     (case validateBreakerIdentity tenantID serviceName tenantAware of
        Inl e \<Rightarrow> (StateUnknown, m, [])
      | Inr key \<Rightarrow>
          (case mg_slots m key of
             None \<Rightarrow> (StateUnknown, m, [])
           | Some slot \<Rightarrow>
               (case gb_State G (snd (mg_heap m ! sl_breaker slot)) now of
                  (s, b, changes) \<Rightarrow> (convertGobreakerState s, put_back starts (sl_breaker slot) b changes m))))"

definition getCounts :: "('b, 'a) gobreaker \<Rightarrow> string \<Rightarrow> string \<Rightarrow> bool \<Rightarrow> 'b manager \<Rightarrow> Counts" where
  "getCounts G tenantID serviceName tenantAware m =
     (case validateBreakerIdentity tenantID serviceName tenantAware of
        Inl e \<Rightarrow> zero_Counts
      | Inr key \<Rightarrow> (case mg_slots m key of None \<Rightarrow> zero_Counts | Some slot \<Rightarrow> gb_Counts G (snd (mg_heap m ! sl_breaker slot))))"

definition isHealthy ::
  "('b, 'a) gobreaker \<Rightarrow> int \<Rightarrow> (notice \<Rightarrow> bool) \<Rightarrow> string \<Rightarrow> string \<Rightarrow> bool \<Rightarrow> 'b manager \<Rightarrow> bool \<times> 'b manager \<times> notice list" where
  "isHealthy G now starts tenantID serviceName tenantAware m =
     (case getState G now starts tenantID serviceName tenantAware m of
        (s, rest) \<Rightarrow> (s \<noteq> StateOpen \<and> s \<noteq> StateUnknown, rest))"

definition reset ::
  "('b, 'a) gobreaker \<Rightarrow> (string \<Rightarrow> string) \<Rightarrow> string \<Rightarrow> string \<Rightarrow> bool \<Rightarrow> 'b manager \<Rightarrow> 'b manager" where
  "reset G sha256 tenantID serviceName tenantAware m =
     (case validateBreakerIdentity tenantID serviceName tenantAware of
        Inl e \<Rightarrow> m
      | Inr key \<Rightarrow>
          (case mg_slots m key of
             None \<Rightarrow> m
           | Some slot \<Rightarrow> install G (buildSettings sha256 tenantID serviceName (sl_config slot)) key slot m))"

text \<open>The slots of a tenant, in the order in which the map is ranged over.\<close>

definition ResetTenant ::
  "('b, 'a) gobreaker \<Rightarrow> (string \<Rightarrow> string) \<Rightarrow> string \<Rightarrow> breakerMapKey list \<Rightarrow> 'b manager \<Rightarrow> 'b manager" where
  "ResetTenant G sha256 tenantID order m =
     (case validateTenantID tenantID of
        Inl e \<Rightarrow> m
      | Inr _ \<Rightarrow>
          foldl (\<lambda>m key.
            if fst key \<noteq> tenantID then m
            else (case mg_slots m key of
                None \<Rightarrow> m
              | Some slot \<Rightarrow>
                  install G (buildSettings sha256 (sl_tenantID slot) (sl_serviceName slot) (sl_config slot)) key slot m)) m order)"

definition RemoveTenant :: "string \<Rightarrow> 'b manager \<Rightarrow> 'b manager" where
  "RemoveTenant tenantID m =
     (case validateTenantID tenantID of
        Inl e \<Rightarrow> m
      | Inr _ \<Rightarrow> m\<lparr>mg_slots := (\<lambda>key. if fst key = tenantID then None else mg_slots m key)\<rparr>)"

definition Inventory :: "'b manager \<Rightarrow> (string \<times> string) set" where
  "Inventory m = (\<lambda>slot. (sl_tenantID slot, sl_serviceName slot)) ` ran (mg_slots m)"

definition RegisterStateChangeListener :: "nat option \<Rightarrow> 'b manager \<Rightarrow> 'b manager" where
  "RegisterStateChangeListener l m = (case l of None \<Rightarrow> m | Some l \<Rightarrow> m\<lparr>mg_listeners := mg_listeners m @ [l]\<rparr>)"

definition RegisterTenantStateChangeListener :: "nat option \<Rightarrow> 'b manager \<Rightarrow> 'b manager" where
  "RegisterTenantStateChangeListener l m = (case l of None \<Rightarrow> m | Some l \<Rightarrow> m\<lparr>mg_tenantListeners := mg_tenantListeners m @ [l]\<rparr>)"

text \<open>A handle that \<open>GetOrCreate\<close> returned; \<open>None\<close> is a nil one.\<close>

definition handle_Execute ::
  "('b, 'a) gobreaker \<Rightarrow> int \<Rightarrow> (notice \<Rightarrow> bool) \<Rightarrow> nat option \<Rightarrow> 'a answer option \<Rightarrow> 'b manager \<Rightarrow> 'a exec_result \<times> 'b manager \<times> notice list" where
  "handle_Execute G now starts h fn m =
     (case h of
        None \<Rightarrow> (Refused ErrNilCircuitBreaker, m, [])
      | Some h \<Rightarrow>
          (case fn of
             None \<Rightarrow> (Refused ErrNilCallback, m, [])
           | Some fn \<Rightarrow>
               (case gb_Execute G (snd (mg_heap m ! h)) now fn of
                  (r, b, changes) \<Rightarrow> (Returned r, put_back starts h b changes m))))"

definition handle_State ::
  "('b, 'a) gobreaker \<Rightarrow> int \<Rightarrow> (notice \<Rightarrow> bool) \<Rightarrow> nat option \<Rightarrow> 'b manager \<Rightarrow> State \<times> 'b manager \<times> notice list" where
  "handle_State G now starts h m =
     (case h of
        None \<Rightarrow> (StateUnknown, m, [])
      | Some h \<Rightarrow>
          (case gb_State G (snd (mg_heap m ! h)) now of
             (s, b, changes) \<Rightarrow> (convertGobreakerState s, put_back starts h b changes m)))"

definition handle_Counts :: "('b, 'a) gobreaker \<Rightarrow> nat option \<Rightarrow> 'b manager \<Rightarrow> Counts" where
  "handle_Counts G h m = (case h of None \<Rightarrow> zero_Counts | Some h \<Rightarrow> gb_Counts G (snd (mg_heap m ! h)))"

subsection \<open>The exported methods\<close>

text \<open>Each internal method once without a tenant and once for one.\<close>

definition Execute :: "('b, 'a) gobreaker \<Rightarrow> int \<Rightarrow> (notice \<Rightarrow> bool) \<Rightarrow> string \<Rightarrow> 'a answer option \<Rightarrow> 'b manager \<Rightarrow> 'a exec_result \<times> 'b manager \<times> notice list" where
  "Execute G now starts serviceName fn m = execute G now starts [] serviceName fn False m"

definition ExecuteForTenant :: "('b, 'a) gobreaker \<Rightarrow> int \<Rightarrow> (notice \<Rightarrow> bool) \<Rightarrow> string \<Rightarrow> string \<Rightarrow> 'a answer option \<Rightarrow> 'b manager \<Rightarrow> 'a exec_result \<times> 'b manager \<times> notice list" where
  "ExecuteForTenant G now starts tenantID serviceName fn m = execute G now starts tenantID serviceName fn True m"

definition GetState :: "('b, 'a) gobreaker \<Rightarrow> int \<Rightarrow> (notice \<Rightarrow> bool) \<Rightarrow> string \<Rightarrow> 'b manager \<Rightarrow> State \<times> 'b manager \<times> notice list" where
  "GetState G now starts serviceName m = getState G now starts [] serviceName False m"

definition GetStateForTenant :: "('b, 'a) gobreaker \<Rightarrow> int \<Rightarrow> (notice \<Rightarrow> bool) \<Rightarrow> string \<Rightarrow> string \<Rightarrow> 'b manager \<Rightarrow> State \<times> 'b manager \<times> notice list" where
  "GetStateForTenant G now starts tenantID serviceName m = getState G now starts tenantID serviceName True m"

definition GetCounts :: "('b, 'a) gobreaker \<Rightarrow> string \<Rightarrow> 'b manager \<Rightarrow> Counts" where
  "GetCounts G serviceName m = getCounts G [] serviceName False m"

definition GetCountsForTenant :: "('b, 'a) gobreaker \<Rightarrow> string \<Rightarrow> string \<Rightarrow> 'b manager \<Rightarrow> Counts" where
  "GetCountsForTenant G tenantID serviceName m = getCounts G tenantID serviceName True m"

definition IsHealthy :: "('b, 'a) gobreaker \<Rightarrow> int \<Rightarrow> (notice \<Rightarrow> bool) \<Rightarrow> string \<Rightarrow> 'b manager \<Rightarrow> bool \<times> 'b manager \<times> notice list" where
  "IsHealthy G now starts serviceName m = isHealthy G now starts [] serviceName False m"

definition IsHealthyForTenant :: "('b, 'a) gobreaker \<Rightarrow> int \<Rightarrow> (notice \<Rightarrow> bool) \<Rightarrow> string \<Rightarrow> string \<Rightarrow> 'b manager \<Rightarrow> bool \<times> 'b manager \<times> notice list" where
  "IsHealthyForTenant G now starts tenantID serviceName m = isHealthy G now starts tenantID serviceName True m"

definition Reset :: "('b, 'a) gobreaker \<Rightarrow> (string \<Rightarrow> string) \<Rightarrow> string \<Rightarrow> 'b manager \<Rightarrow> 'b manager" where
  "Reset G sha256 serviceName m = reset G sha256 [] serviceName False m"

definition ResetForTenant :: "('b, 'a) gobreaker \<Rightarrow> (string \<Rightarrow> string) \<Rightarrow> string \<Rightarrow> string \<Rightarrow> 'b manager \<Rightarrow> 'b manager" where
  "ResetForTenant G sha256 tenantID serviceName m = reset G sha256 tenantID serviceName True m"

subsection \<open>Bypassing the breakers\<close>

definition pass_GetOrCreate :: "string \<Rightarrow> string \<Rightarrow> bool \<Rightarrow> Config \<Rightarrow> breaker_error + unit" where
  "pass_GetOrCreate tenantID serviceName tenantAware config =
     bind_res (validateBreakerIdentity tenantID serviceName tenantAware) (\<lambda>_. Validate config)"

definition pass_Execute :: "string \<Rightarrow> string \<Rightarrow> bool \<Rightarrow> 'a answer option \<Rightarrow> 'a exec_result" where
  "pass_Execute tenantID serviceName tenantAware fn =
     (case fn of
        None \<Rightarrow> Refused ErrNilCallback
      | Some r \<Rightarrow> (case validateBreakerIdentity tenantID serviceName tenantAware of Inl e \<Rightarrow> Refused e | Inr _ \<Rightarrow> Returned r))"

definition pass_GetState :: "string \<Rightarrow> string \<Rightarrow> bool \<Rightarrow> State" where
  "pass_GetState tenantID serviceName tenantAware =
     (case validateBreakerIdentity tenantID serviceName tenantAware of Inl e \<Rightarrow> StateUnknown | Inr _ \<Rightarrow> StateClosed)"

definition pass_IsHealthy :: "string \<Rightarrow> string \<Rightarrow> bool \<Rightarrow> bool" where
  "pass_IsHealthy tenantID serviceName tenantAware =
     (case validateBreakerIdentity tenantID serviceName tenantAware of Inl e \<Rightarrow> False | Inr _ \<Rightarrow> True)"

subsection \<open>The health checker\<close>

record healthChecker =
  hc_services :: "string \<rightharpoonup> (int \<Rightarrow> bool)"
  hc_immediate :: "string list"
  hc_started :: bool
  hc_stopped :: bool

datatype checker_error = ErrNilManager | ErrNilLogger | ErrInvalidHealthCheckInterval | ErrInvalidHealthCheckTimeout

definition NewHealthCheckerWithValidation :: "bool \<Rightarrow> bool \<Rightarrow> int \<Rightarrow> int \<Rightarrow> checker_error + healthChecker" where
  "NewHealthCheckerWithValidation has_manager has_logger interval checkTimeout =
     (if \<not> has_manager then Inl ErrNilManager
      else if \<not> has_logger then Inl ErrNilLogger
      else if interval \<le> 0 then Inl ErrInvalidHealthCheckInterval
      else if checkTimeout \<le> 0 then Inl ErrInvalidHealthCheckTimeout
      else Inr \<lparr>hc_services = Map.empty, hc_immediate = [], hc_started = False, hc_stopped = False\<rparr>)"

text \<open>A check function is what it answers at a time: whether the service is well.\<close>

definition Register :: "string \<Rightarrow> (int \<Rightarrow> bool) option \<Rightarrow> healthChecker \<Rightarrow> healthChecker" where
  "Register serviceName fn hc = (case fn of None \<Rightarrow> hc | Some f \<Rightarrow> hc\<lparr>hc_services := (hc_services hc)(serviceName \<mapsto> f)\<rparr>)"

definition hc_Start :: "healthChecker \<Rightarrow> healthChecker" where
  "hc_Start hc = (if hc_started hc then hc else hc\<lparr>hc_started := True\<rparr>)"

definition hc_Stop :: "healthChecker \<Rightarrow> healthChecker" where
  "hc_Stop hc = hc\<lparr>hc_stopped := True\<rparr>"

text \<open>The channel of immediate checks holds ten.\<close>

definition OnStateChange :: "string \<Rightarrow> State \<Rightarrow> healthChecker \<Rightarrow> healthChecker" where
  "OnStateChange serviceName to hc =
     (if to = StateOpen \<and> length (hc_immediate hc) < 10 then hc\<lparr>hc_immediate := hc_immediate hc @ [serviceName]\<rparr> else hc)"

text \<open>The state of the manager and the notices so far are threaded through the checks.\<close>

definition check_with ::
  "('b, 'a) gobreaker \<Rightarrow> (string \<Rightarrow> string) \<Rightarrow> int \<Rightarrow> (notice \<Rightarrow> bool) \<Rightarrow> string \<Rightarrow> (int \<Rightarrow> bool) \<Rightarrow> 'b manager \<times> notice list \<Rightarrow> 'b manager \<times> notice list" where
  "check_with G sha256 now starts serviceName fn acc =
     (case isHealthy G now starts [] serviceName False (fst acc) of
        (True, m, told) \<Rightarrow> (m, snd acc @ told)
      | (False, m, told) \<Rightarrow> (if fn now then reset G sha256 [] serviceName False m else m, snd acc @ told))"

definition checkServiceHealth ::
  "('b, 'a) gobreaker \<Rightarrow> (string \<Rightarrow> string) \<Rightarrow> int \<Rightarrow> (notice \<Rightarrow> bool) \<Rightarrow> healthChecker \<Rightarrow> string \<Rightarrow> 'b manager \<Rightarrow> 'b manager \<times> notice list" where
  "checkServiceHealth G sha256 now starts hc serviceName m =
     (case hc_services hc serviceName of
        None \<Rightarrow> (m, [])
      | Some fn \<Rightarrow> check_with G sha256 now starts serviceName fn (m, []))"

text \<open>The services in the order in which the copied map is ranged over, each at its own time.\<close>

definition performHealthChecks ::
  "('b, 'a) gobreaker \<Rightarrow> (string \<Rightarrow> string) \<Rightarrow> (notice \<Rightarrow> bool) \<Rightarrow> healthChecker \<Rightarrow> (int \<times> string) list \<Rightarrow> 'b manager \<Rightarrow> 'b manager \<times> notice list" where
  "performHealthChecks G sha256 starts hc order m =
     foldl (\<lambda>acc (now, serviceName).
       case hc_services hc serviceName of None \<Rightarrow> acc | Some fn \<Rightarrow> check_with G sha256 now starts serviceName fn acc) (m, []) order"

text \<open>One turn of the loop: a tick, a requested check, or the end.\<close>

datatype hc_turn = Ticked "(int \<times> string) list" | Asked int | Ended

definition healthCheckLoop ::
  "('b, 'a) gobreaker \<Rightarrow> (string \<Rightarrow> string) \<Rightarrow> (notice \<Rightarrow> bool) \<Rightarrow> hc_turn \<Rightarrow> healthChecker \<times> 'b manager \<Rightarrow> healthChecker \<times> 'b manager \<times> notice list" where
  "healthCheckLoop G sha256 starts turn st =
     (case st of (hc, m) \<Rightarrow>
        (case turn of
           Ticked order \<Rightarrow> (hc, performHealthChecks G sha256 starts hc order m)
         | Asked now \<Rightarrow>
             (case hc_immediate hc of
                [] \<Rightarrow> (hc, m, [])
              | s # rest \<Rightarrow> (hc\<lparr>hc_immediate := rest\<rparr>, checkServiceHealth G sha256 now starts hc s m))
         | Ended \<Rightarrow> (hc, m, [])))"

definition GetHealthStatus ::
  "('b, 'a) gobreaker \<Rightarrow> int \<Rightarrow> (notice \<Rightarrow> bool) \<Rightarrow> healthChecker \<Rightarrow> string list \<Rightarrow> 'b manager \<Rightarrow> (string \<times> State) list \<times> 'b manager \<times> notice list" where
  "GetHealthStatus G now starts hc order m =
     foldl (\<lambda>(status, m, told) serviceName.
       if hc_services hc serviceName = None then (status, m, told)
       else (case getState G now starts [] serviceName False m of (s, m, more_told) \<Rightarrow> (status @ [(serviceName, s)], m, told @ more_told)))
       ([], m, []) order"

end
