(* ===== verification/Circuit_Breaker_Laws.thy ===== *)
theory Circuit_Breaker_Laws
  imports Circuit_Breaker
begin

text \<open>
  Laws of the breaker manager: the breakers of different services and tenants are kept apart, a
  registered configuration stays, the right listeners are told, and an accepted configuration can trip
  unless its ratio is not a number.
\<close>

subsection \<open>Operations\<close>

text \<open>
  The calls on a manager, each with what it leaves and the notices it causes; \<open>None\<close> for the tenant is a call
  without one. \<open>Use\<close> and \<open>Look\<close> go through a handle, \<open>Health\<close> is a turn of a health checker.
\<close>

datatype 'a breaker_op =
    Create "string option" string Config
  | Exec int "string option" string "'a answer option"
  | Query int "string option" string
  | Use int "nat option" "'a answer option"
  | Look int "nat option"
  | Reset_one "string option" string
  | Reset_all string "breakerMapKey list"
  | Remove_all string
  | Listen "nat option" bool
  | Health healthChecker hc_turn

definition tenant_of :: "string option \<Rightarrow> string" where
  "tenant_of t = (case t of None \<Rightarrow> [] | Some t \<Rightarrow> t)"

fun run ::
  "('b, 'a) gobreaker \<Rightarrow> (string \<Rightarrow> string) \<Rightarrow> (notice \<Rightarrow> bool) \<Rightarrow> 'a breaker_op \<Rightarrow> 'b manager \<Rightarrow> 'b manager \<times> notice list" where
  "run G sha starts (Create t s c) m = (snd (getOrCreate G sha (tenant_of t) s c (t \<noteq> None) m), [])"
| "run G sha starts (Exec now t s fn) m = snd (execute G now starts (tenant_of t) s fn (t \<noteq> None) m)"
| "run G sha starts (Query now t s) m = snd (isHealthy G now starts (tenant_of t) s (t \<noteq> None) m)"
| "run G sha starts (Use now h fn) m = snd (handle_Execute G now starts h fn m)"
| "run G sha starts (Look now h) m = snd (handle_State G now starts h m)"
| "run G sha starts (Reset_one t s) m = (reset G sha (tenant_of t) s (t \<noteq> None) m, [])"
| "run G sha starts (Reset_all t order) m = (ResetTenant G sha t order m, [])"
| "run G sha starts (Remove_all t) m = (RemoveTenant t m, [])"
| "run G sha starts (Listen l aware) m =
     (if aware then RegisterTenantStateChangeListener l m else RegisterStateChangeListener l m, [])"
| "run G sha starts (Health hc turn) m = snd (healthCheckLoop G sha starts turn (hc, m))"

text \<open>
  The services a turn of the health checker checks: those it was given a function for, of the ones it
  ranges over, or the one it was asked for.
\<close>

definition checked_services :: "healthChecker \<Rightarrow> hc_turn \<Rightarrow> string set" where
  "checked_services hc turn =
     (case turn of Ticked order \<Rightarrow> snd ` set order | Asked now \<Rightarrow> set (take 1 (hc_immediate hc)) | Ended \<Rightarrow> {}) \<inter> dom (hc_services hc)"

text \<open>The identities an operation is about.\<close>

fun concerns :: "'b manager \<Rightarrow> 'a breaker_op \<Rightarrow> breakerMapKey set" where
  "concerns m (Create t s c) = {(tenant_of t, s)}"
| "concerns m (Exec now t s fn) = {(tenant_of t, s)}"
| "concerns m (Query now t s) = {(tenant_of t, s)}"
| "concerns m (Use now h fn) = (case h of None \<Rightarrow> {} | Some h \<Rightarrow> {set_identity (fst (mg_heap m ! h))})"
| "concerns m (Look now h) = (case h of None \<Rightarrow> {} | Some h \<Rightarrow> {set_identity (fst (mg_heap m ! h))})"
| "concerns m (Reset_one t s) = {(tenant_of t, s)}"
| "concerns m (Reset_all t order) = {k. fst k = t}"
| "concerns m (Remove_all t) = {k. fst k = t}"
| "concerns m (Listen l aware) = {}"
| "concerns m (Health hc turn) = Pair [] ` checked_services hc turn"

fun notice_about :: "notice \<Rightarrow> breakerMapKey" where
  "notice_about (Transition t s from to) = (t, s)"
| "notice_about (Executed t s r) = (t, s)"
| "notice_about (Tell_tenant l t s from to) = (t, s)"
| "notice_about (Tell l s from to) = ([], s)"

definition breaker_of :: "'b manager \<Rightarrow> breakerMapKey \<Rightarrow> 'b option" where
  "breaker_of m key = map_option (\<lambda>slot. snd (mg_heap m ! sl_breaker slot)) (mg_slots m key)"

text \<open>
  Every registered slot has the identity and a valid configuration it is registered under, and a
  breaker that was made with the settings for that identity and that very configuration.
\<close>

definition slot_ok :: "(string \<Rightarrow> string) \<Rightarrow> 'b manager \<Rightarrow> breakerMapKey \<Rightarrow> breakerSlot \<Rightarrow> bool" where
  "slot_ok sha m key slot \<longleftrightarrow>
     (sl_tenantID slot, sl_serviceName slot) = key \<and> Validate (sl_config slot) = Inr () \<and>
     sl_breaker slot < length (mg_heap m) \<and>
     fst (mg_heap m ! sl_breaker slot) = buildSettings sha (fst key) (snd key) (sl_config slot)"

definition mg_wf :: "(string \<Rightarrow> string) \<Rightarrow> 'b manager \<Rightarrow> bool" where
  "mg_wf sha m \<longleftrightarrow> (\<forall>key slot. mg_slots m key = Some slot \<longrightarrow> slot_ok sha m key slot)"

lemma settings_identity [simp]: "set_identity (buildSettings sha t s c) = (t, s)"
  by (simp add: buildSettings_def Let_def)

text \<open>Nothing outside some identities changes, and what stays registered keeps its configuration.\<close>

definition only :: "breakerMapKey set \<Rightarrow> 'b manager \<Rightarrow> 'b manager \<Rightarrow> bool" where
  "only K m m' \<longleftrightarrow>
     (\<forall>key. key \<notin> K \<longrightarrow> mg_slots m' key = mg_slots m key \<and> breaker_of m' key = breaker_of m key) \<and>
     (\<forall>key s s'. mg_slots m key = Some s \<longrightarrow> mg_slots m' key = Some s' \<longrightarrow> sl_config s' = sl_config s)"

text \<open>The same, when nothing is removed; this composes.\<close>

definition keeps :: "(string \<Rightarrow> string) \<Rightarrow> breakerMapKey set \<Rightarrow> 'b manager \<Rightarrow> 'b manager \<times> notice list \<Rightarrow> bool" where
  "keeps sha K m r \<longleftrightarrow> mg_wf sha (fst r) \<and> only K m (fst r) \<and> dom (mg_slots m) \<subseteq> dom (mg_slots (fst r)) \<and>
     notice_about ` set (snd r) \<subseteq> K"

lemma keeps_refl [simp]: "keeps sha K m (m, []) \<longleftrightarrow> mg_wf sha m"
  by (simp add: keeps_def only_def)

lemma keeps_mono: "keeps sha K m r \<Longrightarrow> K \<subseteq> K' \<Longrightarrow> keeps sha K' m r"
  unfolding keeps_def only_def by blast

lemma keeps_trans: "keeps sha K m (m', ns) \<Longrightarrow> keeps sha K m' (m'', ns') \<Longrightarrow> keeps sha K m (m'', ns @ ns')"
  unfolding keeps_def only_def by (auto simp: image_Un) (metis (no_types, lifting) domI domD subsetD)+

lemma wf_slot: "mg_wf sha m \<Longrightarrow> mg_slots m key = Some slot \<Longrightarrow> slot_ok sha m key slot"
  unfolding mg_wf_def by blast

lemma install_keeps:
  assumes "mg_wf sha m" and "st = buildSettings sha (fst key) (snd key) (sl_config slot)"
    and "(sl_tenantID slot, sl_serviceName slot) = key" and "Validate (sl_config slot) = Inr ()"
    and "\<And>s. mg_slots m key = Some s \<Longrightarrow> sl_config s = sl_config slot"
  shows "keeps sha {key} m (install G st key slot m, [])"
proof -
  let ?m = "install G st key slot m"
  have old: "slot_ok sha ?m k s" "breaker_of ?m k = breaker_of m k" if "mg_slots m k = Some s" "k \<noteq> key" for k s
    using wf_slot [OF assms(1) that(1)] that by (auto simp: slot_ok_def install_def nth_append breaker_of_def)
  have "slot_ok sha ?m key (slot\<lparr>sl_breaker := length (mg_heap m)\<rparr>)" using assms(2-4) by (simp add: slot_ok_def install_def)
  with old(1) have "mg_wf sha ?m" unfolding mg_wf_def by (auto simp: install_def split: if_splits)
  moreover have "breaker_of ?m k = breaker_of m k" if "k \<noteq> key" for k
    using old(2) that by (cases "mg_slots m k") (auto simp: breaker_of_def install_def)
  then have "only {key} m ?m" using assms(5) unfolding only_def by (auto simp: install_def split: if_splits)
  ultimately show ?thesis by (auto simp: keeps_def install_def)
qed

lemma notices_about:
  "notice_about ` set (snd (put_back starts h b changes m)) \<subseteq> {set_identity (fst (mg_heap m ! h))}"
  by (auto simp: put_back_def Let_def handleStateChange_def split: if_splits prod.splits)

lemma put_back_keeps:
  assumes "mg_wf sha m"
  shows "keeps sha {set_identity (fst (mg_heap m ! h))} m (put_back starts h b changes m)"
proof -
  let ?m = "fst (put_back starts h b changes m)"
  have len: "length (mg_heap ?m) = length (mg_heap m)" and slots: "mg_slots ?m = mg_slots m"
    and ids: "fst (mg_heap ?m ! i) = fst (mg_heap m ! i)" for i
    by (simp_all add: put_back_def Let_def nth_list_update split: if_splits prod.splits)
       (cases "i < length (mg_heap m)"; cases "i = h"; simp add: list_update_beyond)
  have "mg_wf sha ?m" using assms by (simp add: mg_wf_def slot_ok_def len slots ids)
  moreover have "breaker_of ?m k = breaker_of m k" if "k \<noteq> set_identity (fst (mg_heap m ! h))" for k
  proof (cases "mg_slots m k")
    case (Some s)
    with that wf_slot [OF assms Some] have "sl_breaker s \<noteq> h" by (auto simp: slot_ok_def)
    with Some show ?thesis by (simp add: breaker_of_def put_back_def Let_def split: prod.splits)
  qed (simp add: breaker_of_def slots)
  ultimately show ?thesis using notices_about [of starts h b changes m] by (auto simp: keeps_def only_def slots)
qed

subsection \<open>Each operation\<close>

lemma identity_key: "validateBreakerIdentity t s aware = Inr key \<Longrightarrow> key = (t, s)"
  by (auto simp: validateBreakerIdentity_def bind_res_eq_Inr)

lemma slot_key: "mg_wf sha m \<Longrightarrow> mg_slots m key = Some slot \<Longrightarrow> set_identity (fst (mg_heap m ! sl_breaker slot)) = key"
  by (auto dest: wf_slot simp: slot_ok_def)

lemma getOrCreate_keeps:
  assumes "mg_wf sha m"
  shows "keeps sha {(t, s)} m (snd (getOrCreate G sha t s c aware m), [])"
proof (cases "validateBreakerIdentity t s aware")
  case (Inr key)
  then have key: "key = (t, s)" by (rule identity_key)
  show ?thesis
  proof (cases "mg_slots m key")
    case None
    show ?thesis
    proof (cases "Validate c")
      case (Inr u)
      have "keeps sha {key} m (install G (buildSettings sha t s c) key \<lparr>sl_tenantID = t, sl_serviceName = s, sl_breaker = 0, sl_config = c\<rparr> m, [])"
        using assms None Inr key by (intro install_keeps) auto
      with Inr None \<open>validateBreakerIdentity t s aware = Inr key\<close> key show ?thesis by (simp add: getOrCreate_def)
    qed (use assms Inr None in \<open>simp add: getOrCreate_def\<close>)
  qed (use assms Inr in \<open>simp add: getOrCreate_def\<close>)
qed (use assms in \<open>simp add: getOrCreate_def\<close>)

lemma keeps_more:
  "keeps sha K m (m', ns) \<Longrightarrow> notice_about ` set ns' \<subseteq> K \<Longrightarrow> keeps sha K m (m', ns @ ns')"
  by (auto simp: keeps_def)

lemma execute_keeps:
  assumes "mg_wf sha m"
  shows "keeps sha {(t, s)} m (snd (execute G now starts t s fn aware m))"
proof (cases "fn = None \<or> (\<exists>e. validateBreakerIdentity t s aware = Inl e) \<or> mg_slots m (t, s) = None")
  case True
  with assms show ?thesis
    by (auto simp: execute_def split: option.splits sum.splits dest: identity_key)
next
  case False
  then obtain f slot where f: "fn = Some f" and v: "validateBreakerIdentity t s aware = Inr (t, s)"
    and slot: "mg_slots m (t, s) = Some slot"
    by (cases "validateBreakerIdentity t s aware") (auto dest: identity_key)
  obtain r b changes where g: "gb_Execute G (snd (mg_heap m ! sl_breaker slot)) now f = (r, b, changes)" by (metis prod_cases3)
  obtain m' told where p: "put_back starts (sl_breaker slot) b changes m = (m', told)" by fastforce
  have "keeps sha {(t, s)} m (m', told)"
    using put_back_keeps [OF assms, of "sl_breaker slot" starts b changes] p slot_key [OF assms slot] by simp
  moreover have "notice_about ` set (executed m slot res) \<subseteq> {(t, s)}" for res
    using wf_slot [OF assms slot] by (auto simp: executed_def slot_ok_def)
  ultimately show ?thesis using f v slot g p by (cases r) (auto simp: execute_def intro: keeps_more)
qed

lemma getState_keeps:
  assumes "mg_wf sha m"
  shows "keeps sha {(t, s)} m (snd (getState G now starts t s aware m))"
proof (cases "validateBreakerIdentity t s aware")
  case (Inr key)
  then have key: "key = (t, s)" by (rule identity_key)
  show ?thesis
  proof (cases "mg_slots m key")
    case (Some slot)
    with Inr key put_back_keeps [OF assms, of "sl_breaker slot" starts] slot_key [OF assms Some] show ?thesis
      by (auto simp: getState_def split: prod.splits)
  qed (use assms Inr in \<open>simp add: getState_def\<close>)
qed (use assms in \<open>simp add: getState_def\<close>)

lemma isHealthy_keeps: "mg_wf sha m \<Longrightarrow> keeps sha {(t, s)} m (snd (isHealthy G now starts t s aware m))"
  using getState_keeps [of sha m t s G now starts aware] by (auto simp: isHealthy_def split: prod.splits)

lemma reinstall_keeps:
  assumes "mg_wf sha m" and "mg_slots m key = Some slot"
  shows "keeps sha {key} m (install G (buildSettings sha (fst key) (snd key) (sl_config slot)) key slot m, [])"
  using assms wf_slot [OF assms] by (intro install_keeps) (auto simp: slot_ok_def)

lemma reset_keeps:
  assumes "mg_wf sha m"
  shows "keeps sha {(t, s)} m (reset G sha t s aware m, [])"
proof (cases "validateBreakerIdentity t s aware")
  case (Inr key)
  then have key: "key = (t, s)" by (rule identity_key)
  show ?thesis
  proof (cases "mg_slots m key")
    case (Some slot)
    then show ?thesis using Inr key reinstall_keeps [OF assms Some, of G] by (simp add: reset_def)
  qed (use assms Inr in \<open>simp add: reset_def\<close>)
qed (use assms in \<open>simp add: reset_def\<close>)

lemma foldl_keeps:
  assumes "\<And>m ns x. mg_wf sha m \<Longrightarrow> x \<in> set xs \<Longrightarrow> \<exists>m' ns'. f (m, ns) x = (m', ns @ ns') \<and> keeps sha K m (m', ns')" and "mg_wf sha m"
  shows "\<exists>m' ns'. foldl f (m, ns) xs = (m', ns @ ns') \<and> keeps sha K m (m', ns')"
  using assms
proof (induction xs arbitrary: m ns)
  case (Cons x xs)
  obtain m1 n1 where 1: "f (m, ns) x = (m1, ns @ n1)" "keeps sha K m (m1, n1)" 
    using Cons.prems(1) [OF Cons.prems(2), of x ns] by auto
  then have "mg_wf sha m1" by (simp add: keeps_def)
  moreover have "\<exists>m' ns'. f (m, ns) y = (m', ns @ ns') \<and> keeps sha K m (m', ns')" if "mg_wf sha m" "y \<in> set xs" for m ns y
    using Cons.prems(1) [OF that(1)] that(2) by simp
  ultimately obtain m2 n2
    where 2: "foldl f (m1, ns @ n1) xs = (m2, (ns @ n1) @ n2)" "keeps sha K m1 (m2, n2)" using Cons.IH [of m1 "ns @ n1"] by blast
  with 1 keeps_trans [OF 1(2) 2(2)] show ?case by auto
qed simp

lemma ResetTenant_keeps:
  assumes "mg_wf sha m"
  shows "keeps sha {k. fst k = t} m (ResetTenant G sha t order m, [])"
proof -
  let ?f = "\<lambda>m key. if fst key \<noteq> t then m
            else (case mg_slots m key of None \<Rightarrow> m
              | Some slot \<Rightarrow> install G (buildSettings sha (sl_tenantID slot) (sl_serviceName slot) (sl_config slot)) key slot m)"
  have one: "keeps sha {k. fst k = t} m (?f m key, [])" if "mg_wf sha m" for m :: "'a manager" and key
  proof (cases "fst key = t \<and> mg_slots m key \<noteq> None")
    case True
    then obtain slot where slot: "mg_slots m key = Some slot" by auto
    then have "key = (sl_tenantID slot, sl_serviceName slot)" using wf_slot [OF that slot] by (simp add: slot_ok_def)
    with True slot keeps_mono [OF reinstall_keeps [OF that slot, of G], of "{k. fst k = t}"] show ?thesis by auto
  qed (use that in \<open>auto split: option.splits\<close>)
  have "keeps sha {k. fst k = t} m (foldl ?f m order, [])" using assms
  proof (induction order arbitrary: m)
    case (Cons key order)
    have "mg_wf sha (?f m key)" using one [OF Cons.prems] by (simp add: keeps_def)
    from keeps_trans [OF one [OF Cons.prems] Cons.IH [OF this]] show ?case by simp
  qed simp
  with assms show ?thesis by (simp add: ResetTenant_def split: sum.splits)
qed

lemma check_with_keeps:
  assumes "mg_wf sha m"
  shows "\<exists>m' ns'. check_with G sha now starts s fn (m, ns) = (m', ns @ ns') \<and> keeps sha {([], s)} m (m', ns')"
proof -
  obtain h m1 n1 where h: "isHealthy G now starts [] s False m = (h, m1, n1)" by (metis prod_cases3)
  have k: "keeps sha {([], s)} m (m1, n1)" using isHealthy_keeps [OF assms, of "[]" s G now starts False] h by simp
  then have "mg_wf sha m1" by (simp add: keeps_def)
  from keeps_trans [OF k reset_keeps [OF this]] have "keeps sha {([], s)} m (reset G sha [] s False m1, n1)" by simp
  with k h show ?thesis by (auto simp: check_with_def split: bool.splits)
qed

lemma healthCheckLoop_keeps:
  assumes "mg_wf sha m"
  shows "keeps sha (Pair [] ` checked_services hc turn) m (snd (healthCheckLoop G sha starts turn (hc, m)))"
proof (cases turn)
  case (Ticked order)
  have "\<exists>m' ns'. performHealthChecks G sha starts hc order m = (m', [] @ ns') \<and>
      keeps sha (Pair [] ` checked_services hc turn) m (m', ns')"
    unfolding performHealthChecks_def
  proof (rule foldl_keeps [OF _ assms], goal_cases)
    case (1 m ns x)
    obtain now s where x: "x = (now, s)" by fastforce
    show ?case
    proof (cases "hc_services hc s")
      case None
      with 1 x show ?thesis by (intro exI [of _ m] exI [of _ "[]"]) simp
    next
      case (Some fn)
      then have "{([], s)} \<subseteq> Pair [] ` checked_services hc turn" using 1(2) x Ticked by (force simp: checked_services_def)
      with Some check_with_keeps [OF 1(1), of G now starts s fn ns] x show ?thesis by (auto intro: keeps_mono)
    qed
  qed
  with Ticked show ?thesis by (auto simp: healthCheckLoop_def)
next
  case (Asked now)
  show ?thesis
  proof (cases "hc_immediate hc")
    case (Cons s rest)
    have "keeps sha (Pair [] ` checked_services hc turn) m (checkServiceHealth G sha now starts hc s m)"
    proof (cases "hc_services hc s")
      case (Some fn)
      then have "{([], s)} \<subseteq> Pair [] ` checked_services hc turn" using Cons Asked by (auto simp: checked_services_def)
      with Some check_with_keeps [OF assms, of G now starts s fn "[]"] show ?thesis
        by (auto simp: checkServiceHealth_def intro: keeps_mono)
    qed (use assms in \<open>simp add: checkServiceHealth_def\<close>)
    with Asked Cons show ?thesis by (simp add: healthCheckLoop_def)
  qed (use Asked assms in \<open>simp add: healthCheckLoop_def\<close>)
qed (use assms in \<open>simp add: healthCheckLoop_def\<close>)

lemma run_keeps:
  assumes "mg_wf sha m" and "\<nexists>t. op = Remove_all t"
  shows "keeps sha (concerns m op) m (run G sha starts op m)"
proof (cases op)
  case (Use now h fn)
  with assms(1) show ?thesis
    by (auto simp: handle_Execute_def split: option.splits prod.splits intro: put_back_keeps)
next
  case (Look now h)
  with assms(1) show ?thesis
    by (auto simp: handle_State_def split: option.splits prod.splits intro: put_back_keeps)
next
  case (Listen l aware)
  with assms show ?thesis
    by (auto simp: RegisterStateChangeListener_def RegisterTenantStateChangeListener_def keeps_def mg_wf_def slot_ok_def
        only_def breaker_of_def split: option.splits)
qed (use assms in \<open>auto intro: getOrCreate_keeps reset_keeps ResetTenant_keeps execute_keeps isHealthy_keeps healthCheckLoop_keeps\<close>)

lemma run_ok:
  assumes "mg_wf sha m"
  shows "mg_wf sha (fst (run G sha starts op m)) \<and> only (concerns m op) m (fst (run G sha starts op m)) \<and>
    notice_about ` set (snd (run G sha starts op m)) \<subseteq> concerns m op"
proof (cases "\<exists>t. op = Remove_all t")
  case True
  with assms show ?thesis
    by (auto simp: RemoveTenant_def mg_wf_def slot_ok_def only_def breaker_of_def split: sum.splits if_splits)
next
  case False
  with run_keeps [OF assms False] show ?thesis by (simp add: keeps_def)
qed

text \<open>The managers that calls can make of a new one.\<close>

definition history ::
  "('b, 'a) gobreaker \<Rightarrow> (string \<Rightarrow> string) \<Rightarrow> (notice \<Rightarrow> bool) \<Rightarrow> bool \<Rightarrow> 'a breaker_op list \<Rightarrow> 'b manager" where
  "history G sha starts metrics ops = foldl (\<lambda>m op. fst (run G sha starts op m)) (NewManager metrics) ops"

lemma history_wf: "mg_wf sha (history G sha starts metrics ops)"
proof (induction ops rule: rev_induct)
  case Nil
  show ?case by (simp add: history_def mg_wf_def NewManager_def)
next
  case (snoc op ops)
  then show ?case using run_ok [of sha "history G sha starts metrics ops" G starts op]
    by (simp add: history_def)
qed

text \<open>
  C25. The breakers of different services and tenants are kept apart, over the whole life of a manager:
  every registered breaker was made with the settings for the identity and the validated configuration
  it is registered with, and no call, not even through an old handle, touches the registration or the breaker of another
  identity, changes the configuration of a breaker that stays, or causes a notice about another identity. A health
  checker's turn touches only the breakers without a tenant of the services it checks.
\<close>

theorem breakers_kept_apart:
  "mg_wf sha (history G sha starts metrics ops) \<and>
   only (concerns (history G sha starts metrics ops) op) (history G sha starts metrics ops)
     (fst (run G sha starts op (history G sha starts metrics ops))) \<and>
   notice_about ` set (snd (run G sha starts op (history G sha starts metrics ops)))
     \<subseteq> concerns (history G sha starts metrics ops) op"
  using run_ok [OF history_wf] history_wf by blast

subsection \<open>Tripping\<close>

text \<open>A registered configuration whose ratio is not a number is a mismatch for the very same configuration.\<close>

lemma not_a_number_mismatch:
  assumes "mg_slots m (t, s) = Some slot" and "sl_config slot = c" and "FailureRatio c = Not_a_number"
    and "validateBreakerIdentity t s aware = Inr (t, s)"
  shows "fst (getOrCreate G sha t s c aware m) = Inl ErrConfigMismatch"
  using assms by (simp add: getOrCreate_def config_differs_def)

text \<open>It is accepted, and by itself never trips, however many requests fail.\<close>

theorem not_a_number_never_trips:
  "Validate \<lparr>MaxRequests = k, Interval = 0, Timeout = 0, ConsecutiveFailures = 0, FailureRatio = Not_a_number, MinRequests = Suc n\<rparr> = Inr () \<and>
   \<not> readyToTrip \<lparr>MaxRequests = k, Interval = 0, Timeout = 0, ConsecutiveFailures = 0, FailureRatio = Not_a_number, MinRequests = Suc n\<rparr> counts"
  by (simp add: Validate_def readyToTrip_def ratio_less_def ratio_greater_def ratio_at_most_def)

text \<open>Every other accepted configuration trips once enough requests have failed in a row.\<close>

theorem accepted_config_trips:
  assumes "Validate c = Inr ()" and "FailureRatio c \<noteq> Not_a_number"
    and "Requests counts = n" and "TotalFailures counts = n" and "cn_ConsecutiveFailures counts = n"
    and "0 < n" and "max (ConsecutiveFailures c) (MinRequests c) \<le> n"
  shows "readyToTrip c counts"
  using assms by (cases "FailureRatio c")
    (auto simp: Validate_def readyToTrip_def ratio_less_def ratio_greater_def ratio_at_most_def DivideFloat64OrZero_def split: if_splits)

end
