(* ===== verification/Rabbit_Publisher.thy ===== *)
theory Rabbit_Publisher
  imports Backoff
begin

text \<open>
  \<open>commons/rabbitmq/publisher.go\<close>: the publisher that waits for the broker's confirmation of each message,
  with its monitor of the channel and the recovery. Every goroutine takes steps between those of the others:
  what holds \<open>publishMu\<close>, except for the wait for a confirmation, is one step, and so is every section under \<open>mu\<close>.
  Logging is left out, and time: a timer may fire at any moment. A publisher comes from
  its constructor, so its signals are never nil.
\<close>

subsection \<open>Channels and the publisher\<close>

text \<open>
  A channel of the package amqp091: whether it can announce returned messages, enters confirm mode and
  closes without an error, the published messages that the broker has not settled, with their mandatory flag,
  and the buffered confirmations and returns. Messages are numbered in the order of their publishing.
  A channel that closes closes its listeners' channels too, whose buffered entries can still be read.
\<close>

record amqp_chan =
  ac_notifies :: bool
  ac_confirmable :: bool
  ac_closes :: bool
  ac_open :: bool
  ac_unsettled :: "(nat \<times> bool) list"
  ac_confirms :: "(nat \<times> bool) list"
  ac_returns :: "nat list"

datatype HealthState = HealthStateConnected | HealthStateReconnecting | HealthStateDegraded | HealthStateDisconnected

datatype rabbit_error =
    ErrChannelRequired | ErrPublisherNotReady | ErrConfirmModeUnavailable | ErrPublishNacked | ErrPublishReturned
  | ErrConfirmTimeout | ErrReturnNotificationUnsupported | ErrPublisherClosed | ErrRecoveryExhausted
  | ErrReconnectAfterClose | ErrReconnectWhileOpen | Publish_failed | Context_done | Close_failed

definition DefaultConfirmTimeout :: int where "DefaultConfirmTimeout = 5000000000"

definition DefaultMaxRecoveryAttempts :: int where "DefaultMaxRecoveryAttempts = 10"

definition DefaultRecoveryBackoffInitial :: int where "DefaultRecoveryBackoffInitial = 1000000000"

definition DefaultRecoveryBackoffMax :: int where "DefaultRecoveryBackoffMax = 30000000000"

text \<open>Of the provider and the callback, whether they are set.\<close>

record recoveryConfig =
  rc_provider :: bool
  rc_healthCallback :: bool
  rc_maxAttempts :: int
  rc_backoffInitial :: int
  rc_backoffMax :: int

text \<open>Channels and signals are numbers; \<open>invalidConfirmTimeout\<close> holds the value when it is set.\<close>

record ConfirmablePublisher =
  pub_ch :: "nat option"
  pub_confirms :: nat
  pub_returns :: nat
  pub_closedCh :: nat
  pub_done :: nat
  confirmTimeout :: int
  invalidConfirmTimeout :: "int option"
  pub_recovery :: "recoveryConfig option"
  pub_health :: HealthState
  pub_closed :: bool
  pub_shutdown :: bool
  pub_recoveryExhausted :: bool

subsection \<open>Options\<close>

definition WithConfirmTimeout :: "int \<Rightarrow> ConfirmablePublisher \<Rightarrow> ConfirmablePublisher" where
  "WithConfirmTimeout timeout pub =
     (if 0 < timeout then pub\<lparr>confirmTimeout := timeout, invalidConfirmTimeout := None\<rparr>
      else pub\<lparr>invalidConfirmTimeout := Some timeout\<rparr>)"

definition ensureRecoveryConfig :: "ConfirmablePublisher \<Rightarrow> recoveryConfig" where
  "ensureRecoveryConfig pub =
     (case pub_recovery pub of
        Some r \<Rightarrow> r
      | None \<Rightarrow> \<lparr>rc_provider = False, rc_healthCallback = False, rc_maxAttempts = DefaultMaxRecoveryAttempts,
                 rc_backoffInitial = DefaultRecoveryBackoffInitial, rc_backoffMax = DefaultRecoveryBackoffMax\<rparr>)"

definition WithAutoRecovery :: "bool \<Rightarrow> ConfirmablePublisher \<Rightarrow> ConfirmablePublisher" where
  "WithAutoRecovery has_provider pub =
     (if \<not> has_provider then pub else pub\<lparr>pub_recovery := Some ((ensureRecoveryConfig pub)\<lparr>rc_provider := True\<rparr>)\<rparr>)"

definition WithMaxRecoveryAttempts :: "int \<Rightarrow> ConfirmablePublisher \<Rightarrow> ConfirmablePublisher" where
  "WithMaxRecoveryAttempts maxAttempts pub =
     (if maxAttempts \<le> 0 then pub else pub\<lparr>pub_recovery := Some ((ensureRecoveryConfig pub)\<lparr>rc_maxAttempts := maxAttempts\<rparr>)\<rparr>)"

definition WithRecoveryBackoff :: "int \<Rightarrow> int \<Rightarrow> ConfirmablePublisher \<Rightarrow> ConfirmablePublisher" where
  "WithRecoveryBackoff initial maxBackoff pub =
     (if initial \<le> 0 \<or> maxBackoff \<le> 0 then pub
      else if maxBackoff < initial then pub
      else pub\<lparr>pub_recovery := Some ((ensureRecoveryConfig pub)\<lparr>rc_backoffInitial := initial, rc_backoffMax := maxBackoff\<rparr>)\<rparr>)"

definition WithHealthCallback :: "bool \<Rightarrow> ConfirmablePublisher \<Rightarrow> ConfirmablePublisher" where
  "WithHealthCallback has_fn pub =
     (if \<not> has_fn then pub else pub\<lparr>pub_recovery := Some ((ensureRecoveryConfig pub)\<lparr>rc_healthCallback := True\<rparr>)\<rparr>)"

datatype ConfirmablePublisherOption =
    Confirm_timeout int | Auto_recovery bool | Max_recovery_attempts int | Recovery_backoff int int
  | Health_callback bool | Nil_option

fun apply_option :: "ConfirmablePublisherOption \<Rightarrow> ConfirmablePublisher \<Rightarrow> ConfirmablePublisher" where
  "apply_option (Confirm_timeout t) pub = WithConfirmTimeout t pub"
| "apply_option (Auto_recovery b) pub = WithAutoRecovery b pub"
| "apply_option (Max_recovery_attempts n) pub = WithMaxRecoveryAttempts n pub"
| "apply_option (Recovery_backoff i m) pub = WithRecoveryBackoff i m pub"
| "apply_option (Health_callback b) pub = WithHealthCallback b pub"
| "apply_option Nil_option pub = pub"

subsection \<open>The state that goroutines share\<close>

text \<open>
  Where a goroutine of the publisher is: watching a channel until a signal; about to report the closed
  channel; about to prepare the recovery and to read its stop signal; in an attempt before the back-off, in
  it, asking for a channel, reconnecting with it; about to report success or the end.
\<close>

datatype task =
    Watch nat nat | Announce bool | Prepare | Begin | Try nat nat | Pause nat nat | Provide nat nat
  | Reconnect_with nat nat amqp_chan | Up | Down

text \<open>A publish that waits for its confirmation, with what it read under the lock.\<close>

record flight =
  fl_message :: nat
  fl_ch :: nat
  fl_confirms :: nat
  fl_returns :: nat
  fl_closedCh :: nat

text \<open>
  \<open>w_closedChs\<close> and \<open>w_dones\<close> are the signals that were closed, \<open>w_delivered\<close> the messages that the broker acknowledged after
  it had routed them, \<open>w_calls\<close> the calls of the health callback.
\<close>

record world =
  w_pub :: ConfirmablePublisher
  w_chans :: "amqp_chan list"
  w_closedChs :: "nat set"
  w_dones :: "nat set"
  w_signals :: nat
  w_tasks :: "task list"
  w_flight :: "flight option"
  w_sent :: nat
  w_delivered :: "nat set"
  w_calls :: "HealthState list"

definition upd_pub :: "(ConfirmablePublisher \<Rightarrow> ConfirmablePublisher) \<Rightarrow> world \<Rightarrow> world" where
  "upd_pub f w = w\<lparr>w_pub := f (w_pub w)\<rparr>"

definition upd_chan :: "nat \<Rightarrow> (amqp_chan \<Rightarrow> amqp_chan) \<Rightarrow> world \<Rightarrow> world" where
  "upd_chan c f w = w\<lparr>w_chans := (w_chans w)[c := f (w_chans w ! c)]\<rparr>"

definition returnNotifierFor :: "amqp_chan \<Rightarrow> rabbit_error + unit" where
  "returnNotifierFor ch = (if ac_notifies ch then Inr () else Inl ErrReturnNotificationUnsupported)"

text \<open>Closing a channel that is closed is an error of the package.\<close>

definition chan_Close :: "nat \<Rightarrow> world \<Rightarrow> bool \<times> world" where
  "chan_Close c w =
     (ac_open (w_chans w ! c) \<and> ac_closes (w_chans w ! c), upd_chan c (\<lambda>ch. ch\<lparr>ac_open := False\<rparr>) w)"

definition takeReturn :: "nat \<Rightarrow> world \<Rightarrow> nat option \<times> world" where
  "takeReturn c w =
     (case ac_returns (w_chans w ! c) of
        [] \<Rightarrow> (None, w)
      | r # rest \<Rightarrow> (Some r, upd_chan c (\<lambda>ch. ch\<lparr>ac_returns := rest\<rparr>) w))"

definition drainReturns :: "nat \<Rightarrow> world \<Rightarrow> world" where
  "drainReturns c w = upd_chan c (\<lambda>ch. ch\<lparr>ac_returns := []\<rparr>) w"

definition drainConfirms :: "nat \<Rightarrow> world \<Rightarrow> world" where
  "drainConfirms c w = upd_chan c (\<lambda>ch. ch\<lparr>ac_confirms := []\<rparr>) w"

definition close_closedCh :: "world \<Rightarrow> world" where
  "close_closedCh w = w\<lparr>w_closedChs := insert (pub_closedCh (w_pub w)) (w_closedChs w)\<rparr>"

definition safeCloseSignal :: "nat \<Rightarrow> world \<Rightarrow> world" where
  "safeCloseSignal s w = w\<lparr>w_dones := insert s (w_dones w)\<rparr>"

definition startCloseMonitor :: "nat \<Rightarrow> world \<Rightarrow> world" where
  "startCloseMonitor c w = w\<lparr>w_tasks := w_tasks w @ [Watch c (pub_done (w_pub w))]\<rparr>"

definition emitHealthState :: "HealthState \<Rightarrow> world \<Rightarrow> world" where
  "emitHealthState st w =
     (let w = upd_pub (\<lambda>p. p\<lparr>pub_health := st\<rparr>) w in
      case pub_recovery (w_pub w) of
        None \<Rightarrow> w
      | Some r \<Rightarrow> if rc_healthCallback r then w\<lparr>w_calls := w_calls w @ [st]\<rparr> else w)"

definition NewConfirmablePublisherFromChannel :: "amqp_chan option \<Rightarrow> ConfirmablePublisherOption list \<Rightarrow> rabbit_error + world" where
  "NewConfirmablePublisherFromChannel ch opts =
     (case ch of
        None \<Rightarrow> Inl ErrChannelRequired
      | Some c \<Rightarrow>
          bind_res (returnNotifierFor c) (\<lambda>_.
            if \<not> ac_confirmable c then Inl ErrConfirmModeUnavailable
            else Inr (startCloseMonitor 0
              \<lparr>w_pub = foldl (\<lambda>p opt. apply_option opt p)
                 \<lparr>pub_ch = Some 0, pub_confirms = 0, pub_returns = 0, pub_closedCh = 0, pub_done = 1,
                  confirmTimeout = DefaultConfirmTimeout, invalidConfirmTimeout = None, pub_recovery = None,
                  pub_health = HealthStateConnected, pub_closed = False, pub_shutdown = False, pub_recoveryExhausted = False\<rparr> opts,
               w_chans = [c], w_closedChs = {}, w_dones = {}, w_signals = 2, w_tasks = [], w_flight = None,
               w_sent = 0, w_delivered = {}, w_calls = []\<rparr>)))"

subsection \<open>Publishing\<close>

definition isConfirmStreamCorrupted :: "rabbit_error \<Rightarrow> bool" where
  "isConfirmStreamCorrupted err \<longleftrightarrow> err = ErrConfirmTimeout \<or> err = Context_done"

definition invalidateChannel :: "nat \<Rightarrow> world \<Rightarrow> world" where
  "invalidateChannel ch w =
     snd (chan_Close ch (close_closedCh (emitHealthState HealthStateDegraded
       (upd_pub (\<lambda>p. p\<lparr>pub_closed := True, pub_ch := None\<rparr>) w))))"

text \<open>
  The case that the \<open>select\<close> takes, if it is ready: a confirmation or the end of their channel, the closed
  signal, the timer, or the context.
\<close>

datatype select_case = Took_confirm | Took_closed | Took_timeout | Took_context

definition waitForConfirm :: "select_case \<Rightarrow> nat \<Rightarrow> nat \<Rightarrow> world \<Rightarrow> ((rabbit_error + unit) \<times> world) option" where
  "waitForConfirm cs confirms closedCh w =
     (case cs of
        Took_confirm \<Rightarrow>
          (case ac_confirms (w_chans w ! confirms) of
             (_, ack) # rest \<Rightarrow>
               Some (if \<not> ack then Inl ErrPublishNacked else Inr (), upd_chan confirms (\<lambda>ch. ch\<lparr>ac_confirms := rest\<rparr>) w)
           | [] \<Rightarrow> if ac_open (w_chans w ! confirms) then None else Some (Inl ErrPublisherClosed, w))
      | Took_closed \<Rightarrow> if closedCh \<in> w_closedChs w then Some (Inl ErrPublisherClosed, w) else None
      | Took_timeout \<Rightarrow> Some (Inl ErrConfirmTimeout, w)
      | Took_context \<Rightarrow> Some (Inl Context_done, w))"

text \<open>
  \<open>PublishAndWaitConfirm\<close> up to its wait, and from there; \<open>sent\<close> is whether an open channel accepts the message.
  The mandatory flag is always set.
\<close>

definition publish_begin :: "bool \<Rightarrow> world \<Rightarrow> (rabbit_error + flight) \<times> world" where
  "publish_begin sent w =
     (let pub = w_pub w; m = w_sent w; w1 = w\<lparr>w_sent := Suc m\<rparr> in
      if pub_closed pub then (Inl (if pub_recoveryExhausted pub then ErrRecoveryExhausted else ErrPublisherClosed), w1)
      else (case pub_ch pub of
          None \<Rightarrow> (Inl ErrPublisherNotReady, w1)
        | Some ch \<Rightarrow>
            (let w2 = drainReturns (pub_returns pub) w1 in
             if \<not> ac_open (w_chans w2 ! ch) \<or> \<not> sent then (Inl Publish_failed, w2)
             else (Inr \<lparr>fl_message = m, fl_ch = ch, fl_confirms = pub_confirms pub, fl_returns = pub_returns pub, fl_closedCh = pub_closedCh pub\<rparr>,
                   upd_chan ch (\<lambda>c. c\<lparr>ac_unsettled := ac_unsettled c @ [(m, True)]\<rparr>) w2))))"

definition publish_finish :: "select_case \<Rightarrow> flight \<Rightarrow> world \<Rightarrow> ((rabbit_error + unit) \<times> world) option" where
  "publish_finish cs f w =
     (case waitForConfirm cs (fl_confirms f) (fl_closedCh f) w of
        None \<Rightarrow> None
      | Some (Inl e, w1) \<Rightarrow> Some (Inl e, if isConfirmStreamCorrupted e then invalidateChannel (fl_ch f) w1 else w1)
      | Some (Inr _, w1) \<Rightarrow>
          (case takeReturn (fl_returns f) w1 of
             (Some _, w2) \<Rightarrow> Some (Inl ErrPublishReturned, w2)
           | (None, w2) \<Rightarrow> Some (Inr (), w2)))"

subsection \<open>Closing and reconnecting\<close>

definition pub_Close :: "world \<Rightarrow> (rabbit_error + unit) \<times> world" where
  "pub_Close w =
     (if pub_shutdown (w_pub w) then (Inr (), w)
      else
        let currentCh = pub_ch (w_pub w);
            w1 = upd_pub (\<lambda>p. p\<lparr>pub_shutdown := True, pub_closed := True, pub_recoveryExhausted := False\<rparr>) w;
            w2 = close_closedCh (safeCloseSignal (pub_done (w_pub w1)) w1);
            (ok, w3) = (case currentCh of None \<Rightarrow> (True, w2) | Some c \<Rightarrow> chan_Close c w2)
        in if \<not> ok then (Inl Close_failed, w3)
           else (Inr (), emitHealthState HealthStateDisconnected (drainConfirms (pub_confirms (w_pub w3)) w3)))"

definition Reconnect :: "nat option \<Rightarrow> world \<Rightarrow> (rabbit_error + unit) \<times> world" where
  "Reconnect ch w =
     (case ch of
        None \<Rightarrow> (Inl ErrChannelRequired, w)
      | Some c \<Rightarrow>
          if \<not> pub_closed (w_pub w) then (Inl ErrReconnectWhileOpen, w)
          else if pub_shutdown (w_pub w) then (Inl ErrReconnectAfterClose, w)
          else (case returnNotifierFor (w_chans w ! c) of
              Inl e \<Rightarrow> (Inl e, w)
            | Inr _ \<Rightarrow>
                if \<not> ac_confirmable (w_chans w ! c) then (Inl ErrConfirmModeUnavailable, w)
                else
                  let w1 = upd_pub (\<lambda>p. p\<lparr>pub_ch := Some c, pub_confirms := c, pub_returns := c, pub_closedCh := w_signals w,
                             pub_closed := False, pub_recoveryExhausted := False\<rparr>) (w\<lparr>w_signals := Suc (w_signals w)\<rparr>)
                  in (Inr (), emitHealthState HealthStateConnected (startCloseMonitor c w1))))"

subsection \<open>Recovery\<close>

definition handleMonitoredClose :: "world \<Rightarrow> task \<times> world" where
  "handleMonitoredClose w =
     (let hasRecovery = (case pub_recovery (w_pub w) of None \<Rightarrow> False | Some r \<Rightarrow> rc_provider r)
      in (Announce hasRecovery, close_closedCh (upd_pub (\<lambda>p. p\<lparr>pub_closed := True\<rparr>) w)))"

definition prepareForRecovery :: "world \<Rightarrow> bool \<times> world" where
  "prepareForRecovery w =
     (if pub_shutdown (w_pub w) then (False, w)
      else
        let currentCh = pub_ch (w_pub w);
            w1 = upd_pub (\<lambda>p. p\<lparr>pub_closed := True, pub_recoveryExhausted := False, pub_ch := None\<rparr>) w;
            w2 = close_closedCh (safeCloseSignal (pub_done (w_pub w1)) w1);
            w3 = (case currentCh of None \<Rightarrow> w2 | Some c \<Rightarrow> snd (chan_Close c w2));
            w4 = drainConfirms (pub_confirms (w_pub w3)) w3
        in (True, upd_pub (\<lambda>p. p\<lparr>pub_done := w_signals w\<rparr>) (w4\<lparr>w_signals := Suc (w_signals w)\<rparr>)))"

text \<open>The pause before an attempt; the random draws are arguments.\<close>

definition recovery_delay :: "(int \<Rightarrow> int \<Rightarrow> int) \<Rightarrow> (int \<Rightarrow> int option) \<Rightarrow> int option \<Rightarrow> recoveryConfig \<Rightarrow> int \<Rightarrow> int" where
  "recovery_delay gen draw seed recovery attempt =
     (let delay = ExponentialWithJitter gen draw seed (rc_backoffInitial recovery) attempt in
      if rc_backoffMax recovery < delay then FullJitter gen draw seed (rc_backoffMax recovery) else delay)"

text \<open>
  What a goroutine waits for: that its next step is possible, its stop signal, or the provider, which fails, returns
  nothing, or returns a channel that nobody used.
\<close>

datatype move = Go | Stop | Got "amqp_chan option option"

definition fresh_chan :: "amqp_chan \<Rightarrow> bool" where
  "fresh_chan c \<longleftrightarrow> ac_unsettled c = [] \<and> ac_confirms c = [] \<and> ac_returns c = []"

definition max_attempts :: "world \<Rightarrow> nat" where
  "max_attempts w = (case pub_recovery (w_pub w) of None \<Rightarrow> 0 | Some r \<Rightarrow> nat (rc_maxAttempts r))"

definition held :: "world \<Rightarrow> bool" where
  "held w \<longleftrightarrow> w_flight w \<noteq> None"

text \<open>A channel gets its number when it is handed over.\<close>

definition hand_over :: "amqp_chan \<Rightarrow> world \<Rightarrow> (rabbit_error + unit) \<times> world" where
  "hand_over c w = Reconnect (Some (length (w_chans w))) (w\<lparr>w_chans := w_chans w @ [c]\<rparr>)"

definition tryReconnectChannel :: "nat \<Rightarrow> nat \<Rightarrow> amqp_chan \<Rightarrow> world \<Rightarrow> task \<times> world" where
  "tryReconnectChannel n stop c w =
     (case hand_over c w of
        (Inr _, w1) \<Rightarrow> (Up, w1)
      | (Inl _, w1) \<Rightarrow> (Try (Suc n) stop, snd (chan_Close (length (w_chans w)) w1)))"

fun task_step :: "move \<Rightarrow> task \<Rightarrow> world \<Rightarrow> (task option \<times> world) option" where
  "task_step mv (Watch c d) w =
     (case mv of
        Go \<Rightarrow> if ac_open (w_chans w ! c) then None else (case handleMonitoredClose w of (t, w1) \<Rightarrow> Some (Some t, w1))
      | Stop \<Rightarrow> if d \<in> w_dones w then Some (None, w) else None
      | Got _ \<Rightarrow> None)"
| "task_step mv (Announce hasRecovery) w =
     (if hasRecovery then Some (Some Prepare, emitHealthState HealthStateReconnecting w)
      else Some (None, emitHealthState HealthStateDisconnected w))"
| "task_step mv Prepare w =
     (if held w then None
      else (case prepareForRecovery w of (ready, w1) \<Rightarrow> Some (Some (if ready then Begin else Down), w1)))"
| "task_step mv Begin w = Some (Some (Try 0 (pub_done (w_pub w))), w)"
| "task_step mv (Try n stop) w =
     (if max_attempts w \<le> n then Some (Some Down, upd_pub (\<lambda>p. p\<lparr>pub_recoveryExhausted := True\<rparr>) w)
      else if stop \<in> w_dones w then Some (Some Down, w)
      else Some (Some (Pause n stop), w))"
| "task_step mv (Pause n stop) w =
     (case mv of
        Go \<Rightarrow> Some (Some (Provide n stop), w)
      | Stop \<Rightarrow> if stop \<in> w_dones w then Some (Some Down, w) else None
      | Got _ \<Rightarrow> None)"
| "task_step mv (Provide n stop) w =
     (case mv of
        Got (Some (Some c)) \<Rightarrow>
          if fresh_chan c then Some (Some (Reconnect_with n stop c), w) else None
      | Got _ \<Rightarrow> Some (Some (Try (Suc n) stop), w)
      | _ \<Rightarrow> None)"
| "task_step mv (Reconnect_with n stop c) w =
     (if held w then None else (case tryReconnectChannel n stop c w of (t, w1) \<Rightarrow> Some (Some t, w1)))"
| "task_step mv Up w = Some (None, emitHealthState HealthStateConnected w)"
| "task_step mv Down w = Some (None, emitHealthState HealthStateDisconnected w)"

subsection \<open>Reading the publisher\<close>

definition pub_Channel :: "world \<Rightarrow> nat option" where
  "pub_Channel w = (if pub_closed (w_pub w) then None else pub_ch (w_pub w))"

definition ChannelOrError :: "world \<Rightarrow> rabbit_error + nat" where
  "ChannelOrError w =
     (if pub_closed (w_pub w) then Inl ErrPublisherClosed
      else (case pub_ch (w_pub w) of None \<Rightarrow> Inl ErrPublisherNotReady | Some c \<Rightarrow> Inr c))"

subsection \<open>All steps\<close>

text \<open>
  The broker settles the oldest message of a channel: it returns a mandatory one that no queue takes before
  it confirms it. A channel may break at any time. \<open>Publish\<close> and the others come from callers.
\<close>

datatype event =
    Publish bool | Finish select_case | Settle nat bool bool | Break nat | Close_call | Reconnect_call "amqp_chan option"
  | Turn nat move

definition broker_settles :: "nat \<Rightarrow> bool \<Rightarrow> bool \<Rightarrow> world \<Rightarrow> world option" where
  "broker_settles c routed ack w =
     (if length (w_chans w) \<le> c \<or> \<not> ac_open (w_chans w ! c) then None
      else (case ac_unsettled (w_chans w ! c) of
          [] \<Rightarrow> None
        | (m, mandatory) # rest \<Rightarrow>
            Some ((upd_chan c (\<lambda>ch. ch\<lparr>ac_unsettled := rest,
                     ac_returns := ac_returns ch @ (if mandatory \<and> \<not> routed then [m] else []),
                     ac_confirms := ac_confirms ch @ [(m, ack)]\<rparr>) w)
                  \<lparr>w_delivered := (if ack \<and> routed then insert m (w_delivered w) else w_delivered w)\<rparr>)))"

text \<open>A step, if it is possible, with the message and the result of a publish that ends.\<close>

fun perform :: "event \<Rightarrow> world \<Rightarrow> (world \<times> (nat \<times> (rabbit_error + unit)) option) option" where
  "perform (Publish sent) w =
     (if held w then None
      else (case publish_begin sent w of
          (Inl e, w1) \<Rightarrow> Some (w1, Some (w_sent w, Inl e))
        | (Inr f, w1) \<Rightarrow> Some (w1\<lparr>w_flight := Some f\<rparr>, None)))"
| "perform (Finish cs) w =
     (case w_flight w of
        None \<Rightarrow> None
      | Some f \<Rightarrow>
          (case publish_finish cs f w of
             None \<Rightarrow> None
           | Some (r, w1) \<Rightarrow> Some (w1\<lparr>w_flight := None\<rparr>, Some (fl_message f, r))))"
| "perform (Settle c routed ack) w = map_option (\<lambda>w. (w, None)) (broker_settles c routed ack w)"
| "perform (Break c) w = (if length (w_chans w) \<le> c then None else Some (upd_chan c (\<lambda>ch. ch\<lparr>ac_open := False\<rparr>) w, None))"
| "perform Close_call w = (if held w then None else Some (snd (pub_Close w), None))"
| "perform (Reconnect_call ch) w =
     (if held w then None
      else (case ch of
          None \<Rightarrow> Some (snd (Reconnect None w), None)
        | Some c \<Rightarrow>
            if fresh_chan c then Some (snd (hand_over c w), None) else None))"
| "perform (Turn i mv) w =
     (if length (w_tasks w) \<le> i then None
      else (case task_step mv (w_tasks w ! i) w of
          None \<Rightarrow> None
        | Some (t, w1) \<Rightarrow>
            Some (w1\<lparr>w_tasks := take i (w_tasks w1) @ (case t of None \<Rightarrow> [] | Some t \<Rightarrow> [t]) @ drop (Suc i) (w_tasks w1)\<rparr>, None)))"

inductive reachable :: "world \<Rightarrow> bool" where
  constructed: "fresh_chan c \<Longrightarrow> NewConfirmablePublisherFromChannel (Some c) opts = Inr w \<Longrightarrow> reachable w"
| performed: "reachable w \<Longrightarrow> perform ev w = Some (w', r) \<Longrightarrow> reachable w'"

end
