(* ===== verification/Rabbit_Publisher_Laws.thy ===== *)
theory Rabbit_Publisher_Laws
  imports Rabbit_Publisher
begin

text \<open>
  Laws of the confirming publisher: what a result says about the message, however goroutines, the
  broker and the channel interleave; that closing is final; that every recovery ends.
\<close>

subsection \<open>The streams of the channel\<close>

text \<open>
  The channel of a publish that waits: its message is unsettled, or settled with its confirmation as the only
  one, behind the return of a message that was not routed.
\<close>

definition awaiting :: "amqp_chan \<Rightarrow> nat \<Rightarrow> nat set \<Rightarrow> bool" where
  "awaiting ch m delivered \<longleftrightarrow>
     (ac_unsettled ch = [(m, True)] \<and> ac_confirms ch = [] \<and> ac_returns ch = [] \<and> m \<notin> delivered) \<or>
     (ac_unsettled ch = [] \<and>
        (\<exists>ack. ac_confirms ch = [(m, ack)] \<and>
           (ac_returns ch = [] \<and> (ack \<longrightarrow> m \<in> delivered) \<or> ac_returns ch = [m] \<and> m \<notin> delivered)))"

definition idle :: "amqp_chan \<Rightarrow> bool" where
  "idle ch \<longleftrightarrow> ac_unsettled ch = [] \<and> ac_confirms ch = []"

definition flight_ok :: "world \<Rightarrow> flight \<Rightarrow> bool" where
  "flight_ok w f \<longleftrightarrow>
     fl_confirms f = fl_ch f \<and> fl_returns f = fl_ch f \<and> fl_ch f < length (w_chans w) \<and> fl_closedCh f = pub_closedCh (w_pub w) \<and>
     fl_message f < w_sent w \<and>
     (\<not> pub_closed (w_pub w) \<longrightarrow> pub_ch (w_pub w) = Some (fl_ch f)) \<and>
     awaiting (w_chans w ! fl_ch f) (fl_message f) (w_delivered w) \<and>
     (\<forall>i < length (w_chans w). i \<noteq> fl_ch f \<longrightarrow> fl_message f \<notin> fst ` set (ac_unsettled (w_chans w ! i)))"

definition pub_ok :: "world \<Rightarrow> bool" where
  "pub_ok w \<longleftrightarrow>
     (\<forall>c. \<not> pub_closed (w_pub w) \<longrightarrow> pub_ch (w_pub w) = Some c \<longrightarrow>
        pub_confirms (w_pub w) = c \<and> pub_returns (w_pub w) = c \<and> c < length (w_chans w) \<and>
        (w_flight w = None \<longrightarrow> ac_open (w_chans w ! c) \<longrightarrow> idle (w_chans w ! c))) \<and>
     (pub_closedCh (w_pub w) \<in> w_closedChs w \<longrightarrow> pub_closed (w_pub w)) \<and>
     pub_closedCh (w_pub w) < w_signals w \<and> (\<forall>s \<in> w_closedChs w. s < w_signals w) \<and>
     (pub_shutdown (w_pub w) \<longrightarrow> pub_closed (w_pub w))"

definition numbers_ok :: "world \<Rightarrow> bool" where
  "numbers_ok w \<longleftrightarrow>
     (\<forall>i < length (w_chans w). \<forall>m \<in> fst ` set (ac_unsettled (w_chans w ! i)). m < w_sent w) \<and>
     (\<forall>m \<in> w_delivered w. m < w_sent w)"

definition streams_ok :: "world \<Rightarrow> bool" where
  "streams_ok w \<longleftrightarrow> pub_ok w \<and> numbers_ok w \<and> (case w_flight w of None \<Rightarrow> True | Some f \<Rightarrow> flight_ok w f)"

lemmas ok_defs = streams_ok_def pub_ok_def numbers_ok_def flight_ok_def

subsection \<open>What keeps the streams\<close>

lemma emit_fields [simp]:
  "w_chans (emitHealthState st w) = w_chans w" "w_closedChs (emitHealthState st w) = w_closedChs w"
  "w_dones (emitHealthState st w) = w_dones w" "w_signals (emitHealthState st w) = w_signals w"
  "w_tasks (emitHealthState st w) = w_tasks w" "w_flight (emitHealthState st w) = w_flight w"
  "w_sent (emitHealthState st w) = w_sent w" "w_delivered (emitHealthState st w) = w_delivered w"
  "w_pub (emitHealthState st w) = (w_pub w)\<lparr>pub_health := st\<rparr>"
  by (simp_all add: emitHealthState_def upd_pub_def Let_def split: option.splits)

lemma ok_emit [simp]: "streams_ok (emitHealthState st w) = streams_ok w"
  by (simp add: ok_defs cong: option.case_cong)

lemma ok_tasks [simp]: "streams_ok (w\<lparr>w_tasks := ts\<rparr>) = streams_ok w"
  by (simp add: ok_defs cong: option.case_cong)

lemma ok_dones [simp]: "streams_ok (safeCloseSignal s w) = streams_ok w"
  by (simp add: ok_defs safeCloseSignal_def cong: option.case_cong)

lemma ok_monitor [simp]: "streams_ok (startCloseMonitor c w) = streams_ok w"
  by (simp add: startCloseMonitor_def)

lemma ok_exhausted [simp]: "streams_ok (upd_pub (\<lambda>p. p\<lparr>pub_recoveryExhausted := b\<rparr>) w) = streams_ok w"
  by (simp add: ok_defs upd_pub_def cong: option.case_cong)

lemma ok_new_done:
  "streams_ok w \<Longrightarrow> streams_ok (upd_pub (\<lambda>p. p\<lparr>pub_done := s\<rparr>) (w\<lparr>w_signals := Suc (w_signals w)\<rparr>))"
  by (auto simp: ok_defs upd_pub_def less_Suc_eq cong: option.case_cong split: option.splits)

text \<open>A publisher may be marked closed at any time, and let go of its channel then.\<close>

lemma ok_closed:
  assumes "streams_ok w" and "pub_closed p" and "pub_closedCh p = pub_closedCh (w_pub w)"
  shows "streams_ok (w\<lparr>w_pub := p\<rparr>)"
  using assms by (auto simp: ok_defs split: option.splits)

lemma ok_close_closedCh:
  "streams_ok w \<Longrightarrow> pub_closed (w_pub w) \<Longrightarrow> streams_ok (close_closedCh w)"
  by (auto simp: ok_defs close_closedCh_def split: option.splits)

lemma awaiting_open [simp]: "awaiting (ch\<lparr>ac_open := b\<rparr>) m d = awaiting ch m d"
  by (simp add: awaiting_def)

lemma idle_open [simp]: "idle (ch\<lparr>ac_open := b\<rparr>) = idle ch"
  by (simp add: idle_def)

lemma upd_chan_fields [simp]:
  "w_pub (upd_chan c f w) = w_pub w" "w_closedChs (upd_chan c f w) = w_closedChs w" "w_dones (upd_chan c f w) = w_dones w"
  "w_signals (upd_chan c f w) = w_signals w" "w_tasks (upd_chan c f w) = w_tasks w" "w_flight (upd_chan c f w) = w_flight w"
  "w_sent (upd_chan c f w) = w_sent w" "w_delivered (upd_chan c f w) = w_delivered w"
  "length (w_chans (upd_chan c f w)) = length (w_chans w)"
  by (simp_all add: upd_chan_def)

lemma upd_chan_nth:
  "i < length (w_chans w) \<Longrightarrow> w_chans (upd_chan c f w) ! i = (if i = c then f (w_chans w ! c) else w_chans w ! i)"
  by (simp add: upd_chan_def nth_list_update)

lemma ok_break: "streams_ok w \<Longrightarrow> streams_ok (upd_chan c (\<lambda>ch. ch\<lparr>ac_open := False\<rparr>) w)"
  by (auto simp: ok_defs upd_chan_nth split: option.splits if_splits)

lemma ok_chan_Close: "streams_ok w \<Longrightarrow> streams_ok (snd (chan_Close c w))"
  by (simp add: chan_Close_def ok_break)

lemma ok_new_chan: "streams_ok w \<Longrightarrow> fresh_chan c \<Longrightarrow> streams_ok (w\<lparr>w_chans := w_chans w @ [c]\<rparr>)"
  by (auto simp: ok_defs nth_append fresh_chan_def less_Suc_eq split: option.splits if_splits)

lemma ok_drains:
  assumes "streams_ok w" and "w_flight w = None"
  shows "streams_ok (drainConfirms c w)" and "streams_ok (drainReturns c w)"
  using assms by (auto simp: ok_defs drainConfirms_def drainReturns_def upd_chan_nth idle_def split: if_splits)

subsection \<open>Every step keeps them\<close>

lemma publish_begin_ok:
  assumes "streams_ok w" and "w_flight w = None" and "publish_begin sent w = (r, w1)"
  shows "case r of Inl e \<Rightarrow> streams_ok w1 \<and> w_flight w1 = None | Inr f \<Rightarrow> streams_ok (w1\<lparr>w_flight := Some f\<rparr>)"
proof -
  have sent: "streams_ok (w\<lparr>w_sent := Suc n\<rparr>)" if "w_sent w \<le> n" for n
    using assms(1,2) that by (force simp: ok_defs)
  show ?thesis
  proof (cases "pub_closed (w_pub w) \<or> pub_ch (w_pub w) = None")
    case True
    with assms sent [of "w_sent w"] show ?thesis by (auto simp: publish_begin_def Let_def split: if_splits option.splits)
  next
    case False
    then obtain c where c: "pub_ch (w_pub w) = Some c" "\<not> pub_closed (w_pub w)" by blast
    with assms(1) have str: "pub_confirms (w_pub w) = c" "pub_returns (w_pub w) = c" "c < length (w_chans w)"
      "ac_open (w_chans w ! c) \<Longrightarrow> idle (w_chans w ! c)" using assms(2) by (auto simp: ok_defs)
    let ?w = "drainReturns c (w\<lparr>w_sent := Suc (w_sent w)\<rparr>)"
    have ok: "streams_ok ?w" using ok_drains(2) [OF sent [of "w_sent w"]] assms(2) by simp
    show ?thesis
    proof (cases "ac_open (w_chans ?w ! c) \<and> sent")
      case True
      then have "idle (w_chans w ! c)" using str by (auto simp: drainReturns_def upd_chan_nth)
      then have "streams_ok (upd_chan c (\<lambda>ch. ch\<lparr>ac_unsettled := ac_unsettled ch @ [(w_sent w, True)]\<rparr>) ?w
        \<lparr>w_flight := Some \<lparr>fl_message = w_sent w, fl_ch = c, fl_confirms = c, fl_returns = c, fl_closedCh = pub_closedCh (w_pub w)\<rparr>\<rparr>)"
        using assms(1) c str
        by (force simp: ok_defs drainReturns_def upd_chan_nth awaiting_def idle_def split: if_splits)
      with True c str assms(3) show ?thesis by (auto simp: publish_begin_def Let_def)
    next
      case False
      with ok c str assms(2,3) show ?thesis by (auto simp: publish_begin_def Let_def drainReturns_def)
    qed
  qed
qed

lemma ok_landed:
  assumes "streams_ok w" and "w_flight w = Some f"
    and "\<not> pub_closed (w_pub w) \<Longrightarrow> ac_open (w_chans w ! fl_ch f) \<Longrightarrow> idle (ch' (w_chans w ! fl_ch f))"
    and "\<And>ch. ac_unsettled (ch' ch) = ac_unsettled ch" and "\<And>ch. ac_open (ch' ch) = ac_open ch"
  shows "streams_ok (upd_chan (fl_ch f) ch' w\<lparr>w_flight := None\<rparr>)"
  using assms by (auto simp: ok_defs upd_chan_nth)

lemma invalidate_ok:
  assumes "streams_ok w"
  shows "streams_ok (invalidateChannel c w)" and "w_flight (invalidateChannel c w) = w_flight w"
    and "pub_closed (w_pub (invalidateChannel c w))"
proof -
  have "streams_ok (w\<lparr>w_pub := (w_pub w)\<lparr>pub_closed := True, pub_ch := None\<rparr>\<rparr>)" using assms by (intro ok_closed) auto
  then show "streams_ok (invalidateChannel c w)"
    unfolding invalidateChannel_def by (intro ok_chan_Close ok_close_closedCh) (simp_all add: upd_pub_def)
qed (simp_all add: invalidateChannel_def chan_Close_def close_closedCh_def upd_pub_def)

lemma ok_no_flight:
  "streams_ok w \<Longrightarrow> pub_closed (w_pub w) \<Longrightarrow> streams_ok (w\<lparr>w_flight := None\<rparr>)"
  by (auto simp: ok_defs)

lemma publish_finish_ok:
  assumes "streams_ok w" and "w_flight w = Some f" and "publish_finish cs f w = Some (r, w1)"
  shows "streams_ok (w1\<lparr>w_flight := None\<rparr>)"
    and "r = Inr () \<Longrightarrow> fl_message f \<in> w_delivered w1"
    and "r = Inl ErrPublishReturned \<Longrightarrow> fl_message f \<notin> w_delivered w1"
proof -
  let ?c = "w_chans w ! fl_ch f"
  have f: "fl_confirms f = fl_ch f" "fl_returns f = fl_ch f" "fl_ch f < length (w_chans w)"
    "fl_closedCh f = pub_closedCh (w_pub w)" "awaiting ?c (fl_message f) (w_delivered w)"
    using assms(1,2) by (auto simp: streams_ok_def flight_ok_def)
  have "streams_ok (w1\<lparr>w_flight := None\<rparr>) \<and> (r = Inr () \<longrightarrow> fl_message f \<in> w_delivered w1) \<and>
    (r = Inl ErrPublishReturned \<longrightarrow> fl_message f \<notin> w_delivered w1)"
  proof (cases cs)
    case Took_confirm
    show ?thesis
    proof (cases "ac_confirms ?c")
      case Nil
      then have "\<not> ac_open ?c" "r = Inl ErrPublisherClosed" "w1 = w"
        using assms(3) Took_confirm f by (auto simp: publish_finish_def waitForConfirm_def isConfirmStreamCorrupted_def split: if_splits)
      moreover have "streams_ok (upd_chan (fl_ch f) id w\<lparr>w_flight := None\<rparr>)"
        using assms(1,2) \<open>\<not> ac_open ?c\<close> by (intro ok_landed) auto
      ultimately show ?thesis by (simp add: upd_chan_def)
    next
      case (Cons x xs)
      then obtain ack where conf: "ac_confirms ?c = [(fl_message f, ack)]" "ac_unsettled ?c = []"
        and ret: "ac_returns ?c = [] \<and> (ack \<longrightarrow> fl_message f \<in> w_delivered w) \<or>
           ac_returns ?c = [fl_message f] \<and> fl_message f \<notin> w_delivered w"
        using f(5) by (auto simp: awaiting_def)
      let ?w = "upd_chan (fl_ch f) (\<lambda>ch. ch\<lparr>ac_confirms := []\<rparr>) w"
      have one: "streams_ok (?w\<lparr>w_flight := None\<rparr>)"
        using assms(1,2) conf by (intro ok_landed) (auto simp: idle_def)
      have two: "upd_chan (fl_ch f) (\<lambda>ch. ch\<lparr>ac_returns := []\<rparr>) ?w = upd_chan (fl_ch f) (\<lambda>ch. ch\<lparr>ac_confirms := [], ac_returns := []\<rparr>) w"
        using f(3) by (simp add: upd_chan_def)
      have "streams_ok (upd_chan (fl_ch f) (\<lambda>ch. ch\<lparr>ac_confirms := [], ac_returns := []\<rparr>) w\<lparr>w_flight := None\<rparr>)"
        using assms(1,2) conf by (intro ok_landed) (auto simp: idle_def)
      with one two ret conf assms(3) Took_confirm f show ?thesis
        by (auto simp: publish_finish_def waitForConfirm_def takeReturn_def upd_chan_nth isConfirmStreamCorrupted_def split: if_splits)
    qed
  next
    case Took_closed
    then have "pub_closedCh (w_pub w) \<in> w_closedChs w" "r = Inl ErrPublisherClosed" "w1 = w"
      using assms(3) f by (auto simp: publish_finish_def waitForConfirm_def isConfirmStreamCorrupted_def split: if_splits)
    moreover have "pub_closed (w_pub w)" using assms(1) calculation(1) by (simp add: streams_ok_def pub_ok_def)
    ultimately show ?thesis using ok_no_flight [OF assms(1)] by simp
  next
    case Took_timeout
    with assms(1,3) show ?thesis
      by (auto simp: publish_finish_def waitForConfirm_def isConfirmStreamCorrupted_def intro!: ok_no_flight invalidate_ok)
  next
    case Took_context
    with assms(1,3) show ?thesis
      by (auto simp: publish_finish_def waitForConfirm_def isConfirmStreamCorrupted_def intro!: ok_no_flight invalidate_ok)
  qed
  then show "streams_ok (w1\<lparr>w_flight := None\<rparr>)" "r = Inr () \<Longrightarrow> fl_message f \<in> w_delivered w1"
    "r = Inl ErrPublishReturned \<Longrightarrow> fl_message f \<notin> w_delivered w1" by auto
qed

lemma broker_settles_ok:
  assumes "streams_ok w" and "broker_settles c routed ack w = Some w1"
  shows "streams_ok w1"
proof -
  obtain m mand rest where c: "c < length (w_chans w)" "ac_unsettled (w_chans w ! c) = (m, mand) # rest"
    and w1: "w1 = (upd_chan c (\<lambda>ch. ch\<lparr>ac_unsettled := rest,
                     ac_returns := ac_returns ch @ (if mand \<and> \<not> routed then [m] else []),
                     ac_confirms := ac_confirms ch @ [(m, ack)]\<rparr>) w)
                  \<lparr>w_delivered := (if ack \<and> routed then insert m (w_delivered w) else w_delivered w)\<rparr>"
    and op: "ac_open (w_chans w ! c)"
    using assms(2) by (auto simp: broker_settles_def split: if_splits list.splits prod.splits)
  have "m \<in> fst ` set (ac_unsettled (w_chans w ! c))" using c by force
  with assms(1) c have m: "m < w_sent w" by (auto simp: ok_defs)
  have nums: "numbers_ok w1" using assms(1) c m w1 by (auto simp: ok_defs upd_chan_nth)
  have pub: "pub_ok w1" using assms(1) c w1 op by (auto simp: ok_defs upd_chan_nth idle_def)
  have "flight_ok w1 f" if "w_flight w = Some f" for f
  proof -
    have f: "flight_ok w f" using assms(1) that by (simp add: streams_ok_def)
    show ?thesis
    proof (cases "c = fl_ch f")
      case True
      with f c have "m = fl_message f" "mand" "rest = []" "ac_confirms (w_chans w ! c) = []" "ac_returns (w_chans w ! c) = []"
        "m \<notin> w_delivered w" by (auto simp: flight_ok_def awaiting_def)
      with True f c w1 show ?thesis by (auto simp: flight_ok_def upd_chan_nth awaiting_def)
    next
      case False
      with f c have "fl_message f \<notin> fst ` set ((m, mand) # rest)" unfolding flight_ok_def by metis
      then have "m \<noteq> fl_message f" and rest: "fl_message f \<notin> fst ` set rest" by auto
      then have del: "fl_message f \<in> w_delivered w1 \<longleftrightarrow> fl_message f \<in> w_delivered w" using w1 by simp
      have same: "w_chans w1 ! fl_ch f = w_chans w ! fl_ch f" and other: "ac_unsettled (w_chans w1 ! c) = rest"
        and "\<And>i. i < length (w_chans w) \<Longrightarrow> i \<noteq> c \<Longrightarrow> w_chans w1 ! i = w_chans w ! i"
        using False f c w1 by (simp_all add: flight_ok_def upd_chan_nth)
      moreover have "awaiting (w_chans w1 ! fl_ch f) (fl_message f) (w_delivered w1)"
        using f same del by (simp add: flight_ok_def awaiting_def)
      moreover have "length (w_chans w1) = length (w_chans w)" "w_pub w1 = w_pub w" "w_sent w1 = w_sent w" using w1 by simp_all
      ultimately show ?thesis using f rest unfolding flight_ok_def by metis
    qed
  qed
  with nums pub w1 show ?thesis by (auto simp: streams_ok_def split: option.splits)
qed

text \<open>Both \<open>Close\<close> and the preparation of a recovery close the channel and drain its confirmations.\<close>

lemma ok_wound_up:
  fixes w :: world and p :: ConfirmablePublisher and s :: nat
  assumes "streams_ok w" and "w_flight w = None" and "pub_closed p" and "pub_closedCh p = pub_closedCh (w_pub w)"
  defines "w1 \<equiv> close_closedCh (safeCloseSignal s (w\<lparr>w_pub := p\<rparr>))"
  shows "streams_ok w1 \<and> streams_ok (drainConfirms k w1) \<and> streams_ok (snd (chan_Close c w1)) \<and>
    streams_ok (drainConfirms k (snd (chan_Close c w1))) \<and> w_flight w1 = None \<and> w_signals w1 = w_signals w"
proof -
  have "streams_ok (w\<lparr>w_pub := p\<rparr>)" using assms(1,3,4) by (intro ok_closed) auto
  then have 1: "streams_ok w1" unfolding w1_def using assms(3) by (intro ok_close_closedCh) (simp, simp add: safeCloseSignal_def)
  moreover have "w_flight w1 = None" "w_signals w1 = w_signals w"
    using assms(2) by (simp_all add: w1_def close_closedCh_def safeCloseSignal_def)
  ultimately show ?thesis using ok_chan_Close [OF 1, of c]
    by (simp add: ok_drains) (intro ok_drains; simp add: chan_Close_def)
qed

lemma wound_up_flight [simp]:
  "w_flight (drainConfirms k w) = w_flight w" "w_flight (snd (chan_Close c w)) = w_flight w"
  "w_signals (drainConfirms k w) = w_signals w" "w_signals (snd (chan_Close c w)) = w_signals w"
  by (simp_all add: drainConfirms_def chan_Close_def)

lemma pub_Close_ok:
  assumes "streams_ok w" and "w_flight w = None"
  shows "streams_ok (snd (pub_Close w)) \<and> w_flight (snd (pub_Close w)) = None"
proof -
  let ?p = "(w_pub w)\<lparr>pub_shutdown := True, pub_closed := True, pub_recoveryExhausted := False\<rparr>"
  note ok = ok_wound_up [OF assms, of ?p "pub_done (w_pub w)"]
  show ?thesis
  proof (cases "pub_ch (w_pub w)")
    case None
    with assms ok show ?thesis by (simp add: pub_Close_def Let_def upd_pub_def)
  next
    case (Some c)
    with assms ok show ?thesis by (auto simp: pub_Close_def Let_def upd_pub_def case_prod_beta)
  qed
qed

lemma Reconnect_ok:
  assumes "streams_ok w" and "w_flight w = None"
    and "\<And>c. ch = Some c \<Longrightarrow> c < length (w_chans w) \<and> idle (w_chans w ! c)"
  shows "streams_ok (snd (Reconnect ch w)) \<and> w_flight (snd (Reconnect ch w)) = None"
proof (cases ch)
  case (Some c)
  let ?w = "w\<lparr>w_signals := Suc (w_signals w), w_pub := (w_pub w)\<lparr>pub_ch := Some c, pub_confirms := c, pub_returns := c,
     pub_closedCh := w_signals w, pub_closed := False, pub_recoveryExhausted := False\<rparr>\<rparr>"
  have "streams_ok ?w" if "\<not> pub_shutdown (w_pub w)"
    using assms(1,2) assms(3) [OF Some] that by (auto simp: ok_defs less_Suc_eq)
  with Some assms(1,2) show ?thesis by (auto simp: Reconnect_def Let_def upd_pub_def startCloseMonitor_def split: sum.splits)
qed (use assms in \<open>simp add: Reconnect_def\<close>)

lemma prepareForRecovery_ok:
  assumes "streams_ok w" and "w_flight w = None"
  shows "streams_ok (snd (prepareForRecovery w))"
proof -
  let ?p = "(w_pub w)\<lparr>pub_closed := True, pub_recoveryExhausted := False, pub_ch := None\<rparr>"
  note ok = ok_wound_up [OF assms, of ?p "pub_done (w_pub w)"]
  have "streams_ok (upd_pub (\<lambda>p. p\<lparr>pub_done := w_signals w\<rparr>) (v\<lparr>w_signals := Suc (w_signals w)\<rparr>))"
    if "streams_ok v" "w_signals v = w_signals w" for v
    using ok_new_done [OF that(1), of "w_signals w"] that(2) by simp
  note new = this [unfolded upd_pub_def]
  with ok assms show ?thesis
    by (cases "pub_ch (w_pub w)") (simp_all add: prepareForRecovery_def Let_def upd_pub_def)
qed

lemma hand_over_ok:
  assumes "streams_ok w" and "w_flight w = None" and "fresh_chan c"
  shows "streams_ok (snd (hand_over c w)) \<and> w_flight (snd (hand_over c w)) = None"
  using assms unfolding hand_over_def by (intro Reconnect_ok ok_new_chan) (auto simp: fresh_chan_def idle_def)

definition task_fresh :: "task \<Rightarrow> bool" where
  "task_fresh t = (case t of Reconnect_with n stop c \<Rightarrow> fresh_chan c | _ \<Rightarrow> True)"

lemma task_step_ok:
  assumes "streams_ok w" and "task_fresh t" and "task_step mv t w = Some (t', w1)"
  shows "streams_ok w1 \<and> pred_option task_fresh t'"
proof (cases t)
  case (Watch c d)
  have "streams_ok (w\<lparr>w_pub := (w_pub w)\<lparr>pub_closed := True\<rparr>\<rparr>)" using assms(1) by (intro ok_closed) auto
  then have "streams_ok (close_closedCh (w\<lparr>w_pub := (w_pub w)\<lparr>pub_closed := True\<rparr>\<rparr>))" by (intro ok_close_closedCh) auto
  with Watch assms show ?thesis
    by (auto simp: handleMonitoredClose_def Let_def upd_pub_def task_fresh_def split: move.splits if_splits)
next
  case Prepare
  with assms prepareForRecovery_ok [OF assms(1)] show ?thesis
    by (auto simp: held_def task_fresh_def split: if_splits prod.splits)
next
  case (Reconnect_with n stop c)
  then have "w_flight w = None" "fresh_chan c" using assms(2,3) by (auto simp: held_def task_fresh_def split: if_splits)
  from hand_over_ok [OF assms(1) this] Reconnect_with assms(3) show ?thesis
    by (auto simp: tryReconnectChannel_def task_fresh_def split: if_splits prod.splits sum.splits intro: ok_chan_Close)
qed (use assms in \<open>auto simp: task_fresh_def split: if_splits move.splits option.splits\<close>)

text \<open>Besides, a step only starts goroutines that watch a channel, and never takes back that the publisher was closed for good.\<close>

definition grows :: "world \<Rightarrow> world \<Rightarrow> bool" where
  "grows w w1 \<longleftrightarrow> set (w_tasks w1) \<subseteq> set (w_tasks w) \<union> range (case_prod Watch) \<and>
     (pub_shutdown (w_pub w) \<longrightarrow> pub_shutdown (w_pub w1)) \<and> w_delivered w \<subseteq> w_delivered w1"

lemmas plain_defs = grows_def Let_def upd_pub_def upd_chan_def chan_Close_def close_closedCh_def safeCloseSignal_def
  drainReturns_def drainConfirms_def takeReturn_def startCloseMonitor_def

lemma grows_publish:
  "grows w (snd (publish_begin sent w))"
  "publish_finish cs f w = Some (r, w1) \<Longrightarrow> grows w w1"
  by (auto simp: plain_defs publish_begin_def publish_finish_def waitForConfirm_def invalidateChannel_def
      split: option.splits list.splits select_case.splits sum.splits if_splits)

lemma grows_broker: "broker_settles c routed ack w = Some w1 \<Longrightarrow> grows w w1"
  by (auto simp: plain_defs broker_settles_def split: if_splits list.splits)

lemma grows_calls:
  "grows w (snd (pub_Close w))" "grows w (snd (Reconnect ch w))" "grows w (snd (hand_over c w))"
  "grows w (snd (prepareForRecovery w))" "grows w (snd (handleMonitoredClose w))" "grows w (snd (tryReconnectChannel n stop c w))"
proof -
  show 1: "grows w (snd (Reconnect ch w))" for ch w
    by (auto simp: plain_defs Reconnect_def split: option.splits sum.splits)
  show 2: "grows w (snd (hand_over c w))"
    using 1 [of "w\<lparr>w_chans := w_chans w @ [c]\<rparr>"] by (simp add: hand_over_def grows_def)
  show "grows w (snd (tryReconnectChannel n stop c w))"
    using 2 by (auto simp: plain_defs tryReconnectChannel_def split: prod.splits sum.splits)
qed (auto simp: plain_defs pub_Close_def prepareForRecovery_def handleMonitoredClose_def split: option.splits prod.splits if_splits)

lemma grows_task: "task_step mv t w = Some (t', w1) \<Longrightarrow> grows w w1"
proof (cases t)
  case (Watch c d)
  then show "task_step mv t w = Some (t', w1) \<Longrightarrow> grows w w1" using grows_calls(5) [of w]
    by (auto simp: grows_def split: move.splits if_splits prod.splits)
next
  case Prepare
  then show "task_step mv t w = Some (t', w1) \<Longrightarrow> grows w w1" using grows_calls(4) [of w]
    by (auto simp: grows_def split: if_splits prod.splits)
next
  case (Reconnect_with n stop c)
  then show "task_step mv t w = Some (t', w1) \<Longrightarrow> grows w w1" using grows_calls(6) [of w n stop c]
    by (auto simp: grows_def split: if_splits prod.splits)
qed (auto simp: grows_def upd_pub_def split: if_splits move.splits option.splits)

definition world_ok :: "world \<Rightarrow> bool" where
  "world_ok w \<longleftrightarrow> streams_ok w \<and> (\<forall>t \<in> set (w_tasks w). task_fresh t)"

lemma world_ok_grows: "world_ok w \<Longrightarrow> grows w w1 \<Longrightarrow> streams_ok w1 \<Longrightarrow> world_ok w1"
  by (auto simp: world_ok_def grows_def task_fresh_def)

text \<open>What a result says of its message: success, that the broker took and routed it; a return, that it did not.\<close>

definition truthful :: "(nat \<times> (rabbit_error + unit)) option \<Rightarrow> nat set \<Rightarrow> bool" where
  "truthful res delivered =
     (case res of None \<Rightarrow> True
      | Some (m, r) \<Rightarrow> (r = Inr () \<longrightarrow> m \<in> delivered) \<and> (r = Inl ErrPublishReturned \<longrightarrow> m \<notin> delivered))"

lemma perform_ok:
  assumes "world_ok w" and "perform ev w = Some (w1, res)"
  shows "world_ok w1 \<and> truthful res (w_delivered w1) \<and> (pub_shutdown (w_pub w) \<longrightarrow> pub_shutdown (w_pub w1))"
proof -
  have ok: "streams_ok w" using assms(1) by (simp add: world_ok_def)
  note keep = world_ok_grows [OF assms(1)]
  show ?thesis
  proof (cases ev)
    case (Publish sent)
    obtain r w2 where b: "publish_begin sent w = (r, w2)" by fastforce
    have g: "grows w w2" "grows w (w2\<lparr>w_flight := x\<rparr>)" for x using grows_publish(1) [of w sent] b by (simp_all add: grows_def)
    have "w_flight w = None" using assms(2) Publish by (simp add: held_def split: if_splits)
    from publish_begin_ok [OF ok this b] g keep Publish assms(2) b show ?thesis
      by (cases r) (auto simp: held_def truthful_def grows_def publish_begin_def Let_def split: if_splits option.splits)
  next
    case (Finish cs)
    then obtain f r w2 where f: "w_flight w = Some f" "publish_finish cs f w = Some (r, w2)"
      and w1: "w1 = w2\<lparr>w_flight := None\<rparr>" "res = Some (fl_message f, r)"
      using assms(2) by (auto split: option.splits)
    have "grows w w1" using grows_publish(2) [OF f(2)] w1 by (simp add: grows_def)
    with publish_finish_ok [OF ok f] keep w1 show ?thesis by (auto simp: truthful_def grows_def)
  next
    case (Settle c routed ack)
    then show ?thesis using assms(2) keep grows_broker broker_settles_ok [OF ok]
      by (fastforce simp: truthful_def grows_def)
  next
    case (Break c)
    then show ?thesis using assms(2) keep ok_break [OF ok, of c] by (auto simp: truthful_def grows_def split: if_splits)
  next
    case Close_call
    then show ?thesis using assms(2) keep grows_calls(1) [of w] pub_Close_ok [OF ok]
      by (auto simp: held_def truthful_def grows_def split: if_splits)
  next
    case (Reconnect_call ch)
    then show ?thesis using assms(2) keep grows_calls(2,3) [of w] hand_over_ok [OF ok] ok
      by (auto simp: held_def truthful_def grows_def Reconnect_def split: if_splits option.splits)
  next
    case (Turn i mv)
    then obtain t w2 where i: "i < length (w_tasks w)" and t: "task_step mv (w_tasks w ! i) w = Some (t, w2)"
      and w1: "w1 = w2\<lparr>w_tasks := take i (w_tasks w2) @ (case t of None \<Rightarrow> [] | Some t \<Rightarrow> [t]) @ drop (Suc i) (w_tasks w2)\<rparr>" "res = None"
      using assms(2) by (auto split: if_splits option.splits)
    have "task_fresh (w_tasks w ! i)" using assms(1) i by (simp add: world_ok_def)
    from task_step_ok [OF ok this t] have "streams_ok w2" "pred_option task_fresh t" by auto
    moreover have "world_ok w2" using keep grows_task [OF t] calculation(1) by blast
    then have "\<forall>t \<in> set (w_tasks w2). task_fresh t" by (simp add: world_ok_def)
    ultimately show ?thesis using w1 grows_task [OF t]
      by (auto simp: world_ok_def truthful_def grows_def split: option.splits dest: in_set_takeD in_set_dropD)
  qed
qed

lemma option_frame:
  "pub_ch (apply_option opt p) = pub_ch p" "pub_confirms (apply_option opt p) = pub_confirms p"
  "pub_returns (apply_option opt p) = pub_returns p" "pub_closedCh (apply_option opt p) = pub_closedCh p"
  "pub_closed (apply_option opt p) = pub_closed p" "pub_shutdown (apply_option opt p) = pub_shutdown p"
  by (cases opt; simp add: WithConfirmTimeout_def WithAutoRecovery_def WithMaxRecoveryAttempts_def WithRecoveryBackoff_def
      WithHealthCallback_def)+

lemma options_frame:
  fixes opts :: "ConfirmablePublisherOption list"
  defines "p' \<equiv> \<lambda>p. foldl (\<lambda>p opt. apply_option opt p) p opts"
  shows "pub_ch (p' p) = pub_ch p" "pub_confirms (p' p) = pub_confirms p" "pub_returns (p' p) = pub_returns p"
    "pub_closedCh (p' p) = pub_closedCh p" "pub_closed (p' p) = pub_closed p" "pub_shutdown (p' p) = pub_shutdown p"
  unfolding p'_def by (induction opts arbitrary: p) (simp_all add: option_frame)

lemma constructed_ok:
  assumes "fresh_chan c" and "NewConfirmablePublisherFromChannel (Some c) opts = Inr w"
  shows "world_ok w"
proof -
  have "pub_ch (w_pub w) = Some 0" "pub_confirms (w_pub w) = 0" "pub_returns (w_pub w) = 0" "pub_closedCh (w_pub w) = 0"
    "\<not> pub_shutdown (w_pub w)" "w_chans w = [c]" "w_closedChs w = {}" "w_signals w = 2" "w_flight w = None" "w_delivered w = {}"
    "w_tasks w = [Watch 0 (pub_done (w_pub w))]"
    using assms(2) by (auto simp: NewConfirmablePublisherFromChannel_def bind_res_eq_Inr startCloseMonitor_def options_frame split: if_splits)
  with assms(1) show ?thesis by (simp add: world_ok_def ok_defs fresh_chan_def idle_def task_fresh_def)
qed

lemma reachable_ok: "reachable w \<Longrightarrow> world_ok w"
  by (induction rule: reachable.induct) (auto dest: constructed_ok perform_ok)

subsection \<open>Properties\<close>

text \<open>
  C20. However the goroutines of the publisher, its callers, the broker and failing channels interleave:
  a publish reports success only if the broker acknowledged that very message after it had routed it to a
  queue, and reports the message as returned only if it was not. No confirmation or return left behind by another
  message is ever taken for it.
\<close>

theorem publish_result_truthful:
  assumes "reachable w" and "perform ev w = Some (w1, Some (m, r))"
  shows "(r = Inr () \<longrightarrow> m \<in> w_delivered w1) \<and> (r = Inl ErrPublishReturned \<longrightarrow> m \<notin> w_delivered w1)"
  using perform_ok [OF reachable_ok [OF assms(1)] assms(2)] by (simp add: truthful_def)

fun run_events :: "event list \<Rightarrow> world \<Rightarrow> world option" where
  "run_events [] w = Some w"
| "run_events (ev # evs) w = (case perform ev w of None \<Rightarrow> None | Some (w1, r) \<Rightarrow> run_events evs w1)"

lemma run_events_reachable: "reachable w \<Longrightarrow> run_events evs w = Some w1 \<Longrightarrow> reachable w1"
  by (induction evs arbitrary: w) (auto split: option.splits intro: performed)

definition sample_chan :: amqp_chan where
  "sample_chan = \<lparr>ac_notifies = True, ac_confirmable = True, ac_closes = True, ac_open = True, ac_unsettled = [], ac_confirms = [], ac_returns = []\<rparr>"

definition sample_world :: world where
  "sample_world = projr (NewConfirmablePublisherFromChannel (Some sample_chan) [Auto_recovery True, Health_callback True])"

lemma sample_world_reachable: "reachable sample_world"
  by (rule constructed [of sample_chan "[Auto_recovery True, Health_callback True]"])
     (simp_all add: sample_world_def sample_chan_def fresh_chan_def NewConfirmablePublisherFromChannel_def returnNotifierFor_def bind_res_def)

text \<open>A timeout, the recovery with a new channel, and a message that goes through.\<close>

definition sample_events :: "event list" where
  "sample_events =
     [Publish True, Finish Took_timeout, Turn 0 Go, Turn 0 Go, Turn 0 Go, Turn 0 Go, Turn 0 Go, Turn 0 Go,
      Turn 0 (Got (Some (Some sample_chan))), Turn 0 Go, Publish True, Settle 1 True True]"

lemma sample_run:
  "case run_events sample_events sample_world of None \<Rightarrow> False
   | Some w \<Rightarrow> (case perform (Finish Took_confirm) w of Some (w1, Some (m, r)) \<Rightarrow> m = 1 \<and> r = Inr () | _ \<Rightarrow> False)"
  by code_simp

theorem publish_result_truthful_witness:
  "case run_events sample_events sample_world of None \<Rightarrow> False
   | Some w \<Rightarrow> (case perform (Finish Took_confirm) w of
       Some (w1, Some (m, r)) \<Rightarrow> m = 1 \<and> r = Inr () \<and> 1 \<in> w_delivered w1 | _ \<Rightarrow> False)"
proof (cases "run_events sample_events sample_world")
  case None
  with sample_run show ?thesis by simp
next
  case (Some w)
  with sample_run obtain w1 where w1: "perform (Finish Took_confirm) w = Some (w1, Some (1, Inr ()))"
    by (auto split: option.splits)
  with publish_result_truthful [OF run_events_reachable [OF sample_world_reachable Some] w1] Some show ?thesis by simp
qed

text \<open>Closing is final: afterwards every publish and every reconnection is refused, whatever recovery is under way.\<close>

lemma shutdown_stays: "reachable w \<Longrightarrow> pub_shutdown (w_pub w) \<Longrightarrow> run_events evs w = Some w' \<Longrightarrow> pub_shutdown (w_pub w')"
  by (induction evs arbitrary: w) (auto split: option.splits dest: perform_ok [OF reachable_ok] intro: performed)

theorem closed_for_good:
  assumes "reachable w" and "pub_shutdown (w_pub w)" and "run_events evs w = Some w'"
  shows "fst (publish_begin sent w') \<in> {Inl ErrPublisherClosed, Inl ErrRecoveryExhausted} \<and>
    Reconnect (Some c) w' = (Inl ErrReconnectAfterClose, w')"
proof -
  have "pub_shutdown (w_pub w')" using assms by (rule shutdown_stays)
  moreover have "world_ok w'" using run_events_reachable [OF assms(1,3)] by (rule reachable_ok)
  ultimately show ?thesis by (auto simp: world_ok_def streams_ok_def pub_ok_def publish_begin_def Reconnect_def Let_def)
qed

text \<open>Every recovery ends: each step of a goroutine brings it closer to its end, and its attempts are bounded.\<close>

fun within :: "nat \<Rightarrow> task \<Rightarrow> bool" where
  "within M (Try n stop) = (n \<le> M)"
| "within M (Pause n stop) = (n < M)"
| "within M (Provide n stop) = (n < M)"
| "within M (Reconnect_with n stop c) = (n < M)"
| "within M t = True"

fun rank :: "nat \<Rightarrow> task \<Rightarrow> nat" where
  "rank M (Watch c d) = 4 * M + 8"
| "rank M (Announce b) = 4 * M + 7"
| "rank M Prepare = 4 * M + 6"
| "rank M Begin = 4 * M + 5"
| "rank M (Try n stop) = 4 * (M - n) + 2"
| "rank M (Pause n stop) = 4 * (M - n) + 1"
| "rank M (Provide n stop) = 4 * (M - n)"
| "rank M (Reconnect_with n stop c) = 4 * (M - n) - 1"
| "rank M Up = 0"
| "rank M Down = 0"

theorem recovery_ends:
  assumes "within (max_attempts w) t" and "task_step mv t w = Some (Some t', w1)"
  shows "within (max_attempts w) t' \<and> rank (max_attempts w) t' < rank (max_attempts w) t"
proof (cases t)
  case (Watch c d)
  with assms show ?thesis by (cases mv) (auto simp: handleMonitoredClose_def Let_def split: if_splits)
next
  case (Pause n stop)
  with assms show ?thesis by (cases mv) (auto split: if_splits)
next
  case (Provide n stop)
  with assms show ?thesis by (auto split: move.splits option.splits if_splits)
next
  case (Reconnect_with n stop c)
  obtain r w2 where "hand_over c w = (r, w2)" by fastforce
  with Reconnect_with assms show ?thesis by (cases r) (auto simp: tryReconnectChannel_def split: if_splits)
next
  case Prepare
  obtain r w2 where "prepareForRecovery w = (r, w2)" by fastforce
  with Prepare assms show ?thesis by (cases r) (simp_all split: if_splits)
qed (use assms in \<open>auto split: if_splits\<close>)

text \<open>The pauses between attempts stay below the configured maximum.\<close>

lemma FullJitter_bounds:
  assumes "random_source gen draw" and "0 < d"
  shows "0 \<le> FullJitter gen draw seed d \<and> FullJitter gen draw seed d \<le> d"
proof (cases "draw d")
  case None
  have "0 \<le> gen s d \<and> gen s d < d" for s using assms unfolding random_source_def by blast
  with None assms(2) show ?thesis
    by (cases seed) (simp_all add: FullJitter_def cryptoFallbackRand_def fallbackDivisor_def less_imp_le)
next
  case (Some n)
  with assms have "0 \<le> n \<and> n < d" unfolding random_source_def by blast
  with Some assms(2) show ?thesis by (simp add: FullJitter_def)
qed

theorem recovery_delay_bounded:
  assumes "random_source gen draw" and "0 < rc_backoffMax r"
  shows "0 \<le> recovery_delay gen draw seed r n \<and> recovery_delay gen draw seed r n \<le> rc_backoffMax r"
proof -
  have "0 \<le> ExponentialWithJitter gen draw seed b n" for b
    using FullJitter_bounds [OF assms(1), of "Exponential b n" seed]
    by (cases "0 < Exponential b n") (auto simp: ExponentialWithJitter_def FullJitter_def)
  with FullJitter_bounds [OF assms, of seed] show ?thesis by (simp add: recovery_delay_def Let_def)
qed

text \<open>
  Two limits. The monitor of a channel that was given up reports it whenever it runs: after a
  reconnection by the caller it marks the publisher, with its new open channel, as closed.
\<close>

lemma late_monitor_closes_new_channel:
  "case run_events [Publish True, Finish Took_timeout, Reconnect_call (Some sample_chan), Turn 0 Go]
       (projr (NewConfirmablePublisherFromChannel (Some sample_chan) [])) of
     None \<Rightarrow> False
   | Some w \<Rightarrow> pub_closed (w_pub w) \<and> pub_ch (w_pub w) = Some 1 \<and> ac_open (w_chans w ! 1)"
  by code_simp

text \<open>And the report of a successful recovery may come after the new channel broke, and stands then.\<close>

lemma late_report_hides_broken_channel:
  "case run_events [Break 0, Turn 0 Go, Turn 0 Go, Turn 0 Go, Turn 0 Go, Turn 0 Go, Turn 0 Go,
       Turn 0 (Got (Some (Some sample_chan))), Turn 0 Go, Break 1, Turn 1 Go, Turn 1 Go, Turn 0 Go] sample_world of
     None \<Rightarrow> False
   | Some w \<Rightarrow> pub_closed (w_pub w) \<and> pub_health (w_pub w) = HealthStateConnected"
  by code_simp

end
