(* ===== verification/Tenant_Middleware.thy ===== *)
theory Tenant_Middleware
  imports Tenant_Events_Laws "HOL-Library.AList"
begin

text \<open>
  \<open>commons/tenant-manager/middleware\<close> and \<open>core/context.go\<close>: the request handler that takes the tenant from the token,
  makes sure that its configuration is known and puts the tenant's database connections into the context of the
  request. The connection managers are parameters with a state of their own, a manager is a number and
  \<open>None\<close> a nil one; reading the claims of a token is a parameter too, since its signature is the business of
  an earlier handler. The cache of the middleware is the one its loader fills. Logging, spans and
  baggage are left out.
\<close>

subsection \<open>The context of a request\<close>

text \<open>The generic key is the empty module name, which the setters and getters treat alike.\<close>

record ('p, 'q) request_context =
  cx_tenantID :: "string option"
  cx_pg :: "string \<rightharpoonup> 'p"
  cx_mongo :: "string \<rightharpoonup> 'q"

definition ContextWithTenantID :: "('p, 'q) request_context \<Rightarrow> string \<Rightarrow> ('p, 'q) request_context" where
  "ContextWithTenantID ctx tenantID = ctx\<lparr>cx_tenantID := Some tenantID\<rparr>"

definition GetTenantIDContext :: "('p, 'q) request_context \<Rightarrow> string" where
  "GetTenantIDContext ctx = (case cx_tenantID ctx of None \<Rightarrow> [] | Some i \<Rightarrow> i)"

definition ContextWithPG :: "('p, 'q) request_context \<Rightarrow> 'p \<Rightarrow> string option \<Rightarrow> ('p, 'q) request_context" where
  "ContextWithPG ctx db module =
     (case module of
        Some m \<Rightarrow> if m \<noteq> [] then ctx\<lparr>cx_pg := (cx_pg ctx)(m \<mapsto> db)\<rparr> else ctx\<lparr>cx_pg := (cx_pg ctx)([] \<mapsto> db)\<rparr>
      | None \<Rightarrow> ctx\<lparr>cx_pg := (cx_pg ctx)([] \<mapsto> db)\<rparr>)"

definition GetPGContext :: "('p, 'q) request_context \<Rightarrow> string option \<Rightarrow> 'p option" where
  "GetPGContext ctx module = (case module of Some m \<Rightarrow> cx_pg ctx m | None \<Rightarrow> cx_pg ctx [])"

definition ContextWithMB :: "('p, 'q) request_context \<Rightarrow> 'q \<Rightarrow> string option \<Rightarrow> ('p, 'q) request_context" where
  "ContextWithMB ctx db module =
     (case module of
        Some m \<Rightarrow> if m \<noteq> [] then ctx\<lparr>cx_mongo := (cx_mongo ctx)(m \<mapsto> db)\<rparr> else ctx\<lparr>cx_mongo := (cx_mongo ctx)([] \<mapsto> db)\<rparr>
      | None \<Rightarrow> ctx\<lparr>cx_mongo := (cx_mongo ctx)([] \<mapsto> db)\<rparr>)"

definition GetMBContext :: "('p, 'q) request_context \<Rightarrow> string option \<Rightarrow> 'q option" where
  "GetMBContext ctx module = (case module of Some m \<Rightarrow> cx_mongo ctx m | None \<Rightarrow> cx_mongo ctx [])"

subsection \<open>The middleware\<close>

text \<open>Modules with their managers, in no particular order.\<close>

record TenantMiddleware =
  tm_postgres :: "nat option"
  tm_mongo :: "nat option"
  tm_cache :: bool
  tm_loader :: "TenantLoader option"
  tm_pgModules :: "(string \<times> nat option) list"
  tm_mongoModules :: "(string \<times> nat option) list"
  tm_enabled :: bool
  tm_refusalsToErrorHandler :: bool

type_synonym TenantMiddlewareOption = "TenantMiddleware \<Rightarrow> TenantMiddleware"

definition WithTenantCache :: "bool \<Rightarrow> TenantMiddlewareOption" where
  "WithTenantCache cache m = m\<lparr>tm_cache := cache\<rparr>"

definition WithTenantLoader :: "TenantLoader option \<Rightarrow> TenantMiddlewareOption" where
  "WithTenantLoader loader m = m\<lparr>tm_loader := loader\<rparr>"

definition WithRefusalsToErrorHandler :: TenantMiddlewareOption where
  "WithRefusalsToErrorHandler m = m\<lparr>tm_refusalsToErrorHandler := True\<rparr>"

definition WithPG :: "nat option \<Rightarrow> string list \<Rightarrow> TenantMiddlewareOption" where
  "WithPG p module m =
     (let md = (case module of [] \<Rightarrow> [] | x # _ \<Rightarrow> x) in
      (if md = [] then m\<lparr>tm_postgres := p\<rparr> else m\<lparr>tm_pgModules := AList.update md p (tm_pgModules m)\<rparr>)\<lparr>tm_enabled := True\<rparr>)"

definition WithMB :: "nat option \<Rightarrow> string list \<Rightarrow> TenantMiddlewareOption" where
  "WithMB p module m =
     (let md = (case module of [] \<Rightarrow> [] | x # _ \<Rightarrow> x) in
      (if md = [] then m\<lparr>tm_mongo := p\<rparr> else m\<lparr>tm_mongoModules := AList.update md p (tm_mongoModules m)\<rparr>)\<lparr>tm_enabled := True\<rparr>)"

definition NewTenantMiddleware :: "TenantMiddlewareOption list \<Rightarrow> TenantMiddleware" where
  "NewTenantMiddleware opts =
     (let m = foldl (\<lambda>m opt. opt m) \<lparr>tm_postgres = None, tm_mongo = None, tm_cache = False, tm_loader = None,
                tm_pgModules = [], tm_mongoModules = [], tm_enabled = False, tm_refusalsToErrorHandler = False\<rparr> opts
      in m\<lparr>tm_enabled := tm_postgres m \<noteq> None \<or> tm_mongo m \<noteq> None \<or> tm_pgModules m \<noteq> []  \<or> tm_mongoModules m \<noteq> [] \<rparr>)"

subsection \<open>Refusals\<close>

record refusalError =
  rf_status :: int
  rf_code :: string
  rf_title :: string
  rf_message :: string
  rf_cause :: tenant_error

definition newRefusal :: "tenant_error \<Rightarrow> int \<Rightarrow> string \<Rightarrow> string \<Rightarrow> string \<Rightarrow> refusalError" where
  "newRefusal cause status code title message =
     \<lparr>rf_status = status, rf_code = code, rf_title = title, rf_message = message, rf_cause = cause\<rparr>"

definition serviceUnavailableRefusal :: "tenant_error \<Rightarrow> refusalError" where
  "serviceUnavailableRefusal cause =
     newRefusal cause 503 ''SERVICE_UNAVAILABLE'' ''Service Unavailable'' ''Service temporarily unavailable''"

definition unauthorizedRefusal :: "tenant_error \<Rightarrow> string \<Rightarrow> string \<Rightarrow> refusalError" where
  "unauthorizedRefusal cause code message = newRefusal cause 401 code ''Unauthorized'' message"

definition domainRefusal :: "tenant_error \<Rightarrow> string \<Rightarrow> refusalError" where
  "domainRefusal err tenantID =
     (if errors_Is err ErrAuthorizationTokenRequired \<or> errors_Is err ErrInvalidAuthorizationToken
        \<or> errors_Is err ErrInvalidTenantClaims \<or> errors_Is err ErrMissingTenantIDClaim
      then unauthorizedRefusal err ''UNAUTHORIZED'' ''Unauthorized''
      else if errors_Is err ErrTenantNotFound
      then newRefusal err 404 ''TENANT_NOT_FOUND'' ''Tenant Not Found'' (''tenant not found: '' @ tenantID)
      else (case as_suspended err of
          Some (TenantSuspendedError _ status _) \<Rightarrow> newRefusal err 403 ''0131'' ''Service Suspended'' (''tenant service is '' @ status)
        | _ \<Rightarrow>
            if errors_Is err ErrTenantServiceAccessDenied
            then newRefusal err 403 ''0131'' ''Access Denied'' ''tenant service access denied''
            else if errors_Is err ErrManagerClosed \<or> errors_Is err ErrServiceNotConfigured then serviceUnavailableRefusal err
            else if errors_Is err ErrCircuitBreakerOpen then serviceUnavailableRefusal err
            else if errors_Is err ErrConnectionFailed then serviceUnavailableRefusal err
            else newRefusal err 500 ''TENANT_DB_ERROR'' ''Failed to resolve tenant database'' ''Internal server error''))"

datatype ('p, 'q) handled =
    Next "('p, 'q) request_context" | Written int "(string \<times> string) list" | Handed refusalError

definition mw_refuse :: "TenantMiddleware \<Rightarrow> refusalError \<Rightarrow> ('p, 'q) handled" where
  "mw_refuse m r =
     (if tm_refusalsToErrorHandler m then Handed r
      else Written (rf_status r) [(''code'', rf_code r), (''title'', rf_title r), (''message'', rf_message r)])"

subsection \<open>Connections\<close>

text \<open>
  The connection managers: obtaining a PostgreSQL connection and its database, and a MongoDB database, for a tenant.
  A connection that was obtained is recorded with its manager and tenant.
\<close>

record ('p, 'q, 'c, 's) tenant_managers =
  GetConnection :: "nat option \<Rightarrow> string \<Rightarrow> 's \<Rightarrow> (tenant_error + 'c) \<times> 's"
  GetDB :: "'c \<Rightarrow> 's \<Rightarrow> (tenant_error + 'p) \<times> 's"
  GetDatabaseForTenant :: "nat option \<Rightarrow> string \<Rightarrow> 's \<Rightarrow> (tenant_error + 'q) \<times> 's"

datatype ('p, 'q) obtained = Obtained_pg "nat option" string 'p | Obtained_mongo "nat option" string 'q

text \<open>With modules, errors are wrapped with the name of the module or of the generic registration.\<close>

definition pg_database ::
  "('p, 'q, 'c, 's) tenant_managers \<Rightarrow> bool \<Rightarrow> nat option \<Rightarrow> string \<Rightarrow> 's \<Rightarrow> (tenant_error + 'p) \<times> 's" where
  "pg_database M modular mgr tenantID s =
     (case GetConnection M mgr tenantID s of
        (Inl e, s) \<Rightarrow> (Inl (if modular then Wrapped [e] else e), s)
      | (Inr conn, s) \<Rightarrow> (case GetDB M conn s of (Inl e, s) \<Rightarrow> (Inl (Wrapped [e]), s) | (Inr db, s) \<Rightarrow> (Inr db, s)))"

definition mongo_database ::
  "('p, 'q, 'c, 's) tenant_managers \<Rightarrow> bool \<Rightarrow> nat option \<Rightarrow> string \<Rightarrow> 's \<Rightarrow> (tenant_error + 'q) \<times> 's" where
  "mongo_database M modular mgr tenantID s =
     (case GetDatabaseForTenant M mgr tenantID s of
        (Inl e, s) \<Rightarrow> (Inl (if modular then Wrapped [e] else e), s)
      | (Inr db, s) \<Rightarrow> (Inr db, s))"

text \<open>
  The modules in the order in which the map is ranged over, and last the generic registration, which is
  all there is without modules.
\<close>

fun resolve_all ::
  "('ctx \<Rightarrow> 'd \<Rightarrow> string option \<Rightarrow> 'ctx) \<Rightarrow> (nat option \<Rightarrow> 's \<Rightarrow> (tenant_error + 'd) \<times> 's) \<Rightarrow> (nat option \<Rightarrow> 'd \<Rightarrow> 'o)
   \<Rightarrow> (string option \<times> nat option) list \<Rightarrow> 'ctx \<Rightarrow> 's \<Rightarrow> (tenant_error + 'ctx) \<times> 's \<times> 'o list" where
  "resolve_all put obtain_db record_it [] ctx s = (Inr ctx, s, [])"
| "resolve_all put obtain_db record_it ((module, mgr) # rest) ctx s =
     (case obtain_db mgr s of
        (Inl e, s) \<Rightarrow> (Inl e, s, [])
      | (Inr db, s) \<Rightarrow>
          (case resolve_all put obtain_db record_it rest (put ctx db module) s of
             (r, s, got) \<Rightarrow> (r, s, record_it mgr db # got)))"

type_synonym module_managers = "(string \<times> nat option) list"

definition targets :: "module_managers \<Rightarrow> nat option \<Rightarrow> (string option \<times> nat option) list" where
  "targets modules single = map (\<lambda>(m, p). (Some m, p)) modules @ (if single = None then [] else [(None, single)])"

definition resolvePostgres ::
  "('p, 'q, 'c, 's) tenant_managers \<Rightarrow> TenantMiddleware \<Rightarrow> module_managers \<Rightarrow> ('p, 'q) request_context \<Rightarrow> string \<Rightarrow> 's
   \<Rightarrow> (tenant_error + ('p, 'q) request_context) \<times> 's \<times> ('p, 'q) obtained list" where
  "resolvePostgres M m order ctx tenantID s =
     resolve_all ContextWithPG (\<lambda>mgr. pg_database M (tm_pgModules m \<noteq> []) mgr tenantID) (\<lambda>mgr. Obtained_pg mgr tenantID)
       (targets order (tm_postgres m)) ctx s"

definition resolveMongo ::
  "('p, 'q, 'c, 's) tenant_managers \<Rightarrow> TenantMiddleware \<Rightarrow> module_managers \<Rightarrow> ('p, 'q) request_context \<Rightarrow> string \<Rightarrow> 's
   \<Rightarrow> (tenant_error + ('p, 'q) request_context) \<times> 's \<times> ('p, 'q) obtained list" where
  "resolveMongo M m order ctx tenantID s =
     resolve_all ContextWithMB (\<lambda>mgr. mongo_database M (tm_mongoModules m \<noteq> []) mgr tenantID) (\<lambda>mgr. Obtained_mongo mgr tenantID)
       (targets order (tm_mongo m)) ctx s"

subsection \<open>The handler\<close>

definition ExtractTokenFromAuthorization :: "(string \<Rightarrow> string \<Rightarrow> bool) \<Rightarrow> string \<Rightarrow> string" where
  "ExtractTokenFromAuthorization unifold header =
     (case Fields header of
        [scheme, token] \<Rightarrow> if EqualFold unifold scheme ''Bearer'' then token else []
      | [token] \<Rightarrow> if \<not> EqualFold unifold token ''Bearer'' then token else []
      | _ \<Rightarrow> [])"

text \<open>What a token claims: nothing readable, no claims, or a tenant that may be missing or no string.\<close>

datatype token_claims = Unreadable tenant_error | No_claims | Tenant_claim "string option"

definition ensureTenantCached :: "TenantMiddleware \<Rightarrow> tm_env \<Rightarrow> string \<Rightarrow> node \<Rightarrow> (tenant_error + unit) \<times> node \<times> tm_request list" where
  "ensureTenantCached m E tenantID n =
     (case (tm_cache m, tm_loader m) of
        (True, Some loader) \<Rightarrow>
          (case tc_Get (nd_cache n) tenantID (e_now E) of
             (Some _, cache) \<Rightarrow> (Inr (), n\<lparr>nd_cache := cache\<rparr>, [])
           | (None, cache) \<Rightarrow>
               (case LoadTenant loader E tenantID (n\<lparr>nd_cache := cache\<rparr>) of
                  (Inl e, n, sent) \<Rightarrow> (Inl e, n, sent)
                | (Inr _, n, sent) \<Rightarrow> (Inr (), n, sent)))
      | _ \<Rightarrow> (Inr (), n, []))"

record ('p, 'q) visit =
  vs_result :: "('p, 'q) handled"
  vs_node :: node
  vs_sent :: "tm_request list"
  vs_obtained :: "('p, 'q) obtained list"

text \<open>The tenant that a token names, or the refusal.\<close>

definition tenant_from_token ::
  "(string \<Rightarrow> string \<Rightarrow> bool) \<Rightarrow> (string \<Rightarrow> string option) \<Rightarrow> (string \<Rightarrow> token_claims) \<Rightarrow> string \<Rightarrow> refusalError + string" where
  "tenant_from_token unifold uuid_Parse parse header =
     (let accessToken = ExtractTokenFromAuthorization unifold header in
      if accessToken = [] then Inl (unauthorizedRefusal ErrAuthorizationTokenRequired ''MISSING_TOKEN'' ''Authorization token is required'')
      else (case parse accessToken of
          Unreadable e \<Rightarrow> Inl (unauthorizedRefusal (Wrapped [ErrInvalidAuthorizationToken, e]) ''INVALID_TOKEN'' ''Failed to parse authorization token'')
        | No_claims \<Rightarrow> Inl (unauthorizedRefusal ErrInvalidTenantClaims ''INVALID_TOKEN'' ''JWT claims are not in expected format'')
        | Tenant_claim t \<Rightarrow>
            (case t of
               None \<Rightarrow> Inl (unauthorizedRefusal ErrMissingTenantIDClaim ''MISSING_TENANT'' ''tenantId is required in JWT token'')
             | Some t \<Rightarrow>
                 if t = [] then Inl (unauthorizedRefusal ErrMissingTenantIDClaim ''MISSING_TENANT'' ''tenantId is required in JWT token'')
                 else (case CanonicalTenantID uuid_Parse t of
                     None \<Rightarrow> Inl (unauthorizedRefusal (Wrapped [ErrInvalidTenantClaims, ErrInvalidTenantIDFormat]) ''INVALID_TENANT'' ''tenantId has invalid format'')
                   | Some i \<Rightarrow> Inr i))))"

definition WithTenantDB ::
  "('p, 'q, 'c, 's) tenant_managers \<Rightarrow> (string \<Rightarrow> string \<Rightarrow> bool) \<Rightarrow> (string \<Rightarrow> string option) \<Rightarrow> (string \<Rightarrow> token_claims) \<Rightarrow> tm_env
   \<Rightarrow> module_managers \<Rightarrow> module_managers \<Rightarrow> TenantMiddleware \<Rightarrow> string \<Rightarrow> ('p, 'q) request_context \<Rightarrow> node \<Rightarrow> 's \<Rightarrow> ('p, 'q) visit \<times> 's" where
  "WithTenantDB M unifold uuid_Parse parse E pg_order mongo_order m header ctx n s =
     (let stop = (\<lambda>r n sent got s. (\<lparr>vs_result = mw_refuse m r, vs_node = n, vs_sent = sent, vs_obtained = got\<rparr>, s)) in
      if \<not> tm_enabled m then (\<lparr>vs_result = Next ctx, vs_node = n, vs_sent = [], vs_obtained = []\<rparr>, s)
      else (case tenant_from_token unifold uuid_Parse parse header of
          Inl r \<Rightarrow> stop r n [] [] s
        | Inr tenantID \<Rightarrow>
            (case ensureTenantCached m E tenantID n of
               (Inl e, n, sent) \<Rightarrow> stop (domainRefusal e tenantID) n sent [] s
             | (Inr _, n, sent) \<Rightarrow>
                 (case resolvePostgres M m pg_order (ContextWithTenantID ctx tenantID) tenantID s of
                    (Inl e, s, got) \<Rightarrow> stop (domainRefusal e tenantID) n sent got s
                  | (Inr ctx1, s, got) \<Rightarrow>
                      (case resolveMongo M m mongo_order ctx1 tenantID s of
                         (Inl e, s, got') \<Rightarrow> stop (domainRefusal e tenantID) n sent (got @ got') s
                       | (Inr ctx2, s, got') \<Rightarrow>
                           (\<lparr>vs_result = Next ctx2, vs_node = n, vs_sent = sent, vs_obtained = got @ got'\<rparr>, s))))))"

subsection \<open>Laws\<close>

definition slot_key :: "string option \<Rightarrow> string" where
  "slot_key module = (case module of None \<Rightarrow> [] | Some m \<Rightarrow> m)"

text \<open>A context that keeps one database under each key; both kinds of databases are kept so.\<close>

locale keyed_context =
  fixes put :: "'ctx \<Rightarrow> 'd \<Rightarrow> string option \<Rightarrow> 'ctx" and get :: "'ctx \<Rightarrow> string option \<Rightarrow> 'd option"
  assumes get_put: "get (put ctx db k) k' = (if slot_key k = slot_key k' then Some db else get ctx k')"
begin

lemma untouched:
  assumes "resolve_all put obtain_db record_it ts ctx s = (Inr ctx', s', got)" and "slot_key k \<notin> slot_key ` fst ` set ts"
  shows "get ctx' k = get ctx k"
  using assms
proof (induction ts arbitrary: ctx s got)
  case (Cons t ts)
  then show ?case by (cases t) (auto simp: get_put split: prod.splits sum.splits)
qed simp

lemma resolved:
  assumes "resolve_all put obtain_db record_it ts ctx s = (Inr ctx', s', got)" and "distinct (map (slot_key \<circ> fst) ts)" and "(k, mgr) \<in> set ts"
  shows "\<exists>db. get ctx' k = Some db \<and> record_it mgr db \<in> set got"
  using assms
proof (induction ts arbitrary: ctx s got)
  case (Cons t ts)
  obtain k0 mgr0 where t: "t = (k0, mgr0)" by fastforce
  with Cons.prems(1) obtain db s1 got1 where db: "obtain_db mgr0 s = (Inr db, s1)"
    and rest: "resolve_all put obtain_db record_it ts (put ctx db k0) s1 = (Inr ctx', s', got1)" and got: "got = record_it mgr0 db # got1"
    by (auto split: prod.splits sum.splits)
  show ?case
  proof (cases "(k, mgr) = t")
    case True
    with t Cons.prems(2) have "slot_key k \<notin> slot_key ` fst ` set ts" by (auto simp: image_image)
    from untouched [OF rest this] True t got show ?thesis by (auto simp: get_put)
  next
    case False
    with Cons.IH [OF rest] Cons.prems(2,3) got show ?thesis by auto
  qed
qed simp

end

lemma recorded_by:
  "resolve_all put obtain_db record_it ts ctx s = (r, s', got) \<Longrightarrow> x \<in> set got \<Longrightarrow> \<exists>mgr db. x = record_it mgr db"
proof (induction ts arbitrary: ctx s got)
  case (Cons t ts)
  then show ?case by (cases t) (auto split: prod.splits sum.splits, blast)
qed simp

interpretation pg: keyed_context ContextWithPG GetPGContext
  by unfold_locales (auto simp: ContextWithPG_def GetPGContext_def slot_key_def split: option.splits)

interpretation mb: keyed_context ContextWithMB GetMBContext
  by unfold_locales (auto simp: ContextWithMB_def GetMBContext_def slot_key_def split: option.splits)

text \<open>What the options of the package can make of a middleware.\<close>

definition mw_offered :: "TenantMiddlewareOption \<Rightarrow> bool" where
  "mw_offered opt \<longleftrightarrow> (\<exists>b. opt = WithTenantCache b) \<or> (\<exists>l. opt = WithTenantLoader l) \<or> opt = WithRefusalsToErrorHandler \<or>
     (\<exists>p md. opt = WithPG p md) \<or> (\<exists>p md. opt = WithMB p md)"

definition named_modules :: "(string \<times> nat option) list \<Rightarrow> bool" where
  "named_modules ms \<longleftrightarrow> distinct (map fst ms) \<and> [] \<notin> fst ` set ms"

lemma named_update: "named_modules ms \<Longrightarrow> md \<noteq> [] \<Longrightarrow> named_modules (AList.update md p ms)"
  by (auto simp: named_modules_def distinct_update dom_update)

lemma option_named:
  assumes "mw_offered opt" and "named_modules (tm_pgModules m) \<and> named_modules (tm_mongoModules m)"
  shows "named_modules (tm_pgModules (opt m)) \<and> named_modules (tm_mongoModules (opt m))"
  using assms unfolding mw_offered_def
  by (auto simp: WithTenantCache_def WithTenantLoader_def WithRefusalsToErrorHandler_def WithPG_def WithMB_def Let_def intro: named_update)

lemma built_named:
  assumes "\<forall>opt \<in> set opts. mw_offered opt"
  shows "named_modules (tm_pgModules (NewTenantMiddleware opts)) \<and> named_modules (tm_mongoModules (NewTenantMiddleware opts))"
proof -
  have "named_modules (tm_pgModules (foldl (\<lambda>m opt. opt m) m opts)) \<and> named_modules (tm_mongoModules (foldl (\<lambda>m opt. opt m) m opts))"
    if "named_modules (tm_pgModules m) \<and> named_modules (tm_mongoModules m)" for m
    using assms that by (induction opts arbitrary: m) (simp_all add: option_named)
  from this [of "\<lparr>tm_postgres = None, tm_mongo = None, tm_cache = False, tm_loader = None,
      tm_pgModules = [], tm_mongoModules = [], tm_enabled = False, tm_refusalsToErrorHandler = False\<rparr>"]
  show ?thesis by (simp add: NewTenantMiddleware_def Let_def named_modules_def)
qed

lemma targets_distinct:
  assumes "named_modules ms" and "distinct order" and "set order = set ms"
  shows "distinct (map (slot_key \<circ> fst) (targets order single))"
proof -
  have "inj_on fst (set order)" using assms(1,3) by (simp add: named_modules_def distinct_map)
  then have "distinct (map fst order)" using assms(2) by (simp add: distinct_map)
  moreover have "map (slot_key \<circ> fst) (map (\<lambda>(m, p). (Some m, p)) order) = map fst order"
    by (auto simp: slot_key_def)
  moreover have "[] \<notin> set (map fst order)" using assms(1,3) by (auto simp: named_modules_def)
  ultimately show ?thesis by (simp add: targets_def slot_key_def del: map_map)
qed

fun obtained_for :: "('p, 'q) obtained \<Rightarrow> string" where
  "obtained_for (Obtained_pg mgr t db) = t"
| "obtained_for (Obtained_mongo mgr t db) = t"

lemma resolvePostgres_ok:
  assumes "resolvePostgres M m order ctx t s = (Inr ctx', s', got)"
    and "named_modules (tm_pgModules m)" and "distinct order" and "set order = set (tm_pgModules m)"
  shows "(md, p) \<in> set (tm_pgModules m) \<Longrightarrow> \<exists>db. GetPGContext ctx' (Some md) = Some db \<and> Obtained_pg p t db \<in> set got"
    and "tm_postgres m \<noteq> None \<Longrightarrow> \<exists>db. GetPGContext ctx' None = Some db \<and> Obtained_pg (tm_postgres m) t db \<in> set got"
  using assms pg.resolved [OF assms(1) [unfolded resolvePostgres_def] targets_distinct [OF assms(2-4)]]
  by (force simp: targets_def)+

lemma resolveMongo_ok:
  assumes "resolveMongo M m order ctx t s = (Inr ctx', s', got)"
    and "named_modules (tm_mongoModules m)" and "distinct order" and "set order = set (tm_mongoModules m)"
  shows "(md, p) \<in> set (tm_mongoModules m) \<Longrightarrow> \<exists>db. GetMBContext ctx' (Some md) = Some db \<and> Obtained_mongo p t db \<in> set got"
    and "tm_mongo m \<noteq> None \<Longrightarrow> \<exists>db. GetMBContext ctx' None = Some db \<and> Obtained_mongo (tm_mongo m) t db \<in> set got"
  using assms mb.resolved [OF assms(1) [unfolded resolveMongo_def] targets_distinct [OF assms(2-4)]]
  by (force simp: targets_def)+

text \<open>Neither resolution touches the tenant or the databases of the other kind.\<close>

lemma resolve_all_keeps:
  assumes "\<And>ctx db k. f (put ctx db k) = f ctx"
  shows "resolve_all put obtain_db record_it ts ctx s = (Inr ctx', s', got) \<Longrightarrow> f ctx' = f ctx"
proof (induction ts arbitrary: ctx s got)
  case (Cons t ts)
  then show ?case by (cases t) (auto simp: assms split: prod.splits sum.splits)
qed simp

lemma resolve_keeps:
  "resolvePostgres M m order ctx t s = (Inr ctx', s', got) \<Longrightarrow> cx_tenantID ctx' = cx_tenantID ctx"
  "resolveMongo M m order ctx t s = (Inr ctx', s', got) \<Longrightarrow> cx_tenantID ctx' = cx_tenantID ctx"
  "resolveMongo M m order ctx t s = (Inr ctx', s', got) \<Longrightarrow> GetPGContext ctx' k = GetPGContext ctx k"
  unfolding resolvePostgres_def resolveMongo_def
  by (erule resolve_all_keeps [rotated], simp add: ContextWithPG_def ContextWithMB_def GetPGContext_def split: option.splits)+

lemma resolve_records:
  "resolvePostgres M m order ctx t s = (r, s', got) \<Longrightarrow> x \<in> set got \<Longrightarrow> obtained_for x = t"
  "resolveMongo M m order ctx t s = (r, s', got) \<Longrightarrow> x \<in> set got \<Longrightarrow> obtained_for x = t"
  unfolding resolvePostgres_def resolveMongo_def by (auto dest!: recorded_by)

text \<open>How a request gets through.\<close>

lemma WithTenantDB_Next:
  assumes "WithTenantDB M unifold uuid_Parse parse E pgo mgo m header ctx n s = (v, s')" and "tm_enabled m" and "vs_result v = Next ctx'"
  obtains t n1 sent ctx1 s1 got1 got2 where "tenant_from_token unifold uuid_Parse parse header = Inr t"
    and "ensureTenantCached m E t n = (Inr (), n1, sent)" and "vs_sent v = sent"
    and "resolvePostgres M m pgo (ContextWithTenantID ctx t) t s = (Inr ctx1, s1, got1)"
    and "resolveMongo M m mgo ctx1 t s1 = (Inr ctx', s', got2)" and "vs_obtained v = got1 @ got2"
  using assms by (auto simp: WithTenantDB_def Let_def mw_refuse_def split: sum.splits prod.splits if_splits)

text \<open>
  C7. A request that the middleware lets through carries the canonical tenant of its token and, for
  every registered manager, a database that this manager handed out for this tenant in this request: one
  under every module's key and, with a generic registration, one under the generic key. No database was
  obtained for any other tenant.
\<close>

theorem request_gets_own_databases:
  assumes "\<forall>opt \<in> set opts. mw_offered opt" and "m = NewTenantMiddleware opts" and "tm_enabled m"
    and "distinct pgo" and "set pgo = set (tm_pgModules m)" and "distinct mgo" and "set mgo = set (tm_mongoModules m)"
    and "WithTenantDB M unifold uuid_Parse parse E pgo mgo m header ctx n s = (v, s')" and "vs_result v = Next ctx'"
  shows "\<exists>t. tenant_from_token unifold uuid_Parse parse header = Inr t \<and> GetTenantIDContext ctx' = t \<and>
    (\<forall>x \<in> set (vs_obtained v). obtained_for x = t) \<and>
    (\<forall>(md, p) \<in> set (tm_pgModules m). \<exists>db. GetPGContext ctx' (Some md) = Some db \<and> Obtained_pg p t db \<in> set (vs_obtained v)) \<and>
    (tm_postgres m \<noteq> None \<longrightarrow> (\<exists>db. GetPGContext ctx' None = Some db \<and> Obtained_pg (tm_postgres m) t db \<in> set (vs_obtained v))) \<and>
    (\<forall>(md, p) \<in> set (tm_mongoModules m). \<exists>db. GetMBContext ctx' (Some md) = Some db \<and> Obtained_mongo p t db \<in> set (vs_obtained v)) \<and>
    (tm_mongo m \<noteq> None \<longrightarrow> (\<exists>db. GetMBContext ctx' None = Some db \<and> Obtained_mongo (tm_mongo m) t db \<in> set (vs_obtained v)))"
proof -
  from built_named [OF assms(1)] assms(2) have named: "named_modules (tm_pgModules m)" "named_modules (tm_mongoModules m)" by auto
  from assms(8,3,9) obtain t n1 sent ctx1 s1 got1 got2 where
    t: "tenant_from_token unifold uuid_Parse parse header = Inr t" and got: "vs_obtained v = got1 @ got2"
    and p: "resolvePostgres M m pgo (ContextWithTenantID ctx t) t s = (Inr ctx1, s1, got1)"
    and q: "resolveMongo M m mgo ctx1 t s1 = (Inr ctx', s', got2)" by (rule WithTenantDB_Next)
  have "GetTenantIDContext ctx' = t"
    using resolve_keeps(2) [OF q] resolve_keeps(1) [OF p] by (simp add: GetTenantIDContext_def ContextWithTenantID_def)
  moreover have "\<forall>x \<in> set (vs_obtained v). obtained_for x = t" using got resolve_records(1) [OF p] resolve_records(2) [OF q] by auto
  moreover note pg = resolvePostgres_ok [OF p named(1) assms(4,5)] and mb = resolveMongo_ok [OF q named(2) assms(6,7)]
  have "\<forall>(md, p) \<in> set (tm_pgModules m). \<exists>db. GetPGContext ctx' (Some md) = Some db \<and> Obtained_pg p t db \<in> set (vs_obtained v)"
    "tm_postgres m \<noteq> None \<longrightarrow> (\<exists>db. GetPGContext ctx' None = Some db \<and> Obtained_pg (tm_postgres m) t db \<in> set (vs_obtained v))"
    using pg got resolve_keeps(3) [OF q] by fastforce+
  moreover have "\<forall>(md, p) \<in> set (tm_mongoModules m). \<exists>db. GetMBContext ctx' (Some md) = Some db \<and> Obtained_mongo p t db \<in> set (vs_obtained v)"
    "tm_mongo m \<noteq> None \<longrightarrow> (\<exists>db. GetMBContext ctx' None = Some db \<and> Obtained_mongo (tm_mongo m) t db \<in> set (vs_obtained v))"
    using mb got by fastforce+
  ultimately show ?thesis using t by blast
qed

text \<open>
  A request of a withdrawn tenant, in whichever spelling the event and the token name it, gets through a
  middleware with cache and loader only on an answer that the Tenant Manager gave to it.
\<close>

theorem withdrawn_tenant_requests_refused:
  assumes "ParseEvent J uuid_Parse data = Inr evt" and "withdraws (ev_EventType evt)" and "addressed V d evt n"
    and "d_loader d = Some l" and "ld_service l = d_service d" and "HandleEvent V d evt n = (r, n')"
    and "tm_enabled m" and "tm_cache m" and "tm_loader m = Some l"
    and "parse (ExtractTokenFromAuthorization unifold header) = Tenant_claim (Some claim)"
    and "CanonicalTenantID uuid_Parse claim = Some (ev_TenantID evt)"
    and "WithTenantDB M unifold uuid_Parse parse E pgo mgo m header ctx n' s = (v, s')" and "vs_result v = Next ctx'"
  shows "\<exists>c config. answered E (config_request c (ev_TenantID evt) (ld_service l)) config \<and>
    vs_sent v = [config_request c (ev_TenantID evt) (ld_service l)]"
proof -
  obtain k where "HandleEvent V d evt n = (None, removeTenant d (ev_TenantID evt) k)"
    using withdrawal_removes [OF assms(2,3)] by blast
  with assms(6) have cold: "cold l (ev_TenantID evt) n'" using removeTenant_cold [OF assms(4,5), of "ev_TenantID evt" k] by auto
  from assms(12,7,13) obtain t n1 sent where
    t: "tenant_from_token unifold uuid_Parse parse header = Inr t" and e: "ensureTenantCached m E t n' = (Inr (), n1, sent)"
    and sent: "vs_sent v = sent" by (rule WithTenantDB_Next)
  have "t = ev_TenantID evt" using t assms(10,11) by (auto simp: tenant_from_token_def Let_def split: if_splits)
  moreover have "tc_Get (nd_cache n') (ev_TenantID evt) (e_now E) = (None, nd_cache n')" using cold by (simp add: cold_def tc_Get_def)
  ultimately obtain config where "LoadTenant l E (ev_TenantID evt) n' = (Inr config, n1, sent)"
    using e assms(8,9) by (auto simp: ensureTenantCached_def split: sum.splits prod.splits)
  from cold_load(1) [OF cold this refl] sent show ?thesis by blast
qed

text \<open>What a client learns of a failed resolution: only the class of the error, and of a suspension its status.\<close>

definition sentinels :: "tenant_error list" where
  "sentinels = [ErrAuthorizationTokenRequired, ErrInvalidAuthorizationToken, ErrInvalidTenantClaims, ErrMissingTenantIDClaim,
     ErrTenantNotFound, ErrTenantServiceAccessDenied, ErrManagerClosed, ErrServiceNotConfigured, ErrCircuitBreakerOpen, ErrConnectionFailed]"

definition status_told :: "tenant_error \<Rightarrow> string option" where
  "status_told e = (case as_suspended e of Some (TenantSuspendedError _ status _) \<Rightarrow> Some status | _ \<Rightarrow> None)"

lemma as_suspended_shape: "as_suspended e = Some x \<Longrightarrow> \<exists>t s m. x = TenantSuspendedError t s m"
proof -
  assume "as_suspended e = Some x"
  then have "suspended x" by (auto simp: as_suspended_def find_Some_iff)
  then show ?thesis by (cases x) simp_all
qed

theorem refusal_tells_class_only:
  assumes "\<forall>k \<in> set sentinels. errors_Is e k = errors_Is e' k" and "status_told e = status_told e'"
  shows "(domainRefusal e t)\<lparr>rf_cause := c\<rparr> = (domainRefusal e' t)\<lparr>rf_cause := c\<rparr>"
proof -
  have shape: "\<exists>t m. as_suspended x = Some (TenantSuspendedError t s m)" if "status_told x = Some s" for x s
    using that by (auto simp: status_told_def split: option.splits tenant_error.splits)
  have none: "as_suspended x = None" if "status_told x = None" for x
    using that as_suspended_shape [of x] by (cases "as_suspended x") (auto simp: status_told_def)
  note defs = domainRefusal_def newRefusal_def unauthorizedRefusal_def serviceUnavailableRefusal_def if_distrib [of "rf_cause_update (\<lambda>_. c)"]
  show ?thesis
  proof (cases "status_told e")
    case None
    with assms none [of e] none [of e'] show ?thesis by (simp add: defs sentinels_def cong: if_cong)
  next
    case (Some s)
    with assms(2) shape obtain t1 m1 t2 m2 where "as_suspended e = Some (TenantSuspendedError t1 s m1)"
      "as_suspended e' = Some (TenantSuspendedError t2 s m2)" by metis
    with assms(1) show ?thesis by (simp add: defs sentinels_def cong: if_cong)
  qed
qed

text \<open>A request with managers that hand out their own number with the tenant's name.\<close>

type_synonym example_db = "nat option \<times> string"

definition example_managers :: "(example_db, example_db, example_db, unit) tenant_managers" where
  "example_managers =
     \<lparr>GetConnection = (\<lambda>mgr t s. (Inr (mgr, t), s)), GetDB = (\<lambda>conn s. (Inr conn, s)), GetDatabaseForTenant = (\<lambda>mgr t s. (Inr (mgr, t), s))\<rparr>"

definition example_middleware :: TenantMiddleware where
  "example_middleware = NewTenantMiddleware [WithPG (Some 1) [''tx''], WithPG (Some 2) [], WithMB (Some 3) []]"

definition example_visit :: "(example_db, example_db) visit \<times> unit" where
  "example_visit =
     WithTenantDB example_managers (\<lambda>_ _. False) (\<lambda>_. None) (\<lambda>_. Tenant_claim (Some ''acme'')) (example_env 5) [(''tx'', Some 1)] []
       example_middleware ''Bearer abc'' \<lparr>cx_tenantID = None, cx_pg = Map.empty, cx_mongo = Map.empty\<rparr> example_node ()"

lemma example_middleware_simps:
  "tm_enabled example_middleware" "tm_pgModules example_middleware = [(''tx'', Some 1)]" "tm_mongoModules example_middleware = []"
  "tm_postgres example_middleware = Some 2"
  by (simp_all add: example_middleware_def NewTenantMiddleware_def WithPG_def WithMB_def)

lemma example_tenant: "tenant_from_token (\<lambda>_ _. False) (\<lambda>_. None) (\<lambda>_. Tenant_claim (Some ''acme'')) ''Bearer abc'' = Inr ''acme''"
  by code_simp

lemma example_passes: "case vs_result (fst example_visit) of Next c \<Rightarrow> True | _ \<Rightarrow> False"
  by code_simp

theorem request_gets_own_databases_witness:
  "\<exists>ctx' db db'. vs_result (fst example_visit) = Next ctx' \<and> GetTenantIDContext ctx' = ''acme'' \<and>
     GetPGContext ctx' (Some ''tx'') = Some db \<and> Obtained_pg (Some 1) ''acme'' db \<in> set (vs_obtained (fst example_visit)) \<and>
     GetPGContext ctx' None = Some db' \<and> Obtained_pg (Some 2) ''acme'' db' \<in> set (vs_obtained (fst example_visit))"
proof -
  from example_passes obtain ctx' where c: "vs_result (fst example_visit) = Next ctx'" by (auto split: handled.splits)
  have o: "\<forall>opt \<in> set [WithPG (Some 1) [''tx''], WithPG (Some 2) [], WithMB (Some 3) []]. mw_offered opt"
    by (auto simp: mw_offered_def)
  have v: "WithTenantDB example_managers (\<lambda>_ _. False) (\<lambda>_. None) (\<lambda>_. Tenant_claim (Some ''acme'')) (example_env 5) [(''tx'', Some 1)] []
       example_middleware ''Bearer abc'' \<lparr>cx_tenantID = None, cx_pg = Map.empty, cx_mongo = Map.empty\<rparr> example_node () = (fst example_visit, ())"
    unfolding example_visit_def [symmetric] by (simp add: prod_eq_iff)
  from request_gets_own_databases [OF o example_middleware_def example_middleware_simps(1) _ _ _ _ v c] c example_tenant
  show ?thesis by (auto simp: example_middleware_simps)
qed

end
