(* ===== verification/Redis_Lock.thy ===== *)
theory Redis_Lock
  imports Go_Float Commons_Prelude
begin

text \<open>
  \<open>commons/redis/lock.go\<close>: running a function under a distributed lock, and handles to one. The lock itself is
  the mutex of the package redsync, a parameter over a state that all processes share; its attempt to
  lock fails because the key is taken, because the quorum failed, or by a fault. Logging and tracing are left
  out, and the name of the key in messages.
\<close>

subsection \<open>Options\<close>

definition maxLockTries :: int where "maxLockTries = 1000"

record LockOptions =
  lo_Expiry :: int
  lo_Tries :: int
  lo_RetryDelay :: int
  lo_DriftFactor :: ratio

text \<open>The drift factor is the \<open>float64\<close> nearest to 0.01.\<close>

definition DefaultLockOptions :: LockOptions where
  "DefaultLockOptions =
     \<lparr>lo_Expiry = 10000000000, lo_Tries = 3, lo_RetryDelay = 500000000, lo_DriftFactor = Ratio (5764607523034235 / 576460752303423488)\<rparr>"

definition RateLimiterLockOptions :: LockOptions where
  "RateLimiterLockOptions =
     \<lparr>lo_Expiry = 2000000000, lo_Tries = 2, lo_RetryDelay = 100000000, lo_DriftFactor = Ratio (5764607523034235 / 576460752303423488)\<rparr>"

datatype lock_failure = ErrTaken | ErrFailed | Lock_fault

datatype 'e lock_error =
    ErrNilLockHandle | ErrLockNotHeld | ErrLockNotInitialized | ErrNilLockFn | ErrEmptyLockKey | ErrLockExpiryInvalid
  | ErrLockTriesInvalid | ErrLockTriesExceeded | ErrLockRetryDelayNegative | ErrLockDriftFactorInvalid
  | ErrNilLockHandleOnUnlock | ErrLockContended lock_failure | Not_acquired lock_failure
  | Function_failed 'e | Unlock_failed | Context_ended | Extend_failed

definition validateLockOptions :: "LockOptions \<Rightarrow> 'e lock_error + unit" where
  "validateLockOptions opts =
     (if lo_Expiry opts < 1000000 then Inl ErrLockExpiryInvalid
      else if lo_Tries opts < 1 then Inl ErrLockTriesInvalid
      else if maxLockTries < lo_Tries opts then Inl ErrLockTriesExceeded
      else if lo_RetryDelay opts < 0 then Inl ErrLockRetryDelayNegative
      else if ratio_less (lo_DriftFactor opts) 0 \<or> ratio_greater (lo_DriftFactor opts) 1 \<or> lo_DriftFactor opts = Ratio 1
      then Inl ErrLockDriftFactorInvalid
      else Inr ())"

subsection \<open>The mutex\<close>

text \<open>
  A mutex for a key with its expiry and drift factor; one attempt to lock; releasing, which tells whether it was held; and
  extending, which tells whether that succeeded or how it failed.
\<close>

record ('m, 's) redsync =
  rs_NewMutex :: "string \<Rightarrow> int \<Rightarrow> ratio \<Rightarrow> 'm"
  rs_TryLock :: "'m \<Rightarrow> 's \<Rightarrow> lock_failure option \<times> 'm \<times> 's"
  rs_Unlock :: "'m \<Rightarrow> 's \<Rightarrow> bool option \<times> 'm \<times> 's"
  rs_Extend :: "'m \<Rightarrow> 's \<Rightarrow> lock_failure option \<times> 'm \<times> 's"

definition isLeaseLost :: "lock_failure \<Rightarrow> bool" where
  "isLeaseLost err \<longleftrightarrow> err = ErrTaken"

definition isLockContention :: "lock_failure \<Rightarrow> bool" where
  "isLockContention err \<longleftrightarrow> err = ErrFailed \<or> err = ErrTaken"

datatype lockOutcome = lockTaken | lockContended | lockCallerDone | lockFaulted

definition classifyLockFailure :: "lock_failure \<Rightarrow> bool \<Rightarrow> lockOutcome" where
  "classifyLockFailure err callerDoneAtStart =
     (if isLockContention err then lockContended else if callerDoneAtStart then lockCallerDone else lockFaulted)"

text \<open>
  The loop from an attempt on, with the number of attempts that may follow; \<open>ended attempt\<close> is whether the context ends
  while the attempt of that number is waited for. The failures so far are kept.
\<close>

primrec acquire_loop ::
  "('m, 's) redsync \<Rightarrow> bool \<Rightarrow> (nat \<Rightarrow> bool) \<Rightarrow> nat \<Rightarrow> nat \<Rightarrow> 'm \<Rightarrow> 's \<Rightarrow> lockOutcome \<times> lock_failure list \<times> 'm \<times> 's" where
  "acquire_loop R done0 ended 0 attempt m s =
     (case rs_TryLock R m s of
        (None, m, s) \<Rightarrow> (lockTaken, [], m, s)
      | (Some e, m, s) \<Rightarrow> (classifyLockFailure e done0, [e], m, s))"
| "acquire_loop R done0 ended (Suc k) attempt m s =
     (case rs_TryLock R m s of
        (None, m, s) \<Rightarrow> (lockTaken, [], m, s)
      | (Some e, m, s) \<Rightarrow>
          if ended (Suc attempt) then (classifyLockFailure e done0, [e], m, s)
          else (case acquire_loop R done0 ended k (Suc attempt) m s of (o', es, m, s) \<Rightarrow> (o', e # es, m, s)))"

definition acquireLock ::
  "('m, 's) redsync \<Rightarrow> bool \<Rightarrow> (nat \<Rightarrow> bool) \<Rightarrow> LockOptions \<Rightarrow> 'm \<Rightarrow> 's \<Rightarrow> lockOutcome \<times> lock_failure list \<times> 'm \<times> 's" where
  "acquireLock R callerDoneAtStart ended opts m s = acquire_loop R callerDoneAtStart ended (nat (lo_Tries opts - 1)) 0 m s"

subsection \<open>Running under a lock\<close>

text \<open>A manager is whether its redsync is set. A function works on the shared state; \<open>None\<close> is a nil one.\<close>

definition WithLockOptions ::
  "('m, 's) redsync option \<Rightarrow> bool \<Rightarrow> (nat \<Rightarrow> bool) \<Rightarrow> string \<Rightarrow> LockOptions \<Rightarrow> ('s \<Rightarrow> 'e option \<times> 's) option \<Rightarrow> 's \<Rightarrow> ('e lock_error + unit) \<times> 's" where
  "WithLockOptions rs callerDone ended lockKey opts fn s =
     (case rs of
        None \<Rightarrow> (Inl ErrLockNotInitialized, s)
      | Some R \<Rightarrow>
          (case fn of
             None \<Rightarrow> (Inl ErrNilLockFn, s)
           | Some f \<Rightarrow>
               if trim_space lockKey = [] then (Inl ErrEmptyLockKey, s)
               else (case validateLockOptions opts of
                   Inl e \<Rightarrow> (Inl e, s)
                 | Inr _ \<Rightarrow>
                     (case acquireLock R callerDone ended opts (rs_NewMutex R lockKey (lo_Expiry opts) (lo_DriftFactor opts)) s of
                        (lockTaken, es, m, s) \<Rightarrow>
                          (case f s of
                             (err, s) \<Rightarrow>
                               (case err of Some e \<Rightarrow> Inl (Function_failed e) | None \<Rightarrow> Inr (), snd (snd (rs_Unlock R m s))))
                      | (lockContended, es, m, s) \<Rightarrow> (Inl (ErrLockContended (last es)), s)
                      | (_, es, m, s) \<Rightarrow> (Inl (Not_acquired (last es)), s)))))"

definition WithLock ::
  "('m, 's) redsync option \<Rightarrow> bool \<Rightarrow> (nat \<Rightarrow> bool) \<Rightarrow> string \<Rightarrow> ('s \<Rightarrow> 'e option \<times> 's) option \<Rightarrow> 's \<Rightarrow> ('e lock_error + unit) \<times> 's" where
  "WithLock rs callerDone ended lockKey fn s = WithLockOptions rs callerDone ended lockKey DefaultLockOptions fn s"

subsection \<open>Handles\<close>

definition tryLock ::
  "('m, 's) redsync option \<Rightarrow> bool \<Rightarrow> (nat \<Rightarrow> bool) \<Rightarrow> string \<Rightarrow> LockOptions \<Rightarrow> 's \<Rightarrow> ('e lock_error + 'm option) \<times> 's" where
  "tryLock rs callerDone ended lockKey opts s =
     (case rs of
        None \<Rightarrow> (Inl ErrLockNotInitialized, s)
      | Some R \<Rightarrow>
          if trim_space lockKey = [] then (Inl ErrEmptyLockKey, s)
          else (case validateLockOptions opts of
              Inl e \<Rightarrow> (Inl e, s)
            | Inr _ \<Rightarrow>
                (case acquireLock R callerDone ended opts (rs_NewMutex R lockKey (lo_Expiry opts) (lo_DriftFactor opts)) s of
                   (lockTaken, es, m, s) \<Rightarrow> (Inr (Some m), s)
                 | (lockContended, es, m, s) \<Rightarrow> (Inr None, s)
                 | (_, es, m, s) \<Rightarrow> (Inl (Not_acquired (last es)), s))))"

definition TryLock :: "('m, 's) redsync option \<Rightarrow> bool \<Rightarrow> (nat \<Rightarrow> bool) \<Rightarrow> string \<Rightarrow> 's \<Rightarrow> ('e lock_error + 'm option) \<times> 's" where
  "TryLock rs callerDone ended lockKey s = tryLock rs callerDone ended lockKey (DefaultLockOptions\<lparr>lo_Tries := 1\<rparr>) s"

definition TryLockWithOptions ::
  "('m, 's) redsync option \<Rightarrow> bool \<Rightarrow> (nat \<Rightarrow> bool) \<Rightarrow> string \<Rightarrow> LockOptions \<Rightarrow> 's \<Rightarrow> ('e lock_error + 'm option) \<times> 's" where
  "TryLockWithOptions rs callerDone ended lockKey opts s = tryLock rs callerDone ended lockKey opts s"

definition handle_Unlock :: "('m, 's) redsync \<Rightarrow> 'm option \<Rightarrow> 's \<Rightarrow> ('e lock_error + unit) \<times> 's" where
  "handle_Unlock R h s =
     (case h of
        None \<Rightarrow> (Inl ErrNilLockHandle, s)
      | Some m \<Rightarrow>
          (case rs_Unlock R m s of
             (None, m, s) \<Rightarrow> (Inl Unlock_failed, s)
           | (Some ok, m, s) \<Rightarrow> (if ok then Inr () else Inl ErrLockNotHeld, s)))"

definition handle_Extend :: "('m, 's) redsync \<Rightarrow> bool \<Rightarrow> 'm option \<Rightarrow> 's \<Rightarrow> ('e lock_error + bool) \<times> 'm option \<times> 's" where
  "handle_Extend R callerDone h s =
     (case h of
        None \<Rightarrow> (Inl ErrNilLockHandle, None, s)
      | Some m \<Rightarrow>
          if callerDone then (Inl Context_ended, Some m, s)
          else (case rs_Extend R m s of
              (None, m, s) \<Rightarrow> (Inr True, Some m, s)
            | (Some e, m, s) \<Rightarrow> (if isLeaseLost e then Inr False else Inl Extend_failed, Some m, s)))"

text \<open>\<open>RedisLockManager.Unlock\<close>; the first \<open>None\<close> is a nil interface.\<close>

definition manager_Unlock :: "('m, 's) redsync \<Rightarrow> 'm option option \<Rightarrow> 's \<Rightarrow> ('e lock_error + unit) \<times> 's" where
  "manager_Unlock R handle s = (case handle of None \<Rightarrow> (Inl ErrNilLockHandleOnUnlock, s) | Some h \<Rightarrow> handle_Unlock R h s)"

subsection \<open>Laws\<close>

text \<open>A run of attempts that all failed.\<close>

inductive failed_attempts :: "('m, 's) redsync \<Rightarrow> 'm \<Rightarrow> 's \<Rightarrow> lock_failure list \<Rightarrow> 'm \<Rightarrow> 's \<Rightarrow> bool" for R where
  none_failed: "failed_attempts R m s [] m s"
| one_failed: "rs_TryLock R m s = (Some e, m1, s1) \<Longrightarrow> failed_attempts R m1 s1 es m' s' \<Longrightarrow> failed_attempts R m s (e # es) m' s'"

text \<open>
  An acquisition tries until an attempt succeeds, the attempts are used up or the context ends in a
  pause; what it reports is decided by the last attempt.
\<close>

lemma classify_not_taken [simp]: "classifyLockFailure e d \<noteq> lockTaken"
  by (simp add: classifyLockFailure_def)

lemma acquire_loop_spec:
  assumes "acquire_loop R d ended k attempt m s = (res, es, m', s')"
  shows "if res = lockTaken
    then length es \<le> k \<and> (\<exists>m0 s0. failed_attempts R m s es m0 s0 \<and> rs_TryLock R m0 s0 = (None, m', s'))
    else es \<noteq> [] \<and> length es \<le> Suc k \<and> failed_attempts R m s es m' s' \<and> res = classifyLockFailure (last es) d \<and>
      (length es = Suc k \<or> ended (attempt + length es))"
  using assms
proof (induction k arbitrary: attempt m s es)
  case 0
  then show ?case by (auto split: prod.splits option.splits intro: failed_attempts.intros)
next
  case (Suc k)
  show ?case
  proof (cases "fst (rs_TryLock R m s)")
    case None
    with Suc.prems show ?thesis by (auto split: prod.splits option.splits intro: failed_attempts.intros)
  next
    case (Some e)
    then obtain m1 s1 where t: "rs_TryLock R m s = (Some e, m1, s1)" by (cases "rs_TryLock R m s") auto
    show ?thesis
    proof (cases "ended (Suc attempt)")
      case True
      with Suc.prems t show ?thesis by (auto intro: failed_attempts.intros)
    next
      case False
      with Suc.prems t obtain es1 where rest: "acquire_loop R d ended k (Suc attempt) m1 s1 = (res, es1, m', s')" and es: "es = e # es1"
        by (auto split: prod.splits)
      from Suc.IH [OF rest] t es show ?thesis by (auto intro: one_failed split: if_splits)
    qed
  qed
qed

text \<open>
  With valid arguments a function runs under the lock exactly when one of at most \<open>Tries\<close> attempts succeeds, once, from the
  state that attempt left; whatever it returns, the mutex that was locked is released after it. Otherwise it does not
  run, and contention is reported exactly when the last attempt found it.
\<close>

theorem function_runs_under_lock:
  fixes R :: "('m, 's) redsync" and f :: "'s \<Rightarrow> 'e option \<times> 's"
  assumes "trim_space key \<noteq> []" and "validateLockOptions opts = (Inr () :: 'e lock_error + unit)"
    and "WithLockOptions (Some R) d ended key opts (Some f) s = (r, s')"
  shows "\<exists>es m s1. failed_attempts R (rs_NewMutex R key (lo_Expiry opts) (lo_DriftFactor opts)) s es m s1 \<and>
    ((\<exists>m1 s2. int (length es) < lo_Tries opts \<and> rs_TryLock R m s1 = (None, m1, s2) \<and>
        s' = snd (snd (rs_Unlock R m1 (snd (f s2)))) \<and> r = (case fst (f s2) of None \<Rightarrow> Inr () | Some e \<Rightarrow> Inl (Function_failed e))) \<or>
     (es \<noteq> [] \<and> int (length es) \<le> lo_Tries opts \<and> s' = s1 \<and>
        r = Inl (if isLockContention (last es) then ErrLockContended (last es) else Not_acquired (last es))))"
proof -
  let ?m = "rs_NewMutex R key (lo_Expiry opts) (lo_DriftFactor opts)"
  have tries: "1 \<le> lo_Tries opts" using assms(2) by (auto simp: validateLockOptions_def split: if_splits)
  obtain res es m' s1 where a: "acquireLock R d ended opts ?m s = (res, es, m', s1)" by (metis prod_cases4)
  note spec = acquire_loop_spec [OF a [unfolded acquireLock_def]]
  obtain err s2 where f: "f s1 = (err, s2)" by fastforce
  show ?thesis
  proof (cases "res = lockTaken")
    case True
    with spec obtain m0 s0 where "length es \<le> nat (lo_Tries opts - 1)" "failed_attempts R ?m s es m0 s0"
      "rs_TryLock R m0 s0 = (None, m', s1)" by auto
    with True a assms f tries show ?thesis
      by (intro exI [of _ es] exI [of _ m0] exI [of _ s0]) (auto simp: WithLockOptions_def split: option.splits)
  next
    case False
    with spec have "es \<noteq> []" "length es \<le> Suc (nat (lo_Tries opts - 1))" "failed_attempts R ?m s es m' s1"
      "res = classifyLockFailure (last es) d" by auto
    with a assms tries show ?thesis
      by (intro exI [of _ es] exI [of _ m'] exI [of _ s1])
         (auto simp: WithLockOptions_def classifyLockFailure_def split: if_splits)
  qed
qed

text \<open>A drift factor that is not a number passes the validation of a factor between zero and one.\<close>

lemma not_a_number_drift: "validateLockOptions (DefaultLockOptions\<lparr>lo_DriftFactor := Not_a_number\<rparr>) = Inr ()"
  by (simp add: validateLockOptions_def DefaultLockOptions_def maxLockTries_def ratio_less_def ratio_greater_def)

end
