(* ===== verification/Spec2Isabelle.thy ===== *)
theory Spec2Isabelle
  imports Transaction Outbox_Claims Outbox_Delivery Outbox_Scheduling Cron Ssrf_Validate Dlq_Laws Idempotency_Laws Signed_Cursor Pagination Pacing_Laws Outbox_Mongo_Laws Webhook_Laws Ratelimit_Laws Tenant_Gate Tenant_Loads Jwt Circuit_Breaker_Laws Rabbit_Publisher_Laws Tenant_Middleware Redis_Lock
begin

text \<open>
  The repository is a Go library of building blocks for financial services. This development models
  the parts of it that carry logic of their own and proves what they promise. The definitions are
  translations of the functions of the same names under \<^verbatim>\<open>src/commons\<close>; errors are values of sum
  types, loops are recursive functions, and code outside the repository (drivers, the network, JSON,
  hashing, clocks, random sources) is a parameter.

  \<^bold>\<open>The parts and their theories.\<close>

  \<^item> \<open>Commons_Prelude\<close>: results and loops with early return (\<open>bind_res\<close>, \<open>fold_res\<close>, \<open>map_res\<close>), white
    space, decimal digits, text, and the machine integers of 64 bits (\<open>wrap64\<close>). \<open>Go_Text\<close>: decimal and
    hexadecimal printing, which is injective, and splitting. \<open>Commons_Env\<close> (\<^verbatim>\<open>security.go\<close>): the switches in the
    environment.

  \<^item> \<open>Decimal_Api\<close>, \<open>Transaction\<close> (\<^verbatim>\<open>transaction\<close>, \<^verbatim>\<open>safe\<close>): the decimal type of the library is a locale,
    its contract; intents are split into postings by amount, share and remainder, and postings move
    balances between available and on hold. Shown: plans balance exactly (C1, C2), no balance goes
    negative and every operation conserves money (C3 to C5); eligibility is characterised and is enough to post.

  \<^item> \<open>Outbox_LastError\<close>, \<open>Json_Valid\<close>, \<open>Regex\<close>, \<open>Outbox_Sanitizer\<close> (\<^verbatim>\<open>outbox\<close>): the list of failure causes
    kept with an event (C8, C9), and the redaction of error messages, with the JSON grammar and the
    regular expressions it uses (C10).

  \<^item> \<open>Outbox_Event\<close>, \<open>Outbox_Store\<close>, \<open>Outbox_Lifecycle\<close>, \<open>Outbox_Claims\<close> (\<^verbatim>\<open>outbox\<close>, \<^verbatim>\<open>outbox/postgres\<close>,
    \<^verbatim>\<open>tenant-manager/core\<close>): events, their life cycle, tenants, and the repository over a table of
    rows. Shown: every update follows the life cycle (C11, C12); attempts are bounded, claims are
    exclusive and fair, retention deletes only what it may and tenants are isolated (C13, C15, C19); reclaims mirror what is stored and replayed creates change nothing.

  \<^item> \<open>Backoff\<close> (\<^verbatim>\<open>backoff\<close>): delays that never overflow (\<open>Exponential_saturates\<close>).

  \<^item> \<open>Outbox_Config\<close>, \<open>Outbox_Dispatcher\<close>, \<open>Outbox_Dispatch_Laws\<close>, \<open>Outbox_Delivery\<close>, \<open>Outbox_Scheduling\<close>
    (\<^verbatim>\<open>outbox\<close>): the dispatcher. The repository and the handlers are the locales
    \<open>bounded_repository\<close> and \<open>delivery\<close>, interpreted by the repository above. Shown: a cycle accounts
    for its batch, only delivered events become PUBLISHED (C22), scopes take turns, sweeps keep
    their interval (C24), tables stay bounded (\<open>dispatcher_tables_bounded\<close>).

  \<^item> \<open>Calendar\<close>, \<open>Cron\<close> (\<^verbatim>\<open>cron\<close>): schedules over the proleptic Gregorian calendar. Shown: \<open>Next\<close> is the
    first match (C26), parsed schedules fire (C27), printed fields parse back. The search is bounded by
    the code's own 1461 * 24 * 60 iterations, which suffices because every jump passes at least a
    minute and a month and day that exist recur within four years, except across a skipped leap day.

  \<^item> \<open>Ssrf\<close>, \<open>Ssrf_Validate\<close> (\<^verbatim>\<open>security/ssrf\<close>): addresses as words; the blocklist is exact (C29) and
    accepted URLs are pinned to public addresses (C30).

  \<^item> \<open>Dlq\<close>, \<open>Dlq_Laws\<close> (\<^verbatim>\<open>dlq\<close>): the dead letter queue. Keys keep queues apart, retries stay within
    the budgets (C32), no message vanishes unrecorded but for lost replies
    and values that do not decode (C33).

  \<^item> \<open>Redis_Db\<close>, \<open>Idempotency_Store\<close>, \<open>Idempotency\<close>, \<open>Idempotency_Laws\<close> (\<^verbatim>\<open>net/http/idempotency\<close>): keys with
    a time to live, the scripts of the store and the contract of \<^verbatim>\<open>store.go\<close> as the locale they
    interpret, and the middleware with its policies, fingerprints, capture and replay. Requests of
    several clients interleave store call by store call. Shown: at most one execution for each holding
    of a key (C34) and exact replays (C35).

  \<^item> \<open>Base64\<close>, \<open>Signed_Cursor\<close> (\<^verbatim>\<open>net/http/signedcursor\<close>): page tokens with a keyed hash as parameter; the
    token reads back (C36) and is refused under any other key or binding (C37).

  \<^item> \<open>Pagination\<close> (\<^verbatim>\<open>net/http\<close>): cursors, limits and orderings; a client that walks by next and previous
    tokens always finds the neighbouring rows, and no token where there are none (C38).

  \<^item> \<open>Pacing\<close>, \<open>Pacing_Laws\<close> (\<^verbatim>\<open>net/http/pacing\<close>): the Lua script, the acquire loop and the transport.
    Processes interleave and the clock of Redis may jump; the permits of a bucket are spaced (C39).
    Times are bounded by 2^53, where the doubles of Lua are exact. \<open>Acquire\<close> recurses over the finite
    list of what the environment does at each turn, as the loop ends only by a grant, an error or a
    cancelled context.

  \<^item> \<open>Mongo_Driver\<close>, \<open>Outbox_Mongo\<close>, \<open>Outbox_Mongo_Laws\<close> (\<^verbatim>\<open>outbox/mongo\<close>): the second repository of the
    outbox, as programs whose driver calls interleave and may fail before or after taking effect. The
    claim loop runs at most the code's own eight rounds. Shown: documents stay well-formed and
    readable (C40); \<open>tenant_field_collision\<close> shows why the field name of the tenant must not be one of
    the document's own.

  \<^item> \<open>Webhook_Signature\<close>, \<open>Webhook\<close>, \<open>Webhook_Laws\<close> (\<^verbatim>\<open>webhook\<close>): signatures, target validation over
    \<open>Ssrf_Validate\<close>, the retry loop over \<open>Backoff\<close>, and the fan-out as a transition system with its
    semaphore. Shown: requests go only where the validation allows and are signed (C16), results
    account for the attempts (C18), a fan-out completes (\<open>fan_out_completes\<close>), and what a verified
    signature stands for (C28).

  \<^item> \<open>Tenant_Keys\<close> (\<^verbatim>\<open>tenant-manager/valkey\<close>), \<open>Ratelimit\<close>, \<open>Ratelimit_Laws\<close> (\<^verbatim>\<open>net/http/ratelimit\<close>): the
    fixed-window limiter with its script and storage; the bound on passed requests holds however
    processes interleave (C21), counters are kept apart, a reset stays in its namespace.

  \<^item> \<open>Tenant_Gate\<close> (\<^verbatim>\<open>tenant-manager/internal\<close>): the gate of health checks, whose callers interleave as a
    transition system, and the choice of the connection to evict. Shown: one check at a time, no use of a
    connection that was not itself checked, no lost wake-up (C23); the least recently used idle connection
    makes room.

  \<^item> \<open>Tenant_Config\<close>, \<open>Tenant_Cache\<close>, \<open>Tenant_Client\<close>, \<open>Tenant_Client_Laws\<close>, \<open>Tenant_Events\<close>,
    \<open>Tenant_Events_Laws\<close>, \<open>Tenant_Loads\<close> (\<^verbatim>\<open>tenant-manager/core\<close>, \<^verbatim>\<open>cache\<close>, \<^verbatim>\<open>tenantcache\<close>, \<^verbatim>\<open>client\<close>, \<^verbatim>\<open>event\<close>): the configuration
    of a tenant, the two caches it passes through, the client of the Tenant Manager with its circuit
    breaker, and the dispatcher of life-cycle events. The caches interpret one locale,
    \<open>expiring_cache\<close>. Shown: a lookup answers the latest live write (C6), the breaker is a function of the
    history of its calls and an open one lets nothing out (C14), and after a withdrawal only an answer given
    since is served, apart from what loads that overlap it hold (C17). \<open>Tenant_Loads\<close> cuts loads, calls and
    events into steps that interleave; \<open>load_in_flight_survives_removal\<close> and \<open>removal_window_refills\<close> show
    what overlapping ones can do.

  \<^item> \<open>Jwt\<close> (\<^verbatim>\<open>jwt\<close>): signed tokens over \<open>Base64\<close>. Exactly the tokens with the right HMAC by an allowed
    algorithm are accepted (\<open>Parse_accepts_signed\<close>), signed tokens read back (C31), and time claims bound a
    window (\<open>time_claims_window\<close>).

  \<^item> \<open>Circuit_Breaker\<close>, \<open>Circuit_Breaker_Laws\<close> (\<^verbatim>\<open>circuitbreaker\<close>): the manager of breakers by service and
    tenant, the manager that bypasses them and the health checker; the breaker of gobreaker is a parameter.
    Shown: breakers are kept apart (C25); an accepted configuration trips (\<open>accepted_config_trips\<close>)
    unless its ratio is not a number (\<open>not_a_number_never_trips\<close>).

  \<^item> \<open>Rabbit_Publisher\<close>, \<open>Rabbit_Publisher_Laws\<close> (\<^verbatim>\<open>rabbitmq/publisher.go\<close>): the confirming publisher, its monitor and its
    recovery, whose goroutines interleave with callers, broker and breaking channels in \<open>perform\<close>. Shown: a
    result is true of its message (C20), closing is final (\<open>closed_for_good\<close>), every recovery ends
    (\<open>recovery_ends\<close>). \<open>late_monitor_closes_new_channel\<close> and \<open>late_report_hides_broken_channel\<close> are limits.

  \<^item> \<open>Tenant_Middleware\<close> (\<^verbatim>\<open>tenant-manager/middleware\<close>, \<^verbatim>\<open>core/context.go\<close>): the handler that takes the tenant from the token
    and puts its databases into the request, over the caches, client and loader above; connection managers
    are parameters. Both kinds of databases interpret the locale \<open>keyed_context\<close>. Shown: a request carries its own
    tenant's databases (C7), one of a withdrawn tenant needs a fresh answer (\<open>withdrawn_tenant_requests_refused\<close>),
    and a refusal tells the class of the error only (\<open>refusal_tells_class_only\<close>).

  \<^item> \<open>Redis_Lock\<close> (\<^verbatim>\<open>redis/lock.go\<close>): running a function under a distributed lock and handles to one, over the mutex of
    redsync as a parameter. Shown: attempts are bounded, the function runs at most once and under the lock, which is
    released on every path (\<open>function_runs_under_lock\<close>). \<open>Go_Float\<close> has what is used of floating-point numbers.

  \<^bold>\<open>Interfaces.\<close> The decimal type (\<open>decimal_laws\<close>), the claim queries of the repository (\<open>claim_query\<close>),
  what the dispatcher needs of a repository (\<open>bounded_repository\<close>) and of delivery (\<open>delivery\<close>), the checks
  of a posting's scope (\<open>scoped_check\<close>) and the idempotency store (\<open>idempotency_store\<close>) and caches with
  expiry (\<open>expiring_cache\<close>, \<open>touching_cache\<close>) and the databases of a request (\<open>keyed_context\<close>) are locales; each
  is interpreted on the model's own definitions. \<open>decimal_laws\<close> stands for a type that is not part of the
  repository and is interpreted by scaled integers.

  \<^bold>\<open>Bounds and termination.\<close> Loops over lists are structural. The searches of \<open>cron\<close>, the publish
  attempts of the dispatcher and the claim rounds of the MongoDB repository are bounded by the
  constants of the code. The scan of a Redis key space may run forever, and is a partial function
  whose results are shown under the assumption that cursors end. Machine integers are reduced with
  \<open>wrap64\<close> wherever the code adds to a counter, but for the failure count of the Tenant Manager client,
  which calls over a network do not take past 64 bits.

  \<^bold>\<open>Not modelled.\<close> The adapters that open and pool connections (\<^verbatim>\<open>postgres\<close>, \<^verbatim>\<open>mongo\<close>, \<^verbatim>\<open>redis\<close>, \<^verbatim>\<open>rabbitmq\<close>
  and those of \<^verbatim>\<open>tenant-manager\<close>), the launcher and the shutdown of the process, telemetry, and thin wrappers of
  third-party or standard packages: their behaviour is that of the packages they call.
\<close>

end
